(* ===== verification/KPrelude.thy ===== *)
theory KPrelude
  imports Main "HOL-Library.Word"
begin

unbundle bit_operations_syntax

text \<open>
  Shared vocabulary of the development: the machine types of the C++ sources, the
  fact collections the component theories feed, and generic lemmas on lists and
  words that several components use.
\<close>

section \<open>Machine types\<close>

type_synonym byte = "8 word"   \<comment> \<open>\<^verbatim>\<open>u_char\<close>\<close>
type_synonym u32 = "32 word"   \<comment> \<open>\<^verbatim>\<open>uint32_t\<close>\<close>
type_synonym u64 = "64 word"   \<comment> \<open>\<^verbatim>\<open>size_t\<close>, \<^verbatim>\<open>uintptr_t\<close>\<close>

lemma byte_less_256 [simp]: "unat (b :: byte) < 256"
  using unsigned_less [of b, where ?'a = nat] by simp

lemma take_bit_word_self: "unat w < 2 ^ n \<Longrightarrow> take_bit n w = w"
  by (simp add: word_unat_eq_iff unsigned_take_bit_eq take_bit_nat_eq_self)

lemma unat_and_mask: "unat (w AND (2 ^ n - 1)) = unat w mod 2 ^ n"
proof -
  have "w AND (2 ^ n - 1) = take_bit n w" by (simp add: take_bit_eq_mask mask_eq_exp_minus_1)
  then have "unat (w AND (2 ^ n - 1)) = take_bit n (unat w)" by (simp only: unsigned_take_bit_eq)
  then show ?thesis by (simp only: take_bit_eq_mod)
qed

text \<open>The octets of a string literal.\<close>

definition bytes :: "string \<Rightarrow> byte list" where
  "bytes s = map of_char s"

text \<open>The decimal digits \<^verbatim>\<open>%d\<close> prints for a natural number.\<close>

fun decimal :: "nat \<Rightarrow> byte list" where
  "decimal n = (if n < 10 then [of_nat (48 + n)] else decimal (n div 10) @ [of_nat (48 + n mod 10)])"

declare decimal.simps [simp del]

text \<open>The character folding macro of \<^verbatim>\<open>include/khttp.h.in\<close>.\<close>

definition kgl_tolower :: "byte \<Rightarrow> byte" where
  "kgl_tolower c = (if 65 \<le> c \<and> c \<le> 90 then c OR 0x20 else c)"

section \<open>Lists of equally long blocks\<close>

lemma concat_length_uniform:
  "\<forall>b \<in> set bs. length b = k \<Longrightarrow> length (concat bs) = k * length bs"
  by (induction bs) auto

lemma concat_nth_uniform:
  assumes "\<forall>b \<in> set bs. length b = k" "0 < k" "i < k * length bs"
  shows "concat bs ! i = bs ! (i div k) ! (i mod k)"
  using assms
proof (induction bs arbitrary: i)
  case Nil
  then show ?case by simp
next
  case (Cons b bs)
  show ?case
  proof (cases "i < k")
    case True
    with Cons.prems show ?thesis by (simp add: nth_append)
  next
    case False
    with Cons.prems have "concat bs ! (i - k) = bs ! ((i - k) div k) ! ((i - k) mod k)"
      by (intro Cons.IH) auto
    moreover from False Cons.prems have "i div k = Suc ((i - k) div k)" "i mod k = (i - k) mod k"
      by (simp_all add: le_div_geq le_mod_geq)
    ultimately show ?thesis using False Cons.prems by (simp add: nth_append)
  qed
qed

text \<open>A property of every block, indexed by the position of its first element.\<close>

fun blocks_all :: "(nat \<Rightarrow> 'a list \<Rightarrow> bool) \<Rightarrow> nat \<Rightarrow> nat \<Rightarrow> 'a list list \<Rightarrow> bool" where
  "blocks_all P d i [] = True"
| "blocks_all P d i (b # bs) \<longleftrightarrow> P i b \<and> blocks_all P d (i + d) bs"

lemma blocks_all_nth:
  "blocks_all P d i bs \<Longrightarrow> k < length bs \<Longrightarrow> P (i + d * k) (bs ! k)"
proof (induction bs arbitrary: i k)
  case (Cons b bs)
  show ?case
  proof (cases k)
    case 0
    with Cons.prems show ?thesis by simp
  next
    case (Suc m)
    with Cons.prems have "P (i + d + d * m) (bs ! m)" by (intro Cons.IH) auto
    with Suc show ?thesis by (simp add: add.assoc)
  qed
qed simp

section \<open>Positions in a ring\<close>

lemma ring_mod: "(x::nat) < 2 * n \<Longrightarrow> x mod n = (if x < n then x else x - n)"
  by (simp add: le_mod_geq)

lemma mod_ring_neq:
  assumes "(x::nat) < y" "y < x + n"
  shows "x mod n \<noteq> y mod n"
proof
  assume "x mod n = y mod n"
  with assms(1) have "n dvd y - x" by (metis less_imp_le mod_eq_dvd_iff_nat)
  with assms show False by (auto dest: dvd_imp_le)
qed

section \<open>Bit strings of numbers\<close>

text \<open>\<open>nbits l v\<close> is the big-endian bit string of length \<open>l\<close> of the number \<open>v\<close>.\<close>

primrec nbits :: "nat \<Rightarrow> nat \<Rightarrow> bool list" where
  "nbits 0 v = []"
| "nbits (Suc l) v = nbits l (v div 2) @ [odd v]"

lemma length_nbits [simp]: "length (nbits l v) = l"
  by (induction l arbitrary: v) auto

text \<open>The same with an accumulator, which evaluates without appending.\<close>

primrec nbits_acc :: "nat \<Rightarrow> nat \<Rightarrow> bool list \<Rightarrow> bool list" where
  "nbits_acc 0 v acc = acc"
| "nbits_acc (Suc l) v acc = nbits_acc l (v div 2) (odd v # acc)"

lemma nbits_acc: "nbits_acc l v acc = nbits l v @ acc"
  by (induction l arbitrary: v acc) auto

text \<open>Evaluation on numerals reads the bits off the numeral, with no division.\<close>

lemma nbits_acc_num:
  "nbits_acc (numeral l) (numeral (num.Bit0 k)) acc = nbits_acc (pred_numeral l) (numeral k) (False # acc)"
  "nbits_acc (numeral l) (numeral (num.Bit1 k)) acc = nbits_acc (pred_numeral l) (numeral k) (True # acc)"
  "nbits_acc (numeral l) 1 acc = nbits_acc (pred_numeral l) 0 (True # acc)"
  "nbits_acc (numeral l) (Suc 0) acc = nbits_acc (pred_numeral l) 0 (True # acc)"
  "nbits_acc (numeral l) 0 acc = nbits_acc (pred_numeral l) 0 (False # acc)"
  "nbits_acc 1 v acc = odd v # acc"
proof -
  have "nbits_acc (numeral l) v acc = nbits_acc (pred_numeral l) (v div 2) (odd v # acc)" for v
    by (simp only: numeral_eq_Suc nbits_acc.simps)
  then show "nbits_acc (numeral l) (numeral (num.Bit0 k)) acc = nbits_acc (pred_numeral l) (numeral k) (False # acc)"
    "nbits_acc (numeral l) (numeral (num.Bit1 k)) acc = nbits_acc (pred_numeral l) (numeral k) (True # acc)"
    "nbits_acc (numeral l) 1 acc = nbits_acc (pred_numeral l) 0 (True # acc)"
    "nbits_acc (numeral l) (Suc 0) acc = nbits_acc (pred_numeral l) 0 (True # acc)"
    "nbits_acc (numeral l) 0 acc = nbits_acc (pred_numeral l) 0 (False # acc)"
    by simp_all
qed simp

lemma nbits_append:
  "w < 2 ^ m \<Longrightarrow> nbits l v @ nbits m w = nbits (l + m) (v * 2 ^ m + w)"
proof (induction m arbitrary: w)
  case 0
  then show ?case by simp
next
  case (Suc m)
  have "nbits l v @ nbits m (w div 2) = nbits (l + m) (v * 2 ^ m + w div 2)"
    using Suc.prems by (intro Suc.IH) simp
  moreover have "(v * 2 ^ Suc m + w) div 2 = v * 2 ^ m + w div 2"
    by (simp add: mult.commute)
  ultimately show ?case by simp
qed

lemma nbits_inj:
  "nbits l v = nbits l w \<Longrightarrow> v < 2 ^ l \<Longrightarrow> w < 2 ^ l \<Longrightarrow> v = w"
proof (induction l arbitrary: v w)
  case 0
  then show ?case by simp
next
  case (Suc l)
  then have "v div 2 = w div 2" by (intro Suc.IH) auto
  moreover from Suc.prems have "odd v = odd w" by simp
  ultimately show ?case by (metis odd_two_times_div_two_succ even_two_times_div_two)
qed

lemma nbits_ones: "nbits l (2 ^ l - 1) = replicate l True"
proof (induction l)
  case (Suc l)
  have "((2::nat) ^ Suc l - 1) div 2 = 2 ^ l - 1" by simp
  moreover have "odd ((2::nat) ^ Suc l - 1)" by simp
  ultimately show ?case using Suc by (simp add: replicate_append_same)
qed simp

end
