(* ===== verification/KHuffDecodeTable.thy ===== *)
theory KHuffDecodeTable
  imports KPrelude
begin

text \<open>
  The nibble-driven Huffman decoding table of \<^verbatim>\<open>src/KHuffDecode.cpp\<close>:
  256 automaton states with 16 transitions each. The C initialiser is transcribed row by row;
  it is cut into 32 blocks of eight states so that every block is a small constant. The
  table itself is the concatenation of the blocks, and \<open>huff_decode_codes_nth\<close> reads a row of it.
\<close>

text \<open>One transition: the fields of \<^verbatim>\<open>kgl_http_v2_huff_decode_code_t\<close>.\<close>

datatype kgl_http_v2_huff_decode_code_t =
  HDCode (code_next: byte) (code_emit: byte) (code_sym: byte) (code_ending: byte)

definition huff_decode_codes_00 :: "kgl_http_v2_huff_decode_code_t list list" where
  "huff_decode_codes_00 = [
   [
    HDCode 0x04 0x00 0x00 0x00, HDCode 0x05 0x00 0x00 0x00, HDCode 0x07 0x00 0x00 0x00, HDCode 0x08 0x00 0x00 0x00,
    HDCode 0x0b 0x00 0x00 0x00, HDCode 0x0c 0x00 0x00 0x00, HDCode 0x10 0x00 0x00 0x00, HDCode 0x13 0x00 0x00 0x00,
    HDCode 0x19 0x00 0x00 0x00, HDCode 0x1c 0x00 0x00 0x00, HDCode 0x20 0x00 0x00 0x00, HDCode 0x23 0x00 0x00 0x00,
    HDCode 0x2a 0x00 0x00 0x00, HDCode 0x31 0x00 0x00 0x00, HDCode 0x39 0x00 0x00 0x00, HDCode 0x40 0x00 0x00 0x01
   ],
   [
    HDCode 0x00 0x01 0x30 0x01, HDCode 0x00 0x01 0x31 0x01, HDCode 0x00 0x01 0x32 0x01, HDCode 0x00 0x01 0x61 0x01,
    HDCode 0x00 0x01 0x63 0x01, HDCode 0x00 0x01 0x65 0x01, HDCode 0x00 0x01 0x69 0x01, HDCode 0x00 0x01 0x6f 0x01,
    HDCode 0x00 0x01 0x73 0x01, HDCode 0x00 0x01 0x74 0x01, HDCode 0x0d 0x00 0x00 0x00, HDCode 0x0e 0x00 0x00 0x00,
    HDCode 0x11 0x00 0x00 0x00, HDCode 0x12 0x00 0x00 0x00, HDCode 0x14 0x00 0x00 0x00, HDCode 0x15 0x00 0x00 0x00
   ],
   [
    HDCode 0x01 0x01 0x30 0x00, HDCode 0x16 0x01 0x30 0x01, HDCode 0x01 0x01 0x31 0x00, HDCode 0x16 0x01 0x31 0x01,
    HDCode 0x01 0x01 0x32 0x00, HDCode 0x16 0x01 0x32 0x01, HDCode 0x01 0x01 0x61 0x00, HDCode 0x16 0x01 0x61 0x01,
    HDCode 0x01 0x01 0x63 0x00, HDCode 0x16 0x01 0x63 0x01, HDCode 0x01 0x01 0x65 0x00, HDCode 0x16 0x01 0x65 0x01,
    HDCode 0x01 0x01 0x69 0x00, HDCode 0x16 0x01 0x69 0x01, HDCode 0x01 0x01 0x6f 0x00, HDCode 0x16 0x01 0x6f 0x01
   ],
   [
    HDCode 0x02 0x01 0x30 0x00, HDCode 0x09 0x01 0x30 0x00, HDCode 0x17 0x01 0x30 0x00, HDCode 0x28 0x01 0x30 0x01,
    HDCode 0x02 0x01 0x31 0x00, HDCode 0x09 0x01 0x31 0x00, HDCode 0x17 0x01 0x31 0x00, HDCode 0x28 0x01 0x31 0x01,
    HDCode 0x02 0x01 0x32 0x00, HDCode 0x09 0x01 0x32 0x00, HDCode 0x17 0x01 0x32 0x00, HDCode 0x28 0x01 0x32 0x01,
    HDCode 0x02 0x01 0x61 0x00, HDCode 0x09 0x01 0x61 0x00, HDCode 0x17 0x01 0x61 0x00, HDCode 0x28 0x01 0x61 0x01
   ],
   [
    HDCode 0x03 0x01 0x30 0x00, HDCode 0x06 0x01 0x30 0x00, HDCode 0x0a 0x01 0x30 0x00, HDCode 0x0f 0x01 0x30 0x00,
    HDCode 0x18 0x01 0x30 0x00, HDCode 0x1f 0x01 0x30 0x00, HDCode 0x29 0x01 0x30 0x00, HDCode 0x38 0x01 0x30 0x01,
    HDCode 0x03 0x01 0x31 0x00, HDCode 0x06 0x01 0x31 0x00, HDCode 0x0a 0x01 0x31 0x00, HDCode 0x0f 0x01 0x31 0x00,
    HDCode 0x18 0x01 0x31 0x00, HDCode 0x1f 0x01 0x31 0x00, HDCode 0x29 0x01 0x31 0x00, HDCode 0x38 0x01 0x31 0x01
   ],
   [
    HDCode 0x03 0x01 0x32 0x00, HDCode 0x06 0x01 0x32 0x00, HDCode 0x0a 0x01 0x32 0x00, HDCode 0x0f 0x01 0x32 0x00,
    HDCode 0x18 0x01 0x32 0x00, HDCode 0x1f 0x01 0x32 0x00, HDCode 0x29 0x01 0x32 0x00, HDCode 0x38 0x01 0x32 0x01,
    HDCode 0x03 0x01 0x61 0x00, HDCode 0x06 0x01 0x61 0x00, HDCode 0x0a 0x01 0x61 0x00, HDCode 0x0f 0x01 0x61 0x00,
    HDCode 0x18 0x01 0x61 0x00, HDCode 0x1f 0x01 0x61 0x00, HDCode 0x29 0x01 0x61 0x00, HDCode 0x38 0x01 0x61 0x01
   ],
   [
    HDCode 0x02 0x01 0x63 0x00, HDCode 0x09 0x01 0x63 0x00, HDCode 0x17 0x01 0x63 0x00, HDCode 0x28 0x01 0x63 0x01,
    HDCode 0x02 0x01 0x65 0x00, HDCode 0x09 0x01 0x65 0x00, HDCode 0x17 0x01 0x65 0x00, HDCode 0x28 0x01 0x65 0x01,
    HDCode 0x02 0x01 0x69 0x00, HDCode 0x09 0x01 0x69 0x00, HDCode 0x17 0x01 0x69 0x00, HDCode 0x28 0x01 0x69 0x01,
    HDCode 0x02 0x01 0x6f 0x00, HDCode 0x09 0x01 0x6f 0x00, HDCode 0x17 0x01 0x6f 0x00, HDCode 0x28 0x01 0x6f 0x01
   ],
   [
    HDCode 0x03 0x01 0x63 0x00, HDCode 0x06 0x01 0x63 0x00, HDCode 0x0a 0x01 0x63 0x00, HDCode 0x0f 0x01 0x63 0x00,
    HDCode 0x18 0x01 0x63 0x00, HDCode 0x1f 0x01 0x63 0x00, HDCode 0x29 0x01 0x63 0x00, HDCode 0x38 0x01 0x63 0x01,
    HDCode 0x03 0x01 0x65 0x00, HDCode 0x06 0x01 0x65 0x00, HDCode 0x0a 0x01 0x65 0x00, HDCode 0x0f 0x01 0x65 0x00,
    HDCode 0x18 0x01 0x65 0x00, HDCode 0x1f 0x01 0x65 0x00, HDCode 0x29 0x01 0x65 0x00, HDCode 0x38 0x01 0x65 0x01
   ]]"

definition huff_decode_codes_01 :: "kgl_http_v2_huff_decode_code_t list list" where
  "huff_decode_codes_01 = [
   [
    HDCode 0x03 0x01 0x69 0x00, HDCode 0x06 0x01 0x69 0x00, HDCode 0x0a 0x01 0x69 0x00, HDCode 0x0f 0x01 0x69 0x00,
    HDCode 0x18 0x01 0x69 0x00, HDCode 0x1f 0x01 0x69 0x00, HDCode 0x29 0x01 0x69 0x00, HDCode 0x38 0x01 0x69 0x01,
    HDCode 0x03 0x01 0x6f 0x00, HDCode 0x06 0x01 0x6f 0x00, HDCode 0x0a 0x01 0x6f 0x00, HDCode 0x0f 0x01 0x6f 0x00,
    HDCode 0x18 0x01 0x6f 0x00, HDCode 0x1f 0x01 0x6f 0x00, HDCode 0x29 0x01 0x6f 0x00, HDCode 0x38 0x01 0x6f 0x01
   ],
   [
    HDCode 0x01 0x01 0x73 0x00, HDCode 0x16 0x01 0x73 0x01, HDCode 0x01 0x01 0x74 0x00, HDCode 0x16 0x01 0x74 0x01,
    HDCode 0x00 0x01 0x20 0x01, HDCode 0x00 0x01 0x25 0x01, HDCode 0x00 0x01 0x2d 0x01, HDCode 0x00 0x01 0x2e 0x01,
    HDCode 0x00 0x01 0x2f 0x01, HDCode 0x00 0x01 0x33 0x01, HDCode 0x00 0x01 0x34 0x01, HDCode 0x00 0x01 0x35 0x01,
    HDCode 0x00 0x01 0x36 0x01, HDCode 0x00 0x01 0x37 0x01, HDCode 0x00 0x01 0x38 0x01, HDCode 0x00 0x01 0x39 0x01
   ],
   [
    HDCode 0x02 0x01 0x73 0x00, HDCode 0x09 0x01 0x73 0x00, HDCode 0x17 0x01 0x73 0x00, HDCode 0x28 0x01 0x73 0x01,
    HDCode 0x02 0x01 0x74 0x00, HDCode 0x09 0x01 0x74 0x00, HDCode 0x17 0x01 0x74 0x00, HDCode 0x28 0x01 0x74 0x01,
    HDCode 0x01 0x01 0x20 0x00, HDCode 0x16 0x01 0x20 0x01, HDCode 0x01 0x01 0x25 0x00, HDCode 0x16 0x01 0x25 0x01,
    HDCode 0x01 0x01 0x2d 0x00, HDCode 0x16 0x01 0x2d 0x01, HDCode 0x01 0x01 0x2e 0x00, HDCode 0x16 0x01 0x2e 0x01
   ],
   [
    HDCode 0x03 0x01 0x73 0x00, HDCode 0x06 0x01 0x73 0x00, HDCode 0x0a 0x01 0x73 0x00, HDCode 0x0f 0x01 0x73 0x00,
    HDCode 0x18 0x01 0x73 0x00, HDCode 0x1f 0x01 0x73 0x00, HDCode 0x29 0x01 0x73 0x00, HDCode 0x38 0x01 0x73 0x01,
    HDCode 0x03 0x01 0x74 0x00, HDCode 0x06 0x01 0x74 0x00, HDCode 0x0a 0x01 0x74 0x00, HDCode 0x0f 0x01 0x74 0x00,
    HDCode 0x18 0x01 0x74 0x00, HDCode 0x1f 0x01 0x74 0x00, HDCode 0x29 0x01 0x74 0x00, HDCode 0x38 0x01 0x74 0x01
   ],
   [
    HDCode 0x02 0x01 0x20 0x00, HDCode 0x09 0x01 0x20 0x00, HDCode 0x17 0x01 0x20 0x00, HDCode 0x28 0x01 0x20 0x01,
    HDCode 0x02 0x01 0x25 0x00, HDCode 0x09 0x01 0x25 0x00, HDCode 0x17 0x01 0x25 0x00, HDCode 0x28 0x01 0x25 0x01,
    HDCode 0x02 0x01 0x2d 0x00, HDCode 0x09 0x01 0x2d 0x00, HDCode 0x17 0x01 0x2d 0x00, HDCode 0x28 0x01 0x2d 0x01,
    HDCode 0x02 0x01 0x2e 0x00, HDCode 0x09 0x01 0x2e 0x00, HDCode 0x17 0x01 0x2e 0x00, HDCode 0x28 0x01 0x2e 0x01
   ],
   [
    HDCode 0x03 0x01 0x20 0x00, HDCode 0x06 0x01 0x20 0x00, HDCode 0x0a 0x01 0x20 0x00, HDCode 0x0f 0x01 0x20 0x00,
    HDCode 0x18 0x01 0x20 0x00, HDCode 0x1f 0x01 0x20 0x00, HDCode 0x29 0x01 0x20 0x00, HDCode 0x38 0x01 0x20 0x01,
    HDCode 0x03 0x01 0x25 0x00, HDCode 0x06 0x01 0x25 0x00, HDCode 0x0a 0x01 0x25 0x00, HDCode 0x0f 0x01 0x25 0x00,
    HDCode 0x18 0x01 0x25 0x00, HDCode 0x1f 0x01 0x25 0x00, HDCode 0x29 0x01 0x25 0x00, HDCode 0x38 0x01 0x25 0x01
   ],
   [
    HDCode 0x03 0x01 0x2d 0x00, HDCode 0x06 0x01 0x2d 0x00, HDCode 0x0a 0x01 0x2d 0x00, HDCode 0x0f 0x01 0x2d 0x00,
    HDCode 0x18 0x01 0x2d 0x00, HDCode 0x1f 0x01 0x2d 0x00, HDCode 0x29 0x01 0x2d 0x00, HDCode 0x38 0x01 0x2d 0x01,
    HDCode 0x03 0x01 0x2e 0x00, HDCode 0x06 0x01 0x2e 0x00, HDCode 0x0a 0x01 0x2e 0x00, HDCode 0x0f 0x01 0x2e 0x00,
    HDCode 0x18 0x01 0x2e 0x00, HDCode 0x1f 0x01 0x2e 0x00, HDCode 0x29 0x01 0x2e 0x00, HDCode 0x38 0x01 0x2e 0x01
   ],
   [
    HDCode 0x01 0x01 0x2f 0x00, HDCode 0x16 0x01 0x2f 0x01, HDCode 0x01 0x01 0x33 0x00, HDCode 0x16 0x01 0x33 0x01,
    HDCode 0x01 0x01 0x34 0x00, HDCode 0x16 0x01 0x34 0x01, HDCode 0x01 0x01 0x35 0x00, HDCode 0x16 0x01 0x35 0x01,
    HDCode 0x01 0x01 0x36 0x00, HDCode 0x16 0x01 0x36 0x01, HDCode 0x01 0x01 0x37 0x00, HDCode 0x16 0x01 0x37 0x01,
    HDCode 0x01 0x01 0x38 0x00, HDCode 0x16 0x01 0x38 0x01, HDCode 0x01 0x01 0x39 0x00, HDCode 0x16 0x01 0x39 0x01
   ]]"

definition huff_decode_codes_02 :: "kgl_http_v2_huff_decode_code_t list list" where
  "huff_decode_codes_02 = [
   [
    HDCode 0x02 0x01 0x2f 0x00, HDCode 0x09 0x01 0x2f 0x00, HDCode 0x17 0x01 0x2f 0x00, HDCode 0x28 0x01 0x2f 0x01,
    HDCode 0x02 0x01 0x33 0x00, HDCode 0x09 0x01 0x33 0x00, HDCode 0x17 0x01 0x33 0x00, HDCode 0x28 0x01 0x33 0x01,
    HDCode 0x02 0x01 0x34 0x00, HDCode 0x09 0x01 0x34 0x00, HDCode 0x17 0x01 0x34 0x00, HDCode 0x28 0x01 0x34 0x01,
    HDCode 0x02 0x01 0x35 0x00, HDCode 0x09 0x01 0x35 0x00, HDCode 0x17 0x01 0x35 0x00, HDCode 0x28 0x01 0x35 0x01
   ],
   [
    HDCode 0x03 0x01 0x2f 0x00, HDCode 0x06 0x01 0x2f 0x00, HDCode 0x0a 0x01 0x2f 0x00, HDCode 0x0f 0x01 0x2f 0x00,
    HDCode 0x18 0x01 0x2f 0x00, HDCode 0x1f 0x01 0x2f 0x00, HDCode 0x29 0x01 0x2f 0x00, HDCode 0x38 0x01 0x2f 0x01,
    HDCode 0x03 0x01 0x33 0x00, HDCode 0x06 0x01 0x33 0x00, HDCode 0x0a 0x01 0x33 0x00, HDCode 0x0f 0x01 0x33 0x00,
    HDCode 0x18 0x01 0x33 0x00, HDCode 0x1f 0x01 0x33 0x00, HDCode 0x29 0x01 0x33 0x00, HDCode 0x38 0x01 0x33 0x01
   ],
   [
    HDCode 0x03 0x01 0x34 0x00, HDCode 0x06 0x01 0x34 0x00, HDCode 0x0a 0x01 0x34 0x00, HDCode 0x0f 0x01 0x34 0x00,
    HDCode 0x18 0x01 0x34 0x00, HDCode 0x1f 0x01 0x34 0x00, HDCode 0x29 0x01 0x34 0x00, HDCode 0x38 0x01 0x34 0x01,
    HDCode 0x03 0x01 0x35 0x00, HDCode 0x06 0x01 0x35 0x00, HDCode 0x0a 0x01 0x35 0x00, HDCode 0x0f 0x01 0x35 0x00,
    HDCode 0x18 0x01 0x35 0x00, HDCode 0x1f 0x01 0x35 0x00, HDCode 0x29 0x01 0x35 0x00, HDCode 0x38 0x01 0x35 0x01
   ],
   [
    HDCode 0x02 0x01 0x36 0x00, HDCode 0x09 0x01 0x36 0x00, HDCode 0x17 0x01 0x36 0x00, HDCode 0x28 0x01 0x36 0x01,
    HDCode 0x02 0x01 0x37 0x00, HDCode 0x09 0x01 0x37 0x00, HDCode 0x17 0x01 0x37 0x00, HDCode 0x28 0x01 0x37 0x01,
    HDCode 0x02 0x01 0x38 0x00, HDCode 0x09 0x01 0x38 0x00, HDCode 0x17 0x01 0x38 0x00, HDCode 0x28 0x01 0x38 0x01,
    HDCode 0x02 0x01 0x39 0x00, HDCode 0x09 0x01 0x39 0x00, HDCode 0x17 0x01 0x39 0x00, HDCode 0x28 0x01 0x39 0x01
   ],
   [
    HDCode 0x03 0x01 0x36 0x00, HDCode 0x06 0x01 0x36 0x00, HDCode 0x0a 0x01 0x36 0x00, HDCode 0x0f 0x01 0x36 0x00,
    HDCode 0x18 0x01 0x36 0x00, HDCode 0x1f 0x01 0x36 0x00, HDCode 0x29 0x01 0x36 0x00, HDCode 0x38 0x01 0x36 0x01,
    HDCode 0x03 0x01 0x37 0x00, HDCode 0x06 0x01 0x37 0x00, HDCode 0x0a 0x01 0x37 0x00, HDCode 0x0f 0x01 0x37 0x00,
    HDCode 0x18 0x01 0x37 0x00, HDCode 0x1f 0x01 0x37 0x00, HDCode 0x29 0x01 0x37 0x00, HDCode 0x38 0x01 0x37 0x01
   ],
   [
    HDCode 0x03 0x01 0x38 0x00, HDCode 0x06 0x01 0x38 0x00, HDCode 0x0a 0x01 0x38 0x00, HDCode 0x0f 0x01 0x38 0x00,
    HDCode 0x18 0x01 0x38 0x00, HDCode 0x1f 0x01 0x38 0x00, HDCode 0x29 0x01 0x38 0x00, HDCode 0x38 0x01 0x38 0x01,
    HDCode 0x03 0x01 0x39 0x00, HDCode 0x06 0x01 0x39 0x00, HDCode 0x0a 0x01 0x39 0x00, HDCode 0x0f 0x01 0x39 0x00,
    HDCode 0x18 0x01 0x39 0x00, HDCode 0x1f 0x01 0x39 0x00, HDCode 0x29 0x01 0x39 0x00, HDCode 0x38 0x01 0x39 0x01
   ],
   [
    HDCode 0x1a 0x00 0x00 0x00, HDCode 0x1b 0x00 0x00 0x00, HDCode 0x1d 0x00 0x00 0x00, HDCode 0x1e 0x00 0x00 0x00,
    HDCode 0x21 0x00 0x00 0x00, HDCode 0x22 0x00 0x00 0x00, HDCode 0x24 0x00 0x00 0x00, HDCode 0x25 0x00 0x00 0x00,
    HDCode 0x2b 0x00 0x00 0x00, HDCode 0x2e 0x00 0x00 0x00, HDCode 0x32 0x00 0x00 0x00, HDCode 0x35 0x00 0x00 0x00,
    HDCode 0x3a 0x00 0x00 0x00, HDCode 0x3d 0x00 0x00 0x00, HDCode 0x41 0x00 0x00 0x00, HDCode 0x44 0x00 0x00 0x01
   ],
   [
    HDCode 0x00 0x01 0x3d 0x01, HDCode 0x00 0x01 0x41 0x01, HDCode 0x00 0x01 0x5f 0x01, HDCode 0x00 0x01 0x62 0x01,
    HDCode 0x00 0x01 0x64 0x01, HDCode 0x00 0x01 0x66 0x01, HDCode 0x00 0x01 0x67 0x01, HDCode 0x00 0x01 0x68 0x01,
    HDCode 0x00 0x01 0x6c 0x01, HDCode 0x00 0x01 0x6d 0x01, HDCode 0x00 0x01 0x6e 0x01, HDCode 0x00 0x01 0x70 0x01,
    HDCode 0x00 0x01 0x72 0x01, HDCode 0x00 0x01 0x75 0x01, HDCode 0x26 0x00 0x00 0x00, HDCode 0x27 0x00 0x00 0x00
   ]]"

definition huff_decode_codes_03 :: "kgl_http_v2_huff_decode_code_t list list" where
  "huff_decode_codes_03 = [
   [
    HDCode 0x01 0x01 0x3d 0x00, HDCode 0x16 0x01 0x3d 0x01, HDCode 0x01 0x01 0x41 0x00, HDCode 0x16 0x01 0x41 0x01,
    HDCode 0x01 0x01 0x5f 0x00, HDCode 0x16 0x01 0x5f 0x01, HDCode 0x01 0x01 0x62 0x00, HDCode 0x16 0x01 0x62 0x01,
    HDCode 0x01 0x01 0x64 0x00, HDCode 0x16 0x01 0x64 0x01, HDCode 0x01 0x01 0x66 0x00, HDCode 0x16 0x01 0x66 0x01,
    HDCode 0x01 0x01 0x67 0x00, HDCode 0x16 0x01 0x67 0x01, HDCode 0x01 0x01 0x68 0x00, HDCode 0x16 0x01 0x68 0x01
   ],
   [
    HDCode 0x02 0x01 0x3d 0x00, HDCode 0x09 0x01 0x3d 0x00, HDCode 0x17 0x01 0x3d 0x00, HDCode 0x28 0x01 0x3d 0x01,
    HDCode 0x02 0x01 0x41 0x00, HDCode 0x09 0x01 0x41 0x00, HDCode 0x17 0x01 0x41 0x00, HDCode 0x28 0x01 0x41 0x01,
    HDCode 0x02 0x01 0x5f 0x00, HDCode 0x09 0x01 0x5f 0x00, HDCode 0x17 0x01 0x5f 0x00, HDCode 0x28 0x01 0x5f 0x01,
    HDCode 0x02 0x01 0x62 0x00, HDCode 0x09 0x01 0x62 0x00, HDCode 0x17 0x01 0x62 0x00, HDCode 0x28 0x01 0x62 0x01
   ],
   [
    HDCode 0x03 0x01 0x3d 0x00, HDCode 0x06 0x01 0x3d 0x00, HDCode 0x0a 0x01 0x3d 0x00, HDCode 0x0f 0x01 0x3d 0x00,
    HDCode 0x18 0x01 0x3d 0x00, HDCode 0x1f 0x01 0x3d 0x00, HDCode 0x29 0x01 0x3d 0x00, HDCode 0x38 0x01 0x3d 0x01,
    HDCode 0x03 0x01 0x41 0x00, HDCode 0x06 0x01 0x41 0x00, HDCode 0x0a 0x01 0x41 0x00, HDCode 0x0f 0x01 0x41 0x00,
    HDCode 0x18 0x01 0x41 0x00, HDCode 0x1f 0x01 0x41 0x00, HDCode 0x29 0x01 0x41 0x00, HDCode 0x38 0x01 0x41 0x01
   ],
   [
    HDCode 0x03 0x01 0x5f 0x00, HDCode 0x06 0x01 0x5f 0x00, HDCode 0x0a 0x01 0x5f 0x00, HDCode 0x0f 0x01 0x5f 0x00,
    HDCode 0x18 0x01 0x5f 0x00, HDCode 0x1f 0x01 0x5f 0x00, HDCode 0x29 0x01 0x5f 0x00, HDCode 0x38 0x01 0x5f 0x01,
    HDCode 0x03 0x01 0x62 0x00, HDCode 0x06 0x01 0x62 0x00, HDCode 0x0a 0x01 0x62 0x00, HDCode 0x0f 0x01 0x62 0x00,
    HDCode 0x18 0x01 0x62 0x00, HDCode 0x1f 0x01 0x62 0x00, HDCode 0x29 0x01 0x62 0x00, HDCode 0x38 0x01 0x62 0x01
   ],
   [
    HDCode 0x02 0x01 0x64 0x00, HDCode 0x09 0x01 0x64 0x00, HDCode 0x17 0x01 0x64 0x00, HDCode 0x28 0x01 0x64 0x01,
    HDCode 0x02 0x01 0x66 0x00, HDCode 0x09 0x01 0x66 0x00, HDCode 0x17 0x01 0x66 0x00, HDCode 0x28 0x01 0x66 0x01,
    HDCode 0x02 0x01 0x67 0x00, HDCode 0x09 0x01 0x67 0x00, HDCode 0x17 0x01 0x67 0x00, HDCode 0x28 0x01 0x67 0x01,
    HDCode 0x02 0x01 0x68 0x00, HDCode 0x09 0x01 0x68 0x00, HDCode 0x17 0x01 0x68 0x00, HDCode 0x28 0x01 0x68 0x01
   ],
   [
    HDCode 0x03 0x01 0x64 0x00, HDCode 0x06 0x01 0x64 0x00, HDCode 0x0a 0x01 0x64 0x00, HDCode 0x0f 0x01 0x64 0x00,
    HDCode 0x18 0x01 0x64 0x00, HDCode 0x1f 0x01 0x64 0x00, HDCode 0x29 0x01 0x64 0x00, HDCode 0x38 0x01 0x64 0x01,
    HDCode 0x03 0x01 0x66 0x00, HDCode 0x06 0x01 0x66 0x00, HDCode 0x0a 0x01 0x66 0x00, HDCode 0x0f 0x01 0x66 0x00,
    HDCode 0x18 0x01 0x66 0x00, HDCode 0x1f 0x01 0x66 0x00, HDCode 0x29 0x01 0x66 0x00, HDCode 0x38 0x01 0x66 0x01
   ],
   [
    HDCode 0x03 0x01 0x67 0x00, HDCode 0x06 0x01 0x67 0x00, HDCode 0x0a 0x01 0x67 0x00, HDCode 0x0f 0x01 0x67 0x00,
    HDCode 0x18 0x01 0x67 0x00, HDCode 0x1f 0x01 0x67 0x00, HDCode 0x29 0x01 0x67 0x00, HDCode 0x38 0x01 0x67 0x01,
    HDCode 0x03 0x01 0x68 0x00, HDCode 0x06 0x01 0x68 0x00, HDCode 0x0a 0x01 0x68 0x00, HDCode 0x0f 0x01 0x68 0x00,
    HDCode 0x18 0x01 0x68 0x00, HDCode 0x1f 0x01 0x68 0x00, HDCode 0x29 0x01 0x68 0x00, HDCode 0x38 0x01 0x68 0x01
   ],
   [
    HDCode 0x01 0x01 0x6c 0x00, HDCode 0x16 0x01 0x6c 0x01, HDCode 0x01 0x01 0x6d 0x00, HDCode 0x16 0x01 0x6d 0x01,
    HDCode 0x01 0x01 0x6e 0x00, HDCode 0x16 0x01 0x6e 0x01, HDCode 0x01 0x01 0x70 0x00, HDCode 0x16 0x01 0x70 0x01,
    HDCode 0x01 0x01 0x72 0x00, HDCode 0x16 0x01 0x72 0x01, HDCode 0x01 0x01 0x75 0x00, HDCode 0x16 0x01 0x75 0x01,
    HDCode 0x00 0x01 0x3a 0x01, HDCode 0x00 0x01 0x42 0x01, HDCode 0x00 0x01 0x43 0x01, HDCode 0x00 0x01 0x44 0x01
   ]]"

definition huff_decode_codes_04 :: "kgl_http_v2_huff_decode_code_t list list" where
  "huff_decode_codes_04 = [
   [
    HDCode 0x02 0x01 0x6c 0x00, HDCode 0x09 0x01 0x6c 0x00, HDCode 0x17 0x01 0x6c 0x00, HDCode 0x28 0x01 0x6c 0x01,
    HDCode 0x02 0x01 0x6d 0x00, HDCode 0x09 0x01 0x6d 0x00, HDCode 0x17 0x01 0x6d 0x00, HDCode 0x28 0x01 0x6d 0x01,
    HDCode 0x02 0x01 0x6e 0x00, HDCode 0x09 0x01 0x6e 0x00, HDCode 0x17 0x01 0x6e 0x00, HDCode 0x28 0x01 0x6e 0x01,
    HDCode 0x02 0x01 0x70 0x00, HDCode 0x09 0x01 0x70 0x00, HDCode 0x17 0x01 0x70 0x00, HDCode 0x28 0x01 0x70 0x01
   ],
   [
    HDCode 0x03 0x01 0x6c 0x00, HDCode 0x06 0x01 0x6c 0x00, HDCode 0x0a 0x01 0x6c 0x00, HDCode 0x0f 0x01 0x6c 0x00,
    HDCode 0x18 0x01 0x6c 0x00, HDCode 0x1f 0x01 0x6c 0x00, HDCode 0x29 0x01 0x6c 0x00, HDCode 0x38 0x01 0x6c 0x01,
    HDCode 0x03 0x01 0x6d 0x00, HDCode 0x06 0x01 0x6d 0x00, HDCode 0x0a 0x01 0x6d 0x00, HDCode 0x0f 0x01 0x6d 0x00,
    HDCode 0x18 0x01 0x6d 0x00, HDCode 0x1f 0x01 0x6d 0x00, HDCode 0x29 0x01 0x6d 0x00, HDCode 0x38 0x01 0x6d 0x01
   ],
   [
    HDCode 0x03 0x01 0x6e 0x00, HDCode 0x06 0x01 0x6e 0x00, HDCode 0x0a 0x01 0x6e 0x00, HDCode 0x0f 0x01 0x6e 0x00,
    HDCode 0x18 0x01 0x6e 0x00, HDCode 0x1f 0x01 0x6e 0x00, HDCode 0x29 0x01 0x6e 0x00, HDCode 0x38 0x01 0x6e 0x01,
    HDCode 0x03 0x01 0x70 0x00, HDCode 0x06 0x01 0x70 0x00, HDCode 0x0a 0x01 0x70 0x00, HDCode 0x0f 0x01 0x70 0x00,
    HDCode 0x18 0x01 0x70 0x00, HDCode 0x1f 0x01 0x70 0x00, HDCode 0x29 0x01 0x70 0x00, HDCode 0x38 0x01 0x70 0x01
   ],
   [
    HDCode 0x02 0x01 0x72 0x00, HDCode 0x09 0x01 0x72 0x00, HDCode 0x17 0x01 0x72 0x00, HDCode 0x28 0x01 0x72 0x01,
    HDCode 0x02 0x01 0x75 0x00, HDCode 0x09 0x01 0x75 0x00, HDCode 0x17 0x01 0x75 0x00, HDCode 0x28 0x01 0x75 0x01,
    HDCode 0x01 0x01 0x3a 0x00, HDCode 0x16 0x01 0x3a 0x01, HDCode 0x01 0x01 0x42 0x00, HDCode 0x16 0x01 0x42 0x01,
    HDCode 0x01 0x01 0x43 0x00, HDCode 0x16 0x01 0x43 0x01, HDCode 0x01 0x01 0x44 0x00, HDCode 0x16 0x01 0x44 0x01
   ],
   [
    HDCode 0x03 0x01 0x72 0x00, HDCode 0x06 0x01 0x72 0x00, HDCode 0x0a 0x01 0x72 0x00, HDCode 0x0f 0x01 0x72 0x00,
    HDCode 0x18 0x01 0x72 0x00, HDCode 0x1f 0x01 0x72 0x00, HDCode 0x29 0x01 0x72 0x00, HDCode 0x38 0x01 0x72 0x01,
    HDCode 0x03 0x01 0x75 0x00, HDCode 0x06 0x01 0x75 0x00, HDCode 0x0a 0x01 0x75 0x00, HDCode 0x0f 0x01 0x75 0x00,
    HDCode 0x18 0x01 0x75 0x00, HDCode 0x1f 0x01 0x75 0x00, HDCode 0x29 0x01 0x75 0x00, HDCode 0x38 0x01 0x75 0x01
   ],
   [
    HDCode 0x02 0x01 0x3a 0x00, HDCode 0x09 0x01 0x3a 0x00, HDCode 0x17 0x01 0x3a 0x00, HDCode 0x28 0x01 0x3a 0x01,
    HDCode 0x02 0x01 0x42 0x00, HDCode 0x09 0x01 0x42 0x00, HDCode 0x17 0x01 0x42 0x00, HDCode 0x28 0x01 0x42 0x01,
    HDCode 0x02 0x01 0x43 0x00, HDCode 0x09 0x01 0x43 0x00, HDCode 0x17 0x01 0x43 0x00, HDCode 0x28 0x01 0x43 0x01,
    HDCode 0x02 0x01 0x44 0x00, HDCode 0x09 0x01 0x44 0x00, HDCode 0x17 0x01 0x44 0x00, HDCode 0x28 0x01 0x44 0x01
   ],
   [
    HDCode 0x03 0x01 0x3a 0x00, HDCode 0x06 0x01 0x3a 0x00, HDCode 0x0a 0x01 0x3a 0x00, HDCode 0x0f 0x01 0x3a 0x00,
    HDCode 0x18 0x01 0x3a 0x00, HDCode 0x1f 0x01 0x3a 0x00, HDCode 0x29 0x01 0x3a 0x00, HDCode 0x38 0x01 0x3a 0x01,
    HDCode 0x03 0x01 0x42 0x00, HDCode 0x06 0x01 0x42 0x00, HDCode 0x0a 0x01 0x42 0x00, HDCode 0x0f 0x01 0x42 0x00,
    HDCode 0x18 0x01 0x42 0x00, HDCode 0x1f 0x01 0x42 0x00, HDCode 0x29 0x01 0x42 0x00, HDCode 0x38 0x01 0x42 0x01
   ],
   [
    HDCode 0x03 0x01 0x43 0x00, HDCode 0x06 0x01 0x43 0x00, HDCode 0x0a 0x01 0x43 0x00, HDCode 0x0f 0x01 0x43 0x00,
    HDCode 0x18 0x01 0x43 0x00, HDCode 0x1f 0x01 0x43 0x00, HDCode 0x29 0x01 0x43 0x00, HDCode 0x38 0x01 0x43 0x01,
    HDCode 0x03 0x01 0x44 0x00, HDCode 0x06 0x01 0x44 0x00, HDCode 0x0a 0x01 0x44 0x00, HDCode 0x0f 0x01 0x44 0x00,
    HDCode 0x18 0x01 0x44 0x00, HDCode 0x1f 0x01 0x44 0x00, HDCode 0x29 0x01 0x44 0x00, HDCode 0x38 0x01 0x44 0x01
   ]]"

definition huff_decode_codes_05 :: "kgl_http_v2_huff_decode_code_t list list" where
  "huff_decode_codes_05 = [
   [
    HDCode 0x2c 0x00 0x00 0x00, HDCode 0x2d 0x00 0x00 0x00, HDCode 0x2f 0x00 0x00 0x00, HDCode 0x30 0x00 0x00 0x00,
    HDCode 0x33 0x00 0x00 0x00, HDCode 0x34 0x00 0x00 0x00, HDCode 0x36 0x00 0x00 0x00, HDCode 0x37 0x00 0x00 0x00,
    HDCode 0x3b 0x00 0x00 0x00, HDCode 0x3c 0x00 0x00 0x00, HDCode 0x3e 0x00 0x00 0x00, HDCode 0x3f 0x00 0x00 0x00,
    HDCode 0x42 0x00 0x00 0x00, HDCode 0x43 0x00 0x00 0x00, HDCode 0x45 0x00 0x00 0x00, HDCode 0x48 0x00 0x00 0x01
   ],
   [
    HDCode 0x00 0x01 0x45 0x01, HDCode 0x00 0x01 0x46 0x01, HDCode 0x00 0x01 0x47 0x01, HDCode 0x00 0x01 0x48 0x01,
    HDCode 0x00 0x01 0x49 0x01, HDCode 0x00 0x01 0x4a 0x01, HDCode 0x00 0x01 0x4b 0x01, HDCode 0x00 0x01 0x4c 0x01,
    HDCode 0x00 0x01 0x4d 0x01, HDCode 0x00 0x01 0x4e 0x01, HDCode 0x00 0x01 0x4f 0x01, HDCode 0x00 0x01 0x50 0x01,
    HDCode 0x00 0x01 0x51 0x01, HDCode 0x00 0x01 0x52 0x01, HDCode 0x00 0x01 0x53 0x01, HDCode 0x00 0x01 0x54 0x01
   ],
   [
    HDCode 0x01 0x01 0x45 0x00, HDCode 0x16 0x01 0x45 0x01, HDCode 0x01 0x01 0x46 0x00, HDCode 0x16 0x01 0x46 0x01,
    HDCode 0x01 0x01 0x47 0x00, HDCode 0x16 0x01 0x47 0x01, HDCode 0x01 0x01 0x48 0x00, HDCode 0x16 0x01 0x48 0x01,
    HDCode 0x01 0x01 0x49 0x00, HDCode 0x16 0x01 0x49 0x01, HDCode 0x01 0x01 0x4a 0x00, HDCode 0x16 0x01 0x4a 0x01,
    HDCode 0x01 0x01 0x4b 0x00, HDCode 0x16 0x01 0x4b 0x01, HDCode 0x01 0x01 0x4c 0x00, HDCode 0x16 0x01 0x4c 0x01
   ],
   [
    HDCode 0x02 0x01 0x45 0x00, HDCode 0x09 0x01 0x45 0x00, HDCode 0x17 0x01 0x45 0x00, HDCode 0x28 0x01 0x45 0x01,
    HDCode 0x02 0x01 0x46 0x00, HDCode 0x09 0x01 0x46 0x00, HDCode 0x17 0x01 0x46 0x00, HDCode 0x28 0x01 0x46 0x01,
    HDCode 0x02 0x01 0x47 0x00, HDCode 0x09 0x01 0x47 0x00, HDCode 0x17 0x01 0x47 0x00, HDCode 0x28 0x01 0x47 0x01,
    HDCode 0x02 0x01 0x48 0x00, HDCode 0x09 0x01 0x48 0x00, HDCode 0x17 0x01 0x48 0x00, HDCode 0x28 0x01 0x48 0x01
   ],
   [
    HDCode 0x03 0x01 0x45 0x00, HDCode 0x06 0x01 0x45 0x00, HDCode 0x0a 0x01 0x45 0x00, HDCode 0x0f 0x01 0x45 0x00,
    HDCode 0x18 0x01 0x45 0x00, HDCode 0x1f 0x01 0x45 0x00, HDCode 0x29 0x01 0x45 0x00, HDCode 0x38 0x01 0x45 0x01,
    HDCode 0x03 0x01 0x46 0x00, HDCode 0x06 0x01 0x46 0x00, HDCode 0x0a 0x01 0x46 0x00, HDCode 0x0f 0x01 0x46 0x00,
    HDCode 0x18 0x01 0x46 0x00, HDCode 0x1f 0x01 0x46 0x00, HDCode 0x29 0x01 0x46 0x00, HDCode 0x38 0x01 0x46 0x01
   ],
   [
    HDCode 0x03 0x01 0x47 0x00, HDCode 0x06 0x01 0x47 0x00, HDCode 0x0a 0x01 0x47 0x00, HDCode 0x0f 0x01 0x47 0x00,
    HDCode 0x18 0x01 0x47 0x00, HDCode 0x1f 0x01 0x47 0x00, HDCode 0x29 0x01 0x47 0x00, HDCode 0x38 0x01 0x47 0x01,
    HDCode 0x03 0x01 0x48 0x00, HDCode 0x06 0x01 0x48 0x00, HDCode 0x0a 0x01 0x48 0x00, HDCode 0x0f 0x01 0x48 0x00,
    HDCode 0x18 0x01 0x48 0x00, HDCode 0x1f 0x01 0x48 0x00, HDCode 0x29 0x01 0x48 0x00, HDCode 0x38 0x01 0x48 0x01
   ],
   [
    HDCode 0x02 0x01 0x49 0x00, HDCode 0x09 0x01 0x49 0x00, HDCode 0x17 0x01 0x49 0x00, HDCode 0x28 0x01 0x49 0x01,
    HDCode 0x02 0x01 0x4a 0x00, HDCode 0x09 0x01 0x4a 0x00, HDCode 0x17 0x01 0x4a 0x00, HDCode 0x28 0x01 0x4a 0x01,
    HDCode 0x02 0x01 0x4b 0x00, HDCode 0x09 0x01 0x4b 0x00, HDCode 0x17 0x01 0x4b 0x00, HDCode 0x28 0x01 0x4b 0x01,
    HDCode 0x02 0x01 0x4c 0x00, HDCode 0x09 0x01 0x4c 0x00, HDCode 0x17 0x01 0x4c 0x00, HDCode 0x28 0x01 0x4c 0x01
   ],
   [
    HDCode 0x03 0x01 0x49 0x00, HDCode 0x06 0x01 0x49 0x00, HDCode 0x0a 0x01 0x49 0x00, HDCode 0x0f 0x01 0x49 0x00,
    HDCode 0x18 0x01 0x49 0x00, HDCode 0x1f 0x01 0x49 0x00, HDCode 0x29 0x01 0x49 0x00, HDCode 0x38 0x01 0x49 0x01,
    HDCode 0x03 0x01 0x4a 0x00, HDCode 0x06 0x01 0x4a 0x00, HDCode 0x0a 0x01 0x4a 0x00, HDCode 0x0f 0x01 0x4a 0x00,
    HDCode 0x18 0x01 0x4a 0x00, HDCode 0x1f 0x01 0x4a 0x00, HDCode 0x29 0x01 0x4a 0x00, HDCode 0x38 0x01 0x4a 0x01
   ]]"

definition huff_decode_codes_06 :: "kgl_http_v2_huff_decode_code_t list list" where
  "huff_decode_codes_06 = [
   [
    HDCode 0x03 0x01 0x4b 0x00, HDCode 0x06 0x01 0x4b 0x00, HDCode 0x0a 0x01 0x4b 0x00, HDCode 0x0f 0x01 0x4b 0x00,
    HDCode 0x18 0x01 0x4b 0x00, HDCode 0x1f 0x01 0x4b 0x00, HDCode 0x29 0x01 0x4b 0x00, HDCode 0x38 0x01 0x4b 0x01,
    HDCode 0x03 0x01 0x4c 0x00, HDCode 0x06 0x01 0x4c 0x00, HDCode 0x0a 0x01 0x4c 0x00, HDCode 0x0f 0x01 0x4c 0x00,
    HDCode 0x18 0x01 0x4c 0x00, HDCode 0x1f 0x01 0x4c 0x00, HDCode 0x29 0x01 0x4c 0x00, HDCode 0x38 0x01 0x4c 0x01
   ],
   [
    HDCode 0x01 0x01 0x4d 0x00, HDCode 0x16 0x01 0x4d 0x01, HDCode 0x01 0x01 0x4e 0x00, HDCode 0x16 0x01 0x4e 0x01,
    HDCode 0x01 0x01 0x4f 0x00, HDCode 0x16 0x01 0x4f 0x01, HDCode 0x01 0x01 0x50 0x00, HDCode 0x16 0x01 0x50 0x01,
    HDCode 0x01 0x01 0x51 0x00, HDCode 0x16 0x01 0x51 0x01, HDCode 0x01 0x01 0x52 0x00, HDCode 0x16 0x01 0x52 0x01,
    HDCode 0x01 0x01 0x53 0x00, HDCode 0x16 0x01 0x53 0x01, HDCode 0x01 0x01 0x54 0x00, HDCode 0x16 0x01 0x54 0x01
   ],
   [
    HDCode 0x02 0x01 0x4d 0x00, HDCode 0x09 0x01 0x4d 0x00, HDCode 0x17 0x01 0x4d 0x00, HDCode 0x28 0x01 0x4d 0x01,
    HDCode 0x02 0x01 0x4e 0x00, HDCode 0x09 0x01 0x4e 0x00, HDCode 0x17 0x01 0x4e 0x00, HDCode 0x28 0x01 0x4e 0x01,
    HDCode 0x02 0x01 0x4f 0x00, HDCode 0x09 0x01 0x4f 0x00, HDCode 0x17 0x01 0x4f 0x00, HDCode 0x28 0x01 0x4f 0x01,
    HDCode 0x02 0x01 0x50 0x00, HDCode 0x09 0x01 0x50 0x00, HDCode 0x17 0x01 0x50 0x00, HDCode 0x28 0x01 0x50 0x01
   ],
   [
    HDCode 0x03 0x01 0x4d 0x00, HDCode 0x06 0x01 0x4d 0x00, HDCode 0x0a 0x01 0x4d 0x00, HDCode 0x0f 0x01 0x4d 0x00,
    HDCode 0x18 0x01 0x4d 0x00, HDCode 0x1f 0x01 0x4d 0x00, HDCode 0x29 0x01 0x4d 0x00, HDCode 0x38 0x01 0x4d 0x01,
    HDCode 0x03 0x01 0x4e 0x00, HDCode 0x06 0x01 0x4e 0x00, HDCode 0x0a 0x01 0x4e 0x00, HDCode 0x0f 0x01 0x4e 0x00,
    HDCode 0x18 0x01 0x4e 0x00, HDCode 0x1f 0x01 0x4e 0x00, HDCode 0x29 0x01 0x4e 0x00, HDCode 0x38 0x01 0x4e 0x01
   ],
   [
    HDCode 0x03 0x01 0x4f 0x00, HDCode 0x06 0x01 0x4f 0x00, HDCode 0x0a 0x01 0x4f 0x00, HDCode 0x0f 0x01 0x4f 0x00,
    HDCode 0x18 0x01 0x4f 0x00, HDCode 0x1f 0x01 0x4f 0x00, HDCode 0x29 0x01 0x4f 0x00, HDCode 0x38 0x01 0x4f 0x01,
    HDCode 0x03 0x01 0x50 0x00, HDCode 0x06 0x01 0x50 0x00, HDCode 0x0a 0x01 0x50 0x00, HDCode 0x0f 0x01 0x50 0x00,
    HDCode 0x18 0x01 0x50 0x00, HDCode 0x1f 0x01 0x50 0x00, HDCode 0x29 0x01 0x50 0x00, HDCode 0x38 0x01 0x50 0x01
   ],
   [
    HDCode 0x02 0x01 0x51 0x00, HDCode 0x09 0x01 0x51 0x00, HDCode 0x17 0x01 0x51 0x00, HDCode 0x28 0x01 0x51 0x01,
    HDCode 0x02 0x01 0x52 0x00, HDCode 0x09 0x01 0x52 0x00, HDCode 0x17 0x01 0x52 0x00, HDCode 0x28 0x01 0x52 0x01,
    HDCode 0x02 0x01 0x53 0x00, HDCode 0x09 0x01 0x53 0x00, HDCode 0x17 0x01 0x53 0x00, HDCode 0x28 0x01 0x53 0x01,
    HDCode 0x02 0x01 0x54 0x00, HDCode 0x09 0x01 0x54 0x00, HDCode 0x17 0x01 0x54 0x00, HDCode 0x28 0x01 0x54 0x01
   ],
   [
    HDCode 0x03 0x01 0x51 0x00, HDCode 0x06 0x01 0x51 0x00, HDCode 0x0a 0x01 0x51 0x00, HDCode 0x0f 0x01 0x51 0x00,
    HDCode 0x18 0x01 0x51 0x00, HDCode 0x1f 0x01 0x51 0x00, HDCode 0x29 0x01 0x51 0x00, HDCode 0x38 0x01 0x51 0x01,
    HDCode 0x03 0x01 0x52 0x00, HDCode 0x06 0x01 0x52 0x00, HDCode 0x0a 0x01 0x52 0x00, HDCode 0x0f 0x01 0x52 0x00,
    HDCode 0x18 0x01 0x52 0x00, HDCode 0x1f 0x01 0x52 0x00, HDCode 0x29 0x01 0x52 0x00, HDCode 0x38 0x01 0x52 0x01
   ],
   [
    HDCode 0x03 0x01 0x53 0x00, HDCode 0x06 0x01 0x53 0x00, HDCode 0x0a 0x01 0x53 0x00, HDCode 0x0f 0x01 0x53 0x00,
    HDCode 0x18 0x01 0x53 0x00, HDCode 0x1f 0x01 0x53 0x00, HDCode 0x29 0x01 0x53 0x00, HDCode 0x38 0x01 0x53 0x01,
    HDCode 0x03 0x01 0x54 0x00, HDCode 0x06 0x01 0x54 0x00, HDCode 0x0a 0x01 0x54 0x00, HDCode 0x0f 0x01 0x54 0x00,
    HDCode 0x18 0x01 0x54 0x00, HDCode 0x1f 0x01 0x54 0x00, HDCode 0x29 0x01 0x54 0x00, HDCode 0x38 0x01 0x54 0x01
   ]]"

definition huff_decode_codes_07 :: "kgl_http_v2_huff_decode_code_t list list" where
  "huff_decode_codes_07 = [
   [
    HDCode 0x00 0x01 0x55 0x01, HDCode 0x00 0x01 0x56 0x01, HDCode 0x00 0x01 0x57 0x01, HDCode 0x00 0x01 0x59 0x01,
    HDCode 0x00 0x01 0x6a 0x01, HDCode 0x00 0x01 0x6b 0x01, HDCode 0x00 0x01 0x71 0x01, HDCode 0x00 0x01 0x76 0x01,
    HDCode 0x00 0x01 0x77 0x01, HDCode 0x00 0x01 0x78 0x01, HDCode 0x00 0x01 0x79 0x01, HDCode 0x00 0x01 0x7a 0x01,
    HDCode 0x46 0x00 0x00 0x00, HDCode 0x47 0x00 0x00 0x00, HDCode 0x49 0x00 0x00 0x00, HDCode 0x4a 0x00 0x00 0x01
   ],
   [
    HDCode 0x01 0x01 0x55 0x00, HDCode 0x16 0x01 0x55 0x01, HDCode 0x01 0x01 0x56 0x00, HDCode 0x16 0x01 0x56 0x01,
    HDCode 0x01 0x01 0x57 0x00, HDCode 0x16 0x01 0x57 0x01, HDCode 0x01 0x01 0x59 0x00, HDCode 0x16 0x01 0x59 0x01,
    HDCode 0x01 0x01 0x6a 0x00, HDCode 0x16 0x01 0x6a 0x01, HDCode 0x01 0x01 0x6b 0x00, HDCode 0x16 0x01 0x6b 0x01,
    HDCode 0x01 0x01 0x71 0x00, HDCode 0x16 0x01 0x71 0x01, HDCode 0x01 0x01 0x76 0x00, HDCode 0x16 0x01 0x76 0x01
   ],
   [
    HDCode 0x02 0x01 0x55 0x00, HDCode 0x09 0x01 0x55 0x00, HDCode 0x17 0x01 0x55 0x00, HDCode 0x28 0x01 0x55 0x01,
    HDCode 0x02 0x01 0x56 0x00, HDCode 0x09 0x01 0x56 0x00, HDCode 0x17 0x01 0x56 0x00, HDCode 0x28 0x01 0x56 0x01,
    HDCode 0x02 0x01 0x57 0x00, HDCode 0x09 0x01 0x57 0x00, HDCode 0x17 0x01 0x57 0x00, HDCode 0x28 0x01 0x57 0x01,
    HDCode 0x02 0x01 0x59 0x00, HDCode 0x09 0x01 0x59 0x00, HDCode 0x17 0x01 0x59 0x00, HDCode 0x28 0x01 0x59 0x01
   ],
   [
    HDCode 0x03 0x01 0x55 0x00, HDCode 0x06 0x01 0x55 0x00, HDCode 0x0a 0x01 0x55 0x00, HDCode 0x0f 0x01 0x55 0x00,
    HDCode 0x18 0x01 0x55 0x00, HDCode 0x1f 0x01 0x55 0x00, HDCode 0x29 0x01 0x55 0x00, HDCode 0x38 0x01 0x55 0x01,
    HDCode 0x03 0x01 0x56 0x00, HDCode 0x06 0x01 0x56 0x00, HDCode 0x0a 0x01 0x56 0x00, HDCode 0x0f 0x01 0x56 0x00,
    HDCode 0x18 0x01 0x56 0x00, HDCode 0x1f 0x01 0x56 0x00, HDCode 0x29 0x01 0x56 0x00, HDCode 0x38 0x01 0x56 0x01
   ],
   [
    HDCode 0x03 0x01 0x57 0x00, HDCode 0x06 0x01 0x57 0x00, HDCode 0x0a 0x01 0x57 0x00, HDCode 0x0f 0x01 0x57 0x00,
    HDCode 0x18 0x01 0x57 0x00, HDCode 0x1f 0x01 0x57 0x00, HDCode 0x29 0x01 0x57 0x00, HDCode 0x38 0x01 0x57 0x01,
    HDCode 0x03 0x01 0x59 0x00, HDCode 0x06 0x01 0x59 0x00, HDCode 0x0a 0x01 0x59 0x00, HDCode 0x0f 0x01 0x59 0x00,
    HDCode 0x18 0x01 0x59 0x00, HDCode 0x1f 0x01 0x59 0x00, HDCode 0x29 0x01 0x59 0x00, HDCode 0x38 0x01 0x59 0x01
   ],
   [
    HDCode 0x02 0x01 0x6a 0x00, HDCode 0x09 0x01 0x6a 0x00, HDCode 0x17 0x01 0x6a 0x00, HDCode 0x28 0x01 0x6a 0x01,
    HDCode 0x02 0x01 0x6b 0x00, HDCode 0x09 0x01 0x6b 0x00, HDCode 0x17 0x01 0x6b 0x00, HDCode 0x28 0x01 0x6b 0x01,
    HDCode 0x02 0x01 0x71 0x00, HDCode 0x09 0x01 0x71 0x00, HDCode 0x17 0x01 0x71 0x00, HDCode 0x28 0x01 0x71 0x01,
    HDCode 0x02 0x01 0x76 0x00, HDCode 0x09 0x01 0x76 0x00, HDCode 0x17 0x01 0x76 0x00, HDCode 0x28 0x01 0x76 0x01
   ],
   [
    HDCode 0x03 0x01 0x6a 0x00, HDCode 0x06 0x01 0x6a 0x00, HDCode 0x0a 0x01 0x6a 0x00, HDCode 0x0f 0x01 0x6a 0x00,
    HDCode 0x18 0x01 0x6a 0x00, HDCode 0x1f 0x01 0x6a 0x00, HDCode 0x29 0x01 0x6a 0x00, HDCode 0x38 0x01 0x6a 0x01,
    HDCode 0x03 0x01 0x6b 0x00, HDCode 0x06 0x01 0x6b 0x00, HDCode 0x0a 0x01 0x6b 0x00, HDCode 0x0f 0x01 0x6b 0x00,
    HDCode 0x18 0x01 0x6b 0x00, HDCode 0x1f 0x01 0x6b 0x00, HDCode 0x29 0x01 0x6b 0x00, HDCode 0x38 0x01 0x6b 0x01
   ],
   [
    HDCode 0x03 0x01 0x71 0x00, HDCode 0x06 0x01 0x71 0x00, HDCode 0x0a 0x01 0x71 0x00, HDCode 0x0f 0x01 0x71 0x00,
    HDCode 0x18 0x01 0x71 0x00, HDCode 0x1f 0x01 0x71 0x00, HDCode 0x29 0x01 0x71 0x00, HDCode 0x38 0x01 0x71 0x01,
    HDCode 0x03 0x01 0x76 0x00, HDCode 0x06 0x01 0x76 0x00, HDCode 0x0a 0x01 0x76 0x00, HDCode 0x0f 0x01 0x76 0x00,
    HDCode 0x18 0x01 0x76 0x00, HDCode 0x1f 0x01 0x76 0x00, HDCode 0x29 0x01 0x76 0x00, HDCode 0x38 0x01 0x76 0x01
   ]]"

definition huff_decode_codes_08 :: "kgl_http_v2_huff_decode_code_t list list" where
  "huff_decode_codes_08 = [
   [
    HDCode 0x01 0x01 0x77 0x00, HDCode 0x16 0x01 0x77 0x01, HDCode 0x01 0x01 0x78 0x00, HDCode 0x16 0x01 0x78 0x01,
    HDCode 0x01 0x01 0x79 0x00, HDCode 0x16 0x01 0x79 0x01, HDCode 0x01 0x01 0x7a 0x00, HDCode 0x16 0x01 0x7a 0x01,
    HDCode 0x00 0x01 0x26 0x01, HDCode 0x00 0x01 0x2a 0x01, HDCode 0x00 0x01 0x2c 0x01, HDCode 0x00 0x01 0x3b 0x01,
    HDCode 0x00 0x01 0x58 0x01, HDCode 0x00 0x01 0x5a 0x01, HDCode 0x4b 0x00 0x00 0x00, HDCode 0x4e 0x00 0x00 0x01
   ],
   [
    HDCode 0x02 0x01 0x77 0x00, HDCode 0x09 0x01 0x77 0x00, HDCode 0x17 0x01 0x77 0x00, HDCode 0x28 0x01 0x77 0x01,
    HDCode 0x02 0x01 0x78 0x00, HDCode 0x09 0x01 0x78 0x00, HDCode 0x17 0x01 0x78 0x00, HDCode 0x28 0x01 0x78 0x01,
    HDCode 0x02 0x01 0x79 0x00, HDCode 0x09 0x01 0x79 0x00, HDCode 0x17 0x01 0x79 0x00, HDCode 0x28 0x01 0x79 0x01,
    HDCode 0x02 0x01 0x7a 0x00, HDCode 0x09 0x01 0x7a 0x00, HDCode 0x17 0x01 0x7a 0x00, HDCode 0x28 0x01 0x7a 0x01
   ],
   [
    HDCode 0x03 0x01 0x77 0x00, HDCode 0x06 0x01 0x77 0x00, HDCode 0x0a 0x01 0x77 0x00, HDCode 0x0f 0x01 0x77 0x00,
    HDCode 0x18 0x01 0x77 0x00, HDCode 0x1f 0x01 0x77 0x00, HDCode 0x29 0x01 0x77 0x00, HDCode 0x38 0x01 0x77 0x01,
    HDCode 0x03 0x01 0x78 0x00, HDCode 0x06 0x01 0x78 0x00, HDCode 0x0a 0x01 0x78 0x00, HDCode 0x0f 0x01 0x78 0x00,
    HDCode 0x18 0x01 0x78 0x00, HDCode 0x1f 0x01 0x78 0x00, HDCode 0x29 0x01 0x78 0x00, HDCode 0x38 0x01 0x78 0x01
   ],
   [
    HDCode 0x03 0x01 0x79 0x00, HDCode 0x06 0x01 0x79 0x00, HDCode 0x0a 0x01 0x79 0x00, HDCode 0x0f 0x01 0x79 0x00,
    HDCode 0x18 0x01 0x79 0x00, HDCode 0x1f 0x01 0x79 0x00, HDCode 0x29 0x01 0x79 0x00, HDCode 0x38 0x01 0x79 0x01,
    HDCode 0x03 0x01 0x7a 0x00, HDCode 0x06 0x01 0x7a 0x00, HDCode 0x0a 0x01 0x7a 0x00, HDCode 0x0f 0x01 0x7a 0x00,
    HDCode 0x18 0x01 0x7a 0x00, HDCode 0x1f 0x01 0x7a 0x00, HDCode 0x29 0x01 0x7a 0x00, HDCode 0x38 0x01 0x7a 0x01
   ],
   [
    HDCode 0x01 0x01 0x26 0x00, HDCode 0x16 0x01 0x26 0x01, HDCode 0x01 0x01 0x2a 0x00, HDCode 0x16 0x01 0x2a 0x01,
    HDCode 0x01 0x01 0x2c 0x00, HDCode 0x16 0x01 0x2c 0x01, HDCode 0x01 0x01 0x3b 0x00, HDCode 0x16 0x01 0x3b 0x01,
    HDCode 0x01 0x01 0x58 0x00, HDCode 0x16 0x01 0x58 0x01, HDCode 0x01 0x01 0x5a 0x00, HDCode 0x16 0x01 0x5a 0x01,
    HDCode 0x4c 0x00 0x00 0x00, HDCode 0x4d 0x00 0x00 0x00, HDCode 0x4f 0x00 0x00 0x00, HDCode 0x51 0x00 0x00 0x01
   ],
   [
    HDCode 0x02 0x01 0x26 0x00, HDCode 0x09 0x01 0x26 0x00, HDCode 0x17 0x01 0x26 0x00, HDCode 0x28 0x01 0x26 0x01,
    HDCode 0x02 0x01 0x2a 0x00, HDCode 0x09 0x01 0x2a 0x00, HDCode 0x17 0x01 0x2a 0x00, HDCode 0x28 0x01 0x2a 0x01,
    HDCode 0x02 0x01 0x2c 0x00, HDCode 0x09 0x01 0x2c 0x00, HDCode 0x17 0x01 0x2c 0x00, HDCode 0x28 0x01 0x2c 0x01,
    HDCode 0x02 0x01 0x3b 0x00, HDCode 0x09 0x01 0x3b 0x00, HDCode 0x17 0x01 0x3b 0x00, HDCode 0x28 0x01 0x3b 0x01
   ],
   [
    HDCode 0x03 0x01 0x26 0x00, HDCode 0x06 0x01 0x26 0x00, HDCode 0x0a 0x01 0x26 0x00, HDCode 0x0f 0x01 0x26 0x00,
    HDCode 0x18 0x01 0x26 0x00, HDCode 0x1f 0x01 0x26 0x00, HDCode 0x29 0x01 0x26 0x00, HDCode 0x38 0x01 0x26 0x01,
    HDCode 0x03 0x01 0x2a 0x00, HDCode 0x06 0x01 0x2a 0x00, HDCode 0x0a 0x01 0x2a 0x00, HDCode 0x0f 0x01 0x2a 0x00,
    HDCode 0x18 0x01 0x2a 0x00, HDCode 0x1f 0x01 0x2a 0x00, HDCode 0x29 0x01 0x2a 0x00, HDCode 0x38 0x01 0x2a 0x01
   ],
   [
    HDCode 0x03 0x01 0x2c 0x00, HDCode 0x06 0x01 0x2c 0x00, HDCode 0x0a 0x01 0x2c 0x00, HDCode 0x0f 0x01 0x2c 0x00,
    HDCode 0x18 0x01 0x2c 0x00, HDCode 0x1f 0x01 0x2c 0x00, HDCode 0x29 0x01 0x2c 0x00, HDCode 0x38 0x01 0x2c 0x01,
    HDCode 0x03 0x01 0x3b 0x00, HDCode 0x06 0x01 0x3b 0x00, HDCode 0x0a 0x01 0x3b 0x00, HDCode 0x0f 0x01 0x3b 0x00,
    HDCode 0x18 0x01 0x3b 0x00, HDCode 0x1f 0x01 0x3b 0x00, HDCode 0x29 0x01 0x3b 0x00, HDCode 0x38 0x01 0x3b 0x01
   ]]"

definition huff_decode_codes_09 :: "kgl_http_v2_huff_decode_code_t list list" where
  "huff_decode_codes_09 = [
   [
    HDCode 0x02 0x01 0x58 0x00, HDCode 0x09 0x01 0x58 0x00, HDCode 0x17 0x01 0x58 0x00, HDCode 0x28 0x01 0x58 0x01,
    HDCode 0x02 0x01 0x5a 0x00, HDCode 0x09 0x01 0x5a 0x00, HDCode 0x17 0x01 0x5a 0x00, HDCode 0x28 0x01 0x5a 0x01,
    HDCode 0x00 0x01 0x21 0x01, HDCode 0x00 0x01 0x22 0x01, HDCode 0x00 0x01 0x28 0x01, HDCode 0x00 0x01 0x29 0x01,
    HDCode 0x00 0x01 0x3f 0x01, HDCode 0x50 0x00 0x00 0x00, HDCode 0x52 0x00 0x00 0x00, HDCode 0x54 0x00 0x00 0x01
   ],
   [
    HDCode 0x03 0x01 0x58 0x00, HDCode 0x06 0x01 0x58 0x00, HDCode 0x0a 0x01 0x58 0x00, HDCode 0x0f 0x01 0x58 0x00,
    HDCode 0x18 0x01 0x58 0x00, HDCode 0x1f 0x01 0x58 0x00, HDCode 0x29 0x01 0x58 0x00, HDCode 0x38 0x01 0x58 0x01,
    HDCode 0x03 0x01 0x5a 0x00, HDCode 0x06 0x01 0x5a 0x00, HDCode 0x0a 0x01 0x5a 0x00, HDCode 0x0f 0x01 0x5a 0x00,
    HDCode 0x18 0x01 0x5a 0x00, HDCode 0x1f 0x01 0x5a 0x00, HDCode 0x29 0x01 0x5a 0x00, HDCode 0x38 0x01 0x5a 0x01
   ],
   [
    HDCode 0x01 0x01 0x21 0x00, HDCode 0x16 0x01 0x21 0x01, HDCode 0x01 0x01 0x22 0x00, HDCode 0x16 0x01 0x22 0x01,
    HDCode 0x01 0x01 0x28 0x00, HDCode 0x16 0x01 0x28 0x01, HDCode 0x01 0x01 0x29 0x00, HDCode 0x16 0x01 0x29 0x01,
    HDCode 0x01 0x01 0x3f 0x00, HDCode 0x16 0x01 0x3f 0x01, HDCode 0x00 0x01 0x27 0x01, HDCode 0x00 0x01 0x2b 0x01,
    HDCode 0x00 0x01 0x7c 0x01, HDCode 0x53 0x00 0x00 0x00, HDCode 0x55 0x00 0x00 0x00, HDCode 0x58 0x00 0x00 0x01
   ],
   [
    HDCode 0x02 0x01 0x21 0x00, HDCode 0x09 0x01 0x21 0x00, HDCode 0x17 0x01 0x21 0x00, HDCode 0x28 0x01 0x21 0x01,
    HDCode 0x02 0x01 0x22 0x00, HDCode 0x09 0x01 0x22 0x00, HDCode 0x17 0x01 0x22 0x00, HDCode 0x28 0x01 0x22 0x01,
    HDCode 0x02 0x01 0x28 0x00, HDCode 0x09 0x01 0x28 0x00, HDCode 0x17 0x01 0x28 0x00, HDCode 0x28 0x01 0x28 0x01,
    HDCode 0x02 0x01 0x29 0x00, HDCode 0x09 0x01 0x29 0x00, HDCode 0x17 0x01 0x29 0x00, HDCode 0x28 0x01 0x29 0x01
   ],
   [
    HDCode 0x03 0x01 0x21 0x00, HDCode 0x06 0x01 0x21 0x00, HDCode 0x0a 0x01 0x21 0x00, HDCode 0x0f 0x01 0x21 0x00,
    HDCode 0x18 0x01 0x21 0x00, HDCode 0x1f 0x01 0x21 0x00, HDCode 0x29 0x01 0x21 0x00, HDCode 0x38 0x01 0x21 0x01,
    HDCode 0x03 0x01 0x22 0x00, HDCode 0x06 0x01 0x22 0x00, HDCode 0x0a 0x01 0x22 0x00, HDCode 0x0f 0x01 0x22 0x00,
    HDCode 0x18 0x01 0x22 0x00, HDCode 0x1f 0x01 0x22 0x00, HDCode 0x29 0x01 0x22 0x00, HDCode 0x38 0x01 0x22 0x01
   ],
   [
    HDCode 0x03 0x01 0x28 0x00, HDCode 0x06 0x01 0x28 0x00, HDCode 0x0a 0x01 0x28 0x00, HDCode 0x0f 0x01 0x28 0x00,
    HDCode 0x18 0x01 0x28 0x00, HDCode 0x1f 0x01 0x28 0x00, HDCode 0x29 0x01 0x28 0x00, HDCode 0x38 0x01 0x28 0x01,
    HDCode 0x03 0x01 0x29 0x00, HDCode 0x06 0x01 0x29 0x00, HDCode 0x0a 0x01 0x29 0x00, HDCode 0x0f 0x01 0x29 0x00,
    HDCode 0x18 0x01 0x29 0x00, HDCode 0x1f 0x01 0x29 0x00, HDCode 0x29 0x01 0x29 0x00, HDCode 0x38 0x01 0x29 0x01
   ],
   [
    HDCode 0x02 0x01 0x3f 0x00, HDCode 0x09 0x01 0x3f 0x00, HDCode 0x17 0x01 0x3f 0x00, HDCode 0x28 0x01 0x3f 0x01,
    HDCode 0x01 0x01 0x27 0x00, HDCode 0x16 0x01 0x27 0x01, HDCode 0x01 0x01 0x2b 0x00, HDCode 0x16 0x01 0x2b 0x01,
    HDCode 0x01 0x01 0x7c 0x00, HDCode 0x16 0x01 0x7c 0x01, HDCode 0x00 0x01 0x23 0x01, HDCode 0x00 0x01 0x3e 0x01,
    HDCode 0x56 0x00 0x00 0x00, HDCode 0x57 0x00 0x00 0x00, HDCode 0x59 0x00 0x00 0x00, HDCode 0x5a 0x00 0x00 0x01
   ],
   [
    HDCode 0x03 0x01 0x3f 0x00, HDCode 0x06 0x01 0x3f 0x00, HDCode 0x0a 0x01 0x3f 0x00, HDCode 0x0f 0x01 0x3f 0x00,
    HDCode 0x18 0x01 0x3f 0x00, HDCode 0x1f 0x01 0x3f 0x00, HDCode 0x29 0x01 0x3f 0x00, HDCode 0x38 0x01 0x3f 0x01,
    HDCode 0x02 0x01 0x27 0x00, HDCode 0x09 0x01 0x27 0x00, HDCode 0x17 0x01 0x27 0x00, HDCode 0x28 0x01 0x27 0x01,
    HDCode 0x02 0x01 0x2b 0x00, HDCode 0x09 0x01 0x2b 0x00, HDCode 0x17 0x01 0x2b 0x00, HDCode 0x28 0x01 0x2b 0x01
   ]]"

definition huff_decode_codes_10 :: "kgl_http_v2_huff_decode_code_t list list" where
  "huff_decode_codes_10 = [
   [
    HDCode 0x03 0x01 0x27 0x00, HDCode 0x06 0x01 0x27 0x00, HDCode 0x0a 0x01 0x27 0x00, HDCode 0x0f 0x01 0x27 0x00,
    HDCode 0x18 0x01 0x27 0x00, HDCode 0x1f 0x01 0x27 0x00, HDCode 0x29 0x01 0x27 0x00, HDCode 0x38 0x01 0x27 0x01,
    HDCode 0x03 0x01 0x2b 0x00, HDCode 0x06 0x01 0x2b 0x00, HDCode 0x0a 0x01 0x2b 0x00, HDCode 0x0f 0x01 0x2b 0x00,
    HDCode 0x18 0x01 0x2b 0x00, HDCode 0x1f 0x01 0x2b 0x00, HDCode 0x29 0x01 0x2b 0x00, HDCode 0x38 0x01 0x2b 0x01
   ],
   [
    HDCode 0x02 0x01 0x7c 0x00, HDCode 0x09 0x01 0x7c 0x00, HDCode 0x17 0x01 0x7c 0x00, HDCode 0x28 0x01 0x7c 0x01,
    HDCode 0x01 0x01 0x23 0x00, HDCode 0x16 0x01 0x23 0x01, HDCode 0x01 0x01 0x3e 0x00, HDCode 0x16 0x01 0x3e 0x01,
    HDCode 0x00 0x01 0x00 0x01, HDCode 0x00 0x01 0x24 0x01, HDCode 0x00 0x01 0x40 0x01, HDCode 0x00 0x01 0x5b 0x01,
    HDCode 0x00 0x01 0x5d 0x01, HDCode 0x00 0x01 0x7e 0x01, HDCode 0x5b 0x00 0x00 0x00, HDCode 0x5c 0x00 0x00 0x01
   ],
   [
    HDCode 0x03 0x01 0x7c 0x00, HDCode 0x06 0x01 0x7c 0x00, HDCode 0x0a 0x01 0x7c 0x00, HDCode 0x0f 0x01 0x7c 0x00,
    HDCode 0x18 0x01 0x7c 0x00, HDCode 0x1f 0x01 0x7c 0x00, HDCode 0x29 0x01 0x7c 0x00, HDCode 0x38 0x01 0x7c 0x01,
    HDCode 0x02 0x01 0x23 0x00, HDCode 0x09 0x01 0x23 0x00, HDCode 0x17 0x01 0x23 0x00, HDCode 0x28 0x01 0x23 0x01,
    HDCode 0x02 0x01 0x3e 0x00, HDCode 0x09 0x01 0x3e 0x00, HDCode 0x17 0x01 0x3e 0x00, HDCode 0x28 0x01 0x3e 0x01
   ],
   [
    HDCode 0x03 0x01 0x23 0x00, HDCode 0x06 0x01 0x23 0x00, HDCode 0x0a 0x01 0x23 0x00, HDCode 0x0f 0x01 0x23 0x00,
    HDCode 0x18 0x01 0x23 0x00, HDCode 0x1f 0x01 0x23 0x00, HDCode 0x29 0x01 0x23 0x00, HDCode 0x38 0x01 0x23 0x01,
    HDCode 0x03 0x01 0x3e 0x00, HDCode 0x06 0x01 0x3e 0x00, HDCode 0x0a 0x01 0x3e 0x00, HDCode 0x0f 0x01 0x3e 0x00,
    HDCode 0x18 0x01 0x3e 0x00, HDCode 0x1f 0x01 0x3e 0x00, HDCode 0x29 0x01 0x3e 0x00, HDCode 0x38 0x01 0x3e 0x01
   ],
   [
    HDCode 0x01 0x01 0x00 0x00, HDCode 0x16 0x01 0x00 0x01, HDCode 0x01 0x01 0x24 0x00, HDCode 0x16 0x01 0x24 0x01,
    HDCode 0x01 0x01 0x40 0x00, HDCode 0x16 0x01 0x40 0x01, HDCode 0x01 0x01 0x5b 0x00, HDCode 0x16 0x01 0x5b 0x01,
    HDCode 0x01 0x01 0x5d 0x00, HDCode 0x16 0x01 0x5d 0x01, HDCode 0x01 0x01 0x7e 0x00, HDCode 0x16 0x01 0x7e 0x01,
    HDCode 0x00 0x01 0x5e 0x01, HDCode 0x00 0x01 0x7d 0x01, HDCode 0x5d 0x00 0x00 0x00, HDCode 0x5e 0x00 0x00 0x01
   ],
   [
    HDCode 0x02 0x01 0x00 0x00, HDCode 0x09 0x01 0x00 0x00, HDCode 0x17 0x01 0x00 0x00, HDCode 0x28 0x01 0x00 0x01,
    HDCode 0x02 0x01 0x24 0x00, HDCode 0x09 0x01 0x24 0x00, HDCode 0x17 0x01 0x24 0x00, HDCode 0x28 0x01 0x24 0x01,
    HDCode 0x02 0x01 0x40 0x00, HDCode 0x09 0x01 0x40 0x00, HDCode 0x17 0x01 0x40 0x00, HDCode 0x28 0x01 0x40 0x01,
    HDCode 0x02 0x01 0x5b 0x00, HDCode 0x09 0x01 0x5b 0x00, HDCode 0x17 0x01 0x5b 0x00, HDCode 0x28 0x01 0x5b 0x01
   ],
   [
    HDCode 0x03 0x01 0x00 0x00, HDCode 0x06 0x01 0x00 0x00, HDCode 0x0a 0x01 0x00 0x00, HDCode 0x0f 0x01 0x00 0x00,
    HDCode 0x18 0x01 0x00 0x00, HDCode 0x1f 0x01 0x00 0x00, HDCode 0x29 0x01 0x00 0x00, HDCode 0x38 0x01 0x00 0x01,
    HDCode 0x03 0x01 0x24 0x00, HDCode 0x06 0x01 0x24 0x00, HDCode 0x0a 0x01 0x24 0x00, HDCode 0x0f 0x01 0x24 0x00,
    HDCode 0x18 0x01 0x24 0x00, HDCode 0x1f 0x01 0x24 0x00, HDCode 0x29 0x01 0x24 0x00, HDCode 0x38 0x01 0x24 0x01
   ],
   [
    HDCode 0x03 0x01 0x40 0x00, HDCode 0x06 0x01 0x40 0x00, HDCode 0x0a 0x01 0x40 0x00, HDCode 0x0f 0x01 0x40 0x00,
    HDCode 0x18 0x01 0x40 0x00, HDCode 0x1f 0x01 0x40 0x00, HDCode 0x29 0x01 0x40 0x00, HDCode 0x38 0x01 0x40 0x01,
    HDCode 0x03 0x01 0x5b 0x00, HDCode 0x06 0x01 0x5b 0x00, HDCode 0x0a 0x01 0x5b 0x00, HDCode 0x0f 0x01 0x5b 0x00,
    HDCode 0x18 0x01 0x5b 0x00, HDCode 0x1f 0x01 0x5b 0x00, HDCode 0x29 0x01 0x5b 0x00, HDCode 0x38 0x01 0x5b 0x01
   ]]"

definition huff_decode_codes_11 :: "kgl_http_v2_huff_decode_code_t list list" where
  "huff_decode_codes_11 = [
   [
    HDCode 0x02 0x01 0x5d 0x00, HDCode 0x09 0x01 0x5d 0x00, HDCode 0x17 0x01 0x5d 0x00, HDCode 0x28 0x01 0x5d 0x01,
    HDCode 0x02 0x01 0x7e 0x00, HDCode 0x09 0x01 0x7e 0x00, HDCode 0x17 0x01 0x7e 0x00, HDCode 0x28 0x01 0x7e 0x01,
    HDCode 0x01 0x01 0x5e 0x00, HDCode 0x16 0x01 0x5e 0x01, HDCode 0x01 0x01 0x7d 0x00, HDCode 0x16 0x01 0x7d 0x01,
    HDCode 0x00 0x01 0x3c 0x01, HDCode 0x00 0x01 0x60 0x01, HDCode 0x00 0x01 0x7b 0x01, HDCode 0x5f 0x00 0x00 0x01
   ],
   [
    HDCode 0x03 0x01 0x5d 0x00, HDCode 0x06 0x01 0x5d 0x00, HDCode 0x0a 0x01 0x5d 0x00, HDCode 0x0f 0x01 0x5d 0x00,
    HDCode 0x18 0x01 0x5d 0x00, HDCode 0x1f 0x01 0x5d 0x00, HDCode 0x29 0x01 0x5d 0x00, HDCode 0x38 0x01 0x5d 0x01,
    HDCode 0x03 0x01 0x7e 0x00, HDCode 0x06 0x01 0x7e 0x00, HDCode 0x0a 0x01 0x7e 0x00, HDCode 0x0f 0x01 0x7e 0x00,
    HDCode 0x18 0x01 0x7e 0x00, HDCode 0x1f 0x01 0x7e 0x00, HDCode 0x29 0x01 0x7e 0x00, HDCode 0x38 0x01 0x7e 0x01
   ],
   [
    HDCode 0x02 0x01 0x5e 0x00, HDCode 0x09 0x01 0x5e 0x00, HDCode 0x17 0x01 0x5e 0x00, HDCode 0x28 0x01 0x5e 0x01,
    HDCode 0x02 0x01 0x7d 0x00, HDCode 0x09 0x01 0x7d 0x00, HDCode 0x17 0x01 0x7d 0x00, HDCode 0x28 0x01 0x7d 0x01,
    HDCode 0x01 0x01 0x3c 0x00, HDCode 0x16 0x01 0x3c 0x01, HDCode 0x01 0x01 0x60 0x00, HDCode 0x16 0x01 0x60 0x01,
    HDCode 0x01 0x01 0x7b 0x00, HDCode 0x16 0x01 0x7b 0x01, HDCode 0x60 0x00 0x00 0x00, HDCode 0x6e 0x00 0x00 0x01
   ],
   [
    HDCode 0x03 0x01 0x5e 0x00, HDCode 0x06 0x01 0x5e 0x00, HDCode 0x0a 0x01 0x5e 0x00, HDCode 0x0f 0x01 0x5e 0x00,
    HDCode 0x18 0x01 0x5e 0x00, HDCode 0x1f 0x01 0x5e 0x00, HDCode 0x29 0x01 0x5e 0x00, HDCode 0x38 0x01 0x5e 0x01,
    HDCode 0x03 0x01 0x7d 0x00, HDCode 0x06 0x01 0x7d 0x00, HDCode 0x0a 0x01 0x7d 0x00, HDCode 0x0f 0x01 0x7d 0x00,
    HDCode 0x18 0x01 0x7d 0x00, HDCode 0x1f 0x01 0x7d 0x00, HDCode 0x29 0x01 0x7d 0x00, HDCode 0x38 0x01 0x7d 0x01
   ],
   [
    HDCode 0x02 0x01 0x3c 0x00, HDCode 0x09 0x01 0x3c 0x00, HDCode 0x17 0x01 0x3c 0x00, HDCode 0x28 0x01 0x3c 0x01,
    HDCode 0x02 0x01 0x60 0x00, HDCode 0x09 0x01 0x60 0x00, HDCode 0x17 0x01 0x60 0x00, HDCode 0x28 0x01 0x60 0x01,
    HDCode 0x02 0x01 0x7b 0x00, HDCode 0x09 0x01 0x7b 0x00, HDCode 0x17 0x01 0x7b 0x00, HDCode 0x28 0x01 0x7b 0x01,
    HDCode 0x61 0x00 0x00 0x00, HDCode 0x65 0x00 0x00 0x00, HDCode 0x6f 0x00 0x00 0x00, HDCode 0x85 0x00 0x00 0x01
   ],
   [
    HDCode 0x03 0x01 0x3c 0x00, HDCode 0x06 0x01 0x3c 0x00, HDCode 0x0a 0x01 0x3c 0x00, HDCode 0x0f 0x01 0x3c 0x00,
    HDCode 0x18 0x01 0x3c 0x00, HDCode 0x1f 0x01 0x3c 0x00, HDCode 0x29 0x01 0x3c 0x00, HDCode 0x38 0x01 0x3c 0x01,
    HDCode 0x03 0x01 0x60 0x00, HDCode 0x06 0x01 0x60 0x00, HDCode 0x0a 0x01 0x60 0x00, HDCode 0x0f 0x01 0x60 0x00,
    HDCode 0x18 0x01 0x60 0x00, HDCode 0x1f 0x01 0x60 0x00, HDCode 0x29 0x01 0x60 0x00, HDCode 0x38 0x01 0x60 0x01
   ],
   [
    HDCode 0x03 0x01 0x7b 0x00, HDCode 0x06 0x01 0x7b 0x00, HDCode 0x0a 0x01 0x7b 0x00, HDCode 0x0f 0x01 0x7b 0x00,
    HDCode 0x18 0x01 0x7b 0x00, HDCode 0x1f 0x01 0x7b 0x00, HDCode 0x29 0x01 0x7b 0x00, HDCode 0x38 0x01 0x7b 0x01,
    HDCode 0x62 0x00 0x00 0x00, HDCode 0x63 0x00 0x00 0x00, HDCode 0x66 0x00 0x00 0x00, HDCode 0x69 0x00 0x00 0x00,
    HDCode 0x70 0x00 0x00 0x00, HDCode 0x77 0x00 0x00 0x00, HDCode 0x86 0x00 0x00 0x00, HDCode 0x99 0x00 0x00 0x01
   ],
   [
    HDCode 0x00 0x01 0x5c 0x01, HDCode 0x00 0x01 0xc3 0x01, HDCode 0x00 0x01 0xd0 0x01, HDCode 0x64 0x00 0x00 0x00,
    HDCode 0x67 0x00 0x00 0x00, HDCode 0x68 0x00 0x00 0x00, HDCode 0x6a 0x00 0x00 0x00, HDCode 0x6b 0x00 0x00 0x00,
    HDCode 0x71 0x00 0x00 0x00, HDCode 0x74 0x00 0x00 0x00, HDCode 0x78 0x00 0x00 0x00, HDCode 0x7e 0x00 0x00 0x00,
    HDCode 0x87 0x00 0x00 0x00, HDCode 0x8e 0x00 0x00 0x00, HDCode 0x9a 0x00 0x00 0x00, HDCode 0xa9 0x00 0x00 0x01
   ]]"

definition huff_decode_codes_12 :: "kgl_http_v2_huff_decode_code_t list list" where
  "huff_decode_codes_12 = [
   [
    HDCode 0x01 0x01 0x5c 0x00, HDCode 0x16 0x01 0x5c 0x01, HDCode 0x01 0x01 0xc3 0x00, HDCode 0x16 0x01 0xc3 0x01,
    HDCode 0x01 0x01 0xd0 0x00, HDCode 0x16 0x01 0xd0 0x01, HDCode 0x00 0x01 0x80 0x01, HDCode 0x00 0x01 0x82 0x01,
    HDCode 0x00 0x01 0x83 0x01, HDCode 0x00 0x01 0xa2 0x01, HDCode 0x00 0x01 0xb8 0x01, HDCode 0x00 0x01 0xc2 0x01,
    HDCode 0x00 0x01 0xe0 0x01, HDCode 0x00 0x01 0xe2 0x01, HDCode 0x6c 0x00 0x00 0x00, HDCode 0x6d 0x00 0x00 0x00
   ],
   [
    HDCode 0x02 0x01 0x5c 0x00, HDCode 0x09 0x01 0x5c 0x00, HDCode 0x17 0x01 0x5c 0x00, HDCode 0x28 0x01 0x5c 0x01,
    HDCode 0x02 0x01 0xc3 0x00, HDCode 0x09 0x01 0xc3 0x00, HDCode 0x17 0x01 0xc3 0x00, HDCode 0x28 0x01 0xc3 0x01,
    HDCode 0x02 0x01 0xd0 0x00, HDCode 0x09 0x01 0xd0 0x00, HDCode 0x17 0x01 0xd0 0x00, HDCode 0x28 0x01 0xd0 0x01,
    HDCode 0x01 0x01 0x80 0x00, HDCode 0x16 0x01 0x80 0x01, HDCode 0x01 0x01 0x82 0x00, HDCode 0x16 0x01 0x82 0x01
   ],
   [
    HDCode 0x03 0x01 0x5c 0x00, HDCode 0x06 0x01 0x5c 0x00, HDCode 0x0a 0x01 0x5c 0x00, HDCode 0x0f 0x01 0x5c 0x00,
    HDCode 0x18 0x01 0x5c 0x00, HDCode 0x1f 0x01 0x5c 0x00, HDCode 0x29 0x01 0x5c 0x00, HDCode 0x38 0x01 0x5c 0x01,
    HDCode 0x03 0x01 0xc3 0x00, HDCode 0x06 0x01 0xc3 0x00, HDCode 0x0a 0x01 0xc3 0x00, HDCode 0x0f 0x01 0xc3 0x00,
    HDCode 0x18 0x01 0xc3 0x00, HDCode 0x1f 0x01 0xc3 0x00, HDCode 0x29 0x01 0xc3 0x00, HDCode 0x38 0x01 0xc3 0x01
   ],
   [
    HDCode 0x03 0x01 0xd0 0x00, HDCode 0x06 0x01 0xd0 0x00, HDCode 0x0a 0x01 0xd0 0x00, HDCode 0x0f 0x01 0xd0 0x00,
    HDCode 0x18 0x01 0xd0 0x00, HDCode 0x1f 0x01 0xd0 0x00, HDCode 0x29 0x01 0xd0 0x00, HDCode 0x38 0x01 0xd0 0x01,
    HDCode 0x02 0x01 0x80 0x00, HDCode 0x09 0x01 0x80 0x00, HDCode 0x17 0x01 0x80 0x00, HDCode 0x28 0x01 0x80 0x01,
    HDCode 0x02 0x01 0x82 0x00, HDCode 0x09 0x01 0x82 0x00, HDCode 0x17 0x01 0x82 0x00, HDCode 0x28 0x01 0x82 0x01
   ],
   [
    HDCode 0x03 0x01 0x80 0x00, HDCode 0x06 0x01 0x80 0x00, HDCode 0x0a 0x01 0x80 0x00, HDCode 0x0f 0x01 0x80 0x00,
    HDCode 0x18 0x01 0x80 0x00, HDCode 0x1f 0x01 0x80 0x00, HDCode 0x29 0x01 0x80 0x00, HDCode 0x38 0x01 0x80 0x01,
    HDCode 0x03 0x01 0x82 0x00, HDCode 0x06 0x01 0x82 0x00, HDCode 0x0a 0x01 0x82 0x00, HDCode 0x0f 0x01 0x82 0x00,
    HDCode 0x18 0x01 0x82 0x00, HDCode 0x1f 0x01 0x82 0x00, HDCode 0x29 0x01 0x82 0x00, HDCode 0x38 0x01 0x82 0x01
   ],
   [
    HDCode 0x01 0x01 0x83 0x00, HDCode 0x16 0x01 0x83 0x01, HDCode 0x01 0x01 0xa2 0x00, HDCode 0x16 0x01 0xa2 0x01,
    HDCode 0x01 0x01 0xb8 0x00, HDCode 0x16 0x01 0xb8 0x01, HDCode 0x01 0x01 0xc2 0x00, HDCode 0x16 0x01 0xc2 0x01,
    HDCode 0x01 0x01 0xe0 0x00, HDCode 0x16 0x01 0xe0 0x01, HDCode 0x01 0x01 0xe2 0x00, HDCode 0x16 0x01 0xe2 0x01,
    HDCode 0x00 0x01 0x99 0x01, HDCode 0x00 0x01 0xa1 0x01, HDCode 0x00 0x01 0xa7 0x01, HDCode 0x00 0x01 0xac 0x01
   ],
   [
    HDCode 0x02 0x01 0x83 0x00, HDCode 0x09 0x01 0x83 0x00, HDCode 0x17 0x01 0x83 0x00, HDCode 0x28 0x01 0x83 0x01,
    HDCode 0x02 0x01 0xa2 0x00, HDCode 0x09 0x01 0xa2 0x00, HDCode 0x17 0x01 0xa2 0x00, HDCode 0x28 0x01 0xa2 0x01,
    HDCode 0x02 0x01 0xb8 0x00, HDCode 0x09 0x01 0xb8 0x00, HDCode 0x17 0x01 0xb8 0x00, HDCode 0x28 0x01 0xb8 0x01,
    HDCode 0x02 0x01 0xc2 0x00, HDCode 0x09 0x01 0xc2 0x00, HDCode 0x17 0x01 0xc2 0x00, HDCode 0x28 0x01 0xc2 0x01
   ],
   [
    HDCode 0x03 0x01 0x83 0x00, HDCode 0x06 0x01 0x83 0x00, HDCode 0x0a 0x01 0x83 0x00, HDCode 0x0f 0x01 0x83 0x00,
    HDCode 0x18 0x01 0x83 0x00, HDCode 0x1f 0x01 0x83 0x00, HDCode 0x29 0x01 0x83 0x00, HDCode 0x38 0x01 0x83 0x01,
    HDCode 0x03 0x01 0xa2 0x00, HDCode 0x06 0x01 0xa2 0x00, HDCode 0x0a 0x01 0xa2 0x00, HDCode 0x0f 0x01 0xa2 0x00,
    HDCode 0x18 0x01 0xa2 0x00, HDCode 0x1f 0x01 0xa2 0x00, HDCode 0x29 0x01 0xa2 0x00, HDCode 0x38 0x01 0xa2 0x01
   ]]"

definition huff_decode_codes_13 :: "kgl_http_v2_huff_decode_code_t list list" where
  "huff_decode_codes_13 = [
   [
    HDCode 0x03 0x01 0xb8 0x00, HDCode 0x06 0x01 0xb8 0x00, HDCode 0x0a 0x01 0xb8 0x00, HDCode 0x0f 0x01 0xb8 0x00,
    HDCode 0x18 0x01 0xb8 0x00, HDCode 0x1f 0x01 0xb8 0x00, HDCode 0x29 0x01 0xb8 0x00, HDCode 0x38 0x01 0xb8 0x01,
    HDCode 0x03 0x01 0xc2 0x00, HDCode 0x06 0x01 0xc2 0x00, HDCode 0x0a 0x01 0xc2 0x00, HDCode 0x0f 0x01 0xc2 0x00,
    HDCode 0x18 0x01 0xc2 0x00, HDCode 0x1f 0x01 0xc2 0x00, HDCode 0x29 0x01 0xc2 0x00, HDCode 0x38 0x01 0xc2 0x01
   ],
   [
    HDCode 0x02 0x01 0xe0 0x00, HDCode 0x09 0x01 0xe0 0x00, HDCode 0x17 0x01 0xe0 0x00, HDCode 0x28 0x01 0xe0 0x01,
    HDCode 0x02 0x01 0xe2 0x00, HDCode 0x09 0x01 0xe2 0x00, HDCode 0x17 0x01 0xe2 0x00, HDCode 0x28 0x01 0xe2 0x01,
    HDCode 0x01 0x01 0x99 0x00, HDCode 0x16 0x01 0x99 0x01, HDCode 0x01 0x01 0xa1 0x00, HDCode 0x16 0x01 0xa1 0x01,
    HDCode 0x01 0x01 0xa7 0x00, HDCode 0x16 0x01 0xa7 0x01, HDCode 0x01 0x01 0xac 0x00, HDCode 0x16 0x01 0xac 0x01
   ],
   [
    HDCode 0x03 0x01 0xe0 0x00, HDCode 0x06 0x01 0xe0 0x00, HDCode 0x0a 0x01 0xe0 0x00, HDCode 0x0f 0x01 0xe0 0x00,
    HDCode 0x18 0x01 0xe0 0x00, HDCode 0x1f 0x01 0xe0 0x00, HDCode 0x29 0x01 0xe0 0x00, HDCode 0x38 0x01 0xe0 0x01,
    HDCode 0x03 0x01 0xe2 0x00, HDCode 0x06 0x01 0xe2 0x00, HDCode 0x0a 0x01 0xe2 0x00, HDCode 0x0f 0x01 0xe2 0x00,
    HDCode 0x18 0x01 0xe2 0x00, HDCode 0x1f 0x01 0xe2 0x00, HDCode 0x29 0x01 0xe2 0x00, HDCode 0x38 0x01 0xe2 0x01
   ],
   [
    HDCode 0x02 0x01 0x99 0x00, HDCode 0x09 0x01 0x99 0x00, HDCode 0x17 0x01 0x99 0x00, HDCode 0x28 0x01 0x99 0x01,
    HDCode 0x02 0x01 0xa1 0x00, HDCode 0x09 0x01 0xa1 0x00, HDCode 0x17 0x01 0xa1 0x00, HDCode 0x28 0x01 0xa1 0x01,
    HDCode 0x02 0x01 0xa7 0x00, HDCode 0x09 0x01 0xa7 0x00, HDCode 0x17 0x01 0xa7 0x00, HDCode 0x28 0x01 0xa7 0x01,
    HDCode 0x02 0x01 0xac 0x00, HDCode 0x09 0x01 0xac 0x00, HDCode 0x17 0x01 0xac 0x00, HDCode 0x28 0x01 0xac 0x01
   ],
   [
    HDCode 0x03 0x01 0x99 0x00, HDCode 0x06 0x01 0x99 0x00, HDCode 0x0a 0x01 0x99 0x00, HDCode 0x0f 0x01 0x99 0x00,
    HDCode 0x18 0x01 0x99 0x00, HDCode 0x1f 0x01 0x99 0x00, HDCode 0x29 0x01 0x99 0x00, HDCode 0x38 0x01 0x99 0x01,
    HDCode 0x03 0x01 0xa1 0x00, HDCode 0x06 0x01 0xa1 0x00, HDCode 0x0a 0x01 0xa1 0x00, HDCode 0x0f 0x01 0xa1 0x00,
    HDCode 0x18 0x01 0xa1 0x00, HDCode 0x1f 0x01 0xa1 0x00, HDCode 0x29 0x01 0xa1 0x00, HDCode 0x38 0x01 0xa1 0x01
   ],
   [
    HDCode 0x03 0x01 0xa7 0x00, HDCode 0x06 0x01 0xa7 0x00, HDCode 0x0a 0x01 0xa7 0x00, HDCode 0x0f 0x01 0xa7 0x00,
    HDCode 0x18 0x01 0xa7 0x00, HDCode 0x1f 0x01 0xa7 0x00, HDCode 0x29 0x01 0xa7 0x00, HDCode 0x38 0x01 0xa7 0x01,
    HDCode 0x03 0x01 0xac 0x00, HDCode 0x06 0x01 0xac 0x00, HDCode 0x0a 0x01 0xac 0x00, HDCode 0x0f 0x01 0xac 0x00,
    HDCode 0x18 0x01 0xac 0x00, HDCode 0x1f 0x01 0xac 0x00, HDCode 0x29 0x01 0xac 0x00, HDCode 0x38 0x01 0xac 0x01
   ],
   [
    HDCode 0x72 0x00 0x00 0x00, HDCode 0x73 0x00 0x00 0x00, HDCode 0x75 0x00 0x00 0x00, HDCode 0x76 0x00 0x00 0x00,
    HDCode 0x79 0x00 0x00 0x00, HDCode 0x7b 0x00 0x00 0x00, HDCode 0x7f 0x00 0x00 0x00, HDCode 0x82 0x00 0x00 0x00,
    HDCode 0x88 0x00 0x00 0x00, HDCode 0x8b 0x00 0x00 0x00, HDCode 0x8f 0x00 0x00 0x00, HDCode 0x92 0x00 0x00 0x00,
    HDCode 0x9b 0x00 0x00 0x00, HDCode 0xa2 0x00 0x00 0x00, HDCode 0xaa 0x00 0x00 0x00, HDCode 0xb4 0x00 0x00 0x01
   ],
   [
    HDCode 0x00 0x01 0xb0 0x01, HDCode 0x00 0x01 0xb1 0x01, HDCode 0x00 0x01 0xb3 0x01, HDCode 0x00 0x01 0xd1 0x01,
    HDCode 0x00 0x01 0xd8 0x01, HDCode 0x00 0x01 0xd9 0x01, HDCode 0x00 0x01 0xe3 0x01, HDCode 0x00 0x01 0xe5 0x01,
    HDCode 0x00 0x01 0xe6 0x01, HDCode 0x7a 0x00 0x00 0x00, HDCode 0x7c 0x00 0x00 0x00, HDCode 0x7d 0x00 0x00 0x00,
    HDCode 0x80 0x00 0x00 0x00, HDCode 0x81 0x00 0x00 0x00, HDCode 0x83 0x00 0x00 0x00, HDCode 0x84 0x00 0x00 0x00
   ]]"

definition huff_decode_codes_14 :: "kgl_http_v2_huff_decode_code_t list list" where
  "huff_decode_codes_14 = [
   [
    HDCode 0x01 0x01 0xb0 0x00, HDCode 0x16 0x01 0xb0 0x01, HDCode 0x01 0x01 0xb1 0x00, HDCode 0x16 0x01 0xb1 0x01,
    HDCode 0x01 0x01 0xb3 0x00, HDCode 0x16 0x01 0xb3 0x01, HDCode 0x01 0x01 0xd1 0x00, HDCode 0x16 0x01 0xd1 0x01,
    HDCode 0x01 0x01 0xd8 0x00, HDCode 0x16 0x01 0xd8 0x01, HDCode 0x01 0x01 0xd9 0x00, HDCode 0x16 0x01 0xd9 0x01,
    HDCode 0x01 0x01 0xe3 0x00, HDCode 0x16 0x01 0xe3 0x01, HDCode 0x01 0x01 0xe5 0x00, HDCode 0x16 0x01 0xe5 0x01
   ],
   [
    HDCode 0x02 0x01 0xb0 0x00, HDCode 0x09 0x01 0xb0 0x00, HDCode 0x17 0x01 0xb0 0x00, HDCode 0x28 0x01 0xb0 0x01,
    HDCode 0x02 0x01 0xb1 0x00, HDCode 0x09 0x01 0xb1 0x00, HDCode 0x17 0x01 0xb1 0x00, HDCode 0x28 0x01 0xb1 0x01,
    HDCode 0x02 0x01 0xb3 0x00, HDCode 0x09 0x01 0xb3 0x00, HDCode 0x17 0x01 0xb3 0x00, HDCode 0x28 0x01 0xb3 0x01,
    HDCode 0x02 0x01 0xd1 0x00, HDCode 0x09 0x01 0xd1 0x00, HDCode 0x17 0x01 0xd1 0x00, HDCode 0x28 0x01 0xd1 0x01
   ],
   [
    HDCode 0x03 0x01 0xb0 0x00, HDCode 0x06 0x01 0xb0 0x00, HDCode 0x0a 0x01 0xb0 0x00, HDCode 0x0f 0x01 0xb0 0x00,
    HDCode 0x18 0x01 0xb0 0x00, HDCode 0x1f 0x01 0xb0 0x00, HDCode 0x29 0x01 0xb0 0x00, HDCode 0x38 0x01 0xb0 0x01,
    HDCode 0x03 0x01 0xb1 0x00, HDCode 0x06 0x01 0xb1 0x00, HDCode 0x0a 0x01 0xb1 0x00, HDCode 0x0f 0x01 0xb1 0x00,
    HDCode 0x18 0x01 0xb1 0x00, HDCode 0x1f 0x01 0xb1 0x00, HDCode 0x29 0x01 0xb1 0x00, HDCode 0x38 0x01 0xb1 0x01
   ],
   [
    HDCode 0x03 0x01 0xb3 0x00, HDCode 0x06 0x01 0xb3 0x00, HDCode 0x0a 0x01 0xb3 0x00, HDCode 0x0f 0x01 0xb3 0x00,
    HDCode 0x18 0x01 0xb3 0x00, HDCode 0x1f 0x01 0xb3 0x00, HDCode 0x29 0x01 0xb3 0x00, HDCode 0x38 0x01 0xb3 0x01,
    HDCode 0x03 0x01 0xd1 0x00, HDCode 0x06 0x01 0xd1 0x00, HDCode 0x0a 0x01 0xd1 0x00, HDCode 0x0f 0x01 0xd1 0x00,
    HDCode 0x18 0x01 0xd1 0x00, HDCode 0x1f 0x01 0xd1 0x00, HDCode 0x29 0x01 0xd1 0x00, HDCode 0x38 0x01 0xd1 0x01
   ],
   [
    HDCode 0x02 0x01 0xd8 0x00, HDCode 0x09 0x01 0xd8 0x00, HDCode 0x17 0x01 0xd8 0x00, HDCode 0x28 0x01 0xd8 0x01,
    HDCode 0x02 0x01 0xd9 0x00, HDCode 0x09 0x01 0xd9 0x00, HDCode 0x17 0x01 0xd9 0x00, HDCode 0x28 0x01 0xd9 0x01,
    HDCode 0x02 0x01 0xe3 0x00, HDCode 0x09 0x01 0xe3 0x00, HDCode 0x17 0x01 0xe3 0x00, HDCode 0x28 0x01 0xe3 0x01,
    HDCode 0x02 0x01 0xe5 0x00, HDCode 0x09 0x01 0xe5 0x00, HDCode 0x17 0x01 0xe5 0x00, HDCode 0x28 0x01 0xe5 0x01
   ],
   [
    HDCode 0x03 0x01 0xd8 0x00, HDCode 0x06 0x01 0xd8 0x00, HDCode 0x0a 0x01 0xd8 0x00, HDCode 0x0f 0x01 0xd8 0x00,
    HDCode 0x18 0x01 0xd8 0x00, HDCode 0x1f 0x01 0xd8 0x00, HDCode 0x29 0x01 0xd8 0x00, HDCode 0x38 0x01 0xd8 0x01,
    HDCode 0x03 0x01 0xd9 0x00, HDCode 0x06 0x01 0xd9 0x00, HDCode 0x0a 0x01 0xd9 0x00, HDCode 0x0f 0x01 0xd9 0x00,
    HDCode 0x18 0x01 0xd9 0x00, HDCode 0x1f 0x01 0xd9 0x00, HDCode 0x29 0x01 0xd9 0x00, HDCode 0x38 0x01 0xd9 0x01
   ],
   [
    HDCode 0x03 0x01 0xe3 0x00, HDCode 0x06 0x01 0xe3 0x00, HDCode 0x0a 0x01 0xe3 0x00, HDCode 0x0f 0x01 0xe3 0x00,
    HDCode 0x18 0x01 0xe3 0x00, HDCode 0x1f 0x01 0xe3 0x00, HDCode 0x29 0x01 0xe3 0x00, HDCode 0x38 0x01 0xe3 0x01,
    HDCode 0x03 0x01 0xe5 0x00, HDCode 0x06 0x01 0xe5 0x00, HDCode 0x0a 0x01 0xe5 0x00, HDCode 0x0f 0x01 0xe5 0x00,
    HDCode 0x18 0x01 0xe5 0x00, HDCode 0x1f 0x01 0xe5 0x00, HDCode 0x29 0x01 0xe5 0x00, HDCode 0x38 0x01 0xe5 0x01
   ],
   [
    HDCode 0x01 0x01 0xe6 0x00, HDCode 0x16 0x01 0xe6 0x01, HDCode 0x00 0x01 0x81 0x01, HDCode 0x00 0x01 0x84 0x01,
    HDCode 0x00 0x01 0x85 0x01, HDCode 0x00 0x01 0x86 0x01, HDCode 0x00 0x01 0x88 0x01, HDCode 0x00 0x01 0x92 0x01,
    HDCode 0x00 0x01 0x9a 0x01, HDCode 0x00 0x01 0x9c 0x01, HDCode 0x00 0x01 0xa0 0x01, HDCode 0x00 0x01 0xa3 0x01,
    HDCode 0x00 0x01 0xa4 0x01, HDCode 0x00 0x01 0xa9 0x01, HDCode 0x00 0x01 0xaa 0x01, HDCode 0x00 0x01 0xad 0x01
   ]]"

definition huff_decode_codes_15 :: "kgl_http_v2_huff_decode_code_t list list" where
  "huff_decode_codes_15 = [
   [
    HDCode 0x02 0x01 0xe6 0x00, HDCode 0x09 0x01 0xe6 0x00, HDCode 0x17 0x01 0xe6 0x00, HDCode 0x28 0x01 0xe6 0x01,
    HDCode 0x01 0x01 0x81 0x00, HDCode 0x16 0x01 0x81 0x01, HDCode 0x01 0x01 0x84 0x00, HDCode 0x16 0x01 0x84 0x01,
    HDCode 0x01 0x01 0x85 0x00, HDCode 0x16 0x01 0x85 0x01, HDCode 0x01 0x01 0x86 0x00, HDCode 0x16 0x01 0x86 0x01,
    HDCode 0x01 0x01 0x88 0x00, HDCode 0x16 0x01 0x88 0x01, HDCode 0x01 0x01 0x92 0x00, HDCode 0x16 0x01 0x92 0x01
   ],
   [
    HDCode 0x03 0x01 0xe6 0x00, HDCode 0x06 0x01 0xe6 0x00, HDCode 0x0a 0x01 0xe6 0x00, HDCode 0x0f 0x01 0xe6 0x00,
    HDCode 0x18 0x01 0xe6 0x00, HDCode 0x1f 0x01 0xe6 0x00, HDCode 0x29 0x01 0xe6 0x00, HDCode 0x38 0x01 0xe6 0x01,
    HDCode 0x02 0x01 0x81 0x00, HDCode 0x09 0x01 0x81 0x00, HDCode 0x17 0x01 0x81 0x00, HDCode 0x28 0x01 0x81 0x01,
    HDCode 0x02 0x01 0x84 0x00, HDCode 0x09 0x01 0x84 0x00, HDCode 0x17 0x01 0x84 0x00, HDCode 0x28 0x01 0x84 0x01
   ],
   [
    HDCode 0x03 0x01 0x81 0x00, HDCode 0x06 0x01 0x81 0x00, HDCode 0x0a 0x01 0x81 0x00, HDCode 0x0f 0x01 0x81 0x00,
    HDCode 0x18 0x01 0x81 0x00, HDCode 0x1f 0x01 0x81 0x00, HDCode 0x29 0x01 0x81 0x00, HDCode 0x38 0x01 0x81 0x01,
    HDCode 0x03 0x01 0x84 0x00, HDCode 0x06 0x01 0x84 0x00, HDCode 0x0a 0x01 0x84 0x00, HDCode 0x0f 0x01 0x84 0x00,
    HDCode 0x18 0x01 0x84 0x00, HDCode 0x1f 0x01 0x84 0x00, HDCode 0x29 0x01 0x84 0x00, HDCode 0x38 0x01 0x84 0x01
   ],
   [
    HDCode 0x02 0x01 0x85 0x00, HDCode 0x09 0x01 0x85 0x00, HDCode 0x17 0x01 0x85 0x00, HDCode 0x28 0x01 0x85 0x01,
    HDCode 0x02 0x01 0x86 0x00, HDCode 0x09 0x01 0x86 0x00, HDCode 0x17 0x01 0x86 0x00, HDCode 0x28 0x01 0x86 0x01,
    HDCode 0x02 0x01 0x88 0x00, HDCode 0x09 0x01 0x88 0x00, HDCode 0x17 0x01 0x88 0x00, HDCode 0x28 0x01 0x88 0x01,
    HDCode 0x02 0x01 0x92 0x00, HDCode 0x09 0x01 0x92 0x00, HDCode 0x17 0x01 0x92 0x00, HDCode 0x28 0x01 0x92 0x01
   ],
   [
    HDCode 0x03 0x01 0x85 0x00, HDCode 0x06 0x01 0x85 0x00, HDCode 0x0a 0x01 0x85 0x00, HDCode 0x0f 0x01 0x85 0x00,
    HDCode 0x18 0x01 0x85 0x00, HDCode 0x1f 0x01 0x85 0x00, HDCode 0x29 0x01 0x85 0x00, HDCode 0x38 0x01 0x85 0x01,
    HDCode 0x03 0x01 0x86 0x00, HDCode 0x06 0x01 0x86 0x00, HDCode 0x0a 0x01 0x86 0x00, HDCode 0x0f 0x01 0x86 0x00,
    HDCode 0x18 0x01 0x86 0x00, HDCode 0x1f 0x01 0x86 0x00, HDCode 0x29 0x01 0x86 0x00, HDCode 0x38 0x01 0x86 0x01
   ],
   [
    HDCode 0x03 0x01 0x88 0x00, HDCode 0x06 0x01 0x88 0x00, HDCode 0x0a 0x01 0x88 0x00, HDCode 0x0f 0x01 0x88 0x00,
    HDCode 0x18 0x01 0x88 0x00, HDCode 0x1f 0x01 0x88 0x00, HDCode 0x29 0x01 0x88 0x00, HDCode 0x38 0x01 0x88 0x01,
    HDCode 0x03 0x01 0x92 0x00, HDCode 0x06 0x01 0x92 0x00, HDCode 0x0a 0x01 0x92 0x00, HDCode 0x0f 0x01 0x92 0x00,
    HDCode 0x18 0x01 0x92 0x00, HDCode 0x1f 0x01 0x92 0x00, HDCode 0x29 0x01 0x92 0x00, HDCode 0x38 0x01 0x92 0x01
   ],
   [
    HDCode 0x01 0x01 0x9a 0x00, HDCode 0x16 0x01 0x9a 0x01, HDCode 0x01 0x01 0x9c 0x00, HDCode 0x16 0x01 0x9c 0x01,
    HDCode 0x01 0x01 0xa0 0x00, HDCode 0x16 0x01 0xa0 0x01, HDCode 0x01 0x01 0xa3 0x00, HDCode 0x16 0x01 0xa3 0x01,
    HDCode 0x01 0x01 0xa4 0x00, HDCode 0x16 0x01 0xa4 0x01, HDCode 0x01 0x01 0xa9 0x00, HDCode 0x16 0x01 0xa9 0x01,
    HDCode 0x01 0x01 0xaa 0x00, HDCode 0x16 0x01 0xaa 0x01, HDCode 0x01 0x01 0xad 0x00, HDCode 0x16 0x01 0xad 0x01
   ],
   [
    HDCode 0x02 0x01 0x9a 0x00, HDCode 0x09 0x01 0x9a 0x00, HDCode 0x17 0x01 0x9a 0x00, HDCode 0x28 0x01 0x9a 0x01,
    HDCode 0x02 0x01 0x9c 0x00, HDCode 0x09 0x01 0x9c 0x00, HDCode 0x17 0x01 0x9c 0x00, HDCode 0x28 0x01 0x9c 0x01,
    HDCode 0x02 0x01 0xa0 0x00, HDCode 0x09 0x01 0xa0 0x00, HDCode 0x17 0x01 0xa0 0x00, HDCode 0x28 0x01 0xa0 0x01,
    HDCode 0x02 0x01 0xa3 0x00, HDCode 0x09 0x01 0xa3 0x00, HDCode 0x17 0x01 0xa3 0x00, HDCode 0x28 0x01 0xa3 0x01
   ]]"

definition huff_decode_codes_16 :: "kgl_http_v2_huff_decode_code_t list list" where
  "huff_decode_codes_16 = [
   [
    HDCode 0x03 0x01 0x9a 0x00, HDCode 0x06 0x01 0x9a 0x00, HDCode 0x0a 0x01 0x9a 0x00, HDCode 0x0f 0x01 0x9a 0x00,
    HDCode 0x18 0x01 0x9a 0x00, HDCode 0x1f 0x01 0x9a 0x00, HDCode 0x29 0x01 0x9a 0x00, HDCode 0x38 0x01 0x9a 0x01,
    HDCode 0x03 0x01 0x9c 0x00, HDCode 0x06 0x01 0x9c 0x00, HDCode 0x0a 0x01 0x9c 0x00, HDCode 0x0f 0x01 0x9c 0x00,
    HDCode 0x18 0x01 0x9c 0x00, HDCode 0x1f 0x01 0x9c 0x00, HDCode 0x29 0x01 0x9c 0x00, HDCode 0x38 0x01 0x9c 0x01
   ],
   [
    HDCode 0x03 0x01 0xa0 0x00, HDCode 0x06 0x01 0xa0 0x00, HDCode 0x0a 0x01 0xa0 0x00, HDCode 0x0f 0x01 0xa0 0x00,
    HDCode 0x18 0x01 0xa0 0x00, HDCode 0x1f 0x01 0xa0 0x00, HDCode 0x29 0x01 0xa0 0x00, HDCode 0x38 0x01 0xa0 0x01,
    HDCode 0x03 0x01 0xa3 0x00, HDCode 0x06 0x01 0xa3 0x00, HDCode 0x0a 0x01 0xa3 0x00, HDCode 0x0f 0x01 0xa3 0x00,
    HDCode 0x18 0x01 0xa3 0x00, HDCode 0x1f 0x01 0xa3 0x00, HDCode 0x29 0x01 0xa3 0x00, HDCode 0x38 0x01 0xa3 0x01
   ],
   [
    HDCode 0x02 0x01 0xa4 0x00, HDCode 0x09 0x01 0xa4 0x00, HDCode 0x17 0x01 0xa4 0x00, HDCode 0x28 0x01 0xa4 0x01,
    HDCode 0x02 0x01 0xa9 0x00, HDCode 0x09 0x01 0xa9 0x00, HDCode 0x17 0x01 0xa9 0x00, HDCode 0x28 0x01 0xa9 0x01,
    HDCode 0x02 0x01 0xaa 0x00, HDCode 0x09 0x01 0xaa 0x00, HDCode 0x17 0x01 0xaa 0x00, HDCode 0x28 0x01 0xaa 0x01,
    HDCode 0x02 0x01 0xad 0x00, HDCode 0x09 0x01 0xad 0x00, HDCode 0x17 0x01 0xad 0x00, HDCode 0x28 0x01 0xad 0x01
   ],
   [
    HDCode 0x03 0x01 0xa4 0x00, HDCode 0x06 0x01 0xa4 0x00, HDCode 0x0a 0x01 0xa4 0x00, HDCode 0x0f 0x01 0xa4 0x00,
    HDCode 0x18 0x01 0xa4 0x00, HDCode 0x1f 0x01 0xa4 0x00, HDCode 0x29 0x01 0xa4 0x00, HDCode 0x38 0x01 0xa4 0x01,
    HDCode 0x03 0x01 0xa9 0x00, HDCode 0x06 0x01 0xa9 0x00, HDCode 0x0a 0x01 0xa9 0x00, HDCode 0x0f 0x01 0xa9 0x00,
    HDCode 0x18 0x01 0xa9 0x00, HDCode 0x1f 0x01 0xa9 0x00, HDCode 0x29 0x01 0xa9 0x00, HDCode 0x38 0x01 0xa9 0x01
   ],
   [
    HDCode 0x03 0x01 0xaa 0x00, HDCode 0x06 0x01 0xaa 0x00, HDCode 0x0a 0x01 0xaa 0x00, HDCode 0x0f 0x01 0xaa 0x00,
    HDCode 0x18 0x01 0xaa 0x00, HDCode 0x1f 0x01 0xaa 0x00, HDCode 0x29 0x01 0xaa 0x00, HDCode 0x38 0x01 0xaa 0x01,
    HDCode 0x03 0x01 0xad 0x00, HDCode 0x06 0x01 0xad 0x00, HDCode 0x0a 0x01 0xad 0x00, HDCode 0x0f 0x01 0xad 0x00,
    HDCode 0x18 0x01 0xad 0x00, HDCode 0x1f 0x01 0xad 0x00, HDCode 0x29 0x01 0xad 0x00, HDCode 0x38 0x01 0xad 0x01
   ],
   [
    HDCode 0x89 0x00 0x00 0x00, HDCode 0x8a 0x00 0x00 0x00, HDCode 0x8c 0x00 0x00 0x00, HDCode 0x8d 0x00 0x00 0x00,
    HDCode 0x90 0x00 0x00 0x00, HDCode 0x91 0x00 0x00 0x00, HDCode 0x93 0x00 0x00 0x00, HDCode 0x96 0x00 0x00 0x00,
    HDCode 0x9c 0x00 0x00 0x00, HDCode 0x9f 0x00 0x00 0x00, HDCode 0xa3 0x00 0x00 0x00, HDCode 0xa6 0x00 0x00 0x00,
    HDCode 0xab 0x00 0x00 0x00, HDCode 0xae 0x00 0x00 0x00, HDCode 0xb5 0x00 0x00 0x00, HDCode 0xbe 0x00 0x00 0x01
   ],
   [
    HDCode 0x00 0x01 0xb2 0x01, HDCode 0x00 0x01 0xb5 0x01, HDCode 0x00 0x01 0xb9 0x01, HDCode 0x00 0x01 0xba 0x01,
    HDCode 0x00 0x01 0xbb 0x01, HDCode 0x00 0x01 0xbd 0x01, HDCode 0x00 0x01 0xbe 0x01, HDCode 0x00 0x01 0xc4 0x01,
    HDCode 0x00 0x01 0xc6 0x01, HDCode 0x00 0x01 0xe4 0x01, HDCode 0x00 0x01 0xe8 0x01, HDCode 0x00 0x01 0xe9 0x01,
    HDCode 0x94 0x00 0x00 0x00, HDCode 0x95 0x00 0x00 0x00, HDCode 0x97 0x00 0x00 0x00, HDCode 0x98 0x00 0x00 0x00
   ],
   [
    HDCode 0x01 0x01 0xb2 0x00, HDCode 0x16 0x01 0xb2 0x01, HDCode 0x01 0x01 0xb5 0x00, HDCode 0x16 0x01 0xb5 0x01,
    HDCode 0x01 0x01 0xb9 0x00, HDCode 0x16 0x01 0xb9 0x01, HDCode 0x01 0x01 0xba 0x00, HDCode 0x16 0x01 0xba 0x01,
    HDCode 0x01 0x01 0xbb 0x00, HDCode 0x16 0x01 0xbb 0x01, HDCode 0x01 0x01 0xbd 0x00, HDCode 0x16 0x01 0xbd 0x01,
    HDCode 0x01 0x01 0xbe 0x00, HDCode 0x16 0x01 0xbe 0x01, HDCode 0x01 0x01 0xc4 0x00, HDCode 0x16 0x01 0xc4 0x01
   ]]"

definition huff_decode_codes_17 :: "kgl_http_v2_huff_decode_code_t list list" where
  "huff_decode_codes_17 = [
   [
    HDCode 0x02 0x01 0xb2 0x00, HDCode 0x09 0x01 0xb2 0x00, HDCode 0x17 0x01 0xb2 0x00, HDCode 0x28 0x01 0xb2 0x01,
    HDCode 0x02 0x01 0xb5 0x00, HDCode 0x09 0x01 0xb5 0x00, HDCode 0x17 0x01 0xb5 0x00, HDCode 0x28 0x01 0xb5 0x01,
    HDCode 0x02 0x01 0xb9 0x00, HDCode 0x09 0x01 0xb9 0x00, HDCode 0x17 0x01 0xb9 0x00, HDCode 0x28 0x01 0xb9 0x01,
    HDCode 0x02 0x01 0xba 0x00, HDCode 0x09 0x01 0xba 0x00, HDCode 0x17 0x01 0xba 0x00, HDCode 0x28 0x01 0xba 0x01
   ],
   [
    HDCode 0x03 0x01 0xb2 0x00, HDCode 0x06 0x01 0xb2 0x00, HDCode 0x0a 0x01 0xb2 0x00, HDCode 0x0f 0x01 0xb2 0x00,
    HDCode 0x18 0x01 0xb2 0x00, HDCode 0x1f 0x01 0xb2 0x00, HDCode 0x29 0x01 0xb2 0x00, HDCode 0x38 0x01 0xb2 0x01,
    HDCode 0x03 0x01 0xb5 0x00, HDCode 0x06 0x01 0xb5 0x00, HDCode 0x0a 0x01 0xb5 0x00, HDCode 0x0f 0x01 0xb5 0x00,
    HDCode 0x18 0x01 0xb5 0x00, HDCode 0x1f 0x01 0xb5 0x00, HDCode 0x29 0x01 0xb5 0x00, HDCode 0x38 0x01 0xb5 0x01
   ],
   [
    HDCode 0x03 0x01 0xb9 0x00, HDCode 0x06 0x01 0xb9 0x00, HDCode 0x0a 0x01 0xb9 0x00, HDCode 0x0f 0x01 0xb9 0x00,
    HDCode 0x18 0x01 0xb9 0x00, HDCode 0x1f 0x01 0xb9 0x00, HDCode 0x29 0x01 0xb9 0x00, HDCode 0x38 0x01 0xb9 0x01,
    HDCode 0x03 0x01 0xba 0x00, HDCode 0x06 0x01 0xba 0x00, HDCode 0x0a 0x01 0xba 0x00, HDCode 0x0f 0x01 0xba 0x00,
    HDCode 0x18 0x01 0xba 0x00, HDCode 0x1f 0x01 0xba 0x00, HDCode 0x29 0x01 0xba 0x00, HDCode 0x38 0x01 0xba 0x01
   ],
   [
    HDCode 0x02 0x01 0xbb 0x00, HDCode 0x09 0x01 0xbb 0x00, HDCode 0x17 0x01 0xbb 0x00, HDCode 0x28 0x01 0xbb 0x01,
    HDCode 0x02 0x01 0xbd 0x00, HDCode 0x09 0x01 0xbd 0x00, HDCode 0x17 0x01 0xbd 0x00, HDCode 0x28 0x01 0xbd 0x01,
    HDCode 0x02 0x01 0xbe 0x00, HDCode 0x09 0x01 0xbe 0x00, HDCode 0x17 0x01 0xbe 0x00, HDCode 0x28 0x01 0xbe 0x01,
    HDCode 0x02 0x01 0xc4 0x00, HDCode 0x09 0x01 0xc4 0x00, HDCode 0x17 0x01 0xc4 0x00, HDCode 0x28 0x01 0xc4 0x01
   ],
   [
    HDCode 0x03 0x01 0xbb 0x00, HDCode 0x06 0x01 0xbb 0x00, HDCode 0x0a 0x01 0xbb 0x00, HDCode 0x0f 0x01 0xbb 0x00,
    HDCode 0x18 0x01 0xbb 0x00, HDCode 0x1f 0x01 0xbb 0x00, HDCode 0x29 0x01 0xbb 0x00, HDCode 0x38 0x01 0xbb 0x01,
    HDCode 0x03 0x01 0xbd 0x00, HDCode 0x06 0x01 0xbd 0x00, HDCode 0x0a 0x01 0xbd 0x00, HDCode 0x0f 0x01 0xbd 0x00,
    HDCode 0x18 0x01 0xbd 0x00, HDCode 0x1f 0x01 0xbd 0x00, HDCode 0x29 0x01 0xbd 0x00, HDCode 0x38 0x01 0xbd 0x01
   ],
   [
    HDCode 0x03 0x01 0xbe 0x00, HDCode 0x06 0x01 0xbe 0x00, HDCode 0x0a 0x01 0xbe 0x00, HDCode 0x0f 0x01 0xbe 0x00,
    HDCode 0x18 0x01 0xbe 0x00, HDCode 0x1f 0x01 0xbe 0x00, HDCode 0x29 0x01 0xbe 0x00, HDCode 0x38 0x01 0xbe 0x01,
    HDCode 0x03 0x01 0xc4 0x00, HDCode 0x06 0x01 0xc4 0x00, HDCode 0x0a 0x01 0xc4 0x00, HDCode 0x0f 0x01 0xc4 0x00,
    HDCode 0x18 0x01 0xc4 0x00, HDCode 0x1f 0x01 0xc4 0x00, HDCode 0x29 0x01 0xc4 0x00, HDCode 0x38 0x01 0xc4 0x01
   ],
   [
    HDCode 0x01 0x01 0xc6 0x00, HDCode 0x16 0x01 0xc6 0x01, HDCode 0x01 0x01 0xe4 0x00, HDCode 0x16 0x01 0xe4 0x01,
    HDCode 0x01 0x01 0xe8 0x00, HDCode 0x16 0x01 0xe8 0x01, HDCode 0x01 0x01 0xe9 0x00, HDCode 0x16 0x01 0xe9 0x01,
    HDCode 0x00 0x01 0x01 0x01, HDCode 0x00 0x01 0x87 0x01, HDCode 0x00 0x01 0x89 0x01, HDCode 0x00 0x01 0x8a 0x01,
    HDCode 0x00 0x01 0x8b 0x01, HDCode 0x00 0x01 0x8c 0x01, HDCode 0x00 0x01 0x8d 0x01, HDCode 0x00 0x01 0x8f 0x01
   ],
   [
    HDCode 0x02 0x01 0xc6 0x00, HDCode 0x09 0x01 0xc6 0x00, HDCode 0x17 0x01 0xc6 0x00, HDCode 0x28 0x01 0xc6 0x01,
    HDCode 0x02 0x01 0xe4 0x00, HDCode 0x09 0x01 0xe4 0x00, HDCode 0x17 0x01 0xe4 0x00, HDCode 0x28 0x01 0xe4 0x01,
    HDCode 0x02 0x01 0xe8 0x00, HDCode 0x09 0x01 0xe8 0x00, HDCode 0x17 0x01 0xe8 0x00, HDCode 0x28 0x01 0xe8 0x01,
    HDCode 0x02 0x01 0xe9 0x00, HDCode 0x09 0x01 0xe9 0x00, HDCode 0x17 0x01 0xe9 0x00, HDCode 0x28 0x01 0xe9 0x01
   ]]"

definition huff_decode_codes_18 :: "kgl_http_v2_huff_decode_code_t list list" where
  "huff_decode_codes_18 = [
   [
    HDCode 0x03 0x01 0xc6 0x00, HDCode 0x06 0x01 0xc6 0x00, HDCode 0x0a 0x01 0xc6 0x00, HDCode 0x0f 0x01 0xc6 0x00,
    HDCode 0x18 0x01 0xc6 0x00, HDCode 0x1f 0x01 0xc6 0x00, HDCode 0x29 0x01 0xc6 0x00, HDCode 0x38 0x01 0xc6 0x01,
    HDCode 0x03 0x01 0xe4 0x00, HDCode 0x06 0x01 0xe4 0x00, HDCode 0x0a 0x01 0xe4 0x00, HDCode 0x0f 0x01 0xe4 0x00,
    HDCode 0x18 0x01 0xe4 0x00, HDCode 0x1f 0x01 0xe4 0x00, HDCode 0x29 0x01 0xe4 0x00, HDCode 0x38 0x01 0xe4 0x01
   ],
   [
    HDCode 0x03 0x01 0xe8 0x00, HDCode 0x06 0x01 0xe8 0x00, HDCode 0x0a 0x01 0xe8 0x00, HDCode 0x0f 0x01 0xe8 0x00,
    HDCode 0x18 0x01 0xe8 0x00, HDCode 0x1f 0x01 0xe8 0x00, HDCode 0x29 0x01 0xe8 0x00, HDCode 0x38 0x01 0xe8 0x01,
    HDCode 0x03 0x01 0xe9 0x00, HDCode 0x06 0x01 0xe9 0x00, HDCode 0x0a 0x01 0xe9 0x00, HDCode 0x0f 0x01 0xe9 0x00,
    HDCode 0x18 0x01 0xe9 0x00, HDCode 0x1f 0x01 0xe9 0x00, HDCode 0x29 0x01 0xe9 0x00, HDCode 0x38 0x01 0xe9 0x01
   ],
   [
    HDCode 0x01 0x01 0x01 0x00, HDCode 0x16 0x01 0x01 0x01, HDCode 0x01 0x01 0x87 0x00, HDCode 0x16 0x01 0x87 0x01,
    HDCode 0x01 0x01 0x89 0x00, HDCode 0x16 0x01 0x89 0x01, HDCode 0x01 0x01 0x8a 0x00, HDCode 0x16 0x01 0x8a 0x01,
    HDCode 0x01 0x01 0x8b 0x00, HDCode 0x16 0x01 0x8b 0x01, HDCode 0x01 0x01 0x8c 0x00, HDCode 0x16 0x01 0x8c 0x01,
    HDCode 0x01 0x01 0x8d 0x00, HDCode 0x16 0x01 0x8d 0x01, HDCode 0x01 0x01 0x8f 0x00, HDCode 0x16 0x01 0x8f 0x01
   ],
   [
    HDCode 0x02 0x01 0x01 0x00, HDCode 0x09 0x01 0x01 0x00, HDCode 0x17 0x01 0x01 0x00, HDCode 0x28 0x01 0x01 0x01,
    HDCode 0x02 0x01 0x87 0x00, HDCode 0x09 0x01 0x87 0x00, HDCode 0x17 0x01 0x87 0x00, HDCode 0x28 0x01 0x87 0x01,
    HDCode 0x02 0x01 0x89 0x00, HDCode 0x09 0x01 0x89 0x00, HDCode 0x17 0x01 0x89 0x00, HDCode 0x28 0x01 0x89 0x01,
    HDCode 0x02 0x01 0x8a 0x00, HDCode 0x09 0x01 0x8a 0x00, HDCode 0x17 0x01 0x8a 0x00, HDCode 0x28 0x01 0x8a 0x01
   ],
   [
    HDCode 0x03 0x01 0x01 0x00, HDCode 0x06 0x01 0x01 0x00, HDCode 0x0a 0x01 0x01 0x00, HDCode 0x0f 0x01 0x01 0x00,
    HDCode 0x18 0x01 0x01 0x00, HDCode 0x1f 0x01 0x01 0x00, HDCode 0x29 0x01 0x01 0x00, HDCode 0x38 0x01 0x01 0x01,
    HDCode 0x03 0x01 0x87 0x00, HDCode 0x06 0x01 0x87 0x00, HDCode 0x0a 0x01 0x87 0x00, HDCode 0x0f 0x01 0x87 0x00,
    HDCode 0x18 0x01 0x87 0x00, HDCode 0x1f 0x01 0x87 0x00, HDCode 0x29 0x01 0x87 0x00, HDCode 0x38 0x01 0x87 0x01
   ],
   [
    HDCode 0x03 0x01 0x89 0x00, HDCode 0x06 0x01 0x89 0x00, HDCode 0x0a 0x01 0x89 0x00, HDCode 0x0f 0x01 0x89 0x00,
    HDCode 0x18 0x01 0x89 0x00, HDCode 0x1f 0x01 0x89 0x00, HDCode 0x29 0x01 0x89 0x00, HDCode 0x38 0x01 0x89 0x01,
    HDCode 0x03 0x01 0x8a 0x00, HDCode 0x06 0x01 0x8a 0x00, HDCode 0x0a 0x01 0x8a 0x00, HDCode 0x0f 0x01 0x8a 0x00,
    HDCode 0x18 0x01 0x8a 0x00, HDCode 0x1f 0x01 0x8a 0x00, HDCode 0x29 0x01 0x8a 0x00, HDCode 0x38 0x01 0x8a 0x01
   ],
   [
    HDCode 0x02 0x01 0x8b 0x00, HDCode 0x09 0x01 0x8b 0x00, HDCode 0x17 0x01 0x8b 0x00, HDCode 0x28 0x01 0x8b 0x01,
    HDCode 0x02 0x01 0x8c 0x00, HDCode 0x09 0x01 0x8c 0x00, HDCode 0x17 0x01 0x8c 0x00, HDCode 0x28 0x01 0x8c 0x01,
    HDCode 0x02 0x01 0x8d 0x00, HDCode 0x09 0x01 0x8d 0x00, HDCode 0x17 0x01 0x8d 0x00, HDCode 0x28 0x01 0x8d 0x01,
    HDCode 0x02 0x01 0x8f 0x00, HDCode 0x09 0x01 0x8f 0x00, HDCode 0x17 0x01 0x8f 0x00, HDCode 0x28 0x01 0x8f 0x01
   ],
   [
    HDCode 0x03 0x01 0x8b 0x00, HDCode 0x06 0x01 0x8b 0x00, HDCode 0x0a 0x01 0x8b 0x00, HDCode 0x0f 0x01 0x8b 0x00,
    HDCode 0x18 0x01 0x8b 0x00, HDCode 0x1f 0x01 0x8b 0x00, HDCode 0x29 0x01 0x8b 0x00, HDCode 0x38 0x01 0x8b 0x01,
    HDCode 0x03 0x01 0x8c 0x00, HDCode 0x06 0x01 0x8c 0x00, HDCode 0x0a 0x01 0x8c 0x00, HDCode 0x0f 0x01 0x8c 0x00,
    HDCode 0x18 0x01 0x8c 0x00, HDCode 0x1f 0x01 0x8c 0x00, HDCode 0x29 0x01 0x8c 0x00, HDCode 0x38 0x01 0x8c 0x01
   ]]"

definition huff_decode_codes_19 :: "kgl_http_v2_huff_decode_code_t list list" where
  "huff_decode_codes_19 = [
   [
    HDCode 0x03 0x01 0x8d 0x00, HDCode 0x06 0x01 0x8d 0x00, HDCode 0x0a 0x01 0x8d 0x00, HDCode 0x0f 0x01 0x8d 0x00,
    HDCode 0x18 0x01 0x8d 0x00, HDCode 0x1f 0x01 0x8d 0x00, HDCode 0x29 0x01 0x8d 0x00, HDCode 0x38 0x01 0x8d 0x01,
    HDCode 0x03 0x01 0x8f 0x00, HDCode 0x06 0x01 0x8f 0x00, HDCode 0x0a 0x01 0x8f 0x00, HDCode 0x0f 0x01 0x8f 0x00,
    HDCode 0x18 0x01 0x8f 0x00, HDCode 0x1f 0x01 0x8f 0x00, HDCode 0x29 0x01 0x8f 0x00, HDCode 0x38 0x01 0x8f 0x01
   ],
   [
    HDCode 0x9d 0x00 0x00 0x00, HDCode 0x9e 0x00 0x00 0x00, HDCode 0xa0 0x00 0x00 0x00, HDCode 0xa1 0x00 0x00 0x00,
    HDCode 0xa4 0x00 0x00 0x00, HDCode 0xa5 0x00 0x00 0x00, HDCode 0xa7 0x00 0x00 0x00, HDCode 0xa8 0x00 0x00 0x00,
    HDCode 0xac 0x00 0x00 0x00, HDCode 0xad 0x00 0x00 0x00, HDCode 0xaf 0x00 0x00 0x00, HDCode 0xb1 0x00 0x00 0x00,
    HDCode 0xb6 0x00 0x00 0x00, HDCode 0xb9 0x00 0x00 0x00, HDCode 0xbf 0x00 0x00 0x00, HDCode 0xcf 0x00 0x00 0x01
   ],
   [
    HDCode 0x00 0x01 0x93 0x01, HDCode 0x00 0x01 0x95 0x01, HDCode 0x00 0x01 0x96 0x01, HDCode 0x00 0x01 0x97 0x01,
    HDCode 0x00 0x01 0x98 0x01, HDCode 0x00 0x01 0x9b 0x01, HDCode 0x00 0x01 0x9d 0x01, HDCode 0x00 0x01 0x9e 0x01,
    HDCode 0x00 0x01 0xa5 0x01, HDCode 0x00 0x01 0xa6 0x01, HDCode 0x00 0x01 0xa8 0x01, HDCode 0x00 0x01 0xae 0x01,
    HDCode 0x00 0x01 0xaf 0x01, HDCode 0x00 0x01 0xb4 0x01, HDCode 0x00 0x01 0xb6 0x01, HDCode 0x00 0x01 0xb7 0x01
   ],
   [
    HDCode 0x01 0x01 0x93 0x00, HDCode 0x16 0x01 0x93 0x01, HDCode 0x01 0x01 0x95 0x00, HDCode 0x16 0x01 0x95 0x01,
    HDCode 0x01 0x01 0x96 0x00, HDCode 0x16 0x01 0x96 0x01, HDCode 0x01 0x01 0x97 0x00, HDCode 0x16 0x01 0x97 0x01,
    HDCode 0x01 0x01 0x98 0x00, HDCode 0x16 0x01 0x98 0x01, HDCode 0x01 0x01 0x9b 0x00, HDCode 0x16 0x01 0x9b 0x01,
    HDCode 0x01 0x01 0x9d 0x00, HDCode 0x16 0x01 0x9d 0x01, HDCode 0x01 0x01 0x9e 0x00, HDCode 0x16 0x01 0x9e 0x01
   ],
   [
    HDCode 0x02 0x01 0x93 0x00, HDCode 0x09 0x01 0x93 0x00, HDCode 0x17 0x01 0x93 0x00, HDCode 0x28 0x01 0x93 0x01,
    HDCode 0x02 0x01 0x95 0x00, HDCode 0x09 0x01 0x95 0x00, HDCode 0x17 0x01 0x95 0x00, HDCode 0x28 0x01 0x95 0x01,
    HDCode 0x02 0x01 0x96 0x00, HDCode 0x09 0x01 0x96 0x00, HDCode 0x17 0x01 0x96 0x00, HDCode 0x28 0x01 0x96 0x01,
    HDCode 0x02 0x01 0x97 0x00, HDCode 0x09 0x01 0x97 0x00, HDCode 0x17 0x01 0x97 0x00, HDCode 0x28 0x01 0x97 0x01
   ],
   [
    HDCode 0x03 0x01 0x93 0x00, HDCode 0x06 0x01 0x93 0x00, HDCode 0x0a 0x01 0x93 0x00, HDCode 0x0f 0x01 0x93 0x00,
    HDCode 0x18 0x01 0x93 0x00, HDCode 0x1f 0x01 0x93 0x00, HDCode 0x29 0x01 0x93 0x00, HDCode 0x38 0x01 0x93 0x01,
    HDCode 0x03 0x01 0x95 0x00, HDCode 0x06 0x01 0x95 0x00, HDCode 0x0a 0x01 0x95 0x00, HDCode 0x0f 0x01 0x95 0x00,
    HDCode 0x18 0x01 0x95 0x00, HDCode 0x1f 0x01 0x95 0x00, HDCode 0x29 0x01 0x95 0x00, HDCode 0x38 0x01 0x95 0x01
   ],
   [
    HDCode 0x03 0x01 0x96 0x00, HDCode 0x06 0x01 0x96 0x00, HDCode 0x0a 0x01 0x96 0x00, HDCode 0x0f 0x01 0x96 0x00,
    HDCode 0x18 0x01 0x96 0x00, HDCode 0x1f 0x01 0x96 0x00, HDCode 0x29 0x01 0x96 0x00, HDCode 0x38 0x01 0x96 0x01,
    HDCode 0x03 0x01 0x97 0x00, HDCode 0x06 0x01 0x97 0x00, HDCode 0x0a 0x01 0x97 0x00, HDCode 0x0f 0x01 0x97 0x00,
    HDCode 0x18 0x01 0x97 0x00, HDCode 0x1f 0x01 0x97 0x00, HDCode 0x29 0x01 0x97 0x00, HDCode 0x38 0x01 0x97 0x01
   ],
   [
    HDCode 0x02 0x01 0x98 0x00, HDCode 0x09 0x01 0x98 0x00, HDCode 0x17 0x01 0x98 0x00, HDCode 0x28 0x01 0x98 0x01,
    HDCode 0x02 0x01 0x9b 0x00, HDCode 0x09 0x01 0x9b 0x00, HDCode 0x17 0x01 0x9b 0x00, HDCode 0x28 0x01 0x9b 0x01,
    HDCode 0x02 0x01 0x9d 0x00, HDCode 0x09 0x01 0x9d 0x00, HDCode 0x17 0x01 0x9d 0x00, HDCode 0x28 0x01 0x9d 0x01,
    HDCode 0x02 0x01 0x9e 0x00, HDCode 0x09 0x01 0x9e 0x00, HDCode 0x17 0x01 0x9e 0x00, HDCode 0x28 0x01 0x9e 0x01
   ]]"

definition huff_decode_codes_20 :: "kgl_http_v2_huff_decode_code_t list list" where
  "huff_decode_codes_20 = [
   [
    HDCode 0x03 0x01 0x98 0x00, HDCode 0x06 0x01 0x98 0x00, HDCode 0x0a 0x01 0x98 0x00, HDCode 0x0f 0x01 0x98 0x00,
    HDCode 0x18 0x01 0x98 0x00, HDCode 0x1f 0x01 0x98 0x00, HDCode 0x29 0x01 0x98 0x00, HDCode 0x38 0x01 0x98 0x01,
    HDCode 0x03 0x01 0x9b 0x00, HDCode 0x06 0x01 0x9b 0x00, HDCode 0x0a 0x01 0x9b 0x00, HDCode 0x0f 0x01 0x9b 0x00,
    HDCode 0x18 0x01 0x9b 0x00, HDCode 0x1f 0x01 0x9b 0x00, HDCode 0x29 0x01 0x9b 0x00, HDCode 0x38 0x01 0x9b 0x01
   ],
   [
    HDCode 0x03 0x01 0x9d 0x00, HDCode 0x06 0x01 0x9d 0x00, HDCode 0x0a 0x01 0x9d 0x00, HDCode 0x0f 0x01 0x9d 0x00,
    HDCode 0x18 0x01 0x9d 0x00, HDCode 0x1f 0x01 0x9d 0x00, HDCode 0x29 0x01 0x9d 0x00, HDCode 0x38 0x01 0x9d 0x01,
    HDCode 0x03 0x01 0x9e 0x00, HDCode 0x06 0x01 0x9e 0x00, HDCode 0x0a 0x01 0x9e 0x00, HDCode 0x0f 0x01 0x9e 0x00,
    HDCode 0x18 0x01 0x9e 0x00, HDCode 0x1f 0x01 0x9e 0x00, HDCode 0x29 0x01 0x9e 0x00, HDCode 0x38 0x01 0x9e 0x01
   ],
   [
    HDCode 0x01 0x01 0xa5 0x00, HDCode 0x16 0x01 0xa5 0x01, HDCode 0x01 0x01 0xa6 0x00, HDCode 0x16 0x01 0xa6 0x01,
    HDCode 0x01 0x01 0xa8 0x00, HDCode 0x16 0x01 0xa8 0x01, HDCode 0x01 0x01 0xae 0x00, HDCode 0x16 0x01 0xae 0x01,
    HDCode 0x01 0x01 0xaf 0x00, HDCode 0x16 0x01 0xaf 0x01, HDCode 0x01 0x01 0xb4 0x00, HDCode 0x16 0x01 0xb4 0x01,
    HDCode 0x01 0x01 0xb6 0x00, HDCode 0x16 0x01 0xb6 0x01, HDCode 0x01 0x01 0xb7 0x00, HDCode 0x16 0x01 0xb7 0x01
   ],
   [
    HDCode 0x02 0x01 0xa5 0x00, HDCode 0x09 0x01 0xa5 0x00, HDCode 0x17 0x01 0xa5 0x00, HDCode 0x28 0x01 0xa5 0x01,
    HDCode 0x02 0x01 0xa6 0x00, HDCode 0x09 0x01 0xa6 0x00, HDCode 0x17 0x01 0xa6 0x00, HDCode 0x28 0x01 0xa6 0x01,
    HDCode 0x02 0x01 0xa8 0x00, HDCode 0x09 0x01 0xa8 0x00, HDCode 0x17 0x01 0xa8 0x00, HDCode 0x28 0x01 0xa8 0x01,
    HDCode 0x02 0x01 0xae 0x00, HDCode 0x09 0x01 0xae 0x00, HDCode 0x17 0x01 0xae 0x00, HDCode 0x28 0x01 0xae 0x01
   ],
   [
    HDCode 0x03 0x01 0xa5 0x00, HDCode 0x06 0x01 0xa5 0x00, HDCode 0x0a 0x01 0xa5 0x00, HDCode 0x0f 0x01 0xa5 0x00,
    HDCode 0x18 0x01 0xa5 0x00, HDCode 0x1f 0x01 0xa5 0x00, HDCode 0x29 0x01 0xa5 0x00, HDCode 0x38 0x01 0xa5 0x01,
    HDCode 0x03 0x01 0xa6 0x00, HDCode 0x06 0x01 0xa6 0x00, HDCode 0x0a 0x01 0xa6 0x00, HDCode 0x0f 0x01 0xa6 0x00,
    HDCode 0x18 0x01 0xa6 0x00, HDCode 0x1f 0x01 0xa6 0x00, HDCode 0x29 0x01 0xa6 0x00, HDCode 0x38 0x01 0xa6 0x01
   ],
   [
    HDCode 0x03 0x01 0xa8 0x00, HDCode 0x06 0x01 0xa8 0x00, HDCode 0x0a 0x01 0xa8 0x00, HDCode 0x0f 0x01 0xa8 0x00,
    HDCode 0x18 0x01 0xa8 0x00, HDCode 0x1f 0x01 0xa8 0x00, HDCode 0x29 0x01 0xa8 0x00, HDCode 0x38 0x01 0xa8 0x01,
    HDCode 0x03 0x01 0xae 0x00, HDCode 0x06 0x01 0xae 0x00, HDCode 0x0a 0x01 0xae 0x00, HDCode 0x0f 0x01 0xae 0x00,
    HDCode 0x18 0x01 0xae 0x00, HDCode 0x1f 0x01 0xae 0x00, HDCode 0x29 0x01 0xae 0x00, HDCode 0x38 0x01 0xae 0x01
   ],
   [
    HDCode 0x02 0x01 0xaf 0x00, HDCode 0x09 0x01 0xaf 0x00, HDCode 0x17 0x01 0xaf 0x00, HDCode 0x28 0x01 0xaf 0x01,
    HDCode 0x02 0x01 0xb4 0x00, HDCode 0x09 0x01 0xb4 0x00, HDCode 0x17 0x01 0xb4 0x00, HDCode 0x28 0x01 0xb4 0x01,
    HDCode 0x02 0x01 0xb6 0x00, HDCode 0x09 0x01 0xb6 0x00, HDCode 0x17 0x01 0xb6 0x00, HDCode 0x28 0x01 0xb6 0x01,
    HDCode 0x02 0x01 0xb7 0x00, HDCode 0x09 0x01 0xb7 0x00, HDCode 0x17 0x01 0xb7 0x00, HDCode 0x28 0x01 0xb7 0x01
   ],
   [
    HDCode 0x03 0x01 0xaf 0x00, HDCode 0x06 0x01 0xaf 0x00, HDCode 0x0a 0x01 0xaf 0x00, HDCode 0x0f 0x01 0xaf 0x00,
    HDCode 0x18 0x01 0xaf 0x00, HDCode 0x1f 0x01 0xaf 0x00, HDCode 0x29 0x01 0xaf 0x00, HDCode 0x38 0x01 0xaf 0x01,
    HDCode 0x03 0x01 0xb4 0x00, HDCode 0x06 0x01 0xb4 0x00, HDCode 0x0a 0x01 0xb4 0x00, HDCode 0x0f 0x01 0xb4 0x00,
    HDCode 0x18 0x01 0xb4 0x00, HDCode 0x1f 0x01 0xb4 0x00, HDCode 0x29 0x01 0xb4 0x00, HDCode 0x38 0x01 0xb4 0x01
   ]]"

definition huff_decode_codes_21 :: "kgl_http_v2_huff_decode_code_t list list" where
  "huff_decode_codes_21 = [
   [
    HDCode 0x03 0x01 0xb6 0x00, HDCode 0x06 0x01 0xb6 0x00, HDCode 0x0a 0x01 0xb6 0x00, HDCode 0x0f 0x01 0xb6 0x00,
    HDCode 0x18 0x01 0xb6 0x00, HDCode 0x1f 0x01 0xb6 0x00, HDCode 0x29 0x01 0xb6 0x00, HDCode 0x38 0x01 0xb6 0x01,
    HDCode 0x03 0x01 0xb7 0x00, HDCode 0x06 0x01 0xb7 0x00, HDCode 0x0a 0x01 0xb7 0x00, HDCode 0x0f 0x01 0xb7 0x00,
    HDCode 0x18 0x01 0xb7 0x00, HDCode 0x1f 0x01 0xb7 0x00, HDCode 0x29 0x01 0xb7 0x00, HDCode 0x38 0x01 0xb7 0x01
   ],
   [
    HDCode 0x00 0x01 0xbc 0x01, HDCode 0x00 0x01 0xbf 0x01, HDCode 0x00 0x01 0xc5 0x01, HDCode 0x00 0x01 0xe7 0x01,
    HDCode 0x00 0x01 0xef 0x01, HDCode 0xb0 0x00 0x00 0x00, HDCode 0xb2 0x00 0x00 0x00, HDCode 0xb3 0x00 0x00 0x00,
    HDCode 0xb7 0x00 0x00 0x00, HDCode 0xb8 0x00 0x00 0x00, HDCode 0xba 0x00 0x00 0x00, HDCode 0xbb 0x00 0x00 0x00,
    HDCode 0xc0 0x00 0x00 0x00, HDCode 0xc7 0x00 0x00 0x00, HDCode 0xd0 0x00 0x00 0x00, HDCode 0xdf 0x00 0x00 0x01
   ],
   [
    HDCode 0x01 0x01 0xbc 0x00, HDCode 0x16 0x01 0xbc 0x01, HDCode 0x01 0x01 0xbf 0x00, HDCode 0x16 0x01 0xbf 0x01,
    HDCode 0x01 0x01 0xc5 0x00, HDCode 0x16 0x01 0xc5 0x01, HDCode 0x01 0x01 0xe7 0x00, HDCode 0x16 0x01 0xe7 0x01,
    HDCode 0x01 0x01 0xef 0x00, HDCode 0x16 0x01 0xef 0x01, HDCode 0x00 0x01 0x09 0x01, HDCode 0x00 0x01 0x8e 0x01,
    HDCode 0x00 0x01 0x90 0x01, HDCode 0x00 0x01 0x91 0x01, HDCode 0x00 0x01 0x94 0x01, HDCode 0x00 0x01 0x9f 0x01
   ],
   [
    HDCode 0x02 0x01 0xbc 0x00, HDCode 0x09 0x01 0xbc 0x00, HDCode 0x17 0x01 0xbc 0x00, HDCode 0x28 0x01 0xbc 0x01,
    HDCode 0x02 0x01 0xbf 0x00, HDCode 0x09 0x01 0xbf 0x00, HDCode 0x17 0x01 0xbf 0x00, HDCode 0x28 0x01 0xbf 0x01,
    HDCode 0x02 0x01 0xc5 0x00, HDCode 0x09 0x01 0xc5 0x00, HDCode 0x17 0x01 0xc5 0x00, HDCode 0x28 0x01 0xc5 0x01,
    HDCode 0x02 0x01 0xe7 0x00, HDCode 0x09 0x01 0xe7 0x00, HDCode 0x17 0x01 0xe7 0x00, HDCode 0x28 0x01 0xe7 0x01
   ],
   [
    HDCode 0x03 0x01 0xbc 0x00, HDCode 0x06 0x01 0xbc 0x00, HDCode 0x0a 0x01 0xbc 0x00, HDCode 0x0f 0x01 0xbc 0x00,
    HDCode 0x18 0x01 0xbc 0x00, HDCode 0x1f 0x01 0xbc 0x00, HDCode 0x29 0x01 0xbc 0x00, HDCode 0x38 0x01 0xbc 0x01,
    HDCode 0x03 0x01 0xbf 0x00, HDCode 0x06 0x01 0xbf 0x00, HDCode 0x0a 0x01 0xbf 0x00, HDCode 0x0f 0x01 0xbf 0x00,
    HDCode 0x18 0x01 0xbf 0x00, HDCode 0x1f 0x01 0xbf 0x00, HDCode 0x29 0x01 0xbf 0x00, HDCode 0x38 0x01 0xbf 0x01
   ],
   [
    HDCode 0x03 0x01 0xc5 0x00, HDCode 0x06 0x01 0xc5 0x00, HDCode 0x0a 0x01 0xc5 0x00, HDCode 0x0f 0x01 0xc5 0x00,
    HDCode 0x18 0x01 0xc5 0x00, HDCode 0x1f 0x01 0xc5 0x00, HDCode 0x29 0x01 0xc5 0x00, HDCode 0x38 0x01 0xc5 0x01,
    HDCode 0x03 0x01 0xe7 0x00, HDCode 0x06 0x01 0xe7 0x00, HDCode 0x0a 0x01 0xe7 0x00, HDCode 0x0f 0x01 0xe7 0x00,
    HDCode 0x18 0x01 0xe7 0x00, HDCode 0x1f 0x01 0xe7 0x00, HDCode 0x29 0x01 0xe7 0x00, HDCode 0x38 0x01 0xe7 0x01
   ],
   [
    HDCode 0x02 0x01 0xef 0x00, HDCode 0x09 0x01 0xef 0x00, HDCode 0x17 0x01 0xef 0x00, HDCode 0x28 0x01 0xef 0x01,
    HDCode 0x01 0x01 0x09 0x00, HDCode 0x16 0x01 0x09 0x01, HDCode 0x01 0x01 0x8e 0x00, HDCode 0x16 0x01 0x8e 0x01,
    HDCode 0x01 0x01 0x90 0x00, HDCode 0x16 0x01 0x90 0x01, HDCode 0x01 0x01 0x91 0x00, HDCode 0x16 0x01 0x91 0x01,
    HDCode 0x01 0x01 0x94 0x00, HDCode 0x16 0x01 0x94 0x01, HDCode 0x01 0x01 0x9f 0x00, HDCode 0x16 0x01 0x9f 0x01
   ],
   [
    HDCode 0x03 0x01 0xef 0x00, HDCode 0x06 0x01 0xef 0x00, HDCode 0x0a 0x01 0xef 0x00, HDCode 0x0f 0x01 0xef 0x00,
    HDCode 0x18 0x01 0xef 0x00, HDCode 0x1f 0x01 0xef 0x00, HDCode 0x29 0x01 0xef 0x00, HDCode 0x38 0x01 0xef 0x01,
    HDCode 0x02 0x01 0x09 0x00, HDCode 0x09 0x01 0x09 0x00, HDCode 0x17 0x01 0x09 0x00, HDCode 0x28 0x01 0x09 0x01,
    HDCode 0x02 0x01 0x8e 0x00, HDCode 0x09 0x01 0x8e 0x00, HDCode 0x17 0x01 0x8e 0x00, HDCode 0x28 0x01 0x8e 0x01
   ]]"

definition huff_decode_codes_22 :: "kgl_http_v2_huff_decode_code_t list list" where
  "huff_decode_codes_22 = [
   [
    HDCode 0x03 0x01 0x09 0x00, HDCode 0x06 0x01 0x09 0x00, HDCode 0x0a 0x01 0x09 0x00, HDCode 0x0f 0x01 0x09 0x00,
    HDCode 0x18 0x01 0x09 0x00, HDCode 0x1f 0x01 0x09 0x00, HDCode 0x29 0x01 0x09 0x00, HDCode 0x38 0x01 0x09 0x01,
    HDCode 0x03 0x01 0x8e 0x00, HDCode 0x06 0x01 0x8e 0x00, HDCode 0x0a 0x01 0x8e 0x00, HDCode 0x0f 0x01 0x8e 0x00,
    HDCode 0x18 0x01 0x8e 0x00, HDCode 0x1f 0x01 0x8e 0x00, HDCode 0x29 0x01 0x8e 0x00, HDCode 0x38 0x01 0x8e 0x01
   ],
   [
    HDCode 0x02 0x01 0x90 0x00, HDCode 0x09 0x01 0x90 0x00, HDCode 0x17 0x01 0x90 0x00, HDCode 0x28 0x01 0x90 0x01,
    HDCode 0x02 0x01 0x91 0x00, HDCode 0x09 0x01 0x91 0x00, HDCode 0x17 0x01 0x91 0x00, HDCode 0x28 0x01 0x91 0x01,
    HDCode 0x02 0x01 0x94 0x00, HDCode 0x09 0x01 0x94 0x00, HDCode 0x17 0x01 0x94 0x00, HDCode 0x28 0x01 0x94 0x01,
    HDCode 0x02 0x01 0x9f 0x00, HDCode 0x09 0x01 0x9f 0x00, HDCode 0x17 0x01 0x9f 0x00, HDCode 0x28 0x01 0x9f 0x01
   ],
   [
    HDCode 0x03 0x01 0x90 0x00, HDCode 0x06 0x01 0x90 0x00, HDCode 0x0a 0x01 0x90 0x00, HDCode 0x0f 0x01 0x90 0x00,
    HDCode 0x18 0x01 0x90 0x00, HDCode 0x1f 0x01 0x90 0x00, HDCode 0x29 0x01 0x90 0x00, HDCode 0x38 0x01 0x90 0x01,
    HDCode 0x03 0x01 0x91 0x00, HDCode 0x06 0x01 0x91 0x00, HDCode 0x0a 0x01 0x91 0x00, HDCode 0x0f 0x01 0x91 0x00,
    HDCode 0x18 0x01 0x91 0x00, HDCode 0x1f 0x01 0x91 0x00, HDCode 0x29 0x01 0x91 0x00, HDCode 0x38 0x01 0x91 0x01
   ],
   [
    HDCode 0x03 0x01 0x94 0x00, HDCode 0x06 0x01 0x94 0x00, HDCode 0x0a 0x01 0x94 0x00, HDCode 0x0f 0x01 0x94 0x00,
    HDCode 0x18 0x01 0x94 0x00, HDCode 0x1f 0x01 0x94 0x00, HDCode 0x29 0x01 0x94 0x00, HDCode 0x38 0x01 0x94 0x01,
    HDCode 0x03 0x01 0x9f 0x00, HDCode 0x06 0x01 0x9f 0x00, HDCode 0x0a 0x01 0x9f 0x00, HDCode 0x0f 0x01 0x9f 0x00,
    HDCode 0x18 0x01 0x9f 0x00, HDCode 0x1f 0x01 0x9f 0x00, HDCode 0x29 0x01 0x9f 0x00, HDCode 0x38 0x01 0x9f 0x01
   ],
   [
    HDCode 0x00 0x01 0xab 0x01, HDCode 0x00 0x01 0xce 0x01, HDCode 0x00 0x01 0xd7 0x01, HDCode 0x00 0x01 0xe1 0x01,
    HDCode 0x00 0x01 0xec 0x01, HDCode 0x00 0x01 0xed 0x01, HDCode 0xbc 0x00 0x00 0x00, HDCode 0xbd 0x00 0x00 0x00,
    HDCode 0xc1 0x00 0x00 0x00, HDCode 0xc4 0x00 0x00 0x00, HDCode 0xc8 0x00 0x00 0x00, HDCode 0xcb 0x00 0x00 0x00,
    HDCode 0xd1 0x00 0x00 0x00, HDCode 0xd8 0x00 0x00 0x00, HDCode 0xe0 0x00 0x00 0x00, HDCode 0xee 0x00 0x00 0x01
   ],
   [
    HDCode 0x01 0x01 0xab 0x00, HDCode 0x16 0x01 0xab 0x01, HDCode 0x01 0x01 0xce 0x00, HDCode 0x16 0x01 0xce 0x01,
    HDCode 0x01 0x01 0xd7 0x00, HDCode 0x16 0x01 0xd7 0x01, HDCode 0x01 0x01 0xe1 0x00, HDCode 0x16 0x01 0xe1 0x01,
    HDCode 0x01 0x01 0xec 0x00, HDCode 0x16 0x01 0xec 0x01, HDCode 0x01 0x01 0xed 0x00, HDCode 0x16 0x01 0xed 0x01,
    HDCode 0x00 0x01 0xc7 0x01, HDCode 0x00 0x01 0xcf 0x01, HDCode 0x00 0x01 0xea 0x01, HDCode 0x00 0x01 0xeb 0x01
   ],
   [
    HDCode 0x02 0x01 0xab 0x00, HDCode 0x09 0x01 0xab 0x00, HDCode 0x17 0x01 0xab 0x00, HDCode 0x28 0x01 0xab 0x01,
    HDCode 0x02 0x01 0xce 0x00, HDCode 0x09 0x01 0xce 0x00, HDCode 0x17 0x01 0xce 0x00, HDCode 0x28 0x01 0xce 0x01,
    HDCode 0x02 0x01 0xd7 0x00, HDCode 0x09 0x01 0xd7 0x00, HDCode 0x17 0x01 0xd7 0x00, HDCode 0x28 0x01 0xd7 0x01,
    HDCode 0x02 0x01 0xe1 0x00, HDCode 0x09 0x01 0xe1 0x00, HDCode 0x17 0x01 0xe1 0x00, HDCode 0x28 0x01 0xe1 0x01
   ],
   [
    HDCode 0x03 0x01 0xab 0x00, HDCode 0x06 0x01 0xab 0x00, HDCode 0x0a 0x01 0xab 0x00, HDCode 0x0f 0x01 0xab 0x00,
    HDCode 0x18 0x01 0xab 0x00, HDCode 0x1f 0x01 0xab 0x00, HDCode 0x29 0x01 0xab 0x00, HDCode 0x38 0x01 0xab 0x01,
    HDCode 0x03 0x01 0xce 0x00, HDCode 0x06 0x01 0xce 0x00, HDCode 0x0a 0x01 0xce 0x00, HDCode 0x0f 0x01 0xce 0x00,
    HDCode 0x18 0x01 0xce 0x00, HDCode 0x1f 0x01 0xce 0x00, HDCode 0x29 0x01 0xce 0x00, HDCode 0x38 0x01 0xce 0x01
   ]]"

definition huff_decode_codes_23 :: "kgl_http_v2_huff_decode_code_t list list" where
  "huff_decode_codes_23 = [
   [
    HDCode 0x03 0x01 0xd7 0x00, HDCode 0x06 0x01 0xd7 0x00, HDCode 0x0a 0x01 0xd7 0x00, HDCode 0x0f 0x01 0xd7 0x00,
    HDCode 0x18 0x01 0xd7 0x00, HDCode 0x1f 0x01 0xd7 0x00, HDCode 0x29 0x01 0xd7 0x00, HDCode 0x38 0x01 0xd7 0x01,
    HDCode 0x03 0x01 0xe1 0x00, HDCode 0x06 0x01 0xe1 0x00, HDCode 0x0a 0x01 0xe1 0x00, HDCode 0x0f 0x01 0xe1 0x00,
    HDCode 0x18 0x01 0xe1 0x00, HDCode 0x1f 0x01 0xe1 0x00, HDCode 0x29 0x01 0xe1 0x00, HDCode 0x38 0x01 0xe1 0x01
   ],
   [
    HDCode 0x02 0x01 0xec 0x00, HDCode 0x09 0x01 0xec 0x00, HDCode 0x17 0x01 0xec 0x00, HDCode 0x28 0x01 0xec 0x01,
    HDCode 0x02 0x01 0xed 0x00, HDCode 0x09 0x01 0xed 0x00, HDCode 0x17 0x01 0xed 0x00, HDCode 0x28 0x01 0xed 0x01,
    HDCode 0x01 0x01 0xc7 0x00, HDCode 0x16 0x01 0xc7 0x01, HDCode 0x01 0x01 0xcf 0x00, HDCode 0x16 0x01 0xcf 0x01,
    HDCode 0x01 0x01 0xea 0x00, HDCode 0x16 0x01 0xea 0x01, HDCode 0x01 0x01 0xeb 0x00, HDCode 0x16 0x01 0xeb 0x01
   ],
   [
    HDCode 0x03 0x01 0xec 0x00, HDCode 0x06 0x01 0xec 0x00, HDCode 0x0a 0x01 0xec 0x00, HDCode 0x0f 0x01 0xec 0x00,
    HDCode 0x18 0x01 0xec 0x00, HDCode 0x1f 0x01 0xec 0x00, HDCode 0x29 0x01 0xec 0x00, HDCode 0x38 0x01 0xec 0x01,
    HDCode 0x03 0x01 0xed 0x00, HDCode 0x06 0x01 0xed 0x00, HDCode 0x0a 0x01 0xed 0x00, HDCode 0x0f 0x01 0xed 0x00,
    HDCode 0x18 0x01 0xed 0x00, HDCode 0x1f 0x01 0xed 0x00, HDCode 0x29 0x01 0xed 0x00, HDCode 0x38 0x01 0xed 0x01
   ],
   [
    HDCode 0x02 0x01 0xc7 0x00, HDCode 0x09 0x01 0xc7 0x00, HDCode 0x17 0x01 0xc7 0x00, HDCode 0x28 0x01 0xc7 0x01,
    HDCode 0x02 0x01 0xcf 0x00, HDCode 0x09 0x01 0xcf 0x00, HDCode 0x17 0x01 0xcf 0x00, HDCode 0x28 0x01 0xcf 0x01,
    HDCode 0x02 0x01 0xea 0x00, HDCode 0x09 0x01 0xea 0x00, HDCode 0x17 0x01 0xea 0x00, HDCode 0x28 0x01 0xea 0x01,
    HDCode 0x02 0x01 0xeb 0x00, HDCode 0x09 0x01 0xeb 0x00, HDCode 0x17 0x01 0xeb 0x00, HDCode 0x28 0x01 0xeb 0x01
   ],
   [
    HDCode 0x03 0x01 0xc7 0x00, HDCode 0x06 0x01 0xc7 0x00, HDCode 0x0a 0x01 0xc7 0x00, HDCode 0x0f 0x01 0xc7 0x00,
    HDCode 0x18 0x01 0xc7 0x00, HDCode 0x1f 0x01 0xc7 0x00, HDCode 0x29 0x01 0xc7 0x00, HDCode 0x38 0x01 0xc7 0x01,
    HDCode 0x03 0x01 0xcf 0x00, HDCode 0x06 0x01 0xcf 0x00, HDCode 0x0a 0x01 0xcf 0x00, HDCode 0x0f 0x01 0xcf 0x00,
    HDCode 0x18 0x01 0xcf 0x00, HDCode 0x1f 0x01 0xcf 0x00, HDCode 0x29 0x01 0xcf 0x00, HDCode 0x38 0x01 0xcf 0x01
   ],
   [
    HDCode 0x03 0x01 0xea 0x00, HDCode 0x06 0x01 0xea 0x00, HDCode 0x0a 0x01 0xea 0x00, HDCode 0x0f 0x01 0xea 0x00,
    HDCode 0x18 0x01 0xea 0x00, HDCode 0x1f 0x01 0xea 0x00, HDCode 0x29 0x01 0xea 0x00, HDCode 0x38 0x01 0xea 0x01,
    HDCode 0x03 0x01 0xeb 0x00, HDCode 0x06 0x01 0xeb 0x00, HDCode 0x0a 0x01 0xeb 0x00, HDCode 0x0f 0x01 0xeb 0x00,
    HDCode 0x18 0x01 0xeb 0x00, HDCode 0x1f 0x01 0xeb 0x00, HDCode 0x29 0x01 0xeb 0x00, HDCode 0x38 0x01 0xeb 0x01
   ],
   [
    HDCode 0xc2 0x00 0x00 0x00, HDCode 0xc3 0x00 0x00 0x00, HDCode 0xc5 0x00 0x00 0x00, HDCode 0xc6 0x00 0x00 0x00,
    HDCode 0xc9 0x00 0x00 0x00, HDCode 0xca 0x00 0x00 0x00, HDCode 0xcc 0x00 0x00 0x00, HDCode 0xcd 0x00 0x00 0x00,
    HDCode 0xd2 0x00 0x00 0x00, HDCode 0xd5 0x00 0x00 0x00, HDCode 0xd9 0x00 0x00 0x00, HDCode 0xdc 0x00 0x00 0x00,
    HDCode 0xe1 0x00 0x00 0x00, HDCode 0xe7 0x00 0x00 0x00, HDCode 0xef 0x00 0x00 0x00, HDCode 0xf6 0x00 0x00 0x01
   ],
   [
    HDCode 0x00 0x01 0xc0 0x01, HDCode 0x00 0x01 0xc1 0x01, HDCode 0x00 0x01 0xc8 0x01, HDCode 0x00 0x01 0xc9 0x01,
    HDCode 0x00 0x01 0xca 0x01, HDCode 0x00 0x01 0xcd 0x01, HDCode 0x00 0x01 0xd2 0x01, HDCode 0x00 0x01 0xd5 0x01,
    HDCode 0x00 0x01 0xda 0x01, HDCode 0x00 0x01 0xdb 0x01, HDCode 0x00 0x01 0xee 0x01, HDCode 0x00 0x01 0xf0 0x01,
    HDCode 0x00 0x01 0xf2 0x01, HDCode 0x00 0x01 0xf3 0x01, HDCode 0x00 0x01 0xff 0x01, HDCode 0xce 0x00 0x00 0x00
   ]]"

definition huff_decode_codes_24 :: "kgl_http_v2_huff_decode_code_t list list" where
  "huff_decode_codes_24 = [
   [
    HDCode 0x01 0x01 0xc0 0x00, HDCode 0x16 0x01 0xc0 0x01, HDCode 0x01 0x01 0xc1 0x00, HDCode 0x16 0x01 0xc1 0x01,
    HDCode 0x01 0x01 0xc8 0x00, HDCode 0x16 0x01 0xc8 0x01, HDCode 0x01 0x01 0xc9 0x00, HDCode 0x16 0x01 0xc9 0x01,
    HDCode 0x01 0x01 0xca 0x00, HDCode 0x16 0x01 0xca 0x01, HDCode 0x01 0x01 0xcd 0x00, HDCode 0x16 0x01 0xcd 0x01,
    HDCode 0x01 0x01 0xd2 0x00, HDCode 0x16 0x01 0xd2 0x01, HDCode 0x01 0x01 0xd5 0x00, HDCode 0x16 0x01 0xd5 0x01
   ],
   [
    HDCode 0x02 0x01 0xc0 0x00, HDCode 0x09 0x01 0xc0 0x00, HDCode 0x17 0x01 0xc0 0x00, HDCode 0x28 0x01 0xc0 0x01,
    HDCode 0x02 0x01 0xc1 0x00, HDCode 0x09 0x01 0xc1 0x00, HDCode 0x17 0x01 0xc1 0x00, HDCode 0x28 0x01 0xc1 0x01,
    HDCode 0x02 0x01 0xc8 0x00, HDCode 0x09 0x01 0xc8 0x00, HDCode 0x17 0x01 0xc8 0x00, HDCode 0x28 0x01 0xc8 0x01,
    HDCode 0x02 0x01 0xc9 0x00, HDCode 0x09 0x01 0xc9 0x00, HDCode 0x17 0x01 0xc9 0x00, HDCode 0x28 0x01 0xc9 0x01
   ],
   [
    HDCode 0x03 0x01 0xc0 0x00, HDCode 0x06 0x01 0xc0 0x00, HDCode 0x0a 0x01 0xc0 0x00, HDCode 0x0f 0x01 0xc0 0x00,
    HDCode 0x18 0x01 0xc0 0x00, HDCode 0x1f 0x01 0xc0 0x00, HDCode 0x29 0x01 0xc0 0x00, HDCode 0x38 0x01 0xc0 0x01,
    HDCode 0x03 0x01 0xc1 0x00, HDCode 0x06 0x01 0xc1 0x00, HDCode 0x0a 0x01 0xc1 0x00, HDCode 0x0f 0x01 0xc1 0x00,
    HDCode 0x18 0x01 0xc1 0x00, HDCode 0x1f 0x01 0xc1 0x00, HDCode 0x29 0x01 0xc1 0x00, HDCode 0x38 0x01 0xc1 0x01
   ],
   [
    HDCode 0x03 0x01 0xc8 0x00, HDCode 0x06 0x01 0xc8 0x00, HDCode 0x0a 0x01 0xc8 0x00, HDCode 0x0f 0x01 0xc8 0x00,
    HDCode 0x18 0x01 0xc8 0x00, HDCode 0x1f 0x01 0xc8 0x00, HDCode 0x29 0x01 0xc8 0x00, HDCode 0x38 0x01 0xc8 0x01,
    HDCode 0x03 0x01 0xc9 0x00, HDCode 0x06 0x01 0xc9 0x00, HDCode 0x0a 0x01 0xc9 0x00, HDCode 0x0f 0x01 0xc9 0x00,
    HDCode 0x18 0x01 0xc9 0x00, HDCode 0x1f 0x01 0xc9 0x00, HDCode 0x29 0x01 0xc9 0x00, HDCode 0x38 0x01 0xc9 0x01
   ],
   [
    HDCode 0x02 0x01 0xca 0x00, HDCode 0x09 0x01 0xca 0x00, HDCode 0x17 0x01 0xca 0x00, HDCode 0x28 0x01 0xca 0x01,
    HDCode 0x02 0x01 0xcd 0x00, HDCode 0x09 0x01 0xcd 0x00, HDCode 0x17 0x01 0xcd 0x00, HDCode 0x28 0x01 0xcd 0x01,
    HDCode 0x02 0x01 0xd2 0x00, HDCode 0x09 0x01 0xd2 0x00, HDCode 0x17 0x01 0xd2 0x00, HDCode 0x28 0x01 0xd2 0x01,
    HDCode 0x02 0x01 0xd5 0x00, HDCode 0x09 0x01 0xd5 0x00, HDCode 0x17 0x01 0xd5 0x00, HDCode 0x28 0x01 0xd5 0x01
   ],
   [
    HDCode 0x03 0x01 0xca 0x00, HDCode 0x06 0x01 0xca 0x00, HDCode 0x0a 0x01 0xca 0x00, HDCode 0x0f 0x01 0xca 0x00,
    HDCode 0x18 0x01 0xca 0x00, HDCode 0x1f 0x01 0xca 0x00, HDCode 0x29 0x01 0xca 0x00, HDCode 0x38 0x01 0xca 0x01,
    HDCode 0x03 0x01 0xcd 0x00, HDCode 0x06 0x01 0xcd 0x00, HDCode 0x0a 0x01 0xcd 0x00, HDCode 0x0f 0x01 0xcd 0x00,
    HDCode 0x18 0x01 0xcd 0x00, HDCode 0x1f 0x01 0xcd 0x00, HDCode 0x29 0x01 0xcd 0x00, HDCode 0x38 0x01 0xcd 0x01
   ],
   [
    HDCode 0x03 0x01 0xd2 0x00, HDCode 0x06 0x01 0xd2 0x00, HDCode 0x0a 0x01 0xd2 0x00, HDCode 0x0f 0x01 0xd2 0x00,
    HDCode 0x18 0x01 0xd2 0x00, HDCode 0x1f 0x01 0xd2 0x00, HDCode 0x29 0x01 0xd2 0x00, HDCode 0x38 0x01 0xd2 0x01,
    HDCode 0x03 0x01 0xd5 0x00, HDCode 0x06 0x01 0xd5 0x00, HDCode 0x0a 0x01 0xd5 0x00, HDCode 0x0f 0x01 0xd5 0x00,
    HDCode 0x18 0x01 0xd5 0x00, HDCode 0x1f 0x01 0xd5 0x00, HDCode 0x29 0x01 0xd5 0x00, HDCode 0x38 0x01 0xd5 0x01
   ],
   [
    HDCode 0x01 0x01 0xda 0x00, HDCode 0x16 0x01 0xda 0x01, HDCode 0x01 0x01 0xdb 0x00, HDCode 0x16 0x01 0xdb 0x01,
    HDCode 0x01 0x01 0xee 0x00, HDCode 0x16 0x01 0xee 0x01, HDCode 0x01 0x01 0xf0 0x00, HDCode 0x16 0x01 0xf0 0x01,
    HDCode 0x01 0x01 0xf2 0x00, HDCode 0x16 0x01 0xf2 0x01, HDCode 0x01 0x01 0xf3 0x00, HDCode 0x16 0x01 0xf3 0x01,
    HDCode 0x01 0x01 0xff 0x00, HDCode 0x16 0x01 0xff 0x01, HDCode 0x00 0x01 0xcb 0x01, HDCode 0x00 0x01 0xcc 0x01
   ]]"

definition huff_decode_codes_25 :: "kgl_http_v2_huff_decode_code_t list list" where
  "huff_decode_codes_25 = [
   [
    HDCode 0x02 0x01 0xda 0x00, HDCode 0x09 0x01 0xda 0x00, HDCode 0x17 0x01 0xda 0x00, HDCode 0x28 0x01 0xda 0x01,
    HDCode 0x02 0x01 0xdb 0x00, HDCode 0x09 0x01 0xdb 0x00, HDCode 0x17 0x01 0xdb 0x00, HDCode 0x28 0x01 0xdb 0x01,
    HDCode 0x02 0x01 0xee 0x00, HDCode 0x09 0x01 0xee 0x00, HDCode 0x17 0x01 0xee 0x00, HDCode 0x28 0x01 0xee 0x01,
    HDCode 0x02 0x01 0xf0 0x00, HDCode 0x09 0x01 0xf0 0x00, HDCode 0x17 0x01 0xf0 0x00, HDCode 0x28 0x01 0xf0 0x01
   ],
   [
    HDCode 0x03 0x01 0xda 0x00, HDCode 0x06 0x01 0xda 0x00, HDCode 0x0a 0x01 0xda 0x00, HDCode 0x0f 0x01 0xda 0x00,
    HDCode 0x18 0x01 0xda 0x00, HDCode 0x1f 0x01 0xda 0x00, HDCode 0x29 0x01 0xda 0x00, HDCode 0x38 0x01 0xda 0x01,
    HDCode 0x03 0x01 0xdb 0x00, HDCode 0x06 0x01 0xdb 0x00, HDCode 0x0a 0x01 0xdb 0x00, HDCode 0x0f 0x01 0xdb 0x00,
    HDCode 0x18 0x01 0xdb 0x00, HDCode 0x1f 0x01 0xdb 0x00, HDCode 0x29 0x01 0xdb 0x00, HDCode 0x38 0x01 0xdb 0x01
   ],
   [
    HDCode 0x03 0x01 0xee 0x00, HDCode 0x06 0x01 0xee 0x00, HDCode 0x0a 0x01 0xee 0x00, HDCode 0x0f 0x01 0xee 0x00,
    HDCode 0x18 0x01 0xee 0x00, HDCode 0x1f 0x01 0xee 0x00, HDCode 0x29 0x01 0xee 0x00, HDCode 0x38 0x01 0xee 0x01,
    HDCode 0x03 0x01 0xf0 0x00, HDCode 0x06 0x01 0xf0 0x00, HDCode 0x0a 0x01 0xf0 0x00, HDCode 0x0f 0x01 0xf0 0x00,
    HDCode 0x18 0x01 0xf0 0x00, HDCode 0x1f 0x01 0xf0 0x00, HDCode 0x29 0x01 0xf0 0x00, HDCode 0x38 0x01 0xf0 0x01
   ],
   [
    HDCode 0x02 0x01 0xf2 0x00, HDCode 0x09 0x01 0xf2 0x00, HDCode 0x17 0x01 0xf2 0x00, HDCode 0x28 0x01 0xf2 0x01,
    HDCode 0x02 0x01 0xf3 0x00, HDCode 0x09 0x01 0xf3 0x00, HDCode 0x17 0x01 0xf3 0x00, HDCode 0x28 0x01 0xf3 0x01,
    HDCode 0x02 0x01 0xff 0x00, HDCode 0x09 0x01 0xff 0x00, HDCode 0x17 0x01 0xff 0x00, HDCode 0x28 0x01 0xff 0x01,
    HDCode 0x01 0x01 0xcb 0x00, HDCode 0x16 0x01 0xcb 0x01, HDCode 0x01 0x01 0xcc 0x00, HDCode 0x16 0x01 0xcc 0x01
   ],
   [
    HDCode 0x03 0x01 0xf2 0x00, HDCode 0x06 0x01 0xf2 0x00, HDCode 0x0a 0x01 0xf2 0x00, HDCode 0x0f 0x01 0xf2 0x00,
    HDCode 0x18 0x01 0xf2 0x00, HDCode 0x1f 0x01 0xf2 0x00, HDCode 0x29 0x01 0xf2 0x00, HDCode 0x38 0x01 0xf2 0x01,
    HDCode 0x03 0x01 0xf3 0x00, HDCode 0x06 0x01 0xf3 0x00, HDCode 0x0a 0x01 0xf3 0x00, HDCode 0x0f 0x01 0xf3 0x00,
    HDCode 0x18 0x01 0xf3 0x00, HDCode 0x1f 0x01 0xf3 0x00, HDCode 0x29 0x01 0xf3 0x00, HDCode 0x38 0x01 0xf3 0x01
   ],
   [
    HDCode 0x03 0x01 0xff 0x00, HDCode 0x06 0x01 0xff 0x00, HDCode 0x0a 0x01 0xff 0x00, HDCode 0x0f 0x01 0xff 0x00,
    HDCode 0x18 0x01 0xff 0x00, HDCode 0x1f 0x01 0xff 0x00, HDCode 0x29 0x01 0xff 0x00, HDCode 0x38 0x01 0xff 0x01,
    HDCode 0x02 0x01 0xcb 0x00, HDCode 0x09 0x01 0xcb 0x00, HDCode 0x17 0x01 0xcb 0x00, HDCode 0x28 0x01 0xcb 0x01,
    HDCode 0x02 0x01 0xcc 0x00, HDCode 0x09 0x01 0xcc 0x00, HDCode 0x17 0x01 0xcc 0x00, HDCode 0x28 0x01 0xcc 0x01
   ],
   [
    HDCode 0x03 0x01 0xcb 0x00, HDCode 0x06 0x01 0xcb 0x00, HDCode 0x0a 0x01 0xcb 0x00, HDCode 0x0f 0x01 0xcb 0x00,
    HDCode 0x18 0x01 0xcb 0x00, HDCode 0x1f 0x01 0xcb 0x00, HDCode 0x29 0x01 0xcb 0x00, HDCode 0x38 0x01 0xcb 0x01,
    HDCode 0x03 0x01 0xcc 0x00, HDCode 0x06 0x01 0xcc 0x00, HDCode 0x0a 0x01 0xcc 0x00, HDCode 0x0f 0x01 0xcc 0x00,
    HDCode 0x18 0x01 0xcc 0x00, HDCode 0x1f 0x01 0xcc 0x00, HDCode 0x29 0x01 0xcc 0x00, HDCode 0x38 0x01 0xcc 0x01
   ],
   [
    HDCode 0xd3 0x00 0x00 0x00, HDCode 0xd4 0x00 0x00 0x00, HDCode 0xd6 0x00 0x00 0x00, HDCode 0xd7 0x00 0x00 0x00,
    HDCode 0xda 0x00 0x00 0x00, HDCode 0xdb 0x00 0x00 0x00, HDCode 0xdd 0x00 0x00 0x00, HDCode 0xde 0x00 0x00 0x00,
    HDCode 0xe2 0x00 0x00 0x00, HDCode 0xe4 0x00 0x00 0x00, HDCode 0xe8 0x00 0x00 0x00, HDCode 0xeb 0x00 0x00 0x00,
    HDCode 0xf0 0x00 0x00 0x00, HDCode 0xf3 0x00 0x00 0x00, HDCode 0xf7 0x00 0x00 0x00, HDCode 0xfa 0x00 0x00 0x01
   ]]"

definition huff_decode_codes_26 :: "kgl_http_v2_huff_decode_code_t list list" where
  "huff_decode_codes_26 = [
   [
    HDCode 0x00 0x01 0xd3 0x01, HDCode 0x00 0x01 0xd4 0x01, HDCode 0x00 0x01 0xd6 0x01, HDCode 0x00 0x01 0xdd 0x01,
    HDCode 0x00 0x01 0xde 0x01, HDCode 0x00 0x01 0xdf 0x01, HDCode 0x00 0x01 0xf1 0x01, HDCode 0x00 0x01 0xf4 0x01,
    HDCode 0x00 0x01 0xf5 0x01, HDCode 0x00 0x01 0xf6 0x01, HDCode 0x00 0x01 0xf7 0x01, HDCode 0x00 0x01 0xf8 0x01,
    HDCode 0x00 0x01 0xfa 0x01, HDCode 0x00 0x01 0xfb 0x01, HDCode 0x00 0x01 0xfc 0x01, HDCode 0x00 0x01 0xfd 0x01
   ],
   [
    HDCode 0x01 0x01 0xd3 0x00, HDCode 0x16 0x01 0xd3 0x01, HDCode 0x01 0x01 0xd4 0x00, HDCode 0x16 0x01 0xd4 0x01,
    HDCode 0x01 0x01 0xd6 0x00, HDCode 0x16 0x01 0xd6 0x01, HDCode 0x01 0x01 0xdd 0x00, HDCode 0x16 0x01 0xdd 0x01,
    HDCode 0x01 0x01 0xde 0x00, HDCode 0x16 0x01 0xde 0x01, HDCode 0x01 0x01 0xdf 0x00, HDCode 0x16 0x01 0xdf 0x01,
    HDCode 0x01 0x01 0xf1 0x00, HDCode 0x16 0x01 0xf1 0x01, HDCode 0x01 0x01 0xf4 0x00, HDCode 0x16 0x01 0xf4 0x01
   ],
   [
    HDCode 0x02 0x01 0xd3 0x00, HDCode 0x09 0x01 0xd3 0x00, HDCode 0x17 0x01 0xd3 0x00, HDCode 0x28 0x01 0xd3 0x01,
    HDCode 0x02 0x01 0xd4 0x00, HDCode 0x09 0x01 0xd4 0x00, HDCode 0x17 0x01 0xd4 0x00, HDCode 0x28 0x01 0xd4 0x01,
    HDCode 0x02 0x01 0xd6 0x00, HDCode 0x09 0x01 0xd6 0x00, HDCode 0x17 0x01 0xd6 0x00, HDCode 0x28 0x01 0xd6 0x01,
    HDCode 0x02 0x01 0xdd 0x00, HDCode 0x09 0x01 0xdd 0x00, HDCode 0x17 0x01 0xdd 0x00, HDCode 0x28 0x01 0xdd 0x01
   ],
   [
    HDCode 0x03 0x01 0xd3 0x00, HDCode 0x06 0x01 0xd3 0x00, HDCode 0x0a 0x01 0xd3 0x00, HDCode 0x0f 0x01 0xd3 0x00,
    HDCode 0x18 0x01 0xd3 0x00, HDCode 0x1f 0x01 0xd3 0x00, HDCode 0x29 0x01 0xd3 0x00, HDCode 0x38 0x01 0xd3 0x01,
    HDCode 0x03 0x01 0xd4 0x00, HDCode 0x06 0x01 0xd4 0x00, HDCode 0x0a 0x01 0xd4 0x00, HDCode 0x0f 0x01 0xd4 0x00,
    HDCode 0x18 0x01 0xd4 0x00, HDCode 0x1f 0x01 0xd4 0x00, HDCode 0x29 0x01 0xd4 0x00, HDCode 0x38 0x01 0xd4 0x01
   ],
   [
    HDCode 0x03 0x01 0xd6 0x00, HDCode 0x06 0x01 0xd6 0x00, HDCode 0x0a 0x01 0xd6 0x00, HDCode 0x0f 0x01 0xd6 0x00,
    HDCode 0x18 0x01 0xd6 0x00, HDCode 0x1f 0x01 0xd6 0x00, HDCode 0x29 0x01 0xd6 0x00, HDCode 0x38 0x01 0xd6 0x01,
    HDCode 0x03 0x01 0xdd 0x00, HDCode 0x06 0x01 0xdd 0x00, HDCode 0x0a 0x01 0xdd 0x00, HDCode 0x0f 0x01 0xdd 0x00,
    HDCode 0x18 0x01 0xdd 0x00, HDCode 0x1f 0x01 0xdd 0x00, HDCode 0x29 0x01 0xdd 0x00, HDCode 0x38 0x01 0xdd 0x01
   ],
   [
    HDCode 0x02 0x01 0xde 0x00, HDCode 0x09 0x01 0xde 0x00, HDCode 0x17 0x01 0xde 0x00, HDCode 0x28 0x01 0xde 0x01,
    HDCode 0x02 0x01 0xdf 0x00, HDCode 0x09 0x01 0xdf 0x00, HDCode 0x17 0x01 0xdf 0x00, HDCode 0x28 0x01 0xdf 0x01,
    HDCode 0x02 0x01 0xf1 0x00, HDCode 0x09 0x01 0xf1 0x00, HDCode 0x17 0x01 0xf1 0x00, HDCode 0x28 0x01 0xf1 0x01,
    HDCode 0x02 0x01 0xf4 0x00, HDCode 0x09 0x01 0xf4 0x00, HDCode 0x17 0x01 0xf4 0x00, HDCode 0x28 0x01 0xf4 0x01
   ],
   [
    HDCode 0x03 0x01 0xde 0x00, HDCode 0x06 0x01 0xde 0x00, HDCode 0x0a 0x01 0xde 0x00, HDCode 0x0f 0x01 0xde 0x00,
    HDCode 0x18 0x01 0xde 0x00, HDCode 0x1f 0x01 0xde 0x00, HDCode 0x29 0x01 0xde 0x00, HDCode 0x38 0x01 0xde 0x01,
    HDCode 0x03 0x01 0xdf 0x00, HDCode 0x06 0x01 0xdf 0x00, HDCode 0x0a 0x01 0xdf 0x00, HDCode 0x0f 0x01 0xdf 0x00,
    HDCode 0x18 0x01 0xdf 0x00, HDCode 0x1f 0x01 0xdf 0x00, HDCode 0x29 0x01 0xdf 0x00, HDCode 0x38 0x01 0xdf 0x01
   ],
   [
    HDCode 0x03 0x01 0xf1 0x00, HDCode 0x06 0x01 0xf1 0x00, HDCode 0x0a 0x01 0xf1 0x00, HDCode 0x0f 0x01 0xf1 0x00,
    HDCode 0x18 0x01 0xf1 0x00, HDCode 0x1f 0x01 0xf1 0x00, HDCode 0x29 0x01 0xf1 0x00, HDCode 0x38 0x01 0xf1 0x01,
    HDCode 0x03 0x01 0xf4 0x00, HDCode 0x06 0x01 0xf4 0x00, HDCode 0x0a 0x01 0xf4 0x00, HDCode 0x0f 0x01 0xf4 0x00,
    HDCode 0x18 0x01 0xf4 0x00, HDCode 0x1f 0x01 0xf4 0x00, HDCode 0x29 0x01 0xf4 0x00, HDCode 0x38 0x01 0xf4 0x01
   ]]"

definition huff_decode_codes_27 :: "kgl_http_v2_huff_decode_code_t list list" where
  "huff_decode_codes_27 = [
   [
    HDCode 0x01 0x01 0xf5 0x00, HDCode 0x16 0x01 0xf5 0x01, HDCode 0x01 0x01 0xf6 0x00, HDCode 0x16 0x01 0xf6 0x01,
    HDCode 0x01 0x01 0xf7 0x00, HDCode 0x16 0x01 0xf7 0x01, HDCode 0x01 0x01 0xf8 0x00, HDCode 0x16 0x01 0xf8 0x01,
    HDCode 0x01 0x01 0xfa 0x00, HDCode 0x16 0x01 0xfa 0x01, HDCode 0x01 0x01 0xfb 0x00, HDCode 0x16 0x01 0xfb 0x01,
    HDCode 0x01 0x01 0xfc 0x00, HDCode 0x16 0x01 0xfc 0x01, HDCode 0x01 0x01 0xfd 0x00, HDCode 0x16 0x01 0xfd 0x01
   ],
   [
    HDCode 0x02 0x01 0xf5 0x00, HDCode 0x09 0x01 0xf5 0x00, HDCode 0x17 0x01 0xf5 0x00, HDCode 0x28 0x01 0xf5 0x01,
    HDCode 0x02 0x01 0xf6 0x00, HDCode 0x09 0x01 0xf6 0x00, HDCode 0x17 0x01 0xf6 0x00, HDCode 0x28 0x01 0xf6 0x01,
    HDCode 0x02 0x01 0xf7 0x00, HDCode 0x09 0x01 0xf7 0x00, HDCode 0x17 0x01 0xf7 0x00, HDCode 0x28 0x01 0xf7 0x01,
    HDCode 0x02 0x01 0xf8 0x00, HDCode 0x09 0x01 0xf8 0x00, HDCode 0x17 0x01 0xf8 0x00, HDCode 0x28 0x01 0xf8 0x01
   ],
   [
    HDCode 0x03 0x01 0xf5 0x00, HDCode 0x06 0x01 0xf5 0x00, HDCode 0x0a 0x01 0xf5 0x00, HDCode 0x0f 0x01 0xf5 0x00,
    HDCode 0x18 0x01 0xf5 0x00, HDCode 0x1f 0x01 0xf5 0x00, HDCode 0x29 0x01 0xf5 0x00, HDCode 0x38 0x01 0xf5 0x01,
    HDCode 0x03 0x01 0xf6 0x00, HDCode 0x06 0x01 0xf6 0x00, HDCode 0x0a 0x01 0xf6 0x00, HDCode 0x0f 0x01 0xf6 0x00,
    HDCode 0x18 0x01 0xf6 0x00, HDCode 0x1f 0x01 0xf6 0x00, HDCode 0x29 0x01 0xf6 0x00, HDCode 0x38 0x01 0xf6 0x01
   ],
   [
    HDCode 0x03 0x01 0xf7 0x00, HDCode 0x06 0x01 0xf7 0x00, HDCode 0x0a 0x01 0xf7 0x00, HDCode 0x0f 0x01 0xf7 0x00,
    HDCode 0x18 0x01 0xf7 0x00, HDCode 0x1f 0x01 0xf7 0x00, HDCode 0x29 0x01 0xf7 0x00, HDCode 0x38 0x01 0xf7 0x01,
    HDCode 0x03 0x01 0xf8 0x00, HDCode 0x06 0x01 0xf8 0x00, HDCode 0x0a 0x01 0xf8 0x00, HDCode 0x0f 0x01 0xf8 0x00,
    HDCode 0x18 0x01 0xf8 0x00, HDCode 0x1f 0x01 0xf8 0x00, HDCode 0x29 0x01 0xf8 0x00, HDCode 0x38 0x01 0xf8 0x01
   ],
   [
    HDCode 0x02 0x01 0xfa 0x00, HDCode 0x09 0x01 0xfa 0x00, HDCode 0x17 0x01 0xfa 0x00, HDCode 0x28 0x01 0xfa 0x01,
    HDCode 0x02 0x01 0xfb 0x00, HDCode 0x09 0x01 0xfb 0x00, HDCode 0x17 0x01 0xfb 0x00, HDCode 0x28 0x01 0xfb 0x01,
    HDCode 0x02 0x01 0xfc 0x00, HDCode 0x09 0x01 0xfc 0x00, HDCode 0x17 0x01 0xfc 0x00, HDCode 0x28 0x01 0xfc 0x01,
    HDCode 0x02 0x01 0xfd 0x00, HDCode 0x09 0x01 0xfd 0x00, HDCode 0x17 0x01 0xfd 0x00, HDCode 0x28 0x01 0xfd 0x01
   ],
   [
    HDCode 0x03 0x01 0xfa 0x00, HDCode 0x06 0x01 0xfa 0x00, HDCode 0x0a 0x01 0xfa 0x00, HDCode 0x0f 0x01 0xfa 0x00,
    HDCode 0x18 0x01 0xfa 0x00, HDCode 0x1f 0x01 0xfa 0x00, HDCode 0x29 0x01 0xfa 0x00, HDCode 0x38 0x01 0xfa 0x01,
    HDCode 0x03 0x01 0xfb 0x00, HDCode 0x06 0x01 0xfb 0x00, HDCode 0x0a 0x01 0xfb 0x00, HDCode 0x0f 0x01 0xfb 0x00,
    HDCode 0x18 0x01 0xfb 0x00, HDCode 0x1f 0x01 0xfb 0x00, HDCode 0x29 0x01 0xfb 0x00, HDCode 0x38 0x01 0xfb 0x01
   ],
   [
    HDCode 0x03 0x01 0xfc 0x00, HDCode 0x06 0x01 0xfc 0x00, HDCode 0x0a 0x01 0xfc 0x00, HDCode 0x0f 0x01 0xfc 0x00,
    HDCode 0x18 0x01 0xfc 0x00, HDCode 0x1f 0x01 0xfc 0x00, HDCode 0x29 0x01 0xfc 0x00, HDCode 0x38 0x01 0xfc 0x01,
    HDCode 0x03 0x01 0xfd 0x00, HDCode 0x06 0x01 0xfd 0x00, HDCode 0x0a 0x01 0xfd 0x00, HDCode 0x0f 0x01 0xfd 0x00,
    HDCode 0x18 0x01 0xfd 0x00, HDCode 0x1f 0x01 0xfd 0x00, HDCode 0x29 0x01 0xfd 0x00, HDCode 0x38 0x01 0xfd 0x01
   ],
   [
    HDCode 0x00 0x01 0xfe 0x01, HDCode 0xe3 0x00 0x00 0x00, HDCode 0xe5 0x00 0x00 0x00, HDCode 0xe6 0x00 0x00 0x00,
    HDCode 0xe9 0x00 0x00 0x00, HDCode 0xea 0x00 0x00 0x00, HDCode 0xec 0x00 0x00 0x00, HDCode 0xed 0x00 0x00 0x00,
    HDCode 0xf1 0x00 0x00 0x00, HDCode 0xf2 0x00 0x00 0x00, HDCode 0xf4 0x00 0x00 0x00, HDCode 0xf5 0x00 0x00 0x00,
    HDCode 0xf8 0x00 0x00 0x00, HDCode 0xf9 0x00 0x00 0x00, HDCode 0xfb 0x00 0x00 0x00, HDCode 0xfc 0x00 0x00 0x01
   ]]"

definition huff_decode_codes_28 :: "kgl_http_v2_huff_decode_code_t list list" where
  "huff_decode_codes_28 = [
   [
    HDCode 0x01 0x01 0xfe 0x00, HDCode 0x16 0x01 0xfe 0x01, HDCode 0x00 0x01 0x02 0x01, HDCode 0x00 0x01 0x03 0x01,
    HDCode 0x00 0x01 0x04 0x01, HDCode 0x00 0x01 0x05 0x01, HDCode 0x00 0x01 0x06 0x01, HDCode 0x00 0x01 0x07 0x01,
    HDCode 0x00 0x01 0x08 0x01, HDCode 0x00 0x01 0x0b 0x01, HDCode 0x00 0x01 0x0c 0x01, HDCode 0x00 0x01 0x0e 0x01,
    HDCode 0x00 0x01 0x0f 0x01, HDCode 0x00 0x01 0x10 0x01, HDCode 0x00 0x01 0x11 0x01, HDCode 0x00 0x01 0x12 0x01
   ],
   [
    HDCode 0x02 0x01 0xfe 0x00, HDCode 0x09 0x01 0xfe 0x00, HDCode 0x17 0x01 0xfe 0x00, HDCode 0x28 0x01 0xfe 0x01,
    HDCode 0x01 0x01 0x02 0x00, HDCode 0x16 0x01 0x02 0x01, HDCode 0x01 0x01 0x03 0x00, HDCode 0x16 0x01 0x03 0x01,
    HDCode 0x01 0x01 0x04 0x00, HDCode 0x16 0x01 0x04 0x01, HDCode 0x01 0x01 0x05 0x00, HDCode 0x16 0x01 0x05 0x01,
    HDCode 0x01 0x01 0x06 0x00, HDCode 0x16 0x01 0x06 0x01, HDCode 0x01 0x01 0x07 0x00, HDCode 0x16 0x01 0x07 0x01
   ],
   [
    HDCode 0x03 0x01 0xfe 0x00, HDCode 0x06 0x01 0xfe 0x00, HDCode 0x0a 0x01 0xfe 0x00, HDCode 0x0f 0x01 0xfe 0x00,
    HDCode 0x18 0x01 0xfe 0x00, HDCode 0x1f 0x01 0xfe 0x00, HDCode 0x29 0x01 0xfe 0x00, HDCode 0x38 0x01 0xfe 0x01,
    HDCode 0x02 0x01 0x02 0x00, HDCode 0x09 0x01 0x02 0x00, HDCode 0x17 0x01 0x02 0x00, HDCode 0x28 0x01 0x02 0x01,
    HDCode 0x02 0x01 0x03 0x00, HDCode 0x09 0x01 0x03 0x00, HDCode 0x17 0x01 0x03 0x00, HDCode 0x28 0x01 0x03 0x01
   ],
   [
    HDCode 0x03 0x01 0x02 0x00, HDCode 0x06 0x01 0x02 0x00, HDCode 0x0a 0x01 0x02 0x00, HDCode 0x0f 0x01 0x02 0x00,
    HDCode 0x18 0x01 0x02 0x00, HDCode 0x1f 0x01 0x02 0x00, HDCode 0x29 0x01 0x02 0x00, HDCode 0x38 0x01 0x02 0x01,
    HDCode 0x03 0x01 0x03 0x00, HDCode 0x06 0x01 0x03 0x00, HDCode 0x0a 0x01 0x03 0x00, HDCode 0x0f 0x01 0x03 0x00,
    HDCode 0x18 0x01 0x03 0x00, HDCode 0x1f 0x01 0x03 0x00, HDCode 0x29 0x01 0x03 0x00, HDCode 0x38 0x01 0x03 0x01
   ],
   [
    HDCode 0x02 0x01 0x04 0x00, HDCode 0x09 0x01 0x04 0x00, HDCode 0x17 0x01 0x04 0x00, HDCode 0x28 0x01 0x04 0x01,
    HDCode 0x02 0x01 0x05 0x00, HDCode 0x09 0x01 0x05 0x00, HDCode 0x17 0x01 0x05 0x00, HDCode 0x28 0x01 0x05 0x01,
    HDCode 0x02 0x01 0x06 0x00, HDCode 0x09 0x01 0x06 0x00, HDCode 0x17 0x01 0x06 0x00, HDCode 0x28 0x01 0x06 0x01,
    HDCode 0x02 0x01 0x07 0x00, HDCode 0x09 0x01 0x07 0x00, HDCode 0x17 0x01 0x07 0x00, HDCode 0x28 0x01 0x07 0x01
   ],
   [
    HDCode 0x03 0x01 0x04 0x00, HDCode 0x06 0x01 0x04 0x00, HDCode 0x0a 0x01 0x04 0x00, HDCode 0x0f 0x01 0x04 0x00,
    HDCode 0x18 0x01 0x04 0x00, HDCode 0x1f 0x01 0x04 0x00, HDCode 0x29 0x01 0x04 0x00, HDCode 0x38 0x01 0x04 0x01,
    HDCode 0x03 0x01 0x05 0x00, HDCode 0x06 0x01 0x05 0x00, HDCode 0x0a 0x01 0x05 0x00, HDCode 0x0f 0x01 0x05 0x00,
    HDCode 0x18 0x01 0x05 0x00, HDCode 0x1f 0x01 0x05 0x00, HDCode 0x29 0x01 0x05 0x00, HDCode 0x38 0x01 0x05 0x01
   ],
   [
    HDCode 0x03 0x01 0x06 0x00, HDCode 0x06 0x01 0x06 0x00, HDCode 0x0a 0x01 0x06 0x00, HDCode 0x0f 0x01 0x06 0x00,
    HDCode 0x18 0x01 0x06 0x00, HDCode 0x1f 0x01 0x06 0x00, HDCode 0x29 0x01 0x06 0x00, HDCode 0x38 0x01 0x06 0x01,
    HDCode 0x03 0x01 0x07 0x00, HDCode 0x06 0x01 0x07 0x00, HDCode 0x0a 0x01 0x07 0x00, HDCode 0x0f 0x01 0x07 0x00,
    HDCode 0x18 0x01 0x07 0x00, HDCode 0x1f 0x01 0x07 0x00, HDCode 0x29 0x01 0x07 0x00, HDCode 0x38 0x01 0x07 0x01
   ],
   [
    HDCode 0x01 0x01 0x08 0x00, HDCode 0x16 0x01 0x08 0x01, HDCode 0x01 0x01 0x0b 0x00, HDCode 0x16 0x01 0x0b 0x01,
    HDCode 0x01 0x01 0x0c 0x00, HDCode 0x16 0x01 0x0c 0x01, HDCode 0x01 0x01 0x0e 0x00, HDCode 0x16 0x01 0x0e 0x01,
    HDCode 0x01 0x01 0x0f 0x00, HDCode 0x16 0x01 0x0f 0x01, HDCode 0x01 0x01 0x10 0x00, HDCode 0x16 0x01 0x10 0x01,
    HDCode 0x01 0x01 0x11 0x00, HDCode 0x16 0x01 0x11 0x01, HDCode 0x01 0x01 0x12 0x00, HDCode 0x16 0x01 0x12 0x01
   ]]"

definition huff_decode_codes_29 :: "kgl_http_v2_huff_decode_code_t list list" where
  "huff_decode_codes_29 = [
   [
    HDCode 0x02 0x01 0x08 0x00, HDCode 0x09 0x01 0x08 0x00, HDCode 0x17 0x01 0x08 0x00, HDCode 0x28 0x01 0x08 0x01,
    HDCode 0x02 0x01 0x0b 0x00, HDCode 0x09 0x01 0x0b 0x00, HDCode 0x17 0x01 0x0b 0x00, HDCode 0x28 0x01 0x0b 0x01,
    HDCode 0x02 0x01 0x0c 0x00, HDCode 0x09 0x01 0x0c 0x00, HDCode 0x17 0x01 0x0c 0x00, HDCode 0x28 0x01 0x0c 0x01,
    HDCode 0x02 0x01 0x0e 0x00, HDCode 0x09 0x01 0x0e 0x00, HDCode 0x17 0x01 0x0e 0x00, HDCode 0x28 0x01 0x0e 0x01
   ],
   [
    HDCode 0x03 0x01 0x08 0x00, HDCode 0x06 0x01 0x08 0x00, HDCode 0x0a 0x01 0x08 0x00, HDCode 0x0f 0x01 0x08 0x00,
    HDCode 0x18 0x01 0x08 0x00, HDCode 0x1f 0x01 0x08 0x00, HDCode 0x29 0x01 0x08 0x00, HDCode 0x38 0x01 0x08 0x01,
    HDCode 0x03 0x01 0x0b 0x00, HDCode 0x06 0x01 0x0b 0x00, HDCode 0x0a 0x01 0x0b 0x00, HDCode 0x0f 0x01 0x0b 0x00,
    HDCode 0x18 0x01 0x0b 0x00, HDCode 0x1f 0x01 0x0b 0x00, HDCode 0x29 0x01 0x0b 0x00, HDCode 0x38 0x01 0x0b 0x01
   ],
   [
    HDCode 0x03 0x01 0x0c 0x00, HDCode 0x06 0x01 0x0c 0x00, HDCode 0x0a 0x01 0x0c 0x00, HDCode 0x0f 0x01 0x0c 0x00,
    HDCode 0x18 0x01 0x0c 0x00, HDCode 0x1f 0x01 0x0c 0x00, HDCode 0x29 0x01 0x0c 0x00, HDCode 0x38 0x01 0x0c 0x01,
    HDCode 0x03 0x01 0x0e 0x00, HDCode 0x06 0x01 0x0e 0x00, HDCode 0x0a 0x01 0x0e 0x00, HDCode 0x0f 0x01 0x0e 0x00,
    HDCode 0x18 0x01 0x0e 0x00, HDCode 0x1f 0x01 0x0e 0x00, HDCode 0x29 0x01 0x0e 0x00, HDCode 0x38 0x01 0x0e 0x01
   ],
   [
    HDCode 0x02 0x01 0x0f 0x00, HDCode 0x09 0x01 0x0f 0x00, HDCode 0x17 0x01 0x0f 0x00, HDCode 0x28 0x01 0x0f 0x01,
    HDCode 0x02 0x01 0x10 0x00, HDCode 0x09 0x01 0x10 0x00, HDCode 0x17 0x01 0x10 0x00, HDCode 0x28 0x01 0x10 0x01,
    HDCode 0x02 0x01 0x11 0x00, HDCode 0x09 0x01 0x11 0x00, HDCode 0x17 0x01 0x11 0x00, HDCode 0x28 0x01 0x11 0x01,
    HDCode 0x02 0x01 0x12 0x00, HDCode 0x09 0x01 0x12 0x00, HDCode 0x17 0x01 0x12 0x00, HDCode 0x28 0x01 0x12 0x01
   ],
   [
    HDCode 0x03 0x01 0x0f 0x00, HDCode 0x06 0x01 0x0f 0x00, HDCode 0x0a 0x01 0x0f 0x00, HDCode 0x0f 0x01 0x0f 0x00,
    HDCode 0x18 0x01 0x0f 0x00, HDCode 0x1f 0x01 0x0f 0x00, HDCode 0x29 0x01 0x0f 0x00, HDCode 0x38 0x01 0x0f 0x01,
    HDCode 0x03 0x01 0x10 0x00, HDCode 0x06 0x01 0x10 0x00, HDCode 0x0a 0x01 0x10 0x00, HDCode 0x0f 0x01 0x10 0x00,
    HDCode 0x18 0x01 0x10 0x00, HDCode 0x1f 0x01 0x10 0x00, HDCode 0x29 0x01 0x10 0x00, HDCode 0x38 0x01 0x10 0x01
   ],
   [
    HDCode 0x03 0x01 0x11 0x00, HDCode 0x06 0x01 0x11 0x00, HDCode 0x0a 0x01 0x11 0x00, HDCode 0x0f 0x01 0x11 0x00,
    HDCode 0x18 0x01 0x11 0x00, HDCode 0x1f 0x01 0x11 0x00, HDCode 0x29 0x01 0x11 0x00, HDCode 0x38 0x01 0x11 0x01,
    HDCode 0x03 0x01 0x12 0x00, HDCode 0x06 0x01 0x12 0x00, HDCode 0x0a 0x01 0x12 0x00, HDCode 0x0f 0x01 0x12 0x00,
    HDCode 0x18 0x01 0x12 0x00, HDCode 0x1f 0x01 0x12 0x00, HDCode 0x29 0x01 0x12 0x00, HDCode 0x38 0x01 0x12 0x01
   ],
   [
    HDCode 0x00 0x01 0x13 0x01, HDCode 0x00 0x01 0x14 0x01, HDCode 0x00 0x01 0x15 0x01, HDCode 0x00 0x01 0x17 0x01,
    HDCode 0x00 0x01 0x18 0x01, HDCode 0x00 0x01 0x19 0x01, HDCode 0x00 0x01 0x1a 0x01, HDCode 0x00 0x01 0x1b 0x01,
    HDCode 0x00 0x01 0x1c 0x01, HDCode 0x00 0x01 0x1d 0x01, HDCode 0x00 0x01 0x1e 0x01, HDCode 0x00 0x01 0x1f 0x01,
    HDCode 0x00 0x01 0x7f 0x01, HDCode 0x00 0x01 0xdc 0x01, HDCode 0x00 0x01 0xf9 0x01, HDCode 0xfd 0x00 0x00 0x01
   ],
   [
    HDCode 0x01 0x01 0x13 0x00, HDCode 0x16 0x01 0x13 0x01, HDCode 0x01 0x01 0x14 0x00, HDCode 0x16 0x01 0x14 0x01,
    HDCode 0x01 0x01 0x15 0x00, HDCode 0x16 0x01 0x15 0x01, HDCode 0x01 0x01 0x17 0x00, HDCode 0x16 0x01 0x17 0x01,
    HDCode 0x01 0x01 0x18 0x00, HDCode 0x16 0x01 0x18 0x01, HDCode 0x01 0x01 0x19 0x00, HDCode 0x16 0x01 0x19 0x01,
    HDCode 0x01 0x01 0x1a 0x00, HDCode 0x16 0x01 0x1a 0x01, HDCode 0x01 0x01 0x1b 0x00, HDCode 0x16 0x01 0x1b 0x01
   ]]"

definition huff_decode_codes_30 :: "kgl_http_v2_huff_decode_code_t list list" where
  "huff_decode_codes_30 = [
   [
    HDCode 0x02 0x01 0x13 0x00, HDCode 0x09 0x01 0x13 0x00, HDCode 0x17 0x01 0x13 0x00, HDCode 0x28 0x01 0x13 0x01,
    HDCode 0x02 0x01 0x14 0x00, HDCode 0x09 0x01 0x14 0x00, HDCode 0x17 0x01 0x14 0x00, HDCode 0x28 0x01 0x14 0x01,
    HDCode 0x02 0x01 0x15 0x00, HDCode 0x09 0x01 0x15 0x00, HDCode 0x17 0x01 0x15 0x00, HDCode 0x28 0x01 0x15 0x01,
    HDCode 0x02 0x01 0x17 0x00, HDCode 0x09 0x01 0x17 0x00, HDCode 0x17 0x01 0x17 0x00, HDCode 0x28 0x01 0x17 0x01
   ],
   [
    HDCode 0x03 0x01 0x13 0x00, HDCode 0x06 0x01 0x13 0x00, HDCode 0x0a 0x01 0x13 0x00, HDCode 0x0f 0x01 0x13 0x00,
    HDCode 0x18 0x01 0x13 0x00, HDCode 0x1f 0x01 0x13 0x00, HDCode 0x29 0x01 0x13 0x00, HDCode 0x38 0x01 0x13 0x01,
    HDCode 0x03 0x01 0x14 0x00, HDCode 0x06 0x01 0x14 0x00, HDCode 0x0a 0x01 0x14 0x00, HDCode 0x0f 0x01 0x14 0x00,
    HDCode 0x18 0x01 0x14 0x00, HDCode 0x1f 0x01 0x14 0x00, HDCode 0x29 0x01 0x14 0x00, HDCode 0x38 0x01 0x14 0x01
   ],
   [
    HDCode 0x03 0x01 0x15 0x00, HDCode 0x06 0x01 0x15 0x00, HDCode 0x0a 0x01 0x15 0x00, HDCode 0x0f 0x01 0x15 0x00,
    HDCode 0x18 0x01 0x15 0x00, HDCode 0x1f 0x01 0x15 0x00, HDCode 0x29 0x01 0x15 0x00, HDCode 0x38 0x01 0x15 0x01,
    HDCode 0x03 0x01 0x17 0x00, HDCode 0x06 0x01 0x17 0x00, HDCode 0x0a 0x01 0x17 0x00, HDCode 0x0f 0x01 0x17 0x00,
    HDCode 0x18 0x01 0x17 0x00, HDCode 0x1f 0x01 0x17 0x00, HDCode 0x29 0x01 0x17 0x00, HDCode 0x38 0x01 0x17 0x01
   ],
   [
    HDCode 0x02 0x01 0x18 0x00, HDCode 0x09 0x01 0x18 0x00, HDCode 0x17 0x01 0x18 0x00, HDCode 0x28 0x01 0x18 0x01,
    HDCode 0x02 0x01 0x19 0x00, HDCode 0x09 0x01 0x19 0x00, HDCode 0x17 0x01 0x19 0x00, HDCode 0x28 0x01 0x19 0x01,
    HDCode 0x02 0x01 0x1a 0x00, HDCode 0x09 0x01 0x1a 0x00, HDCode 0x17 0x01 0x1a 0x00, HDCode 0x28 0x01 0x1a 0x01,
    HDCode 0x02 0x01 0x1b 0x00, HDCode 0x09 0x01 0x1b 0x00, HDCode 0x17 0x01 0x1b 0x00, HDCode 0x28 0x01 0x1b 0x01
   ],
   [
    HDCode 0x03 0x01 0x18 0x00, HDCode 0x06 0x01 0x18 0x00, HDCode 0x0a 0x01 0x18 0x00, HDCode 0x0f 0x01 0x18 0x00,
    HDCode 0x18 0x01 0x18 0x00, HDCode 0x1f 0x01 0x18 0x00, HDCode 0x29 0x01 0x18 0x00, HDCode 0x38 0x01 0x18 0x01,
    HDCode 0x03 0x01 0x19 0x00, HDCode 0x06 0x01 0x19 0x00, HDCode 0x0a 0x01 0x19 0x00, HDCode 0x0f 0x01 0x19 0x00,
    HDCode 0x18 0x01 0x19 0x00, HDCode 0x1f 0x01 0x19 0x00, HDCode 0x29 0x01 0x19 0x00, HDCode 0x38 0x01 0x19 0x01
   ],
   [
    HDCode 0x03 0x01 0x1a 0x00, HDCode 0x06 0x01 0x1a 0x00, HDCode 0x0a 0x01 0x1a 0x00, HDCode 0x0f 0x01 0x1a 0x00,
    HDCode 0x18 0x01 0x1a 0x00, HDCode 0x1f 0x01 0x1a 0x00, HDCode 0x29 0x01 0x1a 0x00, HDCode 0x38 0x01 0x1a 0x01,
    HDCode 0x03 0x01 0x1b 0x00, HDCode 0x06 0x01 0x1b 0x00, HDCode 0x0a 0x01 0x1b 0x00, HDCode 0x0f 0x01 0x1b 0x00,
    HDCode 0x18 0x01 0x1b 0x00, HDCode 0x1f 0x01 0x1b 0x00, HDCode 0x29 0x01 0x1b 0x00, HDCode 0x38 0x01 0x1b 0x01
   ],
   [
    HDCode 0x01 0x01 0x1c 0x00, HDCode 0x16 0x01 0x1c 0x01, HDCode 0x01 0x01 0x1d 0x00, HDCode 0x16 0x01 0x1d 0x01,
    HDCode 0x01 0x01 0x1e 0x00, HDCode 0x16 0x01 0x1e 0x01, HDCode 0x01 0x01 0x1f 0x00, HDCode 0x16 0x01 0x1f 0x01,
    HDCode 0x01 0x01 0x7f 0x00, HDCode 0x16 0x01 0x7f 0x01, HDCode 0x01 0x01 0xdc 0x00, HDCode 0x16 0x01 0xdc 0x01,
    HDCode 0x01 0x01 0xf9 0x00, HDCode 0x16 0x01 0xf9 0x01, HDCode 0xfe 0x00 0x00 0x00, HDCode 0xff 0x00 0x00 0x01
   ],
   [
    HDCode 0x02 0x01 0x1c 0x00, HDCode 0x09 0x01 0x1c 0x00, HDCode 0x17 0x01 0x1c 0x00, HDCode 0x28 0x01 0x1c 0x01,
    HDCode 0x02 0x01 0x1d 0x00, HDCode 0x09 0x01 0x1d 0x00, HDCode 0x17 0x01 0x1d 0x00, HDCode 0x28 0x01 0x1d 0x01,
    HDCode 0x02 0x01 0x1e 0x00, HDCode 0x09 0x01 0x1e 0x00, HDCode 0x17 0x01 0x1e 0x00, HDCode 0x28 0x01 0x1e 0x01,
    HDCode 0x02 0x01 0x1f 0x00, HDCode 0x09 0x01 0x1f 0x00, HDCode 0x17 0x01 0x1f 0x00, HDCode 0x28 0x01 0x1f 0x01
   ]]"

definition huff_decode_codes_31 :: "kgl_http_v2_huff_decode_code_t list list" where
  "huff_decode_codes_31 = [
   [
    HDCode 0x03 0x01 0x1c 0x00, HDCode 0x06 0x01 0x1c 0x00, HDCode 0x0a 0x01 0x1c 0x00, HDCode 0x0f 0x01 0x1c 0x00,
    HDCode 0x18 0x01 0x1c 0x00, HDCode 0x1f 0x01 0x1c 0x00, HDCode 0x29 0x01 0x1c 0x00, HDCode 0x38 0x01 0x1c 0x01,
    HDCode 0x03 0x01 0x1d 0x00, HDCode 0x06 0x01 0x1d 0x00, HDCode 0x0a 0x01 0x1d 0x00, HDCode 0x0f 0x01 0x1d 0x00,
    HDCode 0x18 0x01 0x1d 0x00, HDCode 0x1f 0x01 0x1d 0x00, HDCode 0x29 0x01 0x1d 0x00, HDCode 0x38 0x01 0x1d 0x01
   ],
   [
    HDCode 0x03 0x01 0x1e 0x00, HDCode 0x06 0x01 0x1e 0x00, HDCode 0x0a 0x01 0x1e 0x00, HDCode 0x0f 0x01 0x1e 0x00,
    HDCode 0x18 0x01 0x1e 0x00, HDCode 0x1f 0x01 0x1e 0x00, HDCode 0x29 0x01 0x1e 0x00, HDCode 0x38 0x01 0x1e 0x01,
    HDCode 0x03 0x01 0x1f 0x00, HDCode 0x06 0x01 0x1f 0x00, HDCode 0x0a 0x01 0x1f 0x00, HDCode 0x0f 0x01 0x1f 0x00,
    HDCode 0x18 0x01 0x1f 0x00, HDCode 0x1f 0x01 0x1f 0x00, HDCode 0x29 0x01 0x1f 0x00, HDCode 0x38 0x01 0x1f 0x01
   ],
   [
    HDCode 0x02 0x01 0x7f 0x00, HDCode 0x09 0x01 0x7f 0x00, HDCode 0x17 0x01 0x7f 0x00, HDCode 0x28 0x01 0x7f 0x01,
    HDCode 0x02 0x01 0xdc 0x00, HDCode 0x09 0x01 0xdc 0x00, HDCode 0x17 0x01 0xdc 0x00, HDCode 0x28 0x01 0xdc 0x01,
    HDCode 0x02 0x01 0xf9 0x00, HDCode 0x09 0x01 0xf9 0x00, HDCode 0x17 0x01 0xf9 0x00, HDCode 0x28 0x01 0xf9 0x01,
    HDCode 0x00 0x01 0x0a 0x01, HDCode 0x00 0x01 0x0d 0x01, HDCode 0x00 0x01 0x16 0x01, HDCode 0xfa 0x00 0x00 0x00
   ],
   [
    HDCode 0x03 0x01 0x7f 0x00, HDCode 0x06 0x01 0x7f 0x00, HDCode 0x0a 0x01 0x7f 0x00, HDCode 0x0f 0x01 0x7f 0x00,
    HDCode 0x18 0x01 0x7f 0x00, HDCode 0x1f 0x01 0x7f 0x00, HDCode 0x29 0x01 0x7f 0x00, HDCode 0x38 0x01 0x7f 0x01,
    HDCode 0x03 0x01 0xdc 0x00, HDCode 0x06 0x01 0xdc 0x00, HDCode 0x0a 0x01 0xdc 0x00, HDCode 0x0f 0x01 0xdc 0x00,
    HDCode 0x18 0x01 0xdc 0x00, HDCode 0x1f 0x01 0xdc 0x00, HDCode 0x29 0x01 0xdc 0x00, HDCode 0x38 0x01 0xdc 0x01
   ],
   [
    HDCode 0x03 0x01 0xf9 0x00, HDCode 0x06 0x01 0xf9 0x00, HDCode 0x0a 0x01 0xf9 0x00, HDCode 0x0f 0x01 0xf9 0x00,
    HDCode 0x18 0x01 0xf9 0x00, HDCode 0x1f 0x01 0xf9 0x00, HDCode 0x29 0x01 0xf9 0x00, HDCode 0x38 0x01 0xf9 0x01,
    HDCode 0x01 0x01 0x0a 0x00, HDCode 0x16 0x01 0x0a 0x01, HDCode 0x01 0x01 0x0d 0x00, HDCode 0x16 0x01 0x0d 0x01,
    HDCode 0x01 0x01 0x16 0x00, HDCode 0x16 0x01 0x16 0x01, HDCode 0xfc 0x00 0x00 0x00, HDCode 0xfc 0x00 0x00 0x00
   ],
   [
    HDCode 0x02 0x01 0x0a 0x00, HDCode 0x09 0x01 0x0a 0x00, HDCode 0x17 0x01 0x0a 0x00, HDCode 0x28 0x01 0x0a 0x01,
    HDCode 0x02 0x01 0x0d 0x00, HDCode 0x09 0x01 0x0d 0x00, HDCode 0x17 0x01 0x0d 0x00, HDCode 0x28 0x01 0x0d 0x01,
    HDCode 0x02 0x01 0x16 0x00, HDCode 0x09 0x01 0x16 0x00, HDCode 0x17 0x01 0x16 0x00, HDCode 0x28 0x01 0x16 0x01,
    HDCode 0xfd 0x00 0x00 0x00, HDCode 0xfd 0x00 0x00 0x00, HDCode 0xfd 0x00 0x00 0x00, HDCode 0xfd 0x00 0x00 0x00
   ],
   [
    HDCode 0x03 0x01 0x0a 0x00, HDCode 0x06 0x01 0x0a 0x00, HDCode 0x0a 0x01 0x0a 0x00, HDCode 0x0f 0x01 0x0a 0x00,
    HDCode 0x18 0x01 0x0a 0x00, HDCode 0x1f 0x01 0x0a 0x00, HDCode 0x29 0x01 0x0a 0x00, HDCode 0x38 0x01 0x0a 0x01,
    HDCode 0x03 0x01 0x0d 0x00, HDCode 0x06 0x01 0x0d 0x00, HDCode 0x0a 0x01 0x0d 0x00, HDCode 0x0f 0x01 0x0d 0x00,
    HDCode 0x18 0x01 0x0d 0x00, HDCode 0x1f 0x01 0x0d 0x00, HDCode 0x29 0x01 0x0d 0x00, HDCode 0x38 0x01 0x0d 0x01
   ],
   [
    HDCode 0x03 0x01 0x16 0x00, HDCode 0x06 0x01 0x16 0x00, HDCode 0x0a 0x01 0x16 0x00, HDCode 0x0f 0x01 0x16 0x00,
    HDCode 0x18 0x01 0x16 0x00, HDCode 0x1f 0x01 0x16 0x00, HDCode 0x29 0x01 0x16 0x00, HDCode 0x38 0x01 0x16 0x01,
    HDCode 0xff 0x00 0x00 0x00, HDCode 0xff 0x00 0x00 0x00, HDCode 0xff 0x00 0x00 0x00, HDCode 0xff 0x00 0x00 0x00,
    HDCode 0xff 0x00 0x00 0x00, HDCode 0xff 0x00 0x00 0x00, HDCode 0xff 0x00 0x00 0x00, HDCode 0xff 0x00 0x00 0x00
   ]]"

definition huff_decode_blocks :: "kgl_http_v2_huff_decode_code_t list list list" where
  "huff_decode_blocks = [
    huff_decode_codes_00, huff_decode_codes_01, huff_decode_codes_02, huff_decode_codes_03,
    huff_decode_codes_04, huff_decode_codes_05, huff_decode_codes_06, huff_decode_codes_07,
    huff_decode_codes_08, huff_decode_codes_09, huff_decode_codes_10, huff_decode_codes_11,
    huff_decode_codes_12, huff_decode_codes_13, huff_decode_codes_14, huff_decode_codes_15,
    huff_decode_codes_16, huff_decode_codes_17, huff_decode_codes_18, huff_decode_codes_19,
    huff_decode_codes_20, huff_decode_codes_21, huff_decode_codes_22, huff_decode_codes_23,
    huff_decode_codes_24, huff_decode_codes_25, huff_decode_codes_26, huff_decode_codes_27,
    huff_decode_codes_28, huff_decode_codes_29, huff_decode_codes_30, huff_decode_codes_31]"

definition kgl_http_v2_huff_decode_codes :: "kgl_http_v2_huff_decode_code_t list list" where
  "kgl_http_v2_huff_decode_codes = concat huff_decode_blocks"

lemmas huff_decode_block_defs =
  huff_decode_codes_00_def huff_decode_codes_01_def huff_decode_codes_02_def huff_decode_codes_03_def
  huff_decode_codes_04_def huff_decode_codes_05_def huff_decode_codes_06_def huff_decode_codes_07_def
  huff_decode_codes_08_def huff_decode_codes_09_def huff_decode_codes_10_def huff_decode_codes_11_def
  huff_decode_codes_12_def huff_decode_codes_13_def huff_decode_codes_14_def huff_decode_codes_15_def
  huff_decode_codes_16_def huff_decode_codes_17_def huff_decode_codes_18_def huff_decode_codes_19_def
  huff_decode_codes_20_def huff_decode_codes_21_def huff_decode_codes_22_def huff_decode_codes_23_def
  huff_decode_codes_24_def huff_decode_codes_25_def huff_decode_codes_26_def huff_decode_codes_27_def
  huff_decode_codes_28_def huff_decode_codes_29_def huff_decode_codes_30_def huff_decode_codes_31_def

lemma huff_decode_blocks_length: "length huff_decode_blocks = 32"
  by (simp add: huff_decode_blocks_def)

lemma huff_decode_block_lengths: "\<forall>b \<in> set huff_decode_blocks. length b = 8"
  by (simp add: huff_decode_blocks_def huff_decode_block_defs)

lemma huff_decode_codes_nth:
  assumes "s < 256"
  shows "kgl_http_v2_huff_decode_codes ! s = huff_decode_blocks ! (s div 8) ! (s mod 8)"
  unfolding kgl_http_v2_huff_decode_codes_def
  by (rule concat_nth_uniform [OF huff_decode_block_lengths])
    (use assms in \<open>simp_all add: huff_decode_blocks_length\<close>)

lemma huff_decode_codes_length: "length kgl_http_v2_huff_decode_codes = 256"
  unfolding kgl_http_v2_huff_decode_codes_def
  by (simp add: concat_length_uniform [OF huff_decode_block_lengths] huff_decode_blocks_length)

end
