(* ===== verification/KHuffEncodeTable.thy ===== *)
theory KHuffEncodeTable
  imports KPrelude
begin

text \<open>
  The two HPACK Huffman code tables of \<^verbatim>\<open>src/KHuffEncode.cpp\<close>: the code of every octet
  (right-aligned code word and its length in bits), and the variant that folds upper-case
  letters to lower case. They are transcribed in blocks of sixteen octets.
\<close>

text \<open>One code word: the fields of \<^verbatim>\<open>kgl_http_v2_huff_encode_code_t\<close>.\<close>

datatype kgl_http_v2_huff_encode_code_t = HECode (ecode: u32) (elen: u32)

definition huff_encode_table_00 :: "kgl_http_v2_huff_encode_code_t list" where
  "huff_encode_table_00 = [
    HECode 0x00001ff8 13, HECode 0x007fffd8 23, HECode 0x0fffffe2 28, HECode 0x0fffffe3 28,
    HECode 0x0fffffe4 28, HECode 0x0fffffe5 28, HECode 0x0fffffe6 28, HECode 0x0fffffe7 28,
    HECode 0x0fffffe8 28, HECode 0x00ffffea 24, HECode 0x3ffffffc 30, HECode 0x0fffffe9 28,
    HECode 0x0fffffea 28, HECode 0x3ffffffd 30, HECode 0x0fffffeb 28, HECode 0x0fffffec 28]"

definition huff_encode_table_01 :: "kgl_http_v2_huff_encode_code_t list" where
  "huff_encode_table_01 = [
    HECode 0x0fffffed 28, HECode 0x0fffffee 28, HECode 0x0fffffef 28, HECode 0x0ffffff0 28,
    HECode 0x0ffffff1 28, HECode 0x0ffffff2 28, HECode 0x3ffffffe 30, HECode 0x0ffffff3 28,
    HECode 0x0ffffff4 28, HECode 0x0ffffff5 28, HECode 0x0ffffff6 28, HECode 0x0ffffff7 28,
    HECode 0x0ffffff8 28, HECode 0x0ffffff9 28, HECode 0x0ffffffa 28, HECode 0x0ffffffb 28]"

definition huff_encode_table_02 :: "kgl_http_v2_huff_encode_code_t list" where
  "huff_encode_table_02 = [
    HECode 0x00000014 6, HECode 0x000003f8 10, HECode 0x000003f9 10, HECode 0x00000ffa 12,
    HECode 0x00001ff9 13, HECode 0x00000015 6, HECode 0x000000f8 8, HECode 0x000007fa 11,
    HECode 0x000003fa 10, HECode 0x000003fb 10, HECode 0x000000f9 8, HECode 0x000007fb 11,
    HECode 0x000000fa 8, HECode 0x00000016 6, HECode 0x00000017 6, HECode 0x00000018 6]"

definition huff_encode_table_03 :: "kgl_http_v2_huff_encode_code_t list" where
  "huff_encode_table_03 = [
    HECode 0x00000000 5, HECode 0x00000001 5, HECode 0x00000002 5, HECode 0x00000019 6,
    HECode 0x0000001a 6, HECode 0x0000001b 6, HECode 0x0000001c 6, HECode 0x0000001d 6,
    HECode 0x0000001e 6, HECode 0x0000001f 6, HECode 0x0000005c 7, HECode 0x000000fb 8,
    HECode 0x00007ffc 15, HECode 0x00000020 6, HECode 0x00000ffb 12, HECode 0x000003fc 10]"

definition huff_encode_table_04 :: "kgl_http_v2_huff_encode_code_t list" where
  "huff_encode_table_04 = [
    HECode 0x00001ffa 13, HECode 0x00000021 6, HECode 0x0000005d 7, HECode 0x0000005e 7,
    HECode 0x0000005f 7, HECode 0x00000060 7, HECode 0x00000061 7, HECode 0x00000062 7,
    HECode 0x00000063 7, HECode 0x00000064 7, HECode 0x00000065 7, HECode 0x00000066 7,
    HECode 0x00000067 7, HECode 0x00000068 7, HECode 0x00000069 7, HECode 0x0000006a 7]"

definition huff_encode_table_05 :: "kgl_http_v2_huff_encode_code_t list" where
  "huff_encode_table_05 = [
    HECode 0x0000006b 7, HECode 0x0000006c 7, HECode 0x0000006d 7, HECode 0x0000006e 7,
    HECode 0x0000006f 7, HECode 0x00000070 7, HECode 0x00000071 7, HECode 0x00000072 7,
    HECode 0x000000fc 8, HECode 0x00000073 7, HECode 0x000000fd 8, HECode 0x00001ffb 13,
    HECode 0x0007fff0 19, HECode 0x00001ffc 13, HECode 0x00003ffc 14, HECode 0x00000022 6]"

definition huff_encode_table_06 :: "kgl_http_v2_huff_encode_code_t list" where
  "huff_encode_table_06 = [
    HECode 0x00007ffd 15, HECode 0x00000003 5, HECode 0x00000023 6, HECode 0x00000004 5,
    HECode 0x00000024 6, HECode 0x00000005 5, HECode 0x00000025 6, HECode 0x00000026 6,
    HECode 0x00000027 6, HECode 0x00000006 5, HECode 0x00000074 7, HECode 0x00000075 7,
    HECode 0x00000028 6, HECode 0x00000029 6, HECode 0x0000002a 6, HECode 0x00000007 5]"

definition huff_encode_table_07 :: "kgl_http_v2_huff_encode_code_t list" where
  "huff_encode_table_07 = [
    HECode 0x0000002b 6, HECode 0x00000076 7, HECode 0x0000002c 6, HECode 0x00000008 5,
    HECode 0x00000009 5, HECode 0x0000002d 6, HECode 0x00000077 7, HECode 0x00000078 7,
    HECode 0x00000079 7, HECode 0x0000007a 7, HECode 0x0000007b 7, HECode 0x00007ffe 15,
    HECode 0x000007fc 11, HECode 0x00003ffd 14, HECode 0x00001ffd 13, HECode 0x0ffffffc 28]"

definition huff_encode_table_08 :: "kgl_http_v2_huff_encode_code_t list" where
  "huff_encode_table_08 = [
    HECode 0x000fffe6 20, HECode 0x003fffd2 22, HECode 0x000fffe7 20, HECode 0x000fffe8 20,
    HECode 0x003fffd3 22, HECode 0x003fffd4 22, HECode 0x003fffd5 22, HECode 0x007fffd9 23,
    HECode 0x003fffd6 22, HECode 0x007fffda 23, HECode 0x007fffdb 23, HECode 0x007fffdc 23,
    HECode 0x007fffdd 23, HECode 0x007fffde 23, HECode 0x00ffffeb 24, HECode 0x007fffdf 23]"

definition huff_encode_table_09 :: "kgl_http_v2_huff_encode_code_t list" where
  "huff_encode_table_09 = [
    HECode 0x00ffffec 24, HECode 0x00ffffed 24, HECode 0x003fffd7 22, HECode 0x007fffe0 23,
    HECode 0x00ffffee 24, HECode 0x007fffe1 23, HECode 0x007fffe2 23, HECode 0x007fffe3 23,
    HECode 0x007fffe4 23, HECode 0x001fffdc 21, HECode 0x003fffd8 22, HECode 0x007fffe5 23,
    HECode 0x003fffd9 22, HECode 0x007fffe6 23, HECode 0x007fffe7 23, HECode 0x00ffffef 24]"

definition huff_encode_table_10 :: "kgl_http_v2_huff_encode_code_t list" where
  "huff_encode_table_10 = [
    HECode 0x003fffda 22, HECode 0x001fffdd 21, HECode 0x000fffe9 20, HECode 0x003fffdb 22,
    HECode 0x003fffdc 22, HECode 0x007fffe8 23, HECode 0x007fffe9 23, HECode 0x001fffde 21,
    HECode 0x007fffea 23, HECode 0x003fffdd 22, HECode 0x003fffde 22, HECode 0x00fffff0 24,
    HECode 0x001fffdf 21, HECode 0x003fffdf 22, HECode 0x007fffeb 23, HECode 0x007fffec 23]"

definition huff_encode_table_11 :: "kgl_http_v2_huff_encode_code_t list" where
  "huff_encode_table_11 = [
    HECode 0x001fffe0 21, HECode 0x001fffe1 21, HECode 0x003fffe0 22, HECode 0x001fffe2 21,
    HECode 0x007fffed 23, HECode 0x003fffe1 22, HECode 0x007fffee 23, HECode 0x007fffef 23,
    HECode 0x000fffea 20, HECode 0x003fffe2 22, HECode 0x003fffe3 22, HECode 0x003fffe4 22,
    HECode 0x007ffff0 23, HECode 0x003fffe5 22, HECode 0x003fffe6 22, HECode 0x007ffff1 23]"

definition huff_encode_table_12 :: "kgl_http_v2_huff_encode_code_t list" where
  "huff_encode_table_12 = [
    HECode 0x03ffffe0 26, HECode 0x03ffffe1 26, HECode 0x000fffeb 20, HECode 0x0007fff1 19,
    HECode 0x003fffe7 22, HECode 0x007ffff2 23, HECode 0x003fffe8 22, HECode 0x01ffffec 25,
    HECode 0x03ffffe2 26, HECode 0x03ffffe3 26, HECode 0x03ffffe4 26, HECode 0x07ffffde 27,
    HECode 0x07ffffdf 27, HECode 0x03ffffe5 26, HECode 0x00fffff1 24, HECode 0x01ffffed 25]"

definition huff_encode_table_13 :: "kgl_http_v2_huff_encode_code_t list" where
  "huff_encode_table_13 = [
    HECode 0x0007fff2 19, HECode 0x001fffe3 21, HECode 0x03ffffe6 26, HECode 0x07ffffe0 27,
    HECode 0x07ffffe1 27, HECode 0x03ffffe7 26, HECode 0x07ffffe2 27, HECode 0x00fffff2 24,
    HECode 0x001fffe4 21, HECode 0x001fffe5 21, HECode 0x03ffffe8 26, HECode 0x03ffffe9 26,
    HECode 0x0ffffffd 28, HECode 0x07ffffe3 27, HECode 0x07ffffe4 27, HECode 0x07ffffe5 27]"

definition huff_encode_table_14 :: "kgl_http_v2_huff_encode_code_t list" where
  "huff_encode_table_14 = [
    HECode 0x000fffec 20, HECode 0x00fffff3 24, HECode 0x000fffed 20, HECode 0x001fffe6 21,
    HECode 0x003fffe9 22, HECode 0x001fffe7 21, HECode 0x001fffe8 21, HECode 0x007ffff3 23,
    HECode 0x003fffea 22, HECode 0x003fffeb 22, HECode 0x01ffffee 25, HECode 0x01ffffef 25,
    HECode 0x00fffff4 24, HECode 0x00fffff5 24, HECode 0x03ffffea 26, HECode 0x007ffff4 23]"

definition huff_encode_table_15 :: "kgl_http_v2_huff_encode_code_t list" where
  "huff_encode_table_15 = [
    HECode 0x03ffffeb 26, HECode 0x07ffffe6 27, HECode 0x03ffffec 26, HECode 0x03ffffed 26,
    HECode 0x07ffffe7 27, HECode 0x07ffffe8 27, HECode 0x07ffffe9 27, HECode 0x07ffffea 27,
    HECode 0x07ffffeb 27, HECode 0x0ffffffe 28, HECode 0x07ffffec 27, HECode 0x07ffffed 27,
    HECode 0x07ffffee 27, HECode 0x07ffffef 27, HECode 0x07fffff0 27, HECode 0x03ffffee 26]"

definition huff_encode_table_blocks :: "kgl_http_v2_huff_encode_code_t list list" where
  "huff_encode_table_blocks = [
    huff_encode_table_00, huff_encode_table_01, huff_encode_table_02, huff_encode_table_03,
    huff_encode_table_04, huff_encode_table_05, huff_encode_table_06, huff_encode_table_07,
    huff_encode_table_08, huff_encode_table_09, huff_encode_table_10, huff_encode_table_11,
    huff_encode_table_12, huff_encode_table_13, huff_encode_table_14, huff_encode_table_15]"

definition kgl_http_v2_huff_encode_table :: "kgl_http_v2_huff_encode_code_t list" where
  "kgl_http_v2_huff_encode_table = concat huff_encode_table_blocks"

lemmas huff_encode_table_block_defs =
  huff_encode_table_00_def huff_encode_table_01_def huff_encode_table_02_def huff_encode_table_03_def
  huff_encode_table_04_def huff_encode_table_05_def huff_encode_table_06_def huff_encode_table_07_def
  huff_encode_table_08_def huff_encode_table_09_def huff_encode_table_10_def huff_encode_table_11_def
  huff_encode_table_12_def huff_encode_table_13_def huff_encode_table_14_def huff_encode_table_15_def

lemma huff_encode_table_block_lengths:
  "length huff_encode_table_blocks = 16" "\<forall>b \<in> set huff_encode_table_blocks. length b = 16"
  by (simp_all add: huff_encode_table_blocks_def huff_encode_table_block_defs)

lemma huff_encode_table_nth:
  assumes "i < 256"
  shows "kgl_http_v2_huff_encode_table ! i = huff_encode_table_blocks ! (i div 16) ! (i mod 16)"
  unfolding kgl_http_v2_huff_encode_table_def
  by (rule concat_nth_uniform [OF huff_encode_table_block_lengths(2)])
    (use assms in \<open>simp_all add: huff_encode_table_block_lengths(1)\<close>)

lemma huff_encode_table_length: "length kgl_http_v2_huff_encode_table = 256"
  unfolding kgl_http_v2_huff_encode_table_def
  by (simp add: concat_length_uniform [OF huff_encode_table_block_lengths(2)] huff_encode_table_block_lengths(1))

definition huff_encode_table_lc_00 :: "kgl_http_v2_huff_encode_code_t list" where
  "huff_encode_table_lc_00 = [
    HECode 0x00001ff8 13, HECode 0x007fffd8 23, HECode 0x0fffffe2 28, HECode 0x0fffffe3 28,
    HECode 0x0fffffe4 28, HECode 0x0fffffe5 28, HECode 0x0fffffe6 28, HECode 0x0fffffe7 28,
    HECode 0x0fffffe8 28, HECode 0x00ffffea 24, HECode 0x3ffffffc 30, HECode 0x0fffffe9 28,
    HECode 0x0fffffea 28, HECode 0x3ffffffd 30, HECode 0x0fffffeb 28, HECode 0x0fffffec 28]"

definition huff_encode_table_lc_01 :: "kgl_http_v2_huff_encode_code_t list" where
  "huff_encode_table_lc_01 = [
    HECode 0x0fffffed 28, HECode 0x0fffffee 28, HECode 0x0fffffef 28, HECode 0x0ffffff0 28,
    HECode 0x0ffffff1 28, HECode 0x0ffffff2 28, HECode 0x3ffffffe 30, HECode 0x0ffffff3 28,
    HECode 0x0ffffff4 28, HECode 0x0ffffff5 28, HECode 0x0ffffff6 28, HECode 0x0ffffff7 28,
    HECode 0x0ffffff8 28, HECode 0x0ffffff9 28, HECode 0x0ffffffa 28, HECode 0x0ffffffb 28]"

definition huff_encode_table_lc_02 :: "kgl_http_v2_huff_encode_code_t list" where
  "huff_encode_table_lc_02 = [
    HECode 0x00000014 6, HECode 0x000003f8 10, HECode 0x000003f9 10, HECode 0x00000ffa 12,
    HECode 0x00001ff9 13, HECode 0x00000015 6, HECode 0x000000f8 8, HECode 0x000007fa 11,
    HECode 0x000003fa 10, HECode 0x000003fb 10, HECode 0x000000f9 8, HECode 0x000007fb 11,
    HECode 0x000000fa 8, HECode 0x00000016 6, HECode 0x00000017 6, HECode 0x00000018 6]"

definition huff_encode_table_lc_03 :: "kgl_http_v2_huff_encode_code_t list" where
  "huff_encode_table_lc_03 = [
    HECode 0x00000000 5, HECode 0x00000001 5, HECode 0x00000002 5, HECode 0x00000019 6,
    HECode 0x0000001a 6, HECode 0x0000001b 6, HECode 0x0000001c 6, HECode 0x0000001d 6,
    HECode 0x0000001e 6, HECode 0x0000001f 6, HECode 0x0000005c 7, HECode 0x000000fb 8,
    HECode 0x00007ffc 15, HECode 0x00000020 6, HECode 0x00000ffb 12, HECode 0x000003fc 10]"

definition huff_encode_table_lc_04 :: "kgl_http_v2_huff_encode_code_t list" where
  "huff_encode_table_lc_04 = [
    HECode 0x00001ffa 13, HECode 0x00000003 5, HECode 0x00000023 6, HECode 0x00000004 5,
    HECode 0x00000024 6, HECode 0x00000005 5, HECode 0x00000025 6, HECode 0x00000026 6,
    HECode 0x00000027 6, HECode 0x00000006 5, HECode 0x00000074 7, HECode 0x00000075 7,
    HECode 0x00000028 6, HECode 0x00000029 6, HECode 0x0000002a 6, HECode 0x00000007 5]"

definition huff_encode_table_lc_05 :: "kgl_http_v2_huff_encode_code_t list" where
  "huff_encode_table_lc_05 = [
    HECode 0x0000002b 6, HECode 0x00000076 7, HECode 0x0000002c 6, HECode 0x00000008 5,
    HECode 0x00000009 5, HECode 0x0000002d 6, HECode 0x00000077 7, HECode 0x00000078 7,
    HECode 0x00000079 7, HECode 0x0000007a 7, HECode 0x0000007b 7, HECode 0x00001ffb 13,
    HECode 0x0007fff0 19, HECode 0x00001ffc 13, HECode 0x00003ffc 14, HECode 0x00000022 6]"

definition huff_encode_table_lc_06 :: "kgl_http_v2_huff_encode_code_t list" where
  "huff_encode_table_lc_06 = [
    HECode 0x00007ffd 15, HECode 0x00000003 5, HECode 0x00000023 6, HECode 0x00000004 5,
    HECode 0x00000024 6, HECode 0x00000005 5, HECode 0x00000025 6, HECode 0x00000026 6,
    HECode 0x00000027 6, HECode 0x00000006 5, HECode 0x00000074 7, HECode 0x00000075 7,
    HECode 0x00000028 6, HECode 0x00000029 6, HECode 0x0000002a 6, HECode 0x00000007 5]"

definition huff_encode_table_lc_07 :: "kgl_http_v2_huff_encode_code_t list" where
  "huff_encode_table_lc_07 = [
    HECode 0x0000002b 6, HECode 0x00000076 7, HECode 0x0000002c 6, HECode 0x00000008 5,
    HECode 0x00000009 5, HECode 0x0000002d 6, HECode 0x00000077 7, HECode 0x00000078 7,
    HECode 0x00000079 7, HECode 0x0000007a 7, HECode 0x0000007b 7, HECode 0x00007ffe 15,
    HECode 0x000007fc 11, HECode 0x00003ffd 14, HECode 0x00001ffd 13, HECode 0x0ffffffc 28]"

definition huff_encode_table_lc_08 :: "kgl_http_v2_huff_encode_code_t list" where
  "huff_encode_table_lc_08 = [
    HECode 0x000fffe6 20, HECode 0x003fffd2 22, HECode 0x000fffe7 20, HECode 0x000fffe8 20,
    HECode 0x003fffd3 22, HECode 0x003fffd4 22, HECode 0x003fffd5 22, HECode 0x007fffd9 23,
    HECode 0x003fffd6 22, HECode 0x007fffda 23, HECode 0x007fffdb 23, HECode 0x007fffdc 23,
    HECode 0x007fffdd 23, HECode 0x007fffde 23, HECode 0x00ffffeb 24, HECode 0x007fffdf 23]"

definition huff_encode_table_lc_09 :: "kgl_http_v2_huff_encode_code_t list" where
  "huff_encode_table_lc_09 = [
    HECode 0x00ffffec 24, HECode 0x00ffffed 24, HECode 0x003fffd7 22, HECode 0x007fffe0 23,
    HECode 0x00ffffee 24, HECode 0x007fffe1 23, HECode 0x007fffe2 23, HECode 0x007fffe3 23,
    HECode 0x007fffe4 23, HECode 0x001fffdc 21, HECode 0x003fffd8 22, HECode 0x007fffe5 23,
    HECode 0x003fffd9 22, HECode 0x007fffe6 23, HECode 0x007fffe7 23, HECode 0x00ffffef 24]"

definition huff_encode_table_lc_10 :: "kgl_http_v2_huff_encode_code_t list" where
  "huff_encode_table_lc_10 = [
    HECode 0x003fffda 22, HECode 0x001fffdd 21, HECode 0x000fffe9 20, HECode 0x003fffdb 22,
    HECode 0x003fffdc 22, HECode 0x007fffe8 23, HECode 0x007fffe9 23, HECode 0x001fffde 21,
    HECode 0x007fffea 23, HECode 0x003fffdd 22, HECode 0x003fffde 22, HECode 0x00fffff0 24,
    HECode 0x001fffdf 21, HECode 0x003fffdf 22, HECode 0x007fffeb 23, HECode 0x007fffec 23]"

definition huff_encode_table_lc_11 :: "kgl_http_v2_huff_encode_code_t list" where
  "huff_encode_table_lc_11 = [
    HECode 0x001fffe0 21, HECode 0x001fffe1 21, HECode 0x003fffe0 22, HECode 0x001fffe2 21,
    HECode 0x007fffed 23, HECode 0x003fffe1 22, HECode 0x007fffee 23, HECode 0x007fffef 23,
    HECode 0x000fffea 20, HECode 0x003fffe2 22, HECode 0x003fffe3 22, HECode 0x003fffe4 22,
    HECode 0x007ffff0 23, HECode 0x003fffe5 22, HECode 0x003fffe6 22, HECode 0x007ffff1 23]"

definition huff_encode_table_lc_12 :: "kgl_http_v2_huff_encode_code_t list" where
  "huff_encode_table_lc_12 = [
    HECode 0x03ffffe0 26, HECode 0x03ffffe1 26, HECode 0x000fffeb 20, HECode 0x0007fff1 19,
    HECode 0x003fffe7 22, HECode 0x007ffff2 23, HECode 0x003fffe8 22, HECode 0x01ffffec 25,
    HECode 0x03ffffe2 26, HECode 0x03ffffe3 26, HECode 0x03ffffe4 26, HECode 0x07ffffde 27,
    HECode 0x07ffffdf 27, HECode 0x03ffffe5 26, HECode 0x00fffff1 24, HECode 0x01ffffed 25]"

definition huff_encode_table_lc_13 :: "kgl_http_v2_huff_encode_code_t list" where
  "huff_encode_table_lc_13 = [
    HECode 0x0007fff2 19, HECode 0x001fffe3 21, HECode 0x03ffffe6 26, HECode 0x07ffffe0 27,
    HECode 0x07ffffe1 27, HECode 0x03ffffe7 26, HECode 0x07ffffe2 27, HECode 0x00fffff2 24,
    HECode 0x001fffe4 21, HECode 0x001fffe5 21, HECode 0x03ffffe8 26, HECode 0x03ffffe9 26,
    HECode 0x0ffffffd 28, HECode 0x07ffffe3 27, HECode 0x07ffffe4 27, HECode 0x07ffffe5 27]"

definition huff_encode_table_lc_14 :: "kgl_http_v2_huff_encode_code_t list" where
  "huff_encode_table_lc_14 = [
    HECode 0x000fffec 20, HECode 0x00fffff3 24, HECode 0x000fffed 20, HECode 0x001fffe6 21,
    HECode 0x003fffe9 22, HECode 0x001fffe7 21, HECode 0x001fffe8 21, HECode 0x007ffff3 23,
    HECode 0x003fffea 22, HECode 0x003fffeb 22, HECode 0x01ffffee 25, HECode 0x01ffffef 25,
    HECode 0x00fffff4 24, HECode 0x00fffff5 24, HECode 0x03ffffea 26, HECode 0x007ffff4 23]"

definition huff_encode_table_lc_15 :: "kgl_http_v2_huff_encode_code_t list" where
  "huff_encode_table_lc_15 = [
    HECode 0x03ffffeb 26, HECode 0x07ffffe6 27, HECode 0x03ffffec 26, HECode 0x03ffffed 26,
    HECode 0x07ffffe7 27, HECode 0x07ffffe8 27, HECode 0x07ffffe9 27, HECode 0x07ffffea 27,
    HECode 0x07ffffeb 27, HECode 0x0ffffffe 28, HECode 0x07ffffec 27, HECode 0x07ffffed 27,
    HECode 0x07ffffee 27, HECode 0x07ffffef 27, HECode 0x07fffff0 27, HECode 0x03ffffee 26]"

definition huff_encode_table_lc_blocks :: "kgl_http_v2_huff_encode_code_t list list" where
  "huff_encode_table_lc_blocks = [
    huff_encode_table_lc_00, huff_encode_table_lc_01, huff_encode_table_lc_02, huff_encode_table_lc_03,
    huff_encode_table_lc_04, huff_encode_table_lc_05, huff_encode_table_lc_06, huff_encode_table_lc_07,
    huff_encode_table_lc_08, huff_encode_table_lc_09, huff_encode_table_lc_10, huff_encode_table_lc_11,
    huff_encode_table_lc_12, huff_encode_table_lc_13, huff_encode_table_lc_14, huff_encode_table_lc_15]"

definition kgl_http_v2_huff_encode_table_lc :: "kgl_http_v2_huff_encode_code_t list" where
  "kgl_http_v2_huff_encode_table_lc = concat huff_encode_table_lc_blocks"

lemmas huff_encode_table_lc_block_defs =
  huff_encode_table_lc_00_def huff_encode_table_lc_01_def huff_encode_table_lc_02_def huff_encode_table_lc_03_def
  huff_encode_table_lc_04_def huff_encode_table_lc_05_def huff_encode_table_lc_06_def huff_encode_table_lc_07_def
  huff_encode_table_lc_08_def huff_encode_table_lc_09_def huff_encode_table_lc_10_def huff_encode_table_lc_11_def
  huff_encode_table_lc_12_def huff_encode_table_lc_13_def huff_encode_table_lc_14_def huff_encode_table_lc_15_def

lemma huff_encode_table_lc_block_lengths:
  "length huff_encode_table_lc_blocks = 16" "\<forall>b \<in> set huff_encode_table_lc_blocks. length b = 16"
  by (simp_all add: huff_encode_table_lc_blocks_def huff_encode_table_lc_block_defs)

lemma huff_encode_table_lc_nth:
  assumes "i < 256"
  shows "kgl_http_v2_huff_encode_table_lc ! i = huff_encode_table_lc_blocks ! (i div 16) ! (i mod 16)"
  unfolding kgl_http_v2_huff_encode_table_lc_def
  by (rule concat_nth_uniform [OF huff_encode_table_lc_block_lengths(2)])
    (use assms in \<open>simp_all add: huff_encode_table_lc_block_lengths(1)\<close>)

lemma huff_encode_table_lc_length: "length kgl_http_v2_huff_encode_table_lc = 256"
  unfolding kgl_http_v2_huff_encode_table_lc_def
  by (simp add: concat_length_uniform [OF huff_encode_table_lc_block_lengths(2)] huff_encode_table_lc_block_lengths(1))

end
