(* ===== verification/KHuffCode.thy ===== *)
theory KHuffCode
  imports KHuffDecodeTable KHuffEncodeTable
begin

text \<open>
  What the two Huffman tables mean. The reference is the code tree of the encoding table;
  the decoding automaton is checked against it: every state of the automaton is an inner
  node of the tree (numbered in pre-order), and every one of the 4096 transitions of the
  table either walks four bits down, or walks through exactly one leaf and emits its
  symbol, or runs into the end-of-string code and is an error.
\<close>

section \<open>The code words\<close>

definition huff_code :: "byte \<Rightarrow> bool list" where
  "huff_code s = (let c = kgl_http_v2_huff_encode_table ! unat s
     in nbits (unat (elen c)) (unat (ecode c)))"

definition eos_code :: "bool list" where
  "eos_code = replicate 30 True"

section \<open>The code trie\<close>

text \<open>
  The trie of the code words with its inner nodes numbered in pre-order: for every inner
  node the targets of a 0 bit and of a 1 bit.
\<close>

datatype trie_target = Leaf byte | Inner nat | Eos

definition huff_children_00 :: "(trie_target \<times> trie_target) list" where
  "huff_children_00 = [
    (Inner 1, Inner 22), (Inner 2, Inner 9), (Inner 3, Inner 6), (Inner 4, Inner 5),
    (Leaf 0x30, Leaf 0x31), (Leaf 0x32, Leaf 0x61), (Inner 7, Inner 8), (Leaf 0x63, Leaf 0x65),
    (Leaf 0x69, Leaf 0x6f), (Inner 10, Inner 15), (Inner 11, Inner 12), (Leaf 0x73, Leaf 0x74),
    (Inner 13, Inner 14), (Leaf 0x20, Leaf 0x25), (Leaf 0x2d, Leaf 0x2e), (Inner 16, Inner 19)]"

definition huff_children_01 :: "(trie_target \<times> trie_target) list" where
  "huff_children_01 = [
    (Inner 17, Inner 18), (Leaf 0x2f, Leaf 0x33), (Leaf 0x34, Leaf 0x35), (Inner 20, Inner 21),
    (Leaf 0x36, Leaf 0x37), (Leaf 0x38, Leaf 0x39), (Inner 23, Inner 40), (Inner 24, Inner 31),
    (Inner 25, Inner 28), (Inner 26, Inner 27), (Leaf 0x3d, Leaf 0x41), (Leaf 0x5f, Leaf 0x62),
    (Inner 29, Inner 30), (Leaf 0x64, Leaf 0x66), (Leaf 0x67, Leaf 0x68), (Inner 32, Inner 35)]"

definition huff_children_02 :: "(trie_target \<times> trie_target) list" where
  "huff_children_02 = [
    (Inner 33, Inner 34), (Leaf 0x6c, Leaf 0x6d), (Leaf 0x6e, Leaf 0x70), (Inner 36, Inner 37),
    (Leaf 0x72, Leaf 0x75), (Inner 38, Inner 39), (Leaf 0x3a, Leaf 0x42), (Leaf 0x43, Leaf 0x44),
    (Inner 41, Inner 56), (Inner 42, Inner 49), (Inner 43, Inner 46), (Inner 44, Inner 45),
    (Leaf 0x45, Leaf 0x46), (Leaf 0x47, Leaf 0x48), (Inner 47, Inner 48), (Leaf 0x49, Leaf 0x4a)]"

definition huff_children_03 :: "(trie_target \<times> trie_target) list" where
  "huff_children_03 = [
    (Leaf 0x4b, Leaf 0x4c), (Inner 50, Inner 53), (Inner 51, Inner 52), (Leaf 0x4d, Leaf 0x4e),
    (Leaf 0x4f, Leaf 0x50), (Inner 54, Inner 55), (Leaf 0x51, Leaf 0x52), (Leaf 0x53, Leaf 0x54),
    (Inner 57, Inner 64), (Inner 58, Inner 61), (Inner 59, Inner 60), (Leaf 0x55, Leaf 0x56),
    (Leaf 0x57, Leaf 0x59), (Inner 62, Inner 63), (Leaf 0x6a, Leaf 0x6b), (Leaf 0x71, Leaf 0x76)]"

definition huff_children_04 :: "(trie_target \<times> trie_target) list" where
  "huff_children_04 = [
    (Inner 65, Inner 68), (Inner 66, Inner 67), (Leaf 0x77, Leaf 0x78), (Leaf 0x79, Leaf 0x7a),
    (Inner 69, Inner 72), (Inner 70, Inner 71), (Leaf 0x26, Leaf 0x2a), (Leaf 0x2c, Leaf 0x3b),
    (Inner 73, Inner 74), (Leaf 0x58, Leaf 0x5a), (Inner 75, Inner 78), (Inner 76, Inner 77),
    (Leaf 0x21, Leaf 0x22), (Leaf 0x28, Leaf 0x29), (Inner 79, Inner 81), (Leaf 0x3f, Inner 80)]"

definition huff_children_05 :: "(trie_target \<times> trie_target) list" where
  "huff_children_05 = [
    (Leaf 0x27, Leaf 0x2b), (Inner 82, Inner 84), (Leaf 0x7c, Inner 83), (Leaf 0x23, Leaf 0x3e),
    (Inner 85, Inner 88), (Inner 86, Inner 87), (Leaf 0x00, Leaf 0x24), (Leaf 0x40, Leaf 0x5b),
    (Inner 89, Inner 90), (Leaf 0x5d, Leaf 0x7e), (Inner 91, Inner 92), (Leaf 0x5e, Leaf 0x7d),
    (Inner 93, Inner 94), (Leaf 0x3c, Leaf 0x60), (Leaf 0x7b, Inner 95), (Inner 96, Inner 110)]"

definition huff_children_06 :: "(trie_target \<times> trie_target) list" where
  "huff_children_06 = [
    (Inner 97, Inner 101), (Inner 98, Inner 99), (Leaf 0x5c, Leaf 0xc3), (Leaf 0xd0, Inner 100),
    (Leaf 0x80, Leaf 0x82), (Inner 102, Inner 105), (Inner 103, Inner 104), (Leaf 0x83, Leaf 0xa2),
    (Leaf 0xb8, Leaf 0xc2), (Inner 106, Inner 107), (Leaf 0xe0, Leaf 0xe2), (Inner 108, Inner 109),
    (Leaf 0x99, Leaf 0xa1), (Leaf 0xa7, Leaf 0xac), (Inner 111, Inner 133), (Inner 112, Inner 119)]"

definition huff_children_07 :: "(trie_target \<times> trie_target) list" where
  "huff_children_07 = [
    (Inner 113, Inner 116), (Inner 114, Inner 115), (Leaf 0xb0, Leaf 0xb1), (Leaf 0xb3, Leaf 0xd1),
    (Inner 117, Inner 118), (Leaf 0xd8, Leaf 0xd9), (Leaf 0xe3, Leaf 0xe5), (Inner 120, Inner 126),
    (Inner 121, Inner 123), (Leaf 0xe6, Inner 122), (Leaf 0x81, Leaf 0x84), (Inner 124, Inner 125),
    (Leaf 0x85, Leaf 0x86), (Leaf 0x88, Leaf 0x92), (Inner 127, Inner 130), (Inner 128, Inner 129)]"

definition huff_children_08 :: "(trie_target \<times> trie_target) list" where
  "huff_children_08 = [
    (Leaf 0x9a, Leaf 0x9c), (Leaf 0xa0, Leaf 0xa3), (Inner 131, Inner 132), (Leaf 0xa4, Leaf 0xa9),
    (Leaf 0xaa, Leaf 0xad), (Inner 134, Inner 153), (Inner 135, Inner 142), (Inner 136, Inner 139),
    (Inner 137, Inner 138), (Leaf 0xb2, Leaf 0xb5), (Leaf 0xb9, Leaf 0xba), (Inner 140, Inner 141),
    (Leaf 0xbb, Leaf 0xbd), (Leaf 0xbe, Leaf 0xc4), (Inner 143, Inner 146), (Inner 144, Inner 145)]"

definition huff_children_09 :: "(trie_target \<times> trie_target) list" where
  "huff_children_09 = [
    (Leaf 0xc6, Leaf 0xe4), (Leaf 0xe8, Leaf 0xe9), (Inner 147, Inner 150), (Inner 148, Inner 149),
    (Leaf 0x01, Leaf 0x87), (Leaf 0x89, Leaf 0x8a), (Inner 151, Inner 152), (Leaf 0x8b, Leaf 0x8c),
    (Leaf 0x8d, Leaf 0x8f), (Inner 154, Inner 169), (Inner 155, Inner 162), (Inner 156, Inner 159),
    (Inner 157, Inner 158), (Leaf 0x93, Leaf 0x95), (Leaf 0x96, Leaf 0x97), (Inner 160, Inner 161)]"

definition huff_children_10 :: "(trie_target \<times> trie_target) list" where
  "huff_children_10 = [
    (Leaf 0x98, Leaf 0x9b), (Leaf 0x9d, Leaf 0x9e), (Inner 163, Inner 166), (Inner 164, Inner 165),
    (Leaf 0xa5, Leaf 0xa6), (Leaf 0xa8, Leaf 0xae), (Inner 167, Inner 168), (Leaf 0xaf, Leaf 0xb4),
    (Leaf 0xb6, Leaf 0xb7), (Inner 170, Inner 180), (Inner 171, Inner 174), (Inner 172, Inner 173),
    (Leaf 0xbc, Leaf 0xbf), (Leaf 0xc5, Leaf 0xe7), (Inner 175, Inner 177), (Leaf 0xef, Inner 176)]"

definition huff_children_11 :: "(trie_target \<times> trie_target) list" where
  "huff_children_11 = [
    (Leaf 0x09, Leaf 0x8e), (Inner 178, Inner 179), (Leaf 0x90, Leaf 0x91), (Leaf 0x94, Leaf 0x9f),
    (Inner 181, Inner 190), (Inner 182, Inner 185), (Inner 183, Inner 184), (Leaf 0xab, Leaf 0xce),
    (Leaf 0xd7, Leaf 0xe1), (Inner 186, Inner 187), (Leaf 0xec, Leaf 0xed), (Inner 188, Inner 189),
    (Leaf 0xc7, Leaf 0xcf), (Leaf 0xea, Leaf 0xeb), (Inner 191, Inner 207), (Inner 192, Inner 199)]"

definition huff_children_12 :: "(trie_target \<times> trie_target) list" where
  "huff_children_12 = [
    (Inner 193, Inner 196), (Inner 194, Inner 195), (Leaf 0xc0, Leaf 0xc1), (Leaf 0xc8, Leaf 0xc9),
    (Inner 197, Inner 198), (Leaf 0xca, Leaf 0xcd), (Leaf 0xd2, Leaf 0xd5), (Inner 200, Inner 203),
    (Inner 201, Inner 202), (Leaf 0xda, Leaf 0xdb), (Leaf 0xee, Leaf 0xf0), (Inner 204, Inner 205),
    (Leaf 0xf2, Leaf 0xf3), (Leaf 0xff, Inner 206), (Leaf 0xcb, Leaf 0xcc), (Inner 208, Inner 223)]"

definition huff_children_13 :: "(trie_target \<times> trie_target) list" where
  "huff_children_13 = [
    (Inner 209, Inner 216), (Inner 210, Inner 213), (Inner 211, Inner 212), (Leaf 0xd3, Leaf 0xd4),
    (Leaf 0xd6, Leaf 0xdd), (Inner 214, Inner 215), (Leaf 0xde, Leaf 0xdf), (Leaf 0xf1, Leaf 0xf4),
    (Inner 217, Inner 220), (Inner 218, Inner 219), (Leaf 0xf5, Leaf 0xf6), (Leaf 0xf7, Leaf 0xf8),
    (Inner 221, Inner 222), (Leaf 0xfa, Leaf 0xfb), (Leaf 0xfc, Leaf 0xfd), (Inner 224, Inner 238)]"

definition huff_children_14 :: "(trie_target \<times> trie_target) list" where
  "huff_children_14 = [
    (Inner 225, Inner 231), (Inner 226, Inner 228), (Leaf 0xfe, Inner 227), (Leaf 0x02, Leaf 0x03),
    (Inner 229, Inner 230), (Leaf 0x04, Leaf 0x05), (Leaf 0x06, Leaf 0x07), (Inner 232, Inner 235),
    (Inner 233, Inner 234), (Leaf 0x08, Leaf 0x0b), (Leaf 0x0c, Leaf 0x0e), (Inner 236, Inner 237),
    (Leaf 0x0f, Leaf 0x10), (Leaf 0x11, Leaf 0x12), (Inner 239, Inner 246), (Inner 240, Inner 243)]"

definition huff_children_15 :: "(trie_target \<times> trie_target) list" where
  "huff_children_15 = [
    (Inner 241, Inner 242), (Leaf 0x13, Leaf 0x14), (Leaf 0x15, Leaf 0x17), (Inner 244, Inner 245),
    (Leaf 0x18, Leaf 0x19), (Leaf 0x1a, Leaf 0x1b), (Inner 247, Inner 250), (Inner 248, Inner 249),
    (Leaf 0x1c, Leaf 0x1d), (Leaf 0x1e, Leaf 0x1f), (Inner 251, Inner 252), (Leaf 0x7f, Leaf 0xdc),
    (Leaf 0xf9, Inner 253), (Inner 254, Inner 255), (Leaf 0x0a, Leaf 0x0d), (Leaf 0x16, Eos)]"

definition huff_children :: "(trie_target \<times> trie_target) list list" where
  "huff_children = [
    huff_children_00, huff_children_01, huff_children_02, huff_children_03,
    huff_children_04, huff_children_05, huff_children_06, huff_children_07,
    huff_children_08, huff_children_09, huff_children_10, huff_children_11,
    huff_children_12, huff_children_13, huff_children_14, huff_children_15]"

definition child :: "nat \<Rightarrow> bool \<Rightarrow> trie_target" where
  "child i b = (if b then snd else fst) (huff_children ! (i div 16) ! (i mod 16))"

fun trie_walk :: "trie_target \<Rightarrow> bool list \<Rightarrow> trie_target option" where
  "trie_walk t [] = Some t"
| "trie_walk (Inner i) (b # bs) = trie_walk (child i b) bs"
| "trie_walk _ (b # bs) = None"

section \<open>The states of the automaton\<close>

text \<open>
  The node of a state as the pair of the length and the value of its path from the root,
  for the 256 inner nodes of the trie.
\<close>

definition huff_nodes_00 :: "(nat \<times> nat) list" where
  "huff_nodes_00 = [
    (0, 0x0), (1, 0x0), (2, 0x0), (3, 0x0),
    (4, 0x0), (4, 0x1), (3, 0x1), (4, 0x2),
    (4, 0x3), (2, 0x1), (3, 0x2), (4, 0x4),
    (4, 0x5), (5, 0xa), (5, 0xb), (3, 0x3)]"

definition huff_nodes_01 :: "(nat \<times> nat) list" where
  "huff_nodes_01 = [
    (4, 0x6), (5, 0xc), (5, 0xd), (4, 0x7),
    (5, 0xe), (5, 0xf), (1, 0x1), (2, 0x2),
    (3, 0x4), (4, 0x8), (5, 0x10), (5, 0x11),
    (4, 0x9), (5, 0x12), (5, 0x13), (3, 0x5)]"

definition huff_nodes_02 :: "(nat \<times> nat) list" where
  "huff_nodes_02 = [
    (4, 0xa), (5, 0x14), (5, 0x15), (4, 0xb),
    (5, 0x16), (5, 0x17), (6, 0x2e), (6, 0x2f),
    (2, 0x3), (3, 0x6), (4, 0xc), (5, 0x18),
    (6, 0x30), (6, 0x31), (5, 0x19), (6, 0x32)]"

definition huff_nodes_03 :: "(nat \<times> nat) list" where
  "huff_nodes_03 = [
    (6, 0x33), (4, 0xd), (5, 0x1a), (6, 0x34),
    (6, 0x35), (5, 0x1b), (6, 0x36), (6, 0x37),
    (3, 0x7), (4, 0xe), (5, 0x1c), (6, 0x38),
    (6, 0x39), (5, 0x1d), (6, 0x3a), (6, 0x3b)]"

definition huff_nodes_04 :: "(nat \<times> nat) list" where
  "huff_nodes_04 = [
    (4, 0xf), (5, 0x1e), (6, 0x3c), (6, 0x3d),
    (5, 0x1f), (6, 0x3e), (7, 0x7c), (7, 0x7d),
    (6, 0x3f), (7, 0x7e), (7, 0x7f), (8, 0xfe),
    (9, 0x1fc), (9, 0x1fd), (8, 0xff), (9, 0x1fe)]"

definition huff_nodes_05 :: "(nat \<times> nat) list" where
  "huff_nodes_05 = [
    (10, 0x3fd), (9, 0x1ff), (10, 0x3fe), (11, 0x7fd),
    (10, 0x3ff), (11, 0x7fe), (12, 0xffc), (12, 0xffd),
    (11, 0x7ff), (12, 0xffe), (12, 0xfff), (13, 0x1ffe),
    (13, 0x1fff), (14, 0x3ffe), (14, 0x3fff), (15, 0x7fff)]"

definition huff_nodes_06 :: "(nat \<times> nat) list" where
  "huff_nodes_06 = [
    (16, 0xfffe), (17, 0x1fffc), (18, 0x3fff8), (18, 0x3fff9),
    (19, 0x7fff3), (17, 0x1fffd), (18, 0x3fffa), (19, 0x7fff4),
    (19, 0x7fff5), (18, 0x3fffb), (19, 0x7fff6), (19, 0x7fff7),
    (20, 0xfffee), (20, 0xfffef), (16, 0xffff), (17, 0x1fffe)]"

definition huff_nodes_07 :: "(nat \<times> nat) list" where
  "huff_nodes_07 = [
    (18, 0x3fffc), (19, 0x7fff8), (20, 0xffff0), (20, 0xffff1),
    (19, 0x7fff9), (20, 0xffff2), (20, 0xffff3), (18, 0x3fffd),
    (19, 0x7fffa), (20, 0xffff4), (21, 0x1fffe9), (20, 0xffff5),
    (21, 0x1fffea), (21, 0x1fffeb), (19, 0x7fffb), (20, 0xffff6)]"

definition huff_nodes_08 :: "(nat \<times> nat) list" where
  "huff_nodes_08 = [
    (21, 0x1fffec), (21, 0x1fffed), (20, 0xffff7), (21, 0x1fffee),
    (21, 0x1fffef), (17, 0x1ffff), (18, 0x3fffe), (19, 0x7fffc),
    (20, 0xffff8), (21, 0x1ffff0), (21, 0x1ffff1), (20, 0xffff9),
    (21, 0x1ffff2), (21, 0x1ffff3), (19, 0x7fffd), (20, 0xffffa)]"

definition huff_nodes_09 :: "(nat \<times> nat) list" where
  "huff_nodes_09 = [
    (21, 0x1ffff4), (21, 0x1ffff5), (20, 0xffffb), (21, 0x1ffff6),
    (22, 0x3fffec), (22, 0x3fffed), (21, 0x1ffff7), (22, 0x3fffee),
    (22, 0x3fffef), (18, 0x3ffff), (19, 0x7fffe), (20, 0xffffc),
    (21, 0x1ffff8), (22, 0x3ffff0), (22, 0x3ffff1), (21, 0x1ffff9)]"

definition huff_nodes_10 :: "(nat \<times> nat) list" where
  "huff_nodes_10 = [
    (22, 0x3ffff2), (22, 0x3ffff3), (20, 0xffffd), (21, 0x1ffffa),
    (22, 0x3ffff4), (22, 0x3ffff5), (21, 0x1ffffb), (22, 0x3ffff6),
    (22, 0x3ffff7), (19, 0x7ffff), (20, 0xffffe), (21, 0x1ffffc),
    (22, 0x3ffff8), (22, 0x3ffff9), (21, 0x1ffffd), (22, 0x3ffffa)]"

definition huff_nodes_11 :: "(nat \<times> nat) list" where
  "huff_nodes_11 = [
    (23, 0x7ffff5), (22, 0x3ffffb), (23, 0x7ffff6), (23, 0x7ffff7),
    (20, 0xfffff), (21, 0x1ffffe), (22, 0x3ffffc), (23, 0x7ffff8),
    (23, 0x7ffff9), (22, 0x3ffffd), (23, 0x7ffffa), (23, 0x7ffffb),
    (24, 0xfffff6), (24, 0xfffff7), (21, 0x1fffff), (22, 0x3ffffe)]"

definition huff_nodes_12 :: "(nat \<times> nat) list" where
  "huff_nodes_12 = [
    (23, 0x7ffffc), (24, 0xfffff8), (25, 0x1fffff0), (25, 0x1fffff1),
    (24, 0xfffff9), (25, 0x1fffff2), (25, 0x1fffff3), (23, 0x7ffffd),
    (24, 0xfffffa), (25, 0x1fffff4), (25, 0x1fffff5), (24, 0xfffffb),
    (25, 0x1fffff6), (25, 0x1fffff7), (26, 0x3ffffef), (22, 0x3fffff)]"

definition huff_nodes_13 :: "(nat \<times> nat) list" where
  "huff_nodes_13 = [
    (23, 0x7ffffe), (24, 0xfffffc), (25, 0x1fffff8), (26, 0x3fffff0),
    (26, 0x3fffff1), (25, 0x1fffff9), (26, 0x3fffff2), (26, 0x3fffff3),
    (24, 0xfffffd), (25, 0x1fffffa), (26, 0x3fffff4), (26, 0x3fffff5),
    (25, 0x1fffffb), (26, 0x3fffff6), (26, 0x3fffff7), (23, 0x7fffff)]"

definition huff_nodes_14 :: "(nat \<times> nat) list" where
  "huff_nodes_14 = [
    (24, 0xfffffe), (25, 0x1fffffc), (26, 0x3fffff8), (27, 0x7fffff1),
    (26, 0x3fffff9), (27, 0x7fffff2), (27, 0x7fffff3), (25, 0x1fffffd),
    (26, 0x3fffffa), (27, 0x7fffff4), (27, 0x7fffff5), (26, 0x3fffffb),
    (27, 0x7fffff6), (27, 0x7fffff7), (24, 0xffffff), (25, 0x1fffffe)]"

definition huff_nodes_15 :: "(nat \<times> nat) list" where
  "huff_nodes_15 = [
    (26, 0x3fffffc), (27, 0x7fffff8), (27, 0x7fffff9), (26, 0x3fffffd),
    (27, 0x7fffffa), (27, 0x7fffffb), (25, 0x1ffffff), (26, 0x3fffffe),
    (27, 0x7fffffc), (27, 0x7fffffd), (26, 0x3ffffff), (27, 0x7fffffe),
    (27, 0x7ffffff), (28, 0xfffffff), (29, 0x1ffffffe), (29, 0x1fffffff)]"

definition huff_nodes :: "(nat \<times> nat) list list" where
  "huff_nodes = [
    huff_nodes_00, huff_nodes_01, huff_nodes_02, huff_nodes_03,
    huff_nodes_04, huff_nodes_05, huff_nodes_06, huff_nodes_07,
    huff_nodes_08, huff_nodes_09, huff_nodes_10, huff_nodes_11,
    huff_nodes_12, huff_nodes_13, huff_nodes_14, huff_nodes_15]"

definition node :: "nat \<Rightarrow> nat \<times> nat" where
  "node s = huff_nodes ! (s div 16) ! (s mod 16)"

definition huff_path :: "byte \<Rightarrow> bool list" where
  "huff_path s = nbits (fst (node (unat s))) (snd (node (unat s)))"

section \<open>The check of the tables\<close>

definition code_num :: "nat \<Rightarrow> nat \<times> nat" where
  "code_num i = (case huff_encode_table_blocks ! (i div 16) ! (i mod 16) of
     HECode c k \<Rightarrow> (unat k, unat c))"

text \<open>A block of the encoding table: each code word leads to the leaf of its symbol.\<close>

fun codes_ok :: "nat \<Rightarrow> kgl_http_v2_huff_encode_code_t list \<Rightarrow> bool" where
  "codes_ok i [] = True"
| "codes_ok i (HECode c l # cs) \<longleftrightarrow>
     trie_walk (Inner 0) (nbits_acc (unat l) (unat c) []) = Some (Leaf (word_of_nat i)) \<and>
     unat c < 2 ^ unat l \<and> 5 \<le> unat l \<and> unat l \<le> 30 \<and>
     unat c \<noteq> 2 ^ unat l - 1 \<and> codes_ok (i + 1) cs"

text \<open>A block of states: each path ends at the inner node of that number.\<close>

fun nodes_ok :: "nat \<Rightarrow> (nat \<times> nat) list \<Rightarrow> bool" where
  "nodes_ok i [] = True"
| "nodes_ok i ((l, v) # ns) \<longleftrightarrow>
     trie_walk (Inner 0) (nbits_acc l v []) = Some (Inner i) \<and>
     v < 2 ^ l \<and> l < 30 \<and> nodes_ok (i + 1) ns"

text \<open>One transition of the decoding table, from the node \<open>(l, v)\<close> of state \<open>s\<close> on nibble \<open>n\<close>.\<close>

definition entry_ok :: "nat \<Rightarrow> nat \<Rightarrow> nat \<Rightarrow> nat \<Rightarrow> kgl_http_v2_huff_decode_code_t \<Rightarrow> bool" where
  "entry_ok s l v n e = (
     let t = unat (code_next e); (l', v') = node t in
     if t = s then 30 \<le> l + 4 \<and> (v * 16 + n) div 2 ^ (l + 4 - 30) = 2 ^ 30 - 1
     else (if code_emit e = 0 then l' = l + 4 \<and> v' = v * 16 + n
           else (case code_num (unat (code_sym e)) of
                  (k, c) \<Rightarrow> k + l' = l + 4 \<and> c * 2 ^ l' + v' = v * 16 + n)) \<and>
          (code_ending e \<noteq> 0 \<longleftrightarrow> v' + 1 = 2 ^ l'))"

fun row_ok :: "nat \<Rightarrow> nat \<Rightarrow> nat \<Rightarrow> nat \<Rightarrow> kgl_http_v2_huff_decode_code_t list \<Rightarrow> bool" where
  "row_ok s l v n [] \<longleftrightarrow> n = 16"
| "row_ok s l v n (e # es) \<longleftrightarrow> entry_ok s l v n e \<and> row_ok s l v (n + 1) es"

fun rows_ok :: "nat \<Rightarrow> kgl_http_v2_huff_decode_code_t list list \<Rightarrow> bool" where
  "rows_ok s [] = True"
| "rows_ok s (r # rs) \<longleftrightarrow> row_ok s (fst (node s)) (snd (node s)) 0 r \<and> rows_ok (s + 1) rs"

section \<open>Table look-ups as rewrite rules\<close>

text \<open>
  Reading the literal tables costs a scan; the look-ups are therefore proved once, as
  one equation per index, and the checks below rewrite with these equations only.
\<close>

lemma huff_nodes_nth:
  "huff_nodes ! 0 = huff_nodes_00"
  "huff_nodes ! Suc 0 = huff_nodes_01"
  "huff_nodes ! 2 = huff_nodes_02"
  "huff_nodes ! 3 = huff_nodes_03"
  "huff_nodes ! 4 = huff_nodes_04"
  "huff_nodes ! 5 = huff_nodes_05"
  "huff_nodes ! 6 = huff_nodes_06"
  "huff_nodes ! 7 = huff_nodes_07"
  "huff_nodes ! 8 = huff_nodes_08"
  "huff_nodes ! 9 = huff_nodes_09"
  "huff_nodes ! 10 = huff_nodes_10"
  "huff_nodes ! 11 = huff_nodes_11"
  "huff_nodes ! 12 = huff_nodes_12"
  "huff_nodes ! 13 = huff_nodes_13"
  "huff_nodes ! 14 = huff_nodes_14"
  "huff_nodes ! 15 = huff_nodes_15"
  by (simp_all add: huff_nodes_def)

lemma huff_children_nth:
  "huff_children ! 0 = huff_children_00"
  "huff_children ! Suc 0 = huff_children_01"
  "huff_children ! 2 = huff_children_02"
  "huff_children ! 3 = huff_children_03"
  "huff_children ! 4 = huff_children_04"
  "huff_children ! 5 = huff_children_05"
  "huff_children ! 6 = huff_children_06"
  "huff_children ! 7 = huff_children_07"
  "huff_children ! 8 = huff_children_08"
  "huff_children ! 9 = huff_children_09"
  "huff_children ! 10 = huff_children_10"
  "huff_children ! 11 = huff_children_11"
  "huff_children ! 12 = huff_children_12"
  "huff_children ! 13 = huff_children_13"
  "huff_children ! 14 = huff_children_14"
  "huff_children ! 15 = huff_children_15"
  by (simp_all add: huff_children_def)

lemma huff_encode_blocks_nth:
  "huff_encode_table_blocks ! 0 = huff_encode_table_00"
  "huff_encode_table_blocks ! Suc 0 = huff_encode_table_01"
  "huff_encode_table_blocks ! 2 = huff_encode_table_02"
  "huff_encode_table_blocks ! 3 = huff_encode_table_03"
  "huff_encode_table_blocks ! 4 = huff_encode_table_04"
  "huff_encode_table_blocks ! 5 = huff_encode_table_05"
  "huff_encode_table_blocks ! 6 = huff_encode_table_06"
  "huff_encode_table_blocks ! 7 = huff_encode_table_07"
  "huff_encode_table_blocks ! 8 = huff_encode_table_08"
  "huff_encode_table_blocks ! 9 = huff_encode_table_09"
  "huff_encode_table_blocks ! 10 = huff_encode_table_10"
  "huff_encode_table_blocks ! 11 = huff_encode_table_11"
  "huff_encode_table_blocks ! 12 = huff_encode_table_12"
  "huff_encode_table_blocks ! 13 = huff_encode_table_13"
  "huff_encode_table_blocks ! 14 = huff_encode_table_14"
  "huff_encode_table_blocks ! 15 = huff_encode_table_15"
  by (simp_all add: huff_encode_table_blocks_def)

lemmas huff_nodes_defs = huff_nodes_nth
  huff_nodes_00_def huff_nodes_01_def huff_nodes_02_def huff_nodes_03_def
  huff_nodes_04_def huff_nodes_05_def huff_nodes_06_def huff_nodes_07_def
  huff_nodes_08_def huff_nodes_09_def huff_nodes_10_def huff_nodes_11_def
  huff_nodes_12_def huff_nodes_13_def huff_nodes_14_def huff_nodes_15_def

lemmas huff_children_defs = huff_children_nth
  huff_children_00_def huff_children_01_def huff_children_02_def huff_children_03_def
  huff_children_04_def huff_children_05_def huff_children_06_def huff_children_07_def
  huff_children_08_def huff_children_09_def huff_children_10_def huff_children_11_def
  huff_children_12_def huff_children_13_def huff_children_14_def huff_children_15_def

lemmas huff_encode_defs = huff_encode_blocks_nth huff_encode_table_block_defs

lemma node_eqs:
  "node 0 = (0, 0)"
  "node 1 = (1, 0)"
  "node 2 = (2, 0)"
  "node 3 = (3, 0)"
  "node 4 = (4, 0)"
  "node 5 = (4, 1)"
  "node 6 = (3, 1)"
  "node 7 = (4, 2)"
  "node 8 = (4, 3)"
  "node 9 = (2, 1)"
  "node 10 = (3, 2)"
  "node 11 = (4, 4)"
  "node 12 = (4, 5)"
  "node 13 = (5, 10)"
  "node 14 = (5, 11)"
  "node 15 = (3, 3)"
  "node 16 = (4, 6)"
  "node 17 = (5, 12)"
  "node 18 = (5, 13)"
  "node 19 = (4, 7)"
  "node 20 = (5, 14)"
  "node 21 = (5, 15)"
  "node 22 = (1, 1)"
  "node 23 = (2, 2)"
  "node 24 = (3, 4)"
  "node 25 = (4, 8)"
  "node 26 = (5, 0x10)"
  "node 27 = (5, 0x11)"
  "node 28 = (4, 9)"
  "node 29 = (5, 0x12)"
  "node 30 = (5, 0x13)"
  "node 31 = (3, 5)"
  "node 32 = (4, 10)"
  "node 33 = (5, 0x14)"
  "node 34 = (5, 0x15)"
  "node 35 = (4, 11)"
  "node 36 = (5, 0x16)"
  "node 37 = (5, 0x17)"
  "node 38 = (6, 0x2e)"
  "node 39 = (6, 0x2f)"
  "node 40 = (2, 3)"
  "node 41 = (3, 6)"
  "node 42 = (4, 12)"
  "node 43 = (5, 0x18)"
  "node 44 = (6, 0x30)"
  "node 45 = (6, 0x31)"
  "node 46 = (5, 0x19)"
  "node 47 = (6, 0x32)"
  "node 48 = (6, 0x33)"
  "node 49 = (4, 13)"
  "node 50 = (5, 0x1a)"
  "node 51 = (6, 0x34)"
  "node 52 = (6, 0x35)"
  "node 53 = (5, 0x1b)"
  "node 54 = (6, 0x36)"
  "node 55 = (6, 0x37)"
  "node 56 = (3, 7)"
  "node 57 = (4, 14)"
  "node 58 = (5, 0x1c)"
  "node 59 = (6, 0x38)"
  "node 60 = (6, 0x39)"
  "node 61 = (5, 0x1d)"
  "node 62 = (6, 0x3a)"
  "node 63 = (6, 0x3b)"
  "node 64 = (4, 15)"
  "node 65 = (5, 0x1e)"
  "node 66 = (6, 0x3c)"
  "node 67 = (6, 0x3d)"
  "node 68 = (5, 0x1f)"
  "node 69 = (6, 0x3e)"
  "node 70 = (7, 0x7c)"
  "node 71 = (7, 0x7d)"
  "node 72 = (6, 0x3f)"
  "node 73 = (7, 0x7e)"
  "node 74 = (7, 0x7f)"
  "node 75 = (8, 0xfe)"
  "node 76 = (9, 0x1fc)"
  "node 77 = (9, 0x1fd)"
  "node 78 = (8, 0xff)"
  "node 79 = (9, 0x1fe)"
  "node 80 = (10, 0x3fd)"
  "node 81 = (9, 0x1ff)"
  "node 82 = (10, 0x3fe)"
  "node 83 = (11, 0x7fd)"
  "node 84 = (10, 0x3ff)"
  "node 85 = (11, 0x7fe)"
  "node 86 = (12, 0xffc)"
  "node 87 = (12, 0xffd)"
  "node 88 = (11, 0x7ff)"
  "node 89 = (12, 0xffe)"
  "node 90 = (12, 0xfff)"
  "node 91 = (13, 0x1ffe)"
  "node 92 = (13, 0x1fff)"
  "node 93 = (14, 0x3ffe)"
  "node 94 = (14, 0x3fff)"
  "node 95 = (15, 0x7fff)"
  "node 96 = (16, 0xfffe)"
  "node 97 = (17, 0x1fffc)"
  "node 98 = (18, 0x3fff8)"
  "node 99 = (18, 0x3fff9)"
  "node 100 = (19, 0x7fff3)"
  "node 101 = (17, 0x1fffd)"
  "node 102 = (18, 0x3fffa)"
  "node 103 = (19, 0x7fff4)"
  "node 104 = (19, 0x7fff5)"
  "node 105 = (18, 0x3fffb)"
  "node 106 = (19, 0x7fff6)"
  "node 107 = (19, 0x7fff7)"
  "node 108 = (20, 0xfffee)"
  "node 109 = (20, 0xfffef)"
  "node 110 = (16, 0xffff)"
  "node 111 = (17, 0x1fffe)"
  "node 112 = (18, 0x3fffc)"
  "node 113 = (19, 0x7fff8)"
  "node 114 = (20, 0xffff0)"
  "node 115 = (20, 0xffff1)"
  "node 116 = (19, 0x7fff9)"
  "node 117 = (20, 0xffff2)"
  "node 118 = (20, 0xffff3)"
  "node 119 = (18, 0x3fffd)"
  "node 120 = (19, 0x7fffa)"
  "node 121 = (20, 0xffff4)"
  "node 122 = (21, 0x1fffe9)"
  "node 123 = (20, 0xffff5)"
  "node 124 = (21, 0x1fffea)"
  "node 125 = (21, 0x1fffeb)"
  "node 126 = (19, 0x7fffb)"
  "node 127 = (20, 0xffff6)"
  "node 128 = (21, 0x1fffec)"
  "node 129 = (21, 0x1fffed)"
  "node 130 = (20, 0xffff7)"
  "node 131 = (21, 0x1fffee)"
  "node 132 = (21, 0x1fffef)"
  "node 133 = (17, 0x1ffff)"
  "node 134 = (18, 0x3fffe)"
  "node 135 = (19, 0x7fffc)"
  "node 136 = (20, 0xffff8)"
  "node 137 = (21, 0x1ffff0)"
  "node 138 = (21, 0x1ffff1)"
  "node 139 = (20, 0xffff9)"
  "node 140 = (21, 0x1ffff2)"
  "node 141 = (21, 0x1ffff3)"
  "node 142 = (19, 0x7fffd)"
  "node 143 = (20, 0xffffa)"
  "node 144 = (21, 0x1ffff4)"
  "node 145 = (21, 0x1ffff5)"
  "node 146 = (20, 0xffffb)"
  "node 147 = (21, 0x1ffff6)"
  "node 148 = (22, 0x3fffec)"
  "node 149 = (22, 0x3fffed)"
  "node 150 = (21, 0x1ffff7)"
  "node 151 = (22, 0x3fffee)"
  "node 152 = (22, 0x3fffef)"
  "node 153 = (18, 0x3ffff)"
  "node 154 = (19, 0x7fffe)"
  "node 155 = (20, 0xffffc)"
  "node 156 = (21, 0x1ffff8)"
  "node 157 = (22, 0x3ffff0)"
  "node 158 = (22, 0x3ffff1)"
  "node 159 = (21, 0x1ffff9)"
  "node 160 = (22, 0x3ffff2)"
  "node 161 = (22, 0x3ffff3)"
  "node 162 = (20, 0xffffd)"
  "node 163 = (21, 0x1ffffa)"
  "node 164 = (22, 0x3ffff4)"
  "node 165 = (22, 0x3ffff5)"
  "node 166 = (21, 0x1ffffb)"
  "node 167 = (22, 0x3ffff6)"
  "node 168 = (22, 0x3ffff7)"
  "node 169 = (19, 0x7ffff)"
  "node 170 = (20, 0xffffe)"
  "node 171 = (21, 0x1ffffc)"
  "node 172 = (22, 0x3ffff8)"
  "node 173 = (22, 0x3ffff9)"
  "node 174 = (21, 0x1ffffd)"
  "node 175 = (22, 0x3ffffa)"
  "node 176 = (23, 0x7ffff5)"
  "node 177 = (22, 0x3ffffb)"
  "node 178 = (23, 0x7ffff6)"
  "node 179 = (23, 0x7ffff7)"
  "node 180 = (20, 0xfffff)"
  "node 181 = (21, 0x1ffffe)"
  "node 182 = (22, 0x3ffffc)"
  "node 183 = (23, 0x7ffff8)"
  "node 184 = (23, 0x7ffff9)"
  "node 185 = (22, 0x3ffffd)"
  "node 186 = (23, 0x7ffffa)"
  "node 187 = (23, 0x7ffffb)"
  "node 188 = (24, 0xfffff6)"
  "node 189 = (24, 0xfffff7)"
  "node 190 = (21, 0x1fffff)"
  "node 191 = (22, 0x3ffffe)"
  "node 192 = (23, 0x7ffffc)"
  "node 193 = (24, 0xfffff8)"
  "node 194 = (25, 0x1fffff0)"
  "node 195 = (25, 0x1fffff1)"
  "node 196 = (24, 0xfffff9)"
  "node 197 = (25, 0x1fffff2)"
  "node 198 = (25, 0x1fffff3)"
  "node 199 = (23, 0x7ffffd)"
  "node 200 = (24, 0xfffffa)"
  "node 201 = (25, 0x1fffff4)"
  "node 202 = (25, 0x1fffff5)"
  "node 203 = (24, 0xfffffb)"
  "node 204 = (25, 0x1fffff6)"
  "node 205 = (25, 0x1fffff7)"
  "node 206 = (26, 0x3ffffef)"
  "node 207 = (22, 0x3fffff)"
  "node 208 = (23, 0x7ffffe)"
  "node 209 = (24, 0xfffffc)"
  "node 210 = (25, 0x1fffff8)"
  "node 211 = (26, 0x3fffff0)"
  "node 212 = (26, 0x3fffff1)"
  "node 213 = (25, 0x1fffff9)"
  "node 214 = (26, 0x3fffff2)"
  "node 215 = (26, 0x3fffff3)"
  "node 216 = (24, 0xfffffd)"
  "node 217 = (25, 0x1fffffa)"
  "node 218 = (26, 0x3fffff4)"
  "node 219 = (26, 0x3fffff5)"
  "node 220 = (25, 0x1fffffb)"
  "node 221 = (26, 0x3fffff6)"
  "node 222 = (26, 0x3fffff7)"
  "node 223 = (23, 0x7fffff)"
  "node 224 = (24, 0xfffffe)"
  "node 225 = (25, 0x1fffffc)"
  "node 226 = (26, 0x3fffff8)"
  "node 227 = (27, 0x7fffff1)"
  "node 228 = (26, 0x3fffff9)"
  "node 229 = (27, 0x7fffff2)"
  "node 230 = (27, 0x7fffff3)"
  "node 231 = (25, 0x1fffffd)"
  "node 232 = (26, 0x3fffffa)"
  "node 233 = (27, 0x7fffff4)"
  "node 234 = (27, 0x7fffff5)"
  "node 235 = (26, 0x3fffffb)"
  "node 236 = (27, 0x7fffff6)"
  "node 237 = (27, 0x7fffff7)"
  "node 238 = (24, 0xffffff)"
  "node 239 = (25, 0x1fffffe)"
  "node 240 = (26, 0x3fffffc)"
  "node 241 = (27, 0x7fffff8)"
  "node 242 = (27, 0x7fffff9)"
  "node 243 = (26, 0x3fffffd)"
  "node 244 = (27, 0x7fffffa)"
  "node 245 = (27, 0x7fffffb)"
  "node 246 = (25, 0x1ffffff)"
  "node 247 = (26, 0x3fffffe)"
  "node 248 = (27, 0x7fffffc)"
  "node 249 = (27, 0x7fffffd)"
  "node 250 = (26, 0x3ffffff)"
  "node 251 = (27, 0x7fffffe)"
  "node 252 = (27, 0x7ffffff)"
  "node 253 = (28, 0xfffffff)"
  "node 254 = (29, 0x1ffffffe)"
  "node 255 = (29, 0x1fffffff)"
  by (simp_all add: node_def huff_nodes_defs)

lemma child_eqs:
  "child 0 False = Inner 1" "child 0 True = Inner 22"
  "child 1 False = Inner 2" "child 1 True = Inner 9"
  "child 2 False = Inner 3" "child 2 True = Inner 6"
  "child 3 False = Inner 4" "child 3 True = Inner 5"
  "child 4 False = Leaf 0x30" "child 4 True = Leaf 0x31"
  "child 5 False = Leaf 0x32" "child 5 True = Leaf 0x61"
  "child 6 False = Inner 7" "child 6 True = Inner 8"
  "child 7 False = Leaf 0x63" "child 7 True = Leaf 0x65"
  "child 8 False = Leaf 0x69" "child 8 True = Leaf 0x6f"
  "child 9 False = Inner 10" "child 9 True = Inner 15"
  "child 10 False = Inner 11" "child 10 True = Inner 12"
  "child 11 False = Leaf 0x73" "child 11 True = Leaf 0x74"
  "child 12 False = Inner 13" "child 12 True = Inner 14"
  "child 13 False = Leaf 0x20" "child 13 True = Leaf 0x25"
  "child 14 False = Leaf 0x2d" "child 14 True = Leaf 0x2e"
  "child 15 False = Inner 16" "child 15 True = Inner 19"
  "child 16 False = Inner 17" "child 16 True = Inner 18"
  "child 17 False = Leaf 0x2f" "child 17 True = Leaf 0x33"
  "child 18 False = Leaf 0x34" "child 18 True = Leaf 0x35"
  "child 19 False = Inner 20" "child 19 True = Inner 21"
  "child 20 False = Leaf 0x36" "child 20 True = Leaf 0x37"
  "child 21 False = Leaf 0x38" "child 21 True = Leaf 0x39"
  "child 22 False = Inner 23" "child 22 True = Inner 40"
  "child 23 False = Inner 24" "child 23 True = Inner 31"
  "child 24 False = Inner 25" "child 24 True = Inner 28"
  "child 25 False = Inner 26" "child 25 True = Inner 27"
  "child 26 False = Leaf 0x3d" "child 26 True = Leaf 0x41"
  "child 27 False = Leaf 0x5f" "child 27 True = Leaf 0x62"
  "child 28 False = Inner 29" "child 28 True = Inner 30"
  "child 29 False = Leaf 0x64" "child 29 True = Leaf 0x66"
  "child 30 False = Leaf 0x67" "child 30 True = Leaf 0x68"
  "child 31 False = Inner 32" "child 31 True = Inner 35"
  "child 32 False = Inner 33" "child 32 True = Inner 34"
  "child 33 False = Leaf 0x6c" "child 33 True = Leaf 0x6d"
  "child 34 False = Leaf 0x6e" "child 34 True = Leaf 0x70"
  "child 35 False = Inner 36" "child 35 True = Inner 37"
  "child 36 False = Leaf 0x72" "child 36 True = Leaf 0x75"
  "child 37 False = Inner 38" "child 37 True = Inner 39"
  "child 38 False = Leaf 0x3a" "child 38 True = Leaf 0x42"
  "child 39 False = Leaf 0x43" "child 39 True = Leaf 0x44"
  "child 40 False = Inner 41" "child 40 True = Inner 56"
  "child 41 False = Inner 42" "child 41 True = Inner 49"
  "child 42 False = Inner 43" "child 42 True = Inner 46"
  "child 43 False = Inner 44" "child 43 True = Inner 45"
  "child 44 False = Leaf 0x45" "child 44 True = Leaf 0x46"
  "child 45 False = Leaf 0x47" "child 45 True = Leaf 0x48"
  "child 46 False = Inner 47" "child 46 True = Inner 48"
  "child 47 False = Leaf 0x49" "child 47 True = Leaf 0x4a"
  "child 48 False = Leaf 0x4b" "child 48 True = Leaf 0x4c"
  "child 49 False = Inner 50" "child 49 True = Inner 53"
  "child 50 False = Inner 51" "child 50 True = Inner 52"
  "child 51 False = Leaf 0x4d" "child 51 True = Leaf 0x4e"
  "child 52 False = Leaf 0x4f" "child 52 True = Leaf 0x50"
  "child 53 False = Inner 54" "child 53 True = Inner 55"
  "child 54 False = Leaf 0x51" "child 54 True = Leaf 0x52"
  "child 55 False = Leaf 0x53" "child 55 True = Leaf 0x54"
  "child 56 False = Inner 57" "child 56 True = Inner 64"
  "child 57 False = Inner 58" "child 57 True = Inner 61"
  "child 58 False = Inner 59" "child 58 True = Inner 60"
  "child 59 False = Leaf 0x55" "child 59 True = Leaf 0x56"
  "child 60 False = Leaf 0x57" "child 60 True = Leaf 0x59"
  "child 61 False = Inner 62" "child 61 True = Inner 63"
  "child 62 False = Leaf 0x6a" "child 62 True = Leaf 0x6b"
  "child 63 False = Leaf 0x71" "child 63 True = Leaf 0x76"
  "child 64 False = Inner 65" "child 64 True = Inner 68"
  "child 65 False = Inner 66" "child 65 True = Inner 67"
  "child 66 False = Leaf 0x77" "child 66 True = Leaf 0x78"
  "child 67 False = Leaf 0x79" "child 67 True = Leaf 0x7a"
  "child 68 False = Inner 69" "child 68 True = Inner 72"
  "child 69 False = Inner 70" "child 69 True = Inner 71"
  "child 70 False = Leaf 0x26" "child 70 True = Leaf 0x2a"
  "child 71 False = Leaf 0x2c" "child 71 True = Leaf 0x3b"
  "child 72 False = Inner 73" "child 72 True = Inner 74"
  "child 73 False = Leaf 0x58" "child 73 True = Leaf 0x5a"
  "child 74 False = Inner 75" "child 74 True = Inner 78"
  "child 75 False = Inner 76" "child 75 True = Inner 77"
  "child 76 False = Leaf 0x21" "child 76 True = Leaf 0x22"
  "child 77 False = Leaf 0x28" "child 77 True = Leaf 0x29"
  "child 78 False = Inner 79" "child 78 True = Inner 81"
  "child 79 False = Leaf 0x3f" "child 79 True = Inner 80"
  "child 80 False = Leaf 0x27" "child 80 True = Leaf 0x2b"
  "child 81 False = Inner 82" "child 81 True = Inner 84"
  "child 82 False = Leaf 0x7c" "child 82 True = Inner 83"
  "child 83 False = Leaf 0x23" "child 83 True = Leaf 0x3e"
  "child 84 False = Inner 85" "child 84 True = Inner 88"
  "child 85 False = Inner 86" "child 85 True = Inner 87"
  "child 86 False = Leaf 0x00" "child 86 True = Leaf 0x24"
  "child 87 False = Leaf 0x40" "child 87 True = Leaf 0x5b"
  "child 88 False = Inner 89" "child 88 True = Inner 90"
  "child 89 False = Leaf 0x5d" "child 89 True = Leaf 0x7e"
  "child 90 False = Inner 91" "child 90 True = Inner 92"
  "child 91 False = Leaf 0x5e" "child 91 True = Leaf 0x7d"
  "child 92 False = Inner 93" "child 92 True = Inner 94"
  "child 93 False = Leaf 0x3c" "child 93 True = Leaf 0x60"
  "child 94 False = Leaf 0x7b" "child 94 True = Inner 95"
  "child 95 False = Inner 96" "child 95 True = Inner 110"
  "child 96 False = Inner 97" "child 96 True = Inner 101"
  "child 97 False = Inner 98" "child 97 True = Inner 99"
  "child 98 False = Leaf 0x5c" "child 98 True = Leaf 0xc3"
  "child 99 False = Leaf 0xd0" "child 99 True = Inner 100"
  "child 100 False = Leaf 0x80" "child 100 True = Leaf 0x82"
  "child 101 False = Inner 102" "child 101 True = Inner 105"
  "child 102 False = Inner 103" "child 102 True = Inner 104"
  "child 103 False = Leaf 0x83" "child 103 True = Leaf 0xa2"
  "child 104 False = Leaf 0xb8" "child 104 True = Leaf 0xc2"
  "child 105 False = Inner 106" "child 105 True = Inner 107"
  "child 106 False = Leaf 0xe0" "child 106 True = Leaf 0xe2"
  "child 107 False = Inner 108" "child 107 True = Inner 109"
  "child 108 False = Leaf 0x99" "child 108 True = Leaf 0xa1"
  "child 109 False = Leaf 0xa7" "child 109 True = Leaf 0xac"
  "child 110 False = Inner 111" "child 110 True = Inner 133"
  "child 111 False = Inner 112" "child 111 True = Inner 119"
  "child 112 False = Inner 113" "child 112 True = Inner 116"
  "child 113 False = Inner 114" "child 113 True = Inner 115"
  "child 114 False = Leaf 0xb0" "child 114 True = Leaf 0xb1"
  "child 115 False = Leaf 0xb3" "child 115 True = Leaf 0xd1"
  "child 116 False = Inner 117" "child 116 True = Inner 118"
  "child 117 False = Leaf 0xd8" "child 117 True = Leaf 0xd9"
  "child 118 False = Leaf 0xe3" "child 118 True = Leaf 0xe5"
  "child 119 False = Inner 120" "child 119 True = Inner 126"
  "child 120 False = Inner 121" "child 120 True = Inner 123"
  "child 121 False = Leaf 0xe6" "child 121 True = Inner 122"
  "child 122 False = Leaf 0x81" "child 122 True = Leaf 0x84"
  "child 123 False = Inner 124" "child 123 True = Inner 125"
  "child 124 False = Leaf 0x85" "child 124 True = Leaf 0x86"
  "child 125 False = Leaf 0x88" "child 125 True = Leaf 0x92"
  "child 126 False = Inner 127" "child 126 True = Inner 130"
  "child 127 False = Inner 128" "child 127 True = Inner 129"
  "child 128 False = Leaf 0x9a" "child 128 True = Leaf 0x9c"
  "child 129 False = Leaf 0xa0" "child 129 True = Leaf 0xa3"
  "child 130 False = Inner 131" "child 130 True = Inner 132"
  "child 131 False = Leaf 0xa4" "child 131 True = Leaf 0xa9"
  "child 132 False = Leaf 0xaa" "child 132 True = Leaf 0xad"
  "child 133 False = Inner 134" "child 133 True = Inner 153"
  "child 134 False = Inner 135" "child 134 True = Inner 142"
  "child 135 False = Inner 136" "child 135 True = Inner 139"
  "child 136 False = Inner 137" "child 136 True = Inner 138"
  "child 137 False = Leaf 0xb2" "child 137 True = Leaf 0xb5"
  "child 138 False = Leaf 0xb9" "child 138 True = Leaf 0xba"
  "child 139 False = Inner 140" "child 139 True = Inner 141"
  "child 140 False = Leaf 0xbb" "child 140 True = Leaf 0xbd"
  "child 141 False = Leaf 0xbe" "child 141 True = Leaf 0xc4"
  "child 142 False = Inner 143" "child 142 True = Inner 146"
  "child 143 False = Inner 144" "child 143 True = Inner 145"
  "child 144 False = Leaf 0xc6" "child 144 True = Leaf 0xe4"
  "child 145 False = Leaf 0xe8" "child 145 True = Leaf 0xe9"
  "child 146 False = Inner 147" "child 146 True = Inner 150"
  "child 147 False = Inner 148" "child 147 True = Inner 149"
  "child 148 False = Leaf 0x01" "child 148 True = Leaf 0x87"
  "child 149 False = Leaf 0x89" "child 149 True = Leaf 0x8a"
  "child 150 False = Inner 151" "child 150 True = Inner 152"
  "child 151 False = Leaf 0x8b" "child 151 True = Leaf 0x8c"
  "child 152 False = Leaf 0x8d" "child 152 True = Leaf 0x8f"
  "child 153 False = Inner 154" "child 153 True = Inner 169"
  "child 154 False = Inner 155" "child 154 True = Inner 162"
  "child 155 False = Inner 156" "child 155 True = Inner 159"
  "child 156 False = Inner 157" "child 156 True = Inner 158"
  "child 157 False = Leaf 0x93" "child 157 True = Leaf 0x95"
  "child 158 False = Leaf 0x96" "child 158 True = Leaf 0x97"
  "child 159 False = Inner 160" "child 159 True = Inner 161"
  "child 160 False = Leaf 0x98" "child 160 True = Leaf 0x9b"
  "child 161 False = Leaf 0x9d" "child 161 True = Leaf 0x9e"
  "child 162 False = Inner 163" "child 162 True = Inner 166"
  "child 163 False = Inner 164" "child 163 True = Inner 165"
  "child 164 False = Leaf 0xa5" "child 164 True = Leaf 0xa6"
  "child 165 False = Leaf 0xa8" "child 165 True = Leaf 0xae"
  "child 166 False = Inner 167" "child 166 True = Inner 168"
  "child 167 False = Leaf 0xaf" "child 167 True = Leaf 0xb4"
  "child 168 False = Leaf 0xb6" "child 168 True = Leaf 0xb7"
  "child 169 False = Inner 170" "child 169 True = Inner 180"
  "child 170 False = Inner 171" "child 170 True = Inner 174"
  "child 171 False = Inner 172" "child 171 True = Inner 173"
  "child 172 False = Leaf 0xbc" "child 172 True = Leaf 0xbf"
  "child 173 False = Leaf 0xc5" "child 173 True = Leaf 0xe7"
  "child 174 False = Inner 175" "child 174 True = Inner 177"
  "child 175 False = Leaf 0xef" "child 175 True = Inner 176"
  "child 176 False = Leaf 0x09" "child 176 True = Leaf 0x8e"
  "child 177 False = Inner 178" "child 177 True = Inner 179"
  "child 178 False = Leaf 0x90" "child 178 True = Leaf 0x91"
  "child 179 False = Leaf 0x94" "child 179 True = Leaf 0x9f"
  "child 180 False = Inner 181" "child 180 True = Inner 190"
  "child 181 False = Inner 182" "child 181 True = Inner 185"
  "child 182 False = Inner 183" "child 182 True = Inner 184"
  "child 183 False = Leaf 0xab" "child 183 True = Leaf 0xce"
  "child 184 False = Leaf 0xd7" "child 184 True = Leaf 0xe1"
  "child 185 False = Inner 186" "child 185 True = Inner 187"
  "child 186 False = Leaf 0xec" "child 186 True = Leaf 0xed"
  "child 187 False = Inner 188" "child 187 True = Inner 189"
  "child 188 False = Leaf 0xc7" "child 188 True = Leaf 0xcf"
  "child 189 False = Leaf 0xea" "child 189 True = Leaf 0xeb"
  "child 190 False = Inner 191" "child 190 True = Inner 207"
  "child 191 False = Inner 192" "child 191 True = Inner 199"
  "child 192 False = Inner 193" "child 192 True = Inner 196"
  "child 193 False = Inner 194" "child 193 True = Inner 195"
  "child 194 False = Leaf 0xc0" "child 194 True = Leaf 0xc1"
  "child 195 False = Leaf 0xc8" "child 195 True = Leaf 0xc9"
  "child 196 False = Inner 197" "child 196 True = Inner 198"
  "child 197 False = Leaf 0xca" "child 197 True = Leaf 0xcd"
  "child 198 False = Leaf 0xd2" "child 198 True = Leaf 0xd5"
  "child 199 False = Inner 200" "child 199 True = Inner 203"
  "child 200 False = Inner 201" "child 200 True = Inner 202"
  "child 201 False = Leaf 0xda" "child 201 True = Leaf 0xdb"
  "child 202 False = Leaf 0xee" "child 202 True = Leaf 0xf0"
  "child 203 False = Inner 204" "child 203 True = Inner 205"
  "child 204 False = Leaf 0xf2" "child 204 True = Leaf 0xf3"
  "child 205 False = Leaf 0xff" "child 205 True = Inner 206"
  "child 206 False = Leaf 0xcb" "child 206 True = Leaf 0xcc"
  "child 207 False = Inner 208" "child 207 True = Inner 223"
  "child 208 False = Inner 209" "child 208 True = Inner 216"
  "child 209 False = Inner 210" "child 209 True = Inner 213"
  "child 210 False = Inner 211" "child 210 True = Inner 212"
  "child 211 False = Leaf 0xd3" "child 211 True = Leaf 0xd4"
  "child 212 False = Leaf 0xd6" "child 212 True = Leaf 0xdd"
  "child 213 False = Inner 214" "child 213 True = Inner 215"
  "child 214 False = Leaf 0xde" "child 214 True = Leaf 0xdf"
  "child 215 False = Leaf 0xf1" "child 215 True = Leaf 0xf4"
  "child 216 False = Inner 217" "child 216 True = Inner 220"
  "child 217 False = Inner 218" "child 217 True = Inner 219"
  "child 218 False = Leaf 0xf5" "child 218 True = Leaf 0xf6"
  "child 219 False = Leaf 0xf7" "child 219 True = Leaf 0xf8"
  "child 220 False = Inner 221" "child 220 True = Inner 222"
  "child 221 False = Leaf 0xfa" "child 221 True = Leaf 0xfb"
  "child 222 False = Leaf 0xfc" "child 222 True = Leaf 0xfd"
  "child 223 False = Inner 224" "child 223 True = Inner 238"
  "child 224 False = Inner 225" "child 224 True = Inner 231"
  "child 225 False = Inner 226" "child 225 True = Inner 228"
  "child 226 False = Leaf 0xfe" "child 226 True = Inner 227"
  "child 227 False = Leaf 0x02" "child 227 True = Leaf 0x03"
  "child 228 False = Inner 229" "child 228 True = Inner 230"
  "child 229 False = Leaf 0x04" "child 229 True = Leaf 0x05"
  "child 230 False = Leaf 0x06" "child 230 True = Leaf 0x07"
  "child 231 False = Inner 232" "child 231 True = Inner 235"
  "child 232 False = Inner 233" "child 232 True = Inner 234"
  "child 233 False = Leaf 0x08" "child 233 True = Leaf 0x0b"
  "child 234 False = Leaf 0x0c" "child 234 True = Leaf 0x0e"
  "child 235 False = Inner 236" "child 235 True = Inner 237"
  "child 236 False = Leaf 0x0f" "child 236 True = Leaf 0x10"
  "child 237 False = Leaf 0x11" "child 237 True = Leaf 0x12"
  "child 238 False = Inner 239" "child 238 True = Inner 246"
  "child 239 False = Inner 240" "child 239 True = Inner 243"
  "child 240 False = Inner 241" "child 240 True = Inner 242"
  "child 241 False = Leaf 0x13" "child 241 True = Leaf 0x14"
  "child 242 False = Leaf 0x15" "child 242 True = Leaf 0x17"
  "child 243 False = Inner 244" "child 243 True = Inner 245"
  "child 244 False = Leaf 0x18" "child 244 True = Leaf 0x19"
  "child 245 False = Leaf 0x1a" "child 245 True = Leaf 0x1b"
  "child 246 False = Inner 247" "child 246 True = Inner 250"
  "child 247 False = Inner 248" "child 247 True = Inner 249"
  "child 248 False = Leaf 0x1c" "child 248 True = Leaf 0x1d"
  "child 249 False = Leaf 0x1e" "child 249 True = Leaf 0x1f"
  "child 250 False = Inner 251" "child 250 True = Inner 252"
  "child 251 False = Leaf 0x7f" "child 251 True = Leaf 0xdc"
  "child 252 False = Leaf 0xf9" "child 252 True = Inner 253"
  "child 253 False = Inner 254" "child 253 True = Inner 255"
  "child 254 False = Leaf 0x0a" "child 254 True = Leaf 0x0d"
  "child 255 False = Leaf 0x16" "child 255 True = Eos"
  by (simp_all add: child_def huff_children_defs)

lemma code_num_eqs:
  "code_num 0 = (13, 0x1ff8)"
  "code_num 1 = (23, 0x7fffd8)"
  "code_num 2 = (28, 0xfffffe2)"
  "code_num 3 = (28, 0xfffffe3)"
  "code_num 4 = (28, 0xfffffe4)"
  "code_num 5 = (28, 0xfffffe5)"
  "code_num 6 = (28, 0xfffffe6)"
  "code_num 7 = (28, 0xfffffe7)"
  "code_num 8 = (28, 0xfffffe8)"
  "code_num 9 = (24, 0xffffea)"
  "code_num 10 = (30, 0x3ffffffc)"
  "code_num 11 = (28, 0xfffffe9)"
  "code_num 12 = (28, 0xfffffea)"
  "code_num 13 = (30, 0x3ffffffd)"
  "code_num 14 = (28, 0xfffffeb)"
  "code_num 15 = (28, 0xfffffec)"
  "code_num 16 = (28, 0xfffffed)"
  "code_num 17 = (28, 0xfffffee)"
  "code_num 18 = (28, 0xfffffef)"
  "code_num 19 = (28, 0xffffff0)"
  "code_num 20 = (28, 0xffffff1)"
  "code_num 21 = (28, 0xffffff2)"
  "code_num 22 = (30, 0x3ffffffe)"
  "code_num 23 = (28, 0xffffff3)"
  "code_num 24 = (28, 0xffffff4)"
  "code_num 25 = (28, 0xffffff5)"
  "code_num 26 = (28, 0xffffff6)"
  "code_num 27 = (28, 0xffffff7)"
  "code_num 28 = (28, 0xffffff8)"
  "code_num 29 = (28, 0xffffff9)"
  "code_num 30 = (28, 0xffffffa)"
  "code_num 31 = (28, 0xffffffb)"
  "code_num 32 = (6, 0x14)"
  "code_num 33 = (10, 0x3f8)"
  "code_num 34 = (10, 0x3f9)"
  "code_num 35 = (12, 0xffa)"
  "code_num 36 = (13, 0x1ff9)"
  "code_num 37 = (6, 0x15)"
  "code_num 38 = (8, 0xf8)"
  "code_num 39 = (11, 0x7fa)"
  "code_num 40 = (10, 0x3fa)"
  "code_num 41 = (10, 0x3fb)"
  "code_num 42 = (8, 0xf9)"
  "code_num 43 = (11, 0x7fb)"
  "code_num 44 = (8, 0xfa)"
  "code_num 45 = (6, 0x16)"
  "code_num 46 = (6, 0x17)"
  "code_num 47 = (6, 0x18)"
  "code_num 48 = (5, 0)"
  "code_num 49 = (5, 1)"
  "code_num 50 = (5, 2)"
  "code_num 51 = (6, 0x19)"
  "code_num 52 = (6, 0x1a)"
  "code_num 53 = (6, 0x1b)"
  "code_num 54 = (6, 0x1c)"
  "code_num 55 = (6, 0x1d)"
  "code_num 56 = (6, 0x1e)"
  "code_num 57 = (6, 0x1f)"
  "code_num 58 = (7, 0x5c)"
  "code_num 59 = (8, 0xfb)"
  "code_num 60 = (15, 0x7ffc)"
  "code_num 61 = (6, 0x20)"
  "code_num 62 = (12, 0xffb)"
  "code_num 63 = (10, 0x3fc)"
  "code_num 64 = (13, 0x1ffa)"
  "code_num 65 = (6, 0x21)"
  "code_num 66 = (7, 0x5d)"
  "code_num 67 = (7, 0x5e)"
  "code_num 68 = (7, 0x5f)"
  "code_num 69 = (7, 0x60)"
  "code_num 70 = (7, 0x61)"
  "code_num 71 = (7, 0x62)"
  "code_num 72 = (7, 0x63)"
  "code_num 73 = (7, 0x64)"
  "code_num 74 = (7, 0x65)"
  "code_num 75 = (7, 0x66)"
  "code_num 76 = (7, 0x67)"
  "code_num 77 = (7, 0x68)"
  "code_num 78 = (7, 0x69)"
  "code_num 79 = (7, 0x6a)"
  "code_num 80 = (7, 0x6b)"
  "code_num 81 = (7, 0x6c)"
  "code_num 82 = (7, 0x6d)"
  "code_num 83 = (7, 0x6e)"
  "code_num 84 = (7, 0x6f)"
  "code_num 85 = (7, 0x70)"
  "code_num 86 = (7, 0x71)"
  "code_num 87 = (7, 0x72)"
  "code_num 88 = (8, 0xfc)"
  "code_num 89 = (7, 0x73)"
  "code_num 90 = (8, 0xfd)"
  "code_num 91 = (13, 0x1ffb)"
  "code_num 92 = (19, 0x7fff0)"
  "code_num 93 = (13, 0x1ffc)"
  "code_num 94 = (14, 0x3ffc)"
  "code_num 95 = (6, 0x22)"
  "code_num 96 = (15, 0x7ffd)"
  "code_num 97 = (5, 3)"
  "code_num 98 = (6, 0x23)"
  "code_num 99 = (5, 4)"
  "code_num 100 = (6, 0x24)"
  "code_num 101 = (5, 5)"
  "code_num 102 = (6, 0x25)"
  "code_num 103 = (6, 0x26)"
  "code_num 104 = (6, 0x27)"
  "code_num 105 = (5, 6)"
  "code_num 106 = (7, 0x74)"
  "code_num 107 = (7, 0x75)"
  "code_num 108 = (6, 0x28)"
  "code_num 109 = (6, 0x29)"
  "code_num 110 = (6, 0x2a)"
  "code_num 111 = (5, 7)"
  "code_num 112 = (6, 0x2b)"
  "code_num 113 = (7, 0x76)"
  "code_num 114 = (6, 0x2c)"
  "code_num 115 = (5, 8)"
  "code_num 116 = (5, 9)"
  "code_num 117 = (6, 0x2d)"
  "code_num 118 = (7, 0x77)"
  "code_num 119 = (7, 0x78)"
  "code_num 120 = (7, 0x79)"
  "code_num 121 = (7, 0x7a)"
  "code_num 122 = (7, 0x7b)"
  "code_num 123 = (15, 0x7ffe)"
  "code_num 124 = (11, 0x7fc)"
  "code_num 125 = (14, 0x3ffd)"
  "code_num 126 = (13, 0x1ffd)"
  "code_num 127 = (28, 0xffffffc)"
  "code_num 128 = (20, 0xfffe6)"
  "code_num 129 = (22, 0x3fffd2)"
  "code_num 130 = (20, 0xfffe7)"
  "code_num 131 = (20, 0xfffe8)"
  "code_num 132 = (22, 0x3fffd3)"
  "code_num 133 = (22, 0x3fffd4)"
  "code_num 134 = (22, 0x3fffd5)"
  "code_num 135 = (23, 0x7fffd9)"
  "code_num 136 = (22, 0x3fffd6)"
  "code_num 137 = (23, 0x7fffda)"
  "code_num 138 = (23, 0x7fffdb)"
  "code_num 139 = (23, 0x7fffdc)"
  "code_num 140 = (23, 0x7fffdd)"
  "code_num 141 = (23, 0x7fffde)"
  "code_num 142 = (24, 0xffffeb)"
  "code_num 143 = (23, 0x7fffdf)"
  "code_num 144 = (24, 0xffffec)"
  "code_num 145 = (24, 0xffffed)"
  "code_num 146 = (22, 0x3fffd7)"
  "code_num 147 = (23, 0x7fffe0)"
  "code_num 148 = (24, 0xffffee)"
  "code_num 149 = (23, 0x7fffe1)"
  "code_num 150 = (23, 0x7fffe2)"
  "code_num 151 = (23, 0x7fffe3)"
  "code_num 152 = (23, 0x7fffe4)"
  "code_num 153 = (21, 0x1fffdc)"
  "code_num 154 = (22, 0x3fffd8)"
  "code_num 155 = (23, 0x7fffe5)"
  "code_num 156 = (22, 0x3fffd9)"
  "code_num 157 = (23, 0x7fffe6)"
  "code_num 158 = (23, 0x7fffe7)"
  "code_num 159 = (24, 0xffffef)"
  "code_num 160 = (22, 0x3fffda)"
  "code_num 161 = (21, 0x1fffdd)"
  "code_num 162 = (20, 0xfffe9)"
  "code_num 163 = (22, 0x3fffdb)"
  "code_num 164 = (22, 0x3fffdc)"
  "code_num 165 = (23, 0x7fffe8)"
  "code_num 166 = (23, 0x7fffe9)"
  "code_num 167 = (21, 0x1fffde)"
  "code_num 168 = (23, 0x7fffea)"
  "code_num 169 = (22, 0x3fffdd)"
  "code_num 170 = (22, 0x3fffde)"
  "code_num 171 = (24, 0xfffff0)"
  "code_num 172 = (21, 0x1fffdf)"
  "code_num 173 = (22, 0x3fffdf)"
  "code_num 174 = (23, 0x7fffeb)"
  "code_num 175 = (23, 0x7fffec)"
  "code_num 176 = (21, 0x1fffe0)"
  "code_num 177 = (21, 0x1fffe1)"
  "code_num 178 = (22, 0x3fffe0)"
  "code_num 179 = (21, 0x1fffe2)"
  "code_num 180 = (23, 0x7fffed)"
  "code_num 181 = (22, 0x3fffe1)"
  "code_num 182 = (23, 0x7fffee)"
  "code_num 183 = (23, 0x7fffef)"
  "code_num 184 = (20, 0xfffea)"
  "code_num 185 = (22, 0x3fffe2)"
  "code_num 186 = (22, 0x3fffe3)"
  "code_num 187 = (22, 0x3fffe4)"
  "code_num 188 = (23, 0x7ffff0)"
  "code_num 189 = (22, 0x3fffe5)"
  "code_num 190 = (22, 0x3fffe6)"
  "code_num 191 = (23, 0x7ffff1)"
  "code_num 192 = (26, 0x3ffffe0)"
  "code_num 193 = (26, 0x3ffffe1)"
  "code_num 194 = (20, 0xfffeb)"
  "code_num 195 = (19, 0x7fff1)"
  "code_num 196 = (22, 0x3fffe7)"
  "code_num 197 = (23, 0x7ffff2)"
  "code_num 198 = (22, 0x3fffe8)"
  "code_num 199 = (25, 0x1ffffec)"
  "code_num 200 = (26, 0x3ffffe2)"
  "code_num 201 = (26, 0x3ffffe3)"
  "code_num 202 = (26, 0x3ffffe4)"
  "code_num 203 = (27, 0x7ffffde)"
  "code_num 204 = (27, 0x7ffffdf)"
  "code_num 205 = (26, 0x3ffffe5)"
  "code_num 206 = (24, 0xfffff1)"
  "code_num 207 = (25, 0x1ffffed)"
  "code_num 208 = (19, 0x7fff2)"
  "code_num 209 = (21, 0x1fffe3)"
  "code_num 210 = (26, 0x3ffffe6)"
  "code_num 211 = (27, 0x7ffffe0)"
  "code_num 212 = (27, 0x7ffffe1)"
  "code_num 213 = (26, 0x3ffffe7)"
  "code_num 214 = (27, 0x7ffffe2)"
  "code_num 215 = (24, 0xfffff2)"
  "code_num 216 = (21, 0x1fffe4)"
  "code_num 217 = (21, 0x1fffe5)"
  "code_num 218 = (26, 0x3ffffe8)"
  "code_num 219 = (26, 0x3ffffe9)"
  "code_num 220 = (28, 0xffffffd)"
  "code_num 221 = (27, 0x7ffffe3)"
  "code_num 222 = (27, 0x7ffffe4)"
  "code_num 223 = (27, 0x7ffffe5)"
  "code_num 224 = (20, 0xfffec)"
  "code_num 225 = (24, 0xfffff3)"
  "code_num 226 = (20, 0xfffed)"
  "code_num 227 = (21, 0x1fffe6)"
  "code_num 228 = (22, 0x3fffe9)"
  "code_num 229 = (21, 0x1fffe7)"
  "code_num 230 = (21, 0x1fffe8)"
  "code_num 231 = (23, 0x7ffff3)"
  "code_num 232 = (22, 0x3fffea)"
  "code_num 233 = (22, 0x3fffeb)"
  "code_num 234 = (25, 0x1ffffee)"
  "code_num 235 = (25, 0x1ffffef)"
  "code_num 236 = (24, 0xfffff4)"
  "code_num 237 = (24, 0xfffff5)"
  "code_num 238 = (26, 0x3ffffea)"
  "code_num 239 = (23, 0x7ffff4)"
  "code_num 240 = (26, 0x3ffffeb)"
  "code_num 241 = (27, 0x7ffffe6)"
  "code_num 242 = (26, 0x3ffffec)"
  "code_num 243 = (26, 0x3ffffed)"
  "code_num 244 = (27, 0x7ffffe7)"
  "code_num 245 = (27, 0x7ffffe8)"
  "code_num 246 = (27, 0x7ffffe9)"
  "code_num 247 = (27, 0x7ffffea)"
  "code_num 248 = (27, 0x7ffffeb)"
  "code_num 249 = (28, 0xffffffe)"
  "code_num 250 = (27, 0x7ffffec)"
  "code_num 251 = (27, 0x7ffffed)"
  "code_num 252 = (27, 0x7ffffee)"
  "code_num 253 = (27, 0x7ffffef)"
  "code_num 254 = (27, 0x7fffff0)"
  "code_num 255 = (26, 0x3ffffee)"
  by (simp_all add: code_num_def huff_encode_defs)

section \<open>Checking the tables\<close>

lemma take_bit_num_1: "take_bit_num 1 num.One = Some num.One"
  by simp

lemma codes_ok_blocks:
  "codes_ok 0 huff_encode_table_00"
  "codes_ok 16 huff_encode_table_01"
  "codes_ok 32 huff_encode_table_02"
  "codes_ok 48 huff_encode_table_03"
  "codes_ok 64 huff_encode_table_04"
  "codes_ok 80 huff_encode_table_05"
  "codes_ok 96 huff_encode_table_06"
  "codes_ok 112 huff_encode_table_07"
  "codes_ok 128 huff_encode_table_08"
  "codes_ok 144 huff_encode_table_09"
  "codes_ok 160 huff_encode_table_10"
  "codes_ok 176 huff_encode_table_11"
  "codes_ok 192 huff_encode_table_12"
  "codes_ok 208 huff_encode_table_13"
  "codes_ok 224 huff_encode_table_14"
  "codes_ok 240 huff_encode_table_15"
  by (simp_all add: child_eqs nbits_acc_num take_bit_num_1 huff_encode_table_block_defs
      del: One_nat_def)

lemma nodes_ok_blocks:
  "nodes_ok 0 huff_nodes_00"
  "nodes_ok 16 huff_nodes_01"
  "nodes_ok 32 huff_nodes_02"
  "nodes_ok 48 huff_nodes_03"
  "nodes_ok 64 huff_nodes_04"
  "nodes_ok 80 huff_nodes_05"
  "nodes_ok 96 huff_nodes_06"
  "nodes_ok 112 huff_nodes_07"
  "nodes_ok 128 huff_nodes_08"
  "nodes_ok 144 huff_nodes_09"
  "nodes_ok 160 huff_nodes_10"
  "nodes_ok 176 huff_nodes_11"
  "nodes_ok 192 huff_nodes_12"
  "nodes_ok 208 huff_nodes_13"
  "nodes_ok 224 huff_nodes_14"
  "nodes_ok 240 huff_nodes_15"
  by (simp_all add: child_eqs nbits_acc_num huff_nodes_defs del: One_nat_def)

lemmas row_check = entry_ok_def node_eqs code_num_eqs take_bit_num_1

lemma rows_ok_00: "rows_ok 0 huff_decode_codes_00"
  by (simp add: row_check huff_decode_codes_00_def del: One_nat_def)

lemma rows_ok_01: "rows_ok 8 huff_decode_codes_01"
  by (simp add: row_check huff_decode_codes_01_def del: One_nat_def)

lemma rows_ok_02: "rows_ok 16 huff_decode_codes_02"
  by (simp add: row_check huff_decode_codes_02_def del: One_nat_def)

lemma rows_ok_03: "rows_ok 24 huff_decode_codes_03"
  by (simp add: row_check huff_decode_codes_03_def del: One_nat_def)

lemma rows_ok_04: "rows_ok 32 huff_decode_codes_04"
  by (simp add: row_check huff_decode_codes_04_def del: One_nat_def)

lemma rows_ok_05: "rows_ok 40 huff_decode_codes_05"
  by (simp add: row_check huff_decode_codes_05_def del: One_nat_def)

lemma rows_ok_06: "rows_ok 48 huff_decode_codes_06"
  by (simp add: row_check huff_decode_codes_06_def del: One_nat_def)

lemma rows_ok_07: "rows_ok 56 huff_decode_codes_07"
  by (simp add: row_check huff_decode_codes_07_def del: One_nat_def)

lemma rows_ok_08: "rows_ok 64 huff_decode_codes_08"
  by (simp add: row_check huff_decode_codes_08_def del: One_nat_def)

lemma rows_ok_09: "rows_ok 72 huff_decode_codes_09"
  by (simp add: row_check huff_decode_codes_09_def del: One_nat_def)

lemma rows_ok_10: "rows_ok 80 huff_decode_codes_10"
  by (simp add: row_check huff_decode_codes_10_def del: One_nat_def)

lemma rows_ok_11: "rows_ok 88 huff_decode_codes_11"
  by (simp add: row_check huff_decode_codes_11_def del: One_nat_def)

lemma rows_ok_12: "rows_ok 96 huff_decode_codes_12"
  by (simp add: row_check huff_decode_codes_12_def del: One_nat_def)

lemma rows_ok_13: "rows_ok 104 huff_decode_codes_13"
  by (simp add: row_check huff_decode_codes_13_def del: One_nat_def)

lemma rows_ok_14: "rows_ok 112 huff_decode_codes_14"
  by (simp add: row_check huff_decode_codes_14_def del: One_nat_def)

lemma rows_ok_15: "rows_ok 120 huff_decode_codes_15"
  by (simp add: row_check huff_decode_codes_15_def del: One_nat_def)

lemma rows_ok_16: "rows_ok 128 huff_decode_codes_16"
  by (simp add: row_check huff_decode_codes_16_def del: One_nat_def)

lemma rows_ok_17: "rows_ok 136 huff_decode_codes_17"
  by (simp add: row_check huff_decode_codes_17_def del: One_nat_def)

lemma rows_ok_18: "rows_ok 144 huff_decode_codes_18"
  by (simp add: row_check huff_decode_codes_18_def del: One_nat_def)

lemma rows_ok_19: "rows_ok 152 huff_decode_codes_19"
  by (simp add: row_check huff_decode_codes_19_def del: One_nat_def)

lemma rows_ok_20: "rows_ok 160 huff_decode_codes_20"
  by (simp add: row_check huff_decode_codes_20_def del: One_nat_def)

lemma rows_ok_21: "rows_ok 168 huff_decode_codes_21"
  by (simp add: row_check huff_decode_codes_21_def del: One_nat_def)

lemma rows_ok_22: "rows_ok 176 huff_decode_codes_22"
  by (simp add: row_check huff_decode_codes_22_def del: One_nat_def)

lemma rows_ok_23: "rows_ok 184 huff_decode_codes_23"
  by (simp add: row_check huff_decode_codes_23_def del: One_nat_def)

lemma rows_ok_24: "rows_ok 192 huff_decode_codes_24"
  by (simp add: row_check huff_decode_codes_24_def del: One_nat_def)

lemma rows_ok_25: "rows_ok 200 huff_decode_codes_25"
  by (simp add: row_check huff_decode_codes_25_def del: One_nat_def)

lemma rows_ok_26: "rows_ok 208 huff_decode_codes_26"
  by (simp add: row_check huff_decode_codes_26_def del: One_nat_def)

lemma rows_ok_27: "rows_ok 216 huff_decode_codes_27"
  by (simp add: row_check huff_decode_codes_27_def del: One_nat_def)

lemma rows_ok_28: "rows_ok 224 huff_decode_codes_28"
  by (simp add: row_check huff_decode_codes_28_def del: One_nat_def)

lemma rows_ok_29: "rows_ok 232 huff_decode_codes_29"
  by (simp add: row_check huff_decode_codes_29_def del: One_nat_def)

lemma rows_ok_30: "rows_ok 240 huff_decode_codes_30"
  by (simp add: row_check huff_decode_codes_30_def del: One_nat_def)

lemma rows_ok_31: "rows_ok 248 huff_decode_codes_31"
  by (simp add: row_check huff_decode_codes_31_def del: One_nat_def)

section \<open>From the checked blocks to every index\<close>

lemma codes_ok_nth:
  assumes "codes_ok i cs" "j < length cs" "cs ! j = HECode c l"
  shows "trie_walk (Inner 0) (nbits (unat l) (unat c)) = Some (Leaf (word_of_nat (i + j)))"
    "unat c < 2 ^ unat l" "5 \<le> unat l" "unat l \<le> 30" "unat c \<noteq> 2 ^ unat l - 1"
proof -
  have "trie_walk (Inner 0) (nbits (unat l) (unat c)) = Some (Leaf (word_of_nat (i + j))) \<and>
    unat c < 2 ^ unat l \<and> 5 \<le> unat l \<and> unat l \<le> 30 \<and> unat c \<noteq> 2 ^ unat l - 1"
    using assms
  proof (induction cs arbitrary: i j)
    case (Cons d ds)
    obtain c' l' where d: "d = HECode c' l'" by (cases d)
    show ?case
    proof (cases j)
      case 0
      with Cons.prems d show ?thesis by (simp add: nbits_acc)
    next
      case (Suc k)
      with Cons.prems d have "codes_ok (i + 1) ds" "k < length ds" "ds ! k = HECode c l" by auto
      from Cons.IH [OF this] Suc show ?thesis by (simp add: add.commute)
    qed
  qed simp
  then show "trie_walk (Inner 0) (nbits (unat l) (unat c)) = Some (Leaf (word_of_nat (i + j)))"
    "unat c < 2 ^ unat l" "5 \<le> unat l" "unat l \<le> 30" "unat c \<noteq> 2 ^ unat l - 1" by auto
qed

lemma nodes_ok_nth:
  "nodes_ok i ns \<Longrightarrow> j < length ns \<Longrightarrow> ns ! j = (l, v) \<Longrightarrow>
   trie_walk (Inner 0) (nbits l v) = Some (Inner (i + j)) \<and> v < 2 ^ l \<and> l < 30"
proof (induction ns arbitrary: i j)
  case (Cons d ds)
  obtain l' v' where d: "d = (l', v')" by (cases d)
  show ?case
  proof (cases j)
    case 0
    with Cons.prems d show ?thesis by (simp add: nbits_acc)
  next
    case (Suc k)
    with Cons.prems d have "nodes_ok (i + 1) ds" "k < length ds" "ds ! k = (l, v)" by auto
    from Cons.IH [OF this] Suc show ?thesis by (simp add: add.commute)
  qed
qed simp

lemma row_ok_nth: "row_ok s l v i r \<Longrightarrow> j < length r \<Longrightarrow> entry_ok s l v (i + j) (r ! j)"
proof (induction r arbitrary: i j)
  case (Cons e es)
  then show ?case by (cases j) fastforce+
qed simp

lemma row_ok_length: "row_ok s l v i r \<Longrightarrow> i + length r = 16"
  by (induction r arbitrary: i) fastforce+

lemma rows_ok_nth:
  "rows_ok s rs \<Longrightarrow> k < length rs \<Longrightarrow>
   row_ok (s + k) (fst (node (s + k))) (snd (node (s + k))) 0 (rs ! k)"
proof (induction rs arbitrary: s k)
  case (Cons r rs)
  then show ?case by (cases k) fastforce+
qed simp

lemma all_codes_ok: "blocks_all codes_ok 16 0 huff_encode_table_blocks"
  by (simp add: huff_encode_table_blocks_def codes_ok_blocks)
lemma all_nodes_ok: "blocks_all nodes_ok 16 0 huff_nodes"
  by (simp add: huff_nodes_def nodes_ok_blocks)
lemma all_rows_ok: "blocks_all rows_ok 8 0 huff_decode_blocks"
  by (simp add: huff_decode_blocks_def rows_ok_00 rows_ok_01 rows_ok_02 rows_ok_03 rows_ok_04
    rows_ok_05 rows_ok_06 rows_ok_07 rows_ok_08 rows_ok_09 rows_ok_10 rows_ok_11 rows_ok_12
    rows_ok_13 rows_ok_14 rows_ok_15 rows_ok_16 rows_ok_17 rows_ok_18 rows_ok_19 rows_ok_20
    rows_ok_21 rows_ok_22 rows_ok_23 rows_ok_24 rows_ok_25 rows_ok_26 rows_ok_27 rows_ok_28
    rows_ok_29 rows_ok_30 rows_ok_31)


lemma table_code_num:
  assumes "i < 256"
  shows "kgl_http_v2_huff_encode_table ! i = HECode (word_of_nat (snd (code_num i))) (word_of_nat (fst (code_num i)))"
    "code_num i = (unat (elen (kgl_http_v2_huff_encode_table ! i)), unat (ecode (kgl_http_v2_huff_encode_table ! i)))"
  using assms by (cases "huff_encode_table_blocks ! (i div 16) ! (i mod 16)";
    simp add: huff_encode_table_nth code_num_def)+

lemma huff_code_alt: "huff_code s = nbits (fst (code_num (unat s))) (snd (code_num (unat s)))"
  by (simp add: huff_code_def Let_def table_code_num(2))

lemma encode_entry:
  fixes s :: byte
  defines "c \<equiv> kgl_http_v2_huff_encode_table ! unat s"
  shows "trie_walk (Inner 0) (huff_code s) = Some (Leaf s)"
    and "unat (ecode c) < 2 ^ unat (elen c)" "5 \<le> unat (elen c)" "unat (elen c) \<le> 30"
    and "unat (ecode c) \<noteq> 2 ^ unat (elen c) - 1"
proof -
  let ?k = "unat s div 16" and ?j = "unat s mod 16"
  have s: "unat s < 256" by simp
  then have k: "?k < length huff_encode_table_blocks"
    unfolding huff_encode_table_block_lengths by (intro less_mult_imp_div_less) simp
  then have j: "?j < length (huff_encode_table_blocks ! ?k)"
    using huff_encode_table_block_lengths(2) by (metis mod_less_divisor nth_mem zero_less_numeral)
  have c: "huff_encode_table_blocks ! ?k ! ?j = HECode (ecode c) (elen c)"
    using s by (simp add: c_def huff_encode_table_nth)
  note ok = codes_ok_nth [OF blocks_all_nth [OF all_codes_ok k] j c]
  show "trie_walk (Inner 0) (huff_code s) = Some (Leaf s)"
    using ok(1) by (simp add: huff_code_def c_def Let_def)
  show "unat (ecode c) < 2 ^ unat (elen c)" "5 \<le> unat (elen c)" "unat (elen c) \<le> 30"
    "unat (ecode c) \<noteq> 2 ^ unat (elen c) - 1" using ok(2-5) by auto
qed

lemma node_facts:
  assumes "i < 256"
  shows "trie_walk (Inner 0) (nbits (fst (node i)) (snd (node i))) = Some (Inner i)"
    "snd (node i) < 2 ^ fst (node i)" "fst (node i) < 30"
proof -
  have k: "i div 16 < length huff_nodes" using assms by (simp add: huff_nodes_def)
  moreover have "\<forall>b \<in> set huff_nodes. length b = 16"
    by (simp add: huff_nodes_def huff_nodes_defs)
  ultimately have j: "i mod 16 < length (huff_nodes ! (i div 16))"
    by (metis mod_less_divisor nth_mem zero_less_numeral)
  have c: "huff_nodes ! (i div 16) ! (i mod 16) = (fst (node i), snd (node i))"
    by (simp add: node_def)
  from nodes_ok_nth [OF blocks_all_nth [OF all_nodes_ok k] j c]
  show "trie_walk (Inner 0) (nbits (fst (node i)) (snd (node i))) = Some (Inner i)"
    "snd (node i) < 2 ^ fst (node i)" "fst (node i) < 30" by auto
qed

lemma decode_entry:
  assumes "s < 256" "n < 16"
  shows "entry_ok s (fst (node s)) (snd (node s)) n (kgl_http_v2_huff_decode_codes ! s ! n)"
proof -
  have k: "s div 8 < length huff_decode_blocks" using assms(1) by (simp add: huff_decode_blocks_length)
  then have j: "s mod 8 < length (huff_decode_blocks ! (s div 8))"
    using huff_decode_block_lengths by (metis mod_less_divisor nth_mem zero_less_numeral)
  have "row_ok s (fst (node s)) (snd (node s)) 0 (kgl_http_v2_huff_decode_codes ! s)"
    using rows_ok_nth [OF blocks_all_nth [OF all_rows_ok k] j] assms(1)
    by (simp add: huff_decode_codes_nth)
  from row_ok_nth [OF this] row_ok_length [OF this] assms(2) show ?thesis by force
qed

end
