(* ===== verification/KHuffman.thy ===== *)
theory KHuffman
  imports KHuffCode
begin

unbundle bit_operations_syntax

text \<open>
  The Huffman string decoder \<^verbatim>\<open>kgl_http_v2_huff_decode\<close> of \<^verbatim>\<open>src/KHuffDecode.cpp\<close>. The output
  pointer \<^verbatim>\<open>*dst\<close> is the list of octets written so far. The decoder is proved to accept
  exactly the sequences of code words padded with one-bits, to be independent of how the
  input is cut into fragments, and to stay inside the buffer its caller allocates.
\<close>

section \<open>The decoder\<close>

definition kgl_http_v2_huff_decode_bits ::
  "byte \<Rightarrow> byte \<Rightarrow> byte \<Rightarrow> byte list \<Rightarrow> bool \<times> byte \<times> byte \<times> byte list" where
  "kgl_http_v2_huff_decode_bits state ending bits dst = (
     let code = kgl_http_v2_huff_decode_codes ! unat state ! unat bits in
     if code_next code = state then (False, state, ending, dst)
     else (True, code_next code, code_ending code,
           if code_emit code \<noteq> 0 then dst @ [code_sym code] else dst))"

fun huff_decode_loop ::
  "byte \<Rightarrow> byte \<Rightarrow> byte list \<Rightarrow> byte list \<Rightarrow> bool \<times> byte \<times> byte \<times> byte list" where
  "huff_decode_loop state ending [] dst = (True, state, ending, dst)"
| "huff_decode_loop state ending (ch # src) dst = (
     case kgl_http_v2_huff_decode_bits state ending (drop_bit 4 ch) dst of
       (False, r) \<Rightarrow> (False, r)
     | (True, state1, ending1, dst1) \<Rightarrow> (
         case kgl_http_v2_huff_decode_bits state1 ending1 (ch AND 0xf) dst1 of
           (False, r) \<Rightarrow> (False, r)
         | (True, state2, ending2, dst2) \<Rightarrow> huff_decode_loop state2 ending2 src dst2))"

definition kgl_http_v2_huff_decode ::
  "byte \<Rightarrow> byte list \<Rightarrow> byte list \<Rightarrow> bool \<Rightarrow> bool \<times> byte \<times> byte list" where
  "kgl_http_v2_huff_decode state src dst fin = (
     case huff_decode_loop state 1 src dst of
       (False, state', _, dst') \<Rightarrow> (False, state', dst')
     | (True, state', ending, dst') \<Rightarrow>
         if fin then (if ending = 0 then (False, state', dst') else (True, 0, dst'))
         else (True, state', dst'))"

definition byte_bits :: "byte \<Rightarrow> bool list" where
  "byte_bits b = nbits 8 (unat b)"

definition src_bits :: "byte list \<Rightarrow> bool list" where
  "src_bits src = concat (map byte_bits src)"

definition encode_bits :: "byte list \<Rightarrow> bool list" where
  "encode_bits out = concat (map huff_code out)"

section \<open>The code\<close>

lemma trie_walk_append:
  "trie_walk t (xs @ ys) = (case trie_walk t xs of None \<Rightarrow> None | Some u \<Rightarrow> trie_walk u ys)"
  by (induction t xs rule: trie_walk.induct) auto

lemma trie_walk_Leaf: "trie_walk (Leaf s) ys = Some u \<Longrightarrow> ys = [] \<and> u = Leaf s"
  by (cases ys) auto

lemma length_huff_code: "5 \<le> length (huff_code s)" "length (huff_code s) \<le> 30"
  using encode_entry(3,4) [of s] by (simp_all add: huff_code_def Let_def)

lemma huff_code_prefix_free:
  assumes "huff_code a @ xs = huff_code b @ ys"
  shows "a = b \<and> xs = ys"
proof -
  have *: "c = d" if "huff_code c = huff_code d @ zs" for c d zs
  proof -
    have "trie_walk (Leaf d) zs = Some (Leaf c)"
      using encode_entry(1) [of c] encode_entry(1) [of d] that by (simp add: trie_walk_append)
    then show ?thesis by (auto dest: trie_walk_Leaf)
  qed
  from assms obtain zs where "huff_code a = huff_code b @ zs \<or> huff_code b = huff_code a @ zs"
    by (metis append_eq_append_conv2)
  then have "a = b" by (auto dest: *)
  with assms show ?thesis by simp
qed

lemma huff_code_not_ones: "huff_code s \<noteq> replicate k True"
proof
  let ?c = "kgl_http_v2_huff_encode_table ! unat s"
  assume "huff_code s = replicate k True"
  then have "nbits (unat (elen ?c)) (unat (ecode ?c)) = nbits (unat (elen ?c)) (2 ^ unat (elen ?c) - 1)"
    by (metis (no_types) huff_code_def length_nbits length_replicate nbits_ones)
  then show False
    using nbits_inj encode_entry(2,5) [of s] by (metis diff_less zero_less_numeral zero_less_one zero_less_power)
qed

lemma huff_code_not_prefix_ones: "huff_code s @ xs \<noteq> replicate k True @ ys" if "length (huff_code s) \<le> k"
proof
  assume "huff_code s @ xs = replicate k True @ ys"
  then have "huff_code s = take (length (huff_code s)) (replicate k True)"
    using that by (metis append_eq_conv_conj length_replicate take_append take_all_iff diff_is_0_eq take_eq_Nil append_Nil2)
  then show False using huff_code_not_ones by (metis take_replicate)
qed

lemma huff_path_walk: "trie_walk (Inner 0) (huff_path s) = Some (Inner (unat s))"
  using node_facts(1) [of "unat s"] by (simp add: huff_path_def)

lemma length_huff_path: "length (huff_path s) < 30"
  using node_facts(3) [of "unat s"] by (simp add: huff_path_def)

lemma huff_path_0 [simp]: "huff_path 0 = []"
  by (simp add: huff_path_def node_eqs)

lemma huff_path_no_code: "huff_path s \<noteq> huff_code c @ xs"
proof
  assume "huff_path s = huff_code c @ xs"
  then have "trie_walk (Leaf c) xs = Some (Inner (unat s))"
    using huff_path_walk [of s] encode_entry(1) [of c] by (simp add: trie_walk_append)
  then show False by (auto dest: trie_walk_Leaf)
qed

text \<open>What one transition of the table means.\<close>

lemma decode_entry_eos:
  assumes "n < 16" "code_next (kgl_http_v2_huff_decode_codes ! unat s ! n) = s"
  shows "\<exists>r. huff_path s @ nbits 4 n = eos_code @ r"
proof -
  let ?l = "fst (node (unat s))" and ?v = "snd (node (unat s))"
  let ?w = "?v * 16 + n"
  from decode_entry [of "unat s" n] assms
  have l: "30 \<le> ?l + 4" and d: "?w div 2 ^ (?l + 4 - 30) = 2 ^ 30 - 1"
    by (auto simp: entry_ok_def Let_def split: prod.splits)
  have "huff_path s @ nbits 4 n = nbits (30 + (?l + 4 - 30)) ?w"
    using l assms(1) by (simp add: huff_path_def nbits_append add.commute)
  also have "\<dots> = nbits 30 (?w div 2 ^ (?l + 4 - 30)) @ nbits (?l + 4 - 30) (?w mod 2 ^ (?l + 4 - 30))"
    by (subst nbits_append) (simp, simp only: div_mult_mod_eq)
  also have "nbits 30 (?w div 2 ^ (?l + 4 - 30)) = eos_code"
    unfolding d eos_code_def by (rule nbits_ones)
  finally show ?thesis by blast
qed

lemma decode_entry_step:
  fixes s :: byte and n :: nat
  defines "e \<equiv> kgl_http_v2_huff_decode_codes ! unat s ! n"
  assumes "n < 16" "code_next e \<noteq> s"
  shows "huff_path s @ nbits 4 n =
      (if code_emit e = 0 then [] else huff_code (code_sym e)) @ huff_path (code_next e)"
    and "code_ending e \<noteq> 0 \<longleftrightarrow> huff_path (code_next e) = replicate (length (huff_path (code_next e))) True"
proof -
  let ?l = "fst (node (unat s))" and ?v = "snd (node (unat s))"
  let ?l' = "fst (node (unat (code_next e)))" and ?v' = "snd (node (unat (code_next e)))"
  let ?y = "unat (code_sym e)"
  have ne: "unat (code_next e) \<noteq> unat s" using assms(3) by (simp add: word_unat_eq_iff)
  have ok: "entry_ok (unat s) ?l ?v n e" using decode_entry [of "unat s" n] assms(2) by (simp add: e_def)
  have v': "?v' < 2 ^ ?l'" using node_facts(2) by simp
  have p: "huff_path s @ nbits 4 n = nbits (?l + 4) (?v * 16 + n)"
    using assms(2) by (simp add: huff_path_def nbits_append)
  show "huff_path s @ nbits 4 n =
      (if code_emit e = 0 then [] else huff_code (code_sym e)) @ huff_path (code_next e)"
  proof (cases "code_emit e = 0")
    case True
    with ok ne p show ?thesis
      by (auto simp: entry_ok_def Let_def huff_path_def split: prod.splits)
  next
    case False
    obtain k c where kc: "code_num ?y = (k, c)" by fastforce
    with ok ne False have "k + ?l' = ?l + 4" "c * 2 ^ ?l' + ?v' = ?v * 16 + n"
      by (auto simp: entry_ok_def Let_def split: prod.splits)
    with p have "huff_path s @ nbits 4 n = nbits (k + ?l') (c * 2 ^ ?l' + ?v')" by simp
    also have "\<dots> = nbits k c @ nbits ?l' ?v'" using v' by (simp add: nbits_append)
    finally show ?thesis using False kc by (simp add: huff_code_alt huff_path_def)
  qed
  have "code_ending e \<noteq> 0 \<longleftrightarrow> ?v' + 1 = 2 ^ ?l'"
    using ok ne by (auto simp: entry_ok_def Let_def split: prod.splits)
  also have "\<dots> \<longleftrightarrow> ?v' = 2 ^ ?l' - 1" using v' by arith
  also have "\<dots> \<longleftrightarrow> nbits ?l' ?v' = nbits ?l' (2 ^ ?l' - 1)"
    using v' nbits_inj by (metis diff_less zero_less_numeral zero_less_one zero_less_power)
  finally show "code_ending e \<noteq> 0 \<longleftrightarrow> huff_path (code_next e) = replicate (length (huff_path (code_next e))) True"
    by (simp only: huff_path_def nbits_ones length_nbits)
qed

section \<open>Bits of the input\<close>

lemma src_bits_simps [simp]: "src_bits [] = []" "src_bits (b # bs) = byte_bits b @ src_bits bs"
  "src_bits (xs @ ys) = src_bits xs @ src_bits ys"
  by (simp_all add: src_bits_def)
lemma encode_bits_simps [simp]: "encode_bits [] = []" "encode_bits (b # bs) = huff_code b @ encode_bits bs"
  "encode_bits (xs @ ys) = encode_bits xs @ encode_bits ys"
  by (simp_all add: encode_bits_def)

lemma unat_low_nibble: "unat ((b :: byte) AND 15) = unat b mod 16"
proof -
  have "b AND 15 = take_bit 4 b" by (simp add: take_bit_eq_mask mask_eq_exp_minus_1)
  then show ?thesis by (simp add: take_bit_eq_mod unat_mod)
qed
lemma unat_high_nibble: "unat (drop_bit 4 (b :: byte)) = unat b div 16"
  by (simp add: drop_bit_eq_div unat_div)

lemma byte_bits_nibbles:
  "byte_bits b = nbits 4 (unat (drop_bit 4 b)) @ nbits 4 (unat (b AND 15))"
  by (simp add: byte_bits_def unat_low_nibble unat_high_nibble nbits_append)

lemma nibbles_less: "unat (drop_bit 4 (b :: byte)) < 16" "unat ((b::byte) AND 15) < 16"
  by (simp_all add: unat_low_nibble unat_high_nibble less_mult_imp_div_less)


lemma decode_bits_step:
  assumes "kgl_http_v2_huff_decode_bits s e n d = (True, s', e', d')" "unat n < 16"
  shows "\<exists>out. d' = d @ out \<and> huff_path s @ nbits 4 (unat n) = encode_bits out @ huff_path s' \<and>
    (e' \<noteq> 0 \<longleftrightarrow> huff_path s' = replicate (length (huff_path s')) True)"
proof -
  let ?e = "kgl_http_v2_huff_decode_codes ! unat s ! unat n"
  have eqs: "code_next ?e \<noteq> s" "s' = code_next ?e" "e' = code_ending ?e"
    "d' = d @ (if code_emit ?e \<noteq> 0 then [code_sym ?e] else [])"
    using assms(1) by (auto simp: kgl_http_v2_huff_decode_bits_def Let_def split: if_splits)
  show ?thesis
    using decode_entry_step [OF assms(2) eqs(1)] eqs(2-4)
    by (intro exI [of _ "if code_emit ?e \<noteq> 0 then [code_sym ?e] else []"]) auto
qed

lemma decode_bits_fail:
  assumes "kgl_http_v2_huff_decode_bits s e n d = (False, s', e', d')" "unat n < 16"
  shows "d' = d \<and> s' = s \<and> (\<exists>r. huff_path s @ nbits 4 (unat n) = eos_code @ r)"
  using assms(1) decode_entry_eos [OF assms(2), of s]
  by (auto simp: kgl_http_v2_huff_decode_bits_def Let_def split: if_splits)

text \<open>The loop invariant: what was read is what was emitted followed by the current path.\<close>

lemma huff_decode_loop_sound:
  "huff_decode_loop s e src d = (True, s', e', d') \<Longrightarrow>
   \<exists>out. d' = d @ out \<and> huff_path s @ src_bits src = encode_bits out @ huff_path s' \<and>
     (src \<noteq> [] \<longrightarrow> (e' \<noteq> 0 \<longleftrightarrow> huff_path s' = replicate (length (huff_path s')) True)) \<and>
     (src = [] \<longrightarrow> e' = e)"
proof (induction s e src d rule: huff_decode_loop.induct)
  case (1 s e d)
  then show ?case by (auto intro: exI [of _ "[]"])
next
  case (2 s e ch src d)
  obtain s1 e1 d1 where b1: "kgl_http_v2_huff_decode_bits s e (drop_bit 4 ch) d = (True, s1, e1, d1)"
    using "2.prems" by (auto split: prod.splits bool.splits)
  with "2.prems" obtain s2 e2 d2 where b2: "kgl_http_v2_huff_decode_bits s1 e1 (ch AND 0xf) d1 = (True, s2, e2, d2)"
    by (auto split: prod.splits bool.splits)
  from "2.prems" b1 b2 have loop: "huff_decode_loop s2 e2 src d2 = (True, s', e', d')" by simp
  from decode_bits_step [OF b1 nibbles_less(1)] obtain o1 where
    o1: "d1 = d @ o1" "huff_path s @ nbits 4 (unat (drop_bit 4 ch)) = encode_bits o1 @ huff_path s1" by blast
  from decode_bits_step [OF b2 nibbles_less(2)] obtain o2 where
    o2: "d2 = d1 @ o2" "huff_path s1 @ nbits 4 (unat (ch AND 15)) = encode_bits o2 @ huff_path s2"
    "e2 \<noteq> 0 \<longleftrightarrow> huff_path s2 = replicate (length (huff_path s2)) True" by blast
  from "2.IH" [OF b1 [symmetric] refl refl refl b2 [symmetric] refl refl refl loop] obtain o3 where
    o3: "d' = d2 @ o3" "huff_path s2 @ src_bits src = encode_bits o3 @ huff_path s'"
    "src \<noteq> [] \<longrightarrow> (e' \<noteq> 0 \<longleftrightarrow> huff_path s' = replicate (length (huff_path s')) True)"
    "src = [] \<longrightarrow> e' = e2" by blast
  have "huff_path s @ src_bits (ch # src) = encode_bits (o1 @ o2 @ o3) @ huff_path s'"
    using o1(2) o2(2) o3(2) by (simp add: byte_bits_nibbles) (metis append.assoc)
  moreover have "e' \<noteq> 0 \<longleftrightarrow> huff_path s' = replicate (length (huff_path s')) True"
  proof (cases src)
    case Nil
    with loop have "s' = s2" by simp
    with Nil o2(3) o3(4) show ?thesis by simp
  qed (use o3(3) in simp)
  ultimately show ?case using o1(1) o2(1) o3(1) by (intro exI [of _ "o1 @ o2 @ o3"]) simp
qed

text \<open>
  The remaining input decides: as long as path and input are a sequence of code words and
  fewer than 30 one-bits, no transition fails and exactly those symbols are emitted.
\<close>

lemma decode_bits_complete:
  assumes inv: "huff_path s @ nbits 4 (unat n) @ rest = encode_bits out @ replicate k True"
    and "k < 30" "unat n < 16"
  shows "\<exists>s' e' o1 o2. kgl_http_v2_huff_decode_bits s e n d = (True, s', e', d @ o1) \<and>
    out = o1 @ o2 \<and> huff_path s' @ rest = encode_bits o2 @ replicate k True"
proof -
  obtain ok s' e' d' where res: "kgl_http_v2_huff_decode_bits s e n d = (ok, s', e', d')"
    by (metis prod_cases4)
  show ?thesis
  proof (cases ok)
    case False
    with decode_bits_fail [of s e n d] res assms(3) obtain r where
      "huff_path s @ nbits 4 (unat n) = eos_code @ r" by auto
    with inv have e: "encode_bits out @ replicate k True = replicate 30 True @ r @ rest"
      by (simp add: eos_code_def) (metis append.assoc)
    have False
    proof (cases out)
      case Nil
      then have "length (replicate k True) = length (replicate 30 True @ r @ rest)" using e by simp
      with assms(2) show ?thesis by simp
    next
      case (Cons c cs)
      with e huff_code_not_prefix_ones [OF length_huff_code(2)] show ?thesis by simp
    qed
    then show ?thesis ..
  next
    case True
    let ?c = "kgl_http_v2_huff_decode_codes ! unat s ! unat n"
    let ?o = "if code_emit ?c \<noteq> 0 then [code_sym ?c] else []"
    have ne: "code_next ?c \<noteq> s" and s': "s' = code_next ?c" and d': "d' = d @ ?o"
      using res True by (auto simp: kgl_http_v2_huff_decode_bits_def Let_def split: if_splits)
    have "encode_bits ?o @ huff_path s' = huff_path s @ nbits 4 (unat n)"
      using decode_entry_step(1) [OF assms(3) ne] s' by (cases "code_emit ?c = 0") simp_all
    with inv have step: "encode_bits ?o @ huff_path s' @ rest = encode_bits out @ replicate k True"
      by (metis append.assoc)
    show ?thesis
    proof (cases "code_emit ?c = 0")
      case True
      with res \<open>ok\<close> d' step show ?thesis by (intro exI [of _ s'] exI [of _ e'] exI [of _ "[]"] exI [of _ out]) auto
    next
      case False
      with step have st: "huff_code (code_sym ?c) @ huff_path s' @ rest = encode_bits out @ replicate k True" by simp
      obtain cs where "out = code_sym ?c # cs" "huff_path s' @ rest = encode_bits cs @ replicate k True"
      proof (cases out)
        case Nil
        with st have "huff_code (code_sym ?c) @ huff_path s' @ rest = replicate k True" by simp
        then have "huff_code (code_sym ?c) = replicate (length (huff_code (code_sym ?c))) True"
          by (metis append_eq_conv_conj take_replicate length_replicate length_append min.absorb_iff1 le_add1)
        with huff_code_not_ones show ?thesis by blast
      next
        case (Cons c cs)
        with st huff_code_prefix_free [of "code_sym ?c" _ c "encode_bits cs @ replicate k True"]
        show ?thesis by (intro that) auto
      qed
      with res \<open>ok\<close> d' False show ?thesis
        by (intro exI [of _ s'] exI [of _ e'] exI [of _ "[code_sym ?c]"] exI [of _ cs]) auto
    qed
  qed
qed


lemma huff_decode_loop_complete:
  assumes "huff_path s @ src_bits src = encode_bits out @ replicate k True" "k < 30"
  shows "\<exists>s' e'. huff_decode_loop s e src d = (True, s', e', d @ out) \<and> huff_path s' = replicate k True"
  using assms(1)
proof (induction src arbitrary: s e d out)
  case Nil
  then have p: "huff_path s = encode_bits out @ replicate k True" by simp
  then have "out = []" using huff_path_no_code by (cases out) auto
  with p show ?case by simp
next
  case (Cons ch src)
  have "huff_path s @ nbits 4 (unat (drop_bit 4 ch)) @ (nbits 4 (unat (ch AND 15)) @ src_bits src)
      = encode_bits out @ replicate k True"
    using Cons.prems by (simp add: byte_bits_nibbles)
  from decode_bits_complete [OF this assms(2) nibbles_less(1), of e d] obtain s1 e1 o1 o2 where
    b1: "kgl_http_v2_huff_decode_bits s e (drop_bit 4 ch) d = (True, s1, e1, d @ o1)" "out = o1 @ o2"
      "huff_path s1 @ nbits 4 (unat (ch AND 15)) @ src_bits src = encode_bits o2 @ replicate k True" by blast
  from decode_bits_complete [OF b1(3) assms(2) nibbles_less(2), of e1 "d @ o1"] obtain s2 e2 o3 o4 where
    b2: "kgl_http_v2_huff_decode_bits s1 e1 (ch AND 15) (d @ o1) = (True, s2, e2, (d @ o1) @ o3)" "o2 = o3 @ o4"
      "huff_path s2 @ src_bits src = encode_bits o4 @ replicate k True" by blast
  from Cons.IH [OF b2(3), of e2 "(d @ o1) @ o3"] b1(1,2) b2(1,2) show ?case by auto
qed

section \<open>Fragments and output size\<close>

lemma decode_bits_bound:
  assumes "kgl_http_v2_huff_decode_bits s e n d = (b, s', e', d')" "unat n < 16"
  shows "\<exists>out. d' = d @ out \<and> 5 * length out + length (huff_path s') \<le> length (huff_path s) + 4"
proof (cases b)
  case True
  with assms(1) have "kgl_http_v2_huff_decode_bits s e n d = (True, s', e', d')" by simp
  from decode_bits_step [OF this assms(2)] obtain out where
    "d' = d @ out" and e: "huff_path s @ nbits 4 (unat n) = encode_bits out @ huff_path s'" by blast
  moreover have "5 * length out \<le> length (encode_bits out)" for out
    using length_huff_code(1) by (induction out) (auto simp: add_le_mono)
  moreover from e have "length (huff_path s) + 4 = length (encode_bits out) + length (huff_path s')"
    by (metis length_append length_nbits)
  ultimately show ?thesis by force
next
  case False
  with decode_bits_fail [of s e n d] assms show ?thesis by auto
qed

lemma huff_decode_loop_bound:
  "huff_decode_loop s e src d = (b, s', e', d') \<Longrightarrow>
   \<exists>out. d' = d @ out \<and> 5 * length out + length (huff_path s') \<le> length (huff_path s) + 8 * length src"
proof (induction s e src d rule: huff_decode_loop.induct)
  case (1 s e d)
  then show ?case by simp
next
  case (2 s e ch src d)
  obtain b1 s1 e1 d1 where b1: "kgl_http_v2_huff_decode_bits s e (drop_bit 4 ch) d = (b1, s1, e1, d1)"
    by (metis prod_cases4)
  obtain b2 s2 e2 d2 where b2: "kgl_http_v2_huff_decode_bits s1 e1 (ch AND 15) d1 = (b2, s2, e2, d2)"
    by (metis prod_cases4)
  from decode_bits_bound [OF b1 nibbles_less(1)] obtain o1 where
    o1: "d1 = d @ o1" "5 * length o1 + length (huff_path s1) \<le> length (huff_path s) + 4" by blast
  from decode_bits_bound [OF b2 nibbles_less(2)] obtain o2 where
    o2: "d2 = d1 @ o2" "5 * length o2 + length (huff_path s2) \<le> length (huff_path s1) + 4" by blast
  show ?case
  proof (cases "b1 \<and> b2")
    case True
    with "2.IH" [OF b1 [symmetric] _ refl refl b2 [symmetric] _ refl refl] "2.prems" b1 b2 obtain o3 where
      "d' = d2 @ o3" "5 * length o3 + length (huff_path s') \<le> length (huff_path s2) + 8 * length src" by auto
    with o1 o2 show ?thesis by (intro exI [of _ "o1 @ o2 @ o3"]) simp
  next
    case False
    with "2.prems" b1 b2 have "s' = s1 \<and> d' = d1 \<or> s' = s2 \<and> d' = d2"
      by (cases b1; cases b2) auto
    with o1 o2 show ?thesis by force
  qed
qed

lemma huff_decode_loop_append:
  "huff_decode_loop s e (xs @ ys) d = (case huff_decode_loop s e xs d of
     (False, r) \<Rightarrow> (False, r) | (True, s', e', d') \<Rightarrow> huff_decode_loop s' e' ys d')"
  by (induction s e xs d rule: huff_decode_loop.induct) (auto split: prod.splits bool.splits)

lemma decode_bits_ending:
  "kgl_http_v2_huff_decode_bits s e n d = (True, r) \<Longrightarrow> kgl_http_v2_huff_decode_bits s e' n d = (True, r)"
  "kgl_http_v2_huff_decode_bits s e n d = (False, r) \<Longrightarrow>
   kgl_http_v2_huff_decode_bits s e' n d = (False, fst r, e', snd (snd r))"
  by (simp_all add: kgl_http_v2_huff_decode_bits_def Let_def split: if_splits) auto

lemma huff_decode_loop_ending:
  assumes "ys \<noteq> []" "huff_decode_loop s e ys d = (b, s1, e1, d1)"
  shows "\<exists>e2. huff_decode_loop s e' ys d = (b, s1, e2, d1) \<and> (b \<longrightarrow> e2 = e1)"
proof -
  obtain ch ys' where ys: "ys = ch # ys'" using assms(1) by (cases ys) auto
  obtain b1 r where b1: "kgl_http_v2_huff_decode_bits s e (drop_bit 4 ch) d = (b1, r)" by (metis surj_pair)
  show ?thesis
  proof (cases b1)
    case True
    have "kgl_http_v2_huff_decode_bits s e' (drop_bit 4 ch) d = (True, r)"
      by (rule decode_bits_ending(1) [of s e]) (use b1 True in simp)
    with True b1 assms(2) ys show ?thesis by (cases r) simp
  next
    case False
    have "kgl_http_v2_huff_decode_bits s e' (drop_bit 4 ch) d = (False, fst r, e', snd (snd r))"
      by (rule decode_bits_ending(2) [of s e]) (use b1 False in simp)
    with False b1 assms(2) ys show ?thesis by (cases r) auto
  qed
qed

section \<open>The lower-case code table\<close>

lemma lc_blocks_eq:
  "huff_encode_table_lc_00 = huff_encode_table_00"
  "huff_encode_table_lc_01 = huff_encode_table_01"
  "huff_encode_table_lc_02 = huff_encode_table_02"
  "huff_encode_table_lc_03 = huff_encode_table_03"
  "huff_encode_table_lc_06 = huff_encode_table_06"
  "huff_encode_table_lc_07 = huff_encode_table_07"
  "huff_encode_table_lc_08 = huff_encode_table_08"
  "huff_encode_table_lc_09 = huff_encode_table_09"
  "huff_encode_table_lc_10 = huff_encode_table_10"
  "huff_encode_table_lc_11 = huff_encode_table_11"
  "huff_encode_table_lc_12 = huff_encode_table_12"
  "huff_encode_table_lc_13 = huff_encode_table_13"
  "huff_encode_table_lc_14 = huff_encode_table_14"
  "huff_encode_table_lc_15 = huff_encode_table_15"
  by (simp_all add: huff_encode_table_block_defs huff_encode_table_lc_block_defs)

lemma lc_blocks_update: "huff_encode_table_lc_blocks =
    huff_encode_table_blocks[4 := huff_encode_table_lc_04, 5 := huff_encode_table_lc_05]"
  by (simp add: huff_encode_table_lc_blocks_def huff_encode_table_blocks_def lc_blocks_eq)

lemma lc_blocks_nth:
  "k \<noteq> 4 \<Longrightarrow> k \<noteq> 5 \<Longrightarrow> huff_encode_table_lc_blocks ! k = huff_encode_table_blocks ! k"
  "huff_encode_table_lc_blocks ! 4 = huff_encode_table_lc_04"
  "huff_encode_table_lc_blocks ! 5 = huff_encode_table_lc_05"
  by (simp_all add: lc_blocks_update huff_encode_table_block_lengths)

lemma lc_letters:
  "\<forall>i \<in> set [64..<96]. huff_encode_table_lc_blocks ! (i div 16) ! (i mod 16) =
     huff_encode_table_blocks ! (unat (kgl_tolower (word_of_nat i)) div 16)
       ! (unat (kgl_tolower (word_of_nat i)) mod 16)"
  by (simp add: lc_blocks_nth(2,3) huff_encode_blocks_nth kgl_tolower_def
      huff_encode_table_04_def huff_encode_table_05_def huff_encode_table_06_def
      huff_encode_table_07_def huff_encode_table_lc_04_def huff_encode_table_lc_05_def)

section \<open>Properties\<close>

lemma huff_decode_accepts:
  "kgl_http_v2_huff_decode 0 src [] True = (True, 0, out) \<longleftrightarrow>
   (\<exists>k < 30. src_bits src = encode_bits out @ replicate k True)"
proof
  assume "kgl_http_v2_huff_decode 0 src [] True = (True, 0, out)"
  then obtain s e where l: "huff_decode_loop 0 1 src [] = (True, s, e, out)" "e \<noteq> 0"
    by (auto simp: kgl_http_v2_huff_decode_def split: prod.splits bool.splits if_splits)
  from huff_decode_loop_sound [OF l(1)] have e: "src_bits src = encode_bits out @ huff_path s"
    and ones: "huff_path s = replicate (length (huff_path s)) True"
    using l by (cases src; auto)+
  show "\<exists>k < 30. src_bits src = encode_bits out @ replicate k True"
    using e ones length_huff_path [of s] by metis
next
  assume "\<exists>k < 30. src_bits src = encode_bits out @ replicate k True"
  then obtain k where k: "k < 30" "huff_path 0 @ src_bits src = encode_bits out @ replicate k True" by auto
  from huff_decode_loop_complete [OF k(2,1), of 1 "[]"] obtain s e where
    l: "huff_decode_loop 0 1 src [] = (True, s, e, out)" "huff_path s = replicate k True" by auto
  from huff_decode_loop_sound [OF l(1)] l(2) have "e \<noteq> 0" by (cases src) auto
  with l(1) show "kgl_http_v2_huff_decode 0 src [] True = (True, 0, out)"
    by (simp add: kgl_http_v2_huff_decode_def)
qed

text \<open>
  C5: a complete Huffman string is accepted exactly when its bits are the code words of the
  emitted octets, in order, followed by fewer than 30 one-bits of padding (a proper prefix
  of the end-of-string code). So the decoder is sound and complete for the code table.
\<close>

theorem huff_decode_iff:
  "kgl_http_v2_huff_decode 0 src [] True = (True, 0, out) \<longleftrightarrow>
   (\<exists>k < 30. src_bits src = encode_bits out @ replicate k True)"
  by (rule huff_decode_accepts)

text \<open>
  The code is uniquely decodable, no code word is a prefix of another one.
\<close>

theorem huff_code_uniquely_decodable:
  "huff_code a @ xs = huff_code b @ ys \<longleftrightarrow> a = b \<and> xs = ys"
  using huff_code_prefix_free by auto

text \<open>
  C33: whatever the input and the outcome, the decoder emits at most \<open>len * 8 / 5\<close> octets, the
  size of the buffer that \<^verbatim>\<open>state_field_len\<close> allocates for it.
\<close>

theorem huff_decode_bound:
  "5 * length (snd (snd (kgl_http_v2_huff_decode 0 src [] fin))) \<le> 8 * length src"
proof -
  obtain b s e d where l: "huff_decode_loop 0 1 src [] = (b, s, e, d)" by (metis prod_cases4)
  then have "snd (snd (kgl_http_v2_huff_decode 0 src [] fin)) = d"
    by (cases b) (simp_all add: kgl_http_v2_huff_decode_def)
  with huff_decode_loop_bound [OF l] show ?thesis by auto
qed

text \<open>
  Decoding a string in two fragments, the state carried over as \<^verbatim>\<open>state.field_state\<close>, is
  decoding it at once, as long as the last fragment is not empty.
\<close>

theorem huff_decode_streaming:
  assumes "kgl_http_v2_huff_decode s xs d False = (True, s1, d1)" "ys \<noteq> []"
  shows "kgl_http_v2_huff_decode s1 ys d1 fin = kgl_http_v2_huff_decode s (xs @ ys) d fin"
proof -
  obtain e1 where l: "huff_decode_loop s 1 xs d = (True, s1, e1, d1)"
    using assms(1) by (auto simp: kgl_http_v2_huff_decode_def split: prod.splits bool.splits)
  obtain b s2 e2 d2 where l2: "huff_decode_loop s1 1 ys d1 = (b, s2, e2, d2)" by (metis prod_cases4)
  from huff_decode_loop_ending [OF assms(2) this, of e1] obtain e3 where
    "huff_decode_loop s1 e1 ys d1 = (b, s2, e3, d2)" "b \<longrightarrow> e3 = e2" by blast
  with l l2 show ?thesis
    by (cases b) (simp_all add: kgl_http_v2_huff_decode_def huff_decode_loop_append)
qed

theorem huff_decode_streaming_witness:
  "kgl_http_v2_huff_decode 0 [0xf1] [] False = (True, 22, [119]) \<and>
   kgl_http_v2_huff_decode 22 [0xff] [119] True = kgl_http_v2_huff_decode 0 ([0xf1] @ [0xff]) [] True"
proof -
  have r: "kgl_http_v2_huff_decode_codes ! 0 ! 15 = HDCode 0x40 0 0 1"
    "kgl_http_v2_huff_decode_codes ! 64 ! 1 = HDCode 22 1 119 1"
    by (simp_all add: huff_decode_codes_nth huff_decode_blocks_def huff_decode_codes_00_def
        huff_decode_codes_08_def)
  have h: "kgl_http_v2_huff_decode 0 [0xf1] [] False = (True, 22, [119])"
    by (simp add: kgl_http_v2_huff_decode_def kgl_http_v2_huff_decode_bits_def r [simplified])
  from huff_decode_streaming [OF h, of "[0xff]" True] h show ?thesis by simp
qed

text \<open>
  The table used for header names is the plain table after lower-casing the octet.
\<close>

theorem huff_encode_table_lc_lowercases:
  "kgl_http_v2_huff_encode_table_lc ! unat c = kgl_http_v2_huff_encode_table ! unat (kgl_tolower c)"
proof -
  have q: "unat c = 16 * (unat c div 16) + unat c mod 16" "unat c mod 16 < 16" by simp_all
  show ?thesis
  proof (cases "64 \<le> unat c \<and> unat c < 96")
    case True
    then have "unat c \<in> set [64..<96]" by (simp only: set_upt atLeastLessThan_iff)
    from bspec [OF lc_letters this] show ?thesis
      by (simp only: huff_encode_table_lc_nth huff_encode_table_nth byte_less_256 of_nat_unat ucast_id)
  next
    case False
    then have "kgl_tolower c = c" by (auto simp: kgl_tolower_def word_le_nat_alt)
    moreover from False q have "unat c div 16 \<noteq> 4" "unat c div 16 \<noteq> 5" by linarith+
    ultimately show ?thesis
      by (simp only: huff_encode_table_lc_nth huff_encode_table_nth byte_less_256 lc_blocks_nth
          not_False_eq_True)
  qed
qed

end
