(* ===== verification/KHuffEncode.thy ===== *)
theory KHuffEncode
  imports KHuffman
begin

unbundle bit_operations_syntax

text \<open>
  The Huffman encoder \<^verbatim>\<open>kgl_http_v2_huff_encode\<close> of \<^verbatim>\<open>src/KHuffEncode.cpp\<close>. It collects code words
  in a register of the width of \<^verbatim>\<open>uintptr_t\<close>, which is the type variable \<open>'w\<close> here, and gives up when
  the result would not be shorter than the input. The encoder is proved to be inverted by the
  decoder, for registers of 32 bits and, as long as the register never fills, of 64 bits.
\<close>

section \<open>The encoder\<close>

text \<open>The lowest octets of a register, the highest first.\<close>

fun register_octets :: "'w::len word \<Rightarrow> nat \<Rightarrow> byte list" where
  "register_octets buf 0 = []"
| "register_octets buf (Suc n) = ucast (drop_bit (8 * n) buf) # register_octets buf n"

text \<open>
  \<^verbatim>\<open>kgl_http_v2_huff_encode_buf(&dst[hlen], (uint32_t)buf)\<close>: the register in network order, after the
  cast to 32 bits.
\<close>

definition huff_encode_buf :: "'w::len word \<Rightarrow> byte list" where
  "huff_encode_buf buf = register_octets (ucast (ucast buf :: u32) :: 'w word) (LENGTH('w) div 8)"

text \<open>The loop over the input; the result is what is written, the register and the number of its bits in use.\<close>

fun huff_encode_loop :: "kgl_http_v2_huff_encode_code_t list \<Rightarrow> nat \<Rightarrow> byte list \<Rightarrow> byte list \<Rightarrow> 'w::len word \<Rightarrow> nat \<Rightarrow>
    (byte list \<times> 'w word \<times> nat) option" where
  "huff_encode_loop table len [] dst buf pending = Some (dst, buf, pending)"
| "huff_encode_loop table len (c # src) dst buf pending = (
     let code = ucast (ecode (table ! unat c));
         pending = pending + unat (elen (table ! unat c)) in
     if pending < LENGTH('w) then huff_encode_loop table len src dst (buf OR push_bit (LENGTH('w) - pending) code) pending
     else if length dst + LENGTH('w) div 8 \<ge> len then None
     else
       let pending = pending - LENGTH('w);
           buf = buf OR drop_bit pending code in
       huff_encode_loop table len src (dst @ huff_encode_buf buf)
         (if pending \<noteq> 0 then push_bit (LENGTH('w) - pending) code else 0) pending)"

text \<open>
  The whole encoder: the octets written, or none when it returns 0. The register is padded with
  ones to the next octet.
\<close>

definition kgl_http_v2_huff_encode :: "'w::len itself \<Rightarrow> byte list \<Rightarrow> bool \<Rightarrow> byte list" where
  "kgl_http_v2_huff_encode _ src lower = (
     let table = (if lower then kgl_http_v2_huff_encode_table_lc else kgl_http_v2_huff_encode_table) in
     case huff_encode_loop table (length src) src [] (0 :: 'w word) 0 of
       None \<Rightarrow> []
     | Some (dst, buf, pending) \<Rightarrow>
         if pending = 0 then dst
         else
           let buf = buf OR drop_bit pending (- 1);
               octets = (pending + 7) div 8 in
           if length dst + octets \<ge> length src then []
           else dst @ register_octets (drop_bit (LENGTH('w) - 8 * octets) buf) octets)"

section \<open>The bits of the register\<close>

definition word_bits :: "'w::len word \<Rightarrow> bool list" where
  "word_bits w = map (\<lambda>i. bit w (LENGTH('w) - 1 - i)) [0..<LENGTH('w)]"

lemma length_word_bits [simp]: "length (word_bits (w :: 'w::len word)) = LENGTH('w)"
  by (simp add: word_bits_def)

lemma nth_word_bits: "i < LENGTH('w) \<Longrightarrow> word_bits (w :: 'w::len word) ! i = bit w (LENGTH('w) - 1 - i)"
  by (simp add: word_bits_def)

lemma nth_nbits: "i < l \<Longrightarrow> nbits l v ! i = bit v (l - 1 - i)"
proof (induction l arbitrary: v i)
  case (Suc l)
  show ?case
  proof (cases "i < l")
    case True
    then have "Suc l - 1 - i = Suc (l - 1 - i)" by simp
    then show ?thesis using True Suc.IH [OF True] by (simp add: nth_append bit_Suc)
  next
    case False
    then have "i = l" using Suc.prems by simp
    then show ?thesis by (simp add: nth_append bit_0)
  qed
qed simp

lemma word_bits_nbits: "word_bits (w :: 'w::len word) = nbits (LENGTH('w)) (unat w)"
  by (rule nth_equalityI) (simp_all add: nth_word_bits nth_nbits bit_unsigned_iff)

text \<open>A register that holds some bits, and zeros behind them; a code word of so many bits.\<close>

definition holds :: "'w::len word \<Rightarrow> bool list \<Rightarrow> bool" where
  "holds buf bs \<longleftrightarrow> length bs \<le> LENGTH('w) \<and> word_bits buf = bs @ replicate (LENGTH('w) - length bs) False"

lemma bit_holds:
  "holds (buf :: 'w::len word) bs \<Longrightarrow> i < LENGTH('w) \<Longrightarrow> bit buf i = (LENGTH('w) - 1 - i < length bs \<and> bs ! (LENGTH('w) - 1 - i))"
  using nth_word_bits [of "LENGTH('w) - 1 - i" buf] by (auto simp: holds_def nth_append split: if_splits)

lemma bit_code: "unat (code :: 'w::len word) < 2 ^ l \<Longrightarrow> bit code i \<longleftrightarrow> i < l \<and> nbits l (unat code) ! (l - 1 - i)"
proof (cases "i < l")
  case False
  assume "unat code < 2 ^ l"
  then have "unat code < 2 ^ i" using False by (meson less_le_trans not_less one_le_numeral power_increasing)
  then have "\<not> bit (unat code) i" by (simp add: bit_iff_odd)
  then show ?thesis using False by (simp add: bit_unsigned_iff)
qed (simp add: nth_nbits bit_unsigned_iff)

text \<open>Adding a code word to the register, and splitting one between two.\<close>

lemma code_added:
  fixes buf code :: "'w::len word"
  assumes "holds buf bs" "unat code < 2 ^ l" "length bs + l < LENGTH('w)"
  shows "holds (buf OR push_bit (LENGTH('w) - (length bs + l)) code) (bs @ nbits l (unat code))"
  unfolding holds_def
proof (rule conjI [OF _ nth_equalityI])
  fix i assume i: "i < length (word_bits (buf OR push_bit (LENGTH('w) - (length bs + l)) code))"
  consider "i < length bs" | "length bs \<le> i" "i < length bs + l" | "length bs + l \<le> i" by linarith
  then show "word_bits (buf OR push_bit (LENGTH('w) - (length bs + l)) code) ! i =
      ((bs @ nbits l (unat code)) @ replicate (LENGTH('w) - length (bs @ nbits l (unat code))) False) ! i"
    using i assms by cases (auto simp: nth_word_bits bit_or_iff bit_push_bit_iff bit_holds bit_code nth_append)
qed (use assms in simp_all)

lemma code_split:
  fixes buf code :: "'w::len word"
  assumes "holds buf bs" "unat code < 2 ^ l" "l < LENGTH('w)" "LENGTH('w) \<le> length bs + l" "q = length bs + l - LENGTH('w)"
  shows "word_bits (buf OR drop_bit q code) = bs @ take (l - q) (nbits l (unat code))"
    and "holds (if q \<noteq> 0 then push_bit (LENGTH('w) - q) code else 0) (drop (l - q) (nbits l (unat code)))"
proof -
  have q: "q \<le> l" "l - q = LENGTH('w) - length bs" "length bs \<le> LENGTH('w)" using assms by (auto simp: holds_def)
  show "word_bits (buf OR drop_bit q code) = bs @ take (l - q) (nbits l (unat code))"
  proof (rule nth_equalityI)
    fix i assume i: "i < length (word_bits (buf OR drop_bit q code))"
    show "word_bits (buf OR drop_bit q code) ! i = (bs @ take (l - q) (nbits l (unat code))) ! i"
    proof (cases "i < length bs")
      case True
      then have "\<not> q + (LENGTH('w) - 1 - i) < l" using q by linarith
      then show ?thesis using i True assms q by (simp add: nth_word_bits bit_or_iff bit_drop_bit_eq bit_holds bit_code nth_append)
    next
      case False
      then have "l - 1 - (q + (LENGTH('w) - 1 - i)) = i - length bs" "q + (LENGTH('w) - 1 - i) < l" using i q by auto
      then show ?thesis using i False assms q by (simp add: nth_word_bits bit_or_iff bit_drop_bit_eq bit_holds bit_code nth_append)
    qed
  qed (use q in simp)
  show "holds (if q \<noteq> 0 then push_bit (LENGTH('w) - q) code else 0) (drop (l - q) (nbits l (unat code)))"
    unfolding holds_def
  proof (rule conjI [OF _ nth_equalityI])
    let ?w = "if q \<noteq> 0 then push_bit (LENGTH('w) - q) code else 0"
    fix i assume i: "i < length (word_bits ?w)"
    have n: "l - 1 - (LENGTH('w) - 1 - i - (LENGTH('w) - q)) = l - q + i" if "i < q" using that q i assms(3) by simp
    show "word_bits ?w ! i = (drop (l - q) (nbits l (unat code)) @
        replicate (LENGTH('w) - length (drop (l - q) (nbits l (unat code)))) False) ! i"
      using i q(1) assms(2,3) n by (cases "i < q") (auto simp: nth_word_bits bit_push_bit_iff bit_code nth_append)
  qed (use q(1) assms(3) in simp_all)
qed

section \<open>The octets\<close>

lemma nbits_split: "nbits (a + b) v = nbits a (v div 2 ^ b) @ nbits b v"
  by (induction b arbitrary: v) (simp_all add: div_mult2_eq)

lemma nbits_take_bit: "nbits l (take_bit l v) = nbits l v"
  by (rule nth_equalityI) (simp_all add: nth_nbits bit_take_bit_iff)

lemma unat_drop_bit: "unat (drop_bit k (w :: 'w::len word)) = unat w div 2 ^ k"
  unfolding unsigned_drop_bit_eq by (subst take_bit_nat_eq_self) (simp_all add: drop_bit_eq_div)

lemma register_octets_bits: "src_bits (register_octets w n) = nbits (8 * n) (unat w)" "length (register_octets w n) = n"
proof (induction n)
  case (Suc n)
  have "byte_bits (ucast (drop_bit (8 * n) w)) = nbits 8 (unat w div 2 ^ (8 * n))"
    unfolding byte_bits_def unsigned_ucast_eq unat_drop_bit
    using nbits_take_bit [of 8 "unat w div 2 ^ (8 * n)"] by simp
  then show "src_bits (register_octets w (Suc n)) = nbits (8 * Suc n) (unat w)"
    using Suc by (simp add: nbits_split [of 8 "8 * n" "unat w", symmetric])
qed simp_all

lemma huff_encode_buf_32:
  assumes "LENGTH('w) = 32"
  shows "src_bits (huff_encode_buf (buf :: 'w::len word)) = word_bits buf" "length (huff_encode_buf buf) = 4"
proof -
  have "(ucast (ucast buf :: u32) :: 'w word) = buf" using assms by (intro bit_word_eqI) (simp add: bit_ucast_iff)
  then show "src_bits (huff_encode_buf buf) = word_bits buf" "length (huff_encode_buf buf) = 4"
    using assms by (simp_all add: huff_encode_buf_def register_octets_bits word_bits_nbits)
qed

lemma padded_register:
  assumes "holds (buf :: 'w::len word) bs" "length bs \<le> 8 * n" "8 * n \<le> LENGTH('w)"
  shows "src_bits (register_octets (drop_bit (LENGTH('w) - 8 * n) (buf OR drop_bit (length bs) (- 1))) n) =
    bs @ replicate (8 * n - length bs) True"
proof -
  let ?b = "buf OR drop_bit (length bs) (- 1)" and ?k = "LENGTH('w) - 8 * n"
  have "word_bits ?b = bs @ replicate (LENGTH('w) - length bs) True"
    using assms(1) by (intro nth_equalityI) (auto simp: nth_word_bits bit_or_iff bit_drop_bit_eq bit_mask_iff bit_holds nth_append holds_def)
  then have "take (8 * n) (nbits (LENGTH('w)) (unat ?b)) = bs @ replicate (8 * n - length bs) True"
    using assms by (simp add: word_bits_nbits [symmetric])
  moreover have "nbits (LENGTH('w)) (unat ?b) = nbits (8 * n) (unat ?b div 2 ^ ?k) @ nbits ?k (unat ?b)"
    using nbits_split [of "8 * n" ?k "unat ?b"] assms(3) by simp
  ultimately show ?thesis unfolding register_octets_bits unat_drop_bit by simp
qed

section \<open>The encoder and the decoder\<close>

text \<open>A table of the Huffman code: every octet has the code word of an octet, itself or its lower case.\<close>

definition code_table :: "kgl_http_v2_huff_encode_code_t list \<Rightarrow> (byte \<Rightarrow> byte) \<Rightarrow> bool" where
  "code_table table g \<longleftrightarrow> (\<forall>c. table ! unat c = kgl_http_v2_huff_encode_table ! unat (g c))"

lemma code_tables:
  "code_table (if lower then kgl_http_v2_huff_encode_table_lc else kgl_http_v2_huff_encode_table) (if lower then kgl_tolower else (\<lambda>c. c))"
  by (simp add: code_table_def huff_encode_table_lc_lowercases)

lemma code_table_entry:
  assumes "code_table table g"
  shows "huff_code (g c) = nbits (unat (elen (table ! unat c))) (unat (ecode (table ! unat c)))"
    and "unat (ecode (table ! unat c)) < 2 ^ unat (elen (table ! unat c))" "unat (elen (table ! unat c)) \<le> 30"
  using encode_entry(2,4) [of "g c"] assms by (simp_all add: code_table_def huff_code_def Let_def)

lemma huff_encode_loop_bits:
  fixes buf :: "'w::len word"
  assumes "code_table table g" "holds buf bs" "length bs < LENGTH('w)"
    and "LENGTH('w) = 32 \<or> LENGTH('w) = 64 \<and> length (bs @ encode_bits (map g src)) < 64"
  shows "case huff_encode_loop table len src dst buf (length bs) of
      None \<Rightarrow> 8 * len \<le> length (src_bits dst @ bs @ encode_bits (map g src))
    | Some (dst', buf', pending) \<Rightarrow> \<exists>bs'. holds buf' bs' \<and> length bs' = pending \<and> pending < LENGTH('w) \<and>
        src_bits dst' @ bs' = src_bits dst @ bs @ encode_bits (map g src) \<and> (dst' = dst \<or> length dst' < len)"
  using assms(2-)
proof (induction src arbitrary: dst buf bs)
  case Nil
  then show ?case by auto
next
  case (Cons c src)
  let ?e = "table ! unat c" let ?l = "unat (elen ?e)" and ?code = "ucast (ecode ?e) :: 'w word"
  note e = code_table_entry [OF assms(1), of c]
  have w: "32 \<le> LENGTH('w)" using Cons.prems(3) by auto
  have "unat (ecode ?e) < 2 ^ LENGTH('w)"
    using unsigned_less [of "ecode ?e", where 'a = nat] power_increasing [OF w, of "2 :: nat"] by (simp del: power_increasing_iff)
  then have code: "unat ?code = unat (ecode ?e)" by (simp add: unsigned_ucast_eq take_bit_nat_eq_self_iff)
  show ?case
  proof (cases "length bs + ?l < LENGTH('w)")
    case True
    let ?bs = "bs @ huff_code (g c)"
    have h: "holds (buf OR push_bit (LENGTH('w) - (length bs + ?l)) ?code) ?bs"
      using code_added [OF Cons.prems(1), of ?code ?l] True e code by simp
    have bs: "length ?bs = length bs + ?l" using e(1) by simp
    have step: "huff_encode_loop table len (c # src) dst buf (length bs) =
        huff_encode_loop table len src dst (buf OR push_bit (LENGTH('w) - (length bs + ?l)) ?code) (length ?bs)"
      unfolding bs using True by (simp add: Let_def)
    have "length ?bs < LENGTH('w)" "LENGTH('w) = 32 \<or> LENGTH('w) = 64 \<and> length (?bs @ encode_bits (map g src)) < 64"
      using True bs Cons.prems(3) by auto
    from Cons.IH [OF h this, of dst] show ?thesis unfolding step list.map encode_bits_simps append_assoc .
  next
    case False
    then have w32: "LENGTH('w) = 32" using Cons.prems(3) e(1) by auto
    define q where "q = length bs + ?l - LENGTH('w)"
    have q: "q < LENGTH('w)" "q \<le> ?l" using Cons.prems(2) e(3) w by (auto simp: q_def)
    have sp: "word_bits (buf OR drop_bit q ?code) = bs @ take (?l - q) (huff_code (g c))"
      "holds (if q \<noteq> 0 then push_bit (LENGTH('w) - q) ?code else 0) (drop (?l - q) (huff_code (g c)))"
      using code_split [OF Cons.prems(1), of ?code ?l q] False e code w by (simp_all add: q_def)
    have lq: "length (drop (?l - q) (huff_code (g c))) = q" using q e(1) by simp
    show ?thesis
    proof (cases "length dst + LENGTH('w) div 8 \<ge> len")
      case True
      have "length (src_bits dst) = 8 * length dst" for dst :: "byte list" by (induction dst) (simp_all add: byte_bits_def)
      then show ?thesis using True False w32 e(1) by (simp add: Let_def)
    next
      case room: False
      let ?dst = "dst @ huff_encode_buf (buf OR drop_bit q ?code)"
      have b: "src_bits ?dst @ drop (?l - q) (huff_code (g c)) = src_bits dst @ bs @ huff_code (g c)"
        by (simp add: src_bits_def [of "_ @ _"] flip: src_bits_def) (simp add: huff_encode_buf_32 [OF w32] sp(1))
      have len: "length ?dst < len" using room w32 by (simp add: huff_encode_buf_32)
      have step: "huff_encode_loop table len (c # src) dst buf (length bs) = huff_encode_loop table len src ?dst
          (if q \<noteq> 0 then push_bit (LENGTH('w) - q) ?code else 0) (length (drop (?l - q) (huff_code (g c))))"
        unfolding lq using False room by (simp add: Let_def q_def)
      have ih: "case huff_encode_loop table len (c # src) dst buf (length bs) of
          None \<Rightarrow> 8 * len \<le> length (src_bits ?dst @ drop (?l - q) (huff_code (g c)) @ encode_bits (map g src))
        | Some (dst', buf', pending) \<Rightarrow> \<exists>bs'. holds buf' bs' \<and> length bs' = pending \<and> pending < LENGTH('w) \<and>
            src_bits dst' @ bs' = src_bits ?dst @ drop (?l - q) (huff_code (g c)) @ encode_bits (map g src) \<and>
            (dst' = ?dst \<or> length dst' < len)"
        unfolding step by (rule Cons.IH [OF sp(2)]) (use lq q w32 in auto)
      have out: "src_bits ?dst @ drop (?l - q) (huff_code (g c)) @ x = src_bits dst @ bs @ huff_code (g c) @ x" for x
        using b by (metis append_assoc)
      show ?thesis using ih len unfolding out list.map encode_bits_simps
        by (cases "huff_encode_loop table len (c # src) dst buf (length bs)") (auto simp del: huff_encode_loop.simps)
    qed
  qed
qed

lemma length_src_bits [simp]: "length (src_bits s) = 8 * length s"
  by (induction s) (simp_all add: byte_bits_def)

lemma src_bits_append [simp]: "src_bits (s @ t) = src_bits s @ src_bits t"
  by (simp add: src_bits_def)

lemma huff_encode_bits:
  assumes w: "LENGTH('w::len) = 32 \<or> LENGTH('w) = 64 \<and> length (encode_bits s) < 64"
    and s: "s = (if lower then map kgl_tolower src else src)"
    and n: "n = (length (encode_bits s) + 7) div 8"
  shows "if n < length src
    then \<exists>k < 8. src_bits (kgl_http_v2_huff_encode TYPE('w) src lower) = encode_bits s @ replicate k True \<and>
      length (kgl_http_v2_huff_encode TYPE('w) src lower) = n
    else kgl_http_v2_huff_encode TYPE('w) src lower = []"
proof -
  define table where "table = (if lower then kgl_http_v2_huff_encode_table_lc else kgl_http_v2_huff_encode_table)"
  define g where "g = (if lower then kgl_tolower else (\<lambda>c. c))"
  define r where "r = huff_encode_loop table (length src) src [] (0 :: 'w word) 0"
  have sg: "s = map g src" using s by (simp add: g_def)
  have "holds (0 :: 'w word) []" by (auto simp: holds_def word_bits_def intro: nth_equalityI)
  moreover have "LENGTH('w) = 32 \<or> LENGTH('w) = 64 \<and> length ([] @ encode_bits (map g src)) < 64" using w sg by simp
  ultimately have loop_bits: "case huff_encode_loop table (length src) src [] (0 :: 'w word) (length ([] :: bool list)) of
      None \<Rightarrow> 8 * length src \<le> length (src_bits [] @ [] @ encode_bits (map g src))
    | Some (dst', buf', pending) \<Rightarrow> \<exists>bs'. holds buf' bs' \<and> length bs' = pending \<and> pending < LENGTH('w) \<and>
        src_bits dst' @ bs' = src_bits [] @ [] @ encode_bits (map g src) \<and> (dst' = [] \<or> length dst' < length src)"
    by - (rule huff_encode_loop_bits, simp_all add: table_def g_def code_tables)
  have loop: "case r of None \<Rightarrow> 8 * length src \<le> length (encode_bits s)
    | Some (dst, buf, pending) \<Rightarrow> \<exists>bs. holds buf bs \<and> length bs = pending \<and> pending < LENGTH('w) \<and>
        src_bits dst @ bs = encode_bits s \<and> (dst = [] \<or> length dst < length src)"
    using loop_bits unfolding r_def sg src_bits_simps append_Nil list.size(3) .
  have enc: "kgl_http_v2_huff_encode TYPE('w) src lower = (case r of None \<Rightarrow> []
     | Some (dst, buf, pending) \<Rightarrow>
         if pending = 0 then dst
         else if length dst + (pending + 7) div 8 \<ge> length src then []
         else dst @ register_octets (drop_bit (LENGTH('w) - 8 * ((pending + 7) div 8)) (buf OR drop_bit pending (- 1))) ((pending + 7) div 8))"
    unfolding kgl_http_v2_huff_encode_def r_def table_def Let_def ..
  show ?thesis
  proof (cases r)
    case None
    then have "8 * length src \<le> length (encode_bits s)" using loop by simp
    then have "\<not> n < length src" unfolding n by presburger
    then show ?thesis by (simp add: enc None)
  next
    case (Some a)
    obtain dst buf pending where a: "a = (dst, buf, pending)" by (metis prod_cases3)
    from loop obtain bs where bs: "holds buf bs" "length bs = pending" "pending < LENGTH('w)" "src_bits dst @ bs = encode_bits s"
      "dst = [] \<or> length dst < length src" unfolding Some a by auto
    have l: "length (encode_bits s) = 8 * length dst + pending" using arg_cong [OF bs(4), of length] bs(2) by simp
    then have nd: "n = length dst + (pending + 7) div 8" unfolding n by presburger
    show ?thesis
    proof (cases "pending = 0")
      case True
      have "src = []" if "dst = []"
      proof (rule ccontr)
        assume "src \<noteq> []"
        then have "encode_bits s \<noteq> []" using length_huff_code(1) [of "g (hd src)"] by (cases src) (auto simp: sg)
        then show False using l True that by simp
      qed
      then show ?thesis using True bs nd by (auto simp: enc Some a intro: exI [of _ 0])
    next
      case False
      define k where "k = (pending + 7) div 8"
      have w8: "8 dvd LENGTH('w)" using w by auto
      have k: "pending \<le> 8 * k" "8 * k - pending < 8" "8 * k \<le> LENGTH('w)" using bs(3) w8 unfolding k_def by presburger+
      have "src_bits (register_octets (drop_bit (LENGTH('w) - 8 * k) (buf OR drop_bit pending (- 1))) k) = bs @ replicate (8 * k - pending) True"
        using padded_register [OF bs(1)] k bs(2) by simp
      then have "src_bits (dst @ register_octets (drop_bit (LENGTH('w) - 8 * k) (buf OR drop_bit pending (- 1))) k) =
          encode_bits s @ replicate (8 * k - pending) True"
        using bs(4) by (simp flip: append_assoc)
      then show ?thesis using False nd k(2) by (auto simp: enc Some a register_octets_bits not_le simp flip: k_def simp del: src_bits_append)
    qed
  qed
qed

text \<open>
  C17: the decoder inverts the encoder. For a register of 32 bits, and for one of 64 bits as long as
  the code words have fewer than 64 bits, the encoder writes as many octets as the code words need
  and the decoder gives the string back, in lower case if that was asked for; when the result would
  not be shorter than the string, nothing is written.
\<close>

theorem huff_encode_decode:
  assumes "LENGTH('w::len) = 32 \<or> LENGTH('w) = 64 \<and> length (encode_bits s) < 64"
    and "s = (if lower then map kgl_tolower src else src)"
    and "n = (length (encode_bits s) + 7) div 8"
  shows "if n < length src
    then length (kgl_http_v2_huff_encode TYPE('w) src lower) = n \<and>
      kgl_http_v2_huff_decode 0 (kgl_http_v2_huff_encode TYPE('w) src lower) [] True = (True, 0, s)
    else kgl_http_v2_huff_encode TYPE('w) src lower = []"
proof (cases "n < length src")
  case True
  with huff_encode_bits [OF assms] obtain k where k: "k < 8" "length (kgl_http_v2_huff_encode TYPE('w) src lower) = n"
    "src_bits (kgl_http_v2_huff_encode TYPE('w) src lower) = encode_bits s @ replicate k True" by auto
  then have "\<exists>k < 30. src_bits (kgl_http_v2_huff_encode TYPE('w) src lower) = encode_bits s @ replicate k True"
    by (intro exI [of _ k]) simp
  with k(2) True show ?thesis by (simp add: huff_decode_accepts)
qed (use huff_encode_bits [OF assms] in simp)

theorem huff_encode_decode_witness:
  "length (kgl_http_v2_huff_encode TYPE(32) (replicate 8 48) False) = 5 \<and>
   kgl_http_v2_huff_decode 0 (kgl_http_v2_huff_encode TYPE(32) (replicate 8 48) False) [] True = (True, 0, replicate 8 48)"
proof -
  have "length (huff_code 48) = 5" by (simp add: huff_code_alt code_num_eqs)
  then have "length (encode_bits (replicate 8 48)) = 40" by (simp add: encode_bits_def numeral_eq_Suc)
  then show ?thesis using huff_encode_decode [where 'w = 32 and s = "replicate 8 48" and lower = False and src = "replicate 8 48" and n = 5] by simp
qed

text \<open>
  With a register of 64 bits the cast to \<^verbatim>\<open>uint32_t\<close> cuts off its upper half: every full register is
  written as four zero octets and its lower half.
\<close>

lemma cut_octet:
  fixes buf :: "64 word"
  shows "32 \<le> k \<Longrightarrow> (ucast (drop_bit k (ucast (ucast buf :: u32) :: 64 word)) :: byte) = 0"
    and "k \<le> 24 \<Longrightarrow> (ucast (drop_bit k (ucast (ucast buf :: u32) :: 64 word)) :: byte) = ucast (drop_bit k buf)"
  by (rule bit_word_eqI; simp add: bit_ucast_iff bit_drop_bit_eq)+

lemma full_register_cut: "huff_encode_buf (buf :: 64 word) = [0, 0, 0, 0] @ register_octets buf 4"
proof -
  have "register_octets w (Suc (Suc (Suc (Suc (Suc (Suc (Suc (Suc 0)))))))) = [ucast (drop_bit 56 w), ucast (drop_bit 48 w), ucast (drop_bit 40 w),
      ucast (drop_bit 32 w), ucast (drop_bit 24 w), ucast (drop_bit 16 w), ucast (drop_bit 8 w), ucast (drop_bit 0 w)]" for w :: "64 word"
    unfolding register_octets.simps by simp
  moreover have "register_octets w (Suc (Suc (Suc (Suc 0)))) = [ucast (drop_bit 24 w), ucast (drop_bit 16 w), ucast (drop_bit 8 w), ucast (drop_bit 0 w)]"
    for w :: "64 word" unfolding register_octets.simps by simp
  ultimately have r: "register_octets w 8 = [ucast (drop_bit 56 w), ucast (drop_bit 48 w), ucast (drop_bit 40 w),
      ucast (drop_bit 32 w), ucast (drop_bit 24 w), ucast (drop_bit 16 w), ucast (drop_bit 8 w), ucast (drop_bit 0 w)]"
    "register_octets w 4 = [ucast (drop_bit 24 w), ucast (drop_bit 16 w), ucast (drop_bit 8 w), ucast (drop_bit 0 w)]" for w :: "64 word"
    by (simp_all only: numeral_eq_Suc pred_numeral_simps BitM.simps arith_simps)
  show ?thesis unfolding huff_encode_buf_def r by (simp add: cut_octet r del: drop_bit_0)
qed

end
