(* ===== verification/KHttp2Frame.thy ===== *)
theory KHttp2Frame
  imports KPrelude
begin

unbundle bit_operations_syntax

text \<open>
  The wire formats of \<^verbatim>\<open>include/KHttp2.h\<close>, \<^verbatim>\<open>src/KHttp2.cpp\<close> and \<^verbatim>\<open>include/KHttp2WriteBuffer.h\<close>:
  the nine octet frame header in both directions, the control frames the server sends, and
  the prefix integers of HPACK with their writer \<^verbatim>\<open>write_int\<close> and their reader \<^verbatim>\<open>parse_int\<close>.
\<close>

section \<open>Big-endian words\<close>

text \<open>\<^verbatim>\<open>htonl\<close> and \<^verbatim>\<open>htons\<close> followed by a store, and the loads of \<^verbatim>\<open>kgl_http_v2_parse_uint32/16\<close>.\<close>

definition put_uint32 :: "u32 \<Rightarrow> byte list" where
  "put_uint32 w = [ucast (drop_bit 24 w), ucast (drop_bit 16 w), ucast (drop_bit 8 w), ucast w]"

definition put_uint16 :: "16 word \<Rightarrow> byte list" where
  "put_uint16 w = [ucast (drop_bit 8 w), ucast w]"

definition kgl_http_v2_parse_uint32 :: "byte list \<Rightarrow> u32" where
  "kgl_http_v2_parse_uint32 p =
     push_bit 24 (ucast (p ! 0)) OR push_bit 16 (ucast (p ! 1)) OR push_bit 8 (ucast (p ! 2)) OR ucast (p ! 3)"

definition kgl_http_v2_parse_uint16 :: "byte list \<Rightarrow> 16 word" where
  "kgl_http_v2_parse_uint16 p = push_bit 8 (ucast (p ! 0)) OR ucast (p ! 1)"

lemma parse_put_uint32: "kgl_http_v2_parse_uint32 (put_uint32 w @ r) = w"
proof (rule bit_word_eqI)
  fix n assume n: "n < LENGTH(32)"
  consider "n < 8" | "8 \<le> n" "n < 16" | "16 \<le> n" "n < 24" | "24 \<le> n" by linarith
  then show "bit (kgl_http_v2_parse_uint32 (put_uint32 w @ r)) n = bit w n"
    by cases (use n in \<open>auto simp: kgl_http_v2_parse_uint32_def put_uint32_def bit_simps\<close>)
qed

lemma parse_put_uint16: "kgl_http_v2_parse_uint16 (put_uint16 w @ r) = w"
proof (rule bit_word_eqI)
  fix n assume "n < LENGTH(16)"
  then show "bit (kgl_http_v2_parse_uint16 (put_uint16 w @ r)) n = bit w n"
    by (auto simp: kgl_http_v2_parse_uint16_def put_uint16_def bit_simps)
qed

section \<open>Frame headers\<close>

record frame_header =
  fh_length_type :: u32    \<comment> \<open>\<^verbatim>\<open>length_type\<close>, in host order\<close>
  fh_flags :: byte
  fh_stream_id :: u32

definition set_length_type :: "u32 \<Rightarrow> u32 \<Rightarrow> u32" where
  "set_length_type len type = push_bit 8 len OR type"

definition frame_header_bytes :: "frame_header \<Rightarrow> byte list" where
  "frame_header_bytes h = put_uint32 (fh_length_type h) @ [fh_flags h] @ put_uint32 (fh_stream_id h)"

definition kgl_http_v2_parse_length :: "u32 \<Rightarrow> u32" where
  "kgl_http_v2_parse_length p = drop_bit 8 p"

definition kgl_http_v2_parse_type :: "u32 \<Rightarrow> u32" where
  "kgl_http_v2_parse_type p = p AND 0xff"

definition kgl_http_v2_parse_sid :: "byte list \<Rightarrow> u32" where
  "kgl_http_v2_parse_sid p = kgl_http_v2_parse_uint32 p AND 0x7fffffff"

definition kgl_http_v2_parse_window :: "byte list \<Rightarrow> u32" where
  "kgl_http_v2_parse_window p = kgl_http_v2_parse_uint32 p AND 0x7fffffff"

text \<open>What \<^verbatim>\<open>state_head\<close> reads: length, type, flags and stream of a frame, and the octets after it.\<close>

definition parse_head :: "byte list \<Rightarrow> u32 \<times> u32 \<times> byte \<times> u32 \<times> byte list" where
  "parse_head pos = (
     let head = kgl_http_v2_parse_uint32 pos in
     (kgl_http_v2_parse_length head, kgl_http_v2_parse_type head, pos ! 4,
      kgl_http_v2_parse_sid (drop 5 pos), drop 9 pos))"

section \<open>Frames the connection sends\<close>

text \<open>\<^verbatim>\<open>get_frame\<close>: the zeroed payload of \<open>len\<close> octets is filled in by the caller.\<close>

definition get_frame :: "u32 \<Rightarrow> nat \<Rightarrow> u32 \<Rightarrow> byte \<Rightarrow> byte list" where
  "get_frame sid len type flags =
     frame_header_bytes \<lparr>fh_length_type = set_length_type (of_nat len) type,
       fh_flags = flags, fh_stream_id = sid\<rparr> @ replicate len 0"

definition fill_frame :: "byte list \<Rightarrow> byte list \<Rightarrow> byte list" where
  "fill_frame frame payload = take 9 frame @ payload @ drop (9 + length payload) frame"

definition KGL_HTTP_V2_RST_STREAM_FRAME :: u32 where "KGL_HTTP_V2_RST_STREAM_FRAME = 0x3"
definition KGL_HTTP_V2_SETTINGS_FRAME :: u32 where "KGL_HTTP_V2_SETTINGS_FRAME = 0x4"
definition KGL_HTTP_V2_PING_FRAME :: u32 where "KGL_HTTP_V2_PING_FRAME = 0x6"
definition KGL_HTTP_V2_GOAWAY_FRAME :: u32 where "KGL_HTTP_V2_GOAWAY_FRAME = 0x7"
definition KGL_HTTP_V2_WINDOW_UPDATE_FRAME :: u32 where "KGL_HTTP_V2_WINDOW_UPDATE_FRAME = 0x8"
definition KGL_HTTP_V2_ACK_FLAG :: byte where "KGL_HTTP_V2_ACK_FLAG = 1"
definition KGL_HTTP_V2_STREAM_RECV_WINDOW :: u32 where "KGL_HTTP_V2_STREAM_RECV_WINDOW = 262143"
definition KGL_HTTP_V2_MAX_FRAME_SIZE :: u32 where "KGL_HTTP_V2_MAX_FRAME_SIZE = push_bit 24 1 - 1"

definition rst_stream_frame :: "u32 \<Rightarrow> u32 \<Rightarrow> byte list" where
  "rst_stream_frame sid status =
     fill_frame (get_frame sid 4 KGL_HTTP_V2_RST_STREAM_FRAME 0) (put_uint32 status)"

definition window_update_frame :: "u32 \<Rightarrow> u64 \<Rightarrow> byte list" where
  "window_update_frame sid window =
     fill_frame (get_frame sid 4 KGL_HTTP_V2_WINDOW_UPDATE_FRAME 0) (put_uint32 (ucast window))"

definition goaway_frame :: "u32 \<Rightarrow> u32 \<Rightarrow> byte list" where
  "goaway_frame last_peer_sid error_code =
     fill_frame (get_frame 0 8 KGL_HTTP_V2_GOAWAY_FRAME 0)
       (put_uint32 last_peer_sid @ put_uint32 error_code)"

text \<open>The answer of \<^verbatim>\<open>state_ping\<close>: the frame is not filled in.\<close>

definition ping_ack_frame :: "byte list" where
  "ping_ack_frame = get_frame 0 8 KGL_HTTP_V2_PING_FRAME KGL_HTTP_V2_ACK_FLAG"

definition settings_ack_frame :: "byte list" where
  "settings_ack_frame = frame_header_bytes \<lparr>fh_length_type = set_length_type 0 KGL_HTTP_V2_SETTINGS_FRAME,
     fh_flags = KGL_HTTP_V2_ACK_FLAG, fh_stream_id = 0\<rparr>"

text \<open>\<^verbatim>\<open>send_settings\<close>: identifier and value of each parameter, in the order sent.\<close>

definition settings_sent :: "u32 \<Rightarrow> (16 word \<times> u32) list" where
  "settings_sent max_stream =
     [(3, max_stream), (4, KGL_HTTP_V2_STREAM_RECV_WINDOW), (5, KGL_HTTP_V2_MAX_FRAME_SIZE), (8, 1)]"

definition settings_frame :: "u32 \<Rightarrow> byte list" where
  "settings_frame max_stream =
     frame_header_bytes \<lparr>fh_length_type = set_length_type 24 KGL_HTTP_V2_SETTINGS_FRAME,
       fh_flags = 0, fh_stream_id = 0\<rparr> @
     concat (map (\<lambda>(i, v). put_uint16 i @ put_uint32 v) (settings_sent max_stream))"

text \<open>The reader of the peer's parameters in \<^verbatim>\<open>state_settings_params\<close>, six octets each.\<close>

fun parse_settings :: "byte list \<Rightarrow> (16 word \<times> u32) list" where
  "parse_settings (a # b # c # d # e # f # pos) =
     (kgl_http_v2_parse_uint16 [a, b], kgl_http_v2_parse_uint32 [c, d, e, f]) # parse_settings pos"
| "parse_settings _ = []"

section \<open>Prefix integers\<close>

text \<open>
  The octets \<^verbatim>\<open>write_int\<close> emits. The values are 64-bit and only shrink on the way, so they are
  naturals.
\<close>

fun write_int_rest :: "nat \<Rightarrow> byte list" where
  "write_int_rest v = (if v \<ge> 128 then of_nat (v mod 128 + 128) # write_int_rest (v div 128) else [of_nat v])"

declare write_int_rest.simps [simp del]

definition write_int :: "byte \<Rightarrow> nat \<Rightarrow> nat \<Rightarrow> byte list" where
  "write_int type prefix val = (
     if val < prefix then [type OR of_nat val]
     else (type OR of_nat prefix) # write_int_rest (val - prefix))"

definition KGL_HTTP_V2_INT_OCTETS :: nat where
  "KGL_HTTP_V2_INT_OCTETS = 4"

text \<open>
  \<^verbatim>\<open>parse_int\<close> on the octets from \<^verbatim>\<open>*pos\<close> to \<^verbatim>\<open>end\<close>, with \<open>len\<close> octets of the frame left: the
  value, the rest of the input and what is left of the frame, or one of the negative codes.
\<close>

datatype int_result = Int_Value nat "byte list" nat | KGL_ERROR | KGL_AGAIN | KGL_DECLINED

fun parse_int_loop :: "nat \<Rightarrow> nat \<Rightarrow> nat \<Rightarrow> byte list \<Rightarrow> (nat \<times> nat) option" where
  "parse_int_loop val shift used [] = None"
| "parse_int_loop val shift used (octet # p) = (
     let val = val + unat (octet AND 0x7f) * 2 ^ shift in
     if octet < 128 then Some (val, used + 1) else parse_int_loop val (shift + 7) (used + 1) p)"

definition parse_int :: "nat \<Rightarrow> byte list \<Rightarrow> nat \<Rightarrow> int_result" where
  "parse_int len pos prefix = (
     let val = unat (hd pos AND of_nat prefix) in
     if val \<noteq> prefix then (if len = 0 then KGL_ERROR else Int_Value val (tl pos) (len - 1))
     else let window = take KGL_HTTP_V2_INT_OCTETS pos in
       case parse_int_loop val 0 1 (tl window) of
         Some (val, used) \<Rightarrow>
           if used > len then KGL_ERROR else Int_Value val (drop used pos) (len - used)
       | None \<Rightarrow>
           if length window \<ge> len then KGL_ERROR
           else if length window = KGL_HTTP_V2_INT_OCTETS then KGL_DECLINED else KGL_AGAIN)"

section \<open>Frame headers round trip\<close>

lemma length_put_uint32 [simp]: "length (put_uint32 w) = 4"
  by (simp add: put_uint32_def)

lemma set_length_type_parts:
  assumes "unat len < 2 ^ 24" "unat type < 2 ^ 8"
  shows "kgl_http_v2_parse_length (set_length_type len type) = len"
    and "kgl_http_v2_parse_type (set_length_type len type) = type"
proof -
  have l: "take_bit 24 len = len" and t: "take_bit 8 type = type"
    using assms by (simp_all add: take_bit_word_self)
  have lb: "bit len n \<Longrightarrow> n < 24" and tb: "bit type n \<Longrightarrow> n < 8" for n
    by (metis l t bit_take_bit_iff)+
  show "kgl_http_v2_parse_length (set_length_type len type) = len"
    by (rule bit_word_eqI)
      (auto simp: kgl_http_v2_parse_length_def set_length_type_def bit_simps dest: lb tb)
  have "kgl_http_v2_parse_type w = take_bit 8 w" for w
    by (simp add: kgl_http_v2_parse_type_def take_bit_eq_mask mask_eq_exp_minus_1)
  then show "kgl_http_v2_parse_type (set_length_type len type) = type"
    by (intro bit_word_eqI) (auto simp: set_length_type_def bit_simps dest: tb)
qed

lemma parse_sid_put:
  assumes "unat sid < 2 ^ 31"
  shows "kgl_http_v2_parse_sid (put_uint32 sid @ r) = sid"
proof -
  have "w AND 0x7fffffff = take_bit 31 w" for w :: u32
    by (simp add: take_bit_eq_mask mask_eq_exp_minus_1)
  with assms show ?thesis
    by (simp add: kgl_http_v2_parse_sid_def parse_put_uint32 take_bit_word_self)
qed

lemma parse_head_bytes:
  assumes "unat len < 2 ^ 24" "unat type < 2 ^ 8" "unat sid < 2 ^ 31"
  shows "parse_head (frame_header_bytes \<lparr>fh_length_type = set_length_type len type, fh_flags = flags,
    fh_stream_id = sid\<rparr> @ r) = (len, type, flags, sid, r)"
proof -
  have "drop 5 (put_uint32 a @ flags # put_uint32 sid @ r) = put_uint32 sid @ r"
    "drop 9 (put_uint32 a @ flags # put_uint32 sid @ r) = r"
    "(put_uint32 a @ flags # put_uint32 sid @ r) ! 4 = flags" for a
    by (simp_all add: put_uint32_def)
  with assms show ?thesis
    by (simp add: parse_head_def frame_header_bytes_def parse_put_uint32 set_length_type_parts parse_sid_put
        Let_def)
qed

lemma parse_settings_put:
  "parse_settings (concat (map (\<lambda>(i, v). put_uint16 i @ put_uint32 v) ps)) = ps"
proof (induction ps)
  case (Cons p ps)
  obtain i v where p: "p = (i, v)" by (cases p)
  have "kgl_http_v2_parse_uint16 (put_uint16 i) = i" "kgl_http_v2_parse_uint32 (put_uint32 v) = v"
    using parse_put_uint16 [of i "[]"] parse_put_uint32 [of v "[]"] by simp_all
  with Cons p show ?case by (simp add: put_uint16_def put_uint32_def)
qed simp

section \<open>Prefix integers round trip\<close>

lemma byte_7f: "unat (b AND 0x7f :: byte) = unat b mod 128"
  using unat_and_mask [of b 7] by simp

lemma write_rest_octet:
  "unat (of_nat (v mod 128 + 128) AND 0x7f :: byte) = v mod 128"
  "\<not> (of_nat (v mod 128 + 128) :: byte) < 128"
  "v < 128 \<Longrightarrow> unat (of_nat v AND 0x7f :: byte) = v"
  "v < 128 \<Longrightarrow> (of_nat v :: byte) < 128"
proof -
  have "unat (of_nat (v mod 128 + 128) :: byte) = (v mod 128 + 128) mod 256"
    by (simp only: unat_of_nat) simp
  then have "unat (of_nat (v mod 128 + 128) :: byte) = v mod 128 + 128" by simp
  then show "unat (of_nat (v mod 128 + 128) AND 0x7f :: byte) = v mod 128"
    "\<not> (of_nat (v mod 128 + 128) :: byte) < 128"
    unfolding byte_7f word_less_nat_alt by (simp_all del: of_nat_add)
  show "unat (of_nat v AND 0x7f :: byte) = v" "(of_nat v :: byte) < 128" if "v < 128"
    unfolding byte_7f word_less_nat_alt using that by (simp_all add: unat_of_nat)
qed

lemma parse_int_loop_write:
  "v < 128 ^ k \<Longrightarrow> 0 < k \<Longrightarrow>
   parse_int_loop a s u (take k (write_int_rest v @ r)) = Some (a + v * 2 ^ s, u + length (write_int_rest v)) \<and>
   length (write_int_rest v) \<le> k"
proof (induction v arbitrary: k a s u rule: write_int_rest.induct)
  case (1 v)
  obtain k' where k: "k = Suc k'" using 1(3) by (cases k) auto
  show ?case
  proof (cases "v \<ge> 128")
    case True
    have v': "v div 128 < 128 ^ k'" using 1(2) k by (simp add: less_mult_imp_div_less mult.commute)
    moreover have "0 < k'" using True 1(2) k by (cases k') auto
    ultimately have ih: "parse_int_loop (a + v mod 128 * 2 ^ s) (s + 7) (u + 1) (take k' (write_int_rest (v div 128) @ r)) =
        Some (a + v mod 128 * 2 ^ s + v div 128 * 2 ^ (s + 7), u + 1 + length (write_int_rest (v div 128)))"
      "length (write_int_rest (v div 128)) \<le> k'"
      using 1(1) [OF True, of k' "a + v mod 128 * 2 ^ s" "s + 7" "u + 1"] by blast+
    have "v mod 128 * 2 ^ s + v div 128 * 2 ^ (s + 7) = (v mod 128 + 128 * (v div 128)) * 2 ^ s"
      by (simp only: power_add distrib_right mult.assoc mult.left_commute [of 128]) (simp add: mult.commute)
    also have "v mod 128 + 128 * (v div 128) = v" by simp
    finally have "v mod 128 * 2 ^ s + v div 128 * 2 ^ (s + 7) = v * 2 ^ s" .
    with ih True show ?thesis
      by (subst (1 2 3) write_int_rest.simps) (simp add: k write_rest_octet Let_def add.assoc del: of_nat_add)
  next
    case False
    then show ?thesis
      by (subst (1 2 3) write_int_rest.simps) (simp add: k write_rest_octet Let_def)
  qed
qed

text \<open>The type bits of \<^verbatim>\<open>write_int\<close> and the \<open>n\<close>-bit prefix are disjoint.\<close>

lemma prefix_octet:
  assumes "n \<le> 8" "type AND of_nat (2 ^ n - 1) = (0 :: byte)" "v \<le> 2 ^ n - 1"
  shows "unat ((type OR of_nat v) AND of_nat (2 ^ n - 1) :: byte) = v"
proof -
  have m: "(of_nat (2 ^ n - 1) :: byte) = 2 ^ n - 1" by (simp add: of_nat_diff)
  have "v < 2 ^ n" using assms(3) by (metis One_nat_def Suc_pred le_imp_less_Suc zero_less_numeral zero_less_power)
  moreover have "(2::nat) ^ n \<le> 2 ^ 8" using assms(1) by (intro power_increasing) auto
  ultimately have v: "unat (of_nat v :: byte) = v" by (simp add: unat_of_nat)
  have "(type OR of_nat v) AND (2 ^ n - 1) = (type AND (2 ^ n - 1)) OR (of_nat v AND (2 ^ n - 1))"
    by (rule bit.conj_disj_distrib2)
  then have "unat ((type OR of_nat v) AND (2 ^ n - 1) :: byte) = unat (of_nat v AND (2 ^ n - 1) :: byte)"
    using assms(2) by (simp add: m)
  also have "\<dots> = v" using \<open>v < 2 ^ n\<close> by (simp only: unat_and_mask v) simp
  finally show ?thesis by (simp only: m)
qed

lemma parse_write_int:
  assumes n: "n \<le> 8" and type: "type AND of_nat (2 ^ n - 1) = (0 :: byte)"
    and val: "val < 2 ^ n - 1 + 2 ^ 21" and len: "length (write_int type (2 ^ n - 1) val) \<le> len"
  shows "parse_int len (write_int type (2 ^ n - 1) val @ r) (2 ^ n - 1) =
    Int_Value val r (len - length (write_int type (2 ^ n - 1) val))"
proof (cases "val < 2 ^ n - 1")
  case True
  then have "unat ((type OR of_nat val) AND of_nat (2 ^ n - 1) :: byte) = val"
    by (intro prefix_octet n type) simp
  with True len show ?thesis by (simp add: parse_int_def write_int_def)
next
  case False
  let ?v = "val - (2 ^ n - 1)"
  have "?v < 128 ^ 3" using val False by simp
  from parse_int_loop_write [OF this, of "2 ^ n - 1" 0 1 r]
  have loop: "parse_int_loop (2 ^ n - 1) 0 1 (take 3 (write_int_rest ?v @ r)) =
      Some (2 ^ n - 1 + ?v, 1 + length (write_int_rest ?v))"
    by (simp only: zero_less_numeral simp_thms power_0 mult_1_right)
  have "unat ((type OR of_nat (2 ^ n - 1)) AND of_nat (2 ^ n - 1) :: byte) = 2 ^ n - 1"
    by (intro prefix_octet n type) simp
  with False loop len show ?thesis
    by (simp add: parse_int_def write_int_def KGL_HTTP_V2_INT_OCTETS_def)
qed

lemma parse_int_loop_bound:
  "parse_int_loop a s u p = Some (v, k) \<Longrightarrow>
   v + 2 ^ s \<le> a + 2 ^ s * 128 ^ length p \<and> u < k \<and> k \<le> u + length p"
proof (induction a s u p rule: parse_int_loop.induct)
  case (2 a s u b p)
  let ?c = "unat (b AND 0x7f)" and ?m = "128 ^ length p :: nat"
  have "?c + 1 \<le> 128" by (simp add: byte_7f Suc_le_eq)
  then have "(?c + 1) * 2 ^ s \<le> 128 * 2 ^ s" by (rule mult_le_mono1)
  then have c: "?c * 2 ^ s + 2 ^ s \<le> 128 * 2 ^ s" by simp
  show ?case
  proof (cases "b < 128")
    case True
    have "(1::nat) \<le> ?m" by simp
    then have "128 * 2 ^ s * 1 \<le> 128 * 2 ^ s * ?m" by (rule mult_le_mono2)
    then have "128 * 2 ^ s \<le> 2 ^ s * (128 ^ length (b # p) :: nat)" by simp
    moreover have "v = a + ?c * 2 ^ s" "k = u + 1" using True 2(2) by (auto simp: Let_def)
    moreover have "v + 2 ^ s \<le> a + 2 ^ s * 128 ^ length (b # p)" using calculation c by linarith
    ultimately show ?thesis by simp
  next
    case False
    with 2 have "v + 2 ^ (s + 7) \<le> a + ?c * 2 ^ s + 2 ^ (s + 7) * ?m" "u + 1 < k" "k \<le> u + 1 + length p"
      by (auto simp: Let_def)
    moreover have "2 ^ (s + 7) = 128 * (2 ^ s :: nat)" "2 ^ (s + 7) * ?m = 2 ^ s * 128 ^ length (b # p)"
      by (simp_all add: power_add)
    ultimately have "v + 2 ^ s \<le> a + 2 ^ s * 128 ^ length (b # p)" using c by linarith
    with \<open>u + 1 < k\<close> \<open>k \<le> u + 1 + length p\<close> show ?thesis by simp
  qed
qed simp

lemma parse_int_value_bound:
  assumes v: "parse_int len pos (2 ^ n - 1) = Int_Value val r len'" and "pos \<noteq> []"
  shows "val < 2 ^ n - 1 + 2 ^ 21 \<and>
    (\<exists>k. 0 < k \<and> k \<le> 4 \<and> k \<le> length pos \<and> r = drop k pos \<and> len' + k = len)"
proof -
  let ?m = "2 ^ n - 1 :: nat"
  obtain b p where pos: "pos = b # p" using assms(2) by (cases pos) auto
  show ?thesis
  proof (cases "unat (b AND of_nat ?m) = ?m")
    case False
    have "(of_nat ?m :: byte) = 2 ^ n - 1" by (simp add: of_nat_diff)
    then have "unat (b AND of_nat ?m) = unat b mod 2 ^ n" by (simp only: unat_and_mask)
    moreover have "unat b mod 2 ^ n < 2 ^ n" by simp
    then have "unat b mod 2 ^ n \<le> ?m" by linarith
    ultimately have "unat (b AND of_nat ?m) \<le> ?m" by (simp only:)
    then have "unat (b AND of_nat ?m) < ?m + 2 ^ 21" by simp
    with False v pos show ?thesis
      by (auto simp: parse_int_def split: if_splits intro!: exI [of _ 1])
  next
    case True
    then obtain k where l: "parse_int_loop ?m 0 1 (take 3 p) = Some (val, k)" "k \<le> len"
      "r = drop k pos" "len' = len - k"
      using v pos by (auto simp: parse_int_def KGL_HTTP_V2_INT_OCTETS_def Let_def split: option.splits if_splits)
    note b = parse_int_loop_bound [OF l(1)]
    have "length (take 3 p) \<le> 3" by simp
    then have "(128::nat) ^ length (take 3 p) \<le> 128 ^ 3" by (intro power_increasing) auto
    moreover have "(128::nat) ^ 3 = 2 ^ 21" by simp
    ultimately have "(128::nat) ^ length (take 3 p) \<le> 2 ^ 21" by (simp only:)
    moreover have "val + 1 \<le> ?m + 128 ^ length (take 3 p)"
      using b by (simp only: power_0 mult_1_left)
    ultimately have "val < ?m + 2 ^ 21" by linarith
    moreover have "k \<le> 4" "k \<le> length pos" using b pos by auto
    ultimately show ?thesis using b l by (intro conjI exI [of _ k]) auto
  qed
qed

section \<open>Properties\<close>

text \<open>
  A frame header is read back as it was written: any length below \<open>2^24\<close>, type, flags and
  31-bit stream identifier survive \<^verbatim>\<open>set_length_type\<close>, the byte order and \<^verbatim>\<open>state_head\<close>.
\<close>

theorem frame_header_roundtrip:
  assumes "unat len < 2 ^ 24" "unat type < 2 ^ 8" "unat sid < 2 ^ 31"
  shows "parse_head (frame_header_bytes \<lparr>fh_length_type = set_length_type len type, fh_flags = flags,
    fh_stream_id = sid\<rparr> @ payload) = (len, type, flags, sid, payload)"
  using assms by (rule parse_head_bytes)

theorem frame_header_roundtrip_witness:
  "parse_head (frame_header_bytes \<lparr>fh_length_type = set_length_type 16384 1, fh_flags = 4,
    fh_stream_id = 7\<rparr> @ [9]) = (16384, 1, 4, 7, [9])"
  by (rule frame_header_roundtrip) simp_all

text \<open>
  The SETTINGS frame announces its four parameters: its header carries the payload's
  length, stream 0 and no flags, and the peer's parser reads back exactly what was meant.
\<close>

theorem settings_frame_parses:
  "\<exists>payload. parse_head (settings_frame max_stream) = (24, KGL_HTTP_V2_SETTINGS_FRAME, 0, 0, payload) \<and>
     length payload = 24 \<and> parse_settings payload = settings_sent max_stream"
proof -
  let ?p = "concat (map (\<lambda>(i, v). put_uint16 i @ put_uint32 v) (settings_sent max_stream))"
  have "parse_head (settings_frame max_stream) = (24, KGL_HTTP_V2_SETTINGS_FRAME, 0, 0, ?p)"
    unfolding settings_frame_def
    by (rule parse_head_bytes) (simp_all add: KGL_HTTP_V2_SETTINGS_FRAME_def)
  moreover have "length ?p = 24" by (simp add: settings_sent_def put_uint16_def)
  ultimately show ?thesis using parse_settings_put by blast
qed

text \<open>
  HPACK integers round trip. What \<^verbatim>\<open>write_int\<close> emits for a value less than \<open>2^21\<close> above the
  prefix, \<^verbatim>\<open>parse_int\<close> reads back, consuming exactly these octets and taking them off the
  frame's length, whatever follows.
\<close>

theorem prefix_int_roundtrip:
  assumes "n \<le> 8" "type AND of_nat (2 ^ n - 1) = (0 :: byte)" "val < 2 ^ n - 1 + 2 ^ 21"
    and "length (write_int type (2 ^ n - 1) val) \<le> len"
  shows "parse_int len (write_int type (2 ^ n - 1) val @ r) (2 ^ n - 1) =
    Int_Value val r (len - length (write_int type (2 ^ n - 1) val))"
  using assms by (rule parse_write_int)

theorem prefix_int_roundtrip_witness:
  "parse_int 10 (write_int 0 (2 ^ 5 - 1) 1337 @ [1]) (2 ^ 5 - 1) = Int_Value 1337 [1] 7"
proof -
  have "length (write_int 0 (2 ^ 5 - 1) 1337) = 3"
    by (simp add: write_int_def write_int_rest.simps)
  with prefix_int_roundtrip [of 5 0 1337 10 "[1]"] show ?thesis by simp
qed

text \<open>
  A successful \<^verbatim>\<open>parse_int\<close> returns a value below \<open>2^21\<close> above the prefix, has consumed one to
  four octets that were there, and has taken as many off the frame's length, which never
  wraps below zero.
\<close>

theorem parse_int_bound:
  assumes "parse_int len pos (2 ^ n - 1) = Int_Value val r len'" "pos \<noteq> []"
  shows "val < 2 ^ n - 1 + 2 ^ 21 \<and>
    (\<exists>k. 0 < k \<and> k \<le> 4 \<and> k \<le> length pos \<and> r = drop k pos \<and> len' + k = len)"
  using assms by (rule parse_int_value_bound)

theorem parse_int_bound_witness:
  "\<exists>k. 0 < k \<and> k \<le> 4 \<and> [9 :: byte] = drop k [0x1f, 0x9a, 0x0a, 9] \<and> 1 + k = (4 :: nat)"
proof -
  have "parse_int 4 [0x1f, 0x9a, 0x0a, 9] (2 ^ 5 - 1) = Int_Value 1337 [9] 1"
    by (simp add: parse_int_def KGL_HTTP_V2_INT_OCTETS_def)
  from parse_int_bound [OF this] show ?thesis by auto
qed

text \<open>
  The acknowledgement of a PING carries eight zero octets, whatever the PING carried,
  instead of its opaque data.
\<close>

theorem ping_ack_zero:
  "parse_head ping_ack_frame = (8, KGL_HTTP_V2_PING_FRAME, KGL_HTTP_V2_ACK_FLAG, 0, replicate 8 0)"
  unfolding ping_ack_frame_def get_frame_def
  using parse_head_bytes [of 8 KGL_HTTP_V2_PING_FRAME 0 KGL_HTTP_V2_ACK_FLAG "replicate 8 0"]
  by (simp add: KGL_HTTP_V2_PING_FRAME_def)

end
