(* ===== verification/KSendBuffer.thy ===== *)
theory KSendBuffer
  imports KPrelude "HOL-Library.Monad_Syntax"
begin

text \<open>
  The receive buffer of an HTTP/2 stream: \<^verbatim>\<open>include/KSendBuffer.h\<close>, a linked list of
  \<^verbatim>\<open>kbuf\<close> chunks with a read position inside the first one, and its consumer
  \<^verbatim>\<open>KHttp2::copy_read_buffer\<close>. The theory opens with the contract of a byte queue that this
  buffer and the write buffer of a connection both keep.
\<close>

section \<open>The contract of a byte queue\<close>

locale byte_queue =
  fixes ok :: "'q \<Rightarrow> bool"
    and content :: "'q \<Rightarrow> 'a list"
    and peek :: "'q \<Rightarrow> 'a list"
    and fits :: "'s \<Rightarrow> bool"
    and octets :: "'s \<Rightarrow> 'a list"
    and push :: "'s \<Rightarrow> 'q \<Rightarrow> 'q"
    and consume :: "nat \<Rightarrow> 'q \<Rightarrow> 'q"
  assumes ok_push: "ok q \<Longrightarrow> fits s \<Longrightarrow> ok (push s q)"
    and content_push: "ok q \<Longrightarrow> fits s \<Longrightarrow> content (push s q) = content q @ octets s"
    and ok_consume: "ok q \<Longrightarrow> n \<le> length (peek q) \<Longrightarrow> ok (consume n q)"
    and content_consume: "ok q \<Longrightarrow> n \<le> length (peek q) \<Longrightarrow> content (consume n q) = drop n (content q)"
    and peek_take: "ok q \<Longrightarrow> peek q = take (length (peek q)) (content q)"
    and peek_progress: "ok q \<Longrightarrow> content q \<noteq> [] \<Longrightarrow> peek q \<noteq> []"
begin

lemma length_peek: "ok q \<Longrightarrow> length (peek q) \<le> length (content q)"
  by (metis peek_take length_take min.cobounded1)

text \<open>One round of a reader that takes at most \<open>n\<close> octets of what the queue shows.\<close>

definition take_peek :: "nat \<Rightarrow> 'q \<Rightarrow> 'a list" where
  "take_peek n q = take n (peek q)"

definition rest :: "nat \<Rightarrow> 'q \<Rightarrow> 'q" where
  "rest n q = consume (length (take_peek n q)) q"

lemma take_peek_content:
  assumes "ok q"
  shows "take_peek n q @ content (rest n q) = content q" and "ok (rest n q)"
proof -
  let ?k = "min n (length (peek q))"
  have "take_peek n q = take n (take (length (peek q)) (content q))"
    unfolding take_peek_def using peek_take [OF assms] by metis
  then have "take_peek n q = take ?k (content q)" by (simp add: min.commute)
  moreover have k: "length (take_peek n q) = ?k" by (simp add: take_peek_def min.commute)
  ultimately show "take_peek n q @ content (rest n q) = content q"
    by (simp add: rest_def content_consume assms)
  show "ok (rest n q)" by (simp add: rest_def k ok_consume assms)
qed

lemma take_peek_progress:
  "ok q \<Longrightarrow> content q \<noteq> [] \<Longrightarrow> 0 < n \<Longrightarrow> 0 < length (take_peek n q)"
  using peek_progress by (auto simp: take_peek_def)

text \<open>
  A reader that takes what the queue shows, at most \<open>ns ! i\<close> octets in round \<open>i\<close>, while a writer
  pushes \<open>ws ! i\<close> after it: what was read, followed by what is left, is what was in the queue
  followed by what was pushed.
\<close>

fun interleave :: "(nat \<times> 's list) list \<Rightarrow> 'q \<Rightarrow> 'a list \<times> 'q" where
  "interleave [] q = ([], q)"
| "interleave ((n, ws) # rounds) q = (
     let (out, q') = interleave rounds (fold push ws (rest n q)) in (take_peek n q @ out, q'))"

lemma fold_push:
  "ok q \<Longrightarrow> \<forall>s \<in> set ws. fits s \<Longrightarrow>
   ok (fold push ws q) \<and> content (fold push ws q) = content q @ concat (map octets ws)"
  by (induction ws arbitrary: q) (simp_all add: ok_push content_push)

lemma interleave_fifo:
  "ok q \<Longrightarrow> \<forall>(n, ws) \<in> set rounds. \<forall>s \<in> set ws. fits s \<Longrightarrow> interleave rounds q = (out, q') \<Longrightarrow>
   ok q' \<and> out @ content q' = content q @ concat (map octets (concat (map snd rounds)))"
proof (induction rounds arbitrary: q out q')
  case (Cons r rounds)
  obtain n ws where r: "r = (n, ws)" by (cases r)
  let ?q = "fold push ws (rest n q)"
  obtain o1 q1 where i: "interleave rounds ?q = (o1, q1)" by (metis surj_pair)
  have f: "ok ?q" "content ?q = content (rest n q) @ concat (map octets ws)"
    using fold_push [OF take_peek_content(2) [OF Cons.prems(1)]] Cons.prems(2) r by auto
  from Cons.IH [OF f(1) _ i] Cons.prems(2)
  have ih: "ok q1 \<and> o1 @ content q1 = content ?q @ concat (map octets (concat (map snd rounds)))"
    by simp
  have "out = take_peek n q @ o1" "q' = q1" using Cons.prems(3) r i by auto
  with ih f(2) show ?case
    by (simp add: r flip: take_peek_content(1) [OF Cons.prems(1), of n])
qed simp

end

section \<open>The chunk list\<close>

text \<open>
  \<open>sb_bufs\<close> are the octets of the chunks from \<^verbatim>\<open>header\<close> to \<^verbatim>\<open>last\<close> (\<^verbatim>\<open>used\<close> is the length of a
  chunk), \<open>sb_hot\<close> is \<^verbatim>\<open>hot - header->data\<close>, 0 when there is no chunk.
\<close>

record ksend_buffer =
  sb_bufs :: "byte list list"
  sb_hot :: nat
  sb_total :: int

definition sb_empty :: ksend_buffer where
  "sb_empty = \<lparr>sb_bufs = [], sb_hot = 0, sb_total = 0\<rparr>"

definition sb_clean :: "ksend_buffer \<Rightarrow> ksend_buffer" where
  "sb_clean q = sb_empty"

definition sb_add :: "byte list \<Rightarrow> ksend_buffer \<Rightarrow> ksend_buffer" where
  "sb_add buf q = (let q = q\<lparr>sb_total := sb_total q + int (length buf)\<rparr> in
     if sb_bufs q = [] then q\<lparr>sb_bufs := [buf], sb_hot := 0\<rparr>
     else q\<lparr>sb_bufs := sb_bufs q @ [buf]\<rparr>)"

definition sb_append :: "byte list \<Rightarrow> ksend_buffer \<Rightarrow> ksend_buffer" where
  "sb_append str q = sb_add str q"

text \<open>\<^verbatim>\<open>pushHead\<close> asserts that nothing of the first chunk was read.\<close>

definition sb_pushHead :: "byte list \<Rightarrow> ksend_buffer \<Rightarrow> ksend_buffer option" where
  "sb_pushHead str q = (
     if sb_bufs q = [] then Some (sb_add str q)
     else if sb_hot q \<noteq> 0 then None
     else Some (q\<lparr>sb_bufs := str # sb_bufs q, sb_hot := 0, sb_total := sb_total q + int (length str)\<rparr>))"

text \<open>
  \<^verbatim>\<open>getReadBuffer\<close> into an array of \<open>bc\<close> buffers, and the overload for one buffer. It asserts that there
  is a chunk: its caller \<open>copy_read_loop\<close> below does not come to it without one.
\<close>

definition sb_getReadBuffers :: "nat \<Rightarrow> ksend_buffer \<Rightarrow> byte list list" where
  "sb_getReadBuffers bc q = (case sb_bufs q of
     [] \<Rightarrow> [] | b # bs \<Rightarrow> drop (sb_hot q) b # take (bc - 1) bs)"

definition sb_getReadBuffer :: "ksend_buffer \<Rightarrow> byte list" where
  "sb_getReadBuffer q = (case sb_getReadBuffers 1 q of [] \<Rightarrow> [] | b # _ \<Rightarrow> b)"

text \<open>
  The loop of \<^verbatim>\<open>readSuccess\<close>. A round that leaves octets in the first chunk has consumed
  \<open>got\<close>, so the loop ends there; it also ends when the last chunk is used up, and then nothing of
  \<open>got\<close> and nothing of the length counter may be left: the source asserts both (\<open>None\<close>). Octets that
  are not there are read through a null pointer (\<open>None\<close>).
\<close>

fun sb_read_loop :: "nat \<Rightarrow> byte list list \<Rightarrow> nat \<Rightarrow> (bool \<times> byte list list \<times> nat) option" where
  "sb_read_loop got [] hot = (if got = 0 then Some (True, [], hot) else None)"
| "sb_read_loop got (b # bs) hot = (
     if got = 0 then Some (True, b # bs, hot)
     else let this_len = min got (length b - hot); hot' = hot + this_len; got' = got - this_len in
       if length b = hot' then
         (if bs = [] then (if got' = 0 then Some (False, [], 0) else None) else sb_read_loop got' bs 0)
       else Some (True, b # bs, hot'))"

definition sb_readSuccess :: "nat \<Rightarrow> ksend_buffer \<Rightarrow> (bool \<times> ksend_buffer) option" where
  "sb_readSuccess got q = (
     case sb_read_loop got (sb_bufs q) (sb_hot q) of
       None \<Rightarrow> None
     | Some (alive, bufs, hot) \<Rightarrow>
         let total = sb_total q - int got in
         if \<not> alive \<and> total \<noteq> 0 then None
         else Some (alive, q\<lparr>sb_bufs := bufs, sb_hot := hot, sb_total := total\<rparr>))"

text \<open>
  \<^verbatim>\<open>KHttp2::copy_read_buffer\<close>: fill the caller's buffer of \<open>len\<close> octets. \<open>None\<close> is a loop that
  never ends or an assertion that fails: the source asserts that the buffer has a chunk, before the
  test that would return 0, and again in \<^verbatim>\<open>getReadBuffer\<close>.
\<close>

partial_function (option) copy_read_loop ::
  "ksend_buffer \<Rightarrow> nat \<Rightarrow> byte list \<Rightarrow> (byte list \<times> ksend_buffer) option" where
  "copy_read_loop q len out = (
     if len = 0 then Some (out, q)
     else if sb_bufs q = [] then None
     else let data = take len (sb_getReadBuffer q) in
       Option.bind (sb_readSuccess (length data) q) (\<lambda>(alive, q').
         if alive then copy_read_loop q' (len - length data) (out @ data)
         else Some (out @ data, q')))"

definition copy_read_buffer :: "ksend_buffer \<Rightarrow> nat \<Rightarrow> (byte list \<times> ksend_buffer) option" where
  "copy_read_buffer q len = (if sb_bufs q = [] then None else copy_read_loop q len [])"

section \<open>Invariant and content\<close>

definition sb_content :: "ksend_buffer \<Rightarrow> byte list" where
  "sb_content q = drop (sb_hot q) (concat (sb_bufs q))"

definition sb_ok :: "ksend_buffer \<Rightarrow> bool" where
  "sb_ok q \<longleftrightarrow> (\<forall>b \<in> set (sb_bufs q). b \<noteq> []) \<and>
     (case sb_bufs q of [] \<Rightarrow> sb_hot q = 0 | b # _ \<Rightarrow> sb_hot q < length b) \<and>
     sb_total q = int (length (sb_content q))"

lemma sb_ok_empty: "sb_ok sb_empty"
  by (simp add: sb_ok_def sb_empty_def sb_content_def)

lemma sb_add_ok:
  assumes "sb_ok q" "s \<noteq> []"
  shows "sb_ok (sb_add s q)" "sb_content (sb_add s q) = sb_content q @ s"
proof -
  have "sb_hot q \<le> length (concat (sb_bufs q))" using assms(1)
    by (cases "sb_bufs q") (auto simp: sb_ok_def)
  then show c: "sb_content (sb_add s q) = sb_content q @ s"
    using assms by (cases "sb_bufs q") (auto simp: sb_ok_def sb_content_def sb_add_def)
  have "sb_total (sb_add s q) = sb_total q + int (length s)" by (simp add: sb_add_def Let_def)
  with c assms show "sb_ok (sb_add s q)"
    unfolding sb_ok_def by (cases "sb_bufs q") (auto simp: sb_add_def)
qed

definition read_to :: "nat \<Rightarrow> byte list list \<Rightarrow> nat \<Rightarrow> bool \<times> byte list list \<times> nat \<Rightarrow> bool" where
  "read_to got bs hot = (\<lambda>(alive, bs', hot').
     drop hot' (concat bs') = drop (hot + got) (concat bs) \<and> (\<forall>b \<in> set bs'. b \<noteq> []) \<and>
     (case bs' of [] \<Rightarrow> hot' = 0 | b # _ \<Rightarrow> hot' < length b) \<and> (alive \<longleftrightarrow> bs' \<noteq> [] \<or> got = 0))"

lemma sb_read_loop_ok:
  assumes "\<forall>b \<in> set bs. b \<noteq> []" "bs \<noteq> [] \<longrightarrow> hot < length (hd bs)"
    "got \<le> length (drop hot (concat bs))" "bs = [] \<longrightarrow> hot = 0"
  shows "\<exists>r. sb_read_loop got bs hot = Some r \<and> read_to got bs hot r"
  using assms
proof (induction got bs hot rule: sb_read_loop.induct)
  case (1 got hot)
  then show ?case by (simp add: read_to_def)
next
  case (2 got b bs hot)
  let ?t = "min got (length b - hot)"
  show ?case
  proof (cases "got = 0 \<or> length b \<noteq> hot + ?t")
    case True
    then have "sb_read_loop got (b # bs) hot = Some (True, b # bs, if got = 0 then hot else hot + ?t)"
      by (auto simp: Let_def)
    moreover have "got \<noteq> 0 \<Longrightarrow> ?t = got" using True 2(3) by auto
    ultimately show ?thesis using True 2(2,3) by (auto simp: read_to_def)
  next
    case False
    then have t: "got \<noteq> 0" "length b = hot + ?t" by auto
    then have got: "?t = length b - hot" "length b - hot \<le> got" by auto
    show ?thesis
    proof (cases "bs = []")
      case True
      with t got 2(4) show ?thesis by (auto simp: Let_def read_to_def)
    next
      case bs: False
      have "\<exists>r. sb_read_loop (got - ?t) bs 0 = Some r \<and> read_to (got - ?t) bs 0 r"
      proof (rule 2(1) [OF t(1) refl refl refl t(2) bs])
        show "bs \<noteq> [] \<longrightarrow> 0 < length (hd bs)" "\<forall>b \<in> set bs. b \<noteq> []" using 2(2) bs by auto
        show "got - ?t \<le> length (drop 0 (concat bs))" using 2(4) got by simp
      qed simp
      then obtain alive bs' hot' where loop: "sb_read_loop (got - ?t) bs 0 = Some (alive, bs', hot')"
        and r: "read_to (got - ?t) bs 0 (alive, bs', hot')" by auto
      have "hot < length b" using 2(3) by simp
      then have e: "hot + got - length b = got - ?t" unfolding got(1) using got(2) by simp
      have "drop (hot + got) (concat (b # bs)) = drop (got - ?t) (concat bs)" using got(2) e by simp
      moreover have "got - ?t = 0 \<Longrightarrow> bs' \<noteq> []" using loop bs by (cases bs) auto
      ultimately have "read_to got (b # bs) hot (alive, bs', hot')"
        using t(1) r unfolding read_to_def prod.case by (metis add_0)
      moreover have "sb_read_loop got (b # bs) hot = Some (alive, bs', hot')" using loop t bs by (simp add: Let_def)
      ultimately show ?thesis by blast
    qed
  qed
qed

lemma sb_hot_ok: "sb_ok q \<Longrightarrow> sb_bufs q \<noteq> [] \<longrightarrow> sb_hot q < length (hd (sb_bufs q))"
  by (cases "sb_bufs q") (auto simp: sb_ok_def)

lemma sb_content_Nil: "sb_ok q \<Longrightarrow> sb_content q = [] \<longleftrightarrow> sb_bufs q = []"
  by (cases "sb_bufs q") (auto simp: sb_ok_def sb_content_def)

lemma sb_readSuccess_ok:
  assumes ok: "sb_ok q" and n: "n \<le> length (sb_content q)"
  shows "\<exists>alive q'. sb_readSuccess n q = Some (alive, q') \<and> sb_ok q' \<and> sb_content q' = drop n (sb_content q) \<and>
    (alive \<longleftrightarrow> n < length (sb_content q) \<or> n = 0)"
proof -
  have "sb_bufs q = [] \<longrightarrow> sb_hot q = 0" using ok by (auto simp: sb_ok_def)
  then obtain alive bs' hot' where l: "sb_read_loop n (sb_bufs q) (sb_hot q) = Some (alive, bs', hot')"
    and r: "read_to n (sb_bufs q) (sb_hot q) (alive, bs', hot')"
    using sb_read_loop_ok [OF _ sb_hot_ok [OF ok], of n] ok n by (auto simp: sb_ok_def sb_content_def)
  note r = r [unfolded read_to_def prod.case]
  define q' where "q' = q\<lparr>sb_bufs := bs', sb_hot := hot', sb_total := sb_total q - int n\<rparr>"
  have c: "sb_content q' = drop n (sb_content q)"
    using r by (simp add: q'_def sb_content_def add.commute)
  have ok': "sb_ok q'"
    using ok n r c unfolding sb_ok_def by (simp add: q'_def split: list.splits)
  have "bs' = [] \<longleftrightarrow> drop n (sb_content q) = []" using sb_content_Nil [OF ok'] c by (simp add: q'_def)
  then have a: "alive \<longleftrightarrow> n < length (sb_content q) \<or> n = 0" using r by auto
  then have "\<not> alive \<Longrightarrow> sb_total q - int n = 0" using ok n by (simp add: sb_ok_def)
  then have "sb_readSuccess n q = Some (alive, q')" by (auto simp: sb_readSuccess_def l Let_def q'_def)
  with ok' c a show ?thesis by blast
qed

lemma sb_getReadBuffer_take:
  assumes "sb_ok q"
  shows "sb_getReadBuffer q = take (length (sb_getReadBuffer q)) (sb_content q)"
    and "sb_content q \<noteq> [] \<Longrightarrow> sb_getReadBuffer q \<noteq> []"
  using assms by (cases "sb_bufs q";
    auto simp: sb_ok_def sb_content_def sb_getReadBuffer_def sb_getReadBuffers_def)+

lemma length_getReadBuffer: "sb_ok q \<Longrightarrow> length (sb_getReadBuffer q) \<le> length (sb_content q)"
  by (metis sb_getReadBuffer_take(1) length_take min.cobounded1)

interpretation recv: byte_queue sb_ok sb_content sb_getReadBuffer "\<lambda>s. s \<noteq> []" "\<lambda>s. s" sb_append
  "\<lambda>n q. snd (the (sb_readSuccess n q))"
proof
  fix q :: ksend_buffer and n :: nat
  assume ok: "sb_ok q" and n: "n \<le> length (sb_getReadBuffer q)"
  have "n \<le> length (sb_content q)" using n length_getReadBuffer [OF ok] by simp
  from sb_readSuccess_ok [OF ok this] show "sb_ok (snd (the (sb_readSuccess n q)))"
    "sb_content (snd (the (sb_readSuccess n q))) = drop n (sb_content q)" by auto
qed (simp_all add: sb_append_def sb_add_ok sb_getReadBuffer_take(2), rule sb_getReadBuffer_take(1))


section \<open>Properties\<close>



lemma empty_buffer_aborts: "copy_read_buffer sb_empty n = None"
  by (simp add: copy_read_buffer_def sb_empty_def)

text \<open>
  Every operation on the chunk list keeps the invariant (non-empty chunks, read position
  inside the first one, \<^verbatim>\<open>total_len\<close> the number of octets left) and acts on the octets as on
  a queue: appending adds at the end, \<^verbatim>\<open>pushHead\<close> before anything was read adds in front, and
  \<^verbatim>\<open>readSuccess\<close> drops octets and tells whether any are left.
\<close>

theorem send_buffer_queue:
  assumes "sb_ok q" "s \<noteq> []" "n \<le> length (sb_content q)"
  shows "sb_ok (sb_append s q) \<and> sb_content (sb_append s q) = sb_content q @ s \<and>
    (sb_hot q = 0 \<longrightarrow> (\<exists>q'. sb_pushHead s q = Some q' \<and> sb_ok q' \<and> sb_content q' = s @ sb_content q)) \<and>
    (\<exists>alive q'. sb_readSuccess n q = Some (alive, q') \<and> sb_ok q' \<and> sb_content q' = drop n (sb_content q) \<and>
       (alive \<longleftrightarrow> n < length (sb_content q) \<or> n = 0)) \<and>
    sb_total (sb_append s q) = int (length (sb_content q) + length s)"
proof -
  have "\<exists>q'. sb_pushHead s q = Some q' \<and> sb_ok q' \<and> sb_content q' = s @ sb_content q" if "sb_hot q = 0"
  proof (cases "sb_bufs q = []")
    case True
    with assms sb_add_ok [OF assms(1,2)] show ?thesis by (simp add: sb_pushHead_def sb_content_def)
  next
    case False
    with assms that show ?thesis by (auto simp: sb_pushHead_def sb_content_def sb_ok_def)
  qed
  moreover have "sb_total (sb_append s q) = int (length (sb_content q) + length s)"
    using recv.ok_push [OF assms(1,2)] recv.content_push [OF assms(1,2)] by (simp add: sb_ok_def)
  ultimately show ?thesis
    using recv.ok_push [OF assms(1,2)] recv.content_push [OF assms(1,2)] sb_readSuccess_ok [OF assms(1,3)]
    by blast
qed

theorem send_buffer_queue_witness:
  "sb_content (sb_append [7] sb_empty) = [7] \<and> sb_ok (sb_append [7] sb_empty)"
proof -
  have "0 \<le> length (sb_content sb_empty)" "sb_content sb_empty = []" by (simp_all add: sb_content_def sb_empty_def)
  with send_buffer_queue [OF sb_ok_empty, of "[7]" 0] show ?thesis by simp
qed

end
