(* ===== verification/KHpack.thy ===== *)
theory KHpack
  imports KPrelude
begin

text \<open>
  The HPACK header tables of \<^verbatim>\<open>src/KHttp2Table.cpp\<close>: the static table and the dynamic table
  \<^verbatim>\<open>kgl_http_v2_hpack_t\<close>. The dynamic table keeps the octets of all headers in one ring of
  4096 octets, the header descriptors as objects of the connection pool, and an array of
  pointers to them that is itself used as a ring and grows by 64 slots. Pointers into the
  ring are offsets, pointers to descriptors are object numbers, and the counters
  \<^verbatim>\<open>added\<close>, \<^verbatim>\<open>deleted\<close>, \<^verbatim>\<open>reused\<close> (64-bit, never close to wrapping) are naturals.
  The table is proved to refine the abstract table of the HPACK specification: a list of
  headers from which the oldest are evicted.
\<close>

section \<open>Model\<close>

type_synonym header = "byte list \<times> byte list"   \<comment> \<open>name and value\<close>

definition KGL_HTTP_V2_TABLE_SIZE :: nat where
  "KGL_HTTP_V2_TABLE_SIZE = 4096"

definition kgl_http_v2_static_table :: "header list" where
  "kgl_http_v2_static_table = [
    (bytes '':authority'', bytes ''''),
    (bytes '':method'', bytes ''GET''),
    (bytes '':method'', bytes ''POST''),
    (bytes '':path'', bytes ''/''),
    (bytes '':path'', bytes ''/index.html''),
    (bytes '':scheme'', bytes ''http''),
    (bytes '':scheme'', bytes ''https''),
    (bytes '':status'', bytes ''200''),
    (bytes '':status'', bytes ''204''),
    (bytes '':status'', bytes ''206''),
    (bytes '':status'', bytes ''304''),
    (bytes '':status'', bytes ''400''),
    (bytes '':status'', bytes ''404''),
    (bytes '':status'', bytes ''500''),
    (bytes ''accept-charset'', bytes ''''),
    (bytes ''accept-encoding'', bytes ''gzip, deflate''),
    (bytes ''accept-language'', bytes ''''),
    (bytes ''accept-ranges'', bytes ''''),
    (bytes ''accept'', bytes ''''),
    (bytes ''access-control-allow-origin'', bytes ''''),
    (bytes ''age'', bytes ''''),
    (bytes ''allow'', bytes ''''),
    (bytes ''authorization'', bytes ''''),
    (bytes ''cache-control'', bytes ''''),
    (bytes ''content-disposition'', bytes ''''),
    (bytes ''content-encoding'', bytes ''''),
    (bytes ''content-language'', bytes ''''),
    (bytes ''content-length'', bytes ''''),
    (bytes ''content-location'', bytes ''''),
    (bytes ''content-range'', bytes ''''),
    (bytes ''content-type'', bytes ''''),
    (bytes ''cookie'', bytes ''''),
    (bytes ''date'', bytes ''''),
    (bytes ''etag'', bytes ''''),
    (bytes ''expect'', bytes ''''),
    (bytes ''expires'', bytes ''''),
    (bytes ''from'', bytes ''''),
    (bytes ''host'', bytes ''''),
    (bytes ''if-match'', bytes ''''),
    (bytes ''if-modified-since'', bytes ''''),
    (bytes ''if-none-match'', bytes ''''),
    (bytes ''if-range'', bytes ''''),
    (bytes ''if-unmodified-since'', bytes ''''),
    (bytes ''last-modified'', bytes ''''),
    (bytes ''link'', bytes ''''),
    (bytes ''location'', bytes ''''),
    (bytes ''max-forwards'', bytes ''''),
    (bytes ''proxy-authenticate'', bytes ''''),
    (bytes ''proxy-authorization'', bytes ''''),
    (bytes ''range'', bytes ''''),
    (bytes ''referer'', bytes ''''),
    (bytes ''refresh'', bytes ''''),
    (bytes ''retry-after'', bytes ''''),
    (bytes ''server'', bytes ''''),
    (bytes ''set-cookie'', bytes ''''),
    (bytes ''strict-transport-security'', bytes ''''),
    (bytes ''transfer-encoding'', bytes ''''),
    (bytes ''user-agent'', bytes ''''),
    (bytes ''vary'', bytes ''''),
    (bytes ''via'', bytes ''''),
    (bytes ''www-authenticate'', bytes '''')]"

text \<open>\<^verbatim>\<open>strcasecmp\<close> of two strings without NUL octets is zero.\<close>

definition strcaseeq :: "byte list \<Rightarrow> byte list \<Rightarrow> bool" where
  "strcaseeq a b = (map kgl_tolower a = map kgl_tolower b)"

fun find_static_from :: "nat \<Rightarrow> header list \<Rightarrow> byte list \<Rightarrow> nat" where
  "find_static_from i [] name = 0"
| "find_static_from i ((n, v) # hs) name =
     (if strcaseeq name n then i + 1 else find_static_from (i + 1) hs name)"

definition kgl_find_http2_static_table :: "byte list \<Rightarrow> nat" where
  "kgl_find_http2_static_table name = find_static_from 0 kgl_http_v2_static_table name"

text \<open>A descriptor: the \<^verbatim>\<open>kgl_http_v2_header_t\<close> of a stored header.\<close>

record hpack_entry =
  name_len :: nat
  name_off :: nat
  value_len :: nat
  value_off :: nat

text \<open>
  \<^verbatim>\<open>kgl_http_v2_hpack_t\<close>. \<^verbatim>\<open>entries == NULL\<close> is the empty array; \<open>hp_objs\<close> and \<open>hp_nobjs\<close> are
  the descriptors allocated from the pool so far.
\<close>

record hpack =
  hp_entries :: "nat list"
  hp_objs :: "nat \<Rightarrow> hpack_entry"
  hp_nobjs :: nat
  hp_added :: nat
  hp_deleted :: nat
  hp_reused :: nat
  hp_allocated :: nat
  hp_size :: nat
  hp_free :: nat
  hp_storage :: "byte list"
  hp_pos :: nat

definition null_entry :: hpack_entry where
  "null_entry = \<lparr>name_len = 0, name_off = 0, value_len = 0, value_off = 0\<rparr>"

text \<open>The zeroed table of a new connection.\<close>

definition hpack_zero :: hpack where
  "hpack_zero = \<lparr>hp_entries = [], hp_objs = (\<lambda>_. null_entry), hp_nobjs = 0, hp_added = 0,
     hp_deleted = 0, hp_reused = 0, hp_allocated = 0, hp_size = 0, hp_free = 0,
     hp_storage = [], hp_pos = 0\<rparr>"

text \<open>The descriptor behind slot \<open>i % allocated\<close>.\<close>

definition entry_at :: "hpack \<Rightarrow> nat \<Rightarrow> hpack_entry" where
  "entry_at h i = hp_objs h (hp_entries h ! (i mod hp_allocated h))"

text \<open>\<^verbatim>\<open>memcpy\<close> of \<open>src\<close> to offset \<open>off\<close> of an array.\<close>

definition memcpy :: "'a list \<Rightarrow> nat \<Rightarrow> 'a list \<Rightarrow> 'a list" where
  "memcpy dst off src = take off dst @ src @ drop (off + length src) dst"

text \<open>The copy out of the ring in \<^verbatim>\<open>get_indexed_header\<close>: split where the ring ends.\<close>

definition ring_read :: "byte list \<Rightarrow> nat \<Rightarrow> nat \<Rightarrow> byte list" where
  "ring_read st off len = (
     let rest = KGL_HTTP_V2_TABLE_SIZE - off in
     if len > rest then take rest (drop off st) @ take (len - rest) st
     else take len (drop off st))"

text \<open>
  \<^verbatim>\<open>get_indexed_header\<close>: the lookup writes \<^verbatim>\<open>state.header\<close>. \<open>palloc k\<close> says whether the \<open>k\<close>-th
  pool allocation of the call succeeds.
\<close>

definition get_indexed_header ::
  "(nat \<Rightarrow> bool) \<Rightarrow> hpack \<Rightarrow> header \<Rightarrow> nat \<Rightarrow> bool \<Rightarrow> bool \<times> header" where
  "get_indexed_header palloc h hdr index name_only = (
     if index = 0 then (False, hdr)
     else let index = index - 1 in
       if index < length kgl_http_v2_static_table then (True, kgl_http_v2_static_table ! index)
       else let index = index - length kgl_http_v2_static_table in
         if index < hp_added h - hp_deleted h then
           let e = entry_at h (hp_added h - index - 1) in
           if \<not> palloc 0 then (False, hdr)
           else let name = ring_read (hp_storage h) (name_off e) (name_len e) in
             if name_only then (True, (name, snd hdr))
             else if \<not> palloc 1 then (False, (name, snd hdr))
             else (True, (name, ring_read (hp_storage h) (value_off e) (value_len e)))
         else (False, hdr))"

text \<open>
  The eviction loop of \<^verbatim>\<open>table_size\<close> and \<^verbatim>\<open>table_account\<close>: drop the oldest entry while more
  room is needed. Every round frees at least 32.
\<close>

function evict_loop :: "int \<Rightarrow> hpack \<Rightarrow> hpack" where
  "evict_loop needed h = (
     if needed > int (hp_free h) then
       let e = entry_at h (hp_deleted h) in
       evict_loop needed (h\<lparr>hp_deleted := hp_deleted h + 1,
                            hp_free := hp_free h + (32 + name_len e + value_len e)\<rparr>)
     else h)"
  by pat_completeness auto
termination
  by (relation "measure (\<lambda>(needed, h). nat (needed - int (hp_free h)))") auto

declare evict_loop.simps [simp del]

definition table_size :: "hpack \<Rightarrow> nat \<Rightarrow> bool \<times> hpack" where
  "table_size h sz = (
     if sz > KGL_HTTP_V2_TABLE_SIZE then (False, h)
     else let needed = int (hp_size h) - int sz;
              h' = evict_loop needed h
       in (True, h'\<lparr>hp_size := sz, hp_free := nat (int (hp_free h') - needed)\<rparr>))"

definition table_account :: "hpack \<Rightarrow> nat \<Rightarrow> bool \<times> hpack" where
  "table_account h len = (
     let sz = len + 32 in
     if sz \<le> hp_free h then (True, h\<lparr>hp_free := hp_free h - sz\<rparr>)
     else if sz > hp_size h then (False, h\<lparr>hp_deleted := hp_added h, hp_free := hp_size h\<rparr>)
     else let h' = evict_loop (int sz) h
       in (True, h'\<lparr>hp_free := hp_free h' - sz\<rparr>))"

text \<open>The lazy initialisation at the top of \<^verbatim>\<open>add_header\<close>; \<open>junk\<close> is the pool memory's content.\<close>

definition hpack_init :: "(nat \<Rightarrow> bool) \<Rightarrow> byte list \<Rightarrow> hpack \<Rightarrow> bool \<times> hpack" where
  "hpack_init palloc junk h = (
     if hp_entries h \<noteq> [] then (True, h)
     else let h1 = h\<lparr>hp_allocated := 64, hp_size := KGL_HTTP_V2_TABLE_SIZE,
                     hp_free := KGL_HTTP_V2_TABLE_SIZE\<rparr> in
       if \<not> palloc 0 then (False, h1)
       else let h2 = h1\<lparr>hp_entries := replicate 64 0\<rparr> in
         if \<not> palloc 1 then (False, h2)
         else (True, h2\<lparr>hp_storage := junk, hp_pos := 0\<rparr>))"

text \<open>One string into the ring: the new storage, the new position and what is left of \<open>avail\<close>.\<close>

definition copy_name :: "byte list \<Rightarrow> nat \<Rightarrow> nat \<Rightarrow> byte list \<Rightarrow> byte list \<times> nat \<times> nat" where
  "copy_name st pos avail s = (
     if avail \<ge> length s then (memcpy st pos s, pos + length s, avail - length s)
     else (memcpy (memcpy st pos (take avail s)) 0 (drop avail s), length s - avail,
           KGL_HTTP_V2_TABLE_SIZE - length s))"

definition copy_value :: "byte list \<Rightarrow> nat \<Rightarrow> nat \<Rightarrow> byte list \<Rightarrow> byte list \<times> nat" where
  "copy_value st pos avail s = (
     if avail \<ge> length s then (memcpy st pos s, pos + length s)
     else (memcpy (memcpy st pos (take avail s)) 0 (drop avail s), length s - avail))"

text \<open>The pointer array doubles as a ring; when it is full it is unrolled into a larger one.\<close>

definition grow_entries :: "hpack \<Rightarrow> hpack" where
  "grow_entries h = (
     let index = hp_deleted h mod hp_allocated h;
         entries = drop index (hp_entries h) @ take index (hp_entries h) @ replicate 64 0
     in h\<lparr>hp_entries := entries, hp_added := hp_allocated h, hp_deleted := 0, hp_reused := 0,
          hp_allocated := hp_allocated h + 64\<rparr>)"

text \<open>The descriptor of the new header: a fresh one, or the oldest evicted one not yet reused.\<close>

definition take_entry :: "hpack \<Rightarrow> nat \<times> hpack" where
  "take_entry h = (
     if hp_reused h = hp_deleted h then (hp_nobjs h, h\<lparr>hp_nobjs := hp_nobjs h + 1\<rparr>)
     else (hp_entries h ! (hp_reused h mod hp_allocated h), h\<lparr>hp_reused := hp_reused h + 1\<rparr>))"

definition write_entry :: "hpack \<Rightarrow> nat \<Rightarrow> header \<Rightarrow> hpack" where
  "write_entry h p hdr = (
     let (name, val) = hdr;
         pos0 = hp_pos h;
         (st1, pos1, avail) = copy_name (hp_storage h) pos0 (KGL_HTTP_V2_TABLE_SIZE - pos0) name;
         (st2, pos2) = copy_value st1 pos1 avail val;
         e = \<lparr>name_len = length name, name_off = pos0, value_len = length val, value_off = pos1\<rparr>
     in h\<lparr>hp_objs := (hp_objs h)(p := e), hp_storage := st2, hp_pos := pos2\<rparr>)"

definition link_entry :: "hpack \<Rightarrow> nat \<Rightarrow> hpack" where
  "link_entry h p =
     h\<lparr>hp_entries := (hp_entries h)[hp_added h mod hp_allocated h := p], hp_added := hp_added h + 1\<rparr>"

definition hpack_add_header ::
  "(nat \<Rightarrow> bool) \<Rightarrow> byte list \<Rightarrow> hpack \<Rightarrow> header \<Rightarrow> bool \<times> hpack" where
  "hpack_add_header palloc junk h hdr = (
     let (ok, h) = hpack_init palloc junk h in
     if \<not> ok then (False, h)
     else let (fits, h) = table_account h (length (fst hdr) + length (snd hdr)) in
     if \<not> fits then (True, h)
     else if hp_reused h = hp_deleted h \<and> \<not> palloc 2 then (False, h)
     else let (p, h) = take_entry h; h = write_entry h p hdr in
     if hp_allocated h \<noteq> hp_added h - hp_deleted h then (True, link_entry h p)
     else if \<not> palloc 3 then (False, h)
     else (True, link_entry (grow_entries h) p))"

section \<open>The ring of octets\<close>

definition ring_log :: "byte list \<Rightarrow> byte list \<Rightarrow> bool" where
  "ring_log st log \<longleftrightarrow> length st = 4096 \<and>
     (\<forall>x < length log. length log \<le> x + 4096 \<longrightarrow> st ! (x mod 4096) = log ! x)"

definition put_spec :: "byte list \<Rightarrow> nat \<Rightarrow> byte list \<Rightarrow> byte list \<Rightarrow> bool" where
  "put_spec st pos s st' \<longleftrightarrow> length st' = 4096 \<and>
     (\<forall>k < length s. st' ! ((pos + k) mod 4096) = s ! k) \<and>
     (\<forall>j < 4096. (\<forall>k < length s. j \<noteq> (pos + k) mod 4096) \<longrightarrow> st' ! j = st ! j)"

lemma ring_read_facts:
  assumes "length st = 4096" "off \<le> 4096" "len \<le> 4096"
  shows "length (ring_read st off len) = len"
    and "k < len \<Longrightarrow> ring_read st off len ! k = st ! ((off + k) mod 4096)"
proof -
  show "length (ring_read st off len) = len"
    using assms by (auto simp: ring_read_def KGL_HTTP_V2_TABLE_SIZE_def Let_def)
  assume k: "k < len"
  have "(off + k) mod 4096 = (if off + k < 4096 then off + k else k + off - 4096)"
    using assms k ring_mod [of "off + k" 4096] by (simp add: add.commute)
  then show "ring_read st off len ! k = st ! ((off + k) mod 4096)"
    using assms k by (auto simp: ring_read_def KGL_HTTP_V2_TABLE_SIZE_def Let_def nth_append)
qed

lemma ring_read_log:
  assumes "ring_log st log" "off \<le> 4096" "off mod 4096 = p mod 4096"
    and "p + len \<le> length log" "length log \<le> p + 4096"
  shows "ring_read st off len = take len (drop p log)"
proof (rule nth_equalityI)
  have st: "length st = 4096" and len: "len \<le> 4096" using assms by (auto simp: ring_log_def)
  note rd = ring_read_facts [OF st assms(2) len]
  show "length (ring_read st off len) = length (take len (drop p log))"
    using rd(1) assms(4) by simp
  fix k assume "k < length (ring_read st off len)"
  then have k: "k < len" by (simp add: rd(1))
  have "(off + k) mod 4096 = (p + k) mod 4096" using assms(3) by (metis mod_add_left_eq)
  then have "ring_read st off len ! k = log ! (p + k)"
    using rd(2) [OF k] assms(1,4,5) k by (simp add: ring_log_def)
  then show "ring_read st off len ! k = take len (drop p log) ! k"
    using k assms(4) by simp
qed

lemma ring_log_put:
  assumes log: "ring_log st log" and put: "put_spec st pos s st'"
    and pos: "pos mod 4096 = length log mod 4096" and "length s \<le> 4096"
  shows "ring_log st' (log @ s)"
  unfolding ring_log_def
proof (intro conjI allI impI)
  have at: "(pos + k) mod 4096 = (length log + k) mod 4096" for k
    using pos by (metis mod_add_left_eq)
  show "length st' = 4096" using put by (simp add: put_spec_def)
  fix x assume x: "x < length (log @ s)" "length (log @ s) \<le> x + 4096"
  show "st' ! (x mod 4096) = (log @ s) ! x"
  proof (cases "x < length log")
    case True
    have "\<forall>k < length s. x mod 4096 \<noteq> (pos + k) mod 4096"
      unfolding at using mod_ring_neq x True by simp
    with put have "st' ! (x mod 4096) = st ! (x mod 4096)" by (simp add: put_spec_def)
    with log True x show ?thesis by (simp add: ring_log_def nth_append)
  next
    case False
    then have "(pos + (x - length log)) mod 4096 = x mod 4096" unfolding at by simp
    moreover have "x - length log < length s" using x False by simp
    ultimately have "st' ! (x mod 4096) = s ! (x - length log)"
      using put unfolding put_spec_def by metis
    with False show ?thesis by (simp add: nth_append)
  qed
qed

lemma memcpy_facts:
  assumes "off + length s \<le> length st"
  shows "length (memcpy st off s) = length st"
    and "j < length st \<Longrightarrow> memcpy st off s ! j = (if off \<le> j \<and> j < off + length s then s ! (j - off) else st ! j)"
  using assms by (auto simp: memcpy_def nth_append)

lemma put_spec_fits:
  assumes "length st = 4096" "pos + length s \<le> 4096"
  shows "put_spec st pos s (memcpy st pos s)"
proof -
  have "(pos + k) mod 4096 = pos + k" if "k < length s" for k using that assms(2) by simp
  then show ?thesis using assms memcpy_facts [of pos s st]
    by (auto simp: put_spec_def) (metis add_diff_inverse_nat not_less nat_add_left_cancel_less)
qed

lemma put_spec_wraps:
  assumes "length st = 4096" "pos \<le> 4096" "length s \<le> 4096" "4096 - pos < length s"
  shows "put_spec st pos s (memcpy (memcpy st pos (take (4096 - pos) s)) 0 (drop (4096 - pos) s))"
    (is "put_spec st pos s ?st'")
proof -
  let ?a = "4096 - pos" and ?st1 = "memcpy st pos (take (4096 - pos) s)"
  have l1: "length ?st1 = 4096" using assms by (subst memcpy_facts(1)) auto
  have l2: "length ?st' = 4096" using assms l1 by (subst memcpy_facts(1)) auto
  have rd: "?st' ! j = (if j < length s - ?a then s ! (?a + j) else if pos \<le> j then s ! (j - pos) else st ! j)"
    if j: "j < 4096" for j
  proof -
    have "?st' ! j = (if j < length s - ?a then s ! (?a + j) else ?st1 ! j)"
      using j l1 assms by (subst memcpy_facts(2)) auto
    moreover have "?st1 ! j = (if pos \<le> j then s ! (j - pos) else st ! j)"
      using j assms by (subst memcpy_facts(2)) auto
    ultimately show ?thesis by simp
  qed
  have at: "(pos + k) mod 4096 = (if k < ?a then pos + k else k - ?a)" if "k < length s" for k
    using that assms ring_mod [of "pos + k" 4096] by auto
  have "?st' ! ((pos + k) mod 4096) = s ! k" if "k < length s" for k
    unfolding at [OF that] using that assms by (subst rd) auto
  moreover have "?st' ! j = st ! j" if "j < 4096" "\<forall>k < length s. j \<noteq> (pos + k) mod 4096" for j
  proof -
    have "\<not> j < length s - ?a"
    proof
      assume "j < length s - ?a"
      then have "?a + j < length s" "j = (pos + (?a + j)) mod 4096" using at [of "?a + j"] by auto
      then show False using that(2) by blast
    qed
    moreover have "\<not> pos \<le> j"
    proof
      assume "pos \<le> j"
      then have "j - pos < length s" "j = (pos + (j - pos)) mod 4096" using that(1) assms(4) by auto
      then show False using that(2) by blast
    qed
    ultimately show ?thesis using rd [OF that(1)] by simp
  qed
  ultimately show ?thesis using l2 by (simp add: put_spec_def)
qed

lemma copy_value_put:
  assumes "length st = 4096" "pos \<le> 4096" "length s \<le> 4096"
    and fits: "length s \<le> avail \<Longrightarrow> pos + length s \<le> 4096"
    and wraps: "avail < length s \<Longrightarrow> avail = 4096 - pos"
  shows "put_spec st pos s (fst (copy_value st pos avail s))"
    and "snd (copy_value st pos avail s) \<le> 4096"
    and "snd (copy_value st pos avail s) mod 4096 = (pos + length s) mod 4096"
proof -
  show "put_spec st pos s (fst (copy_value st pos avail s))"
    using assms put_spec_fits put_spec_wraps by (cases "length s \<le> avail") (auto simp: copy_value_def)
  show "snd (copy_value st pos avail s) \<le> 4096" using assms by (auto simp: copy_value_def)
  have "length s - (4096 - pos) = pos + length s - 4096" using assms(2) by simp
  then show "snd (copy_value st pos avail s) mod 4096 = (pos + length s) mod 4096"
    using assms(2) wraps by (auto simp: copy_value_def le_mod_geq)
qed

lemma copy_name_value:
  "copy_name st pos avail s = (fst (copy_value st pos avail s), snd (copy_value st pos avail s),
     (if avail \<ge> length s then avail else 4096) - length s)"
  by (simp add: copy_name_def copy_value_def KGL_HTTP_V2_TABLE_SIZE_def)

text \<open>Name and value together: the ring receives both strings one after the other.\<close>

lemma copy_both:
  assumes log: "ring_log st log" and pos: "pos \<le> 4096" "pos mod 4096 = length log mod 4096"
    and len: "length name + length val \<le> 4096"
    and c1: "copy_name st pos (4096 - pos) name = (st1, pos1, avail)"
    and c2: "copy_value st1 pos1 avail val = (st2, pos2)"
  shows "ring_log st2 (log @ name @ val)" "pos2 \<le> 4096"
    "pos2 mod 4096 = length (log @ name @ val) mod 4096"
    "pos1 \<le> 4096" "pos1 mod 4096 = (length log + length name) mod 4096"
proof -
  have st: "length st = 4096" using log by (simp add: ring_log_def)
  note n = copy_value_put [OF st pos(1), of name "4096 - pos"]
  have eqs: "st1 = fst (copy_value st pos (4096 - pos) name)" "pos1 = snd (copy_value st pos (4096 - pos) name)"
    "avail = (if 4096 - pos \<ge> length name then 4096 - pos else 4096) - length name"
    using c1 by (auto simp: copy_name_value)
  have p1: "put_spec st pos name st1" and pos1: "pos1 \<le> 4096"
    and m1: "pos1 mod 4096 = (pos + length name) mod 4096" using n len pos eqs by auto
  from ring_log_put [OF log p1 pos(2)] len have log1: "ring_log st1 (log @ name)" by simp
  have m1': "pos1 mod 4096 = length (log @ name) mod 4096" using m1 pos(2) by (metis mod_add_left_eq length_append)
  have "length val \<le> avail \<Longrightarrow> pos1 + length val \<le> 4096" "avail < length val \<Longrightarrow> avail = 4096 - pos1"
    using eqs len pos(1) by (auto simp: copy_value_def split: if_splits)
  with copy_value_put [of st1 pos1 val avail] c2 pos1 len log1
  have p2: "put_spec st1 pos1 val st2" "pos2 \<le> 4096" "pos2 mod 4096 = (pos1 + length val) mod 4096"
    by (auto simp: ring_log_def)
  from ring_log_put [OF log1 p2(1) m1'] len show "ring_log st2 (log @ name @ val)" by simp
  show "pos2 \<le> 4096" by (rule p2(2))
  show "pos2 mod 4096 = length (log @ name @ val) mod 4096"
    using p2(3) m1' by (metis mod_add_left_eq length_append append_assoc)
  show "pos1 \<le> 4096" by (rule pos1)
  show "pos1 mod 4096 = (length log + length name) mod 4096" using m1' by simp
qed

section \<open>Specification: the dynamic table as a list of headers\<close>

definition hsize :: "header \<Rightarrow> nat" where
  "hsize hdr = 32 + length (fst hdr) + length (snd hdr)"

fun evict :: "('a \<Rightarrow> nat) \<Rightarrow> nat \<Rightarrow> 'a list \<Rightarrow> 'a list" where
  "evict sz limit [] = []"
| "evict sz limit (x # xs) =
     (if sum_list (map sz (x # xs)) > limit then evict sz limit xs else x # xs)"

definition spec_add :: "nat \<Rightarrow> header list \<Rightarrow> header \<Rightarrow> header list" where
  "spec_add mx xs hdr =
     (if hsize hdr > mx then [] else evict hsize (mx - hsize hdr) xs @ [hdr])"

definition spec_get :: "header list \<Rightarrow> nat \<Rightarrow> header option" where
  "spec_get xs index =
     (if index = 0 then None
      else let all = kgl_http_v2_static_table @ rev xs in
        if index - 1 < length all then Some (all ! (index - 1)) else None)"

lemma evict_fits: "sum_list (map sz xs) \<le> limit \<Longrightarrow> evict sz limit xs = xs"
  by (cases xs) auto

lemma evict_sum: "sum_list (map sz (evict sz limit xs)) \<le> limit"
  by (induction xs) auto

lemma evict_drop: "\<exists>k. evict sz limit xs = drop k xs"
proof (induction xs)
  case (Cons x xs)
  then obtain k where k: "evict sz limit xs = drop k xs" by blast
  have "x # xs = drop 0 (x # xs)" "drop k xs = drop (Suc k) (x # xs)" by simp_all
  with k show ?case unfolding evict.simps by metis
qed simp

lemma evict_cong_map:
  "(\<And>x. x \<in> set xs \<Longrightarrow> sz (f x) = sz' x) \<Longrightarrow> map f (evict sz' limit xs) = evict sz limit (map f xs)"
proof (induction xs)
  case (Cons x xs)
  have "map sz (map f (x # xs)) = map sz' (x # xs)" using Cons.prems by simp
  then have "sum_list (map sz (map f (x # xs))) = sum_list (map sz' (x # xs))" by (rule arg_cong)
  with Cons show ?case by simp
qed simp

section \<open>Invariant and abstraction\<close>

definition entry_size :: "hpack_entry \<Rightarrow> nat" where
  "entry_size e = 32 + name_len e + value_len e"

definition ptr_at :: "hpack \<Rightarrow> nat \<Rightarrow> nat" where
  "ptr_at h i = hp_entries h ! (i mod hp_allocated h)"

definition ptrs :: "hpack \<Rightarrow> nat list" where
  "ptrs h = map (ptr_at h) [hp_reused h..<hp_added h]"

definition live :: "hpack \<Rightarrow> hpack_entry list" where
  "live h = map (entry_at h) [hp_deleted h..<hp_added h]"

definition read_entry :: "byte list \<Rightarrow> hpack_entry \<Rightarrow> header" where
  "read_entry st e = (ring_read st (name_off e) (name_len e), ring_read st (value_off e) (value_len e))"

definition contents :: "hpack \<Rightarrow> header list" where
  "contents h = map (read_entry (hp_storage h)) (live h)"

definition slots_ok :: "hpack \<Rightarrow> bool" where
  "slots_ok h \<longleftrightarrow> 0 < hp_allocated h \<and> length (hp_entries h) = hp_allocated h \<and>
     hp_reused h \<le> hp_deleted h \<and> hp_deleted h \<le> hp_added h \<and>
     hp_added h - hp_reused h \<le> hp_allocated h \<and>
     distinct (ptrs h) \<and> (\<forall>p \<in> set (ptrs h). p < hp_nobjs h)"

definition acct_ok :: "hpack \<Rightarrow> bool" where
  "acct_ok h \<longleftrightarrow> hp_free h + sum_list (map entry_size (live h)) = hp_size h \<and>
     hp_size h \<le> KGL_HTTP_V2_TABLE_SIZE"

fun chain :: "hpack_entry list \<Rightarrow> nat \<Rightarrow> nat \<Rightarrow> bool" where
  "chain [] p q \<longleftrightarrow> p = q"
| "chain (e # es) p q \<longleftrightarrow> name_off e \<le> 4096 \<and> name_off e mod 4096 = p mod 4096 \<and>
     value_off e \<le> 4096 \<and> value_off e mod 4096 = (p + name_len e) mod 4096 \<and>
     chain es (p + name_len e + value_len e) q"

definition store_ok :: "hpack \<Rightarrow> bool" where
  "store_ok h \<longleftrightarrow> (\<exists>log p. ring_log (hp_storage h) log \<and> hp_pos h \<le> 4096 \<and>
     hp_pos h mod 4096 = length log mod 4096 \<and> chain (live h) p (length log))"

definition fresh :: "hpack \<Rightarrow> bool" where
  "fresh h \<longleftrightarrow> hp_entries h = [] \<and> hp_added h = 0 \<and> hp_deleted h = 0 \<and> hp_reused h = 0 \<and>
     hp_free h = hp_size h \<and> hp_size h \<le> KGL_HTTP_V2_TABLE_SIZE"

definition hp_inv :: "hpack \<Rightarrow> bool" where
  "hp_inv h \<longleftrightarrow> fresh h \<or> (slots_ok h \<and> acct_ok h \<and> store_ok h)"

text \<open>The maximum size in force: the lazy initialisation of an unused table sets it to 4096.\<close>

definition max_size :: "hpack \<Rightarrow> nat" where
  "max_size h = (if hp_entries h = [] then KGL_HTTP_V2_TABLE_SIZE else hp_size h)"

subsection \<open>Chains\<close>

fun slices :: "byte list \<Rightarrow> nat \<Rightarrow> hpack_entry list \<Rightarrow> header list" where
  "slices log p [] = []"
| "slices log p (e # es) =
     (take (name_len e) (drop p log), take (value_len e) (drop (p + name_len e) log)) #
     slices log (p + name_len e + value_len e) es"

lemma chain_end: "chain es p q \<Longrightarrow> q + 32 * length es = p + sum_list (map entry_size es)"
  by (induction es arbitrary: p) (auto simp: entry_size_def)

lemma chain_le: "chain es p q \<Longrightarrow> p \<le> q"
  by (induction es arbitrary: p) fastforce+

lemma chain_end_le: "chain es p q \<Longrightarrow> q \<le> p + sum_list (map entry_size es)"
  using chain_end by fastforce

lemma chain_drop: "chain es p q \<Longrightarrow> \<exists>p'. chain (drop k es) p' q"
proof (induction k arbitrary: es p)
  case (Suc k)
  then show ?case by (cases es) auto
qed auto

lemma chain_snoc:
  assumes "chain es p q" "name_off e \<le> 4096" "name_off e mod 4096 = q mod 4096"
    and "value_off e \<le> 4096" "value_off e mod 4096 = (q + name_len e) mod 4096"
  shows "chain (es @ [e]) p (q + name_len e + value_len e)"
  using assms(1) by (induction es arbitrary: p) (use assms(2-5) in auto)

lemma slices_log_append:
  "chain es p (length log) \<Longrightarrow> slices (log @ s) p es = slices log p es"
proof (induction es arbitrary: p)
  case (Cons e es)
  then have "p + name_len e + value_len e \<le> length log" by (auto dest: chain_le)
  with Cons show ?case by simp
qed simp

lemma slices_snoc:
  "chain es p (length log) \<Longrightarrow> name_len e = length name \<Longrightarrow> value_len e = length val \<Longrightarrow>
   slices (log @ name @ val) p (es @ [e]) = slices log p es @ [(name, val)]"
proof (induction es arbitrary: p)
  case (Cons f es)
  then have "p + name_len f + value_len f \<le> length log" by (auto dest: chain_le)
  with Cons show ?case by simp
qed simp

lemma chain_reads:
  "ring_log st log \<Longrightarrow> chain es p (length log) \<Longrightarrow> length log \<le> p + 4096 \<Longrightarrow>
   map (read_entry st) es = slices log p es"
proof (induction es arbitrary: p)
  case (Cons e es)
  then have "p + name_len e + value_len e \<le> length log" by (auto dest: chain_le)
  with Cons show ?case by (auto simp: read_entry_def ring_read_log)
qed simp

lemma chain_offsets:
  "chain es p q \<Longrightarrow> e \<in> set es \<Longrightarrow> name_off e \<le> 4096 \<and> value_off e \<le> 4096"
  by (induction es arbitrary: p) auto

lemma live_hsize:
  assumes "acct_ok h" "store_ok h" "e \<in> set (live h)"
  shows "hsize (read_entry (hp_storage h) e) = entry_size e"
proof -
  from assms(2) have st: "length (hp_storage h) = 4096" and off: "name_off e \<le> 4096" "value_off e \<le> 4096"
    using assms(3) by (auto simp: store_ok_def ring_log_def dest: chain_offsets)
  from assms(1,3) have "entry_size e \<le> 4096"
    using member_le_sum_list [of "entry_size e" "map entry_size (live h)"]
    by (auto simp: acct_ok_def KGL_HTTP_V2_TABLE_SIZE_def)
  with off st show ?thesis
    by (simp add: read_entry_def hsize_def entry_size_def ring_read_facts)
qed

lemma contents_size:
  assumes "acct_ok h" "store_ok h"
  shows "sum_list (map hsize (contents h)) = sum_list (map entry_size (live h))"
proof -
  have "map hsize (contents h) = map entry_size (live h)"
    using live_hsize [OF assms] by (simp add: contents_def)
  then show ?thesis by (rule arg_cong)
qed

subsection \<open>Eviction\<close>

lemma live_Cons:
  "hp_deleted h < hp_added h \<Longrightarrow>
   live h = entry_at h (hp_deleted h) # live (h\<lparr>hp_deleted := hp_deleted h + 1, hp_free := f\<rparr>)"
  by (simp add: live_def entry_at_def upt_conv_Cons)

lemma evict_loop_live:
  assumes "hp_deleted h \<le> hp_added h" "hp_free h + sum_list (map entry_size (live h)) = n"
    and "needed \<le> int n"
  shows "\<exists>d f. evict_loop needed h = h\<lparr>hp_deleted := d, hp_free := f\<rparr> \<and>
     hp_deleted h \<le> d \<and> d \<le> hp_added h \<and> needed \<le> int f \<and>
     live (h\<lparr>hp_deleted := d, hp_free := f\<rparr>) = evict entry_size (nat (int n - needed)) (live h) \<and>
     f + sum_list (map entry_size (live (h\<lparr>hp_deleted := d, hp_free := f\<rparr>))) = n"
  using assms
proof (induction needed h rule: evict_loop.induct)
  case (1 needed h)
  show ?case
  proof (cases "needed > int (hp_free h)")
    case False
    then have "evict_loop needed h = h" by (simp add: evict_loop.simps)
    moreover have "evict entry_size (nat (int n - needed)) (live h) = live h"
      using False 1 by (intro evict_fits) auto
    moreover have "h = h\<lparr>hp_deleted := hp_deleted h, hp_free := hp_free h\<rparr>" by simp
    ultimately show ?thesis using False 1(2,3)
      by (intro exI [of _ "hp_deleted h"] exI [of _ "hp_free h"]) simp
  next
    case True
    let ?e = "entry_at h (hp_deleted h)"
    let ?h = "h\<lparr>hp_deleted := hp_deleted h + 1, hp_free := hp_free h + (32 + name_len ?e + value_len ?e)\<rparr>"
    have "live h \<noteq> []" using True 1 by auto
    then have less: "hp_deleted h < hp_added h" by (auto simp: live_def)
    note lv = live_Cons [OF less, of "hp_free h + (32 + name_len ?e + value_len ?e)"]
    have loop: "evict_loop needed h = evict_loop needed ?h"
      using True by (subst evict_loop.simps) (simp add: Let_def)
    have es: "entry_size ?e = 32 + name_len ?e + value_len ?e" by (simp add: entry_size_def)
    have sums: "hp_free ?h + sum_list (map entry_size (live ?h)) = n"
      using 1(3) lv es by simp
    have "nat (int n - needed) < sum_list (map entry_size (live h))" using True 1(3,4) by linarith
    then have ev: "evict entry_size (nat (int n - needed)) (live h) = evict entry_size (nat (int n - needed)) (live ?h)"
      by (simp add: lv)
    have "hp_deleted ?h \<le> hp_added ?h" using less by simp
    from 1(1) [OF True refl this sums 1(4)] obtain d f where ih:
      "evict_loop needed ?h = ?h\<lparr>hp_deleted := d, hp_free := f\<rparr>"
      "hp_deleted ?h \<le> d" "d \<le> hp_added ?h" "needed \<le> int f"
      "live (?h\<lparr>hp_deleted := d, hp_free := f\<rparr>) = evict entry_size (nat (int n - needed)) (live ?h)"
      "f + sum_list (map entry_size (live (?h\<lparr>hp_deleted := d, hp_free := f\<rparr>))) = n"
      by blast
    have upd: "?h\<lparr>hp_deleted := d, hp_free := f\<rparr> = h\<lparr>hp_deleted := d, hp_free := f\<rparr>" by simp
    show ?thesis
      using ih(2-4) ih(1,5,6) [unfolded upd] unfolding ev loop
      by (intro exI [of _ d] exI [of _ f]) simp
  qed
qed

text \<open>How the views of the table depend on its fields.\<close>

lemma views_upd [simp]:
  "live (h\<lparr>hp_free := f\<rparr>) = live h" "live (h\<lparr>hp_size := s\<rparr>) = live h"
  "live (h\<lparr>hp_nobjs := k\<rparr>) = live h" "live (h\<lparr>hp_reused := r\<rparr>) = live h"
  "live (h\<lparr>hp_storage := st\<rparr>) = live h" "live (h\<lparr>hp_pos := q\<rparr>) = live h"
  "ptrs (h\<lparr>hp_free := f\<rparr>) = ptrs h" "ptrs (h\<lparr>hp_size := s\<rparr>) = ptrs h"
  "ptrs (h\<lparr>hp_nobjs := k\<rparr>) = ptrs h" "ptrs (h\<lparr>hp_deleted := d\<rparr>) = ptrs h"
  "ptrs (h\<lparr>hp_storage := st\<rparr>) = ptrs h" "ptrs (h\<lparr>hp_pos := q\<rparr>) = ptrs h"
  "ptrs (h\<lparr>hp_objs := obs\<rparr>) = ptrs h"
  by (simp_all add: live_def ptrs_def entry_at_def ptr_at_def)

lemma views_ok_upd [simp]:
  "contents (h\<lparr>hp_free := f\<rparr>) = contents h" "contents (h\<lparr>hp_size := s\<rparr>) = contents h"
  "slots_ok (h\<lparr>hp_free := f\<rparr>) = slots_ok h" "slots_ok (h\<lparr>hp_size := s\<rparr>) = slots_ok h"
  "store_ok (h\<lparr>hp_free := f\<rparr>) = store_ok h" "store_ok (h\<lparr>hp_size := s\<rparr>) = store_ok h"
  by (simp_all add: contents_def slots_ok_def store_ok_def)

lemma live_deleted: "hp_deleted h \<le> d \<Longrightarrow> live (h\<lparr>hp_deleted := d\<rparr>) = drop (d - hp_deleted h) (live h)"
  by (simp add: live_def entry_at_def drop_map drop_upt)

lemma deleted_ok:
  assumes "hp_deleted h \<le> d" "d \<le> hp_added h"
  shows "slots_ok h \<Longrightarrow> slots_ok (h\<lparr>hp_deleted := d\<rparr>)"
    and "store_ok h \<Longrightarrow> store_ok (h\<lparr>hp_deleted := d\<rparr>)"
    and "contents (h\<lparr>hp_deleted := d\<rparr>) = drop (d - hp_deleted h) (contents h)"
proof -
  show "slots_ok h \<Longrightarrow> slots_ok (h\<lparr>hp_deleted := d\<rparr>)" using assms by (auto simp: slots_ok_def)
  show "store_ok (h\<lparr>hp_deleted := d\<rparr>)" if store: "store_ok h"
  proof -
    from store obtain log p where s: "ring_log (hp_storage h) log" "hp_pos h \<le> 4096"
      "hp_pos h mod 4096 = length log mod 4096" "chain (live h) p (length log)"
      by (auto simp: store_ok_def)
    from chain_drop [OF s(4)] obtain p' where "chain (drop (d - hp_deleted h) (live h)) p' (length log)"
      by blast
    with s live_deleted [OF assms(1)] show ?thesis by (auto simp: store_ok_def)
  qed
  show "contents (h\<lparr>hp_deleted := d\<rparr>) = drop (d - hp_deleted h) (contents h)"
    using live_deleted [OF assms(1)] by (simp add: contents_def drop_map)
qed

lemma evict_loop_ok:
  assumes ok: "slots_ok h" "acct_ok h" "store_ok h" and "needed \<le> int (hp_size h)"
  obtains h' where "evict_loop needed h = h'" "slots_ok h'" "acct_ok h'" "store_ok h'"
    "needed \<le> int (hp_free h')" "hp_size h' = hp_size h" "hp_entries h' = hp_entries h"
    "contents h' = evict hsize (nat (int (hp_size h) - needed)) (contents h)"
proof -
  have "hp_deleted h \<le> hp_added h" using ok by (simp add: slots_ok_def)
  moreover have "hp_free h + sum_list (map entry_size (live h)) = hp_size h"
    using ok by (simp add: acct_ok_def)
  ultimately obtain d f where ev: "evict_loop needed h = h\<lparr>hp_deleted := d, hp_free := f\<rparr>"
    and d: "hp_deleted h \<le> d" "d \<le> hp_added h" and f: "needed \<le> int f"
    and lv: "live (h\<lparr>hp_deleted := d, hp_free := f\<rparr>)
               = evict entry_size (nat (int (hp_size h) - needed)) (live h)"
    and sum: "f + sum_list (map entry_size (live (h\<lparr>hp_deleted := d, hp_free := f\<rparr>))) = hp_size h"
    using evict_loop_live [of h "hp_size h" needed] assms(4) by metis
  let ?h = "h\<lparr>hp_deleted := d, hp_free := f\<rparr>"
  have "contents ?h = evict hsize (nat (int (hp_size h) - needed)) (contents h)"
    unfolding contents_def lv by (simp, rule evict_cong_map) (rule live_hsize [OF ok(2,3)])
  moreover have "slots_ok ?h" "store_ok ?h" using deleted_ok(1,2) [OF d] ok by simp_all
  moreover have "acct_ok ?h" using sum ok(2) by (simp add: acct_ok_def)
  ultimately show ?thesis using that [OF ev] f by simp
qed

lemma table_size_ok:
  assumes ok: "slots_ok h" "acct_ok h" "store_ok h" and "sz \<le> KGL_HTTP_V2_TABLE_SIZE"
  obtains h' where "table_size h sz = (True, h')" "slots_ok h'" "acct_ok h'" "store_ok h'"
    "hp_size h' = sz" "hp_entries h' = hp_entries h" "contents h' = evict hsize sz (contents h)"
proof -
  let ?needed = "int (hp_size h) - int sz"
  have "?needed \<le> int (hp_size h)" by simp
  from evict_loop_ok [OF ok this] obtain h' where h': "evict_loop ?needed h = h'"
    "slots_ok h'" "acct_ok h'" "store_ok h'" "?needed \<le> int (hp_free h')" "hp_size h' = hp_size h"
    "hp_entries h' = hp_entries h"
    "contents h' = evict hsize (nat (int (hp_size h) - ?needed)) (contents h)" .
  let ?h = "h'\<lparr>hp_size := sz, hp_free := nat (int (hp_free h') - ?needed)\<rparr>"
  have "table_size h sz = (True, ?h)"
    using assms(4) h'(1) by (simp add: table_size_def)
  moreover have "acct_ok ?h" using h'(3,5,6) assms(4) by (auto simp: acct_ok_def)
  ultimately show ?thesis using that [of ?h] h' by simp
qed

text \<open>Accounting for a new header: afterwards there is room for it.\<close>

lemma table_account_ok:
  assumes ok: "slots_ok h" "acct_ok h" "store_ok h"
  obtains (fits) h' where "len + 32 \<le> hp_size h" "table_account h len = (True, h')" "slots_ok h'" "store_ok h'"
      "hp_free h' + sum_list (map entry_size (live h')) + (len + 32) = hp_size h'"
      "hp_size h' = hp_size h" "hp_entries h' = hp_entries h"
      "contents h' = evict hsize (hp_size h - (len + 32)) (contents h)"
    | (big) h' where "len + 32 > hp_size h" "table_account h len = (False, h')"
      "slots_ok h'" "acct_ok h'" "store_ok h'" "contents h' = []" "hp_size h' = hp_size h"
      "hp_entries h' = hp_entries h"
proof -
  let ?sz = "len + 32"
  consider "?sz \<le> hp_free h" | "hp_free h < ?sz" "hp_size h < ?sz" | "hp_free h < ?sz" "?sz \<le> hp_size h"
    by linarith
  then show thesis
  proof cases
    case 1
    moreover have "contents h = evict hsize (hp_size h - ?sz) (contents h)"
      using 1 ok contents_size [OF ok(2,3)] by (intro evict_fits [symmetric]) (auto simp: acct_ok_def)
    ultimately show thesis using ok
      by (intro fits [of "h\<lparr>hp_free := hp_free h - ?sz\<rparr>"]) (auto simp: table_account_def acct_ok_def)
  next
    case 2
    have d: "hp_deleted h \<le> hp_added h" using ok by (simp add: slots_ok_def)
    let ?h = "h\<lparr>hp_deleted := hp_added h, hp_free := hp_size h\<rparr>"
    have "live ?h = []" by (simp add: live_def)
    moreover have "slots_ok ?h" "store_ok ?h" using deleted_ok [OF d] ok by simp_all
    ultimately show thesis using 2 ok
      by (intro big [of ?h]) (auto simp: table_account_def acct_ok_def contents_def)
  next
    case 3
    then have le: "int ?sz \<le> int (hp_size h)" by simp
    show thesis
    proof (rule evict_loop_ok [OF ok le])
      fix h' assume h': "evict_loop (int ?sz) h = h'" "slots_ok h'" "acct_ok h'" "store_ok h'"
        "int ?sz \<le> int (hp_free h')" "hp_size h' = hp_size h" "hp_entries h' = hp_entries h"
        "contents h' = evict hsize (nat (int (hp_size h) - int ?sz)) (contents h)"
      have "nat (int (hp_size h) - int ?sz) = hp_size h - ?sz" by linarith
      with h' 3 show thesis
        by (intro fits [of "h'\<lparr>hp_free := hp_free h' - ?sz\<rparr>"])
          (auto simp: table_account_def acct_ok_def)
    qed
  qed
qed

subsection \<open>Insertion\<close>

text \<open>The state while a header is being inserted: \<open>p\<close> is its descriptor, not linked yet.\<close>

definition pending_ok :: "hpack \<Rightarrow> nat \<Rightarrow> bool" where
  "pending_ok h p \<longleftrightarrow> 0 < hp_allocated h \<and> length (hp_entries h) = hp_allocated h \<and>
     hp_reused h \<le> hp_deleted h \<and> hp_deleted h \<le> hp_added h \<and>
     hp_added h - hp_reused h \<le> hp_allocated h \<and>
     (hp_added h - hp_reused h = hp_allocated h \<longrightarrow> hp_reused h = hp_deleted h) \<and>
     distinct (p # ptrs h) \<and> (\<forall>q \<in> set (p # ptrs h). q < hp_nobjs h)"

lemma take_entry_ok:
  assumes "slots_ok h" "take_entry h = (p, h')"
  shows "pending_ok h' p" "live h' = live h"
    "hp_storage h' = hp_storage h" "hp_pos h' = hp_pos h" "hp_size h' = hp_size h"
    "hp_free h' = hp_free h"
proof -
  have "ptrs h = ptr_at h (hp_reused h) # ptrs (h\<lparr>hp_reused := hp_reused h + 1\<rparr>)"
    if "hp_reused h \<noteq> hp_deleted h"
  proof -
    have "hp_reused h < hp_added h" using that assms(1) by (auto simp: slots_ok_def)
    then show ?thesis by (simp add: ptrs_def upt_conv_Cons ptr_at_def)
  qed
  moreover have "\<forall>q \<in> set (ptrs h). q < Suc (hp_nobjs h)"
    using assms(1) less_SucI unfolding slots_ok_def by blast
  ultimately show "pending_ok h' p"
    using assms by (auto simp: take_entry_def slots_ok_def pending_ok_def ptr_at_def split: if_splits)
  show "live h' = live h" "hp_storage h' = hp_storage h" "hp_pos h' = hp_pos h" "hp_size h' = hp_size h"
    "hp_free h' = hp_free h"
    using assms by (auto simp: take_entry_def split: if_splits)
qed

lemma pending_live:
  assumes "pending_ok h p"
  shows "live (h\<lparr>hp_objs := (hp_objs h)(p := e)\<rparr>) = live h"
proof -
  have "ptr_at h i \<noteq> p" if "hp_deleted h \<le> i" "i < hp_added h" for i
    using assms that by (auto simp: pending_ok_def ptrs_def)
  then show ?thesis by (auto simp: live_def entry_at_def ptr_at_def)
qed

lemma write_entry_ok:
  assumes pend: "pending_ok h p" and store: "store_ok h"
    and room: "sum_list (map entry_size (live h)) + hsize hdr \<le> 4096"
  obtains log q where "pending_ok (write_entry h p hdr) p" "live (write_entry h p hdr) = live h"
    "hp_size (write_entry h p hdr) = hp_size h" "hp_free (write_entry h p hdr) = hp_free h"
    "entry_size (hp_objs (write_entry h p hdr) p) = hsize hdr"
    "hp_pos (write_entry h p hdr) \<le> 4096" "hp_pos (write_entry h p hdr) mod 4096 = length log mod 4096"
    "ring_log (hp_storage (write_entry h p hdr)) log"
    "chain (live h @ [hp_objs (write_entry h p hdr) p]) q (length log)"
    "map (read_entry (hp_storage (write_entry h p hdr))) (live h @ [hp_objs (write_entry h p hdr) p])
       = contents h @ [hdr]"
proof -
  obtain name val where hdr: "hdr = (name, val)" by (cases hdr)
  obtain st1 pos1 avail where c1: "copy_name (hp_storage h) (hp_pos h) (4096 - hp_pos h) name = (st1, pos1, avail)"
    by (metis prod_cases3)
  obtain st2 pos2 where c2: "copy_value st1 pos1 avail val = (st2, pos2)" by (metis surj_pair)
  let ?e = "\<lparr>name_len = length name, name_off = hp_pos h, value_len = length val, value_off = pos1\<rparr>"
  have w: "write_entry h p hdr = h\<lparr>hp_objs := (hp_objs h)(p := ?e), hp_storage := st2, hp_pos := pos2\<rparr>"
    using c1 c2 by (simp add: write_entry_def hdr KGL_HTTP_V2_TABLE_SIZE_def)
  from store obtain log q where s: "ring_log (hp_storage h) log" "hp_pos h \<le> 4096"
    "hp_pos h mod 4096 = length log mod 4096" "chain (live h) q (length log)"
    by (auto simp: store_ok_def)
  let ?log = "log @ name @ val"
  have len: "length name + length val \<le> 4096" using room by (simp add: hdr hsize_def)
  note both = copy_both [OF s(1-3) len c1 c2]
  have ch: "chain (live h @ [?e]) q (length ?log)"
    using chain_snoc [OF s(4), of ?e] s(2,3) both(4,5) by (simp add: add.assoc)
  have q: "length ?log \<le> q + 4096"
    using chain_end_le [OF s(4)] room by (simp add: hdr hsize_def)
  have "map (read_entry st2) (live h @ [?e]) = slices ?log q (live h @ [?e])"
    by (rule chain_reads [OF both(1) ch q])
  also have "\<dots> = slices log q (live h) @ [(name, val)]" using s(4) by (intro slices_snoc) auto
  also have "slices log q (live h) = contents h"
    using chain_reads [OF s(1,4)] q by (simp add: contents_def)
  finally have rd: "map (read_entry st2) (live h @ [?e]) = contents h @ [hdr]" by (simp add: hdr)
  have "pending_ok (write_entry h p hdr) p" using pend by (simp add: w pending_ok_def)
  moreover have "live (write_entry h p hdr) = live h" by (simp add: w pending_live [OF pend])
  moreover have "entry_size ?e = hsize hdr" by (simp add: hdr hsize_def entry_size_def)
  ultimately show ?thesis using both(1-3) ch rd by (intro that [of ?log q]) (simp_all add: w)
qed

text \<open>Linking a descriptor into a pointer array that has a free slot.\<close>

lemma link_entry_ok:
  assumes pend: "pending_ok h p" and free: "hp_added h - hp_reused h < hp_allocated h"
  shows "slots_ok (link_entry h p)" "live (link_entry h p) = live h @ [hp_objs h p]"
proof -
  let ?a = "hp_added h" and ?n = "hp_allocated h" and ?h = "link_entry h p"
  have n: "?a mod ?n < length (hp_entries h)" using pend by (simp add: pending_ok_def)
  have old: "ptr_at ?h i = ptr_at h i" if "hp_reused h \<le> i" "i < ?a" for i
  proof -
    have "i mod ?n \<noteq> ?a mod ?n" using that free by (intro mod_ring_neq) auto
    then show ?thesis by (simp add: ptr_at_def link_entry_def)
  qed
  have new: "ptr_at ?h ?a = p" using n by (simp add: ptr_at_def link_entry_def)
  have le: "hp_reused h \<le> ?a" "hp_deleted h \<le> ?a" "hp_reused h \<le> hp_deleted h"
    using pend by (auto simp: pending_ok_def)
  have fields: "hp_reused ?h = hp_reused h" "hp_added ?h = Suc ?a" "hp_deleted ?h = hp_deleted h"
    "hp_objs ?h = hp_objs h" "hp_allocated ?h = ?n" "hp_nobjs ?h = hp_nobjs h"
    "length (hp_entries ?h) = length (hp_entries h)"
    by (simp_all add: link_entry_def)
  have ps: "ptrs ?h = ptrs h @ [p]" using old new le by (simp add: ptrs_def fields)
  have "entry_at ?h i = hp_objs h (ptr_at ?h i)" "entry_at h i = hp_objs h (ptr_at h i)" for i
    by (simp_all add: entry_at_def ptr_at_def fields)
  then show "live ?h = live h @ [hp_objs h p]" using old new le by (simp add: live_def fields)
  show "slots_ok ?h" using pend free le unfolding slots_ok_def ps fields
    by (auto simp: pending_ok_def)
qed

lemma grow_entries_ok:
  assumes pend: "pending_ok h p" and full: "hp_allocated h = hp_added h - hp_deleted h"
  shows "pending_ok (grow_entries h) p" "live (grow_entries h) = live h"
    "hp_added (grow_entries h) - hp_reused (grow_entries h) < hp_allocated (grow_entries h)"
proof -
  let ?n = "hp_allocated h" and ?d = "hp_deleted h" and ?h = "grow_entries h"
  have n: "0 < ?n" "length (hp_entries h) = ?n" "hp_reused h = ?d" "hp_added h = ?d + ?n"
    using pend full by (auto simp: pending_ok_def)
  have fields: "hp_reused ?h = 0" "hp_deleted ?h = 0" "hp_added ?h = ?n" "hp_allocated ?h = ?n + 64"
    "hp_objs ?h = hp_objs h" "hp_nobjs ?h = hp_nobjs h" "length (hp_entries ?h) = ?n + 64"
    using n by (simp_all add: grow_entries_def Let_def)
  have ents: "hp_entries ?h = rotate ?d (hp_entries h) @ replicate 64 0"
    using n by (simp add: grow_entries_def Let_def rotate_drop_take)
  have at: "ptr_at ?h i = ptr_at h (?d + i)" if "i < ?n" for i
    using that n by (simp add: ptr_at_def fields ents nth_append nth_rotate add.commute)
  have upt: "[?d..<hp_added h] = map (\<lambda>i. ?d + i) [0..<?n]"
    by (simp add: n map_add_upt add.commute)
  have ps: "ptrs ?h = ptrs h" using at by (simp add: ptrs_def fields n(3) upt comp_def)
  have "entry_at ?h i = hp_objs h (ptr_at ?h i)" "entry_at h i = hp_objs h (ptr_at h i)" for i
    by (simp_all add: entry_at_def ptr_at_def fields)
  then show "live ?h = live h" using at by (simp add: live_def fields upt comp_def)
  show "pending_ok ?h p" using pend unfolding pending_ok_def ps fields by auto
  show "hp_added ?h - hp_reused ?h < hp_allocated ?h" by (simp add: fields)
qed

lemma link_grow_fields [simp]:
  "hp_storage (link_entry h p) = hp_storage h" "hp_pos (link_entry h p) = hp_pos h"
  "hp_size (link_entry h p) = hp_size h" "hp_free (link_entry h p) = hp_free h"
  "hp_storage (grow_entries h) = hp_storage h" "hp_pos (grow_entries h) = hp_pos h"
  "hp_size (grow_entries h) = hp_size h" "hp_free (grow_entries h) = hp_free h"
  "hp_objs (grow_entries h) = hp_objs h"
  by (simp_all add: link_entry_def grow_entries_def Let_def)

text \<open>Either way a pending descriptor is linked as the newest live one.\<close>

definition linked :: "hpack \<Rightarrow> nat \<Rightarrow> hpack" where
  "linked h p = (if hp_allocated h = hp_added h - hp_deleted h
                 then link_entry (grow_entries h) p else link_entry h p)"

lemma linked_ok:
  assumes pend: "pending_ok h p"
  shows "slots_ok (linked h p)" "live (linked h p) = live h @ [hp_objs h p]"
proof -
  have "hp_added h - hp_reused h < hp_allocated h" if "hp_allocated h \<noteq> hp_added h - hp_deleted h"
    using pend that by (auto simp: pending_ok_def)
  then show "slots_ok (linked h p)" "live (linked h p) = live h @ [hp_objs h p]"
    using pend grow_entries_ok [OF pend] link_entry_ok
    by (simp_all add: linked_def)
qed

lemma linked_fields [simp]:
  "hp_storage (linked h p) = hp_storage h" "hp_pos (linked h p) = hp_pos h"
  "hp_size (linked h p) = hp_size h" "hp_free (linked h p) = hp_free h"
  by (simp_all add: linked_def)

text \<open>The insertion proper, with the room already accounted for.\<close>

lemma insert_ok:
  assumes slots: "slots_ok h" and store: "store_ok h"
    and acct: "hp_free h + sum_list (map entry_size (live h)) + hsize hdr = hp_size h"
    and size: "hp_size h \<le> KGL_HTTP_V2_TABLE_SIZE"
    and t: "take_entry h = (p, h1)"
  shows "slots_ok (linked (write_entry h1 p hdr) p)" "acct_ok (linked (write_entry h1 p hdr) p)"
    "store_ok (linked (write_entry h1 p hdr) p)"
    "contents (linked (write_entry h1 p hdr) p) = contents h @ [hdr]"
    "hp_size (linked (write_entry h1 p hdr) p) = hp_size h"
proof -
  note tk = take_entry_ok [OF slots t]
  have store1: "store_ok h1" using store tk by (simp add: store_ok_def)
  have room: "sum_list (map entry_size (live h1)) + hsize hdr \<le> 4096"
    using acct size tk(2) by (simp add: KGL_HTTP_V2_TABLE_SIZE_def)
  from write_entry_ok [OF tk(1) store1 room] obtain log q where
    w: "pending_ok (write_entry h1 p hdr) p" "live (write_entry h1 p hdr) = live h1"
    "hp_size (write_entry h1 p hdr) = hp_size h1" "hp_free (write_entry h1 p hdr) = hp_free h1"
    "entry_size (hp_objs (write_entry h1 p hdr) p) = hsize hdr"
    "hp_pos (write_entry h1 p hdr) \<le> 4096" "hp_pos (write_entry h1 p hdr) mod 4096 = length log mod 4096"
    "ring_log (hp_storage (write_entry h1 p hdr)) log"
    "chain (live h1 @ [hp_objs (write_entry h1 p hdr) p]) q (length log)"
    "map (read_entry (hp_storage (write_entry h1 p hdr))) (live h1 @ [hp_objs (write_entry h1 p hdr) p])
       = contents h1 @ [hdr]" .
  note lk = linked_ok [OF w(1)]
  show "slots_ok (linked (write_entry h1 p hdr) p)" by (rule lk(1))
  show "acct_ok (linked (write_entry h1 p hdr) p)"
    using acct size tk by (simp add: acct_ok_def lk(2) w(2-5))
  show "store_ok (linked (write_entry h1 p hdr) p)"
    using w(6-9) by (auto simp: store_ok_def lk(2) w(2))
  show "contents (linked (write_entry h1 p hdr) p) = contents h @ [hdr]"
    using w(10) tk(2,3) by (simp add: contents_def lk(2) w(2))
  show "hp_size (linked (write_entry h1 p hdr) p) = hp_size h" using w(3) tk(5) by simp
qed

section \<open>Refinement\<close>

lemma hp_inv_zero: "hp_inv hpack_zero"
  by (simp add: hp_inv_def fresh_def hpack_zero_def)

lemma slots_ok_entries: "slots_ok h \<Longrightarrow> hp_entries h \<noteq> []"
  by (auto simp: slots_ok_def)

lemma hpack_init_ok:
  assumes "hp_inv h" "length junk = 4096" "hpack_init palloc junk h = (True, h')"
  shows "slots_ok h'" "acct_ok h'" "store_ok h'" "contents h' = contents h" "hp_size h' = max_size h"
    "hp_entries h' \<noteq> []"
proof -
  consider "fresh h" | "hp_entries h \<noteq> []" "slots_ok h" "acct_ok h" "store_ok h"
    using assms(1) slots_ok_entries by (auto simp: hp_inv_def)
  then have "slots_ok h' \<and> acct_ok h' \<and> store_ok h' \<and> contents h' = contents h \<and>
    hp_size h' = max_size h \<and> hp_entries h' \<noteq> []"
  proof cases
    case 1
    then have h': "h' = h\<lparr>hp_allocated := 64, hp_size := 4096, hp_free := 4096,
        hp_entries := replicate 64 0, hp_storage := junk, hp_pos := 0\<rparr>"
      using assms(3) by (auto simp: hpack_init_def fresh_def KGL_HTTP_V2_TABLE_SIZE_def Let_def split: if_splits)
    have "ring_log junk []" using assms(2) by (simp add: ring_log_def)
    then have "store_ok h'" using 1 unfolding store_ok_def
      by (intro exI [of _ "[]"] exI [of _ 0]) (simp add: h' live_def fresh_def)
    with 1 show ?thesis
      by (simp add: h' slots_ok_def acct_ok_def contents_def live_def ptrs_def fresh_def max_size_def
          KGL_HTTP_V2_TABLE_SIZE_def)
  next
    case 2
    with assms(3) show ?thesis by (simp add: hpack_init_def max_size_def)
  qed
  then show "slots_ok h'" "acct_ok h'" "store_ok h'" "contents h' = contents h" "hp_size h' = max_size h"
    "hp_entries h' \<noteq> []" by auto
qed

lemma add_header_ok:
  assumes inv: "hp_inv h" and junk: "length junk = 4096"
    and add: "hpack_add_header palloc junk h hdr = (True, h')"
  shows "slots_ok h' \<and> acct_ok h' \<and> store_ok h' \<and> hp_size h' = max_size h \<and>
    contents h' = spec_add (max_size h) (contents h) hdr"
proof -
  let ?len = "length (fst hdr) + length (snd hdr)"
  have hs: "hsize hdr = ?len + 32" by (simp add: hsize_def)
  from add obtain h0 where i: "hpack_init palloc junk h = (True, h0)"
    by (auto simp: hpack_add_header_def Let_def split: prod.splits if_splits)
  note ini = hpack_init_ok [OF inv junk i]
  from ini(1-3) show ?thesis
  proof (rule table_account_ok [where len = ?len])
    fix h1 assume a: "?len + 32 \<le> hp_size h0" "table_account h0 ?len = (True, h1)" "slots_ok h1" "store_ok h1"
      "hp_free h1 + sum_list (map entry_size (live h1)) + (?len + 32) = hp_size h1"
      "hp_size h1 = hp_size h0" "hp_entries h1 = hp_entries h0"
      "contents h1 = evict hsize (hp_size h0 - (?len + 32)) (contents h0)"
    obtain p h2 where t: "take_entry h1 = (p, h2)" by (metis surj_pair)
    have "h' = linked (write_entry h2 p hdr) p"
      using add i a(2) t by (auto simp: hpack_add_header_def Let_def linked_def split: if_splits)
    moreover have "hp_size h1 \<le> KGL_HTTP_V2_TABLE_SIZE" using ini(2) a(6) by (simp add: acct_ok_def)
    moreover note insert_ok [OF a(3,4) _ _ t, of hdr]
    ultimately show ?thesis using a ini(4,5) by (simp add: hs spec_add_def)
  next
    fix h1 assume a: "?len + 32 > hp_size h0" "table_account h0 ?len = (False, h1)"
      "slots_ok h1" "acct_ok h1" "store_ok h1" "contents h1 = []" "hp_size h1 = hp_size h0"
      "hp_entries h1 = hp_entries h0"
    have "h' = h1" using add i a(2) by (simp add: hpack_add_header_def)
    with a ini(5) show ?thesis by (simp add: spec_add_def hs)
  qed
qed

lemma add_header_succeeds:
  assumes "\<And>k. palloc k"
  shows "fst (hpack_add_header palloc junk h hdr)"
  using assms by (auto simp: hpack_add_header_def hpack_init_def Let_def split: prod.splits)

lemma table_size_spec:
  assumes "hp_inv h"
  shows "table_size h sz = (if sz \<le> KGL_HTTP_V2_TABLE_SIZE then (True, snd (table_size h sz)) else (False, h)) \<and>
    hp_inv (snd (table_size h sz)) \<and>
    (sz \<le> KGL_HTTP_V2_TABLE_SIZE \<longrightarrow>
       contents (snd (table_size h sz)) = evict hsize sz (contents h) \<and>
       max_size (snd (table_size h sz)) = (if hp_entries h = [] then KGL_HTTP_V2_TABLE_SIZE else sz))"
proof (cases "sz \<le> KGL_HTTP_V2_TABLE_SIZE")
  case False
  with assms show ?thesis by (simp add: table_size_def)
next
  case le: True
  consider "fresh h" | "slots_ok h" "acct_ok h" "store_ok h" using assms by (auto simp: hp_inv_def)
  then show ?thesis
  proof cases
    case 1
    then have ev: "evict_loop (int (hp_size h) - int sz) h = h"
      by (subst evict_loop.simps) (simp add: fresh_def)
    have "nat (int (hp_size h) - (int (hp_size h) - int sz)) = sz" by simp
    with 1 le ev show ?thesis
      by (simp add: table_size_def hp_inv_def fresh_def contents_def live_def max_size_def)
  next
    case 2
    from table_size_ok [OF this le] obtain h' where
      "table_size h sz = (True, h')" "slots_ok h'" "acct_ok h'" "store_ok h'"
      "hp_size h' = sz" "hp_entries h' = hp_entries h" "contents h' = evict hsize sz (contents h)" .
    with le 2 show ?thesis by (simp add: hp_inv_def max_size_def)
  qed
qed

lemma contents_nth:
  assumes "i < hp_added h - hp_deleted h"
  shows "read_entry (hp_storage h) (entry_at h (hp_added h - i - 1)) = rev (contents h) ! i"
    and "length (contents h) = hp_added h - hp_deleted h"
  using assms by (auto simp: contents_def live_def rev_nth)

lemma get_indexed_spec:
  assumes "hp_inv h" "\<And>k. palloc k"
  shows "get_indexed_header palloc h hdr index False =
    (case spec_get (contents h) index of Some x \<Rightarrow> (True, x) | None \<Rightarrow> (False, hdr))"
proof -
  have len: "length (contents h) = hp_added h - hp_deleted h" by (simp add: contents_def live_def)
  show ?thesis
    using contents_nth(1) [of "index - 1 - length kgl_http_v2_static_table" h] assms(2) len
    by (auto simp: get_indexed_header_def spec_get_def Let_def nth_append read_entry_def)
qed

lemma contents_within:
  assumes "hp_inv h"
  shows "sum_list (map hsize (contents h)) \<le> max_size h"
proof -
  consider "fresh h" | "slots_ok h" "acct_ok h" "store_ok h" using assms by (auto simp: hp_inv_def)
  then show ?thesis
  proof cases
    case 2
    with contents_size [of h] show ?thesis
      by (auto simp: max_size_def acct_ok_def dest: slots_ok_entries)
  qed (simp add: fresh_def contents_def live_def)
qed

section \<open>The interface of a header table\<close>

text \<open>
  What the HPACK decoder relies on, and what follows for any table that keeps these laws.
  \<open>init\<close> is the invariant of a table in use.
\<close>

datatype table_op = Add header | Resize nat

locale header_table =
  fixes init :: "'t \<Rightarrow> bool"
    and headers :: "'t \<Rightarrow> header list"
    and limit :: "'t \<Rightarrow> nat"
    and add :: "header \<Rightarrow> 't \<Rightarrow> 't"
    and resize :: "nat \<Rightarrow> 't \<Rightarrow> 't"
    and get :: "'t \<Rightarrow> nat \<Rightarrow> header option"
  assumes init_add: "init t \<Longrightarrow> init (add x t)"
    and headers_add: "init t \<Longrightarrow> headers (add x t) = spec_add (limit t) (headers t) x"
    and limit_add: "init t \<Longrightarrow> limit (add x t) = limit t"
    and init_resize: "init t \<Longrightarrow> init (resize n t)"
    and headers_resize: "init t \<Longrightarrow> n \<le> KGL_HTTP_V2_TABLE_SIZE \<Longrightarrow>
          headers (resize n t) = evict hsize n (headers t)"
    and limit_resize: "init t \<Longrightarrow> n \<le> KGL_HTTP_V2_TABLE_SIZE \<Longrightarrow> limit (resize n t) = n"
    and resize_rejected: "init t \<Longrightarrow> n > KGL_HTTP_V2_TABLE_SIZE \<Longrightarrow> resize n t = t"
    and get_headers: "init t \<Longrightarrow> get t i = spec_get (headers t) i"
begin

fun step :: "'t \<Rightarrow> table_op \<Rightarrow> 't" where
  "step t (Add x) = add x t"
| "step t (Resize n) = resize n t"

text \<open>Index 62 is the header inserted last.\<close>

lemma get_newest:
  assumes "init t" "hsize x \<le> limit t"
  shows "get (add x t) (length kgl_http_v2_static_table + 1) = Some x"
  using assms by (simp add: get_headers init_add headers_add spec_add_def spec_get_def nth_append)

text \<open>A header that is not evicted moves up by one index.\<close>

lemma get_shifts:
  assumes "init t" "hsize x \<le> limit t" and i: "length kgl_http_v2_static_table < i"
    and y: "get (add x t) (i + 1) = Some y"
  shows "get t i = Some y"
proof -
  let ?n = "length kgl_http_v2_static_table"
  obtain k where k: "evict hsize (limit t - hsize x) (headers t) = drop k (headers t)"
    using evict_drop by blast
  obtain j where j: "i = ?n + Suc j" using i less_imp_Suc_add by fastforce
  have hs: "headers (add x t) = drop k (headers t) @ [x]"
    using assms(1,2) k by (simp add: headers_add spec_add_def)
  with y assms(1) j have "j < length (headers t) - k" "rev (drop k (headers t)) ! j = y"
    by (auto simp: get_headers init_add spec_get_def Let_def nth_append split: if_splits)
  with assms(1) j show ?thesis
    by (simp add: get_headers spec_get_def nth_append rev_nth)
qed

text \<open>Two tables that agree and see the same operations keep agreeing, as encoder and decoder must.\<close>

lemma step_agrees:
  assumes "init s" "init t" "headers s = headers t" "limit s = limit t"
  shows "init (step s a) \<and> init (step t a) \<and> headers (step s a) = headers (step t a) \<and>
    limit (step s a) = limit (step t a)"
proof (cases a)
  case (Resize n)
  with assms show ?thesis
    by (cases "n \<le> KGL_HTTP_V2_TABLE_SIZE")
      (simp_all add: init_resize headers_resize limit_resize resize_rejected)
qed (use assms in \<open>simp add: init_add headers_add limit_add\<close>)

lemma run_agrees:
  assumes "init s" "init t" "headers s = headers t" "limit s = limit t"
  shows "get (foldl step s ops) i = get (foldl step t ops) i"
  using assms
proof (induction ops arbitrary: s t)
  case Nil
  then show ?case by (simp add: get_headers)
next
  case (Cons a ops)
  have "get (foldl step (step s a) ops) i = get (foldl step (step t a) ops) i"
    using step_agrees [OF Cons.prems, of a] by (intro Cons.IH) simp_all
  then show ?case by simp
qed

end

text \<open>The code's table, its allocations succeeding, is such a table.\<close>

definition hpack_ready :: "hpack \<Rightarrow> bool" where
  "hpack_ready h \<longleftrightarrow> hp_entries h \<noteq> [] \<and> hp_inv h"

definition hpack_put :: "header \<Rightarrow> hpack \<Rightarrow> hpack" where
  "hpack_put x h = snd (hpack_add_header (\<lambda>_. True) (replicate 4096 0) h x)"

definition hpack_get :: "hpack \<Rightarrow> nat \<Rightarrow> header option" where
  "hpack_get h i = (let (ok, x) = get_indexed_header (\<lambda>_. True) h ([], []) i False in
     if ok then Some x else None)"

lemma hpack_put_refines:
  assumes "hp_inv h"
  shows "hpack_ready (hpack_put x h)" "max_size (hpack_put x h) = max_size h"
    "contents (hpack_put x h) = spec_add (max_size h) (contents h) x"
proof -
  have "hpack_add_header (\<lambda>_. True) (replicate 4096 0) h x = (True, hpack_put x h)"
    using add_header_succeeds [of "\<lambda>_. True" "replicate 4096 0" h x]
    by (simp add: hpack_put_def prod_eq_iff)
  from add_header_ok [OF assms _ this] slots_ok_entries
  show "hpack_ready (hpack_put x h)" "max_size (hpack_put x h) = max_size h"
    "contents (hpack_put x h) = spec_add (max_size h) (contents h) x"
    by (auto simp: hpack_ready_def hp_inv_def max_size_def)
qed

lemma table_size_entries: "hp_entries h \<noteq> [] \<Longrightarrow> hp_inv h \<Longrightarrow> hp_entries (snd (table_size h n)) \<noteq> []"
proof -
  assume h: "hp_entries h \<noteq> []" "hp_inv h"
  then have ok: "slots_ok h" "acct_ok h" "store_ok h" by (auto simp: hp_inv_def fresh_def)
  show ?thesis
  proof (cases "n \<le> KGL_HTTP_V2_TABLE_SIZE")
    case True
    from table_size_ok [OF ok True] obtain h' where "table_size h n = (True, h')" "hp_entries h' = hp_entries h" .
    with h(1) show ?thesis by simp
  qed (simp add: table_size_def h)
qed

interpretation hpack_table: header_table hpack_ready contents max_size hpack_put
  "\<lambda>n h. snd (table_size h n)" hpack_get
proof
  fix h x n i
  assume r: "hpack_ready h"
  then have inv: "hp_inv h" and ne: "hp_entries h \<noteq> []" by (auto simp: hpack_ready_def)
  note sz = table_size_spec [OF inv, of n]
  show "hpack_ready (hpack_put x h)" "max_size (hpack_put x h) = max_size h"
    "contents (hpack_put x h) = spec_add (max_size h) (contents h) x"
    using hpack_put_refines [OF inv] by auto
  show "hpack_ready (snd (table_size h n))"
    using sz table_size_entries [OF ne inv] by (simp add: hpack_ready_def)
  show "hpack_get h i = spec_get (contents h) i"
    using get_indexed_spec [OF inv, of "\<lambda>_. True"] by (auto simp: hpack_get_def split: option.splits)
  show "contents (snd (table_size h n)) = evict hsize n (contents h)" "max_size (snd (table_size h n)) = n"
    if "n \<le> KGL_HTTP_V2_TABLE_SIZE" using sz that ne by auto
  show "snd (table_size h n) = h" if "n > KGL_HTTP_V2_TABLE_SIZE" using sz that by (simp add: table_size_def)
qed

lemma static_table_length: "length kgl_http_v2_static_table = 61"
  by (simp add: kgl_http_v2_static_table_def)

lemma contents_zero: "contents hpack_zero = []"
  by (simp add: contents_def live_def hpack_zero_def)

lemma max_size_zero: "max_size hpack_zero = 4096"
  by (simp add: max_size_def hpack_zero_def KGL_HTTP_V2_TABLE_SIZE_def)

lemma find_static_from_find:
  "find_static_from k hs name =
     (case List.find (\<lambda>i. strcaseeq name (fst (hs ! (i - k)))) [k..<k + length hs]
      of None \<Rightarrow> 0 | Some i \<Rightarrow> i + 1)"
proof (induction hs arbitrary: k)
  case (Cons h hs)
  obtain n v where h: "h = (n, v)" by (cases h)
  have "List.find (\<lambda>i. strcaseeq name (fst ((h # hs) ! (i - k)))) [Suc k..<Suc k + length hs] =
        List.find (\<lambda>i. strcaseeq name (fst (hs ! (i - Suc k)))) [Suc k..<Suc k + length hs]"
    by (rule find_cong) (auto simp: Suc_diff_Suc nth_Cons' simp flip: diff_Suc_eq_diff_pred)
  moreover have "[k..<k + length (h # hs)] = k # [Suc k..<Suc k + length hs]" by (subst upt_conv_Cons) simp_all
  ultimately show ?case using Cons.IH [of "Suc k"] by (simp add: h)
qed simp

section \<open>Properties\<close>

text \<open>
  C6: an insertion refines the specification. Whenever \<^verbatim>\<open>add_header\<close> reports success, from any
  state of the table and whatever the fresh pool memory held, the invariant still holds and
  the table reads as the list of headers with the oldest evicted until the new one fits and
  the new one appended; a header larger than the table empties it.
\<close>

theorem add_header_refines:
  assumes "hp_inv h" "length junk = 4096" "hpack_add_header palloc junk h hdr = (True, h')"
  shows "hp_inv h' \<and> max_size h' = max_size h \<and>
    contents h' = spec_add (max_size h) (contents h) hdr"
  using add_header_ok [OF assms] slots_ok_entries by (auto simp: hp_inv_def max_size_def)

theorem add_header_refines_witness:
  "contents (snd (hpack_add_header (\<lambda>_. True) (replicate 4096 0) hpack_zero ([1], [2, 3]))) = [([1], [2, 3])]"
proof -
  let ?r = "hpack_add_header (\<lambda>_. True) (replicate 4096 0) hpack_zero ([1], [2, 3])"
  have "?r = (True, snd ?r)"
    using add_header_succeeds [of "\<lambda>_. True" "replicate 4096 0" hpack_zero "([1], [2, 3])"]
    by (simp add: prod_eq_iff)
  from add_header_refines [OF hp_inv_zero _ this] show ?thesis
    by (simp add: contents_zero max_size_zero spec_add_def hsize_def)
qed

text \<open>
  C22: a size update refines the specification. A size above 4096 is refused and changes
  nothing; otherwise the oldest headers are dropped until the rest fits, and the new limit
  is in force once the table is in use.
\<close>

theorem table_size_refines:
  assumes "hp_inv h"
  shows "fst (table_size h sz) = (sz \<le> KGL_HTTP_V2_TABLE_SIZE) \<and>
    hp_inv (snd (table_size h sz)) \<and>
    contents (snd (table_size h sz)) =
      (if sz \<le> KGL_HTTP_V2_TABLE_SIZE then evict hsize sz (contents h) else contents h) \<and>
    (hp_entries h \<noteq> [] \<longrightarrow> max_size (snd (table_size h sz)) =
      (if sz \<le> KGL_HTTP_V2_TABLE_SIZE then sz else max_size h))"
  using table_size_spec [OF assms, of sz] by (auto simp: table_size_def)

theorem table_size_refines_witness:
  "fst (table_size hpack_zero 100) \<and> \<not> fst (table_size hpack_zero 5000) \<and>
   contents (snd (table_size (hpack_put ([1], [2]) hpack_zero) 33)) = []"
proof -
  have "hp_inv (hpack_put ([1], [2]) hpack_zero)"
    using hpack_put_refines(1) [OF hp_inv_zero] by (simp add: hpack_ready_def)
  from table_size_refines [OF this, of 33]
    table_size_refines [OF hp_inv_zero, of 100] table_size_refines [OF hp_inv_zero, of 5000]
  show ?thesis
    by (simp add: hpack_put_refines(3) [OF hp_inv_zero] contents_zero spec_add_def hsize_def
        KGL_HTTP_V2_TABLE_SIZE_def)
qed

text \<open>
  C21: a lookup refines the specification. Index 0 and an index beyond the tables fail and
  leave the header alone, 1 to 61 is the static table, and from 62 on the dynamic table is
  read newest first, also where a string wraps around the end of the ring.
\<close>

theorem get_indexed_header_refines:
  assumes "hp_inv h" "\<forall>k. palloc k"
  shows "get_indexed_header palloc h hdr index False =
    (case spec_get (contents h) index of Some x \<Rightarrow> (True, x) | None \<Rightarrow> (False, hdr))"
  using get_indexed_spec [OF assms(1)] assms(2) by blast

theorem get_indexed_header_refines_witness:
  "get_indexed_header (\<lambda>_. True) (hpack_put ([1], [2]) hpack_zero) ([], []) 62 False = (True, ([1], [2]))"
proof -
  have "hp_inv (hpack_put ([1], [2]) hpack_zero)"
    using hpack_put_refines(1) [OF hp_inv_zero] by (simp add: hpack_ready_def)
  from get_indexed_header_refines [OF this, of "\<lambda>_. True" "([], [])" 62] show ?thesis
    by (simp add: hpack_put_refines(3) [OF hp_inv_zero] contents_zero spec_add_def spec_get_def hsize_def
        static_table_length max_size_zero nth_append)
qed

text \<open>A header inserted into a reachable table that has room for it is read back under index 62.\<close>

theorem add_then_get:
  assumes "hp_inv h" "hsize x \<le> max_size h"
  shows "hpack_get (hpack_put x h) 62 = Some x"
proof -
  have "hpack_get (hpack_put x h) 62 = spec_get (contents (hpack_put x h)) 62"
    using hpack_put_refines(1) [OF assms(1)] by (rule hpack_table.get_headers)
  with assms(2) show ?thesis
    by (simp add: hpack_put_refines(3) [OF assms(1)] spec_add_def spec_get_def nth_append static_table_length)
qed

theorem add_then_get_witness: "hpack_get (hpack_put ([104], [105, 106]) hpack_zero) 62 = Some ([104], [105, 106])"
  by (rule add_then_get [OF hp_inv_zero]) (simp add: hsize_def max_size_zero)

text \<open>
  C23: two dynamic tables in use that agree on their headers and limit, however these lie in
  ring and pointer array, answer every lookup alike after any sequence of insertions and
  size updates.
\<close>

theorem tables_stay_synchronised:
  assumes "hpack_ready g" "hpack_ready h" "contents g = contents h" "max_size g = max_size h"
  shows "hpack_get (foldl hpack_table.step g ops) i = hpack_get (foldl hpack_table.step h ops) i"
  using assms by (rule hpack_table.run_agrees)

theorem tables_stay_synchronised_witness:
  "hpack_get (foldl hpack_table.step (hpack_put ([1], [2]) hpack_zero) [Add ([3], []), Resize 40]) 62 =
   hpack_get (foldl hpack_table.step (hpack_put ([1], [2]) (snd (table_size hpack_zero 100))) [Add ([3], []), Resize 40]) 62"
proof -
  have z: "hp_inv (snd (table_size hpack_zero 100))" "contents (snd (table_size hpack_zero 100)) = []"
    "max_size (snd (table_size hpack_zero 100)) = 4096"
    using table_size_spec [OF hp_inv_zero, of 100]
    by (auto simp: KGL_HTTP_V2_TABLE_SIZE_def contents_zero, auto simp: hpack_zero_def)
  show ?thesis
    by (rule tables_stay_synchronised)
      (simp_all add: hpack_put_refines [OF hp_inv_zero] hpack_put_refines [OF z(1)] z contents_zero max_size_zero)
qed

text \<open>
  A size update received before the first insertion is lost: the first insertion sets the
  limit back to 4096.
\<close>

theorem early_size_update_lost:
  "n \<le> KGL_HTTP_V2_TABLE_SIZE \<Longrightarrow> table_size hpack_zero n = (True, h) \<Longrightarrow>
   hp_size h = n \<and> max_size (hpack_put x h) = KGL_HTTP_V2_TABLE_SIZE"
proof -
  assume n: "n \<le> KGL_HTTP_V2_TABLE_SIZE" and h: "table_size hpack_zero n = (True, h)"
  then have "hp_inv h" "max_size h = KGL_HTTP_V2_TABLE_SIZE"
    using table_size_spec [OF hp_inv_zero, of n] by (auto simp: hpack_zero_def)
  moreover have "hp_size h = n" using h n by (auto simp: table_size_def Let_def)
  ultimately show ?thesis by (simp add: hpack_put_refines)
qed

theorem early_size_update_lost_witness:
  "max_size (hpack_put ([1], []) (snd (table_size hpack_zero 0))) = 4096"
proof -
  have "table_size hpack_zero 0 = (True, snd (table_size hpack_zero 0))"
    by (simp add: table_size_def Let_def)
  from early_size_update_lost [OF _ this] show ?thesis by (simp add: KGL_HTTP_V2_TABLE_SIZE_def)
qed

text \<open>
  The search of the static table returns the first index whose name matches up to case,
  and 0 only when no name does.
\<close>

theorem find_static_first:
  "kgl_find_http2_static_table name =
     (case List.find (\<lambda>i. strcaseeq name (fst (kgl_http_v2_static_table ! i)))
             [0..<length kgl_http_v2_static_table]
      of None \<Rightarrow> 0 | Some i \<Rightarrow> i + 1)"
  unfolding kgl_find_http2_static_table_def using find_static_from_find [of 0] by simp

end
