(* ===== verification/KHttp2Write.thy ===== *)
theory KHttp2Write
  imports KHttp2Frame KSendBuffer KHpack
begin

text \<open>
  The sending side of an HTTP/2 connection: the queue of buffers \<^verbatim>\<open>KHttp2WriteBuffer\<close> and the
  header block builder \<^verbatim>\<open>KHttp2HeaderFrame\<close>, from \<^verbatim>\<open>include/KHttp2WriteBuffer.h\<close> and
  \<^verbatim>\<open>src/KHttp2WriteBuffer.cpp\<close>, with the functions of \<^verbatim>\<open>src/KHttp2.cpp\<close> that encode header
  fields into it. A buffer holds octets or a range of a file for \<^verbatim>\<open>sendfile\<close>; what the
  connection still has to send is the sequence of these octets, and the queue is proved to
  be a byte queue over it.
\<close>

section \<open>The write buffer\<close>

datatype buff_body = Data "byte list" | File nat nat   \<comment> \<open>\<^verbatim>\<open>data\<close>; file offset and \<^verbatim>\<open>used\<close>\<close>

text \<open>\<^verbatim>\<open>ctx\<close> is the stream that is told when the buffer has been sent.\<close>

record http2_buff =
  hb_body :: buff_body
  hb_nodelay :: bool
  hb_ctx :: "nat option"

definition hb_used :: "http2_buff \<Rightarrow> nat" where
  "hb_used b = (case hb_body b of Data d \<Rightarrow> length d | File off n \<Rightarrow> n)"

text \<open>\<open>wb_bufs\<close> is the list from \<^verbatim>\<open>header\<close> to \<^verbatim>\<open>last\<close>, \<open>wb_hot\<close> is \<^verbatim>\<open>hot - header->data\<close>.\<close>

record write_buffer =
  wb_bufs :: "http2_buff list"
  wb_hot :: nat
  wb_left :: int
  wb_tcp_cork :: bool
  wb_no_cork_at_empty :: bool

definition wb_new :: write_buffer where
  "wb_new = \<lparr>wb_bufs = [], wb_hot = 0, wb_left = 0, wb_tcp_cork = False, wb_no_cork_at_empty = False\<rparr>"

definition wb_add :: "http2_buff \<Rightarrow> write_buffer \<Rightarrow> write_buffer" where
  "wb_add buf w = (
     let w = w\<lparr>wb_left := wb_left w + int (hb_used buf)\<rparr> in
     if wb_bufs w = [] then w\<lparr>wb_bufs := [buf], wb_hot := 0\<rparr>
     else w\<lparr>wb_bufs := wb_bufs w @ [buf]\<rparr>)"

definition wb_push :: "http2_buff list \<Rightarrow> write_buffer \<Rightarrow> write_buffer" where
  "wb_push bufs w = fold wb_add bufs w"

text \<open>
  \<^verbatim>\<open>get_read_buffer\<close>: what is handed to the socket, at most \<open>bc\<close> buffers of octets, or the file
  range at the front.
\<close>

datatype wb_view = Iovecs "byte list list" | Sendfile nat nat

fun wb_iovecs :: "nat \<Rightarrow> int \<Rightarrow> http2_buff list \<Rightarrow> byte list list" where
  "wb_iovecs (Suc k) got (b # bs) = (case hb_body b of
     File off n \<Rightarrow> []
   | Data d \<Rightarrow> if got \<le> 0 then []
               else take (nat got) d # wb_iovecs k (got - min got (int (length d))) bs)"
| "wb_iovecs _ _ _ = []"

definition wb_get_read_buffer :: "nat \<Rightarrow> write_buffer \<Rightarrow> wb_view \<times> write_buffer" where
  "wb_get_read_buffer bc w = (
     (case wb_bufs w of
        [] \<Rightarrow> Iovecs []
      | b # bs \<Rightarrow> (case hb_body b of
          File off n \<Rightarrow> Sendfile off n
        | Data d \<Rightarrow>
            let hot_left = min (int (length d) - int (wb_hot w)) (wb_left w)
            in Iovecs (take (nat hot_left) (drop (wb_hot w) d) #
                       wb_iovecs (bc - 1) (wb_left w - hot_left) bs))),
     w\<lparr>wb_tcp_cork := True\<rparr>)"

definition check_tcp_cork :: "write_buffer \<Rightarrow> write_buffer" where
  "check_tcp_cork w =
     (if wb_no_cork_at_empty w then w\<lparr>wb_no_cork_at_empty := False, wb_tcp_cork := False\<rparr> else w)"

text \<open>
  The loop of \<^verbatim>\<open>readSuccess\<close>: the buffers left, the position in the first one, the list of
  finished buffers (newest first) and whether one of them asked for no delay. A round that does
  not finish the first buffer has used up \<open>got\<close>.
\<close>

fun wb_read_loop :: "nat \<Rightarrow> http2_buff list \<Rightarrow> nat \<Rightarrow> http2_buff list \<Rightarrow> bool
    \<Rightarrow> http2_buff list \<times> nat \<times> http2_buff list \<times> bool" where
  "wb_read_loop got [] hot removed nocork = ([], hot, removed, nocork)"
| "wb_read_loop got (b # bs) hot removed nocork = (
     if got = 0 then (b # bs, hot, removed, nocork)
     else let (b', hot', this_len, header_is_empty) = (case hb_body b of
         File off used \<Rightarrow> let this_len = min got used in
           (b\<lparr>hb_body := File (off + got) (used - this_len)\<rparr>, hot, this_len, used - this_len = 0)
       | Data d \<Rightarrow> let this_len = min got (length d - hot) in
           (b, hot + this_len, this_len, length d = hot + this_len)) in
     if header_is_empty
     then (if bs = [] then ([], 0, b' # removed, nocork \<or> hb_nodelay b)
           else wb_read_loop (got - this_len) bs 0 (b' # removed) (nocork \<or> hb_nodelay b))
     else (b' # bs, hot', removed, nocork))"

definition wb_readSuccess :: "nat \<Rightarrow> write_buffer \<Rightarrow> http2_buff list \<times> write_buffer" where
  "wb_readSuccess got w = (
     let (bufs, hot, removed, nocork) = wb_read_loop got (wb_bufs w) (wb_hot w) [] (wb_no_cork_at_empty w);
         left = wb_left w - int got;
         w' = w\<lparr>wb_bufs := bufs, wb_hot := hot, wb_left := left, wb_no_cork_at_empty := nocork\<rparr>
     in (removed, if (wb_bufs w \<noteq> [] \<and> bufs = []) \<or> left = 0 then check_tcp_cork (w'\<lparr>wb_hot := 0\<rparr>) else w'))"

definition wb_clean :: "write_buffer \<Rightarrow> http2_buff list \<times> write_buffer" where
  "wb_clean w = (wb_bufs w, w\<lparr>wb_bufs := [], wb_hot := 0, wb_left := 0\<rparr>)"

subsection \<open>Octets to send\<close>

datatype octet = Octet byte | File_Octet nat

definition hb_octets :: "http2_buff \<Rightarrow> octet list" where
  "hb_octets b = (case hb_body b of
     Data d \<Rightarrow> map Octet d | File off n \<Rightarrow> map File_Octet [off..<off + n])"

lemma length_hb_octets [simp]: "length (hb_octets b) = hb_used b"
  by (auto simp: hb_octets_def hb_used_def split: buff_body.splits)

definition wb_content :: "write_buffer \<Rightarrow> octet list" where
  "wb_content w = drop (wb_hot w) (concat (map hb_octets (wb_bufs w)))"

fun hot_ok :: "http2_buff list \<Rightarrow> nat \<Rightarrow> bool" where
  "hot_ok [] hot \<longleftrightarrow> hot = 0"
| "hot_ok (b # _) hot \<longleftrightarrow> (case hb_body b of Data d \<Rightarrow> hot < length d | File _ _ \<Rightarrow> hot = 0)"

definition wb_ok :: "write_buffer \<Rightarrow> bool" where
  "wb_ok w \<longleftrightarrow> (\<forall>b \<in> set (wb_bufs w). 0 < hb_used b) \<and> hot_ok (wb_bufs w) (wb_hot w) \<and>
     wb_left w = int (length (wb_content w))"

definition view_octets :: "wb_view \<Rightarrow> octet list" where
  "view_octets v = (case v of
     Iovecs ds \<Rightarrow> map Octet (concat ds) | Sendfile off n \<Rightarrow> map File_Octet [off..<off + n])"

definition wb_peek :: "nat \<Rightarrow> write_buffer \<Rightarrow> octet list" where
  "wb_peek bc w = view_octets (fst (wb_get_read_buffer bc w))"

lemma hot_le: "\<forall>b \<in> set bs. 0 < hb_used b \<Longrightarrow> hot_ok bs hot \<Longrightarrow> bs \<noteq> [] \<Longrightarrow> hot < hb_used (hd bs)"
  by (cases bs) (auto simp: hb_used_def split: buff_body.splits)

lemma wb_content_Nil: "wb_ok w \<Longrightarrow> wb_content w = [] \<longleftrightarrow> wb_bufs w = []"
  using hot_le [of "wb_bufs w" "wb_hot w"]
  by (cases "wb_bufs w") (auto simp: wb_ok_def wb_content_def)

lemma wb_add_ok:
  assumes "wb_ok w" "0 < hb_used b"
  shows "wb_ok (wb_add b w)" "wb_content (wb_add b w) = wb_content w @ hb_octets b"
proof -
  have "wb_hot w \<le> length (concat (map hb_octets (wb_bufs w)))"
    using assms(1) hot_le [of "wb_bufs w" "wb_hot w"]
    by (cases "wb_bufs w") (auto simp: wb_ok_def)
  then show c: "wb_content (wb_add b w) = wb_content w @ hb_octets b"
    using assms by (cases "wb_bufs w") (auto simp: wb_ok_def wb_content_def wb_add_def)
  have "wb_left (wb_add b w) = wb_left w + int (hb_used b)" by (simp add: wb_add_def Let_def)
  moreover have "hot_ok (wb_bufs (wb_add b w)) (wb_hot (wb_add b w))"
    using assms by (cases "wb_bufs w") (auto simp: wb_ok_def wb_add_def hb_used_def split: buff_body.splits)
  moreover have "\<forall>b \<in> set (wb_bufs (wb_add b w)). 0 < hb_used b"
    using assms by (auto simp: wb_ok_def wb_add_def Let_def)
  ultimately show "wb_ok (wb_add b w)" using c assms(1) unfolding wb_ok_def by simp
qed

lemma wb_push_ok:
  assumes "wb_ok w" "\<forall>b \<in> set bufs. 0 < hb_used b"
  shows "wb_ok (wb_push bufs w)" "wb_content (wb_push bufs w) = wb_content w @ concat (map hb_octets bufs)"
  using assms unfolding wb_push_def by (induction bufs arbitrary: w) (simp_all add: wb_add_ok)

text \<open>How many octets the front of the queue offers: a file range, or data up to the next file.\<close>

fun lead_data :: "http2_buff list \<Rightarrow> nat" where
  "lead_data [] = 0"
| "lead_data (b # bs) = (case hb_body b of File _ _ \<Rightarrow> 0 | Data d \<Rightarrow> length d + lead_data bs)"

fun front_span :: "http2_buff list \<Rightarrow> nat \<Rightarrow> nat" where
  "front_span [] hot = 0"
| "front_span (b # bs) hot = (case hb_body b of File _ n \<Rightarrow> n | Data d \<Rightarrow> length d - hot + lead_data bs)"

lemma lead_data_span: "lead_data bs \<le> front_span bs 0"
  by (cases bs) (auto split: buff_body.splits)

lemma lead_data_length: "lead_data bs \<le> length (concat (map hb_octets bs))"
  by (induction bs) (auto simp: hb_used_def split: buff_body.splits)

lemma iovecs_prefix:
  "int (length (concat (map hb_octets bs))) \<le> got \<Longrightarrow>
   \<exists>t. concat (map hb_octets bs) = map Octet (concat (wb_iovecs k got bs)) @ t \<and>
     length (concat (wb_iovecs k got bs)) \<le> lead_data bs"
proof (induction k got bs rule: wb_iovecs.induct)
  case (1 k got b bs)
  show ?case
  proof (cases "hb_body b")
    case (Data d)
    show ?thesis
    proof (cases "got \<le> 0")
      case False
      have d: "hb_used b = length d" "hb_octets b = map Octet d" using Data by (simp_all add: hb_used_def hb_octets_def)
      with 1(2) have "min got (int (length d)) = int (length d)" "length d \<le> nat got" by auto
      with 1(1) [OF Data False] 1(2) d obtain t where
        "concat (map hb_octets bs) = map Octet (concat (wb_iovecs k (got - int (length d)) bs)) @ t"
        "length (concat (wb_iovecs k (got - int (length d)) bs)) \<le> lead_data bs"
        by auto
      with False Data d \<open>min got _ = _\<close> \<open>length d \<le> nat got\<close> show ?thesis by auto
    qed (use Data in simp)
  qed simp
qed simp_all

lemma wb_read_loop_ok:
  assumes "\<forall>b \<in> set bs. 0 < hb_used b" "hot_ok bs hot" "got \<le> front_span bs hot"
    "wb_read_loop got bs hot removed nocork = (bs', hot', removed', nocork')"
  shows "drop hot' (concat (map hb_octets bs')) = drop (hot + got) (concat (map hb_octets bs)) \<and>
    (\<forall>b \<in> set bs'. 0 < hb_used b) \<and> hot_ok bs' hot' \<and>
    (\<exists>fin. removed' = rev fin @ removed \<and> map hb_ctx fin @ map hb_ctx bs' = map hb_ctx bs \<and>
       (nocork' \<longleftrightarrow> nocork \<or> (\<exists>b \<in> set fin. hb_nodelay b)))"
  using assms
proof (induction bs arbitrary: got hot removed nocork)
  case Nil
  then show ?case by auto
next
  case (Cons b bs)
  show ?case
  proof (cases "got = 0")
    case True
    with Cons.prems show ?thesis by auto
  next
    case got: False
    show ?thesis
    proof (cases "hb_body b")
      case (File off used)
      have hot: "hot = 0" and gu: "got \<le> used" using Cons.prems(2,3) File by auto
      have oct: "hb_octets b = map File_Octet [off..<off + used]" "hb_used b = used"
        using File by (simp_all add: hb_octets_def hb_used_def)
      let ?b = "b\<lparr>hb_body := File (off + got) (used - got)\<rparr>"
      have res: "(bs', hot', removed', nocork') =
          (if used = got then (bs, 0, ?b # removed, nocork \<or> hb_nodelay b)
           else (?b # bs, 0, removed, nocork))"
        using Cons.prems(4) got gu hot File by (cases bs) (auto simp: Let_def min_def split: if_splits)
      have dr: "drop got (hb_octets b) = hb_octets ?b"
        unfolding oct(1) using gu by (simp add: hb_octets_def drop_map)
      show ?thesis
      proof (cases "used = got")
        case True
        have "hot_ok bs 0" using Cons.prems(1) by (cases bs) (auto simp: hb_used_def split: buff_body.splits)
        with True res hot oct Cons.prems(1) show ?thesis by (auto intro!: exI [of _ "[?b]"])
      next
        case False
        with res hot oct dr gu Cons.prems(1) show ?thesis by (auto simp: hb_used_def)
      qed
    next
      case (Data d)
      have hot: "hot < length d" using Cons.prems(2) Data by simp
      have oct: "hb_octets b = map Octet d" "hb_used b = length d"
        using Data by (simp_all add: hb_octets_def hb_used_def)
      show ?thesis
      proof (cases "got < length d - hot")
        case True
        with Cons.prems(4) got Data have "bs' = b # bs" "hot' = hot + got" "removed' = removed" "nocork' = nocork"
          by (auto simp: Let_def split: if_splits)
        with True Cons.prems(1) Data oct show ?thesis by auto
      next
        case False
        then have m: "min got (length d - hot) = length d - hot" by simp
        have ok0: "hot_ok bs 0" using Cons.prems(1) by (cases bs) (auto simp: hb_used_def split: buff_body.splits)
        let ?g = "got - (length d - hot)"
        have g: "?g \<le> lead_data bs" using Cons.prems(3) Data by simp
        have loop: "wb_read_loop ?g bs 0 (b # removed) (nocork \<or> hb_nodelay b) = (bs', hot', removed', nocork')"
          using Cons.prems(4) got Data m hot g by (cases bs) (auto simp: Let_def)
        have ih: "drop hot' (concat (map hb_octets bs')) = drop (0 + ?g) (concat (map hb_octets bs)) \<and>
          (\<forall>b \<in> set bs'. 0 < hb_used b) \<and> hot_ok bs' hot' \<and>
          (\<exists>fin. removed' = rev fin @ b # removed \<and> map hb_ctx fin @ map hb_ctx bs' = map hb_ctx bs \<and>
             (nocork' \<longleftrightarrow> (nocork \<or> hb_nodelay b) \<or> (\<exists>b \<in> set fin. hb_nodelay b)))"
        proof (cases "bs = []")
          case True
          with loop g show ?thesis by auto
        next
          case bs: False
          have "?g \<le> front_span bs 0" using g lead_data_span [of bs] by simp
          then show ?thesis using Cons.prems(1) ok0 loop by (intro Cons.IH) auto
        qed
        then obtain fin where fin: "removed' = rev fin @ b # removed"
          "map hb_ctx fin @ map hb_ctx bs' = map hb_ctx bs"
          "nocork' \<longleftrightarrow> (nocork \<or> hb_nodelay b) \<or> (\<exists>b \<in> set fin. hb_nodelay b)" by blast
        have "drop (hot + got) (concat (map hb_octets (b # bs))) = drop ?g (concat (map hb_octets bs))"
          using False hot oct by (simp add: add.commute)
        with ih fin show ?thesis by (auto intro!: exI [of _ "b # fin"])
      qed
    qed
  qed
qed

lemma wb_peek_span:
  assumes "wb_ok w"
  shows "wb_peek bc w = take (length (wb_peek bc w)) (wb_content w)"
    and "wb_content w \<noteq> [] \<Longrightarrow> wb_peek bc w \<noteq> []"
    and "length (wb_peek bc w) \<le> front_span (wb_bufs w) (wb_hot w)"
proof -
  have "(\<exists>t. wb_content w = wb_peek bc w @ t) \<and> (wb_content w \<noteq> [] \<longrightarrow> wb_peek bc w \<noteq> []) \<and>
    length (wb_peek bc w) \<le> front_span (wb_bufs w) (wb_hot w)"
  proof (cases "wb_bufs w")
    case Nil
    then show ?thesis by (simp add: wb_peek_def wb_get_read_buffer_def view_octets_def wb_content_def)
  next
    case (Cons b bs)
    show ?thesis
    proof (cases "hb_body b")
      case (File off n)
      then have "wb_hot w = 0" "0 < n" using assms Cons by (auto simp: wb_ok_def hb_used_def)
      with File Cons show ?thesis
        by (simp add: wb_peek_def wb_get_read_buffer_def view_octets_def wb_content_def hb_octets_def)
    next
      case (Data d)
      have hot: "wb_hot w < length d" using assms Cons Data by (simp add: wb_ok_def)
      have oct: "hb_octets b = map Octet d" "hb_used b = length d"
        using Data by (simp_all add: hb_octets_def hb_used_def)
      let ?r = "concat (map hb_octets bs)"
      have left: "wb_left w = int (length d - wb_hot w + length ?r)"
        using assms hot unfolding wb_ok_def wb_content_def by (simp add: Cons oct)
      then have m: "min (int (length d) - int (wb_hot w)) (wb_left w) = int (length d - wb_hot w)"
        using hot by simp
      have got: "int (length ?r) \<le> wb_left w - int (length d - wb_hot w)" using left by simp
      obtain t where t: "?r = map Octet (concat (wb_iovecs (bc - 1) (wb_left w - int (length d - wb_hot w)) bs)) @ t"
        "length (concat (wb_iovecs (bc - 1) (wb_left w - int (length d - wb_hot w)) bs)) \<le> lead_data bs"
        using iovecs_prefix [OF got, of "bc - 1"] by blast
      have pk: "wb_peek bc w = map Octet (drop (wb_hot w) d) @
          map Octet (concat (wb_iovecs (bc - 1) (wb_left w - int (length d - wb_hot w)) bs))"
        using hot m by (simp add: wb_peek_def wb_get_read_buffer_def view_octets_def Cons Data Let_def)
      have "wb_content w = map Octet (drop (wb_hot w) d) @ ?r"
        using hot by (simp add: wb_content_def Cons oct drop_map)
      then show ?thesis using pk t hot by (simp add: Cons Data)
    qed
  qed
  then show "wb_peek bc w = take (length (wb_peek bc w)) (wb_content w)"
    "wb_content w \<noteq> [] \<Longrightarrow> wb_peek bc w \<noteq> []"
    "length (wb_peek bc w) \<le> front_span (wb_bufs w) (wb_hot w)" by auto
qed

lemma front_span_length:
  assumes "wb_ok w"
  shows "front_span (wb_bufs w) (wb_hot w) \<le> length (wb_content w)"
proof (cases "wb_bufs w")
  case (Cons b bs)
  with assms lead_data_length [of bs] show ?thesis
    by (cases "hb_body b") (auto simp: wb_ok_def wb_content_def hb_used_def)
qed simp

lemma wb_readSuccess_ok:
  assumes ok: "wb_ok w" and n: "n \<le> front_span (wb_bufs w) (wb_hot w)"
    and r: "wb_readSuccess n w = (removed, w')"
  shows "wb_ok w'" "wb_content w' = drop n (wb_content w)"
    "rev (map hb_ctx removed) @ map hb_ctx (wb_bufs w') = map hb_ctx (wb_bufs w)"
    "wb_tcp_cork w' \<longleftrightarrow> wb_tcp_cork w \<and>
       \<not> (wb_bufs w' = [] \<and> (wb_no_cork_at_empty w \<or> (\<exists>b \<in> set removed. hb_nodelay b)))"
proof -
  obtain bs' hot' rm' nc' where l:
    "wb_read_loop n (wb_bufs w) (wb_hot w) [] (wb_no_cork_at_empty w) = (bs', hot', rm', nc')"
    by (metis prod_cases4)
  have pos: "\<forall>b \<in> set (wb_bufs w). 0 < hb_used b" and hk: "hot_ok (wb_bufs w) (wb_hot w)"
    using ok by (auto simp: wb_ok_def)
  from wb_read_loop_ok [OF pos hk n l] obtain fin where
    lp: "drop hot' (concat (map hb_octets bs')) = drop (wb_hot w + n) (concat (map hb_octets (wb_bufs w)))"
    "\<forall>b \<in> set bs'. 0 < hb_used b" "hot_ok bs' hot'"
    "rm' = rev fin" "map hb_ctx fin @ map hb_ctx bs' = map hb_ctx (wb_bufs w)"
    "nc' \<longleftrightarrow> wb_no_cork_at_empty w \<or> (\<exists>b \<in> set fin. hb_nodelay b)" by auto
  let ?w = "w\<lparr>wb_bufs := bs', wb_hot := hot', wb_left := wb_left w - int n, wb_no_cork_at_empty := nc'\<rparr>"
  have c: "wb_content ?w = drop n (wb_content w)" using lp(1) by (simp add: wb_content_def add.commute)
  have nlen: "n \<le> length (wb_content w)" using n front_span_length [OF ok] by simp
  have ok': "wb_ok ?w" using lp(2,3) ok nlen c unfolding wb_ok_def by simp
  have empty: "wb_left ?w = 0 \<longleftrightarrow> bs' = []"
  proof -
    have "wb_left ?w = int (length (wb_content ?w))" using ok' unfolding wb_ok_def by blast
    then have "wb_left ?w = 0 \<longleftrightarrow> wb_content ?w = []" by (simp only: of_nat_eq_0_iff length_0_conv)
    with wb_content_Nil [OF ok'] show ?thesis by simp
  qed
  have w': "w' = (if (wb_bufs w \<noteq> [] \<and> bs' = []) \<or> wb_left ?w = 0 then check_tcp_cork (?w\<lparr>wb_hot := 0\<rparr>) else ?w)"
    and rm: "removed = rev fin" using r l lp(4) by (auto simp: wb_readSuccess_def Let_def)
  have hot0: "bs' = [] \<Longrightarrow> hot' = 0" using lp(3) by simp
  have same: "wb_bufs w' = bs'" "wb_hot w' = hot'" "wb_left w' = wb_left ?w"
    using hot0 empty by (auto simp: w' check_tcp_cork_def)
  have c': "wb_content w' = wb_content ?w" by (simp add: wb_content_def same)
  with c show "wb_content w' = drop n (wb_content w)" by simp
  show "wb_ok w'" using ok' unfolding wb_ok_def c' same by simp
  show "rev (map hb_ctx removed) @ map hb_ctx (wb_bufs w') = map hb_ctx (wb_bufs w)"
    using lp(5) same rm by (simp add: rev_map)
  show "wb_tcp_cork w' \<longleftrightarrow> wb_tcp_cork w \<and>
       \<not> (wb_bufs w' = [] \<and> (wb_no_cork_at_empty w \<or> (\<exists>b \<in> set removed. hb_nodelay b)))"
    using empty lp(6) by (auto simp: w' rm check_tcp_cork_def)
qed

interpretation wq: byte_queue wb_ok wb_content "wb_peek bc"
  "\<lambda>bufs. \<forall>b \<in> set bufs. 0 < hb_used b" "\<lambda>bufs. concat (map hb_octets bufs)" wb_push
  "\<lambda>n w. snd (wb_readSuccess n w)" for bc
proof
  fix w n
  assume ok: "wb_ok w" and "n \<le> length (wb_peek bc w)"
  then have "n \<le> front_span (wb_bufs w) (wb_hot w)" using wb_peek_span(3) [OF ok, of bc] by simp
  from wb_readSuccess_ok [OF ok this]
  show "wb_ok (snd (wb_readSuccess n w))" "wb_content (snd (wb_readSuccess n w)) = drop n (wb_content w)"
    by (auto simp: prod_eq_iff)
qed (simp_all add: wb_push_ok wb_peek_span(2), rule wb_peek_span(1))

section \<open>Header blocks\<close>

definition KGL_HEADER_FRAME_CHUNK_SIZE :: nat where
  "KGL_HEADER_FRAME_CHUNK_SIZE = 4096"

text \<open>
  \<^verbatim>\<open>KHttp2HeaderFrame\<close> is its list of chunks from \<^verbatim>\<open>head\<close> to \<^verbatim>\<open>last\<close>. The test on the last
  chunk in \<open>hf_write\<close> is the assertion of \<^verbatim>\<open>alloc_buffer\<close>.
\<close>

type_synonym header_frame = "byte list list"

definition hf_alloc :: "header_frame \<Rightarrow> header_frame" where
  "hf_alloc cs = (if cs = [] \<or> length (last cs) = KGL_HEADER_FRAME_CHUNK_SIZE then cs @ [[]] else cs)"

function hf_write :: "byte list \<Rightarrow> header_frame \<Rightarrow> header_frame" where
  "hf_write str cs = (
     if str = [] then cs
     else let cs = hf_alloc cs; left = KGL_HEADER_FRAME_CHUNK_SIZE - length (last cs) in
       if left = 0 then cs
       else hf_write (drop left str) (butlast cs @ [last cs @ take left str]))"
  by pat_completeness auto
termination
  by (relation "measure (\<lambda>(str, cs). length str)") (auto simp flip: length_greater_0_conv)

declare hf_write.simps [simp del]

definition hf_write_lower_string :: "byte list \<Rightarrow> header_frame \<Rightarrow> header_frame" where
  "hf_write_lower_string str cs = hf_write (map kgl_tolower str) cs"

definition hf_write_int :: "byte \<Rightarrow> nat \<Rightarrow> nat \<Rightarrow> header_frame \<Rightarrow> header_frame" where
  "hf_write_int type prefix val cs = hf_write (write_int type prefix val) cs"

definition hf_insert :: "byte list \<Rightarrow> header_frame \<Rightarrow> header_frame" where
  "hf_insert str cs = (if cs = [] then hf_write str cs else str # cs)"

subsection \<open>Header fields\<close>

text \<open>
  \<^verbatim>\<open>KHttp2::add_status\<close>, the two \<^verbatim>\<open>KHttp2::add_header\<close> and \<^verbatim>\<open>add_header_cookie\<close>. A header
  type is given by its lower-case name; \<^verbatim>\<open>kgl_init_header_string\<close> looks its index up in the
  static table.
\<close>

definition hf_string :: "byte list \<Rightarrow> header_frame \<Rightarrow> header_frame" where
  "hf_string str cs = hf_write str (hf_write_int 0 127 (length str) cs)"

definition add_header_cookie :: "byte list \<Rightarrow> header_frame \<Rightarrow> header_frame" where
  "add_header_cookie val cs = hf_string val (hf_write [64 + 32] cs)"

definition add_header_type :: "byte list \<Rightarrow> byte list \<Rightarrow> header_frame \<Rightarrow> header_frame" where
  "add_header_type low_case val cs = (
     if low_case = bytes ''cookie'' then add_header_cookie val cs
     else let http2_index = kgl_find_http2_static_table low_case in
       if http2_index = 0 then hf_string val (hf_string low_case (hf_write [0] cs))
       else hf_string val (hf_write [64 + of_nat http2_index] cs))"

definition skip_upgrade :: "byte list \<Rightarrow> byte list \<Rightarrow> bool" where
  "skip_upgrade name val \<longleftrightarrow> length name = 7 \<and> strcaseeq name (bytes ''upgrade'') \<and>
     (length val = 2 \<and> strcaseeq val (bytes ''h2'') \<or> length val = 3 \<and> strcaseeq val (bytes ''h2c''))"

definition add_header_name :: "byte list \<Rightarrow> byte list \<Rightarrow> header_frame \<Rightarrow> header_frame" where
  "add_header_name name val cs = (
     if length name = 6 \<and> strcaseeq name (bytes ''cookie'') then add_header_cookie val cs
     else if skip_upgrade name val then cs
     else hf_string val (hf_write_lower_string name (hf_write_int 0 127 (length name) (hf_write [0] cs))))"

definition indexed_status :: "nat \<Rightarrow> byte" where
  "indexed_status code = (
     if code = 200 then 128 + 8 else if code = 204 then 128 + 9 else if code = 206 then 128 + 10
     else if code = 304 then 128 + 11 else if code = 400 then 128 + 12 else if code = 404 then 128 + 13
     else if code = 500 then 128 + 14 else 0)"

text \<open>\<^verbatim>\<open>sprintf("%03u")\<close> of a 16-bit code; only three characters are kept.\<close>

definition sprintf_03u :: "nat \<Rightarrow> byte list" where
  "sprintf_03u n = (let d = decimal n in replicate (3 - length d) 48 @ d)"

definition add_status :: "nat \<Rightarrow> header_frame \<Rightarrow> header_frame" where
  "add_status code cs = (
     let status = indexed_status code in
     if status \<noteq> 0 then hf_insert [status] cs
     else hf_insert ([64 + 8, 3] @ take 3 (sprintf_03u code)) cs)"

subsection \<open>Frames\<close>

definition KGL_HTTP_V2_HEADERS_FRAME :: u32 where "KGL_HTTP_V2_HEADERS_FRAME = 0x1"
definition KGL_HTTP_V2_CONTINUATION_FRAME :: u32 where "KGL_HTTP_V2_CONTINUATION_FRAME = 0x9"
definition KGL_HTTP_V2_END_STREAM_FLAG :: byte where "KGL_HTTP_V2_END_STREAM_FLAG = 0x01"
definition KGL_HTTP_V2_END_HEADERS_FLAG :: byte where "KGL_HTTP_V2_END_HEADERS_FLAG = 0x04"

definition zero_header :: frame_header where
  "zero_header = \<lparr>fh_length_type = 0, fh_flags = 0, fh_stream_id = 0\<rparr>"

definition set_header :: "u32 \<Rightarrow> nat \<Rightarrow> u32 \<Rightarrow> frame_header \<Rightarrow> frame_header" where
  "set_header sid frame_size type h =
     h\<lparr>fh_length_type := set_length_type (of_nat frame_size) type, fh_stream_id := sid\<rparr>"

text \<open>\<^verbatim>\<open>memset(buf->data, 0, ...)\<close>: \<^verbatim>\<open>buf\<close> is the first frame.\<close>

fun zero_first :: "(frame_header \<times> 'a) list \<Rightarrow> (frame_header \<times> 'a) list" where
  "zero_first [] = []"
| "zero_first ((h, cs) # fs) = (zero_header, cs) # fs"

text \<open>
  The loop of \<^verbatim>\<open>create\<close>: the finished frames, the header and the chunks of the current one,
  its size and type. \<open>junk i\<close> is what \<^verbatim>\<open>malloc\<close> leaves in the header of frame \<open>i\<close>.
\<close>

fun hf_create_loop :: "(nat \<Rightarrow> frame_header) \<Rightarrow> u32 \<Rightarrow> nat \<Rightarrow> (frame_header \<times> header_frame) list \<Rightarrow>
    frame_header \<Rightarrow> header_frame \<Rightarrow> nat \<Rightarrow> u32 \<Rightarrow> header_frame \<Rightarrow> (frame_header \<times> header_frame) list" where
  "hf_create_loop junk sid mx fin h cs frame_size type [] =
     fin @ [((set_header sid frame_size type h)\<lparr>fh_flags := fh_flags h OR KGL_HTTP_V2_END_HEADERS_FLAG\<rparr>, cs)]"
| "hf_create_loop junk sid mx fin h cs frame_size type (c # rest) = (
     if frame_size + length c > mx then
       let fin = zero_first (fin @ [(set_header sid frame_size type h, cs)])
       in hf_create_loop junk sid mx fin (junk (length fin)) [c] (length c) KGL_HTTP_V2_CONTINUATION_FRAME rest
     else hf_create_loop junk sid mx fin h (cs @ [c]) (frame_size + length c) type rest)"

definition hf_create :: "(nat \<Rightarrow> frame_header) \<Rightarrow> u32 \<Rightarrow> bool \<Rightarrow> nat \<Rightarrow> header_frame \<Rightarrow> (frame_header \<times> header_frame) list" where
  "hf_create junk stream_id no_body max_frame_size cs =
     hf_create_loop junk stream_id max_frame_size []
       (if no_body then zero_header\<lparr>fh_flags := KGL_HTTP_V2_END_STREAM_FLAG\<rparr> else zero_header)
       [] 0 KGL_HTTP_V2_HEADERS_FRAME cs"

text \<open>The octets that go on the wire.\<close>

definition hf_wire :: "(frame_header \<times> header_frame) list \<Rightarrow> byte list" where
  "hf_wire fs = concat (map (\<lambda>(h, cs). frame_header_bytes h @ concat cs) fs)"

subsection \<open>What is written\<close>

definition chunks_ok :: "header_frame \<Rightarrow> bool" where
  "chunks_ok cs \<longleftrightarrow> (cs \<noteq> [] \<longrightarrow> length (last cs) \<le> KGL_HEADER_FRAME_CHUNK_SIZE)"

lemma hf_alloc_ok:
  assumes "chunks_ok cs"
  shows "hf_alloc cs \<noteq> []" "length (last (hf_alloc cs)) < KGL_HEADER_FRAME_CHUNK_SIZE"
    "concat (hf_alloc cs) = concat cs" "chunks_ok (hf_alloc cs)"
  using assms by (auto simp: hf_alloc_def chunks_ok_def KGL_HEADER_FRAME_CHUNK_SIZE_def)

lemma concat_snoc_last: "cs \<noteq> [] \<Longrightarrow> concat (butlast cs @ [last cs @ s]) = concat cs @ s"
  by (cases cs rule: rev_cases) auto

lemma hf_write_ok:
  "chunks_ok cs \<Longrightarrow> concat (hf_write str cs) = concat cs @ str \<and> chunks_ok (hf_write str cs)"
proof (induction str cs rule: hf_write.induct)
  case (1 str cs)
  show ?case
  proof (cases "str = []")
    case True
    with 1(2) show ?thesis by (simp add: hf_write.simps)
  next
    case False
    note al = hf_alloc_ok [OF 1(2)]
    let ?cs = "hf_alloc cs" and ?l = "KGL_HEADER_FRAME_CHUNK_SIZE - length (last (hf_alloc cs))"
    have l: "?l \<noteq> 0" using al(2) by simp
    have step: "hf_write str cs = hf_write (drop ?l str) (butlast ?cs @ [last ?cs @ take ?l str])"
      using False l by (subst hf_write.simps) (simp add: Let_def)
    have "chunks_ok (butlast ?cs @ [last ?cs @ take ?l str])" using al(2) by (simp add: chunks_ok_def)
    from 1(1) [OF False refl refl l this] show ?thesis
      using step concat_snoc_last [OF al(1)] al(3) by simp
  qed
qed

lemma hf_insert_ok:
  "chunks_ok cs \<Longrightarrow> concat (hf_insert str cs) = str @ concat cs \<and> chunks_ok (hf_insert str cs)"
  using hf_write_ok [of cs str] by (auto simp: hf_insert_def chunks_ok_def)

lemma hf_create_loop_fits:
  "frame_size + length (concat cs) \<le> mx \<Longrightarrow>
   hf_create_loop junk sid mx fin h cs0 frame_size type cs =
     fin @ [((set_header sid (frame_size + length (concat cs)) type h)
       \<lparr>fh_flags := fh_flags h OR KGL_HTTP_V2_END_HEADERS_FLAG\<rparr>, cs0 @ cs)]"
  by (induction cs arbitrary: cs0 frame_size) (auto simp: add.assoc)

text \<open>Once a second frame is started the header of the first one is zero.\<close>

lemma hf_create_loop_zeroed:
  "fin \<noteq> [] \<and> fst (hd fin) = zero_header \<Longrightarrow>
   hf_create_loop junk sid mx fin h cs0 frame_size type cs \<noteq> [] \<and>
   fst (hd (hf_create_loop junk sid mx fin h cs0 frame_size type cs)) = zero_header"
proof (induction cs arbitrary: fin h cs0 frame_size type)
  case (Cons c cs)
  obtain f fs where f: "fin = f # fs" using Cons.prems by (cases fin) auto
  have "zero_first (fin @ r) \<noteq> [] \<and> fst (hd (zero_first (fin @ r))) = zero_header" for r
    by (cases f) (simp add: f)
  with Cons show ?case by (simp add: Let_def)
qed auto

lemma hf_create_loop_splits:
  "frame_size + length (concat cs) > mx \<Longrightarrow> frame_size \<le> mx \<Longrightarrow>
   hf_create_loop junk sid mx [] h cs0 frame_size type cs \<noteq> [] \<and>
   fst (hd (hf_create_loop junk sid mx [] h cs0 frame_size type cs)) = zero_header"
proof (induction cs arbitrary: h cs0 frame_size)
  case (Cons c cs)
  then show ?case
    using hf_create_loop_zeroed [of "zero_first [(set_header sid frame_size type h, cs0)]"]
    by (cases "frame_size + length c > mx") (auto simp: Let_def)
qed simp

lemma zero_header_bytes: "frame_header_bytes zero_header = replicate 9 0"
  by (simp add: frame_header_bytes_def zero_header_def put_uint32_def numeral_eq_Suc)

subsection \<open>The octets of header fields\<close>

definition literal_string :: "byte list \<Rightarrow> byte list" where
  "literal_string str = write_int 0 127 (length str) @ str"

lemma hf_string_ok:
  "chunks_ok cs \<Longrightarrow> concat (hf_string str cs) = concat cs @ literal_string str \<and> chunks_ok (hf_string str cs)"
  by (simp add: hf_string_def hf_write_int_def hf_write_ok literal_string_def)

lemma add_header_cookie_ok:
  "chunks_ok cs \<Longrightarrow> concat (add_header_cookie val cs) = concat cs @ [96] @ literal_string val \<and>
     chunks_ok (add_header_cookie val cs)"
  by (simp add: add_header_cookie_def hf_string_ok hf_write_ok)

section \<open>Properties\<close>

text \<open>
  C19: the octets of a connection leave in order. However pushes of buffers (data or file
  ranges) and partial writes to the socket alternate, with any number of buffers offered per
  write, what has been written followed by what is still queued is what was queued at first
  followed by everything pushed since; nothing is lost, repeated or reordered.
\<close>

theorem write_buffer_fifo:
  assumes "wb_ok w" "\<forall>(n, ws) \<in> set rounds. \<forall>bufs \<in> set ws. \<forall>b \<in> set bufs. 0 < hb_used b"
    and "wq.interleave bc rounds w = (sent, w')"
  shows "wb_ok w' \<and> sent @ wb_content w' =
    wb_content w @ concat (map (\<lambda>bufs. concat (map hb_octets bufs)) (concat (map snd rounds)))"
  using assms by (rule wq.interleave_fifo)

theorem write_buffer_fifo_witness:
  "fst (wq.interleave 4 [(0, [[\<lparr>hb_body = Data [1, 2], hb_nodelay = False, hb_ctx = None\<rparr>]]), (1, [])] wb_new)
     @ wb_content (snd (wq.interleave 4
         [(0, [[\<lparr>hb_body = Data [1, 2], hb_nodelay = False, hb_ctx = None\<rparr>]]), (1, [])] wb_new))
   = [Octet 1, Octet 2]"
proof -
  let ?b = "\<lparr>hb_body = Data [1, 2], hb_nodelay = False, hb_ctx = None\<rparr>"
  let ?r = "[(0, [[?b]]), (1, [])]"
  have "wb_ok wb_new" by (simp add: wb_ok_def wb_new_def wb_content_def)
  moreover have "\<forall>(n, ws) \<in> set ?r. \<forall>bufs \<in> set ws. \<forall>b \<in> set bufs. 0 < hb_used b"
    by (simp add: hb_used_def)
  ultimately have "fst (wq.interleave 4 ?r wb_new) @ wb_content (snd (wq.interleave 4 ?r wb_new)) =
    wb_content wb_new @ concat (map (\<lambda>bufs. concat (map hb_octets bufs)) (concat (map snd ?r)))"
    using write_buffer_fifo [of wb_new ?r 4 "fst (wq.interleave 4 ?r wb_new)" "snd (wq.interleave 4 ?r wb_new)"]
    by simp
  then show ?thesis by (simp add: wb_content_def wb_new_def hb_octets_def)
qed

text \<open>
  After a write of \<open>n\<close> of the octets offered, exactly these octets are gone, the byte count is
  in step, every buffer that is finished is handed out for its stream to be told, once and in
  order, and TCP_CORK is lifted exactly when the queue ran empty and a finished buffer asked
  for no delay.
\<close>

theorem write_success:
  assumes "wb_ok w" "n \<le> length (wb_peek bc w)" "wb_readSuccess n w = (removed, w')"
  shows "wb_ok w' \<and> wb_content w' = drop n (wb_content w) \<and>
    rev (map hb_ctx removed) @ map hb_ctx (wb_bufs w') = map hb_ctx (wb_bufs w) \<and>
    (wb_tcp_cork w' \<longleftrightarrow> wb_tcp_cork w \<and>
       \<not> (wb_bufs w' = [] \<and> (wb_no_cork_at_empty w \<or> (\<exists>b \<in> set removed. hb_nodelay b))))"
proof -
  have "n \<le> front_span (wb_bufs w) (wb_hot w)" using assms(2) wb_peek_span(3) [OF assms(1), of bc] by simp
  from wb_readSuccess_ok [OF assms(1) this assms(3)] show ?thesis by blast
qed

theorem write_success_witness:
  "let w = wb_push [\<lparr>hb_body = Data [1, 2], hb_nodelay = True, hb_ctx = Some 5\<rparr>] wb_new
   in wb_content (snd (wb_readSuccess 2 w)) = [] \<and> map hb_ctx (fst (wb_readSuccess 2 w)) = [Some 5]"
proof -
  let ?w = "wb_push [\<lparr>hb_body = Data [1, 2], hb_nodelay = True, hb_ctx = Some 5\<rparr>] wb_new"
  have w: "?w = \<lparr>wb_bufs = [\<lparr>hb_body = Data [1, 2], hb_nodelay = True, hb_ctx = Some 5\<rparr>], wb_hot = 0,
      wb_left = 2, wb_tcp_cork = False, wb_no_cork_at_empty = False\<rparr>"
    by (simp add: wb_push_def wb_add_def wb_new_def hb_used_def)
  have ok: "wb_ok ?w" unfolding w by (simp add: wb_ok_def wb_content_def hb_used_def)
  have pk: "2 \<le> length (wb_peek 3 ?w)"
    unfolding w by (simp add: wb_peek_def wb_get_read_buffer_def view_octets_def)
  have "wb_content ?w = [Octet 1, Octet 2]" unfolding w by (simp add: wb_content_def hb_octets_def)
  moreover have "wb_bufs (snd (wb_readSuccess 2 ?w)) = []"
    unfolding w by (simp add: wb_readSuccess_def check_tcp_cork_def)
  ultimately show ?thesis
    using write_success [OF ok pk, of "fst (wb_readSuccess 2 ?w)" "snd (wb_readSuccess 2 ?w)"]
    by (simp add: w)
qed

text \<open>
  A header block that fits one frame is sent as one HEADERS frame: the receiver reads the
  block's length, the stream, END_HEADERS, END_STREAM exactly when there is no body, and then
  the octets of the block.
\<close>

theorem header_block_one_frame:
  assumes "length (concat cs) \<le> mx" "mx < 2 ^ 24" "unat sid < 2 ^ 31"
  shows "parse_head (hf_wire (hf_create junk sid no_body mx cs)) =
    (of_nat (length (concat cs)), KGL_HTTP_V2_HEADERS_FRAME,
     KGL_HTTP_V2_END_HEADERS_FLAG OR (if no_body then KGL_HTTP_V2_END_STREAM_FLAG else 0), sid, concat cs)"
proof -
  let ?n = "of_nat (length (concat cs)) :: u32"
  let ?f = "KGL_HTTP_V2_END_HEADERS_FLAG OR (if no_body then KGL_HTTP_V2_END_STREAM_FLAG else 0)"
  have "hf_wire (hf_create junk sid no_body mx cs) =
      frame_header_bytes \<lparr>fh_length_type = set_length_type ?n KGL_HTTP_V2_HEADERS_FRAME, fh_flags = ?f,
        fh_stream_id = sid\<rparr> @ concat cs"
    using assms(1) unfolding hf_create_def
    by (subst hf_create_loop_fits) (auto simp: hf_wire_def set_header_def zero_header_def or.commute)
  moreover have "length (concat cs) < 2 ^ 32" using assms(1,2) by simp
  then have "unat ?n < 2 ^ 24" using assms(1,2) by (simp add: unat_of_nat)
  ultimately show ?thesis using assms(3) by (simp add: parse_head_bytes KGL_HTTP_V2_HEADERS_FRAME_def)
qed

theorem header_block_one_frame_witness:
  "parse_head (hf_wire (hf_create (\<lambda>_. zero_header) 3 True 16384 [[0x82], [0x84, 0x86]])) =
    (3, 1, 5, 3, [0x82, 0x84, 0x86])"
  using header_block_one_frame [of "[[0x82], [0x84, 0x86]]" 16384 3 "\<lambda>_. zero_header" True]
  by (simp add: KGL_HTTP_V2_HEADERS_FRAME_def KGL_HTTP_V2_END_HEADERS_FLAG_def KGL_HTTP_V2_END_STREAM_FLAG_def)

text \<open>
  C34: a header block that needs more than one frame is sent with nine zero octets in place of
  the header of its first frame: the peer reads an empty DATA frame on stream 0.
\<close>

theorem header_block_split_broken:
  assumes "length (concat cs) > mx"
  shows "take 9 (hf_wire (hf_create junk sid no_body mx cs)) = replicate 9 0"
proof -
  let ?fs = "hf_create junk sid no_body mx cs"
  have "?fs \<noteq> [] \<and> fst (hd ?fs) = zero_header"
    unfolding hf_create_def using assms by (intro hf_create_loop_splits) simp_all
  then obtain c fs where "?fs = (zero_header, c) # fs" by (cases ?fs) auto
  then show ?thesis by (simp add: hf_wire_def zero_header_bytes)
qed

theorem header_block_split_broken_witness:
  "take 9 (hf_wire (hf_create (\<lambda>_. zero_header) 3 True 4 [[1, 2, 3], [4, 5]])) = replicate 9 0"
  by (rule header_block_split_broken) simp

text \<open>
  \<^verbatim>\<open>add_header\<close> writes a field as a literal without indexing: the name in lower case and the
  value, each with its length; a cookie uses its static index, and \<^verbatim>\<open>Upgrade: h2\<close> is dropped.
  The chunking does not show in the octets.
\<close>

theorem add_header_octets:
  assumes "chunks_ok cs"
  shows "concat (add_header_name name val cs) = concat cs @
    (if length name = 6 \<and> strcaseeq name (bytes ''cookie'') then [96] @ literal_string val
     else if skip_upgrade name val then []
     else [0] @ literal_string (map kgl_tolower name) @ literal_string val) \<and>
    chunks_ok (add_header_name name val cs)"
  using assms add_header_cookie_ok [OF assms, of val]
  by (simp add: add_header_name_def hf_string_ok hf_write_ok hf_write_lower_string_def hf_write_int_def
      literal_string_def)

theorem add_header_octets_witness:
  "concat (add_header_name (bytes ''Via'') (bytes ''k'') []) = [0, 3, 118, 105, 97, 1, 107]"
proof -
  have "chunks_ok []" by (simp add: chunks_ok_def)
  from add_header_octets [OF this, of "bytes ''Via''" "bytes ''k''"] show ?thesis
    by (simp add: bytes_def skip_upgrade_def literal_string_def write_int_def kgl_tolower_def of_char_def)
qed

end
