(* ===== verification/KPrintf.thy ===== *)
theory KPrintf
  imports KPrelude
begin

unbundle bit_operations_syntax

text \<open>
  The formatted printing of \<^verbatim>\<open>src/KHttpLib.cpp\<close>: \<^verbatim>\<open>kgl_sprintf_num\<close>, \<^verbatim>\<open>kgl_sprintf_str\<close> and the
  format interpreter \<^verbatim>\<open>kgl_vslprintf\<close> with its entry \<^verbatim>\<open>kgl_snprintf\<close>. The output buffer is the
  list of octets written and the room left up to \<^verbatim>\<open>last\<close>; a read past the end of the format, of a
  string argument or of the argument list is the result \<open>None\<close>. Arithmetic on \<^verbatim>\<open>double\<close> and the
  constant \<^verbatim>\<open>KGL_INT32_LEN\<close> of the platform headers are a parameter of the interpreter.
\<close>

section \<open>Numbers and strings\<close>

text \<open>The digit loops write backwards from the end of \<^verbatim>\<open>temp\<close>.\<close>

function digits10 :: "'a::len word \<Rightarrow> byte list \<Rightarrow> byte list" where
  "digits10 n acc = (
     let acc = of_nat (unat n mod 10 + 48) # acc; n' = of_nat (unat n div 10) in
     if n' = (0 :: 'a word) then acc else digits10 n' acc)"
  by pat_completeness auto
termination
proof (relation "measure (\<lambda>(n, acc). unat n)", goal_cases)
  case 1
  show ?case by simp
next
  case (2 n acc acc' n')
  have "0 < unat n"
    using 2 by (cases "n = 0") (auto simp: word_greater_zero_iff unat_gt_0)
  then have "unat n div 10 < unat n" by simp
  moreover have "unat n div 10 < 2 ^ LENGTH('a)"
    using unsigned_less [of n, where ?'a = nat] by (meson div_le_dividend le_less_trans)
  ultimately show ?case using 2(2) by (simp add: unat_of_nat)
qed

declare digits10.simps [simp del]

function digits16 :: "byte list \<Rightarrow> u64 \<Rightarrow> byte list \<Rightarrow> byte list" where
  "digits16 hex n acc = (
     let acc = hex ! unat (n AND 0xf) # acc; n' = drop_bit 4 n in
     if n' = 0 then acc else digits16 hex n' acc)"
  by pat_completeness auto
termination
proof (relation "measure (\<lambda>(h, n, acc). unat n)", goal_cases)
  case 1
  show ?case by simp
next
  case (2 hex n acc acc' n')
  have "0 < unat n" using 2 by (cases "n = 0") (auto simp: unat_gt_0)
  then have "unat n div 16 < unat n" by simp
  moreover have "unat (drop_bit 4 n) = unat n div 16" unfolding unat_drop_bit_eq by (simp add: drop_bit_eq_div)
  ultimately show ?case using 2(2) by simp
qed

declare digits16.simps [simp del]

definition hex_lower :: "byte list" where
  "hex_lower = bytes ''0123456789abcdef''"

definition hex_upper :: "byte list" where
  "hex_upper = bytes ''0123456789ABCDEF''"

definition num_digits :: "u64 \<Rightarrow> nat \<Rightarrow> byte list" where
  "num_digits ui64 hexadecimal = (
     if hexadecimal = 0 then
       (if ui64 \<le> 0xffffffff then digits10 (ucast ui64 :: u32) [] else digits10 ui64 [])
     else if hexadecimal = 1 then digits16 hex_lower ui64 []
     else digits16 hex_upper ui64 [])"

text \<open>The padding loop stops at the width or at the end of the buffer; then the digits that fit are copied.\<close>

definition kgl_sprintf_num :: "nat \<Rightarrow> u64 \<Rightarrow> byte \<Rightarrow> nat \<Rightarrow> u32 \<Rightarrow> byte list" where
  "kgl_sprintf_num room ui64 zero hexadecimal width = (
     let p = num_digits ui64 hexadecimal;
         pad = replicate (min (unat width - length p) room) zero
     in pad @ take (room - length pad) p)"

fun copy_cstr :: "nat \<Rightarrow> byte list \<Rightarrow> byte list option" where
  "copy_cstr room [] = None"
| "copy_cstr room (c # src) = (
     if c = 0 \<or> room = 0 then Some [] else map_option (Cons c) (copy_cstr (room - 1) src))"

definition hex_pair :: "byte list \<Rightarrow> byte \<Rightarrow> byte list" where
  "hex_pair hex c = [hex ! unat (drop_bit 4 c), hex ! unat (c AND 0xf)]"

fun hex_cstr :: "byte list \<Rightarrow> nat \<Rightarrow> byte list \<Rightarrow> byte list option" where
  "hex_cstr hex room [] = None"
| "hex_cstr hex room (c # src) = (
     if c = 0 \<or> room < 2 then Some []
     else map_option (append (hex_pair hex c)) (hex_cstr hex (room - 2) src))"

fun hex_counted :: "byte list \<Rightarrow> nat \<Rightarrow> nat \<Rightarrow> byte list \<Rightarrow> byte list option" where
  "hex_counted hex room 0 src = Some []"
| "hex_counted hex room (Suc len) src = (
     if room < 2 then Some []
     else case src of
       [] \<Rightarrow> None
     | c # src' \<Rightarrow> map_option (append (hex_pair hex c)) (hex_counted hex (room - 2) len src'))"

text \<open>The length \<^verbatim>\<open>(size_t)-1\<close> marks a string that ends in a zero octet.\<close>

definition kgl_sprintf_str :: "nat \<Rightarrow> byte list \<Rightarrow> u64 \<Rightarrow> nat \<Rightarrow> byte list option" where
  "kgl_sprintf_str room src len hexadecimal = (
     if hexadecimal = 0 then
       (if len = - 1 then copy_cstr room src
        else let n = min room (unat len) in if n \<le> length src then Some (take n src) else None)
     else let hex = (if hexadecimal = 1 then hex_lower else hex_upper) in
       (if len = - 1 then hex_cstr hex room src else hex_counted hex room (unat len) src))"

section \<open>Reading numbers\<close>

text \<open>
  \<^verbatim>\<open>kgl_atol\<close> and \<^verbatim>\<open>kgl_atoi\<close> stop at the first octet that is no digit. A value beyond the signed
  type, which the code leaves undefined, is \<open>None\<close>.
\<close>

fun atoi_loop :: "int \<Rightarrow> int \<Rightarrow> byte list \<Rightarrow> int option" where
  "atoi_loop lim v [] = Some v"
| "atoi_loop lim v (c # line) = (
     if c < 48 \<or> 57 < c then Some v
     else let v = v * 10 + int (unat c - 48) in if lim < v then None else atoi_loop lim v line)"

definition kgl_atol :: "byte list \<Rightarrow> int option" where
  "kgl_atol line = atoi_loop (2 ^ 63 - 1) 0 line"

definition kgl_atoi :: "byte list \<Rightarrow> int option" where
  "kgl_atoi line = atoi_loop (2 ^ 31 - 1) 0 line"

text \<open>\<^verbatim>\<open>kgl_atofp\<close>: a number with a decimal point, scaled by ten to the power of the places asked for.\<close>

definition checked :: "int \<Rightarrow> int option" where
  "checked v = (if v < 2 ^ 63 then Some v else None)"

fun scale_rest :: "nat \<Rightarrow> int \<Rightarrow> int option" where
  "scale_rest 0 v = Some v"
| "scale_rest (Suc point) v = (case checked (v * 10) of None \<Rightarrow> None | Some v \<Rightarrow> scale_rest point v)"

fun atofp_loop :: "nat \<Rightarrow> bool \<Rightarrow> int \<Rightarrow> byte list \<Rightarrow> int option" where
  "atofp_loop point dot v [] = scale_rest point v"
| "atofp_loop point dot v (c # line) = (
     if point = 0 then Some 0
     else if c = 46 then (if dot then Some v else atofp_loop point True v line)
     else if c < 48 \<or> 57 < c then Some v
     else case checked (v * 10 + int (unat c - 48)) of
       None \<Rightarrow> None
     | Some v \<Rightarrow> atofp_loop (if dot then point - 1 else point) dot v line)"

definition kgl_atofp :: "byte list \<Rightarrow> nat \<Rightarrow> int option" where
  "kgl_atofp line point = (if line = [] then Some 0 else atofp_loop point False 0 line)"

section \<open>The format interpreter\<close>

text \<open>
  An argument of the list: a number, as the 64-bit value that the conversion of the C type named by
  the conversion character gives, a \<^verbatim>\<open>u_char *\<close> with the octets that may be read from it, a
  \<^verbatim>\<open>kgl_str_t *\<close>, or a \<^verbatim>\<open>double\<close>.
\<close>

datatype 'd fmt_arg = A_num u64 | A_cstr "byte list" | A_str "byte list" | A_double 'd

record 'd platform =
  int32_len :: u32                   \<comment> \<open>\<^verbatim>\<open>KGL_INT32_LEN\<close>\<close>
  is_neg :: "'d \<Rightarrow> bool"             \<comment> \<open>\<^verbatim>\<open>f < 0\<close>\<close>
  int_part :: "'d \<Rightarrow> u64"            \<comment> \<open>\<^verbatim>\<open>(int64_t)f\<close> of the absolute value\<close>
  scaled_frac :: "'d \<Rightarrow> u32 \<Rightarrow> u64"  \<comment> \<open>\<^verbatim>\<open>(uint64_t)((f - (double)ui64) * scale + 0.5)\<close>\<close>

record fmt_spec =
  fs_sign :: bool
  fs_max_width :: bool
  fs_hex :: nat
  fs_frac_width :: u32
  fs_slen :: u64

definition fmt_spec0 :: fmt_spec where
  "fmt_spec0 = \<lparr>fs_sign = True, fs_max_width = False, fs_hex = 0, fs_frac_width = 0, fs_slen = - 1\<rparr>"

fun scan_width :: "u32 \<Rightarrow> byte list \<Rightarrow> u32 \<times> byte list" where
  "scan_width width (c # fmt) =
     (if 48 \<le> c \<and> c \<le> 57 then scan_width (width * 10 + ucast (c - 48)) fmt else (width, c # fmt))"
| "scan_width width [] = (width, [])"

fun scan_flags :: "fmt_spec \<Rightarrow> byte list \<Rightarrow> 'd fmt_arg list \<Rightarrow> (fmt_spec \<times> byte list \<times> 'd fmt_arg list) option" where
  "scan_flags sp [] args = Some (sp, [], args)"
| "scan_flags sp (c # fmt) args = (
     if c = 117 then scan_flags (sp\<lparr>fs_sign := False\<rparr>) fmt args
     else if c = 109 then scan_flags (sp\<lparr>fs_max_width := True\<rparr>) fmt args
     else if c = 88 then scan_flags (sp\<lparr>fs_hex := 2, fs_sign := False\<rparr>) fmt args
     else if c = 120 then scan_flags (sp\<lparr>fs_hex := 1, fs_sign := False\<rparr>) fmt args
     else if c = 46 then
       (case scan_width (fs_frac_width sp) fmt of (w, fmt') \<Rightarrow> Some (sp\<lparr>fs_frac_width := w\<rparr>, fmt', args))
     else if c = 42 then
       (case args of A_num n # args' \<Rightarrow> scan_flags (sp\<lparr>fs_slen := n\<rparr>) fmt args' | _ \<Rightarrow> None)
     else Some (sp, c # fmt, args))"

text \<open>The common end of the number conversions: the sign, when there is one, and the digits.\<close>

definition print_num :: "nat \<Rightarrow> bool \<Rightarrow> u64 \<Rightarrow> byte \<Rightarrow> nat \<Rightarrow> u32 \<Rightarrow> byte list" where
  "print_num room sign n zero hex width = (
     if sign \<and> sint n < 0 then 45 # kgl_sprintf_num (room - 1) (- n) zero hex width
     else kgl_sprintf_num room n zero hex width)"

text \<open>The integer part and the scaled fraction, which carries into the integer part when it rounds up to the scale.\<close>

definition double_parts :: "'d platform \<Rightarrow> 'd \<Rightarrow> u32 \<Rightarrow> u64 \<times> u64" where
  "double_parts D f frac_width = (
     if frac_width = 0 then (int_part D f, 0)
     else let scale = (10 :: u32) ^ unat frac_width; frac = scaled_frac D f scale in
       if frac = ucast scale then (int_part D f + 1, 0) else (int_part D f, frac))"

definition put_frac :: "nat \<Rightarrow> byte list \<Rightarrow> u64 \<Rightarrow> u32 \<Rightarrow> byte list" where
  "put_frac room out frac frac_width = (
     let out = (if length out < room then out @ [46] else out)
     in out @ kgl_sprintf_num (room - length out) frac 48 0 frac_width)"

definition print_double :: "'d platform \<Rightarrow> nat \<Rightarrow> 'd \<Rightarrow> byte \<Rightarrow> u32 \<Rightarrow> u32 \<Rightarrow> byte list" where
  "print_double D room f zero width frac_width = (
     let minus = (if is_neg D f then [45] else []);
         (ui64, frac) = double_parts D f frac_width;
         out = minus @ kgl_sprintf_num (room - length minus) ui64 zero 0 width
     in if frac_width \<noteq> 0 then put_frac room out frac frac_width else out)"

text \<open>
  The switch on the conversion character. The characters \<^verbatim>\<open>O T z i d l D L\<close> differ in the C type
  they read; \<^verbatim>\<open>i\<close> also has the \<^verbatim>\<open>m\<close> flag, which sets the width to \<^verbatim>\<open>KGL_INT32_LEN\<close>.
\<close>

definition convert ::
  "'d platform \<Rightarrow> nat \<Rightarrow> byte \<Rightarrow> u32 \<Rightarrow> fmt_spec \<Rightarrow> byte \<Rightarrow> 'd fmt_arg list \<Rightarrow> (byte list \<times> 'd fmt_arg list) option" where
  "convert D room zero width sp c args = (
     if c = 86 then
       (case args of
          A_str v # args' \<Rightarrow> map_option (\<lambda>out. (out, args')) (kgl_sprintf_str room v (of_nat (length v)) (fs_hex sp))
        | _ \<Rightarrow> None)
     else if c = 115 then
       (case args of
          A_cstr p # args' \<Rightarrow> map_option (\<lambda>out. (out, args')) (kgl_sprintf_str room p (fs_slen sp) (fs_hex sp))
        | _ \<Rightarrow> None)
     else if c = 79 \<or> c = 84 then
       (case args of A_num n # args' \<Rightarrow> Some (print_num room True n zero (fs_hex sp) width, args') | _ \<Rightarrow> None)
     else if c = 105 then
       (case args of
          A_num n # args' \<Rightarrow>
            Some (print_num room (fs_sign sp) n zero (fs_hex sp) (if fs_max_width sp then int32_len D else width), args')
        | _ \<Rightarrow> None)
     else if c = 122 \<or> c = 100 \<or> c = 108 \<or> c = 68 \<or> c = 76 then
       (case args of A_num n # args' \<Rightarrow> Some (print_num room (fs_sign sp) n zero (fs_hex sp) width, args') | _ \<Rightarrow> None)
     else if c = 102 then
       (case args of A_double f # args' \<Rightarrow> Some (print_double D room f zero width (fs_frac_width sp), args') | _ \<Rightarrow> None)
     else if c = 112 then
       (case args of A_num n # args' \<Rightarrow> Some (print_num room False n 48 2 16, args') | _ \<Rightarrow> None)
     else if c = 99 then (case args of A_num n # args' \<Rightarrow> Some ([ucast n], args') | _ \<Rightarrow> None)
     else if c = 90 then Some ([0], args)
     else Some ([c], args))"

text \<open>
  One conversion, from the character after the percent sign. The end of the format after a percent
  sign makes the interpreter step over the terminating zero octet.
\<close>

definition conversion ::
  "'d platform \<Rightarrow> nat \<Rightarrow> byte list \<Rightarrow> 'd fmt_arg list \<Rightarrow> (byte list \<times> byte list \<times> 'd fmt_arg list) option" where
  "conversion D room fmt args = (
     let zero = (case fmt of c # _ \<Rightarrow> if c = 48 then 48 else 32 | [] \<Rightarrow> 32) in
     case scan_width 0 fmt of (width, fmt1) \<Rightarrow>
     (case scan_flags fmt_spec0 fmt1 args of
        None \<Rightarrow> None
      | Some (sp, fmt2, args1) \<Rightarrow>
          (case fmt2 of
             [] \<Rightarrow> None
           | c # fmt' \<Rightarrow> map_option (\<lambda>(out, args'). (out, fmt', args')) (convert D room zero width sp c args1))))"

lemma scan_width_length: "scan_width w fmt = (w', fmt') \<Longrightarrow> length fmt' \<le> length fmt"
  by (induction w fmt rule: scan_width.induct) (auto split: if_splits)

lemma scan_flags_length: "scan_flags sp fmt args = Some (sp', fmt', args') \<Longrightarrow> length fmt' \<le> length fmt"
proof (induction sp fmt args rule: scan_flags.induct)
  case (2 sp c fmt args)
  show ?case
  proof (cases "c = 46")
    case True
    with 2(6) show ?thesis by (auto split: prod.splits dest!: scan_width_length)
  next
    case False
    with 2 show ?thesis by (auto split: if_splits list.splits fmt_arg.splits intro: le_SucI)
  qed
qed simp

lemma conversion_cases:
  assumes "conversion D room fmt args = Some (out, fmt', args')"
  obtains zero width sp c args1 where "convert D room zero width sp c args1 = Some (out, args')" "length fmt' < length fmt"
proof -
  obtain width fmt1 where w: "scan_width 0 fmt = (width, fmt1)" by (cases "scan_width 0 fmt")
  with assms obtain sp c fmt'' args1 where s: "scan_flags fmt_spec0 fmt1 args = Some (sp, c # fmt'', args1)"
    unfolding conversion_def Let_def by (auto split: option.split_asm list.split_asm)
  show ?thesis
    using assms scan_width_length [OF w] scan_flags_length [OF s]
    unfolding conversion_def Let_def w prod.case s option.case list.case
    by (intro that) (auto simp: less_Suc_eq_le)
qed

lemma conversion_length:
  "conversion D room fmt args = Some (out, fmt', args') \<Longrightarrow> length fmt' < length fmt"
  by (erule conversion_cases)

function kgl_vslprintf :: "'d platform \<Rightarrow> nat \<Rightarrow> byte list \<Rightarrow> 'd fmt_arg list \<Rightarrow> byte list option" where
  "kgl_vslprintf D room fmt args = (
     case fmt of
       [] \<Rightarrow> Some []
     | c # fmt' \<Rightarrow>
         if room = 0 then Some []
         else if c = 37 then
           (case conversion D room fmt' args of
              None \<Rightarrow> None
            | Some (out, fmt'', args') \<Rightarrow>
                map_option (append out) (kgl_vslprintf D (room - length out) fmt'' args'))
         else map_option (Cons c) (kgl_vslprintf D (room - 1) fmt' args))"
  by pat_completeness auto
termination
  by (relation "measure (\<lambda>(D, room, fmt, args). length fmt)") (auto dest: conversion_length)

declare kgl_vslprintf.simps [simp del]

definition kgl_snprintf :: "'d platform \<Rightarrow> nat \<Rightarrow> byte list \<Rightarrow> 'd fmt_arg list \<Rightarrow> byte list option" where
  "kgl_snprintf D max_len fmt args = kgl_vslprintf D max_len fmt args"

section \<open>Bounds\<close>

lemma sprintf_num_length: "length (kgl_sprintf_num room n zero hex width) \<le> room"
  by (simp add: kgl_sprintf_num_def Let_def)

lemma copy_cstr_length: "copy_cstr room src = Some out \<Longrightarrow> length out \<le> room"
  by (induction room src arbitrary: out rule: copy_cstr.induct) (fastforce split: if_splits)+

lemma hex_cstr_length: "hex_cstr hex room src = Some out \<Longrightarrow> length out \<le> room"
  by (induction hex room src arbitrary: out rule: hex_cstr.induct) (fastforce simp: hex_pair_def split: if_splits)+

lemma hex_counted_length: "hex_counted hex room len src = Some out \<Longrightarrow> length out \<le> room"
  by (induction hex room len src arbitrary: out rule: hex_counted.induct)
    (fastforce simp: hex_pair_def split: if_splits list.splits)+

lemma sprintf_str_length: "kgl_sprintf_str room src len hex = Some out \<Longrightarrow> length out \<le> room"
  by (auto simp: kgl_sprintf_str_def Let_def split: if_splits
      dest: copy_cstr_length hex_cstr_length hex_counted_length)

lemma print_num_length: "0 < room \<Longrightarrow> length (print_num room sg n zero hex width) \<le> room"
  using sprintf_num_length [of room n zero hex width] sprintf_num_length [of "room - 1" "- n" zero hex width]
  by (auto simp: print_num_def simp del: One_nat_def)

lemma append_num_length:
  "length out \<le> room \<Longrightarrow> length (out @ kgl_sprintf_num (room - length out) n z h w) \<le> room"
  using sprintf_num_length [of "room - length out" n z h w] by simp

lemma put_frac_length: "length out \<le> room \<Longrightarrow> length (put_frac room out frac fw) \<le> room"
  unfolding put_frac_def Let_def by (rule append_num_length) simp

lemma print_double_length: "0 < room \<Longrightarrow> length (print_double D room f zero width fw) \<le> room"
proof -
  assume r: "0 < room"
  obtain n frac where "double_parts D f fw = (n, frac)" by (cases "double_parts D f fw")
  moreover have "length ((if is_neg D f then [45] else []) @
      kgl_sprintf_num (room - length (if is_neg D f then [45] else [] :: byte list)) n zero 0 width) \<le> room"
    using r by (intro append_num_length) simp
  ultimately show ?thesis
    unfolding print_double_def Let_def by (simp only: prod.case put_frac_length split: if_split) simp
qed

lemma convert_bound:
  assumes "0 < room" "convert D room zero width sp c args = Some (out, args')"
  shows "length out \<le> room"
  using assms
  by (auto simp: convert_def Suc_le_eq split: if_split_asm list.split_asm fmt_arg.split_asm dest: sprintf_str_length
      intro!: print_num_length print_double_length)

lemma conversion_bound:
  "0 < room \<Longrightarrow> conversion D room fmt args = Some (out, fmt', args') \<Longrightarrow> length out \<le> room"
  by (erule conversion_cases) (rule convert_bound)

lemma vslprintf_length: "kgl_vslprintf D room fmt args = Some out \<Longrightarrow> length out \<le> room"
proof (induction D room fmt args arbitrary: out rule: kgl_vslprintf.induct)
  case (1 D room fmt args)
  note step = 1(3) [unfolded kgl_vslprintf.simps [of D room fmt args]]
  show ?case
  proof (cases fmt)
    case Nil
    with step show ?thesis by simp
  next
    case (Cons c fmt')
    consider "room = 0" | "0 < room" "c = 37" | "0 < room" "c \<noteq> 37" by blast
    then show ?thesis
    proof cases
      case 1
      with step Cons show ?thesis by simp
    next
      case 2
      with step Cons obtain o1 fmt'' args' o2 where cv: "conversion D room fmt' args = Some (o1, fmt'', args')"
        and rest: "kgl_vslprintf D (room - length o1) fmt'' args' = Some o2" "out = o1 @ o2"
        by (auto split: option.split_asm)
      have "length o2 \<le> room - length o1"
        using 1(1) [OF Cons _ 2(2) cv refl refl rest(1)] 2 by simp
      with conversion_bound [OF 2(1) cv] rest(2) show ?thesis by simp
    next
      case 3
      with step Cons obtain o2 where rest: "kgl_vslprintf D (room - 1) fmt' args = Some o2" "out = c # o2"
        by auto
      with 1(2) [OF Cons _ 3(2) rest(1)] 3 show ?thesis by simp
    qed
  qed
qed

section \<open>Digits\<close>

lemma unat_div10: "unat (of_nat (unat n div 10) :: 'a::len word) = unat (n :: 'a word) div 10"
proof -
  have "unat n div 10 < 2 ^ LENGTH('a)"
    using unsigned_less [of n, where ?'a = nat] by (meson div_le_dividend le_less_trans)
  then show ?thesis by (simp only: unat_of_nat mod_less)
qed

lemma digits10_decimal: "digits10 n acc = decimal (unat n) @ acc"
proof (induction n acc rule: digits10.induct)
  case (1 n acc)
  let ?m = "of_nat (unat n div 10) :: 'a word"
  have zero: "?m = 0 \<longleftrightarrow> unat n < 10"
    using unat_div10 [of n] by (metis div_eq_0_iff unat_eq_zero zero_neq_numeral)
  show ?case
  proof (cases "?m = 0")
    case True
    then show ?thesis
      using zero by (simp add: digits10.simps [of n] decimal.simps [of "unat n"] add.commute)
  next
    case False
    with 1 [OF refl refl False] zero show ?thesis
      by (simp only: digits10.simps [of n] decimal.simps [of "unat n"] Let_def unat_div10 if_False append_assoc
          append.simps add.commute)
  qed
qed

lemma num_digits_decimal: "num_digits n 0 = decimal (unat n)"
proof -
  have "unat (ucast n :: u32) = unat n" if "n \<le> 0xffffffff"
  proof -
    have "unat n < 2 ^ 32" using that by (simp add: word_le_nat_alt)
    then show ?thesis by (simp add: unsigned_ucast_eq take_bit_nat_eq_self)
  qed
  then show ?thesis by (simp add: num_digits_def digits10_decimal)
qed

lemma length_decimal: "0 < k \<Longrightarrow> n < 10 ^ k \<Longrightarrow> length (decimal n) \<le> k"
proof (induction k arbitrary: n)
  case (Suc k)
  show ?case
  proof (cases "n < 10")
    case True
    then show ?thesis by (simp add: decimal.simps)
  next
    case False
    with Suc.prems have "0 < k" by (cases k) auto
    moreover have "n div 10 < 10 ^ k" using Suc.prems by auto
    ultimately have "length (decimal (n div 10)) \<le> k" by (rule Suc.IH)
    with False show ?thesis by (simp add: decimal.simps [of n])
  qed
qed simp

lemma length_digits16: "unat n < 16 ^ Suc k \<Longrightarrow> length (digits16 hex n acc) \<le> length acc + Suc k"
proof (induction k arbitrary: n acc)
  have div16: "unat (drop_bit 4 n) = unat n div 16" for n :: u64
    unfolding unat_drop_bit_eq by (simp add: drop_bit_eq_div)
  {
    case 0
    then have "unat (drop_bit 4 n) = 0" using div16 [of n] by simp
    then have "drop_bit 4 n = 0" by (rule unsigned_eq_0_iff [THEN iffD1])
    then show ?case by (simp add: digits16.simps)
  next
    case (Suc k)
    have "unat (drop_bit 4 n) < 16 ^ Suc k" using Suc.prems div16 [of n] by simp
    from Suc.IH [OF this, of "hex ! unat (n AND 15) # acc"] show ?case
      by (simp add: digits16.simps [of hex n] Let_def)
  }
qed

lemma num_digits_length: "length (num_digits n hex) \<le> 20"
proof -
  have b: "unat n < 2 ^ 64" using unsigned_less [of n, where ?'a = nat] by simp
  then have "unat n < 10 ^ 20" by simp
  then have "length (num_digits n 0) \<le> 20" unfolding num_digits_decimal by (intro length_decimal) simp_all
  moreover have "length (digits16 h n []) \<le> 16" for h using length_digits16 [of n 15 h "[]"] b by simp
  then have "length (digits16 h n []) \<le> 20" for h by (rule le_trans) simp
  ultimately show ?thesis by (cases "hex = 0") (simp_all add: num_digits_def [of n hex])
qed

section \<open>The conversions of plain formats\<close>

lemma vslprintf_Nil [simp]: "kgl_vslprintf D room [] args = Some []"
  by (simp add: kgl_vslprintf.simps)

lemma vslprintf_plain:
  "0 < room \<Longrightarrow> c \<noteq> 37 \<Longrightarrow> kgl_vslprintf D room (c # fmt) args = map_option (Cons c) (kgl_vslprintf D (room - 1) fmt args)"
  by (simp add: kgl_vslprintf.simps [of D room "c # fmt"])

lemma copy_cstr_all: "0 \<notin> set s \<Longrightarrow> length s \<le> room \<Longrightarrow> copy_cstr room (s @ 0 # t) = Some s"
  by (induction s arbitrary: room) auto

lemma vslprintf_s:
  assumes "0 < room" "0 \<notin> set s" "length s \<le> room"
  shows "kgl_vslprintf D room (37 # 115 # fmt) (A_cstr (s @ [0]) # args) =
    map_option (append s) (kgl_vslprintf D (room - length s) fmt args)"
  using assms
  by (simp add: kgl_vslprintf.simps [of D room "37 # 115 # fmt"] conversion_def fmt_spec0_def convert_def
      kgl_sprintf_str_def copy_cstr_all [of s room "[]"])

lemma sprintf_num_fits:
  "length (decimal (unat n)) \<le> room \<Longrightarrow> kgl_sprintf_num room n zero 0 0 = decimal (unat n)"
  by (simp add: kgl_sprintf_num_def num_digits_decimal)

lemma vslprintf_d:
  assumes "0 < room" "0 \<le> sint n" "length (decimal (unat n)) \<le> room" "c \<in> {100, 76}"
  shows "kgl_vslprintf D room (37 # c # fmt) (A_num n # args) =
    map_option (append (decimal (unat n))) (kgl_vslprintf D (room - length (decimal (unat n))) fmt args)"
  using assms
  by (auto simp add: kgl_vslprintf.simps [of D room "37 # c # fmt"] conversion_def fmt_spec0_def convert_def
      print_num_def sprintf_num_fits)

text \<open>\<^verbatim>\<open>%02d\<close> of a number below 100.\<close>

definition pad2 :: "nat \<Rightarrow> byte list" where
  "pad2 n = [of_nat (48 + n div 10), of_nat (48 + n mod 10)]"

lemma sprintf_num_pad2:
  assumes "n < 100" "2 \<le> room"
  shows "kgl_sprintf_num room (of_nat n) 48 0 2 = pad2 n"
proof -
  have u: "unat (of_nat n :: u64) = n" using assms(1) by (simp add: unat_of_nat)
  show ?thesis
  proof (cases "n < 10")
    case True
    then show ?thesis
      using assms(2) by (simp add: kgl_sprintf_num_def num_digits_decimal u decimal.simps [of n] pad2_def Let_def)
  next
    case False
    moreover have "n div 10 < 10" using assms(1) by simp
    ultimately show ?thesis
      using assms by (simp add: kgl_sprintf_num_def num_digits_decimal u decimal.simps [of n]
          decimal.simps [of "n div 10"] pad2_def Let_def)
  qed
qed

lemma vslprintf_02d:
  assumes "n < 100" "2 \<le> room"
  shows "kgl_vslprintf D room (37 # 48 # 50 # 100 # fmt) (A_num (of_nat n) # args) =
    map_option (append (pad2 n)) (kgl_vslprintf D (room - 2) fmt args)"
proof -
  have "uint (of_nat n :: u64) = int n" using assms(1) by (simp add: uint_nat unat_of_nat)
  then have "0 \<le> sint (of_nat n :: u64)" using assms(1) by (simp add: sint_uint signed_take_bit_int_eq_self)
  moreover have "length (pad2 n) = 2" by (simp add: pad2_def)
  ultimately show ?thesis
    using assms by (simp add: kgl_vslprintf.simps [of D room "37 # 48 # 50 # 100 # fmt"] conversion_def fmt_spec0_def
        convert_def print_num_def sprintf_num_pad2)
qed

section \<open>Properties\<close>

lemma atoi_loop_append:
  "\<forall>c \<in> set s. 48 \<le> c \<and> c \<le> 57 \<Longrightarrow> atoi_loop lim v s = Some w \<Longrightarrow>
   atoi_loop lim v (s @ t) = atoi_loop lim w t"
  by (induction lim v s rule: atoi_loop.induct) (auto simp: Let_def split: if_splits)

lemma decimal_octets: "c \<in> set (decimal n) \<Longrightarrow> 48 \<le> c \<and> c \<le> 57"
proof (induction n rule: decimal.induct)
  case (1 n)
  have "48 \<le> (of_nat (48 + d) :: byte) \<and> (of_nat (48 + d) :: byte) \<le> 57" if "d < 10" for d
    using that by (simp add: word_le_nat_alt unat_of_nat del: of_nat_add)
  with 1 show ?case by (cases "n < 10") (auto simp: decimal.simps [of n] simp del: of_nat_add)
qed

lemma atoi_loop_digit:
  assumes "d < 10" "v * 10 + int d \<le> lim"
  shows "atoi_loop lim v (of_nat (48 + d) # t) = atoi_loop lim (v * 10 + int d) t"
proof -
  have "unat (of_nat (48 + d) :: byte) = 48 + d" using assms(1) by (simp only: unat_of_nat) simp
  then show ?thesis using assms by (simp add: Let_def word_less_nat_alt del: of_nat_add)
qed

lemma atoi_decimal: "int n \<le> lim \<Longrightarrow> atoi_loop lim 0 (decimal n) = Some (int n)"
proof (induction n rule: decimal.induct)
  case (1 n)
  show ?case
  proof (cases "n < 10")
    case True
    with 1(2) show ?thesis using atoi_loop_digit [of n 0 lim "[]"] by (simp add: decimal.simps [of n])
  next
    case False
    have e: "int (n div 10) * 10 + int (n mod 10) = int n" by (metis div_mult_mod_eq of_nat_add of_nat_mult of_nat_numeral)
    then have "int (n div 10) \<le> lim" using 1(2) by linarith
    from 1(1) [OF False this]
    have "atoi_loop lim 0 (decimal (n div 10) @ [of_nat (48 + n mod 10)]) =
        atoi_loop lim (int (n div 10)) [of_nat (48 + n mod 10)]"
      using decimal_octets by (intro atoi_loop_append) auto
    also have "\<dots> = Some (int n)" using atoi_loop_digit [of "n mod 10" "int (n div 10)" lim "[]"] e 1(2) by simp
    finally show ?thesis using False by (simp add: decimal.simps [of n])
  qed
qed

text \<open>
  C26: whatever the format and the arguments, formatted printing into a buffer of \<^verbatim>\<open>max\<close> octets
  writes at most \<^verbatim>\<open>max\<close> octets (widths, signs, hexadecimal strings and fractions included).
\<close>

theorem snprintf_within_buffer: "kgl_snprintf D max_len fmt args = Some out \<Longrightarrow> length out \<le> max_len"
  unfolding kgl_snprintf_def by (rule vslprintf_length)

theorem snprintf_within_buffer_witness:
  "length (the (kgl_snprintf \<lparr>int32_len = 11, is_neg = (\<lambda>d::nat. False), int_part = of_nat, scaled_frac = (\<lambda>_ _. 0)\<rparr>
     3 (bytes ''%05d'') [A_num 42])) \<le> 3"
proof -
  let ?D = "\<lparr>int32_len = 11, is_neg = (\<lambda>d::nat. False), int_part = of_nat, scaled_frac = (\<lambda>_ _. 0)\<rparr>"
  have "kgl_vslprintf ?D 3 [37, 48, 53, 100] [A_num 42] = Some [48, 48, 48]"
    by (subst kgl_vslprintf.simps, simp add: conversion_def fmt_spec0_def convert_def print_num_def
        kgl_sprintf_num_def num_digits_decimal decimal.simps [of 42] decimal.simps [of 4] numeral_3_eq_3)
  then have "kgl_snprintf ?D 3 (bytes ''%05d'') [A_num 42] = Some [48, 48, 48]"
    by (simp add: kgl_snprintf_def bytes_def of_char_def)
  with snprintf_within_buffer [OF this] show ?thesis by simp
qed

text \<open>
  A signed 64-bit number that is not negative, printed with \<^verbatim>\<open>%L\<close> into a buffer of at least 20
  octets, is read back by \<^verbatim>\<open>kgl_atol\<close>.
\<close>

theorem print_atol_roundtrip:
  assumes "unat (n :: u64) < 2 ^ 63" "20 \<le> max_len"
  shows "\<exists>out. kgl_snprintf D max_len (bytes ''%L'') [A_num n] = Some out \<and> kgl_atol out = Some (int (unat n))"
proof -
  have "uint n = int (unat n)" by (rule of_nat_unat [symmetric])
  also have "\<dots> < int (2 ^ 63)" using assms(1) by (simp only: of_nat_less_iff)
  finally have "uint n < 2 ^ 63" by simp
  then have "signed_take_bit 63 (uint n) = uint n" using uint_ge_0 [of n] by (intro signed_take_bit_int_eq_self) linarith+
  then have u: "0 \<le> sint n" unfolding sint_uint by simp
  have "length (decimal (unat n)) \<le> max_len"
    using num_digits_length [of n 0] assms(2) by (simp add: num_digits_decimal)
  then have "kgl_snprintf D max_len (bytes ''%L'') [A_num n] = Some (decimal (unat n))"
    using vslprintf_d [of max_len n 76 D "[]" "[]"] assms(2) u by (simp add: kgl_snprintf_def bytes_def of_char_def)
  moreover have "kgl_atol (decimal (unat n)) = Some (int (unat n))"
    unfolding kgl_atol_def using \<open>uint n < 2 ^ 63\<close> by (intro atoi_decimal) simp
  ultimately show ?thesis by blast
qed

theorem print_atol_roundtrip_witness:
  "\<exists>out. kgl_snprintf \<lparr>int32_len = 11, is_neg = (\<lambda>d::nat. False), int_part = of_nat, scaled_frac = (\<lambda>_ _. 0)\<rparr>
     20 (bytes ''%L'') [A_num 1234567890123] = Some out \<and> kgl_atol out = Some 1234567890123"
  using print_atol_roundtrip [of 1234567890123 20] by simp

text \<open>
  The digits of a 64-bit number in base 10 or 16 are at most 20, so the loops of
  \<^verbatim>\<open>kgl_sprintf_num\<close> stay within \<^verbatim>\<open>temp\<close>, and the number is written with its padding as far as it fits.
\<close>

theorem sprintf_num_shape:
  "length (num_digits n hex) \<le> 20 \<and>
   kgl_sprintf_num room n zero hex width =
     take room (replicate (unat width - length (num_digits n hex)) zero @ num_digits n hex)"
  using num_digits_length [of n hex] by (simp add: kgl_sprintf_num_def Let_def min_def)

end
