(* ===== verification/KHttpTime.thy ===== *)
theory KHttpTime
  imports KPrintf
begin

text \<open>
  The parser of HTTP dates, \<^verbatim>\<open>kgl_parse_http_time\<close> of \<^verbatim>\<open>src/KHttpLib.cpp\<close>, and the printer
  \<^verbatim>\<open>make_http_time\<close>. The text is the list of octets from \<^verbatim>\<open>p\<close> to \<^verbatim>\<open>end\<close>; every access
  \<^verbatim>\<open>*(p + i)\<close> is a partial read, so that an access past the end is a result of its own. The
  timestamp is computed as the code does, in 64-bit arithmetic, and proved equal to a count of
  days by years and months.
\<close>

section \<open>The parser\<close>

datatype time_result = Time int | No_Time | Overrun

definition rd :: "byte list \<Rightarrow> nat \<Rightarrow> (byte \<Rightarrow> time_result) \<Rightarrow> time_result" where
  "rd p i k = (if i < length p then k (p ! i) else Overrun)"

definition is_digit :: "byte \<Rightarrow> bool" where
  "is_digit c \<longleftrightarrow> 48 \<le> c \<and> c \<le> 57"

definition digit :: "byte \<Rightarrow> nat" where
  "digit c = unat (c - 48)"

definition two_digits :: "byte list \<Rightarrow> (nat \<Rightarrow> byte list \<Rightarrow> time_result) \<Rightarrow> time_result" where
  "two_digits p k =
     rd p 0 (\<lambda>a. if \<not> is_digit a then No_Time else
     rd p 1 (\<lambda>b. if \<not> is_digit b then No_Time else k (digit a * 10 + digit b) (drop 2 p)))"

definition four_digits :: "byte list \<Rightarrow> (nat \<Rightarrow> byte list \<Rightarrow> time_result) \<Rightarrow> time_result" where
  "four_digits p k =
     rd p 0 (\<lambda>a. if \<not> is_digit a then No_Time else
     rd p 1 (\<lambda>b. if \<not> is_digit b then No_Time else
     rd p 2 (\<lambda>c. if \<not> is_digit c then No_Time else
     rd p 3 (\<lambda>d. if \<not> is_digit d then No_Time else
       k (digit a * 1000 + digit b * 100 + digit c * 10 + digit d) (drop 4 p)))))"

definition expect :: "byte \<Rightarrow> byte list \<Rightarrow> (byte list \<Rightarrow> time_result) \<Rightarrow> time_result" where
  "expect c p k = rd p 0 (\<lambda>a. if a \<noteq> c then No_Time else k (drop 1 p))"

definition month_name :: "byte list \<Rightarrow> (nat \<Rightarrow> time_result) \<Rightarrow> time_result" where
  "month_name p k = rd p 0 (\<lambda>a.
     if a = 74 then rd p 1 (\<lambda>b. if b = 97 then k 0 else rd p 2 (\<lambda>c. k (if c = 110 then 5 else 6)))
     else if a = 70 then k 1
     else if a = 77 then rd p 2 (\<lambda>c. k (if c = 114 then 2 else 4))
     else if a = 65 then rd p 1 (\<lambda>b. k (if b = 112 then 3 else 7))
     else if a = 83 then k 8
     else if a = 79 then k 9
     else if a = 78 then k 10
     else if a = 68 then k 11
     else No_Time)"

datatype time_format = nofmt | rfc822 | rfc850 | isoc

text \<open>The search for the end of the weekday; the empty list is \<^verbatim>\<open>p == end\<close>.\<close>

fun scan_weekday :: "byte list \<Rightarrow> time_format \<times> byte list" where
  "scan_weekday [] = (nofmt, [])"
| "scan_weekday (c # p) = (if c = 44 then (nofmt, c # p) else if c = 32 then (isoc, c # p) else scan_weekday p)"

definition mday :: "nat list" where
  "mday = [31, 28, 31, 30, 31, 30, 31, 31, 30, 31, 30, 31]"

text \<open>The timestamp, all in \<^verbatim>\<open>uint64_t\<close>; \<^verbatim>\<open>month\<close> is an \<^verbatim>\<open>int\<close> and \<^verbatim>\<open>367 * month / 12\<close> is too.\<close>

definition gauss_time :: "u64 \<Rightarrow> nat \<Rightarrow> u64 \<Rightarrow> u64 \<Rightarrow> u64 \<Rightarrow> u64 \<Rightarrow> int" where
  "gauss_time year month day hour minute sec = (
     let (m, y) = (if int month - 1 \<le> 0 then (int month - 1 + 12, year - 1) else (int month - 1, year))
     in sint ((365 * y + y div 4 - y div 100 + y div 400 + of_int (367 * m div 12) - 30 + day - 1 - 719527 + 31 + 28)
              * 86400 + hour * 3600 + minute * 60 + sec))"

definition finish_time :: "nat \<Rightarrow> nat \<Rightarrow> nat \<Rightarrow> nat \<Rightarrow> nat \<Rightarrow> nat \<Rightarrow> time_result" where
  "finish_time year month day hour minute sec = (
     if hour > 23 \<or> minute > 59 \<or> sec > 59 then No_Time
     else if day = 29 \<and> month = 1 then
       (if year mod 4 \<noteq> 0 \<or> year mod 100 = 0 \<and> year mod 400 \<noteq> 0 then No_Time
        else Time (gauss_time (of_nat year) month (of_nat day) (of_nat hour) (of_nat minute) (of_nat sec)))
     else if day > mday ! month then No_Time
     else Time (gauss_time (of_nat year) month (of_nat day) (of_nat hour) (of_nat minute) (of_nat sec)))"

definition parse_clock :: "byte list \<Rightarrow> (nat \<Rightarrow> nat \<Rightarrow> nat \<Rightarrow> byte list \<Rightarrow> time_result) \<Rightarrow> time_result" where
  "parse_clock p k =
     expect 32 p (\<lambda>p. two_digits p (\<lambda>hour p.
     expect 58 p (\<lambda>p. two_digits p (\<lambda>minute p.
     expect 58 p (\<lambda>p. two_digits p (\<lambda>sec p. k hour minute sec p))))))"

text \<open>The month and, for the two formats with a comma, the year before the time of day.\<close>

definition parse_year_first :: "time_format \<Rightarrow> nat \<Rightarrow> byte list \<Rightarrow> time_result" where
  "parse_year_first fmt day p =
     month_name p (\<lambda>month.
       let p = drop 3 p in
       expect (if fmt = rfc822 then 32 else 45) p (\<lambda>p.
         (if fmt = rfc822 then four_digits p
          else (\<lambda>k. two_digits p (\<lambda>y. k (if y < 70 then y + 2000 else y + 1900))))
         (\<lambda>year p. parse_clock p (\<lambda>hour minute sec p. finish_time year month day hour minute sec))))"

definition parse_isoc :: "byte list \<Rightarrow> time_result" where
  "parse_isoc p =
     month_name p (\<lambda>month.
       let p = drop 4 p in
       rd p 0 (\<lambda>a.
         let p = (if a = 32 then drop 1 p else p) in
         rd p 0 (\<lambda>a. if \<not> is_digit a then No_Time else
           let p = drop 1 p; rest = (\<lambda>day p.
               if length p < 14 then No_Time
               else parse_clock p (\<lambda>hour minute sec p. expect 32 p (\<lambda>p.
                 four_digits p (\<lambda>year p. finish_time year month day hour minute sec))))
           in rd p 0 (\<lambda>b.
             if b \<noteq> 32 then (if \<not> is_digit b then No_Time else rest (digit a * 10 + digit b) (drop 1 p))
             else rest (digit a) p))))"

definition kgl_parse_http_time :: "byte list \<Rightarrow> time_result" where
  "kgl_parse_http_time text = (
     case scan_weekday text of
       (fmt, []) \<Rightarrow> No_Time
     | (fmt, _ # p) \<Rightarrow>
         let p = dropWhile (\<lambda>c. c = 32) p in
         if length p < 18 then No_Time
         else if fmt = isoc then parse_isoc p
         else two_digits p (\<lambda>day p.
           rd p 0 (\<lambda>c.
             if c = 32 then (if length p < 18 then No_Time else parse_year_first rfc822 day (drop 1 p))
             else if c = 45 then parse_year_first rfc850 day (drop 1 p)
             else No_Time)))"

section \<open>The printer\<close>

definition days :: "byte list list" where
  "days = map bytes [''Sun'', ''Mon'', ''Tue'', ''Wed'', ''Thu'', ''Fri'', ''Sat'']"

definition months :: "byte list list" where
  "months = map bytes [''Jan'', ''Feb'', ''Mar'', ''Apr'', ''May'', ''Jun'',
     ''Jul'', ''Aug'', ''Sep'', ''Oct'', ''Nov'', ''Dec'']"

text \<open>\<^verbatim>\<open>make_http_time\<close> for the fields of \<^verbatim>\<open>struct tm\<close> that \<^verbatim>\<open>gmtime_r\<close> fills in.\<close>

record tm =
  tm_wday :: nat
  tm_mday :: nat
  tm_mon :: nat
  tm_year :: nat
  tm_hour :: nat
  tm_min :: nat
  tm_sec :: nat

definition make_http_time :: "'d platform \<Rightarrow> tm \<Rightarrow> nat \<Rightarrow> byte list option" where
  "make_http_time D t sz = kgl_snprintf D sz (bytes ''%s, %02d %s %d %02d:%02d:%02d GMT'')
     [A_cstr (days ! tm_wday t @ [0]), A_num (of_nat (tm_mday t)), A_cstr (months ! tm_mon t @ [0]),
      A_num (of_nat (tm_year t + 1900)), A_num (of_nat (tm_hour t)), A_num (of_nat (tm_min t)), A_num (of_nat (tm_sec t))]"

text \<open>The text it means to write.\<close>

definition http_date :: "nat \<Rightarrow> nat \<Rightarrow> nat \<Rightarrow> nat \<Rightarrow> nat \<Rightarrow> nat \<Rightarrow> nat \<Rightarrow> byte list" where
  "http_date wday md mon year hour minute sec =
     days ! wday @ bytes '', '' @ pad2 md @ bytes '' '' @ months ! mon @ bytes '' '' @ decimal year @
     bytes '' '' @ pad2 hour @ bytes '':'' @ pad2 minute @ bytes '':'' @ pad2 sec @ bytes '' GMT''"

section \<open>Memory safety\<close>

definition safe :: "time_result \<Rightarrow> bool" where
  "safe r \<longleftrightarrow> r \<noteq> Overrun"

lemma safe_rd: "i < length p \<Longrightarrow> safe (k (p ! i)) \<Longrightarrow> safe (rd p i k)"
  by (simp add: rd_def)

lemma safe_two: "2 \<le> length p \<Longrightarrow> (\<And>n. safe (k n (drop 2 p))) \<Longrightarrow> safe (two_digits p k)"
  by (auto simp: two_digits_def rd_def safe_def)

lemma safe_four: "4 \<le> length p \<Longrightarrow> (\<And>n. safe (k n (drop 4 p))) \<Longrightarrow> safe (four_digits p k)"
  by (auto simp: four_digits_def rd_def safe_def)

lemma safe_expect: "1 \<le> length p \<Longrightarrow> safe (k (drop 1 p)) \<Longrightarrow> safe (expect c p k)"
  by (auto simp: expect_def rd_def safe_def)

lemma safe_month: "3 \<le> length p \<Longrightarrow> (\<And>m. safe (k m)) \<Longrightarrow> safe (month_name p k)"
  by (auto simp: month_name_def rd_def safe_def)

lemma safe_clock: "9 \<le> length p \<Longrightarrow> (\<And>h m s. safe (k h m s (drop 9 p))) \<Longrightarrow> safe (parse_clock p k)"
  unfolding parse_clock_def by (intro safe_expect safe_two) simp_all

lemma safe_finish: "safe (finish_time y mo d h m s)"
  by (simp add: finish_time_def safe_def)

lemma safe_year_first:
  "(fmt = rfc822 \<and> 17 \<le> length p) \<or> (fmt \<noteq> rfc822 \<and> 15 \<le> length p) \<Longrightarrow> safe (parse_year_first fmt d p)"
  unfolding parse_year_first_def Let_def
  by (intro safe_month safe_expect) (auto intro!: safe_four safe_two safe_clock safe_finish)

lemma safe_isoc: "18 \<le> length p \<Longrightarrow> safe (parse_isoc p)"
  unfolding parse_isoc_def Let_def
  by (intro safe_month safe_rd) (auto simp: safe_def [of No_Time] intro!: safe_rd safe_clock safe_expect safe_four safe_finish)

lemma parse_http_time_safe: "safe (kgl_parse_http_time text)"
proof (cases "scan_weekday text")
  case (Pair fmt q)
  show ?thesis
  proof (cases q)
    case Nil
    with Pair show ?thesis by (simp add: kgl_parse_http_time_def safe_def)
  next
    case (Cons c p)
    let ?p = "dropWhile (\<lambda>c. c = 32) p"
    have "safe (two_digits ?p (\<lambda>day p. rd p 0 (\<lambda>c.
        if c = 32 then (if length p < 18 then No_Time else parse_year_first rfc822 day (drop 1 p))
        else if c = 45 then parse_year_first rfc850 day (drop 1 p) else No_Time)))" if "18 \<le> length ?p"
      using that by (intro safe_two safe_rd) (auto simp: safe_def [of No_Time] intro!: safe_year_first)
    moreover have "safe (parse_isoc ?p)" if "18 \<le> length ?p" using that by (rule safe_isoc)
    moreover have "safe No_Time" by (simp add: safe_def)
    ultimately show ?thesis
      unfolding kgl_parse_http_time_def Pair Cons prod.case list.case Let_def by (simp only: not_less split: if_split) simp
  qed
qed

section \<open>The calendar\<close>

definition leap :: "nat \<Rightarrow> bool" where
  "leap y \<longleftrightarrow> y mod 4 = 0 \<and> (y mod 100 \<noteq> 0 \<or> y mod 400 = 0)"

definition month_length :: "nat \<Rightarrow> nat \<Rightarrow> nat" where
  "month_length y m = (if m = 1 \<and> leap y then 29 else mday ! m)"

definition days_before :: "nat \<Rightarrow> nat \<Rightarrow> nat" where
  "days_before y m = (\<Sum>k = 1970..<y. if leap k then 366 else 365) + (\<Sum>j < m. month_length y j)"

definition unix_time :: "nat \<Rightarrow> nat \<Rightarrow> nat \<Rightarrow> nat \<Rightarrow> nat \<Rightarrow> nat \<Rightarrow> int" where
  "unix_time y m d h mi s = int (((days_before y m + d - 1) * 24 + h) * 3600 + mi * 60 + s)"

definition gauss_year :: "nat \<Rightarrow> int" where
  "gauss_year y = 365 * int y + int (y div 4) - int (y div 100) + int (y div 400)"

lemma div_Suc_dvd: "0 < k \<Longrightarrow> Suc y div k = y div k + (if k dvd Suc y then 1 else 0)"
  by (simp add: div_Suc mod_eq_0_iff_dvd [symmetric] dvd_eq_mod_eq_0)

lemma leap_dvd: "leap y \<longleftrightarrow> 4 dvd y \<and> (\<not> 100 dvd y \<or> 400 dvd y)"
  by (simp add: leap_def dvd_eq_mod_eq_0)

lemma gauss_year_Suc: "gauss_year (Suc y) = gauss_year y + (if leap (Suc y) then 366 else 365)"
proof -
  have d: "(100::nat) dvd Suc y \<Longrightarrow> 4 dvd Suc y" "(400::nat) dvd Suc y \<Longrightarrow> 100 dvd Suc y"
    by (erule dvd_trans [rotated], simp)+
  define a b c :: int where "a = (if 4 dvd Suc y then 1 else 0)" and "b = (if 100 dvd Suc y then 1 else 0)"
    and "c = (if 400 dvd Suc y then 1 else 0)"
  have e: "int (Suc y div k) = int (y div k) + (if k dvd Suc y then 1 else 0)" if "0 < k" for k
    unfolding div_Suc_dvd [OF that] by (cases "k dvd Suc y") (simp_all only: if_True if_False of_nat_add of_nat_0 of_nat_1)
  have "gauss_year (Suc y) = gauss_year y + 365 + a - b + c"
    using e [of 4] e [of 100] e [of 400] unfolding gauss_year_def a_def [symmetric] b_def [symmetric] c_def [symmetric]
    by (simp only: zero_less_numeral simp_thms of_nat_Suc) (simp only: algebra_simps)
  moreover have "a - b + c = (if leap (Suc y) then 1 else 0)"
  proof -
    have "(if A then 1 else 0) - (if B then 1 else 0) + (if C then 1 else 0) =
        (if A \<and> (\<not> B \<or> C) then 1 else 0 :: int)" if "B \<Longrightarrow> A" "C \<Longrightarrow> B" for A B C
      using that by auto
    with d show ?thesis unfolding leap_dvd a_def b_def c_def by blast
  qed
  ultimately show ?thesis by (cases "leap (Suc y)") simp_all
qed

lemma january_first:
  "1970 \<le> y \<Longrightarrow> gauss_year (y - 1) + 306 - 719468 = int (\<Sum>k = 1970..<y. if leap k then 366 else 365)"
proof (induction y rule: dec_induct)
  case base
  then show ?case by (simp add: gauss_year_def)
next
  case (step y)
  then obtain x where "y = Suc x" by (cases y) auto
  with step gauss_year_Suc [of x] show ?case by simp
qed

lemma months_cases:
  "(m::nat) < 12 \<Longrightarrow> m \<in> {0, 1, 2, 3, 4, 5, 6, 7, 8, 9, 10, 11}"
  unfolding insert_iff empty_iff by presburger

text \<open>Gauss' formula with its shifted month and year counts the days since 1970.\<close>

lemma days_in_months:
  "m < 12 \<Longrightarrow> (\<Sum>j < m. month_length y j) =
     [0, 31, 59, 90, 120, 151, 181, 212, 243, 273, 304, 334] ! m + (if leap y \<and> 2 \<le> m then 1 else 0)"
  by (drule months_cases)
    (elim insertE emptyE; simp add: month_length_def mday_def lessThan_nat_numeral lessThan_Suc)

lemma gauss_days:
  assumes "1970 \<le> y" "m < 12"
  shows "(if int m - 1 \<le> 0 then gauss_year (y - 1) + 367 * (int m + 11) div 12
          else gauss_year y + 367 * (int m - 1) div 12) - 30 - 719527 + 31 + 28 = int (days_before y m)"
proof -
  obtain x where x: "y = Suc x" using assms(1) by (cases y) auto
  let ?s = "\<Sum>k = 1970..<y. if leap k then 366 else 365 :: nat"
  have j: "gauss_year x + 306 - 719468 = int ?s"
    using january_first [OF assms(1)] by (simp add: x)
  have g: "gauss_year y = gauss_year x + (if leap y then 366 else 365)" using gauss_year_Suc by (simp add: x)
  have b: "int (days_before y m) = int ?s +
      int ([0, 31, 59, 90, 120, 151, 181, 212, 243, 273, 304, 334] ! m + (if leap y \<and> 2 \<le> m then 1 else 0))"
    unfolding days_before_def days_in_months [OF assms(2)] by (simp only: of_nat_add)
  show ?thesis unfolding b using months_cases [OF assms(2)] j g x
    by (elim insertE emptyE) (simp_all del: sum.op_ivl_Suc)
qed

section \<open>The 64-bit computation\<close>

lemma div_of_nat: "a < 2 ^ 64 \<Longrightarrow> b < 2 ^ 64 \<Longrightarrow> (of_nat a :: u64) div of_nat b = of_nat (a div b)"
proof -
  assume ab: "a < 2 ^ 64" "b < 2 ^ 64"
  have "a div b < 2 ^ 64" using ab(1) by (rule le_less_trans [OF div_le_dividend])
  with ab show ?thesis by (simp add: word_unat_eq_iff unat_div unat_of_nat)
qed

lemma sint_of_int: "- (2 ^ 63) \<le> z \<Longrightarrow> z < 2 ^ 63 \<Longrightarrow> sint (of_int z :: u64) = z"
  by (simp add: signed_of_int signed_take_bit_int_eq_self)

lemma gauss_word:
  assumes "y < 2 ^ 64"
  shows "365 * (of_nat y :: u64) + of_nat y div 4 - of_nat y div 100 + of_nat y div 400 = of_int (gauss_year y)"
proof -
  have "(of_nat y :: u64) div 4 = of_nat (y div 4)" "(of_nat y :: u64) div 100 = of_nat (y div 100)"
    "(of_nat y :: u64) div 400 = of_nat (y div 400)"
    using div_of_nat [OF assms, of 4] div_of_nat [OF assms, of 100] div_of_nat [OF assms, of 400] by simp_all
  then show ?thesis by (simp add: gauss_year_def)
qed

lemma days_before_bound: "y \<le> 9999 \<Longrightarrow> m < 12 \<Longrightarrow> days_before y m \<le> 4000000"
proof -
  assume y: "y \<le> 9999" and m: "m < 12"
  have "(\<Sum>k = 1970..<y. if leap k then 366 else 365 :: nat) \<le> (\<Sum>k = 1970..<y. 366)"
    by (rule sum_mono) simp
  also have "\<dots> \<le> 366 * 9999" using y by simp
  finally have "(\<Sum>k = 1970..<y. if leap k then 366 else 365 :: nat) \<le> 366 * 9999" .
  moreover have "(\<Sum>j < m. month_length y j) \<le> 335"
    unfolding days_in_months [OF m] using months_cases [OF m] by (elim insertE emptyE) simp_all
  ultimately show ?thesis by (simp add: days_before_def)
qed

lemma gauss_time_unix:
  assumes y: "1970 \<le> y" "y \<le> 9999" and m: "m < 12" and d: "1 \<le> d" "d \<le> 31"
    and t: "h < 24" "mi < 60" "s < 60"
  shows "gauss_time (of_nat y) m (of_nat d) (of_nat h) (of_nat mi) (of_nat s) = unix_time y m d h mi s"
proof -
  let ?D = "(if int m - 1 \<le> 0 then gauss_year (y - 1) + 367 * (int m + 11) div 12
          else gauss_year y + 367 * (int m - 1) div 12) - 30 - 719527 + 31 + 28"
  let ?z = "(int (days_before y m) + int d - 1) * 86400 + int h * 3600 + int mi * 60 + int s"
  have y1: "(of_nat y :: u64) - 1 = of_nat (y - 1)" using y by (simp add: of_nat_diff)
  have "gauss_time (of_nat y) m (of_nat d) (of_nat h) (of_nat mi) (of_nat s) =
      sint (of_int ((?D + int d - 1) * 86400 + int h * 3600 + int mi * 60 + int s) :: u64)"
  proof -
    have b: "y < 2 ^ 64" "y - 1 < 2 ^ 64" using y by simp_all
    show ?thesis
      unfolding gauss_time_def Let_def y1
      by (cases "int m - 1 \<le> 0"; simp only: if_True if_False prod.case gauss_word [OF b(1)] gauss_word [OF b(2)])
        (simp_all add: algebra_simps)
  qed
  also have "?D = int (days_before y m)" by (rule gauss_days [OF y(1) m])
  also have "sint (of_int ?z :: u64) = ?z"
    using days_before_bound [OF y(2) m] d t by (intro sint_of_int) auto
  also have "\<dots> = unix_time y m d h mi s"
    using d unfolding unix_time_def by (simp add: of_nat_diff algebra_simps)
  finally show ?thesis .
qed

section \<open>Printing and parsing\<close>

lemma digit_of_nat:
  assumes "n < 10"
  shows "is_digit (of_nat (48 + n))" "digit (of_nat (48 + n)) = n"
proof -
  have u: "unat (of_nat (48 + n) :: byte) = 48 + n" using assms by (simp only: unat_of_nat) simp
  then show "is_digit (of_nat (48 + n))"
    using assms unfolding is_digit_def word_le_nat_alt by (simp del: of_nat_add)
  have "(of_nat (48 + n) :: byte) - 48 = of_nat n" by simp
  then show "digit (of_nat (48 + n)) = n" using assms unfolding digit_def by (simp add: unat_of_nat)
qed

lemma two_digits_pad2: "n < 100 \<Longrightarrow> two_digits (pad2 n @ p) k = k n p"
  using digit_of_nat [of "n div 10"] digit_of_nat [of "n mod 10"]
  by (simp add: two_digits_def pad2_def rd_def del: of_nat_add)

lemma decimal_4:
  assumes "1000 \<le> n" "n \<le> 9999"
  shows "decimal n = map (\<lambda>d. of_nat (48 + d)) [n div 1000, n div 100 mod 10, n div 10 mod 10, n mod 10]"
proof -
  have e: "n div 10 div 10 = n div 100" "n div 100 div 10 = n div 1000"
    by (simp_all add: div_mult2_eq [symmetric])
  have b: "\<not> n < 10" "\<not> n div 10 < 10" "\<not> n div 100 < 10" "n div 1000 < 10"
    using assms by simp_all
  show ?thesis
    by (simp only: decimal.simps [of n] decimal.simps [of "n div 10"] decimal.simps [of "n div 100"]
        decimal.simps [of "n div 1000"] e b if_True if_False list.map append.simps)
qed

lemma decimal_digits_sum: "n div 1000 * 1000 + n div 100 mod 10 * 100 + n div 10 mod 10 * 10 + n mod 10 = (n::nat)"
proof -
  have e: "n div 10 div 10 = n div 100" "n div 100 div 10 = n div 1000"
    by (simp_all add: div_mult2_eq [symmetric])
  show ?thesis
    using div_mult_mod_eq [of n 10] div_mult_mod_eq [of "n div 10" 10] div_mult_mod_eq [of "n div 100" 10]
    unfolding e by linarith
qed

lemma four_digits_decimal:
  assumes "1000 \<le> n" "n \<le> 9999"
  shows "four_digits (decimal n @ p) k = k n p"
proof -
  have b: "n div 1000 < 10" "n div 100 mod 10 < 10" "n div 10 mod 10 < 10" "n mod 10 < 10" using assms by simp_all
  have "four_digits (map (\<lambda>d. of_nat (48 + d)) [a, b, c, d] @ p) k = k (a * 1000 + b * 100 + c * 10 + d) p"
    if "a < 10" "b < 10" "c < 10" "d < 10" for a b c d
    using digit_of_nat [OF that(1)] digit_of_nat [OF that(2)] digit_of_nat [OF that(3)] digit_of_nat [OF that(4)]
    by (simp add: four_digits_def rd_def numeral_eq_Suc del: of_nat_add)
  from this [OF b] show ?thesis unfolding decimal_4 [OF assms] decimal_digits_sum .
qed

lemma expect_Cons: "expect c (c # p) k = k p"
  by (simp add: expect_def rd_def)

lemma month_name_months: "m < 12 \<Longrightarrow> month_name (months ! m @ p) k = k m \<and> length (months ! m) = 3"
  by (drule months_cases)
    (elim insertE emptyE; simp add: months_def bytes_def of_char_def month_name_def rd_def)

lemma scan_weekday_days: "w < 7 \<Longrightarrow> scan_weekday (days ! w @ 44 # p) = (nofmt, 44 # p)"
proof -
  assume "w < 7"
  then have "w \<in> {0, 1, 2, 3, 4, 5, 6}" unfolding insert_iff empty_iff by presburger
  then show ?thesis by (elim insertE emptyE; simp add: days_def bytes_def of_char_def)
qed

lemma month_length_bound: "m < 12 \<Longrightarrow> month_length y m \<le> 31"
  by (drule months_cases) (elim insertE emptyE; simp add: month_length_def mday_def)

lemma finish_valid:
  assumes "1970 \<le> y" "y \<le> 9999" "m < 12" "1 \<le> d" "d \<le> month_length y m" "h < 24" "mi < 60" "s < 60"
  shows "finish_time y m d h mi s = Time (unix_time y m d h mi s)"
proof -
  have "gauss_time (of_nat y) m (of_nat d) (of_nat h) (of_nat mi) (of_nat s) = unix_time y m d h mi s"
    using assms month_length_bound [OF assms(3), of y] by (intro gauss_time_unix) auto
  moreover have "d = 29 \<and> m = 1 \<Longrightarrow> leap y"
    using assms(5) by (auto simp: month_length_def mday_def split: if_splits)
  moreover have "\<not> (d = 29 \<and> m = 1) \<Longrightarrow> d \<le> mday ! m"
    using assms(5) by (auto simp: month_length_def mday_def split: if_splits)
  ultimately show ?thesis
    using assms(6-8) unfolding finish_time_def leap_def by (cases "d = 29 \<and> m = 1") auto
qed

lemma text_facts:
  "w < 7 \<Longrightarrow> length (days ! w) = 3 \<and> 0 \<notin> set (days ! w)"
  "m < 12 \<Longrightarrow> length (months ! m) = 3 \<and> 0 \<notin> set (months ! m)"
proof -
  assume "w < 7"
  then have "w \<in> {0, 1, 2, 3, 4, 5, 6}" unfolding insert_iff empty_iff by presburger
  then show "length (days ! w) = 3 \<and> 0 \<notin> set (days ! w)"
    by (elim insertE emptyE; simp add: days_def bytes_def of_char_def)
next
  assume "m < 12"
  then show "length (months ! m) = 3 \<and> 0 \<notin> set (months ! m)"
    by (drule_tac months_cases) (elim insertE emptyE; simp add: months_def bytes_def of_char_def)
qed

lemma make_http_time_text:
  assumes "tm_wday t < 7" "tm_mon t < 12" "tm_mday t < 100" "1000 \<le> tm_year t + 1900" "tm_year t + 1900 \<le> 9999"
    and "tm_hour t < 100" "tm_min t < 100" "tm_sec t < 100" "29 \<le> sz"
  shows "make_http_time D t sz =
    Some (http_date (tm_wday t) (tm_mday t) (tm_mon t) (tm_year t + 1900) (tm_hour t) (tm_min t) (tm_sec t))"
proof -
  let ?y = "of_nat (tm_year t + 1900) :: u64"
  have y: "unat ?y = tm_year t + 1900" using assms(5) by (simp only: unat_of_nat) simp
  then have "uint ?y = int (tm_year t + 1900)" by (metis of_nat_unat)
  then have ys: "0 \<le> sint ?y" using assms(5) by (simp add: sint_uint signed_take_bit_int_eq_self)
  have len: "length (decimal (tm_year t + 1900)) = 4" using decimal_4 [OF assms(4,5)] by simp
  obtain r where r: "sz = r + 29" using assms(9) by (metis add.commute le_Suc_ex)
  note tf = text_facts(1) [OF assms(1)] text_facts(2) [OF assms(2)]
  show ?thesis
    unfolding make_http_time_def http_date_def kgl_snprintf_def r
    using tf assms(3,6-8) ys len
    by (simp add: bytes_def of_char_def vslprintf_s vslprintf_d vslprintf_02d vslprintf_plain y option.map_comp comp_def
        del: of_nat_add)
qed

lemma parse_http_date:
  assumes "1970 \<le> y" "y \<le> 9999" "m < 12" "1 \<le> d" "d \<le> month_length y m" "w < 7"
    and "h < 24" "mi < 60" "s < 60"
  shows "kgl_parse_http_time (http_date w d m y h mi s) = Time (unix_time y m d h mi s)"
proof -
  have d: "d < 100" using month_length_bound [OF assms(3), of y] assms(5) by simp
  have y: "1000 \<le> y" using assms(1) by simp
  have len: "length (decimal y) = 4" using decimal_4 [OF y assms(2)] by simp
  have mlen: "length (months ! m) = 3" using month_name_months [OF assms(3)] by blast
  have plen: "length (pad2 n) = 2" for n by (simp add: pad2_def)
  note mn = month_name_months [OF assms(3), THEN conjunct1]
  have pd: "dropWhile (\<lambda>c. c = 32) (pad2 d @ q) = pad2 d @ q" for q
  proof -
    have "d div 10 < 10" using d by simp
    from digit_of_nat(1) [OF this] have "of_nat (48 + d div 10) \<noteq> (32 :: byte)"
      by (auto simp: is_digit_def simp del: of_nat_add)
    then show ?thesis by (simp add: pad2_def del: of_nat_add)
  qed
  have "kgl_parse_http_time (http_date w d m y h mi s) = finish_time y m d h mi s"
    unfolding http_date_def kgl_parse_http_time_def
    using assms(7-9) d
    by (simp add: bytes_def of_char_def scan_weekday_days assms(6) pd two_digits_pad2 rd_def
        Let_def plen parse_year_first_def mn mlen len expect_Cons four_digits_decimal y assms(2) parse_clock_def)
  then show ?thesis using finish_valid assms by simp
qed

section \<open>Properties\<close>

text \<open>
  C27: a printed date is parsed back to its timestamp: for every day of the years 1970 to 9999
  and every time of day, \<^verbatim>\<open>make_http_time\<close> into 29 octets or more succeeds, and
  \<^verbatim>\<open>kgl_parse_http_time\<close> on its text returns the number of seconds obtained by counting the days
  of the years and months since 1970.
\<close>

theorem http_time_roundtrip:
  assumes "1970 \<le> tm_year t + 1900" "tm_year t + 1900 \<le> 9999" "tm_mon t < 12" "tm_wday t < 7"
    and "1 \<le> tm_mday t" "tm_mday t \<le> month_length (tm_year t + 1900) (tm_mon t)"
    and "tm_hour t < 24" "tm_min t < 60" "tm_sec t < 60" "29 \<le> sz"
  shows "map_option kgl_parse_http_time (make_http_time D t sz) =
    Some (Time (unix_time (tm_year t + 1900) (tm_mon t) (tm_mday t) (tm_hour t) (tm_min t) (tm_sec t)))"
proof -
  have "tm_mday t < 100" using month_length_bound [OF assms(3), of "tm_year t + 1900"] assms(6) by simp
  with assms show ?thesis by (simp add: make_http_time_text parse_http_date)
qed

theorem http_time_roundtrip_witness:
  "map_option kgl_parse_http_time
     (make_http_time \<lparr>int32_len = 11, is_neg = (\<lambda>d::nat. False), int_part = of_nat, scaled_frac = (\<lambda>_ _. 0)\<rparr>
        \<lparr>tm_wday = 2, tm_mday = 29, tm_mon = 1, tm_year = 72, tm_hour = 23, tm_min = 59, tm_sec = 58\<rparr> 29) =
   Some (Time 68255998)"
  by (subst http_time_roundtrip)
    (simp_all add: unix_time_def days_before_def month_length_def mday_def leap_def lessThan_nat_numeral
      lessThan_Suc atLeastLessThan_nat_numeral)

text \<open>
  C28: the date parser reads only octets of the text it was given: on no input of any length does
  \<^verbatim>\<open>kgl_parse_http_time\<close> access \<^verbatim>\<open>*p\<close> at or beyond \<^verbatim>\<open>end\<close>.
\<close>

theorem parse_http_time_no_overrun: "kgl_parse_http_time v \<noteq> Overrun"
  using parse_http_time_safe  by (simp add: safe_def)

end
