(* ===== verification/KText.thy ===== *)
theory KText
  imports KPrelude
begin

text \<open>
  The string helpers of \<^verbatim>\<open>src/KHttpLib.cpp\<close> and \<^verbatim>\<open>include/KHttpLib.h\<close>: comparisons, searches and
  case folding. A pair of a pointer and a length is the list of octets it spans. The comparison
  functions serve as the order of the library's search trees; the locale \<open>tree_order\<close> states
  what such an order has to satisfy, and \<^verbatim>\<open>kgl_cmp\<close> and \<^verbatim>\<open>kgl_icmp\<close> are shown to do so.
\<close>

section \<open>Comparison\<close>

text \<open>
  The difference of the first two octets that differ, after folding; of \<^verbatim>\<open>memcmp\<close> only the sign
  is used. Both ranges have the same length.
\<close>

fun octet_diff :: "(byte \<Rightarrow> byte) \<Rightarrow> byte list \<Rightarrow> byte list \<Rightarrow> int" where
  "octet_diff f (a # s) (b # t) = (
     let d = uint (f a) - uint (f b) in if d \<noteq> 0 then d else octet_diff f s t)"
| "octet_diff f _ _ = 0"

definition kgl_casecmp :: "byte list \<Rightarrow> byte list \<Rightarrow> nat \<Rightarrow> int" where
  "kgl_casecmp s1 s2 n = octet_diff kgl_tolower (take n s1) (take n s2)"

definition memcmp :: "byte list \<Rightarrow> byte list \<Rightarrow> nat \<Rightarrow> int" where
  "memcmp s1 s2 n = octet_diff (\<lambda>c. c) (take n s1) (take n s2)"

definition kgl_cmp :: "byte list \<Rightarrow> byte list \<Rightarrow> int" where
  "kgl_cmp s1 s2 = (
     let (n, z) = (if length s1 \<le> length s2 then (length s1, - 1) else (length s2, 1));
         m = memcmp s1 s2 n
     in if m \<noteq> 0 \<or> length s1 = length s2 then m else z)"

definition kgl_icmp :: "byte list \<Rightarrow> byte list \<Rightarrow> int" where
  "kgl_icmp s1 s2 = (
     let (n, z) = (if length s1 \<le> length s2 then (length s1, - 1) else (length s2, 1));
         m = kgl_casecmp s1 s2 n
     in if m \<noteq> 0 \<or> length s1 = length s2 then m else z)"

definition kgl_ncmp :: "byte list \<Rightarrow> byte list \<Rightarrow> int" where
  "kgl_ncmp s1 s2 = (
     let (n, z) = (if length s1 \<le> length s2 then (length s1, - 1) else (length s2, 1));
         m = memcmp s1 s2 n
     in if m \<noteq> 0 \<or> length s2 \<le> length s1 then m else z)"

definition kgl_ncasecmp :: "byte list \<Rightarrow> byte list \<Rightarrow> int" where
  "kgl_ncasecmp s1 s2 = (
     let (n, z) = (if length s1 \<le> length s2 then (length s1, - 1) else (length s2, 1));
         m = kgl_casecmp s1 s2 n
     in if m \<noteq> 0 \<or> length s2 \<le> length s1 then m else z)"

definition kgl_mem_same :: "byte list \<Rightarrow> byte list \<Rightarrow> bool" where
  "kgl_mem_same attr val \<longleftrightarrow> length attr = length val \<and> memcmp attr val (length attr) = 0"

definition kgl_mem_case_same :: "byte list \<Rightarrow> byte list \<Rightarrow> bool" where
  "kgl_mem_case_same s1 s2 \<longleftrightarrow> length s1 = length s2 \<and> kgl_casecmp s1 s2 (length s2) = 0"

definition kgl_attr_tolower :: "byte \<Rightarrow> byte" where
  "kgl_attr_tolower p = (if p = 45 then 95 else kgl_tolower p)"

fun attr_loop :: "byte list \<Rightarrow> byte list \<Rightarrow> bool" where
  "attr_loop (a # s1) (b # s2) \<longleftrightarrow> kgl_attr_tolower a = kgl_attr_tolower b \<and> attr_loop s1 s2"
| "attr_loop _ _ \<longleftrightarrow> True"

definition kgl_is_attr :: "byte list \<Rightarrow> byte list \<Rightarrow> bool" where
  "kgl_is_attr s1 s2 \<longleftrightarrow> length s1 = length s2 \<and> attr_loop s1 s2"

definition kgl_strlow :: "byte list \<Rightarrow> byte list" where
  "kgl_strlow src = map kgl_tolower src"

text \<open>The comparisons of possibly missing strings put the missing one last.\<close>

definition kgl_string_cmp :: "byte list option \<Rightarrow> byte list option \<Rightarrow> int" where
  "kgl_string_cmp a b = (
     case a of
       None \<Rightarrow> (case b of None \<Rightarrow> 0 | Some _ \<Rightarrow> 1)
     | Some s \<Rightarrow> (case b of None \<Rightarrow> - 1 | Some t \<Rightarrow> kgl_cmp s t))"

definition kgl_string_case_cmp :: "byte list option \<Rightarrow> byte list option \<Rightarrow> int" where
  "kgl_string_case_cmp a b = (
     case a of
       None \<Rightarrow> (case b of None \<Rightarrow> 0 | Some _ \<Rightarrow> 1)
     | Some s \<Rightarrow> (case b of None \<Rightarrow> - 1 | Some t \<Rightarrow> kgl_icmp s t))"

section \<open>Searching\<close>

fun first_pos :: "('a \<Rightarrow> bool) \<Rightarrow> 'a list \<Rightarrow> nat option" where
  "first_pos P [] = None"
| "first_pos P (x # xs) = (if P x then Some 0 else map_option Suc (first_pos P xs))"

abbreviation memchr :: "byte list \<Rightarrow> byte \<Rightarrow> nat option" where
  "memchr s c \<equiv> first_pos (\<lambda>x. x = c) s"

fun kgl_memstr :: "byte list \<Rightarrow> byte list \<Rightarrow> nat option" where
  "kgl_memstr haystack needle = (
     if length haystack < length needle then None
     else if memcmp haystack needle (length needle) = 0 then Some 0
     else case haystack of [] \<Rightarrow> None | _ # p \<Rightarrow> map_option Suc (kgl_memstr p needle))"

declare kgl_memstr.simps [simp del]

text \<open>\<^verbatim>\<open>kgl_memrchr\<close> walks back from the end.\<close>

definition kgl_memrchr :: "byte list \<Rightarrow> byte \<Rightarrow> nat option" where
  "kgl_memrchr s c = map_option (\<lambda>i. length s - 1 - i) (memchr (rev s) c)"

text \<open>The pointer \<^verbatim>\<open>kgl_skip_space\<close> returns, as a distance; \<open>isspace\<close> as the C locale has it.\<close>

definition isspace :: "byte \<Rightarrow> bool" where
  "isspace c \<longleftrightarrow> c = 32 \<or> 9 \<le> c \<and> c \<le> 13"

definition kgl_skip_space :: "byte list \<Rightarrow> bool \<Rightarrow> nat option" where
  "kgl_skip_space s space = first_pos (\<lambda>c. isspace c \<noteq> space) s"

text \<open>
  \<^verbatim>\<open>kgl_mempbrk\<close> searches the characters of \<^verbatim>\<open>control\<close> one after the other in blocks of 256 octets;
  every hit shrinks the range of the searches that follow.
\<close>

definition MEMPBRK_CACHE_SIZE :: nat where
  "MEMPBRK_CACHE_SIZE = 256"

fun search_controls :: "byte list \<Rightarrow> nat \<Rightarrow> nat option \<Rightarrow> byte list \<Rightarrow> nat \<times> nat option" where
  "search_controls str n hit [] = (n, hit)"
| "search_controls str n hit (c # control) = (
     case memchr (take (if n > MEMPBRK_CACHE_SIZE then MEMPBRK_CACHE_SIZE else n) str) c of
       None \<Rightarrow> search_controls str n hit control
     | Some p \<Rightarrow> search_controls str p (Some p) control)"

lemma search_controls_hit: "\<exists>n' p. search_controls str n (Some q) control = (n', Some p)"
  by (induction control arbitrary: n q) (auto split: option.splits)

lemma search_controls_none:
  assumes "search_controls str n None control = (n', None)"
  shows "n' = n"
  using assms
proof (induction control arbitrary: n)
  case (Cons c control)
  show ?case
  proof (cases "memchr (take (if n > MEMPBRK_CACHE_SIZE then MEMPBRK_CACHE_SIZE else n) str) c")
    case None
    with Cons show ?thesis by simp
  next
    case (Some p)
    with Cons.prems search_controls_hit [of str p p control] show ?thesis by auto
  qed
qed simp

function kgl_mempbrk :: "byte list \<Rightarrow> nat \<Rightarrow> byte list \<Rightarrow> nat option" where
  "kgl_mempbrk str n control = (
     if n = 0 then None
     else case search_controls str n None control of
       (_, Some p) \<Rightarrow> Some p
     | (n', None) \<Rightarrow> map_option (\<lambda>p. p + MEMPBRK_CACHE_SIZE)
           (kgl_mempbrk (drop MEMPBRK_CACHE_SIZE str) (n' - MEMPBRK_CACHE_SIZE) control))"
  by pat_completeness auto
termination
  by (relation "measure (\<lambda>(s, n, c). n)")
    (auto simp: MEMPBRK_CACHE_SIZE_def dest!: search_controls_none [OF sym])

declare kgl_mempbrk.simps [simp del]

section \<open>Orders of search trees\<close>

text \<open>
  A three-way comparison that identifies the keys with the same image under \<open>norm\<close> and orders
  the others. From it follow the facts a sorted container needs.
\<close>

locale tree_order =
  fixes cmp :: "'a \<Rightarrow> 'a \<Rightarrow> int" and norm :: "'a \<Rightarrow> 'b"
  assumes cmp_zero: "cmp a b = 0 \<longleftrightarrow> norm a = norm b"
    and cmp_flip: "cmp a b < 0 \<longleftrightarrow> 0 < cmp b a"
    and cmp_trans: "cmp a b < 0 \<Longrightarrow> cmp b c < 0 \<Longrightarrow> cmp a c < 0"
begin

lemma irrefl: "\<not> cmp a a < 0"
  using cmp_zero [of a a] by simp

lemma total: "cmp a b < 0 \<or> norm a = norm b \<or> cmp b a < 0"
  using cmp_zero [of a b] cmp_flip [of a b] cmp_flip [of b a] by linarith

lemma equal_left: "norm a = norm a' \<Longrightarrow> cmp a b < 0 \<longleftrightarrow> cmp a' b < 0"
  by (metis cmp_trans cmp_zero irrefl total)

lemma equal_right: "norm b = norm b' \<Longrightarrow> cmp a b < 0 \<longleftrightarrow> cmp a b' < 0"
  by (metis cmp_trans cmp_zero irrefl total)

lemma strict_order: "class.order (\<lambda>a b. cmp a b < 0 \<or> a = b) (\<lambda>a b. cmp a b < 0)"
  by standard (auto dest: cmp_trans simp: irrefl)

end

text \<open>The lexicographic comparison both functions compute.\<close>

fun lex_cmp :: "(byte \<Rightarrow> byte) \<Rightarrow> byte list \<Rightarrow> byte list \<Rightarrow> int" where
  "lex_cmp f [] [] = 0"
| "lex_cmp f [] (b # t) = - 1"
| "lex_cmp f (a # s) [] = 1"
| "lex_cmp f (a # s) (b # t) = (
     let d = uint (f a) - uint (f b) in if d \<noteq> 0 then d else lex_cmp f s t)"

lemma octet_diff_take:
  "min (length s) (length t) \<le> n \<Longrightarrow> octet_diff f (take n s) (take n t) = octet_diff f s t"
proof (induction f s t arbitrary: n rule: octet_diff.induct)
  case (1 f a s b t)
  then obtain m where "n = Suc m" "min (length s) (length t) \<le> m" by (cases n) auto
  with 1 show ?case by simp
qed simp_all

lemma lex_cmp_diff:
  "lex_cmp f s t = (
     if octet_diff f s t \<noteq> 0 \<or> length s = length t then octet_diff f s t
     else if length s \<le> length t then - 1 else 1)"
  by (induction f s t rule: lex_cmp.induct) (simp_all add: Let_def)

lemma octet_diff_equal:
  "length s = length t \<Longrightarrow> octet_diff f s t = 0 \<longleftrightarrow> map f s = map f t"
  by (induction f s t rule: octet_diff.induct) (auto simp: Let_def word_uint_eq_iff [symmetric])

lemma kgl_cmp_lex: "kgl_cmp s t = lex_cmp (\<lambda>c. c) s t"
  using octet_diff_take [of s t "length s"] octet_diff_take [of s t "length t"]
  unfolding lex_cmp_diff kgl_cmp_def memcmp_def Let_def by (simp split: if_split)

lemma kgl_icmp_lex: "kgl_icmp s t = lex_cmp kgl_tolower s t"
  using octet_diff_take [of s t "length s"] octet_diff_take [of s t "length t"]
  unfolding lex_cmp_diff kgl_icmp_def kgl_casecmp_def Let_def by (simp split: if_split)

lemma lex_cmp_zero: "lex_cmp f s t = 0 \<longleftrightarrow> map f s = map f t"
  by (induction f s t rule: lex_cmp.induct) (auto simp: Let_def word_uint_eq_iff [symmetric])

lemma lex_cmp_flip: "lex_cmp f s t < 0 \<longleftrightarrow> 0 < lex_cmp f t s"
  by (induction f s t rule: lex_cmp.induct) (auto simp: Let_def)

lemma lex_cmp_trans: "lex_cmp f s t < 0 \<Longrightarrow> lex_cmp f t u < 0 \<Longrightarrow> lex_cmp f s u < 0"
proof (induction f s t arbitrary: u rule: lex_cmp.induct)
  case (4 f a s b t)
  then obtain c u' where u: "u = c # u'" by (cases u) auto
  from 4 show ?case unfolding u by (simp add: Let_def split: if_splits)
next
  case (2 f b t)
  then show ?case by (cases u) auto
qed simp_all

interpretation name_order: tree_order kgl_cmp "\<lambda>s. s"
  unfolding kgl_cmp_lex [abs_def]
  by unfold_locales (simp add: lex_cmp_zero, rule lex_cmp_flip, erule (1) lex_cmp_trans)

interpretation nocase_order: tree_order kgl_icmp kgl_strlow
  unfolding kgl_icmp_lex [abs_def] kgl_strlow_def [abs_def]
  by unfold_locales (simp add: lex_cmp_zero, rule lex_cmp_flip, erule (1) lex_cmp_trans)

section \<open>Search results\<close>

lemma first_pos_Some:
  "first_pos P xs = Some i \<longleftrightarrow> i < length xs \<and> P (xs ! i) \<and> (\<forall>j < i. \<not> P (xs ! j))"
proof (induction xs arbitrary: i)
  case (Cons x xs)
  then show ?case by (cases i) (auto simp: less_Suc_eq_0_disj split: if_splits)
qed simp

lemma first_pos_None: "first_pos P xs = None \<longleftrightarrow> (\<forall>x \<in> set xs. \<not> P x)"
  by (induction xs) auto

lemma first_pos_append:
  "first_pos P (xs @ ys) = (
     case first_pos P xs of Some i \<Rightarrow> Some i | None \<Rightarrow> map_option (\<lambda>i. i + length xs) (first_pos P ys))"
  by (induction xs) (auto simp: option.map_ident option.map_comp comp_def split: option.split)

lemma first_pos_disj:
  "first_pos (\<lambda>x. P x \<or> Q x) xs = (
     case first_pos P xs of
       None \<Rightarrow> first_pos Q xs
     | Some p \<Rightarrow> (case first_pos Q (take p xs) of Some q \<Rightarrow> Some q | None \<Rightarrow> Some p))"
  by (induction xs) (auto split: option.split)

lemma search_controls_first:
  "snd (search_controls str n hit control) = (
     case first_pos (\<lambda>x. x \<in> set control) (take (min n MEMPBRK_CACHE_SIZE) str) of
       Some p \<Rightarrow> Some p | None \<Rightarrow> hit)"
proof (induction control arbitrary: n hit)
  case Nil
  have "first_pos (\<lambda>x. False) xs = None" for xs :: "byte list" by (simp add: first_pos_None)
  then show ?case by simp
next
  case (Cons c control)
  let ?m = "min n MEMPBRK_CACHE_SIZE"
  have m: "(if n > MEMPBRK_CACHE_SIZE then MEMPBRK_CACHE_SIZE else n) = ?m" by simp
  have or: "first_pos (\<lambda>x. x \<in> set (c # control)) (take ?m str) = (
     case memchr (take ?m str) c of
       None \<Rightarrow> first_pos (\<lambda>x. x \<in> set control) (take ?m str)
     | Some p \<Rightarrow> (case first_pos (\<lambda>x. x \<in> set control) (take p (take ?m str)) of Some q \<Rightarrow> Some q | None \<Rightarrow> Some p))"
    using first_pos_disj [of "\<lambda>x. x = c" "\<lambda>x. x \<in> set control"] by simp
  show ?case
  proof (cases "memchr (take ?m str) c")
    case None
    then show ?thesis unfolding search_controls.simps m or by (simp add: Cons)
  next
    case (Some p)
    then have "p < ?m" by (auto simp: first_pos_Some)
    then have "min p MEMPBRK_CACHE_SIZE = p" "min p ?m = p" by simp_all
    with Some show ?thesis
      unfolding search_controls.simps m or by (simp add: Cons split: option.split)
  qed
qed

lemma mempbrk_first:
  "kgl_mempbrk str n control = first_pos (\<lambda>x. x \<in> set control) (take n str)"
proof (induction str n control rule: kgl_mempbrk.induct)
  case (1 str n control)
  let ?P = "\<lambda>x. x \<in> set control" and ?C = MEMPBRK_CACHE_SIZE
  show ?case
  proof (cases "n = 0")
    case True
    then show ?thesis by (simp add: kgl_mempbrk.simps)
  next
    case False
    have split: "take n str = take (min n ?C) str @ take (n - ?C) (drop ?C str)"
    proof (cases "n \<le> ?C")
      case False
      then have "take n str = take (?C + (n - ?C)) str" by simp
      then show ?thesis using False unfolding take_add by simp
    qed simp
    obtain n' hit where s: "search_controls str n None control = (n', hit)" by (cases "search_controls str n None control")
    with search_controls_first [of str n None control]
    have hit: "hit = first_pos ?P (take (min n ?C) str)" by (simp split: option.split)
    show ?thesis
    proof (cases hit)
      case None
      with s have n': "n' = n" by (simp add: search_controls_none)
      note IH = 1 [OF False s [symmetric] None]
      have "kgl_mempbrk str n control = map_option (\<lambda>p. p + ?C) (first_pos ?P (take (n - ?C) (drop ?C str)))"
        using s None False IH by (simp add: kgl_mempbrk.simps [of str n] n')
      moreover have "length (take (min n ?C) str) = ?C \<or> take (n - ?C) (drop ?C str) = []" by auto
      ultimately show ?thesis
        using None hit by (subst split) (auto simp: first_pos_append)
    next
      case (Some p)
      with s False show ?thesis
        by (subst split) (simp add: first_pos_append kgl_mempbrk.simps [of str n] hit [symmetric])
    qed
  qed
qed

lemma memcmp_zero: "memcmp h t (length t) = 0 \<longleftrightarrow> take (length t) h = t" if "length t \<le> length h"
  using that by (simp add: memcmp_def octet_diff_equal)

lemma kgl_mem_case_same_iff: "kgl_mem_case_same s t \<longleftrightarrow> kgl_strlow s = kgl_strlow t"
proof (cases "length s = length t")
  case True
  then show ?thesis by (simp add: kgl_mem_case_same_def kgl_casecmp_def octet_diff_equal kgl_strlow_def)
next
  case False
  then show ?thesis unfolding kgl_mem_case_same_def kgl_strlow_def by (metis length_map)
qed

lemma kgl_mem_same_iff: "kgl_mem_same s t \<longleftrightarrow> s = t"
  by (auto simp: kgl_mem_same_def memcmp_def octet_diff_equal)

lemma kgl_memstr_here: "kgl_memstr (needle @ rest) needle = Some 0"
  by (subst kgl_memstr.simps) (simp add: memcmp_zero)

section \<open>Properties\<close>

text \<open>
  The string comparisons that order the library's search trees are total orders:
  \<^verbatim>\<open>kgl_cmp\<close> identifies exactly equal strings, \<^verbatim>\<open>kgl_icmp\<close> exactly the strings that are equal up
  to case, exchanging the arguments flips the sign, and the orders are transitive.
\<close>

theorem comparisons_are_orders:
  "(kgl_cmp a b = 0 \<longleftrightarrow> a = b) \<and> (kgl_cmp a b < 0 \<longleftrightarrow> 0 < kgl_cmp b a) \<and>
   (kgl_cmp a b < 0 \<and> kgl_cmp b c < 0 \<longrightarrow> kgl_cmp a c < 0) \<and>
   (kgl_icmp a b = 0 \<longleftrightarrow> kgl_strlow a = kgl_strlow b) \<and> (kgl_icmp a b < 0 \<longleftrightarrow> 0 < kgl_icmp b a) \<and>
   (kgl_icmp a b < 0 \<and> kgl_icmp b c < 0 \<longrightarrow> kgl_icmp a c < 0)"
  by (intro conjI impI name_order.cmp_zero name_order.cmp_flip nocase_order.cmp_zero nocase_order.cmp_flip)
    (elim conjE, erule (1) name_order.cmp_trans, elim conjE, erule (1) nocase_order.cmp_trans)

theorem comparisons_are_orders_witness:
  "kgl_cmp [65] [66, 1] < 0 \<and> kgl_cmp [66, 1] [66, 2] < 0 \<and> kgl_cmp [65] [66, 2] < 0 \<and> kgl_icmp [97] [66] < 0"
proof -
  have "kgl_cmp [65] [66, 1] < 0" "kgl_cmp [66, 1] [66, 2] < 0" "kgl_icmp [97] [66] < 0"
    by (simp_all add: kgl_cmp_lex kgl_icmp_lex kgl_tolower_def)
  with comparisons_are_orders [of "[65]" "[66, 1]" "[66, 2]"] show ?thesis by blast
qed

text \<open>
  The blockwise search \<^verbatim>\<open>kgl_mempbrk\<close> returns the first position among the \<^verbatim>\<open>n\<close> octets whose
  character is in the control list, whatever the lengths.
\<close>

theorem mempbrk_is_first:
  "kgl_mempbrk str n control = first_pos (\<lambda>x. x \<in> set control) (take n str)"
  by (rule mempbrk_first)

end
