(* ===== verification/KBase64.thy ===== *)
theory KBase64
  imports KText
begin

unbundle bit_operations_syntax

text \<open>
  \<^verbatim>\<open>b64encode\<close> and \<^verbatim>\<open>b64decode\<close> of \<^verbatim>\<open>src/KHttpLib.cpp\<close>. The decoder looks at the octets behind the
  last group, so it has the readable memory as an argument beside the length, and a read outside
  it is a result of its own.
\<close>

section \<open>The model\<close>

definition b64alpha :: "byte list" where
  "b64alpha = bytes ''ABCDEFGHIJKLMNOPQRSTUVWXYZabcdefghijklmnopqrstuvwxyz0123456789+/''"

abbreviation B64PAD :: byte where
  "B64PAD \<equiv> 61"

text \<open>\<^verbatim>\<open>str_chr\<close>: the position of a character in a string, its length when the character is not there.\<close>

fun str_chr :: "byte list \<Rightarrow> byte \<Rightarrow> nat" where
  "str_chr [] c = 0"
| "str_chr (t # s) c = (if t = c then 0 else Suc (str_chr s c))"

fun b64_groups :: "byte list \<Rightarrow> byte list" where
  "b64_groups [] = []"
| "b64_groups [a] = [b64alpha ! unat (drop_bit 2 a), b64alpha ! unat (push_bit 4 (a AND 3)), B64PAD, B64PAD]"
| "b64_groups [a, b] =
     [b64alpha ! unat (drop_bit 2 a), b64alpha ! unat (push_bit 4 (a AND 3) OR drop_bit 4 b),
      b64alpha ! unat (push_bit 2 (b AND 15)), B64PAD]"
| "b64_groups (a # b # c # s) =
     [b64alpha ! unat (drop_bit 2 a), b64alpha ! unat (push_bit 4 (a AND 3) OR drop_bit 4 b),
      b64alpha ! unat (push_bit 2 (b AND 15) OR drop_bit 6 c), b64alpha ! unat (c AND 63)] @ b64_groups s"

text \<open>A length of zero means a string that ends in a zero octet.\<close>

definition b64encode :: "byte list \<Rightarrow> nat \<Rightarrow> byte list" where
  "b64encode mem len = b64_groups (if len = 0 then takeWhile (\<lambda>c. c \<noteq> 0) mem else take len mem)"

datatype b64_result = B64 "byte list" | B64_Bad | B64_Overrun

text \<open>The value of octet \<open>j\<close> of a group: 0 for padding and behind the end, \<open>None\<close> for a foreign character.\<close>

definition sextet :: "byte list \<Rightarrow> nat \<Rightarrow> nat \<Rightarrow> byte option" where
  "sextet mem l j = (
     if j < l \<and> mem ! j \<noteq> B64PAD then
       (let v = of_nat (str_chr b64alpha (mem ! j)) :: byte in if v > 63 then None else Some v)
     else Some 0)"

function b64_loop :: "byte list \<Rightarrow> nat \<Rightarrow> byte list \<Rightarrow> b64_result" where
  "b64_loop mem l out = (
     if l = 0 then B64 out
     else case (sextet mem l 0, sextet mem l 1, sextet mem l 2, sextet mem l 3) of
       (Some a0, Some a1, Some a2, Some a3) \<Rightarrow>
         let b0 = push_bit 2 a0 OR drop_bit 4 a1;
             b1 = push_bit 4 a1 OR drop_bit 2 a2;
             b2 = push_bit 6 a2 OR a3
         in if length mem \<le> 1 then B64_Overrun
            else if mem ! 1 = B64PAD then B64 (out @ [b0])
            else if length mem \<le> 2 then B64_Overrun
            else if mem ! 2 = B64PAD then B64 (out @ [b0, b1])
            else b64_loop (drop 4 mem) (l - 4) (out @ [b0, b1, b2])
     | _ \<Rightarrow> B64_Bad)"
  by pat_completeness auto
termination
  by (relation "measure (\<lambda>(mem, l, out). l)") auto

declare b64_loop.simps [simp del]

text \<open>Zero octets at the end of the result are cut off.\<close>

definition strip_zeros :: "byte list \<Rightarrow> byte list" where
  "strip_zeros out = rev (dropWhile (\<lambda>c. c = 0) (rev out))"

definition b64decode :: "byte list \<Rightarrow> int \<Rightarrow> b64_result" where
  "b64decode mem l = (
     let l = (if l \<le> 0 then length (takeWhile (\<lambda>c. c \<noteq> 0) mem) else nat l)
     in case b64_loop mem l [] of B64 out \<Rightarrow> B64 (strip_zeros out) | r \<Rightarrow> r)"

section \<open>Decoding undoes encoding\<close>

lemma alpha_facts: "\<forall>n < 64. str_chr b64alpha (b64alpha ! n) = n \<and> b64alpha ! n \<noteq> B64PAD"
proof -
  have "list_all (\<lambda>n. str_chr b64alpha (b64alpha ! n) = n \<and> b64alpha ! n \<noteq> B64PAD) [0..<64]"
    by code_simp
  then show ?thesis by (simp add: list_all_iff)
qed

lemma sextet_alpha:
  assumes "unat v < 64" "j < l" "mem ! j = b64alpha ! unat v"
  shows "sextet mem l j = Some v"
proof -
  have "str_chr b64alpha (b64alpha ! unat v) = unat v" "b64alpha ! unat v \<noteq> B64PAD"
    using alpha_facts assms(1) by blast+
  moreover have "\<not> v > 63" using assms(1) by (simp add: word_less_nat_alt)
  ultimately show ?thesis using assms by (simp add: sextet_def)
qed

lemma sextet_pad: "mem ! j = B64PAD \<Longrightarrow> sextet mem l j = Some 0"
  by (simp add: sextet_def)

lemma byte_bits: "(a :: byte) = b \<longleftrightarrow> (\<forall>n \<in> {0, 1, 2, 3, 4, 5, 6, 7}. bit a n = bit b n)"
proof
  assume r: "\<forall>n \<in> {0, 1, 2, 3, 4, 5, 6, 7}. bit a n = bit b n"
  show "a = b"
  proof (rule bit_word_eqI)
    fix n assume "n < LENGTH(8)"
    then have "n \<in> {0, 1, 2, 3, 4, 5, 6, 7}" unfolding insert_iff empty_iff by simp presburger
    with r show "bit a n = bit b n" by blast
  qed
qed simp

lemma regroup:
  fixes a b c :: byte
  shows "push_bit 2 (drop_bit 2 a) OR drop_bit 4 (push_bit 4 (a AND 3) OR drop_bit 4 b) = a"
    and "push_bit 2 (drop_bit 2 a) OR drop_bit 4 (push_bit 4 (a AND 3)) = a"
    and "push_bit 4 (push_bit 4 (a AND 3) OR drop_bit 4 b) OR drop_bit 2 (push_bit 2 (b AND 15) OR drop_bit 6 c) = b"
    and "push_bit 4 (push_bit 4 (a AND 3) OR drop_bit 4 b) OR drop_bit 2 (push_bit 2 (b AND 15)) = b"
    and "push_bit 6 (push_bit 2 (b AND 15) OR drop_bit 6 c) OR (c AND 63) = c"
  unfolding byte_bits by (simp_all add: bit_simps) (simp_all add: numeral_2_eq_2 numeral_3_eq_3)

lemma sextet_bounds:
  fixes a b c :: byte
  shows "unat (drop_bit 2 a) < 64" "unat (push_bit 4 (a AND 3) OR drop_bit 4 b) < 64"
    "unat (push_bit 4 (a AND 3)) < 64"
    "unat (push_bit 2 (b AND 15) OR drop_bit 6 c) < 64" "unat (push_bit 2 (b AND 15)) < 64" "unat (c AND 63) < 64"
proof -
  have *: "unat v < 64" if "\<not> bit v 6" "\<not> bit v 7" for v :: byte
  proof -
    have "v = v AND 63" using that unfolding byte_bits by (simp add: bit_simps)
    then have "unat v = unat (v AND (2 ^ 6 - 1))" by simp
    also have "\<dots> = unat v mod 2 ^ 6" by (rule unat_and_mask)
    finally show ?thesis by simp
  qed
  have high: "\<not> bit v n" if "8 \<le> n" for v :: byte and n
    using that bit_imp_le_length [of v n] by auto
  show "unat (drop_bit 2 a) < 64" "unat (push_bit 4 (a AND 3) OR drop_bit 4 b) < 64"
    "unat (push_bit 4 (a AND 3)) < 64"
    "unat (push_bit 2 (b AND 15) OR drop_bit 6 c) < 64" "unat (push_bit 2 (b AND 15)) < 64" "unat (c AND 63) < 64"
    by (rule *; simp add: bit_simps high)+
qed

lemma alpha_not_pad: "unat v < 64 \<Longrightarrow> b64alpha ! unat v \<noteq> B64PAD"
  using alpha_facts by blast

lemma loop_four:
  assumes "unat v0 < 64" "unat v1 < 64" "unat v2 < 64" "unat v3 < 64"
  shows "b64_loop (b64alpha ! unat v0 # b64alpha ! unat v1 # b64alpha ! unat v2 # b64alpha ! unat v3 # r) (Suc (Suc (Suc (Suc n)))) out =
    b64_loop r n (out @ [push_bit 2 v0 OR drop_bit 4 v1, push_bit 4 v1 OR drop_bit 2 v2, push_bit 6 v2 OR v3])"
  using assms alpha_not_pad [of v1] alpha_not_pad [of v2]
  by (subst b64_loop.simps)
    (simp add: sextet_alpha [of v0] sextet_alpha [of v1] sextet_alpha [of v2] sextet_alpha [of v3] Let_def numeral_eq_Suc)

lemma loop_three:
  assumes "unat v0 < 64" "unat v1 < 64" "unat v2 < 64"
  shows "b64_loop [b64alpha ! unat v0, b64alpha ! unat v1, b64alpha ! unat v2, B64PAD] (Suc (Suc (Suc (Suc 0)))) out =
    B64 (out @ [push_bit 2 v0 OR drop_bit 4 v1, push_bit 4 v1 OR drop_bit 2 v2, push_bit 6 v2])"
proof -
  have "b64_loop [] 0 o' = B64 o'" for o' by (simp add: b64_loop.simps)
  then show ?thesis
    using assms alpha_not_pad [of v1] alpha_not_pad [of v2]
    by (subst b64_loop.simps)
      (simp add: sextet_alpha [of v0] sextet_alpha [of v1] sextet_alpha [of v2] sextet_pad Let_def numeral_eq_Suc)
qed

lemma loop_two:
  assumes "unat v0 < 64" "unat v1 < 64"
  shows "b64_loop [b64alpha ! unat v0, b64alpha ! unat v1, B64PAD, B64PAD] (Suc (Suc (Suc (Suc 0)))) out =
    B64 (out @ [push_bit 2 v0 OR drop_bit 4 v1, push_bit 4 v1])"
  using assms alpha_not_pad [of v1]
  by (subst b64_loop.simps)
    (simp add: sextet_alpha [of v0] sextet_alpha [of v1] sextet_pad Let_def numeral_eq_Suc)

lemma shifted_out: "push_bit 4 (push_bit 4 (a AND 3)) = (0 :: byte)" "push_bit 6 (push_bit 2 (b AND 15)) = (0 :: byte)"
  unfolding byte_bits by (simp_all add: bit_simps)

text \<open>A last group that is not full leaves one zero octet behind the data.\<close>

lemma b64_loop_groups:
  "\<exists>k. b64_loop (b64_groups s) (length (b64_groups s)) out = B64 (out @ s @ replicate k 0)"
proof (induction s arbitrary: out rule: b64_groups.induct)
  case 1
  have "b64_loop [] 0 out = B64 (out @ replicate 0 0)" by (simp add: b64_loop.simps)
  then show ?case by (auto simp only: b64_groups.simps list.size append_Nil)
next
  case (2 a)
  have "b64_loop (b64_groups [a]) (length (b64_groups [a])) out = B64 (out @ [a] @ replicate 1 0)"
    by (simp only: b64_groups.simps list.size add_0_right add_Suc_right loop_two sextet_bounds regroup shifted_out
        replicate_Suc One_nat_def replicate_0 append.simps)
  then show ?case by blast
next
  case (3 a b)
  have "b64_loop (b64_groups [a, b]) (length (b64_groups [a, b])) out = B64 (out @ [a, b] @ replicate 1 0)"
    by (simp only: b64_groups.simps list.size add_0_right add_Suc_right loop_three sextet_bounds regroup shifted_out
        replicate_Suc One_nat_def replicate_0 append.simps)
  then show ?case by blast
next
  case (4 a b c s)
  obtain k where "b64_loop (b64_groups s) (length (b64_groups s)) (out @ [a, b, c]) = B64 ((out @ [a, b, c]) @ s @ replicate k 0)"
    using 4 by blast
  then have "b64_loop (b64_groups (a # b # c # s)) (length (b64_groups (a # b # c # s))) out =
      B64 (out @ (a # b # c # s) @ replicate k 0)"
    by (simp only: b64_groups.simps append.simps list.size add_0_right add_Suc_right loop_four sextet_bounds regroup append_assoc)
  then show ?case by blast
qed

lemma strip_zeros_append: "strip_zeros (s @ replicate k 0) = strip_zeros s"
  by (simp add: strip_zeros_def dropWhile_append)

section \<open>Properties\<close>

text \<open>
  C35: decoding the Base64 encoding of a non-empty octet string gives the string back, except for
  zero octets at its end, which the decoder cuts off; no octet outside the encoding is read. Lengths are
  numbers: an encoding of 2^30 octets and more, where \<^verbatim>\<open>2 * (*l) + 2\<close> leaves \<^verbatim>\<open>int\<close>, is not looked at.
\<close>

theorem b64_roundtrip:
  assumes "s \<noteq> []"
  shows "b64decode (b64encode s (length s)) (int (length (b64encode s (length s)))) = B64 (strip_zeros s)"
proof -
  have "b64encode s (length s) = b64_groups s" using assms by (simp add: b64encode_def)
  moreover have "length (b64_groups s) \<noteq> 0" using assms by (cases s rule: b64_groups.cases) simp_all
  moreover obtain k where "b64_loop (b64_groups s) (length (b64_groups s)) [] = B64 (s @ replicate k 0)"
    using b64_loop_groups [of s "[]"] by auto
  ultimately show ?thesis by (simp add: b64decode_def strip_zeros_append)
qed

theorem b64_roundtrip_witness:
  "b64decode (b64encode [77, 0, 255] 3) (int (length (b64encode [77, 0, 255] 3))) = B64 [77, 0, 255]"
  using b64_roundtrip [of "[77, 0, 255]"] by (simp add: strip_zeros_def numeral_3_eq_3)

text \<open>A length that is no multiple of four makes the decoder look for padding behind the string and its terminator.\<close>

lemma b64_short_overrun: "b64decode [65, 0] 1 = B64_Overrun"
  by code_simp

end
