(* ===== verification/KUrl.thy ===== *)
theory KUrl
  imports KText KPrintf
begin

unbundle bit_operations_syntax

text \<open>
  URLs: the escaping functions and the parser of \<^verbatim>\<open>src/KHttpLib.cpp\<close> and the printer of
  \<^verbatim>\<open>include/KUrl.h\<close>. A C string is the list of its octets without the terminator.
\<close>

section \<open>Escaping\<close>

definition hexchars :: "byte list" where
  "hexchars = bytes ''0123456789ABCDEF''"

definition put_escaped :: "byte \<Rightarrow> byte list" where
  "put_escaped c = [37, hexchars ! unat (drop_bit 4 c), hexchars ! unat (c AND 15)]"

definition encode_octet :: "byte \<Rightarrow> byte list" where
  "encode_octet c = (
     if c = 47 then [c]
     else if c < 48 \<and> c \<noteq> 45 \<and> c \<noteq> 46 \<or> c < 65 \<and> c > 57 \<or> c > 90 \<and> c < 97 \<and> c \<noteq> 95 \<or> c > 122 \<or> c = 92
     then put_escaped c else [c])"

definition url_encode :: "byte list \<Rightarrow> byte list" where
  "url_encode s = concat (map encode_octet s)"

definition url_value_encode :: "byte list \<Rightarrow> byte list" where
  "url_value_encode s = concat (map (\<lambda>c. if c = 47 then [c] else if c \<ge> 128 then put_escaped c else [c]) s)"

definition isxdigit :: "byte \<Rightarrow> bool" where
  "isxdigit c \<longleftrightarrow> 48 \<le> c \<and> c \<le> 57 \<or> 65 \<le> c \<and> c \<le> 70 \<or> 97 \<le> c \<and> c \<le> 102"

definition nibble :: "byte \<Rightarrow> int" where
  "nibble c = (
     let c = (if 65 \<le> c \<and> c \<le> 90 then c + 32 else c)
     in if 48 \<le> c \<and> c \<le> 57 then uint c - 48 else uint c - 97 + 10)"

definition my_htoi :: "byte \<Rightarrow> byte \<Rightarrow> int" where
  "my_htoi a b = nibble a * 16 + nibble b"

text \<open>
  \<^verbatim>\<open>url_decode\<close> writes the result over its input, never ahead of what it still reads. It returns
  the result and whether anything was decoded, which sets \<^verbatim>\<open>KGL_URL_ENCODE\<close>.
\<close>

fun url_decode :: "bool \<Rightarrow> byte list \<Rightarrow> byte list \<times> bool" where
  "url_decode space2plus [] = ([], False)"
| "url_decode space2plus (c # data) = (
     if space2plus \<and> c = 43 then (32 # fst (url_decode space2plus data), True)
     else case data of
       a # b # data' \<Rightarrow>
         if c = 37 \<and> isxdigit a \<and> isxdigit b then (of_int (my_htoi a b) # fst (url_decode space2plus data'), True)
         else (case url_decode space2plus data of (r, e) \<Rightarrow> (c # r, e))
     | _ \<Rightarrow> (case url_decode space2plus data of (r, e) \<Rightarrow> (c # r, e)))"

section \<open>Parsing\<close>

record kgl_url =
  u_host :: "byte list option"
  u_path :: "byte list option"
  u_param :: "byte list option"
  u_port :: "16 word"
  u_flags :: "16 word"

abbreviation KGL_URL_SSL :: "16 word" where "KGL_URL_SSL \<equiv> 1"
abbreviation KGL_URL_IPV6 :: "16 word" where "KGL_URL_IPV6 \<equiv> 2"
abbreviation KGL_URL_ENCODE :: "16 word" where "KGL_URL_ENCODE \<equiv> 32"
abbreviation KGL_URL_ORIG_SSL :: "16 word" where "KGL_URL_ORIG_SSL \<equiv> 64"
abbreviation KGL_URL_HAS_PORT :: "16 word" where "KGL_URL_HAS_PORT \<equiv> 128"

text \<open>
  The outcome: the parser's value with the URL it left behind, or \<open>Url_Undef\<close> when the number of
  the port overflows the \<^verbatim>\<open>int\<close> of \<^verbatim>\<open>kgl_atoi\<close>, or an assertion fails that a part of the URL is not set
  yet. \<open>kgl_strndup\<close> is a copy up to a zero octet.
\<close>

datatype url_result = Url bool kgl_url | Url_Undef

definition kgl_strndup :: "byte list \<Rightarrow> byte list" where
  "kgl_strndup s = takeWhile (\<lambda>c. c \<noteq> 0) s"

definition set_port :: "byte list \<Rightarrow> kgl_url \<Rightarrow> (kgl_url \<Rightarrow> url_result) \<Rightarrow> url_result" where
  "set_port digits url k = (
     case kgl_atoi digits of None \<Rightarrow> Url_Undef | Some n \<Rightarrow> k (url\<lparr>u_port := of_int n\<rparr>))"

definition finish_host :: "byte list \<Rightarrow> bool \<Rightarrow> kgl_url \<Rightarrow> url_result" where
  "finish_host host has_port url = (
     let url = url\<lparr>u_host := Some (kgl_strndup host)\<rparr>
     in Url True (if \<not> has_port then url\<lparr>u_port := (if u_flags url AND KGL_URL_ORIG_SSL \<noteq> 0 then 443 else 80)\<rparr>
                  else url\<lparr>u_flags := u_flags url OR KGL_URL_HAS_PORT\<rparr>))"

definition parse_url_host :: "kgl_url \<Rightarrow> byte list \<Rightarrow> url_result" where
  "parse_url_host url val = (
     if u_host url \<noteq> None then Url_Undef
     else if val \<noteq> [] \<and> hd val = 91 then
       (let url = url\<lparr>u_flags := u_flags url OR KGL_URL_IPV6\<rparr>; val = tl val in
        case memchr val 93 of
          None \<Rightarrow> Url False url
        | Some host_len \<Rightarrow>
            (case memchr (drop host_len val) 58 of
               Some port \<Rightarrow> set_port (drop (host_len + port + 1) val) url (finish_host (take host_len val) True)
             | None \<Rightarrow> finish_host (take host_len val) False url))
     else
       (case memchr val 58 of
          Some len \<Rightarrow> set_port (drop (len + 1) val) url (finish_host (take len val) True)
        | None \<Rightarrow> finish_host val False url))"

definition parse_path :: "byte list \<Rightarrow> kgl_url \<Rightarrow> url_result" where
  "parse_path path url = (
     case memchr path 63 of
       Some path_len \<Rightarrow>
         (let param = kgl_strndup (drop (path_len + 1) path);
              url' = (if param \<noteq> [] then url\<lparr>u_param := Some param\<rparr> else url)
          in if u_param url \<noteq> None \<or> u_path url \<noteq> None then Url_Undef
             else Url True (url'\<lparr>u_path := Some (kgl_strndup (take path_len path))\<rparr>))
     | None \<Rightarrow>
         if u_path url \<noteq> None then Url_Undef
         else Url True (url\<lparr>u_path := Some (kgl_strndup path)\<rparr>))"

text \<open>The scheme sets or clears the flag of a secure request; other schemes leave it.\<close>

definition scheme_flags :: "byte list \<Rightarrow> kgl_url \<Rightarrow> kgl_url" where
  "scheme_flags scheme url = (
     if kgl_mem_case_same scheme (bytes ''http'') then url\<lparr>u_flags := u_flags url AND NOT KGL_URL_ORIG_SSL\<rparr>
     else if kgl_mem_case_same scheme (bytes ''https'') then url\<lparr>u_flags := u_flags url OR KGL_URL_ORIG_SSL\<rparr>
     else url)"

definition parse_url :: "byte list \<Rightarrow> kgl_url \<Rightarrow> url_result" where
  "parse_url src url = (
     if src = [] then Url False url
     else if hd src = 47 \<or> hd src = 42 then parse_path src url
     else case kgl_memstr src (bytes ''://'') of
       None \<Rightarrow> Url False url
     | Some p_len \<Rightarrow>
         let url = scheme_flags (take p_len src) url; host = drop (p_len + 3) src in
         (case memchr host 47 of
            None \<Rightarrow> Url False url
          | Some host_len \<Rightarrow>
              (case parse_url_host url (take host_len host) of
                 Url True url \<Rightarrow> parse_path (drop host_len host) url
               | r \<Rightarrow> r)))"

section \<open>Printing\<close>

definition build_url_host_port :: "kgl_url \<Rightarrow> byte list \<Rightarrow> byte list" where
  "build_url_host_port url host = (
     (if u_flags url AND KGL_URL_IPV6 \<noteq> 0 then [91] @ host @ [93] else host) @
     (if u_flags url AND KGL_URL_HAS_PORT \<noteq> 0 then [58] @ decimal (unat (u_port url)) else []))"

definition GetPath :: "kgl_url \<Rightarrow> byte list \<Rightarrow> bool \<Rightarrow> byte list" where
  "GetPath url path urlEncode = (
     (if urlEncode then url_encode path else path) @
     (case u_param url of
        None \<Rightarrow> []
      | Some param \<Rightarrow> if param = [] then [] else [63] @ (if urlEncode then url_value_encode param else param)))"

definition GetUrl :: "kgl_url \<Rightarrow> bool \<Rightarrow> byte list option" where
  "GetUrl url urlEncode = (
     case (u_host url, u_path url) of
       (Some host, Some path) \<Rightarrow>
         Some ((if u_flags url AND KGL_URL_SSL \<noteq> 0 then bytes ''https://'' else bytes ''http://'') @
               build_url_host_port url host @ GetPath url path urlEncode)
     | _ \<Rightarrow> None)"

section \<open>Decoding undoes encoding\<close>

lemma hexchars_facts:
  "\<forall>n < 16. isxdigit (hexchars ! n) \<and> nibble (hexchars ! n) = int n \<and> hexchars ! n \<noteq> 37 \<and> hexchars ! n \<noteq> 43"
proof -
  have "list_all (\<lambda>n. isxdigit (hexchars ! n) \<and> nibble (hexchars ! n) = int n \<and> hexchars ! n \<noteq> 37 \<and> hexchars ! n \<noteq> 43) [0..<16]"
    by code_simp
  then show ?thesis by (simp add: list_all_iff)
qed

lemma url_decode_escaped: "url_decode sp (put_escaped c @ data) = (c # fst (url_decode sp data), True)"
proof -
  have d: "unat (drop_bit 4 c) = unat c div 16" unfolding unat_drop_bit_eq by (simp add: drop_bit_eq_div)
  have m: "unat (c AND 15) = unat c mod 16" using unat_and_mask [of c 4] by simp
  have b: "unat (drop_bit 4 c) < 16" "unat (c AND 15) < 16" unfolding d m using byte_less_256 [of c] by (simp_all add: less_mult_imp_div_less)
  have n: "nibble (hexchars ! unat (drop_bit 4 c)) = int (unat c div 16)" "nibble (hexchars ! unat (c AND 15)) = int (unat c mod 16)"
    using hexchars_facts b d m by simp_all
  have "my_htoi (hexchars ! unat (drop_bit 4 c)) (hexchars ! unat (c AND 15)) = int (unat c div 16 * 16 + unat c mod 16)"
    unfolding my_htoi_def n by (simp only: of_nat_add of_nat_mult of_nat_numeral)
  also have "\<dots> = uint c" unfolding div_mult_mod_eq by (rule of_nat_unat)
  finally have "of_int (my_htoi (hexchars ! unat (drop_bit 4 c)) (hexchars ! unat (c AND 15))) = c" by simp
  moreover have "isxdigit (hexchars ! unat (drop_bit 4 c))" "isxdigit (hexchars ! unat (c AND 15))"
    using hexchars_facts b by blast+
  ultimately show ?thesis by (simp add: put_escaped_def)
qed

lemma url_decode_plain: "c \<noteq> 37 \<Longrightarrow> c \<noteq> 43 \<Longrightarrow> fst (url_decode sp (c # data)) = c # fst (url_decode sp data)"
  by (cases data rule: remdups_adj.cases) (auto split: prod.split)

lemma url_decode_encode: "fst (url_decode sp (url_encode s)) = s"
proof (induction s)
  case Nil
  then show ?case by (simp add: url_encode_def)
next
  case (Cons c s)
  have "fst (url_decode sp (encode_octet c @ url_encode s)) = c # fst (url_decode sp (url_encode s))"
    by (cases "c = 37"; cases "c = 43")
      (simp_all add: encode_octet_def url_decode_escaped url_decode_plain del: url_decode.simps)
  with Cons show ?case by (simp add: url_encode_def)
qed

section \<open>Parsing undoes printing\<close>

definition url0 :: kgl_url where
  "url0 = \<lparr>u_host = None, u_path = None, u_param = None, u_port = 0, u_flags = 0\<rparr>"

lemma memchr_prefix: "c \<notin> set s \<Longrightarrow> memchr (s @ c # t) c = Some (length s)"
  by (induction s) auto

lemma memchr_absent: "c \<notin> set s \<Longrightarrow> memchr s c = None"
  by (auto simp: first_pos_None)

lemma strndup_id: "0 \<notin> set s \<Longrightarrow> kgl_strndup s = s"
  unfolding kgl_strndup_def by (rule takeWhile_eq_all_conv [THEN iffD2]) auto

lemma atoi_port: "kgl_atoi (decimal (unat (p :: 16 word))) = Some (int (unat p))"
proof -
  have "unat p < 2 ^ 16" using unsigned_less [of p, where ?'a = nat] by simp
  then have "int (unat p) < int (2 ^ 16)" by (simp only: of_nat_less_iff)
  then have "int (unat p) \<le> 2 ^ 31 - 1" by simp
  then show ?thesis unfolding kgl_atoi_def by (rule atoi_decimal)
qed

lemma decimal_no_delims: "58 \<notin> set (decimal n)" "47 \<notin> set (decimal n)" "93 \<notin> set (decimal n)" "0 \<notin> set (decimal n)"
  using decimal_octets [of 58 n] decimal_octets [of 47 n] decimal_octets [of 93 n] decimal_octets [of 0 n] by auto

text \<open>What a host may look like: a name, or an IPv6 address when the flag says so.\<close>

definition host_ok :: "kgl_url \<Rightarrow> byte list \<Rightarrow> bool" where
  "host_ok u h \<longleftrightarrow> 47 \<notin> set h \<and> 0 \<notin> set h \<and>
     (if u_flags u AND KGL_URL_IPV6 \<noteq> 0 then 93 \<notin> set h else 58 \<notin> set h \<and> (h = [] \<or> hd h \<noteq> 91))"

definition host_parsed :: "kgl_url \<Rightarrow> byte list \<Rightarrow> kgl_url \<Rightarrow> kgl_url" where
  "host_parsed u h url = (
     let url = (if u_flags u AND KGL_URL_IPV6 \<noteq> 0 then url\<lparr>u_flags := u_flags url OR KGL_URL_IPV6\<rparr> else url);
         url = url\<lparr>u_host := Some h\<rparr>
     in if u_flags u AND KGL_URL_HAS_PORT \<noteq> 0
        then url\<lparr>u_port := u_port u, u_flags := u_flags url OR KGL_URL_HAS_PORT\<rparr>
        else url\<lparr>u_port := (if u_flags url AND KGL_URL_ORIG_SSL \<noteq> 0 then 443 else 80)\<rparr>)"

lemma parse_host_printed:
  assumes "host_ok u h" "u_host url = None"
  shows "parse_url_host url (build_url_host_port u h) = Url True (host_parsed u h url)"
proof (cases "u_flags u AND KGL_URL_IPV6 \<noteq> 0")
  case True
  with assms(1) have h: "93 \<notin> set h" "0 \<notin> set h" by (simp_all add: host_ok_def)
  then show ?thesis
    using True assms(2) memchr_prefix [OF h(1)] memchr_prefix [of 58 "[93]"]
    by (cases "u_flags u AND KGL_URL_HAS_PORT \<noteq> 0")
      (simp_all add: build_url_host_port_def parse_url_host_def host_parsed_def Let_def set_port_def atoi_port finish_host_def
        strndup_id memchr_absent)
next
  case False
  with assms(1) have h: "58 \<notin> set h" "0 \<notin> set h" "h = [] \<or> hd h \<noteq> 91" by (simp_all add: host_ok_def)
  show ?thesis
    using False h assms(2) memchr_prefix [OF h(1)]
    by (cases h; cases "u_flags u AND KGL_URL_HAS_PORT \<noteq> 0")
      (simp_all add: build_url_host_port_def parse_url_host_def host_parsed_def Let_def set_port_def atoi_port finish_host_def
        strndup_id memchr_absent)
qed

lemma host_no_slash: "host_ok u h \<Longrightarrow> 47 \<notin> set (build_url_host_port u h)"
  using decimal_no_delims by (auto simp: host_ok_def build_url_host_port_def)

lemma parse_path_printed:
  assumes "63 \<notin> set path" "0 \<notin> set path" "u_param u = None \<or> (\<exists>q. u_param u = Some q \<and> q \<noteq> [] \<and> 0 \<notin> set q)"
    and "u_param url = None" "u_path url = None"
  shows "parse_path (GetPath u path False) url = Url True (url\<lparr>u_path := Some path, u_param := u_param u\<rparr>)"
  using assms memchr_prefix [OF assms(1)]
  by (auto simp: parse_path_def GetPath_def memchr_absent strndup_id Let_def)

lemma memstr_Cons:
  assumes "length needle \<le> length (c # p)"
  shows "kgl_memstr (c # p) needle =
    (if take (length needle) (c # p) = needle then Some 0 else map_option Suc (kgl_memstr p needle))"
  using assms by (subst kgl_memstr.simps) (simp add: memcmp_zero)

lemma parse_scheme:
  "kgl_memstr (bytes ''http://'' @ r) (bytes ''://'') = Some 4"
  "kgl_memstr (bytes ''https://'' @ r) (bytes ''://'') = Some 5"
  by (simp_all add: bytes_def of_char_def memstr_Cons)

lemma url_reparsed:
  assumes "u_host u = Some h" "u_path u = Some (47 # p)" "host_ok u h" "63 \<notin> set p" "0 \<notin> set p"
    and "u_param u = None \<or> (\<exists>q. u_param u = Some q \<and> q \<noteq> [] \<and> 0 \<notin> set q)"
  shows "\<exists>txt. GetUrl u False = Some txt \<and>
    parse_url txt url0 = Url True
      ((host_parsed u h (url0\<lparr>u_flags := if u_flags u AND KGL_URL_SSL \<noteq> 0 then KGL_URL_ORIG_SSL else 0\<rparr>))
       \<lparr>u_path := Some (47 # p), u_param := u_param u\<rparr>)"
proof -
  let ?f = "if u_flags u AND KGL_URL_SSL \<noteq> 0 then KGL_URL_ORIG_SSL else 0 :: 16 word"
  let ?rest = "build_url_host_port u h @ GetPath u (47 # p) False"
  let ?url = "url0\<lparr>u_flags := ?f\<rparr>"
  have gp: "GetPath u (47 # p) False = 47 # tl (GetPath u (47 # p) False)" by (simp add: GetPath_def)
  have slash: "memchr ?rest 47 = Some (length (build_url_host_port u h))"
    using memchr_prefix [OF host_no_slash [OF assms(3)]] gp by metis
  have path: "parse_path (GetPath u (47 # p) False) (host_parsed u h ?url) =
      Url True ((host_parsed u h ?url)\<lparr>u_path := Some (47 # p), u_param := u_param u\<rparr>)"
    using assms(4-6) by (intro parse_path_printed) (auto simp: host_parsed_def Let_def url0_def)
  have scheme: "scheme_flags (bytes ''http'') url0 = url0\<lparr>u_flags := 0\<rparr>"
    "scheme_flags (bytes ''https'') url0 = url0\<lparr>u_flags := KGL_URL_ORIG_SSL\<rparr>"
    by (simp_all add: scheme_flags_def kgl_mem_case_same_def bytes_def kgl_casecmp_def url0_def)
  have none: "u_host (url0\<lparr>u_flags := f\<rparr>) = None" for f by (simp add: url0_def)
  have "parse_url ((if u_flags u AND KGL_URL_SSL \<noteq> 0 then bytes ''https://'' else bytes ''http://'') @ ?rest) url0 =
      Url True ((host_parsed u h ?url)\<lparr>u_path := Some (47 # p), u_param := u_param u\<rparr>)"
    using scheme parse_scheme [of ?rest] slash path parse_host_printed [OF assms(3) none]
    by (cases "u_flags u AND KGL_URL_SSL \<noteq> 0") (simp_all add: parse_url_def bytes_def of_char_def Let_def)
  moreover have "GetUrl u False = Some ((if u_flags u AND KGL_URL_SSL \<noteq> 0 then bytes ''https://'' else bytes ''http://'') @ ?rest)"
    using assms(1,2) by (simp add: GetUrl_def)
  ultimately show ?thesis by blast
qed

lemma one_flag:
  fixes w :: "16 word"
  assumes "w AND 2 ^ k \<noteq> 0" shows "w AND 2 ^ k = 2 ^ k"
proof -
  have "bit w k" using assms by (simp add: and_exp_eq_0_iff_not_bit)
  then show ?thesis by (intro bit_word_eqI) (auto simp: bit_simps)
qed

lemma printed_flags:
  fixes w :: "16 word"
  shows "w AND 130 = (if w AND 2 \<noteq> 0 then 2 else 0) OR (if w AND 128 \<noteq> 0 then 128 else 0)"
proof -
  have "(130 :: 16 word) = 2 OR 128" by simp
  then have "w AND 130 = w AND 2 OR w AND 128" by (simp only: bit.conj_disj_distrib)
  moreover have "w AND 2 = 2" if "w AND 2 \<noteq> 0" using one_flag [of w 1] that by simp
  moreover have "w AND 128 = 128" if "w AND 128 \<noteq> 0" using one_flag [of w 7] that by simp
  ultimately show ?thesis by (cases "w AND 2 = 0"; cases "w AND 128 = 0") simp_all
qed

lemma host_parsed_flags:
  "(host_parsed u h (url0\<lparr>u_flags := if u_flags u AND KGL_URL_SSL \<noteq> 0 then KGL_URL_ORIG_SSL else 0\<rparr>))
     \<lparr>u_path := Some (47 # p), u_param := u_param u\<rparr> =
   \<lparr>u_host = Some h, u_path = Some (47 # p), u_param = u_param u,
      u_port = (if u_flags u AND KGL_URL_HAS_PORT \<noteq> 0 then u_port u else if u_flags u AND KGL_URL_SSL \<noteq> 0 then 443 else 80),
      u_flags = (if u_flags u AND KGL_URL_SSL \<noteq> 0 then KGL_URL_ORIG_SSL else 0) OR
        (u_flags u AND (KGL_URL_IPV6 OR KGL_URL_HAS_PORT))\<rparr>"
proof -
  have "KGL_URL_IPV6 OR KGL_URL_HAS_PORT = 130" by simp
  then show ?thesis
    by (cases "u_flags u AND KGL_URL_IPV6 = 0"; cases "u_flags u AND KGL_URL_HAS_PORT = 0"; cases "u_flags u AND KGL_URL_SSL = 0";
        simp only: printed_flags) (simp_all add: host_parsed_def url0_def)
qed

section \<open>Properties\<close>

text \<open>
  Decoding an escaped string gives the string back, whatever octets it has and whether or not
  a plus sign stands for a space.
\<close>

theorem url_encode_roundtrip: "fst (url_decode space2plus (url_encode s)) = s"
  by (rule url_decode_encode)

text \<open>
  C30: what a printed URL keeps. For a host without slash and zero octets (an IPv6
  address without a closing bracket, another host without a colon and not starting with an opening
  bracket), a path that starts with a slash and a non-empty parameter string, \<^verbatim>\<open>parse_url\<close> of the text
  \<^verbatim>\<open>GetUrl\<close> writes gives the host, the path and the parameters back, the flags of an IPv6 address and of an explicit
  port, and the port if that flag is set; without it the port becomes the one of the scheme. The flag of a secure
  connection comes back as the flag of a secure original request; the latter alone is not printed, so it is lost, as
  every other flag.
\<close>

theorem url_roundtrip:
  assumes "u_host u = Some h" "u_path u = Some (47 # p)" "host_ok u h" "63 \<notin> set p" "0 \<notin> set p"
    and "u_param u = None \<or> (\<exists>q. u_param u = Some q \<and> q \<noteq> [] \<and> 0 \<notin> set q)"
  shows "\<exists>txt. GetUrl u False = Some txt \<and>
    parse_url txt url0 = Url True \<lparr>u_host = Some h, u_path = Some (47 # p), u_param = u_param u,
      u_port = (if u_flags u AND KGL_URL_HAS_PORT \<noteq> 0 then u_port u else if u_flags u AND KGL_URL_SSL \<noteq> 0 then 443 else 80),
      u_flags = (if u_flags u AND KGL_URL_SSL \<noteq> 0 then KGL_URL_ORIG_SSL else 0) OR
        (u_flags u AND (KGL_URL_IPV6 OR KGL_URL_HAS_PORT))\<rparr>"
  using url_reparsed [OF assms] by (simp only: host_parsed_flags)

theorem url_roundtrip_witness:
  "\<exists>txt. GetUrl \<lparr>u_host = Some [58, 58, 49], u_path = Some [47, 97], u_param = Some [98], u_port = 8080, u_flags = 130\<rparr> False = Some txt \<and>
    parse_url txt url0 = Url True
      \<lparr>u_host = Some [58, 58, 49], u_path = Some [47, 97], u_param = Some [98], u_port = 8080, u_flags = 130\<rparr>"
  using url_roundtrip [of "\<lparr>u_host = Some [58, 58, 49], u_path = Some [47, 97], u_param = Some [98], u_port = 8080, u_flags = 130\<rparr>" "[58, 58, 49]" "[97]"]
  by (simp add: host_ok_def)

text \<open>A second path fails an assertion.\<close>

lemma second_path_aborts: "u_path url \<noteq> None \<Longrightarrow> hd src = 47 \<Longrightarrow> src \<noteq> [] \<Longrightarrow> parse_url src url = Url_Undef"
  by (simp add: parse_url_def parse_path_def split: option.split)

end
