(* ===== verification/KHeaderList.thy ===== *)
theory KHeaderList
  imports KText
begin

text \<open>
  The header list of a request or response, \<^verbatim>\<open>include/KHttpHeaderManager.h\<close>: a singly linked list
  with a pointer to its last node. Nodes are numbered, a store holds their \<^verbatim>\<open>next\<close> pointers and their
  names, and walking the list is a loop that may not end, so its result is an option.
\<close>

section \<open>The model\<close>

record header_manager =
  nxt :: "nat \<Rightarrow> nat option"
  header :: "nat option"
  tail :: "nat option"         \<comment> \<open>\<^verbatim>\<open>last\<close>\<close>

definition hm_empty :: "(nat \<Rightarrow> nat option) \<Rightarrow> header_manager" where
  "hm_empty store = \<lparr>nxt = store, header = None, tail = None\<rparr>"

text \<open>\<^verbatim>\<open>append\<close> puts a node in front; the fresh node's \<^verbatim>\<open>next\<close> is null.\<close>

definition hm_append :: "nat \<Rightarrow> header_manager \<Rightarrow> header_manager" where
  "hm_append n h = (
     case header h of
       None \<Rightarrow> h\<lparr>header := Some n, tail := Some n\<rparr>
     | Some f \<Rightarrow> h\<lparr>nxt := (nxt h)(n := Some f), header := Some n\<rparr>)"

text \<open>\<^verbatim>\<open>insert\<close> puts it behind the last; a null \<^verbatim>\<open>last\<close> of a list that is not empty is dereferenced.\<close>

definition hm_insert :: "nat \<Rightarrow> header_manager \<Rightarrow> header_manager option" where
  "hm_insert n h = (
     case header h of
       None \<Rightarrow> Some (h\<lparr>header := Some n, tail := Some n\<rparr>)
     | Some _ \<Rightarrow>
         (case tail h of
            None \<Rightarrow> None
          | Some l \<Rightarrow> Some (h\<lparr>nxt := (nxt h)(l := Some n), tail := Some n\<rparr>)))"

partial_function (option) find_from :: "(nat \<Rightarrow> byte list) \<Rightarrow> (nat \<Rightarrow> nat option) \<Rightarrow> byte list \<Rightarrow> nat option \<Rightarrow> nat option option" where
  "find_from name_of nx attr l = (
     if l = None then Some None
     else if kgl_is_attr (name_of (the l)) attr then Some l
     else find_from name_of nx attr (nx (the l)))"

definition hm_find :: "(nat \<Rightarrow> byte list) \<Rightarrow> byte list \<Rightarrow> header_manager \<Rightarrow> nat option option" where
  "hm_find name_of attr h = find_from name_of (nxt h) attr (header h)"

text \<open>\<^verbatim>\<open>remove\<close> walks with \<^verbatim>\<open>last\<close> as the trailing pointer and leaves it there when it finds the header;
  it asserts that the walk to the end leaves it at the last node.\<close>

partial_function (option) remove_from :: "(nat \<Rightarrow> byte list) \<Rightarrow> byte list \<Rightarrow> nat option \<Rightarrow> header_manager \<Rightarrow> (nat option \<times> header_manager) option" where
  "remove_from name_of attr l h = (
     if l = None then
       (case tail h of
          None \<Rightarrow> if header h = None then Some (None, h) else None
        | Some p \<Rightarrow> if header h \<noteq> None \<and> nxt h p = None then Some (None, h) else None)
     else if kgl_is_attr (name_of (the l)) attr then
       Some (l,
         case tail h of
           Some p \<Rightarrow> h\<lparr>nxt := (nxt h)(p := nxt h (the l))\<rparr>
         | None \<Rightarrow> h\<lparr>header := nxt h (the l)\<rparr>)
     else remove_from name_of attr (nxt h (the l)) (h\<lparr>tail := l\<rparr>))"

definition hm_remove :: "(nat \<Rightarrow> byte list) \<Rightarrow> byte list \<Rightarrow> header_manager \<Rightarrow> (nat option \<times> header_manager) option" where
  "hm_remove name_of attr h = remove_from name_of attr (header h) (h\<lparr>tail := None\<rparr>)"

datatype iterator_result = It_Continue | It_Remove | It_Free

text \<open>\<^verbatim>\<open>iterator\<close>: the visitor's answer decides whether a node stays; the nodes to free are returned.\<close>

partial_function (option) iterate_from ::
  "(nat \<Rightarrow> iterator_result) \<Rightarrow> nat option \<Rightarrow> header_manager \<Rightarrow> nat list \<Rightarrow> (header_manager \<times> nat list) option" where
  "iterate_from it l h freed = (
     if l = None then Some (h, freed)
     else if it (the l) = It_Continue then iterate_from it (nxt h (the l)) (h\<lparr>tail := l\<rparr>) freed
     else iterate_from it (nxt h (the l))
            (case tail h of
               Some p \<Rightarrow> h\<lparr>nxt := (nxt h)(p := nxt h (the l))\<rparr>
             | None \<Rightarrow> h\<lparr>header := nxt h (the l)\<rparr>)
            (if it (the l) = It_Free then freed @ [the l] else freed))"

definition hm_iterator :: "(nat \<Rightarrow> iterator_result) \<Rightarrow> header_manager \<Rightarrow> (header_manager \<times> nat list) option" where
  "hm_iterator it h = iterate_from it (header h) (h\<lparr>tail := None\<rparr>) []"

definition hm_steal_header :: "header_manager \<Rightarrow> nat option \<times> header_manager" where
  "hm_steal_header h = (header h, h\<lparr>header := None, tail := None\<rparr>)"

section \<open>Lists in the store\<close>

fun chain :: "(nat \<Rightarrow> nat option) \<Rightarrow> nat option \<Rightarrow> nat list \<Rightarrow> bool" where
  "chain nx p [] \<longleftrightarrow> p = None"
| "chain nx p (x # xs) \<longleftrightarrow> p = Some x \<and> chain nx (nx x) xs"

text \<open>A segment up to a node that is not part of it.\<close>

fun segment :: "(nat \<Rightarrow> nat option) \<Rightarrow> nat option \<Rightarrow> nat list \<Rightarrow> nat option \<Rightarrow> bool" where
  "segment nx p [] q \<longleftrightarrow> p = q"
| "segment nx p (x # xs) q \<longleftrightarrow> p = Some x \<and> segment nx (nx x) xs q"

definition represents :: "header_manager \<Rightarrow> nat list \<Rightarrow> bool" where
  "represents h xs \<longleftrightarrow> chain (nxt h) (header h) xs \<and> distinct xs \<and> tail h = (if xs = [] then None else Some (last xs))"

lemma chain_segment: "chain nx p xs \<longleftrightarrow> segment nx p xs None"
  by (induction xs arbitrary: p) auto

lemma segment_append: "segment nx p (xs @ ys) q \<longleftrightarrow> (\<exists>r. segment nx p xs r \<and> segment nx r ys q)"
  by (induction xs arbitrary: p) auto

lemma segment_upd: "n \<notin> set xs \<Longrightarrow> segment (nx(n := v)) p xs q = segment nx p xs q"
  by (induction xs arbitrary: p) auto

lemma segment_unique: "segment nx p xs None \<Longrightarrow> segment nx p ys None \<Longrightarrow> xs = ys"
proof (induction xs arbitrary: p ys)
  case Nil
  then show ?case by (cases ys) auto
next
  case (Cons x xs)
  then show ?case by (cases ys) auto
qed

lemma represents_snoc:
  "represents h (xs @ [x]) \<longleftrightarrow> segment (nxt h) (header h) xs (Some x) \<and> nxt h x = None \<and> distinct (xs @ [x]) \<and> tail h = Some x"
  by (auto simp: represents_def chain_segment segment_append)

section \<open>Adding\<close>

lemma append_represents:
  assumes "represents h xs" "n \<notin> set xs" "nxt h n = None"
  shows "represents (hm_append n h) (n # xs)"
proof (cases xs)
  case Nil
  with assms show ?thesis by (simp add: represents_def hm_append_def)
next
  case (Cons x ys)
  with assms have "header h = Some x" by (simp add: represents_def)
  with assms Cons show ?thesis
    by (auto simp: represents_def hm_append_def chain_segment segment_upd)
qed

lemma insert_represents:
  assumes "represents h xs" "n \<notin> set xs" "nxt h n = None"
  shows "\<exists>h'. hm_insert n h = Some h' \<and> represents h' (xs @ [n])"
proof (cases xs rule: rev_cases)
  case Nil
  with assms show ?thesis by (simp add: represents_def hm_insert_def)
next
  case (snoc ys y)
  with assms have r: "segment (nxt h) (header h) ys (Some y)" "tail h = Some y" "distinct (ys @ [y])"
    by (simp_all add: represents_snoc)
  from r(1) have "header h \<noteq> None" by (cases ys) auto
  then have "hm_insert n h = Some (h\<lparr>nxt := (nxt h)(y := Some n), tail := Some n\<rparr>)"
    using r(2) by (auto simp: hm_insert_def)
  moreover have "segment ((nxt h)(y := Some n)) (header h) (ys @ [y]) (Some n)"
    using r by (auto simp: segment_append segment_upd)
  ultimately show ?thesis
    using assms snoc r by (auto simp: represents_snoc [of _ "ys @ [y]", simplified])
qed

section \<open>Walking\<close>

lemma find_from_chain:
  "segment nx p xs None \<Longrightarrow> find_from name_of nx attr p = Some (find (\<lambda>n. kgl_is_attr (name_of n) attr) xs)"
  by (induction xs arbitrary: p) (subst find_from.simps, simp)+

text \<open>The loop of the iterator, with the nodes kept so far in front of the trailing pointer.\<close>

lemma iterate_from_chain:
  assumes "segment (nxt h) (header h) ys l" "segment (nxt h) l xs None" "distinct (ys @ xs)"
    and "tail h = (if ys = [] then None else Some (last ys))"
  shows "\<exists>h'. iterate_from it l h freed = Some (h', freed @ filter (\<lambda>n. it n = It_Free) xs) \<and>
    represents h' (ys @ filter (\<lambda>n. it n = It_Continue) xs)"
  using assms
proof (induction xs arbitrary: l h ys freed)
  case Nil
  then show ?case
    by (subst iterate_from.simps) (auto simp: represents_def chain_segment)
next
  case (Cons x xs)
  then have l: "l = Some x" "segment (nxt h) (nxt h x) xs None" by auto
  show ?case
  proof (cases "it x = It_Continue")
    case True
    let ?h = "h\<lparr>tail := Some x\<rparr>"
    have "segment (nxt ?h) (header ?h) (ys @ [x]) (nxt h x)" using Cons.prems(1) l by (auto simp: segment_append)
    then obtain h' where "iterate_from it (nxt h x) ?h freed = Some (h', freed @ filter (\<lambda>n. it n = It_Free) xs)"
      "represents h' ((ys @ [x]) @ filter (\<lambda>n. it n = It_Continue) xs)"
      using Cons.IH [of ?h "ys @ [x]" "nxt h x" freed] Cons.prems(3) l by auto
    with True l show ?thesis by (subst iterate_from.simps) auto
  next
    case False
    let ?h = "case tail h of Some p \<Rightarrow> h\<lparr>nxt := (nxt h)(p := nxt h x)\<rparr> | None \<Rightarrow> h\<lparr>header := nxt h x\<rparr>"
    let ?f = "if it x = It_Free then freed @ [x] else freed"
    have seg: "segment (nxt ?h) (header ?h) ys (nxt h x) \<and> segment (nxt ?h) (nxt h x) xs None \<and> tail ?h = tail h"
    proof (cases ys rule: rev_cases)
      case Nil
      with Cons.prems l show ?thesis by simp
    next
      case (snoc zs z)
      with Cons.prems have t: "tail h = Some z" "segment (nxt h) (header h) zs (Some z)" "z \<notin> set zs" "z \<notin> set xs"
        by (auto simp: segment_append)
      with snoc l show ?thesis by (auto simp: segment_append segment_upd)
    qed
    then obtain h' where "iterate_from it (nxt h x) ?h ?f = Some (h', ?f @ filter (\<lambda>n. it n = It_Free) xs)"
      "represents h' (ys @ filter (\<lambda>n. it n = It_Continue) xs)"
      using Cons.IH [of ?h ys "nxt h x" ?f] Cons.prems(3,4) by auto
    with False l show ?thesis by (subst iterate_from.simps) (auto cong: option.case_cong)
  qed
qed

section \<open>Properties\<close>

text \<open>
  C31: the linked list behaves as a list. On a list in the store with its last pointer in place,
  \<^verbatim>\<open>append\<close> of a fresh node puts it in front, \<^verbatim>\<open>insert\<close> behind, \<^verbatim>\<open>find\<close> returns the first node with
  the name, and \<^verbatim>\<open>iterator\<close> ends, keeps exactly the nodes its visitor keeps, in order, and frees exactly
  those it says; \<^verbatim>\<open>steal_header\<close> hands out the whole list and leaves the empty one, to which the next node
  can be added at once. All of them leave a list with its last pointer in place.
\<close>

theorem header_list_refines:
  assumes "represents h xs" "n \<notin> set xs" "nxt h n = None"
  shows "represents (hm_append n h) (n # xs) \<and>
    (\<exists>h'. hm_insert n h = Some h' \<and> represents h' (xs @ [n])) \<and>
    hm_find name_of attr h = Some (find (\<lambda>m. kgl_is_attr (name_of m) attr) xs) \<and>
    (\<exists>h'. hm_iterator it h = Some (h', filter (\<lambda>m. it m = It_Free) xs) \<and>
       represents h' (filter (\<lambda>m. it m = It_Continue) xs)) \<and>
    (\<exists>p h'. hm_steal_header h = (p, h') \<and> chain (nxt h') p xs \<and> represents h' [] \<and>
       represents (hm_append n h') [n] \<and> hm_insert n h' = Some (hm_append n h'))"
proof -
  have seg: "segment (nxt h) (header h) xs None" "distinct xs" using assms(1) by (simp_all add: represents_def chain_segment)
  have "hm_find name_of attr h = Some (find (\<lambda>m. kgl_is_attr (name_of m) attr) xs)"
    unfolding hm_find_def using seg(1) by (rule find_from_chain)
  moreover have "\<exists>h'. hm_iterator it h = Some (h', filter (\<lambda>m. it m = It_Free) xs) \<and>
       represents h' (filter (\<lambda>m. it m = It_Continue) xs)"
    using iterate_from_chain [of "h\<lparr>tail := None\<rparr>" "[]" "header h" xs it "[]"] seg
    by (simp add: hm_iterator_def)
  moreover have "\<exists>p h'. hm_steal_header h = (p, h') \<and> chain (nxt h') p xs \<and> represents h' [] \<and>
       represents (hm_append n h') [n] \<and> hm_insert n h' = Some (hm_append n h')"
    using assms(1,3) by (simp add: hm_steal_header_def represents_def hm_append_def hm_insert_def)
  ultimately show ?thesis using append_represents [OF assms] insert_represents [OF assms] by blast
qed

theorem header_list_refines_witness:
  "\<exists>h'. hm_iterator (\<lambda>m. if m = 2 then It_Free else It_Continue)
     \<lparr>nxt = (\<lambda>_. None)(1 := Some 2, 2 := Some 3), header = Some 1, tail = Some 3\<rparr> = Some (h', [2]) \<and> represents h' [1, 3]"
  using header_list_refines [of "\<lparr>nxt = (\<lambda>_. None)(1 := Some 2, 2 := Some 3), header = Some 1, tail = Some 3\<rparr>" "[1, 2, 3]" 4
      "\<lambda>_. []" "[]" "\<lambda>m. if m = 2 then It_Free else It_Continue"]
  by (simp add: represents_def)

lemma remove_from_found:
  assumes "segment (nxt h) l (ys @ [x]) q" "\<forall>y \<in> set ys. \<not> kgl_is_attr (name_of y) attr" "kgl_is_attr (name_of x) attr"
  shows "remove_from name_of attr l h = Some (Some x,
    case (if ys = [] then tail h else Some (last ys)) of
      Some p \<Rightarrow> h\<lparr>tail := Some p, nxt := (nxt h)(p := nxt h x)\<rparr>
    | None \<Rightarrow> h\<lparr>header := nxt h x\<rparr>)"
  using assms
proof (induction ys arbitrary: l h)
  case Nil
  then show ?case by (subst remove_from.simps) (auto split: option.split)
next
  case (Cons y ys)
  let ?h = "h\<lparr>tail := Some y\<rparr>"
  have "segment (nxt ?h) (nxt h y) (ys @ [x]) q" using Cons.prems(1) by simp
  from Cons.IH [OF this] Cons.prems have "remove_from name_of attr (nxt h y) ?h = Some (Some x,
      h\<lparr>tail := Some (last (y # ys)), nxt := (nxt h)(last (y # ys) := nxt h x)\<rparr>)"
    by (auto split: if_splits)
  with Cons.prems show ?case by (subst remove_from.simps) auto
qed

text \<open>
  \<^verbatim>\<open>remove\<close> of a header that is not the last one breaks the list: the last pointer stays on
  its predecessor, so the next \<^verbatim>\<open>insert\<close> drops every header behind the removed one; when the first
  header is removed, \<^verbatim>\<open>last\<close> is null and the next \<^verbatim>\<open>insert\<close> dereferences it.
\<close>

theorem remove_breaks_list:
  assumes "represents h (ys @ x # z # zs)" "\<forall>y \<in> set ys. \<not> kgl_is_attr (name_of y) attr" "kgl_is_attr (name_of x) attr"
    and "n \<notin> set (ys @ x # z # zs)" "nxt h n = None"
  shows "\<exists>h'. hm_remove name_of attr h = Some (Some x, h') \<and> chain (nxt h') (header h') (ys @ z # zs) \<and>
    (if ys = [] then hm_insert n h' = None
     else \<exists>h''. hm_insert n h' = Some h'' \<and> chain (nxt h'') (header h'') (ys @ [n]))"
proof -
  have seg: "segment (nxt h) (header h) ys (Some x)" "nxt h x = Some z" "segment (nxt h) (nxt h z) zs None"
    "distinct (ys @ x # z # zs)"
    using assms(1) by (auto simp: represents_def chain_segment segment_append)
  then have "segment (nxt (h\<lparr>tail := None\<rparr>)) (header h) (ys @ [x]) (Some z)" by (auto simp: segment_append)
  note rem = remove_from_found [OF this assms(2,3)]
  show ?thesis
  proof (cases ys rule: rev_cases)
    case Nil
    with rem seg show ?thesis by (simp add: hm_remove_def chain_segment hm_insert_def)
  next
    case (snoc us u)
    let ?h = "h\<lparr>tail := Some u, nxt := (nxt h)(u := Some z)\<rparr>"
    have u: "segment (nxt h) (header h) us (Some u)" "u \<notin> set us" "u \<notin> set (x # z # zs)"
      using seg snoc by (auto simp: segment_append)
    have "header h \<noteq> None" using u(1) by (cases us) auto
    then have ins: "hm_insert n ?h = Some (?h\<lparr>nxt := (nxt ?h)(u := Some n), tail := Some n\<rparr>)"
      by (auto simp: hm_insert_def)
    have "hm_remove name_of attr h = Some (Some x, ?h)" using rem snoc seg(2) by (simp add: hm_remove_def)
    moreover have "chain (nxt ?h) (header ?h) (ys @ z # zs)"
      using snoc u seg by (auto simp: chain_segment segment_append segment_upd)
    moreover have "chain ((nxt ?h)(u := Some n)) (header h) (ys @ [n])"
      using snoc u assms(4,5) by (auto simp: chain_segment segment_append segment_upd)
    ultimately show ?thesis using ins snoc by auto
  qed
qed

theorem remove_breaks_list_witness:
  "\<exists>h' h''. hm_remove (\<lambda>m. [of_nat m]) [2] \<lparr>nxt = (\<lambda>_. None)(1 := Some 2, 2 := Some 3), header = Some 1, tail = Some 3\<rparr> =
     Some (Some 2, h') \<and> hm_insert 4 h' = Some h'' \<and> chain (nxt h'') (header h'') [1, 4]"
proof -
  have "kgl_is_attr [2] [2]" "\<not> kgl_is_attr [1] [2]"
    by (simp_all add: kgl_is_attr_def kgl_attr_tolower_def kgl_tolower_def)
  then show ?thesis
    using remove_breaks_list [of "\<lparr>nxt = (\<lambda>_. None)(1 := Some 2, 2 := Some 3), header = Some 1, tail = Some 3\<rparr>" "[1]" 2 3 "[]"
        "\<lambda>m. [of_nat m]" "[2]" 4]
    by (auto simp: represents_def)
qed

end
