(* ===== verification/KHttp2Stream.thy ===== *)
theory KHttp2Stream
  imports KHttp2Write
begin

unbundle bit_operations_syntax

text \<open>
  The streams of an HTTP/2 connection and their flow control: the index of the stream nodes, the
  stream context \<^verbatim>\<open>KHttp2Context\<close> of \<^verbatim>\<open>include/KHttp2.h\<close> and the operations of \<^verbatim>\<open>src/KHttp2.cpp\<close> that
  write, terminate and release streams and move the send windows. It is the server side: the
  branches of the client model are not part of it. Fibers are woken by the event loop later, so
  a wake-up is an entry of a log.
\<close>

section \<open>The index of the stream nodes\<close>

text \<open>A store of values under keys, as a client of the index relies on it.\<close>

locale node_store =
  fixes ok :: "'t \<Rightarrow> bool"
    and look :: "'k \<Rightarrow> 't \<Rightarrow> 'v option"
    and link :: "'k \<Rightarrow> 'v \<Rightarrow> 't \<Rightarrow> 't"
    and put :: "'k \<Rightarrow> 'v \<Rightarrow> 't \<Rightarrow> 't"
    and destroy :: "'k \<Rightarrow> 't \<Rightarrow> 't"
  assumes ok_link: "ok t \<Longrightarrow> look k t = None \<Longrightarrow> ok (link k v t)"
    and look_link: "ok t \<Longrightarrow> look k t = None \<Longrightarrow> look j (link k v t) = (if j = k then Some v else look j t)"
    and ok_put: "ok t \<Longrightarrow> ok (put k v t)"
    and look_put: "ok t \<Longrightarrow> look j (put k v t) = (if j = k \<and> look k t \<noteq> None then Some v else look j t)"
    and ok_destroy: "ok t \<Longrightarrow> ok (destroy k t)"
    and look_destroy: "ok t \<Longrightarrow> look j (destroy k t) = (if j = k then None else look j t)"
begin

definition contents :: "'t \<Rightarrow> ('k \<Rightarrow> 'v option)" where
  "contents t = (\<lambda>k. look k t)"

lemma contents_link: "ok t \<Longrightarrow> look k t = None \<Longrightarrow> contents (link k v t) = (contents t)(k \<mapsto> v)"
  by (auto simp: contents_def look_link fun_eq_iff)

lemma contents_put: "ok t \<Longrightarrow> look k t \<noteq> None \<Longrightarrow> contents (put k v t) = (contents t)(k \<mapsto> v)"
  by (auto simp: contents_def look_put fun_eq_iff)

lemma contents_destroy: "ok t \<Longrightarrow> contents (destroy k t) = (contents t)(k := None)"
  by (auto simp: contents_def look_destroy fun_eq_iff)

text \<open>A change of one value keeps a property of all values.\<close>

lemma all_put:
  assumes "ok t" "\<forall>j w. look j t = Some w \<longrightarrow> P j w" "P k v"
  shows "\<forall>j w. look j (put k v t) = Some w \<longrightarrow> P j w"
  using assms by (auto simp: look_put)

lemma all_link:
  assumes "ok t" "look k t = None" "\<forall>j w. look j t = Some w \<longrightarrow> P j w" "P k v"
  shows "\<forall>j w. look j (link k v t) = Some w \<longrightarrow> P j w"
  using assms by (auto simp: look_link)

lemma all_destroy:
  assumes "ok t" "\<forall>j w. look j t = Some w \<longrightarrow> P j w"
  shows "\<forall>j w. look j (destroy k t) = Some w \<longrightarrow> P j w"
  using assms by (auto simp: look_destroy)

end

text \<open>Sixteen chains of nodes, a node at the head of the chain of its stream number.\<close>

type_synonym 'n node_index = "(u32 \<times> 'n) list list"

definition kgl_http_v2_index :: "u32 \<Rightarrow> nat" where
  "kgl_http_v2_index sid = unat (drop_bit 1 sid AND 0xF)"

definition streams_index_new :: "'n node_index" where
  "streams_index_new = replicate 16 []"

definition find_node :: "u32 \<Rightarrow> 'n node_index \<Rightarrow> 'n option" where
  "find_node sid idx = map_of (idx ! kgl_http_v2_index sid) sid"

definition link_node :: "u32 \<Rightarrow> 'n \<Rightarrow> 'n node_index \<Rightarrow> 'n node_index" where
  "link_node sid n idx = (let i = kgl_http_v2_index sid in idx[i := (sid, n) # idx ! i])"

text \<open>\<^verbatim>\<open>get_node\<close> with and without \<^verbatim>\<open>alloc\<close>; a new node has the value \<open>n\<close>.\<close>

definition get_node :: "u32 \<Rightarrow> 'n option \<Rightarrow> 'n node_index \<Rightarrow> 'n option \<times> 'n node_index" where
  "get_node sid alloc idx = (
     case find_node sid idx of
       Some n \<Rightarrow> (Some n, idx)
     | None \<Rightarrow> (case alloc of None \<Rightarrow> (None, idx) | Some n \<Rightarrow> (Some n, link_node sid n idx)))"

fun unlink_node :: "u32 \<Rightarrow> (u32 \<times> 'n) list \<Rightarrow> (u32 \<times> 'n) list" where
  "unlink_node sid [] = []"
| "unlink_node sid (n # ns) = (if fst n = sid then ns else n # unlink_node sid ns)"

definition destroy_node :: "u32 \<Rightarrow> 'n node_index \<Rightarrow> 'n node_index" where
  "destroy_node sid idx = (let i = kgl_http_v2_index sid in idx[i := unlink_node sid (idx ! i)])"

text \<open>An assignment through the pointer to a node.\<close>

definition put_node :: "u32 \<Rightarrow> 'n \<Rightarrow> 'n node_index \<Rightarrow> 'n node_index" where
  "put_node sid n idx = (
     let i = kgl_http_v2_index sid in
     idx[i := map (\<lambda>m. if fst m = sid then (sid, n) else m) (idx ! i)])"

definition index_ok :: "'n node_index \<Rightarrow> bool" where
  "index_ok idx \<longleftrightarrow> length idx = 16 \<and>
     (\<forall>i < 16. distinct (map fst (idx ! i)) \<and> (\<forall>n \<in> set (idx ! i). kgl_http_v2_index (fst n) = i))"

lemma index_less [simp]: "kgl_http_v2_index sid < 16"
proof -
  have "unat (drop_bit 1 sid AND (2 ^ 4 - 1)) = unat (drop_bit 1 sid) mod 2 ^ 4" by (rule unat_and_mask)
  then show ?thesis by (simp add: kgl_http_v2_index_def)
qed

lemma map_of_put: "map_of (map (\<lambda>m. if fst m = k then (k, n) else m) ns) j =
    (if j = k \<and> map_of ns k \<noteq> None then Some n else map_of ns j)"
  by (induction ns) auto

lemma map_fst_put: "map fst (map (\<lambda>m. if fst m = k then (k, n) else m) ns) = map fst ns"
  by (induction ns) auto

lemma ball_put: "(\<forall>n \<in> set (map (\<lambda>m. if fst m = k then (k, v) else m) ns). P (fst n)) \<longleftrightarrow> (\<forall>n \<in> set ns. P (fst n))"
  by (induction ns) auto

lemma unlink_facts:
  "set (unlink_node sid ns) \<subseteq> set ns" "distinct (map fst ns) \<Longrightarrow> distinct (map fst (unlink_node sid ns))"
  "distinct (map fst ns) \<Longrightarrow> map_of (unlink_node sid ns) j = (if j = sid then None else map_of ns j)"
proof -
  show s: "set (unlink_node sid ns) \<subseteq> set ns" for ns :: "(u32 \<times> 'a) list" by (induction ns) auto
  show "distinct (map fst ns) \<Longrightarrow> distinct (map fst (unlink_node sid ns))"
    by (induction ns) (use s in auto)
  show "distinct (map fst ns) \<Longrightarrow> map_of (unlink_node sid ns) j = (if j = sid then None else map_of ns j)"
    by (induction ns) (auto simp: map_of_eq_None_iff rev_image_eqI)
qed

lemma index_ok_update:
  assumes "index_ok t" "distinct (map fst ns)" "\<forall>n \<in> set ns. kgl_http_v2_index (fst n) = i"
  shows "index_ok (t[i := ns])"
  using assms unfolding index_ok_def by (cases "i < 16") (simp_all add: nth_list_update)

interpretation nodes: node_store index_ok find_node link_node put_node destroy_node
proof
  fix t :: "'n node_index" and k j :: u32 and v :: 'n
  assume ok: "index_ok t"
  define i where "i = kgl_http_v2_index k"
  have i: "i < length t" and d: "distinct (map fst (t ! i))" and c: "\<forall>n \<in> set (t ! i). kgl_http_v2_index (fst n) = i"
    using ok by (auto simp: index_ok_def i_def)
  show "index_ok (put_node k v t)"
    unfolding put_node_def Let_def i_def [symmetric]
    using c d ball_put [of k v "t ! i" "\<lambda>x. kgl_http_v2_index x = i"]
    by (intro index_ok_update ok) (simp_all only: map_fst_put)
  show "find_node j (put_node k v t) = (if j = k \<and> find_node k t \<noteq> None then Some v else find_node j t)"
    unfolding find_node_def put_node_def Let_def i_def [symmetric] using i
    by (cases "kgl_http_v2_index j = i"; cases "j = k") (simp_all add: map_of_put i_def [symmetric] del: map_of_eq_None_iff)
  show "index_ok (destroy_node k t)"
    unfolding destroy_node_def Let_def i_def [symmetric]
    using c unlink_facts(1) [of k "t ! i"] by (intro index_ok_update ok unlink_facts(2) d) blast
  show "find_node j (destroy_node k t) = (if j = k then None else find_node j t)"
    unfolding find_node_def destroy_node_def Let_def i_def [symmetric] using i d
    by (cases "kgl_http_v2_index j = i"; cases "j = k") (simp_all add: unlink_facts(3) i_def [symmetric])
  assume n: "find_node k t = None"
  show "index_ok (link_node k v t)"
    unfolding link_node_def Let_def i_def [symmetric] using c d n
    by (intro index_ok_update ok) (simp_all add: find_node_def map_of_eq_None_iff flip: i_def)
  show "find_node j (link_node k v t) = (if j = k then Some v else find_node j t)"
    unfolding find_node_def link_node_def Let_def i_def [symmetric] using i
    by (cases "kgl_http_v2_index j = i"; cases "j = k") (simp_all add: i_def [symmetric])
qed

section \<open>Streams and the connection\<close>

text \<open>
  What a fiber waits for. A write event without a buffer waits for the peer to hang up, one with a
  negative length for a window, any other for its buffer to be written.
\<close>

datatype event_buf = Kbufs "byte list list" | Kfile nat

record h2_event =
  ev_buf :: "event_buf option"
  ev_buf_len :: int
  ev_len :: int

definition wait_for_window :: "h2_event \<Rightarrow> bool" where
  "wait_for_window e \<longleftrightarrow> ev_len e < 0 \<and> ev_buf e \<noteq> None"

definition wait_for_hup :: "h2_event \<Rightarrow> bool" where
  "wait_for_hup e \<longleftrightarrow> ev_buf e = None"

definition wait_for_writing :: "h2_event \<Rightarrow> bool" where
  "wait_for_writing e \<longleftrightarrow> ev_len e \<ge> 0 \<and> ev_buf e \<noteq> None"

text \<open>
  The context of a stream. \<open>st_read_wait\<close> is the size of the reader's buffer, \<open>st_queued\<close> says that
  the stream is in the queue of the streams that may time out. The send window is an \<^verbatim>\<open>int\<close>.
\<close>

record h2_stream =
  st_in_closed :: bool
  st_out_closed :: bool
  st_rst :: bool
  st_parsed_header :: bool
  st_write_trailer :: bool
  st_destroy_by_http2 :: bool
  st_skip_data :: bool
  st_sendfile :: bool
  st_send_window :: int
  st_recv_window :: int
  st_content_left :: int
  st_send_header :: "header_frame option"
  st_write_wait :: "h2_event option"
  st_read_wait :: "nat option"
  st_read_buffer :: "ksend_buffer option"
  st_queued :: bool

datatype wake = Woke_Read int | Woke_Write int | Woke_Hup int

text \<open>
  The connection. The 32-bit counters are integers whose wrap-around is written out, \<open>c_pushed\<close> is
  the history of the buffer chains pushed to the write buffer and \<open>c_woken\<close> the one of the wake-ups.
\<close>

record h2_conn =
  c_index :: "h2_stream option node_index"
  c_send_window :: int
  c_recv_window :: int
  c_init_window :: int
  c_frame_size :: int
  c_max_stream :: int
  c_last_peer_sid :: u32
  c_processing :: int
  c_read_processing :: bool
  c_write_processing :: bool
  c_peer_goaway :: bool
  c_self_goaway :: bool
  c_closed :: bool
  c_destroyed :: bool
  c_write_buffer :: write_buffer
  c_pushed :: "http2_buff list list"
  c_woken :: "(u32 \<times> wake) list"

definition KGL_HTTP_V2_MAX_WINDOW :: int where
  "KGL_HTTP_V2_MAX_WINDOW = 2 ^ 31 - 1"

definition KGL_HTTP_V2_DEFAULT_WINDOW :: int where
  "KGL_HTTP_V2_DEFAULT_WINDOW = 65535"

definition KGL_HTTP_V2_DEFAULT_FRAME_SIZE :: int where
  "KGL_HTTP_V2_DEFAULT_FRAME_SIZE = 2 ^ 14"

definition KGL_HTTP_V2_CONNECTION_RECV_WINDOW :: int where
  "KGL_HTTP_V2_CONNECTION_RECV_WINDOW = KGL_HTTP_V2_MAX_WINDOW"

text \<open>The conversions to \<^verbatim>\<open>uint32_t\<close> and \<^verbatim>\<open>int\<close>.\<close>

definition uint32 :: "int \<Rightarrow> int" where
  "uint32 x = x mod 2 ^ 32"

definition int32 :: "int \<Rightarrow> int" where
  "int32 x = (x + 2 ^ 31) mod 2 ^ 32 - 2 ^ 31"

lemma uint32_id [simp]: "0 \<le> x \<Longrightarrow> x < 2 ^ 32 \<Longrightarrow> uint32 x = x"
  by (simp add: uint32_def)

lemma int32_id [simp]: "- (2 ^ 31) \<le> x \<Longrightarrow> x < 2 ^ 31 \<Longrightarrow> int32 x = x"
  by (simp add: int32_def)

definition get_stream :: "u32 \<Rightarrow> 'a h2_conn_scheme \<Rightarrow> h2_stream option" where
  "get_stream sid c = (case find_node sid (c_index c) of Some (Some s) \<Rightarrow> Some s | _ \<Rightarrow> None)"

definition put_stream :: "u32 \<Rightarrow> h2_stream \<Rightarrow> 'a h2_conn_scheme \<Rightarrow> 'a h2_conn_scheme" where
  "put_stream sid s c = c\<lparr>c_index := put_node sid (Some s) (c_index c)\<rparr>"

text \<open>The streams in the order of the loops over the index.\<close>

definition stream_ids :: "'a h2_conn_scheme \<Rightarrow> u32 list" where
  "stream_ids c = map fst (concat (c_index c))"

definition wb_size :: "'a h2_conn_scheme \<Rightarrow> int" where
  "wb_size c = wb_left (c_write_buffer c)"

definition push_buffer :: "http2_buff list \<Rightarrow> 'a h2_conn_scheme \<Rightarrow> 'a h2_conn_scheme" where
  "push_buffer bufs c = c\<lparr>c_write_buffer := wb_push bufs (c_write_buffer c), c_pushed := c_pushed c @ [bufs]\<rparr>"

definition woken :: "u32 \<Rightarrow> wake \<Rightarrow> 'a h2_conn_scheme \<Rightarrow> 'a h2_conn_scheme" where
  "woken sid w c = c\<lparr>c_woken := c_woken c @ [(sid, w)]\<rparr>"

definition start_write :: "'a h2_conn_scheme \<Rightarrow> 'a h2_conn_scheme" where
  "start_write c = (
     if c_write_processing c \<or> c_closed c \<or> wb_size c = 0 then c else c\<lparr>c_write_processing := True\<rparr>)"

definition control_buffer :: "byte list \<Rightarrow> bool \<Rightarrow> http2_buff" where
  "control_buffer frame nodelay = \<lparr>hb_body = Data frame, hb_nodelay = nodelay, hb_ctx = None\<rparr>"

definition send_window_update :: "u32 \<Rightarrow> int \<Rightarrow> 'a h2_conn_scheme \<Rightarrow> bool \<times> 'a h2_conn_scheme" where
  "send_window_update sid window c = (
     if window = 0 then (False, c)
     else (True, push_buffer [control_buffer (window_update_frame sid (of_int window)) True] c))"

definition send_rst_stream :: "u32 \<Rightarrow> u32 \<Rightarrow> 'a h2_conn_scheme \<Rightarrow> 'a h2_conn_scheme" where
  "send_rst_stream sid status c = start_write (push_buffer [control_buffer (rst_stream_frame sid status) True] c)"

definition send_settings_ack :: "'a h2_conn_scheme \<Rightarrow> 'a h2_conn_scheme" where
  "send_settings_ack c = start_write (push_buffer [control_buffer settings_ack_frame False] c)"

definition send_settings :: "'a h2_conn_scheme \<Rightarrow> 'a h2_conn_scheme" where
  "send_settings c = start_write (push_buffer [control_buffer (settings_frame (of_int (c_max_stream c))) False] c)"

definition goaway :: "u32 \<Rightarrow> 'a h2_conn_scheme \<Rightarrow> 'a h2_conn_scheme" where
  "goaway error_code c = (
     let c = c\<lparr>c_self_goaway := True\<rparr> in
     start_write (push_buffer [control_buffer (goaway_frame (c_last_peer_sid c) error_code) True] c))"

definition can_destroy :: "'a h2_conn_scheme \<Rightarrow> bool" where
  "can_destroy c \<longleftrightarrow> c_processing c = 0 \<and> \<not> c_write_processing c \<and> \<not> c_read_processing c"

definition destroy_if_done :: "'a h2_conn_scheme \<Rightarrow> 'a h2_conn_scheme" where
  "destroy_if_done c = (if can_destroy c then c\<lparr>c_destroyed := True\<rparr> else c)"

text \<open>The queue of the waiting streams.\<close>

definition AddQueue :: "h2_stream \<Rightarrow> h2_stream" where
  "AddQueue s = s\<lparr>st_queued := True\<rparr>"

definition FlushQueue :: "h2_stream \<Rightarrow> h2_stream" where
  "FlushQueue s = s\<lparr>st_queued := st_read_wait s \<noteq> None \<or>
     (case st_write_wait s of None \<Rightarrow> False | Some e \<Rightarrow> wait_for_window e)\<rparr>"

definition stream_Init :: "int \<Rightarrow> h2_stream" where
  "stream_Init send_window = \<lparr>st_in_closed = False, st_out_closed = False, st_rst = False, st_parsed_header = False,
     st_write_trailer = False, st_destroy_by_http2 = False, st_skip_data = False, st_sendfile = False,
     st_send_window = send_window, st_recv_window = uint KGL_HTTP_V2_STREAM_RECV_WINDOW, st_content_left = 0,
     st_send_header = None, st_write_wait = None, st_read_wait = None, st_read_buffer = None, st_queued = False\<rparr>"

definition is_available :: "h2_stream \<Rightarrow> bool" where
  "is_available s \<longleftrightarrow> \<not> st_rst s \<and> \<not> st_destroy_by_http2 s"

definition set_content_length :: "int \<Rightarrow> h2_stream \<Rightarrow> h2_stream" where
  "set_content_length content_length s = s\<lparr>st_content_left := (if content_length \<ge> 0 then content_length else - 1)\<rparr>"

definition IsWriteClosed :: "h2_stream \<Rightarrow> 'a h2_conn_scheme \<Rightarrow> bool" where
  "IsWriteClosed s c \<longleftrightarrow> \<not> c_read_processing c \<or> c_closed c \<or> st_out_closed s"

definition h2_init :: h2_conn where
  "h2_init = \<lparr>c_index = streams_index_new, c_send_window = KGL_HTTP_V2_DEFAULT_WINDOW,
     c_recv_window = KGL_HTTP_V2_CONNECTION_RECV_WINDOW, c_init_window = KGL_HTTP_V2_DEFAULT_WINDOW,
     c_frame_size = KGL_HTTP_V2_DEFAULT_FRAME_SIZE, c_max_stream = 64, c_last_peer_sid = 0, c_processing = 0,
     c_read_processing = True, c_write_processing = False, c_peer_goaway = False, c_self_goaway = False,
     c_closed = False, c_destroyed = False, c_write_buffer = wb_new, c_pushed = [], c_woken = []\<rparr>"

section \<open>Writing\<close>

text \<open>
  The buffers of a DATA frame: at most \<open>len\<close> of the \<open>buf_len\<close> octets that are to be written. \<open>None\<close>
  follows a null pointer when there are fewer octets than announced.
\<close>

fun data_buffers :: "int \<Rightarrow> int \<Rightarrow> byte list list \<Rightarrow> byte list list option" where
  "data_buffers len buf_len bufs = (
     if buf_len \<le> 0 \<or> len \<le> 0 then Some []
     else case bufs of
       [] \<Rightarrow> None
     | b # bs \<Rightarrow>
         let used = min len (min (int (length b)) buf_len) in
         if used = int (length b) then map_option (Cons (take (nat used) b)) (data_buffers (len - used) (buf_len - used) bs)
         else Some [take (nat used) b])"

declare data_buffers.simps [simp del]

definition plain_buffer :: "byte list \<Rightarrow> http2_buff" where
  "plain_buffer d = \<lparr>hb_body = Data d, hb_nodelay = False, hb_ctx = None\<rparr>"

text \<open>The payload of the frame and its length.\<close>

definition frame_payload :: "h2_event \<Rightarrow> bool \<Rightarrow> int \<Rightarrow> (http2_buff list \<times> int) option" where
  "frame_payload e sendfile len = (
     case ev_buf e of
       None \<Rightarrow> None
     | Some (Kfile off) \<Rightarrow>
         if sendfile then
           (let total_len = min len (ev_buf_len e) mod 2 ^ 16 in
            Some ([\<lparr>hb_body = File off (nat total_len), hb_nodelay = False, hb_ctx = None\<rparr>], total_len))
         else None
     | Some (Kbufs bufs) \<Rightarrow>
         if sendfile then None
         else map_option (\<lambda>ds. (map plain_buffer ds, int (length (concat ds)))) (data_buffers len (ev_buf_len e) bufs))"

definition mark_last :: "nat \<Rightarrow> bool \<Rightarrow> http2_buff list \<Rightarrow> http2_buff list" where
  "mark_last ctx nodelay bufs = butlast bufs @ [(last bufs)\<lparr>hb_ctx := Some ctx, hb_nodelay := nodelay\<rparr>]"

definition data_frame_header :: "u32 \<Rightarrow> int \<Rightarrow> bool \<Rightarrow> byte list" where
  "data_frame_header sid total_len fin =
     frame_header_bytes \<lparr>fh_length_type = set_length_type (of_int total_len) 0,
       fh_flags = (if fin then KGL_HTTP_V2_END_STREAM_FLAG else 0), fh_stream_id = sid\<rparr>"

text \<open>\<open>None\<close> is also the failed assertion that the frame is not empty.\<close>

definition build_write_buffer :: "u32 \<Rightarrow> h2_event \<Rightarrow> int \<Rightarrow> h2_stream \<Rightarrow> (http2_buff list \<times> int \<times> h2_stream) option" where
  "build_write_buffer sid e len s = (
     case frame_payload e (st_sendfile s) len of
       None \<Rightarrow> None
     | Some (payload, total_len) \<Rightarrow>
         if \<not> total_len > 0 then None
         else
         let fin = (st_content_left s > 0 \<and> st_content_left s - total_len \<le> 0);
             s = s\<lparr>st_write_wait := Some (e\<lparr>ev_len := total_len\<rparr>),
                   st_content_left := (if st_content_left s > 0 then st_content_left s - total_len else st_content_left s),
                   st_out_closed := st_out_closed s \<or> fin\<rparr>;
             header = plain_buffer (data_frame_header sid total_len fin)
         in Some (mark_last (unat sid) fin (header # payload), total_len, s))"

text \<open>
  The result is \<open>None\<close> where the code would follow a null pointer, or an assertion fails: that the event waits for a window,
  and that the stream is not closed for writing.
\<close>

definition on_write_window_ready :: "u32 \<Rightarrow> h2_stream \<Rightarrow> h2_event \<Rightarrow> 'a h2_conn_scheme \<Rightarrow> (int \<times> 'a h2_conn_scheme) option" where
  "on_write_window_ready sid s e c = (
     let len = min (min (int32 (c_frame_size c)) (st_send_window s)) (int32 (c_send_window c)) in
     if \<not> wait_for_window e \<or> IsWriteClosed s c then None
     else if len \<le> 0 then Some (len, put_stream sid (AddQueue s) c)
     else case build_write_buffer sid e len s of
       None \<Rightarrow> None
     | Some (bufs, len, s) \<Rightarrow>
         let s = s\<lparr>st_send_window := st_send_window s - len\<rparr>;
             c = c\<lparr>c_send_window := uint32 (c_send_window c - len)\<rparr>;
             c = push_buffer bufs c;
             c = put_stream sid (FlushQueue s) c
         in Some (len, c\<lparr>c_write_processing := True\<rparr>))"

text \<open>The header block as buffers; \<open>junk\<close> is the content of uninitialised memory.\<close>

definition header_buffers :: "bool \<Rightarrow> (frame_header \<times> header_frame) list \<Rightarrow> http2_buff list" where
  "header_buffers body_end fs = (
     let bufs = concat (map (\<lambda>(h, cs). plain_buffer (frame_header_bytes h) # map plain_buffer cs) fs)
     in butlast bufs @ [(last bufs)\<lparr>hb_nodelay := body_end\<rparr>])"

definition send_header :: "(nat \<Rightarrow> frame_header) \<Rightarrow> u32 \<Rightarrow> h2_stream \<Rightarrow> bool \<Rightarrow> 'a h2_conn_scheme \<Rightarrow> h2_stream \<times> 'a h2_conn_scheme" where
  "send_header junk sid s body_end c = (
     if \<not> c_read_processing c then (s, c)
     else case st_send_header s of
       None \<Rightarrow> (s, c)
     | Some hf \<Rightarrow>
         let bufs = header_buffers body_end (hf_create junk sid body_end (nat (c_frame_size c)) hf);
             s = s\<lparr>st_send_header := None, st_out_closed := st_out_closed s \<or> body_end\<rparr>
         in (s, start_write (push_buffer bufs c)))"

text \<open>
  \<^verbatim>\<open>write\<close> and \<^verbatim>\<open>sendfile\<close>: the fiber then waits for the result of the event. \<open>Inl\<close> is a value returned
  at once.
\<close>

definition write_event :: "(nat \<Rightarrow> frame_header) \<Rightarrow> bool \<Rightarrow> u32 \<Rightarrow> h2_stream \<Rightarrow> event_buf \<Rightarrow> int \<Rightarrow> 'a h2_conn_scheme \<Rightarrow> (int option \<times> 'a h2_conn_scheme) option" where
  "write_event junk is_file sid s buf len c = (
     let s = s\<lparr>st_write_wait := None\<rparr> in
     if IsWriteClosed s c then Some (Some (- 1), put_stream sid s c)
     else if st_send_header s \<noteq> None \<and> st_write_trailer s then None
     else
       let (s, c) = (if st_send_header s \<noteq> None then send_header junk sid s (st_content_left s = 0) c else (s, c));
           e = \<lparr>ev_buf = Some buf, ev_buf_len = len, ev_len = - 1\<rparr>;
           s = s\<lparr>st_sendfile := is_file, st_write_wait := Some e\<rparr>
       in map_option (\<lambda>(_, c). (None, c)) (on_write_window_ready sid s e c))"

definition h2_write :: "(nat \<Rightarrow> frame_header) \<Rightarrow> u32 \<Rightarrow> h2_stream \<Rightarrow> byte list list \<Rightarrow> int \<Rightarrow> 'a h2_conn_scheme \<Rightarrow> (int option \<times> 'a h2_conn_scheme) option" where
  "h2_write junk sid s bufs bc c = write_event junk False sid s (Kbufs bufs) bc c"

definition h2_sendfile :: "(nat \<Rightarrow> frame_header) \<Rightarrow> u32 \<Rightarrow> h2_stream \<Rightarrow> nat \<Rightarrow> int \<Rightarrow> 'a h2_conn_scheme \<Rightarrow> (int option \<times> 'a h2_conn_scheme) option" where
  "h2_sendfile junk sid s off len c = write_event junk True sid s (Kfile off) len c"

text \<open>The end of a body: \<open>None\<close> is the failed assertion that its length was not declared.\<close>

definition write_end :: "(nat \<Rightarrow> frame_header) \<Rightarrow> u32 \<Rightarrow> h2_stream \<Rightarrow> 'a h2_conn_scheme \<Rightarrow> 'a h2_conn_scheme option" where
  "write_end junk sid s c = (
     if IsWriteClosed s c then Some c
     else if st_send_header s \<noteq> None \<and> \<not> st_write_trailer s then
       (case send_header junk sid (set_content_length 0 s) True c of (s, c) \<Rightarrow> Some (put_stream sid s c))
     else if st_content_left s \<noteq> - 1 then None
     else
       let flags = (if st_send_header s \<noteq> None then 0 else KGL_HTTP_V2_END_STREAM_FLAG);
           c = push_buffer [control_buffer (get_frame sid 0 0 flags) True] c
       in if st_send_header s \<noteq> None then (case send_header junk sid s True c of (s, c) \<Rightarrow> Some (put_stream sid s c))
          else Some (start_write (put_stream sid (s\<lparr>st_out_closed := True\<rparr>) c)))"

section \<open>Windows\<close>

fun check_write_wait_loop :: "u32 list \<Rightarrow> 'a h2_conn_scheme \<Rightarrow> 'a h2_conn_scheme option" where
  "check_write_wait_loop [] c = Some c"
| "check_write_wait_loop (sid # sids) c = (
     if c_send_window c \<le> 0 then Some c
     else case get_stream sid c of
       None \<Rightarrow> check_write_wait_loop sids c
     | Some s \<Rightarrow>
         if st_send_window s \<le> 0 then check_write_wait_loop sids c
         else case st_write_wait s of
           None \<Rightarrow> check_write_wait_loop sids c
         | Some e \<Rightarrow>
             if \<not> wait_for_window e then check_write_wait_loop sids c
             else case on_write_window_ready sid s e c of
               None \<Rightarrow> None
             | Some (_, c) \<Rightarrow> check_write_wait_loop sids c)"

definition check_write_wait :: "'a h2_conn_scheme \<Rightarrow> 'a h2_conn_scheme option" where
  "check_write_wait c = check_write_wait_loop (stream_ids c) c"

definition adjust_window :: "int \<Rightarrow> h2_stream \<Rightarrow> h2_stream" where
  "adjust_window delta s = (
     if delta > 0 \<and> st_send_window s > int32 (KGL_HTTP_V2_MAX_WINDOW - delta) then s
     else s\<lparr>st_send_window := st_send_window s + delta\<rparr>)"

definition adjust_windows :: "int \<Rightarrow> 'a h2_conn_scheme \<Rightarrow> 'a h2_conn_scheme option" where
  "adjust_windows window c = (
     let delta = int32 (window - c_init_window c);
         c = c\<lparr>c_init_window := uint32 window,
               c_index := map (map (\<lambda>(k, n). (k, map_option (adjust_window delta) n))) (c_index c)\<rparr>
     in check_write_wait c)"

section \<open>Ends of streams and of the connection\<close>

definition wake_read :: "u32 \<Rightarrow> nat option \<Rightarrow> int \<Rightarrow> 'a h2_conn_scheme \<Rightarrow> 'a h2_conn_scheme" where
  "wake_read sid re got c = (case re of None \<Rightarrow> c | Some _ \<Rightarrow> woken sid (Woke_Read got) c)"

definition wake_write :: "u32 \<Rightarrow> h2_event option \<Rightarrow> int \<Rightarrow> 'a h2_conn_scheme \<Rightarrow> 'a h2_conn_scheme" where
  "wake_write sid we got c = (
     case we of None \<Rightarrow> c
     | Some e \<Rightarrow> woken sid (if wait_for_hup e then Woke_Hup got else Woke_Write got) c)"

text \<open>The write event is taken off unless its buffer is being written.\<close>

definition take_write_wait :: "h2_stream \<Rightarrow> h2_event option" where
  "take_write_wait s = (
     case st_write_wait s of Some e \<Rightarrow> if wait_for_writing e then None else Some e | None \<Rightarrow> None)"

definition shut_stream :: "h2_stream \<Rightarrow> h2_stream" where
  "shut_stream s = s\<lparr>st_in_closed := True, st_out_closed := True, st_rst := True, st_queued := False, st_read_wait := None,
     st_write_wait := (if take_write_wait s = None then st_write_wait s else None)\<rparr>"

definition terminate_stream :: "u32 \<Rightarrow> h2_stream \<Rightarrow> u32 \<Rightarrow> 'a h2_conn_scheme \<Rightarrow> bool \<times> 'a h2_conn_scheme" where
  "terminate_stream sid s status c = (
     let c1 = put_stream sid (shut_stream s) c;
         send_flag = (\<not> (st_in_closed s \<and> st_out_closed s) \<and> c_read_processing c);
         c2 = (if send_flag then send_rst_stream sid status c1 else c1)
     in (send_flag, wake_write sid (take_write_wait s) (- 1) (wake_read sid (st_read_wait s) (- 1) c2)))"

definition h2_shutdown :: "u32 \<Rightarrow> h2_stream \<Rightarrow> 'a h2_conn_scheme \<Rightarrow> 'a h2_conn_scheme" where
  "h2_shutdown sid s c = (if st_rst s then c else snd (terminate_stream sid s 8 c))"

text \<open>A stream the peer has reset, \<^verbatim>\<open>state_rst_stream\<close>.\<close>

definition reset_stream :: "u32 \<Rightarrow> h2_stream \<Rightarrow> 'a h2_conn_scheme \<Rightarrow> 'a h2_conn_scheme" where
  "reset_stream sid s c = (
     let c = put_stream sid ((shut_stream s)\<lparr>st_read_buffer := map_option sb_clean (st_read_buffer s)\<rparr>) c
     in wake_write sid (take_write_wait s) (- 1) (wake_read sid (st_read_wait s) (- 1) c))"

definition release_stream :: "u32 \<Rightarrow> h2_stream \<Rightarrow> 'a h2_conn_scheme \<Rightarrow> 'a h2_conn_scheme" where
  "release_stream sid s c = (
     let c = (if st_out_closed s \<and> st_in_closed s then c else send_rst_stream sid 2 c)
     in c\<lparr>c_index := destroy_node sid (c_index c)\<rparr>)"

definition release_admin :: "'a h2_conn_scheme \<Rightarrow> 'a h2_conn_scheme" where
  "release_admin c = destroy_if_done (c\<lparr>c_processing := c_processing c - 1\<rparr>)"

definition h2_release :: "u32 \<Rightarrow> h2_stream \<Rightarrow> 'a h2_conn_scheme \<Rightarrow> 'a h2_conn_scheme" where
  "h2_release sid s c = release_admin (release_stream sid s c)"

fun close_streams :: "u32 list \<Rightarrow> 'a h2_conn_scheme \<Rightarrow> 'a h2_conn_scheme" where
  "close_streams [] c = c"
| "close_streams (sid # sids) c = close_streams sids (
     case get_stream sid c of
       None \<Rightarrow> c
     | Some s \<Rightarrow> wake_write sid (take_write_wait s) (- 1) (wake_read sid (st_read_wait s) (- 1) (put_stream sid (shut_stream s) c)))"

text \<open>\<^verbatim>\<open>remove_buff\<close>: the stream of a finished buffer is told how much of it went out.\<close>

fun remove_buff :: "http2_buff list \<Rightarrow> bool \<Rightarrow> 'a h2_conn_scheme \<Rightarrow> 'a h2_conn_scheme" where
  "remove_buff [] fin c = c"
| "remove_buff (b # bs) fin c = remove_buff bs fin (
     case hb_ctx b of
       None \<Rightarrow> c
     | Some i \<Rightarrow>
         let sid = of_nat i in
         (case get_stream sid c of
            None \<Rightarrow> c
          | Some s \<Rightarrow>
              (case st_write_wait s of
                 None \<Rightarrow> c
               | Some e \<Rightarrow> wake_write sid (Some e) (if fin then - 1 else ev_len e)
                    (put_stream sid (s\<lparr>st_write_wait := None\<rparr>) c))))"

definition h2_close :: "bool \<Rightarrow> 'a h2_conn_scheme \<Rightarrow> 'a h2_conn_scheme" where
  "h2_close read c = (
     let (bufs, c) = (if \<not> read \<and> wb_size c > 0 then
             (case wb_clean (c_write_buffer c) of (bufs, w) \<Rightarrow> (bufs, c\<lparr>c_write_buffer := w\<rparr>))
           else ([], c));
         c = close_streams (stream_ids c) c;
         c = remove_buff bufs True c;
         c = c\<lparr>c_closed := True\<rparr>;
         c = (if read then c\<lparr>c_read_processing := False, c_self_goaway := True\<rparr> else c\<lparr>c_write_processing := False\<rparr>)
     in destroy_if_done c)"

definition try_write :: "'a h2_conn_scheme \<Rightarrow> 'a h2_conn_scheme" where
  "try_write c = (
     if wb_size c > 0 then c
     else if \<not> c_read_processing c \<and> c_processing c = 0 then h2_close False c
     else c\<lparr>c_write_processing := False\<rparr>)"

definition on_write_result :: "int \<Rightarrow> 'a h2_conn_scheme \<Rightarrow> 'a h2_conn_scheme" where
  "on_write_result got c = (
     if got \<le> 0 then h2_close False c
     else case wb_readSuccess (nat got) (c_write_buffer c) of
       (removed, w) \<Rightarrow> try_write (remove_buff removed False (c\<lparr>c_write_buffer := w\<rparr>)))"

text \<open>A WINDOW_UPDATE frame, the body of \<^verbatim>\<open>state_window_update\<close>.\<close>

definition window_update :: "u32 \<Rightarrow> int \<Rightarrow> 'a h2_conn_scheme \<Rightarrow> 'a h2_conn_scheme option" where
  "window_update sid window c = (
     if sid \<noteq> 0 then
       (case get_stream sid c of
          None \<Rightarrow> Some c
        | Some s \<Rightarrow>
            if window > uint32 (KGL_HTTP_V2_MAX_WINDOW - st_send_window s) then Some (snd (terminate_stream sid s 3 c))
            else
              let s = s\<lparr>st_send_window := st_send_window s + window\<rparr> in
              (case st_write_wait s of
                 None \<Rightarrow> Some (put_stream sid s c)
               | Some e \<Rightarrow>
                   if wait_for_window e then map_option snd (on_write_window_ready sid s e c)
                   else Some (put_stream sid s c)))
     else if window > uint32 (KGL_HTTP_V2_MAX_WINDOW - c_send_window c) then Some (h2_close True c)
     else if c_send_window c \<le> 0 then check_write_wait (c\<lparr>c_send_window := uint32 (c_send_window c + window)\<rparr>)
     else Some (c\<lparr>c_send_window := uint32 (c_send_window c + window)\<rparr>))"

section \<open>Reading\<close>

definition check_recv_window :: "u32 \<Rightarrow> h2_stream \<Rightarrow> 'a h2_conn_scheme \<Rightarrow> bool \<times> h2_stream \<times> 'a h2_conn_scheme" where
  "check_recv_window sid s c = (
     if st_in_closed s then (False, s, c)
     else
       let full = uint KGL_HTTP_V2_STREAM_RECV_WINDOW;
           recv_window = st_recv_window s + (case st_read_buffer s of None \<Rightarrow> 0 | Some b \<Rightarrow> sb_total b)
       in if recv_window < full div 4 then
            (case send_window_update sid (full - st_recv_window s) c of
               (flag, c) \<Rightarrow> (flag, s\<lparr>st_recv_window := full\<rparr>, c))
          else (False, s, c))"

text \<open>The result of \<^verbatim>\<open>read\<close>: octets, an error, the end of the body, or the fiber waits.\<close>

datatype read_state = Got "byte list" | Read_Failed | Read_Done | Read_Waits

definition h2_read :: "u32 \<Rightarrow> h2_stream \<Rightarrow> nat \<Rightarrow> 'a h2_conn_scheme \<Rightarrow> (read_state \<times> 'a h2_conn_scheme) option" where
  "h2_read sid s len c = (
     let s = s\<lparr>st_write_wait := (case st_write_wait s of Some e \<Rightarrow> if wait_for_hup e then None else Some e | None \<Rightarrow> None)\<rparr>;
         (flag, s, c) = check_recv_window sid s c;
         c = (if flag then start_write c else c)
     in case st_read_buffer s of
          Some b \<Rightarrow>
            if sb_bufs b \<noteq> [] then
              (case copy_read_buffer b len of
                 None \<Rightarrow> None
               | Some (out, b) \<Rightarrow> Some (Got out, put_stream sid (s\<lparr>st_read_buffer := Some b\<rparr>) c))
            else if st_rst s then Some (Read_Failed, put_stream sid s c)
            else if st_in_closed s then Some (Read_Done, put_stream sid s c)
            else Some (Read_Waits, put_stream sid (AddQueue (s\<lparr>st_read_wait := Some len\<rparr>)) c)
        | None \<Rightarrow>
            if st_rst s then Some (Read_Failed, put_stream sid s c)
            else if st_in_closed s then Some (Read_Done, put_stream sid s c)
            else Some (Read_Waits, put_stream sid (AddQueue (s\<lparr>st_read_wait := Some len\<rparr>)) c))"

end
