(* ===== verification/KHttp2Flow.thy ===== *)
theory KHttp2Flow
  imports KHttp2Stream
begin

unbundle bit_operations_syntax

text \<open>
  Flow control of the sending side. The steps of a connection are the operations of
  \<^verbatim>\<open>KHttp2Stream\<close> as the event loop and the fibers of the streams call them; the invariant of the
  windows is proved for every reachable state, and with it that the connection never sends more
  DATA than it was granted and that no stream waits for a window that is open.
\<close>

section \<open>What the operations leave alone\<close>

lemma conn_fields [simp]:
  "c_index (push_buffer bufs c) = c_index c" "c_send_window (push_buffer bufs c) = c_send_window c"
  "c_init_window (push_buffer bufs c) = c_init_window c" "c_frame_size (push_buffer bufs c) = c_frame_size c"
  "c_pushed (push_buffer bufs c) = c_pushed c @ [bufs]"
  "c_index (start_write c) = c_index c" "c_send_window (start_write c) = c_send_window c"
  "c_init_window (start_write c) = c_init_window c" "c_frame_size (start_write c) = c_frame_size c"
  "c_pushed (start_write c) = c_pushed c"
  "c_index (woken sid w c) = c_index c" "c_send_window (woken sid w c) = c_send_window c"
  "c_init_window (woken sid w c) = c_init_window c" "c_frame_size (woken sid w c) = c_frame_size c"
  "c_pushed (woken sid w c) = c_pushed c"
  "c_index (put_stream sid s c) = put_node sid (Some s) (c_index c)" "c_send_window (put_stream sid s c) = c_send_window c"
  "c_init_window (put_stream sid s c) = c_init_window c" "c_frame_size (put_stream sid s c) = c_frame_size c"
  "c_pushed (put_stream sid s c) = c_pushed c"
  "c_index (destroy_if_done c) = c_index c" "c_send_window (destroy_if_done c) = c_send_window c"
  "c_init_window (destroy_if_done c) = c_init_window c" "c_frame_size (destroy_if_done c) = c_frame_size c"
  "c_pushed (destroy_if_done c) = c_pushed c"
  by (simp_all add: push_buffer_def start_write_def woken_def put_stream_def destroy_if_done_def)

lemma wake_fields [simp]:
  "c_index (wake_read sid re got c) = c_index c" "c_send_window (wake_read sid re got c) = c_send_window c"
  "c_init_window (wake_read sid re got c) = c_init_window c" "c_frame_size (wake_read sid re got c) = c_frame_size c"
  "c_pushed (wake_read sid re got c) = c_pushed c"
  "c_index (wake_write sid we got c) = c_index c" "c_send_window (wake_write sid we got c) = c_send_window c"
  "c_init_window (wake_write sid we got c) = c_init_window c" "c_frame_size (wake_write sid we got c) = c_frame_size c"
  "c_pushed (wake_write sid we got c) = c_pushed c"
  by (simp_all add: wake_read_def wake_write_def split: option.split)

section \<open>DATA on the wire\<close>

text \<open>The payload of a pushed buffer chain that starts with the header of a DATA frame.\<close>

definition frame_data :: "http2_buff list \<Rightarrow> int" where
  "frame_data bufs = (
     case bufs of [] \<Rightarrow> 0
     | b # _ \<Rightarrow> (case hb_body b of
         File _ _ \<Rightarrow> 0
       | Data d \<Rightarrow>
           let head = kgl_http_v2_parse_uint32 d in
           if kgl_http_v2_parse_type head = 0 then uint (kgl_http_v2_parse_length head) else 0))"

definition data_sent :: "http2_buff list list \<Rightarrow> int" where
  "data_sent pushed = sum_list (map frame_data pushed)"

lemma data_sent_simps [simp]: "data_sent [] = 0" "data_sent (xs @ [x]) = data_sent xs + frame_data x"
  by (simp_all add: data_sent_def)

lemma parse_type_set: "kgl_http_v2_parse_type (set_length_type len type) = type AND 0xff"
proof (rule bit_word_eqI)
  have m: "(0xff :: u32) = mask 8" by (simp add: mask_eq_exp_minus_1)
  fix n assume "n < LENGTH(32)"
  then show "bit (kgl_http_v2_parse_type (set_length_type len type)) n = bit (type AND 0xff) n"
    unfolding kgl_http_v2_parse_type_def set_length_type_def m by (auto simp: bit_simps)
qed

lemma frame_data_header:
  "hb_body b = Data (frame_header_bytes h @ r) \<Longrightarrow>
   frame_data (b # bs) = (if kgl_http_v2_parse_type (fh_length_type h) = 0 then uint (kgl_http_v2_parse_length (fh_length_type h)) else 0)"
  by (simp add: frame_data_def frame_header_bytes_def parse_put_uint32 Let_def)

lemma frame_data_control:
  assumes "take 9 frame = frame_header_bytes \<lparr>fh_length_type = set_length_type len type, fh_flags = flags, fh_stream_id = sid\<rparr>"
    and "type AND 0xff \<noteq> 0"
  shows "frame_data [control_buffer frame nodelay] = 0"
proof -
  let ?h = "\<lparr>fh_length_type = set_length_type len type, fh_flags = flags, fh_stream_id = sid\<rparr>"
  have "frame = frame_header_bytes ?h @ drop 9 frame" using assms(1) by (metis append_take_drop_id)
  then have "hb_body (control_buffer frame nodelay) = Data (frame_header_bytes ?h @ drop 9 frame)"
    by (simp add: control_buffer_def)
  from frame_data_header [OF this] show ?thesis using assms(2) by (simp add: parse_type_set)
qed

lemma length_header_bytes [simp]: "length (frame_header_bytes h) = 9"
  by (simp add: frame_header_bytes_def)

lemma take_fill_frame: "take 9 (fill_frame (get_frame sid len type flags) p) =
    frame_header_bytes \<lparr>fh_length_type = set_length_type (of_nat len) type, fh_flags = flags, fh_stream_id = sid\<rparr>"
  by (simp add: fill_frame_def get_frame_def)

lemma filled_frames_no_data [simp]:
  "frame_data [control_buffer (window_update_frame sid w) nd] = 0"
  "frame_data [control_buffer (rst_stream_frame sid st) nd] = 0"
  "frame_data [control_buffer (goaway_frame sid st) nd] = 0"
  unfolding window_update_frame_def rst_stream_frame_def goaway_frame_def
  by (rule frame_data_control [OF take_fill_frame],
      simp add: KGL_HTTP_V2_WINDOW_UPDATE_FRAME_def KGL_HTTP_V2_RST_STREAM_FRAME_def KGL_HTTP_V2_GOAWAY_FRAME_def)+

lemma settings_frames_no_data [simp]:
  "frame_data [control_buffer settings_ack_frame nd] = 0" "frame_data [control_buffer (settings_frame n) nd] = 0"
proof -
  let ?h = "\<lambda>len flags. \<lparr>fh_length_type = set_length_type len KGL_HTTP_V2_SETTINGS_FRAME, fh_flags = flags, fh_stream_id = 0\<rparr>"
  have "take 9 (frame_header_bytes (?h len flags) @ r) = frame_header_bytes (?h len flags)" for len flags r by simp
  note no = frame_data_control [OF this]
  show "frame_data [control_buffer settings_ack_frame nd] = 0"
    using no [of 0 KGL_HTTP_V2_ACK_FLAG "[]" nd] by (simp add: settings_ack_frame_def KGL_HTTP_V2_SETTINGS_FRAME_def)
  show "frame_data [control_buffer (settings_frame n) nd] = 0"
    unfolding settings_frame_def by (rule no) (simp add: KGL_HTTP_V2_SETTINGS_FRAME_def)
qed

lemma empty_data_frame [simp]: "frame_data [control_buffer (get_frame sid 0 0 flags) nd] = 0"
proof -
  let ?h = "\<lparr>fh_length_type = set_length_type 0 0, fh_flags = flags, fh_stream_id = sid\<rparr>"
  have "hb_body (control_buffer (get_frame sid 0 0 flags) nd) = Data (frame_header_bytes ?h @ [])"
    by (simp add: control_buffer_def get_frame_def)
  from frame_data_header [OF this] show ?thesis
    by (simp add: set_length_type_def kgl_http_v2_parse_length_def)
qed

lemma data_frame_data:
  assumes "0 \<le> n" "n < 2 ^ 24" "hb_body b = Data (data_frame_header sid n fin)"
  shows "frame_data (b # bs) = n"
proof -
  obtain m where m: "n = int m" using assms(1) nonneg_int_cases by blast
  then have u: "unat (of_int n :: u32) = m" using assms(2) by (simp add: unat_of_nat)
  then have "unat (of_int n :: u32) < 2 ^ 24" using m assms(2) by simp
  then have "kgl_http_v2_parse_length (set_length_type (of_int n) 0) = of_int n"
    by (rule set_length_type_parts) simp
  moreover have "uint (of_int n :: u32) = n" using u m by (metis of_nat_unat)
  ultimately show ?thesis
    using frame_data_header [of b _ "[]"] assms(3)
    by (simp add: data_frame_header_def parse_type_set)
qed

lemma mark_last_Cons: "\<exists>b bs'. mark_last ctx nd (a # bs) = b # bs' \<and> hb_body b = hb_body a"
  by (cases bs) (simp_all add: mark_last_def)

lemma header_block_no_data: "frame_data (header_buffers fin (hf_create junk sid fin' mx hf)) = 0"
proof -
  let ?fs = "hf_create junk sid fin' mx hf"
  have "\<exists>h cs fs. ?fs = (h, cs) # fs \<and> (kgl_http_v2_parse_type (fh_length_type h) \<noteq> 0 \<or> h = zero_header)"
  proof (cases "length (concat hf) \<le> mx")
    case True
    then show ?thesis
      by (simp add: hf_create_def hf_create_loop_fits set_header_def parse_type_set KGL_HTTP_V2_HEADERS_FRAME_def)
  next
    case False
    then have "?fs \<noteq> [] \<and> fst (hd ?fs) = zero_header"
      unfolding hf_create_def by (intro hf_create_loop_splits) auto
    then show ?thesis by (cases ?fs) auto
  qed
  then obtain h cs fs where h: "?fs = (h, cs) # fs" "kgl_http_v2_parse_type (fh_length_type h) \<noteq> 0 \<or> h = zero_header"
    by blast
  have "\<exists>b bs. header_buffers fin ?fs = b # bs \<and> hb_body b = Data (frame_header_bytes h @ [])"
    unfolding h(1) header_buffers_def Let_def plain_buffer_def by (auto simp: Let_def)
  then show ?thesis using h(2) frame_data_header [of _ h "[]"]
    by (auto simp: zero_header_def kgl_http_v2_parse_length_def)
qed

section \<open>The invariant of the windows\<close>

definition event_ok :: "bool \<Rightarrow> h2_event \<Rightarrow> bool" where
  "event_ok sendfile e \<longleftrightarrow> 0 < ev_buf_len e \<and>
     (case ev_buf e of
        None \<Rightarrow> False
      | Some (Kfile _) \<Rightarrow> sendfile
      | Some (Kbufs bufs) \<Rightarrow> \<not> sendfile \<and> ev_buf_len e \<le> int (length (concat bufs)))"

definition in_range :: "int \<Rightarrow> h2_stream \<Rightarrow> bool" where
  "in_range iw s \<longleftrightarrow> iw - KGL_HTTP_V2_MAX_WINDOW \<le> st_send_window s \<and> st_send_window s \<le> KGL_HTTP_V2_MAX_WINDOW"

definition waits :: "h2_stream \<Rightarrow> bool" where
  "waits s \<longleftrightarrow> (case st_write_wait s of None \<Rightarrow> False | Some e \<Rightarrow> wait_for_window e)"

definition stream_ok :: "int \<Rightarrow> h2_stream \<Rightarrow> bool" where
  "stream_ok iw s \<longleftrightarrow> in_range iw s \<and> (waits s \<longrightarrow> st_queued s \<and> event_ok (st_sendfile s) (the (st_write_wait s)))"

definition stuck :: "int \<Rightarrow> h2_stream \<Rightarrow> bool" where
  "stuck cw s \<longleftrightarrow> waits s \<and> 0 < st_send_window s \<and> 0 < cw"

text \<open>No stream outside \<open>todo\<close> waits for a window that is open.\<close>

definition flow_inv :: "u32 set \<Rightarrow> 'a h2_conn_scheme \<Rightarrow> bool" where
  "flow_inv todo c \<longleftrightarrow> index_ok (c_index c) \<and> 0 \<le> c_send_window c \<and> c_send_window c \<le> KGL_HTTP_V2_MAX_WINDOW \<and>
     0 \<le> c_init_window c \<and> c_init_window c \<le> KGL_HTTP_V2_MAX_WINDOW \<and>
     KGL_HTTP_V2_DEFAULT_FRAME_SIZE \<le> c_frame_size c \<and> c_frame_size c < 2 ^ 24 \<and>
     (\<forall>j s. find_node j (c_index c) = Some (Some s) \<longrightarrow>
        stream_ok (c_init_window c) s \<and> (j \<notin> todo \<longrightarrow> \<not> stuck (c_send_window c) s))"

lemmas window_consts = KGL_HTTP_V2_MAX_WINDOW_def KGL_HTTP_V2_DEFAULT_FRAME_SIZE_def KGL_HTTP_V2_DEFAULT_WINDOW_def

text \<open>The invariant reads only the index and three of the counters.\<close>

lemma flow_same [simp]:
  "flow_inv todo (push_buffer bufs c) \<longleftrightarrow> flow_inv todo c" "flow_inv todo (start_write c) \<longleftrightarrow> flow_inv todo c"
  "flow_inv todo (wake_read sid re got c) \<longleftrightarrow> flow_inv todo c" "flow_inv todo (wake_write sid we got c) \<longleftrightarrow> flow_inv todo c"
  "flow_inv todo (destroy_if_done c) \<longleftrightarrow> flow_inv todo c"
  "flow_inv todo (c\<lparr>c_write_processing := b\<rparr>) \<longleftrightarrow> flow_inv todo c" "flow_inv todo (c\<lparr>c_read_processing := b\<rparr>) \<longleftrightarrow> flow_inv todo c"
  "flow_inv todo (c\<lparr>c_closed := b\<rparr>) \<longleftrightarrow> flow_inv todo c" "flow_inv todo (c\<lparr>c_self_goaway := b\<rparr>) \<longleftrightarrow> flow_inv todo c"
  "flow_inv todo (c\<lparr>c_write_buffer := w\<rparr>) \<longleftrightarrow> flow_inv todo c" "flow_inv todo (c\<lparr>c_processing := n\<rparr>) \<longleftrightarrow> flow_inv todo c"
  by (simp_all add: flow_inv_def)

lemma flow_put:
  assumes "flow_inv todo c" "stream_ok (c_init_window c) s" "\<not> stuck (c_send_window c) s"
  shows "flow_inv (todo - {sid}) (put_stream sid s c)"
  using assms by (auto simp: flow_inv_def nodes.ok_put nodes.look_put split: if_splits)

lemma data_buffers_total:
  "0 \<le> n \<Longrightarrow> n \<le> int (length (concat bufs)) \<Longrightarrow> 0 \<le> len \<Longrightarrow>
   \<exists>ds. data_buffers len n bufs = Some ds \<and> concat ds = take (nat (min len n)) (concat bufs)"
proof (induction bufs arbitrary: len n)
  case Nil
  then show ?case by (simp add: data_buffers.simps)
next
  case (Cons b bs)
  show ?case
  proof (cases "n = 0 \<or> len = 0")
    case True
    with Cons.prems show ?thesis by (auto simp: data_buffers.simps)
  next
    case False
    let ?u = "min len (min (int (length b)) n)"
    show ?thesis
    proof (cases "?u = int (length b)")
      case True
      then have "0 \<le> n - ?u" "n - ?u \<le> int (length (concat bs))" "0 \<le> len - ?u" using Cons.prems by auto
      from Cons.IH [OF this] obtain ds where ds: "data_buffers (len - ?u) (n - ?u) bs = Some ds"
        "concat ds = take (nat (min (len - ?u) (n - ?u))) (concat bs)" by blast
      have "nat (min len n) = length b + nat (min (len - ?u) (n - ?u))" using True by auto
      with ds True False Cons.prems show ?thesis by (simp add: data_buffers.simps [of len n "b # bs"])
    next
      case neq: False
      then have u: "?u = min len n" "nat ?u < length b" using False Cons.prems by auto
      then have "concat [take (nat ?u) b] = take (nat (min len n)) (concat (b # bs))" by simp
      with neq False Cons.prems show ?thesis
        by (intro exI [of _ "[take (nat ?u) b]"]) (simp add: data_buffers.simps [of len n "b # bs"])
    qed
  qed
qed

lemma frame_payload_ok:
  assumes "event_ok (st_sendfile s) e" "0 < len"
  shows "\<exists>payload n. frame_payload e (st_sendfile s) len = Some (payload, n) \<and> 0 \<le> n \<and> n \<le> len"
proof (cases "ev_buf e")
  case None
  with assms show ?thesis by (simp add: event_ok_def)
next
  case (Some b)
  show ?thesis
  proof (cases b)
    case (Kbufs bufs)
    with Some assms have n: "0 \<le> ev_buf_len e" "ev_buf_len e \<le> int (length (concat bufs))" "\<not> st_sendfile s"
      by (auto simp: event_ok_def)
    obtain ds where ds: "data_buffers len (ev_buf_len e) bufs = Some ds"
      "concat ds = take (nat (min len (ev_buf_len e))) (concat bufs)"
      using data_buffers_total [OF n(1,2) less_imp_le [OF assms(2)]] by blast
    have "length (concat ds) \<le> nat len" unfolding ds(2) length_take using assms(2) by linarith
    then show ?thesis using Some Kbufs n ds(1) assms(2) by (simp add: frame_payload_def)
  next
    case (Kfile off)
    have "min len (ev_buf_len e) mod 2 ^ 16 \<le> min len (ev_buf_len e)"
      using assms by (intro zmod_le_nonneg_dividend) (auto simp: event_ok_def)
    then show ?thesis using Some Kfile assms by (simp add: frame_payload_def event_ok_def Let_def)
  qed
qed

lemma stuck_mono: "\<not> stuck cw s \<Longrightarrow> cw' \<le> cw \<Longrightarrow> \<not> stuck cw' s"
  by (auto simp: stuck_def)

lemma flow_smaller:
  assumes "flow_inv todo c" "0 \<le> w" "w \<le> c_send_window c"
  shows "flow_inv todo (c\<lparr>c_send_window := w\<rparr>)"
  using assms stuck_mono [where cw' = w] by (auto simp: flow_inv_def)

lemma stream_ids_put [simp]: "stream_ids (put_stream sid s c) = stream_ids c"
proof -
  have "map fst (put_node sid n idx ! i) = map fst (idx ! i)" if "i < length idx" for n and idx :: "h2_stream option node_index" and i
    using that by (cases "i = kgl_http_v2_index sid") (simp_all add: put_node_def Let_def map_fst_put del: map_map)
  then have "map (map fst) (put_node sid (Some s) (c_index c)) = map (map fst) (c_index c)"
    by (simp add: list_eq_iff_nth_eq [of "map (map fst) _" "map (map fst) _"]) (simp add: put_node_def Let_def)
  then show ?thesis by (simp add: stream_ids_def map_concat)
qed

text \<open>The central step, if no assertion fails: a stream that waits gets its frame or goes on waiting without a window.\<close>

lemma window_ready:
  assumes inv: "flow_inv todo c" and s: "in_range (c_init_window c) s" "st_write_wait s = Some e" "wait_for_window e" "event_ok (st_sendfile s) e"
    and r: "on_write_window_ready sid s e c = Some (len, c')"
  shows "flow_inv (todo - {sid}) c' \<and>
    data_sent (c_pushed c') + c_send_window c' = data_sent (c_pushed c) + c_send_window c \<and>
    stream_ids c' = stream_ids c"
proof -
  have b: "0 \<le> c_send_window c" "c_send_window c \<le> KGL_HTTP_V2_MAX_WINDOW" "0 \<le> c_init_window c"
    "KGL_HTTP_V2_DEFAULT_FRAME_SIZE \<le> c_frame_size c" "c_frame_size c < 2 ^ 24"
    using inv by (auto simp: flow_inv_def)
  then have i32: "int32 (c_frame_size c) = c_frame_size c" "int32 (c_send_window c) = c_send_window c"
    by (simp_all add: window_consts)
  let ?len = "min (min (c_frame_size c) (st_send_window s)) (c_send_window c)"
  show ?thesis
  proof (cases "?len \<le> 0")
    case True
    have "stream_ok (c_init_window c) (AddQueue s)" "\<not> stuck (c_send_window c) (AddQueue s)"
      using True s b by (auto simp: stream_ok_def in_range_def AddQueue_def waits_def stuck_def window_consts)
    from flow_put [OF inv this, of sid] True r show ?thesis
      by (auto simp: on_write_window_ready_def i32 Let_def split: if_splits)
  next
    case False
    obtain payload n where p: "frame_payload e (st_sendfile s) ?len = Some (payload, n)" "0 \<le> n" "n \<le> ?len"
      using frame_payload_ok [OF s(4)] False by (metis not_le)
    define fin where "fin = (st_content_left s > 0 \<and> st_content_left s - n \<le> 0)"
    define s' where "s' = s\<lparr>st_write_wait := Some (e\<lparr>ev_len := n\<rparr>),
      st_content_left := (if st_content_left s > 0 then st_content_left s - n else st_content_left s),
      st_out_closed := st_out_closed s \<or> fin, st_send_window := st_send_window s - n\<rparr>"
    define bufs where "bufs = mark_last (unat sid) fin (plain_buffer (data_frame_header sid n fin) # payload)"
    have live: "wait_for_window e" "\<not> IsWriteClosed s c" using r by (auto simp: on_write_window_ready_def Let_def split: if_splits)
    have pos: "0 < n" using r False p(1)
      by (auto simp: on_write_window_ready_def build_write_buffer_def i32 Let_def split: if_splits)
    have eq: "on_write_window_ready sid s e c = Some (n, (put_stream sid (FlushQueue s')
        (push_buffer bufs (c\<lparr>c_send_window := uint32 (c_send_window c - n)\<rparr>)))\<lparr>c_write_processing := True\<rparr>)"
      using False p(1) pos live by (simp add: on_write_window_ready_def build_write_buffer_def i32 Let_def s'_def bufs_def fin_def)
    have w: "uint32 (c_send_window c - n) = c_send_window c - n"
      using p b by (intro uint32_id) (auto simp: window_consts)
    have "\<not> waits (FlushQueue s')" using p(2) by (simp add: waits_def FlushQueue_def s'_def wait_for_window_def)
    moreover have "in_range (c_init_window c) (FlushQueue s')"
      using s(1) p(2,3) b inv by (auto simp: in_range_def FlushQueue_def s'_def flow_inv_def)
    ultimately have s': "stream_ok (c_init_window c) (FlushQueue s')" "\<not> stuck (c_send_window c - n) (FlushQueue s')"
      by (auto simp: stream_ok_def stuck_def)
    have "flow_inv todo (push_buffer bufs (c\<lparr>c_send_window := c_send_window c - n\<rparr>))"
      using flow_smaller [OF inv, of "c_send_window c - n"] p by simp
    from flow_put [OF this, of "FlushQueue s'" sid] s'
    have "flow_inv (todo - {sid}) (put_stream sid (FlushQueue s') (push_buffer bufs (c\<lparr>c_send_window := c_send_window c - n\<rparr>)))"
      by simp
    moreover obtain b0 bs0 where "bufs = b0 # bs0" "hb_body b0 = Data (data_frame_header sid n fin)"
      using mark_last_Cons [of "unat sid" fin "plain_buffer (data_frame_header sid n fin)" payload]
      by (auto simp: bufs_def plain_buffer_def)
    then have "frame_data bufs = n" using data_frame_data [of n] p b by simp
    moreover have "c' = (put_stream sid (FlushQueue s')
        (push_buffer bufs (c\<lparr>c_send_window := c_send_window c - n\<rparr>)))\<lparr>c_write_processing := True\<rparr>" using r unfolding eq w by blast
    ultimately show ?thesis
      using stream_ids_put [of sid "FlushQueue s'" "push_buffer bufs (c\<lparr>c_send_window := c_send_window c - n\<rparr>)"]
      by (simp add: stream_ids_def)
  qed
qed

section \<open>Every operation keeps the invariant\<close>

definition budget :: "'a h2_conn_scheme \<Rightarrow> int" where
  "budget c = data_sent (c_pushed c) + c_send_window c"

lemma budget_simps [simp]:
  "budget (start_write c) = budget c" "budget (wake_read sid re got c) = budget c" "budget (wake_write sid we got c) = budget c"
  "budget (put_stream sid s c) = budget c" "budget (destroy_if_done c) = budget c"
  "budget (push_buffer bufs c) = budget c + frame_data bufs"
  "budget (c\<lparr>c_write_processing := b\<rparr>) = budget c" "budget (c\<lparr>c_read_processing := b\<rparr>) = budget c"
  "budget (c\<lparr>c_closed := b\<rparr>) = budget c" "budget (c\<lparr>c_self_goaway := b\<rparr>) = budget c"
  "budget (c\<lparr>c_write_buffer := w\<rparr>) = budget c" "budget (c\<lparr>c_processing := n\<rparr>) = budget c"
  "budget (c\<lparr>c_index := i\<rparr>) = budget c" "budget (c\<lparr>c_init_window := n\<rparr>) = budget c"
  by (simp_all add: budget_def)

lemma get_stream_find: "get_stream sid c = Some s \<longleftrightarrow> find_node sid (c_index c) = Some (Some s)"
  by (auto simp: get_stream_def split: option.splits)

lemma flow_stream:
  assumes "flow_inv todo c" "get_stream sid c = Some s"
  shows "stream_ok (c_init_window c) s" "sid \<notin> todo \<Longrightarrow> \<not> stuck (c_send_window c) s"
  using assms by (auto simp: flow_inv_def get_stream_find)

lemma flow_mono: "flow_inv todo c \<Longrightarrow> todo \<subseteq> todo' \<Longrightarrow> flow_inv todo' c"
  by (auto simp: flow_inv_def)

lemma flow_quiet:
  assumes "flow_inv todo c" "c_send_window c = 0" shows "flow_inv {} c"
  using assms by (auto simp: flow_inv_def stuck_def)

lemma flow_done:
  assumes "flow_inv (insert sid todo) c" "\<And>s. get_stream sid c = Some s \<Longrightarrow> \<not> stuck (c_send_window c) s"
  shows "flow_inv todo c"
  using assms by (auto simp: flow_inv_def get_stream_find)

lemma check_loop:
  "flow_inv (set sids) c \<Longrightarrow> check_write_wait_loop sids c = Some c' \<Longrightarrow> flow_inv {} c' \<and> budget c' = budget c"
proof (induction sids arbitrary: c)
  case (Cons sid sids)
  have cw: "0 \<le> c_send_window c" using Cons.prems(1) by (simp add: flow_inv_def)
  show ?case
  proof (cases "c_send_window c \<le> 0")
    case True
    with cw flow_quiet [OF Cons.prems(1)] Cons.prems(2) show ?thesis by simp
  next
    case pos: False
    show ?thesis
    proof (cases "\<exists>s. get_stream sid c = Some s \<and> stuck (c_send_window c) s")
      case False
      then have "flow_inv (set sids) c" using flow_done [of sid "set sids" c] Cons.prems(1) by auto
      moreover have "check_write_wait_loop (sid # sids) c = check_write_wait_loop sids c"
      proof (cases "get_stream sid c")
        case (Some s)
        with False pos show ?thesis by (cases "st_write_wait s") (auto simp: stuck_def waits_def)
      qed (use pos in simp)
      ultimately show ?thesis using Cons.IH [of c] Cons.prems(2) by simp
    next
      case True
      then obtain s e where s: "get_stream sid c = Some s" "0 < st_send_window s" "st_write_wait s = Some e" "wait_for_window e"
        by (auto simp: stuck_def waits_def split: option.splits)
      have ok: "in_range (c_init_window c) s" "event_ok (st_sendfile s) e"
        using flow_stream(1) [OF Cons.prems(1) s(1)] s(3,4) by (simp_all add: stream_ok_def waits_def)
      obtain len c1 where ready: "on_write_window_ready sid s e c = Some (len, c1)" "check_write_wait_loop sids c1 = Some c'"
        using Cons.prems(2) s pos by (auto split: option.splits)
      have c1: "flow_inv (set (sid # sids) - {sid}) c1" "budget c1 = budget c"
        using window_ready [OF Cons.prems(1) ok(1) s(3,4) ok(2) ready(1)] unfolding budget_def by blast+
      from c1(1) have "flow_inv (set sids) c1" by (rule flow_mono) auto
      from Cons.IH [OF this ready(2)] c1(2) show ?thesis by simp
    qed
  qed
qed simp

lemma flow_ids: "flow_inv UNIV c \<Longrightarrow> flow_inv (set (stream_ids c)) c"
proof -
  have "j \<in> set (stream_ids c)" if "index_ok (c_index c)" "find_node j (c_index c) = Some n" for j n
  proof -
    have "(j, n) \<in> set (c_index c ! kgl_http_v2_index j)" using that(2) unfolding find_node_def by (rule map_of_SomeD)
    moreover have "c_index c ! kgl_http_v2_index j \<in> set (c_index c)" using that(1) by (simp add: index_ok_def)
    ultimately show ?thesis by (force simp: stream_ids_def)
  qed
  then show "flow_inv UNIV c \<Longrightarrow> flow_inv (set (stream_ids c)) c" by (auto simp: flow_inv_def)
qed

lemma check_wait:
  "flow_inv UNIV c \<Longrightarrow> check_write_wait c = Some c' \<Longrightarrow> flow_inv {} c' \<and> budget c' = budget c"
  unfolding check_write_wait_def by (rule check_loop [OF flow_ids])

lemma find_map_index:
  "find_node j (map (map (\<lambda>(k, n). (k, f n))) idx) = map_option f (find_node j idx)"
  if "index_ok idx" for f :: "'a \<Rightarrow> 'a"
proof -
  have "map_of (map (\<lambda>(k, n). (k, f n)) ns) j = map_option f (map_of ns j)" for ns :: "(u32 \<times> 'a) list"
    by (induction ns) auto
  with that show ?thesis by (simp add: find_node_def index_ok_def)
qed

lemma index_ok_map: "index_ok idx \<Longrightarrow> index_ok (map (map (\<lambda>(k, n). (k, f n))) idx)" for f :: "'a \<Rightarrow> 'a"
  unfolding index_ok_def by (fastforce simp: case_prod_unfold comp_def)

lemma adjust_windows_ok:
  assumes inv: "flow_inv {} c" and w: "0 \<le> window" "window \<le> KGL_HTTP_V2_MAX_WINDOW"
    and r: "adjust_windows window c = Some c'"
  shows "flow_inv {} c' \<and> budget c' = budget c"
proof -
  let ?delta = "window - c_init_window c"
  let ?c = "c\<lparr>c_init_window := window, c_index := map (map (\<lambda>(k, n). (k, map_option (adjust_window ?delta) n))) (c_index c)\<rparr>"
  have b: "0 \<le> c_init_window c" "c_init_window c \<le> KGL_HTTP_V2_MAX_WINDOW" using inv by (auto simp: flow_inv_def)
  have d: "int32 ?delta = ?delta" "uint32 window = window" using b w by (simp_all add: window_consts)
  have adj: "stream_ok window (adjust_window ?delta s)" if s: "stream_ok (c_init_window c) s" for s
  proof -
    have i: "int32 (KGL_HTTP_V2_MAX_WINDOW - ?delta) = KGL_HTTP_V2_MAX_WINDOW - ?delta" if "?delta > 0"
      using that b w by (simp add: window_consts)
    have "in_range window (adjust_window ?delta s)"
      using s b w by (auto simp: stream_ok_def in_range_def adjust_window_def i)
    then show ?thesis using s by (auto simp: stream_ok_def adjust_window_def waits_def)
  qed
  have "flow_inv UNIV ?c"
    using inv w by (auto simp: flow_inv_def index_ok_map find_map_index adj)
  from check_wait [OF this, of c'] r show ?thesis by (simp add: adjust_windows_def d Let_def)
qed

lemma flow_update:
  assumes "flow_inv {} c" "get_stream sid c = Some s" "st_send_window s' = st_send_window s"
    and "waits s' \<Longrightarrow> st_write_wait s' = st_write_wait s \<and> st_sendfile s' = st_sendfile s \<and> st_queued s'"
  shows "flow_inv {} (put_stream sid s' c)"
proof -
  have s: "stream_ok (c_init_window c) s" "\<not> stuck (c_send_window c) s" using flow_stream [OF assms(1,2)] by auto
  have "waits s' \<Longrightarrow> waits s" using assms(4) by (simp add: waits_def)
  with s assms(3,4) have "stream_ok (c_init_window c) s'" "\<not> stuck (c_send_window c) s'"
    by (auto simp: stream_ok_def stuck_def in_range_def)
  from flow_put [OF assms(1) this] show ?thesis by simp
qed

lemma shut_facts [simp]: "st_send_window (shut_stream s) = st_send_window s" "\<not> waits (shut_stream s)"
  by (auto simp: shut_stream_def waits_def take_write_wait_def wait_for_window_def wait_for_writing_def split: option.splits)

lemma terminate_ok:
  assumes "flow_inv {} c" "get_stream sid c = Some s"
  shows "flow_inv {} (snd (terminate_stream sid s st c)) \<and> budget (snd (terminate_stream sid s st c)) = budget c"
  using flow_update [OF assms, of "shut_stream s"] by (simp add: terminate_stream_def send_rst_stream_def Let_def)

lemma reset_ok:
  assumes "flow_inv {} c" "get_stream sid c = Some s"
  shows "flow_inv {} (reset_stream sid s c) \<and> budget (reset_stream sid s c) = budget c"
proof -
  let ?s = "(shut_stream s)\<lparr>st_read_buffer := map_option sb_clean (st_read_buffer s)\<rparr>"
  have "\<not> waits ?s" using shut_facts(2) [of s] by (simp add: waits_def)
  then show ?thesis using flow_update [OF assms, of ?s] by (simp add: reset_stream_def Let_def)
qed

lemma release_ok:
  assumes "flow_inv {} c"
  shows "flow_inv {} (h2_release sid s c) \<and> budget (h2_release sid s c) = budget c"
proof -
  have "flow_inv {} (c1\<lparr>c_index := destroy_node sid (c_index c1)\<rparr>)" if "flow_inv {} c1" for c1 :: "'a h2_conn_scheme"
    using that by (auto simp: flow_inv_def nodes.ok_destroy nodes.look_destroy split: if_splits)
  with assms show ?thesis
    by (simp add: h2_release_def release_admin_def release_stream_def send_rst_stream_def Let_def)
qed

lemma remove_buff_ok:
  "flow_inv {} c \<Longrightarrow> flow_inv {} (remove_buff bufs fin c) \<and> budget (remove_buff bufs fin c) = budget c"
proof (induction bufs arbitrary: c)
  case (Cons b bs)
  have "flow_inv {} (put_stream sid (s\<lparr>st_write_wait := None\<rparr>) c)" if "get_stream sid c = Some s" for sid s
    using flow_update [OF Cons.prems that, of "s\<lparr>st_write_wait := None\<rparr>"] by (simp add: waits_def)
  with Cons show ?case by (auto simp: Let_def split: option.splits)
qed simp

lemma close_streams_ok:
  "flow_inv {} c \<Longrightarrow> flow_inv {} (close_streams sids c) \<and> budget (close_streams sids c) = budget c"
proof (induction sids arbitrary: c)
  case (Cons sid sids)
  have "flow_inv {} (put_stream sid (shut_stream s) c)" if "get_stream sid c = Some s" for s
    using flow_update [OF Cons.prems that, of "shut_stream s"] by simp
  with Cons show ?case by (auto split: option.splits)
qed simp

lemma close_ok:
  assumes "flow_inv {} c"
  shows "flow_inv {} (h2_close read c) \<and> budget (h2_close read c) = budget c"
  using assms by (simp add: h2_close_def wb_clean_def Let_def close_streams_ok remove_buff_ok)

lemma written_ok:
  assumes "flow_inv {} c"
  shows "flow_inv {} (on_write_result got c) \<and> budget (on_write_result got c) = budget c"
  using assms by (simp add: on_write_result_def try_write_def close_ok remove_buff_ok split: prod.split)

lemma send_header_ok:
  assumes "send_header junk sid s fin c = (s', c')" "flow_inv {} c"
  shows "flow_inv {} c'" "budget c' = budget c" "c_init_window c' = c_init_window c" "c_index c' = c_index c"
    "c_send_window c' = c_send_window c" "st_send_window s' = st_send_window s" "st_write_wait s' = st_write_wait s"
    "st_sendfile s' = st_sendfile s" "st_queued s' = st_queued s"
  using assms by (auto simp: send_header_def Let_def header_block_no_data split: if_splits option.splits)

lemma write_event_ok:
  assumes inv: "flow_inv {} c" and s: "get_stream sid c = Some s" and ev: "event_ok is_file \<lparr>ev_buf = Some buf, ev_buf_len = n, ev_len = - 1\<rparr>"
    and r: "write_event junk is_file sid s buf n c = Some (r, c')"
  shows "flow_inv {} c' \<and> budget c' = budget c"
proof -
  let ?s = "s\<lparr>st_write_wait := None\<rparr>" and ?e = "\<lparr>ev_buf = Some buf, ev_buf_len = n, ev_len = - 1\<rparr>"
  show ?thesis
  proof (cases "IsWriteClosed ?s c")
    case True
    then show ?thesis using flow_update [OF inv s, of ?s] r by (auto simp: write_event_def waits_def)
  next
    case False
    obtain s1 c1 where h: "(if st_send_header s \<noteq> None then send_header junk sid ?s (st_content_left s = 0) c else (?s, c)) = (s1, c1)"
      by fastforce
    then have c1: "flow_inv {} c1" "budget c1 = budget c" "c_init_window c1 = c_init_window c" "st_send_window s1 = st_send_window s"
      using inv send_header_ok [of junk sid ?s _ c s1 c1] by (auto split: if_splits)
    let ?s2 = "s1\<lparr>st_sendfile := is_file, st_write_wait := Some ?e\<rparr>"
    have "in_range (c_init_window c1) ?s2"
      using flow_stream(1) [OF inv s] c1 by (simp add: stream_ok_def in_range_def)
    moreover obtain len where "on_write_window_ready sid ?s2 ?e c1 = Some (len, c')"
      using r False h by (cases "st_send_header s") (auto simp: write_event_def Let_def split: if_splits)
    ultimately have "flow_inv ({} - {sid}) c'" "budget c' = budget c1"
      using window_ready [OF c1(1), of ?s2 ?e sid len c'] ev unfolding budget_def by (auto simp: wait_for_window_def)
    with c1 show ?thesis by simp
  qed
qed

lemma write_end_ok:
  assumes inv: "flow_inv {} c" and s: "get_stream sid c = Some s" and r: "write_end junk sid s c = Some c'"
  shows "flow_inv {} c' \<and> budget c' = budget c"
proof -
  have ok: "flow_inv {} (put_stream sid s1 c1) \<and> budget (put_stream sid s1 c1) = budget c"
    if "send_header junk sid s0 fin c0 = (s1, c1)" "flow_inv {} c0" "c_index c0 = c_index c" "budget c0 = budget c"
      "st_send_window s0 = st_send_window s" "st_write_wait s0 = st_write_wait s" "st_sendfile s0 = st_sendfile s"
      "st_queued s0 = st_queued s" for s0 c0 s1 c1 fin
  proof -
    note h = send_header_ok [OF that(1,2)]
    have g: "get_stream sid c1 = Some s" using s h(4) that(3) by (simp add: get_stream_def)
    have "waits s1 \<Longrightarrow> st_queued s1"
      using flow_stream(1) [OF inv s] h that by (simp add: stream_ok_def waits_def)
    then show ?thesis using flow_update [OF h(1) g, of s1] h that by simp
  qed
  show ?thesis
  proof (cases "IsWriteClosed s c")
    case True
    with inv r show ?thesis by (simp add: write_end_def)
  next
    case False
    let ?c = "\<lambda>flags. push_buffer [control_buffer (get_frame sid 0 0 flags) True] c"
    have g: "get_stream sid (?c flags) = Some s" "flow_inv {} (?c flags)" for flags using s inv by (simp_all add: get_stream_def)
    obtain s1 c1 where 1: "send_header junk sid (set_content_length 0 s) True c = (s1, c1)" by fastforce
    obtain s2 c2 where 2: "send_header junk sid s True (?c 0) = (s2, c2)" by fastforce
    have 3: "flow_inv {} (put_stream sid (s\<lparr>st_out_closed := True\<rparr>) (?c flags))" for flags
      using flow_stream(1) [OF inv s] by (intro flow_update [OF g(2,1)]) (simp_all add: stream_ok_def waits_def)
    have "flow_inv {} (put_stream sid s1 c1) \<and> budget (put_stream sid s1 c1) = budget c"
      by (rule ok [OF 1 inv]) (simp_all add: set_content_length_def)
    moreover have "flow_inv {} (put_stream sid s2 c2) \<and> budget (put_stream sid s2 c2) = budget c"
      by (rule ok [OF 2 g(2)]) simp_all
    ultimately show ?thesis using False 1 2 3 r
      by (cases "st_send_header s"; cases "st_write_trailer s") (auto simp: write_end_def Let_def split: if_splits)
  qed
qed

text \<open>A window update is refused when it would take the window above its limit.\<close>

definition window_granted :: "int \<Rightarrow> 'a h2_conn_scheme \<Rightarrow> int" where
  "window_granted w c = (if w \<le> KGL_HTTP_V2_MAX_WINDOW - c_send_window c then w else 0)"

lemma window_update_conn:
  assumes inv: "flow_inv {} c" and w: "0 \<le> w" "w \<le> KGL_HTTP_V2_MAX_WINDOW"
    and r: "window_update 0 w c = Some c'"
  shows "flow_inv {} c' \<and> budget c' = budget c + window_granted w c"
proof -
  have b: "0 \<le> c_send_window c" "c_send_window c \<le> KGL_HTTP_V2_MAX_WINDOW" using inv by (auto simp: flow_inv_def)
  have u: "uint32 (KGL_HTTP_V2_MAX_WINDOW - c_send_window c) = KGL_HTTP_V2_MAX_WINDOW - c_send_window c"
    using b by (intro uint32_id) (auto simp: window_consts)
  show ?thesis
  proof (cases "w > KGL_HTTP_V2_MAX_WINDOW - c_send_window c")
    case True
    with close_ok [OF inv, of True] r show ?thesis by (auto simp: window_update_def u window_granted_def)
  next
    case fits: False
    let ?c = "c\<lparr>c_send_window := c_send_window c + w\<rparr>"
    have s: "uint32 (c_send_window c + w) = c_send_window c + w"
      using b w fits by (intro uint32_id) (auto simp: window_consts)
    have bud: "budget ?c = budget c + w" by (simp add: budget_def)
    show ?thesis
    proof (cases "c_send_window c \<le> 0")
      case True
      have "flow_inv UNIV ?c" using inv b w fits by (auto simp: flow_inv_def)
      from check_wait [OF this, of c'] show ?thesis using True fits bud r
        by (auto simp: window_update_def u s window_granted_def)
    next
      case False
      have "flow_inv {} ?c" using inv b w fits False by (auto simp: flow_inv_def stuck_def)
      with False fits bud r show ?thesis by (auto simp: window_update_def u s window_granted_def)
    qed
  qed
qed

lemma window_update_stream:
  assumes inv: "flow_inv {} c" and w: "0 \<le> w" "w \<le> KGL_HTTP_V2_MAX_WINDOW" and sid: "sid \<noteq> 0"
    and r: "window_update sid w c = Some c'"
  shows "flow_inv {} c' \<and> budget c' = budget c"
proof (cases "get_stream sid c")
  case None
  with inv sid r show ?thesis by (simp add: window_update_def)
next
  case (Some s)
  have rg: "in_range (c_init_window c) s" "0 \<le> c_init_window c" using flow_stream(1) [OF inv Some] inv
    by (auto simp: stream_ok_def flow_inv_def)
  then have u: "uint32 (KGL_HTTP_V2_MAX_WINDOW - st_send_window s) = KGL_HTTP_V2_MAX_WINDOW - st_send_window s"
    by (intro uint32_id) (auto simp: window_consts in_range_def)
  let ?s = "s\<lparr>st_send_window := st_send_window s + w\<rparr>"
  show ?thesis
  proof (cases "w > KGL_HTTP_V2_MAX_WINDOW - st_send_window s")
    case True
    with Some sid terminate_ok [OF inv Some, of 3] r show ?thesis by (auto simp: window_update_def u)
  next
    case fits: False
    then have range: "in_range (c_init_window c) ?s" using rg(1) w by (simp add: in_range_def)
    show ?thesis
    proof (cases "waits s")
      case False
      then have "\<not> waits ?s" by (simp add: waits_def)
      with range have "stream_ok (c_init_window c) ?s" "\<not> stuck (c_send_window c) ?s" by (auto simp: stream_ok_def stuck_def)
      from flow_put [OF inv this, of sid] False fits sid Some r show ?thesis
        by (cases "st_write_wait s") (auto simp: window_update_def u waits_def Let_def)
    next
      case True
      then obtain e where e: "st_write_wait s = Some e" "wait_for_window e" by (auto simp: waits_def split: option.splits)
      have "event_ok (st_sendfile ?s) e" using flow_stream(1) [OF inv Some] True e by (simp add: stream_ok_def)
      moreover obtain len where "on_write_window_ready sid ?s e c = Some (len, c')"
        using r e fits sid Some by (auto simp: window_update_def u Let_def)
      ultimately show ?thesis
        using window_ready [OF inv range, of e sid len c'] e unfolding budget_def by auto
    qed
  qed
qed

lemma read_ok:
  assumes inv: "flow_inv {} c" and s: "get_stream sid c = Some s" and r: "h2_read sid s n c = Some (r, c')"
  shows "flow_inv {} c' \<and> budget c' = budget c"
proof -
  let ?s = "s\<lparr>st_write_wait := (case st_write_wait s of Some e \<Rightarrow> if wait_for_hup e then None else Some e | None \<Rightarrow> None)\<rparr>"
  obtain flag s1 c1 where k: "check_recv_window sid ?s c = (flag, s1, c1)" by (cases "check_recv_window sid ?s c") auto
  let ?c = "if flag then start_write c1 else c1"
  have c1: "flow_inv {} ?c" "budget ?c = budget c" "c_index ?c = c_index c" and s1: "st_send_window s1 = st_send_window s"
    "st_write_wait s1 = st_write_wait ?s" "st_sendfile s1 = st_sendfile s" "st_queued s1 = st_queued s"
    using k inv by (auto simp: check_recv_window_def send_window_update_def Let_def split: if_splits)
  have g: "get_stream sid ?c = Some s" using s c1(3) by (simp add: get_stream_def)
  have wt: "waits s1 \<Longrightarrow> st_write_wait s1 = st_write_wait s \<and> waits s"
    unfolding s1 waits_def by (auto simp: wait_for_hup_def wait_for_window_def split: option.splits if_splits)
  have put: "flow_inv {} (put_stream sid s2 ?c) \<and> budget (put_stream sid s2 ?c) = budget c"
    if "st_send_window s2 = st_send_window s1" "st_write_wait s2 = st_write_wait s1" "st_sendfile s2 = st_sendfile s1"
      "st_queued s1 \<longrightarrow> st_queued s2" for s2
  proof -
    have "waits s2 \<Longrightarrow> st_write_wait s2 = st_write_wait s \<and> st_sendfile s2 = st_sendfile s \<and> st_queued s2"
      using wt that s1 flow_stream(1) [OF inv s] by (simp add: waits_def stream_ok_def)
    then show ?thesis using flow_update [OF c1(1) g, of s2] that s1 c1(2) by simp
  qed
  have "\<exists>s2. c' = put_stream sid s2 ?c \<and> st_send_window s2 = st_send_window s1 \<and> st_write_wait s2 = st_write_wait s1 \<and>
      st_sendfile s2 = st_sendfile s1 \<and> (st_queued s1 \<longrightarrow> st_queued s2)"
    using r k unfolding h2_read_def Let_def
    by (auto simp: AddQueue_def split: option.splits if_splits prod.splits)
  then show ?thesis using put by blast
qed

section \<open>Steps of a connection\<close>

text \<open>
  One step: an operation of a stream's fiber, a frame of the peer or a completed write. The number
  is the increment of the connection window the step accepts. A fiber writes only after its last
  write has finished, \<open>n\<close> octets of at least as many.
\<close>

definition may_write :: "h2_stream \<Rightarrow> bool" where
  "may_write s \<longleftrightarrow> (case st_write_wait s of None \<Rightarrow> True | Some e \<Rightarrow> wait_for_hup e)"

inductive h2_step :: "int \<Rightarrow> h2_conn \<Rightarrow> h2_conn \<Rightarrow> bool" where
  open_stream: "find_node sid (c_index c) = None \<Longrightarrow>
    h2_step 0 c (c\<lparr>c_index := link_node sid (Some ((stream_Init (int32 (c_init_window c)))\<lparr>st_in_closed := fin\<rparr>)) (c_index c)\<rparr>)"
| parsed: "get_stream sid c = Some s \<Longrightarrow>
    h2_step 0 c ((put_stream sid (s\<lparr>st_parsed_header := True\<rparr>) c)\<lparr>c_processing := c_processing c + 1\<rparr>)"
| respond: "get_stream sid c = Some s \<Longrightarrow>
    h2_step 0 c (put_stream sid (s\<lparr>st_send_header := hf, st_write_trailer := tr, st_content_left := n\<rparr>) c)"
| writes: "get_stream sid c = Some s \<Longrightarrow> may_write s \<Longrightarrow> 0 < n \<Longrightarrow> n \<le> int (length (concat bufs)) \<Longrightarrow>
    h2_write junk sid s bufs n c = Some (r, c') \<Longrightarrow> h2_step 0 c c'"
| sendfiles: "get_stream sid c = Some s \<Longrightarrow> may_write s \<Longrightarrow> 0 < n \<Longrightarrow>
    h2_sendfile junk sid s off n c = Some (r, c') \<Longrightarrow> h2_step 0 c c'"
| ends: "get_stream sid c = Some s \<Longrightarrow> write_end junk sid s c = Some c' \<Longrightarrow> h2_step 0 c c'"
| reads: "get_stream sid c = Some s \<Longrightarrow> h2_read sid s k c = Some (r, c') \<Longrightarrow> h2_step 0 c c'"
| terminates: "get_stream sid c = Some s \<Longrightarrow> h2_step 0 c (snd (terminate_stream sid s st c))"
| shuts_down: "get_stream sid c = Some s \<Longrightarrow> h2_step 0 c (h2_shutdown sid s c)"
| resets: "get_stream sid c = Some s \<Longrightarrow> h2_step 0 c (reset_stream sid s c)"
| releases: "get_stream sid c = Some s \<Longrightarrow> h2_step 0 c (h2_release sid s c)"
| written: "h2_step 0 c (on_write_result got c)"
| closes: "h2_step 0 c (h2_close rd c)"
| stream_window: "sid \<noteq> 0 \<Longrightarrow> 0 \<le> w \<Longrightarrow> w \<le> KGL_HTTP_V2_MAX_WINDOW \<Longrightarrow> window_update sid w c = Some c' \<Longrightarrow> h2_step 0 c c'"
| conn_window: "0 \<le> w \<Longrightarrow> w \<le> KGL_HTTP_V2_MAX_WINDOW \<Longrightarrow> window_update 0 w c = Some c' \<Longrightarrow> h2_step (window_granted w c) c c'"
| init_window: "0 \<le> w \<Longrightarrow> w \<le> KGL_HTTP_V2_MAX_WINDOW \<Longrightarrow> adjust_windows w c = Some c' \<Longrightarrow> h2_step 0 c c'"
| max_frame: "KGL_HTTP_V2_DEFAULT_FRAME_SIZE \<le> n \<Longrightarrow> n < 2 ^ 24 \<Longrightarrow> h2_step 0 c (c\<lparr>c_frame_size := n\<rparr>)"

inductive h2_reach :: "int \<Rightarrow> h2_conn \<Rightarrow> bool" where
  initial: "h2_reach 0 h2_init"
| steps: "h2_reach g c \<Longrightarrow> h2_step w c c' \<Longrightarrow> h2_reach (g + w) c'"

lemma open_ok:
  assumes "flow_inv {} c" "find_node sid (c_index c) = None"
  shows "flow_inv {} (c\<lparr>c_index := link_node sid (Some ((stream_Init (int32 (c_init_window c)))\<lparr>st_in_closed := fin\<rparr>)) (c_index c)\<rparr>)"
proof -
  let ?s = "(stream_Init (int32 (c_init_window c)))\<lparr>st_in_closed := fin\<rparr>"
  have b: "0 \<le> c_init_window c" "c_init_window c \<le> KGL_HTTP_V2_MAX_WINDOW" using assms(1) by (auto simp: flow_inv_def)
  have w: "\<not> waits ?s" by (simp add: waits_def stream_Init_def)
  have "in_range (c_init_window c) ?s" using b by (simp add: in_range_def stream_Init_def window_consts)
  with w have "stream_ok (c_init_window c) ?s" "\<not> stuck (c_send_window c) ?s" by (auto simp: stream_ok_def stuck_def)
  with assms show ?thesis by (auto simp: flow_inv_def nodes.ok_link nodes.look_link split: if_splits)
qed

lemma step_ok:
  assumes "h2_step g c c'" "flow_inv {} c"
  shows "flow_inv {} c' \<and> budget c' = budget c + g"
  using assms
proof (induction rule: h2_step.induct)
  case (open_stream sid c fin)
  then show ?case using open_ok [of c sid fin] by simp
next
  case (parsed sid c s)
  have "waits (s\<lparr>st_parsed_header := True\<rparr>) \<Longrightarrow> st_queued s"
    using flow_stream(1) [OF parsed(2,1)] by (simp add: stream_ok_def waits_def)
  then show ?case using flow_update [OF parsed(2,1), of "s\<lparr>st_parsed_header := True\<rparr>"] by simp
next
  case (respond sid c s n tr hf)
  let ?s = "s\<lparr>st_send_header := hf, st_write_trailer := tr, st_content_left := n\<rparr>"
  have "waits ?s \<Longrightarrow> st_queued s"
    using flow_stream(1) [OF respond(2,1)] by (simp add: stream_ok_def waits_def)
  then show ?case using flow_update [OF respond(2,1), of ?s] by simp
next
  case (writes sid c s n bufs junk r c')
  have "event_ok False \<lparr>ev_buf = Some (Kbufs bufs), ev_buf_len = n, ev_len = - 1\<rparr>" using writes by (simp add: event_ok_def)
  from write_event_ok [OF writes(6,1) this, of junk] writes show ?case by (simp add: h2_write_def)
next
  case (sendfiles sid c s n junk off r c')
  have "event_ok True \<lparr>ev_buf = Some (Kfile off), ev_buf_len = n, ev_len = - 1\<rparr>" using sendfiles by (simp add: event_ok_def)
  from write_event_ok [OF sendfiles(5,1) this, of junk] sendfiles show ?case by (simp add: h2_sendfile_def)
next
  case (ends sid c s junk c')
  show ?case using write_end_ok [OF ends(3,1,2)] by simp
next
  case (reads sid c s k r c')
  show ?case using read_ok [OF reads(3,1,2)] by simp
next
  case (shuts_down sid c s)
  then show ?case using terminate_ok by (auto simp: h2_shutdown_def)
next
  case (stream_window sid w c c')
  then show ?case using window_update_stream [of c w sid] by auto
next
  case (conn_window w c c')
  then show ?case using window_update_conn [of c w] by auto
next
  case (init_window w c c')
  then show ?case using adjust_windows_ok [of c w] by auto
next
  case (max_frame n c)
  then show ?case by (auto simp: flow_inv_def budget_def)
qed (auto simp: terminate_ok reset_ok release_ok written_ok close_ok)

lemma initial_ok: "flow_inv {} h2_init" "budget h2_init = 65535"
proof -
  have "find_node j (streams_index_new :: h2_stream option node_index) = None" for j
    by (simp add: find_node_def streams_index_new_def)
  moreover have "index_ok (streams_index_new :: h2_stream option node_index)" by (simp add: index_ok_def streams_index_new_def)
  ultimately show "flow_inv {} h2_init" by (simp add: flow_inv_def h2_init_def window_consts)
qed (simp add: budget_def h2_init_def window_consts)

lemma reach_ok: "h2_reach g c \<Longrightarrow> flow_inv {} c \<and> budget c = 65535 + g"
  by (induction rule: h2_reach.induct) (use initial_ok step_ok in fastforce)+

text \<open>With both windows open the frame is built at once.\<close>

lemma frame_payload_pos:
  assumes "event_ok (st_sendfile s) e" "0 < len" "st_sendfile s \<longrightarrow> len < 65536"
  shows "\<exists>payload n. frame_payload e (st_sendfile s) len = Some (payload, n) \<and> 0 < n \<and> n \<le> len"
proof -
  obtain payload n where p: "frame_payload e (st_sendfile s) len = Some (payload, n)" "0 \<le> n" "n \<le> len"
    using frame_payload_ok [OF assms(1,2)] by blast
  have "0 < n"
  proof (cases "st_sendfile s")
    case True
    then obtain off where e: "ev_buf e = Some (Kfile off)" "0 < ev_buf_len e"
      using assms(1) by (auto simp: event_ok_def split: option.splits event_buf.splits)
    have "min len (ev_buf_len e) mod 65536 = min len (ev_buf_len e)"
      using assms(2,3) True e(2) by (intro mod_pos_pos_trivial) auto
    then show ?thesis using p(1) e assms(2) True by (auto simp: frame_payload_def Let_def)
  next
    case False
    obtain bufs where e: "ev_buf e = Some (Kbufs bufs)" "0 < ev_buf_len e" "ev_buf_len e \<le> int (length (concat bufs))"
      using assms(1) False by (auto simp: event_ok_def split: option.splits event_buf.splits)
    then obtain ds where ds: "data_buffers len (ev_buf_len e) bufs = Some ds" "concat ds = take (nat (min len (ev_buf_len e))) (concat bufs)"
      using data_buffers_total [OF less_imp_le [OF e(2)] e(3) less_imp_le [OF assms(2)]] by blast
    have "n = int (length (concat ds))" using p(1) e(1) ds(1) False by (simp add: frame_payload_def)
    then show ?thesis unfolding ds(2) length_take using e assms(2) by linarith
  qed
  with p show ?thesis by blast
qed

lemma window_ready_sends:
  assumes inv: "flow_inv {} c" and s: "st_write_wait s = Some e" "event_ok (st_sendfile s) e" and node: "get_stream sid c = Some s0"
    and w: "0 < st_send_window s" "0 < c_send_window c"
    and live: "wait_for_window e" "\<not> IsWriteClosed s c" "st_sendfile s \<longrightarrow> c_frame_size c < 65536"
  shows "\<exists>len c' bufs n fin s'. on_write_window_ready sid s e c = Some (len, c') \<and> c_pushed c' = c_pushed c @ [bufs] \<and>
    hb_body (hd bufs) = Data (data_frame_header sid n fin) \<and> n \<le> c_frame_size c \<and> n \<le> st_send_window s \<and> n \<le> c_send_window c \<and>
    0 < n \<and> get_stream sid c' = Some s' \<and> st_write_wait s' = Some (e\<lparr>ev_len := n\<rparr>)"
proof -
  have b: "c_send_window c \<le> KGL_HTTP_V2_MAX_WINDOW" "KGL_HTTP_V2_DEFAULT_FRAME_SIZE \<le> c_frame_size c" "c_frame_size c < 2 ^ 24"
    using inv by (auto simp: flow_inv_def)
  then have i32: "int32 (c_frame_size c) = c_frame_size c" "int32 (c_send_window c) = c_send_window c"
    using w by (simp_all add: window_consts)
  let ?len = "min (min (c_frame_size c) (st_send_window s)) (c_send_window c)"
  have pos: "0 < ?len" "st_sendfile s \<longrightarrow> ?len < 65536" using w b live(3) by (auto simp: window_consts)
  obtain payload n where p: "frame_payload e (st_sendfile s) ?len = Some (payload, n)" "0 < n" "n \<le> ?len"
    using frame_payload_pos [OF s(2) pos] by blast
  define fin where "fin = (st_content_left s > 0 \<and> st_content_left s - n \<le> 0)"
  define s' where "s' = s\<lparr>st_write_wait := Some (e\<lparr>ev_len := n\<rparr>),
    st_content_left := (if st_content_left s > 0 then st_content_left s - n else st_content_left s),
    st_out_closed := st_out_closed s \<or> fin, st_send_window := st_send_window s - n\<rparr>"
  define bufs where "bufs = mark_last (unat sid) fin (plain_buffer (data_frame_header sid n fin) # payload)"
  define c' where "c' = (put_stream sid (FlushQueue s')
      (push_buffer bufs (c\<lparr>c_send_window := uint32 (c_send_window c - n)\<rparr>)))\<lparr>c_write_processing := True\<rparr>"
  have "on_write_window_ready sid s e c = Some (n, c')"
    using pos(1) [THEN not_le [THEN iffD2]] p(1,2) live(1,2) by (simp add: on_write_window_ready_def build_write_buffer_def i32 Let_def c'_def s'_def bufs_def fin_def)
  moreover have "get_stream sid c' = Some (FlushQueue s')" using node inv
    by (auto simp: c'_def get_stream_find nodes.look_put flow_inv_def)
  moreover have "c_pushed c' = c_pushed c @ [bufs]" by (simp add: c'_def)
  moreover have "st_write_wait (FlushQueue s') = Some (e\<lparr>ev_len := n\<rparr>)" by (simp add: FlushQueue_def s'_def)
  moreover have "hb_body (hd bufs) = Data (data_frame_header sid n fin)"
    using mark_last_Cons [of "unat sid" fin "plain_buffer (data_frame_header sid n fin)" payload] by (auto simp: bufs_def plain_buffer_def)
  ultimately show ?thesis using p(2,3) by (metis min.boundedE)
qed

text \<open>
  The length of a file frame is cut to 16 bits, so that with a frame size of 65536 the frame of as many octets of a file is
  empty, which fails an assertion: the peer decides.
\<close>

lemma file_frame_empty:
  assumes "65536 \<le> n"
  shows "frame_payload \<lparr>ev_buf = Some (Kfile off), ev_buf_len = n, ev_len = - 1\<rparr> True 65536 =
    Some ([\<lparr>hb_body = File off 0, hb_nodelay = False, hb_ctx = None\<rparr>], 0)"
  using assms by (simp add: frame_payload_def)

lemma file_frame_aborts:
  assumes "65536 \<le> n" "st_sendfile s"
  shows "build_write_buffer sid \<lparr>ev_buf = Some (Kfile off), ev_buf_len = n, ev_len = - 1\<rparr> 65536 s = None"
  using assms by (simp add: build_write_buffer_def file_frame_empty)

text \<open>
  Ending a stream whose declared length is not written fails an assertion as well; the sink of a server shuts such
  a stream down instead.
\<close>

lemma early_end_aborts:
  assumes "\<not> IsWriteClosed s c" "st_send_header s = None" "0 \<le> st_content_left s"
  shows "write_end junk sid s c = None"
  using assms by (simp add: write_end_def)

section \<open>Properties\<close>

text \<open>
  C3: flow control is kept. In every state a connection can reach, the DATA it has put on the wire and
  the window left are together what the peer granted, the window is never negative and no counter
  overflows: the connection window stays within 31 bits and the window of every stream, which a
  smaller initial window may make negative, within \<^verbatim>\<open>int\<close>.
\<close>

theorem flow_control_kept:
  assumes "h2_reach g c"
  shows "data_sent (c_pushed c) + c_send_window c = KGL_HTTP_V2_DEFAULT_WINDOW + g \<and> 0 \<le> c_send_window c \<and>
    c_send_window c \<le> KGL_HTTP_V2_MAX_WINDOW \<and>
    (\<forall>sid s. get_stream sid c = Some s \<longrightarrow> - KGL_HTTP_V2_MAX_WINDOW \<le> st_send_window s \<and> st_send_window s \<le> KGL_HTTP_V2_MAX_WINDOW)"
proof -
  have inv: "flow_inv {} c" "budget c = 65535 + g" using reach_ok [OF assms] by auto
  have "0 \<le> c_init_window c" "0 \<le> c_send_window c" "c_send_window c \<le> KGL_HTTP_V2_MAX_WINDOW" using inv(1) by (auto simp: flow_inv_def)
  moreover have "in_range (c_init_window c) s" if "get_stream sid c = Some s" for sid s
    using flow_stream(1) [OF inv(1) that] by (simp add: stream_ok_def)
  ultimately show ?thesis using inv(2) by (fastforce simp: budget_def in_range_def KGL_HTTP_V2_DEFAULT_WINDOW_def)
qed

text \<open>
  C7: no stream is left behind. In every state a connection can reach, a stream whose fiber waits for
  a window is in the queue of the streams that time out, and either its own window or the one of
  the connection is used up.
\<close>

theorem no_stream_stuck:
  assumes "h2_reach g c" "get_stream sid c = Some s" "waits s"
  shows "st_queued s \<and> (st_send_window s \<le> 0 \<or> c_send_window c = 0)"
proof -
  have inv: "flow_inv {} c" "0 \<le> c_send_window c" using reach_ok [OF assms(1)] by (auto simp: flow_inv_def)
  show ?thesis using flow_stream [OF inv(1) assms(2)] assms(3) inv(2) by (auto simp: stream_ok_def stuck_def)
qed

text \<open>
  C24: a window that opens sends. When a stream that is not closed for writing waits and the peer opens its window while the
  connection has one, no assertion fails, the DATA frame of the stream is queued at once,
  within both windows and the frame size and not empty, and the fiber waits
  for this frame to be written instead. For a file the peer must not have asked for frames of 65536 octets or more.
\<close>

theorem window_update_sends:
  assumes "h2_reach g c" "get_stream sid c = Some s" "waits s" "sid \<noteq> 0" "0 \<le> w" "w \<le> KGL_HTTP_V2_MAX_WINDOW - st_send_window s"
    and "0 < st_send_window s + w" "0 < c_send_window c"
    and "\<not> IsWriteClosed s c" "st_sendfile s \<longrightarrow> c_frame_size c < 65536"
  shows "\<exists>c' bufs n fin s'. window_update sid w c = Some c' \<and> c_pushed c' = c_pushed c @ [bufs] \<and>
    hb_body (hd bufs) = Data (data_frame_header sid n fin) \<and> n \<le> c_frame_size c \<and> n \<le> st_send_window s + w \<and> n \<le> c_send_window c \<and>
    0 < n \<and> get_stream sid c' = Some s' \<and> \<not> waits s'"
proof -
  have inv: "flow_inv {} c" using reach_ok [OF assms(1)] by simp
  obtain e where e: "st_write_wait s = Some e" "wait_for_window e" using assms(3) by (auto simp: waits_def split: option.splits)
  have ok: "event_ok (st_sendfile s) e" "in_range (c_init_window c) s" "0 \<le> c_init_window c"
    using flow_stream(1) [OF inv assms(2)] assms(3) e inv by (auto simp: stream_ok_def flow_inv_def)
  have u: "uint32 (KGL_HTTP_V2_MAX_WINDOW - st_send_window s) = KGL_HTTP_V2_MAX_WINDOW - st_send_window s"
    using ok by (intro uint32_id) (auto simp: window_consts in_range_def)
  let ?s = "s\<lparr>st_send_window := st_send_window s + w\<rparr>"
  have s: "st_write_wait ?s = Some e" "event_ok (st_sendfile ?s) e" "0 < st_send_window ?s" "\<not> IsWriteClosed ?s c"
    "st_sendfile ?s \<longrightarrow> c_frame_size c < 65536" using e ok assms(7,9,10) by (simp_all add: IsWriteClosed_def)
  from window_ready_sends [OF inv s(1,2) assms(2) s(3) assms(8) e(2) s(4,5)]
  obtain len c' bufs n fin s' where r: "on_write_window_ready sid ?s e c = Some (len, c')" "c_pushed c' = c_pushed c @ [bufs]"
    "hb_body (hd bufs) = Data (data_frame_header sid n fin)" "n \<le> c_frame_size c" "n \<le> st_send_window ?s" "n \<le> c_send_window c"
    "0 < n" "get_stream sid c' = Some s'" "st_write_wait s' = Some (e\<lparr>ev_len := n\<rparr>)"
    by blast
  have "window_update sid w c = Some c'" using assms(2,4,6) e r(1) by (simp add: window_update_def u Let_def)
  moreover have "\<not> waits s'" using r(7,9) by (simp add: waits_def wait_for_window_def)
  ultimately show ?thesis using r by auto
qed

text \<open>A peer that sets the initial window to 0, and a stream that has three octets to write.\<close>

definition demo_adjusted :: h2_conn where
  "demo_adjusted = the (adjust_windows 0 h2_init)"

definition demo_open :: h2_conn where
  "demo_open = demo_adjusted\<lparr>c_index := link_node 1 (Some ((stream_Init (int32 (c_init_window demo_adjusted)))\<lparr>st_in_closed := True\<rparr>))
     (c_index demo_adjusted)\<rparr>"

definition demo_stream :: h2_stream where
  "demo_stream = (stream_Init 0)\<lparr>st_in_closed := True\<rparr>"

definition demo_waiting :: h2_conn where
  "demo_waiting = snd (the (h2_write (\<lambda>_. zero_header) 1 demo_stream [[97, 98, 99]] 3 demo_open))"

lemma demo_eval:
  "find_node 1 (c_index demo_adjusted) = None" "get_stream 1 demo_open = Some demo_stream"
  "get_stream 1 demo_waiting = Some (demo_stream\<lparr>st_queued := True, st_sendfile := False,
     st_write_wait := Some \<lparr>ev_buf = Some (Kbufs [[97, 98, 99]]), ev_buf_len = 3, ev_len = - 1\<rparr>\<rparr>)"
  "c_send_window demo_waiting = 65535" "adjust_windows 0 h2_init \<noteq> None"
  "h2_write (\<lambda>_. zero_header) 1 demo_stream [[97, 98, 99]] 3 demo_open \<noteq> None"
  "c_read_processing demo_waiting" "\<not> c_closed demo_waiting"
  by code_simp+

lemma demo_reach: "h2_reach 0 demo_waiting"
proof -
  have w: "(0 :: int) \<le> 0" "0 \<le> KGL_HTTP_V2_MAX_WINDOW" by (simp_all add: window_consts)
  have 1: "adjust_windows 0 h2_init = Some demo_adjusted"
    using demo_eval(5) by (simp add: demo_adjusted_def)
  have r1: "h2_reach (0 + 0) demo_adjusted" by (rule h2_reach.steps [OF h2_reach.initial h2_step.init_window [OF w 1]])
  have r2: "h2_reach (0 + 0 + 0) demo_open"
    unfolding demo_open_def by (rule h2_reach.steps [OF r1 h2_step.open_stream [OF demo_eval(1)]])
  have "\<exists>r. h2_write (\<lambda>_. zero_header) 1 demo_stream [[97, 98, 99]] 3 demo_open = Some (r, demo_waiting)"
    using demo_eval(6) by (cases "h2_write (\<lambda>_. zero_header) 1 demo_stream [[97, 98, 99]] 3 demo_open") (auto simp: demo_waiting_def)
  then obtain r where 3: "h2_write (\<lambda>_. zero_header) 1 demo_stream [[97, 98, 99]] 3 demo_open = Some (r, demo_waiting)" ..
  have m: "may_write demo_stream" "(0 :: int) < 3" "3 \<le> int (length (concat [[97 :: byte, 98, 99]]))"
    by (simp_all add: may_write_def demo_stream_def stream_Init_def)
  from h2_reach.steps [OF r2 h2_step.writes [OF demo_eval(2) m 3]] show ?thesis by simp
qed

theorem flow_control_kept_witness:
  "data_sent (c_pushed demo_waiting) + c_send_window demo_waiting = KGL_HTTP_V2_DEFAULT_WINDOW + 0 \<and> 0 \<le> c_send_window demo_waiting"
  using flow_control_kept [OF demo_reach] by blast

theorem no_stream_stuck_witness:
  "\<exists>s. get_stream 1 demo_waiting = Some s \<and> waits s \<and> (st_send_window s \<le> 0 \<or> c_send_window demo_waiting = 0)"
  using no_stream_stuck [OF demo_reach demo_eval(3)] demo_eval(3) by (simp add: waits_def wait_for_window_def)

theorem window_update_sends_witness:
  "\<exists>c' bufs n fin. window_update 1 100 demo_waiting = Some c' \<and> c_pushed c' = c_pushed demo_waiting @ [bufs] \<and>
    hb_body (hd bufs) = Data (data_frame_header 1 n fin) \<and> n \<le> 100 \<and> 0 < n"
  using window_update_sends [OF demo_reach demo_eval(3), of 100] demo_eval(4)
  by (auto simp: waits_def wait_for_window_def demo_stream_def stream_Init_def window_consts IsWriteClosed_def demo_eval(7,8))

end
