(* ===== verification/KRequest.thy ===== *)
theory KRequest
  imports KUrl KHttpTime
begin

unbundle bit_operations_syntax

text \<open>
  Request headers: the field value splitter \<^verbatim>\<open>KHttpFieldValue\<close>, the method table, the request state
  of \<^verbatim>\<open>include/KRequest.h\<close> and the interpreter \<^verbatim>\<open>KSink::parse_header\<close> of \<^verbatim>\<open>include/KSink.h\<close>, with the
  byte ranges it leaves to \<^verbatim>\<open>kgl_adjust_range\<close>. A result \<open>None\<close> is a signed overflow or a read
  outside the text.
\<close>

section \<open>Field values\<close>

text \<open>
  The cursor of \<^verbatim>\<open>KHttpFieldValue\<close> is the text from \<^verbatim>\<open>val\<close> to \<^verbatim>\<open>end\<close>. The loop of the constructor that
  should skip spaces runs while \<^verbatim>\<open>val > end\<close>, that is never.
\<close>

definition field_new :: "byte list \<Rightarrow> byte list" where
  "field_new val = val"

definition field_is :: "byte list \<Rightarrow> byte list \<Rightarrow> bool" where
  "field_is val field \<longleftrightarrow> length field \<le> length val \<and> kgl_casecmp val field (length field) = 0"

definition get_field_end :: "byte list \<Rightarrow> nat" where
  "get_field_end val = (case memchr val 44 of None \<Rightarrow> length val | Some i \<Rightarrow> i)"

definition field_next :: "byte list \<Rightarrow> byte list option" where
  "field_next val = (
     let field_end = get_field_end val in
     if field_end = length val then None else Some (dropWhile isspace (drop (field_end + 1) val)))"

lemma get_field_end_le: "get_field_end val \<le> length val"
  by (auto simp: get_field_end_def first_pos_Some split: option.split)

lemma field_next_shorter: "field_next val = Some val' \<Longrightarrow> length val' < length val"
proof -
  assume "field_next val = Some val'"
  then have v: "val' = dropWhile isspace (drop (get_field_end val + 1) val)" "get_field_end val \<noteq> length val"
    by (auto simp: field_next_def Let_def split: if_splits)
  have "length val' \<le> length (drop (get_field_end val + 1) val)" unfolding v(1) by (rule length_dropWhile_le)
  also have "\<dots> < length val" using get_field_end_le [of val] v(2) by simp
  finally show ?thesis .
qed

text \<open>The cursors a \<^verbatim>\<open>do ... while (field.next())\<close> loop visits.\<close>

function field_cursors :: "byte list \<Rightarrow> byte list list" where
  "field_cursors val = val # (case field_next val of None \<Rightarrow> [] | Some val' \<Rightarrow> field_cursors val')"
  by pat_completeness auto
termination
  by (relation "measure length") (auto dest: field_next_shorter)

declare field_cursors.simps [simp del]

definition field_contain :: "byte list \<Rightarrow> byte list \<Rightarrow> bool" where
  "field_contain val field = (\<exists>v \<in> set (field_cursors val). field_is v field)"

text \<open>The parameter of a field, scaled by the digits behind the point; \<open>Some None\<close> when there is none.\<close>

function get_double_param :: "byte list \<Rightarrow> byte list \<Rightarrow> nat \<Rightarrow> int option option" where
  "get_double_param param hot point = (
     if hot = [] then Some None
     else
       let param_end = (case memchr hot 59 of None \<Rightarrow> length hot | Some i \<Rightarrow> i);
           seg = dropWhile isspace (take param_end hot);
           rest = drop (param_end + 1) hot
       in case memchr seg 61 of
            None \<Rightarrow> get_double_param param rest point
          | Some eq \<Rightarrow>
              if \<not> kgl_mem_case_same (take eq seg) param then get_double_param param rest point
              else map_option Some (kgl_atofp (dropWhile isspace (drop (eq + 1) seg)) point))"
  by pat_completeness auto
termination
  by (relation "measure (\<lambda>(param, hot, point). length hot)") (auto split: option.splits)

declare get_double_param.simps [simp del]

section \<open>Methods\<close>

definition http_methods :: "byte list list" where
  "http_methods = map bytes
     [''UNSET'', ''GET'', ''HEAD'', ''POST'', ''OPTIONS'', ''PUT'', ''DELETE'', ''TRACE'', ''PROPFIND'', ''PROPPATCH'',
      ''MKCOL'', ''COPY'', ''MOVE'', ''LOCK'', ''UNLOCK'', ''ACL'', ''REPORT'', ''VERSION_CONTROL'', ''CHECKIN'',
      ''CHECKOUT'', ''UNCHECKOUT'', ''SEARCH'', ''MKWORKSPACE'', ''UPDATE'', ''LABEL'', ''MERGE'', ''BASELINE_CONTROL'',
      ''MKACTIVITY'', ''CONNECT'', ''PURGE'', ''PATCH'', ''SUBSCRIBE'', ''UNSUBSCRIBE'', ''PRI'']"

abbreviation METH_GET :: nat where "METH_GET \<equiv> 1"
abbreviation METH_HEAD :: nat where "METH_HEAD \<equiv> 2"
abbreviation METH_CONNECT :: nat where "METH_CONNECT \<equiv> 28"
abbreviation METH_PRI :: nat where "METH_PRI \<equiv> 33"

definition get_method_name :: "int \<Rightarrow> byte list" where
  "get_method_name meth = (if meth < 0 \<or> meth \<ge> 34 then http_methods ! 0 else http_methods ! nat meth)"

fun find_method :: "byte list \<Rightarrow> nat \<Rightarrow> byte list list \<Rightarrow> nat" where
  "find_method src i [] = 0"
| "find_method src i (m # ms) = (if kgl_mem_case_same src m then i else find_method src (Suc i) ms)"

definition get_method :: "byte list \<Rightarrow> nat" where
  "get_method src = find_method src 1 (tl http_methods)"

definition kgl_is_safe_method :: "nat \<Rightarrow> bool" where
  "kgl_is_safe_method meth \<longleftrightarrow> meth = METH_GET \<or> meth = METH_HEAD"

section \<open>The request\<close>

datatype kgl_header_type =
    kgl_header_host | kgl_header_accept_encoding | kgl_header_range | kgl_header_server | kgl_header_date
  | kgl_header_content_length | kgl_header_last_modified | kgl_header_etag | kgl_header_content_range
  | kgl_header_content_type | kgl_header_set_cookie | kgl_header_pragma | kgl_header_cache_control
  | kgl_header_vary | kgl_header_age | kgl_header_transfer_encoding | kgl_header_content_encoding
  | kgl_header_expires | kgl_header_location | kgl_header_keep_alive | kgl_header_alt_svc
  | kgl_header_connection | kgl_header_upgrade | kgl_header_expect | kgl_header_status | kgl_header_if_range
  | kgl_header_if_modified_since | kgl_header_if_none_match | kgl_header_if_match
  | kgl_header_if_unmodified_since | kgl_header_cookie | kgl_header_scheme | kgl_header_referer
  | kgl_header_user_agent | kgl_header_unknow

datatype header_name = Known kgl_header_type | Named "byte list"

text \<open>\<^verbatim>\<open>kgl_precondition\<close> and the end of \<^verbatim>\<open>kgl_request_range\<close> are unions of a time and a pointer to an entity tag.\<close>

datatype precondition = No_Precondition | Precond_Time int | Precond_Entity "byte list"

record request_range =
  r_from :: int
  r_to :: int
  if_range :: precondition

record request =
  http_version :: "16 word"
  meth :: nat
  rq_flags :: u32
  left_read :: int
  raw_url :: kgl_url
  accept_encoding :: byte
  rq_range :: "request_range option"
  rq_precondition :: precondition
  rq_headers :: "(header_name \<times> byte list) list"

abbreviation RQ_IF_MATCH_UNMODIFIED :: u32 where "RQ_IF_MATCH_UNMODIFIED \<equiv> 0x1"
abbreviation RQ_IF_TIME :: u32 where "RQ_IF_TIME \<equiv> 0x2"
abbreviation RQ_IF_RANGE_DATE :: u32 where "RQ_IF_RANGE_DATE \<equiv> 0x4"
abbreviation RQ_HAS_NO_CACHE :: u32 where "RQ_HAS_NO_CACHE \<equiv> 0x20"
abbreviation RQ_INPUT_CHUNKED :: u32 where "RQ_INPUT_CHUNKED \<equiv> 0x100"
abbreviation RQ_HAS_ONLY_IF_CACHED :: u32 where "RQ_HAS_ONLY_IF_CACHED \<equiv> 0x400"
abbreviation RQ_HAS_KEEP_CONNECTION :: u32 where "RQ_HAS_KEEP_CONNECTION \<equiv> 0x2000"
abbreviation RQ_HAS_CONNECTION_UPGRADE :: u32 where "RQ_HAS_CONNECTION_UPGRADE \<equiv> 0x8000"
abbreviation RQ_HAS_CONTENT_LEN :: u32 where "RQ_HAS_CONTENT_LEN \<equiv> 0x20000"
abbreviation RQ_HAVE_EXPECT :: u32 where "RQ_HAVE_EXPECT \<equiv> 0x8000000"

definition set_flag :: "u32 \<Rightarrow> request \<Rightarrow> request" where
  "set_flag f rq = rq\<lparr>rq_flags := rq_flags rq OR f\<rparr>"

definition clr_flag :: "u32 \<Rightarrow> request \<Rightarrow> request" where
  "clr_flag f rq = rq\<lparr>rq_flags := rq_flags rq AND NOT f\<rparr>"

type_synonym header_step = "(bool \<times> request) option"

definition MAX_HEADER_ATTR_VAL_SIZE :: nat where
  "MAX_HEADER_ATTR_VAL_SIZE = 65500"

definition add_header :: "header_name \<Rightarrow> byte list \<Rightarrow> request \<Rightarrow> header_step" where
  "add_header name val rq = (
     if (case name of Known _ \<Rightarrow> False | Named attr \<Rightarrow> length attr > MAX_HEADER_ATTR_VAL_SIZE) \<or>
        length val > MAX_HEADER_ATTR_VAL_SIZE
     then Some (False, rq)
     else Some (True, rq\<lparr>rq_headers := rq_headers rq @ [(name, val)]\<rparr>))"

text \<open>\<^verbatim>\<open>meth\<close> is unsigned, so \<^verbatim>\<open>parse_method\<close> never fails.\<close>

definition parse_method :: "byte list \<Rightarrow> request \<Rightarrow> request" where
  "parse_method src rq = rq\<lparr>meth := get_method src\<rparr>"

definition lift_url :: "url_result \<Rightarrow> request \<Rightarrow> header_step" where
  "lift_url r rq = (case r of Url ok url \<Rightarrow> Some (ok, rq\<lparr>raw_url := url\<rparr>) | Url_Undef \<Rightarrow> None)"

definition parse_connect_url :: "byte list \<Rightarrow> request \<Rightarrow> header_step" where
  "parse_connect_url src rq = (
     case memchr src 58 of
       None \<Rightarrow> Some (False, rq)
     | Some ss \<Rightarrow>
         if u_host (raw_url rq) \<noteq> None then None
         else
         let url = raw_url rq;
             url = url\<lparr>u_flags := (u_flags url AND NOT KGL_URL_ORIG_SSL) OR KGL_URL_HAS_PORT,
                       u_host := Some (kgl_strndup (take ss src))\<rparr>
         in lift_url (set_port (drop (ss + 1) src) url (Url True)) rq)"

definition parse_host :: "byte list \<Rightarrow> request \<Rightarrow> header_step" where
  "parse_host val rq = (
     if u_host (raw_url rq) = None then lift_url (parse_url_host (raw_url rq) val) rq else Some (True, rq))"

text \<open>Every digit but 0 counts as 1; a point that is the last octet is followed by the terminator.\<close>

definition parse_http_version :: "byte list \<Rightarrow> request \<Rightarrow> header_step" where
  "parse_http_version ver rq = (
     case memchr ver 46 of
       None \<Rightarrow> Some (False, rq)
     | Some dot \<Rightarrow>
         if dot = 0 then None
         else let major = (if ver ! (dot - 1) = 48 then 0 else 1);
                  minor = (if dot + 1 < length ver \<and> ver ! (dot + 1) = 48 then 0 else 1)
              in Some (True, rq\<lparr>http_version := push_bit 8 major OR minor\<rparr>))"

section \<open>The headers\<close>

abbreviation name_is :: "byte list \<Rightarrow> string \<Rightarrow> bool" where
  "name_is attr s \<equiv> kgl_mem_case_same attr (bytes s)"

definition encoding_flag :: "byte list \<Rightarrow> byte" where
  "encoding_flag v = (
     if field_is v (bytes ''gzip'') then 4
     else if field_is v (bytes ''deflate'') then 1
     else if field_is v (bytes ''compress'') then 2
     else if field_is v (bytes ''br'') then 8
     else if field_is v (bytes ''zstd'') then 16
     else if \<not> field_is v (bytes ''identity'') then 64
     else 0)"

fun accept_loop :: "byte list list \<Rightarrow> byte \<Rightarrow> byte option" where
  "accept_loop [] acc = Some acc"
| "accept_loop (v # vs) acc = (
     case get_double_param (bytes ''q'') (take (get_field_end v) v) 3 of
       None \<Rightarrow> None
     | Some q \<Rightarrow> accept_loop vs (if q = Some 0 then acc else acc OR encoding_flag v))"

definition connection_field :: "byte list \<Rightarrow> request \<Rightarrow> request" where
  "connection_field v rq = (
     if field_is v (bytes ''keep-alive'') then set_flag RQ_HAS_KEEP_CONNECTION rq
     else if field_is v (bytes ''upgrade'') then set_flag RQ_HAS_CONNECTION_UPGRADE rq
     else if field_is v (bytes ''close'') then clr_flag RQ_HAS_KEEP_CONNECTION rq
     else rq)"

definition cache_field :: "byte list \<Rightarrow> request \<Rightarrow> request" where
  "cache_field v rq = (
     if field_is v (bytes ''no-store'') \<or> field_is v (bytes ''no-cache'') then set_flag RQ_HAS_NO_CACHE rq
     else if field_is v (bytes ''only-if-cached'') then set_flag RQ_HAS_ONLY_IF_CACHED rq
     else rq)"

definition alloc_request_range :: "request \<Rightarrow> request_range" where
  "alloc_request_range rq = (
     case rq_range rq of Some r \<Rightarrow> r | None \<Rightarrow> \<lparr>r_from = 0, r_to = 0, if_range = No_Precondition\<rparr>)"

definition parse_range :: "byte list \<Rightarrow> request \<Rightarrow> header_step" where
  "parse_range hot rq = (
     let range = alloc_request_range rq in
     if hd hot = 45 then
       (case kgl_atol (tl hot) of
          None \<Rightarrow> None
        | Some n \<Rightarrow> Some (True, rq\<lparr>rq_range := Some (range\<lparr>r_from := - n\<rparr>)\<rparr>))
     else
       case kgl_atol hot of
         None \<Rightarrow> None
       | Some from \<Rightarrow>
           let range = range\<lparr>r_from := from\<rparr> in
           (case memchr hot 45 of
              Some i \<Rightarrow>
                if i + 1 < length hot then
                  (case kgl_atol (drop (i + 1) hot) of
                     None \<Rightarrow> None
                   | Some to \<Rightarrow> Some (True, rq\<lparr>rq_range := Some (range\<lparr>r_to := to\<rparr>)\<rparr>))
                else Some (True, rq\<lparr>rq_range := Some (range\<lparr>r_to := - 1\<rparr>)\<rparr>)
            | None \<Rightarrow> Some (True, rq\<lparr>rq_range := Some (range\<lparr>r_to := - 1\<rparr>)\<rparr>)))"

definition header_if_range :: "byte list \<Rightarrow> request \<Rightarrow> header_step" where
  "header_if_range val rq = (
     let range = alloc_request_range rq in
     case kgl_parse_http_time val of
       Time t \<Rightarrow>
         if t = - 1 then
           Some (True, clr_flag RQ_IF_RANGE_DATE (rq\<lparr>rq_range := Some (range\<lparr>if_range := Precond_Entity val\<rparr>)\<rparr>))
         else Some (True, set_flag RQ_IF_RANGE_DATE (rq\<lparr>rq_range := Some (range\<lparr>if_range := Precond_Time t\<rparr>)\<rparr>))
     | No_Time \<Rightarrow>
         Some (True, clr_flag RQ_IF_RANGE_DATE (rq\<lparr>rq_range := Some (range\<lparr>if_range := Precond_Entity val\<rparr>)\<rparr>))
     | Overrun \<Rightarrow> None)"

definition header_if_modified_since :: "byte list \<Rightarrow> request \<Rightarrow> header_step" where
  "header_if_modified_since val rq = (
     if rq_precondition rq = No_Precondition \<or> rq_precondition rq = Precond_Time 0 then
       (case kgl_parse_http_time val of
          Time t \<Rightarrow> Some (True, set_flag RQ_IF_TIME (rq\<lparr>rq_precondition := Precond_Time t\<rparr>))
        | No_Time \<Rightarrow> Some (True, set_flag RQ_IF_TIME (rq\<lparr>rq_precondition := Precond_Time (- 1)\<rparr>))
        | Overrun \<Rightarrow> None)
     else Some (True, rq))"

definition pseudo_header :: "byte list \<Rightarrow> byte list \<Rightarrow> request \<Rightarrow> header_step" where
  "pseudo_header attr val rq = (
     if attr = bytes '':method'' then
       (let rq = parse_method val rq in
        Some (True, if meth rq = METH_CONNECT then set_flag RQ_HAS_CONNECTION_UPGRADE (rq\<lparr>meth := METH_GET\<rparr>) else rq))
     else if attr = bytes '':version'' then parse_http_version val rq
     else if attr = bytes '':path'' then lift_url (parse_url val (raw_url rq)) rq
     else if attr = bytes '':authority'' then parse_host val rq
     else if attr = bytes '':protocol'' then add_header (Known kgl_header_upgrade) val rq
     else Some (True, rq))"

text \<open>
  The request line. The space behind the URL is overwritten with a zero octet before the loop that
  would skip it, so the version is looked for from that octet on.
\<close>

definition request_line :: "byte list \<Rightarrow> byte list \<Rightarrow> request \<Rightarrow> header_step" where
  "request_line attr val rq = (
     let rq = parse_method attr rq in
     case memchr val 32 of
       None \<Rightarrow> Some (False, rq)
     | Some url_len \<Rightarrow>
         if meth rq = METH_CONNECT then parse_connect_url (take url_len val) rq
         else if meth rq = METH_PRI then Some (True, rq)
         else case lift_url (parse_url (take url_len val) (raw_url rq)) rq of
           Some (True, rq) \<Rightarrow>
             (case parse_http_version (0 # drop (url_len + 1) val) rq of
                Some (True, rq) \<Rightarrow>
                  Some (True, if http_version rq > 0x100 then set_flag RQ_HAS_KEEP_CONNECTION rq else rq)
              | r \<Rightarrow> r)
         | r \<Rightarrow> r)"

text \<open>
  The other headers. The code dispatches on the first letter, so its test for \<^verbatim>\<open>proxy-connection\<close>,
  among the names that start with C, never succeeds.
\<close>

definition field_header :: "byte list \<Rightarrow> byte list \<Rightarrow> request \<Rightarrow> header_step" where
  "field_header attr val rq = (
     if name_is attr ''Accept-Encoding'' then
       (case accept_loop (field_cursors (field_new val)) (accept_encoding rq) of
          None \<Rightarrow> None
        | Some e \<Rightarrow> add_header (Known kgl_header_accept_encoding) val (rq\<lparr>accept_encoding := e\<rparr>))
     else if name_is attr ''Connection'' then
       add_header (Known kgl_header_connection) val (fold connection_field (field_cursors (field_new val)) rq)
     else if name_is attr ''Content-length'' then
       (case kgl_atol (takeWhile (\<lambda>c. c \<noteq> 0) val) of
          None \<Rightarrow> None
        | Some n \<Rightarrow> Some (True, set_flag RQ_HAS_CONTENT_LEN (rq\<lparr>left_read := n\<rparr>)))
     else if name_is attr ''Cache-Control'' then
       add_header (Known kgl_header_cache_control) val (fold cache_field (field_cursors (field_new val)) rq)
     else if name_is attr ''Expect'' then
       (if kgl_memstr val (bytes ''100-continue'') \<noteq> None
        then add_header (Known kgl_header_expect) val (set_flag RQ_HAVE_EXPECT rq)
        else Some (True, rq))
     else if name_is attr ''Host'' then parse_host val rq
     else if name_is attr ''If-Range'' then header_if_range val rq
     else if name_is attr ''If-Modified-Since'' then header_if_modified_since val rq
     else if name_is attr ''If-None-Match'' then
       Some (True, clr_flag (RQ_IF_TIME OR RQ_IF_MATCH_UNMODIFIED) (rq\<lparr>rq_precondition := Precond_Entity val\<rparr>))
     else if name_is attr ''Pragma'' then
       add_header (Known kgl_header_pragma) val
         (if kgl_memstr val (bytes ''no-cache'') \<noteq> None then set_flag RQ_HAS_NO_CACHE rq else rq)
     else if name_is attr ''Referer'' then add_header (Known kgl_header_referer) val rq
     else if name_is attr ''Range'' then
       (if length val > 6 \<and> kgl_casecmp val (bytes ''bytes='') 6 = 0 then parse_range (drop 6 val) rq
        else add_header (Known kgl_header_range) val rq)
     else if name_is attr ''Transfer-Encoding'' then
       (if name_is val ''chunked'' then Some (True, set_flag RQ_INPUT_CHUNKED (rq\<lparr>left_read := - 1\<rparr>))
        else Some (True, rq))
     else if name_is attr ''User-Agent'' then add_header (Known kgl_header_user_agent) val rq
     else if name_is attr ''Upgrade'' then add_header (Known kgl_header_upgrade) val rq
     else if name_is attr ''X-Forwarded-Proto'' then
       (let url = raw_url rq in
        Some (True, rq\<lparr>raw_url := url\<lparr>u_flags :=
          (if name_is val ''https'' then u_flags url OR KGL_URL_ORIG_SSL else u_flags url AND NOT KGL_URL_ORIG_SSL)\<rparr>\<rparr>))
     else add_header (Named attr) val rq)"

definition start_parse :: "bool \<Rightarrow> request \<Rightarrow> request" where
  "start_parse ssl rq = (
     if ssl then rq\<lparr>raw_url := (raw_url rq)\<lparr>u_flags := u_flags (raw_url rq) OR (KGL_URL_SSL OR KGL_URL_ORIG_SSL)\<rparr>\<rparr>
     else rq)"

text \<open>On the first line \<open>None\<close> is also the failed assertion that no header is there yet.\<close>

definition parse_header :: "bool \<Rightarrow> byte list \<Rightarrow> byte list \<Rightarrow> bool \<Rightarrow> request \<Rightarrow> header_step" where
  "parse_header ssl attr val is_first rq = (
     let rq = (if is_first then start_parse ssl rq else rq) in
     if is_first \<and> rq_headers rq \<noteq> [] then None
     else if http_version rq > 0x100 \<and> attr \<noteq> [] \<and> hd attr = 58 then pseudo_header attr val rq
     else if is_first \<and> http_version rq < 0x200 then request_line attr val rq
     else field_header attr val rq)"

section \<open>Ranges\<close>

text \<open>\<^verbatim>\<open>kgl_adjust_range\<close>: whether the range is satisfiable, the adjusted range and the length to send.\<close>

definition kgl_adjust_range :: "request_range \<Rightarrow> int \<Rightarrow> (bool \<times> request_range \<times> int) option" where
  "kgl_adjust_range rg len = (
     if r_from rg \<ge> 0 then
       (if r_from rg \<ge> len then Some (False, rg, len)
        else let len = len - r_from rg in
          if r_to rg \<ge> 0 then
            (if r_to rg - r_from rg + 1 \<ge> 2 ^ 63 then None
             else let len = min (r_to rg - r_from rg + 1) len in Some (\<not> len \<le> 0, rg, len))
          else Some (True, rg\<lparr>r_to := r_from rg + len - 1\<rparr>, len))
     else
       let from = r_from rg + len; rg = rg\<lparr>r_from := from\<rparr> in
       if from \<le> 0 then Some (False, rg, len)
       else let len = len - from in Some (True, rg\<lparr>r_to := from + len - 1\<rparr>, len))"

section \<open>Body framing\<close>

fun parse_headers :: "bool \<Rightarrow> (byte list \<times> byte list) list \<Rightarrow> request \<Rightarrow> header_step" where
  "parse_headers ssl [] rq = Some (True, rq)"
| "parse_headers ssl ((attr, val) # hs) rq = (
     case parse_header ssl attr val False rq of
       Some (True, rq') \<Rightarrow> parse_headers ssl hs rq'
     | r \<Rightarrow> r)"

text \<open>What a header says about the body: its length, or -1 for chunks.\<close>

definition is_chunked :: "byte list \<times> byte list \<Rightarrow> bool" where
  "is_chunked h \<longleftrightarrow> name_is (fst h) ''Transfer-Encoding'' \<and> name_is (snd h) ''chunked''"

definition body_length :: "byte list \<times> byte list \<Rightarrow> int \<Rightarrow> int" where
  "body_length h n = (
     if name_is (fst h) ''Content-length'' then the (kgl_atol (takeWhile (\<lambda>c. c \<noteq> 0) (snd h)))
     else if is_chunked h then - 1 else n)"

definition keeps_framing :: "request \<Rightarrow> header_step \<Rightarrow> bool" where
  "keeps_framing rq r \<longleftrightarrow> (\<forall>ok rq'. r = Some (ok, rq') \<longrightarrow>
     left_read rq' = left_read rq \<and> rq_flags rq' AND RQ_INPUT_CHUNKED = rq_flags rq AND RQ_INPUT_CHUNKED)"

named_theorems framing

lemma keeps_Some:
  "keeps_framing rq (Some (ok, rq')) \<longleftrightarrow>
     left_read rq' = left_read rq \<and> rq_flags rq' AND RQ_INPUT_CHUNKED = rq_flags rq AND RQ_INPUT_CHUNKED"
  by (auto simp: keeps_framing_def)

lemma keeps_None [framing]: "keeps_framing rq None"
  by (simp add: keeps_framing_def)

lemma keeps_trans: "keeps_framing rq (Some (ok, rq1)) \<Longrightarrow> keeps_framing rq1 r \<Longrightarrow> keeps_framing rq r"
  by (auto simp: keeps_framing_def)

lemma flag_other [framing]:
  assumes "f AND RQ_INPUT_CHUNKED = 0"
  shows "(w OR f) AND RQ_INPUT_CHUNKED = w AND RQ_INPUT_CHUNKED"
    and "(w AND NOT f) AND RQ_INPUT_CHUNKED = w AND RQ_INPUT_CHUNKED"
proof -
  have "\<not> (bit f n \<and> bit RQ_INPUT_CHUNKED n)" for n
    unfolding bit_and_iff [symmetric] assms by simp
  note * = this
  show "(w OR f) AND RQ_INPUT_CHUNKED = w AND RQ_INPUT_CHUNKED"
    by (rule bit_word_eqI) (use * in \<open>simp only: bit_and_iff bit_or_iff; blast\<close>)
  have "bit (NOT f) n \<longleftrightarrow> \<not> bit f n" if "n < LENGTH(32)" for n using that by (simp add: bit_not_iff)
  then show "(w AND NOT f) AND RQ_INPUT_CHUNKED = w AND RQ_INPUT_CHUNKED"
    by (intro bit_word_eqI) (use * in \<open>simp only: bit_and_iff; blast\<close>)
qed

lemma set_flag_keeps [framing]:
  "left_read (set_flag f rq) = left_read rq" "left_read (clr_flag f rq) = left_read rq"
  "f AND RQ_INPUT_CHUNKED = 0 \<Longrightarrow> rq_flags (set_flag f rq) AND RQ_INPUT_CHUNKED = rq_flags rq AND RQ_INPUT_CHUNKED"
  "f AND RQ_INPUT_CHUNKED = 0 \<Longrightarrow> rq_flags (clr_flag f rq) AND RQ_INPUT_CHUNKED = rq_flags rq AND RQ_INPUT_CHUNKED"
  by (simp_all add: set_flag_def clr_flag_def flag_other)

lemma add_header_keeps [framing]:
  "left_read rq1 = left_read rq \<Longrightarrow> rq_flags rq1 AND RQ_INPUT_CHUNKED = rq_flags rq AND RQ_INPUT_CHUNKED \<Longrightarrow>
   keeps_framing rq (add_header name val rq1)"
  by (auto simp: keeps_framing_def add_header_def split: if_splits)

lemma lift_url_keeps [framing]: "keeps_framing rq (lift_url r rq)"
  by (cases r) (simp_all add: lift_url_def keeps_framing_def)

lemma parse_host_keeps [framing]: "keeps_framing rq (parse_host val rq)"
  by (simp add: parse_host_def lift_url_keeps keeps_Some)

lemma connection_keeps [framing]:
  "left_read (fold connection_field vs rq) = left_read rq"
  "rq_flags (fold connection_field vs rq) AND RQ_INPUT_CHUNKED = rq_flags rq AND RQ_INPUT_CHUNKED"
  by (induction vs arbitrary: rq) (simp_all add: connection_field_def framing)

lemma cache_keeps [framing]:
  "left_read (fold cache_field vs rq) = left_read rq"
  "rq_flags (fold cache_field vs rq) AND RQ_INPUT_CHUNKED = rq_flags rq AND RQ_INPUT_CHUNKED"
  by (induction vs arbitrary: rq) (simp_all add: cache_field_def framing)

lemma range_keeps [framing]: "keeps_framing rq (parse_range hot rq)"
  by (simp add: parse_range_def Let_def keeps_framing_def split: option.split)

lemma if_headers_keep [framing]:
  "keeps_framing rq (header_if_range val rq)" "keeps_framing rq (header_if_modified_since val rq)"
  by (simp_all add: header_if_range_def header_if_modified_since_def Let_def keeps_framing_def framing split: time_result.split)

lemmas name_eval = kgl_mem_case_same_iff kgl_strlow_def bytes_def of_char_def kgl_tolower_def

lemma te_header:
  "name_is attr ''Transfer-Encoding'' \<Longrightarrow>
   field_header attr val rq =
     Some (True, if name_is val ''chunked'' then set_flag RQ_INPUT_CHUNKED (rq\<lparr>left_read := - 1\<rparr>) else rq)"
  by (simp add: field_header_def name_eval)

lemma cl_header:
  "name_is attr ''Content-length'' \<Longrightarrow>
   field_header attr val rq = map_option (\<lambda>n. (True, set_flag RQ_HAS_CONTENT_LEN (rq\<lparr>left_read := n\<rparr>)))
     (kgl_atol (takeWhile (\<lambda>c. c \<noteq> 0) val))"
  by (simp add: field_header_def name_eval split: option.split)

lemma other_header:
  "\<not> name_is attr ''Transfer-Encoding'' \<Longrightarrow> \<not> name_is attr ''Content-length'' \<Longrightarrow>
   keeps_framing rq (field_header attr val rq)"
  unfolding field_header_def
  by (simp add: framing keeps_Some Let_def split: option.split)

lemma field_header_framing:
  assumes "field_header attr val rq = Some (ok, rq')"
  shows "left_read rq' = body_length (attr, val) (left_read rq)"
    and "rq_flags rq' AND RQ_INPUT_CHUNKED =
      (if is_chunked (attr, val) then RQ_INPUT_CHUNKED else rq_flags rq AND RQ_INPUT_CHUNKED)"
proof -
  consider (te) "name_is attr ''Transfer-Encoding''" | (cl) "name_is attr ''Content-length''"
    | (other) "\<not> name_is attr ''Transfer-Encoding''" "\<not> name_is attr ''Content-length''" by blast
  then have "left_read rq' = body_length (attr, val) (left_read rq) \<and> rq_flags rq' AND RQ_INPUT_CHUNKED =
      (if is_chunked (attr, val) then RQ_INPUT_CHUNKED else rq_flags rq AND RQ_INPUT_CHUNKED)"
  proof cases
    case te
    then have "\<not> name_is attr ''Content-length''" by (simp add: name_eval)
    moreover have "(w OR RQ_INPUT_CHUNKED) AND RQ_INPUT_CHUNKED = RQ_INPUT_CHUNKED" for w by simp
    ultimately show ?thesis
      using te assms unfolding te_header [OF te]
      by (cases "name_is val ''chunked''") (auto simp: body_length_def is_chunked_def set_flag_def)
  next
    case cl
    then have "\<not> name_is attr ''Transfer-Encoding''" by (simp add: name_eval)
    then show ?thesis
      using cl assms unfolding cl_header [OF cl] by (auto simp: body_length_def is_chunked_def framing)
  next
    case other
    from other_header [OF other, of rq val] assms show ?thesis
      using other by (simp add: keeps_Some body_length_def is_chunked_def)
  qed
  then show "left_read rq' = body_length (attr, val) (left_read rq)"
    "rq_flags rq' AND RQ_INPUT_CHUNKED =
      (if is_chunked (attr, val) then RQ_INPUT_CHUNKED else rq_flags rq AND RQ_INPUT_CHUNKED)" by blast+
qed

section \<open>Properties\<close>

text \<open>
  C10: what the headers of a request say about its body. However many headers there are, the length
  left to read is the one of the last \<^verbatim>\<open>Content-Length\<close>, or -1 for a last
  \<^verbatim>\<open>Transfer-Encoding: chunked\<close>, whichever of the two came later, and the request is marked as
  chunked exactly when some header said so; no other header changes either.
\<close>

theorem body_framing:
  assumes "parse_headers ssl hs rq = Some (True, rq')" "\<forall>h \<in> set hs. fst h = [] \<or> hd (fst h) \<noteq> 58"
  shows "left_read rq' = fold body_length hs (left_read rq) \<and>
    rq_flags rq' AND RQ_INPUT_CHUNKED =
      (if \<exists>h \<in> set hs. is_chunked h then RQ_INPUT_CHUNKED else rq_flags rq AND RQ_INPUT_CHUNKED)"
  using assms
proof (induction hs arbitrary: rq)
  case (Cons h hs)
  obtain attr val where h: "h = (attr, val)" by (cases h)
  from Cons.prems h obtain rq1 where step: "parse_header ssl attr val False rq = Some (True, rq1)"
    and rest: "parse_headers ssl hs rq1 = Some (True, rq')"
    by (auto split: option.split_asm bool.split_asm)
  have "field_header attr val rq = Some (True, rq1)"
    using step Cons.prems(2) h by (auto simp: parse_header_def)
  from field_header_framing [OF this] Cons.IH [OF rest] Cons.prems(2) h show ?case by auto
qed simp

text \<open>A request with nothing read yet, and its witness: a length that follows the chunked coding wins.\<close>

definition new_request :: request where
  "new_request = \<lparr>http_version = 0x101, meth = 3, rq_flags = 0, left_read = 0, raw_url = url0, accept_encoding = 0,
     rq_range = None, rq_precondition = No_Precondition, rq_headers = []\<rparr>"

lemma smuggling_headers:
  "parse_headers False [(bytes ''Transfer-Encoding'', bytes ''chunked''), (bytes ''Content-Length'', bytes ''5'')] new_request =
     Some (True, new_request\<lparr>left_read := 5, rq_flags := RQ_INPUT_CHUNKED OR RQ_HAS_CONTENT_LEN\<rparr>)"
  by (simp add: parse_header_def field_header_def name_eval new_request_def kgl_atol_def set_flag_def)

theorem body_framing_witness:
  "\<exists>rq'. parse_headers False [(bytes ''Transfer-Encoding'', bytes ''chunked''), (bytes ''Content-Length'', bytes ''5'')] new_request =
     Some (True, rq') \<and> left_read rq' = 5 \<and> rq_flags rq' AND RQ_INPUT_CHUNKED \<noteq> 0"
proof -
  let ?hs = "[(bytes ''Transfer-Encoding'', bytes ''chunked''), (bytes ''Content-Length'', bytes ''5'')]"
  obtain rq' where r: "parse_headers False ?hs new_request = Some (True, rq')" using smuggling_headers by blast
  moreover have "is_chunked (?hs ! 0)" by (simp add: is_chunked_def name_eval)
  ultimately show ?thesis
    using body_framing [OF r] by (simp add: body_length_def is_chunked_def name_eval new_request_def kgl_atol_def)
qed

text \<open>
  A range is only accepted if it selects octets of the entity: whatever numbers the request
  named, when \<^verbatim>\<open>kgl_adjust_range\<close> succeeds on an entity of \<^verbatim>\<open>len\<close> octets, the adjusted start is not
  negative, the length to send is positive and the end is not behind the entity.
\<close>

theorem adjust_range_within:
  assumes "kgl_adjust_range rg len = Some (True, rg', n)" "0 \<le> len"
  shows "0 \<le> r_from rg' \<and> 0 < n \<and> r_from rg' + n \<le> len"
  using assms by (auto simp: kgl_adjust_range_def Let_def split: if_splits)

theorem adjust_range_within_witness:
  "\<exists>rg' n. kgl_adjust_range \<lparr>r_from = - 5, r_to = 0, if_range = No_Precondition\<rparr> 20 = Some (True, rg', n) \<and>
     0 \<le> r_from rg' \<and> 0 < n \<and> r_from rg' + n \<le> 20"
proof -
  have r: "kgl_adjust_range \<lparr>r_from = - 5, r_to = 0, if_range = No_Precondition\<rparr> 20 =
      Some (True, \<lparr>r_from = 15, r_to = 19, if_range = No_Precondition\<rparr>, 5)"
    by (simp add: kgl_adjust_range_def)
  from adjust_range_within [OF r] r show ?thesis by auto
qed

text \<open>A suffix range as long as the entity is refused, though all octets satisfy it.\<close>

lemma adjust_range_whole_suffix:
  "0 < len \<Longrightarrow> kgl_adjust_range \<lparr>r_from = - len, r_to = 0, if_range = i\<rparr> len =
     Some (False, \<lparr>r_from = 0, r_to = 0, if_range = i\<rparr>, len)"
  by (simp add: kgl_adjust_range_def)

lemma decimal_Cons: "\<exists>d t. decimal n = d # t \<and> 48 \<le> d"
proof (cases "decimal n")
  case Nil
  then show ?thesis by (subst (asm) decimal.simps) (simp split: if_splits)
next
  case (Cons d t)
  then show ?thesis using decimal_octets [of d n] by simp
qed

lemma atol_prefix: "int n < 2 ^ 63 \<Longrightarrow> kgl_atol (decimal n @ 45 # t) = Some (int n)"
  using decimal_octets atoi_decimal [of n "2 ^ 63 - 1"]
  by (simp add: kgl_atol_def atoi_loop_append [of "decimal n" _ _ "int n"])

text \<open>
  The header \<^verbatim>\<open>Range: bytes=a-b\<close> selects the octets from \<open>a\<close> to \<open>b\<close>: for \<open>a\<close> inside the entity and
  not behind \<open>b\<close>, the request records a range from which \<^verbatim>\<open>kgl_adjust_range\<close> gives the start \<open>a\<close> and the
  number of octets up to \<open>b\<close> or the end of the entity.
\<close>

theorem range_header_slice:
  assumes "a \<le> b" "int b < 2 ^ 63 - 1" "int a < len" "rq_range rq = None"
  shows "\<exists>rq' rg rg'. parse_header ssl (bytes ''Range'') (bytes ''bytes='' @ decimal a @ 45 # decimal b) False rq = Some (True, rq') \<and>
    rq_range rq' = Some rg \<and>
    kgl_adjust_range rg len = Some (True, rg', min (int b - int a + 1) (len - int a)) \<and> r_from rg' = int a"
proof -
  let ?hot = "decimal a @ 45 # decimal b"
  obtain d t where d: "decimal a = d # t" "48 \<le> d" using decimal_Cons by blast
  obtain d' t' where d': "decimal b = d' # t'" using decimal_Cons by blast
  have "d \<noteq> 45" using d(2) by auto
  have "45 \<notin> set (decimal a)" using decimal_octets [of 45 a] by auto
  then have m: "memchr ?hot 45 = Some (length (decimal a))" by (rule memchr_prefix)
  have ab: "int a < 2 ^ 63" "int b < 2 ^ 63" using assms(1,2) by linarith+
  have b: "kgl_atol (decimal b) = Some (int b)" unfolding kgl_atol_def using ab by (intro atoi_decimal) linarith
  have "parse_range ?hot rq = Some (True, rq\<lparr>rq_range := Some \<lparr>r_from = int a, r_to = int b, if_range = No_Precondition\<rparr>\<rparr>)"
    using d(1) d' \<open>d \<noteq> 45\<close> m b atol_prefix [OF ab(1), of "decimal b"] assms(4)
    by (simp add: parse_range_def alloc_request_range_def)
  then have "parse_header ssl (bytes ''Range'') (bytes ''bytes='' @ ?hot) False rq =
      Some (True, rq\<lparr>rq_range := Some \<lparr>r_from = int a, r_to = int b, if_range = No_Precondition\<rparr>\<rparr>)"
    using d(1) by (simp add: parse_header_def field_header_def name_eval kgl_casecmp_def)
  moreover have "kgl_adjust_range \<lparr>r_from = int a, r_to = int b, if_range = No_Precondition\<rparr> len =
      Some (True, \<lparr>r_from = int a, r_to = int b, if_range = No_Precondition\<rparr>, min (int b - int a + 1) (len - int a))"
    using assms by (simp add: kgl_adjust_range_def Let_def min_def)
  ultimately show ?thesis by auto
qed

theorem range_header_slice_witness:
  "\<exists>rq' rg rg'. parse_header False (bytes ''Range'') (bytes ''bytes='' @ decimal 10 @ 45 # decimal 99) False new_request = Some (True, rq') \<and>
    rq_range rq' = Some rg \<and> kgl_adjust_range rg 50 = Some (True, rg', 40) \<and> r_from rg' = 10"
  using range_header_slice [of 10 99 50 new_request False] by (simp add: new_request_def)

text \<open>
  A request of HTTP/2 with a second \<^verbatim>\<open>:path\<close> fails the assertion of \<^verbatim>\<open>parse_url\<close> that there is no path yet.
\<close>

lemma repeated_path_aborts:
  assumes "http_version rq > 0x100" "u_path (raw_url rq) \<noteq> None"
  shows "parse_header ssl (bytes '':path'') (47 # val) False rq = None"
  using assms second_path_aborts [of "raw_url rq" "47 # val"]
  by (simp add: parse_header_def pseudo_header_def lift_url_def name_eval)

end
