(* ===== verification/KHttp2Recv.thy ===== *)
theory KHttp2Recv
  imports KHttp2Stream KHuffman KRequest
begin

unbundle bit_operations_syntax

text \<open>
  The receiving side of an HTTP/2 server connection: the frame handlers \<^verbatim>\<open>state_*\<close> of \<^verbatim>\<open>src/KHttp2.cpp\<close>,
  which read whatever octets have arrived, save what is incomplete and go on later, the decoding of
  header blocks with the HPACK table and the Huffman code, and the requests they fill.
\<close>

section \<open>State\<close>

datatype handler =
    H_Preface | H_Preface_End | H_Head | H_Data | H_Read_Data | H_Headers | H_Priority | H_Rst_Stream | H_Settings_Params
  | H_Ping | H_Goaway | H_Window_Update | H_Altsvc | H_Skip | H_Header_Block | H_Header_Complete | H_Field_Len | H_Field_Huff
  | H_Field_Raw | H_Field_Skip

text \<open>
  A string the state points to: in the static table, in the pool of the request being read, or in
  the pool of an earlier request, which may be gone; then only its length is known.
\<close>

datatype str_ref = Null | Static "byte list" | Pooled "byte list" | Dangling nat

fun ref_len :: "str_ref \<Rightarrow> nat" where
  "ref_len Null = 0"
| "ref_len (Static xs) = length xs"
| "ref_len (Pooled xs) = length xs"
| "ref_len (Dangling n) = n"

fun dangle :: "str_ref \<Rightarrow> str_ref" where
  "dangle (Pooled xs) = Dangling (length xs)"
| "dangle r = r"

text \<open>What a stream's sink holds: the request, the cookies of the block being read and the trailers.\<close>

record h2_sink =
  sk_request :: request
  sk_cookies :: "byte list list"
  sk_trailer :: "(byte list \<times> byte list) list"

text \<open>
  \<^verbatim>\<open>kgl_http_v2_state_t\<close>. \<open>r_field\<close> are the octets from \<^verbatim>\<open>field_start\<close> to \<^verbatim>\<open>field_end\<close>. \<open>r_stream\<close> is the number of the stream the
  state points to; when its node is gone, the stream waits to be destroyed by the connection.
  \<open>r_started\<close> are the requests handed to a new fiber, with the length of their header block.
\<close>

record h2_recv = h2_conn +
  r_sid :: u32
  r_length :: nat
  r_padding :: nat
  r_flags :: byte
  r_parse_name :: bool
  r_parse_value :: bool
  r_index :: bool
  r_field_state :: byte
  r_field_rest :: nat
  r_field :: str_ref
  r_name :: str_ref
  r_value :: str_ref
  r_header_length :: nat
  r_buffer :: "byte list"
  r_handler :: handler
  r_stream :: "u32 option"
  r_hpack :: hpack
  r_sinks :: "u32 \<Rightarrow> h2_sink option"
  r_started :: "(u32 \<times> request) list"
  r_enable_connect :: bool
  r_pinged :: bool
  r_shutdown :: bool

text \<open>
  The environment of a run: the pool allocations of the HPACK table and its fresh memory, whether the
  connection is encrypted, the streams whose time has passed, whether the connection has been idle
  for too long, and the clock that fills a PING.
\<close>

record h2_env =
  env_palloc :: "nat \<Rightarrow> bool"
  env_junk :: "byte list"
  env_ssl :: bool
  env_expired :: "u32 list"
  env_idle :: bool
  env_time :: "byte list"

text \<open>
  A handler returns the position to go on from, or it has saved what is left and wants more, or the
  connection is closed. \<open>Undef\<close> is behaviour the language leaves undefined, or that depends on memory
  of an earlier request.
\<close>

datatype h2_next = Next h2_recv "byte list" | Save h2_recv | Stop h2_recv | Undef

section \<open>Common steps\<close>

text \<open>
  \<^verbatim>\<open>ReleaseStateStream\<close>. The destructor of the sink of a stream whose header is incomplete releases the
  node and clears the pointer through which the node is destroyed again, a null pointer then.
\<close>

definition ReleaseStateStream :: "h2_recv \<Rightarrow> h2_recv option" where
  "ReleaseStateStream c = (
     case r_stream c of
       None \<Rightarrow> Some c
     | Some sid \<Rightarrow>
         (case get_stream sid c of
            Some s \<Rightarrow> if \<not> st_parsed_header s then None else Some (c\<lparr>r_stream := None\<rparr>)
          | None \<Rightarrow> Some (c\<lparr>r_stream := None\<rparr>)))"

text \<open>
  The pool of the block being read is \<^verbatim>\<open>state.pool\<close>: there is none while the block of a refused stream
  is skipped, and that of a released stream is gone.
\<close>

definition pool_alive :: "h2_recv \<Rightarrow> bool" where
  "pool_alive c \<longleftrightarrow> (case r_stream c of None \<Rightarrow> False | Some sid \<Rightarrow> get_stream sid c \<noteq> None)"

fun read_ref :: "bool \<Rightarrow> str_ref \<Rightarrow> byte list option" where
  "read_ref alive Null = Some []"
| "read_ref alive (Static xs) = Some xs"
| "read_ref alive (Pooled xs) = (if alive \<or> xs = [] then Some xs else None)"
| "read_ref alive (Dangling n) = (if n = 0 then Some [] else None)"

text \<open>\<^verbatim>\<open>close\<close> deletes the connection when nothing is under way, and with it what the state holds.\<close>

definition close_read :: "h2_recv \<Rightarrow> h2_next" where
  "close_read c = (
     let c = h2_close True c in
     if c_destroyed c then (case ReleaseStateStream c of None \<Rightarrow> Undef | Some c \<Rightarrow> Stop c) else Stop c)"

definition KGL_HTTP_V2_STATE_BUFFER_SIZE :: nat where
  "KGL_HTTP_V2_STATE_BUFFER_SIZE = 16"

definition state_save :: "byte list \<Rightarrow> handler \<Rightarrow> h2_recv \<Rightarrow> h2_next" where
  "state_save pos h c = (
     if length pos > KGL_HTTP_V2_STATE_BUFFER_SIZE then close_read c
     else Save (c\<lparr>r_buffer := pos, r_handler := h\<rparr>))"

definition state_complete :: "byte list \<Rightarrow> h2_recv \<Rightarrow> h2_next" where
  "state_complete pos c = (
     case ReleaseStateStream c of
       None \<Rightarrow> Undef
     | Some c \<Rightarrow> Next (c\<lparr>r_handler := H_Head\<rparr>) pos)"

definition state_skip :: "byte list \<Rightarrow> h2_recv \<Rightarrow> h2_next" where
  "state_skip pos c = (
     if length pos < r_length c then state_save [] H_Skip (c\<lparr>r_length := r_length c - length pos\<rparr>)
     else state_complete (drop (r_length c) pos) c)"

definition state_skip_padded :: "byte list \<Rightarrow> h2_recv \<Rightarrow> h2_next" where
  "state_skip_padded pos c = state_skip pos (c\<lparr>r_length := r_length c + r_padding c, r_padding := 0\<rparr>)"

definition has_bit :: "byte \<Rightarrow> byte \<Rightarrow> bool" where
  "has_bit flag flags \<longleftrightarrow> flags AND flag \<noteq> 0"

abbreviation END_STREAM :: byte where "END_STREAM \<equiv> 0x01"
abbreviation ACK :: byte where "ACK \<equiv> 0x01"
abbreviation END_HEADERS :: byte where "END_HEADERS \<equiv> 0x04"
abbreviation PADDED :: byte where "PADDED \<equiv> 0x08"
abbreviation PRIORITY :: byte where "PRIORITY \<equiv> 0x20"

section \<open>Header blocks\<close>

text \<open>
  A block that goes on in a CONTINUATION frame: the octets of the block that are left are moved
  behind the header of that frame.
\<close>

definition handle_continuation :: "byte list \<Rightarrow> handler \<Rightarrow> h2_recv \<Rightarrow> h2_next" where
  "handle_continuation pos h c = (
     let len = r_length c;
         skip = (if r_padding c > 0 \<and> length pos > len then min (r_padding c) (length pos - len) else 0);
         pos = (if skip > 0 then take len pos @ drop (len + skip) pos else pos);
         c = c\<lparr>r_padding := r_padding c - skip\<rparr>
     in if length pos < len + 9 then state_save pos h c
        else
          let p = drop len pos; head = kgl_http_v2_parse_uint32 p in
          if kgl_http_v2_parse_type head \<noteq> KGL_HTTP_V2_CONTINUATION_FRAME then close_read c
          else
            let c = c\<lparr>r_length := len + unat (kgl_http_v2_parse_length head), r_flags := r_flags c OR p ! 4\<rparr> in
            if r_sid c \<noteq> kgl_http_v2_parse_sid (drop 5 p) then close_read c
            else Next (c\<lparr>r_handler := h\<rparr>) (take len pos @ drop (len + 9) pos))"

text \<open>\<^verbatim>\<open>KHttp2Sink::parse_header\<close>; the result is not looked at.\<close>

definition sink_parse_header :: "h2_env \<Rightarrow> u32 \<Rightarrow> h2_stream \<Rightarrow> byte list \<Rightarrow> byte list \<Rightarrow> h2_recv \<Rightarrow> h2_recv option" where
  "sink_parse_header env sid s name val c = (
     case r_sinks c sid of
       None \<Rightarrow> None
     | Some k \<Rightarrow>
         if st_parsed_header s then
           Some (c\<lparr>r_sinks := (r_sinks c)(sid \<mapsto>
             (if length name > MAX_HEADER_ATTR_VAL_SIZE \<or> length val > MAX_HEADER_ATTR_VAL_SIZE then k
              else k\<lparr>sk_trailer := sk_trailer k @ [(name, val)]\<rparr>))\<rparr>)
         else
           (case parse_header (env_ssl env) name val False (sk_request k) of
              None \<Rightarrow> None
            | Some (_, rq) \<Rightarrow> Some (c\<lparr>r_sinks := (r_sinks c)(sid \<mapsto> k\<lparr>sk_request := rq\<rparr>)\<rparr>)))"

fun join_cookies :: "byte list list \<Rightarrow> byte list" where
  "join_cookies [] = []"
| "join_cookies [v] = v"
| "join_cookies (v # vs) = v @ [59, 32] @ join_cookies vs"

definition construct_cookie_header :: "h2_env \<Rightarrow> u32 \<Rightarrow> h2_stream \<Rightarrow> h2_recv \<Rightarrow> h2_recv option" where
  "construct_cookie_header env sid s c = (
     case r_sinks c sid of
       None \<Rightarrow> None
     | Some k \<Rightarrow>
         if sk_cookies k = [] then Some c
         else sink_parse_header env sid s (bytes ''cookie'') (join_cookies (sk_cookies k)) c)"

text \<open>The end of a block: trailers wake the reader, a request gets its fiber.\<close>

definition on_header_success :: "h2_env \<Rightarrow> u32 \<Rightarrow> h2_recv \<Rightarrow> h2_recv option" where
  "on_header_success env sid c = (
     case get_stream sid c of
       None \<Rightarrow> Some c
     | Some s \<Rightarrow>
         if \<not> is_available s then Some c
         else case construct_cookie_header env sid s c of
           None \<Rightarrow> None
         | Some c \<Rightarrow>
             if st_parsed_header s then
               Some (wake_read sid (st_read_wait s) 0 (put_stream sid (s\<lparr>st_read_wait := None\<rparr>) (c\<lparr>r_stream := None\<rparr>)))
             else
               (case r_sinks c sid of
                  None \<Rightarrow> None
                | Some k \<Rightarrow>
                    let rq = sk_request k;
                        rq = (if rq_flags rq AND RQ_HAS_CONTENT_LEN = 0 \<and> \<not> st_in_closed s then rq\<lparr>left_read := - 1\<rparr> else rq)
                    in Some (put_stream sid (s\<lparr>st_parsed_header := True\<rparr>)
                         (c\<lparr>c_processing := c_processing c + 1, r_stream := None,
                            r_sinks := (r_sinks c)(sid \<mapsto> k\<lparr>sk_request := rq\<rparr>),
                            r_started := r_started c @ [(sid, rq)]\<rparr>))))"

definition state_header_complete :: "h2_env \<Rightarrow> byte list \<Rightarrow> h2_recv \<Rightarrow> h2_next" where
  "state_header_complete env pos c = (
     if r_length c > 0 then Next (c\<lparr>r_handler := H_Header_Block\<rparr>) pos
     else if \<not> has_bit END_HEADERS (r_flags c) then handle_continuation pos H_Header_Complete c
     else
       case (case r_stream c of None \<Rightarrow> Some c | Some sid \<Rightarrow> on_header_success env sid c) of
         None \<Rightarrow> Undef
       | Some c \<Rightarrow>
           let c = c\<lparr>r_field := dangle (r_field c)\<rparr> in
           if r_padding c > 0 then state_skip_padded pos c else state_complete pos c)"

text \<open>\<^verbatim>\<open>state_process_header\<close> behind the value: what a complete field does.\<close>

definition give_field :: "h2_env \<Rightarrow> byte list \<Rightarrow> h2_recv \<Rightarrow> h2_next" where
  "give_field env pos c = (
     case r_stream c of
       None \<Rightarrow> state_header_complete env pos c
     | Some sid \<Rightarrow>
         (case get_stream sid c of
            None \<Rightarrow> state_header_complete env pos c
          | Some s \<Rightarrow>
              if \<not> is_available s \<or> r_name c = Null \<or> r_value c = Null then state_header_complete env pos c
              else
                (case (read_ref True (r_name c), read_ref True (r_value c), r_sinks c sid) of
                   (Some name, Some val, Some k) \<Rightarrow>
                     if name = bytes ''cookie'' then
                       state_header_complete env pos (c\<lparr>r_sinks := (r_sinks c)(sid \<mapsto> k\<lparr>sk_cookies := sk_cookies k @ [val]\<rparr>)\<rparr>)
                     else
                       (case sink_parse_header env sid s name val c of
                          None \<Rightarrow> Undef
                        | Some c \<Rightarrow> state_header_complete env pos c)
                 | _ \<Rightarrow> Undef)))"

definition process_field :: "h2_env \<Rightarrow> byte list \<Rightarrow> h2_recv \<Rightarrow> h2_next" where
  "process_field env pos c = (
     let c = (if r_parse_value c then c\<lparr>r_parse_value := False, r_value := r_field c\<rparr> else c);
         c = c\<lparr>r_header_length := r_header_length c + ref_len (r_name c) + ref_len (r_value c)\<rparr>
     in if r_header_length c > 1048576 then close_read c
        else if \<not> r_index c then give_field env pos c
        else
          (case (read_ref (pool_alive c) (r_name c), read_ref (pool_alive c) (r_value c)) of
             (Some name, Some val) \<Rightarrow>
               (case hpack_add_header (env_palloc env) (env_junk env) (r_hpack c) (name, val) of
                  (ok, h) \<Rightarrow>
                    if \<not> ok then close_read (c\<lparr>r_hpack := h\<rparr>) else give_field env pos (c\<lparr>r_hpack := h, r_index := False\<rparr>))
           | _ \<Rightarrow> Undef))"

text \<open>
  The three ways to read a string; \<open>process\<close> is what follows. \<open>again\<close> is the handler that goes on
  with more octets, \<open>writes\<close> whether they go to the pool.
\<close>

definition field_step :: "(byte list \<Rightarrow> h2_recv \<Rightarrow> h2_next) \<Rightarrow> handler \<Rightarrow> bool \<Rightarrow>
    (byte list \<Rightarrow> bool \<Rightarrow> h2_recv \<Rightarrow> h2_recv option) \<Rightarrow> byte list \<Rightarrow> h2_recv \<Rightarrow> h2_next" where
  "field_step process again writes take_octets pos c = (
     let n = min (min (length pos) (r_field_rest c)) (r_length c);
         c = c\<lparr>r_length := r_length c - n, r_field_rest := r_field_rest c - n\<rparr>
     in if writes \<and> \<not> pool_alive c \<and> (n > 0 \<or> r_field_rest c = 0) then Undef
        else case take_octets (take n pos) (r_field_rest c = 0) c of
          None \<Rightarrow> close_read c
        | Some c \<Rightarrow>
            if r_field_rest c = 0 then process (drop n pos) c
            else if r_length c > 0 then state_save (drop n pos) again c
            else if has_bit END_HEADERS (r_flags c) then close_read c
            else handle_continuation (drop n pos) again c)"

definition the_field :: "h2_recv \<Rightarrow> byte list" where
  "the_field c = (case r_field c of Pooled f \<Rightarrow> f | _ \<Rightarrow> [])"

definition take_raw :: "byte list \<Rightarrow> bool \<Rightarrow> h2_recv \<Rightarrow> h2_recv option" where
  "take_raw octets fin c = Some (c\<lparr>r_field := Pooled (the_field c @ octets)\<rparr>)"

definition take_huff :: "byte list \<Rightarrow> bool \<Rightarrow> h2_recv \<Rightarrow> h2_recv option" where
  "take_huff octets fin c = (
     case kgl_http_v2_huff_decode (r_field_state c) octets (the_field c) fin of
       (ok, state, out) \<Rightarrow> if ok then Some (c\<lparr>r_field_state := state, r_field := Pooled out\<rparr>) else None)"

definition take_skip :: "byte list \<Rightarrow> bool \<Rightarrow> h2_recv \<Rightarrow> h2_recv option" where
  "take_skip octets fin c = Some c"

definition state_field_raw :: "(byte list \<Rightarrow> h2_recv \<Rightarrow> h2_next) \<Rightarrow> byte list \<Rightarrow> h2_recv \<Rightarrow> h2_next" where
  "state_field_raw process pos c = field_step process H_Field_Raw True take_raw pos c"

definition state_field_huff :: "(byte list \<Rightarrow> h2_recv \<Rightarrow> h2_next) \<Rightarrow> byte list \<Rightarrow> h2_recv \<Rightarrow> h2_next" where
  "state_field_huff process pos c = field_step process H_Field_Huff True take_huff pos c"

definition state_field_skip :: "(byte list \<Rightarrow> h2_recv \<Rightarrow> h2_next) \<Rightarrow> byte list \<Rightarrow> h2_recv \<Rightarrow> h2_next" where
  "state_field_skip process pos c = field_step process H_Field_Skip False take_skip pos c"

definition state_field_len :: "(byte list \<Rightarrow> h2_recv \<Rightarrow> h2_next) \<Rightarrow> byte list \<Rightarrow> h2_recv \<Rightarrow> h2_next" where
  "state_field_len process pos c = (
     if \<not> has_bit END_HEADERS (r_flags c) \<and> r_length c < KGL_HTTP_V2_INT_OCTETS then handle_continuation pos H_Field_Len c
     else if r_length c < 1 then close_read c
     else if pos = [] then state_save pos H_Field_Len c
     else
       case parse_int (r_length c) pos 127 of
         KGL_AGAIN \<Rightarrow> state_save pos H_Field_Len c
       | KGL_DECLINED \<Rightarrow> close_read c
       | KGL_ERROR \<Rightarrow> close_read c
       | Int_Value len rest len' \<Rightarrow>
           let huff = (hd pos \<ge> 128);
               c = c\<lparr>r_length := len', r_field_rest := len\<rparr>
           in if len > 4096 \<or> \<not> pool_alive c then state_field_skip process rest c
              else
                let c = c\<lparr>r_field := Pooled []\<rparr> in
                if huff then state_field_huff process rest c else state_field_raw process rest c)"

text \<open>
  \<^verbatim>\<open>state_process_header\<close>: behind a name the value follows, behind a value the field is complete.
\<close>

definition state_process_header :: "h2_env \<Rightarrow> byte list \<Rightarrow> h2_recv \<Rightarrow> h2_next" where
  "state_process_header env pos c = (
     if r_parse_name c then
       (let c = c\<lparr>r_parse_name := False, r_name := r_field c\<rparr> in
        if ref_len (r_name c) = 0 then close_read c else state_field_len (process_field env) pos c)
     else process_field env pos c)"

text \<open>
  An entry of the tables as the state's header: the static table is pointed to, a dynamic entry is
  copied to the pool. \<open>None\<close> is a copy without a pool, \<open>Some None\<close> an index that is refused.
\<close>

definition indexed_header :: "h2_env \<Rightarrow> nat \<Rightarrow> bool \<Rightarrow> h2_recv \<Rightarrow> (str_ref \<times> str_ref) option option" where
  "indexed_header env index name_only c = (
     let static = (index \<le> length kgl_http_v2_static_table); h = r_hpack c in
     if \<not> static \<and> index - length kgl_http_v2_static_table \<le> hp_added h - hp_deleted h \<and> \<not> pool_alive c then None
     else case get_indexed_header (env_palloc env) h ([], []) index name_only of
       (False, _) \<Rightarrow> Some None
     | (True, (n, v)) \<Rightarrow> Some (Some (if static then (Static n, Static v) else (Pooled n, if name_only then r_value c else Pooled v))))"

text \<open>The representation of a field: its kind and the prefix of its first integer.\<close>

definition state_header_block :: "h2_env \<Rightarrow> byte list \<Rightarrow> h2_recv \<Rightarrow> h2_next" where
  "state_header_block env pos c = (
     if pos = [] then state_save pos H_Header_Block c
     else if \<not> has_bit END_HEADERS (r_flags c) \<and> r_length c < KGL_HTTP_V2_INT_OCTETS then handle_continuation pos H_Header_Block c
     else
       let ch = hd pos;
           c = (if ch < 128 \<and> ch \<ge> 64 then c\<lparr>r_index := True\<rparr> else c);
           prefix = (if ch \<ge> 128 then 127 else if ch \<ge> 64 then 63 else if ch \<ge> 32 then 31 else 15)
       in case parse_int (r_length c) pos prefix of
            KGL_AGAIN \<Rightarrow> state_save pos H_Header_Block c
          | KGL_DECLINED \<Rightarrow> close_read c
          | KGL_ERROR \<Rightarrow> close_read c
          | Int_Value val rest len' \<Rightarrow>
              let c = c\<lparr>r_length := len'\<rparr>
              in if ch \<ge> 128 then
                   (case indexed_header env val False c of
                      None \<Rightarrow> Undef
                    | Some None \<Rightarrow> close_read c
                    | Some (Some (n, v)) \<Rightarrow> state_process_header env rest (c\<lparr>r_name := n, r_value := v\<rparr>))
                 else if ch \<ge> 32 \<and> ch < 64 then
                   (case table_size (r_hpack c) val of
                      (False, _) \<Rightarrow> close_read c
                    | (True, h) \<Rightarrow> state_header_complete env rest (c\<lparr>r_hpack := h\<rparr>))
                 else if val = 0 then
                   state_field_len (state_process_header env) rest (c\<lparr>r_parse_name := True, r_parse_value := True\<rparr>)
                 else
                   (case indexed_header env val True c of
                      None \<Rightarrow> Undef
                    | Some None \<Rightarrow> close_read c
                    | Some (Some (n, _)) \<Rightarrow>
                        state_field_len (state_process_header env) rest (c\<lparr>r_name := n, r_parse_value := True\<rparr>)))"

section \<open>Frames\<close>

definition new_sink :: "h2_env \<Rightarrow> h2_sink" where
  "new_sink env = \<lparr>sk_request = \<lparr>http_version = 0x200, meth = 0, rq_flags = 0, left_read = 0,
       raw_url = url0\<lparr>u_flags := (if env_ssl env then KGL_URL_SSL else 0)\<rparr>, accept_encoding = 0, rq_range = None,
       rq_precondition = No_Precondition, rq_headers = []\<rparr>, sk_cookies = [], sk_trailer = []\<rparr>"

definition create_stream :: "h2_recv \<Rightarrow> h2_stream" where
  "create_stream c = stream_Init (int32 (c_init_window c))"

text \<open>The HEADERS frame of a stream: a new request, or the trailers of one.\<close>

definition headers_stream :: "h2_env \<Rightarrow> byte list \<Rightarrow> h2_recv \<Rightarrow> h2_next" where
  "headers_stream env pos c = (
     let sid = r_sid c; fin = has_bit END_STREAM (r_flags c) in
     case get_stream sid c of
       Some s \<Rightarrow>
         let s = s\<lparr>st_queued := False\<rparr>; c = put_stream sid s c in
         if \<not> is_available s \<or> st_in_closed s then state_skip pos c
         else state_header_block env pos (put_stream sid (s\<lparr>st_in_closed := fin\<rparr>) (c\<lparr>r_stream := Some sid\<rparr>))
     | None \<Rightarrow>
         let c = c\<lparr>c_index := (let idx = snd (get_node sid (Some None) (c_index c)) in
                     put_node sid (Some ((create_stream c)\<lparr>st_in_closed := fin\<rparr>)) idx),
                   r_sinks := (r_sinks c)(sid \<mapsto> new_sink env), r_stream := Some sid\<rparr>
         in state_header_block env pos c)"

definition state_headers :: "h2_env \<Rightarrow> byte list \<Rightarrow> h2_recv \<Rightarrow> h2_next" where
  "state_headers env pos c = (
     let c = c\<lparr>r_header_length := 0\<rparr>;
         padded = has_bit PADDED (r_flags c); prio = has_bit PRIORITY (r_flags c);
         size = (if padded then 1 else 0) + (if prio then 5 else 0)
     in if r_length c \<le> size then close_read c
        else if length pos < size then state_save pos H_Headers c
        else
          let c = c\<lparr>r_length := r_length c - size\<rparr>;
              padding = unat (hd pos);
              pos1 = (if padded then tl pos else pos)
          in if padded \<and> padding > r_length c then close_read (c\<lparr>r_padding := padding\<rparr>)
             else
               let c = (if padded then c\<lparr>r_padding := padding, r_length := r_length c - padding\<rparr> else c);
                   depend = (if prio then kgl_http_v2_parse_uint32 pos1 AND 0x7fffffff else 0);
                   pos2 = (if prio then drop 5 pos1 else pos1)
               in if even (unat (r_sid c)) \<or> r_sid c < c_last_peer_sid c then close_read c
                  else if c_self_goaway c then state_header_block env pos2 (send_rst_stream (r_sid c) 0 c)
                  else
                    let c = c\<lparr>c_last_peer_sid := r_sid c\<rparr> in
                    if depend = r_sid c then state_header_block env pos2 (send_rst_stream (r_sid c) 1 c)
                    else headers_stream env pos2 c)"

text \<open>DATA octets: into the buffer of the stream, and on to a reader that waits.\<close>

definition deliver_data :: "u32 \<Rightarrow> h2_stream \<Rightarrow> byte list \<Rightarrow> h2_recv \<Rightarrow> (h2_stream \<times> h2_recv) option" where
  "deliver_data sid s octets c = (
     let b = sb_append octets (case st_read_buffer s of None \<Rightarrow> sb_empty | Some b \<Rightarrow> b) in
     case st_read_wait s of
       None \<Rightarrow> Some (s\<lparr>st_read_buffer := Some b\<rparr>, c)
     | Some n \<Rightarrow>
         (case copy_read_buffer b n of
            None \<Rightarrow> None
          | Some (out, b) \<Rightarrow> Some (FlushQueue (s\<lparr>st_read_wait := None, st_read_buffer := Some b\<rparr>),
              woken sid (Woke_Read (int (length out))) c)))"

definition end_data :: "u32 \<Rightarrow> h2_stream \<Rightarrow> h2_recv \<Rightarrow> h2_stream \<times> h2_recv" where
  "end_data sid s c = (
     if has_bit END_STREAM (r_flags c) then
       (let s = s\<lparr>st_in_closed := True\<rparr> in
        case st_read_wait s of
          None \<Rightarrow> (s, c)
        | Some n \<Rightarrow> (FlushQueue (s\<lparr>st_read_wait := None\<rparr>), woken sid (Woke_Read 0) c))
     else (s, c))"

definition state_read_data :: "byte list \<Rightarrow> h2_recv \<Rightarrow> h2_next" where
  "state_read_data pos c = (
     case r_stream c of
       None \<Rightarrow> state_skip_padded pos c
     | Some sid \<Rightarrow>
         (case get_stream sid c of
            None \<Rightarrow>
              let n = min (length pos) (r_length c); c = c\<lparr>r_length := r_length c - n\<rparr> in
              if r_length c > 0 then state_save (drop n pos) H_Read_Data c
              else if r_padding c > 0 then state_skip_padded (drop n pos) c
              else state_complete (drop n pos) c
          | Some s \<Rightarrow>
              if st_skip_data s then
                (case end_data sid s c of (s, c) \<Rightarrow> state_skip_padded pos (put_stream sid s c))
              else
                let n = min (length pos) (r_length c) in
                case (if n > 0 then deliver_data sid s (take n pos) c else Some (s, c)) of
                  None \<Rightarrow> Undef
                | Some (s, c) \<Rightarrow>
                    let c = c\<lparr>r_length := r_length c - n\<rparr> in
                    if r_length c > 0 then state_save (drop n pos) H_Read_Data (put_stream sid s c)
                    else
                      (case end_data sid s c of
                         (s, c) \<Rightarrow>
                           let c = put_stream sid s c in
                           if r_padding c > 0 then state_skip_padded (drop n pos) c else state_complete (drop n pos) c)))"

text \<open>The windows of a DATA frame, whose padding is not counted.\<close>

definition data_windows :: "byte list \<Rightarrow> h2_recv \<Rightarrow> h2_next" where
  "data_windows pos c = (
     if int (r_length c) > c_recv_window c then close_read c
     else
       let c = c\<lparr>c_recv_window := c_recv_window c - int (r_length c)\<rparr>;
           full = KGL_HTTP_V2_CONNECTION_RECV_WINDOW;
           (flag, c) = (if c_recv_window c < full div 4
              then (case send_window_update 0 (full - c_recv_window c) c of (f, c) \<Rightarrow> (f, c\<lparr>c_recv_window := full\<rparr>))
              else (False, c));
           go = (\<lambda>c. if flag then start_write c else c)
       in case get_stream (r_sid c) c of
            None \<Rightarrow> state_skip_padded pos (go c)
          | Some s \<Rightarrow>
              if \<not> st_parsed_header s then state_skip_padded pos (snd (terminate_stream (r_sid c) s 1 c))
              else if int (r_length c) > st_recv_window s then state_skip_padded pos (snd (terminate_stream (r_sid c) s 3 c))
              else
                let s = s\<lparr>st_recv_window := st_recv_window s - int (r_length c)\<rparr> in
                if st_in_closed s then
                  (case terminate_stream (r_sid c) s 5 (put_stream (r_sid c) s c) of
                     (sent, c) \<Rightarrow> state_skip_padded pos (if \<not> sent then go c else c))
                else state_read_data pos (go (put_stream (r_sid c) s (c\<lparr>r_stream := Some (r_sid c)\<rparr>))))"

definition state_data :: "byte list \<Rightarrow> h2_recv \<Rightarrow> h2_next" where
  "state_data pos c = (
     if has_bit PADDED (r_flags c) then
       (if r_length c = 0 then close_read c
        else if pos = [] then state_save pos H_Data c
        else
          let padding = unat (hd pos); c = c\<lparr>r_padding := padding, r_length := r_length c - 1\<rparr> in
          if padding > r_length c then close_read c
          else data_windows (tl pos) (c\<lparr>r_length := r_length c - padding\<rparr>))
     else data_windows pos c)"

definition state_priority :: "byte list \<Rightarrow> h2_recv \<Rightarrow> h2_next" where
  "state_priority pos c = (
     if r_length c \<noteq> 5 then close_read c
     else if length pos < 5 then state_save pos H_Priority c
     else if r_sid c = 0 then close_read c
     else state_complete (drop 5 pos) c)"

definition state_rst_stream :: "byte list \<Rightarrow> h2_recv \<Rightarrow> h2_next" where
  "state_rst_stream pos c = (
     if r_length c \<noteq> 4 then close_read c
     else if length pos < 4 then state_save pos H_Rst_Stream c
     else if r_sid c = 0 then close_read c
     else case get_stream (r_sid c) c of
       None \<Rightarrow> state_complete (drop 4 pos) c
     | Some s \<Rightarrow> state_complete (drop 4 pos) (reset_stream (r_sid c) s c))"

text \<open>One parameter of a SETTINGS frame; \<open>None\<close> is a value that closes the connection, \<open>Some None\<close> undefined.\<close>

definition setting_param :: "nat \<Rightarrow> int \<Rightarrow> h2_recv \<Rightarrow> h2_recv option option" where
  "setting_param ident val c = (
     if ident = 4 then (if val > KGL_HTTP_V2_MAX_WINDOW then None else Some (adjust_windows val c))
     else if ident = 5 then
       (if val > 2 ^ 24 - 1 \<or> val < KGL_HTTP_V2_DEFAULT_FRAME_SIZE then None else Some (Some (c\<lparr>c_frame_size := val\<rparr>)))
     else if ident = 8 then Some (Some (c\<lparr>r_enable_connect := (val \<noteq> 0)\<rparr>))
     else Some (Some c))"

fun state_settings_params :: "nat \<Rightarrow> byte list \<Rightarrow> h2_recv \<Rightarrow> h2_next" where
  "state_settings_params 0 pos c = state_complete pos c"
| "state_settings_params (Suc n) pos c = (
     if length pos < 6 then state_save pos H_Settings_Params c
     else
       let c = c\<lparr>r_length := r_length c - 6\<rparr> in
       case setting_param (unat (kgl_http_v2_parse_uint16 pos)) (uint (kgl_http_v2_parse_uint32 (drop 2 pos))) c of
         None \<Rightarrow> close_read c
       | Some None \<Rightarrow> Undef
       | Some (Some c) \<Rightarrow> state_settings_params n (drop 6 pos) c)"

definition state_settings :: "byte list \<Rightarrow> h2_recv \<Rightarrow> h2_next" where
  "state_settings pos c = (
     if r_flags c = ACK then (if r_length c \<noteq> 0 then close_read c else state_complete pos c)
     else if r_length c mod 6 \<noteq> 0 then close_read c
     else state_settings_params (r_length c div 6) pos (send_settings_ack c))"

definition state_ping :: "byte list \<Rightarrow> h2_recv \<Rightarrow> h2_next" where
  "state_ping pos c = (
     if r_length c \<noteq> 8 then close_read c
     else if length pos < 8 then state_save pos H_Ping c
     else if has_bit ACK (r_flags c) then state_skip pos c
     else state_complete (drop 8 pos) (start_write (push_buffer [control_buffer ping_ack_frame False] c)))"

definition state_goaway :: "byte list \<Rightarrow> h2_recv \<Rightarrow> h2_next" where
  "state_goaway pos c = (
     if r_length c < 8 then close_read c
     else if length pos < 8 then state_save pos H_Goaway c
     else state_skip pos (c\<lparr>c_peer_goaway := True\<rparr>))"

definition state_window_update :: "byte list \<Rightarrow> h2_recv \<Rightarrow> h2_next" where
  "state_window_update pos c = (
     if r_length c \<noteq> 4 then close_read c
     else if length pos < 4 then state_save pos H_Window_Update c
     else
       let window = uint (kgl_http_v2_parse_window pos) in
       if r_sid c = 0 \<and> window > uint32 (KGL_HTTP_V2_MAX_WINDOW - c_send_window c) then close_read c
       else case window_update (r_sid c) window c of
         None \<Rightarrow> Undef
       | Some c \<Rightarrow> state_complete (drop 4 pos) c)"

definition state_altsvc :: "byte list \<Rightarrow> h2_recv \<Rightarrow> h2_next" where
  "state_altsvc pos c = (
     if r_length c < 2 then close_read c
     else if length pos < 2 then state_save pos H_Altsvc c
     else state_skip pos c)"

text \<open>
  The streams at the head of the queue whose time, with its extensions, has passed are an argument;
  they are taken off the queue and shut down.
\<close>

fun check_stream_timeout :: "u32 list \<Rightarrow> h2_recv \<Rightarrow> h2_recv" where
  "check_stream_timeout [] c = c"
| "check_stream_timeout (sid # sids) c = check_stream_timeout sids (
     case get_stream sid c of
       None \<Rightarrow> c
     | Some s \<Rightarrow> h2_shutdown sid (s\<lparr>st_queued := False\<rparr>) (put_stream sid (s\<lparr>st_queued := False\<rparr>) c))"

text \<open>The table \<^verbatim>\<open>kgl_http_v2_frame_states\<close>.\<close>

definition frame_state :: "h2_env \<Rightarrow> nat \<Rightarrow> byte list \<Rightarrow> h2_recv \<Rightarrow> h2_next" where
  "frame_state env type pos c = (
     if type = 0 then state_data pos c
     else if type = 1 then state_headers env pos c
     else if type = 2 then state_priority pos c
     else if type = 3 then state_rst_stream pos c
     else if type = 4 then state_settings pos c
     else if type = 5 then state_skip pos c
     else if type = 6 then state_ping pos c
     else if type = 7 then state_goaway pos c
     else if type = 8 then state_window_update pos c
     else if type = 9 then close_read c
     else state_altsvc pos c)"

definition state_head :: "h2_env \<Rightarrow> byte list \<Rightarrow> h2_recv \<Rightarrow> h2_next" where
  "state_head env pos c = (
     if length pos < 9 then state_save pos H_Head c
     else case parse_head pos of
       (len, type, flags, sid, rest) \<Rightarrow>
         let c = c\<lparr>r_length := unat len, r_flags := flags, r_sid := sid\<rparr> in
         if unat type \<ge> 11 then state_skip rest c
         else frame_state env (unat type) rest (check_stream_timeout (env_expired env) c))"

definition state_preface_end :: "h2_env \<Rightarrow> byte list \<Rightarrow> h2_recv \<Rightarrow> h2_next" where
  "state_preface_end env pos c = (
     let preface = [13, 10] @ bytes ''SM'' @ [13, 10, 13, 10] in
     if length pos < length preface + 1 then state_save pos H_Preface_End c
     else if take (length preface) pos \<noteq> preface then close_read c
     else state_head env (drop (length preface) pos) c)"

definition state_preface :: "h2_env \<Rightarrow> byte list \<Rightarrow> h2_recv \<Rightarrow> h2_next" where
  "state_preface env pos c = (
     let preface = bytes ''PRI * HTTP/2.0'' @ [13, 10] in
     if length pos < length preface + 1 then state_save pos H_Preface c
     else if take (length preface) pos \<noteq> preface then close_read c
     else state_preface_end env (drop (length preface) pos) c)"

section \<open>Reading\<close>

fun run_handler :: "h2_env \<Rightarrow> handler \<Rightarrow> byte list \<Rightarrow> h2_recv \<Rightarrow> h2_next" where
  "run_handler env H_Preface = state_preface env"
| "run_handler env H_Preface_End = state_preface_end env"
| "run_handler env H_Head = state_head env"
| "run_handler env H_Data = state_data"
| "run_handler env H_Read_Data = state_read_data"
| "run_handler env H_Headers = state_headers env"
| "run_handler env H_Priority = state_priority"
| "run_handler env H_Rst_Stream = state_rst_stream"
| "run_handler env H_Settings_Params = (\<lambda>pos c. state_settings_params (r_length c div 6) pos c)"
| "run_handler env H_Ping = state_ping"
| "run_handler env H_Goaway = state_goaway"
| "run_handler env H_Window_Update = state_window_update"
| "run_handler env H_Altsvc = state_altsvc"
| "run_handler env H_Skip = state_skip"
| "run_handler env H_Header_Block = state_header_block env"
| "run_handler env H_Header_Complete = state_header_complete env"
| "run_handler env H_Field_Len = state_field_len (state_process_header env)"
| "run_handler env H_Field_Huff = state_field_huff (state_process_header env)"
| "run_handler env H_Field_Raw = state_field_raw (state_process_header env)"
| "run_handler env H_Field_Skip = state_field_skip (state_process_header env)"

text \<open>The loop of \<^verbatim>\<open>on_read_result\<close> over the octets that have arrived; \<open>None\<close> when the rounds do not suffice.\<close>

fun read_loop :: "h2_env \<Rightarrow> nat \<Rightarrow> byte list \<Rightarrow> h2_recv \<Rightarrow> h2_next option" where
  "read_loop env 0 pos c = None"
| "read_loop env (Suc n) pos c = (
     case run_handler env (r_handler c) pos c of
       Next c pos \<Rightarrow> if pos = [] then Some (Next c []) else read_loop env n pos c
     | r \<Rightarrow> Some r)"

definition start_read :: "h2_env \<Rightarrow> h2_recv \<Rightarrow> h2_next" where
  "start_read env c = (
     let pc = c_processing c;
         c = (if pc = 0 \<and> \<not> c_self_goaway c \<and> env_idle env then goaway 0 c else c)
     in if pc = 0 \<and> \<not> c_write_processing c \<and> c_peer_goaway c then close_read c else Save c)"

definition on_read_result :: "h2_env \<Rightarrow> nat \<Rightarrow> byte list \<Rightarrow> h2_recv \<Rightarrow> h2_next option" where
  "on_read_result env fuel got c = (
     if got = [] then Some (close_read c)
     else
       let pos = r_buffer c @ got; c = c\<lparr>r_pinged := False, r_buffer := []\<rparr> in
       case read_loop env fuel pos c of
         None \<Rightarrow> None
       | Some (Next c _) \<Rightarrow> Some (start_read env c)
       | Some (Save c) \<Rightarrow> Some (start_read env c)
       | Some r \<Rightarrow> Some r)"

text \<open>A read that times out pings the peer, the second one in a row shuts the connection down.\<close>

definition on_read_timeout :: "h2_env \<Rightarrow> h2_recv \<Rightarrow> h2_recv" where
  "on_read_timeout env c = (
     if r_pinged c then c\<lparr>r_shutdown := True\<rparr>
     else if c_self_goaway c \<and> c_processing c = 0 \<and> \<not> c_write_processing c then c\<lparr>r_shutdown := True\<rparr>
     else
       let c = check_stream_timeout (env_expired env) c;
           frame = fill_frame (get_frame 0 8 KGL_HTTP_V2_PING_FRAME 0) (env_time env)
       in start_write (push_buffer [control_buffer frame True] (c\<lparr>r_pinged := True\<rparr>)))"

definition h2_server :: h2_recv where
  "h2_server = (
     let c = h2_conn.extend h2_init
          \<lparr>r_sid = 0, r_length = 0, r_padding = 0, r_flags = 0, r_parse_name = False, r_parse_value = False, r_index = False,
            r_field_state = 0, r_field_rest = 0, r_field = Null, r_name = Null, r_value = Null, r_header_length = 0, r_buffer = [],
            r_handler = H_Preface, r_stream = None, r_hpack = hpack_zero, r_sinks = (\<lambda>_. None), r_started = [],
            r_enable_connect = False, r_pinged = False, r_shutdown = False\<rparr>;
         c = send_settings c
     in (case send_window_update 0 (KGL_HTTP_V2_CONNECTION_RECV_WINDOW - KGL_HTTP_V2_DEFAULT_WINDOW) c of
           (flag, c) \<Rightarrow> if flag then start_write c else c))"

end
