(* ===== verification/KHttp2Block.thy ===== *)
theory KHttp2Block
  imports KHttp2Recv
begin

unbundle bit_operations_syntax

text \<open>
  Header blocks from the wire to the request. The representations a peer may choose for a field are
  written out with the encodings of \<^verbatim>\<open>write_int\<close> and the strings, their meaning is given by the abstract
  header table, and the handlers are shown to give the request exactly these fields.
\<close>

section \<open>The representations of a block\<close>

text \<open>A string on the wire: Huffman coded or not, and its octets.\<close>

datatype wire_string = Wire_String bool "byte list"

fun string_octets :: "wire_string \<Rightarrow> byte list" where
  "string_octets (Wire_String huff xs) = write_int (if huff then 0x80 else 0) 127 (length xs) @ xs"

fun string_value :: "wire_string \<Rightarrow> byte list option" where
  "string_value (Wire_String huff xs) = (
     if length xs > 4096 then None
     else if \<not> huff then Some xs
     else case kgl_http_v2_huff_decode 0 xs [] True of (ok, _, out) \<Rightarrow> if ok then Some out else None)"

datatype literal_kind = Indexing | Without_Indexing | Never_Indexed

datatype wire_name = Name_Index nat | Name_String wire_string

datatype wire_field = Indexed_Field nat | Literal_Field literal_kind wire_name wire_string

fun kind_bits :: "literal_kind \<Rightarrow> byte \<times> nat" where
  "kind_bits Indexing = (0x40, 6)"
| "kind_bits Without_Indexing = (0, 4)"
| "kind_bits Never_Indexed = (0x10, 4)"

definition kind_int :: "literal_kind \<Rightarrow> nat \<Rightarrow> byte list" where
  "kind_int kind i = write_int (fst (kind_bits kind)) (2 ^ snd (kind_bits kind) - 1) i"

fun field_octets :: "wire_field \<Rightarrow> byte list" where
  "field_octets (Indexed_Field i) = write_int 0x80 127 i"
| "field_octets (Literal_Field kind (Name_Index i) v) =
     kind_int kind i @ string_octets v"
| "field_octets (Literal_Field kind (Name_String n) v) =
     kind_int kind 0 @ string_octets n @ string_octets v"

text \<open>The meaning of a field under a header table: the field and the table behind it.\<close>

definition name_value :: "header list \<Rightarrow> wire_name \<Rightarrow> byte list option" where
  "name_value table n = (
     case n of
       Name_Index i \<Rightarrow> map_option fst (spec_get table i)
     | Name_String s \<Rightarrow> (case string_value s of Some x \<Rightarrow> if x = [] then None else Some x | None \<Rightarrow> None))"

fun spec_field :: "nat \<Rightarrow> header list \<Rightarrow> wire_field \<Rightarrow> (header list \<times> header) option" where
  "spec_field limit table (Indexed_Field i) = map_option (Pair table) (spec_get table i)"
| "spec_field limit table (Literal_Field kind n v) = (
     case (name_value table n, string_value v) of
       (Some x, Some y) \<Rightarrow> Some (if kind = Indexing then spec_add limit table (x, y) else table, (x, y))
     | _ \<Rightarrow> None)"

fun spec_block :: "nat \<Rightarrow> header list \<Rightarrow> wire_field list \<Rightarrow> (header list \<times> header list) option" where
  "spec_block limit table [] = Some (table, [])"
| "spec_block limit table (f # fs) = (
     case spec_field limit table f of
       None \<Rightarrow> None
     | Some (table', x) \<Rightarrow> map_option (\<lambda>(t, xs). (t, x # xs)) (spec_block limit table' fs))"

section \<open>Strings\<close>

lemma get_stream_upd [simp]:
  "get_stream sid (c\<lparr>r_flags := y0\<rparr>) = get_stream sid (c :: h2_recv)"
  "get_stream sid (c\<lparr>r_sid := y1\<rparr>) = get_stream sid (c :: h2_recv)"
  "get_stream sid (c\<lparr>c_last_peer_sid := y2\<rparr>) = get_stream sid (c :: h2_recv)"
  "get_stream sid (c\<lparr>r_length := x0\<rparr>) = get_stream sid (c :: h2_recv)"
  "get_stream sid (c\<lparr>r_padding := x1\<rparr>) = get_stream sid (c :: h2_recv)"
  "get_stream sid (c\<lparr>r_field_rest := x2\<rparr>) = get_stream sid (c :: h2_recv)"
  "get_stream sid (c\<lparr>r_field := x3\<rparr>) = get_stream sid (c :: h2_recv)"
  "get_stream sid (c\<lparr>r_field_state := x4\<rparr>) = get_stream sid (c :: h2_recv)"
  "get_stream sid (c\<lparr>r_name := x5\<rparr>) = get_stream sid (c :: h2_recv)"
  "get_stream sid (c\<lparr>r_value := x6\<rparr>) = get_stream sid (c :: h2_recv)"
  "get_stream sid (c\<lparr>r_header_length := x7\<rparr>) = get_stream sid (c :: h2_recv)"
  "get_stream sid (c\<lparr>r_hpack := x8\<rparr>) = get_stream sid (c :: h2_recv)"
  "get_stream sid (c\<lparr>r_sinks := x9\<rparr>) = get_stream sid (c :: h2_recv)"
  "get_stream sid (c\<lparr>r_handler := x10\<rparr>) = get_stream sid (c :: h2_recv)"
  "get_stream sid (c\<lparr>r_index := x11\<rparr>) = get_stream sid (c :: h2_recv)"
  "get_stream sid (c\<lparr>r_parse_name := x12\<rparr>) = get_stream sid (c :: h2_recv)"
  "get_stream sid (c\<lparr>r_parse_value := x13\<rparr>) = get_stream sid (c :: h2_recv)"
  "get_stream sid (c\<lparr>r_started := x14\<rparr>) = get_stream sid (c :: h2_recv)"
  "get_stream sid (c\<lparr>r_stream := x15\<rparr>) = get_stream sid (c :: h2_recv)"
  "get_stream sid (c\<lparr>c_processing := x16\<rparr>) = get_stream sid (c :: h2_recv)"
  by (simp_all add: get_stream_def)

lemma pool_alive_upd [simp]:
  "pool_alive (c\<lparr>r_length := x0\<rparr>) = pool_alive c"
  "pool_alive (c\<lparr>r_padding := x1\<rparr>) = pool_alive c"
  "pool_alive (c\<lparr>r_field_rest := x2\<rparr>) = pool_alive c"
  "pool_alive (c\<lparr>r_field := x3\<rparr>) = pool_alive c"
  "pool_alive (c\<lparr>r_field_state := x4\<rparr>) = pool_alive c"
  "pool_alive (c\<lparr>r_name := x5\<rparr>) = pool_alive c"
  "pool_alive (c\<lparr>r_value := x6\<rparr>) = pool_alive c"
  "pool_alive (c\<lparr>r_header_length := x7\<rparr>) = pool_alive c"
  "pool_alive (c\<lparr>r_hpack := x8\<rparr>) = pool_alive c"
  "pool_alive (c\<lparr>r_sinks := x9\<rparr>) = pool_alive c"
  "pool_alive (c\<lparr>r_handler := x10\<rparr>) = pool_alive c"
  "pool_alive (c\<lparr>r_index := x11\<rparr>) = pool_alive c"
  "pool_alive (c\<lparr>r_parse_name := x12\<rparr>) = pool_alive c"
  "pool_alive (c\<lparr>r_parse_value := x13\<rparr>) = pool_alive c"
  "pool_alive (c\<lparr>r_started := x14\<rparr>) = pool_alive c"
  "pool_alive (c\<lparr>c_processing := x16\<rparr>) = pool_alive c"
  by (simp_all add: pool_alive_def cong: option.case_cong)

lemma string_length_prefix:
  assumes "length xs \<le> 4096" "length (write_int b 127 (length xs)) \<le> len" "b = 0x80 \<or> b = 0"
  shows "parse_int len (write_int b 127 (length xs) @ r) 127 = Int_Value (length xs) r (len - length (write_int b 127 (length xs)))"
  using parse_write_int [of 7 b "length xs" len r] assms by auto

lemma write_int_not_Nil [simp]: "write_int b p v \<noteq> []"
  by (simp add: write_int_def)

lemma disjoint_or:
  fixes x y :: byte
  assumes "x AND m = 0" "y AND m = y" "unat x + unat y < 256"
  shows "unat (x OR y) = unat x + unat y"
proof -
  have "x AND y = (x AND m) AND y" by (metis assms(2) and.assoc and.commute)
  then have "x AND y = 0" by (simp add: assms(1))
  then have "x OR y = x + y" using word_plus_and_or [of x y] by simp
  then show ?thesis using assms(3) by (simp add: unat_word_ariths)
qed

lemma write_int_head:
  assumes "n \<le> 8" "type AND of_nat (2 ^ n - 1) = (0 :: byte)" "unat type + (2 ^ n - 1) < 256"
  shows "unat (hd (write_int type (2 ^ n - 1) v)) = unat type + min v (2 ^ n - 1)"
proof -
  let ?y = "of_nat (min v (2 ^ n - 1)) :: byte"
  have le: "min v (2 ^ n - 1) < 256" using assms(3) by linarith
  then have y: "unat ?y = min v (2 ^ n - 1)" by (simp add: unat_of_nat)
  have lt: "min v (2 ^ n - 1) < 2 ^ n" by (auto simp: min_def intro: le_less_trans)
  have m: "(of_nat (2 ^ n - 1) :: byte) = 2 ^ n - 1" by (simp add: of_nat_diff)
  have "unat (?y AND of_nat (2 ^ n - 1)) = unat ?y mod 2 ^ n" unfolding m by (rule unat_and_mask)
  then have "?y AND of_nat (2 ^ n - 1) = ?y" using y lt by (simp add: word_unat_eq_iff)
  with assms(2) have "unat (type OR ?y) = unat type + unat ?y"
    by (rule disjoint_or) (use assms(3) y in linarith)
  then show ?thesis using y by (auto simp: write_int_def min_def split: if_splits)
qed

lemma huff_bit:
  "hd (write_int 0x80 127 n) \<ge> 128" "\<not> hd (write_int 0 127 n) \<ge> 128"
  using write_int_head [where n = 7 and type = 128 and v = n] write_int_head [where n = 7 and type = 0 and v = n] by (simp_all add: word_le_nat_alt)

lemma field_len_raw:
  assumes "has_bit END_HEADERS (r_flags c)" "pool_alive c" "length xs \<le> 4096"
    and len: "length (write_int 0 127 (length xs)) + length xs \<le> r_length c"
  shows "state_field_len process (write_int 0 127 (length xs) @ xs @ rest) c =
    process rest (c\<lparr>r_length := r_length c - (length (write_int 0 127 (length xs)) + length xs), r_field_rest := 0,
      r_field := Pooled xs\<rparr>)"
proof -
  let ?i = "write_int 0 127 (length xs)"
  have pi: "parse_int (r_length c) (?i @ xs @ rest) 127 = Int_Value (length xs) (xs @ rest) (r_length c - length ?i)"
    using assms by (intro string_length_prefix) auto
  have "length ?i > 0" by simp
  with len have pos: "r_length c > 0" by linarith
  have huff: "\<not> hd (?i @ xs @ rest) \<ge> 128" using huff_bit by (simp add: hd_append)
  have n: "length xs \<le> r_length c - length ?i" using len by simp
  show ?thesis
    unfolding state_field_len_def using assms(1-3) pos huff
    by (simp add: pi Let_def state_field_raw_def field_step_def n min_absorb1 take_raw_def the_field_def
        del: length_greater_0_conv)
qed

text \<open>An assignment of the value a component has already.\<close>

lemma same_upd:
  "r_field_state c = st \<Longrightarrow> (c :: h2_recv)\<lparr>r_field_state := st\<rparr> = c"
  "r_parse_name c = b \<Longrightarrow> (c :: h2_recv)\<lparr>r_parse_name := b\<rparr> = c"
  "r_parse_value c = b \<Longrightarrow> (c :: h2_recv)\<lparr>r_parse_value := b\<rparr> = c"
  "r_index c = b \<Longrightarrow> (c :: h2_recv)\<lparr>r_index := b\<rparr> = c"
  by simp_all

lemma field_len_huff:
  assumes "has_bit END_HEADERS (r_flags c)" "pool_alive c" "length xs \<le> 4096" "r_field_state c = 0"
    and dec: "kgl_http_v2_huff_decode 0 xs [] True = (True, st, x)"
    and len: "length (write_int 0x80 127 (length xs)) + length xs \<le> r_length c"
  shows "state_field_len process (write_int 0x80 127 (length xs) @ xs @ rest) c =
    process rest (c\<lparr>r_length := r_length c - (length (write_int 0x80 127 (length xs)) + length xs), r_field_rest := 0,
      r_field := Pooled x\<rparr>)"
proof -
  let ?i = "write_int 0x80 127 (length xs)"
  have pi: "parse_int (r_length c) (?i @ xs @ rest) 127 = Int_Value (length xs) (xs @ rest) (r_length c - length ?i)"
    using assms by (intro string_length_prefix) auto
  have "length ?i > 0" by simp
  with len have pos: "r_length c > 0" by linarith
  have huff: "hd (?i @ xs @ rest) \<ge> 128" using huff_bit by (simp add: hd_append)
  have n: "length xs \<le> r_length c - length ?i" using len by simp
  have "st = 0" using dec by (auto simp: kgl_http_v2_huff_decode_def split: prod.splits bool.splits if_splits)
  with assms(4) show ?thesis
    unfolding state_field_len_def using assms(1-3) pos huff
    by (simp add: pi Let_def state_field_huff_def field_step_def n min_absorb1 take_huff_def the_field_def dec same_upd
        del: length_greater_0_conv)
qed

lemma field_len_string:
  assumes "has_bit END_HEADERS (r_flags c)" "string_value w = Some x" "pool_alive c" "r_field_state c = 0"
    and "length (string_octets w) \<le> r_length c"
  shows "state_field_len process (string_octets w @ rest) c =
    process rest (c\<lparr>r_length := r_length c - length (string_octets w), r_field_rest := 0, r_field := Pooled x\<rparr>)"
proof (cases w)
  case (Wire_String huff xs)
  show ?thesis
  proof (cases huff)
    case True
    obtain st where "kgl_http_v2_huff_decode 0 xs [] True = (True, st, x)" "length xs \<le> 4096"
      using assms(2) True by (auto simp: Wire_String split: if_splits prod.splits)
    with assms True show ?thesis by (simp add: Wire_String field_len_huff)
  next
    case False
    with assms show ?thesis by (auto simp: Wire_String field_len_raw split: if_splits)
  qed
qed

text \<open>
  A string of more than 4096 octets is skipped, but the field keeps what was read before: behind a
  literal name, the value is the name.
\<close>

lemma long_string_stale:
  assumes "has_bit END_HEADERS (r_flags c)" "4096 < length xs" "length xs < 2 ^ 20"
    and len: "length (write_int 0 127 (length xs)) + length xs \<le> r_length c"
  shows "state_field_len process (write_int 0 127 (length xs) @ xs @ rest) c =
    process rest (c\<lparr>r_length := r_length c - (length (write_int 0 127 (length xs)) + length xs), r_field_rest := 0\<rparr>)"
proof -
  let ?i = "write_int 0 127 (length xs)"
  have pi: "parse_int (r_length c) (?i @ xs @ rest) 127 = Int_Value (length xs) (xs @ rest) (r_length c - length ?i)"
    using parse_write_int [where n = 7 and type = 0 and val = "length xs" and len = "r_length c" and r = "xs @ rest"] assms by simp
  have "length ?i > 0" by simp
  with len have pos: "r_length c > 0" by linarith
  have n: "length xs \<le> r_length c - length ?i" using len by simp
  show ?thesis
    unfolding state_field_len_def using assms(1,2) pos
    by (simp add: pi Let_def state_field_skip_def field_step_def n min_absorb1 take_skip_def del: length_greater_0_conv)
qed

section \<open>One field\<close>

text \<open>What a field does to the sink of its stream.\<close>

fun give_sink :: "bool \<Rightarrow> header \<Rightarrow> h2_sink \<Rightarrow> h2_sink option" where
  "give_sink ssl (n, v) k = (
     if n = bytes ''cookie'' then Some (k\<lparr>sk_cookies := sk_cookies k @ [v]\<rparr>)
     else case parse_header ssl n v False (sk_request k) of
       None \<Rightarrow> None
     | Some (_, rq) \<Rightarrow> Some (k\<lparr>sk_request := rq\<rparr>))"

definition memory_ok :: "h2_env \<Rightarrow> bool" where
  "memory_ok env \<longleftrightarrow> (\<forall>k. env_palloc env k) \<and> length (env_junk env) = 4096"

text \<open>The state within the block of a new stream.\<close>

definition reading :: "u32 \<Rightarrow> h2_stream \<Rightarrow> h2_recv \<Rightarrow> bool" where
  "reading sid s c \<longleftrightarrow>
     r_stream c = Some sid \<and> get_stream sid c = Some s \<and> is_available s \<and> \<not> st_parsed_header s \<and>
     has_bit END_HEADERS (r_flags c) \<and> r_field_state c = 0 \<and> hp_inv (r_hpack c)"

lemma reading_alive: "reading sid s c \<Longrightarrow> pool_alive c"
  by (simp add: reading_def pool_alive_def)

lemma read_ref_length: "read_ref a r = Some x \<Longrightarrow> ref_len r = length x"
  by (cases r) (auto split: if_splits)

lemma give_field_sink:
  assumes "reading sid s c" "r_sinks c sid = Some k" "r_name c \<noteq> Null" "r_value c \<noteq> Null"
    and "read_ref True (r_name c) = Some n" "read_ref True (r_value c) = Some v" "give_sink (env_ssl env) (n, v) k = Some k'"
  shows "give_field env pos c = state_header_complete env pos (c\<lparr>r_sinks := (r_sinks c)(sid \<mapsto> k')\<rparr>)"
  using assms by (auto simp: give_field_def reading_def sink_parse_header_def split: if_splits option.splits)

lemma process_field_sink:
  assumes r: "reading sid s c" and mem: "memory_ok env" and k: "r_sinks c sid = Some k"
    and val: "val = (if r_parse_value c then r_field c else r_value c)"
    and "r_name c \<noteq> Null" "val \<noteq> Null" and n: "read_ref True (r_name c) = Some n" and v: "read_ref True val = Some v"
    and give: "give_sink (env_ssl env) (n, v) k = Some k'"
    and len: "r_header_length c + length n + length v \<le> 1048576"
  shows "\<exists>h. process_field env pos c = state_header_complete env pos (c\<lparr>r_parse_value := False, r_value := val,
        r_header_length := r_header_length c + length n + length v, r_hpack := h, r_index := False,
        r_sinks := (r_sinks c)(sid \<mapsto> k')\<rparr>) \<and> hp_inv h \<and> max_size h = max_size (r_hpack c) \<and>
      contents h = (if r_index c then spec_add (max_size (r_hpack c)) (contents (r_hpack c)) (n, v) else contents (r_hpack c))"
proof -
  let ?c1 = "c\<lparr>r_parse_value := False, r_value := val, r_header_length := r_header_length c + length n + length v\<rparr>"
  have alive: "pool_alive c" using r by (rule reading_alive)
  have inv: "hp_inv (r_hpack c)" using r by (simp add: reading_def)
  have lens: "ref_len (r_name c) = length n" "ref_len val = length v"
    using n v by (auto dest: read_ref_length)
  have pf: "process_field env pos c = (
      if r_index c then
        (case hpack_add_header (env_palloc env) (env_junk env) (r_hpack c) (n, v) of
           (ok, h) \<Rightarrow> if \<not> ok then close_read (?c1\<lparr>r_hpack := h\<rparr>) else give_field env pos (?c1\<lparr>r_hpack := h, r_index := False\<rparr>))
      else give_field env pos ?c1)"
    using lens len n v alive val
    by (cases "hpack_add_header (env_palloc env) (env_junk env) (r_hpack c) (n, v)"; cases "r_parse_value c")
      (simp_all add: process_field_def Let_def same_upd)
  have give': "give_field env pos (?c1\<lparr>r_hpack := h, r_index := False\<rparr>) =
      state_header_complete env pos (?c1\<lparr>r_hpack := h, r_index := False, r_sinks := (r_sinks c)(sid \<mapsto> k')\<rparr>)" if "hp_inv h" for h
    using give_field_sink [of sid s "?c1\<lparr>r_hpack := h, r_index := False\<rparr>" k n v env k' pos] assms that by (simp add: reading_def)
  show ?thesis
  proof (cases "r_index c")
    case False
    then have eq: "?c1\<lparr>r_hpack := r_hpack c, r_index := False\<rparr> = ?c1" by simp
    have "process_field env pos c = give_field env pos (?c1\<lparr>r_hpack := r_hpack c, r_index := False\<rparr>)"
      unfolding eq using pf False by (simp only: if_False)
    with give' [OF inv] have "process_field env pos c = state_header_complete env pos
        (?c1\<lparr>r_hpack := r_hpack c, r_index := False, r_sinks := (r_sinks c)(sid \<mapsto> k')\<rparr>)" by (simp only:)
    with False inv show ?thesis by (intro exI [of _ "r_hpack c"] conjI) (simp_all only: if_False)
  next
    case True
    obtain h where add: "hpack_add_header (env_palloc env) (env_junk env) (r_hpack c) (n, v) = (True, h)"
      using add_header_succeeds [of "env_palloc env" "env_junk env" "r_hpack c" "(n, v)"] mem
      by (cases "hpack_add_header (env_palloc env) (env_junk env) (r_hpack c) (n, v)") (auto simp: memory_ok_def)
    from add_header_ok [OF inv _ add] mem have h: "slots_ok h" "acct_ok h" "store_ok h" "hp_size h = max_size (r_hpack c)"
      "contents h = spec_add (max_size (r_hpack c)) (contents (r_hpack c)) (n, v)" by (simp_all add: memory_ok_def)
    then have inv': "hp_inv h" and size: "max_size h = max_size (r_hpack c)"
      by (auto simp: hp_inv_def max_size_def dest: slots_ok_entries)
    have "process_field env pos c = give_field env pos (?c1\<lparr>r_hpack := h, r_index := False\<rparr>)"
      unfolding pf using True by (simp only: if_True add prod.case not_True_eq_False if_False)
    with give' [OF inv'] have "process_field env pos c = state_header_complete env pos
        (?c1\<lparr>r_hpack := h, r_index := False, r_sinks := (r_sinks c)(sid \<mapsto> k')\<rparr>)" by (simp only:)
    with True inv' size h(5) show ?thesis by (intro exI [of _ h] conjI) (simp_all only: if_True)
  qed
qed

lemma spec_get_small:
  assumes "hp_inv h" "spec_get (contents h) i = Some x"
  shows "0 < i" "i < 2 ^ 20"
proof -
  have "length xs \<le> sum_list (map hsize xs)" for xs
    by (induction xs) (auto simp: hsize_def)
  then have "length (contents h) \<le> sum_list (map hsize (contents h))" .
  also have "\<dots> \<le> max_size h" by (rule contents_within [OF assms(1)])
  also have "\<dots> \<le> 4096" using assms(1)
    by (auto simp: max_size_def hp_inv_def acct_ok_def fresh_def KGL_HTTP_V2_TABLE_SIZE_def)
  finally show "0 < i" "i < 2 ^ 20"
    using assms(2) by (auto simp: spec_get_def static_table_length Let_def split: if_splits)
qed

lemma get_indexed_name:
  assumes "hp_inv h" "\<And>k. palloc k" "spec_get (contents h) i = Some (n, v)"
  shows "\<exists>w. get_indexed_header palloc h hdr i True = (True, (n, w))"
proof -
  have len: "length (contents h) = hp_added h - hp_deleted h" by (simp add: contents_def live_def)
  show ?thesis
    using contents_nth(1) [of "i - 1 - length kgl_http_v2_static_table" h] assms(2,3) len
    by (auto simp: get_indexed_header_def spec_get_def Let_def nth_append read_entry_def split: if_splits)
qed

lemma indexed_header_get:
  assumes "hp_inv (r_hpack c)" "memory_ok env" "pool_alive c" "spec_get (contents (r_hpack c)) i = Some (n, v)"
  shows "\<exists>a b. indexed_header env i False c = Some (Some (a, b)) \<and> a \<noteq> Null \<and> b \<noteq> Null \<and>
      read_ref True a = Some n \<and> read_ref True b = Some v"
    and "\<exists>a b. indexed_header env i True c = Some (Some (a, b)) \<and> a \<noteq> Null \<and> read_ref True a = Some n"
proof -
  have p: "\<And>k. env_palloc env k" using assms(2) by (simp add: memory_ok_def)
  obtain w where w: "get_indexed_header (env_palloc env) (r_hpack c) ([], []) i True = (True, (n, w))"
    using get_indexed_name [of "r_hpack c" "env_palloc env" i n v "([], [])"] assms(1,4) p by blast
  have full: "get_indexed_header (env_palloc env) (r_hpack c) ([], []) i False = (True, (n, v))"
    using get_indexed_spec [OF assms(1) p] assms(4) by simp
  show "\<exists>a b. indexed_header env i False c = Some (Some (a, b)) \<and> a \<noteq> Null \<and> b \<noteq> Null \<and>
      read_ref True a = Some n \<and> read_ref True b = Some v"
    by (simp add: indexed_header_def assms(3) full)
  show "\<exists>a b. indexed_header env i True c = Some (Some (a, b)) \<and> a \<noteq> Null \<and> read_ref True a = Some n"
    by (simp add: indexed_header_def assms(3) w)
qed

section \<open>The first octet\<close>

lemma indexed_octet: "128 \<le> hd (write_int 0x80 127 i)"
  by (rule huff_bit)

lemma literal_octet:
  "\<not> 128 \<le> hd (kind_int k i)" "64 \<le> hd (kind_int k i) \<longleftrightarrow> k = Indexing" "k \<noteq> Indexing \<Longrightarrow> \<not> 32 \<le> hd (kind_int k i)"
  using write_int_head [where n = 6 and type = 64 and v = i] write_int_head [where n = 4 and type = 0 and v = i]
    write_int_head [where n = 4 and type = 16 and v = i]
  by (cases k; simp add: kind_int_def word_le_nat_alt)+

lemma header_block_indexed:
  assumes "has_bit END_HEADERS (r_flags c)" "length (write_int 0x80 127 i) \<le> r_length c" "i < 2 ^ 20"
    and "indexed_header env i False (c\<lparr>r_length := r_length c - length (write_int 0x80 127 i)\<rparr>) = Some (Some (a, b))"
  shows "state_header_block env (write_int 0x80 127 i @ rest) c =
    state_process_header env rest (c\<lparr>r_length := r_length c - length (write_int 0x80 127 i), r_name := a, r_value := b\<rparr>)"
proof -
  have pi: "parse_int (r_length c) (write_int 0x80 127 i @ rest) 127 = Int_Value i rest (r_length c - length (write_int 0x80 127 i))"
    using parse_write_int [where n = 7 and type = 128 and val = i and len = "r_length c" and r = rest] assms(2,3) by simp
  have "128 \<le> hd (write_int 0x80 127 i @ rest)" "\<not> hd (write_int 0x80 127 i @ rest) < 128"
    using indexed_octet [of i] by (simp_all add: hd_append)
  with assms(1,4) show ?thesis by (simp add: state_header_block_def pi Let_def)
qed

lemma kind_int_not_Nil [simp]: "kind_int k i \<noteq> []"
  by (simp add: kind_int_def)

text \<open>
  The block of a stream that is refused has no pool: an index into the dynamic table dereferences
  the null pointer.
\<close>

lemma refused_block_undefined:
  assumes "has_bit END_HEADERS (r_flags c)" "length (write_int 0x80 127 i) \<le> r_length c" "r_stream c = None"
    and "length kgl_http_v2_static_table < i" "i \<le> length kgl_http_v2_static_table + (hp_added (r_hpack c) - hp_deleted (r_hpack c))" "i < 2 ^ 20"
  shows "state_header_block env (write_int 0x80 127 i @ rest) c = Undef"
proof -
  have pi: "parse_int (r_length c) (write_int 0x80 127 i @ rest) 127 = Int_Value i rest (r_length c - length (write_int 0x80 127 i))"
    using parse_write_int [where n = 7 and type = 128 and val = i and len = "r_length c" and r = rest] assms(2,6) by simp
  have "128 \<le> hd (write_int 0x80 127 i @ rest)" "\<not> hd (write_int 0x80 127 i @ rest) < 128"
    using indexed_octet [of i] by (simp_all add: hd_append)
  moreover have "indexed_header env i False (c\<lparr>r_length := r_length c - length (write_int 0x80 127 i)\<rparr>) = None"
    using assms(3-5) by (auto simp: indexed_header_def Let_def pool_alive_def)
  ultimately show ?thesis using assms(1) by (simp add: state_header_block_def pi Let_def)
qed

lemma header_block_literal:
  assumes "has_bit END_HEADERS (r_flags c)" "\<not> r_index c" "length (kind_int k i) \<le> r_length c" "i < 2 ^ 20"
    and "c1 = c\<lparr>r_index := (k = Indexing), r_length := r_length c - length (kind_int k i)\<rparr>"
  shows "state_header_block env (kind_int k i @ rest) c = (
    if i = 0 then state_field_len (state_process_header env) rest (c1\<lparr>r_parse_name := True, r_parse_value := True\<rparr>)
    else case indexed_header env i True c1 of
      None \<Rightarrow> Undef
    | Some None \<Rightarrow> close_read c1
    | Some (Some (a, _)) \<Rightarrow> state_field_len (state_process_header env) rest (c1\<lparr>r_name := a, r_parse_value := True\<rparr>))"
proof -
  have pi: "parse_int (r_length c) (kind_int k i @ rest) (if k = Indexing then 63 else 15) = Int_Value i rest (r_length c - length (kind_int k i))"
    using parse_write_int [where n = 6 and type = 64 and val = i and len = "r_length c" and r = rest]
      parse_write_int [where n = 4 and type = 0 and val = i and len = "r_length c" and r = rest]
      parse_write_int [where n = 4 and type = 16 and val = i and len = "r_length c" and r = rest] assms(3,4)
    by (cases k) (simp_all add: kind_int_def)
  have ch: "hd (kind_int k i @ rest) = hd (kind_int k i)" by (simp add: kind_int_def hd_append)
  note o = literal_octet [of k i]
  have lt: "hd (kind_int k i) < 128" "k = Indexing \<Longrightarrow> \<not> hd (kind_int k i) < 64" using o by auto
  show ?thesis
  proof (cases "k = Indexing")
    case True
    have c1: "c1 = c\<lparr>r_index := True, r_length := r_length c - length (kind_int Indexing i)\<rparr>" using True by (simp add: assms(5))
    from True o lt assms(1) pi ch show ?thesis unfolding c1 True by (simp add: state_header_block_def Let_def kind_int_not_Nil)
  next
    case False
    have c1: "c1 = c\<lparr>r_length := r_length c - length (kind_int k i)\<rparr>" using assms(2) False by (simp add: assms(5) same_upd)
    from False o lt assms(1) pi ch show ?thesis unfolding c1 by (simp add: state_header_block_def Let_def kind_int_not_Nil)
  qed
qed

section \<open>The fields of a block\<close>

text \<open>What a field changes, apart from the sink: nothing a later field depends on.\<close>

definition field_read :: "h2_recv \<Rightarrow> nat \<Rightarrow> nat \<Rightarrow> str_ref \<times> str_ref \<times> str_ref \<Rightarrow> nat \<Rightarrow> hpack \<Rightarrow> (u32 \<Rightarrow> h2_sink option) \<Rightarrow> h2_recv" where
  "field_read c len rest refs hl h sinks = c\<lparr>r_length := len, r_field_rest := rest, r_field := fst refs, r_name := fst (snd refs),
     r_value := snd (snd refs), r_header_length := hl, r_hpack := h, r_sinks := sinks\<rparr>"

definition idle_fields :: "h2_recv \<Rightarrow> bool" where
  "idle_fields c \<longleftrightarrow> \<not> r_parse_name c \<and> \<not> r_parse_value c \<and> \<not> r_index c"

definition field_effect :: "h2_env \<Rightarrow> u32 \<Rightarrow> byte list \<Rightarrow> header list \<Rightarrow> header \<Rightarrow> nat \<Rightarrow> h2_sink \<Rightarrow> h2_recv \<Rightarrow> h2_next \<Rightarrow> bool" where
  "field_effect env sid rest table x len k' c result \<longleftrightarrow>
     (\<exists>rest0 refs h. result = state_header_complete env rest
        (field_read c len rest0 refs (r_header_length c + length (fst x) + length (snd x)) h ((r_sinks c)(sid \<mapsto> k'))) \<and>
        hp_inv h \<and> max_size h = max_size (r_hpack c) \<and> contents h = table)"

lemma literal_value_read:
  assumes r: "reading sid s c" and idle: "idle_fields c" and mem: "memory_ok env" and k: "r_sinks c sid = Some k"
    and cl: "cl = c\<lparr>r_index := idx, r_length := len, r_field_rest := fr, r_field := fld, r_name := nm, r_parse_value := True\<rparr>"
    and nm: "nm \<noteq> Null" "read_ref True nm = Some n" and v: "string_value w = Some v"
    and give: "give_sink (env_ssl env) (n, v) k = Some k'" and hl: "r_header_length c + length n + length v \<le> 1048576"
    and len: "length (string_octets w) \<le> len" and process: "process = process_field env \<or> process = state_process_header env"
  shows "field_effect env sid rest (if idx then spec_add (max_size (r_hpack c)) (contents (r_hpack c)) (n, v) else contents (r_hpack c))
    (n, v) (len - length (string_octets w)) k' c (state_field_len process (string_octets w @ rest) cl)"
proof -
  let ?l = "len - length (string_octets w)"
  let ?c2 = "cl\<lparr>r_length := ?l, r_field_rest := 0, r_field := Pooled v\<rparr>"
  have r1: "reading sid s cl" "reading sid s ?c2" using r by (simp_all add: cl reading_def)
  have sel: "r_index ?c2 = idx" "r_hpack ?c2 = r_hpack c" "r_sinks ?c2 = r_sinks c" "r_header_length ?c2 = r_header_length c"
    "r_parse_value ?c2 = True" "r_field ?c2 = Pooled v" "r_name ?c2 = nm" by (simp_all add: cl)
  have "state_field_len process (string_octets w @ rest) cl = process rest ?c2"
    using field_len_string [of cl w v process rest] r1(1) reading_alive [OF r1(1)] v len by (simp add: cl reading_def)
  also have "\<dots> = process_field env rest ?c2"
    using process idle by (auto simp: state_process_header_def cl idle_fields_def)
  finally have eq: "state_field_len process (string_octets w @ rest) cl = process_field env rest ?c2" .
  have v': "Pooled v \<noteq> Null" "read_ref True (Pooled v) = Some v" by simp_all
  obtain h where h: "process_field env rest ?c2 = state_header_complete env rest (?c2\<lparr>r_parse_value := False, r_value := Pooled v,
        r_header_length := r_header_length c + length n + length v, r_hpack := h, r_index := False,
        r_sinks := (r_sinks c)(sid \<mapsto> k')\<rparr>)" "hp_inv h" "max_size h = max_size (r_hpack c)"
      "contents h = (if idx then spec_add (max_size (r_hpack c)) (contents (r_hpack c)) (n, v) else contents (r_hpack c))"
    using process_field_sink [OF r1(2) mem, of k "Pooled v" n v k' rest, unfolded sel if_True, OF k refl nm(1) v'(1) nm(2) v'(2) give hl]
    by blast
  have "?c2\<lparr>r_parse_value := False, r_value := Pooled v, r_header_length := r_header_length c + length n + length v, r_hpack := h,
      r_index := False, r_sinks := (r_sinks c)(sid \<mapsto> k')\<rparr> =
      field_read c ?l 0 (Pooled v, nm, Pooled v) (r_header_length c + length n + length v) h ((r_sinks c)(sid \<mapsto> k'))"
    using idle by (simp add: cl field_read_def idle_fields_def)
  with eq h show ?thesis
    unfolding field_effect_def by (intro exI [of _ 0] exI [of _ "(Pooled v, nm, Pooled v)"] exI [of _ h]) simp
qed

lemma literal_name_read:
  assumes r: "reading sid s c" and idle: "idle_fields c" and n: "string_value w = Some n" "n \<noteq> []"
    and len: "length (string_octets w) \<le> len"
  shows "state_field_len (state_process_header env) (string_octets w @ rest)
      (c\<lparr>r_index := idx, r_length := len, r_parse_name := True, r_parse_value := True\<rparr>) =
    state_field_len (process_field env) rest (c\<lparr>r_index := idx, r_length := len - length (string_octets w), r_field_rest := 0,
      r_field := Pooled n, r_name := Pooled n, r_parse_value := True\<rparr>)"
proof -
  let ?c1 = "c\<lparr>r_index := idx, r_length := len, r_parse_name := True, r_parse_value := True\<rparr>"
  have "reading sid s ?c1" using r by (simp add: reading_def)
  then have "state_field_len (state_process_header env) (string_octets w @ rest) ?c1 = state_process_header env rest
      (?c1\<lparr>r_length := len - length (string_octets w), r_field_rest := 0, r_field := Pooled n\<rparr>)"
    using field_len_string [of ?c1 w n "state_process_header env" rest] reading_alive [OF r] n(1) len by (simp add: reading_def)
  also have "\<dots> = state_field_len (process_field env) rest (?c1\<lparr>r_length := len - length (string_octets w), r_field_rest := 0,
      r_field := Pooled n, r_parse_name := False, r_name := Pooled n\<rparr>)"
    using n(2) by (simp add: state_process_header_def Let_def)
  also have "?c1\<lparr>r_length := len - length (string_octets w), r_field_rest := 0, r_field := Pooled n, r_parse_name := False, r_name := Pooled n\<rparr> =
      c\<lparr>r_index := idx, r_length := len - length (string_octets w), r_field_rest := 0, r_field := Pooled n, r_name := Pooled n,
        r_parse_value := True\<rparr>" using idle by (simp add: idle_fields_def)
  finally show ?thesis .
qed

lemma header_block_field:
  assumes r: "reading sid s c" and idle: "idle_fields c" and mem: "memory_ok env" and k: "r_sinks c sid = Some k"
    and f: "spec_field (max_size (r_hpack c)) (contents (r_hpack c)) f = Some (table, x)"
    and give: "give_sink (env_ssl env) x k = Some k'" and hl: "r_header_length c + length (fst x) + length (snd x) \<le> 1048576"
    and len: "length (field_octets f) \<le> r_length c"
  shows "field_effect env sid rest table x (r_length c - length (field_octets f)) k' c (state_header_block env (field_octets f @ rest) c)"
proof -
  obtain n v where x: "x = (n, v)" by (cases x)
  have fl: "has_bit END_HEADERS (r_flags c)" "\<not> r_index c" using r idle by (simp_all add: reading_def idle_fields_def)
  have inv: "hp_inv (r_hpack c)" using r by (simp add: reading_def)
  note alive = reading_alive [OF r]
  note hl' = hl [unfolded x fst_conv snd_conv] and give' = give [unfolded x]
  show ?thesis
  proof (cases f)
    case (Indexed_Field i)
    with f x have get: "spec_get (contents (r_hpack c)) i = Some (n, v)" "table = contents (r_hpack c)" by auto
    let ?l = "r_length c - length (write_int 0x80 127 i)"
    obtain a b where ab: "indexed_header env i False (c\<lparr>r_length := ?l\<rparr>) = Some (Some (a, b))" "a \<noteq> Null" "b \<noteq> Null"
        "read_ref True a = Some n" "read_ref True b = Some v"
      using indexed_header_get(1) [of "c\<lparr>r_length := ?l\<rparr>" env i n v] inv mem alive get(1) by auto
    let ?c2 = "c\<lparr>r_length := ?l, r_name := a, r_value := b\<rparr>"
    have "reading sid s ?c2" using r by (simp add: reading_def)
    moreover have "state_header_block env (field_octets f @ rest) c = state_process_header env rest ?c2"
      using header_block_indexed [OF fl(1) _ _ ab(1)] len spec_get_small(2) [OF inv get(1)] by (simp add: Indexed_Field)
    moreover have "state_process_header env rest ?c2 = process_field env rest ?c2"
      using idle by (simp add: state_process_header_def idle_fields_def)
    moreover obtain h where h: "process_field env rest ?c2 = state_header_complete env rest (?c2\<lparr>r_parse_value := False, r_value := b,
        r_header_length := r_header_length c + length n + length v, r_hpack := h, r_index := False, r_sinks := (r_sinks c)(sid \<mapsto> k')\<rparr>)"
        "hp_inv h" "max_size h = max_size (r_hpack c)" "contents h = contents (r_hpack c)"
      using process_field_sink [OF calculation(1) mem, of k b n v k' rest] k ab(2-5) give' hl' idle by (auto simp: idle_fields_def)
    moreover have "?c2\<lparr>r_parse_value := False, r_value := b, r_header_length := r_header_length c + length n + length v, r_hpack := h,
        r_index := False, r_sinks := (r_sinks c)(sid \<mapsto> k')\<rparr> =
        field_read c ?l (r_field_rest c) (r_field c, a, b) (r_header_length c + length n + length v) h ((r_sinks c)(sid \<mapsto> k'))"
      using idle by (simp add: field_read_def idle_fields_def)
    ultimately show ?thesis unfolding field_effect_def
      using get(2) by (intro exI [of _ "r_field_rest c"] exI [of _ "(r_field c, a, b)"] exI [of _ h]) (simp add: x Indexed_Field)
  next
    case (Literal_Field kind nm w)
    with f x have v: "name_value (contents (r_hpack c)) nm = Some n" "string_value w = Some v"
      "table = (if kind = Indexing then spec_add (max_size (r_hpack c)) (contents (r_hpack c)) (n, v) else contents (r_hpack c))"
      by (auto split: option.splits)
    show ?thesis
    proof (cases nm)
      case (Name_Index i)
      have get: "\<exists>u. spec_get (contents (r_hpack c)) i = Some (n, u)" using v(1) by (auto simp: name_value_def Name_Index)
      let ?l = "r_length c - length (kind_int kind i)"
      let ?c1 = "c\<lparr>r_index := (kind = Indexing), r_length := ?l\<rparr>"
      obtain a b where ab: "indexed_header env i True ?c1 = Some (Some (a, b))" "a \<noteq> Null" "read_ref True a = Some n"
        using indexed_header_get(2) [of ?c1 env i n] inv mem alive get by auto
      have i: "i \<noteq> 0" "i < 2 ^ 20" using get spec_get_small [OF inv] by auto
      have "state_header_block env (field_octets f @ rest) c =
          state_field_len (state_process_header env) (string_octets w @ rest) (?c1\<lparr>r_name := a, r_parse_value := True\<rparr>)"
        using header_block_literal [OF fl _ i(2) refl, of kind env] len i(1) ab(1) by (simp add: Literal_Field Name_Index)
      moreover note literal_value_read [OF r idle mem k _ ab(2,3) v(2) give' hl', where cl = "?c1\<lparr>r_name := a, r_parse_value := True\<rparr>"
          and idx = "kind = Indexing" and len = ?l and fr = "r_field_rest c" and fld = "r_field c" and process = "state_process_header env" and rest = rest]
      ultimately show ?thesis using len by (simp add: x v(3) Literal_Field Name_Index diff_diff_eq)
    next
      case (Name_String u)
      have u: "string_value u = Some n" "n \<noteq> []" using v(1) by (auto simp: name_value_def Name_String split: option.splits if_splits)
      let ?l = "r_length c - length (kind_int kind 0)" and ?l2 = "r_length c - length (kind_int kind 0) - length (string_octets u)"
      have l: "length (kind_int kind 0) \<le> r_length c" "length (string_octets u) \<le> ?l" "length (string_octets w) \<le> ?l2"
        using len by (simp_all add: Literal_Field Name_String)
      let ?c1 = "c\<lparr>r_index := (kind = Indexing), r_length := ?l2, r_field_rest := 0, r_field := Pooled n, r_name := Pooled n, r_parse_value := True\<rparr>"
      have "state_header_block env (field_octets f @ rest) c =
          state_field_len (process_field env) (string_octets w @ rest) ?c1"
        using header_block_literal [OF fl l(1) _ refl, of env] literal_name_read [OF r idle u l(2)] by (simp add: Literal_Field Name_String)
      moreover have "Pooled n \<noteq> Null" "read_ref True (Pooled n) = Some n" by simp_all
      note literal_value_read [OF r idle mem k refl this v(2) give' hl' l(3), where idx = "kind = Indexing" and fr = 0 and
          fld = "Pooled n" and process = "process_field env" and rest = rest]
      ultimately show ?thesis by (simp add: x v(3) Literal_Field Name_String diff_diff_eq add.assoc)
    qed
  qed
qed

section \<open>The block\<close>

fun give_all :: "bool \<Rightarrow> header list \<Rightarrow> h2_sink \<Rightarrow> h2_sink option" where
  "give_all ssl [] k = Some k"
| "give_all ssl (x # xs) k = (case give_sink ssl x k of None \<Rightarrow> None | Some k' \<Rightarrow> give_all ssl xs k')"

definition header_octets :: "header list \<Rightarrow> nat" where
  "header_octets xs = sum_list (map (\<lambda>x. length (fst x) + length (snd x)) xs)"

definition block_octets :: "wire_field list \<Rightarrow> byte list" where
  "block_octets fs = concat (map field_octets fs)"

lemma block_octets_Cons: "block_octets (f # fs) = field_octets f @ block_octets fs"
  by (simp add: block_octets_def)

lemma field_octets_not_Nil [simp]: "field_octets f \<noteq> []"
  by (cases f rule: field_octets.cases) simp_all

text \<open>A round of the loop, behind the handler.\<close>

definition after :: "h2_env \<Rightarrow> nat \<Rightarrow> h2_next \<Rightarrow> h2_next option" where
  "after env n r = (case r of Next c pos \<Rightarrow> if pos = [] then Some (Next c []) else read_loop env n pos c | _ \<Rightarrow> Some r)"

lemma read_loop_Suc: "read_loop env (Suc n) pos c = after env n (run_handler env (r_handler c) pos c)"
  by (auto simp: after_def split: h2_next.splits)

lemma after_Next: "pos \<noteq> [] \<Longrightarrow> after env (Suc n) (Next c pos) = after env n (run_handler env (r_handler c) pos c)"
  by (subst after_def) (simp only: h2_next.case if_False read_loop_Suc)

lemma field_read_sel [simp]:
  "r_length (field_read c len rest refs hl h sinks) = len" "r_hpack (field_read c len rest refs hl h sinks) = h"
  "r_header_length (field_read c len rest refs hl h sinks) = hl" "r_sinks (field_read c len rest refs hl h sinks) = sinks"
  "r_stream (field_read c len rest refs hl h sinks) = r_stream c" "r_flags (field_read c len rest refs hl h sinks) = r_flags c"
  "get_stream sid (field_read c len rest refs hl h sinks) = get_stream sid c"
  "r_field_state (field_read c len rest refs hl h sinks) = r_field_state c"
  "idle_fields (field_read c len rest refs hl h sinks) = idle_fields c"
  "field_read (field_read c len rest refs hl h sinks) len' rest' refs' hl' h' sinks' = field_read c len' rest' refs' hl' h' sinks'"
  "field_read (c\<lparr>r_handler := hd'\<rparr>) len rest refs hl h sinks = (field_read c len rest refs hl h sinks)\<lparr>r_handler := hd'\<rparr>"
  by (simp_all add: field_read_def idle_fields_def)

lemma read_fields:
  assumes "fs \<noteq> []" "reading sid s c" "idle_fields c" "memory_ok env" "r_sinks c sid = Some k"
    and "spec_block (max_size (r_hpack c)) (contents (r_hpack c)) fs = Some (table, xs)"
    and "give_all (env_ssl env) xs k = Some k'" "r_header_length c + header_octets xs \<le> 1048576"
    and "r_length c = length (block_octets fs)"
  shows "\<exists>fr refs hl h hnd. after env (length fs - 1 + n) (state_header_block env (block_octets fs @ rest) c) =
      after env n (state_header_complete env rest
        ((field_read c 0 fr refs hl h ((r_sinks c)(sid \<mapsto> k')))\<lparr>r_handler := hnd\<rparr>)) \<and>
      hp_inv h \<and> max_size h = max_size (r_hpack c) \<and> contents h = table"
  using assms
proof (induction fs arbitrary: c k xs)
  case (Cons f fs)
  from Cons.prems(6) obtain table1 x xs1 where f: "spec_field (max_size (r_hpack c)) (contents (r_hpack c)) f = Some (table1, x)"
    and fs: "spec_block (max_size (r_hpack c)) table1 fs = Some (table, xs1)" and xs: "xs = x # xs1"
    by (auto split: option.splits prod.splits)
  from Cons.prems(7) obtain k1 where k1: "give_sink (env_ssl env) x k = Some k1" "give_all (env_ssl env) xs1 k1 = Some k'"
    by (auto simp: xs split: option.splits)
  have hl: "r_header_length c + length (fst x) + length (snd x) + header_octets xs1 \<le> 1048576"
    using Cons.prems(8) by (simp add: xs header_octets_def)
  have "field_effect env sid (block_octets fs @ rest) table1 x (r_length c - length (field_octets f)) k1 c
      (state_header_block env (field_octets f @ block_octets fs @ rest) c)"
    using Cons.prems(2-5,9) f k1(1) hl by (intro header_block_field) (simp_all add: block_octets_Cons)
  then obtain fr refs h where step: "state_header_block env (block_octets (f # fs) @ rest) c =
      state_header_complete env (block_octets fs @ rest)
        (field_read c (length (block_octets fs)) fr refs (r_header_length c + length (fst x) + length (snd x)) h ((r_sinks c)(sid \<mapsto> k1)))"
    and h: "hp_inv h" "max_size h = max_size (r_hpack c)" "contents h = table1"
    using Cons.prems(9) by (auto simp: field_effect_def block_octets_Cons)
  let ?c1 = "field_read c (length (block_octets fs)) fr refs (r_header_length c + length (fst x) + length (snd x)) h ((r_sinks c)(sid \<mapsto> k1))"
  show ?case
  proof (cases "fs = []")
    case True
    have upd: "(field_read c l fr refs hl h sk)\<lparr>r_handler := r_handler c\<rparr> = field_read c l fr refs hl h sk" for l hl sk
      by (simp add: field_read_def)
    have "table1 = table" "k1 = k'" using True fs k1(2) xs by auto
    with True h step have "after env (length (f # fs) - 1 + n) (state_header_block env (block_octets (f # fs) @ rest) c) =
        after env n (state_header_complete env rest ((field_read c 0 fr refs
          (r_header_length c + length (fst x) + length (snd x)) h ((r_sinks c)(sid \<mapsto> k')))\<lparr>r_handler := r_handler c\<rparr>)) \<and>
        hp_inv h \<and> max_size h = max_size (r_hpack c) \<and> contents h = table"
      by (simp only: upd) (simp add: block_octets_def)
    then show ?thesis by blast
  next
    case False
    let ?c2 = "?c1\<lparr>r_handler := H_Header_Block\<rparr>"
    have ne: "block_octets fs \<noteq> []" using False by (cases fs) (simp_all add: block_octets_Cons)
    have "after env (length (f # fs) - 1 + n) (state_header_block env (block_octets (f # fs) @ rest) c) =
        after env (Suc (length fs - 1 + n)) (Next ?c2 (block_octets fs @ rest))"
      unfolding step using ne False by (cases fs) (simp_all add: state_header_complete_def)
    also have "\<dots> = after env (length fs - 1 + n) (state_header_block env (block_octets fs @ rest) ?c2)"
      using ne by (simp add: after_Next)
    finally have round: "after env (length (f # fs) - 1 + n) (state_header_block env (block_octets (f # fs) @ rest) c) =
        after env (length fs - 1 + n) (state_header_block env (block_octets fs @ rest) ?c2)" .
    have r2: "reading sid s ?c2" "idle_fields ?c2" "r_sinks ?c2 sid = Some k1" "r_length ?c2 = length (block_octets fs)"
      using Cons.prems(2,3) h(1) by (simp_all add: reading_def idle_fields_def field_read_def)
    have sel: "r_hpack ?c2 = h" "r_header_length ?c2 = r_header_length c + length (fst x) + length (snd x)"
      "r_sinks ?c2 = (r_sinks c)(sid \<mapsto> k1)" by simp_all
    have "\<exists>fr refs hl h' hnd. after env (length fs - 1 + n) (state_header_block env (block_octets fs @ rest) ?c2) =
        after env n (state_header_complete env rest
          ((field_read ?c2 0 fr refs hl h' ((r_sinks ?c2)(sid \<mapsto> k')))\<lparr>r_handler := hnd\<rparr>)) \<and>
        hp_inv h' \<and> max_size h' = max_size (r_hpack ?c2) \<and> contents h' = table"
      using False r2 Cons.prems(4) k1(2) hl fs h(2,3) by (intro Cons.IH) (simp_all only: sel not_False_eq_True)
    moreover have "(field_read ?c2 0 fr refs hl h' ((r_sinks ?c2)(sid \<mapsto> k')))\<lparr>r_handler := hnd\<rparr> =
        (field_read c 0 fr refs hl h' ((r_sinks c)(sid \<mapsto> k')))\<lparr>r_handler := hnd\<rparr>" for fr refs hl h' hnd
      unfolding sel by simp
    ultimately show ?thesis unfolding round by (simp only: sel(1) h(2))
  qed
qed simp

section \<open>The end of a block\<close>

text \<open>What is handed to the new fiber: the cookies in one field, and an unknown length unless the stream has ended.\<close>

definition finish_request :: "bool \<Rightarrow> bool \<Rightarrow> h2_sink \<Rightarrow> request option" where
  "finish_request ssl fin k = (
     case (if sk_cookies k = [] then Some (sk_request k)
           else map_option snd (parse_header ssl (bytes ''cookie'') (join_cookies (sk_cookies k)) False (sk_request k))) of
       None \<Rightarrow> None
     | Some rq \<Rightarrow> Some (if rq_flags rq AND RQ_HAS_CONTENT_LEN = 0 \<and> \<not> fin then rq\<lparr>left_read := - 1\<rparr> else rq))"

text \<open>Between two frames.\<close>

definition at_frame :: "h2_recv \<Rightarrow> bool" where
  "at_frame c \<longleftrightarrow> r_handler c = H_Head \<and> r_stream c = None \<and> r_padding c = 0 \<and> idle_fields c \<and> r_field_state c = 0 \<and>
     hp_inv (r_hpack c) \<and> index_ok (c_index c)"

definition starts :: "u32 \<Rightarrow> request \<Rightarrow> header list \<Rightarrow> bool \<Rightarrow> h2_recv \<Rightarrow> h2_recv \<Rightarrow> bool" where
  "starts sid rq table fin c c' \<longleftrightarrow>
     at_frame c' \<and> r_started c' = r_started c @ [(sid, rq)] \<and> contents (r_hpack c') = table \<and>
     max_size (r_hpack c') = max_size (r_hpack c) \<and> c_last_peer_sid c' = c_last_peer_sid c \<and> c_self_goaway c' = c_self_goaway c \<and>
     (\<exists>s. get_stream sid c' = Some s \<and> st_parsed_header s \<and> st_in_closed s = fin \<and> is_available s)"

lemma header_complete_starts:
  assumes "reading sid s c" "idle_fields c" "r_sinks c sid = Some k" "r_length c = 0" "r_padding c = 0" "index_ok (c_index c)"
    and fin: "finish_request (env_ssl env) (st_in_closed s) k = Some rq"
  shows "\<exists>c'. state_header_complete env rest c = Next c' rest \<and> starts sid rq (contents (r_hpack c)) (st_in_closed s) c c'"
proof -
  obtain c1 where c1: "construct_cookie_header env sid s c = Some c1" "c1 = c\<lparr>r_sinks := r_sinks c1\<rparr>"
    and k1: "\<exists>k1. r_sinks c1 sid = Some k1 \<and>
      rq = (if rq_flags (sk_request k1) AND RQ_HAS_CONTENT_LEN = 0 \<and> \<not> st_in_closed s then (sk_request k1)\<lparr>left_read := - 1\<rparr> else sk_request k1)"
    using assms(1,3) fin
    by (auto simp: construct_cookie_header_def finish_request_def sink_parse_header_def reading_def split: if_splits option.splits prod.splits)
  then obtain k1 where k1': "r_sinks c1 sid = Some k1"
      "rq = (if rq_flags (sk_request k1) AND RQ_HAS_CONTENT_LEN = 0 \<and> \<not> st_in_closed s then (sk_request k1)\<lparr>left_read := - 1\<rparr> else sk_request k1)"
    by blast
  let ?s = "s\<lparr>st_parsed_header := True\<rparr>"
  let ?c2 = "put_stream sid ?s (c\<lparr>c_processing := c_processing c + 1, r_stream := None, r_sinks := (r_sinks c1)(sid \<mapsto> k1\<lparr>sk_request := rq\<rparr>),
      r_started := r_started c @ [(sid, rq)]\<rparr>)"
  let ?c3 = "?c2\<lparr>r_field := dangle (r_field c), r_handler := H_Head\<rparr>"
  have s: "r_stream c = Some sid" "get_stream sid c = Some s" "is_available s" "\<not> st_parsed_header s" "has_bit END_HEADERS (r_flags c)"
    using assms(1) by (simp_all add: reading_def)
  have sel: "c_processing c1 = c_processing c" "r_started c1 = r_started c" by (subst c1(2), simp)+
  have success: "on_header_success env sid c = Some ?c2"
    using s c1(1) k1' by (subst (asm) c1(2)) (simp add: on_header_success_def Let_def)
  have "state_header_complete env rest c = Next ?c3 rest"
    using s success assms(4,5) by (simp add: state_header_complete_def state_complete_def ReleaseStateStream_def put_stream_def)
  moreover have "find_node sid (c_index c) = Some (Some s)" using s(2) by (auto simp: get_stream_def split: option.splits)
  then have "get_stream sid ?c3 = Some ?s" using assms(6) by (simp add: get_stream_def put_stream_def nodes.look_put)
  then have "starts sid rq (contents (r_hpack c)) (st_in_closed s) c ?c3"
    using assms(1,2,5,6) s(3) by (auto simp: starts_def at_frame_def reading_def idle_fields_def put_stream_def nodes.ok_put is_available_def)
  ultimately show ?thesis by blast
qed

section \<open>The frame\<close>

definition headers_frame :: "u32 \<Rightarrow> bool \<Rightarrow> wire_field list \<Rightarrow> byte list" where
  "headers_frame sid fin fs = frame_header_bytes
     \<lparr>fh_length_type = set_length_type (of_nat (length (block_octets fs))) 1, fh_flags = (if fin then 5 else 4), fh_stream_id = sid\<rparr> @
     block_octets fs"

lemma state_head_headers:
  assumes "length (block_octets fs) < 2 ^ 24" "unat sid < 2 ^ 31" "env_expired env = []"
  shows "state_head env (headers_frame sid fin fs @ rest) c = state_headers env (block_octets fs @ rest)
    (c\<lparr>r_length := length (block_octets fs), r_flags := (if fin then 5 else 4), r_sid := sid\<rparr>)"
proof -
  let ?len = "of_nat (length (block_octets fs)) :: u32"
  have len: "unat ?len = length (block_octets fs)" using assms(1) by (simp add: unat_of_nat)
  have "parse_head (headers_frame sid fin fs @ rest) = (?len, 1, if fin then 5 else 4, sid, block_octets fs @ rest)"
    using parse_head_bytes [of ?len 1 sid "if fin then 5 else 4" "block_octets fs @ rest"] assms(1,2) len by (simp add: headers_frame_def)
  moreover have "length (headers_frame sid fin fs @ rest) \<ge> 9"
    by (simp add: headers_frame_def frame_header_bytes_def length_put_uint32)
  ultimately show ?thesis using assms(3) len by (simp add: state_head_def frame_state_def Let_def)
qed

text \<open>The state the block of a new stream is read in.\<close>

definition opened :: "h2_env \<Rightarrow> u32 \<Rightarrow> bool \<Rightarrow> nat \<Rightarrow> h2_recv \<Rightarrow> h2_recv" where
  "opened env sid fin len c = (
     let c = c\<lparr>r_flags := (if fin then 5 else 4), r_sid := sid, r_header_length := 0, r_length := len, c_last_peer_sid := sid\<rparr> in
     c\<lparr>c_index := put_node sid (Some ((create_stream c)\<lparr>st_in_closed := fin\<rparr>)) (snd (get_node sid (Some None) (c_index c))),
       r_sinks := (r_sinks c)(sid \<mapsto> new_sink env), r_stream := Some sid\<rparr>)"

lemma state_headers_opens:
  assumes "len > 0" "odd (unat sid)" "c_last_peer_sid c \<le> sid" "\<not> c_self_goaway c" "get_stream sid c = None"
  shows "state_headers env pos (c\<lparr>r_length := len, r_flags := (if fin then 5 else 4), r_sid := sid\<rparr>) =
    state_header_block env pos (opened env sid fin len c)"
proof -
  have sid: "sid \<noteq> 0" "\<not> sid < c_last_peer_sid c" using assms(2,3) by auto
  have bits: "\<not> has_bit PADDED (if fin then 5 else 4)" "\<not> has_bit PRIORITY (if fin then 5 else 4)"
    "has_bit END_STREAM (if fin then 5 else 4) = fin" by (simp_all add: has_bit_def)
  show ?thesis
    using assms(1,2,4,5) sid bits
    by (simp add: state_headers_def headers_stream_def opened_def Let_def create_stream_def)
qed

lemma new_node_index:
  assumes "index_ok idx" "find_node sid idx = None \<or> find_node sid idx = Some None"
  shows "find_node sid (put_node sid v (snd (get_node sid (Some None) idx))) = Some v"
    and "index_ok (put_node sid v (snd (get_node sid (Some None) idx)))"
  using assms by (auto simp: get_node_def nodes.look_put nodes.ok_put nodes.ok_link nodes.look_link)

lemma opened_facts:
  fixes env :: h2_env and fin :: bool and len :: nat
  assumes "at_frame c" "get_stream sid c = None"
  defines "d \<equiv> opened env sid fin len c"
  shows "reading sid ((stream_Init (int32 (c_init_window c)))\<lparr>st_in_closed := fin\<rparr>) d" "idle_fields d" "r_sinks d sid = Some (new_sink env)"
    and "r_length d = len" "r_padding d = 0" "index_ok (c_index d)" "r_hpack d = r_hpack c" "r_header_length d = 0"
    and "r_started d = r_started c" "c_last_peer_sid d = sid" "c_self_goaway d = c_self_goaway c"
proof -
  have idx: "index_ok (c_index c)" using assms(1) by (simp add: at_frame_def)
  have none: "find_node sid (c_index c) = None \<or> find_node sid (c_index c) = Some None"
    using assms(2) by (auto simp: get_stream_def split: option.splits)
  have bit: "has_bit END_HEADERS (if fin then 5 else 4)" by (simp add: has_bit_def)
  show "reading sid ((stream_Init (int32 (c_init_window c)))\<lparr>st_in_closed := fin\<rparr>) d"
    using assms(1) new_node_index(1) [OF idx none] bit
    by (simp add: d_def opened_def Let_def reading_def get_stream_def at_frame_def create_stream_def stream_Init_def is_available_def)
  show "index_ok (c_index d)" using new_node_index(2) [OF idx none] by (simp add: d_def opened_def Let_def)
qed (use assms(1) in \<open>simp_all add: d_def opened_def Let_def idle_fields_def at_frame_def\<close>)

lemma starts_field_read:
  assumes "starts sid rq (contents h) fin ((field_read c 0 fr refs hl h sinks)\<lparr>r_handler := hnd\<rparr>) c'" "max_size h = max_size (r_hpack c)"
  shows "starts sid rq (contents h) fin c c'"
  using assms by (simp add: starts_def field_read_def)

lemma headers_frame_read:
  assumes c: "at_frame c" "\<not> c_self_goaway c" "get_stream sid c = None" and env: "memory_ok env" "env_expired env = []"
    and sid: "odd (unat sid)" "unat sid < 2 ^ 31" "c_last_peer_sid c \<le> sid"
    and fs: "fs \<noteq> []" "length (block_octets fs) < 2 ^ 24"
    and block: "spec_block (max_size (r_hpack c)) (contents (r_hpack c)) fs = Some (table, xs)" "header_octets xs \<le> 1048576"
    and sink: "give_all (env_ssl env) xs (new_sink env) = Some k" "finish_request (env_ssl env) fin k = Some rq"
  shows "\<exists>c'. read_loop env (length fs + n) (headers_frame sid fin fs @ rest) c =
      (if rest = [] then Some (Next c' []) else read_loop env n rest c') \<and>
    starts sid rq table fin (c\<lparr>c_last_peer_sid := sid\<rparr>) c'"
proof -
  let ?o = "opened env sid fin (length (block_octets fs)) c"
  note o = opened_facts [OF c(1,3), where env = env and fin = fin and len = "length (block_octets fs)"]
  let ?s = "(stream_Init (int32 (c_init_window c)))\<lparr>st_in_closed := fin\<rparr>"
  have "block_octets fs \<noteq> []" using fs(1) by (cases fs) (simp_all add: block_octets_Cons)
  then have open_stream: "state_head env (headers_frame sid fin fs @ rest) c = state_header_block env (block_octets fs @ rest) ?o"
    using state_head_headers [OF fs(2) sid(2) env(2)] state_headers_opens [OF _ sid(1,3) c(2,3)] by simp
  have "read_loop env (length fs + n) (headers_frame sid fin fs @ rest) c =
      read_loop env (Suc (length fs - 1 + n)) (headers_frame sid fin fs @ rest) c" using fs(1) by (cases fs) simp_all
  also have "\<dots> = after env (length fs - 1 + n) (state_header_block env (block_octets fs @ rest) ?o)"
    using c(1) by (simp only: read_loop_Suc at_frame_def run_handler.simps open_stream)
  finally have rounds: "read_loop env (length fs + n) (headers_frame sid fin fs @ rest) c =
      after env (length fs - 1 + n) (state_header_block env (block_octets fs @ rest) ?o)" .
  obtain fr refs hl h hnd where last_field: "after env (length fs - 1 + n) (state_header_block env (block_octets fs @ rest) ?o) =
      after env n (state_header_complete env rest ((field_read ?o 0 fr refs hl h ((r_sinks ?o)(sid \<mapsto> k)))\<lparr>r_handler := hnd\<rparr>))"
    and h: "hp_inv h" "max_size h = max_size (r_hpack c)" "contents h = table"
    using read_fields [OF fs(1) o(1,2) env(1) o(3), of table xs k n rest] block sink(1) by (auto simp: o(4,7,8))
  let ?c1 = "(field_read ?o 0 fr refs hl h ((r_sinks ?o)(sid \<mapsto> k)))\<lparr>r_handler := hnd\<rparr>"
  have r1: "reading sid ?s ?c1" "idle_fields ?c1" using o(1,2) h(1) by (simp_all add: reading_def idle_fields_def field_read_def)
  have "\<exists>c'. state_header_complete env rest ?c1 = Next c' rest \<and> starts sid rq (contents (r_hpack ?c1)) (st_in_closed ?s) ?c1 c'"
    using sink(2) o(5,6) by (intro header_complete_starts [OF r1, of k]) (simp_all add: field_read_def)
  then obtain c' where c': "state_header_complete env rest ?c1 = Next c' rest" "starts sid rq (contents h) fin ?c1 c'" by auto
  have "starts sid rq table fin (c\<lparr>c_last_peer_sid := sid\<rparr>) c'"
    using starts_field_read [OF c'(2)] h(2,3) o(7,9-11) by (auto simp: starts_def)
  moreover have "read_loop env (length fs + n) (headers_frame sid fin fs @ rest) c =
      (if rest = [] then Some (Next c' []) else read_loop env n rest c')"
    unfolding rounds last_field c'(1) by (simp add: after_def)
  ultimately show ?thesis by blast
qed

text \<open>
  C1: a HEADERS frame becomes a request. Between two frames, a frame that opens a stream, with any
  representation of its fields -- indexed, or literal with or without indexing, names by index or as
  strings, strings Huffman coded or not -- makes the connection read exactly this frame, in as many
  rounds as it has fields, and start one request on that stream: the request that the fields the
  block means under the header table give, cookies joined into one field. The header table is then
  what the block means it to be, and the connection is again between two frames.
\<close>

theorem headers_frame_starts_request:
  assumes c: "at_frame c" "\<not> c_self_goaway c" "get_stream sid c = None" and env: "memory_ok env" "env_expired env = []"
    and sid: "odd (unat sid)" "unat sid < 2 ^ 31" "c_last_peer_sid c \<le> sid"
    and fs: "fs \<noteq> []" "length (block_octets fs) < 2 ^ 24"
    and block: "spec_block (max_size (r_hpack c)) (contents (r_hpack c)) fs = Some (table, xs)" "header_octets xs \<le> 1048576"
    and sink: "give_all (env_ssl env) xs (new_sink env) = Some k" "finish_request (env_ssl env) fin k = Some rq"
  shows "\<exists>c'. read_loop env (length fs + n) (headers_frame sid fin fs @ rest) c =
      (if rest = [] then Some (Next c' []) else read_loop env n rest c') \<and>
    starts sid rq table fin (c\<lparr>c_last_peer_sid := sid\<rparr>) c'"
  using assms by (rule headers_frame_read)

definition demo_env :: h2_env where
  "demo_env = \<lparr>env_palloc = (\<lambda>_. True), env_junk = replicate 4096 0, env_ssl = False, env_expired = [], env_idle = False, env_time = []\<rparr>"

definition demo_fields :: "wire_field list" where
  "demo_fields = [Indexed_Field 2, Literal_Field Indexing (Name_String (Wire_String False [120])) (Wire_String False [121])]"

lemma start_write_processing: "start_write c = c\<lparr>c_write_processing := c_write_processing c \<or> \<not> (c_closed c \<or> wb_size c = 0)\<rparr>"
  by (simp add: start_write_def)

lemma server_fields: "c_index (h2_server :: h2_recv) = streams_index_new" "c_last_peer_sid h2_server = 0" "\<not> c_self_goaway h2_server"
 "r_hpack h2_server = hpack_zero" "r_started h2_server = []" "r_stream h2_server = None" "r_padding h2_server = 0" "r_field_state h2_server = 0"
  "\<not> r_parse_name h2_server" "\<not> r_parse_value h2_server" "\<not> r_index h2_server"
  by (simp_all add: h2_server_def h2_conn.defs h2_init_def send_settings_def push_buffer_def start_write_processing send_window_update_def Let_def
   KGL_HTTP_V2_CONNECTION_RECV_WINDOW_def KGL_HTTP_V2_DEFAULT_WINDOW_def)
lemma demo_block: "spec_block 4096 [] demo_fields = Some ([([120], [121])], [(bytes '':method'', bytes ''GET''), ([120], [121])])"
  by code_simp
lemma demo_length: "length (block_octets demo_fields) = 6"
  by code_simp
lemma demo_sink: "give_all False [(bytes '':method'', bytes ''GET''), ([120], [121])] (new_sink demo_env) =
   Some ((new_sink demo_env)\<lparr>sk_request := (sk_request (new_sink demo_env))\<lparr>meth := 1, rq_headers := [(Named [120], [121])]\<rparr>\<rparr>)"
proof -
  have g: "get_method (bytes ''GET'') = 1" by (simp add: get_method_def http_methods_def name_eval)
  show ?thesis
  by (simp add: new_sink_def demo_env_def parse_header_def pseudo_header_def parse_method_def g field_header_def name_eval add_header_def MAX_HEADER_ATTR_VAL_SIZE_def
     g [unfolded bytes_def of_char_def, simplified])
qed
theorem headers_frame_starts_request_witness:
  "\<exists>c'. read_loop demo_env 2 (headers_frame 1 True demo_fields) (h2_server\<lparr>r_handler := H_Head\<rparr>) = Some (Next c' []) \<and>
    (\<exists>rq. r_started c' = [(1, rq)] \<and> meth rq = 1 \<and> rq_headers rq = [(Named [120], [121])]) \<and> contents (r_hpack c') = [([120], [121])]"
proof -
  let ?c = "h2_server\<lparr>r_handler := H_Head\<rparr>"
  have frame: "at_frame ?c" by (simp add: at_frame_def server_fields hp_inv_zero idle_fields_def index_ok_def streams_index_new_def)
  have none: "get_stream 1 ?c = None"
    by (simp add: get_stream_def server_fields find_node_def streams_index_new_def kgl_http_v2_index_def)
  have block: "spec_block (max_size (r_hpack ?c)) (contents (r_hpack ?c)) demo_fields =
      Some ([([120], [121])], [(bytes '':method'', bytes ''GET''), ([120], [121])])"
    by (simp add: server_fields contents_zero max_size_zero demo_block)
  have mem: "memory_ok demo_env" "env_expired demo_env = []" "env_ssl demo_env = False"
    by (simp_all add: memory_ok_def demo_env_def)
  have octets: "header_octets [(bytes '':method'', bytes ''GET''), ([120], [121])] \<le> 1048576"
    by (simp add: header_octets_def bytes_def)
  obtain rq where rq: "finish_request False True ((new_sink demo_env)\<lparr>sk_request := (sk_request (new_sink demo_env))\<lparr>meth := 1,
      rq_headers := [(Named [120], [121])]\<rparr>\<rparr>) = Some rq" "meth rq = 1" "rq_headers rq = [(Named [120], [121])]"
    by (simp add: finish_request_def new_sink_def)
  have "\<exists>c'. read_loop demo_env (length demo_fields + 0) (headers_frame 1 True demo_fields @ []) ?c =
      (if [] = ([] :: byte list) then Some (Next c' []) else read_loop demo_env 0 [] c') \<and>
      starts 1 rq [([120], [121])] True (?c\<lparr>c_last_peer_sid := 1\<rparr>) c'"
    using none mem octets demo_length rq(1) demo_sink
    by (intro headers_frame_starts_request [OF frame _ _ _ _ _ _ _ _ _ block]) (simp_all add: server_fields demo_fields_def)
  moreover have "length demo_fields + 0 = 2" by (simp add: demo_fields_def)
  ultimately obtain c' where "read_loop demo_env 2 (headers_frame 1 True demo_fields) ?c = Some (Next c' [])"
      "starts 1 rq [([120], [121])] True (?c\<lparr>c_last_peer_sid := 1\<rparr>) c'" by (auto simp del: read_loop.simps)
  with rq(2,3) show ?thesis by (intro exI [of _ c']) (simp add: starts_def server_fields del: read_loop.simps)
qed

end
