(* ===== verification/KHttp2Read.thy ===== *)
theory KHttp2Read
  imports KHttp2Recv
begin

unbundle bit_operations_syntax

text \<open>
  The loop of \<^verbatim>\<open>on_read_result\<close>: every round of the handlers makes progress, so that the octets of one
  read are worked off in a bounded number of rounds, whatever the peer sends.
\<close>

section \<open>Progress of the handlers\<close>

text \<open>
  What a handler leaves is not more than it got, and when it is as much, the next handler is the one
  for a frame or for a field, which take octets.
\<close>

definition moves :: "nat \<Rightarrow> h2_next \<Rightarrow> bool" where
  "moves n r \<longleftrightarrow> (case r of
     Next c pos \<Rightarrow> length pos < n \<or> length pos = n \<and> (r_handler c = H_Head \<or> r_handler c = H_Header_Block)
   | _ \<Rightarrow> True)"

definition takes :: "nat \<Rightarrow> h2_next \<Rightarrow> bool" where
  "takes n r \<longleftrightarrow> (case r of Next c pos \<Rightarrow> length pos < n | _ \<Rightarrow> True)"

lemma moves_simps [simp]:
  "moves n (Save c)" "moves n (Stop c)" "moves n Undef" "takes n (Save c)" "takes n (Stop c)" "takes n Undef"
  by (simp_all add: moves_def takes_def)

lemma moves_Next [simp]:
  "moves n (Next c pos) \<longleftrightarrow> length pos < n \<or> length pos = n \<and> (r_handler c = H_Head \<or> r_handler c = H_Header_Block)"
  "takes n (Next c pos) \<longleftrightarrow> length pos < n"
  by (simp_all add: moves_def takes_def)

lemma moves_mono: "moves n r \<Longrightarrow> n \<le> m \<Longrightarrow> moves m r"
  by (cases r) (auto simp: moves_def)

lemma takes_moves: "moves n r \<Longrightarrow> n < m \<Longrightarrow> takes m r"
  by (cases r) (auto simp: moves_def takes_def)

lemma moves_takes: "takes n r \<Longrightarrow> moves n r"
  by (cases r) (auto simp: moves_def takes_def)

lemma moves_close [simp]: "moves n (close_read c)" "takes n (close_read c)"
  by (auto simp: close_read_def Let_def split: option.splits)

lemma moves_save [simp]: "moves n (state_save pos h c)" "takes n (state_save pos h c)"
  by (simp_all add: state_save_def)

lemma moves_complete [simp]: "length pos \<le> n \<Longrightarrow> moves n (state_complete pos c)"
  by (auto simp: state_complete_def split: option.splits)

lemma moves_skip [simp]: "length pos \<le> n \<Longrightarrow> moves n (state_skip pos c)"
  by (simp add: state_skip_def)

lemma moves_skip_padded [simp]: "length pos \<le> n \<Longrightarrow> moves n (state_skip_padded pos c)"
  by (simp add: state_skip_padded_def)

lemma takes_continuation [simp]:
  assumes "length pos \<le> n"
  shows "takes n (handle_continuation pos h c)"
proof -
  define skip where "skip = (if r_padding c > 0 \<and> length pos > r_length c then min (r_padding c) (length pos - r_length c) else 0)"
  define p where "p = (if skip > 0 then take (r_length c) pos @ drop (r_length c + skip) pos else pos)"
  have "length p \<le> n" using assms by (auto simp: p_def min_def)
  then have "length (take (r_length c) p @ drop (r_length c + 9) p) < n" if "\<not> length p < r_length c + 9" using that by simp
  then show ?thesis
    unfolding handle_continuation_def skip_def [symmetric] Let_def p_def [symmetric] by simp
qed

lemma moves_continuation [simp]: "length pos \<le> n \<Longrightarrow> moves n (handle_continuation pos h c)"
  by (simp add: moves_takes)

lemma moves_header_complete [simp]: "length pos \<le> n \<Longrightarrow> moves n (state_header_complete env pos c)"
  by (auto simp: state_header_complete_def Let_def split: option.splits)

lemma moves_give_field [simp]: "length pos \<le> n \<Longrightarrow> moves n (give_field env pos c)"
  by (auto simp: give_field_def split: option.splits)

lemma moves_process_field [simp]: "length pos \<le> n \<Longrightarrow> moves n (process_field env pos c)"
  by (auto simp: process_field_def Let_def split: option.splits prod.splits)

lemma moves_field_step:
  assumes "\<And>pos c. length pos \<le> n \<Longrightarrow> moves n (process pos c)" "length pos \<le> n"
  shows "moves n (field_step process again writes take_octets pos c)"
  using assms by (auto simp: field_step_def Let_def split: option.splits)

lemma parse_int_shorter:
  assumes "parse_int len pos prefix = Int_Value val rest len'" "pos \<noteq> []" "prefix \<in> {127, 63, 31, 15}"
  shows "length rest < length pos"
proof -
  obtain m where "prefix = 2 ^ m - 1" using assms(3)
    by (auto intro: that [of 7] that [of 6] that [of 5] that [of 4])
  with parse_int_value_bound [of len pos m val rest len'] assms(1,2) show ?thesis by auto
qed

lemma takes_field_len:
  assumes "\<And>n pos c. length pos \<le> n \<Longrightarrow> moves n (process pos c)" "length pos \<le> n"
  shows "takes n (state_field_len process pos c)"
proof -
  have step: "takes n (field_step process again writes take_octets rest c)" if "length rest < length pos" for again writes take_octets rest c
    by (rule takes_moves [of "length rest"]) (use that assms in \<open>auto intro: moves_field_step\<close>)
  show ?thesis
    using assms(2) parse_int_shorter [of "r_length c" pos 127] step
    by (auto simp: state_field_len_def state_field_skip_def state_field_raw_def state_field_huff_def Let_def split: int_result.splits)
qed

lemma moves_process_header [simp]:
  assumes "length pos \<le> n"
  shows "moves n (state_process_header env pos c)"
proof -
  have "takes n (state_field_len (process_field env) pos c)" for c by (rule takes_field_len) (simp_all add: assms)
  with assms show ?thesis by (simp add: state_process_header_def Let_def moves_takes)
qed

lemma takes_header_block [simp]:
  assumes "length pos \<le> n"
  shows "takes n (state_header_block env pos c)"
proof (cases "pos = []")
  case False
  have step: "takes n (state_process_header env rest c)" "takes n (state_header_complete env rest c)"
    "takes n (state_field_len (state_process_header env) rest c)" if "length rest < length pos" for rest c
    using that assms by (auto intro: takes_moves [of "length rest"] takes_field_len)
  define prefix :: nat where "prefix = (if hd pos \<ge> 128 then 127 else if hd pos \<ge> 64 then 63 else if hd pos \<ge> 32 then 31 else 15)"
  define c1 where "c1 = (if hd pos < 128 \<and> hd pos \<ge> 64 then c\<lparr>r_index := True\<rparr> else c)"
  have "prefix \<in> {127, 63, 31, 15}" by (simp add: prefix_def)
  note short = parse_int_shorter [OF _ False this]
  note unfolded = state_header_block_def [of env pos c, unfolded Let_def, folded prefix_def c1_def]
  show ?thesis
  proof (cases "parse_int (r_length c1) pos prefix")
    case (Int_Value val rest len')
    note step [OF short [OF this]]
    with assms False show ?thesis unfolding unfolded by (auto simp: Int_Value split: option.splits prod.splits bool.splits)
  qed (use assms False in \<open>simp_all add: unfolded\<close>)
qed (simp add: state_header_block_def)

lemma moves_header_block [simp]: "length pos \<le> n \<Longrightarrow> moves n (state_header_block env pos c)"
  by (simp add: moves_takes)

lemma moves_headers_stream [simp]: "length pos \<le> n \<Longrightarrow> moves n (headers_stream env pos c)"
  by (auto simp: headers_stream_def Let_def split: option.splits)

lemma moves_headers [simp]: "length pos \<le> n \<Longrightarrow> moves n (state_headers env pos c)"
  by (auto simp: state_headers_def Let_def)

lemma moves_read_data [simp]: "length pos \<le> n \<Longrightarrow> moves n (state_read_data pos c)"
  by (auto simp: state_read_data_def Let_def split: option.splits prod.splits)

lemma moves_data_windows [simp]: "length pos \<le> n \<Longrightarrow> moves n (data_windows pos c)"
  by (auto simp: data_windows_def Let_def split: option.splits prod.splits)

lemma moves_data [simp]: "length pos \<le> n \<Longrightarrow> moves n (state_data pos c)"
  by (auto simp: state_data_def Let_def)

lemma moves_settings_params [simp]: "length pos \<le> n \<Longrightarrow> moves n (state_settings_params k pos c)"
  by (induction k arbitrary: pos c) (auto simp: Let_def split: option.splits)

lemma moves_small_frames [simp]:
  assumes "length pos \<le> n"
  shows "moves n (state_priority pos c)" "moves n (state_rst_stream pos c)" "moves n (state_settings pos c)" "moves n (state_ping pos c)"
    "moves n (state_goaway pos c)" "moves n (state_window_update pos c)" "moves n (state_altsvc pos c)"
  using assms
  by (auto simp: state_priority_def state_rst_stream_def state_settings_def state_ping_def state_goaway_def state_window_update_def
      state_altsvc_def Let_def split: option.splits)

lemma moves_frame_state: "length pos \<le> n \<Longrightarrow> moves n (frame_state env type pos c)"
  by (simp add: frame_state_def)

lemma takes_head [simp]: "length pos \<le> n \<Longrightarrow> takes n (state_head env pos c)"
  by (auto simp: state_head_def parse_head_def Let_def intro!: takes_moves [of "length pos - 9"] moves_frame_state)

lemma takes_preface_end: "length pos \<le> n \<Longrightarrow> takes n (state_preface_end env pos c)"
  by (simp add: state_preface_end_def Let_def)

lemma takes_preface: "length pos \<le> n \<Longrightarrow> takes n (state_preface env pos c)"
  by (simp add: state_preface_def Let_def takes_preface_end)

lemma handler_moves: "moves (length pos) (run_handler env h pos c)"
proof -
  have "moves (length pos) (state_field_len (state_process_header env) pos c)" by (rule moves_takes, rule takes_field_len) simp_all
  moreover have "moves (length pos) (field_step (state_process_header env) again writes take_octets pos c)" for again writes take_octets
    by (rule moves_field_step) simp_all
  ultimately show ?thesis
    by (cases h) (simp_all add: moves_takes takes_preface takes_preface_end state_field_huff_def state_field_raw_def state_field_skip_def)
qed

lemma handler_takes:
  "h = H_Head \<or> h = H_Header_Block \<Longrightarrow> takes (length pos) (run_handler env h pos c)"
  by auto

section \<open>The loop\<close>

definition loop_measure :: "byte list \<Rightarrow> handler \<Rightarrow> nat" where
  "loop_measure pos h = 3 * length pos + (if h = H_Head then 0 else if h = H_Header_Block then 1 else 2)"

lemma round_smaller:
  assumes "run_handler env (r_handler c) pos c = Next c' pos'"
  shows "loop_measure pos' (r_handler c') < loop_measure pos (r_handler c)"
  using handler_moves [of pos env "r_handler c" c] handler_takes [of "r_handler c" pos env c] assms
  by (cases "r_handler c = H_Head \<or> r_handler c = H_Header_Block") (auto simp: loop_measure_def)

lemma read_loop_returns:
  "loop_measure pos (r_handler c) < n \<Longrightarrow> \<exists>r. read_loop env n pos c = Some r \<and> (\<forall>m \<ge> n. read_loop env m pos c = Some r)"
proof (induction n arbitrary: pos c)
  case (Suc n)
  show ?case
  proof (cases "run_handler env (r_handler c) pos c")
    case (Next c' pos')
    have "loop_measure pos' (r_handler c') < n" using round_smaller [OF Next] Suc.prems by simp
    from Suc.IH [OF this] obtain r where "read_loop env n pos' c' = Some r" "\<forall>m \<ge> n. read_loop env m pos' c' = Some r" by blast
    moreover have "\<exists>m'. m = Suc m' \<and> m' \<ge> n" if "m \<ge> Suc n" for m using that by (cases m) auto
    ultimately show ?thesis using Next by (cases "pos' = []") fastforce+
  qed (auto simp: Suc_le_eq dest: gr0_implies_Suc less_imp_Suc_add)
qed simp

section \<open>A connection that ends within a block\<close>

lemma close_streams_keeps:
  assumes "index_ok (c_index c)" "get_stream sid c = Some s" "\<not> st_parsed_header s"
  shows "\<exists>s'. get_stream sid (close_streams sids c) = Some s' \<and> \<not> st_parsed_header s'"
  using assms
proof (induction sids arbitrary: c s)
  case (Cons j sids)
  show ?case
  proof (cases "get_stream j c")
    case (Some t)
    let ?c = "wake_write j (take_write_wait t) (- 1) (wake_read j (st_read_wait t) (- 1) (put_stream j (shut_stream t) c))"
    have idx: "c_index ?c = put_node j (Some (shut_stream t)) (c_index c)"
      by (auto simp: wake_write_def wake_read_def woken_def put_stream_def split: option.splits)
    then have "get_stream sid ?c = (if sid = j then Some (shut_stream t) else get_stream sid c)"
      using Cons.prems(1) Some by (auto simp: get_stream_def nodes.look_put split: option.splits)
    moreover have "st_parsed_header (shut_stream t) = st_parsed_header t" by (simp add: shut_stream_def)
    moreover have "index_ok (c_index ?c)" using Cons.prems(1) by (simp add: idx nodes.ok_put)
    ultimately show ?thesis using Cons.IH [of ?c] Cons.prems Some by (cases "sid = j") auto
  qed (use Cons in simp)
qed auto

lemma close_streams_fields [simp]:
  "c_processing (close_streams sids c) = c_processing c" "c_write_processing (close_streams sids c) = c_write_processing c"
  "r_stream (close_streams sids (d :: h2_recv)) = r_stream d"
  by (induction sids arbitrary: c d)
    (auto simp: wake_write_def wake_read_def woken_def put_stream_def split: option.splits)

text \<open>
  When the peer closes the connection within the header block of a new stream, the connection is
  deleted with its state, and the node of that stream is destroyed a second time through a null pointer.
\<close>

lemma close_within_headers_undefined:
  assumes "index_ok (c_index c)" "r_stream c = Some sid" "get_stream sid c = Some s" "\<not> st_parsed_header s"
    and "c_processing c = 0" "\<not> c_write_processing c"
  shows "on_read_result env n [] c = Some Undef"
proof -
  obtain s' where s': "get_stream sid (close_streams (stream_ids c) c) = Some s'" "\<not> st_parsed_header s'"
    using close_streams_keeps [OF assms(1,3,4)] by blast
  have "close_read c = Undef"
    using assms(2,5,6) s'
    by (simp add: close_read_def h2_close_def Let_def destroy_if_done_def can_destroy_def ReleaseStateStream_def get_stream_def)
  then show ?thesis by (simp add: on_read_result_def)
qed

section \<open>Property\<close>

text \<open>
  C8: a read is worked off. Whatever state the connection is in and whatever octets arrive, three
  rounds for every octet at hand and three more are enough: the call returns, and more rounds do
  not change the result.
\<close>

theorem on_read_result_returns:
  assumes "3 * (length (r_buffer c) + length got) + 3 \<le> n"
  shows "\<exists>r. on_read_result env n got c = Some r \<and> (\<forall>m \<ge> n. on_read_result env m got c = Some r)"
proof (cases "got = []")
  case False
  let ?c = "c\<lparr>r_pinged := False, r_buffer := []\<rparr>"
  have "loop_measure (r_buffer c @ got) (r_handler ?c) < n" using assms by (simp add: loop_measure_def)
  from read_loop_returns [OF this, of env] obtain r where
    "read_loop env n (r_buffer c @ got) ?c = Some r" "\<forall>m \<ge> n. read_loop env m (r_buffer c @ got) ?c = Some r" by blast
  with False show ?thesis by (cases r) (simp_all add: on_read_result_def Let_def)
qed (simp add: on_read_result_def)

theorem on_read_result_returns_witness:
  "\<exists>r. on_read_result \<lparr>env_palloc = (\<lambda>_. True), env_junk = [], env_ssl = False, env_expired = [], env_idle = False, env_time = []\<rparr> 6 [80]
     (h2_server\<lparr>r_buffer := []\<rparr>) = Some r"
  using on_read_result_returns [of "h2_server\<lparr>r_buffer := []\<rparr>" "[80]" 6] by auto

end
