(* ===== verification/KDechunk.thy ===== *)
theory KDechunk
  imports KPrelude
begin

unbundle bit_operations_syntax

text \<open>
  The decoder of the chunked transfer coding: \<^verbatim>\<open>KDechunkEngine::dechunk\<close> of
  \<^verbatim>\<open>src/KDechunkEngine.cpp\<close>, whose whole state is one 32-bit word with flag bits, and
  \<^verbatim>\<open>KDechunkContext::read\<close> of \<^verbatim>\<open>src/KDechunkContext.cpp\<close>, which feeds it from the network. The
  engine is proved equal to an automaton that reads one octet at a time, so that the way the
  network cuts the stream does not matter, and to decode what a chunked encoder produces.
\<close>

section \<open>The engine\<close>

definition KHTTPD_MAX_CHUNK_SIZE :: u32 where "KHTTPD_MAX_CHUNK_SIZE = 0x1FFFFFFF"
definition KHTTPD_CHUNK_STATUS_PREFIX :: u32 where "KHTTPD_CHUNK_STATUS_PREFIX = 0xE0000000"
definition KHTTPD_CHUNK_PART_SIZE_END :: u32 where "KHTTPD_CHUNK_PART_SIZE_END = 0xA0000000"
definition KHTTPD_CHUNK_STATUS :: u32 where "KHTTPD_CHUNK_STATUS = 0xC0000000"
definition KHTTPD_CHUNK_PART_SIZE :: u32 where "KHTTPD_CHUNK_PART_SIZE = 0x80000000"

definition KHTTPD_CHUNK_STATUS_READ_SIZE :: u32 where "KHTTPD_CHUNK_STATUS_READ_SIZE = 0"
definition KHTTPD_CHUNK_STATUS_READ_END :: u32 where "KHTTPD_CHUNK_STATUS_READ_END = KHTTPD_CHUNK_STATUS OR 1"
definition KHTTPD_CHUNK_STATUS_READ_LAST :: u32 where "KHTTPD_CHUNK_STATUS_READ_LAST = KHTTPD_CHUNK_STATUS OR 2"
definition KHTTPD_CHUNK_STATUS_IS_END :: u32 where "KHTTPD_CHUNK_STATUS_IS_END = KHTTPD_CHUNK_STATUS OR 4"
definition KHTTPD_CHUNK_STATUS_IS_FAILED :: u32 where "KHTTPD_CHUNK_STATUS_IS_FAILED = KHTTPD_CHUNK_STATUS OR 8"

lemmas chunk_flags =
  KHTTPD_MAX_CHUNK_SIZE_def KHTTPD_CHUNK_STATUS_PREFIX_def KHTTPD_CHUNK_PART_SIZE_END_def
  KHTTPD_CHUNK_STATUS_def KHTTPD_CHUNK_PART_SIZE_def

lemmas chunk_states =
  KHTTPD_CHUNK_STATUS_READ_SIZE_def KHTTPD_CHUNK_STATUS_READ_END_def KHTTPD_CHUNK_STATUS_READ_LAST_def
  KHTTPD_CHUNK_STATUS_IS_END_def KHTTPD_CHUNK_STATUS_IS_FAILED_def

text \<open>The results of the engine, and one more for an assertion that fails and stops the process.\<close>

datatype KDechunkResult = Success | Continue | Trailer | End | Failed | Aborted

text \<open>\<^verbatim>\<open>isspace\<close> in the C locale.\<close>

definition isspace :: "byte \<Rightarrow> bool" where
  "isspace c \<longleftrightarrow> c = 32 \<or> 9 \<le> c \<and> c \<le> 13"

text \<open>\<^verbatim>\<open>memchr\<close> for a newline: the octets before it and after it.\<close>

fun next_line :: "byte list \<Rightarrow> (byte list \<times> byte list) option" where
  "next_line [] = None"
| "next_line (c # cs) = (if c = 10 then Some ([], cs)
     else case next_line cs of None \<Rightarrow> None | Some (l, r) \<Rightarrow> Some (c # l, r))"

text \<open>
  The trimming of a trailer line, given the octets before its newline: \<^verbatim>\<open>trailer_end\<close> comes
  down from the newline while it is right of \<^verbatim>\<open>*buf\<close> and at white space. The result is
  \<open>None\<close> when both meet.
\<close>

definition trim_right :: "byte list \<Rightarrow> byte list" where
  "trim_right l = (case l of [] \<Rightarrow> [] | c # cs \<Rightarrow> c # rev (dropWhile isspace (rev cs)))"

definition trailer_line :: "byte list \<Rightarrow> byte list option" where
  "trailer_line l = (let t = trim_right (dropWhile isspace l @ [10]) in
     if length t \<le> 1 then None else Some t)"

text \<open>The state \<^verbatim>\<open>READ_LAST\<close>. The third component of a result is \<^verbatim>\<open>*buf\<close>, the last the piece.\<close>

definition read_last :: "byte list \<Rightarrow> KDechunkResult \<times> u32 \<times> byte list \<times> byte list" where
  "read_last buf = (case next_line buf of
     None \<Rightarrow> (Continue, KHTTPD_CHUNK_STATUS_READ_LAST, buf, [])
   | Some (l, rest) \<Rightarrow> (case trailer_line l of
       None \<Rightarrow> (End, KHTTPD_CHUNK_STATUS_IS_END, rest, [])
     | Some t \<Rightarrow> (Trailer, KHTTPD_CHUNK_STATUS_READ_LAST, rest, t)))"

text \<open>
  Handing out data of a chunk of which \<open>cs\<close> octets are missing, at most \<open>piece_length\<close>, behind the assertions on
  the length of the piece and on the state.
\<close>

definition read_data :: "u32 \<Rightarrow> byte list \<Rightarrow> nat \<Rightarrow> KDechunkResult \<times> u32 \<times> byte list \<times> byte list" where
  "read_data cs buf piece_length = (
     let len = min (unat cs) (length buf) in
     if piece_length > unat KHTTPD_MAX_CHUNK_SIZE \<or> cs AND KHTTPD_CHUNK_STATUS_PREFIX \<noteq> 0 \<or> cs = 0 then (Aborted, cs, buf, [])
     else if len = 0 then (Continue, cs, buf, [])
     else let len = min piece_length len; cs' = cs - of_nat len
       in (Success, if cs' = 0 then KHTTPD_CHUNK_STATUS_READ_END else cs', drop len buf, take len buf))"

definition add_digit :: "u32 \<Rightarrow> u32 \<Rightarrow> u32" where
  "add_digit cs d = (cs AND NOT KHTTPD_CHUNK_STATUS_PREFIX) * 16 + d"

fun read_size :: "u32 \<Rightarrow> byte list \<Rightarrow> nat \<Rightarrow> KDechunkResult \<times> u32 \<times> byte list \<times> byte list" where
  "read_size cs [] piece_length = (Continue, cs, [], [])"
| "read_size cs (ch # buf) piece_length = (
     if ch = 10 then
       let cs = cs AND NOT KHTTPD_CHUNK_STATUS_PREFIX in
       if cs = 0 then read_last buf else read_data cs buf piece_length
     else if cs AND KHTTPD_CHUNK_PART_SIZE_END = KHTTPD_CHUNK_PART_SIZE_END then read_size cs buf piece_length
     else if 48 \<le> ch \<and> ch \<le> 57 then
       let n = add_digit cs (ucast (ch - 48)) in
       if n > KHTTPD_MAX_CHUNK_SIZE then (Failed, KHTTPD_CHUNK_STATUS_IS_FAILED, ch # buf, [])
       else read_size (n OR KHTTPD_CHUNK_PART_SIZE) buf piece_length
     else if 97 \<le> ch OR 0x20 \<and> ch OR 0x20 \<le> 102 then
       let n = add_digit cs (ucast ((ch OR 0x20) - 97 + 10)) in
       if n > KHTTPD_MAX_CHUNK_SIZE then (Failed, KHTTPD_CHUNK_STATUS_IS_FAILED, ch # buf, [])
       else read_size (n OR KHTTPD_CHUNK_PART_SIZE) buf piece_length
     else read_size (cs OR KHTTPD_CHUNK_PART_SIZE_END) buf piece_length)"

definition dechunk :: "u32 \<Rightarrow> byte list \<Rightarrow> nat \<Rightarrow> KDechunkResult \<times> u32 \<times> byte list \<times> byte list" where
  "dechunk cs buf piece_length = (
     if cs = KHTTPD_CHUNK_STATUS_IS_FAILED then (Aborted, cs, buf, [])
     else if cs = KHTTPD_CHUNK_STATUS_IS_END then (Aborted, cs, buf, [])
     else if cs = KHTTPD_CHUNK_STATUS_READ_LAST then read_last buf
     else if cs = KHTTPD_CHUNK_STATUS_READ_END then
       (case next_line buf of
          None \<Rightarrow> (Continue, cs, [], [])
        | Some (_, rest) \<Rightarrow> read_size KHTTPD_CHUNK_STATUS_READ_SIZE rest piece_length)
     else if cs AND KHTTPD_CHUNK_STATUS = KHTTPD_CHUNK_STATUS then (Aborted, cs, buf, [])
     else if cs = KHTTPD_CHUNK_STATUS_READ_SIZE \<or> cs AND KHTTPD_CHUNK_PART_SIZE = KHTTPD_CHUNK_PART_SIZE
       then read_size cs buf piece_length
     else read_data cs buf piece_length)"

section \<open>Reading from the network\<close>

text \<open>
  \<^verbatim>\<open>KDechunkContext\<close>: the octets from \<^verbatim>\<open>hot\<close> to the end of its buffer and the trailer fields.
  The network is the list of what the successive reads return; an empty one is an error. \<open>Read_Aborted\<close> is
  an assertion that fails, of the engine or of the reader, which wants a piece not to be empty.
\<close>

record dechunk_context =
  dc_chunk :: u32
  dc_buf :: "byte list"
  dc_trailer :: "(byte list \<times> byte list) list"

datatype read_result = Piece "byte list" | Read_End | Read_Error | Read_Aborted

fun read_from_net :: "dechunk_context \<Rightarrow> byte list list \<Rightarrow> (dechunk_context \<times> byte list list) option" where
  "read_from_net c [] = None"
| "read_from_net c (got # net) = (if got = [] then None else Some (c\<lparr>dc_buf := dc_buf c @ got\<rparr>, net))"

definition add_trailer :: "byte list \<Rightarrow> dechunk_context \<Rightarrow> dechunk_context" where
  "add_trailer piece c = (
     if 58 \<notin> set piece then c
     else let attr = takeWhile (\<lambda>b. b \<noteq> 58) piece;
              val = dropWhile (\<lambda>b. b = 32) (drop (length attr + 1) piece)
       in c\<lparr>dc_trailer := dc_trailer c @ [(attr, val)]\<rparr>)"

lemma read_from_net_shorter: "read_from_net c net = Some (c', net') \<Longrightarrow> length net' < length net"
  by (cases net) (auto split: if_splits)

lemma next_line_shorter: "next_line buf = Some (l, rest) \<Longrightarrow> length rest < length buf"
  by (induction buf arbitrary: l) (auto split: if_splits option.splits)

lemma read_last_shorter: "read_last buf = (Trailer, cs, buf', p) \<Longrightarrow> length buf' < length buf"
  by (auto simp: read_last_def dest: next_line_shorter split: option.splits)

lemma read_size_shorter: "read_size cs buf n = (Trailer, cs', buf', p) \<Longrightarrow> length buf' < length buf"
  by (induction cs buf n rule: read_size.induct)
    (auto simp: Let_def read_data_def dest: read_last_shorter split: if_splits)

lemma dechunk_trailer_shorter: "dechunk cs buf n = (Trailer, cs', buf', p) \<Longrightarrow> length buf' < length buf"
  by (auto simp: dechunk_def read_data_def Let_def dest: read_last_shorter read_size_shorter next_line_shorter
      split: if_splits option.splits) (meson less_trans next_line_shorter read_size_shorter)

text \<open>\<^verbatim>\<open>KDechunkContext::read\<close> from the label \<^verbatim>\<open>continue_dechunk\<close> on, with room for \<open>n\<close> octets.\<close>

function ctx_loop :: "nat \<Rightarrow> dechunk_context \<Rightarrow> byte list list \<Rightarrow> read_result \<times> dechunk_context \<times> byte list list" where
  "ctx_loop n c net = (case dechunk (dc_chunk c) (dc_buf c) n of (r, cs, buf, piece) \<Rightarrow>
     let c' = c\<lparr>dc_chunk := cs, dc_buf := buf\<rparr> in
     case r of
       Trailer \<Rightarrow> ctx_loop n (add_trailer piece c') net
     | End \<Rightarrow> (Read_End, c', net)
     | Success \<Rightarrow> (if piece = [] then Read_Aborted else Piece piece, c', net)
     | Continue \<Rightarrow> (case read_from_net c' net of
         None \<Rightarrow> (Read_Error, c', tl net)
       | Some (c'', net') \<Rightarrow> ctx_loop n c'' net')
     | Failed \<Rightarrow> (Read_Error, c', net)
     | Aborted \<Rightarrow> (Read_Aborted, c', net))"
  by pat_completeness auto
termination
  by (relation "measures [\<lambda>(n, c, net). length net, \<lambda>(n, c, net). length (dc_buf c)]")
    (auto simp: add_trailer_def Let_def dest: dechunk_trailer_shorter [OF sym] read_from_net_shorter)

declare ctx_loop.simps [simp del]

definition ctx_read :: "nat \<Rightarrow> dechunk_context \<Rightarrow> byte list list \<Rightarrow> read_result \<times> dechunk_context \<times> byte list list" where
  "ctx_read n c net = (
     if dc_buf c = [] then (case read_from_net c net of
         None \<Rightarrow> (Read_Error, c, tl net) | Some (c', net') \<Rightarrow> ctx_loop n c' net')
     else ctx_loop n c net)"

section \<open>The reference automaton\<close>

text \<open>
  One octet at a time. The second component of a state is what the caller has to keep: the
  start of a trailer line, or the input behind the end of the message or behind an error.
\<close>

datatype atom = Byte byte | Trailer_Line "byte list"

definition size_tick :: "u32 \<Rightarrow> byte \<Rightarrow> u32 \<times> byte list" where
  "size_tick cs ch = (
     if ch = 10 then
       let cs = cs AND NOT KHTTPD_CHUNK_STATUS_PREFIX in
       (if cs = 0 then KHTTPD_CHUNK_STATUS_READ_LAST else cs, [])
     else if cs AND KHTTPD_CHUNK_PART_SIZE_END = KHTTPD_CHUNK_PART_SIZE_END then (cs, [])
     else let digit = (if 48 \<le> ch \<and> ch \<le> 57 then Some (ch - 48)
                       else if 97 \<le> ch OR 0x20 \<and> ch OR 0x20 \<le> 102 then Some ((ch OR 0x20) - 97 + 10)
                       else None)
       in case digit of
            None \<Rightarrow> (cs OR KHTTPD_CHUNK_PART_SIZE_END, [])
          | Some d \<Rightarrow> (let n = add_digit cs (ucast d) in
              if n > KHTTPD_MAX_CHUNK_SIZE then (KHTTPD_CHUNK_STATUS_IS_FAILED, [ch])
              else (n OR KHTTPD_CHUNK_PART_SIZE, [])))"

definition size_state :: "u32 \<Rightarrow> bool" where
  "size_state cs \<longleftrightarrow> cs = 0 \<or> bit cs 31 \<and> \<not> bit cs 30"

definition data_state :: "u32 \<Rightarrow> bool" where
  "data_state cs \<longleftrightarrow> 0 < cs \<and> cs \<le> KHTTPD_MAX_CHUNK_SIZE"

fun tick :: "u32 \<times> byte list \<Rightarrow> byte \<Rightarrow> (u32 \<times> byte list) \<times> atom list" where
  "tick (cs, line) ch = (
     if cs = KHTTPD_CHUNK_STATUS_IS_FAILED \<or> cs = KHTTPD_CHUNK_STATUS_IS_END then ((cs, line @ [ch]), [])
     else if cs = KHTTPD_CHUNK_STATUS_READ_LAST then
       (if ch \<noteq> 10 then ((cs, line @ [ch]), [])
        else case trailer_line line of
          None \<Rightarrow> ((KHTTPD_CHUNK_STATUS_IS_END, []), [])
        | Some t \<Rightarrow> ((cs, []), [Trailer_Line t]))
     else if cs = KHTTPD_CHUNK_STATUS_READ_END then
       ((if ch = 10 then KHTTPD_CHUNK_STATUS_READ_SIZE else cs, []), [])
     else if size_state cs then (size_tick cs ch, [])
     else ((if cs - 1 = 0 then KHTTPD_CHUNK_STATUS_READ_END else cs - 1, []), [Byte ch]))"

declare tick.simps [simp del]

fun ticks :: "u32 \<times> byte list \<Rightarrow> byte list \<Rightarrow> (u32 \<times> byte list) \<times> atom list" where
  "ticks st [] = (st, [])"
| "ticks st (ch # buf) = (let (st1, a) = tick st ch; (st2, b) = ticks st1 buf in (st2, a @ b))"

lemma ticks_append:
  "ticks st (a @ b) = (let (st1, x) = ticks st a; (st2, y) = ticks st1 b in (st2, x @ y))"
  by (induction a arbitrary: st) (auto simp: Let_def split: prod.splits)

section \<open>Engine and automaton\<close>

subsection \<open>The flag bits\<close>

lemma max_chunk_bits:
  assumes "n \<le> KHTTPD_MAX_CHUNK_SIZE" "bit n k" shows "k < 29"
proof -
  have "unat n < 2 ^ 29" using assms(1) by (simp add: chunk_flags word_le_nat_alt)
  then have "take_bit 29 n = n" by (rule take_bit_word_self)
  with assms(2) show ?thesis by (metis bit_take_bit_iff)
qed

lemma strip_prefix: "cs AND NOT KHTTPD_CHUNK_STATUS_PREFIX \<le> KHTTPD_MAX_CHUNK_SIZE"
proof -
  have "cs AND NOT KHTTPD_CHUNK_STATUS_PREFIX = take_bit 29 cs"
  proof -
    have "NOT (0xE0000000 :: u32) = 0x1FFFFFFF" by (simp add: word_uint_eq_iff)
    then show ?thesis
      by (simp only: KHTTPD_CHUNK_STATUS_PREFIX_def) (simp add: take_bit_eq_mask mask_eq_exp_minus_1)
  qed
  moreover have "unat (take_bit 29 cs) < 2 ^ 29" unfolding unsigned_take_bit_eq by (rule take_bit_nat_less_exp)
  ultimately show ?thesis by (simp add: chunk_flags word_le_nat_alt)
qed

lemma state_bit30:
  "bit KHTTPD_CHUNK_STATUS_READ_END 30" "bit KHTTPD_CHUNK_STATUS_READ_LAST 30"
  "bit KHTTPD_CHUNK_STATUS_IS_END 30" "bit KHTTPD_CHUNK_STATUS_IS_FAILED 30"
  by (simp_all add: chunk_states chunk_flags)

lemma bit_part_size:
  "bit KHTTPD_CHUNK_PART_SIZE k \<longleftrightarrow> k = 31" "bit KHTTPD_CHUNK_PART_SIZE_END k \<longleftrightarrow> k = 31 \<or> k = 29"
proof -
  have p: "(0x80000000::u32) = push_bit 31 1" and e: "(0xA0000000::u32) = push_bit 31 1 OR push_bit 29 1"
    by simp_all
  show "bit KHTTPD_CHUNK_PART_SIZE k \<longleftrightarrow> k = 31"
    unfolding KHTTPD_CHUNK_PART_SIZE_def p by (simp only: bit_simps) auto
  show "bit KHTTPD_CHUNK_PART_SIZE_END k \<longleftrightarrow> k = 31 \<or> k = 29"
    unfolding KHTTPD_CHUNK_PART_SIZE_END_def e by (simp only: bit_simps) auto
qed

lemma size_state_not: "size_state cs \<Longrightarrow>
  cs \<noteq> KHTTPD_CHUNK_STATUS_READ_END \<and> cs \<noteq> KHTTPD_CHUNK_STATUS_READ_LAST \<and>
  cs \<noteq> KHTTPD_CHUNK_STATUS_IS_END \<and> cs \<noteq> KHTTPD_CHUNK_STATUS_IS_FAILED"
  unfolding size_state_def using state_bit30 by (metis bit_0_eq bot_apply bot_bool_def)

lemma data_state_not: "data_state cs \<Longrightarrow>
  cs \<noteq> KHTTPD_CHUNK_STATUS_READ_END \<and> cs \<noteq> KHTTPD_CHUNK_STATUS_READ_LAST \<and>
  cs \<noteq> KHTTPD_CHUNK_STATUS_IS_END \<and> cs \<noteq> KHTTPD_CHUNK_STATUS_IS_FAILED \<and> \<not> size_state cs"
  unfolding size_state_def data_state_def using state_bit30 max_chunk_bits [of cs 30] max_chunk_bits [of cs 31]
  by force

lemma states_distinct [simp]:
  "KHTTPD_CHUNK_STATUS_READ_END \<noteq> KHTTPD_CHUNK_STATUS_READ_LAST"
  "KHTTPD_CHUNK_STATUS_READ_END \<noteq> KHTTPD_CHUNK_STATUS_IS_END"
  "KHTTPD_CHUNK_STATUS_READ_END \<noteq> KHTTPD_CHUNK_STATUS_IS_FAILED"
  "KHTTPD_CHUNK_STATUS_READ_LAST \<noteq> KHTTPD_CHUNK_STATUS_READ_END"
  "KHTTPD_CHUNK_STATUS_READ_LAST \<noteq> KHTTPD_CHUNK_STATUS_IS_END"
  "KHTTPD_CHUNK_STATUS_READ_LAST \<noteq> KHTTPD_CHUNK_STATUS_IS_FAILED"
  "KHTTPD_CHUNK_STATUS_IS_END \<noteq> KHTTPD_CHUNK_STATUS_IS_FAILED"
  "KHTTPD_CHUNK_STATUS_IS_FAILED \<noteq> KHTTPD_CHUNK_STATUS_IS_END"
  by (simp_all add: chunk_states chunk_flags)

lemma size_state_part:
  assumes "n \<le> KHTTPD_MAX_CHUNK_SIZE" shows "size_state (n OR KHTTPD_CHUNK_PART_SIZE)"
  using max_chunk_bits [OF assms, of 30] by (auto simp: size_state_def bit_simps bit_part_size)

lemma size_state_end: "size_state cs \<Longrightarrow> size_state (cs OR KHTTPD_CHUNK_PART_SIZE_END)"
  by (auto simp: size_state_def bit_simps bit_part_size)

lemma size_state_test: "size_state cs \<Longrightarrow>
  cs = KHTTPD_CHUNK_STATUS_READ_SIZE \<or> cs AND KHTTPD_CHUNK_PART_SIZE = KHTTPD_CHUNK_PART_SIZE"
proof (unfold size_state_def, elim disjE conjE)
  assume "bit cs 31"
  then have "cs AND KHTTPD_CHUNK_PART_SIZE = KHTTPD_CHUNK_PART_SIZE"
    by (intro bit_word_eqI) (auto simp: bit_simps bit_part_size)
  then show ?thesis ..
qed (simp add: chunk_states)

lemma size_state_live: "size_state cs \<Longrightarrow> cs AND KHTTPD_CHUNK_STATUS \<noteq> KHTTPD_CHUNK_STATUS"
proof
  assume "size_state cs" "cs AND KHTTPD_CHUNK_STATUS = KHTTPD_CHUNK_STATUS"
  moreover have "bit KHTTPD_CHUNK_STATUS 30" by (simp add: chunk_flags)
  ultimately have "bit cs 30" by (metis bit_and_iff)
  with \<open>size_state cs\<close> show False by (auto simp: size_state_def)
qed

lemma data_state_live:
  assumes "data_state cs"
  shows "cs AND KHTTPD_CHUNK_STATUS \<noteq> KHTTPD_CHUNK_STATUS" "cs AND KHTTPD_CHUNK_STATUS_PREFIX = 0" "cs \<noteq> 0"
proof -
  note small = max_chunk_bits [of cs]
  show "cs AND KHTTPD_CHUNK_STATUS \<noteq> KHTTPD_CHUNK_STATUS"
  proof
    assume "cs AND KHTTPD_CHUNK_STATUS = KHTTPD_CHUNK_STATUS"
    moreover have "bit KHTTPD_CHUNK_STATUS 30" by (simp add: chunk_flags)
    ultimately have "bit cs 30" by (metis bit_and_iff)
    with assms small [of 30] show False by (auto simp: data_state_def)
  qed
  have pre: "bit KHTTPD_CHUNK_STATUS_PREFIX k \<longleftrightarrow> k = 29 \<or> k = 30 \<or> k = 31" for k
  proof -
    have e: "(0xE0000000::u32) = push_bit 31 1 OR push_bit 30 1 OR push_bit 29 1" by simp
    show ?thesis unfolding KHTTPD_CHUNK_STATUS_PREFIX_def e by (simp only: bit_simps) auto
  qed
  show "cs AND KHTTPD_CHUNK_STATUS_PREFIX = 0"
    by (rule bit_word_eqI) (use assms in \<open>auto simp: bit_simps pre data_state_def dest!: small\<close>)
  show "cs \<noteq> 0" using assms by (auto simp: data_state_def)
qed

lemma data_state_test:
  assumes "data_state cs"
  shows "cs \<noteq> KHTTPD_CHUNK_STATUS_READ_SIZE" "cs AND KHTTPD_CHUNK_PART_SIZE \<noteq> KHTTPD_CHUNK_PART_SIZE"
proof -
  show "cs \<noteq> KHTTPD_CHUNK_STATUS_READ_SIZE" using assms by (auto simp: data_state_def chunk_states)
  show "cs AND KHTTPD_CHUNK_PART_SIZE \<noteq> KHTTPD_CHUNK_PART_SIZE"
  proof
    assume "cs AND KHTTPD_CHUNK_PART_SIZE = KHTTPD_CHUNK_PART_SIZE"
    then have "bit cs 31" by (metis bit_and_iff bit_part_size(1))
    with assms max_chunk_bits [of cs 31] show False by (simp add: data_state_def)
  qed
qed

text \<open>
  The states between two calls. A decoder that came to the end of the message, or failed, must not be called
  again; the others are live.
\<close>

definition chunk_wf :: "u32 \<Rightarrow> bool" where
  "chunk_wf cs \<longleftrightarrow> size_state cs \<or> data_state cs \<or> cs = KHTTPD_CHUNK_STATUS_READ_END \<or>
     cs = KHTTPD_CHUNK_STATUS_READ_LAST \<or> cs = KHTTPD_CHUNK_STATUS_IS_END \<or> cs = KHTTPD_CHUNK_STATUS_IS_FAILED"

definition chunk_over :: "u32 \<Rightarrow> bool" where
  "chunk_over cs \<longleftrightarrow> cs = KHTTPD_CHUNK_STATUS_IS_END \<or> cs = KHTTPD_CHUNK_STATUS_IS_FAILED"

text \<open>The room for a piece that the engine accepts: some, and not more than a chunk can hold.\<close>

definition room_ok :: "nat \<Rightarrow> bool" where
  "room_ok n \<longleftrightarrow> 0 < n \<and> n \<le> 0x1FFFFFFF"

lemma room_ok_simps [simp]: "room_ok n \<Longrightarrow> 0 < n" "room_ok n \<Longrightarrow> \<not> n > unat KHTTPD_MAX_CHUNK_SIZE"
  by (simp_all add: room_ok_def chunk_flags)

text \<open>A result of the engine says what the automaton does on the octets consumed.\<close>

definition agrees :: "u32 \<Rightarrow> byte list \<Rightarrow> KDechunkResult \<times> u32 \<times> byte list \<times> byte list \<Rightarrow> bool" where
  "agrees cs buf res = (case res of (r, cs', buf', piece) \<Rightarrow> chunk_wf cs' \<and> (case r of
     Success \<Rightarrow> piece \<noteq> [] \<and> \<not> chunk_over cs' \<and> (\<exists>pre. pre \<noteq> [] \<and> buf = pre @ buf' \<and> ticks (cs, []) pre = ((cs', []), map Byte piece))
   | Trailer \<Rightarrow> \<not> chunk_over cs' \<and>
       (\<exists>pre. pre \<noteq> [] \<and> buf = pre @ buf' \<and> ticks (cs, []) pre = ((cs', []), [Trailer_Line piece]))
   | Continue \<Rightarrow> ticks (cs, []) buf = ((cs', buf'), []) \<and> ticks (cs', []) buf' = ((cs', buf'), []) \<and>
       \<not> chunk_over cs'
   | End \<Rightarrow> ticks (cs, []) buf = ((cs', buf'), []) \<and> cs' = KHTTPD_CHUNK_STATUS_IS_END
   | Failed \<Rightarrow> ticks (cs, []) buf = ((cs', buf'), []) \<and> cs' = KHTTPD_CHUNK_STATUS_IS_FAILED
   | Aborted \<Rightarrow> False))"

lemma agrees_append:
  assumes "ticks (cs, []) pre = ((cs1, []), [])" "agrees cs1 buf res"
  shows "agrees cs (pre @ buf) res"
proof -
  have run: "ticks (cs, []) (pre @ x) = (st, as)" if "ticks (cs1, []) x = (st, as)" for x st as
    using assms(1) that by (simp add: ticks_append)
  obtain r cs' buf' piece where res: "res = (r, cs', buf', piece)" by (metis prod_cases4)
  have "\<exists>p. p \<noteq> [] \<and> pre @ buf = p @ buf' \<and> ticks (cs, []) p = (st, as)"
    if "\<exists>p. p \<noteq> [] \<and> buf = p @ buf' \<and> ticks (cs1, []) p = (st, as)" for st as
    using that run by (metis append.assoc append_is_Nil_conv)
  with assms(2) run show ?thesis unfolding agrees_def res by (cases r) auto
qed

lemma agrees_Cons:
  "tick (cs, []) ch = ((cs1, []), []) \<Longrightarrow> agrees cs1 buf res \<Longrightarrow> agrees cs (ch # buf) res"
  using agrees_append [of cs "[ch]" cs1 buf res] by simp

subsection \<open>The parts of the engine\<close>

lemma next_line_None: "next_line buf = None \<longleftrightarrow> 10 \<notin> set buf"
  by (induction buf) (auto split: option.splits)

lemma next_line_Some: "next_line buf = Some (l, rest) \<Longrightarrow> buf = l @ 10 # rest \<and> 10 \<notin> set l"
  by (induction buf arbitrary: l) (auto split: if_splits option.splits)

lemma ticks_last_line:
  "10 \<notin> set buf \<Longrightarrow>
   ticks (KHTTPD_CHUNK_STATUS_READ_LAST, line) buf = ((KHTTPD_CHUNK_STATUS_READ_LAST, line @ buf), [])"
  by (induction buf arbitrary: line) (auto simp: tick.simps)

lemma ticks_skip_line:
  "10 \<notin> set buf \<Longrightarrow>
   ticks (KHTTPD_CHUNK_STATUS_READ_END, []) buf = ((KHTTPD_CHUNK_STATUS_READ_END, []), [])"
  by (induction buf) (auto simp: tick.simps)

lemma chunk_wf_states [simp]:
  "chunk_wf KHTTPD_CHUNK_STATUS_READ_END" "chunk_wf KHTTPD_CHUNK_STATUS_READ_LAST"
  "chunk_wf KHTTPD_CHUNK_STATUS_IS_END" "chunk_wf KHTTPD_CHUNK_STATUS_IS_FAILED"
  by (simp_all add: chunk_wf_def)

lemma live_states [simp]:
  "\<not> chunk_over KHTTPD_CHUNK_STATUS_READ_END" "\<not> chunk_over KHTTPD_CHUNK_STATUS_READ_LAST"
  "size_state cs \<Longrightarrow> \<not> chunk_over cs" "data_state cs \<Longrightarrow> \<not> chunk_over cs"
  using size_state_not [of cs] data_state_not [of cs] by (auto simp: chunk_over_def)

lemma read_last_agrees: "agrees KHTTPD_CHUNK_STATUS_READ_LAST buf (read_last buf)"
proof (cases "next_line buf")
  case None
  then have "10 \<notin> set buf" using next_line_None by blast
  with None show ?thesis using ticks_last_line [of buf "[]"] by (simp add: read_last_def agrees_def)
next
  case (Some lr)
  obtain l rest where lr: "lr = (l, rest)" by (cases lr)
  note buf = next_line_Some [OF Some [unfolded lr]]
  have line: "ticks (KHTTPD_CHUNK_STATUS_READ_LAST, []) (l @ [10]) =
      (case trailer_line l of
         None \<Rightarrow> ((KHTTPD_CHUNK_STATUS_IS_END, []), [])
       | Some t \<Rightarrow> ((KHTTPD_CHUNK_STATUS_READ_LAST, []), [Trailer_Line t]))"
    using buf by (simp add: ticks_append ticks_last_line tick.simps split: option.splits)
  have tail: "ticks (KHTTPD_CHUNK_STATUS_IS_END, line) x = ((KHTTPD_CHUNK_STATUS_IS_END, line @ x), [])" for line x
    by (induction x arbitrary: line) (auto simp: tick.simps)
  have b: "buf = (l @ [10]) @ rest" using buf by simp
  show ?thesis
  proof (cases "trailer_line l")
    case None
    have "ticks (KHTTPD_CHUNK_STATUS_READ_LAST, []) buf = ((KHTTPD_CHUNK_STATUS_IS_END, rest), [])"
      by (simp only: b ticks_append [of _ "l @ [10]" rest] line) (simp add: None tail)
    with None show ?thesis by (simp add: read_last_def agrees_def lr Some)
  next
    case t: (Some t)
    have "read_last buf = (Trailer, KHTTPD_CHUNK_STATUS_READ_LAST, rest, t)"
      by (simp add: read_last_def Some lr t)
    with line b t show ?thesis by (auto simp: agrees_def intro!: exI [of _ "l @ [10]"])
  qed
qed

lemma data_state_step:
  assumes "data_state cs" "k \<le> unat cs"
  shows "cs - of_nat k = 0 \<longleftrightarrow> k = unat cs" and "k < unat cs \<Longrightarrow> data_state (cs - of_nat k)"
    and "unat (cs - of_nat k) = unat cs - k"
proof -
  have "k < 2 ^ 32" using assms(2) unsigned_less [of cs, where ?'a = nat] by simp
  then have k: "unat (of_nat k :: u32) = k" by (simp add: unat_of_nat)
  then have "(of_nat k :: u32) \<le> cs" using assms(2) by (simp add: word_le_nat_alt)
  then show u: "unat (cs - of_nat k) = unat cs - k" using k by (simp add: unat_sub)
  show "cs - of_nat k = 0 \<longleftrightarrow> k = unat cs"
    using u assms(2) by (metis diff_diff_cancel diff_self_eq_0 unsigned_0 unat_eq_zero diff_zero)
  show "data_state (cs - of_nat k)" if "k < unat cs"
    using u that assms(1) unfolding data_state_def word_less_nat_alt word_le_nat_alt by simp
qed

lemma ticks_data:
  "data_state cs \<Longrightarrow> pre \<noteq> [] \<Longrightarrow> length pre \<le> unat cs \<Longrightarrow>
   ticks (cs, []) pre = ((if cs - of_nat (length pre) = 0 then KHTTPD_CHUNK_STATUS_READ_END
                          else cs - of_nat (length pre), []), map Byte pre)"
proof (induction pre arbitrary: cs)
  case (Cons c pre)
  have t: "tick (cs, []) c = ((if cs - 1 = 0 then KHTTPD_CHUNK_STATUS_READ_END else cs - 1, []), [Byte c])"
    using data_state_not [OF Cons.prems(1)] by (simp add: tick.simps)
  show ?case
  proof (cases "pre = []")
    case False
    have "1 < unat cs" using False Cons.prems(3) by (cases pre) auto
    then have "data_state (cs - 1)" "unat (cs - 1) = unat cs - 1" "cs - 1 \<noteq> 0"
      using data_state_step [OF Cons.prems(1), of 1] by auto
    with Cons.IH [of "cs - 1"] Cons.prems False t show ?thesis by (simp add: diff_diff_eq add.commute)
  qed (use t in simp)
qed simp

lemma read_data_agrees:
  assumes "data_state cs" "room_ok n"
  shows "agrees cs buf (read_data cs buf n)"
proof (cases "buf = []")
  case True
  with assms show ?thesis
    using data_state_not [OF assms(1)] data_state_live [OF assms(1)]
    by (simp add: read_data_def agrees_def chunk_wf_def)
next
  case False
  define k where "k = min n (min (unat cs) (length buf))"
  have cs: "0 < unat cs" using assms(1) by (simp add: data_state_def word_less_nat_alt)
  have k: "0 < k" "k \<le> unat cs" "k \<le> length buf" using assms(2) cs False by (auto simp: k_def)
  let ?cs = "cs - of_nat k"
  have p: "take k buf \<noteq> []" "length (take k buf) = k" using k False by auto
  then have t: "ticks (cs, []) (take k buf) =
      ((if ?cs = 0 then KHTTPD_CHUNK_STATUS_READ_END else ?cs, []), map Byte (take k buf))"
    using ticks_data [OF assms(1) p(1)] k(2) by simp
  have "\<exists>pre. pre \<noteq> [] \<and> buf = pre @ drop k buf \<and> ticks (cs, []) pre =
      ((if ?cs = 0 then KHTTPD_CHUNK_STATUS_READ_END else ?cs, []), map Byte (take k buf))"
    using p(1) t by (intro exI [of _ "take k buf"]) simp
  moreover have "chunk_wf (if ?cs = 0 then KHTTPD_CHUNK_STATUS_READ_END else ?cs)"
    "\<not> chunk_over (if ?cs = 0 then KHTTPD_CHUNK_STATUS_READ_END else ?cs)"
    using data_state_step [OF assms(1) k(2)] k(2) data_state_not [of ?cs] by (auto simp: chunk_wf_def)
  moreover have "read_data cs buf n =
      (Success, if ?cs = 0 then KHTTPD_CHUNK_STATUS_READ_END else ?cs, drop k buf, take k buf)"
    using cs False assms(2) data_state_live [OF assms(1)] by (simp add: read_data_def Let_def k_def)
  ultimately show ?thesis using p(1) by (simp only: agrees_def prod.case KDechunkResult.case) simp
qed

text \<open>Each branch of the size loop is a step of the automaton.\<close>

lemma size_tick_step: "size_state cs \<Longrightarrow> tick (cs, []) ch = (size_tick cs ch, [])"
  using size_state_not [of cs] by (simp add: tick.simps)

lemma ticks_failed:
  "ticks (KHTTPD_CHUNK_STATUS_IS_FAILED, line) x = ((KHTTPD_CHUNK_STATUS_IS_FAILED, line @ x), [])"
  by (induction x arbitrary: line) (auto simp: tick.simps)

lemma failed_agrees:
  "size_state cs \<Longrightarrow> size_tick cs ch = (KHTTPD_CHUNK_STATUS_IS_FAILED, [ch]) \<Longrightarrow>
   agrees cs (ch # buf) (Failed, KHTTPD_CHUNK_STATUS_IS_FAILED, ch # buf, [])"
  by (simp add: agrees_def size_tick_step ticks_failed)

lemma read_size_agrees:
  "size_state cs \<Longrightarrow> room_ok n \<Longrightarrow> agrees cs buf (read_size cs buf n)"
proof (induction cs buf n rule: read_size.induct)
  case (1 cs n)
  then show ?case using size_state_not [of cs] by (simp add: agrees_def chunk_wf_def)
next
  case (2 cs ch buf n)
  note st = size_tick_step [OF 2(5)]
  let ?cs = "cs AND NOT KHTTPD_CHUNK_STATUS_PREFIX"
  have digit: ?case if d: "size_tick cs ch = (let n = add_digit cs x in
          if n > KHTTPD_MAX_CHUNK_SIZE then (KHTTPD_CHUNK_STATUS_IS_FAILED, [ch])
          else (n OR KHTTPD_CHUNK_PART_SIZE, []))"
      and r: "read_size cs (ch # buf) n = (let m = add_digit cs x in
          if m > KHTTPD_MAX_CHUNK_SIZE then (Failed, KHTTPD_CHUNK_STATUS_IS_FAILED, ch # buf, [])
          else read_size (m OR KHTTPD_CHUNK_PART_SIZE) buf n)"
      and ih: "\<not> add_digit cs x > KHTTPD_MAX_CHUNK_SIZE \<Longrightarrow>
        agrees (add_digit cs x OR KHTTPD_CHUNK_PART_SIZE) buf (read_size (add_digit cs x OR KHTTPD_CHUNK_PART_SIZE) buf n)"
    for x
  proof (cases "add_digit cs x > KHTTPD_MAX_CHUNK_SIZE")
    case True
    with d r failed_agrees [OF 2(5), of ch buf] show ?thesis by simp
  next
    case False
    have "tick (cs, []) ch = ((add_digit cs x OR KHTTPD_CHUNK_PART_SIZE, []), [])"
      unfolding st d using False by simp
    from agrees_Cons [OF this ih [OF False]] show ?thesis using r False by simp
  qed
  consider "ch = 10" "?cs = 0" | "ch = 10" "?cs \<noteq> 0"
    | "ch \<noteq> 10" "cs AND KHTTPD_CHUNK_PART_SIZE_END = KHTTPD_CHUNK_PART_SIZE_END"
    | (dec) "ch \<noteq> 10" "cs AND KHTTPD_CHUNK_PART_SIZE_END \<noteq> KHTTPD_CHUNK_PART_SIZE_END" "48 \<le> ch \<and> ch \<le> 57"
    | (hex) "ch \<noteq> 10" "cs AND KHTTPD_CHUNK_PART_SIZE_END \<noteq> KHTTPD_CHUNK_PART_SIZE_END" "\<not> (48 \<le> ch \<and> ch \<le> 57)"
        "97 \<le> ch OR 0x20 \<and> ch OR 0x20 \<le> 102"
    | (other) "ch \<noteq> 10" "cs AND KHTTPD_CHUNK_PART_SIZE_END \<noteq> KHTTPD_CHUNK_PART_SIZE_END" "\<not> (48 \<le> ch \<and> ch \<le> 57)"
        "\<not> (97 \<le> ch OR 0x20 \<and> ch OR 0x20 \<le> 102)"
    by blast
  then show ?case
  proof cases
    case 1
    then have "tick (cs, []) ch = ((KHTTPD_CHUNK_STATUS_READ_LAST, []), [])" by (simp add: st size_tick_def)
    from agrees_Cons [OF this read_last_agrees] 1 show ?thesis by simp
  next
    case 2
    then have t: "tick (cs, []) ch = ((?cs, []), [])" by (simp add: st size_tick_def)
    have "data_state ?cs" using 2(2) strip_prefix [of cs] by (simp add: data_state_def word_neq_0_conv)
    from agrees_Cons [OF t read_data_agrees [OF this \<open>room_ok n\<close>]] 2 show ?thesis by simp
  next
    case 3
    then have t: "tick (cs, []) ch = ((cs, []), [])" by (simp add: st size_tick_def)
    from agrees_Cons [OF t "2.IH"(1)] 3 2(5,6) show ?thesis by simp
  next
    case dec
    show ?thesis
      by (rule digit [of "ucast (ch - 48)"])
        (use dec 2(5,6) in \<open>simp_all add: size_tick_def "2.IH"(2) size_state_part not_less\<close>)
  next
    case hex
    show ?thesis
      by (rule digit [of "ucast ((ch OR 0x20) - 97 + 10)"])
        (use hex 2(5,6) in \<open>auto simp: size_tick_def "2.IH"(3) size_state_part not_less\<close>)
  next
    case other
    then have t: "tick (cs, []) ch = ((cs OR KHTTPD_CHUNK_PART_SIZE_END, []), [])"
      unfolding st size_tick_def by auto
    from agrees_Cons [OF t "2.IH"(4)] other 2(5,6) size_state_end show ?thesis by auto
  qed
qed

lemma dechunk_agrees:
  assumes "chunk_wf cs" "\<not> chunk_over cs" "room_ok n"
  shows "agrees cs buf (dechunk cs buf n)"
proof -
  consider "cs = KHTTPD_CHUNK_STATUS_READ_LAST" | "cs = KHTTPD_CHUNK_STATUS_READ_END" | "size_state cs" | "data_state cs"
    using assms(1,2) by (auto simp: chunk_wf_def chunk_over_def)
  then show ?thesis
  proof cases
    case 1
    then show ?thesis using read_last_agrees by (simp add: dechunk_def)
  next
    case 2
    show ?thesis
    proof (cases "next_line buf")
      case None
      then have "10 \<notin> set buf" using next_line_None by blast
      with 2 None show ?thesis using ticks_skip_line [of buf] by (simp add: dechunk_def agrees_def)
    next
      case (Some lr)
      obtain l rest where lr: "lr = (l, rest)" by (cases lr)
      note buf = next_line_Some [OF Some [unfolded lr]]
      have t: "ticks (cs, []) (l @ [10]) = ((KHTTPD_CHUNK_STATUS_READ_SIZE, []), [])"
        using buf 2 by (simp add: ticks_append ticks_skip_line tick.simps)
      have "size_state KHTTPD_CHUNK_STATUS_READ_SIZE" by (simp add: size_state_def chunk_states)
      from agrees_append [OF t read_size_agrees [OF this assms(3)], of rest] show ?thesis
        using 2 Some lr buf by (simp add: dechunk_def)
    qed
  next
    case 3
    with size_state_not [OF 3] size_state_test [OF 3] size_state_live [OF 3] read_size_agrees [OF 3 assms(3)]
    show ?thesis by (auto simp: dechunk_def)
  next
    case 4
    with data_state_not [OF 4] data_state_test [OF 4] data_state_live [OF 4] read_data_agrees [OF 4 assms(3)]
    show ?thesis by (auto simp: dechunk_def)
  qed
qed

section \<open>Reading a message\<close>

definition payload :: "atom list \<Rightarrow> byte list" where
  "payload as = concat (map (\<lambda>a. case a of Byte b \<Rightarrow> [b] | Trailer_Line t \<Rightarrow> []) as)"

lemma payload_simps [simp]:
  "payload [] = []" "payload (as @ bs) = payload as @ payload bs" "payload (map Byte p) = p"
  "payload [Trailer_Line t] = []"
  by (auto simp: payload_def comp_def)

lemma ticks_prefix:
  "ticks st a = (st1, x) \<Longrightarrow> ticks st1 b = (st2, y) \<Longrightarrow> ticks st (a @ b) = (st2, x @ y)"
  by (simp add: ticks_append)

text \<open>What one read does to the input still to come, in terms of the automaton.\<close>

definition read_ok :: "u32 \<Rightarrow> byte list \<Rightarrow> read_result \<Rightarrow> u32 \<Rightarrow> byte list \<Rightarrow> bool" where
  "read_ok cs input res cs' input' = (case res of
     Piece p \<Rightarrow> p \<noteq> [] \<and> \<not> chunk_over cs' \<and> (\<exists>pre as. input = pre @ input' \<and> ticks (cs, []) pre = ((cs', []), as) \<and> payload as = p)
   | Read_End \<Rightarrow> cs' = KHTTPD_CHUNK_STATUS_IS_END \<and>
       (\<exists>as. ticks (cs, []) input = ((cs', input'), as) \<and> payload as = [])
   | Read_Error \<Rightarrow> fst (fst (ticks (cs, []) input)) \<noteq> KHTTPD_CHUNK_STATUS_IS_END
   | Read_Aborted \<Rightarrow> False)"

lemma read_ok_prefix:
  assumes "ticks (cs, []) pre = ((cs1, []), as)" "payload as = []" "read_ok cs1 input res cs' input'"
  shows "read_ok cs (pre @ input) res cs' input'"
proof (cases res)
  case (Piece p)
  with assms(3) obtain q bs where "input = q @ input'" "ticks (cs1, []) q = ((cs', []), bs)" "payload bs = p" "p \<noteq> []"
    "\<not> chunk_over cs'"
    by (auto simp: read_ok_def)
  with ticks_prefix [OF assms(1)] assms(2) Piece show ?thesis
    by (auto simp: read_ok_def intro!: exI [of _ "pre @ q"])
next
  case Read_End
  with assms(3) ticks_prefix [OF assms(1)] assms(2) show ?thesis by (auto simp: read_ok_def)
next
  case Read_Error
  with assms(3) ticks_prefix [OF assms(1)] show ?thesis
    by (cases "ticks (cs1, []) input") (auto simp: read_ok_def)
next
  case Read_Aborted
  with assms(3) show ?thesis by (simp add: read_ok_def)
qed

lemma read_ok_continue:
  assumes buf: "ticks (cs, []) buf = ((cs1, buf1), [])" and idle: "ticks (cs1, []) buf1 = ((cs1, buf1), [])"
    and r: "read_ok cs1 (buf1 @ x) res cs' input'"
  shows "read_ok cs (buf @ x) res cs' input'"
proof (cases res)
  case (Piece p)
  with r obtain q as where q: "buf1 @ x = q @ input'" "ticks (cs1, []) q = ((cs', []), as)" "payload as = p" "p \<noteq> []"
    "\<not> chunk_over cs'"
    by (auto simp: read_ok_def)
  from q(1) consider (short) us where "buf1 = q @ us" | (long) us where "q = buf1 @ us" "x = us @ input'"
    by (auto simp: append_eq_append_conv2)
  then show ?thesis
  proof cases
    case short
    have "as = []" using idle q(2) unfolding short by (auto simp: ticks_append split: prod.splits)
    with q(3,4) show ?thesis by simp
  next
    case long
    have "ticks (cs, []) (buf @ us) = ((cs', []), as)"
      using q(2) buf idle unfolding long by (simp add: ticks_append)
    with long q Piece show ?thesis by (auto simp: read_ok_def intro!: exI [of _ "buf @ us"])
  qed
qed (use assms in \<open>auto simp: read_ok_def ticks_append\<close>)

lemma add_trailer_fields [simp]:
  "dc_chunk (add_trailer p c) = dc_chunk c" "dc_buf (add_trailer p c) = dc_buf c"
  by (simp_all add: add_trailer_def Let_def)

lemma ctx_loop_ok:
  "chunk_wf (dc_chunk c) \<Longrightarrow> \<not> chunk_over (dc_chunk c) \<Longrightarrow> room_ok n \<Longrightarrow> [] \<notin> set net \<Longrightarrow> ctx_loop n c net = (res, c', net') \<Longrightarrow>
   chunk_wf (dc_chunk c') \<and> [] \<notin> set net' \<and>
   read_ok (dc_chunk c) (dc_buf c @ concat net) res (dc_chunk c') (dc_buf c' @ concat net')"
proof (induction n c net rule: ctx_loop.induct)
  case (1 n c net)
  obtain r cs buf piece where d: "dechunk (dc_chunk c) (dc_buf c) n = (r, cs, buf, piece)" by (metis prod_cases4)
  have ag: "agrees (dc_chunk c) (dc_buf c) (r, cs, buf, piece)" using dechunk_agrees [OF 1(3-5), of "dc_buf c"] d by simp
  let ?c = "c\<lparr>dc_chunk := cs, dc_buf := buf\<rparr>"
  have wf: "chunk_wf cs" using ag by (simp add: agrees_def)
  show ?case
  proof (cases r)
    case Success
    then have "piece \<noteq> []" using ag by (simp add: agrees_def)
    with Success 1(7) d have "res = Piece piece" "c' = ?c" "net' = net" by (auto simp: ctx_loop.simps)
    moreover from ag Success obtain pre where "piece \<noteq> []" "\<not> chunk_over cs" "dc_buf c = pre @ buf"
      "ticks (dc_chunk c, []) pre = ((cs, []), map Byte piece)" by (auto simp: agrees_def)
    ultimately show ?thesis using wf 1(6)
      by (auto simp: read_ok_def intro!: exI [of _ pre])
  next
    case Trailer
    with ag obtain pre where pre: "dc_buf c = pre @ buf"
      "ticks (dc_chunk c, []) pre = ((cs, []), [Trailer_Line piece])" "\<not> chunk_over cs" by (auto simp: agrees_def)
    have "ctx_loop n (add_trailer piece ?c) net = (res, c', net')"
      using 1(7) d Trailer by (simp add: ctx_loop.simps [of n c])
    with 1(2) [OF d [symmetric] refl refl refl Trailer] wf pre(3) 1(5,6)
    have "chunk_wf (dc_chunk c')" "[] \<notin> set net'"
      "read_ok cs (buf @ concat net) res (dc_chunk c') (dc_buf c' @ concat net')" by auto
    with read_ok_prefix [OF pre(2)] pre(1) show ?thesis by simp
  next
    case Continue
    with ag have t: "ticks (dc_chunk c, []) (dc_buf c) = ((cs, buf), [])" "ticks (cs, []) buf = ((cs, buf), [])"
      "\<not> chunk_over cs" by (auto simp: agrees_def)
    show ?thesis
    proof (cases net)
      case Nil
      with 1(7) d Continue have "res = Read_Error" "c' = ?c" "net' = []" by (auto simp: ctx_loop.simps)
      with Nil wf t show ?thesis by (simp add: read_ok_def chunk_over_def)
    next
      case (Cons f fs)
      let ?c' = "?c\<lparr>dc_buf := buf @ f\<rparr>"
      have net: "read_from_net ?c net = Some (?c', fs)" using Cons 1(6) by auto
      have "ctx_loop n ?c' fs = (res, c', net')"
        using 1(7) d Continue net by (simp add: ctx_loop.simps [of n c])
      with 1(1) [OF d [symmetric] refl refl refl Continue net refl] wf t(3) 1(5,6) Cons
      have "chunk_wf (dc_chunk c')" "[] \<notin> set net'"
        "read_ok cs (buf @ concat net) res (dc_chunk c') (dc_buf c' @ concat net')" by auto
      with read_ok_continue [OF t(1,2)] show ?thesis by simp
    qed
  next
    case End
    with 1(7) d have "res = Read_End" "c' = ?c" "net' = net" by (auto simp: ctx_loop.simps)
    moreover have "ticks (cs, line) x = ((cs, line @ x), [])" if "cs = KHTTPD_CHUNK_STATUS_IS_END" for line x
      using that by (induction x arbitrary: line) (auto simp: tick.simps)
    ultimately show ?thesis using End ag wf 1(6) by (auto simp: agrees_def read_ok_def ticks_append)
  next
    case Failed
    with 1(7) d have "res = Read_Error" "c' = ?c" "net' = net" by (auto simp: ctx_loop.simps)
    with Failed ag wf 1(6) ticks_failed show ?thesis by (auto simp: agrees_def read_ok_def ticks_append)
  next
    case Aborted
    with ag show ?thesis by (simp add: agrees_def)
  qed
qed

lemma ctx_read_ok:
  assumes "chunk_wf (dc_chunk c)" "\<not> chunk_over (dc_chunk c)" "room_ok n" "[] \<notin> set net" "ctx_read n c net = (res, c', net')"
  shows "chunk_wf (dc_chunk c') \<and> [] \<notin> set net' \<and>
   read_ok (dc_chunk c) (dc_buf c @ concat net) res (dc_chunk c') (dc_buf c' @ concat net')"
proof (cases "dc_buf c = []")
  case False
  with assms ctx_loop_ok [OF assms(1-4)] show ?thesis by (simp add: ctx_read_def)
next
  case True
  show ?thesis
  proof (cases net)
    case Nil
    with True assms show ?thesis by (auto simp: ctx_read_def read_ok_def chunk_over_def)
  next
    case (Cons f fs)
    with True assms have "ctx_loop n (c\<lparr>dc_buf := f\<rparr>) fs = (res, c', net')"
      by (auto simp: ctx_read_def split: if_splits)
    with ctx_loop_ok [OF _ _ assms(3), of "c\<lparr>dc_buf := f\<rparr>" fs] assms(1,2,4) Cons True show ?thesis by simp
  qed
qed

text \<open>A decoder that is over fails an assertion as soon as there is an octet to decode.\<close>

lemma dechunk_over: "chunk_over cs \<Longrightarrow> dechunk cs buf n = (Aborted, cs, buf, [])"
  unfolding chunk_over_def by (elim disjE) (simp_all add: dechunk_def)

lemma ctx_read_over:
  assumes "chunk_over (dc_chunk c)" "dc_buf c \<noteq> []"
  shows "ctx_read n c net = (Read_Aborted, c, net)"
  using assms dechunk_over [OF assms(1), of "dc_buf c" n]
  by (simp add: ctx_read_def) (simp add: ctx_loop.simps [of n c] Let_def)

section \<open>The chunked encoding\<close>

definition hex_digit :: "nat \<Rightarrow> byte" where
  "hex_digit d = of_nat (if d < 10 then 48 + d else 87 + d)"

fun hex :: "nat \<Rightarrow> byte list" where
  "hex n = (if n < 16 then [hex_digit n] else hex (n div 16) @ [hex_digit (n mod 16)])"

declare hex.simps [simp del]

definition encode_chunk :: "byte list \<Rightarrow> byte list" where
  "encode_chunk d = hex (length d) @ [13, 10] @ d @ [13, 10]"

definition encode_chunked :: "byte list list \<Rightarrow> byte list" where
  "encode_chunked ds = concat (map encode_chunk ds) @ [48, 13, 10, 13, 10]"

lemma hex_digit_cases:
  assumes "d < 16"
  shows "hex_digit d \<noteq> 10"
    and "(if 48 \<le> hex_digit d \<and> hex_digit d \<le> 57 then Some (hex_digit d - 48)
          else if 97 \<le> hex_digit d OR 0x20 \<and> hex_digit d OR 0x20 \<le> 102 then Some ((hex_digit d OR 0x20) - 97 + 10)
          else None) = Some (of_nat d)"
proof -
  have "d \<in> {0, 1, 2, 3, 4, 5, 6, 7, 8, 9, 10, 11, 12, 13, 14, 15}"
    unfolding insert_iff empty_iff using assms by presburger
  then show "hex_digit d \<noteq> 10"
    "(if 48 \<le> hex_digit d \<and> hex_digit d \<le> 57 then Some (hex_digit d - 48)
      else if 97 \<le> hex_digit d OR 0x20 \<and> hex_digit d OR 0x20 \<le> 102 then Some ((hex_digit d OR 0x20) - 97 + 10)
      else None) = Some (of_nat d)"
    by (auto simp: hex_digit_def)
qed

lemma strip_size:
  assumes "n \<le> KHTTPD_MAX_CHUNK_SIZE"
  shows "(n OR KHTTPD_CHUNK_PART_SIZE) AND NOT KHTTPD_CHUNK_STATUS_PREFIX = n"
    and "((n OR KHTTPD_CHUNK_PART_SIZE) OR KHTTPD_CHUNK_PART_SIZE_END) AND NOT KHTTPD_CHUNK_STATUS_PREFIX = n"
    and "(n OR KHTTPD_CHUNK_PART_SIZE) AND KHTTPD_CHUNK_PART_SIZE_END \<noteq> KHTTPD_CHUNK_PART_SIZE_END"
proof -
  have pre: "bit KHTTPD_CHUNK_STATUS_PREFIX k \<longleftrightarrow> k = 29 \<or> k = 30 \<or> k = 31" for k
  proof -
    have e: "(0xE0000000::u32) = push_bit 31 1 OR push_bit 30 1 OR push_bit 29 1" by simp
    show ?thesis unfolding KHTTPD_CHUNK_STATUS_PREFIX_def e by (simp only: bit_simps) auto
  qed
  note b = max_chunk_bits [OF assms]
  show "(n OR KHTTPD_CHUNK_PART_SIZE) AND NOT KHTTPD_CHUNK_STATUS_PREFIX = n"
    "((n OR KHTTPD_CHUNK_PART_SIZE) OR KHTTPD_CHUNK_PART_SIZE_END) AND NOT KHTTPD_CHUNK_STATUS_PREFIX = n"
    by (rule bit_word_eqI, auto simp: bit_simps pre bit_part_size dest: b)+
  show "(n OR KHTTPD_CHUNK_PART_SIZE) AND KHTTPD_CHUNK_PART_SIZE_END \<noteq> KHTTPD_CHUNK_PART_SIZE_END"
  proof
    assume "(n OR KHTTPD_CHUNK_PART_SIZE) AND KHTTPD_CHUNK_PART_SIZE_END = KHTTPD_CHUNK_PART_SIZE_END"
    then have "bit (n OR KHTTPD_CHUNK_PART_SIZE) 29" by (metis bit_and_iff bit_part_size(2))
    then show False using b [of 29] by (simp add: bit_simps bit_part_size)
  qed
qed

lemma max_chunk_nat: "n \<le> 0x1FFFFFFF \<Longrightarrow> (of_nat n :: u32) \<le> KHTTPD_MAX_CHUNK_SIZE"
  by (simp add: chunk_flags word_le_nat_alt unat_of_nat)

lemma size_tick_digit:
  assumes "d < 16" "m * 16 + d \<le> 0x1FFFFFFF" "cs AND NOT KHTTPD_CHUNK_STATUS_PREFIX = of_nat m"
    and "cs AND KHTTPD_CHUNK_PART_SIZE_END \<noteq> KHTTPD_CHUNK_PART_SIZE_END"
  shows "size_tick cs (hex_digit d) = (of_nat (m * 16 + d) OR KHTTPD_CHUNK_PART_SIZE, [])"
proof -
  have "ucast (of_nat d :: byte) = (of_nat d :: u32)"
    using assms(1) by (simp add: unsigned_of_nat take_bit_nat_eq_self)
  then have a: "add_digit cs (ucast (of_nat d :: byte)) = of_nat (m * 16 + d)"
    by (simp add: add_digit_def assms(3))
  have "\<not> of_nat (m * 16 + d) > KHTTPD_MAX_CHUNK_SIZE" using max_chunk_nat [OF assms(2)] by (simp only: not_less)
  with a hex_digit_cases [OF assms(1)] assms(4) show ?thesis
    unfolding size_tick_def by (simp only: option.case Let_def if_False if_True simp_thms)
qed

lemma ticks_hex:
  "n \<le> 0x1FFFFFFF \<Longrightarrow> ticks (0, []) (hex n) = ((of_nat n OR KHTTPD_CHUNK_PART_SIZE, []), [])"
proof (induction n rule: hex.induct)
  case (1 n)
  have z: "(0 :: u32) AND NOT KHTTPD_CHUNK_STATUS_PREFIX = of_nat 0"
    "(0 :: u32) AND KHTTPD_CHUNK_PART_SIZE_END \<noteq> KHTTPD_CHUNK_PART_SIZE_END" "size_state 0"
    by (simp_all add: chunk_flags size_state_def)
  show ?case
  proof (cases "n < 16")
    case True
    with z 1(2) size_tick_digit [OF True, of 0 0] show ?thesis
      by (subst hex.simps) (simp add: size_tick_step)
  next
    case False
    let ?m = "n div 16"
    have m: "?m \<le> 0x1FFFFFFF" "n mod 16 < 16" using 1(2) by auto
    have n: "?m * 16 + n mod 16 = n" by simp
    have "size_tick (of_nat ?m OR KHTTPD_CHUNK_PART_SIZE) (hex_digit (n mod 16)) =
        (of_nat (?m * 16 + n mod 16) OR KHTTPD_CHUNK_PART_SIZE, [])"
    proof (rule size_tick_digit [OF m(2)])
      show "?m * 16 + n mod 16 \<le> 0x1FFFFFFF" unfolding n by (rule 1(2))
    qed (use strip_size [OF max_chunk_nat [OF m(1)]] in simp_all)
    then have t: "tick (of_nat ?m OR KHTTPD_CHUNK_PART_SIZE, []) (hex_digit (n mod 16)) =
        ((of_nat n OR KHTTPD_CHUNK_PART_SIZE, []), [])"
      using size_tick_step [OF size_state_part [OF max_chunk_nat [OF m(1)]]] by (simp only: n)
    have "hex n = hex ?m @ [hex_digit (n mod 16)]" using False by (subst hex.simps) simp
    with 1(1) [OF False m(1)] t show ?thesis by (simp add: ticks_append)
  qed
qed

lemma ticks_encode_chunk:
  assumes "d \<noteq> []" "length d \<le> 0x1FFFFFFF"
  shows "ticks (0, []) (encode_chunk d) = ((0, []), map Byte d)"
proof -
  let ?n = "of_nat (length d) :: u32" and ?p = "of_nat (length d) OR KHTTPD_CHUNK_PART_SIZE :: u32"
  note mx = max_chunk_nat [OF assms(2)]
  have u: "unat ?n = length d" using assms(2) by (simp add: unat_of_nat)
  then have ds: "data_state ?n" using assms(1) mx by (simp add: data_state_def word_less_nat_alt)
  have sp: "size_state ?p" "size_state (?p OR KHTTPD_CHUNK_PART_SIZE_END)"
    using size_state_part [OF mx] size_state_end by auto
  have cr: "size_tick ?p 13 = (?p OR KHTTPD_CHUNK_PART_SIZE_END, [])"
    unfolding size_tick_def using strip_size(3) [OF mx] by simp
  have "?n \<noteq> 0" using ds by (auto simp: data_state_def)
  then have lf: "size_tick (?p OR KHTTPD_CHUNK_PART_SIZE_END) 10 = (?n, [])"
    unfolding size_tick_def using strip_size(2) [OF mx] by simp
  have line: "ticks (?p, []) [13, 10] = ((?n, []), [])"
    using cr lf size_tick_step [OF sp(1)] size_tick_step [OF sp(2)] by simp
  have data: "ticks (?n, []) d = ((KHTTPD_CHUNK_STATUS_READ_END, []), map Byte d)"
    using ticks_data [OF ds assms(1)] u by simp
  have crlf: "ticks (KHTTPD_CHUNK_STATUS_READ_END, []) [13, 10] = ((0, []), [])"
    by (simp add: tick.simps) (simp add: chunk_states)
  have "ticks (0, []) (hex (length d) @ [13, 10]) = ((?n, []), [])"
    using ticks_prefix [OF ticks_hex [OF assms(2)] line] by simp
  then have "ticks (0, []) ((hex (length d) @ [13, 10]) @ d) = ((KHTTPD_CHUNK_STATUS_READ_END, []), map Byte d)"
    using ticks_prefix [OF _ data] by fastforce
  from ticks_prefix [OF this crlf] show ?thesis by (simp add: encode_chunk_def)
qed

lemma ticks_encode_chunked:
  assumes "\<forall>d \<in> set ds. d \<noteq> [] \<and> length d \<le> 0x1FFFFFFF"
  shows "ticks (0, []) (encode_chunked ds @ rest) =
    ((KHTTPD_CHUNK_STATUS_IS_END, rest), map Byte (concat ds))"
proof -
  have body: "ticks (0, []) (concat (map encode_chunk ds)) = ((0, []), map Byte (concat ds))"
    using assms
  proof (induction ds)
    case (Cons d ds)
    then have "ticks (0, []) (encode_chunk d) = ((0, []), map Byte d)" by (simp add: ticks_encode_chunk)
    from ticks_prefix [OF this] Cons show ?case by simp
  qed simp
  have tail: "ticks (KHTTPD_CHUNK_STATUS_IS_END, line) x = ((KHTTPD_CHUNK_STATUS_IS_END, line @ x), [])" for line x
    by (induction x arbitrary: line) (auto simp: tick.simps)
  have z: "hex 0 = [48]" by (simp add: hex.simps hex_digit_def)
  let ?p = "0 OR KHTTPD_CHUNK_PART_SIZE :: u32"
  have mx: "(0 :: u32) \<le> KHTTPD_MAX_CHUNK_SIZE" by simp
  have cr: "size_tick ?p 13 = (?p OR KHTTPD_CHUNK_PART_SIZE_END, [])"
    unfolding size_tick_def using strip_size(3) [OF mx] by simp
  have lf: "size_tick (?p OR KHTTPD_CHUNK_PART_SIZE_END) 10 = (KHTTPD_CHUNK_STATUS_READ_LAST, [])"
    unfolding size_tick_def using strip_size(2) [OF mx] by simp
  have sp: "size_state ?p" "size_state (?p OR KHTTPD_CHUNK_PART_SIZE_END)"
    using size_state_part [OF mx] size_state_end by auto
  have line: "ticks (?p, []) [13, 10] = ((KHTTPD_CHUNK_STATUS_READ_LAST, []), [])"
    using cr lf size_tick_step [OF sp(1)] size_tick_step [OF sp(2)] by simp
  have "trailer_line [13] = None" by (simp add: trailer_line_def trim_right_def isspace_def)
  then have last: "ticks (KHTTPD_CHUNK_STATUS_READ_LAST, []) [13, 10] = ((KHTTPD_CHUNK_STATUS_IS_END, []), [])"
    by (simp add: tick.simps)
  have h0: "ticks (0, []) [48] = ((?p, []), [])" using ticks_hex [of 0] z by simp
  have "ticks (0, []) (([48] @ [13, 10]) @ [13, 10]) = ((KHTTPD_CHUNK_STATUS_IS_END, []), [])"
    using ticks_prefix [OF ticks_prefix [OF h0 line] last] by (simp only: append_Nil)
  from ticks_prefix [OF ticks_prefix [OF body this] tail [of "[]" rest]] show ?thesis
    by (simp add: encode_chunked_def)
qed

text \<open>A client that reads with buffers of the given sizes until the message ends.\<close>

fun read_all :: "nat list \<Rightarrow> dechunk_context \<Rightarrow> byte list list \<Rightarrow>
    byte list \<times> read_result option \<times> dechunk_context \<times> byte list list" where
  "read_all [] c net = ([], None, c, net)"
| "read_all (n # ns) c net = (case ctx_read n c net of
     (Piece p, c', net') \<Rightarrow> (let (out, rest) = read_all ns c' net' in (p @ out, rest))
   | (r, c', net') \<Rightarrow> ([], Some r, c', net'))"

lemma read_all_ok:
  "chunk_wf (dc_chunk c) \<Longrightarrow> \<not> chunk_over (dc_chunk c) \<Longrightarrow> [] \<notin> set net \<Longrightarrow>
   \<forall>n \<in> set ns. room_ok n \<Longrightarrow>
   ticks (dc_chunk c, []) (dc_buf c @ concat net) = ((KHTTPD_CHUNK_STATUS_IS_END, rest), as) \<Longrightarrow>
   length (payload as) < length ns \<Longrightarrow>
   \<exists>c' net'. read_all ns c net = (payload as, Some Read_End, c', net') \<and> dc_buf c' @ concat net' = rest"
proof (induction ns arbitrary: c net as)
  case (Cons n ns)
  obtain res c' net' where r: "ctx_read n c net = (res, c', net')" by (metis prod_cases3)
  from ctx_read_ok [OF Cons.prems(1,2) _ Cons.prems(3) r] Cons.prems(4)
  have wf: "chunk_wf (dc_chunk c')" "[] \<notin> set net'"
    and ok: "read_ok (dc_chunk c) (dc_buf c @ concat net) res (dc_chunk c') (dc_buf c' @ concat net')" by auto
  show ?case
  proof (cases res)
    case (Piece p)
    with ok obtain pre a1 where p: "p \<noteq> []" "\<not> chunk_over (dc_chunk c')"
      "dc_buf c @ concat net = pre @ dc_buf c' @ concat net'"
      "ticks (dc_chunk c, []) pre = ((dc_chunk c', []), a1)" "payload a1 = p" by (auto simp: read_ok_def)
    obtain st a2 where t2: "ticks (dc_chunk c', []) (dc_buf c' @ concat net') = (st, a2)" by (metis surj_pair)
    from ticks_prefix [OF p(4) t2] Cons.prems(5) p(3) have st: "st = (KHTTPD_CHUNK_STATUS_IS_END, rest)" "as = a1 @ a2"
      by auto
    have len: "length (payload a2) < length ns" using Cons.prems(6) st(2) p(1,5) by (cases p) auto
    from Cons.IH [OF wf(1) p(2) wf(2) _ t2 [unfolded st(1)] len] Cons.prems(4)
    obtain c'' net'' where "read_all ns c' net' = (payload a2, Some Read_End, c'', net'')"
      "dc_buf c'' @ concat net'' = rest" by auto
    with r Piece p(5) st(2) show ?thesis by simp
  next
    case Read_End
    with ok Cons.prems(5) r show ?thesis by (auto simp: read_ok_def)
  next
    case Read_Error
    with ok Cons.prems(5) show ?thesis by (simp add: read_ok_def)
  next
    case Read_Aborted
    with ok show ?thesis by (simp add: read_ok_def)
  qed
qed simp

section \<open>Properties\<close>

lemma read_chunked:
  assumes "dc_chunk c = KHTTPD_CHUNK_STATUS_READ_SIZE" "[] \<notin> set net"
    and "dc_buf c @ concat net = encode_chunked ds @ rest"
    and "\<forall>d \<in> set ds. d \<noteq> [] \<and> length d \<le> 0x1FFFFFFF"
    and "\<forall>n \<in> set ns. room_ok n" "length (concat ds) < length ns"
  shows "\<exists>c' net'. read_all ns c net = (concat ds, Some Read_End, c', net') \<and> dc_buf c' @ concat net' = rest"
proof -
  have cs: "dc_chunk c = 0" using assms(1) by (simp add: chunk_states)
  have wf: "chunk_wf (dc_chunk c)" "\<not> chunk_over (dc_chunk c)"
    by (simp_all add: cs chunk_wf_def chunk_over_def size_state_def chunk_states chunk_flags)
  have t: "ticks (dc_chunk c, []) (dc_buf c @ concat net) =
      ((KHTTPD_CHUNK_STATUS_IS_END, rest), map Byte (concat ds))"
    unfolding assms(3) cs by (rule ticks_encode_chunked [OF assms(4)])
  from read_all_ok [OF wf assms(2,5) t] assms(6) show ?thesis by simp
qed

text \<open>
  C20: the engine is the automaton. In every live state between two calls, for every piece length from one octet to the
  largest chunk, a call consumes octets and returns exactly what the octet-wise automaton does on them: data, a
  trailer line, the end of the message with the octets behind it left alone, a failure, or a
  request for more input that keeps only an unfinished trailer line; it keeps the state
  well-formed, and no assertion fails. In the two states behind the end and behind a failure every call fails an assertion.
\<close>

theorem dechunk_refines_automaton:
  assumes "chunk_wf cs" "room_ok n"
  shows "if cs = KHTTPD_CHUNK_STATUS_IS_END \<or> cs = KHTTPD_CHUNK_STATUS_IS_FAILED then dechunk cs buf n = (Aborted, cs, buf, [])
    else agrees cs buf (dechunk cs buf n)"
  using dechunk_agrees [OF assms(1) _ assms(2)] dechunk_over by (simp add: chunk_over_def)

theorem dechunk_refines_automaton_witness:
  "if (0 :: u32) = KHTTPD_CHUNK_STATUS_IS_END \<or> (0 :: u32) = KHTTPD_CHUNK_STATUS_IS_FAILED
    then dechunk 0 (bytes ''3;x'' @ [10, 65, 66, 67]) 2 = (Aborted, 0, bytes ''3;x'' @ [10, 65, 66, 67], [])
    else agrees 0 (bytes ''3;x'' @ [10, 65, 66, 67]) (dechunk 0 (bytes ''3;x'' @ [10, 65, 66, 67]) 2)"
  by (rule dechunk_refines_automaton) (simp_all add: chunk_wf_def size_state_def room_ok_def)

text \<open>
  C4: a chunked message is decoded. Whatever non-empty pieces the network delivers the
  encoding of a body in, with whatever follows it, and whatever buffer sizes the reader
  uses, the reads return the body and then the end of the message, and the octets after
  the message are still there for the next one. A buffer has room for one octet at least and for no more than the
  largest chunk, as the assertions of the engine and the reader ask.
\<close>

theorem chunked_message_decoded:
  assumes "dc_chunk c = KHTTPD_CHUNK_STATUS_READ_SIZE" "[] \<notin> set net"
    and "dc_buf c @ concat net = encode_chunked ds @ rest"
    and "\<forall>d \<in> set ds. d \<noteq> [] \<and> length d \<le> 0x1FFFFFFF"
    and "\<forall>n \<in> set ns. room_ok n" "length (concat ds) < length ns"
  shows "\<exists>c' net'. read_all ns c net = (concat ds, Some Read_End, c', net') \<and> dc_buf c' @ concat net' = rest"
  by (rule read_chunked [OF assms])

theorem chunked_message_decoded_witness:
  "\<exists>c' net'. read_all [2, 2, 2, 2] \<lparr>dc_chunk = KHTTPD_CHUNK_STATUS_READ_SIZE, dc_buf = [51], dc_trailer = []\<rparr>
     [[13, 10, 65], [66, 67, 13, 10, 48, 13], [10, 13, 10, 71, 69, 84]] =
     ([65, 66, 67], Some Read_End, c', net') \<and> dc_buf c' @ concat net' = [71, 69, 84]"
proof -
  have "\<exists>c' net'. read_all [2, 2, 2, 2] \<lparr>dc_chunk = KHTTPD_CHUNK_STATUS_READ_SIZE, dc_buf = [51], dc_trailer = []\<rparr>
     [[13, 10, 65], [66, 67, 13, 10, 48, 13], [10, 13, 10, 71, 69, 84]] =
     (concat [[65, 66, 67]], Some Read_End, c', net') \<and> dc_buf c' @ concat net' = [71, 69, 84]"
    by (rule chunked_message_decoded)
      (simp_all add: encode_chunked_def encode_chunk_def hex.simps hex_digit_def room_ok_def)
  then show ?thesis by simp
qed

text \<open>
  The limit on the chunk size is tested after the 32-bit multiplication has wrapped: the
  size line \<^verbatim>\<open>100000005\<close> (hexadecimal, more than four gigabytes) is accepted as a chunk of five
  octets.
\<close>

theorem chunk_size_wraps:
  "dechunk KHTTPD_CHUNK_STATUS_READ_SIZE (bytes ''100000005'' @ [13, 10] @ buf) n = read_data 5 buf n"
proof -
  have "(4294967301 :: u32) = 5" by (simp add: word_uint_eq_iff)
  moreover have "dechunk KHTTPD_CHUNK_STATUS_READ_SIZE (bytes ''100000005'' @ [13, 10] @ buf) n =
      read_data 4294967301 buf n"
    by (simp add: dechunk_def bytes_def of_char_def add_digit_def chunk_states chunk_flags)
  ultimately show ?thesis by (simp only:)
qed

end
