(* ===== verification/KHttp1Response.thy ===== *)
theory KHttp1Response
  imports KRequest KDechunk
begin

unbundle bit_operations_syntax

text \<open>
  HTTP/1 responses: the response head of \<^verbatim>\<open>KSink::start_response_body\<close> and \<^verbatim>\<open>KHttpSink\<close>, the gathering
  write \<^verbatim>\<open>write_buf\<close> of \<^verbatim>\<open>include/KTcpServerSink.h\<close> and the chunked body of \<^verbatim>\<open>src/KHttpSink.cpp\<close>. The
  connection is a parameter: \<open>writev\<close> stands for \<^verbatim>\<open>kfiber_net_writev_full\<close>, which writes the buffers
  in order and reports how many octets went out and whether all did.
\<close>

type_synonym 'c writev = "'c \<Rightarrow> byte list list \<Rightarrow> nat \<times> bool \<times> 'c"

text \<open>What is relied on: the octets written are a prefix of those given, all of them if it says so.\<close>

definition writes_prefix :: "'c writev \<Rightarrow> ('c \<Rightarrow> byte list) \<Rightarrow> bool" where
  "writes_prefix writev sent \<longleftrightarrow> (\<forall>c bufs n ok c'. writev c bufs = (n, ok, c') \<longrightarrow>
     n \<le> length (concat bufs) \<and> (ok \<longleftrightarrow> n = length (concat bufs)) \<and> sent c' = sent c @ take n (concat bufs))"

definition never_fails :: "'c writev \<Rightarrow> bool" where
  "never_fails writev \<longleftrightarrow> (\<forall>c bufs. fst (snd (writev c bufs)))"

section \<open>Gathering writes\<close>

definition KGL_RQ_WRITE_BUF_COUNT :: nat where
  "KGL_RQ_WRITE_BUF_COUNT = 64"

text \<open>The vector of the next buffers, what is left of the length and the buffers behind; \<open>None\<close> follows a null pointer.\<close>

fun prepare_iovec :: "nat \<Rightarrow> nat \<Rightarrow> byte list list \<Rightarrow> (byte list list \<times> nat \<times> byte list list) option" where
  "prepare_iovec 0 buf_length bufs = Some ([], buf_length, bufs)"
| "prepare_iovec (Suc k) buf_length bufs = (
     if buf_length = 0 then Some ([], buf_length, bufs)
     else case bufs of
       [] \<Rightarrow> None
     | b # bufs' \<Rightarrow>
         (case prepare_iovec k (buf_length - min buf_length (length b)) bufs' of
            None \<Rightarrow> None
          | Some (v, l, r) \<Rightarrow> Some (take buf_length b # v, l, r)))"

lemma prepare_iovec_shorter:
  "prepare_iovec (Suc k) l bufs = Some (v, l', r) \<Longrightarrow> 0 < l \<Longrightarrow> length r < length bufs"
proof -
  have le: "prepare_iovec k l bufs = Some (v, l', r) \<Longrightarrow> length r \<le> length bufs" for k l bufs v
    by (induction k l bufs arbitrary: v rule: prepare_iovec.induct) (force split: if_splits list.splits option.splits)+
  show "prepare_iovec (Suc k) l bufs = Some (v, l', r) \<Longrightarrow> 0 < l \<Longrightarrow> length r < length bufs"
    by (auto split: list.splits option.splits dest: le)
qed

function write_loop :: "'c writev \<Rightarrow> nat \<Rightarrow> nat \<Rightarrow> byte list list \<Rightarrow> byte list option \<Rightarrow> 'c \<Rightarrow> (nat \<times> 'c) option" where
  "write_loop writev len buf_length bufs suffix c = (
     if buf_length = 0 then Some (len, c)
     else case prepare_iovec (KGL_RQ_WRITE_BUF_COUNT - 1) buf_length bufs of
       None \<Rightarrow> None
     | Some (v, l, r) \<Rightarrow>
         let v = (if l = 0 then v @ (case suffix of None \<Rightarrow> [] | Some s \<Rightarrow> [s]) else v) in
         (case writev c v of (got, ok, c') \<Rightarrow>
            if \<not> ok then Some (len - got, c') else write_loop writev (len - got) l r suffix c'))"
  by pat_completeness auto
termination
  by (relation "measure (\<lambda>(w, len, l, bufs, s, c). length bufs)")
    (auto simp: KGL_RQ_WRITE_BUF_COUNT_def numeral_eq_Suc dest: prepare_iovec_shorter simp del: prepare_iovec.simps)

declare write_loop.simps [simp del]

definition write_buf :: "'c writev \<Rightarrow> byte list list \<Rightarrow> nat \<Rightarrow> byte list option \<Rightarrow> 'c \<Rightarrow> (nat \<times> 'c) option" where
  "write_buf writev bufs len suffix c =
     write_loop writev (len + (case suffix of None \<Rightarrow> 0 | Some s \<Rightarrow> length s)) len bufs suffix c"

lemma prepare_iovec_octets:
  "prepare_iovec k l bufs = Some (v, l', r) \<Longrightarrow> l \<le> length (concat bufs) \<Longrightarrow>
   concat v @ take l' (concat r) = take l (concat bufs) \<and> l' \<le> length (concat r) \<and> length (concat v) + l' = l"
proof (induction k l bufs arbitrary: v rule: prepare_iovec.induct)
  case (2 k l bufs)
  show ?case
  proof (cases "l = 0 \<or> bufs = []")
    case True
    with 2(2,3) show ?thesis by (auto split: if_splits)
  next
    case False
    then obtain b bs where b: "bufs = b # bs" "0 < l" by (cases bufs) auto
    with 2(2) obtain v' where v': "prepare_iovec k (l - min l (length b)) bs = Some (v', l', r)" "v = take l b # v'"
      by (auto split: option.splits)
    have "concat v' @ take l' (concat r) = take (l - min l (length b)) (concat bs) \<and> l' \<le> length (concat r) \<and>
        length (concat v') + l' = l - min l (length b)"
      using 2(1) [OF _ b(1) v'(1)] b 2(3) by auto
    then show ?thesis using b v'(2) by (cases "l \<le> length b") (auto simp: min_def)
  qed
qed auto

lemma prepare_iovec_total: "l \<le> length (concat bufs) \<Longrightarrow> prepare_iovec k l bufs \<noteq> None"
proof (induction k l bufs rule: prepare_iovec.induct)
  case (2 k l bufs)
  show ?case
  proof (cases bufs)
    case Nil
    with 2(2) show ?thesis by simp
  next
    case (Cons b bs)
    then have "prepare_iovec k (l - min l (length b)) bs \<noteq> None" if "l \<noteq> 0"
      using that 2(2) by (intro 2(1)) (auto simp: min_def)
    with Cons show ?thesis by (cases "l = 0") (auto split: option.split)
  qed
qed simp

text \<open>Everything goes out in order, the suffix last, up to where the connection breaks.\<close>

lemma write_loop_octets:
  assumes w: "writes_prefix writev sent" and "l \<le> length (concat bufs)" "len = l + length sfx" "0 < l"
    and "sfx = (case suffix of None \<Rightarrow> [] | Some s \<Rightarrow> s)"
  shows "\<exists>left c'. write_loop writev len l bufs suffix c = Some (left, c') \<and> left \<le> len \<and>
    sent c' = sent c @ take (len - left) (take l (concat bufs) @ sfx) \<and> (never_fails writev \<longrightarrow> left = 0)"
  using assms(2-5)
proof (induction "length bufs" arbitrary: len l bufs c rule: less_induct)
  case less
  obtain v l' r where p: "prepare_iovec (KGL_RQ_WRITE_BUF_COUNT - 1) l bufs = Some (v, l', r)"
    using prepare_iovec_total [OF less(2)] by (metis not_None_eq prod_cases3)
  note o = prepare_iovec_octets [OF p less(2)]
  have shorter: "length r < length bufs"
    using p less(4) by (intro prepare_iovec_shorter [of "KGL_RQ_WRITE_BUF_COUNT - 2" l bufs v l'])
      (simp_all add: KGL_RQ_WRITE_BUF_COUNT_def numeral_eq_Suc del: prepare_iovec.simps)
  define v' where "v' = (if l' = 0 then v @ (case suffix of None \<Rightarrow> [] | Some s \<Rightarrow> [s]) else v)"
  have cv: "concat v' = (if l' = 0 then concat v @ sfx else concat v)"
    using less(5) by (auto simp: v'_def split: option.splits)
  obtain got ok c1 where wr: "writev c v' = (got, ok, c1)" by (cases "writev c v'") auto
  with w have g: "got \<le> length (concat v')" "ok \<longleftrightarrow> got = length (concat v')" "sent c1 = sent c @ take got (concat v')"
    by (auto simp: writes_prefix_def)
  have eq: "write_loop writev len l bufs suffix c =
      (if \<not> ok then Some (len - got, c1) else write_loop writev (len - got) l' r suffix c1)"
    using less(4) unfolding write_loop.simps [of writev len l bufs suffix c] p option.case prod.case Let_def
    unfolding v'_def [symmetric] wr prod.case by simp
  have len: "length (concat v') \<le> len" using o cv less(3) by auto
  show ?case
  proof (cases "ok \<and> 0 < l'")
    case True
    then have cv': "concat v' = concat v" "len - got = l' + length sfx" using cv g o less(3) by auto
    from less(1) [OF shorter, of l' "len - got" c1] o True cv'(2) less(5)
    obtain left c' where IH: "write_loop writev (len - got) l' r suffix c1 = Some (left, c')" "left \<le> len - got"
      "sent c' = sent c1 @ take (len - got - left) (take l' (concat r) @ sfx)" "never_fails writev \<longrightarrow> left = 0"
      by blast
    have "take (len - left) (take l (concat bufs) @ sfx) = concat v @ take (len - got - left) (take l' (concat r) @ sfx)"
    proof -
      have "take l (concat bufs) @ sfx = concat v @ (take l' (concat r) @ sfx)"
        unfolding o [THEN conjunct1, symmetric] by simp
      moreover have "len - left = length (concat v) + (len - got - left)" using g True cv' IH(2) len by simp
      moreover have "take (length xs + k) (xs @ ys) = xs @ take k ys" for xs ys :: "byte list" and k by simp
      ultimately show ?thesis by (simp only:)
    qed
    with IH True eq g cv' show ?thesis by (auto intro: exI [of _ left])
  next
    case False
    have "take got (concat v') = take got (take l (concat bufs) @ sfx)"
    proof -
      have "take l (concat bufs) @ sfx = concat v @ (take l' (concat r) @ sfx)"
        unfolding o [THEN conjunct1, symmetric] by simp
      then show ?thesis using g(1) cv by (cases "l' = 0") simp_all
    qed
    moreover have "write_loop writev (len - got) 0 r suffix c1 = Some (len - got, c1)" by (simp add: write_loop.simps)
    then have "write_loop writev len l bufs suffix c = Some (len - got, c1)" using False eq by (cases ok) simp_all
    moreover have "len - got = 0" if "never_fails writev"
    proof -
      have ok using that wr by (metis fst_conv never_fails_def snd_conv)
      then have "got = length (concat v) + length sfx" "l' = 0" using False cv g(2) by simp_all
      with o less(2,3) show ?thesis by simp
    qed
    moreover have "len - (len - got) = got" using g(1) len by simp
    ultimately show ?thesis using g(3) by simp
  qed
qed

lemma write_buf_octets:
  assumes "writes_prefix writev sent" "len \<le> length (concat bufs)" "0 < len"
    and "sfx = (case suffix of None \<Rightarrow> [] | Some s \<Rightarrow> s)"
  shows "\<exists>left c'. write_buf writev bufs len suffix c = Some (left, c') \<and> left \<le> len + length sfx \<and>
    sent c' = sent c @ take (len + length sfx - left) (take len (concat bufs) @ sfx) \<and> (never_fails writev \<longrightarrow> left = 0)"
proof -
  have "(case suffix of None \<Rightarrow> 0 | Some s \<Rightarrow> length s) = length sfx" using assms(4) by (simp split: option.split)
  then show ?thesis unfolding write_buf_def using write_loop_octets [OF assms(1,2) refl assms(3,4)] by simp
qed

section \<open>The sink\<close>

text \<open>
  \<^verbatim>\<open>h_rc\<close> is the chain of \<^verbatim>\<open>KResponseContext\<close>, its first buffer the status line.
\<close>

record 'c h1_sink =
  h_conn :: 'c
  h_rc :: "byte list list"
  h_flags :: u32
  h_response_left :: int
  h_send_size :: int
  h_status :: nat
  h_meth :: nat
  h_version :: "16 word"

abbreviation RQ_CONNECTION_UPGRADE :: u32 where "RQ_CONNECTION_UPGRADE \<equiv> 0x4000"
abbreviation RQ_TE_CHUNKED :: u32 where "RQ_TE_CHUNKED \<equiv> 0x100000"
abbreviation RQ_HAS_SEND_HEADER :: u32 where "RQ_HAS_SEND_HEADER \<equiv> 0x400000"
abbreviation RQ_CONNECTION_CLOSE :: u32 where "RQ_CONNECTION_CLOSE \<equiv> 0x2000000"
abbreviation RQ_HAS_SEND_CHUNK_0 :: u32 where "RQ_HAS_SEND_CHUNK_0 \<equiv> 0x10000000"

definition has_flag :: "u32 \<Rightarrow> 'c h1_sink \<Rightarrow> bool" where
  "has_flag f k \<longleftrightarrow> h_flags k AND f \<noteq> 0"

definition put_flag :: "u32 \<Rightarrow> 'c h1_sink \<Rightarrow> 'c h1_sink" where
  "put_flag f k = k\<lparr>h_flags := h_flags k OR f\<rparr>"

text \<open>The length of a buffer is passed as \<^verbatim>\<open>uint16_t\<close>.\<close>

definition rc_head_append :: "byte list \<Rightarrow> 'c h1_sink \<Rightarrow> 'c h1_sink" where
  "rc_head_append str k = k\<lparr>h_rc := h_rc k @ [take (length str mod 65536) str]\<rparr>"

definition rc_head_insert :: "byte list \<Rightarrow> 'c h1_sink \<Rightarrow> 'c h1_sink" where
  "rc_head_insert str k = k\<lparr>h_rc := take (length str mod 65536) str # h_rc k\<rparr>"

definition rc_get_len :: "'c h1_sink \<Rightarrow> nat" where
  "rc_get_len k = length (concat (h_rc k))"

definition rc_clean :: "'c h1_sink \<Rightarrow> 'c h1_sink" where
  "rc_clean k = k\<lparr>h_rc := []\<rparr>"

text \<open>
  Octets of the body that went out are taken off the declared length. \<open>None\<close> is the failed assertion that no more
  went out than was declared.
\<close>

definition on_success_response :: "int \<Rightarrow> 'c h1_sink \<Rightarrow> 'c h1_sink option" where
  "on_success_response len k = (
     if len > 0 then
       (let left = h_response_left k in
        if left \<ge> 0 \<and> \<not> left \<ge> len then None
        else Some (k\<lparr>h_send_size := h_send_size k + len,
          h_response_left := (if left \<ge> 0 then (if left - len < 0 then 0 else left - len) else left)\<rparr>))
     else Some k)"

text \<open>A write returns the octets left, 0 for success.\<close>

definition internal_write :: "'c writev \<Rightarrow> byte list list \<Rightarrow> nat \<Rightarrow> byte list option \<Rightarrow> 'c h1_sink \<Rightarrow> (nat \<times> 'c h1_sink) option" where
  "internal_write writev bufs len suffix k = (
     if h_rc k \<noteq> [] then
       (case write_buf writev (h_rc k @ bufs) (rc_get_len k + len) suffix (h_conn k) of
          None \<Rightarrow> None
        | Some (left, c) \<Rightarrow> map_option (Pair left) (on_success_response (int len - int left) (rc_clean (k\<lparr>h_conn := c\<rparr>))))
     else
       (case write_buf writev bufs len suffix (h_conn k) of
          None \<Rightarrow> None
        | Some (left, c) \<Rightarrow> map_option (Pair left) (on_success_response (int len - int left) (k\<lparr>h_conn := c\<rparr>))))"

text \<open>The line before a chunk, \<^verbatim>\<open>sprintf(header, "%x\r\n", len)\<close>.\<close>

definition chunk_header :: "nat \<Rightarrow> byte list" where
  "chunk_header len = hex len @ [13, 10]"

text \<open>\<^verbatim>\<open>write_all\<close> of a chain of buffers, of which \<^verbatim>\<open>len\<close> octets are to be sent.\<close>

definition write_all_bufs :: "'c writev \<Rightarrow> byte list list \<Rightarrow> nat \<Rightarrow> 'c h1_sink \<Rightarrow> (nat \<times> 'c h1_sink) option" where
  "write_all_bufs writev bufs len k = (
     if has_flag RQ_TE_CHUNKED k then
       internal_write writev (chunk_header len # bufs) (len + length (chunk_header len)) (Some [13, 10]) k
     else internal_write writev bufs len None k)"

definition write_all_chunked :: "'c writev \<Rightarrow> byte list \<Rightarrow> 'c h1_sink \<Rightarrow> (nat \<times> 'c h1_sink) option" where
  "write_all_chunked writev str k =
     internal_write writev [chunk_header (length str), str] (length str + length (chunk_header (length str))) (Some [13, 10]) k"

text \<open>
  Without pending headers and chunks a string goes out in single writes, each of which may take only a
  part of it. \<open>write\<close> stands for \<^verbatim>\<open>kfiber_net_write\<close>: what it took, at most 0 for an error.
\<close>

type_synonym 'c net_write = "'c \<Rightarrow> byte list \<Rightarrow> int \<times> 'c"

definition takes_prefix :: "'c net_write \<Rightarrow> ('c \<Rightarrow> byte list) \<Rightarrow> bool" where
  "takes_prefix write sent \<longleftrightarrow> (\<forall>c str got c'. write c str = (got, c') \<longrightarrow>
     got \<le> int (length str) \<and> sent c' = sent c @ take (nat got) str)"

function write_single :: "'c net_write \<Rightarrow> byte list \<Rightarrow> 'c h1_sink \<Rightarrow> (nat \<times> 'c h1_sink) option" where
  "write_single write str k = (
     if str = [] then Some (0, k)
     else case write (h_conn k) str of (got, c) \<Rightarrow>
       (case on_success_response got (k\<lparr>h_conn := c\<rparr>) of
          None \<Rightarrow> None
        | Some k \<Rightarrow> if got \<le> 0 then Some (length str, k) else write_single write (drop (nat got) str) k))"
  by pat_completeness auto
termination
  by (relation "measure (\<lambda>(w, str, k). length str)") auto

declare write_single.simps [simp del]

definition write_all :: "'c writev \<Rightarrow> 'c net_write \<Rightarrow> byte list \<Rightarrow> 'c h1_sink \<Rightarrow> (nat \<times> 'c h1_sink) option" where
  "write_all writev write str k = (
     if has_flag RQ_TE_CHUNKED k then write_all_chunked writev str k
     else if h_rc k \<noteq> [] then internal_write writev [str] (length str) None k
     else write_single write str k)"

text \<open>The end of the body: what is pending, then the last chunk, or the end of the trailers.\<close>

definition end_request :: "'c writev \<Rightarrow> 'c h1_sink \<Rightarrow> 'c h1_sink option" where
  "end_request writev k = (
     case (if h_rc k \<noteq> [] then write_buf writev (h_rc k) (rc_get_len k) None (h_conn k) else Some (0, h_conn k)) of
       None \<Rightarrow> None
     | Some (left, c) \<Rightarrow>
         let k = k\<lparr>h_conn := c\<rparr> in
         if left \<noteq> 0 then Some (put_flag RQ_CONNECTION_CLOSE k)
         else if h_response_left k > 0 then Some (put_flag RQ_CONNECTION_CLOSE k)
         else let k = rc_clean k in
           if has_flag RQ_TE_CHUNKED k \<and> h_response_left k = - 1 then
             (let buf = (if has_flag RQ_HAS_SEND_CHUNK_0 k then [13, 10] else [48, 13, 10, 13, 10]);
                  k = (if has_flag RQ_HAS_SEND_CHUNK_0 k then k else put_flag RQ_HAS_SEND_CHUNK_0 k)
              in case writev (h_conn k) [buf] of
                   (_, ok, c) \<Rightarrow> Some (if ok then k\<lparr>h_conn := c\<rparr> else put_flag RQ_CONNECTION_CLOSE (k\<lparr>h_conn := c\<rparr>)))
           else Some k)"

definition response_trailer :: "'c writev \<Rightarrow> byte list \<Rightarrow> byte list \<Rightarrow> 'c h1_sink \<Rightarrow> bool \<times> 'c h1_sink" where
  "response_trailer writev name val k = (
     if \<not> has_flag RQ_TE_CHUNKED k then (True, k)
     else
       let first = (if has_flag RQ_HAS_SEND_CHUNK_0 k then [] else [[48, 13, 10]]);
           k = (if has_flag RQ_HAS_SEND_CHUNK_0 k then k else put_flag RQ_HAS_SEND_CHUNK_0 k)
       in case writev (h_conn k) (first @ [name, [58, 32], val, [13, 10]]) of
            (_, ok, c) \<Rightarrow> (ok, k\<lparr>h_conn := c\<rparr>))"

text \<open>
  \<^verbatim>\<open>sendfile\<close> of the next octets of a file: the pending head, then the octets alone, or in a chunk the
  size line, the octets and the \<^verbatim>\<open>sizeof("\r\n")\<close> octets of the string literal, its terminator included.
  The files are written by \<open>send\<close>, \<^verbatim>\<open>kfiber_sendfile\<close>, and by \<open>writev\<close> for \<^verbatim>\<open>kfiber_sendfile_full\<close>.
\<close>

definition sendfile_chunk :: "'c writev \<Rightarrow> byte list \<Rightarrow> 'c h1_sink \<Rightarrow> (int \<times> 'c h1_sink) option" where
  "sendfile_chunk writev file k = (
     case writev (h_conn k) [chunk_header (length file)] of (_, ok1, c1) \<Rightarrow>
     if \<not> ok1 then Some (- 1, k\<lparr>h_conn := c1\<rparr>)
     else case writev c1 [file] of (_, ok2, c2) \<Rightarrow>
     if \<not> ok2 then Some (- 1, k\<lparr>h_conn := c2\<rparr>)
     else case writev c2 [[13, 10, 0]] of (_, ok3, c3) \<Rightarrow>
     if \<not> ok3 then Some (- 1, k\<lparr>h_conn := c3\<rparr>)
     else map_option (Pair (int (length file)))
            (on_success_response (int (length file + length (chunk_header (length file)) + 2)) (k\<lparr>h_conn := c3\<rparr>)))"

definition sendfile :: "'c writev \<Rightarrow> 'c net_write \<Rightarrow> byte list \<Rightarrow> 'c h1_sink \<Rightarrow> (int \<times> 'c h1_sink) option" where
  "sendfile writev send file k = (
     case (if h_rc k \<noteq> [] then write_buf writev (h_rc k) (rc_get_len k) None (h_conn k) else Some (0, h_conn k)) of
       None \<Rightarrow> None
     | Some (left, c) \<Rightarrow>
         let k = rc_clean (k\<lparr>h_conn := c\<rparr>) in
         if left \<noteq> 0 then Some (0, k)
         else if \<not> has_flag RQ_TE_CHUNKED k then
           (case send (h_conn k) file of (got, c) \<Rightarrow> map_option (Pair got) (on_success_response got (k\<lparr>h_conn := c\<rparr>)))
         else sendfile_chunk writev file k)"

section \<open>The response head\<close>

text \<open>The table \<^verbatim>\<open>kgl_header_type_string\<close>: the HTTP/2 spelling of a name is its lower case, the HTTP/1 prefix its full line start.\<close>

fun header_string :: "kgl_header_type \<Rightarrow> string" where
  "header_string kgl_header_host = ''Host''"
| "header_string kgl_header_accept_encoding = ''Accept-Encoding''"
| "header_string kgl_header_range = ''Range''"
| "header_string kgl_header_server = ''Server''"
| "header_string kgl_header_date = ''Date''"
| "header_string kgl_header_content_length = ''Content-Length''"
| "header_string kgl_header_last_modified = ''Last-Modified''"
| "header_string kgl_header_etag = ''Etag''"
| "header_string kgl_header_content_range = ''Content-Range''"
| "header_string kgl_header_content_type = ''Content-Type''"
| "header_string kgl_header_set_cookie = ''Set-Cookie''"
| "header_string kgl_header_pragma = ''Pragma''"
| "header_string kgl_header_cache_control = ''Cache-Control''"
| "header_string kgl_header_vary = ''Vary''"
| "header_string kgl_header_age = ''Age''"
| "header_string kgl_header_transfer_encoding = ''Transfer-Encoding''"
| "header_string kgl_header_content_encoding = ''Content-Encoding''"
| "header_string kgl_header_expires = ''Expires''"
| "header_string kgl_header_location = ''Location''"
| "header_string kgl_header_keep_alive = ''Keep-Alive''"
| "header_string kgl_header_alt_svc = ''Alt-Svc''"
| "header_string kgl_header_connection = ''Connection''"
| "header_string kgl_header_upgrade = ''Upgrade''"
| "header_string kgl_header_expect = ''Expect''"
| "header_string kgl_header_status = ''Status''"
| "header_string kgl_header_if_range = ''If-Range''"
| "header_string kgl_header_if_modified_since = ''If-Modified-Since''"
| "header_string kgl_header_if_none_match = ''If-None-Match''"
| "header_string kgl_header_if_match = ''If-Match''"
| "header_string kgl_header_if_unmodified_since = ''If-Unmodified-Since''"
| "header_string kgl_header_cookie = ''Cookie''"
| "header_string kgl_header_scheme = '':scheme''"
| "header_string kgl_header_referer = ''Referer''"
| "header_string kgl_header_user_agent = ''User-Agent''"
| "header_string kgl_header_unknow = ''Unknow''"

definition header_http11 :: "kgl_header_type \<Rightarrow> byte list" where
  "header_http11 t = [13, 10] @ bytes (header_string t) @ [58, 32]"

definition status_lines :: "(nat \<times> string) list" where
  "status_lines =
     [(100, ''HTTP/1.1 100 Continue''), (101, ''HTTP/1.1 101 Switching Protocols''),
      (102, ''HTTP/1.1 102 Processing''), (200, ''HTTP/1.1 200 OK''), (201, ''HTTP/1.1 201 Created''),
      (202, ''HTTP/1.1 202 Accepted''), (203, ''HTTP/1.1 203 Non-Authoritative Information''),
      (204, ''HTTP/1.1 204 No Content''), (205, ''HTTP/1.1 205 Reset Content''),
      (206, ''HTTP/1.1 206 Partial Content''), (207, ''HTTP/1.1 207 Multi-status''),
      (208, ''HTTP/1.1 208 Already Reported''), (226, ''HTTP/1.1 226 IM Used''),
      (300, ''HTTP/1.1 300 Multiple Choices''), (301, ''HTTP/1.1 301 Moved Permanently''),
      (302, ''HTTP/1.1 302 Found''), (303, ''HTTP/1.1 303 See Other''), (304, ''HTTP/1.1 304 Not Modified''),
      (305, ''HTTP/1.1 305 Use Proxy''), (306, ''HTTP/1.1 306 (Unused)''),
      (307, ''HTTP/1.1 307 Temporary Redirect''), (308, ''HTTP/1.1 308 Permanent Redirect''),
      (400, ''HTTP/1.1 400 Bad Request''), (401, ''HTTP/1.1 401 Unauthorized''),
      (402, ''HTTP/1.1 402 Payment Required''), (403, ''HTTP/1.1 403 Forbidden''),
      (404, ''HTTP/1.1 404 Not Found''), (405, ''HTTP/1.1 405 Method Not Allowed''),
      (406, ''HTTP/1.1 406 Not Acceptable''), (407, ''HTTP/1.1 407 Proxy Authentication Required''),
      (408, ''HTTP/1.1 408 Request Timeout''), (409, ''HTTP/1.1 409 Conflict''), (410, ''HTTP/1.1 410 Gone''),
      (411, ''HTTP/1.1 411 Length Required''), (412, ''HTTP/1.1 412 Precondition Failed''),
      (413, ''HTTP/1.1 413 Request Entity Too Large''), (414, ''HTTP/1.1 414 Request-URI Too Long''),
      (415, ''HTTP/1.1 415 Unsupported Media Type''), (416, ''HTTP/1.1 416 Requested Range Not Satisfiable''),
      (417, ''HTTP/1.1 417 Expectation Failed''), (420, ''HTTP/1.1 420 Method Failure''),
      (421, ''HTTP/1.1 421 Misdirected Request''), (422, ''HTTP/1.1 422 Unprocessable Entity''),
      (423, ''HTTP/1.1 423 Locked''), (424, ''HTTP/1.1 424 Failed Dependency''),
      (426, ''HTTP/1.1 426 Upgrade Required''), (428, ''HTTP/1.1 428 Precondition Required''),
      (429, ''HTTP/1.1 429 Too Many Requests''), (431, ''HTTP/1.1 431 Request Header Fields Too Large''),
      (451, ''HTTP/1.1 451 Unavailable For Legal Reasons''), (497, ''HTTP/1.1 497 Http to Https''),
      (498, ''HTTP/1.1 498 Invalid Token''), (499, ''HTTP/1.1 499 Token Required''),
      (500, ''HTTP/1.1 500 Internal Server Error''), (501, ''HTTP/1.1 501 Not Implemented''),
      (502, ''HTTP/1.1 502 Bad Gateway''), (503, ''HTTP/1.1 503 Service Not Available''),
      (504, ''HTTP/1.1 504 Gateway Timeout''), (505, ''HTTP/1.1 505 HTTP Version Not Supported''),
      (507, ''HTTP/1.1 507 Insufficient Storage''), (508, ''HTTP/1.1 508 Loop Detected''),
      (509, ''HTTP/1.1 509 Bandwidth Limit Exceeded''), (510, ''HTTP/1.1 510 Not Extended''),
      (511, ''HTTP/1.1 511 Network Authentication Required'')]"

definition get_request_line :: "nat \<Rightarrow> byte list" where
  "get_request_line status = (
     case map_of status_lines status of
       Some line \<Rightarrow> bytes line
     | None \<Rightarrow> bytes ''HTTP/1.1 '' @ decimal status @ bytes '' unknow'')"

definition response_status :: "nat \<Rightarrow> 'c h1_sink \<Rightarrow> bool \<times> 'c h1_sink" where
  "response_status status_code k = (
     if h_status k > 0 then (False, k)
     else (True, rc_head_insert (get_request_line status_code) (k\<lparr>h_status := status_code\<rparr>)))"

definition response_header :: "kgl_header_type \<Rightarrow> byte list \<Rightarrow> 'c h1_sink \<Rightarrow> 'c h1_sink" where
  "response_header t val k = rc_head_append val (rc_head_append (header_http11 t) k)"

definition response_header_named :: "byte list \<Rightarrow> byte list \<Rightarrow> 'c h1_sink \<Rightarrow> 'c h1_sink" where
  "response_header_named name val k = rc_head_append ([13, 10] @ name @ [58, 32] @ val) k"

text \<open>With the proxy compiled in, a tunnel gets no connection header.\<close>

definition response_connection :: "bool \<Rightarrow> 'c h1_sink \<Rightarrow> 'c h1_sink" where
  "response_connection http_proxy k = (
     if http_proxy \<and> h_meth k = METH_CONNECT then k
     else if has_flag RQ_CONNECTION_UPGRADE k then response_header kgl_header_connection (bytes ''upgrade'') k
     else if has_flag RQ_CONNECTION_CLOSE k \<or> \<not> has_flag RQ_HAS_KEEP_CONNECTION k then
       response_header kgl_header_connection (bytes ''close'') k
     else if h_version k > 0x100 then k
     else response_header kgl_header_connection (bytes ''keep-alive'') k)"

text \<open>The head goes out with the first octets of the body, or at once for an upgrade and an interim response.\<close>

definition internal_start_response_body ::
  "'c writev \<Rightarrow> bool \<Rightarrow> byte list option \<Rightarrow> int \<Rightarrow> bool \<Rightarrow> 'c h1_sink \<Rightarrow> (int \<times> 'c h1_sink) option" where
  "internal_start_response_body writev http_proxy altsvc body_size is_100_continue k = (
     let k = (if is_100_continue then k else response_connection http_proxy k) in
     if h_rc k = [] then Some (0, k)
     else
       let k = k\<lparr>h_response_left := body_size\<rparr>;
           k = (case altsvc of None \<Rightarrow> k | Some v \<Rightarrow> response_header kgl_header_alt_svc v k);
           k = rc_head_append [13, 10, 13, 10] k
       in if has_flag RQ_CONNECTION_UPGRADE k \<or> is_100_continue then
            (case write_buf writev (h_rc k) (rc_get_len k) None (h_conn k) of
               None \<Rightarrow> None
             | Some (left, c) \<Rightarrow>
                 if left \<noteq> 0 then Some (- 1, k\<lparr>h_conn := c\<rparr>)
                 else Some (int (rc_get_len k), rc_clean (k\<lparr>h_conn := c\<rparr>)))
          else Some (int (rc_get_len k), k))"

definition is_status_code_no_body :: "nat \<Rightarrow> bool" where
  "is_status_code_no_body status_code \<longleftrightarrow> status_code = 100 \<or> status_code = 304 \<or> status_code = 204"

text \<open>The head is sent once: \<open>None\<close> is also the failed assertion that it was not sent before.\<close>

definition start_response_body ::
  "'c writev \<Rightarrow> bool \<Rightarrow> byte list option \<Rightarrow> int \<Rightarrow> 'c h1_sink \<Rightarrow> (bool \<times> 'c h1_sink) option" where
  "start_response_body writev http_proxy altsvc body_len k = (
     if has_flag RQ_HAS_SEND_HEADER k then None
     else
       let k = put_flag RQ_HAS_SEND_HEADER k;
           (body_len, k) =
             (if \<not> is_status_code_no_body (h_status k) then
                (body_len,
                 if body_len \<ge> 0 then response_header kgl_header_content_length (decimal (nat body_len)) k
                 else if h_version k = 0x100 then put_flag RQ_CONNECTION_CLOSE k
                 else if \<not> has_flag RQ_CONNECTION_UPGRADE k then
                   put_flag RQ_TE_CHUNKED (response_header kgl_header_transfer_encoding (bytes ''chunked'') k)
                 else k)
              else (0, k));
           body_len = (if h_meth k = METH_HEAD then 0 else body_len)
       in map_option (\<lambda>(n, k). (n \<ge> 0, k))
            (internal_start_response_body writev http_proxy altsvc body_len False k))"

section \<open>Chunked bodies\<close>

lemma on_success_fields:
  assumes "on_success_response n k = Some k'"
  shows "h_conn k' = h_conn k" "h_flags k' = h_flags k" "h_rc k' = h_rc k"
    "h_response_left k = - 1 \<Longrightarrow> h_response_left k' = - 1"
  using assms by (auto simp: on_success_response_def Let_def split: if_splits)

lemma on_success_unlimited:
  "h_response_left k = - 1 \<Longrightarrow> \<exists>k'. on_success_response n k = Some k' \<and> h_conn k' = h_conn k \<and> h_flags k' = h_flags k \<and>
     h_rc k' = h_rc k \<and> h_response_left k' = - 1"
  by (simp add: on_success_response_def Let_def)

lemma writev_all:
  assumes "writes_prefix writev sent" "never_fails writev"
  shows "\<exists>n c'. writev c bufs = (n, True, c') \<and> sent c' = sent c @ concat bufs"
proof -
  obtain n ok c' where w: "writev c bufs = (n, ok, c')" by (cases "writev c bufs") auto
  with assms(2) have ok by (metis fst_conv never_fails_def snd_conv)
  moreover from w assms(1) have "ok \<longleftrightarrow> n = length (concat bufs)" "sent c' = sent c @ take n (concat bufs)"
    unfolding writes_prefix_def by blast+
  ultimately show ?thesis using w by simp
qed

lemma write_all_chunked_octets:
  assumes "writes_prefix writev sent" "never_fails writev" "h_response_left k = - 1"
  shows "\<exists>k'. write_all_chunked writev str k = Some (0, k') \<and>
    sent (h_conn k') = sent (h_conn k) @ concat (h_rc k) @ encode_chunk str \<and> h_rc k' = [] \<and> h_flags k' = h_flags k \<and>
    h_response_left k' = - 1"
proof -
  let ?b = "[chunk_header (length str), str]" and ?len = "length str + length (chunk_header (length str))"
  have enc: "encode_chunk str = concat ?b @ [13, 10]" by (simp add: encode_chunk_def chunk_header_def)
  have pos: "0 < length (chunk_header n)" for n by (simp add: chunk_header_def)
  obtain c' where c': "write_buf writev (h_rc k @ ?b) (rc_get_len k + ?len) (Some [13, 10]) (h_conn k) = Some (0, c')"
      "sent c' = sent (h_conn k) @ concat (h_rc k) @ concat ?b @ [13, 10]"
    using write_buf_octets [OF assms(1), of "rc_get_len k + ?len" "h_rc k @ ?b" "[13, 10]" "Some [13, 10]" "h_conn k"]
      assms(2) pos by (auto simp: rc_get_len_def)
  let ?k = "k\<lparr>h_conn := c', h_rc := []\<rparr>"
  obtain k' where k': "on_success_response (int ?len) ?k = Some k'" "h_conn k' = c'" "h_flags k' = h_flags k" "h_rc k' = []"
    "h_response_left k' = - 1" using on_success_unlimited [of ?k "int ?len"] assms(3) by auto
  have same: "k\<lparr>h_conn := c'\<rparr> = ?k" if "h_rc k = []" using that by (cases k) simp
  have "write_all_chunked writev str k = Some (0, k')"
    using c'(1) k'(1) same by (cases "h_rc k = []") (simp_all add: write_all_chunked_def internal_write_def rc_clean_def rc_get_len_def)
  with k' c'(2) show ?thesis unfolding enc by simp
qed

fun write_pieces :: "'c writev \<Rightarrow> byte list list \<Rightarrow> 'c h1_sink \<Rightarrow> 'c h1_sink option" where
  "write_pieces writev [] k = Some k"
| "write_pieces writev (d # ds) k = (
     case write_all_chunked writev d k of
       Some (0, k') \<Rightarrow> write_pieces writev ds k'
     | _ \<Rightarrow> None)"

lemma write_pieces_octets:
  assumes "writes_prefix writev sent" "never_fails writev" "h_response_left k = - 1"
  shows "\<exists>k'. write_pieces writev ds k = Some k' \<and> h_flags k' = h_flags k \<and> h_response_left k' = - 1 \<and>
    sent (h_conn k') @ concat (h_rc k') = sent (h_conn k) @ concat (h_rc k) @ concat (map encode_chunk ds)"
  using assms(3)
proof (induction ds arbitrary: k)
  case (Cons d ds)
  obtain k1 where k1: "write_all_chunked writev d k = Some (0, k1)"
    "sent (h_conn k1) = sent (h_conn k) @ concat (h_rc k) @ encode_chunk d" "h_rc k1 = []" "h_flags k1 = h_flags k"
    "h_response_left k1 = - 1"
    using write_all_chunked_octets [OF assms(1,2) Cons.prems, of d] by blast
  with Cons.IH [of k1] show ?case by auto
qed simp

lemma end_request_chunked:
  assumes "writes_prefix writev sent" "never_fails writev" "has_flag RQ_TE_CHUNKED k" "\<not> has_flag RQ_HAS_SEND_CHUNK_0 k"
    and "h_response_left k = - 1"
  shows "\<exists>k'. end_request writev k = Some k' \<and> sent (h_conn k') = sent (h_conn k) @ concat (h_rc k) @ [48, 13, 10, 13, 10]"
proof -
  have "\<exists>c'. (if h_rc k \<noteq> [] then write_buf writev (h_rc k) (rc_get_len k) None (h_conn k) else Some (0, h_conn k)) = Some (0, c') \<and>
      sent c' = sent (h_conn k) @ concat (h_rc k)"
  proof (cases "rc_get_len k = 0")
    case True
    then show ?thesis by (auto simp: write_buf_def write_loop.simps rc_get_len_def)
  next
    case False
    then show ?thesis
      using write_buf_octets [OF assms(1), of "rc_get_len k" "h_rc k" "[]" None "h_conn k"] assms(2)
      by (auto simp: rc_get_len_def)
  qed
  then obtain c' where c': "(if h_rc k \<noteq> [] then write_buf writev (h_rc k) (rc_get_len k) None (h_conn k) else Some (0, h_conn k)) = Some (0, c')"
    "sent c' = sent (h_conn k) @ concat (h_rc k)" by blast
  obtain n c'' where "writev c' [[48, 13, 10, 13, 10]] = (n, True, c'')" "sent c'' = sent c' @ [48, 13, 10, 13, 10]"
    using writev_all [OF assms(1,2), of c' "[[48, 13, 10, 13, 10]]"] by auto
  with c' assms(3-5) show ?thesis
    by (auto simp: end_request_def Let_def has_flag_def rc_clean_def put_flag_def)
qed

lemma sendfile_chunk_octets:
  assumes "writes_prefix writev sent" "never_fails writev" "h_response_left k = - 1"
  shows "\<exists>k'. sendfile_chunk writev file k = Some (int (length file), k') \<and>
    sent (h_conn k') = sent (h_conn k) @ encode_chunk file @ [0]"
proof -
  obtain n1 c1 where 1: "writev (h_conn k) [chunk_header (length file)] = (n1, True, c1)"
    "sent c1 = sent (h_conn k) @ chunk_header (length file)"
    using writev_all [OF assms(1,2), of "h_conn k" "[chunk_header (length file)]"] by auto
  obtain n2 c2 where 2: "writev c1 [file] = (n2, True, c2)" "sent c2 = sent c1 @ file"
    using writev_all [OF assms(1,2), of c1 "[file]"] by auto
  obtain n3 c3 where 3: "writev c2 [[13, 10, 0]] = (n3, True, c3)" "sent c3 = sent c2 @ [13, 10, 0]"
    using writev_all [OF assms(1,2), of c2 "[[13, 10, 0]]"] by auto
  obtain k' where "on_success_response (int (length file + length (chunk_header (length file)) + 2)) (k\<lparr>h_conn := c3\<rparr>) = Some k'"
    "h_conn k' = c3" using on_success_unlimited [of "k\<lparr>h_conn := c3\<rparr>"] assms(3) by (metis h1_sink.select_convs(1) h1_sink.select_convs(4) h1_sink.surjective h1_sink.update_convs(1))
  with 1 2 3 show ?thesis by (simp add: sendfile_chunk_def encode_chunk_def chunk_header_def)
qed

section \<open>Bodies of a declared length\<close>

text \<open>What has to be counted of the body that is still owed, and that every octet goes out in order.\<close>

definition owes :: "('c \<Rightarrow> byte list) \<Rightarrow> 'c h1_sink \<Rightarrow> byte list \<Rightarrow> nat \<Rightarrow> bool" where
  "owes sent k out n \<longleftrightarrow> sent (h_conn k) @ concat (h_rc k) = out \<and> h_response_left k = int n \<and>
     \<not> has_flag RQ_TE_CHUNKED k \<and> \<not> has_flag RQ_CONNECTION_CLOSE k"

lemma on_success_left:
  "h_response_left k = int n \<Longrightarrow> 0 \<le> len \<Longrightarrow> len \<le> int n \<Longrightarrow>
   \<exists>k'. on_success_response len k = Some k' \<and> h_conn k' = h_conn k \<and> h_flags k' = h_flags k \<and> h_rc k' = h_rc k \<and>
     h_response_left k' = int (n - nat len)"
  by (auto simp: on_success_response_def Let_def)

lemma write_single_owes:
  assumes "takes_prefix write sent" "\<forall>c str. str \<noteq> [] \<longrightarrow> 0 < fst (write c str)" "owes sent k out n" "h_rc k = []"
    and "length str \<le> n"
  shows "\<exists>k'. write_single write str k = Some (0, k') \<and> owes sent k' (out @ str) (n - length str) \<and> h_rc k' = []"
  using assms(3-5)
proof (induction "length str" arbitrary: str k out n rule: less_induct)
  case less
  show ?case
  proof (cases "str = []")
    case True
    with less(2,3) show ?thesis by (simp add: write_single.simps)
  next
    case False
    obtain got c where w: "write (h_conn k) str = (got, c)" by fastforce
    with assms(1,2) False have g: "0 < got" "got \<le> int (length str)" "sent c = sent (h_conn k) @ take (nat got) str"
      unfolding takes_prefix_def by (metis fst_conv)+
    have "h_response_left (k\<lparr>h_conn := c\<rparr>) = int n" "got \<le> int n" using less(2,4) g by (simp_all add: owes_def)
    from on_success_left [OF this(1) _ this(2)] g(1) obtain k1 where k1: "on_success_response got (k\<lparr>h_conn := c\<rparr>) = Some k1"
      "h_conn k1 = c" "h_flags k1 = h_flags k" "h_rc k1 = h_rc k" "h_response_left k1 = int (n - nat got)" by auto
    have "owes sent k1 (out @ take (nat got) str) (n - nat got)" "h_rc k1 = []"
      using less(2,3) g k1 by (auto simp: owes_def has_flag_def)
    have "length (drop (nat got) str) < length str" "length (drop (nat got) str) \<le> n - nat got" using g(1) False less(4) by auto
    from less(1) [OF this(1) \<open>owes sent k1 _ _\<close> \<open>h_rc k1 = []\<close> this(2)]
    obtain k' where "write_single write (drop (nat got) str) k1 = Some (0, k')"
      "owes sent k' (out @ take (nat got) str @ drop (nat got) str) (n - nat got - length (drop (nat got) str))" "h_rc k' = []"
      by auto
    moreover have "n - nat got - (length str - nat got) = n - length str" using g(1,2) by linarith
    moreover have "write_single write str k = write_single write (drop (nat got) str) k1"
      using False w g(1) k1(1) by (subst write_single.simps) simp
    ultimately show ?thesis by simp
  qed
qed

lemma write_all_owes:
  assumes "writes_prefix writev sent" "never_fails writev"
    and "takes_prefix write sent" "\<forall>c str. str \<noteq> [] \<longrightarrow> 0 < fst (write c str)" "owes sent k out n"
    and "length str \<le> n"
  shows "\<exists>k'. write_all writev write str k = Some (0, k') \<and> owes sent k' (out @ str) (n - length str)"
proof (cases "h_rc k = []")
  case True
  with write_single_owes [OF assms(3-5) True assms(6)] assms(5) show ?thesis by (auto simp: write_all_def owes_def)
next
  case False
  have "\<exists>c'. write_buf writev (h_rc k @ [str]) (rc_get_len k + length str) None (h_conn k) = Some (0, c') \<and>
      sent c' = sent (h_conn k) @ concat (h_rc k) @ str"
  proof (cases "rc_get_len k + length str = 0")
    case True
    then show ?thesis by (auto simp: write_buf_def write_loop.simps rc_get_len_def)
  next
    case False
    then show ?thesis
      using write_buf_octets [OF assms(1), of "rc_get_len k + length str" "h_rc k @ [str]" "[]" None "h_conn k"] assms(2)
      by (auto simp: rc_get_len_def)
  qed
  then obtain c' where c': "write_buf writev (h_rc k @ [str]) (rc_get_len k + length str) None (h_conn k) = Some (0, c')"
    "sent c' = sent (h_conn k) @ concat (h_rc k) @ str" by blast
  let ?k = "k\<lparr>h_conn := c', h_rc := []\<rparr>"
  have "h_response_left ?k = int n" "int (length str) \<le> int n" using assms(5,6) by (simp_all add: owes_def)
  from on_success_left [OF this(1) _ this(2)] obtain k' where "on_success_response (int (length str)) ?k = Some k'"
    "h_conn k' = c'" "h_flags k' = h_flags k" "h_rc k' = []" "h_response_left k' = int (n - length str)" by auto
  with False assms(5) c' show ?thesis by (auto simp: write_all_def owes_def internal_write_def rc_clean_def has_flag_def)
qed

fun write_bodies :: "'c writev \<Rightarrow> 'c net_write \<Rightarrow> byte list list \<Rightarrow> 'c h1_sink \<Rightarrow> 'c h1_sink option" where
  "write_bodies writev write [] k = Some k"
| "write_bodies writev write (d # ds) k = (
     case write_all writev write d k of
       Some (0, k') \<Rightarrow> write_bodies writev write ds k'
     | _ \<Rightarrow> None)"

lemma write_bodies_owes:
  assumes "writes_prefix writev sent" "never_fails writev"
    and "takes_prefix write sent" "\<forall>c str. str \<noteq> [] \<longrightarrow> 0 < fst (write c str)" "owes sent k out n" "length (concat ds) \<le> n"
  shows "\<exists>k'. write_bodies writev write ds k = Some k' \<and> owes sent k' (out @ concat ds) (n - length (concat ds))"
  using assms(5,6)
proof (induction ds arbitrary: k out n)
  case (Cons d ds)
  obtain k1 where k1: "write_all writev write d k = Some (0, k1)" "owes sent k1 (out @ d) (n - length d)"
    using write_all_owes [OF assms(1-4) Cons(2), of d] Cons(3) by auto
  from Cons(1) [OF k1(2)] k1(1) Cons(3) show ?case by simp
qed simp

lemma end_request_owes:
  assumes "writes_prefix writev sent" "never_fails writev" "owes sent k out n"
  shows "\<exists>k'. end_request writev k = Some k' \<and> sent (h_conn k') = out \<and> (has_flag RQ_CONNECTION_CLOSE k' \<longleftrightarrow> 0 < n)"
proof -
  have "\<exists>c'. (if h_rc k \<noteq> [] then write_buf writev (h_rc k) (rc_get_len k) None (h_conn k) else Some (0, h_conn k)) = Some (0, c') \<and>
      sent c' = out"
  proof (cases "rc_get_len k = 0")
    case True
    then show ?thesis using assms(3) by (auto simp: write_buf_def write_loop.simps rc_get_len_def owes_def)
  next
    case False
    then show ?thesis
      using write_buf_octets [OF assms(1), of "rc_get_len k" "h_rc k" "[]" None "h_conn k"] assms(2,3)
      by (auto simp: rc_get_len_def owes_def)
  qed
  then show ?thesis using assms(3)
    by (auto simp: end_request_def Let_def has_flag_def rc_clean_def put_flag_def owes_def bit.conj_disj_distrib2)
qed

section \<open>Properties\<close>

text \<open>
  A chunked response comes back as its body. If the connection takes everything, the pieces
  written with \<^verbatim>\<open>write_all\<close> and the \<^verbatim>\<open>end_request\<close> after them put the response head and then an encoding on
  the wire from which the chunk decoder of the library, however the network cuts it and whatever
  the buffer sizes of its reader, returns exactly these pieces and then the end of the body.
\<close>

theorem chunked_response_decodes:
  assumes "writes_prefix writev sent" "never_fails writev" "has_flag RQ_TE_CHUNKED k" "\<not> has_flag RQ_HAS_SEND_CHUNK_0 k"
    and "h_response_left k = - 1" "sent (h_conn k) = []" "\<forall>d \<in> set ds. d \<noteq> [] \<and> length d \<le> 0x1FFFFFFF"
  shows "\<exists>k1 k2. write_pieces writev ds k = Some k1 \<and> end_request writev k1 = Some k2 \<and>
    (\<forall>ns net. concat (h_rc k) @ concat net = sent (h_conn k2) \<and> [] \<notin> set net \<and> (\<forall>n \<in> set ns. room_ok n) \<and> length (concat ds) < length ns \<longrightarrow>
       (\<exists>c' net'. read_all ns \<lparr>dc_chunk = KHTTPD_CHUNK_STATUS_READ_SIZE, dc_buf = [], dc_trailer = []\<rparr> net =
          (concat ds, Some Read_End, c', net') \<and> dc_buf c' @ concat net' = []))"
proof -
  obtain k1 where k1: "write_pieces writev ds k = Some k1" "h_flags k1 = h_flags k" "h_response_left k1 = - 1"
    "sent (h_conn k1) @ concat (h_rc k1) = concat (h_rc k) @ concat (map encode_chunk ds)"
    using write_pieces_octets [OF assms(1,2,5), of ds] assms(6) by auto
  then have "has_flag RQ_TE_CHUNKED k1" "\<not> has_flag RQ_HAS_SEND_CHUNK_0 k1" using assms(3,4) by (simp_all add: has_flag_def)
  then obtain k2 where k2: "end_request writev k1 = Some k2"
    "sent (h_conn k2) = sent (h_conn k1) @ concat (h_rc k1) @ [48, 13, 10, 13, 10]"
    using end_request_chunked [OF assms(1,2)] k1(3) by blast
  then have "sent (h_conn k2) = concat (h_rc k) @ encode_chunked ds" using k1(4) by (simp add: encode_chunked_def)
  then have "\<exists>c' net'. read_all ns \<lparr>dc_chunk = KHTTPD_CHUNK_STATUS_READ_SIZE, dc_buf = [], dc_trailer = []\<rparr> net =
          (concat ds, Some Read_End, c', net') \<and> dc_buf c' @ concat net' = []"
    if "concat (h_rc k) @ concat net = sent (h_conn k2)" "[] \<notin> set net" "\<forall>n \<in> set ns. room_ok n" "length (concat ds) < length ns" for ns net
    using that assms(7)
    by (intro read_chunked) auto
  with k1 k2 show ?thesis by blast
qed

definition wire_writev :: "byte list \<Rightarrow> byte list list \<Rightarrow> nat \<times> bool \<times> byte list" where
  "wire_writev c bufs = (length (concat bufs), True, c @ concat bufs)"

definition wire_write :: "byte list \<Rightarrow> byte list \<Rightarrow> int \<times> byte list" where
  "wire_write c str = (int (min 2 (length str)), c @ take 2 str)"

definition wire_sink :: "u32 \<Rightarrow> int \<Rightarrow> byte list h1_sink" where
  "wire_sink flags left = \<lparr>h_conn = [], h_rc = [[72, 13, 10], [13, 10]], h_flags = flags, h_response_left = left,
     h_send_size = 0, h_status = 200, h_meth = 1, h_version = 0x101\<rparr>"

lemma wire_ok: "writes_prefix wire_writev (\<lambda>c. c)" "never_fails wire_writev" "takes_prefix wire_write (\<lambda>c. c)"
  "\<forall>c str. str \<noteq> [] \<longrightarrow> 0 < fst (wire_write c str)"
  by (auto simp: writes_prefix_def never_fails_def takes_prefix_def wire_writev_def wire_write_def min_def)

theorem chunked_response_decodes_witness:
  "\<exists>k1 k2. write_pieces wire_writev [[97, 98], [99]] (wire_sink RQ_TE_CHUNKED (- 1)) = Some k1 \<and> end_request wire_writev k1 = Some k2 \<and>
    (\<forall>ns net. concat (h_rc (wire_sink RQ_TE_CHUNKED (- 1))) @ concat net = (\<lambda>c. c) (h_conn k2) \<and> [] \<notin> set net \<and>
        (\<forall>n \<in> set ns. room_ok n) \<and> length (concat [[97 :: byte, 98], [99]]) < length ns \<longrightarrow>
       (\<exists>c' net'. read_all ns \<lparr>dc_chunk = KHTTPD_CHUNK_STATUS_READ_SIZE, dc_buf = [], dc_trailer = []\<rparr> net =
          (concat [[97, 98], [99]], Some Read_End, c', net') \<and> dc_buf c' @ concat net' = []))"
  by (rule chunked_response_decodes [OF wire_ok(1,2)]) (simp_all add: wire_sink_def has_flag_def)

text \<open>
  C16: a response of a declared length, of which no more is written than was declared. If the
  connection takes everything, in pieces as it likes, no assertion fails, what arrives is the head and
  then the body in order, and at the end of the request the connection is to be closed exactly when
  octets of the declared length were not written, so that no later response is read as the rest of
  this one.
\<close>

theorem declared_length_response:
  assumes "writes_prefix writev sent" "never_fails writev"
    and "takes_prefix write sent" "\<forall>c str. str \<noteq> [] \<longrightarrow> 0 < fst (write c str)"
    and "\<not> has_flag RQ_TE_CHUNKED k" "\<not> has_flag RQ_CONNECTION_CLOSE k" "h_response_left k = int n"
    and "length (concat ds) \<le> n"
  shows "\<exists>k1 k2. write_bodies writev write ds k = Some k1 \<and> end_request writev k1 = Some k2 \<and>
    sent (h_conn k2) = sent (h_conn k) @ concat (h_rc k) @ concat ds \<and>
    (has_flag RQ_CONNECTION_CLOSE k2 \<longleftrightarrow> length (concat ds) < n)"
proof -
  have "owes sent k (sent (h_conn k) @ concat (h_rc k)) n" using assms(5-7) by (simp add: owes_def)
  from write_bodies_owes [OF assms(1-4) this assms(8)] obtain k1 where k1: "write_bodies writev write ds k = Some k1"
    "owes sent k1 ((sent (h_conn k) @ concat (h_rc k)) @ concat ds) (n - length (concat ds))" by blast
  from end_request_owes [OF assms(1,2) k1(2)] k1(1) show ?thesis by auto
qed

theorem declared_length_response_witness:
  "\<exists>k1 k2. write_bodies wire_writev wire_write [[97, 98], [99, 100, 101]] (wire_sink 0 (int 6)) = Some k1 \<and>
    end_request wire_writev k1 = Some k2 \<and>
    (\<lambda>c. c) (h_conn k2) = (\<lambda>c. c) (h_conn (wire_sink 0 (int 6))) @ concat (h_rc (wire_sink 0 (int 6))) @ concat [[97, 98], [99, 100, 101]] \<and>
    (has_flag RQ_CONNECTION_CLOSE k2 \<longleftrightarrow> length (concat [[97 :: byte, 98], [99, 100, 101]]) < 6)"
  by (rule declared_length_response [OF wire_ok]) (simp_all add: wire_sink_def has_flag_def)

text \<open>
  Writing more than was declared fails an assertion, after the octets have gone out.
\<close>

lemma too_long_body_aborts:
  assumes "writes_prefix writev sent" "never_fails writev" "owes sent k out n" "h_rc k \<noteq> []" "n < length str"
  shows "write_all writev write str k = None"
proof -
  have "str \<noteq> []" using assms(5) by auto
  then have "0 < rc_get_len k + length str" by simp
  with write_buf_octets [OF assms(1), of "rc_get_len k + length str" "h_rc k @ [str]" "[]" None "h_conn k"] assms(2)
  obtain c' where "write_buf writev (h_rc k @ [str]) (rc_get_len k + length str) None (h_conn k) = Some (0, c')"
    by (auto simp: rc_get_len_def)
  with assms(3-5) \<open>str \<noteq> []\<close> show ?thesis
    by (simp add: write_all_def owes_def internal_write_def rc_clean_def on_success_response_def Let_def)
qed

end
