(* ===== verification/KHttp2Upstream.thy ===== *)
theory KHttp2Upstream
  imports KHttp1Response KHttp2Block
begin

unbundle bit_operations_syntax

text \<open>
  The HTTP/2 client (\<^verbatim>\<open>src/KHttp2Upstream.cpp\<close>, \<^verbatim>\<open>include/KHttp2Upstream.h\<close> and the client's part of
  \<^verbatim>\<open>src/KHttp2.cpp\<close>): opening a stream on a connection, writing the fields of a request and sending
  them. The frame it sends is proved to be one that a server reads as the request.
\<close>

section \<open>Streams\<close>

text \<open>The connection of a client counts its own streams; a stream has a number once its head has been sent.\<close>

record h2_client = h2_conn +
  c_last_self_sid :: u32
  c_has_admin_stream :: bool

record h2_upstream =
  hu_ctx :: h2_stream
  hu_node :: "u32 option"
  hu_admin_stream :: bool
  hu_has_upgrade :: bool
  hu_has_expect :: bool

definition NewClientStream :: "bool \<Rightarrow> h2_client \<Rightarrow> h2_upstream" where
  "NewClientStream admin c = \<lparr>hu_ctx = stream_Init (int32 (c_init_window c)), hu_node = None, hu_admin_stream = admin,
     hu_has_upgrade = False, hu_has_expect = False\<rparr>"

definition h2_connect :: "h2_client \<Rightarrow> h2_upstream option \<times> h2_client" where
  "h2_connect c = (
     if c_peer_goaway c \<or> c_self_goaway c \<or> c_last_self_sid c > 655360 then (None, c)
     else if c_processing c + 1 \<ge> c_max_stream c + 1 then (None, c)
     else let c = c\<lparr>c_processing := c_processing c + 1\<rparr> in (Some (NewClientStream False c), c))"

definition get_admin_stream :: "h2_client \<Rightarrow> h2_upstream option \<times> h2_client" where
  "get_admin_stream c = (
     if c_has_admin_stream c \<or> c_self_goaway c \<or> c_peer_goaway c then (None, c)
     else let c = c\<lparr>c_has_admin_stream := True, c_processing := c_processing c + 1\<rparr> in (Some (NewClientStream True c), c))"

definition preface :: "byte list" where
  "preface = bytes ''PRI * HTTP/2.0'' @ [13, 10, 13, 10] @ bytes ''SM'' @ [13, 10, 13, 10]"

definition h2_client_start :: "h2_upstream \<times> h2_client" where
  "h2_client_start = (
     let c = h2_conn.extend h2_init \<lparr>c_last_self_sid = 1, c_has_admin_stream = True\<rparr>;
         c = c\<lparr>c_processing := c_processing c + 1\<rparr>;
         c = push_buffer [plain_buffer preface] c;
         c = send_settings c;
         (ok, c) = send_window_update 0 (KGL_HTTP_V2_CONNECTION_RECV_WINDOW - KGL_HTTP_V2_DEFAULT_WINDOW) c;
         c = (if ok then start_write c else c)
     in (NewClientStream True c, c))"

section \<open>The fields\<close>

text \<open>\<^verbatim>\<open>ctx->send_header\<close>, created when it is not there.\<close>

definition hu_fields :: "h2_upstream \<Rightarrow> header_frame" where
  "hu_fields us = (case st_send_header (hu_ctx us) of None \<Rightarrow> [] | Some hf \<Rightarrow> hf)"

definition put_fields :: "header_frame \<Rightarrow> h2_upstream \<Rightarrow> h2_upstream" where
  "put_fields hf us = us\<lparr>hu_ctx := (hu_ctx us)\<lparr>st_send_header := Some hf\<rparr>\<rparr>"

text \<open>\<open>None\<close> is the failed assertion that no field has been written.\<close>

definition add_method :: "nat \<Rightarrow> h2_upstream \<Rightarrow> h2_upstream option" where
  "add_method mt us = (
     if st_send_header (hu_ctx us) \<noteq> None then None
     else Some (put_fields (
       if mt = METH_GET then hf_write [128 + 2] []
       else if mt = 3 then hf_write [128 + 3] []
       else hf_string (get_method_name (int mt)) (hf_write [64 + 2] [])) us))"

definition hu_send_header :: "byte list \<Rightarrow> byte list \<Rightarrow> h2_upstream \<Rightarrow> h2_upstream" where
  "hu_send_header attr val us = put_fields (add_header_name attr val (hu_fields us)) us"

definition hu_send_header_type :: "kgl_header_type \<Rightarrow> byte list \<Rightarrow> h2_upstream \<Rightarrow> h2_upstream" where
  "hu_send_header_type name val us = (
     if name = kgl_header_expect then hu_send_header (bytes ''Expect'') val (us\<lparr>hu_has_expect := True\<rparr>)
     else if name = kgl_header_upgrade \<and> hu_has_upgrade us then hu_send_header (bytes '':protocol'') val us
     else hu_send_header (bytes (header_string name)) val us)"

definition hu_set_content_length :: "int \<Rightarrow> h2_upstream \<Rightarrow> h2_upstream" where
  "hu_set_content_length content_length us = (
     if hu_has_upgrade us then us else us\<lparr>hu_ctx := set_content_length content_length (hu_ctx us)\<rparr>)"

text \<open>The method is passed on as \<^verbatim>\<open>uint8_t\<close>.\<close>

definition hu_send_method_path :: "nat \<Rightarrow> byte list \<Rightarrow> h2_upstream \<Rightarrow> h2_upstream option" where
  "hu_send_method_path mt path us = (
     case add_method (mt mod 256) us of
       None \<Rightarrow> None
     | Some us \<Rightarrow>
         let us = (if mt = METH_CONNECT then us\<lparr>hu_has_upgrade := True, hu_ctx := set_content_length (- 1) (hu_ctx us)\<rparr> else us)
         in Some (hu_send_header (bytes '':path'') path us))"

definition hu_send_host :: "byte list \<Rightarrow> h2_upstream \<Rightarrow> h2_upstream" where
  "hu_send_host host us = hu_send_header (bytes '':authority'') host us"

section \<open>Sending\<close>

text \<open>
  \<^verbatim>\<open>KHttp2::send_header\<close> for a client: the stream gets its number, the next odd one, with the first
  header block. \<open>None\<close> is a failed assertion.
\<close>

definition client_send_header :: "(nat \<Rightarrow> frame_header) \<Rightarrow> bool \<Rightarrow> h2_upstream \<Rightarrow> h2_client \<Rightarrow> (h2_upstream \<times> h2_client) option" where
  "client_send_header junk body_end us c = (
     if st_send_header (hu_ctx us) = None then None
     else if \<not> c_read_processing c then Some (us, c)
     else if hu_node us \<noteq> None \<and> \<not> st_write_trailer (hu_ctx us) then None
     else
       let (sid, c) = (case hu_node us of
             Some sid \<Rightarrow> (sid, c)
           | None \<Rightarrow>
               let c = c\<lparr>c_last_self_sid := c_last_self_sid c + 2\<rparr>; sid = c_last_self_sid c
               in (sid, c\<lparr>c_index := snd (get_node sid (Some None) (c_index c))\<rparr>));
           (s, c) = send_header junk sid (hu_ctx us) body_end c
       in Some (us\<lparr>hu_ctx := s, hu_node := Some sid\<rparr>, put_stream sid s c))"

text \<open>
  \<^verbatim>\<open>read_header\<close> up to where the fiber waits for the response: the head is sent, with the end of the
  stream when there is no body.
\<close>

definition hu_read_header_send :: "(nat \<Rightarrow> frame_header) \<Rightarrow> h2_upstream \<Rightarrow> h2_client \<Rightarrow> (h2_upstream \<times> h2_client) option" where
  "hu_read_header_send junk us c = (
     if st_send_header (hu_ctx us) \<noteq> None then client_send_header junk (st_content_left (hu_ctx us) = 0) us c
     else Some (us, c))"

definition hu_send_trailer :: "(nat \<Rightarrow> frame_header) \<Rightarrow> byte list \<Rightarrow> byte list \<Rightarrow> h2_upstream \<Rightarrow> h2_client \<Rightarrow> (h2_upstream \<times> h2_client) option" where
  "hu_send_trailer junk name val us c = (
     if \<not> st_write_trailer (hu_ctx us) then
       if st_content_left (hu_ctx us) \<noteq> - 1 then None
       else
         case (if st_send_header (hu_ctx us) \<noteq> None then client_send_header junk False us c else Some (us, c)) of
           None \<Rightarrow> None
         | Some (us, c) \<Rightarrow> Some (hu_send_header name val (us\<lparr>hu_ctx := (hu_ctx us)\<lparr>st_write_trailer := True\<rparr>\<rparr>), c)
     else Some (hu_send_header name val us, c))"

section \<open>What the fields mean\<close>

text \<open>The representation the client chooses for a method and for a field.\<close>

definition method_field :: "nat \<Rightarrow> wire_field" where
  "method_field mt = (
     if mt = METH_GET then Indexed_Field 2
     else if mt = 3 then Indexed_Field 3
     else Literal_Field Indexing (Name_Index 2) (Wire_String False (get_method_name (int mt))))"

definition header_fields :: "byte list \<Rightarrow> byte list \<Rightarrow> wire_field list" where
  "header_fields name val = (
     if length name = 6 \<and> strcaseeq name (bytes ''cookie'') then [Literal_Field Indexing (Name_Index 32) (Wire_String False val)]
     else if skip_upgrade name val then []
     else [Literal_Field Without_Indexing (Name_String (Wire_String False (map kgl_tolower name))) (Wire_String False val)])"

lemma block_octets_append: "block_octets (fs @ gs) = block_octets fs @ block_octets gs"
  by (induction fs) (simp_all add: block_octets_Cons block_octets_def)

lemma first_octets:
  "kind_int Indexing 32 = [96]" "kind_int Indexing 2 = [66]" "kind_int Without_Indexing 0 = [0]"
  "write_int 0x80 127 2 = [130]" "write_int 0x80 127 3 = [131]"
  by (simp_all add: kind_int_def write_int_def)

lemma header_fields_octets:
  assumes "chunks_ok hf"
  shows "concat (add_header_name name val hf) = concat hf @ block_octets (header_fields name val) \<and> chunks_ok (add_header_name name val hf)"
  using add_header_octets [OF assms, of name val]
  by (simp add: header_fields_def block_octets_def literal_string_def first_octets)

lemma method_field_octets:
  assumes "st_send_header (hu_ctx us) = None"
  obtains hf where "add_method mt us = Some (put_fields hf us)" "concat hf = block_octets [method_field mt]" "chunks_ok hf"
proof -
  have ok: "chunks_ok []" by (simp add: chunks_ok_def)
  have w: "concat (hf_write b []) = b" "chunks_ok (hf_write b [])" for b using hf_write_ok [OF ok, of b] by simp_all
  let ?hf = "if mt = METH_GET then hf_write [128 + 2] [] else if mt = 3 then hf_write [128 + 3] []
    else hf_string (get_method_name (int mt)) (hf_write [64 + 2] [])"
  show ?thesis
  proof (rule that [of ?hf])
    show "concat ?hf = block_octets [method_field mt]"
      using w hf_string_ok [OF w(2), of "get_method_name (int mt)" "[64 + 2]"]
      by (simp add: method_field_def block_octets_def literal_string_def first_octets)
    show "chunks_ok ?hf" using w hf_string_ok [OF w(2), of "get_method_name (int mt)" "[64 + 2]"] by simp
  qed (use assms in \<open>simp add: add_method_def\<close>)
qed

text \<open>Fields that name only entries of the static table mean the same under every header table.\<close>

fun static_field :: "wire_field \<Rightarrow> bool" where
  "static_field (Indexed_Field i) = (0 < i \<and> i \<le> 61)"
| "static_field (Literal_Field k (Name_Index i) (Wire_String huff v)) = (0 < i \<and> i \<le> 61 \<and> \<not> huff \<and> length v \<le> 4096)"
| "static_field (Literal_Field k (Name_String (Wire_String hn n)) (Wire_String huff v)) =
     (\<not> hn \<and> n \<noteq> [] \<and> length n \<le> 4096 \<and> \<not> huff \<and> length v \<le> 4096)"

fun static_meaning :: "wire_field \<Rightarrow> header" where
  "static_meaning (Indexed_Field i) = kgl_http_v2_static_table ! (i - 1)"
| "static_meaning (Literal_Field k (Name_Index i) (Wire_String huff v)) = (fst (kgl_http_v2_static_table ! (i - 1)), v)"
| "static_meaning (Literal_Field k (Name_String (Wire_String hn n)) (Wire_String huff v)) = (n, v)"

lemma static_get: "0 < i \<Longrightarrow> i \<le> 61 \<Longrightarrow> spec_get table i = Some (kgl_http_v2_static_table ! (i - 1))"
  by (auto simp: spec_get_def nth_append static_table_length)

lemma static_field_meaning: "static_field f \<Longrightarrow> \<exists>table'. spec_field limit table f = Some (table', static_meaning f)"
  by (cases f rule: static_field.cases) (auto simp: static_get name_value_def)

lemma static_block_meaning:
  "\<forall>f \<in> set fs. static_field f \<Longrightarrow> \<exists>table'. spec_block limit table fs = Some (table', map static_meaning fs)"
proof (induction fs arbitrary: table)
  case (Cons f fs)
  then obtain t1 where "spec_field limit table f = Some (t1, static_meaning f)" using static_field_meaning by fastforce
  with Cons show ?case by fastforce
qed simp

definition header_meaning :: "byte list \<Rightarrow> byte list \<Rightarrow> header list" where
  "header_meaning name val = (
     if length name = 6 \<and> strcaseeq name (bytes ''cookie'') then [(bytes ''cookie'', val)]
     else if skip_upgrade name val then []
     else [(map kgl_tolower name, val)])"

lemma header_fields_meaning:
  assumes "name \<noteq> []" "length name \<le> 4096" "length val \<le> 4096"
  shows "\<forall>f \<in> set (header_fields name val). static_field f" "map static_meaning (header_fields name val) = header_meaning name val"
  using assms by (auto simp: header_fields_def header_meaning_def kgl_http_v2_static_table_def bytes_def of_char_def)

lemma method_names_short: "length (get_method_name i) \<le> 4096"
proof -
  have "\<forall>m \<in> set http_methods. length m \<le> 4096" by (simp add: http_methods_def bytes_def)
  moreover have "length http_methods = 34" by (simp add: http_methods_def)
  ultimately show ?thesis by (simp add: get_method_name_def nat_less_iff)
qed

lemma method_field_meaning:
  "static_field (method_field mt)" "static_meaning (method_field mt) = (bytes '':method'', get_method_name (int mt))"
  using method_names_short [of "int mt"]
  by (auto simp: method_field_def kgl_http_v2_static_table_def get_method_name_def http_methods_def bytes_def of_char_def)

section \<open>The frame\<close>

lemma header_buffers_octets:
  assumes "fs \<noteq> []"
  shows "concat (map hb_octets (header_buffers fin fs)) = map Octet (hf_wire fs)"
proof -
  let ?bufs = "concat (map (\<lambda>(h, cs). plain_buffer (frame_header_bytes h) # map plain_buffer cs) fs)"
  have ne: "?bufs \<noteq> []" using assms by (cases fs) auto
  have o: "hb_octets (plain_buffer d) = map Octet d" for d by (simp add: hb_octets_def plain_buffer_def)
  have "concat (map hb_octets ?bufs) = map Octet (hf_wire fs)"
  proof (induction fs)
    case (Cons f fs)
    have "concat (map hb_octets (map plain_buffer cs)) = map Octet (concat cs)" for cs by (induction cs) (simp_all add: o)
    with Cons show ?case by (cases f) (simp add: hf_wire_def o)
  qed (simp add: hf_wire_def)
  moreover have "concat (map hb_octets (butlast ?bufs @ [(last ?bufs)\<lparr>hb_nodelay := fin\<rparr>])) =
      concat (map hb_octets (butlast ?bufs @ [last ?bufs]))" by (simp add: hb_octets_def)
  ultimately show ?thesis unfolding header_buffers_def Let_def append_butlast_last_id [OF ne] by (simp only:)
qed

lemma one_frame_wire:
  assumes "length (concat cs) \<le> mx" "concat cs = block_octets fs"
  shows "hf_create junk sid fin mx cs \<noteq> []" "hf_wire (hf_create junk sid fin mx cs) = headers_frame sid fin fs"
proof -
  have c: "hf_create junk sid fin mx cs = [((set_header sid (length (concat cs)) KGL_HTTP_V2_HEADERS_FRAME
      (if fin then zero_header\<lparr>fh_flags := KGL_HTTP_V2_END_STREAM_FLAG\<rparr> else zero_header))
      \<lparr>fh_flags := fh_flags (if fin then zero_header\<lparr>fh_flags := KGL_HTTP_V2_END_STREAM_FLAG\<rparr> else zero_header) OR KGL_HTTP_V2_END_HEADERS_FLAG\<rparr>, cs)]"
    unfolding hf_create_def using hf_create_loop_fits [of 0 cs mx] assms(1) by simp
  then show "hf_create junk sid fin mx cs \<noteq> []" by simp
  show "hf_wire (hf_create junk sid fin mx cs) = headers_frame sid fin fs"
    using assms(2) unfolding c
    by (simp add: hf_wire_def headers_frame_def set_header_def zero_header_def KGL_HTTP_V2_HEADERS_FRAME_def
        KGL_HTTP_V2_END_STREAM_FLAG_def KGL_HTTP_V2_END_HEADERS_FLAG_def)
qed

text \<open>A stream of a client whose fields have been written and not sent.\<close>

definition written :: "wire_field list \<Rightarrow> h2_upstream \<Rightarrow> bool" where
  "written fs us \<longleftrightarrow> hu_node us = None \<and> \<not> hu_has_upgrade us \<and>
     (\<exists>hf. st_send_header (hu_ctx us) = Some hf \<and> concat hf = block_octets fs \<and> chunks_ok hf)"

lemma hu_send_header_written:
  "written fs us \<Longrightarrow> written (fs @ header_fields name val) (hu_send_header name val us)"
  by (auto simp: written_def hu_send_header_def put_fields_def hu_fields_def header_fields_octets block_octets_append)

fun hu_send_headers :: "(byte list \<times> byte list) list \<Rightarrow> h2_upstream \<Rightarrow> h2_upstream" where
  "hu_send_headers [] us = us"
| "hu_send_headers ((n, v) # hs) us = hu_send_headers hs (hu_send_header n v us)"

lemma hu_send_headers_written:
  "written fs us \<Longrightarrow> written (fs @ concat (map (\<lambda>(n, v). header_fields n v) hs)) (hu_send_headers hs us)"
proof (induction hs arbitrary: fs us)
  case (Cons h hs)
  obtain n v where h: "h = (n, v)" by (cases h)
  from Cons.IH [OF hu_send_header_written [OF Cons.prems, of n v]] show ?case by (simp add: h)
qed simp

lemma client_send_header_frame:
  assumes "written fs us" "c_read_processing c" "length (block_octets fs) \<le> nat (c_frame_size c)" "sid = c_last_self_sid c + 2"
  obtains us' c' bufs where "client_send_header junk fin us c = Some (us', c')" "hu_node us' = Some sid"
    "c_pushed c' = c_pushed c @ [bufs]" "concat (map hb_octets bufs) = map Octet (headers_frame sid fin fs)" "c_last_self_sid c' = sid"
proof -
  obtain hf where hf: "st_send_header (hu_ctx us) = Some hf" "concat hf = block_octets fs" "hu_node us = None"
    using assms(1) by (auto simp: written_def)
  let ?c = "c\<lparr>c_last_self_sid := sid, c_index := snd (get_node sid (Some None) (c_index c))\<rparr>"
  let ?bufs = "header_buffers fin (hf_create junk sid fin (nat (c_frame_size c)) hf)"
  have sh: "send_header junk sid (hu_ctx us) fin ?c =
      ((hu_ctx us)\<lparr>st_send_header := None, st_out_closed := st_out_closed (hu_ctx us) \<or> fin\<rparr>, start_write (push_buffer ?bufs ?c))"
    using hf(1) assms(2) by (simp add: send_header_def)
  have "concat (map hb_octets ?bufs) = map Octet (headers_frame sid fin fs)"
    using one_frame_wire [of hf "nat (c_frame_size c)" fs junk sid fin] header_buffers_octets assms(3) hf(2) by simp
  moreover have "client_send_header junk fin us c = Some (us\<lparr>hu_ctx := (hu_ctx us)\<lparr>st_send_header := None, st_out_closed := st_out_closed (hu_ctx us) \<or> fin\<rparr>,
      hu_node := Some sid\<rparr>, put_stream sid ((hu_ctx us)\<lparr>st_send_header := None, st_out_closed := st_out_closed (hu_ctx us) \<or> fin\<rparr>)
        (start_write (push_buffer ?bufs ?c)))"
    using hf(1,3) assms(2,4) sh by (simp add: client_send_header_def Let_def)
  ultimately show ?thesis
    by (intro that) (auto simp: put_stream_def start_write_def push_buffer_def)
qed

section \<open>Properties\<close>

text \<open>
  C15: an HTTP/2 request from a client to a server. A client that names a method, a path and a host
  and sends fields puts one HEADERS frame on its next stream, closing the stream when there is no
  body; and a server between two frames, whatever is in its header table, reads exactly this frame
  and starts on that stream the request made of the method, the path, the host and the fields, names
  in lower case, with cookies joined.
\<close>

theorem h2_request_exchange:
  assumes us: "st_send_header (hu_ctx us) = None" "hu_node us = None" "\<not> hu_has_upgrade us" "c_read_processing cl"
    and req: "mt < 256" "mt \<noteq> METH_CONNECT" "length path \<le> 4096" "length host \<le> 4096"
      "\<forall>(n, v) \<in> set hs. n \<noteq> [] \<and> length n \<le> 4096 \<and> length v \<le> 4096"
    and fs: "fs = method_field mt # header_fields (bytes '':path'') path @ header_fields (bytes '':authority'') host @
      concat (map (\<lambda>(n, v). header_fields n v) hs)"
    and size: "length (block_octets fs) \<le> nat (c_frame_size cl)" "c_frame_size cl < 2 ^ 24"
    and sid: "sid = c_last_self_sid cl + 2" "odd (unat sid)" "unat sid < 2 ^ 31" "c_last_peer_sid c \<le> sid"
    and server: "at_frame c" "\<not> c_self_goaway c" "get_stream sid c = None" "memory_ok env" "env_expired env = []"
    and xs: "xs = (bytes '':method'', get_method_name (int mt)) # (bytes '':path'', path) # (bytes '':authority'', host) #
      concat (map (\<lambda>(n, v). header_meaning n v) hs)" "header_octets xs \<le> 1048576"
    and sink: "give_all (env_ssl env) xs (new_sink env) = Some k" "finish_request (env_ssl env) (len = 0) k = Some rq"
  shows "\<exists>us1 us2 cl' bufs wire table c'. hu_send_method_path mt path us = Some us1 \<and>
    hu_read_header_send junk (hu_set_content_length len (hu_send_headers hs (hu_send_host host us1))) cl = Some (us2, cl') \<and>
    hu_node us2 = Some sid \<and> c_pushed cl' = c_pushed cl @ [bufs] \<and> concat (map hb_octets bufs) = map Octet wire \<and>
    read_loop env (length fs + n) (wire @ rest) c = (if rest = [] then Some (Next c' []) else read_loop env n rest c') \<and>
    starts sid rq table (len = 0) (c\<lparr>c_last_peer_sid := sid\<rparr>) c'"
proof -
  obtain hf where hf: "add_method mt us = Some (put_fields hf us)" "concat hf = block_octets [method_field mt]" "chunks_ok hf"
    using method_field_octets [OF us(1)] by blast
  then have "written [method_field mt] (put_fields hf us)" using us(2,3) by (auto simp: written_def put_fields_def)
  from hu_send_header_written [OF this] have w1: "written ([method_field mt] @ header_fields (bytes '':path'') path)
      (hu_send_header (bytes '':path'') path (put_fields hf us))" .
  define us1 where "us1 = hu_send_header (bytes '':path'') path (put_fields hf us)"
  have us1: "hu_send_method_path mt path us = Some us1" using hf(1) req(1,2) by (simp add: hu_send_method_path_def us1_def)
  define us' where "us' = hu_set_content_length len (hu_send_headers hs (hu_send_host host us1))"
  have "written fs (hu_send_headers hs (hu_send_host host us1))"
    using hu_send_headers_written [OF hu_send_header_written [OF w1, of "bytes '':authority''" host], of hs]
    by (simp add: fs us1_def hu_send_host_def)
  then have w: "written fs us'" "st_content_left (hu_ctx us') = 0 \<longleftrightarrow> len = 0"
    by (auto simp: us'_def written_def hu_set_content_length_def set_content_length_def)
  obtain us2 cl' bufs where sent: "client_send_header junk (len = 0) us' cl = Some (us2, cl')" "hu_node us2 = Some sid"
    "c_pushed cl' = c_pushed cl @ [bufs]" "concat (map hb_octets bufs) = map Octet (headers_frame sid (len = 0) fs)"
    using client_send_header_frame [OF w(1) us(4) size(1) sid(1)] by blast
  have "hu_read_header_send junk us' cl = Some (us2, cl')"
    using w sent(1) by (auto simp: hu_read_header_send_def written_def)
  moreover have "\<forall>f \<in> set fs. static_field f" "map static_meaning fs = xs"
  proof -
    have p: "header_fields (bytes '':path'') path = [Literal_Field Without_Indexing (Name_String (Wire_String False (bytes '':path''))) (Wire_String False path)]"
      "header_fields (bytes '':authority'') host = [Literal_Field Without_Indexing (Name_String (Wire_String False (bytes '':authority''))) (Wire_String False host)]"
      by (simp_all add: header_fields_def skip_upgrade_def bytes_def of_char_def kgl_tolower_def)
    have h: "\<forall>f \<in> set (concat (map (\<lambda>(n, v). header_fields n v) hs)). static_field f"
      "map static_meaning (concat (map (\<lambda>(n, v). header_fields n v) hs)) = concat (map (\<lambda>(n, v). header_meaning n v) hs)"
      using req(5) by (induction hs) (auto simp: header_fields_meaning)
    show "\<forall>f \<in> set fs. static_field f" unfolding fs p using h(1) req(3,4) by (auto simp: method_field_meaning bytes_def)
    show "map static_meaning fs = xs" using h(2) by (simp add: fs p xs(1) method_field_meaning)
  qed
  then obtain table where "spec_block (max_size (r_hpack c)) (contents (r_hpack c)) fs = Some (table, xs)"
    using static_block_meaning [of fs] by metis
  moreover have "length (block_octets fs) < 2 ^ 24" "fs \<noteq> []" using size by (auto simp: fs)
  ultimately obtain c' where "read_loop env (length fs + n) (headers_frame sid (len = 0) fs @ rest) c =
      (if rest = [] then Some (Next c' []) else read_loop env n rest c')" "starts sid rq table (len = 0) (c\<lparr>c_last_peer_sid := sid\<rparr>) c'"
    using headers_frame_read [OF server(1-3) server(4,5) sid(2-4)] xs(2) sink by meson
  with us1 sent \<open>hu_read_header_send junk us' cl = Some (us2, cl')\<close> show ?thesis unfolding us'_def by blast
qed

definition demo_request :: request where
  "demo_request = (sk_request (new_sink demo_env))\<lparr>meth := 1, raw_url := (raw_url (sk_request (new_sink demo_env)))\<lparr>u_path := Some [47], u_host := Some [104], u_port := 80\<rparr>,
     rq_headers := [(Named [120], [121])]\<rparr>"

lemma demo_given:
  "give_all False [(bytes '':method'', get_method_name (int 1)), (bytes '':path'', bytes ''/''), (bytes '':authority'', bytes ''h''), ([120], [121])]
     (new_sink demo_env) = Some ((new_sink demo_env)\<lparr>sk_request := demo_request\<rparr>)"
proof -
  have g: "get_method (bytes ''GET'') = 1" by (simp add: get_method_def http_methods_def name_eval)
  show ?thesis
    by (simp add: demo_request_def new_sink_def demo_env_def parse_header_def pseudo_header_def parse_method_def g field_header_def name_eval add_header_def
        MAX_HEADER_ATTR_VAL_SIZE_def get_method_name_def http_methods_def parse_host_def lift_url_def parse_url_def parse_path_def kgl_strndup_def url0_def
        parse_url_host_def finish_host_def
        g [unfolded bytes_def of_char_def, simplified])
qed

theorem h2_request_exchange_witness:
  "\<exists>us1 us2 cl' bufs wire table c'. hu_send_method_path 1 (bytes ''/'') (fst h2_client_start) = Some us1 \<and>
    hu_read_header_send (\<lambda>_. zero_header) (hu_set_content_length 0 (hu_send_headers [(bytes ''X'', bytes ''y'')] (hu_send_host (bytes ''h'') us1)))
      (snd h2_client_start) = Some (us2, cl') \<and>
    hu_node us2 = Some 3 \<and> c_pushed cl' = c_pushed (snd h2_client_start) @ [bufs] \<and> concat (map hb_octets bufs) = map Octet wire \<and>
    read_loop demo_env 4 wire (h2_server\<lparr>r_handler := H_Head\<rparr>) = Some (Next c' []) \<and>
    starts 3 demo_request table True (h2_server\<lparr>r_handler := H_Head, c_last_peer_sid := 3\<rparr>) c'"
proof -
  let ?c = "h2_server\<lparr>r_handler := H_Head\<rparr>" and ?us = "fst h2_client_start" and ?cl = "snd h2_client_start"
  have us: "st_send_header (hu_ctx ?us) = None" "hu_node ?us = None" "\<not> hu_has_upgrade ?us" "c_read_processing ?cl"
    "c_last_self_sid ?cl = 1" "c_frame_size ?cl = 16384"
    by (simp_all add: h2_client_start_def NewClientStream_def stream_Init_def Let_def h2_conn.defs h2_init_def send_settings_def push_buffer_def
        start_write_def send_window_update_def KGL_HTTP_V2_CONNECTION_RECV_WINDOW_def KGL_HTTP_V2_MAX_WINDOW_def KGL_HTTP_V2_DEFAULT_WINDOW_def
        KGL_HTTP_V2_DEFAULT_FRAME_SIZE_def)
  have frame: "at_frame ?c" by (simp add: at_frame_def server_fields hp_inv_zero idle_fields_def index_ok_def streams_index_new_def)
  have none: "get_stream 3 ?c = None"
    by (simp add: get_stream_def server_fields find_node_def streams_index_new_def kgl_http_v2_index_def)
  have mem: "memory_ok demo_env" "env_expired demo_env = []" "env_ssl demo_env = False"
    by (simp_all add: memory_ok_def demo_env_def)
  have fin: "finish_request False True ((new_sink demo_env)\<lparr>sk_request := demo_request\<rparr>) = Some demo_request"
    by (simp add: finish_request_def new_sink_def)
  have x: "header_meaning (bytes ''X'') (bytes ''y'') = [([120], [121])]"
    by (simp add: header_meaning_def skip_upgrade_def bytes_def of_char_def kgl_tolower_def)
  define fs where "fs = method_field 1 # header_fields (bytes '':path'') (bytes ''/'') @ header_fields (bytes '':authority'') (bytes ''h'') @
      concat (map (\<lambda>(n, v). header_fields n v) [(bytes ''X'', bytes ''y'')])"
  have len: "length fs = 4" "length (block_octets fs) \<le> 16384"
    by (simp_all add: fs_def method_field_def header_fields_def skip_upgrade_def block_octets_def bytes_def of_char_def kgl_tolower_def
        kind_int_def write_int_def)
  define xs where "xs = (bytes '':method'', get_method_name (int 1)) # (bytes '':path'', bytes ''/'') # (bytes '':authority'', bytes ''h'') #
    concat (map (\<lambda>(n, v). header_meaning n v) [(bytes ''X'', bytes ''y'')])"
  have xs: "header_octets xs \<le> 1048576" "give_all (env_ssl demo_env) xs (new_sink demo_env) = Some ((new_sink demo_env)\<lparr>sk_request := demo_request\<rparr>)"
    using demo_given mem(3) unfolding xs_def list.map prod.case x concat.simps append_Nil2
    by (simp_all add: header_octets_def bytes_def get_method_name_def http_methods_def del: give_all.simps)
  have "\<exists>us1 us2 cl' bufs wire table c'. hu_send_method_path 1 (bytes ''/'') ?us = Some us1 \<and>
    hu_read_header_send (\<lambda>_. zero_header) (hu_set_content_length 0 (hu_send_headers [(bytes ''X'', bytes ''y'')] (hu_send_host (bytes ''h'') us1))) ?cl =
      Some (us2, cl') \<and> hu_node us2 = Some 3 \<and> c_pushed cl' = c_pushed ?cl @ [bufs] \<and> concat (map hb_octets bufs) = map Octet wire \<and>
    read_loop demo_env (length fs + 0) (wire @ []) ?c = (if [] = ([] :: byte list) then Some (Next c' []) else read_loop demo_env 0 [] c') \<and>
    starts 3 demo_request table (0 = (0 :: int)) (?c\<lparr>c_last_peer_sid := 3\<rparr>) c'"
    by (rule h2_request_exchange [OF us(1-4) _ _ _ _ _ fs_def _ _ _ _ _ _ frame _ none mem(1,2) xs_def xs])
      (use us(5,6) len(2) fin mem(3) in \<open>simp_all add: bytes_def server_fields\<close>)
  then show ?thesis by (simp add: len(1) del: read_loop.simps)
qed

end
