(* ===== verification/KStreams.thy ===== *)
theory KStreams
  imports KText KPrintf
begin

text \<open>
  Output streams and string buffers: the write loop of \<^verbatim>\<open>KWStream\<close> and the read loop of \<^verbatim>\<open>KRStream\<close>
  (\<^verbatim>\<open>src/KStream.cpp\<close>), the chunked buffer \<^verbatim>\<open>KAutoBuffer\<close>, the growing string \<^verbatim>\<open>KStringBuf\<close> with the
  bounds of its memory, and the scanner \<^verbatim>\<open>getString\<close> (\<^verbatim>\<open>src/KStringBuf.cpp\<close>).
\<close>

section \<open>Streams\<close>

text \<open>The loops over \<^verbatim>\<open>write\<close> and \<^verbatim>\<open>read\<close>, which may take or deliver less than asked for.\<close>

function write_all :: "(byte list \<Rightarrow> 's \<Rightarrow> int \<times> 's) \<Rightarrow> byte list \<Rightarrow> 's \<Rightarrow> bool \<times> 's" where
  "write_all wr buf s = (
     if buf = [] then (True, s)
     else case wr buf s of (r, s') \<Rightarrow> if r \<le> 0 then (False, s') else write_all wr (drop (nat r) buf) s')"
  by pat_completeness auto
termination by (relation "measure (\<lambda>(_, buf, _). length buf)") auto

declare write_all.simps [simp del]

fun write_all_bufs :: "(byte list \<Rightarrow> 's \<Rightarrow> int \<times> 's) \<Rightarrow> byte list list \<Rightarrow> 's \<Rightarrow> bool \<times> 's" where
  "write_all_bufs wr [] s = (True, s)"
| "write_all_bufs wr (b # bs) s = (case write_all wr b s of (ok, s') \<Rightarrow> if ok then write_all_bufs wr bs s' else (False, s'))"

function stream_read_all :: "(nat \<Rightarrow> 's \<Rightarrow> byte list \<times> 's) \<Rightarrow> nat \<Rightarrow> 's \<Rightarrow> byte list \<Rightarrow> byte list option \<times> 's" where
  "stream_read_all rd len s buf = (
     if len = 0 then (Some buf, s)
     else case rd len s of (got, s') \<Rightarrow> if got = [] then (None, s') else stream_read_all rd (len - length got) s' (buf @ got))"
  by pat_completeness auto
termination by (relation "measure (\<lambda>(_, len, _, _). len)") auto

declare stream_read_all.simps [simp del]

text \<open>What a stream promises: \<open>content\<close> is what was written to it so far.\<close>

locale wstream =
  fixes wr :: "byte list \<Rightarrow> 's \<Rightarrow> int \<times> 's" and ok :: "'s \<Rightarrow> bool" and content :: "'s \<Rightarrow> byte list"
  assumes write_some: "ok s \<Longrightarrow> buf \<noteq> [] \<Longrightarrow> wr buf s = (r, s') \<Longrightarrow>
    0 < r \<and> r \<le> int (length buf) \<and> ok s' \<and> content s' = content s @ take (nat r) buf"
begin

lemma write_all_appends:
  assumes "ok s"
  shows "\<exists>s'. write_all wr buf s = (True, s') \<and> ok s' \<and> content s' = content s @ buf"
  using assms
proof (induction buf arbitrary: s rule: length_induct)
  case (1 buf)
  show ?case
  proof (cases "buf = []")
    case False
    obtain r s1 where w: "wr buf s = (r, s1)" by (cases "wr buf s")
    note step = write_some [OF 1(2) False w]
    have "length (drop (nat r) buf) < length buf" using step False by simp
    with 1(1) step obtain s' where "write_all wr (drop (nat r) buf) s1 = (True, s')" "ok s'"
      "content s' = content s1 @ drop (nat r) buf" by blast
    with step False w show ?thesis by (auto simp: write_all.simps [of wr buf])
  qed (use 1(2) in \<open>simp add: write_all.simps\<close>)
qed

lemma write_all_bufs_appends:
  "ok s \<Longrightarrow> \<exists>s'. write_all_bufs wr bs s = (True, s') \<and> ok s' \<and> content s' = content s @ concat bs"
proof (induction bs arbitrary: s)
  case (Cons b bs)
  obtain s1 where "write_all wr b s = (True, s1)" "ok s1" "content s1 = content s @ b"
    using write_all_appends [OF Cons.prems] by blast
  with Cons.IH [of s1] show ?case by auto
qed simp

end

text \<open>What a source promises: \<open>left\<close> is what it still delivers.\<close>

locale rstream =
  fixes rd :: "nat \<Rightarrow> 's \<Rightarrow> byte list \<times> 's" and left :: "'s \<Rightarrow> byte list"
  assumes read_some: "0 < len \<Longrightarrow> rd len s = (got, s') \<Longrightarrow>
    left s = got @ left s' \<and> length got \<le> len \<and> (got = [] \<longrightarrow> left s = [])"
begin

lemma read_all_takes:
  "length buf + len = n \<Longrightarrow> \<exists>s'. stream_read_all rd len s buf =
     (if len \<le> length (left s) then Some (buf @ take len (left s)) else None, s') \<and>
     left s' = drop len (left s)"
proof (induction len arbitrary: s buf rule: less_induct)
  case (less len)
  show ?case
  proof (cases "len = 0")
    case False
    obtain got s1 where r: "rd len s = (got, s1)" by (cases "rd len s")
    from False have "0 < len" by simp
    note step = read_some [OF this r]
    show ?thesis
    proof (cases "got = []")
      case True
      with step False r show ?thesis by (auto simp: stream_read_all.simps [of rd len])
    next
      case got: False
      with step False have lt: "len - length got < len" "length (buf @ got) + (len - length got) = n"
        using less.prems by auto
      from less.IH [OF lt, of s1] step False got r show ?thesis
        by (auto simp: stream_read_all.simps [of rd len])
    qed
  qed (simp add: stream_read_all.simps)
qed

end

text \<open>\<^verbatim>\<open>KFixString::read\<close>: a source over fixed octets.\<close>

definition fix_string_read :: "nat \<Rightarrow> byte list \<Rightarrow> byte list \<times> byte list" where
  "fix_string_read len s = (let send_len = min len (length s) in
     if send_len = 0 then ([], s) else (take send_len s, drop send_len s))"

interpretation fix_string: rstream fix_string_read "\<lambda>s. s"
  by unfold_locales (auto simp: fix_string_read_def Let_def min_def split: if_splits)

section \<open>The chunked buffer\<close>

text \<open>
  A chunk is its memory and how much of it is used; \<open>ab_hot\<close> is the write position, a chunk and an
  offset. Fresh memory is taken to be zero, and nothing reads it before it is written.
\<close>

record kbuf =
  kb_mem :: "byte list"
  kb_used :: nat

record auto_buffer =
  ab_bufs :: "kbuf list"
  ab_hot :: "(nat \<times> nat) option"
  ab_total :: int

definition ab_new :: auto_buffer where
  "ab_new = \<lparr>ab_bufs = [], ab_hot = None, ab_total = 0\<rparr>"

definition new_buff :: "nat \<Rightarrow> kbuf" where
  "new_buff chunk_size = \<lparr>kb_mem = replicate chunk_size 0, kb_used = 0\<rparr>"

text \<open>\<^verbatim>\<open>getWriteBuffer\<close>; the size \<^verbatim>\<open>NBUFF_SIZE\<close> of a chunk belongs to the I/O library.\<close>

definition getWriteBuffer :: "nat \<Rightarrow> auto_buffer \<Rightarrow> int \<times> auto_buffer" where
  "getWriteBuffer nbuff b = (
     let b = (if ab_bufs b = [] then b\<lparr>ab_bufs := [new_buff nbuff], ab_hot := Some (0, 0)\<rparr> else b);
         len = int nbuff - int (kb_used (last (ab_bufs b)))
     in if len = 0 \<or> ab_hot b = None then
          (int nbuff, b\<lparr>ab_bufs := ab_bufs b @ [new_buff nbuff], ab_hot := Some (length (ab_bufs b), 0)\<rparr>)
        else (len, b))"

definition put_mem :: "nat \<Rightarrow> byte list \<Rightarrow> kbuf \<Rightarrow> kbuf" where
  "put_mem off xs k = k\<lparr>kb_mem := take off (kb_mem k) @ xs @ drop (off + length xs) (kb_mem k)\<rparr>"

definition writeSuccess :: "nat \<Rightarrow> auto_buffer \<Rightarrow> auto_buffer" where
  "writeSuccess got b = (
     let i = length (ab_bufs b) - 1; k = ab_bufs b ! i in
     b\<lparr>ab_bufs := (ab_bufs b)[i := k\<lparr>kb_used := kb_used k + got\<rparr>], ab_total := ab_total b + int got,
       ab_hot := map_option (\<lambda>(j, off). (j, off + got)) (ab_hot b)\<rparr>)"

definition ab_write :: "nat \<Rightarrow> byte list \<Rightarrow> auto_buffer \<Rightarrow> int \<times> auto_buffer" where
  "ab_write nbuff buf b = (
     case getWriteBuffer nbuff b of
       (wlen, b) \<Rightarrow>
         let n = min (length buf) (nat wlen) in
         case ab_hot b of
           None \<Rightarrow> (0, b)
         | Some (i, off) \<Rightarrow>
             (int n, writeSuccess n (b\<lparr>ab_bufs := (ab_bufs b)[i := put_mem off (take n buf) (ab_bufs b ! i)]\<rparr>)))"

definition ab_Insert :: "kbuf \<Rightarrow> auto_buffer \<Rightarrow> auto_buffer" where
  "ab_Insert k b = b\<lparr>ab_bufs := k # ab_bufs b, ab_total := ab_total b + int (kb_used k),
     ab_hot := map_option (\<lambda>(i, off). (i + 1, off)) (ab_hot b)\<rparr>"

definition ab_Insert_str :: "byte list \<Rightarrow> auto_buffer \<Rightarrow> auto_buffer" where
  "ab_Insert_str str b = ab_Insert ((put_mem 0 str (new_buff (length str)))\<lparr>kb_used := length str\<rparr>) b"

definition ab_Append :: "kbuf \<Rightarrow> auto_buffer \<Rightarrow> auto_buffer" where
  "ab_Append k b = b\<lparr>ab_bufs := ab_bufs b @ [k], ab_hot := None, ab_total := ab_total b + int (kb_used k)\<rparr>"

definition stealBuffFast :: "auto_buffer \<Rightarrow> kbuf list \<times> auto_buffer" where
  "stealBuffFast b = (ab_bufs b, b\<lparr>ab_bufs := [], ab_hot := None\<rparr>)"

definition stealBuff :: "nat \<Rightarrow> auto_buffer \<Rightarrow> kbuf list \<times> auto_buffer" where
  "stealBuff nbuff b = (
     if ab_bufs b = [] \<or> int nbuff - int (kb_used (last (ab_bufs b))) < 64 then stealBuffFast b
     else
       let k = last (ab_bufs b);
           k = (if kb_used k > 0 then k\<lparr>kb_mem := take (kb_used k) (kb_mem k)\<rparr> else k)
       in stealBuffFast (b\<lparr>ab_bufs := butlast (ab_bufs b) @ [k]\<rparr>))"

definition kb_octets :: "kbuf \<Rightarrow> byte list" where
  "kb_octets k = take (kb_used k) (kb_mem k)"

definition ab_content :: "auto_buffer \<Rightarrow> byte list" where
  "ab_content b = concat (map kb_octets (ab_bufs b))"

text \<open>The write position is behind the octets of the last chunk, which has the full size.\<close>

definition ab_ok :: "nat \<Rightarrow> auto_buffer \<Rightarrow> bool" where
  "ab_ok nbuff b \<longleftrightarrow> (\<forall>k \<in> set (ab_bufs b). kb_used k \<le> length (kb_mem k)) \<and> ab_total b = int (length (ab_content b)) \<and>
     (case ab_hot b of
        None \<Rightarrow> True
      | Some (i, off) \<Rightarrow> ab_bufs b \<noteq> [] \<and> i = length (ab_bufs b) - 1 \<and> off = kb_used (last (ab_bufs b)) \<and>
          length (kb_mem (last (ab_bufs b))) = nbuff)"

lemma kb_octets_new [simp]: "kb_octets (new_buff n) = []" "kb_used (new_buff n) = 0" "length (kb_mem (new_buff n)) = n"
  by (simp_all add: kb_octets_def new_buff_def)

lemma getWriteBuffer_ok:
  assumes "ab_ok nbuff b" "0 < nbuff" "getWriteBuffer nbuff b = (len, b')"
  shows "ab_ok nbuff b' \<and> ab_content b' = ab_content b \<and> ab_hot b' = Some (length (ab_bufs b') - 1, kb_used (last (ab_bufs b'))) \<and>
    ab_bufs b' \<noteq> [] \<and> len = int nbuff - int (kb_used (last (ab_bufs b'))) \<and> 0 < len"
proof -
  define b1 where "b1 = (if ab_bufs b = [] then b\<lparr>ab_bufs := [new_buff nbuff], ab_hot := Some (0, 0)\<rparr> else b)"
  have b1: "ab_ok nbuff b1" "ab_content b1 = ab_content b" "ab_bufs b1 \<noteq> []"
    using assms(1,2) by (auto simp: b1_def ab_ok_def ab_content_def)
  have eq: "(len, b') = (if int nbuff - int (kb_used (last (ab_bufs b1))) = 0 \<or> ab_hot b1 = None then
      (int nbuff, b1\<lparr>ab_bufs := ab_bufs b1 @ [new_buff nbuff], ab_hot := Some (length (ab_bufs b1), 0)\<rparr>)
    else (int nbuff - int (kb_used (last (ab_bufs b1))), b1))"
    using assms(3) unfolding getWriteBuffer_def Let_def b1_def [symmetric] by simp
  show ?thesis
  proof (cases "int nbuff - int (kb_used (last (ab_bufs b1))) = 0 \<or> ab_hot b1 = None")
    case True
    with eq b1 assms(2) show ?thesis by (auto simp: ab_ok_def ab_content_def)
  next
    case False
    then obtain i off where hot: "ab_hot b1 = Some (i, off)" by auto
    with b1(1,3) have "kb_used (last (ab_bufs b1)) \<le> nbuff" by (fastforce simp: ab_ok_def)
    with False eq b1 hot show ?thesis by (auto simp: ab_ok_def)
  qed
qed

lemma ab_write_some:
  assumes "ab_ok nbuff b" "0 < nbuff" "buf \<noteq> []" "ab_write nbuff buf b = (r, b')"
  shows "0 < r \<and> r \<le> int (length buf) \<and> ab_ok nbuff b' \<and> ab_content b' = ab_content b @ take (nat r) buf"
proof -
  obtain len b1 where g: "getWriteBuffer nbuff b = (len, b1)" by (cases "getWriteBuffer nbuff b")
  note g' = getWriteBuffer_ok [OF assms(1,2) g]
  obtain ks k where ks: "ab_bufs b1 = ks @ [k]" using g' by (cases "ab_bufs b1" rule: rev_cases) auto
  define n where "n = min (length buf) (nat len)"
  have n: "0 < n" "n \<le> length buf" "kb_used k + n \<le> nbuff" using g' assms(3) by (auto simp: n_def ks)
  have k: "length (kb_mem k) = nbuff" using g' by (auto simp: ab_ok_def ks)
  let ?k = "(put_mem (kb_used k) (take n buf) k)\<lparr>kb_used := kb_used k + n\<rparr>"
  have used: "kb_used (put_mem off xs k) = kb_used k" for off xs by (simp add: put_mem_def)
  have hot: "ab_hot b1 = Some (length ks, kb_used k)" using g' by (simp add: ks)
  have "ab_write nbuff buf b = (int n, writeSuccess n (b1\<lparr>ab_bufs := ks @ [put_mem (kb_used k) (take n buf) k]\<rparr>))"
    unfolding ab_write_def g prod.case Let_def n_def [symmetric] hot option.case by (simp add: ks)
  then have b': "b' = b1\<lparr>ab_bufs := ks @ [?k], ab_total := ab_total b1 + int n, ab_hot := Some (length ks, kb_used k + n)\<rparr>" "r = int n"
    using assms(4) by (simp_all add: writeSuccess_def hot used)
  have o: "kb_octets ?k = kb_octets k @ take n buf" and m: "length (kb_mem ?k) = nbuff"
    using n k by (auto simp: kb_octets_def put_mem_def min_def)
  have c: "ab_content b' = ab_content b1 @ take n buf" by (simp add: b'(1) ab_content_def ks o)
  have "ab_ok nbuff b'" using g' n m c by (auto simp: b'(1) ab_ok_def ks)
  with n c g' b'(2) show ?thesis by simp
qed

interpretation auto_buffer: wstream "ab_write (Suc n)" "ab_ok (Suc n)" ab_content
  using ab_write_some by unfold_locales blast


lemma ab_Insert_ok: "ab_ok nbuff b \<Longrightarrow> kb_used k \<le> length (kb_mem k) \<Longrightarrow>
    ab_ok nbuff (ab_Insert k b) \<and> ab_content (ab_Insert k b) = kb_octets k @ ab_content b"
  by (auto simp: ab_ok_def ab_Insert_def ab_content_def kb_octets_def split: option.splits)

lemma ab_Append_ok: "ab_ok nbuff b \<Longrightarrow> kb_used k \<le> length (kb_mem k) \<Longrightarrow>
    ab_ok nbuff (ab_Append k b) \<and> ab_content (ab_Append k b) = ab_content b @ kb_octets k"
  by (auto simp: ab_ok_def ab_Append_def ab_content_def kb_octets_def)

lemma stealBuff_content:
  assumes "ab_ok nbuff b"
  shows "concat (map kb_octets (fst (stealBuff nbuff b))) = ab_content b"
proof (cases "ab_bufs b" rule: rev_cases)
  case (snoc ks k)
  then show ?thesis by (auto simp: stealBuff_def stealBuffFast_def Let_def ab_content_def kb_octets_def)
qed (simp add: stealBuff_def stealBuffFast_def ab_content_def)

text \<open>The length is not reset with the chunks: after a steal it counts octets that are gone.\<close>

lemma steal_keeps_length:
  "ab_ok nbuff b \<Longrightarrow> ab_content b \<noteq> [] \<Longrightarrow> \<not> ab_ok nbuff (snd (stealBuff nbuff b)) \<and> ab_content (snd (stealBuff nbuff b)) = []"
  by (auto simp: stealBuff_def stealBuffFast_def ab_ok_def ab_content_def Let_def)

text \<open>
  C0: writing buffers to an empty chunked buffer succeeds and leaves exactly their octets, whatever
  the size of the chunks, and the recorded length is theirs.
\<close>

theorem auto_buffer_holds_writes:
  "\<exists>b. write_all_bufs (ab_write (Suc n)) bufs ab_new = (True, b) \<and> ab_content b = concat bufs \<and>
     ab_total b = int (length (concat bufs))"
proof -
  have "ab_ok (Suc n) ab_new" "ab_content ab_new = []" by (simp_all add: ab_ok_def ab_new_def ab_content_def)
  with auto_buffer.write_all_bufs_appends [of n ab_new bufs] show ?thesis by (auto simp: ab_ok_def)
qed

text \<open>
  Reading a number of octets from a fixed text in as many calls as it takes delivers exactly its
  first octets, and fails if and only if the text is shorter.
\<close>

theorem fix_string_read_all:
  "\<exists>rest. stream_read_all fix_string_read len t [] = (if len \<le> length t then Some (take len t) else None, rest) \<and> rest = drop len t"
  using fix_string.read_all_takes [of "[]" len len t] by simp

section \<open>The growing string\<close>

text \<open>
  \<^verbatim>\<open>KStringBuf\<close>: the shared string, its memory, and how much of the memory is free. \<^verbatim>\<open>kgl_realloc\<close> and
  \<^verbatim>\<open>kgl_align\<close> belong to the I/O library and \<^verbatim>\<open>malloc\<close> to the platform: \<open>env_realloc\<close> maps the old
  memory and the new size to the new memory. Sizes are \<^verbatim>\<open>uint32_t\<close>, with the wrap-around written
  out. The result None stands for a failed assertion or an access outside the memory.
\<close>

record mem_env =
  env_malloc :: bool
  env_realloc :: "byte list option \<Rightarrow> nat \<Rightarrow> byte list option"
  env_align :: "nat \<Rightarrow> nat \<Rightarrow> nat"

record ref_str =
  rs_data :: "byte list option"
  rs_len :: nat

record string_buf =
  sb_current_size :: nat
  sb_align_size :: nat
  sb_s :: "ref_str option"

definition max_align_size :: nat where "max_align_size = 2048"

text \<open>The constructor asserts that the size is a power of two (or 0, which stands for 32).\<close>

definition sb_new :: "32 word \<Rightarrow> string_buf option" where
  "sb_new sz = (
     if and sz (sz - 1) \<noteq> 0 then None
     else Some \<lparr>sb_current_size = 0,
       sb_align_size = min (if sz = 0 then 32 else unat sz) max_align_size, sb_s = None\<rparr>)"

definition sb_clear :: "string_buf \<Rightarrow> string_buf" where
  "sb_clear b = b\<lparr>sb_s := None, sb_current_size := 0\<rparr>"

definition sb_realloc :: "mem_env \<Rightarrow> nat \<Rightarrow> string_buf \<Rightarrow> (bool \<times> string_buf) option" where
  "sb_realloc env new_size b = (
     if sb_s b = None \<and> \<not> env_malloc env then Some (False, b)
     else
       let s = (case sb_s b of None \<Rightarrow> \<lparr>rs_data = None, rs_len = 0\<rparr> | Some s \<Rightarrow> s) in
       if new_size \<le> rs_len s then None
       else case env_realloc env (rs_data s) new_size of
           None \<Rightarrow> Some (False, b\<lparr>sb_s := Some s\<rparr>)
         | Some m \<Rightarrow> Some (True, b\<lparr>sb_s := Some (s\<lparr>rs_data := Some m\<rparr>), sb_current_size := new_size - rs_len s\<rparr>))"

definition sb_size :: "string_buf \<Rightarrow> nat" where
  "sb_size b = (case sb_s b of None \<Rightarrow> 0 | Some s \<Rightarrow> rs_len s)"

definition guarantee :: "mem_env \<Rightarrow> nat \<Rightarrow> string_buf \<Rightarrow> (bool \<times> string_buf) option" where
  "guarantee env sz b = (
     if sz \<le> sb_current_size b then Some (True, b)
     else sb_realloc env (env_align env ((sz + sb_size b) mod 2 ^ 32) (sb_align_size b)) b)"

text \<open>A copy into the memory at an offset.\<close>

definition mem_put :: "nat \<Rightarrow> byte list \<Rightarrow> ref_str \<Rightarrow> ref_str option" where
  "mem_put off xs s = (case rs_data s of
       None \<Rightarrow> None
     | Some m \<Rightarrow> if off + length xs \<le> length m then
         Some (s\<lparr>rs_data := Some (take off m @ xs @ drop (off + length xs) m)\<rparr>) else None)"

definition sb_append :: "mem_env \<Rightarrow> byte list \<Rightarrow> string_buf \<Rightarrow> (bool \<times> string_buf) option" where
  "sb_append env str b = (case guarantee env ((length str + 1) mod 2 ^ 32) b of
       None \<Rightarrow> None
     | Some (False, b) \<Rightarrow> Some (False, b)
     | Some (True, b) \<Rightarrow> (case sb_s b of
           None \<Rightarrow> None
         | Some s \<Rightarrow> (case mem_put (rs_len s) str s of
               None \<Rightarrow> None
             | Some s \<Rightarrow> Some (True, b\<lparr>sb_s := Some (s\<lparr>rs_len := (rs_len s + length str) mod 2 ^ 32\<rparr>),
                 sb_current_size := (sb_current_size b + 2 ^ 32 - length str mod 2 ^ 32) mod 2 ^ 32\<rparr>))))"

definition end_with_zero :: "mem_env \<Rightarrow> string_buf \<Rightarrow> (bool \<times> string_buf) option" where
  "end_with_zero env b = (case
       (if 16 < sb_current_size b \<or> sb_current_size b = 0 then sb_realloc env ((sb_size b + 1) mod 2 ^ 32) b
        else Some (True, b)) of
       None \<Rightarrow> None
     | Some (False, b) \<Rightarrow> Some (False, b)
     | Some (True, b) \<Rightarrow> (case sb_s b of
           None \<Rightarrow> None
         | Some s \<Rightarrow> (case mem_put (rs_len s) [0] s of
               None \<Rightarrow> None
             | Some s \<Rightarrow> Some (True, b\<lparr>sb_s := Some s\<rparr>))))"

definition sb_content :: "string_buf \<Rightarrow> byte list" where
  "sb_content b = (case sb_s b of None \<Rightarrow> [] | Some s \<Rightarrow> (case rs_data s of None \<Rightarrow> [] | Some m \<Rightarrow> take (rs_len s) m))"

text \<open>What a C string at the start of the memory is: the octets before the first zero, when there is one.\<close>

definition c_string :: "byte list \<Rightarrow> byte list option" where
  "c_string m = (if 0 \<in> set m then Some (takeWhile (\<lambda>c. c \<noteq> 0) m) else None)"

definition sb_c_str :: "mem_env \<Rightarrow> string_buf \<Rightarrow> (byte list \<times> string_buf) option" where
  "sb_c_str env b = (case end_with_zero env b of
       None \<Rightarrow> None
     | Some (False, b) \<Rightarrow> Some ([], b)
     | Some (True, b) \<Rightarrow>
         (case sb_s b of None \<Rightarrow> None | Some s \<Rightarrow> (case rs_data s of None \<Rightarrow> None
            | Some m \<Rightarrow> map_option (\<lambda>t. (t, b)) (c_string m))))"

definition sb_steal :: "mem_env \<Rightarrow> string_buf \<Rightarrow> (byte list option \<times> string_buf) option" where
  "sb_steal env b = (case end_with_zero env b of
       None \<Rightarrow> None
     | Some (False, b) \<Rightarrow> Some (None, b)
     | Some (True, b) \<Rightarrow> (case sb_s b of
           None \<Rightarrow> None
         | Some s \<Rightarrow> Some (rs_data s, b\<lparr>sb_s := Some (s\<lparr>rs_data := None, rs_len := 0\<rparr>), sb_current_size := 0\<rparr>)))"

fun sb_write_all :: "mem_env \<Rightarrow> byte list list \<Rightarrow> string_buf \<Rightarrow> (bool \<times> string_buf) option" where
  "sb_write_all env [] b = Some (True, b)"
| "sb_write_all env (x # xs) b = (case sb_append env x b of
       None \<Rightarrow> None
     | Some (False, b) \<Rightarrow> Some (False, b)
     | Some (True, b) \<Rightarrow> sb_write_all env xs b)"

text \<open>
  What the I/O library documents: the new memory has the new size and keeps the old octets; the
  aligned size is the next multiple, less than one unit larger.
\<close>

definition realloc_keeps :: "mem_env \<Rightarrow> bool" where
  "realloc_keeps env \<longleftrightarrow> (\<forall>m n m'. env_realloc env m n = Some m' \<longrightarrow> length m' = n \<and>
     (\<forall>old. m = Some old \<longrightarrow> take (length old) m' = take n old))"

definition power_of_two :: "nat \<Rightarrow> bool" where
  "power_of_two a \<longleftrightarrow> 0 < a \<and> and a (a - 1) = 0"

definition align_next :: "mem_env \<Rightarrow> bool" where
  "align_next env \<longleftrightarrow> (\<forall>n a. power_of_two a \<longrightarrow> n \<le> env_align env n a \<and> env_align env n a < n + a)"

text \<open>The memory holds the text and the free octets, and there is room for the terminating zero.\<close>

definition sb_ok :: "string_buf \<Rightarrow> bool" where
  "sb_ok b \<longleftrightarrow> power_of_two (sb_align_size b) \<and> sb_align_size b \<le> max_align_size \<and>
     (case sb_s b of
        None \<Rightarrow> sb_current_size b = 0
      | Some s \<Rightarrow> (case rs_data s of
            None \<Rightarrow> sb_current_size b = 0 \<and> rs_len s = 0
          | Some m \<Rightarrow> length m = rs_len s + sb_current_size b \<and> 0 < sb_current_size b \<and> length m < 2 ^ 32))"

lemma sb_new_ok:
  assumes "sb_new sz = Some b"
  shows "sb_ok b" "sb_content b = []" "sb_size b = 0"
proof -
  have "power_of_two (unat sz)" if "and sz (sz - 1) = 0" "sz \<noteq> 0"
  proof -
    have "and (unat sz) (unat sz - 1) = unat (and sz (sz - 1))"
      using that(2) by (simp add: unsigned_and_eq unat_minus_one)
    with that show ?thesis by (simp add: power_of_two_def unat_gt_0)
  qed
  moreover have "power_of_two 32" "power_of_two 2048" by (simp_all add: power_of_two_def)
  ultimately show "sb_ok b" using assms by (auto simp: sb_ok_def sb_new_def max_align_size_def min_def split: if_splits)
qed (use assms in \<open>auto simp: sb_new_def sb_content_def sb_size_def split: if_splits\<close>)

lemma odd_size_aborts: "sb_new 3 = None"
  by (simp add: sb_new_def)

definition sb_kept :: "nat \<Rightarrow> string_buf \<Rightarrow> bool \<times> string_buf \<Rightarrow> bool" where
  "sb_kept n b r \<longleftrightarrow> sb_ok (snd r) \<and> sb_content (snd r) = sb_content b \<and> sb_size (snd r) = sb_size b \<and>
     (fst r \<longrightarrow> n \<le> sb_current_size (snd r) \<and> (\<exists>s m. sb_s (snd r) = Some s \<and> rs_data s = Some m))"

lemma sb_realloc_grown:
  assumes "sb_ok b" "realloc_keeps env" "rs_len s < n" "n < 2 ^ 32" "env_realloc env (rs_data s) n = Some m"
    and s: "sb_s b = Some s \<or> sb_s b = None \<and> s = \<lparr>rs_data = None, rs_len = 0\<rparr>"
  shows "sb_kept (n - rs_len s) b (True, b\<lparr>sb_s := Some (s\<lparr>rs_data := Some m\<rparr>), sb_current_size := n - rs_len s\<rparr>)"
proof -
  have m: "length m = n" "\<And>old. rs_data s = Some old \<Longrightarrow> take (length old) m = take n old"
    using assms(2,5) by (auto simp: realloc_keeps_def)
  have "take (rs_len s) m = take (rs_len s) old" if "rs_data s = Some old" for old
  proof -
    have "rs_len s \<le> length old" using assms(1) s that by (auto simp: sb_ok_def)
    then have "take (rs_len s) m = take (rs_len s) (take (length old) m)" by (simp add: min_def)
    also have "\<dots> = take (rs_len s) old" using m(2) [OF that] assms(3) by (simp add: min_def)
    finally show ?thesis .
  qed
  moreover have "rs_data s = None \<Longrightarrow> rs_len s = 0" using assms(1) s by (auto simp: sb_ok_def)
  ultimately show ?thesis using s m(1) assms(1,3,4)
    by (cases "rs_data s") (auto simp: sb_kept_def sb_ok_def sb_content_def sb_size_def)
qed

lemma sb_realloc_kept:
  assumes "sb_ok b" "realloc_keeps env" "sb_size b < n" "n < 2 ^ 32"
  shows "\<exists>r. sb_realloc env n b = Some r \<and> sb_kept (n - sb_size b) b r"
proof (cases "sb_s b = None \<and> \<not> env_malloc env")
  case True
  with assms(1) show ?thesis by (simp add: sb_realloc_def sb_kept_def)
next
  case False
  define s where "s = (case sb_s b of None \<Rightarrow> \<lparr>rs_data = None, rs_len = 0\<rparr> | Some s \<Rightarrow> s)"
  have s: "sb_s b = Some s \<or> sb_s b = None \<and> s = \<lparr>rs_data = None, rs_len = 0\<rparr>" and len: "rs_len s = sb_size b"
    by (auto simp: s_def sb_size_def split: option.split)
  have eq: "sb_realloc env n b = (case env_realloc env (rs_data s) n of
        None \<Rightarrow> Some (False, b\<lparr>sb_s := Some s\<rparr>)
      | Some m \<Rightarrow> Some (True, b\<lparr>sb_s := Some (s\<lparr>rs_data := Some m\<rparr>), sb_current_size := n - rs_len s\<rparr>))"
    using False assms(3) unfolding sb_realloc_def Let_def s_def [symmetric] len by auto
  show ?thesis
  proof (cases "env_realloc env (rs_data s) n")
    case None
    moreover have "sb_kept (n - sb_size b) b (False, b\<lparr>sb_s := Some s\<rparr>)"
      using s assms(1) by (auto simp: sb_kept_def sb_ok_def sb_content_def sb_size_def split: option.splits)
    ultimately show ?thesis by (simp add: eq)
  next
    case (Some m)
    with sb_realloc_grown [OF assms(1,2) _ assms(4) Some s] assms(3) show ?thesis by (simp add: eq len)
  qed
qed

lemma guarantee_kept:
  assumes "sb_ok b" "realloc_keeps env" "align_next env" "0 < n" "sb_size b + n + max_align_size \<le> 2 ^ 32"
  shows "\<exists>r. guarantee env n b = Some r \<and> sb_kept n b r"
proof (cases "n \<le> sb_current_size b")
  case True
  with assms(1,4) show ?thesis by (auto simp: guarantee_def sb_kept_def sb_ok_def split: option.splits)
next
  case False
  define n' where "n' = env_align env (n + sb_size b) (sb_align_size b)"
  have a: "power_of_two (sb_align_size b)" "sb_align_size b \<le> max_align_size" using assms(1) by (auto simp: sb_ok_def)
  with assms(3) have n': "n + sb_size b \<le> n'" "n' < n + sb_size b + sb_align_size b"
    by (auto simp: align_next_def n'_def)
  have "(n + sb_size b) mod 2 ^ 32 = n + sb_size b" using assms(5) by (simp add: max_align_size_def)
  with False have "guarantee env n b = sb_realloc env n' b" by (simp add: guarantee_def n'_def)
  moreover have "sb_size b < n'" "n' < 2 ^ 32" using n' a assms(4,5) by auto
  ultimately show ?thesis using sb_realloc_kept [OF assms(1,2)] n'(1) by (fastforce simp: sb_kept_def)
qed

lemma mem_put_end:
  assumes "sb_s b = Some s" "rs_data s = Some m" "sb_ok b" "length xs \<le> sb_current_size b"
  shows "mem_put (rs_len s) xs s = Some (s\<lparr>rs_data := Some (sb_content b @ xs @ drop (rs_len s + length xs) m)\<rparr>)"
  using assms by (simp add: mem_put_def sb_ok_def sb_content_def)

lemma sb_append_ok:
  assumes "sb_ok b" "realloc_keeps env" "align_next env" "sb_size b + length str + 1 + max_align_size \<le> 2 ^ 32"
  shows "\<exists>ok b'. sb_append env str b = Some (ok, b') \<and> sb_ok b' \<and> sb_content b' = sb_content b @ (if ok then str else []) \<and>
    sb_size b' = sb_size b + (if ok then length str else 0)"
proof -
  have l: "(length str + 1) mod 2 ^ 32 = length str + 1" "length str mod 2 ^ 32 = length str"
    using assms(4) by (simp_all add: max_align_size_def)
  obtain ok b1 where g: "guarantee env (length str + 1) b = Some (ok, b1)" and k: "sb_kept (length str + 1) b (ok, b1)"
    using guarantee_kept [OF assms(1-3), of "length str + 1"] assms(4) by (auto simp: max_align_size_def)
  show ?thesis
  proof (cases ok)
    case False
    with g k show ?thesis unfolding sb_append_def l by (auto simp: sb_kept_def intro!: exI [of _ False])
  next
    case True
    with k obtain s m where s: "sb_s b1 = Some s" "rs_data s = Some m" and ok: "sb_ok b1" and
      room: "length str + 1 \<le> sb_current_size b1" and same: "sb_content b1 = sb_content b" "rs_len s = sb_size b"
      by (auto simp: sb_kept_def sb_size_def)
    have mod: "(rs_len s + length str) mod 2 ^ 32 = rs_len s + length str"
      "(sb_current_size b1 + 2 ^ 32 - length str) mod 2 ^ 32 = sb_current_size b1 - length str"
      using s ok room by (auto simp: sb_ok_def mod_if)
    define b' where "b' = b1\<lparr>sb_s := Some (s\<lparr>rs_data := Some (sb_content b1 @ str @ drop (rs_len s + length str) m),
      rs_len := rs_len s + length str\<rparr>), sb_current_size := sb_current_size b1 - length str\<rparr>"
    have "sb_append env str b = Some (True, b')"
      using mem_put_end [OF s ok, of str] room mod unfolding sb_append_def l g by (simp add: True s(1) b'_def)
    moreover have "sb_ok b' \<and> sb_content b' = sb_content b1 @ str \<and> sb_size b' = rs_len s + length str"
      using s ok room by (auto simp: b'_def sb_ok_def sb_content_def sb_size_def)
    ultimately show ?thesis using same by auto
  qed
qed

lemma end_with_zero_ok:
  assumes "sb_ok b" "realloc_keeps env" "sb_size b + 1 < 2 ^ 32"
  shows "\<exists>ok b'. end_with_zero env b = Some (ok, b') \<and> sb_ok b' \<and> sb_content b' = sb_content b \<and>
    (ok \<longrightarrow> (\<exists>s rest. sb_s b' = Some s \<and> rs_len s = sb_size b \<and> rs_data s = Some (sb_content b @ 0 # rest)))"
proof -
  have "(sb_size b + 1) mod 2 ^ 32 = sb_size b + 1" using assms(3) by simp
  then obtain ok b1 where r: "(if 16 < sb_current_size b \<or> sb_current_size b = 0 then sb_realloc env ((sb_size b + 1) mod 2 ^ 32) b
      else Some (True, b)) = Some (ok, b1)" and k: "sb_kept 1 b (ok, b1)"
    using sb_realloc_kept [OF assms(1,2), of "sb_size b + 1"] assms(1,3)
    by (cases "16 < sb_current_size b \<or> sb_current_size b = 0")
      (auto simp: sb_kept_def sb_ok_def sb_size_def sb_content_def split: option.splits)
  show ?thesis
  proof (cases ok)
    case False
    with k show ?thesis unfolding end_with_zero_def r by (auto simp: sb_kept_def intro!: exI [of _ False])
  next
    case True
    with k obtain s m where s: "sb_s b1 = Some s" "rs_data s = Some m" and ok: "sb_ok b1" and
      room: "length [0::byte] \<le> sb_current_size b1" and same: "sb_content b1 = sb_content b" "rs_len s = sb_size b"
      by (auto simp: sb_kept_def sb_size_def)
    define b' where "b' = b1\<lparr>sb_s := Some (s\<lparr>rs_data := Some (sb_content b1 @ [0] @ drop (rs_len s + 1) m)\<rparr>)\<rparr>"
    have "end_with_zero env b = Some (True, b')"
      unfolding end_with_zero_def r using mem_put_end [OF s ok room] by (simp add: True s(1) b'_def)
    moreover have "sb_ok b' \<and> sb_content b' = sb_content b1"
      using s ok room by (auto simp: b'_def sb_ok_def sb_content_def)
    ultimately show ?thesis using same by (auto simp: b'_def)
  qed
qed

lemma sb_write_all_ok:
  assumes "sb_ok b" "realloc_keeps env" "align_next env" "sb_size b + length (concat xs) + 1 + max_align_size \<le> 2 ^ 32"
  shows "\<exists>ok b'. sb_write_all env xs b = Some (ok, b') \<and> sb_ok b' \<and> sb_size b' \<le> sb_size b + length (concat xs) \<and>
    (ok \<longrightarrow> sb_content b' = sb_content b @ concat xs)"
  using assms
proof (induction xs arbitrary: b)
  case (Cons x xs)
  have "sb_size b + length x + 1 + max_align_size \<le> 2 ^ 32" using Cons.prems(4) by simp
  from sb_append_ok [OF Cons.prems(1-3) this] obtain ok b1 where a: "sb_append env x b = Some (ok, b1)" "sb_ok b1"
    "sb_content b1 = sb_content b @ (if ok then x else [])" "sb_size b1 = sb_size b + (if ok then length x else 0)" by blast
  show ?case
  proof (cases ok)
    case True
    with a Cons.prems(4) have "sb_size b1 + length (concat xs) + 1 + max_align_size \<le> 2 ^ 32" by simp
    from Cons.IH [OF a(2) Cons.prems(2,3) this] a True show ?thesis by auto
  qed (use a in \<open>auto intro!: exI [of _ False]\<close>)
qed (auto intro!: exI [of _ True])

definition memory_never_fails :: "mem_env \<Rightarrow> bool" where
  "memory_never_fails env \<longleftrightarrow> env_malloc env \<and> (\<forall>m n. env_realloc env m n \<noteq> None)"

lemma sb_realloc_succeeds: "memory_never_fails env \<Longrightarrow> sb_realloc env n b = Some (ok, b') \<Longrightarrow> ok"
  by (auto simp: memory_never_fails_def sb_realloc_def Let_def not_None_eq [symmetric] simp del: not_None_eq split: if_splits option.splits)

lemma guarantee_succeeds: "memory_never_fails env \<Longrightarrow> guarantee env n b = Some (ok, b') \<Longrightarrow> ok"
  by (auto simp: guarantee_def split: if_splits dest: sb_realloc_succeeds)

lemma sb_append_succeeds: "memory_never_fails env \<Longrightarrow> sb_append env x b = Some (ok, b') \<Longrightarrow> ok"
  by (auto simp: sb_append_def split: option.splits bool.splits dest: guarantee_succeeds)

lemma sb_write_all_succeeds: "memory_never_fails env \<Longrightarrow> sb_write_all env xs b = Some (ok, b') \<Longrightarrow> ok"
  by (induction xs arbitrary: b) (auto split: option.splits prod.splits bool.splits dest: sb_append_succeeds)

lemma end_with_zero_succeeds: "memory_never_fails env \<Longrightarrow> end_with_zero env b = Some (ok, b') \<Longrightarrow> ok"
  by (auto simp: end_with_zero_def split: option.splits bool.splits if_splits dest: sb_realloc_succeeds)

lemma c_string_terminated: "0 \<notin> set t \<Longrightarrow> c_string (t @ 0 # rest) = Some t"
  by (auto simp: c_string_def takeWhile_append)

lemma c_string_prefix: "\<exists>t'. c_string (t @ 0 # rest) = Some t'"
  by (auto simp: c_string_def)

text \<open>
  C25: a string buffer is made from every size that is a power of two (0 stands for 32). Writing to it
  and reading its C string never leaves the memory and never runs into an assertion, also when the
  memory runs out; when it does not, the C string is the concatenation of what was written.
\<close>

theorem string_buf_reads_back:
  assumes "and sz (sz - 1) = 0" "realloc_keeps env" "align_next env" "length (concat xs) + 1 + max_align_size \<le> 2 ^ 32" "0 \<notin> set (concat xs)"
  shows "\<exists>b0 ok b t b'. sb_new sz = Some b0 \<and> sb_write_all env xs b0 = Some (ok, b) \<and> sb_c_str env b = Some (t, b') \<and>
    (memory_never_fails env \<longrightarrow> ok \<and> t = concat xs)"
proof -
  from assms(1) obtain b0 where b0: "sb_new sz = Some b0" by (simp add: sb_new_def)
  from sb_write_all_ok [OF sb_new_ok(1) [OF b0] assms(2,3), of xs] assms(4) obtain ok b where
    w: "sb_write_all env xs b0 = Some (ok, b)" "sb_ok b" "sb_size b \<le> length (concat xs)"
    "ok \<longrightarrow> sb_content b = concat xs"
    unfolding sb_new_ok(2,3) [OF b0] by auto
  have "sb_size b + 1 < 2 ^ 32" using w(3) assms(4) by (simp add: max_align_size_def)
  from end_with_zero_ok [OF w(2) assms(2) this] obtain z b' where z: "end_with_zero env b = Some (z, b')"
    "z \<longrightarrow> (\<exists>s rest. sb_s b' = Some s \<and> rs_len s = sb_size b \<and> rs_data s = Some (sb_content b @ 0 # rest))" by blast
  show ?thesis
  proof (cases z)
    case True
    with z obtain s rest where s: "sb_s b' = Some s" "rs_data s = Some (sb_content b @ 0 # rest)" by blast
    obtain t where t: "c_string (sb_content b @ 0 # rest) = Some t" using c_string_prefix by blast
    have "memory_never_fails env \<longrightarrow> ok \<and> t = concat xs"
      using sb_write_all_succeeds [OF _ w(1)] w(4) t c_string_terminated [OF assms(5)] by auto
    moreover have "sb_c_str env b = Some (t, b')" using z(1) True s t by (simp add: sb_c_str_def)
    ultimately show ?thesis using w(1) b0 by blast
  next
    case False
    then have "sb_c_str env b = Some ([], b')" using z(1) by (simp add: sb_c_str_def)
    with w(1) b0 end_with_zero_succeeds [OF _ z(1)] False show ?thesis by blast
  qed
qed

definition test_env :: mem_env where
  "test_env = \<lparr>env_malloc = True,
     env_realloc = (\<lambda>m n. Some (take n (case m of None \<Rightarrow> [] | Some old \<Rightarrow> old) @ replicate (n - length (case m of None \<Rightarrow> [] | Some old \<Rightarrow> old)) 0)),
     env_align = (\<lambda>n a. (n + a - 1) div a * a)\<rparr>"

lemma div_mult_next: "0 < a \<Longrightarrow> n \<le> (n + a - 1) div a * a \<and> (n + a - 1) div a * a < n + (a::nat)"
proof -
  assume a: "0 < a"
  have "(n + a - 1) div a * a + (n + a - 1) mod a = n + a - 1" by simp
  moreover have "(n + a - 1) mod a < a" using a by simp
  ultimately show ?thesis using a by linarith
qed

lemma test_env_laws: "realloc_keeps test_env" "align_next test_env" "memory_never_fails test_env"
  using div_mult_next by (auto simp: min_def power_of_two_def realloc_keeps_def align_next_def memory_never_fails_def test_env_def split: option.splits)

theorem string_buf_reads_back_witness:
  "\<exists>b0 b t b'. sb_new 128 = Some b0 \<and> sb_write_all test_env [[104, 116], [], [116, 112]] b0 = Some (True, b) \<and>
     sb_c_str test_env b = Some (t, b') \<and> t = [104, 116, 116, 112]"
  using string_buf_reads_back [of 128, OF _ test_env_laws(1,2), of "[[104, 116], [], [116, 112]]"] test_env_laws(3)
  by (auto simp: max_align_size_def)


section \<open>Scanning a word or a quoted string\<close>

text \<open>\<^verbatim>\<open>atoi\<close> of the C library: white space, a sign and digits; \<open>None\<close> where the value does not fit.\<close>

definition c_atoi :: "byte list \<Rightarrow> int option" where
  "c_atoi s = (case dropWhile isspace s of
       [] \<Rightarrow> Some 0
     | c # cs \<Rightarrow> if c = 45 then map_option uminus (kgl_atoi cs) else if c = 43 then kgl_atoi cs else kgl_atoi (c # cs))"

text \<open>
  \<^verbatim>\<open>getString\<close> works in the caller's memory: the unescaped text overwrites the escaped one, and a
  zero is put behind it. The memory is a list that ends with a zero; the pointers are offsets.
\<close>

definition octet_at :: "byte list \<Rightarrow> nat \<Rightarrow> byte" where
  "octet_at m i = (if i < length m then m ! i else 0)"

lemma octet_at_bound: "octet_at m i \<noteq> 0 \<Longrightarrow> i < length m"
  by (simp add: octet_at_def split: if_splits)

function skip_spaces :: "byte list \<Rightarrow> nat \<Rightarrow> nat" where
  "skip_spaces m i = (if octet_at m i \<noteq> 0 \<and> isspace (octet_at m i) then skip_spaces m (i + 1) else i)"
  by pat_completeness auto
termination by (relation "measure (\<lambda>(m, i). length m - i)") (auto dest: octet_at_bound)

function word_end :: "byte list option \<Rightarrow> byte list \<Rightarrow> nat \<Rightarrow> nat" where
  "word_end ended_chars m i = (
     if octet_at m i \<noteq> 0 \<and> \<not> isspace (octet_at m i) \<and>
        \<not> (case ended_chars of None \<Rightarrow> False | Some cs \<Rightarrow> octet_at m i \<in> set cs)
     then word_end ended_chars m (i + 1) else i)"
  by pat_completeness auto
termination by (relation "measure (\<lambda>(_, m, i). length m - i)") (auto dest: octet_at_bound)

function quoted_loop :: "bool \<Rightarrow> byte \<Rightarrow> byte list \<Rightarrow> nat \<Rightarrow> nat \<Rightarrow> bool \<Rightarrow> (nat \<times> byte list) option" where
  "quoted_loop skip_slash endChar m str hot slash = (
     let c = octet_at m str in
     if c = 0 then None
     else if slash then
       (if c = 92 \<or> c = 39 \<or> c = 34 then quoted_loop skip_slash endChar (m[hot := c]) (str + 1) (hot + 1) False
        else let m = m[hot := 92]; m = m[hot + 1 := octet_at m str] in quoted_loop skip_slash endChar m (str + 1) (hot + 2) False)
     else if \<not> skip_slash \<and> c = 92 then quoted_loop skip_slash endChar m (str + 1) hot True
     else if c = endChar then Some (str + 1, (m[str := 0])[hot := 0])
     else quoted_loop skip_slash endChar (m[hot := c]) (str + 1) (hot + 1) False)"
  by pat_completeness auto
termination by (relation "measure (\<lambda>(_, _, m, str, _, _). length m - str)") (auto simp: octet_at_def split: if_splits)

declare skip_spaces.simps [simp del] word_end.simps [simp del] quoted_loop.simps [simp del]

definition getString :: "byte list option \<Rightarrow> bool \<Rightarrow> bool \<Rightarrow> byte list \<Rightarrow> (nat \<times> nat \<times> byte list) option" where
  "getString ended_chars end_no_quota_value skip_slash m = (
     let str = skip_spaces m 0; endChar = octet_at m str in
     if endChar \<noteq> 39 \<and> endChar \<noteq> 34 then
       let e = word_end ended_chars m str in
       if end_no_quota_value \<and> octet_at m e \<noteq> 0 then Some (str, e + 1, m[e := 0]) else Some (str, e, m)
     else case quoted_loop skip_slash endChar m (str + 1) (str + 1) False of
         None \<Rightarrow> None
       | Some (nextstr, m') \<Rightarrow> Some (str + 1, nextstr, m'))"

text \<open>The text between the quotes, unescaped, and what follows the closing quote.\<close>

fun unquote :: "bool \<Rightarrow> byte \<Rightarrow> bool \<Rightarrow> byte list \<Rightarrow> (byte list \<times> byte list) option" where
  "unquote sk q slash [] = None"
| "unquote sk q slash (c # cs) = (
     if c = 0 then None
     else if slash then map_option (apfst ((@) (if c = 92 \<or> c = 39 \<or> c = 34 then [c] else [92, c]))) (unquote sk q False cs)
     else if \<not> sk \<and> c = 92 then unquote sk q True cs
     else if c = q then Some ([], cs)
     else map_option (apfst (Cons c)) (unquote sk q False cs))"

lemma quoted_loop_length: "quoted_loop sk q m str hot slash = Some (nextstr, m') \<Longrightarrow> length m' = length m"
  by (induction sk q m str hot slash rule: quoted_loop.induct) (subst (asm) (5) quoted_loop.simps, auto simp: Let_def split: if_splits)

lemma octet_at_append [simp]: "octet_at (pre @ s) (length pre + i) = octet_at s i"
  by (simp add: octet_at_def nth_append)

lemma octet_at_gap: "octet_at (pre @ gap @ s) (length pre + length gap) = octet_at s 0"
  using octet_at_append [of "pre @ gap" s 0] by simp

lemma octet_at_0 [simp]: "octet_at [] 0 = 0" "octet_at (c # cs) 0 = c"
  by (simp_all add: octet_at_def)

lemma overwrite_one: "\<exists>gap'. (pre @ gap @ c # cs)[length pre := d] = (pre @ [d]) @ gap' @ cs \<and> length gap' = length gap"
proof (cases gap)
  case (Cons g gs)
  then show ?thesis by (intro exI [of _ "gs @ [c]"]) simp
qed simp

lemma quoted_loop_unquote:
  assumes "slash \<longrightarrow> gap \<noteq> []"
  shows "case unquote sk q slash s of
      None \<Rightarrow> quoted_loop sk q (pre @ gap @ s) (length pre + length gap) (length pre) slash = None
    | Some (t, rest) \<Rightarrow> \<exists>gap'. quoted_loop sk q (pre @ gap @ s) (length pre + length gap) (length pre) slash =
        Some (length (pre @ t @ 0 # gap'), pre @ t @ 0 # gap' @ rest)"
  using assms
proof (induction s arbitrary: pre gap slash)
  case Nil
  then show ?case by (simp add: quoted_loop.simps [of sk q "pre @ gap"] octet_at_def)
next
  case (Cons c cs)
  let ?loop = "quoted_loop sk q (pre @ gap @ c # cs) (length pre + length gap) (length pre) slash"
  note ql = quoted_loop.simps [of sk q "pre @ gap @ c # cs" "length pre + length gap" "length pre" slash,
      unfolded octet_at_gap octet_at_0 Let_def]
  obtain gap1 where one: "(pre @ gap @ c # cs)[length pre := c] = (pre @ [c]) @ gap1 @ cs" "length gap1 = length gap"
    using overwrite_one [of pre gap c cs c] by blast
  have copied: "quoted_loop sk q ((pre @ gap @ c # cs)[length pre := c]) (length pre + length gap + 1) (length pre + 1) False =
      quoted_loop sk q ((pre @ [c]) @ gap1 @ cs) (length (pre @ [c]) + length gap1) (length (pre @ [c])) False"
    unfolding one by simp
  note copy = Cons.IH [of False gap1 "pre @ [c]", simplified]
  consider "c = 0" | "c \<noteq> 0" "slash" "c = 92 \<or> c = 39 \<or> c = 34" | "c \<noteq> 0" "slash" "\<not> (c = 92 \<or> c = 39 \<or> c = 34)"
    | "c \<noteq> 0" "\<not> slash" "\<not> sk \<and> c = 92" | "c \<noteq> 0" "\<not> slash" "\<not> (\<not> sk \<and> c = 92)" "c = q"
    | "c \<noteq> 0" "\<not> slash" "\<not> (\<not> sk \<and> c = 92)" "c \<noteq> q" by blast
  then show ?case
  proof cases
    case 1
    then show ?thesis using ql by simp
  next
    case 2
    then have "?loop = quoted_loop sk q ((pre @ [c]) @ gap1 @ cs) (length (pre @ [c]) + length gap1) (length (pre @ [c])) False"
      using ql copied by simp
    with copy 2 show ?thesis by (auto split: option.splits)
  next
    case 3
    with Cons.prems obtain g gs where gap: "gap = g # gs" by (cases gap) auto
    obtain gap2 where two: "(pre @ 92 # gs @ c # cs)[Suc (length pre) := c] = ((pre @ [92]) @ [c]) @ gap2 @ cs" "length gap2 = length gs"
      using overwrite_one [of "pre @ [92]" gs c cs c] by auto
    have "?loop = quoted_loop sk q ((pre @ [92, c]) @ gap2 @ cs) (length (pre @ [92, c]) + length gap2) (length (pre @ [92, c])) False"
      using ql 3 two octet_at_gap [of "pre @ [92]" gs "c # cs"] by (simp add: gap)
    with Cons.IH [of False gap2 "pre @ [92, c]"] 3 show ?thesis by (auto split: option.splits)
  next
    case 4
    then have "?loop = quoted_loop sk q (pre @ (gap @ [c]) @ cs) (length pre + length (gap @ [c])) (length pre) True"
      using ql by simp
    moreover have "unquote sk q slash (c # cs) = unquote sk q True cs" using 4 by simp
    ultimately show ?thesis using Cons.IH [of True "gap @ [c]" pre] by (simp only:) simp
  next
    case 5
    then have "?loop = Some (length pre + length gap + 1, ((pre @ gap @ c # cs)[length pre + length gap := 0])[length pre := 0])"
      by (subst ql) auto
    moreover have "(pre @ gap @ c # cs)[length pre + length gap := 0] = pre @ gap @ 0 # cs"
      using list_update_length [of "pre @ gap" c cs 0] by simp
    moreover obtain gap' where "(pre @ gap @ 0 # cs)[length pre := 0] = (pre @ [0]) @ gap' @ cs" "length gap' = length gap"
      using overwrite_one [of pre gap 0 cs 0] by blast
    ultimately have "?loop = Some (length (pre @ 0 # gap'), pre @ 0 # gap' @ cs)" by simp
    then show ?thesis using 5 by auto
  next
    case 6
    then have "?loop = quoted_loop sk q ((pre @ [c]) @ gap1 @ cs) (length (pre @ [c]) + length gap1) (length (pre @ [c])) False"
      using copied by (subst ql) auto
    with copy 6 show ?thesis by (auto split: option.splits)
  qed
qed


text \<open>A writer of quoted strings: a backslash before every backslash and quote.\<close>

definition quote_text :: "byte list \<Rightarrow> byte list" where
  "quote_text t = concat (map (\<lambda>c. if c = 92 \<or> c = 39 \<or> c = 34 then [92, c] else [c]) t)"

lemma unquote_quote_text:
  "0 \<notin> set t \<Longrightarrow> q = 39 \<or> q = 34 \<Longrightarrow> unquote False q False (quote_text t @ q # rest) = Some (t, rest)"
  by (induction t) (auto simp: quote_text_def)

lemma unquote_plain_text:
  "0 \<notin> set t \<Longrightarrow> q \<notin> set t \<Longrightarrow> q \<noteq> 0 \<Longrightarrow> unquote True q False (t @ q # rest) = Some (t, rest)"
  by (induction t) auto

lemma skip_spaces_all:
  "\<forall>c \<in> set ws. isspace c \<Longrightarrow> \<not> isspace c \<Longrightarrow> skip_spaces (pre @ ws @ c # cs) (length pre) = length pre + length ws"
proof (induction ws arbitrary: pre)
  case Nil
  then show ?case using octet_at_append [of pre "c # cs" 0] by (simp add: skip_spaces.simps)
next
  case (Cons w ws)
  have "w \<noteq> 0" using Cons.prems(1) by (auto simp: isspace_def)
  with Cons.prems Cons.IH [of "pre @ [w]"] octet_at_append [of pre "w # ws @ c # cs" 0] show ?case
    by (subst skip_spaces.simps) simp
qed

lemma getString_quoted:
  assumes "\<forall>c \<in> set ws. isspace c" "q = 39 \<or> q = 34" "unquote sk q False s = Some (t, rest)"
  shows "\<exists>i j m'. getString ended eq sk (ws @ q # s) = Some (i, j, m') \<and>
    (\<exists>gap. drop i m' = t @ 0 # gap) \<and> drop j m' = rest"
proof -
  have q: "\<not> isspace q" using assms(2) by (auto simp: isspace_def)
  have sp: "skip_spaces (ws @ q # s) 0 = length ws" using skip_spaces_all [OF assms(1) q, of "[]" s] by simp
  have at: "octet_at (ws @ q # s) (length ws) = q" using octet_at_append [of ws "q # s" 0] by simp
  from quoted_loop_unquote [where slash = False and gap = "[]" and sk = sk and q = q and s = s and pre = "ws @ [q]"] assms(3) obtain gap where
    "quoted_loop sk q (ws @ q # s) (length ws + 1) (length ws + 1) False =
      Some (length ((ws @ [q]) @ t @ 0 # gap), (ws @ [q]) @ t @ 0 # gap @ rest)" by auto
  then have "getString ended eq sk (ws @ q # s) =
      Some (length ws + 1, length ((ws @ [q]) @ t @ 0 # gap), (ws @ [q]) @ t @ 0 # gap @ rest)"
    using assms(2) by (auto simp: getString_def sp at Let_def)
  then show ?thesis by (intro exI conjI) auto
qed

text \<open>
  A quoted string whose quotes and backslashes are escaped, behind any white space, comes back
  unescaped as the C string at the returned pointer, although the scanner writes over its own
  input; the pointer to the rest is behind the closing quote and the rest is untouched.
\<close>

theorem getString_round_trip:
  assumes "\<forall>c \<in> set ws. isspace c" "q = 39 \<or> q = 34" "0 \<notin> set t"
  shows "\<exists>i j m'. getString ended eq False (ws @ q # quote_text t @ q # rest) = Some (i, j, m') \<and>
    c_string (drop i m') = Some t \<and> drop j m' = rest"
  using getString_quoted [OF assms(1,2) unquote_quote_text [OF assms(3,2)]] c_string_terminated [OF assms(3)] by metis

theorem getString_round_trip_witness:
  "\<exists>i j m'. getString None False False ([32] @ 34 # quote_text [97, 34, 92] @ 34 # [44, 0]) = Some (i, j, m') \<and>
    c_string (drop i m') = Some [97, 34, 92] \<and> drop j m' = [44, 0]"
  using getString_round_trip [of "[32]" 34 "[97, 34, 92]" None False "[44, 0]"] by (simp add: isspace_def)

section \<open>Immutable strings\<close>

lemma kgl_cmp_eq: "kgl_cmp s t = 0 \<longleftrightarrow> s = t"
  by (simp add: kgl_cmp_lex lex_cmp_zero)

text \<open>\<^verbatim>\<open>KString\<close>: a shared string or none.\<close>

type_synonym kstring = "byte list option"

definition ks_size :: "kstring \<Rightarrow> nat" where
  "ks_size s = (case s of None \<Rightarrow> 0 | Some t \<Rightarrow> length t)"

definition ks_find_str :: "byte list \<Rightarrow> kstring \<Rightarrow> nat option" where
  "ks_find_str d s = (case s of None \<Rightarrow> None | Some t \<Rightarrow> kgl_memstr t d)"

definition ks_find_last_of :: "byte \<Rightarrow> kstring \<Rightarrow> nat option" where
  "ks_find_last_of c s = (case s of None \<Rightarrow> None | Some t \<Rightarrow> kgl_memrchr t c)"

definition ks_find :: "byte \<Rightarrow> kstring \<Rightarrow> nat option" where
  "ks_find c s = (case s of None \<Rightarrow> None | Some t \<Rightarrow> memchr t c)"

text \<open>\<^verbatim>\<open>substr\<close>: \<open>Inl\<close> is the exception; without a count the rest is read as a C string.\<close>

definition ks_substr :: "nat \<Rightarrow> nat option \<Rightarrow> kstring \<Rightarrow> unit + kstring" where
  "ks_substr pos count s = (case s of
       None \<Rightarrow> Inr None
     | Some t \<Rightarrow>
         if length t < pos then Inl ()
         else case count of
             None \<Rightarrow> Inr (Some (takeWhile (\<lambda>c. c \<noteq> 0) (drop pos t)))
           | Some n \<Rightarrow> if length t < pos + n then Inr (Some (takeWhile (\<lambda>c. c \<noteq> 0) (drop pos t)))
                       else Inr (Some (take n (drop pos t))))"

lemma ks_find_splits: "ks_find c (Some t) = Some i \<Longrightarrow> ks_substr 0 (Some i) (Some t) = Inr (Some (takeWhile (\<lambda>x. x \<noteq> c) t)) \<and> t ! i = c"
proof -
  assume "ks_find c (Some t) = Some i"
  then have "memchr t c = Some i" by (simp add: ks_find_def)
  then have "i < length t \<and> t ! i = c \<and> take i t = takeWhile (\<lambda>x. x \<noteq> c) t"
    by (induction t arbitrary: i) (auto split: if_splits)
  then show ?thesis by (simp add: ks_substr_def)
qed

end
