(* ===== verification/KAutoArray.thy ===== *)
theory KAutoArray
  imports Main
begin

text \<open>
  The array of \<^verbatim>\<open>include/KAutoArray.h\<close>, which \<^verbatim>\<open>KXmlNode\<close> keeps its bodies in. A union holds one element
  directly or the pointer to an allocated array, and the number of elements decides which. The union
  is modelled with its active member: to read the other one, or a slot that was never written, is
  \<open>None\<close>, as is a failed assertion.
\<close>

section \<open>The array\<close>

datatype 'a aa_union = Null | Single 'a | is_Slots: Slots "'a option list"

record 'a auto_array =
  aa_mem :: "'a aa_union"
  aa_count :: nat
  aa_cap :: nat

definition last_pos :: nat where
  "last_pos = 2 ^ 32 - 1"

definition aa_new :: "'a auto_array" where
  "aa_new = \<lparr>aa_mem = Null, aa_count = 0, aa_cap = 0\<rparr>"

definition aa_from :: "'a option \<Rightarrow> 'a auto_array" where
  "aa_from x = (case x of None \<Rightarrow> aa_new | Some y \<Rightarrow> \<lparr>aa_mem = Single y, aa_count = 1, aa_cap = 0\<rparr>)"

definition read_body :: "'a auto_array \<Rightarrow> 'a option" where
  "read_body a = (case aa_mem a of Single x \<Rightarrow> Some x | _ \<Rightarrow> None)"

definition read_slot :: "'a auto_array \<Rightarrow> nat \<Rightarrow> 'a option" where
  "read_slot a i = (case aa_mem a of Slots s \<Rightarrow> if i < length s then s ! i else None | _ \<Rightarrow> None)"

text \<open>The results that may be a null pointer are options themselves.\<close>

definition aa_get :: "nat \<Rightarrow> 'a auto_array \<Rightarrow> 'a option option" where
  "aa_get index a = (
     if index \<ge> aa_count a then Some None
     else map_option Some (if aa_count a = 1 then read_body a else read_slot a index))"

definition aa_first :: "'a auto_array \<Rightarrow> 'a option option" where
  "aa_first a = (
     if aa_count a = 0 then Some None
     else map_option Some (if aa_count a = 1 then read_body a else read_slot a 0))"

definition aa_last :: "'a auto_array \<Rightarrow> 'a option option" where
  "aa_last a = (
     if aa_count a = 0 then Some None
     else map_option Some (if aa_count a = 1 then read_body a else read_slot a (aa_count a - 1)))"

text \<open>A loop from \<^verbatim>\<open>begin\<close> to \<^verbatim>\<open>end\<close> counts the position up to the size and dereferences it by \<^verbatim>\<open>get\<close>.\<close>

function aa_iterate :: "nat \<Rightarrow> 'a auto_array \<Rightarrow> 'a option list option" where
  "aa_iterate index a = (
     if index \<ge> aa_count a then Some []
     else case aa_get index a of None \<Rightarrow> None | Some x \<Rightarrow> map_option ((#) x) (aa_iterate (index + 1) a))"
  by pat_completeness auto
termination by (relation "measure (\<lambda>(i, a). aa_count a - i)") auto

declare aa_iterate.simps [simp del]

text \<open>\<^verbatim>\<open>kgl_realloc\<close> to so many slots; \<open>ok\<close> says whether there is memory.\<close>

definition realloc_slots :: "bool \<Rightarrow> nat \<Rightarrow> 'a auto_array \<Rightarrow> 'a auto_array option" where
  "realloc_slots ok n a = (
     case aa_mem a of
       Slots s \<Rightarrow> if ok then Some (a\<lparr>aa_mem := Slots (take n s @ replicate (n - length s) None)\<rparr>) else None
     | _ \<Rightarrow> None)"

definition shrink_to_fit :: "bool \<Rightarrow> 'a auto_array \<Rightarrow> 'a auto_array" where
  "shrink_to_fit ok a = (
     if aa_count a < 2 \<or> aa_count a = aa_cap a then a
     else case realloc_slots ok (aa_count a) a of None \<Rightarrow> a | Some a \<Rightarrow> a\<lparr>aa_cap := aa_count a\<rparr>)"

definition aa_remove :: "nat \<Rightarrow> 'a auto_array \<Rightarrow> ('a option \<times> 'a auto_array) option" where
  "aa_remove index a = (
     if index \<ge> aa_count a then Some (None, a)
     else if aa_count a = 1 then
       (case read_body a of
          None \<Rightarrow> None
        | Some x \<Rightarrow> if aa_cap a \<noteq> 0 then None else Some (Some x, a\<lparr>aa_mem := Null, aa_count := 0\<rparr>))
     else if aa_count a = 2 then
       if aa_cap a < 2 then None
       else case (read_slot a index, read_slot a (1 - index)) of
         (Some x, Some saved_body) \<Rightarrow> Some (Some x, a\<lparr>aa_mem := Single saved_body, aa_count := 1\<rparr>)
       | _ \<Rightarrow> None
     else
       case (read_slot a index, aa_mem a) of
         (Some x, Slots s) \<Rightarrow>
           let n = aa_count a - index - 1 in
           Some (Some x, a\<lparr>aa_mem := Slots (take index s @ take n (drop (index + 1) s) @ drop (index + n) s), aa_count := aa_count a - 1\<rparr>)
       | _ \<Rightarrow> None)"

definition aa_remove_last :: "'a auto_array \<Rightarrow> ('a option \<times> 'a auto_array) option" where
  "aa_remove_last a = (
     if aa_count a = 0 then Some (None, a)
     else if aa_count a = 1 then
       (case read_body a of
          None \<Rightarrow> None
        | Some x \<Rightarrow> if aa_cap a \<noteq> 0 then None else Some (Some x, a\<lparr>aa_mem := Null, aa_count := 0\<rparr>))
     else if aa_count a = 2 then
       (case (read_slot a 1, read_slot a 0) of
          (Some x, Some saved_body) \<Rightarrow>
            if aa_cap a < 2 then None else Some (Some x, a\<lparr>aa_mem := Single saved_body, aa_count := 1, aa_cap := 0\<rparr>)
        | _ \<Rightarrow> None)
     else if aa_cap a < aa_count a then None
     else map_option (\<lambda>x. (Some x, a\<lparr>aa_count := aa_count a - 1\<rparr>)) (read_slot a (aa_count a - 1)))"

text \<open>
  \<^verbatim>\<open>insert\<close>: what is thrown, if anything; the element that could not be inserted has then been
  deleted. The capacity has 32 bits.
\<close>

datatype aa_exception = Bad_Alloc | Out_Of_Range

definition put_slot :: "nat \<Rightarrow> 'a \<Rightarrow> 'a auto_array \<Rightarrow> 'a auto_array option" where
  "put_slot i x a = (case aa_mem a of
       Slots s \<Rightarrow> if i < length s then Some (a\<lparr>aa_mem := Slots (s[i := Some x]), aa_count := aa_count a + 1\<rparr>) else None
     | _ \<Rightarrow> None)"

definition aa_grow :: "bool \<Rightarrow> 'a auto_array \<Rightarrow> 'a auto_array option" where
  "aa_grow ok a = (
     if aa_count a = aa_cap a then
       let n = aa_cap a * 2 mod 2 ^ 32 in map_option (\<lambda>a. a\<lparr>aa_cap := n\<rparr>) (realloc_slots ok n a)
     else Some a)"

definition open_slot :: "nat \<Rightarrow> 'a auto_array \<Rightarrow> 'a auto_array option" where
  "open_slot i a = (case aa_mem a of
       Slots s \<Rightarrow>
         if aa_count a < length s then
           Some (a\<lparr>aa_mem := Slots (take (i + 1) s @ take (aa_count a - i) (drop i s) @ drop (aa_count a + 1) s)\<rparr>)
         else None
     | _ \<Rightarrow> None)"

definition aa_insert :: "bool \<Rightarrow> 'a \<Rightarrow> nat \<Rightarrow> 'a auto_array \<Rightarrow> (aa_exception option \<times> 'a auto_array) option" where
  "aa_insert ok x index a = (
     if aa_count a = 0 then
       if aa_cap a \<noteq> 0 then None else Some (None, a\<lparr>aa_mem := Single x, aa_count := 1\<rparr>)
     else if aa_count a = 1 then
       if aa_cap a \<noteq> 0 then None
       else
         let a = a\<lparr>aa_cap := 2\<rparr> in
         if \<not> ok then Some (Some Bad_Alloc, a)
         else map_option (\<lambda>y. (None, a\<lparr>aa_mem := Slots (if index = 0 then [Some x, Some y] else [Some y, Some x]), aa_count := 2\<rparr>))
           (read_body a)
     else if aa_count a > aa_cap a \<or> \<not> is_Slots (aa_mem a) then None
     else
       case aa_grow ok a of
         None \<Rightarrow> Some (Some Bad_Alloc, a)
       | Some a \<Rightarrow>
           if index = last_pos \<or> index = aa_count a then map_option (Pair None) (put_slot (aa_count a) x a)
           else if index > aa_count a then Some (Some Out_Of_Range, a)
           else case open_slot index a of
             None \<Rightarrow> None
           | Some a \<Rightarrow> map_option (Pair None) (put_slot index x a))"

text \<open>The destructor: the elements it deletes.\<close>

definition aa_destroy :: "'a auto_array \<Rightarrow> 'a list option" where
  "aa_destroy a = (
     if aa_mem a = Null then Some []
     else if aa_count a = 0 then None
     else if aa_count a = 1 then map_option (\<lambda>x. [x]) (read_body a)
     else those (map (read_slot a) [0..<aa_count a]))"

section \<open>The list it holds\<close>

text \<open>The union is what the number of elements says, and the slots in use hold the elements.\<close>

definition slots_hold :: "'a auto_array \<Rightarrow> 'a list \<Rightarrow> bool" where
  "slots_hold a xs \<longleftrightarrow> (\<exists>s. aa_mem a = Slots s \<and> length s = aa_cap a \<and> length xs \<le> length s \<and> take (length xs) s = map Some xs)"

definition aa_rep :: "'a auto_array \<Rightarrow> 'a list \<Rightarrow> bool" where
  "aa_rep a xs \<longleftrightarrow> aa_count a = length xs \<and>
     (case xs of [] \<Rightarrow> aa_mem a = Null | [x] \<Rightarrow> aa_mem a = Single x | _ \<Rightarrow> slots_hold a xs)"

lemma aa_rep_new: "aa_rep aa_new []" "aa_rep (aa_from x) (case x of None \<Rightarrow> [] | Some y \<Rightarrow> [y])"
  by (simp_all add: aa_rep_def aa_new_def aa_from_def split: option.split)

lemma aa_rep_many: "2 \<le> length xs \<Longrightarrow> aa_rep a xs \<longleftrightarrow> aa_count a = length xs \<and> slots_hold a xs"
  by (cases xs; cases "tl xs") (auto simp: aa_rep_def)

lemma aa_rep_cases:
  assumes "aa_rep a xs"
  obtains (None) "xs = []" "aa_mem a = Null" "aa_count a = 0"
    | (One) x where "xs = [x]" "aa_mem a = Single x" "aa_count a = 1"
    | (Many) "2 \<le> length xs" "slots_hold a xs" "aa_count a = length xs"
  using assms by (cases xs; cases "tl xs") (auto simp: aa_rep_def)

lemma slots_hold_nth:
  assumes "slots_hold a xs" "i < length xs"
  shows "read_slot a i = Some (xs ! i)"
proof -
  obtain s where s: "aa_mem a = Slots s" "length xs \<le> length s" "take (length xs) s = map Some xs"
    using assms(1) unfolding slots_hold_def by blast
  have "s ! i = take (length xs) s ! i"
    using assms(2) by simp
  then show ?thesis
    using s assms(2) by (simp add: read_slot_def)
qed

text \<open>Reading.\<close>

lemma aa_get_rep: "aa_rep a xs \<Longrightarrow> aa_get i a = Some (if i < length xs then Some (xs ! i) else None)"
  by (erule aa_rep_cases) (auto simp: aa_get_def read_body_def slots_hold_nth not_le)

lemma aa_first_rep: "aa_rep a xs \<Longrightarrow> aa_first a = Some (if xs = [] then None else Some (hd xs))"
  by (erule aa_rep_cases) (auto simp: aa_first_def read_body_def slots_hold_nth hd_conv_nth)

lemma aa_last_rep: "aa_rep a xs \<Longrightarrow> aa_last a = Some (if xs = [] then None else Some (last xs))"
  by (erule aa_rep_cases) (auto simp: aa_last_def read_body_def slots_hold_nth last_conv_nth)

lemma aa_iterate_rep: "aa_rep a xs \<Longrightarrow> aa_iterate i a = Some (map Some (drop i xs))"
proof (induction i a rule: aa_iterate.induct)
  case (1 i a)
  have "aa_count a = length xs"
    using 1 by (simp add: aa_rep_def)
  then show ?case
    using 1 aa_get_rep [OF 1(2), of i] by (subst aa_iterate.simps) (simp add: Cons_nth_drop_Suc flip: list.map(2))
qed

lemma those_map_Some: "those (map Some xs) = Some xs"
  by (induction xs) simp_all

lemma aa_destroy_rep:
  assumes "aa_rep a xs"
  shows "aa_destroy a = Some xs"
  using assms
proof (cases rule: aa_rep_cases)
  case Many
  then have "map (read_slot a) [0..<aa_count a] = map Some xs"
    by (intro nth_equalityI) (simp_all add: slots_hold_nth)
  moreover have "aa_mem a \<noteq> Null"
    using Many(2) by (auto simp: slots_hold_def)
  ultimately show ?thesis
    using Many by (auto simp: aa_destroy_def those_map_Some)
qed (auto simp: aa_destroy_def read_body_def)

text \<open>Changing.\<close>

definition without :: "nat \<Rightarrow> 'a list \<Rightarrow> 'a list" where
  "without i xs = take i xs @ drop (i + 1) xs"

text \<open>
  With fewer than two elements the capacity should be 0. \<open>stale\<close> says that it is not, and then the
  assertion of the next operation that adds or takes an element fails.
\<close>

definition aa_state :: "'a auto_array \<Rightarrow> 'a list \<Rightarrow> bool \<Rightarrow> bool" where
  "aa_state a xs stale \<longleftrightarrow> aa_rep a xs \<and> (length xs < 2 \<longrightarrow> (stale \<longleftrightarrow> aa_cap a \<noteq> 0))"

lemma shrink_to_fit_rep: "aa_rep a xs \<Longrightarrow> aa_rep (shrink_to_fit ok a) xs"
proof (erule aa_rep_cases)
  assume "2 \<le> length xs" "slots_hold a xs" "aa_count a = length xs"
  then show ?thesis
    by (auto simp: aa_rep_many shrink_to_fit_def realloc_slots_def slots_hold_def)
qed (simp_all add: shrink_to_fit_def aa_rep_def)

lemma shrink_to_fit_state: "aa_state a xs stale \<Longrightarrow> aa_state (shrink_to_fit ok a) xs stale"
  using shrink_to_fit_rep [of a xs ok] by (auto simp: aa_state_def shrink_to_fit_def aa_rep_def split: option.splits)

lemma slots_prefix: "take (length xs) s = map Some xs \<Longrightarrow> n \<le> length xs \<Longrightarrow> take n s = map Some (take n xs)"
  by (metis min.absorb1 take_map take_take)

lemma slots_suffix: "take (length xs) s = map Some xs \<Longrightarrow> take (length xs - n) (drop n s) = map Some (drop n xs)"
  by (metis drop_map drop_take)

lemma memmove_left:
  assumes "take (length xs) s = map Some xs" "i < length xs" "length xs \<le> length s"
  shows "take (length xs - 1) (take i s @ take (length xs - i - 1) (drop (i + 1) s) @ drop (i + (length xs - i - 1)) s) = map Some (without i xs)"
    and "length (take i s @ take (length xs - i - 1) (drop (i + 1) s) @ drop (i + (length xs - i - 1)) s) = length s"
proof -
  have "take i s = map Some (take i xs)"
    using assms by (intro slots_prefix) simp_all
  moreover have "take (length xs - i - 1) (drop (i + 1) s) = map Some (drop (i + 1) xs)"
    using slots_suffix [OF assms(1), of "i + 1"] by simp
  ultimately show "take (length xs - 1) (take i s @ take (length xs - i - 1) (drop (i + 1) s) @ drop (i + (length xs - i - 1)) s) = map Some (without i xs)"
    using assms by (simp add: without_def)
  show "length (take i s @ take (length xs - i - 1) (drop (i + 1) s) @ drop (i + (length xs - i - 1)) s) = length s"
    using assms by simp
qed

lemma aa_remove_rep:
  assumes "aa_state a xs stale" "i < length xs" "\<not> (stale \<and> length xs < 2)"
  shows "\<exists>a'. aa_remove i a = Some (Some (xs ! i), a') \<and> aa_state a' (without i xs) (stale \<or> length xs = 2)"
proof -
  have rep: "aa_rep a xs" and cap: "length xs < 2 \<longrightarrow> aa_cap a = 0"
    using assms(1,3) by (auto simp: aa_state_def)
  from rep show ?thesis
  proof (cases rule: aa_rep_cases)
    case None
    then show ?thesis using assms by simp
  next
    case (One x)
    with cap assms show ?thesis by (auto simp: aa_remove_def read_body_def aa_rep_def aa_state_def without_def)
  next
    case Many
    note nth = slots_hold_nth [OF Many(2)]
    have room: "length xs \<le> aa_cap a" using Many(2) by (auto simp: slots_hold_def)
    show ?thesis
    proof (cases "length xs = 2")
      case True
      then obtain x y where xs: "xs = [x, y]"
        by (auto simp: numeral_2_eq_2 length_Suc_conv)
      have "i = 0 \<or> i = 1"
        using assms(2) True by auto
      then show ?thesis
        using Many room nth [of 0] nth [of 1] by (auto simp: xs aa_remove_def without_def aa_rep_def aa_state_def)
    next
      case False
      obtain s where s: "aa_mem a = Slots s" "length s = aa_cap a" "length xs \<le> length s" "take (length xs) s = map Some xs"
        using Many(2) unfolding slots_hold_def by blast
      have "length (without i xs) = length xs - 1" "3 \<le> length xs"
        using assms(2) False Many(1) by (auto simp: without_def)
      then have "length xs - 1 \<le> aa_cap a" "\<not> length xs - 1 < 2" using room by linarith+
      with \<open>length (without i xs) = length xs - 1\<close> show ?thesis
        using Many False assms(2) s memmove_left [OF s(4) assms(2) s(3)] nth [OF assms(2)]
        by (simp add: aa_remove_def Let_def aa_rep_many aa_state_def slots_hold_def)
    qed
  qed
qed

lemma aa_remove_last_rep:
  assumes "aa_state a xs stale" "xs \<noteq> []" "\<not> (stale \<and> length xs < 2)"
  shows "\<exists>a'. aa_remove_last a = Some (Some (last xs), a') \<and> aa_state a' (butlast xs) (stale \<and> length xs < 2)"
proof -
  have rep: "aa_rep a xs" and cap: "length xs < 2 \<longrightarrow> aa_cap a = 0"
    using assms(1,3) by (auto simp: aa_state_def)
  from rep show ?thesis
  proof (cases rule: aa_rep_cases)
    case None
    then show ?thesis using assms by simp
  next
    case (One x)
    with cap assms(3) show ?thesis by (auto simp: aa_remove_last_def read_body_def aa_rep_def aa_state_def)
  next
    case Many
    note nth = slots_hold_nth [OF Many(2)]
    have room: "length xs \<le> aa_cap a" using Many(2) by (auto simp: slots_hold_def)
    show ?thesis
    proof (cases "length xs = 2")
      case True
      then obtain x y where xs: "xs = [x, y]"
        by (auto simp: numeral_2_eq_2 length_Suc_conv)
      then show ?thesis
        using Many room nth [of 0] nth [of 1] by (auto simp: aa_remove_last_def aa_rep_def aa_state_def)
    next
      case False
      have "slots_hold (a\<lparr>aa_count := length xs - 1\<rparr>) (butlast xs)"
        using Many(2) by (auto simp: slots_hold_def slots_prefix butlast_conv_take)
      then show ?thesis
        using Many False room assms(2) nth [of "length xs - 1"]
        by (simp add: aa_remove_last_def aa_rep_many aa_state_def last_conv_nth)
    qed
  qed
qed

lemma memmove_right:
  assumes "take (length xs) s = map Some xs" "i < length xs" "length xs < length s"
  shows "take (length xs + 1) ((take (i + 1) s @ take (length xs - i) (drop i s) @ drop (length xs + 1) s)[i := Some x])
      = map Some (take i xs @ x # drop i xs)"
    and "length (take (i + 1) s @ take (length xs - i) (drop i s) @ drop (length xs + 1) s) = length s"
proof -
  have "take (i + 1) s = map Some (take i xs) @ [Some (xs ! i)]"
    using assms slots_prefix [OF assms(1), of "i + 1"] by (simp add: take_Suc_conv_app_nth)
  moreover have "take (length xs - i) (drop i s) = map Some (drop i xs)"
    by (rule slots_suffix [OF assms(1)])
  ultimately show "take (length xs + 1) ((take (i + 1) s @ take (length xs - i) (drop i s) @ drop (length xs + 1) s)[i := Some x])
      = map Some (take i xs @ x # drop i xs)"
    using assms by (simp add: list_update_append Suc_diff_le)
  show "length (take (i + 1) s @ take (length xs - i) (drop i s) @ drop (length xs + 1) s) = length s"
    using assms by simp
qed

lemma put_slot_end:
  assumes "slots_hold a xs" "aa_count a = length xs" "length xs < aa_cap a" "2 \<le> length xs"
  shows "\<exists>a'. put_slot (length xs) x a = Some a' \<and> aa_rep a' (xs @ [x])"
  using assms by (auto simp: slots_hold_def put_slot_def aa_rep_many take_Suc_conv_app_nth)

lemma put_slot_inside:
  assumes "slots_hold a xs" "aa_count a = length xs" "length xs < aa_cap a" "2 \<le> length xs" "i < length xs"
  shows "\<exists>a1 a2. open_slot i a = Some a1 \<and> put_slot i x a1 = Some a2 \<and> aa_rep a2 (take i xs @ x # drop i xs)"
proof -
  obtain s where s: "aa_mem a = Slots s" "length s = aa_cap a" "take (length xs) s = map Some xs"
    using assms(1) unfolding slots_hold_def by blast
  then have room: "length xs < length s"
    using assms(3) by simp
  show ?thesis
    using assms s room memmove_right [OF s(3) assms(5) room]
    by (simp add: open_slot_def put_slot_def aa_rep_many slots_hold_def)
qed

lemma aa_grow_hold:
  assumes "slots_hold a xs" "aa_count a = length xs" "2 \<le> length xs" "length xs < 2 ^ 31" "aa_grow ok a = Some a'"
  shows "slots_hold a' xs \<and> aa_count a' = length xs \<and> length xs < aa_cap a'"
  using assms by (auto simp: slots_hold_def aa_grow_def realloc_slots_def Let_def split: if_splits)

lemma aa_grow_fails: "slots_hold a xs \<Longrightarrow> aa_grow ok a = None \<Longrightarrow> \<not> ok"
  by (auto simp: slots_hold_def aa_grow_def realloc_slots_def Let_def split: if_splits)

section \<open>What every operation does to the list\<close>

datatype 'a aa_op = Insert bool 'a nat | Remove nat | Remove_Last | Shrink bool

datatype 'a aa_answer = Thrown "aa_exception option" | Given "'a option" | Void

definition aa_step :: "'a aa_op \<Rightarrow> 'a auto_array \<Rightarrow> ('a aa_answer \<times> 'a auto_array) option" where
  "aa_step c a = (case c of
       Insert ok x i \<Rightarrow> map_option (map_prod Thrown id) (aa_insert ok x i a)
     | Remove i \<Rightarrow> map_option (map_prod Given id) (aa_remove i a)
     | Remove_Last \<Rightarrow> map_option (map_prod Given id) (aa_remove_last a)
     | Shrink ok \<Rightarrow> Some (Void, shrink_to_fit ok a))"

text \<open>
  The operations on lists. Insertion may fail for want of memory, if the array had an element, and
  with two elements or more for a position behind the end; with one element or none every position
  behind the end is the end.
\<close>

definition list_step :: "'a aa_op \<Rightarrow> 'a list \<Rightarrow> 'a aa_answer \<Rightarrow> 'a list \<Rightarrow> bool" where
  "list_step c xs r ys = (case c of
       Insert ok x i \<Rightarrow>
         r = Thrown None \<and> ys = take i xs @ x # drop i xs \<and> (length xs < 2 \<or> i \<le> length xs \<or> i = last_pos)
         \<or> r = Thrown (Some Bad_Alloc) \<and> ys = xs \<and> \<not> ok \<and> xs \<noteq> []
         \<or> r = Thrown (Some Out_Of_Range) \<and> ys = xs \<and> 2 \<le> length xs \<and> length xs < i \<and> i \<noteq> last_pos
     | Remove i \<Rightarrow> r = Given (if i < length xs then Some (xs ! i) else None) \<and> ys = without i xs
     | Remove_Last \<Rightarrow> r = Given (if xs = [] then None else Some (last xs)) \<and> ys = butlast xs
     | Shrink ok \<Rightarrow> r = Void \<and> ys = xs)"

text \<open>
  When an assertion fails, and when the capacity is left behind: by a second element there was no
  memory for, and by taking one of two elements by its position.
\<close>

definition asserts_fail :: "'a aa_op \<Rightarrow> 'a list \<Rightarrow> bool \<Rightarrow> bool" where
  "asserts_fail c xs stale \<longleftrightarrow> stale \<and> length xs < 2 \<and> (case c of
       Insert _ _ _ \<Rightarrow> True
     | Remove i \<Rightarrow> i < length xs
     | Remove_Last \<Rightarrow> xs \<noteq> []
     | Shrink _ \<Rightarrow> False)"

definition stale_after :: "'a aa_op \<Rightarrow> 'a list \<Rightarrow> bool \<Rightarrow> bool" where
  "stale_after c xs stale \<longleftrightarrow> (case c of
       Insert ok _ _ \<Rightarrow> length xs = 1 \<and> \<not> ok
     | Remove i \<Rightarrow> stale \<or> length xs = 2 \<and> i < 2
     | Remove_Last \<Rightarrow> stale \<and> length xs < 2
     | Shrink _ \<Rightarrow> stale)"

definition simulated :: "'a aa_op \<Rightarrow> 'a list \<Rightarrow> bool \<Rightarrow> ('a aa_answer \<times> 'a auto_array) option \<Rightarrow> bool" where
  "simulated c xs stale res \<longleftrightarrow> (case res of
       None \<Rightarrow> asserts_fail c xs stale
     | Some (r, a) \<Rightarrow> \<not> asserts_fail c xs stale \<and> (\<exists>ys. list_step c xs r ys \<and> aa_state a ys (stale_after c xs stale)))"

lemma aa_state_many: "2 \<le> length xs \<Longrightarrow> aa_state a xs stale \<longleftrightarrow> aa_rep a xs"
  by (simp add: aa_state_def)

lemma insert_step_many:
  assumes "2 \<le> length xs" "slots_hold a xs" "aa_count a = length xs" "length xs < 2 ^ 31"
  shows "simulated (Insert ok x i) xs stale (aa_step (Insert ok x i) a)"
proof -
  have live: "\<not> asserts_fail (Insert ok x i) xs stale" using assms(1) by (simp add: asserts_fail_def)
  have "\<exists>r a' ys. aa_step (Insert ok x i) a = Some (r, a') \<and> list_step (Insert ok x i) xs r ys \<and> 2 \<le> length ys \<and> aa_rep a' ys"
  proof (cases "aa_grow ok a")
    case None
    then show ?thesis
      using assms aa_grow_fails [OF assms(2) None]
      by (auto simp: aa_step_def aa_insert_def list_step_def aa_rep_many slots_hold_def)
  next
    case (Some b)
    note b = aa_grow_hold [OF assms(2,3,1,4) Some]
    have start: "aa_insert ok x i a = (
        if i = last_pos \<or> i = length xs then map_option (Pair None) (put_slot (length xs) x b)
        else if i > length xs then Some (Some Out_Of_Range, b)
        else case open_slot i b of None \<Rightarrow> None | Some b \<Rightarrow> map_option (Pair None) (put_slot i x b))"
      using assms b Some by (auto simp: aa_insert_def slots_hold_def)
    consider "i = last_pos \<or> i = length xs" | "i \<noteq> last_pos" "i > length xs" | "i \<noteq> last_pos" "i < length xs"
      by linarith
    then show ?thesis
    proof cases
      case 1
      then have "length xs \<le> i"
        using assms(4) by (auto simp: last_pos_def)
      then show ?thesis
        using 1 put_slot_end [of b xs x] b assms(1) by (auto simp: aa_step_def start list_step_def)
    next
      case 2
      then show ?thesis
        using b assms(1) by (auto simp: aa_step_def start list_step_def aa_rep_many)
    next
      case 3
      then show ?thesis
        using put_slot_inside [of b xs i x] b assms(1) by (auto simp: aa_step_def start list_step_def)
    qed
  qed
  then show ?thesis using live aa_state_many by (fastforce simp: simulated_def)
qed

lemma insert_step_few:
  assumes "aa_state a xs stale" "length xs < 2"
  shows "simulated (Insert ok x i) xs stale (aa_step (Insert ok x i) a)"
proof -
  have rep: "aa_rep a xs" and cap: "stale \<longleftrightarrow> aa_cap a \<noteq> 0"
    using assms by (simp_all add: aa_state_def)
  show ?thesis
  proof (cases stale)
    case True
    have "aa_count a = length xs" using rep by (simp add: aa_rep_def)
    then have "aa_count a = 0 \<or> aa_count a = 1" using assms(2) by linarith
    then have "aa_insert ok x i a = None" using True cap by (auto simp: aa_insert_def)
    then show ?thesis using True assms(2) by (simp add: simulated_def asserts_fail_def aa_step_def)
  next
    case False
    with cap have zero: "aa_cap a = 0" by simp
    from rep show ?thesis
    proof (cases rule: aa_rep_cases)
      case None
      then show ?thesis using zero False
        by (auto simp: simulated_def asserts_fail_def stale_after_def aa_step_def aa_insert_def list_step_def aa_rep_def aa_state_def)
    next
      case (One y)
      have "take i [y] @ x # drop i [y] = (if i = 0 then [x, y] else [y, x])"
        by (cases i) simp_all
      then show ?thesis
        using One zero False
        by (cases ok; cases "i = 0")
          (auto simp: simulated_def asserts_fail_def stale_after_def aa_step_def aa_insert_def list_step_def aa_rep_def
             aa_state_def slots_hold_def read_body_def Let_def)
    qed (use assms(2) in simp)
  qed
qed

lemma remove_step:
  assumes "aa_state a xs stale"
  shows "simulated (Remove i) xs stale (aa_step (Remove i) a)"
proof -
  have count: "aa_count a = length xs" using assms by (simp add: aa_state_def aa_rep_def)
  consider (Behind) "i \<ge> length xs" | (Fails) "i < length xs" "stale" "length xs < 2" | (Taken) "i < length xs" "\<not> (stale \<and> length xs < 2)"
    by linarith
  then show ?thesis
  proof cases
    case Behind
    then have "(stale \<or> length xs = 2 \<and> i < 2) = stale" by auto
    with Behind show ?thesis using count assms
      by (auto simp: simulated_def asserts_fail_def stale_after_def aa_step_def list_step_def aa_remove_def without_def)
  next
    case Fails
    then obtain x where "xs = [x]" by (cases xs; cases "tl xs") auto
    with Fails assms show ?thesis
      by (auto simp: simulated_def asserts_fail_def aa_step_def aa_remove_def aa_state_def aa_rep_def read_body_def)
  next
    case Taken
    then have "(stale \<or> length xs = 2 \<and> i < 2) = (stale \<or> length xs = 2)" by auto
    with aa_remove_rep [OF assms Taken] Taken show ?thesis
      by (auto simp: simulated_def asserts_fail_def stale_after_def aa_step_def list_step_def)
  qed
qed

lemma remove_last_step:
  assumes "aa_state a xs stale"
  shows "simulated Remove_Last xs stale (aa_step Remove_Last a)"
proof -
  have count: "aa_count a = length xs" using assms by (simp add: aa_state_def aa_rep_def)
  consider (Empty) "xs = []" | (Fails) "xs \<noteq> []" "stale" "length xs < 2" | (Taken) "xs \<noteq> []" "\<not> (stale \<and> length xs < 2)"
    by blast
  then show ?thesis
  proof cases
    case Empty
    then show ?thesis using count assms
      by (auto simp: simulated_def asserts_fail_def stale_after_def aa_step_def list_step_def aa_remove_last_def)
  next
    case Fails
    then obtain x where "xs = [x]" by (cases xs; cases "tl xs") auto
    with Fails assms show ?thesis
      by (auto simp: simulated_def asserts_fail_def aa_step_def aa_remove_last_def aa_state_def aa_rep_def read_body_def)
  next
    case Taken
    from aa_remove_last_rep [OF assms this] Taken show ?thesis
      by (auto simp: simulated_def asserts_fail_def stale_after_def aa_step_def list_step_def)
  qed
qed

lemma aa_step_simulates:
  assumes "aa_state a xs stale" "length xs < 2 ^ 31"
  shows "simulated c xs stale (aa_step c a)"
proof (cases c)
  case (Insert ok x i)
  then show ?thesis
    using assms insert_step_few insert_step_many aa_rep_many [of xs a] by (metis aa_state_def not_less)
next
  case (Shrink ok)
  then show ?thesis
    using shrink_to_fit_state [OF assms(1)]
    by (auto simp: simulated_def asserts_fail_def stale_after_def aa_step_def list_step_def)
qed (use assms(1) remove_step remove_last_step in auto)

lemma list_step_length: "list_step c xs r ys \<Longrightarrow> length ys \<le> length xs + 1"
  by (auto simp: list_step_def without_def split: aa_op.splits)

text \<open>A sequence of operations, with their answers; the run of lists ends with \<open>None\<close> where an assertion fails.\<close>

fun aa_run :: "'a aa_op list \<Rightarrow> 'a auto_array \<Rightarrow> ('a aa_answer list \<times> 'a auto_array) option" where
  "aa_run [] a = Some ([], a)"
| "aa_run (c # cs) a = (case aa_step c a of
       None \<Rightarrow> None
     | Some (r, a) \<Rightarrow> map_option (\<lambda>(rs, a). (r # rs, a)) (aa_run cs a))"

inductive list_run :: "'a aa_op list \<Rightarrow> 'a list \<Rightarrow> bool \<Rightarrow> ('a aa_answer list \<times> 'a list) option \<Rightarrow> bool" where
  stop: "list_run [] xs stale (Some ([], xs))"
| abort: "asserts_fail c xs stale \<Longrightarrow> list_run (c # cs) xs stale None"
| step: "\<not> asserts_fail c xs stale \<Longrightarrow> list_step c xs r ys \<Longrightarrow> list_run cs ys (stale_after c xs stale) res \<Longrightarrow>
    list_run (c # cs) xs stale (map_option (map_prod ((#) r) id) res)"

definition run_simulated :: "('a aa_answer list \<times> 'a auto_array) option \<Rightarrow> ('a aa_answer list \<times> 'a list) option \<Rightarrow> bool" where
  "run_simulated res lres \<longleftrightarrow> rel_option (rel_prod (=) aa_rep) res lres"

lemma aa_run_simulates:
  "aa_state a xs stale \<Longrightarrow> length xs + length cs < 2 ^ 31 \<Longrightarrow> \<exists>lres. list_run cs xs stale lres \<and> run_simulated (aa_run cs a) lres"
proof (induction cs arbitrary: a xs stale)
  case Nil
  then show ?case
    by (auto simp: run_simulated_def aa_state_def intro: list_run.stop)
next
  case (Cons c cs)
  have sim: "simulated c xs stale (aa_step c a)"
    using aa_step_simulates [OF Cons.prems(1)] Cons.prems(2) by simp
  show ?case
  proof (cases "aa_step c a")
    case None
    with sim show ?thesis by (auto simp: simulated_def run_simulated_def intro: list_run.abort)
  next
    case (Some rb)
    then obtain r b ys where b: "aa_step c a = Some (r, b)" "\<not> asserts_fail c xs stale" "list_step c xs r ys"
      "aa_state b ys (stale_after c xs stale)"
      using sim by (cases rb) (auto simp: simulated_def)
    then obtain lres where l: "list_run cs ys (stale_after c xs stale) lres" "run_simulated (aa_run cs b) lres"
      using Cons.IH [OF b(4)] list_step_length [OF b(3)] Cons.prems(2) by fastforce
    have "run_simulated (aa_run (c # cs) a) (map_option (map_prod ((#) r) id) lres)"
      using b(1) l(2) by (cases "aa_run cs b"; cases lres) (auto simp: run_simulated_def)
    then show ?thesis using list_run.step [OF b(2,3) l(1)] by blast
  qed
qed

section \<open>Properties\<close>

text \<open>
  C40: operations on an array that starts empty, with memory running out at any time. Either an
  assertion of the array fails, and then exactly where the capacity was left behind with fewer than
  two elements; or the union is only read as the member that was stored in it last and only at slots
  that were written: each operation returns or throws as the operation on lists, every position and an
  iteration read as in the list, and the destructor deletes exactly the elements of the list.
\<close>

theorem union_read_as_stored:
  assumes "length cs < 2 ^ 31"
  shows "case aa_run cs aa_new of
      None \<Rightarrow> list_run cs [] False None
    | Some (rs, a) \<Rightarrow> \<exists>xs. list_run cs [] False (Some (rs, xs)) \<and> aa_count a = length xs \<and>
        (\<forall>i. aa_get i a = Some (if i < length xs then Some (xs ! i) else None)) \<and>
        aa_first a = Some (if xs = [] then None else Some (hd xs)) \<and>
        aa_last a = Some (if xs = [] then None else Some (last xs)) \<and>
        aa_iterate 0 a = Some (map Some xs) \<and> aa_destroy a = Some xs"
proof -
  have "aa_state aa_new [] False" using aa_rep_new(1) by (simp add: aa_state_def aa_new_def)
  from aa_run_simulates [OF this] assms obtain lres where
    run: "list_run cs [] False lres" "run_simulated (aa_run cs aa_new) lres" by force
  show ?thesis
  proof (cases "aa_run cs aa_new")
    case None
    with run show ?thesis by (simp add: run_simulated_def)
  next
    case (Some ra)
    then obtain rs a xs where ra: "aa_run cs aa_new = Some (rs, a)" "lres = Some (rs, xs)" "aa_rep a xs"
      using run(2) by (cases ra; cases lres) (auto simp: run_simulated_def)
    have "aa_count a = length xs" using ra(3) by (simp add: aa_rep_def)
    moreover have "aa_iterate 0 a = Some (map Some xs)" using aa_iterate_rep [OF ra(3), of 0] by simp
    ultimately show ?thesis
      using run(1) ra aa_get_rep [OF ra(3)] aa_first_rep [OF ra(3)] aa_last_rep [OF ra(3)] aa_destroy_rep [OF ra(3)]
      by (auto intro!: exI [of _ xs])
  qed
qed

definition example_ops :: "nat aa_op list" where
  "example_ops = [Insert True 1 0, Insert True 3 last_pos, Insert False 2 0, Insert True 4 1, Shrink True, Remove 0, Remove_Last]"

lemma example_run: "aa_run example_ops aa_new = Some
  ([Thrown None, Thrown None, Thrown (Some Bad_Alloc), Thrown None, Void, Given (Some 1), Given (Some 3)],
   \<lparr>aa_mem = Single 4, aa_count = 1, aa_cap = 0\<rparr>)"
  by (simp add: example_ops_def aa_step_def aa_insert_def aa_new_def read_body_def read_slot_def Let_def aa_grow_def
      realloc_slots_def put_slot_def open_slot_def shrink_to_fit_def aa_remove_def aa_remove_last_def last_pos_def)

theorem union_read_as_stored_witness:
  "\<exists>rs a xs. aa_run example_ops aa_new = Some (rs, a) \<and> list_run example_ops [] False (Some (rs, xs)) \<and>
     (\<forall>i. aa_get i a = Some (if i < length xs then Some (xs ! i) else None)) \<and> aa_destroy a = Some xs"
proof -
  have "length example_ops < 2 ^ 31" by (simp add: example_ops_def)
  from union_read_as_stored [OF this] show ?thesis unfolding example_run option.case prod.case by blast
qed

text \<open>
  Taking one of two elements by its position leaves the capacity as it was, and the next insertion
  finds it not to be zero; so does a failed insertion of a second element.
\<close>

lemma insert_after_remove_asserts:
  "aa_run [Insert True (1 :: nat) 0, Insert True 2 1, Remove 0] aa_new \<noteq> None \<and>
   aa_run [Insert True (1 :: nat) 0, Insert True 2 1, Remove 0, Insert True 3 1] aa_new = None"
  by (simp add: aa_step_def aa_insert_def aa_new_def read_body_def aa_remove_def read_slot_def)

lemma insert_after_bad_alloc_asserts:
  "aa_run [Insert True (1 :: nat) 0, Insert False 2 1] aa_new \<noteq> None \<and>
   aa_run [Insert True (1 :: nat) 0, Insert False 2 1, Insert True 2 1] aa_new = None"
  by (simp add: aa_step_def aa_insert_def aa_new_def)

end
