(* ===== verification/KSockPool.thy ===== *)
theory KSockPool
  imports KStreams "HOL-Library.Multiset"
begin

text \<open>
  The pool of idle upstream connections (\<^verbatim>\<open>src/KPoolableSocketContainer.cpp\<close>,
  \<^verbatim>\<open>include/KPoolableSocketContainer.h\<close>) and its settings and health counter
  (\<^verbatim>\<open>src/KSockPoolHelper.cpp\<close>, \<^verbatim>\<open>include/KSockPoolHelper.h\<close>). The clock \<open>now\<close> is an argument; the
  operations run under the pool's lock, one after the other. The build is the default one, with
  TLS and HTTP/2 to upstreams and without the proxy option.
\<close>

section \<open>Idle connections\<close>

text \<open>
  \<open>us_time\<close> is the union of \<^verbatim>\<open>expire_time\<close> and \<^verbatim>\<open>read_header_time\<close>; \<open>us_bound\<close> tells whether the
  upstream points to the pool. \<open>sp_destroyed\<close> records the upstreams that were destroyed.
\<close>

record upstream =
  us_id :: nat
  us_time :: int
  us_bound :: bool
  us_multi :: bool
  us_websocket :: bool

record sock_pool =
  sp_imp :: "upstream list option"
  sp_size :: int
  sp_life_time :: int
  sp_refs :: int
  sp_destroyed :: "upstream list"

definition pool_new :: sock_pool where
  "pool_new = \<lparr>sp_imp = None, sp_size = 0, sp_life_time = 0, sp_refs = 1, sp_destroyed = []\<rparr>"

definition pool_bind :: "upstream \<Rightarrow> sock_pool \<Rightarrow> upstream \<times> sock_pool" where
  "pool_bind st p = (st\<lparr>us_bound := True\<rparr>, p\<lparr>sp_refs := sp_refs p + 1\<rparr>)"

definition pool_unbind :: "sock_pool \<Rightarrow> sock_pool" where
  "pool_unbind p = p\<lparr>sp_refs := sp_refs p - 1\<rparr>"

text \<open>\<^verbatim>\<open>Destroy\<close> runs the destructor, which unbinds.\<close>

definition us_Destroy :: "upstream \<Rightarrow> sock_pool \<Rightarrow> sock_pool" where
  "us_Destroy st p = (let p = p\<lparr>sp_destroyed := st # sp_destroyed p\<rparr> in if us_bound st then pool_unbind p else p)"

text \<open>\<^verbatim>\<open>refreshList\<close> works from the end of the list; the argument is the list backwards.\<close>

fun refresh_loop :: "int \<Rightarrow> bool \<Rightarrow> upstream list \<Rightarrow> sock_pool \<Rightarrow> upstream list \<times> sock_pool" where
  "refresh_loop now clean [] p = ([], p)"
| "refresh_loop now clean (st # l) p = (
     if \<not> clean \<and> us_time st > now then (st # l, p)
     else refresh_loop now clean l (us_Destroy st (p\<lparr>sp_size := sp_size p - 1\<rparr>)))"

definition refreshList :: "int \<Rightarrow> bool \<Rightarrow> sock_pool \<Rightarrow> sock_pool" where
  "refreshList now clean p = (case sp_imp p of
       None \<Rightarrow> p
     | Some l \<Rightarrow> (case refresh_loop now clean (rev l) p of (l, p) \<Rightarrow> p\<lparr>sp_imp := Some (rev l)\<rparr>))"

definition pool_clean :: "int \<Rightarrow> sock_pool \<Rightarrow> sock_pool" where
  "pool_clean now p = refreshList now True p"

definition pool_refresh :: "int \<Rightarrow> int \<Rightarrow> sock_pool \<Rightarrow> sock_pool" where
  "pool_refresh now nowTime p = refreshList now (nowTime = 0) p"

text \<open>
  \<^verbatim>\<open>PutPoolSocket\<close>. Where \<^verbatim>\<open>klist_insert\<close> of the I/O library puts a new node that is inserted at
  the first node is the argument \<open>ins\<close>.
\<close>

definition PutPoolSocket :: "(upstream \<Rightarrow> upstream list \<Rightarrow> upstream list) \<Rightarrow> upstream \<Rightarrow> sock_pool \<Rightarrow> sock_pool" where
  "PutPoolSocket ins st p = (
     let l = (case sp_imp p of None \<Rightarrow> [] | Some l \<Rightarrow> l) in
     pool_unbind (p\<lparr>sp_size := sp_size p + 1, sp_imp := Some (ins (st\<lparr>us_bound := False\<rparr>) l)\<rparr>))"

definition gcSocket :: "(upstream \<Rightarrow> upstream list \<Rightarrow> upstream list) \<Rightarrow> int \<Rightarrow> upstream \<Rightarrow> int \<Rightarrow> sock_pool \<Rightarrow> sock_pool" where
  "gcSocket ins now st life_time p = (
     if sp_life_time p \<le> 0 \<or> life_time < 0 then us_Destroy st p
     else
       let life_time = (if life_time = 0 \<or> life_time > sp_life_time p then sp_life_time p else life_time) in
       if us_time st > now then us_Destroy st p
       else
         let st = st\<lparr>us_time := us_time st + life_time\<rparr> in
         if us_time st < now then us_Destroy st p else PutPoolSocket ins st p)"

text \<open>\<^verbatim>\<open>KTcpUpstream::gc\<close>.\<close>

definition us_gc :: "(upstream \<Rightarrow> upstream list \<Rightarrow> upstream list) \<Rightarrow> int \<Rightarrow> upstream \<Rightarrow> int \<Rightarrow> sock_pool \<Rightarrow> sock_pool" where
  "us_gc ins now st life_time p = (if us_bound st then gcSocket ins now st life_time p else us_Destroy st p)"

text \<open>
  \<^verbatim>\<open>KHttp2Upstream::gc\<close>: the administrative stream of a connection goes back to the pool itself; a
  stream of a request is destroyed, and the administrative stream, if the connection gives one
  (\<open>admin\<close> is what \<^verbatim>\<open>get_admin_stream\<close> returns), is put into the pool before that.
\<close>

definition h2_gc :: "(upstream \<Rightarrow> upstream list \<Rightarrow> upstream list) \<Rightarrow> int \<Rightarrow> upstream \<Rightarrow> bool \<Rightarrow> upstream option \<Rightarrow> sock_pool \<Rightarrow> sock_pool" where
  "h2_gc ins now st is_admin admin p = (
     if \<not> us_bound st then us_Destroy st p
     else if is_admin then gcSocket ins now st 30 p
     else
       let p = (case admin of
           None \<Rightarrow> p
         | Some a \<Rightarrow> (case pool_bind a p of (a, p) \<Rightarrow> gcSocket ins now a 30 p)) in
       us_Destroy st p)"

text \<open>
  The search for a connection. An HTTP/2 connection stays in the pool and gives a new stream, if
  it can; \<open>new_stream\<close> stands for \<^verbatim>\<open>NewStream\<close>.
\<close>

fun get_loop :: "(upstream \<Rightarrow> upstream option) \<Rightarrow> bool \<Rightarrow> upstream list \<Rightarrow> sock_pool \<Rightarrow> upstream option \<times> sock_pool" where
  "get_loop new_stream websocket [] p = (None, p\<lparr>sp_imp := Some []\<rparr>)"
| "get_loop new_stream websocket (st # l) p = (
     if websocket \<and> \<not> us_websocket st then (None, p\<lparr>sp_imp := Some (st # l)\<rparr>)
     else if us_multi st then
       (case new_stream st of
          None \<Rightarrow> get_loop new_stream websocket l (us_Destroy st (p\<lparr>sp_size := sp_size p - 1\<rparr>))
        | Some us \<Rightarrow> (case pool_bind us (p\<lparr>sp_imp := Some (st # l)\<rparr>) of (us, p) \<Rightarrow> (Some us, p)))
     else (case pool_bind st (p\<lparr>sp_size := sp_size p - 1, sp_imp := Some l\<rparr>) of (st, p) \<Rightarrow> (Some st, p)))"

definition internalGetPoolSocket ::
  "(upstream \<Rightarrow> upstream option) \<Rightarrow> int \<Rightarrow> bool \<Rightarrow> sock_pool \<Rightarrow> upstream option \<times> sock_pool" where
  "internalGetPoolSocket new_stream now websocket p = (
     let p = (case sp_imp p of None \<Rightarrow> p\<lparr>sp_imp := Some []\<rparr> | Some _ \<Rightarrow> p);
         p = refreshList now False p
     in get_loop new_stream websocket (case sp_imp p of None \<Rightarrow> [] | Some l \<Rightarrow> l) p)"

definition get_pool_socket ::
  "(upstream \<Rightarrow> upstream option) \<Rightarrow> int \<Rightarrow> bool \<Rightarrow> sock_pool \<Rightarrow> upstream option \<times> sock_pool" where
  "get_pool_socket new_stream now websocket p = (case internalGetPoolSocket new_stream now websocket p of
       (None, p) \<Rightarrow> (None, p)
     | (Some st, p) \<Rightarrow> (Some (st\<lparr>us_time := now\<rparr>), p))"

text \<open>The life time is stored in 16 bits.\<close>

definition setLifeTime :: "int \<Rightarrow> int \<Rightarrow> sock_pool \<Rightarrow> sock_pool" where
  "setLifeTime now life_time p = (
     let p = p\<lparr>sp_life_time := life_time mod 2 ^ 16\<rparr> in if life_time \<le> 0 then pool_clean now p else p)"

section \<open>What happens to a pool\<close>

text \<open>
  A client opens connections, takes them from the pool and gives them back. The first component
  are the upstreams in use, the second the identities of all upstreams there ever were.
\<close>

type_synonym pool_state = "upstream list \<times> nat list \<times> sock_pool"

definition fresh_streams :: "(upstream \<Rightarrow> upstream option) \<Rightarrow> nat list \<Rightarrow> bool" where
  "fresh_streams new_stream ids \<longleftrightarrow> (\<forall>st us. new_stream st = Some us \<longrightarrow> \<not> us_bound us \<and> us_id us \<notin> set ids)"

inductive pool_step :: "(upstream \<Rightarrow> upstream list \<Rightarrow> upstream list) \<Rightarrow> pool_state \<Rightarrow> pool_state \<Rightarrow> bool"
  for ins where
  ps_open: "\<not> us_bound st \<Longrightarrow> us_id st \<notin> set ids \<Longrightarrow> pool_bind st p = (st', p') \<Longrightarrow>
    pool_step ins (used, ids, p) (st' # used, us_id st # ids, p')"
| ps_get: "fresh_streams new_stream ids \<Longrightarrow> get_pool_socket new_stream now websocket p = (Some st, p') \<Longrightarrow>
    ids' = (if us_id st \<in> set ids then ids else us_id st # ids) \<Longrightarrow> pool_step ins (used, ids, p) (st # used, ids', p')"
| ps_get_none: "fresh_streams new_stream ids \<Longrightarrow> get_pool_socket new_stream now websocket p = (None, p') \<Longrightarrow>
    pool_step ins (used, ids, p) (used, ids, p')"
| ps_gc: "us_gc ins now st life_time p = p' \<Longrightarrow> pool_step ins (used1 @ st # used2, ids, p) (used1 @ used2, ids, p')"
| ps_h2_gc: "h2_gc ins now st is_admin admin p = p' \<Longrightarrow>
    ids' = (if is_admin then ids else case admin of None \<Rightarrow> ids | Some a \<Rightarrow> us_id a # ids) \<Longrightarrow>
    (\<forall>a. admin = Some a \<longrightarrow> \<not> us_bound a \<and> us_id a \<notin> set ids) \<Longrightarrow>
    pool_step ins (used1 @ st # used2, ids, p) (used1 @ used2, ids', p')"
| ps_read_header: "pool_step ins (used1 @ st # used2, ids, p) (used1 @ st\<lparr>us_time := now\<rparr> # used2, ids, p)"
| ps_refresh: "pool_refresh now nowTime p = p' \<Longrightarrow> pool_step ins (used, ids, p) (used, ids, p')"
| ps_set_life_time: "setLifeTime now life_time p = p' \<Longrightarrow> pool_step ins (used, ids, p) (used, ids, p')"

definition idle :: "sock_pool \<Rightarrow> upstream list" where
  "idle p = (case sp_imp p of None \<Rightarrow> [] | Some l \<Rightarrow> l)"

definition ids_of :: "upstream list \<Rightarrow> nat multiset" where
  "ids_of l = mset (map us_id l)"

definition pool_ok :: "pool_state \<Rightarrow> bool" where
  "pool_ok s = (case s of (used, ids, p) \<Rightarrow>
     sp_size p = int (length (idle p)) \<and> sp_refs p = 1 + int (length used) \<and> 0 \<le> sp_life_time p \<and> sp_life_time p < 2 ^ 16 \<and>
     (\<forall>st \<in> set (idle p). \<not> us_bound st) \<and> (\<forall>st \<in> set used. us_bound st) \<and> distinct ids \<and>
     ids_of (idle p) + ids_of used + ids_of (sp_destroyed p) = mset ids)"


definition inserts :: "(upstream \<Rightarrow> upstream list \<Rightarrow> upstream list) \<Rightarrow> bool" where
  "inserts ins \<longleftrightarrow> (\<forall>st l. mset (ins st l) = add_mset st (mset l))"

lemma pool_okI:
  assumes "sp_size p = int (length (idle p))" "sp_refs p = 1 + int (length used)" "0 \<le> sp_life_time p" "sp_life_time p < 2 ^ 16"
    "\<forall>st \<in> set (idle p). \<not> us_bound st" "\<forall>st \<in> set used. us_bound st" "distinct ids"
    "ids_of (idle p) + ids_of used + ids_of (sp_destroyed p) = mset ids"
  shows "pool_ok (used, ids, p)"
  using assms by (simp add: pool_ok_def)

text \<open>How an operation that takes idle connections away accounts for them.\<close>

definition takes_idle :: "upstream list \<Rightarrow> sock_pool \<Rightarrow> upstream list \<Rightarrow> sock_pool \<Rightarrow> bool" where
  "takes_idle l p l' p' \<longleftrightarrow> set l' \<subseteq> set l \<and> sp_size p' - int (length l') = sp_size p - int (length l) \<and>
     sp_refs p' = sp_refs p \<and> sp_life_time p' = sp_life_time p \<and>
     ids_of l' + ids_of (sp_destroyed p') = ids_of l + ids_of (sp_destroyed p)"

lemma refresh_loop_takes:
  "\<forall>st \<in> set l. \<not> us_bound st \<Longrightarrow> refresh_loop now clean l p = (l', p') \<Longrightarrow> takes_idle l p l' p'"
proof (induction l arbitrary: p)
  case (Cons st l)
  show ?case
  proof (cases "\<not> clean \<and> us_time st > now")
    case True
    with Cons.prems show ?thesis by (auto simp: takes_idle_def)
  next
    case False
    with Cons.prems have "refresh_loop now clean l (us_Destroy st (p\<lparr>sp_size := sp_size p - 1\<rparr>)) = (l', p')" by auto
    from Cons.IH [OF _ this] Cons.prems(1) show ?thesis
      by (auto simp: takes_idle_def us_Destroy_def ids_of_def)
  qed
qed (simp add: takes_idle_def)

lemma refreshList_takes:
  assumes "\<forall>st \<in> set (idle p). \<not> us_bound st"
  shows "takes_idle (idle p) p (idle (refreshList now clean p)) (refreshList now clean p)"
proof (cases "sp_imp p")
  case (Some l)
  obtain l' p' where r: "refresh_loop now clean (rev l) p = (l', p')" by (cases "refresh_loop now clean (rev l) p")
  have "takes_idle (rev l) p l' p'" using assms Some by (intro refresh_loop_takes [OF _ r]) (simp add: idle_def)
  then show ?thesis by (simp add: refreshList_def Some r idle_def takes_idle_def ids_of_def)
qed (simp add: refreshList_def idle_def takes_idle_def)

lemma takes_idle_ok:
  assumes "pool_ok (used, ids, p)" "takes_idle (idle p) p (idle p') p'"
  shows "pool_ok (used, ids, p')"
  using assms by (auto simp: pool_ok_def takes_idle_def ac_simps)

lemma refreshList_ok: "pool_ok (used, ids, p) \<Longrightarrow> pool_ok (used, ids, refreshList now clean p)"
  by (rule takes_idle_ok) (auto intro: refreshList_takes simp: pool_ok_def)

lemma idle_upd [simp]: "idle (p\<lparr>sp_imp := Some l\<rparr>) = l" "idle (p\<lparr>sp_refs := n\<rparr>) = idle p" "idle (p\<lparr>sp_size := n\<rparr>) = idle p"
    "idle (p\<lparr>sp_life_time := n\<rparr>) = idle p" "idle (p\<lparr>sp_destroyed := d\<rparr>) = idle p"
  by (simp_all add: idle_def)

lemma pool_ok_unbound: "pool_ok (used, ids, p) \<Longrightarrow> st \<in> set (idle p) \<Longrightarrow> \<not> us_bound st"
  by (simp add: pool_ok_def)

lemma pool_ok_ids: "pool_ok (used, ids, p) \<Longrightarrow> mset ids = ids_of (idle p) + ids_of used + ids_of (sp_destroyed p)"
  by (simp add: pool_ok_def)

text \<open>What the search for a connection leaves, in terms of the list it works on.\<close>

lemma get_loop_ok:
  assumes "pool_ok (used, ids, p\<lparr>sp_imp := Some l\<rparr>)" "fresh_streams new_stream ids" "get_loop new_stream websocket l p = (r, p')"
  shows "case r of None \<Rightarrow> pool_ok (used, ids, p')
    | Some st \<Rightarrow> us_bound st \<and> pool_ok (st # used, if us_id st \<in> set ids then ids else us_id st # ids, p')"
  using assms
proof (induction l arbitrary: p)
  case (Cons st l)
  consider "websocket" "\<not> us_websocket st" | "\<not> (websocket \<and> \<not> us_websocket st)" "us_multi st" "new_stream st = None"
    | us where "\<not> (websocket \<and> \<not> us_websocket st)" "us_multi st" "new_stream st = Some us"
    | "\<not> (websocket \<and> \<not> us_websocket st)" "\<not> us_multi st" by blast
  then show ?case
  proof cases
    case 1
    with Cons.prems show ?thesis by auto
  next
    case 2
    let ?p = "us_Destroy st (p\<lparr>sp_size := sp_size p - 1\<rparr>)"
    have nb: "\<not> us_bound st" using pool_ok_unbound [OF Cons.prems(1)] by simp
    have "pool_ok (used, ids, ?p\<lparr>sp_imp := Some l\<rparr>)"
      by (rule takes_idle_ok [OF Cons.prems(1)]) (auto simp: takes_idle_def us_Destroy_def ids_of_def nb)
    moreover have "get_loop new_stream websocket l ?p = (r, p')" using Cons.prems(3) 2 by auto
    ultimately show ?thesis by (intro Cons.IH Cons.prems(2))
  next
    case 3
    with Cons.prems(2) have "\<not> us_bound us" "us_id us \<notin> set ids" by (auto simp: fresh_streams_def)
    with 3 Cons.prems show ?thesis by (auto simp: pool_bind_def pool_ok_def ids_of_def)
  next
    case 4
    have m: "mset ids = ids_of (st # l) + ids_of used + ids_of (sp_destroyed p)"
      using pool_ok_ids [OF Cons.prems(1)] by simp
    have "us_id st \<in> set_mset (mset ids)" unfolding m by (simp add: ids_of_def)
    with 4 Cons.prems show ?thesis by (auto simp: pool_bind_def pool_ok_def ids_of_def)
  qed
qed simp


lemma get_pool_socket_ok:
  assumes "pool_ok (used, ids, p)" "fresh_streams new_stream ids" "get_pool_socket new_stream now websocket p = (r, p')"
  shows "case r of None \<Rightarrow> pool_ok (used, ids, p')
    | Some st \<Rightarrow> pool_ok (st # used, if us_id st \<in> set ids then ids else us_id st # ids, p')"
proof -
  define p1 where "p1 = (case sp_imp p of None \<Rightarrow> p\<lparr>sp_imp := Some []\<rparr> | Some _ \<Rightarrow> p)"
  define p2 where "p2 = refreshList now False p1"
  have i1: "idle p1 = idle p" by (auto simp: p1_def idle_def split: option.split)
  have "pool_ok (used, ids, p1)" by (rule takes_idle_ok [OF assms(1)]) (auto simp: takes_idle_def i1, auto simp: p1_def split: option.split)
  then have ok2: "pool_ok (used, ids, p2)" unfolding p2_def by (rule refreshList_ok)
  have ok: "pool_ok (used, ids, p2\<lparr>sp_imp := Some (idle p2)\<rparr>)" by (rule takes_idle_ok [OF ok2]) (simp add: takes_idle_def)
  obtain r' p3 where g: "get_loop new_stream websocket (idle p2) p2 = (r', p3)" by (cases "get_loop new_stream websocket (idle p2) p2")
  note got = get_loop_ok [OF ok assms(2) g]
  have "internalGetPoolSocket new_stream now websocket p = (r', p3)"
    unfolding internalGetPoolSocket_def Let_def p1_def [symmetric] p2_def [symmetric] using g by (simp add: idle_def)
  with assms(3) got show ?thesis
    by (cases r') (auto simp: get_pool_socket_def pool_ok_def ids_of_def)
qed

lemma us_Destroy_ok:
  assumes "pool_ok (used1 @ st # used2, ids, p)" "us_id st' = us_id st" "us_bound st'"
  shows "pool_ok (used1 @ used2, ids, us_Destroy st' p)"
  using assms by (simp add: pool_ok_def us_Destroy_def pool_unbind_def ids_of_def ac_simps)

lemma PutPoolSocket_ok:
  assumes "pool_ok (used1 @ st # used2, ids, p)" "us_id st' = us_id st" "inserts ins"
  shows "pool_ok (used1 @ used2, ids, PutPoolSocket ins st' p)"
proof -
  let ?l = "ins (st'\<lparr>us_bound := False\<rparr>) (idle p)"
  have m: "mset ?l = add_mset (st'\<lparr>us_bound := False\<rparr>) (mset (idle p))" using assms(3) by (simp add: inserts_def)
  have l: "length ?l = Suc (length (idle p))" "set ?l = insert (st'\<lparr>us_bound := False\<rparr>) (set (idle p))"
    using m by (metis size_add_mset size_mset, metis set_mset_add_mset_insert set_mset_mset)
  have i: "ids_of ?l = add_mset (us_id st) (ids_of (idle p))" using assms(2) by (simp add: ids_of_def mset_map m)
  have "PutPoolSocket ins st' p = pool_unbind (p\<lparr>sp_size := sp_size p + 1, sp_imp := Some ?l\<rparr>)"
    by (simp add: PutPoolSocket_def idle_def)
  with assms(1) l i show ?thesis by (auto simp: pool_ok_def pool_unbind_def ids_of_def ac_simps)
qed

lemma us_gc_ok:
  assumes "pool_ok (used1 @ st # used2, ids, p)" "inserts ins"
  shows "pool_ok (used1 @ used2, ids, us_gc ins now st life_time p)"
proof -
  have "us_bound st" using assms(1) by (simp add: pool_ok_def)
  then show ?thesis unfolding us_gc_def gcSocket_def Let_def
    using us_Destroy_ok [OF assms(1)] PutPoolSocket_ok [OF assms(1) _ assms(2)] by simp
qed

lemma pool_bind_ok:
  assumes "pool_ok (used, ids, p)" "\<not> us_bound st" "us_id st \<notin> set ids" "pool_bind st p = (st', p')"
  shows "pool_ok (st' # used, us_id st # ids, p')"
  using assms by (auto simp: pool_bind_def pool_ok_def ids_of_def)

lemma h2_gc_ok:
  assumes ok: "pool_ok (used1 @ st # used2, ids, p)" and ins: "inserts ins"
    and admin: "\<And>a. admin = Some a \<Longrightarrow> \<not> us_bound a \<and> us_id a \<notin> set ids"
  shows "pool_ok (used1 @ used2, if is_admin then ids else case admin of None \<Rightarrow> ids | Some a \<Rightarrow> us_id a # ids,
    h2_gc ins now st is_admin admin p)"
proof -
  have b: "us_bound st" using ok by (simp add: pool_ok_def)
  show ?thesis
  proof (cases "is_admin \<or> admin = None")
    case True
    with b us_gc_ok [OF ok ins, of now 30] us_Destroy_ok [OF ok refl b] show ?thesis
      by (auto simp: h2_gc_def us_gc_def)
  next
    case False
    then obtain a a' q where a: "admin = Some a" "pool_bind a p = (a', q)" by (cases admin; cases "pool_bind (the admin) p") auto
    have "pool_ok (a' # used1 @ st # used2, us_id a # ids, q)"
      using pool_bind_ok [OF ok _ _ a(2)] admin [OF a(1)] by simp
    moreover have "us_bound a'" using calculation by (simp add: pool_ok_def)
    ultimately have "pool_ok (used1 @ st # used2, us_id a # ids, gcSocket ins now a' 30 q)"
      using us_gc_ok [of "[]" a' "used1 @ st # used2" "us_id a # ids" q ins now 30] ins by (simp add: us_gc_def)
    from us_Destroy_ok [OF this refl b] show ?thesis using False a b by (simp add: h2_gc_def)
  qed
qed

lemma pool_step_ok:
  assumes "inserts ins"
  shows "pool_step ins s s' \<Longrightarrow> pool_ok s \<Longrightarrow> pool_ok s'"
proof (induction rule: pool_step.induct)
  case (ps_open st ids p st' p' used)
  then show ?case by (intro pool_bind_ok)
next
  case (ps_get new_stream ids now websocket p st p' ids' used)
  with get_pool_socket_ok [OF ps_get(4) ps_get(1,2)] show ?case by simp
next
  case (ps_get_none new_stream ids now websocket p p' used)
  with get_pool_socket_ok [OF ps_get_none(3) ps_get_none(1,2)] show ?case by simp
next
  case (ps_gc now st life_time p p' used1 used2 ids)
  then show ?case using us_gc_ok [OF ps_gc(2) assms, of now life_time] by simp
next
  case (ps_h2_gc now st is_admin admin p p' ids' ids used1 used2)
  then show ?case using h2_gc_ok [OF ps_h2_gc(4) assms, of admin is_admin now] by simp
next
  case (ps_set_life_time now life_time p p' used ids)
  let ?p = "p\<lparr>sp_life_time := life_time mod 2 ^ 16\<rparr>"
  have "pool_ok (used, ids, ?p)" using ps_set_life_time(2) by (simp add: pool_ok_def)
  then have "pool_ok (used, ids, refreshList now True ?p)" by (rule refreshList_ok)
  with \<open>pool_ok (used, ids, ?p)\<close> ps_set_life_time(1) show ?case
    unfolding setLifeTime_def Let_def pool_clean_def by (auto split: if_splits)
qed (auto simp: pool_refresh_def refreshList_ok, auto simp: pool_ok_def ids_of_def)

text \<open>
  C29: the pool accounts for its connections. Whatever clients do, one after the other, in every
  state that is reached the counter is the number of idle connections, the references are one for
  the owner and one for every upstream in use, and every upstream there ever was is exactly one of
  idle, in use or destroyed, once.
\<close>

theorem sock_pool_accounts:
  assumes "inserts ins" "(pool_step ins)\<^sup>*\<^sup>* ([], [], pool_new) (used, ids, p)"
  shows "sp_size p = int (length (idle p)) \<and> sp_refs p = 1 + int (length used) \<and> distinct ids \<and>
    ids_of (idle p) + ids_of used + ids_of (sp_destroyed p) = mset ids"
proof -
  have "pool_ok ([], [], pool_new)" by (simp add: pool_ok_def pool_new_def idle_def ids_of_def)
  with assms(2) have "pool_ok (used, ids, p)"
    by (induction rule: rtranclp_induct) (auto intro: pool_step_ok [OF assms(1)])
  then show ?thesis by (simp add: pool_ok_def)
qed

text \<open>
  Only the end of the list is looked at for expired connections: behind a live one at the end,
  an expired one at the front is handed out.
\<close>

lemma expired_socket_returned:
  assumes "sp_imp p = Some (st # l @ [st'])" "us_time st' > now" "us_time st < now" "\<not> us_multi st"
  shows "\<exists>p'. get_pool_socket new_stream now False p = (Some (st\<lparr>us_bound := True, us_time := now\<rparr>), p')"
  using assms by (simp add: get_pool_socket_def internalGetPoolSocket_def refreshList_def pool_bind_def)

text \<open>A life time of 65536 seconds is stored as zero: from then on every connection is closed, but the idle ones stay.\<close>

lemma life_time_truncated:
  "sp_life_time (setLifeTime now 65536 p) = 0 \<and> idle (setLifeTime now 65536 p) = idle p \<and>
   gcSocket ins now st 0 (setLifeTime now 65536 p) = us_Destroy st (setLifeTime now 65536 p)"
  by (simp add: setLifeTime_def gcSocket_def)


lemma inserts_Cons: "inserts (#)"
  by (simp add: inserts_def)

definition some_upstream :: upstream where
  "some_upstream = \<lparr>us_id = 7, us_time = 0, us_bound = False, us_multi = False, us_websocket = False\<rparr>"

theorem sock_pool_accounts_witness:
  "let p = snd (pool_bind some_upstream pool_new); st = fst (pool_bind some_upstream pool_new) in
   sp_size p = int (length (idle p)) \<and> sp_refs p = 1 + int (length [st]) \<and> distinct [7 :: nat] \<and>
     ids_of (idle p) + ids_of [st] + ids_of (sp_destroyed p) = mset [7]"
proof -
  have "pool_step (#) ([], [], pool_new) ([fst (pool_bind some_upstream pool_new)], [us_id some_upstream], snd (pool_bind some_upstream pool_new))"
    by (rule ps_open) (simp_all add: some_upstream_def)
  from sock_pool_accounts [OF inserts_Cons r_into_rtranclp [of "pool_step (#)", OF this]] show ?thesis
    by (simp add: Let_def some_upstream_def)
qed

section \<open>Health\<close>

datatype health_status = Err | Success

text \<open>
  \<open>ph_ssl\<close> is the text behind the port, if it asks for TLS; \<open>ph_ssl_ctx\<close> is what the TLS context was
  told: protocols, ciphers and whether to verify.
\<close>

record ssl_ctx =
  cx_protocols :: "byte list option"
  cx_cipher :: "byte list option"
  cx_verify :: bool

record pool_helper =
  ph_host :: "byte list option"
  ph_port :: int
  ph_ssl :: "byte list option"
  ph_h2 :: bool
  ph_alpn_h2 :: bool
  ph_no_sni :: bool
  ph_is_unix :: bool
  ph_ssl_ctx :: "ssl_ctx option"
  ph_ip :: "byte list option"
  ph_weight :: int
  ph_sign :: bool
  ph_param :: "byte list option"
  ph_error_count :: int
  ph_max_error_count :: int
  ph_error_try_time :: int
  ph_disable_flag :: bool
  ph_monitor :: bool
  ph_total_hit :: int
  ph_total_error :: int
  ph_total_connect :: int
  ph_pool :: sock_pool

text \<open>The constructor; \<^verbatim>\<open>error_try_time\<close> is not initialised and port is not either: \<open>junk_time\<close>, \<open>junk_port\<close>.\<close>

definition helper_new :: "int \<Rightarrow> int \<Rightarrow> pool_helper" where
  "helper_new junk_time junk_port = \<lparr>ph_host = None, ph_port = junk_port, ph_ssl = None, ph_h2 = False, ph_alpn_h2 = False,
     ph_no_sni = False, ph_is_unix = False, ph_ssl_ctx = None, ph_ip = None, ph_weight = 1, ph_sign = False, ph_param = None,
     ph_error_count = 0, ph_max_error_count = 5, ph_error_try_time = junk_time, ph_disable_flag = False, ph_monitor = False,
     ph_total_hit = 0, ph_total_error = 0, ph_total_connect = 0, ph_pool = pool_new\<rparr>"

definition disable :: "pool_helper \<Rightarrow> pool_helper" where
  "disable h = h\<lparr>ph_disable_flag := True\<rparr>"

definition enable :: "pool_helper \<Rightarrow> pool_helper" where
  "enable h = h\<lparr>ph_disable_flag := False, ph_error_count := 0\<rparr>"

definition is_enabled :: "pool_helper \<Rightarrow> bool" where
  "is_enabled h \<longleftrightarrow> \<not> ph_disable_flag h"

text \<open>\<open>inc16\<close> is what \<^verbatim>\<open>katom_inc16\<close> of the I/O library returns for a counter.\<close>

fun health :: "(int \<Rightarrow> int) \<Rightarrow> health_status \<Rightarrow> pool_helper \<Rightarrow> pool_helper" where
  "health inc16 Err h = (
     let h' = h\<lparr>ph_total_error := (ph_total_error h + 1) mod 2 ^ 64, ph_error_count := (ph_error_count h + 1) mod 2 ^ 16\<rparr> in
     if inc16 (ph_error_count h) \<ge> ph_max_error_count h then disable h' else h')"
| "health inc16 Success h = enable h"

definition setErrorTryTime :: "int \<Rightarrow> int \<Rightarrow> pool_helper \<Rightarrow> pool_helper" where
  "setErrorTryTime max_error_count error_try_time h = (
     let h = h\<lparr>ph_max_error_count := max_error_count mod 2 ^ 16, ph_error_try_time := error_try_time\<rparr> in
     if max_error_count > 0 then h\<lparr>ph_monitor := False\<rparr> else h\<lparr>ph_monitor := True\<rparr>)"

definition ERROR_RECONNECT_TIME :: int where "ERROR_RECONNECT_TIME = 600"

definition get_error_try_time :: "pool_helper \<Rightarrow> int" where
  "get_error_try_time h = (if ph_error_try_time h \<le> 0 then ERROR_RECONNECT_TIME else ph_error_try_time h)"

definition helper_shutdown :: "int \<Rightarrow> pool_helper \<Rightarrow> pool_helper" where
  "helper_shutdown now h = h\<lparr>ph_monitor := False, ph_pool := pool_refresh now 0 (ph_pool h)\<rparr>"

definition returns_new :: "(int \<Rightarrow> int) \<Rightarrow> bool" where
  "returns_new inc16 \<longleftrightarrow> (\<forall>c. inc16 c = (c + 1) mod 2 ^ 16)"

definition errors_in_a_row :: "health_status list \<Rightarrow> nat" where
  "errors_in_a_row es = length (takeWhile (\<lambda>e. e = Err) (rev es))"

lemma health_counts:
  assumes "returns_new inc16" "0 < ph_max_error_count h" "ph_max_error_count h < 2 ^ 16" "ph_error_count h = 0" "is_enabled h"
  shows "let h' = fold (health inc16) es h in ph_max_error_count h' = ph_max_error_count h \<and>
    ph_error_count h' = int (errors_in_a_row es) mod 2 ^ 16 \<and>
    (is_enabled h' \<longleftrightarrow> int (errors_in_a_row es) < ph_max_error_count h)"
proof (induction es rule: rev_induct)
  case Nil
  then show ?case using assms by (simp add: errors_in_a_row_def)
next
  case (snoc e es)
  define h' where "h' = fold (health inc16) es h"
  define k where "k = int (errors_in_a_row es)"
  have k: "0 \<le> k" by (simp add: k_def)
  from snoc have IH: "ph_max_error_count h' = ph_max_error_count h" "ph_error_count h' = k mod 2 ^ 16"
    "ph_disable_flag h' \<longleftrightarrow> \<not> k < ph_max_error_count h"
    by (auto simp: h'_def k_def Let_def is_enabled_def)
  show ?case
  proof (cases e)
    case Err
    have n: "int (errors_in_a_row (es @ [e])) = k + 1" by (simp add: errors_in_a_row_def Err k_def)
    have i: "inc16 (ph_error_count h') = (k + 1) mod 2 ^ 16" using assms(1) by (simp add: returns_new_def IH(2) mod_simps)
    have c: "(ph_error_count h' + 1) mod 2 ^ 16 = (k + 1) mod 2 ^ 16" by (simp add: IH(2) mod_simps)
    have lt: "k < ph_max_error_count h \<Longrightarrow> (k + 1) mod 2 ^ 16 = k + 1" using assms(3) k by simp
    show ?thesis
      unfolding n using lt IH(1,3) c
      by (auto simp: Err h'_def [symmetric] Let_def i disable_def is_enabled_def)
  next
    case Success
    then show ?thesis using assms(2) IH(1) by (simp add: errors_in_a_row_def h'_def [symmetric] enable_def is_enabled_def)
  qed
qed

lemma health_keeps_monitor: "ph_monitor (fold (health inc16) es h) \<longleftrightarrow> ph_monitor h"
proof (induction es arbitrary: h)
  case (Cons e es)
  then show ?case by (cases e) (auto simp: Let_def disable_def enable_def)
qed simp

text \<open>
  C36: with an error limit configured, an upstream is taken out of service by the very error that makes
  as many in a row as the limit says, it stays out until a success is reported, which puts it back at
  once, and no monitor runs that would try it again after some time. The comment in
  \<^verbatim>\<open>KSockPoolHelper.h\<close> says otherwise: that the errors have to exceed the limit, and that the next attempt
  comes \<^verbatim>\<open>ERROR_RECONNECT_TIME\<close> seconds later. The wrap-around of the 16-bit counter makes no difference.
\<close>

theorem disabled_iff_errors_in_a_row:
  assumes "returns_new inc16" "0 < n" "n < 2 ^ 16"
  shows "let h = fold (health inc16) es (setErrorTryTime n t (helper_new tm pt))
    in (is_enabled h \<longleftrightarrow> int (errors_in_a_row es) < n) \<and> \<not> ph_monitor h"
proof -
  let ?h = "setErrorTryTime n t (helper_new tm pt)"
  have h: "ph_max_error_count ?h = n" "ph_error_count ?h = 0" "is_enabled ?h" "\<not> ph_monitor ?h"
    using assms(2,3) by (simp_all add: setErrorTryTime_def helper_new_def is_enabled_def)
  from health_counts [OF assms(1), of ?h es] h assms(2,3) show ?thesis by (simp add: Let_def health_keeps_monitor)
qed

theorem disabled_iff_errors_in_a_row_witness:
  "\<not> is_enabled (fold (health (\<lambda>c. (c + 1) mod 2 ^ 16)) [Success, Err, Err] (setErrorTryTime 2 30 (helper_new 0 0)))"
  using disabled_iff_errors_in_a_row [of "\<lambda>c. (c + 1) mod 2 ^ 16" 2 "[Success, Err, Err]" 30 0 0]
  by (simp add: returns_new_def errors_in_a_row_def Let_def)


section \<open>Settings\<close>

text \<open>
  The settings of the server, used where the pool has none, are arguments, and so is whether the
  TLS library delivers a context.
\<close>

record ssl_config =
  sc_new_ctx :: bool
  sc_chiper :: "byte list option"
  sc_protocols :: "byte list option"

definition cut_at :: "byte \<Rightarrow> byte list \<Rightarrow> byte list \<times> byte list option" where
  "cut_at c s = (takeWhile (\<lambda>x. x \<noteq> c) s, case dropWhile (\<lambda>x. x \<noteq> c) s of [] \<Rightarrow> None | _ # t \<Rightarrow> Some t)"

definition new_ssl_ctx :: "ssl_config \<Rightarrow> byte list \<Rightarrow> byte list option \<Rightarrow> byte list option \<Rightarrow> ssl_ctx option" where
  "new_ssl_ctx g ssl protocols chiper = (
     if \<not> sc_new_ctx g then None
     else Some \<lparr>cx_protocols = (if protocols = None \<and> sc_protocols g \<noteq> None then sc_protocols g else protocols),
                cx_cipher = (if chiper = None then sc_chiper g else chiper), cx_verify = (ssl = bytes ''S'')\<rparr>)"

text \<open>\<^verbatim>\<open>setHostPort\<close> with the port as a number and the text behind it, on a platform with Unix sockets.\<close>

definition set_unix :: "pool_helper \<Rightarrow> pool_helper" where
  "set_unix h = (
     let h = (case ph_host h of None \<Rightarrow> h
              | Some t \<Rightarrow> if map kgl_tolower (take 5 t) = bytes ''unix:'' then h\<lparr>ph_is_unix := True, ph_host := Some (drop 5 t)\<rparr> else h)
     in case ph_host h of Some (c # _) \<Rightarrow> if c = 47 then h\<lparr>ph_is_unix := True\<rparr> else h | _ \<Rightarrow> h)"

definition setHostPort_int :: "ssl_config \<Rightarrow> int \<Rightarrow> byte list option \<Rightarrow> int \<Rightarrow> byte list option \<Rightarrow> pool_helper \<Rightarrow> pool_helper" where
  "setHostPort_int g now host port s h = (
     let h2 = (case s of Some (c # _) \<Rightarrow> c = 104 | _ \<Rightarrow> False);
         s = (if h2 then None else case s of Some (c # t) \<Rightarrow> if c = 115 \<or> c = 83 then Some (c # t) else None | _ \<Rightarrow> None);
         destChanged = (kgl_string_cmp (ph_host h) host \<noteq> 0 \<or> ph_port h \<noteq> port \<or> kgl_string_cmp (ph_ssl h) s \<noteq> 0);
         h = h\<lparr>ph_h2 := h2, ph_host := host, ph_port := port mod 2 ^ 16, ph_ssl := s\<rparr>;
         h = (case s of
                None \<Rightarrow> h\<lparr>ph_alpn_h2 := False, ph_ssl_ctx := None\<rparr>
              | Some ssl \<Rightarrow>
                  let (ssl_buf, protocols) = cut_at 47 ssl;
                      (protocols, chiper) = (case protocols of None \<Rightarrow> (None, None) | Some pr \<Rightarrow> (case cut_at 47 pr of (pr, ch) \<Rightarrow> (Some pr, ch)))
                  in h\<lparr>ph_alpn_h2 := 112 \<in> set ssl_buf, ph_no_sni := ph_no_sni h \<or> 110 \<in> set ssl_buf,
                       ph_ssl_ctx := new_ssl_ctx g ssl protocols chiper\<rparr>);
         h = set_unix h
     in if destChanged then h\<lparr>ph_pool := pool_clean now (ph_pool h)\<rparr> else h)"

definition isdigit :: "byte \<Rightarrow> bool" where
  "isdigit c \<longleftrightarrow> 48 \<le> c \<and> c \<le> 57"

definition setHostPort :: "ssl_config \<Rightarrow> int \<Rightarrow> byte list option \<Rightarrow> byte list \<Rightarrow> pool_helper \<Rightarrow> pool_helper option" where
  "setHostPort g now host port h = (case c_atoi port of
       None \<Rightarrow> None
     | Some n \<Rightarrow> Some (setHostPort_int g now host n (Some (dropWhile isdigit port)) h))"

definition get_port :: "pool_helper \<Rightarrow> byte list" where
  "get_port h = (if ph_is_unix h then bytes ''-''
     else decimal (nat (ph_port h)) @ (case ph_ssl h of None \<Rightarrow> [] | Some s \<Rightarrow> s) @ (if ph_h2 h then bytes ''h'' else []))"

definition SetParam :: "byte list \<Rightarrow> pool_helper \<Rightarrow> pool_helper" where
  "SetParam param h = h\<lparr>ph_param := Some param\<rparr>"

definition setIp :: "byte list \<Rightarrow> pool_helper \<Rightarrow> pool_helper" where
  "setIp ip h = h\<lparr>ph_ip := (if ip = [] then None else Some ip)\<rparr>"

text \<open>\<^verbatim>\<open>parse\<close> and \<^verbatim>\<open>build\<close>: the settings as named strings without zero octets.\<close>

type_synonym attributes = "string \<rightharpoonup> byte list"

definition get_string :: "attributes \<Rightarrow> string \<Rightarrow> byte list" where
  "get_string attr key = (case attr key of None \<Rightarrow> [] | Some v \<Rightarrow> v)"

definition helper_parse :: "ssl_config \<Rightarrow> int \<Rightarrow> attributes \<Rightarrow> pool_helper \<Rightarrow> pool_helper option" where
  "helper_parse g now attr h = (case setHostPort g now (Some (get_string attr ''host'')) (get_string attr ''port'') h of
       None \<Rightarrow> None
     | Some h \<Rightarrow> (case (c_atoi (get_string attr ''life_time''), c_atoi (get_string attr ''weight'')) of
           (Some life_time, Some weight) \<Rightarrow>
             let h = h\<lparr>ph_pool := setLifeTime now life_time (ph_pool h)\<rparr>;
                 h = SetParam (get_string attr ''param'') h;
                 h = h\<lparr>ph_sign := get_string attr ''sign'' = bytes ''1'', ph_weight := weight mod 2 ^ 16\<rparr>
             in Some (setIp (get_string attr ''self_ip'') h)
         | _ \<Rightarrow> None))"

definition helper_build :: "pool_helper \<Rightarrow> attributes" where
  "helper_build h = (
     let attr = [''host'' \<mapsto> (case ph_host h of None \<Rightarrow> [] | Some t \<Rightarrow> t), ''port'' \<mapsto> get_port h,
                 ''life_time'' \<mapsto> decimal (nat (sp_life_time (ph_pool h)))];
         attr = (case ph_param h of None \<Rightarrow> attr | Some t \<Rightarrow> attr(''param'' \<mapsto> t));
         attr = (case ph_ip h of None \<Rightarrow> attr | Some t \<Rightarrow> if t = [] then attr else attr(''self_ip'' \<mapsto> t))
     in if ph_sign h then attr(''sign'' \<mapsto> bytes ''1'') else attr)"


lemma decimal_first_digit: "\<exists>c cs. decimal n = c # cs \<and> 48 \<le> c \<and> c \<le> 57"
proof -
  have "decimal n \<noteq> []" by (simp add: decimal.simps [of n])
  then obtain c cs where "decimal n = c # cs" by (cases "decimal n") auto
  with decimal_octets [of c n] show ?thesis by simp
qed

definition no_digit_first :: "byte list \<Rightarrow> bool" where
  "no_digit_first t \<longleftrightarrow> (case t of [] \<Rightarrow> True | c # _ \<Rightarrow> \<not> isdigit c)"

lemma atoi_loop_stops: "no_digit_first t \<Longrightarrow> atoi_loop lim v t = Some v"
  by (cases t) (auto simp: no_digit_first_def isdigit_def)

lemma c_atoi_decimal:
  assumes "int n < 2 ^ 31" "no_digit_first t"
  shows "c_atoi (decimal n @ t) = Some (int n)"
proof -
  obtain c cs where d: "decimal n = c # cs" "48 \<le> c" "c \<le> 57" using decimal_first_digit by blast
  have c: "\<not> isspace c" "c \<noteq> 45" "c \<noteq> 43" using d(2,3) by (auto simp: isspace_def word_le_nat_alt)
  have "kgl_atoi (decimal n @ t) = atoi_loop (2 ^ 31 - 1) (int n) t"
    unfolding kgl_atoi_def using assms(1) decimal_octets by (intro atoi_loop_append atoi_decimal) auto
  also have "\<dots> = Some (int n)" using assms(2) by (rule atoi_loop_stops)
  finally show ?thesis using c by (simp add: c_atoi_def d(1))
qed

lemma drop_digits: "no_digit_first t \<Longrightarrow> dropWhile isdigit (decimal n @ t) = t"
proof -
  assume t: "no_digit_first t"
  have "\<forall>c \<in> set (decimal n). isdigit c" using decimal_octets by (auto simp: isdigit_def)
  with t show ?thesis by (cases t) (auto simp: dropWhile_append no_digit_first_def)
qed

text \<open>The settings that come from a port text and name no Unix socket.\<close>

definition tcp_config :: "pool_helper \<Rightarrow> bool" where
  "tcp_config h \<longleftrightarrow> \<not> ph_is_unix h \<and> 0 \<le> ph_port h \<and> ph_port h < 2 ^ 16 \<and>
     0 \<le> sp_life_time (ph_pool h) \<and> sp_life_time (ph_pool h) < 2 ^ 16 \<and>
     (case ph_host h of None \<Rightarrow> False
      | Some t \<Rightarrow> map kgl_tolower (take 5 t) \<noteq> bytes ''unix:'' \<and> (case t of [] \<Rightarrow> True | c # _ \<Rightarrow> c \<noteq> 47)) \<and>
     (case ph_ssl h of None \<Rightarrow> True | Some [] \<Rightarrow> False | Some (c # _) \<Rightarrow> (c = 115 \<or> c = 83) \<and> \<not> ph_h2 h) \<and>
     (case ph_ip h of None \<Rightarrow> True | Some t \<Rightarrow> t \<noteq> [])"

lemma set_unix_tcp:
  "ph_host h = Some t \<Longrightarrow> map kgl_tolower (take 5 t) \<noteq> bytes ''unix:'' \<Longrightarrow> (case t of [] \<Rightarrow> True | c # _ \<Rightarrow> c \<noteq> 47) \<Longrightarrow> set_unix h = h"
  by (auto simp: set_unix_def split: list.splits)

lemma setLifeTime_field: "sp_life_time (setLifeTime now n p) = n mod 2 ^ 16"
proof -
  have "sp_life_time (snd (refresh_loop now clean l q)) = sp_life_time q" for clean l q
    by (induction l arbitrary: q) (auto simp: us_Destroy_def pool_unbind_def Let_def)
  then have "sp_life_time (refreshList now clean q) = sp_life_time q" for clean q
    by (auto simp: refreshList_def split: option.split prod.split) (metis snd_conv)
  then show ?thesis by (simp add: setLifeTime_def pool_clean_def Let_def)
qed

lemma setHostPort_int_tcp:
  assumes "map kgl_tolower (take 5 t) \<noteq> bytes ''unix:''" "case t of [] \<Rightarrow> True | c # _ \<Rightarrow> c \<noteq> 47"
  shows "ph_host (setHostPort_int g now (Some t) port (Some s) h) = Some t \<and>
    ph_port (setHostPort_int g now (Some t) port (Some s) h) = port mod 2 ^ 16 \<and>
    ph_h2 (setHostPort_int g now (Some t) port (Some s) h) = (case s of [] \<Rightarrow> False | c # _ \<Rightarrow> c = 104) \<and>
    ph_ssl (setHostPort_int g now (Some t) port (Some s) h) = (case s of [] \<Rightarrow> None | c # t \<Rightarrow> if c = 115 \<or> c = 83 then Some (c # t) else None) \<and>
    ph_is_unix (setHostPort_int g now (Some t) port (Some s) h) = ph_is_unix h"
proof -
  have u: "set_unix k = k" if "ph_host k = Some t" for k using set_unix_tcp [OF that assms] .
  show ?thesis
    by (cases s) (auto simp: setHostPort_int_def Let_def u split: prod.splits)
qed

lemma setHostPort_tcp:
  assumes "tcp_config h" "ph_host h = Some t" "\<not> ph_is_unix h0"
  shows "\<exists>r. setHostPort g now (Some t) (get_port h) h0 = Some r \<and> ph_host r = Some t \<and> ph_port r = ph_port h \<and> ph_ssl r = ph_ssl h \<and>
    ph_h2 r = ph_h2 h \<and> \<not> ph_is_unix r"
proof -
  define s where "s = (case ph_ssl h of None \<Rightarrow> [] | Some s \<Rightarrow> s) @ (if ph_h2 h then bytes ''h'' else [])"
  have gp: "get_port h = decimal (nat (ph_port h)) @ s" using assms(1) by (simp add: get_port_def s_def tcp_config_def)
  have nd: "no_digit_first s" using assms(1)
    by (auto simp: s_def no_digit_first_def tcp_config_def bytes_def of_char_def isdigit_def split: option.splits list.splits)
  have port: "c_atoi (get_port h) = Some (ph_port h)" unfolding gp
    using c_atoi_decimal [OF _ nd, of "nat (ph_port h)"] assms(1) by (simp add: tcp_config_def)
  have eq: "setHostPort g now (Some t) (get_port h) h0 = Some (setHostPort_int g now (Some t) (ph_port h) (Some s) h0)"
    by (simp add: setHostPort_def port) (simp add: gp drop_digits [OF nd])
  have t: "map kgl_tolower (take 5 t) \<noteq> bytes ''unix:''" "case t of [] \<Rightarrow> True | c # _ \<Rightarrow> c \<noteq> 47"
    using assms(1,2) by (simp_all add: tcp_config_def)
  have "(case s of [] \<Rightarrow> False | c # _ \<Rightarrow> c = 104) = ph_h2 h"
    "(case s of [] \<Rightarrow> None | c # t \<Rightarrow> if c = 115 \<or> c = 83 then Some (c # t) else None) = ph_ssl h" "ph_port h mod 2 ^ 16 = ph_port h"
    using assms(1) by (auto simp: s_def tcp_config_def bytes_def of_char_def split: option.splits list.splits)
  with setHostPort_int_tcp [OF t, of g now "ph_port h" s h0] assms(3) show ?thesis unfolding eq by auto
qed

text \<open>
  C37: settings survive being saved. For an upstream that is no Unix socket, parsing what
  \<^verbatim>\<open>build\<close> has written into a fresh pool gives the same host, port, TLS text, HTTP/2 flag, life time,
  parameter, local address and signature flag; the weight is not among what is written and becomes 0.
\<close>

theorem build_parse_round_trip:
  assumes "tcp_config h"
  shows "\<exists>r. helper_parse g now (helper_build h) (helper_new tm pt) = Some r \<and>
    (ph_host r, ph_port r, ph_ssl r, ph_h2 r, ph_is_unix r) = (ph_host h, ph_port h, ph_ssl h, ph_h2 h, ph_is_unix h) \<and>
    sp_life_time (ph_pool r) = sp_life_time (ph_pool h) \<and> ph_ip r = ph_ip h \<and> ph_sign r = ph_sign h \<and>
    ph_param r = Some (case ph_param h of None \<Rightarrow> [] | Some t \<Rightarrow> t) \<and> ph_weight r = 0"
proof -
  let ?a = "helper_build h"
  obtain t where t: "ph_host h = Some t" using assms by (auto simp: tcp_config_def split: option.splits)
  obtain r where r: "setHostPort g now (Some t) (get_port h) (helper_new tm pt) = Some r" "ph_host r = Some t" "ph_port r = ph_port h"
    "ph_ssl r = ph_ssl h" "ph_h2 r = ph_h2 h" "\<not> ph_is_unix r"
    using setHostPort_tcp [OF assms t, of "helper_new tm pt" g now] by (auto simp: helper_new_def)
  have a: "get_string ?a ''host'' = t" "get_string ?a ''port'' = get_port h"
    "get_string ?a ''life_time'' = decimal (nat (sp_life_time (ph_pool h)))" "get_string ?a ''weight'' = []"
    "get_string ?a ''param'' = (case ph_param h of None \<Rightarrow> [] | Some t \<Rightarrow> t)" "get_string ?a ''self_ip'' = (case ph_ip h of None \<Rightarrow> [] | Some t \<Rightarrow> t)"
    "get_string ?a ''sign'' = (if ph_sign h then bytes ''1'' else [])"
    by (auto simp: helper_build_def get_string_def Let_def t split: option.splits)
  have life: "c_atoi (decimal (nat (sp_life_time (ph_pool h)))) = Some (sp_life_time (ph_pool h))"
    using c_atoi_decimal [of "nat (sp_life_time (ph_pool h))" "[]"] assms by (simp add: tcp_config_def no_digit_first_def)
  have w: "c_atoi [] = Some 0" by (simp add: c_atoi_def)
  have b: "[] \<noteq> bytes ''1''" by (simp add: bytes_def)
  have "sp_life_time (ph_pool h) mod 2 ^ 16 = sp_life_time (ph_pool h)" using assms by (simp add: tcp_config_def)
  then show ?thesis using assms
    by (auto simp: helper_parse_def a r life w b t setIp_def SetParam_def setLifeTime_field tcp_config_def split: option.splits)
qed


definition example_helper :: pool_helper where
  "example_helper = (helper_new 0 0)\<lparr>ph_host := Some (bytes ''up''), ph_port := 8443, ph_ssl := Some (bytes ''sn''), ph_weight := 3\<rparr>"

theorem build_parse_round_trip_witness:
  "\<exists>r. helper_parse \<lparr>sc_new_ctx = True, sc_chiper = None, sc_protocols = None\<rparr> 0 (helper_build example_helper) (helper_new 0 0) = Some r \<and>
     ph_port r = 8443 \<and> ph_weight r = 0"
proof -
  have "tcp_config example_helper"
    by (simp add: tcp_config_def example_helper_def helper_new_def pool_new_def bytes_def of_char_def kgl_tolower_def)
  from build_parse_round_trip [OF this, of "\<lparr>sc_new_ctx = True, sc_chiper = None, sc_protocols = None\<rparr>" 0 0 0] show ?thesis
    by (auto simp: example_helper_def)
qed

text \<open>A later port text without the letter n does not bring the server name indication back.\<close>

lemma no_sni_sticks: "ph_no_sni h \<Longrightarrow> ph_no_sni (setHostPort_int g now host port s h)"
proof -
  assume h: "ph_no_sni h"
  have u: "ph_no_sni (set_unix k) = ph_no_sni k" for k by (auto simp: set_unix_def Let_def split: option.splits list.splits)
  show ?thesis using h by (simp add: setHostPort_int_def Let_def u split: option.split prod.split)
qed

section \<open>Opening a connection\<close>

text \<open>
  \<^verbatim>\<open>get_upstream\<close>: an idle connection, or a new one. What the network answers is an argument:
  whether the local address is valid, the outcome of a connection to each address the name resolves
  to, the steps of the TLS handshake and whether HTTP/2 was negotiated. \<open>mk\<close> is the new object.
\<close>

datatype up_kind = Up_Tcp | Up_Http | Up_Http2

record net_env =
  ne_bind_ok :: bool
  ne_addrs :: "bool list option"
  ne_ssl_connect :: bool
  ne_ssl_handshake :: bool
  ne_ssl_verified :: bool
  ne_alpn_h2 :: bool

definition bind_new :: "upstream \<Rightarrow> pool_helper \<Rightarrow> upstream option \<times> pool_helper" where
  "bind_new us h = (case pool_bind us (ph_pool h) of (us, p) \<Rightarrow> (Some us, h\<lparr>ph_pool := p\<rparr>))"

definition connected :: "net_env \<Rightarrow> (up_kind \<Rightarrow> upstream) \<Rightarrow> (int \<Rightarrow> int) \<Rightarrow> bool \<Rightarrow> bool \<Rightarrow> pool_helper \<Rightarrow> upstream option \<times> pool_helper" where
  "connected env mk inc16 tcp websocket h = (
     case ph_ssl_ctx h of
       Some _ \<Rightarrow>
         if \<not> ne_ssl_connect env \<or> \<not> ne_ssl_handshake env then (None, health inc16 Err h)
         else if ph_ssl h = Some (bytes ''S'') \<and> \<not> ne_ssl_verified env then (None, health inc16 Err h)
         else if ne_alpn_h2 env then bind_new (mk Up_Http2) h
         else if ph_h2 h \<and> \<not> websocket then bind_new (mk Up_Http2) h
         else bind_new (mk (if tcp then Up_Tcp else Up_Http)) h
     | None \<Rightarrow>
         if ph_h2 h \<and> \<not> websocket then bind_new (mk Up_Http2) h
         else bind_new (mk (if tcp then Up_Tcp else Up_Http)) h)"

definition open_upstream :: "net_env \<Rightarrow> (up_kind \<Rightarrow> upstream) \<Rightarrow> (int \<Rightarrow> int) \<Rightarrow> bool \<Rightarrow> bool \<Rightarrow> pool_helper \<Rightarrow> upstream option \<times> pool_helper" where
  "open_upstream env mk inc16 tcp websocket h = (
     if ph_ip h \<noteq> None \<and> \<not> ne_bind_ok env then (None, h)
     else let h = h\<lparr>ph_total_connect := (ph_total_connect h + 1) mod 2 ^ 64\<rparr> in
       case ne_addrs env of
         None \<Rightarrow> (None, health inc16 Err h)
       | Some addrs \<Rightarrow> if True \<in> set addrs then connected env mk inc16 tcp websocket h else (None, health inc16 Err h))"

definition get_upstream ::
  "net_env \<Rightarrow> (up_kind \<Rightarrow> upstream) \<Rightarrow> (int \<Rightarrow> int) \<Rightarrow> (upstream \<Rightarrow> upstream option) \<Rightarrow> int \<Rightarrow> bool \<Rightarrow> bool \<Rightarrow> bool \<Rightarrow> pool_helper \<Rightarrow> upstream option \<times> pool_helper" where
  "get_upstream env mk inc16 new_stream now tcp skip_pool websocket h = (
     let h = h\<lparr>ph_total_hit := (ph_total_hit h + 1) mod 2 ^ 64\<rparr> in
     if skip_pool then open_upstream env mk inc16 tcp websocket h
     else case get_pool_socket new_stream now websocket (ph_pool h) of
         (Some us, p) \<Rightarrow> (Some us, h\<lparr>ph_pool := p\<rparr>)
       | (None, p) \<Rightarrow> open_upstream env mk inc16 tcp websocket (h\<lparr>ph_pool := p\<rparr>))"

text \<open>What comes back is bound to the pool; a failure to open one, the local address aside, is one more error.\<close>

definition opened :: "pool_helper \<Rightarrow> upstream option \<times> pool_helper \<Rightarrow> bool" where
  "opened h r = (case r of
      (Some us, h') \<Rightarrow> us_bound us \<and> sp_refs (ph_pool h') = sp_refs (ph_pool h) + 1 \<and>
        ph_error_count h' = ph_error_count h \<and> ph_total_error h' = ph_total_error h
    | (None, h') \<Rightarrow> ph_pool h' = ph_pool h \<and> ph_error_count h' = (ph_error_count h + 1) mod 2 ^ 16 \<and>
        ph_total_error h' = (ph_total_error h + 1) mod 2 ^ 64)"

lemma opened_Err: "opened h (None, health inc16 Err h)"
  by (simp add: opened_def disable_def Let_def)

lemma opened_bind: "opened h (bind_new us h)"
  by (simp add: opened_def bind_new_def pool_bind_def)

lemma opened_connected: "opened h (connected env mk inc16 tcp websocket h)"
  unfolding connected_def by (simp only: opened_Err opened_bind split: option.split if_split) simp

lemma opened_counted: "opened (h\<lparr>ph_total_connect := n\<rparr>) r = opened h r"
  by (simp add: opened_def split: prod.split option.split)

lemma open_upstream_result:
  "ph_ip h \<noteq> None \<and> \<not> ne_bind_ok env \<and> open_upstream env mk inc16 tcp websocket h = (None, h) \<or>
   opened h (open_upstream env mk inc16 tcp websocket h)"
proof (cases "ph_ip h \<noteq> None \<and> \<not> ne_bind_ok env")
  case False
  define h1 where "h1 = h\<lparr>ph_total_connect := (ph_total_connect h + 1) mod 2 ^ 64\<rparr>"
  have "open_upstream env mk inc16 tcp websocket h = (case ne_addrs env of
         None \<Rightarrow> (None, health inc16 Err h1)
       | Some addrs \<Rightarrow> if True \<in> set addrs then connected env mk inc16 tcp websocket h1 else (None, health inc16 Err h1))"
    unfolding open_upstream_def Let_def h1_def [symmetric] using False by (simp only: if_False)
  also have "opened h1 \<dots>" by (simp only: opened_Err opened_connected split: option.split if_split) simp
  finally show ?thesis unfolding h1_def opened_counted by blast
qed (simp add: open_upstream_def)

end
