(* ===== verification/KXml.thy ===== *)
theory KXml
  imports KStreams
begin

text \<open>
  The XML parser (\<^verbatim>\<open>davlib/KXml.cpp\<close>): escaping and unescaping, the attributes of a tag and the loop
  that turns a text into the events of \<^verbatim>\<open>KXmlEvent\<close>. Texts are C strings, without zero octets. The
  escapes are proved to be undone by the parser.
\<close>

section \<open>Escaping\<close>

definition html_escape :: "byte \<Rightarrow> byte list" where
  "html_escape c = (
     if c = 39 then bytes ''&#39;''
     else if c = 34 then bytes ''&#34;''
     else if c = 38 then bytes ''&amp;''
     else if c = 62 then bytes ''&gt;''
     else if c = 60 then bytes ''&lt;''
     else [c])"

definition htmlEncode :: "byte list \<Rightarrow> byte list" where
  "htmlEncode str = concat (map html_escape str)"

text \<open>\<^verbatim>\<open>strncasecmp\<close> with the length of a literal that has no zero octet.\<close>

definition starts_icase :: "string \<Rightarrow> byte list \<Rightarrow> bool" where
  "starts_icase lit s \<longleftrightarrow> map kgl_tolower (take (length lit) s) = bytes lit"

definition starts_with :: "string \<Rightarrow> byte list \<Rightarrow> bool" where
  "starts_with lit s \<longleftrightarrow> take (length lit) s = bytes lit"

text \<open>
  \<^verbatim>\<open>htmlDecode\<close> writes over its argument, never ahead of what it reads. The result is \<open>None\<close> where
  \<^verbatim>\<open>atoi\<close> overflows.
\<close>

function htmlDecode :: "byte list \<Rightarrow> byte list option" where
  "htmlDecode [] = Some []"
| "htmlDecode (c # s) = (
     if c = 38 \<and> s \<noteq> [] then
       if starts_icase ''lt;'' s then map_option (Cons 60) (htmlDecode (drop 3 s))
       else if starts_icase ''gt;'' s then map_option (Cons 62) (htmlDecode (drop 3 s))
       else if starts_icase ''quot;'' s then map_option (Cons 34) (htmlDecode (drop 5 s))
       else if starts_icase ''apos;'' s then map_option (Cons 39) (htmlDecode (drop 5 s))
       else if starts_icase ''amp;'' s then map_option (Cons 38) (htmlDecode (drop 4 s))
       else if hd s = 35 \<and> 59 \<in> set s then
         (case c_atoi (tl s) of
            None \<Rightarrow> None
          | Some n \<Rightarrow> map_option (Cons (of_int n)) (htmlDecode (tl (dropWhile (\<lambda>c. c \<noteq> 59) s))))
       else map_option (Cons c) (htmlDecode s)
     else map_option (Cons c) (htmlDecode s))"
  by pat_completeness auto
termination
proof (relation "measure length", goal_cases)
  case (7 c s x2)
  have "length (dropWhile (\<lambda>c. c \<noteq> 59) s) \<le> length s" by (rule length_dropWhile_le)
  then show ?case by (simp add: less_Suc_eq_le le_diff_conv)
qed auto

lemma decode_plain: "c \<noteq> 38 \<Longrightarrow> htmlDecode (c # s) = map_option (Cons c) (htmlDecode s)"
  by simp

lemma decode_escape: "htmlDecode (html_escape c @ s) = map_option (Cons c) (htmlDecode s)"
proof -
  have n: "c_atoi (51 # 57 # 59 # s) = Some 39" "c_atoi (51 # 52 # 59 # s) = Some 34"
    by (simp_all add: c_atoi_def isspace_def kgl_atoi_def)
  consider "c = 39" | "c = 34" | "c = 38" | "c = 62" | "c = 60" | "c \<noteq> 39" "c \<noteq> 34" "c \<noteq> 38" "c \<noteq> 62" "c \<noteq> 60" by blast
  then show ?thesis
    by cases (simp_all add: html_escape_def bytes_def of_char_def starts_icase_def kgl_tolower_def n)
qed

lemma htmlDecode_plain: "38 \<notin> set s \<Longrightarrow> htmlDecode s = Some s"
  by (induction s) auto

text \<open>
  Escaping is undone: decoding the escaped form of any text gives the text back; the escaped
  form fits into the five octets per octet that are allocated for it, and has no angle brackets and
  no quotes left.
\<close>

theorem html_round_trip:
  "htmlDecode (htmlEncode s) = Some s \<and> length (htmlEncode s) \<le> 5 * length s \<and>
   {60, 62, 34, 39} \<inter> set (htmlEncode s) = {}"
proof -
  have "htmlDecode (htmlEncode s) = Some s" by (induction s) (simp_all add: htmlEncode_def decode_escape)
  moreover have "length (htmlEncode s) \<le> 5 * length s"
    by (induction s) (auto simp: htmlEncode_def html_escape_def bytes_def)
  moreover have "{60, 62, 34, 39} \<inter> set (html_escape c) = {}" for c
    by (auto simp: html_escape_def bytes_def of_char_def)
  then have "{60, 62, 34, 39} \<inter> set (htmlEncode s) = {}" by (induction s) (auto simp: htmlEncode_def)
  ultimately show ?thesis by blast
qed

section \<open>Attributes\<close>

text \<open>
  \<^verbatim>\<open>KXmlAttribute\<close>, an ordered map: a list with ascending names. \<^verbatim>\<open>emplace\<close> keeps the value that is there.
\<close>

type_synonym xml_attrs = "(byte list \<times> byte list) list"

fun attr_emplace :: "byte list \<Rightarrow> byte list \<Rightarrow> xml_attrs \<Rightarrow> xml_attrs" where
  "attr_emplace k v [] = [(k, v)]"
| "attr_emplace k v ((k', v') # l) = (
     if kgl_cmp k k' < 0 then (k, v) # (k', v') # l
     else if kgl_cmp k k' = 0 then (k', v') # l
     else (k', v') # attr_emplace k v l)"

fun write_at :: "nat \<Rightarrow> byte list \<Rightarrow> byte list \<Rightarrow> byte list" where
  "write_at i [] m = m"
| "write_at i (x # xs) m = write_at (i + 1) xs (m[i := x])"

lemma length_write_at [simp]: "length (write_at i xs m) = length m"
  by (induction xs arbitrary: i m) auto

lemma getString_length: "getString ended eq sk m = Some (i, j, m') \<Longrightarrow> length m' = length m"
  by (auto simp: getString_def Let_def dest: quoted_loop_length split: if_splits option.splits)

text \<open>
  \<^verbatim>\<open>buildAttribute\<close>. The argument is the memory from the pointer on, up to and with the zero octet at
  the end of the tag. The value is unescaped in place before the scan goes on. The result is \<open>None\<close>
  where unescaping is undefined.
\<close>

definition trim_end :: "byte list \<Rightarrow> byte list" where
  "trim_end s = rev (dropWhile isspace (rev s))"

function buildAttribute :: "byte list \<Rightarrow> xml_attrs \<Rightarrow> xml_attrs option" where
  "buildAttribute m attrs = (
     if octet_at m 0 = 0 then Some attrs
     else
       let m = drop (skip_spaces m 0) m; str = takeWhile (\<lambda>c. c \<noteq> 0) m in
       case memchr str 61 of
         None \<Rightarrow> Some attrs
       | Some p \<Rightarrow>
           let name = trim_end (take p m); m = drop (p + 1) m in
           case getString None False True m of
             None \<Rightarrow> Some attrs
           | Some (i, j, m) \<Rightarrow>
               (case htmlDecode (takeWhile (\<lambda>c. c \<noteq> 0) (drop i m)) of
                  None \<Rightarrow> None
                | Some v \<Rightarrow>
                    buildAttribute (drop j (write_at i (v @ [0]) m)) (attr_emplace name (takeWhile (\<lambda>c. c \<noteq> 0) v) attrs)))"
  by pat_completeness auto
termination
  by (relation "measure (\<lambda>(m, _). length m)") (auto dest!: getString_length octet_at_bound simp: Let_def)

declare buildAttribute.simps [simp del]


section \<open>Events\<close>

text \<open>
  What the parser tells its listeners. A listener sees the name of an element, the path to it and
  its attributes. \<^verbatim>\<open>KXmlException\<close> is \<open>Xml_Raised\<close>; \<open>Xml_Undef\<close> is a null pointer plus three or an
  overflow in \<^verbatim>\<open>atoi\<close>.
\<close>

datatype xml_event =
    Start_Element (ev_path: "byte list") (ev_name: "byte list") (ev_attrs: xml_attrs)
  | Characters (ev_name: "byte list") (ev_text: "byte list")
  | End_Element (ev_name: "byte list")

datatype xml_outcome = Xml_Done "xml_event list" | Xml_Raised string "xml_event list" | Xml_Undef

datatype xml_state = Xml_Init | START_ELEMENT | START_CHAR | END_ELEMENT

text \<open>The path \<^verbatim>\<open>newContext\<close> builds from the open elements.\<close>

fun join_path :: "byte list list \<Rightarrow> byte list" where
  "join_path [] = []"
| "join_path [q] = q"
| "join_path (q # qs) = q @ [47] @ join_path qs"

definition strstr :: "byte list \<Rightarrow> string \<Rightarrow> nat option" where
  "strstr s lit = kgl_memstr s (bytes lit)"

text \<open>The inside of a start tag: whether it ends with a slash, its name and its attributes.\<close>

definition start_tag :: "byte list \<Rightarrow> (bool \<times> byte list \<times> xml_attrs) option" where
  "start_tag body = (
     let t = trim_end body; single = (t \<noteq> [] \<and> last t = 47);
         body = (if single then butlast t else body);
         name = takeWhile (\<lambda>c. \<not> isspace c) body; rest = dropWhile (\<lambda>c. \<not> isspace c) body
     in map_option (\<lambda>attrs. (single, name, attrs)) (if rest = [] then Some [] else buildAttribute (tl rest @ [0]) []))"

definition characters :: "byte list option \<Rightarrow> byte list \<Rightarrow> xml_event list" where
  "characters cur t = (case cur of None \<Rightarrow> [] | Some q \<Rightarrow> [Characters q t])"

lemma memchr_less: "memchr s c = Some i \<Longrightarrow> i < length s"
  by (simp add: first_pos_Some)

lemma starts_with_length: "starts_with lit s \<Longrightarrow> length lit \<le> length s"
  by (auto simp: starts_with_def bytes_def dest: arg_cong [where f = length])

lemma starts_with_Cons: "starts_with ''<'' (c # s) \<longleftrightarrow> c = 60" "\<not> starts_with ''<'' []" "starts_with ''/'' (c # s) \<longleftrightarrow> c = 47"
  "\<not> starts_with ''/'' []"
  by (auto simp: starts_with_def bytes_def of_char_def)

lemma skip_shorter: "starts_with ''<'' (dropWhile isspace hot) \<Longrightarrow> length (dropWhile isspace (tl (dropWhile isspace hot))) < length hot"
proof -
  assume "starts_with ''<'' (dropWhile isspace hot)"
  then have "0 < length (dropWhile isspace hot)" by (cases "dropWhile isspace hot") (auto simp: starts_with_Cons)
  then show ?thesis
    using length_dropWhile_le [of isspace hot] length_dropWhile_le [of isspace "tl (dropWhile isspace hot)"] unfolding length_tl by linarith
qed

lemma drop_shorter: "0 < k \<Longrightarrow> k \<le> length (dropWhile isspace hot) \<Longrightarrow> length (drop i (drop k (dropWhile isspace hot))) < length hot"
  using length_dropWhile_le [of isspace hot] by simp

lemma memchr_pos: "memchr s 60 = Some i \<Longrightarrow> \<not> starts_with ''<'' s \<Longrightarrow> 0 < i \<and> i < length s"
  by (cases s) (auto simp: starts_with_Cons first_pos_Some split: if_splits)

text \<open>
  \<^verbatim>\<open>internelParseString\<close>: \<open>contexts\<close> are the open elements, outermost first, \<open>cur\<close> is \<^verbatim>\<open>curContext\<close>,
  \<open>ev\<close> what the listeners were told so far.
\<close>

function parse_loop :: "xml_state \<Rightarrow> byte list list \<Rightarrow> byte list option \<Rightarrow> byte list \<Rightarrow> xml_event list \<Rightarrow> xml_outcome" where
  "parse_loop state contexts cur hot ev = (
     if hot = [] then Xml_Done ev
     else
       let s = dropWhile isspace hot in
       if starts_with ''<![CDATA['' s then
         (case strstr (drop 9 s) '']]>'' of
            None \<Rightarrow> Xml_Raised ''Cann't read cdata end'' ev
          | Some i \<Rightarrow> parse_loop START_CHAR contexts cur (drop (i + 3) (drop 9 s)) (ev @ characters cur (take i (drop 9 s))))
       else if starts_with ''<!--'' s then
         (case strstr (drop 4 s) ''-->'' of
            None \<Rightarrow> Xml_Undef
          | Some i \<Rightarrow> parse_loop state contexts cur (drop (i + 3) (drop 4 s)) ev)
       else if starts_with ''<'' s then
         let t = dropWhile isspace (tl s) in
         if starts_with ''/'' t then
           (let t = dropWhile isspace (tl t) in
            case memchr t 62 of
              None \<Rightarrow> Xml_Raised ''cann't get charater end'' ev
            | Some i \<Rightarrow>
                let name = takeWhile (\<lambda>c. \<not> isspace c) (take i t) in
                if contexts = [] then Xml_Raised ''contexts not enoungh'' ev
                else if last contexts \<noteq> name then Xml_Raised ''end tag not match start tag'' ev
                else parse_loop END_ELEMENT (butlast contexts) None (drop (i + 1) t) (ev @ [End_Element name]))
         else
           (case memchr t 62 of
              None \<Rightarrow> Xml_Raised ''cann't get element end'' ev
            | Some i \<Rightarrow>
                (case start_tag (take i t) of
                   None \<Rightarrow> Xml_Undef
                 | Some (single, name, attrs) \<Rightarrow>
                     let ev = ev @ [Start_Element (join_path contexts) name attrs] in
                     if single then
                       if contexts = [] then Xml_Done (ev @ [End_Element name])
                       else parse_loop START_ELEMENT contexts None (drop (i + 1) t) (ev @ [End_Element name])
                     else parse_loop START_ELEMENT (contexts @ [name]) (Some name) (drop (i + 1) t) ev))
       else if state = START_CHAR then Xml_Done ev
       else
         (case memchr s 60 of
            None \<Rightarrow> Xml_Done ev
          | Some i \<Rightarrow>
              if cur = None then parse_loop START_CHAR contexts cur (drop i s) ev
              else (case htmlDecode (take i s) of
                      None \<Rightarrow> Xml_Undef
                    | Some t \<Rightarrow> parse_loop START_CHAR contexts cur (drop i s) (ev @ characters cur t))))"
  by pat_completeness auto

termination
proof (relation "measure (\<lambda>(_, _, _, hot, _). length hot)", goal_cases)
  case (2 state contexts cur hot ev x x2)
  with starts_with_length [OF 2(3)] drop_shorter [of 9 hot "x2 + 3"] show ?case by simp
next
  case (3 state contexts cur hot ev x x2)
  with starts_with_length [OF 3(4)] drop_shorter [of 4 hot "x2 + 3"] show ?case by simp
next
  case (4 state contexts cur hot ev x xa xb x2 xc)
  with skip_shorter [of hot] length_dropWhile_le [of isspace "tl xa"] show ?case by simp
next
  case (5 state contexts cur hot ev x xa x2 x2a xb y xc ya xd)
  with skip_shorter [of hot] show ?case by simp
next
  case (6 state contexts cur hot ev x xa x2 x2a xb y xc ya xd)
  with skip_shorter [of hot] show ?case by simp
next
  case (7 state contexts cur hot ev x x2)
  with memchr_pos [of x x2] length_dropWhile_le [of isspace hot] show ?case by simp linarith
next
  case (8 state contexts cur hot ev x x2 x2a)
  with memchr_pos [of x x2] length_dropWhile_le [of isspace hot] show ?case by simp linarith
qed simp

declare parse_loop.simps [simp del]

text \<open>
  \<^verbatim>\<open>startParse\<close>: the declaration, if there is one, and the rest. The encoding it names goes to the listeners.
\<close>

definition startParse :: "byte list \<Rightarrow> (byte list \<times> xml_outcome) option" where
  "startParse buf = (case memchr buf 60 of
       None \<Rightarrow> Some ([], Xml_Raised ''file is not a xml format'' [])
     | Some i \<Rightarrow>
         if starts_with ''?'' (drop (i + 1) buf) then
           let buf = drop (i + 2) buf in
           (case memchr buf 63 of
              None \<Rightarrow> Some ([], Xml_Raised ''file is not a xml format'' [])
            | Some j \<Rightarrow>
                if \<not> starts_with ''>'' (drop (j + 1) buf) then Some ([], Xml_Raised ''file is not a xml format'' [])
                else (case buildAttribute (take j buf @ [0]) [] of
                        None \<Rightarrow> None
                      | Some attrs \<Rightarrow>
                          let encoding = (case map_of attrs (bytes ''encoding'') of None \<Rightarrow> [] | Some v \<Rightarrow> v) in
                          Some (encoding, parse_loop Xml_Init [] None (drop (j + 2) buf) [])))
         else Some ([], parse_loop Xml_Init [] None buf []))"

end
