(* ===== verification/KXmlDocument.thy ===== *)
theory KXmlDocument
  imports KXml
begin

text \<open>
  The XML document (\<^verbatim>\<open>davlib/KXmlDocument.cpp\<close>, \<^verbatim>\<open>davlib/KXmlDocument.h\<close>): a tree built from the
  parser's events, and the writer that prints it. Printing a document and parsing it again gives
  the document.
\<close>

section \<open>The tree\<close>

text \<open>
  Elements of one name under one parent are one node with a body for each. The text of a body is
  the attribute named \<^verbatim>\<open>_\<close>, kept apart here. Keys have no \<^verbatim>\<open>vary\<close> part, as without a name configuration.
\<close>

datatype xml_node = Node (node_tag: "byte list") (node_bodies: "xml_body list")
and xml_body = Body (body_attrs: xml_attrs) (body_text: "byte list option") (body_childs: "xml_node list")

definition text_as_attribute_name :: "byte list" where
  "text_as_attribute_name = bytes ''_''"

definition body_of_attrs :: "xml_attrs \<Rightarrow> xml_body" where
  "body_of_attrs attrs = Body (filter (\<lambda>(k, v). k \<noteq> text_as_attribute_name) attrs) (map_of attrs text_as_attribute_name) []"

text \<open>
  \<^verbatim>\<open>KXmlNodeBody::add\<close> at the last position. The children are a red-black tree of the I/O library,
  ordered by the comparison of the keys; which of two different names comes first is \<open>before\<close>.
\<close>

fun add_child :: "(byte list \<Rightarrow> byte list \<Rightarrow> bool) \<Rightarrow> xml_node \<Rightarrow> xml_node list \<Rightarrow> xml_node list" where
  "add_child before n [] = [n]"
| "add_child before n (m # l) = (
     if kgl_cmp (node_tag m) (node_tag n) = 0 then
       (if node_bodies n = [] then m # l else Node (node_tag m) (node_bodies m @ [last (node_bodies n)]) # l)
     else if before (node_tag n) (node_tag m) then n # m # l
     else m # add_child before n l)"

definition on_last_body :: "(xml_body \<Rightarrow> xml_body) \<Rightarrow> xml_node \<Rightarrow> xml_node" where
  "on_last_body f n = (if node_bodies n = [] then n else Node (node_tag n) (butlast (node_bodies n) @ [f (last (node_bodies n))]))"

definition on_first_body :: "(xml_body \<Rightarrow> xml_body) \<Rightarrow> xml_node \<Rightarrow> xml_node" where
  "on_first_body f n = (case node_bodies n of [] \<Rightarrow> n | b # bs \<Rightarrow> Node (node_tag n) (f b # bs))"

definition append_child :: "(byte list \<Rightarrow> byte list \<Rightarrow> bool) \<Rightarrow> xml_node \<Rightarrow> xml_node \<Rightarrow> xml_node" where
  "append_child before xml n = on_last_body (\<lambda>b. Body (body_attrs b) (body_text b) (add_child before xml (body_childs b))) n"

definition set_text :: "byte list \<Rightarrow> xml_body \<Rightarrow> xml_body" where
  "set_text t b = Body (body_attrs b) (Some t) (body_childs b)"

section \<open>From events to the tree\<close>

record xml_doc =
  d_cur_node :: "xml_node option"
  d_parents :: "xml_node option list"
  d_root :: "xml_node option"

definition doc_new :: xml_doc where
  "doc_new = \<lparr>d_cur_node = None, d_parents = [], d_root = None\<rparr>"

definition local_name :: "bool \<Rightarrow> byte list \<Rightarrow> byte list" where
  "local_name skip_ns q = (if skip_ns \<and> 58 \<in> set q then tl (dropWhile (\<lambda>c. c \<noteq> 58) q) else q)"

text \<open>The result is \<open>None\<close> where an assertion fails: a second element at the top.\<close>

fun doc_event :: "bool \<Rightarrow> (byte list \<Rightarrow> byte list \<Rightarrow> bool) \<Rightarrow> xml_event \<Rightarrow> xml_doc \<Rightarrow> xml_doc option" where
  "doc_event skip_ns before (Start_Element path q attrs) d =
     Some (d\<lparr>d_parents := d_cur_node d # d_parents d, d_cur_node := Some (Node (local_name skip_ns q) [body_of_attrs attrs])\<rparr>)"
| "doc_event skip_ns before (Characters q t) d =
     Some (d\<lparr>d_cur_node := map_option (on_first_body (set_text (takeWhile (\<lambda>c. c \<noteq> 0) t))) (d_cur_node d)\<rparr>)"
| "doc_event skip_ns before (End_Element q) d = (case d_cur_node d of
       None \<Rightarrow> Some d
     | Some n \<Rightarrow>
         (case (case d_parents d of [] \<Rightarrow> (None, []) | p # ps \<Rightarrow> (p, ps)) of
            (None, ps) \<Rightarrow> if d_root d \<noteq> None then None else Some (d\<lparr>d_root := Some n, d_cur_node := None, d_parents := ps\<rparr>)
          | (Some p, ps) \<Rightarrow> Some (d\<lparr>d_cur_node := Some (append_child before n p), d_parents := ps\<rparr>)))"

fun doc_events :: "bool \<Rightarrow> (byte list \<Rightarrow> byte list \<Rightarrow> bool) \<Rightarrow> xml_event list \<Rightarrow> xml_doc \<Rightarrow> xml_doc option" where
  "doc_events skip_ns before [] d = Some d"
| "doc_events skip_ns before (e # es) d = (case doc_event skip_ns before e d of None \<Rightarrow> None | Some d \<Rightarrow> doc_events skip_ns before es d)"

text \<open>\<^verbatim>\<open>KXmlDocument::parse\<close>: the root, or nothing after an exception; \<open>None\<close> where the behaviour is undefined.\<close>

definition doc_parse :: "bool \<Rightarrow> (byte list \<Rightarrow> byte list \<Rightarrow> bool) \<Rightarrow> byte list \<Rightarrow> xml_node option option" where
  "doc_parse skip_ns before str = (case startParse str of
       Some (_, Xml_Done es) \<Rightarrow> map_option d_root (doc_events skip_ns before es doc_new)
     | Some (_, Xml_Raised _ es) \<Rightarrow> map_option (\<lambda>_. None) (doc_events skip_ns before es doc_new)
     | _ \<Rightarrow> None)"

text \<open>\<^verbatim>\<open>find_child\<close> of a path.\<close>

definition child_of_tag :: "byte list \<Rightarrow> xml_node \<Rightarrow> xml_node option" where
  "child_of_tag tag n = (case node_bodies n of [] \<Rightarrow> None | b # _ \<Rightarrow> find (\<lambda>m. kgl_cmp (node_tag m) tag = 0) (body_childs b))"

section \<open>Printing\<close>

definition write_attr :: "byte list \<times> byte list \<Rightarrow> byte list" where
  "write_attr kv = (case kv of (k, v) \<Rightarrow>
     if k \<noteq> [] \<and> hd k = 95 then []
     else [32] @ k @ [61] @
       (if 39 \<notin> set v then [39] @ v @ [39] else if 34 \<notin> set v then [34] @ v @ [34] else [39, 39]))"

definition write_attrs :: "xml_attrs \<Rightarrow> byte list" where
  "write_attrs attrs = concat (map write_attr attrs)"

definition write_text :: "byte list \<Rightarrow> byte list" where
  "write_text t = (if 60 \<in> set t then bytes ''<![CDATA['' @ t @ bytes '']]>'' else t)"

fun write_node :: "nat \<Rightarrow> xml_node \<Rightarrow> byte list" and write_body :: "nat \<Rightarrow> byte list \<Rightarrow> xml_body \<Rightarrow> byte list" where
  "write_node level (Node t bs) = concat (map (\<lambda>b. replicate level 9 @ [60] @ t @ write_body level t b) bs)"
| "write_body level t (Body attrs tx cs) = write_attrs attrs @
     (if cs = [] \<and> tx = None then [47, 62, 10]
      else (if cs = [] then [62] else [62, 10]) @ concat (map (write_node (level + 1)) cs) @
        (case tx of None \<Rightarrow> [] | Some x \<Rightarrow> write_text x @ (if cs = [] then [] else [10])) @
        (if cs = [] then [] else replicate level 9) @ [60, 47] @ t @ [62, 10])"

section \<open>What can be printed\<close>

definition tag_ok :: "byte list \<Rightarrow> bool" where
  "tag_ok t \<longleftrightarrow> t \<noteq> [] \<and> hd t \<noteq> 33 \<and> hd t \<noteq> 63 \<and> (\<forall>c \<in> set t. \<not> isspace c \<and> c \<noteq> 0 \<and> c \<noteq> 47 \<and> c \<noteq> 62 \<and> c \<noteq> 58)"

definition attr_ok :: "byte list \<times> byte list \<Rightarrow> bool" where
  "attr_ok kv \<longleftrightarrow> (case kv of (k, v) \<Rightarrow> k \<noteq> [] \<and> hd k \<noteq> 95 \<and> (\<forall>c \<in> set k. \<not> isspace c \<and> c \<noteq> 0 \<and> c \<noteq> 61 \<and> c \<noteq> 62) \<and>
     (\<forall>c \<in> set v. c \<noteq> 0 \<and> c \<noteq> 38 \<and> c \<noteq> 62) \<and> \<not> (39 \<in> set v \<and> 34 \<in> set v))"

definition attrs_ok :: "xml_attrs \<Rightarrow> bool" where
  "attrs_ok attrs \<longleftrightarrow> (\<forall>kv \<in> set attrs. attr_ok kv) \<and> sorted_wrt (\<lambda>a b. kgl_cmp (fst b) (fst a) > 0) attrs"

definition text_ok :: "byte list \<Rightarrow> bool" where
  "text_ok t \<longleftrightarrow> t \<noteq> [] \<and> 0 \<notin> set t \<and> (if 60 \<in> set t then 62 \<notin> set t else \<not> isspace (hd t) \<and> 38 \<notin> set t)"

fun node_ok :: "(byte list \<Rightarrow> byte list \<Rightarrow> bool) \<Rightarrow> xml_node \<Rightarrow> bool" and body_ok :: "(byte list \<Rightarrow> byte list \<Rightarrow> bool) \<Rightarrow> xml_body \<Rightarrow> bool" where
  "node_ok before (Node t bs) \<longleftrightarrow> tag_ok t \<and> bs \<noteq> [] \<and> (\<forall>b \<in> set bs. body_ok before b)"
| "body_ok before (Body attrs tx cs) \<longleftrightarrow> attrs_ok attrs \<and> (case tx of None \<Rightarrow> True | Some t \<Rightarrow> text_ok t \<and> cs = []) \<and>
     (\<forall>c \<in> set cs. node_ok before c) \<and>
     sorted_wrt (\<lambda>a b. kgl_cmp (node_tag a) (node_tag b) \<noteq> 0 \<and> \<not> before (node_tag b) (node_tag a)) cs"

text \<open>The events of a tree.\<close>

fun node_events :: "byte list list \<Rightarrow> xml_node \<Rightarrow> xml_event list" and body_events :: "byte list list \<Rightarrow> byte list \<Rightarrow> xml_body \<Rightarrow> xml_event list" where
  "node_events ctx (Node t bs) = concat (map (body_events ctx t) bs)"
| "body_events ctx t (Body attrs tx cs) = [Start_Element (join_path ctx) t attrs] @
     (case tx of None \<Rightarrow> [] | Some x \<Rightarrow> [Characters t x]) @ concat (map (node_events (ctx @ [t])) cs) @ [End_Element t]"


section \<open>Reading attributes back\<close>

lemma write_at_same: "drop i m = v @ w \<Longrightarrow> write_at i v m = m"
proof (induction v arbitrary: i m)
  case (Cons x v)
  then have i: "i < length m" by (cases "i < length m") auto
  with Cons.prems have "m ! i = x" "drop (i + 1) m = v @ w" by (simp_all add: Cons_nth_drop_Suc [symmetric])
  with Cons.IH [of "i + 1" m] list_update_id [of m i] show ?case by simp
qed simp

lemma attr_emplace_last:
  "\<forall>kv \<in> set l. kgl_cmp k (fst kv) > 0 \<Longrightarrow> attr_emplace k v l = l @ [(k, v)]"
  by (induction l) auto

lemma quoted_value:
  assumes "\<forall>c \<in> set v. c \<noteq> 0 \<and> c \<noteq> 38" "q = 39 \<or> q = 34" "q \<notin> set v"
  shows "\<exists>i j m'. getString None False True (q # v @ q # rest) = Some (i, j, m') \<and>
    htmlDecode (takeWhile (\<lambda>c. c \<noteq> 0) (drop i m')) = Some v \<and> drop j (write_at i (v @ [0]) m') = rest"
proof -
  have "0 \<notin> set v" "38 \<notin> set v" "q \<noteq> 0" using assms(1,2) by auto
  from getString_quoted [of "[]" q True "v @ q # rest" v rest None False] unquote_plain_text [OF this(1) assms(3) this(3)] assms(2)
  obtain i j m' gap where g: "getString None False True (q # v @ q # rest) = Some (i, j, m')" "drop i m' = v @ 0 # gap" "drop j m' = rest"
    by auto
  have "takeWhile (\<lambda>c. c \<noteq> 0) (drop i m') = v" using \<open>0 \<notin> set v\<close> by (simp add: g(2) takeWhile_append)
  moreover have "write_at i (v @ [0]) m' = m'" by (rule write_at_same [of _ _ _ gap]) (simp add: g(2))
  ultimately show ?thesis using g htmlDecode_plain [OF \<open>38 \<notin> set v\<close>] by auto
qed

lemma buildAttribute_one:
  assumes "attr_ok (k, v)" "\<forall>c \<in> set ws. isspace c" "q = 39 \<or> q = 34" "q \<notin> set v"
  shows "buildAttribute (ws @ k @ [61] @ [q] @ v @ [q] @ rest) attrs = buildAttribute rest (attr_emplace k v attrs)"
proof -
  let ?m = "ws @ k @ [61] @ [q] @ v @ [q] @ rest"
  have k: "k \<noteq> []" "\<forall>c \<in> set k. \<not> isspace c \<and> c \<noteq> 0 \<and> c \<noteq> 61" and v: "\<forall>c \<in> set v. c \<noteq> 0 \<and> c \<noteq> 38"
    using assms(1) by (auto simp: attr_ok_def)
  obtain x xs where x: "k = x # xs" using k(1) by (cases k) auto
  have sp: "skip_spaces ?m 0 = length ws"
    using skip_spaces_all [of ws x "[]"] assms(2) k(2) by (simp add: x)
  have z: "octet_at ?m 0 \<noteq> 0" using assms(2) k by (cases ws) (auto simp: x isspace_def)
  have str: "takeWhile (\<lambda>c. c \<noteq> 0) (k @ [61] @ r) = k @ [61] @ takeWhile (\<lambda>c. c \<noteq> 0) r" for r
    using k(2) by (auto simp: takeWhile_append)
  have p: "memchr (k @ [61] @ r) 61 = Some (length k)" for r using k(2) by (auto simp: first_pos_Some nth_append dest: nth_mem)
  have name: "trim_end k = k" using k by (simp add: trim_end_def dropWhile_eq_self_iff [of _ "rev k", THEN iffD2] hd_rev)
  obtain i j m' where g: "getString None False True (q # v @ q # rest) = Some (i, j, m')"
    "htmlDecode (takeWhile (\<lambda>c. c \<noteq> 0) (drop i m')) = Some v" "drop j (write_at i (v @ [0]) m') = rest"
    using quoted_value [OF v assms(3,4)] by blast
  have tv: "takeWhile (\<lambda>c. c \<noteq> 0) v = v" using v by (simp add: takeWhile_eq_all_conv)
  have d: "drop (skip_spaces ?m 0) ?m = k @ [61] @ (q # v @ q # rest)" unfolding sp by simp
  show ?thesis
    unfolding buildAttribute.simps [of ?m] d Let_def str p option.case
    using z by (simp add: name g tv)
qed

lemma buildAttribute_end: "\<forall>c \<in> set ws. isspace c \<Longrightarrow> buildAttribute (ws @ [0]) attrs = Some attrs"
proof (cases ws)
  case Nil
  then show ?thesis by (simp add: buildAttribute.simps)
next
  case (Cons w ws')
  assume ws: "\<forall>c \<in> set ws. isspace c"
  have "skip_spaces (ws @ [0]) 0 = length ws"
    using skip_spaces_all [OF ws, of 0 "[]" "[]"] by (simp add: isspace_def)
  then show ?thesis by (simp add: buildAttribute.simps [of "ws @ [0]"])
qed

lemma buildAttribute_written:
  assumes "\<forall>kv \<in> set attrs. attr_ok kv" "sorted_wrt (\<lambda>a b. kgl_cmp (fst b) (fst a) > 0) (acc @ attrs)"
  shows "buildAttribute (write_attrs attrs @ [0]) acc = Some (acc @ attrs)"
  using assms
proof (induction attrs arbitrary: acc)
  case Nil
  then show ?case using buildAttribute_end [of "[]"] by (simp add: write_attrs_def)
next
  case (Cons kv attrs)
  obtain k v where kv: "kv = (k, v)" by (cases kv)
  have ok: "attr_ok (k, v)" using Cons.prems(1) by (simp add: kv)
  define q where "q = (if 39 \<notin> set v then 39 else (34 :: byte))"
  have q: "q = 39 \<or> q = 34" "q \<notin> set v" using ok by (auto simp: q_def attr_ok_def)
  have w: "write_attrs (kv # attrs) @ [0] = [32] @ k @ [61] @ [q] @ v @ [q] @ write_attrs attrs @ [0]"
    using ok by (auto simp: write_attrs_def write_attr_def kv q_def attr_ok_def)
  have "attr_emplace k v acc = acc @ [kv]" unfolding kv
    by (rule attr_emplace_last) (use Cons.prems(2) in \<open>auto simp: sorted_wrt_append kv\<close>)
  then have "buildAttribute (write_attrs (kv # attrs) @ [0]) acc = buildAttribute (write_attrs attrs @ [0]) (acc @ [kv])"
    unfolding w using buildAttribute_one [OF ok, of "[32]" q "write_attrs attrs @ [0]" acc] q by (simp add: isspace_def)
  with Cons.IH [of "acc @ [kv]"] Cons.prems show ?case by simp
qed


lemma write_attrs_space: "\<forall>kv \<in> set attrs. attr_ok kv \<Longrightarrow> write_attrs attrs = [] \<and> attrs = [] \<or> (\<exists>w. write_attrs attrs = 32 # w)"
  by (cases attrs) (auto simp: write_attrs_def write_attr_def attr_ok_def)

lemma write_attr_octets:
  assumes "attr_ok kv" "c \<in> set (write_attr kv)"
  shows "c \<noteq> 62 \<and> c \<noteq> 0"
proof -
  obtain k v where kv: "kv = (k, v)" by (cases kv)
  have ok: "\<forall>c \<in> set k. c \<noteq> 0 \<and> c \<noteq> 62" "\<forall>c \<in> set v. c \<noteq> 0 \<and> c \<noteq> 62" using assms(1) by (auto simp: kv attr_ok_def)
  have "c \<in> {32, 61, 39, 34} \<union> set k \<union> set v" using assms(2) by (auto simp: kv write_attr_def split: if_splits)
  with ok show ?thesis by fastforce
qed

lemma write_attrs_octets: "\<forall>kv \<in> set attrs. attr_ok kv \<Longrightarrow> c \<in> set (write_attrs attrs) \<Longrightarrow> c \<noteq> 62 \<and> c \<noteq> 0"
  unfolding write_attrs_def using write_attr_octets by fastforce

lemma write_attrs_last: "\<forall>kv \<in> set attrs. attr_ok kv \<Longrightarrow> attrs \<noteq> [] \<Longrightarrow> last (write_attrs attrs) \<in> {39, 34}"
proof (induction attrs)
  case (Cons kv attrs)
  obtain k v where kv: "kv = (k, v)" by (cases kv)
  have "write_attr kv \<noteq> [] \<and> last (write_attr kv) \<in> {39, 34}"
    using Cons.prems(1) by (auto simp: kv write_attr_def attr_ok_def)
  with Cons show ?case by (cases "attrs = []") (auto simp: write_attrs_def last_append)
qed simp

text \<open>The inside of a printed start tag.\<close>

lemma trim_end_id: "s \<noteq> [] \<Longrightarrow> \<not> isspace (last s) \<Longrightarrow> trim_end s = s"
  by (simp add: trim_end_def dropWhile_eq_self_iff [THEN iffD2] hd_rev)

lemma start_tag_split:
  assumes "tag_ok t" "attrs_ok attrs"
  shows "takeWhile (\<lambda>c. \<not> isspace c) (t @ write_attrs attrs) = t \<and> dropWhile (\<lambda>c. \<not> isspace c) (t @ write_attrs attrs) = write_attrs attrs"
proof -
  have "\<forall>c \<in> set t. \<not> isspace c" using assms(1) by (simp add: tag_ok_def)
  moreover have "write_attrs attrs = [] \<or> (\<exists>w. write_attrs attrs = 32 # w)" using write_attrs_space [of attrs] assms(2) by (auto simp: attrs_ok_def)
  ultimately show ?thesis by (auto simp: takeWhile_append dropWhile_append isspace_def)
qed

lemma start_tag_attrs:
  assumes "attrs_ok attrs"
  shows "(if write_attrs attrs = [] then Some [] else buildAttribute (tl (write_attrs attrs) @ [0]) []) = Some attrs"
proof (cases attrs)
  case Nil
  then show ?thesis by (simp add: write_attrs_def)
next
  case (Cons kv l)
  obtain k v where kv: "kv = (k, v)" by (cases kv)
  have ok: "attr_ok (k, v)" "\<forall>kv \<in> set l. attr_ok kv" using assms by (auto simp: Cons kv attrs_ok_def)
  define q where "q = (if 39 \<notin> set v then 39 else (34 :: byte))"
  have q: "q = 39 \<or> q = 34" "q \<notin> set v" using ok by (auto simp: q_def attr_ok_def)
  have w: "write_attrs attrs = [32] @ k @ [61] @ [q] @ v @ [q] @ write_attrs l"
    using ok by (auto simp: write_attrs_def write_attr_def Cons kv q_def attr_ok_def)
  have "buildAttribute (tl (write_attrs attrs) @ [0]) [] = buildAttribute (write_attrs l @ [0]) [kv]"
    using buildAttribute_one [OF ok(1), of "[]" q "write_attrs l @ [0]" "[]"] q by (simp add: w kv)
  also have "\<dots> = Some attrs" using buildAttribute_written [OF ok(2), of "[kv]"] assms by (simp add: Cons attrs_ok_def)
  finally show ?thesis by (simp add: w)
qed

lemma start_tag_open:
  assumes "tag_ok t" "attrs_ok attrs"
  shows "start_tag (t @ write_attrs attrs) = Some (False, t, attrs)"
proof -
  have l: "\<not> isspace (last (t @ write_attrs attrs)) \<and> last (t @ write_attrs attrs) \<noteq> 47"
  proof (cases "attrs = []")
    case True
    then show ?thesis using assms(1) by (auto simp: write_attrs_def tag_ok_def)
  next
    case False
    then have "write_attrs attrs \<noteq> []" using write_attrs_space [of attrs] assms(2) by (auto simp: attrs_ok_def)
    with write_attrs_last [of attrs] False assms(2) show ?thesis by (auto simp: attrs_ok_def isspace_def)
  qed
  have n: "t @ write_attrs attrs \<noteq> []" using assms(1) by (simp add: tag_ok_def)
  have te: "trim_end (t @ write_attrs attrs) = t @ write_attrs attrs" using trim_end_id n l by blast
  have f: "(t @ write_attrs attrs \<noteq> [] \<and> last (t @ write_attrs attrs) = 47) = False" using l by blast
  show ?thesis unfolding start_tag_def Let_def te f if_False
    using start_tag_split [OF assms] start_tag_attrs [OF assms(2)] by (simp only: option.map)
qed

lemma start_tag_single:
  assumes "tag_ok t" "attrs_ok attrs"
  shows "start_tag (t @ write_attrs attrs @ [47]) = Some (True, t, attrs)"
proof -
  have te: "trim_end (t @ write_attrs attrs @ [47]) = t @ write_attrs attrs @ [47]" by (rule trim_end_id) (simp_all add: isspace_def)
  have f: "(t @ write_attrs attrs @ [47] \<noteq> [] \<and> last (t @ write_attrs attrs @ [47]) = 47) = True" by simp
  have b: "butlast (t @ write_attrs attrs @ [47]) = t @ write_attrs attrs" by (simp add: butlast_append)
  show ?thesis unfolding start_tag_def Let_def te f if_True b
    using start_tag_split [OF assms] start_tag_attrs [OF assms(2)] by (simp only: option.map)
qed


section \<open>Steps of the parser on printed text\<close>

lemma parse_space:
  assumes "\<forall>c \<in> set ws. isspace c"
  shows "parse_loop st ctx cur (ws @ rest) ev = parse_loop st ctx cur rest ev"
proof (cases "rest = [] \<or> ws = []")
  case True
  have "parse_loop st ctx cur ws ev = Xml_Done ev"
    using assms by (simp add: parse_loop.simps [of st ctx cur ws] dropWhile_eq_Nil_conv [THEN iffD2] starts_with_def bytes_def)
  with True show ?thesis by (auto simp: parse_loop.simps [of st ctx cur "[]"])
next
  case False
  have "dropWhile isspace (ws @ rest) = dropWhile isspace rest" using assms by (simp add: dropWhile_append2)
  with False show ?thesis unfolding parse_loop.simps [of st ctx cur "ws @ rest"] parse_loop.simps [of st ctx cur rest] by simp
qed

lemma memchr_behind: "c \<notin> set b \<Longrightarrow> memchr (b @ c # rest) c = Some (length b)"
  by (auto simp: first_pos_Some nth_append dest: nth_mem)

lemma element_step:
  assumes "b \<noteq> []" "\<not> isspace (hd b)" "hd b \<noteq> 33" "hd b \<noteq> 47" "62 \<notin> set b" "start_tag b = Some (single, name, attrs)"
  shows "parse_loop st ctx cur (60 # b @ 62 # rest) ev = (
    if single then
      if ctx = [] then Xml_Done (ev @ [Start_Element (join_path ctx) name attrs] @ [End_Element name])
      else parse_loop START_ELEMENT ctx None rest (ev @ [Start_Element (join_path ctx) name attrs] @ [End_Element name])
    else parse_loop START_ELEMENT (ctx @ [name]) (Some name) rest (ev @ [Start_Element (join_path ctx) name attrs]))"
proof -
  obtain x xs where b: "b = x # xs" using assms(1) by (cases b) auto
  have x: "\<not> isspace x" "x \<noteq> 33" "x \<noteq> 47" using assms(2-4) by (simp_all add: b)
  have s: "dropWhile isspace (60 # b @ 62 # rest) = 60 # b @ 62 # rest" by (simp add: isspace_def)
  have c: "\<not> starts_with ''<![CDATA['' (60 # b @ 62 # rest)" "\<not> starts_with ''<!--'' (60 # b @ 62 # rest)"
    using x by (auto simp: b starts_with_def bytes_def of_char_def)
  have t: "dropWhile isspace (tl (60 # b @ 62 # rest)) = b @ 62 # rest" using x by (simp add: b)
  have n: "\<not> starts_with ''/'' (b @ 62 # rest)" using x by (simp add: b starts_with_Cons)
  have nn: "60 # b @ 62 # rest \<noteq> []" by simp
  show ?thesis
    unfolding parse_loop.simps [of st ctx cur "60 # b @ 62 # rest"] Let_def s t
    using c n by (simp add: starts_with_Cons memchr_behind [OF assms(5)] assms(6))
qed

lemma end_step:
  assumes "tag_ok t"
  shows "parse_loop st (ctx @ [t]) cur (60 # 47 # t @ 62 # rest) ev = parse_loop END_ELEMENT ctx None rest (ev @ [End_Element t])"
proof -
  obtain x xs where b: "t = x # xs" using assms by (cases t) (auto simp: tag_ok_def)
  have x: "\<not> isspace x" "62 \<notin> set t" "\<forall>c \<in> set t. \<not> isspace c" using assms by (auto simp: tag_ok_def b)
  let ?s = "60 # 47 # t @ 62 # rest"
  have s: "dropWhile isspace ?s = ?s" "dropWhile isspace (tl ?s) = 47 # t @ 62 # rest" by (simp_all add: isspace_def)
  have t: "dropWhile isspace (tl (47 # t @ 62 # rest)) = t @ 62 # rest" using x by (simp add: b)
  have c: "\<not> starts_with ''<![CDATA['' ?s" "\<not> starts_with ''<!--'' ?s" by (auto simp: starts_with_def bytes_def of_char_def)
  have n: "takeWhile (\<lambda>c. \<not> isspace c) t = t" using x(3) by (simp add: takeWhile_eq_all_conv)
  show ?thesis
    unfolding parse_loop.simps [of st "ctx @ [t]" cur ?s] Let_def s t
    using c by (simp add: starts_with_Cons memchr_behind [OF x(2)] n)
qed

lemma text_step:
  assumes "t \<noteq> []" "\<not> isspace (hd t)" "60 \<notin> set t" "38 \<notin> set t" "st \<noteq> START_CHAR"
  shows "parse_loop st ctx (Some q) (t @ 60 # rest) ev = parse_loop START_CHAR ctx (Some q) (60 # rest) (ev @ [Characters q t])"
proof -
  obtain x xs where b: "t = x # xs" using assms(1) by (cases t) auto
  have x: "\<not> isspace x" "x \<noteq> 60" using assms by (auto simp: b)
  let ?s = "t @ 60 # rest"
  have s: "dropWhile isspace ?s = ?s" "?s \<noteq> []" using x by (simp_all add: b)
  have c: "\<not> starts_with ''<![CDATA['' ?s" "\<not> starts_with ''<!--'' ?s" "\<not> starts_with ''<'' ?s"
    using x by (auto simp: b starts_with_def bytes_def of_char_def)
  show ?thesis
    unfolding parse_loop.simps [of st ctx "Some q" ?s] Let_def s(1)
    using c s(2) assms(5) by (simp add: memchr_behind [OF assms(3)] htmlDecode_plain [OF assms(4)] characters_def)
qed

lemma strstr_cdata_end: "62 \<notin> set t \<Longrightarrow> kgl_memstr (t @ 93 # 93 # 62 # rest) [93, 93, 62] = Some (length t)"
proof (induction t)
  case Nil
  then show ?case using kgl_memstr_here [of "[93, 93, 62]" rest] by simp
next
  case (Cons x t)
  have "take 3 (x # t @ 93 # 93 # 62 # rest) \<noteq> [93, 93, 62]"
    using Cons.prems by (cases t; cases "tl t") (auto simp: numeral_3_eq_3)
  then have "memcmp (x # t @ 93 # 93 # 62 # rest) [93, 93, 62] (length [93, 93, 62 :: byte]) \<noteq> 0"
    by (subst memcmp_zero) (simp_all add: numeral_eq_Suc)
  with Cons show ?case by (subst kgl_memstr.simps) simp
qed

lemma cdata_step:
  assumes "62 \<notin> set t"
  shows "parse_loop st ctx (Some q) (bytes ''<![CDATA['' @ t @ bytes '']]>'' @ rest) ev =
    parse_loop START_CHAR ctx (Some q) rest (ev @ [Characters q t])"
proof -
  let ?s = "bytes ''<![CDATA['' @ t @ bytes '']]>'' @ rest"
  have s: "dropWhile isspace ?s = ?s" "(?s = []) = False" by (simp_all add: bytes_def of_char_def isspace_def)
  have c: "starts_with ''<![CDATA['' ?s" by (simp add: starts_with_def bytes_def)
  have d: "drop 9 ?s = t @ 93 # 93 # 62 # rest" by (simp add: bytes_def of_char_def)
  have e: "strstr (t @ 93 # 93 # 62 # rest) '']]>'' = Some (length t)"
    using strstr_cdata_end [OF assms] by (simp add: strstr_def bytes_def of_char_def)
  show ?thesis
    unfolding parse_loop.simps [of st ctx "Some q" ?s] Let_def s d e if_False using c by (simp add: characters_def)
qed


section \<open>Printing and parsing\<close>

lemma tag_head: "tag_ok t \<Longrightarrow> \<not> isspace (hd (t @ w)) \<and> hd (t @ w) \<noteq> 33 \<and> hd (t @ w) \<noteq> 47 \<and> t @ w \<noteq> []"
  by (cases t) (auto simp: tag_ok_def)

lemma open_step:
  assumes "tag_ok t" "attrs_ok attrs"
  shows "parse_loop st ctx cur (60 # t @ write_attrs attrs @ 62 # rest) ev =
    parse_loop START_ELEMENT (ctx @ [t]) (Some t) rest (ev @ [Start_Element (join_path ctx) t attrs])"
proof -
  have "62 \<notin> set (t @ write_attrs attrs)" using assms write_attrs_octets [of attrs 62] by (auto simp: tag_ok_def attrs_ok_def)
  with element_step [OF _ _ _ _ _ start_tag_open [OF assms]] tag_head [OF assms(1), of "write_attrs attrs"] show ?thesis by simp
qed

lemma single_step:
  assumes "tag_ok t" "attrs_ok attrs"
  shows "parse_loop st ctx cur (60 # t @ write_attrs attrs @ 47 # 62 # rest) ev = (
    if ctx = [] then Xml_Done (ev @ [Start_Element (join_path ctx) t attrs, End_Element t])
    else parse_loop START_ELEMENT ctx None rest (ev @ [Start_Element (join_path ctx) t attrs, End_Element t]))"
proof -
  have "62 \<notin> set (t @ write_attrs attrs @ [47])" using assms write_attrs_octets [of attrs 62] by (auto simp: tag_ok_def attrs_ok_def)
  with element_step [OF _ _ _ _ _ start_tag_single [OF assms]] tag_head [OF assms(1), of "write_attrs attrs @ [47]"] show ?thesis by simp
qed

lemma written_text_step:
  assumes "text_ok t" "tag_ok q"
  shows "parse_loop START_ELEMENT (ctx @ [q]) (Some q) (write_text t @ 60 # 47 # q @ 62 # rest) ev =
    parse_loop END_ELEMENT ctx None rest (ev @ [Characters q t, End_Element q])"
proof (cases "60 \<in> set t")
  case True
  then have "parse_loop START_ELEMENT (ctx @ [q]) (Some q) (write_text t @ 60 # 47 # q @ 62 # rest) ev =
      parse_loop START_CHAR (ctx @ [q]) (Some q) (60 # 47 # q @ 62 # rest) (ev @ [Characters q t])"
    using cdata_step [of t START_ELEMENT "ctx @ [q]" q] assms(1) by (simp add: write_text_def text_ok_def)
  then show ?thesis by (simp add: end_step [OF assms(2)])
next
  case False
  then have "parse_loop START_ELEMENT (ctx @ [q]) (Some q) (write_text t @ 60 # 47 # q @ 62 # rest) ev =
      parse_loop START_CHAR (ctx @ [q]) (Some q) (60 # 47 # q @ 62 # rest) (ev @ [Characters q t])"
    using text_step [of t START_ELEMENT] assms(1) by (simp add: write_text_def text_ok_def)
  then show ?thesis by (simp add: end_step [OF assms(2)])
qed

lemma tabs_space: "\<forall>c \<in> set (replicate n 9 :: byte list). isspace c" "\<forall>c \<in> set [10 :: byte]. isspace c"
  by (auto simp: isspace_def)

text \<open>Printed elements one after the other, given that each parses to its events.\<close>

lemma parse_many:
  assumes "\<And>x st cur rest ev. x \<in> set xs \<Longrightarrow> \<exists>st'. parse_loop st ctx cur (w x @ rest) ev = parse_loop st' ctx None rest (ev @ e x)"
  shows "\<exists>st' cur'. (xs \<noteq> [] \<longrightarrow> cur' = None) \<and> parse_loop st ctx cur (concat (map w xs) @ rest) ev = parse_loop st' ctx cur' rest (ev @ concat (map e xs))"
  using assms
proof (induction xs arbitrary: st cur ev)
  case (Cons x xs)
  obtain st1 where 1: "parse_loop st ctx cur (w x @ concat (map w xs) @ rest) ev = parse_loop st1 ctx None (concat (map w xs) @ rest) (ev @ e x)"
    using Cons.prems by force
  obtain st2 cur2 where 2: "xs \<noteq> [] \<longrightarrow> cur2 = None"
    "parse_loop st1 ctx None (concat (map w xs) @ rest) (ev @ e x) = parse_loop st2 ctx cur2 rest ((ev @ e x) @ concat (map e xs))"
    using Cons.IH [of st1 None "ev @ e x"] Cons.prems by (meson list.set_intros(2))
  show ?case
  proof (cases "xs = []")
    case True
    with 1 show ?thesis by auto
  next
    case False
    with 1 2 show ?thesis by auto
  qed
qed auto

lemma parse_written:
  shows "node_ok before n \<Longrightarrow> ctx \<noteq> [] \<Longrightarrow>
      \<exists>st'. parse_loop st ctx cur (write_node level n @ rest) ev = parse_loop st' ctx None rest (ev @ node_events ctx n)"
    and "body_ok before b \<Longrightarrow> tag_ok t \<Longrightarrow> (ctx \<noteq> [] \<or> body_text b \<noteq> None \<or> body_childs b \<noteq> []) \<Longrightarrow>
      \<exists>st'. parse_loop st ctx cur (60 # t @ write_body level t b @ rest) ev = parse_loop st' ctx None rest (ev @ body_events ctx t b)"
proof (induction n and b arbitrary: ctx st cur level rest ev and ctx st cur level rest ev t)
  case (Node t bs)
  have ok: "tag_ok t" "bs \<noteq> []" "\<And>b. b \<in> set bs \<Longrightarrow> body_ok before b" using Node.prems(1) by auto
  have one: "\<exists>st'. parse_loop st ctx cur ((replicate level 9 @ [60] @ t @ write_body level t b) @ rest) ev =
      parse_loop st' ctx None rest (ev @ body_events ctx t b)" if "b \<in> set bs" for b st cur rest ev
    using Node.IH [OF that ok(3) [OF that] ok(1)] Node.prems(2) parse_space [OF tabs_space(1)] by (simp only: append_assoc append_Cons append_Nil) blast
  from parse_many [where w = "\<lambda>b. replicate level 9 @ [60] @ t @ write_body level t b" and e = "body_events ctx t", OF one] ok(2)
  show ?case unfolding write_node.simps node_events.simps by blast
next
  case (Body attrs tx cs)
  have ok: "attrs_ok attrs" "case tx of None \<Rightarrow> True | Some t \<Rightarrow> text_ok t \<and> cs = []" "\<And>c. c \<in> set cs \<Longrightarrow> node_ok before c"
    using Body.prems(1) by auto
  note opn = open_step [OF Body.prems(2) ok(1)]
  note nl = parse_space [OF tabs_space(2)]
  consider "cs = []" "tx = None" | x where "cs = []" "tx = Some x" | "cs \<noteq> []" "tx = None"
    using ok(2) by (cases tx) auto
  then show ?case
  proof cases
    case 1
    with Body.prems(3) have "ctx \<noteq> []" by simp
    with single_step [OF Body.prems(2) ok(1), of st ctx cur "[10] @ rest" ev] show ?thesis by (auto simp: 1 nl [simplified])
  next
    case (2 x)
    with ok(2) have x: "text_ok x" by simp
    show ?thesis using 2 opn [of st ctx cur "write_text x @ 60 # 47 # t @ 62 # [10] @ rest" ev]
        written_text_step [OF x Body.prems(2), of ctx "[10] @ rest"]
      by (auto simp: nl [simplified])
  next
    case 3
    have one: "\<exists>st'. parse_loop st (ctx @ [t]) cur (write_node (level + 1) c @ rest) ev =
        parse_loop st' (ctx @ [t]) None rest (ev @ node_events (ctx @ [t]) c)" if "c \<in> set cs" for c st cur rest ev
      using Body.IH [OF that ok(3) [OF that]] by blast
    let ?fin = "60 # 47 # t @ 62 # [10] @ rest"
    let ?ev = "ev @ [Start_Element (join_path ctx) t attrs]"
    obtain st' cur' where m: "parse_loop START_ELEMENT (ctx @ [t]) (Some t) (concat (map (write_node (level + 1)) cs) @ replicate level 9 @ ?fin) ?ev =
        parse_loop st' (ctx @ [t]) cur' (replicate level 9 @ ?fin) (?ev @ concat (map (node_events (ctx @ [t])) cs))"
      using parse_many [where w = "write_node (level + 1)" and e = "node_events (ctx @ [t])" and xs = cs and ctx = "ctx @ [t]", OF one] by blast
    have w: "60 # t @ write_body level t (Body attrs tx cs) @ rest =
        60 # t @ write_attrs attrs @ 62 # [10] @ concat (map (write_node (level + 1)) cs) @ replicate level 9 @ ?fin"
      using 3 by simp
    have "parse_loop st ctx cur (60 # t @ write_body level t (Body attrs tx cs) @ rest) ev =
        parse_loop END_ELEMENT ctx None ([10] @ rest) ((?ev @ concat (map (node_events (ctx @ [t])) cs)) @ [End_Element t])"
      unfolding w opn nl m parse_space [OF tabs_space(1)] end_step [OF Body.prems(2)] ..
    also have "\<dots> = parse_loop END_ELEMENT ctx None rest (ev @ body_events ctx t (Body attrs tx cs))" unfolding nl using 3 by simp
    finally show ?thesis by blast
  qed
qed


section \<open>Rebuilding the tree\<close>

lemma add_child_last:
  "\<forall>m \<in> set cs. kgl_cmp (node_tag m) (node_tag n) \<noteq> 0 \<and> \<not> before (node_tag n) (node_tag m) \<Longrightarrow> add_child before n cs = cs @ [n]"
  by (induction cs) auto

lemma add_child_again:
  "\<forall>m \<in> set cs. kgl_cmp (node_tag m) t \<noteq> 0 \<and> \<not> before t (node_tag m) \<Longrightarrow>
   add_child before (Node t [b]) (cs @ [Node t bs]) = cs @ [Node t (bs @ [b])]"
  by (induction cs) (auto simp: kgl_cmp_eq)

lemma append_child_single: "append_child before n (Node t [Body a x cs]) = Node t [Body a x (add_child before n cs)]"
  by (simp add: append_child_def on_last_body_def)

lemma append_more:
  "\<forall>m \<in> set cs. kgl_cmp (node_tag m) t \<noteq> 0 \<and> \<not> before t (node_tag m) \<Longrightarrow>
   foldl (\<lambda>p b. append_child before (Node t [b]) p) (Node q [Body a x (cs @ [Node t bs1])]) bs =
   Node q [Body a x (cs @ [Node t (bs1 @ bs)])]"
  by (induction bs arbitrary: bs1) (simp_all add: append_child_single add_child_again)

lemma append_node:
  assumes "\<forall>m \<in> set cs. kgl_cmp (node_tag m) t \<noteq> 0 \<and> \<not> before t (node_tag m)" "bs \<noteq> []"
  shows "foldl (\<lambda>p b. append_child before (Node t [b]) p) (Node q [Body a x cs]) bs = Node q [Body a x (cs @ [Node t bs])]"
proof -
  obtain b bs' where bs: "bs = b # bs'" using assms(2) by (cases bs) auto
  have "add_child before (Node t [b]) cs = cs @ [Node t [b]]" using add_child_last [of cs "Node t [b]"] assms(1) by simp
  then show ?thesis using append_more [of cs t before q a x "[b]" bs'] assms(1) by (simp add: bs append_child_single)
qed

definition close_element :: "bool \<Rightarrow> (byte list \<Rightarrow> byte list \<Rightarrow> bool) \<Rightarrow> xml_node \<Rightarrow> xml_event list \<Rightarrow> xml_doc \<Rightarrow> xml_doc option" where
  "close_element sk before n es d = (case d_cur_node d of
     None \<Rightarrow> if d_root d \<noteq> None then None else doc_events sk before es (d\<lparr>d_root := Some n\<rparr>)
   | Some p \<Rightarrow> doc_events sk before es (d\<lparr>d_cur_node := Some (append_child before n p)\<rparr>))"

lemma end_event:
  "doc_events sk before (End_Element q # es) (d\<lparr>d_parents := d_cur_node d # d_parents d, d_cur_node := Some n\<rparr>) = close_element sk before n es d"
proof (cases d)
  case (fields c ps r)
  then show ?thesis by (cases c) (simp_all add: close_element_def)
qed

lemma cur_node_same: "d_cur_node d = c \<Longrightarrow> d\<lparr>d_cur_node := c\<rparr> = (d :: xml_doc)"
  by (cases d) simp

lemma body_of_plain: "attrs_ok attrs \<Longrightarrow> body_of_attrs attrs = Body attrs None []"
proof -
  assume "attrs_ok attrs"
  then have k: "\<forall>kv \<in> set attrs. fst kv \<noteq> text_as_attribute_name"
    by (auto simp: attrs_ok_def attr_ok_def text_as_attribute_name_def bytes_def of_char_def)
  then have "filter (\<lambda>(k, v). k \<noteq> text_as_attribute_name) attrs = attrs" by (auto simp: filter_id_conv)
  moreover have "map_of attrs text_as_attribute_name = None" using k by (force simp: map_of_eq_None_iff)
  ultimately show ?thesis by (simp add: body_of_attrs_def)
qed

lemma events_rebuild_children:
  assumes "\<And>c d p es. c \<in> set cs \<Longrightarrow> d_cur_node d = Some p \<Longrightarrow> doc_events sk before (node_events ctx c @ es) d =
      doc_events sk before es (d\<lparr>d_cur_node := Some (foldl (\<lambda>p b. append_child before (Node (node_tag c) [b]) p) p (node_bodies c))\<rparr>)"
    and "sorted_wrt (\<lambda>a b. kgl_cmp (node_tag a) (node_tag b) \<noteq> 0 \<and> \<not> before (node_tag b) (node_tag a)) (cs0 @ cs)"
    and "\<forall>c \<in> set cs. node_bodies c \<noteq> []" "d_cur_node d = Some (Node q [Body a x cs0])"
  shows "doc_events sk before (concat (map (node_events ctx) cs) @ es) d =
    doc_events sk before es (d\<lparr>d_cur_node := Some (Node q [Body a x (cs0 @ cs)])\<rparr>)"
  using assms
proof (induction cs arbitrary: cs0 d)
  case (Cons c cs)
  have later: "\<forall>m \<in> set cs0. kgl_cmp (node_tag m) (node_tag c) \<noteq> 0 \<and> \<not> before (node_tag c) (node_tag m)"
    using Cons.prems(2) by (auto simp: sorted_wrt_append)
  have f: "foldl (\<lambda>p b. append_child before (Node (node_tag c) [b]) p) (Node q [Body a x cs0]) (node_bodies c) =
      Node q [Body a x (cs0 @ [c])]"
    using append_node [of cs0 "node_tag c" before "node_bodies c" q a x] later Cons.prems(3) by simp
  define d1 where "d1 = d\<lparr>d_cur_node := Some (Node q [Body a x (cs0 @ [c])])\<rparr>"
  have "doc_events sk before (node_events ctx c @ concat (map (node_events ctx) cs) @ es) d =
      doc_events sk before (concat (map (node_events ctx) cs) @ es) d1"
    using Cons.prems(1) [of c, OF _ Cons.prems(4)] by (simp add: f d1_def)
  also have "\<dots> = doc_events sk before es (d1\<lparr>d_cur_node := Some (Node q [Body a x ((cs0 @ [c]) @ cs)])\<rparr>)"
    by (rule Cons.IH) (use Cons.prems in \<open>auto simp: d1_def\<close>)
  finally show ?case by (simp add: d1_def)
qed (simp add: cur_node_same)


lemma events_rebuild:
  shows "node_ok before n \<Longrightarrow> d_cur_node d = Some p \<Longrightarrow> doc_events sk before (node_events ctx n @ es) d =
      doc_events sk before es (d\<lparr>d_cur_node := Some (foldl (\<lambda>p b. append_child before (Node (node_tag n) [b]) p) p (node_bodies n))\<rparr>)"
    and "body_ok before b \<Longrightarrow> tag_ok t \<Longrightarrow> doc_events sk before (body_events ctx t b @ es) d = close_element sk before (Node t [b]) es d"
proof (induction n and b arbitrary: ctx d p es and ctx d es t)
  case (Node t bs)
  have ok: "tag_ok t" "\<And>b. b \<in> set bs \<Longrightarrow> body_ok before b" using Node.prems(1) by auto
  have one: "doc_events sk before (body_events ctx t b @ es) d = doc_events sk before es (d\<lparr>d_cur_node := Some (append_child before (Node t [b]) p)\<rparr>)"
    if "b \<in> set bs" "d_cur_node d = Some p" for b es d p
    using Node.IH [OF that(1) ok(2) [OF that(1)] ok(1)] that(2) by (simp add: close_element_def)
  have "doc_events sk before (concat (map (body_events ctx t) bs') @ es) d =
      doc_events sk before es (d\<lparr>d_cur_node := Some (foldl (\<lambda>p b. append_child before (Node t [b]) p) p bs')\<rparr>)"
    if "set bs' \<subseteq> set bs" "d_cur_node d = Some p" for bs' d p
    using that
  proof (induction bs' arbitrary: d p)
    case Nil
    then show ?case by (simp add: cur_node_same)
  next
    case (Cons b bs')
    then show ?case using one [where b = b and d = d and p = p and es = "concat (map (body_events ctx t) bs') @ es"]
        Cons.IH [where d = "d\<lparr>d_cur_node := Some (append_child before (Node t [b]) p)\<rparr>" and p = "append_child before (Node t [b]) p"] by simp
  qed
  from this [OF subset_refl Node.prems(2)] show ?case by simp
next
  case (Body attrs tx cs)
  have ok: "attrs_ok attrs" "case tx of None \<Rightarrow> True | Some t \<Rightarrow> text_ok t \<and> cs = []" "\<And>c. c \<in> set cs \<Longrightarrow> node_ok before c"
    "sorted_wrt (\<lambda>a b. kgl_cmp (node_tag a) (node_tag b) \<noteq> 0 \<and> \<not> before (node_tag b) (node_tag a)) cs"
    using Body.prems(1) by auto
  have ln: "local_name sk t = t" using Body.prems(2) by (auto simp: local_name_def tag_ok_def)
  let ?d = "\<lambda>n. d\<lparr>d_parents := d_cur_node d # d_parents d, d_cur_node := Some n\<rparr>"
  have kids: "doc_events sk before (concat (map (node_events (ctx @ [t])) cs) @ End_Element t # es) (?d (Node t [Body attrs x []])) =
      close_element sk before (Node t [Body attrs x cs]) es d" for x
  proof -
    have b: "\<forall>c \<in> set cs. node_bodies c \<noteq> []"
    proof
      fix c assume "c \<in> set cs"
      from ok(3) [OF this] show "node_bodies c \<noteq> []" by (cases c) auto
    qed
    have "doc_events sk before (concat (map (node_events (ctx @ [t])) cs) @ End_Element t # es) (?d (Node t [Body attrs x []])) =
        doc_events sk before (End_Element t # es) ((?d (Node t [Body attrs x []]))\<lparr>d_cur_node := Some (Node t [Body attrs x ([] @ cs)])\<rparr>)"
      by (rule events_rebuild_children) (use Body.IH ok(3,4) b in auto)
    then show ?thesis using end_event [where sk = sk and before = before and q = t and es = es and d = d and n = "Node t [Body attrs x cs]"] by simp
  qed
  have start: "doc_events sk before (Start_Element pth t attrs # es') d = doc_events sk before es' (?d (Node t [Body attrs None []]))" for pth es'
    by (simp only: doc_events.simps doc_event.simps option.case ln body_of_plain [OF ok(1)])
  show ?case
  proof (cases tx)
    case None
    have "body_events ctx t (Body attrs tx cs) @ es = Start_Element (join_path ctx) t attrs # concat (map (node_events (ctx @ [t])) cs) @ End_Element t # es"
      by (simp add: None)
    then show ?thesis by (simp only: start kids None)
  next
    case (Some x)
    with ok(2) have x: "takeWhile (\<lambda>c. c \<noteq> 0) x = x" by (auto simp: text_ok_def takeWhile_eq_all_conv)
    have c: "doc_events sk before (Characters t x # es') (?d (Node t [Body attrs None []])) =
        doc_events sk before es' (?d (Node t [Body attrs (Some x) []]))" for es'
      by (simp add: x on_first_body_def set_text_def)
    have "body_events ctx t (Body attrs tx cs) @ es =
        Start_Element (join_path ctx) t attrs # Characters t x # concat (map (node_events (ctx @ [t])) cs) @ End_Element t # es"
      by (simp add: Some)
    then show ?thesis by (simp only: start c kids Some)
  qed
qed

lemma document_parsed:
  assumes "body_ok before b" "tag_ok t"
  shows "doc_parse sk before (write_node 0 (Node t [b])) = Some (Some (Node t [b]))"
proof -
  let ?s = "60 # t @ write_body 0 t b"
  have w: "write_node 0 (Node t [b]) = ?s" by simp
  have h: "\<not> starts_with ''?'' (t @ write_body 0 t b)" using assms(2) by (cases t) (auto simp: tag_ok_def starts_with_def bytes_def of_char_def)
  have p: "parse_loop Xml_Init [] None ?s [] = Xml_Done (body_events [] t b)"
  proof (cases "body_text b \<noteq> None \<or> body_childs b \<noteq> []")
    case True
    with parse_written(2) [OF assms, of "[]" Xml_Init None 0 "[]" "[]"] obtain st where
      "parse_loop Xml_Init [] None ?s [] = parse_loop st [] None [] (body_events [] t b)" by auto
    then show ?thesis by (simp add: parse_loop.simps [of st])
  next
    case False
    then obtain attrs where b: "b = Body attrs None []" by (cases b) auto
    with assms(1) single_step [OF assms(2), of attrs Xml_Init "[]" None "[10]" "[]"] show ?thesis by simp
  qed
  have "startParse ?s = Some ([], Xml_Done (body_events [] t b))" using h p by (simp add: startParse_def)
  moreover have "doc_events sk before (body_events [] t b @ []) doc_new = Some (doc_new\<lparr>d_root := Some (Node t [b])\<rparr>)"
    unfolding events_rebuild(2) [OF assms] by (simp add: close_element_def doc_new_def)
  ultimately show ?thesis unfolding w doc_parse_def by simp
qed

text \<open>
  C18: a document survives being printed. For a tree whose names, attributes and texts can be
  written at all (no reserved octets, text only in elements without children) parsing the printed
  text gives the tree, at every level of nesting, with repeated elements, with texts that need a
  CDATA section, whether or not name spaces are skipped and whatever the order of the children is.
\<close>

theorem document_round_trip:
  assumes "body_ok before b" "tag_ok t"
  shows "doc_parse sk before (write_node 0 (Node t [b])) = Some (Some (Node t [b]))"
  by (rule document_parsed [OF assms])

definition example_body :: xml_body where
  "example_body = Body [(bytes ''a'', bytes ''x<\"'')] None
     [Node (bytes ''c'') [Body [] (Some (bytes ''t<1'')) [], Body [] None []], Node (bytes ''e'') [Body [] (Some (bytes ''u v'')) []]]"

theorem document_round_trip_witness:
  "doc_parse True (\<lambda>x y. kgl_cmp x y < 0) (write_node 0 (Node (bytes ''d'') [example_body])) = Some (Some (Node (bytes ''d'') [example_body]))"
proof (rule document_round_trip)
  show "body_ok (\<lambda>x y. kgl_cmp x y < 0) example_body"
    by (simp add: example_body_def attrs_ok_def attr_ok_def text_ok_def tag_ok_def bytes_def of_char_def isspace_def kgl_cmp_def memcmp_def)
  show "tag_ok (bytes ''d'')" by (simp add: tag_ok_def bytes_def of_char_def isspace_def)
qed

section \<open>Where the parser goes wrong\<close>

text \<open>A comment that is not closed: the position becomes a null pointer plus three.\<close>

lemma open_comment_undefined:
  assumes "strstr s ''-->'' = None"
  shows "parse_loop st ctx cur (bytes ''<!--'' @ s) ev = Xml_Undef"
proof -
  let ?s = "bytes ''<!--'' @ s"
  have s: "dropWhile isspace ?s = ?s" "(?s = []) = False" by (simp_all add: bytes_def of_char_def isspace_def)
  have c: "\<not> starts_with ''<![CDATA['' ?s" "starts_with ''<!--'' ?s" by (simp_all add: starts_with_def bytes_def of_char_def)
  have d: "drop 4 ?s = s" by (simp add: bytes_def)
  show ?thesis unfolding parse_loop.simps [of st ctx cur ?s] Let_def s d assms if_False using c by simp
qed

text \<open>Text behind a CDATA section ends the parse, without an error and with elements still open.\<close>

lemma text_after_cdata_stops:
  assumes "62 \<notin> set t" "x \<noteq> 60" "\<not> isspace x"
  shows "parse_loop st ctx (Some q) (bytes ''<![CDATA['' @ t @ bytes '']]>'' @ x # rest) ev = Xml_Done (ev @ [Characters q t])"
proof -
  let ?s = "x # rest"
  have s: "dropWhile isspace ?s = ?s" using assms(3) by simp
  have c: "\<not> starts_with ''<![CDATA['' ?s" "\<not> starts_with ''<!--'' ?s" "\<not> starts_with ''<'' ?s"
    using assms(2) by (auto simp: starts_with_def bytes_def of_char_def)
  have "parse_loop START_CHAR ctx (Some q) ?s (ev @ [Characters q t]) = Xml_Done (ev @ [Characters q t])"
    unfolding parse_loop.simps [of START_CHAR ctx "Some q" ?s] Let_def s using c by simp
  then show ?thesis unfolding cdata_step [OF assms(1)] .
qed

text \<open>Text behind a child element is not reported.\<close>

lemma text_after_child_lost:
  assumes "t \<noteq> []" "\<not> isspace (hd t)" "60 \<notin> set t" "st \<noteq> START_CHAR"
  shows "parse_loop st ctx None (t @ 60 # rest) ev = parse_loop START_CHAR ctx None (60 # rest) ev"
proof -
  obtain x xs where b: "t = x # xs" using assms(1) by (cases t) auto
  have x: "\<not> isspace x" "x \<noteq> 60" using assms by (auto simp: b)
  let ?s = "t @ 60 # rest"
  have s: "dropWhile isspace ?s = ?s" "?s \<noteq> []" using x by (simp_all add: b)
  have c: "\<not> starts_with ''<![CDATA['' ?s" "\<not> starts_with ''<!--'' ?s" "\<not> starts_with ''<'' ?s"
    using x by (auto simp: b starts_with_def bytes_def of_char_def)
  show ?thesis
    unfolding parse_loop.simps [of st ctx None ?s] Let_def s(1) using c s(2) assms(4) by (simp add: memchr_behind [OF assms(3)])
qed

text \<open>A second element at the top runs into the assertion that there is no root yet.\<close>

lemma second_root_asserts:
  assumes "body_ok before b" "tag_ok t" "body_ok before b'" "tag_ok t'" "body_childs b \<noteq> []" "body_childs b' \<noteq> []"
  shows "doc_parse sk before (write_node 0 (Node t [b]) @ write_node 0 (Node t' [b'])) = None"
proof -
  let ?s = "60 # t @ write_body 0 t b @ 60 # t' @ write_body 0 t' b'"
  have h: "\<not> starts_with ''?'' (t @ w)" for w using assms(2) by (cases t) (auto simp: tag_ok_def starts_with_def bytes_def of_char_def)
  obtain st where 1: "parse_loop Xml_Init [] None (60 # t @ write_body 0 t b @ 60 # t' @ write_body 0 t' b') [] =
      parse_loop st [] None (60 # t' @ write_body 0 t' b') (body_events [] t b)"
    using parse_written(2) [OF assms(1,2), of "[]" Xml_Init None 0 "60 # t' @ write_body 0 t' b'" "[]"] assms(5) by auto
  obtain st' where 2: "parse_loop st [] None (60 # t' @ write_body 0 t' b' @ []) (body_events [] t b) =
      parse_loop st' [] None [] (body_events [] t b @ body_events [] t' b')"
    using parse_written(2) [OF assms(3,4), of "[]" st None 0 "[]" "body_events [] t b"] assms(6) by auto
  have "parse_loop Xml_Init [] None ?s [] = Xml_Done (body_events [] t b @ body_events [] t' b')"
    using 1 2 by (simp add: parse_loop.simps [of st'])
  then have "startParse ?s = Some ([], Xml_Done (body_events [] t b @ body_events [] t' b'))" using h by (simp add: startParse_def)
  moreover have "doc_events sk before (body_events [] t b @ body_events [] t' b') doc_new = None"
    using events_rebuild(2) [OF assms(1,2), of sk "[]" "body_events [] t' b'" doc_new]
      events_rebuild(2) [OF assms(3,4), of sk "[]" "[]" "doc_new\<lparr>d_root := Some (Node t [b])\<rparr>"]
    by (simp add: close_element_def doc_new_def)
  ultimately show ?thesis by (simp add: doc_parse_def)
qed

text \<open>A value without quotes extends to the end of the tag.\<close>

lemma unquoted_value_runs_on:
  "buildAttribute (bytes ''a=1 b=2'' @ [0]) [] = Some [(bytes ''a'', bytes ''1 b=2''), (bytes ''b'', bytes ''2'')]"
  by code_simp

end
