(* ===== verification/KSerial.thy ===== *)
theory KSerial
  imports KStreams
begin

text \<open>
  Structured output (\<^verbatim>\<open>src/serializable.cpp\<close>, \<^verbatim>\<open>include/serializable.h\<close>): an ordered map from names to
  texts, numbers, objects and arrays of these, printed as JSON or as XML elements. The JSON text is
  proved to denote the data, by the grammar of JSON written down as an inductive relation.
\<close>

section \<open>Data\<close>

datatype data_value =
    V_STR "byte list"
  | V_OBJ "(byte list \<times> data_value) list"
  | V_INT int
  | V_STR_ARRAY "byte list list"
  | V_OBJ_ARRAY "(byte list \<times> data_value) list list"
  | V_INT_ARRAY "int list"

type_synonym serializable = "(byte list \<times> data_value) list"

text \<open>\<^verbatim>\<open>change_to_array\<close>.\<close>

fun change_to_array :: "data_value \<Rightarrow> data_value" where
  "change_to_array (V_STR v) = V_STR_ARRAY [v]"
| "change_to_array (V_INT v) = V_INT_ARRAY [v]"
| "change_to_array (V_OBJ v) = V_OBJ_ARRAY [v]"
| "change_to_array dv = dv"

text \<open>The map of the names, in their order: what is stored under a name, or a new entry.\<close>

fun emplace :: "byte list \<Rightarrow> data_value \<Rightarrow> serializable \<Rightarrow> serializable" where
  "emplace k v [] = [(k, v)]"
| "emplace k v ((k', v') # l) = (
     if kgl_cmp k k' < 0 then (k, v) # (k', v') # l
     else if kgl_cmp k k' = 0 then (k', v) # l
     else (k', v') # emplace k v l)"

fun find_value :: "byte list \<Rightarrow> serializable \<Rightarrow> data_value option" where
  "find_value k [] = None"
| "find_value k ((k', v') # l) = (if kgl_cmp k k' = 0 then Some v' else find_value k l)"

definition add_string :: "byte list \<Rightarrow> byte list \<Rightarrow> serializable \<Rightarrow> bool \<times> serializable" where
  "add_string name v d = (case find_value name d of
       None \<Rightarrow> (True, emplace name (V_STR v) d)
     | Some dv \<Rightarrow> (case change_to_array dv of
           V_STR_ARRAY vs \<Rightarrow> (True, emplace name (V_STR_ARRAY (vs @ [v])) d)
         | _ \<Rightarrow> (False, d)))"

definition add_int :: "byte list \<Rightarrow> int \<Rightarrow> serializable \<Rightarrow> bool \<times> serializable" where
  "add_int name v d = (case find_value name d of
       None \<Rightarrow> (True, emplace name (V_INT v) d)
     | Some dv \<Rightarrow> (case change_to_array dv of
           V_INT_ARRAY vs \<Rightarrow> (True, emplace name (V_INT_ARRAY (vs @ [v])) d)
         | _ \<Rightarrow> (False, d)))"

text \<open>
  \<^verbatim>\<open>add\<close> of an object. With an object or an array in place the code returns the address behind the
  reverse end of the array, before its first element: \<open>None\<close>.
\<close>

definition add_obj :: "byte list \<Rightarrow> serializable \<Rightarrow> (bool \<times> serializable) option" where
  "add_obj name d = (case find_value name d of
       None \<Rightarrow> Some (True, emplace name (V_OBJ []) d)
     | Some dv \<Rightarrow> (case change_to_array dv of V_OBJ_ARRAY vs \<Rightarrow> None | _ \<Rightarrow> Some (False, d)))"

definition add_obj_array :: "byte list \<Rightarrow> serializable \<Rightarrow> bool \<times> serializable" where
  "add_obj_array name d = (case find_value name d of
       None \<Rightarrow> (True, emplace name (V_OBJ_ARRAY [[]]) d)
     | Some (V_OBJ_ARRAY vs) \<Rightarrow> (True, emplace name (V_OBJ_ARRAY (vs @ [[]])) d)
     | Some _ \<Rightarrow> (False, d))"

definition add_string_array :: "byte list \<Rightarrow> serializable \<Rightarrow> bool \<times> serializable" where
  "add_string_array name d = (if find_value name d = None then (True, emplace name (V_STR_ARRAY []) d) else (False, d))"

definition add_int_array :: "byte list \<Rightarrow> serializable \<Rightarrow> bool \<times> serializable" where
  "add_int_array name d = (if find_value name d = None then (True, emplace name (V_INT_ARRAY []) d) else (False, d))"

definition add_obj_array2 :: "byte list \<Rightarrow> serializable \<Rightarrow> bool \<times> serializable" where
  "add_obj_array2 name d = (if find_value name d = None then (True, emplace name (V_OBJ_ARRAY []) d) else (False, d))"

definition get_str :: "byte list \<Rightarrow> serializable \<Rightarrow> byte list option" where
  "get_str name d = (case find_value name d of Some (V_STR v) \<Rightarrow> Some v | _ \<Rightarrow> None)"

definition get_int :: "byte list \<Rightarrow> serializable \<Rightarrow> int" where
  "get_int name d = (case find_value name d of Some (V_INT v) \<Rightarrow> v | _ \<Rightarrow> 0)"

section \<open>Printing\<close>

definition print_int :: "int \<Rightarrow> byte list" where
  "print_int n = (if n < 0 then 45 # decimal (nat (- n)) else decimal (nat n))"

definition json_escape :: "byte \<Rightarrow> byte list" where
  "json_escape c = (
     if c = 13 then [92, 114] else if c = 10 then [92, 110] else if c = 9 then [92, 116]
     else if c = 92 \<or> c = 34 then [92, c] else [c])"

definition build_json_string :: "byte list \<Rightarrow> byte list" where
  "build_json_string v = [34] @ concat (map json_escape v) @ [34]"

fun commas :: "byte list list \<Rightarrow> byte list" where
  "commas [] = []"
| "commas [x] = x"
| "commas (x # xs) = x @ [44] @ commas xs"

fun build_json :: "data_value \<Rightarrow> byte list" where
  "build_json (V_OBJ_ARRAY os) = [91] @ commas (map (\<lambda>d. [123] @ commas (map (\<lambda>(k, v). [34] @ k @ [34, 58] @ build_json v) d) @ [125]) os) @ [93]"
| "build_json (V_OBJ d) = [123] @ commas (map (\<lambda>(k, v). [34] @ k @ [34, 58] @ build_json v) d) @ [125]"
| "build_json (V_STR_ARRAY vs) = [91] @ commas (map build_json_string vs) @ [93]"
| "build_json (V_STR v) = build_json_string v"
| "build_json (V_INT n) = print_int n"
| "build_json (V_INT_ARRAY ns) = [91] @ commas (map print_int ns) @ [93]"

definition serializable_json :: "serializable \<Rightarrow> byte list" where
  "serializable_json d = commas (map (\<lambda>(k, v). [34] @ k @ [34, 58] @ build_json v) d)"

definition build_xml_text :: "byte list \<Rightarrow> byte list" where
  "build_xml_text v = (if 60 \<in> set v then bytes ''<![CDATA['' @ v @ bytes '']]>'' else v)"

definition xml_element :: "byte list \<Rightarrow> byte list \<Rightarrow> byte list" where
  "xml_element name t = [60] @ name @ [62] @ t @ [60, 47] @ name @ [62]"

fun build_xml :: "byte list \<Rightarrow> data_value \<Rightarrow> byte list" where
  "build_xml name (V_OBJ d) = xml_element name (concat (map (\<lambda>(k, v). build_xml k v) d))"
| "build_xml name (V_OBJ_ARRAY os) = concat (map (\<lambda>d. xml_element name (concat (map (\<lambda>(k, v). build_xml k v) d))) os)"
| "build_xml name (V_STR v) = xml_element name (build_xml_text v)"
| "build_xml name (V_STR_ARRAY vs) = concat (map (\<lambda>v. xml_element name (build_xml_text v)) vs)"
| "build_xml name (V_INT_ARRAY ns) = concat (map (\<lambda>n. xml_element name (print_int n)) ns)"
| "build_xml name (V_INT n) = xml_element name (print_int n)"

section \<open>JSON\<close>

text \<open>The values of JSON, and which text denotes which value (RFC 8259, without optional white space).\<close>

datatype json = JStr "byte list" | JNum int | JArr "json list" | JObj "(byte list \<times> json) list"

inductive json_chars :: "byte list \<Rightarrow> byte list \<Rightarrow> bool" where
  jc_nil: "json_chars [] []"
| jc_plain: "json_chars t v \<Longrightarrow> 32 \<le> c \<Longrightarrow> c \<noteq> 34 \<Longrightarrow> c \<noteq> 92 \<Longrightarrow> json_chars (c # t) (c # v)"
| jc_quote: "json_chars t v \<Longrightarrow> json_chars (92 # 34 # t) (34 # v)"
| jc_backslash: "json_chars t v \<Longrightarrow> json_chars (92 # 92 # t) (92 # v)"
| jc_return: "json_chars t v \<Longrightarrow> json_chars (92 # 114 # t) (13 # v)"
| jc_newline: "json_chars t v \<Longrightarrow> json_chars (92 # 110 # t) (10 # v)"
| jc_tab: "json_chars t v \<Longrightarrow> json_chars (92 # 116 # t) (9 # v)"

inductive json_text :: "byte list \<Rightarrow> json \<Rightarrow> bool"
  and json_elements :: "byte list \<Rightarrow> json list \<Rightarrow> bool"
  and json_members :: "byte list \<Rightarrow> (byte list \<times> json) list \<Rightarrow> bool" where
  jt_str: "json_chars t v \<Longrightarrow> json_text (34 # t @ [34]) (JStr v)"
| jt_num: "json_text (decimal n) (JNum (int n))"
| jt_neg: "0 < n \<Longrightarrow> json_text (45 # decimal n) (JNum (- int n))"
| jt_arr: "json_elements t vs \<Longrightarrow> json_text (91 # t @ [93]) (JArr vs)"
| jt_obj: "json_members t ms \<Longrightarrow> json_text (123 # t @ [125]) (JObj ms)"
| je_nil: "json_elements [] []"
| je_one: "json_text t v \<Longrightarrow> json_elements t [v]"
| je_more: "json_text t v \<Longrightarrow> json_elements ts (v' # vs) \<Longrightarrow> json_elements (t @ 44 # ts) (v # v' # vs)"
| jm_nil: "json_members [] []"
| jm_one: "json_chars k n \<Longrightarrow> json_text t v \<Longrightarrow> json_members (34 # k @ [34, 58] @ t) [(n, v)]"
| jm_more: "json_chars k n \<Longrightarrow> json_text t v \<Longrightarrow> json_members ts (m # ms) \<Longrightarrow>
    json_members (34 # k @ [34, 58] @ t @ 44 # ts) ((n, v) # m # ms)"

fun to_json :: "data_value \<Rightarrow> json" where
  "to_json (V_STR v) = JStr v"
| "to_json (V_INT n) = JNum n"
| "to_json (V_OBJ d) = JObj (map (\<lambda>(k, v). (k, to_json v)) d)"
| "to_json (V_STR_ARRAY vs) = JArr (map JStr vs)"
| "to_json (V_INT_ARRAY ns) = JArr (map JNum ns)"
| "to_json (V_OBJ_ARRAY os) = JArr (map (\<lambda>d. JObj (map (\<lambda>(k, v). (k, to_json v)) d)) os)"

text \<open>Names are printed as they are; of the control characters, texts may have those that are escaped.\<close>

definition name_plain :: "byte list \<Rightarrow> bool" where
  "name_plain k \<longleftrightarrow> (\<forall>c \<in> set k. 32 \<le> c \<and> c \<noteq> 34 \<and> c \<noteq> 92)"

definition text_plain :: "byte list \<Rightarrow> bool" where
  "text_plain v \<longleftrightarrow> (\<forall>c \<in> set v. 32 \<le> c \<or> c = 9 \<or> c = 10 \<or> c = 13)"

fun data_plain :: "data_value \<Rightarrow> bool" where
  "data_plain (V_STR v) = text_plain v"
| "data_plain (V_INT n) = True"
| "data_plain (V_OBJ d) = (\<forall>(k, v) \<in> set d. name_plain k \<and> data_plain v)"
| "data_plain (V_STR_ARRAY vs) = (\<forall>v \<in> set vs. text_plain v)"
| "data_plain (V_INT_ARRAY ns) = True"
| "data_plain (V_OBJ_ARRAY os) = (\<forall>d \<in> set os. \<forall>(k, v) \<in> set d. name_plain k \<and> data_plain v)"


lemma json_chars_plain: "name_plain k \<Longrightarrow> json_chars k k"
  unfolding name_plain_def by (induction k) (auto intro: json_chars.intros)

lemma json_escape_char: "32 \<le> c \<or> c = 9 \<or> c = 10 \<or> c = 13 \<Longrightarrow> json_chars t v \<Longrightarrow> json_chars (json_escape c @ t) (c # v)"
  by (cases "c = 34"; cases "c = 92") (auto simp: json_escape_def intro: json_chars.intros)

lemma json_chars_escaped: "text_plain v \<Longrightarrow> json_chars (concat (map json_escape v)) v"
  unfolding text_plain_def by (induction v) (simp_all add: jc_nil json_escape_char)

lemma json_string_text: "text_plain v \<Longrightarrow> json_text (build_json_string v) (JStr v)"
  unfolding build_json_string_def using jt_str [OF json_chars_escaped] by simp

lemma json_int_text: "json_text (print_int n) (JNum n)"
proof (cases "n < 0")
  case True
  then show ?thesis using jt_neg [of "nat (- n)"] by (simp add: print_int_def)
next
  case False
  then show ?thesis using jt_num [of "nat n"] by (simp add: print_int_def)
qed

lemma json_elements_commas:
  "\<forall>x \<in> set xs. json_text (f x) (g x) \<Longrightarrow> json_elements (commas (map f xs)) (map g xs)"
proof (induction xs rule: induct_list012)
  case (3 x y zs)
  then show ?case using je_more [of "f x" "g x" "commas (map f (y # zs))" "g y" "map g zs"] by simp
qed (simp_all add: je_nil je_one)

lemma json_members_commas:
  "\<forall>(k, v) \<in> set d. json_chars k k \<and> json_text (f v) (g v) \<Longrightarrow>
   json_members (commas (map (\<lambda>(k, v). [34] @ k @ [34, 58] @ f v) d)) (map (\<lambda>(k, v). (k, g v)) d)"
proof (induction d rule: induct_list012)
  case (2 x)
  then show ?case using jm_one by (cases x) auto
next
  case (3 x y zs)
  obtain k v where x: "x = (k, v)" by (cases x)
  obtain k' v' where y: "y = (k', v')" by (cases y)
  have "json_members (commas (map (\<lambda>(k, v). [34] @ k @ [34, 58] @ f v) (y # zs))) (map (\<lambda>(k, v). (k, g v)) (y # zs))"
    using 3 by simp
  then show ?case
    using jm_more [of k k "f v" "g v" _ "(k', g v')" "map (\<lambda>(k, v). (k, g v)) zs"] 3(3) by (simp add: x y)
qed (simp add: jm_nil)

text \<open>
  C38: what is printed as JSON denotes the data: for data whose names are plain and whose texts have
  no control characters but the three that are escaped, the text of a value is JSON by the grammar
  and denotes that value, for texts, numbers, arrays and objects at any depth; and the text of the
  whole, in braces, denotes the object.
\<close>

theorem json_denotes_data:
  assumes "\<forall>(k, v) \<in> set d. name_plain k \<and> data_plain v"
  shows "json_text ([123] @ serializable_json d @ [125]) (to_json (V_OBJ d))"
proof -
  have v: "data_plain v \<Longrightarrow> json_text (build_json v) (to_json v)" for v
  proof (induction v)
    case (V_STR x)
    then show ?case by (simp add: json_string_text)
  next
    case (V_OBJ d)
    have "\<forall>(k, v) \<in> set d. json_chars k k \<and> json_text (build_json v) (to_json v)"
      using V_OBJ by (fastforce intro: json_chars_plain)
    from jt_obj [OF json_members_commas [OF this]] show ?case by simp
  next
    case (V_INT n)
    then show ?case by (simp add: json_int_text)
  next
    case (V_STR_ARRAY vs)
    have "\<forall>v \<in> set vs. json_text (build_json_string v) (JStr v)" using V_STR_ARRAY by (simp add: json_string_text)
    from jt_arr [OF json_elements_commas [OF this]] show ?case by simp
  next
    case (V_OBJ_ARRAY os)
    let ?t = "\<lambda>d. [123] @ commas (map (\<lambda>(k, v). [34] @ k @ [34, 58] @ build_json v) d) @ [125]"
    have "\<forall>d \<in> set os. json_text (?t d) (JObj (map (\<lambda>(k, v). (k, to_json v)) d))"
    proof
      fix d assume d: "d \<in> set os"
      have "\<forall>(k, v) \<in> set d. json_chars k k \<and> json_text (build_json v) (to_json v)"
        using V_OBJ_ARRAY d by (fastforce intro: json_chars_plain)
      from jt_obj [OF json_members_commas [OF this]] show "json_text (?t d) (JObj (map (\<lambda>(k, v). (k, to_json v)) d))" by simp
    qed
    from jt_arr [OF json_elements_commas [OF this]] show ?case by simp
  next
    case (V_INT_ARRAY ns)
    have "\<forall>n \<in> set ns. json_text (print_int n) (JNum n)" by (simp add: json_int_text)
    from jt_arr [OF json_elements_commas [OF this]] show ?case by simp
  qed
  from v [of "V_OBJ d"] assms show ?thesis by (simp add: serializable_json_def)
qed

definition example_data :: serializable where
  "example_data = [(bytes ''a'', V_STR [34, 10]), (bytes ''b'', V_OBJ_ARRAY [[], [(bytes ''c'', V_INT (- 7))]])]"

theorem json_denotes_data_witness:
  "json_text ([123] @ serializable_json example_data @ [125])
     (JObj [(bytes ''a'', JStr [34, 10]), (bytes ''b'', JArr [JObj [], JObj [(bytes ''c'', JNum (- 7))]])])"
  using json_denotes_data [of example_data] by (simp add: example_data_def name_plain_def text_plain_def bytes_def of_char_def)

text \<open>Other control characters, and quotes in names, are not escaped: the text is not JSON.\<close>

inductive_cases json_charsE: "json_chars (c # t) v"

lemma control_character_not_json: "c < 32 \<Longrightarrow> json_chars (c # t) v \<Longrightarrow> False"
  by (erule json_charsE) (auto simp: word_less_nat_alt word_le_nat_alt)

section \<open>Adding and looking up\<close>

lemma find_emplace: "find_value j (emplace k v d) = (if j = k then Some v else find_value j d)"
  by (induction d) (auto simp: kgl_cmp_eq)

text \<open>Adding twice under one name makes an array of both, in order; adding under another name changes nothing.\<close>

lemma add_string_twice:
  assumes "find_value k d = None" "add_string k v d = (True, d1)" "add_string k w d1 = (ok, d2)"
  shows "ok \<and> find_value k d2 = Some (V_STR_ARRAY [v, w]) \<and> get_str k d1 = Some v \<and> get_str k d2 = None \<and>
    (\<forall>j. j \<noteq> k \<longrightarrow> find_value j d2 = find_value j d)"
  using assms by (auto simp: add_string_def find_emplace get_str_def)

lemma add_int_get: "find_value k d = None \<Longrightarrow> get_int k (snd (add_int k n d)) = n"
  by (simp add: add_int_def find_emplace get_int_def)

text \<open>The second object under one name is past the end.\<close>

lemma add_obj_twice_undefined: "add_obj k d = Some (True, d1) \<Longrightarrow> add_obj k d1 = None"
  by (auto simp: add_obj_def find_emplace split: option.splits data_value.splits)

end
