(* ===== verification/KProxyProtocol.thy ===== *)
theory KProxyProtocol
  imports KPrelude
begin

unbundle bit_operations_syntax

text \<open>
  The PROXY protocol, version 2 (\<^verbatim>\<open>src/KProxy.cpp\<close>, \<^verbatim>\<open>include/KProxy.h\<close>): the reader of the header that
  comes before a request, fed by the network in pieces of any size, and the writer of such a
  header. The reader is proved to depend on the octets only, to leave what follows the header
  unread, and to accept what the writer builds.
\<close>

section \<open>The reader\<close>

definition kgl_proxy_v2sig :: "byte list" where
  "kgl_proxy_v2sig = [0x0D, 0x0A, 0x0D, 0x0A, 0x00, 0x0D, 0x0A, 0x51, 0x55, 0x49, 0x54, 0x0A]"

abbreviation hdr_v2_size :: nat where "hdr_v2_size \<equiv> 16"
abbreviation ipv4_addr_size :: nat where "ipv4_addr_size \<equiv> 12"
abbreviation ipv6_addr_size :: nat where "ipv6_addr_size \<equiv> 36"

text \<open>\<^verbatim>\<open>kgl_proxy_hdr_v2\<close>, packed; the length is in network order.\<close>

definition hdr_sig :: "byte list \<Rightarrow> byte list" where "hdr_sig h = take 12 h"
definition hdr_ver_cmd :: "byte list \<Rightarrow> byte" where "hdr_ver_cmd h = h ! 12"
definition hdr_fam :: "byte list \<Rightarrow> byte" where "hdr_fam h = h ! 13"
definition hdr_len :: "byte list \<Rightarrow> nat" where "hdr_len h = unat (h ! 14) * 256 + unat (h ! 15)"

text \<open>The addresses and ports of the connection the proxy has accepted, as octets.\<close>

record proxy_addrs =
  pa_v6 :: bool
  pa_src :: "byte list"
  pa_dst :: "byte list"
  pa_src_port :: "byte list"
  pa_dst_port :: "byte list"

datatype proxy_state = Proxy_Header | Proxy_Body

text \<open>\<open>pr_buf\<close> are the octets read so far into the header or the body, \<open>pr_left\<close> is \<^verbatim>\<open>iov_len\<close>.\<close>

record proxy_reader =
  pr_state :: proxy_state
  pr_hdr :: "byte list"
  pr_buf :: "byte list"
  pr_left :: nat

datatype proxy_result = Proxy_More proxy_reader | Proxy_Refused | Proxy_Accepted proxy_addrs

definition state_body :: "byte list \<Rightarrow> byte list \<Rightarrow> proxy_result" where
  "state_body hdr body = (
     if hdr_fam hdr = 1 then
       if hdr_len hdr < ipv4_addr_size then Proxy_Refused
       else Proxy_Accepted \<lparr>pa_v6 = False, pa_src = take 4 body, pa_dst = take 4 (drop 4 body),
         pa_src_port = take 2 (drop 8 body), pa_dst_port = take 2 (drop 10 body)\<rparr>
     else if hdr_fam hdr = 2 then
       if hdr_len hdr < ipv6_addr_size then Proxy_Refused
       else Proxy_Accepted \<lparr>pa_v6 = True, pa_src = take 16 body, pa_dst = take 16 (drop 16 body),
         pa_src_port = take 2 (drop 32 body), pa_dst_port = take 2 (drop 34 body)\<rparr>
     else Proxy_Refused)"

definition state_header :: "byte list \<Rightarrow> proxy_result" where
  "state_header hdr = (
     if hdr_sig hdr \<noteq> kgl_proxy_v2sig then Proxy_Refused
     else if hdr_len hdr > 4096 \<or> hdr_len hdr < ipv4_addr_size then Proxy_Refused
     else if drop_bit 4 (hdr_ver_cmd hdr) \<noteq> 2 then Proxy_Refused
     else if hdr_ver_cmd hdr AND 0xF \<noteq> 1 then Proxy_Refused
     else Proxy_More \<lparr>pr_state = Proxy_Body, pr_hdr = hdr, pr_buf = [], pr_left = hdr_len hdr\<rparr>)"

definition proxy_got :: "byte list \<Rightarrow> proxy_reader \<Rightarrow> proxy_result" where
  "proxy_got got r = (
     if got = [] then Proxy_Refused
     else
       let r = r\<lparr>pr_buf := pr_buf r @ got, pr_left := pr_left r - length got\<rparr> in
       if pr_left r > 0 then Proxy_More r
       else case pr_state r of Proxy_Header \<Rightarrow> state_header (pr_buf r) | Proxy_Body \<Rightarrow> state_body (pr_hdr r) (pr_buf r))"

definition proxy_start :: proxy_reader where
  "proxy_start = \<lparr>pr_state = Proxy_Header, pr_hdr = [], pr_buf = [], pr_left = hdr_v2_size\<rparr>"

text \<open>
  The reads: the network delivers pieces, and a read takes at most \<^verbatim>\<open>iov_len\<close> octets of the first.
  The result is the decision and what is left unread.
\<close>

function proxy_loop :: "proxy_reader \<Rightarrow> byte list list \<Rightarrow> proxy_result \<times> byte list list" where
  "proxy_loop r [] = (Proxy_Refused, [])"
| "proxy_loop r (p # net) = (
     let net' = (if drop (pr_left r) p = [] then net else drop (pr_left r) p # net) in
     case proxy_got (take (pr_left r) p) r of
       Proxy_More r' \<Rightarrow> proxy_loop r' net'
     | res \<Rightarrow> (res, net'))"
  by pat_completeness auto
termination
proof (relation "measure (\<lambda>(_, net). length (concat net))", goal_cases)
  case (2 r p net net' r')
  have "take (pr_left r) p \<noteq> []"
  proof
    assume "take (pr_left r) p = []"
    with 2(2) show False by (simp add: proxy_got_def)
  qed
  then show ?case using 2(1) by auto
qed simp

definition handl_proxy_request :: "byte list list \<Rightarrow> proxy_result \<times> byte list list" where
  "handl_proxy_request net = proxy_loop proxy_start net"

section \<open>The writer\<close>

text \<open>\<^verbatim>\<open>build_proxy_header\<close> for an address that the I/O library has parsed: its family and its octets.\<close>

definition proxy_header :: "byte \<Rightarrow> nat \<Rightarrow> byte list" where
  "proxy_header fam len = kgl_proxy_v2sig @ [0x21, fam, of_nat (len div 256), of_nat (len mod 256)]"

definition build_proxy_header :: "bool \<Rightarrow> byte list \<Rightarrow> byte list" where
  "build_proxy_header v6 addr = (
     if v6 then proxy_header 2 ipv6_addr_size @ addr @ replicate 20 0
     else proxy_header 1 ipv4_addr_size @ addr @ replicate 8 0)"

section \<open>What the reader decides\<close>

definition proxy_spec :: "byte list \<Rightarrow> proxy_result \<times> byte list" where
  "proxy_spec s = (
     if length s < hdr_v2_size then (Proxy_Refused, [])
     else case state_header (take hdr_v2_size s) of
       Proxy_More r \<Rightarrow>
         if length (drop hdr_v2_size s) < pr_left r then (Proxy_Refused, [])
         else (state_body (pr_hdr r) (take (pr_left r) (drop hdr_v2_size s)), drop (pr_left r) (drop hdr_v2_size s))
     | res \<Rightarrow> (res, drop hdr_v2_size s))"

text \<open>Reading the octets that are still wanted, however they are cut.\<close>

lemma proxy_fill:
  assumes "\<forall>p \<in> set net. p \<noteq> []" "0 < pr_left r"
  shows "if length (concat net) < pr_left r then proxy_loop r net = (Proxy_Refused, [])
    else \<exists>net'. (\<forall>p \<in> set net'. p \<noteq> []) \<and> concat net' = drop (pr_left r) (concat net) \<and>
      proxy_loop r net = (case (case pr_state r of Proxy_Header \<Rightarrow> state_header (pr_buf r @ take (pr_left r) (concat net))
            | Proxy_Body \<Rightarrow> state_body (pr_hdr r) (pr_buf r @ take (pr_left r) (concat net))) of
          Proxy_More r' \<Rightarrow> proxy_loop r' net' | res \<Rightarrow> (res, net'))"
  using assms
proof (induction net arbitrary: r)
  case (Cons p net)
  let ?left = "pr_left r"
  have p: "p \<noteq> []" "\<forall>q \<in> set net. q \<noteq> []" using Cons.prems(1) by auto
  have t: "take ?left p \<noteq> []" using p(1) Cons.prems(2) by simp
  show ?case
  proof (cases "length p < ?left")
    case True
    define r1 where "r1 = r\<lparr>pr_buf := pr_buf r @ p, pr_left := ?left - length p\<rparr>"
    have l: "proxy_loop r (p # net) = proxy_loop r1 net" using True p(1) by (simp add: proxy_got_def r1_def)
    have r1: "pr_state r1 = pr_state r" "pr_hdr r1 = pr_hdr r" "drop (pr_left r1) (concat net) = drop ?left (concat (p # net))"
      "pr_buf r1 @ take (pr_left r1) (concat net) = pr_buf r @ take ?left (concat (p # net))"
      "length (concat net) < pr_left r1 \<longleftrightarrow> length (concat (p # net)) < ?left" "0 < pr_left r1"
      using True by (auto simp: r1_def)
    show ?thesis using Cons.IH [OF p(2) r1(6)] unfolding l r1(1-5) .
  next
    case False
    define net' where "net' = (if drop ?left p = [] then net else drop ?left p # net)"
    have "proxy_loop r (p # net) = (case (case pr_state r of Proxy_Header \<Rightarrow> state_header (pr_buf r @ take ?left p)
            | Proxy_Body \<Rightarrow> state_body (pr_hdr r) (pr_buf r @ take ?left p)) of
          Proxy_More r' \<Rightarrow> proxy_loop r' net' | res \<Rightarrow> (res, net'))"
      using False t unfolding proxy_loop.simps net'_def [symmetric] Let_def by (cases "pr_state r") (simp_all add: proxy_got_def)
    moreover have "concat net' = drop ?left (concat (p # net))" "\<forall>p \<in> set net'. p \<noteq> []"
      using False p by (auto simp: net'_def)
    moreover have tk: "take ?left (concat (p # net)) = take ?left p" and nl: "(length (concat (p # net)) < ?left) = False"
      using False by auto
    ultimately show ?thesis unfolding tk nl if_False by blast
  qed
qed simp


lemma handl_proxy_request_spec:
  assumes "\<forall>p \<in> set net. p \<noteq> []"
  shows "\<exists>net'. handl_proxy_request net = (fst (proxy_spec (concat net)), net') \<and> concat net' = snd (proxy_spec (concat net))"
proof (cases "length (concat net) < hdr_v2_size")
  case True
  with proxy_fill [OF assms, of proxy_start] show ?thesis by (simp add: handl_proxy_request_def proxy_spec_def proxy_start_def)
next
  case False
  with proxy_fill [OF assms, of proxy_start] obtain net1 where n1: "\<forall>p \<in> set net1. p \<noteq> []" "concat net1 = drop hdr_v2_size (concat net)"
    "handl_proxy_request net = (case state_header (take hdr_v2_size (concat net)) of Proxy_More r' \<Rightarrow> proxy_loop r' net1 | res \<Rightarrow> (res, net1))"
    by (auto simp: handl_proxy_request_def proxy_start_def)
  show ?thesis
  proof (cases "state_header (take hdr_v2_size (concat net))")
    case (Proxy_More r)
    then have r: "pr_state r = Proxy_Body" "pr_buf r = []" "0 < pr_left r" by (auto simp: state_header_def split: if_splits)
    have settled: "(case state_body h b of Proxy_More r' \<Rightarrow> proxy_loop r' n | res \<Rightarrow> (res, n)) = (state_body h b, n)" for h b n
      by (auto simp: state_body_def)
    show ?thesis
    proof (cases "length (concat net1) < pr_left r")
      case True
      with proxy_fill [OF n1(1) r(3)] have "proxy_loop r net1 = (Proxy_Refused, [])" by simp
      with True False Proxy_More n1 show ?thesis by (simp add: proxy_spec_def)
    next
      case enough: False
      with proxy_fill [OF n1(1) r(3)] obtain net2 where n2: "concat net2 = drop (pr_left r) (concat net1)"
        "proxy_loop r net1 = (state_body (pr_hdr r) (take (pr_left r) (concat net1)), net2)"
        by (auto simp: r settled)
      with enough False Proxy_More n1 show ?thesis by (simp add: proxy_spec_def)
    qed
  qed (use False n1 in \<open>simp_all add: proxy_spec_def\<close>)
qed

lemma proxy_header_fields:
  assumes "len < 65536"
  shows "length (proxy_header fam len) = hdr_v2_size" "hdr_sig (proxy_header fam len) = kgl_proxy_v2sig"
    "hdr_ver_cmd (proxy_header fam len) = 0x21" "hdr_fam (proxy_header fam len) = fam" "hdr_len (proxy_header fam len) = len"
proof -
  have "unat (of_nat (len div 256) :: byte) = len div 256" "unat (of_nat (len mod 256) :: byte) = len mod 256"
    using assms by (simp_all add: unat_of_nat)
  then show "hdr_len (proxy_header fam len) = len" by (simp add: hdr_len_def proxy_header_def kgl_proxy_v2sig_def)
qed (simp_all add: proxy_header_def kgl_proxy_v2sig_def hdr_sig_def hdr_ver_cmd_def hdr_fam_def)

lemma proxy_header_accepted:
  "12 \<le> len \<Longrightarrow> len \<le> 4096 \<Longrightarrow> state_header (proxy_header fam len) =
   Proxy_More \<lparr>pr_state = Proxy_Body, pr_hdr = proxy_header fam len, pr_buf = [], pr_left = len\<rparr>"
  by (simp add: state_header_def proxy_header_fields)

text \<open>
  C39: a header that \<^verbatim>\<open>build_proxy_header\<close> makes for an address is read back: however the network cuts
  it and what follows it, the reader accepts it with that address as the source and zeros for the
  rest, and leaves exactly what follows the header unread.
\<close>

theorem proxy_header_read_back:
  assumes "\<forall>p \<in> set net. p \<noteq> []" "concat net = build_proxy_header v6 addr @ rest" "length addr = (if v6 then 16 else 4)"
  shows "\<exists>net'. handl_proxy_request net = (Proxy_Accepted \<lparr>pa_v6 = v6, pa_src = addr, pa_dst = replicate (length addr) 0,
      pa_src_port = [0, 0], pa_dst_port = [0, 0]\<rparr>, net') \<and> concat net' = rest"
proof -
  define fam :: byte where "fam = (if v6 then 2 else 1)"
  define len where "len = (if v6 then ipv6_addr_size else ipv4_addr_size)"
  define body where "body = addr @ replicate (len - length addr) 0"
  have s: "concat net = proxy_header fam len @ body @ rest"
    using assms(2,3) by (simp add: build_proxy_header_def fam_def len_def body_def)
  have len: "12 \<le> len" "len \<le> 4096" "length body = len" using assms(3) by (auto simp: len_def body_def)
  have h: "length (proxy_header fam len) = hdr_v2_size" using len by (simp add: proxy_header_fields)
  have b: "state_body (proxy_header fam len) body = Proxy_Accepted \<lparr>pa_v6 = v6, pa_src = addr, pa_dst = replicate (length addr) 0,
      pa_src_port = [0, 0], pa_dst_port = [0, 0]\<rparr>"
    using assms(3) by (cases v6) (simp_all add: state_body_def proxy_header_fields fam_def len_def body_def numeral_2_eq_2)
  have "proxy_spec (concat net) = (state_body (proxy_header fam len) body, rest)"
    unfolding proxy_spec_def s using h len by (simp add: proxy_header_accepted)
  with handl_proxy_request_spec [OF assms(1)] show ?thesis by (simp add: b)
qed

theorem proxy_header_read_back_witness:
  "\<exists>net'. handl_proxy_request [take 7 (build_proxy_header False [10, 0, 0, 1]), drop 7 (build_proxy_header False [10, 0, 0, 1]) @ [71]] =
     (Proxy_Accepted \<lparr>pa_v6 = False, pa_src = [10, 0, 0, 1], pa_dst = [0, 0, 0, 0], pa_src_port = [0, 0], pa_dst_port = [0, 0]\<rparr>, net') \<and>
     concat net' = [71]"
proof -
  have "\<forall>p \<in> set [take 7 (build_proxy_header False [10, 0, 0, 1]), drop 7 (build_proxy_header False [10, 0, 0, 1]) @ [71]]. p \<noteq> []"
    by (simp add: build_proxy_header_def proxy_header_def kgl_proxy_v2sig_def)
  from proxy_header_read_back [OF this, of False "[10, 0, 0, 1]" "[71]"] show ?thesis by (simp add: numeral_eq_Suc)
qed

text \<open>
  The octet for the family is compared with 1 and 2 as a whole. The protocol puts the family into
  the upper half and the transport into the lower one: a header for TCP over IPv4 has 0x11 there,
  and is refused.
\<close>

lemma standard_family_refused:
  "hdr_fam h = 0x11 \<or> hdr_fam h = 0x21 \<Longrightarrow> state_body h body = Proxy_Refused"
  by (auto simp: state_body_def)

end
