(* ===== verification/KHttp1.thy ===== *)
theory KHttp1
  imports KRequest
begin

unbundle bit_operations_syntax

text \<open>
  The HTTP/1 request head: the line parser of \<^verbatim>\<open>include/KHttpParser.h\<close> and the loop
  \<^verbatim>\<open>KHttpSink::parse\<close> of \<^verbatim>\<open>include/KHttpSink.h\<close> that feeds its lines to \<^verbatim>\<open>parse_header\<close>. The buffer is
  the list of octets from \<^verbatim>\<open>*start\<close> to \<^verbatim>\<open>end\<close>, which the parser also writes to, and the octet that
  happens to follow \<^verbatim>\<open>end\<close> in memory, which it may read.
\<close>

section \<open>Lines\<close>

datatype kgl_parse_result =
  kgl_parse_error | kgl_parse_success | kgl_parse_finished | kgl_parse_want_read | kgl_parse_continue

record khttp_parser =
  header_len :: int
  started :: bool
  finished :: bool
  first_same :: bool

record khttp_parse_result =
  rs_attr :: "byte list"
  rs_val :: "byte list"
  rs_is_first :: bool
  rs_request_line :: bool

definition rs0 :: khttp_parse_result where
  "rs0 = \<lparr>rs_attr = [], rs_val = [], rs_is_first = False, rs_request_line = False\<rparr>"

definition khttp_parse_header ::
  "khttp_parser \<Rightarrow> byte list \<Rightarrow> khttp_parse_result \<Rightarrow> kgl_parse_result \<times> khttp_parse_result" where
  "khttp_parse_header parser header rs = (
     let first = rs_is_first rs \<and> \<not> first_same parser;
         rs = (if first then rs\<lparr>rs_request_line := True\<rparr> else rs)
     in case memchr header (if first then 32 else 58) of
          None \<Rightarrow> (kgl_parse_continue, rs)
        | Some i \<Rightarrow>
            (kgl_parse_success,
             rs\<lparr>rs_attr := takeWhile (\<lambda>c. c \<noteq> 0 \<and> c \<noteq> 32) (take i header),
                rs_val := dropWhile (\<lambda>c. c = 32) (drop (i + 1) header)\<rparr>))"

text \<open>
  The loop that joins continuation lines: the octet behind the line feed at \<open>pn\<close> decides, and the
  first carriage return of the line is blanked with it. The result is the position of the line feed
  that ends the joined line, if there is one yet, and the buffer.
\<close>

function fold_lines :: "byte list \<Rightarrow> byte \<Rightarrow> nat \<Rightarrow> nat option \<times> byte list" where
  "fold_lines s after pn = (
     if pn < length s \<and> (let c = (if pn + 1 < length s then s ! (pn + 1) else after) in c = 32 \<or> c = 9) then
       (let s = s[pn := 32];
            s = (case memchr (take (pn + 1) s) 13 of None \<Rightarrow> s | Some pr \<Rightarrow> s[pr := 32])
        in case memchr (drop (pn + 1) s) 10 of
             None \<Rightarrow> (None, s)
           | Some i \<Rightarrow> fold_lines s after (pn + 1 + i))
     else (Some pn, s))"
  by pat_completeness auto
termination
  by (relation "measure (\<lambda>(s, after, pn). length s - pn)") (auto split: option.splits)

declare fold_lines.simps [simp del]

text \<open>\<^verbatim>\<open>khttp_parse\<close>: the result, the parser, the buffer from the new start on and the parsed line.\<close>

function khttp_parse ::
  "khttp_parser \<Rightarrow> byte list \<Rightarrow> byte \<Rightarrow> kgl_parse_result \<times> khttp_parser \<times> byte list \<times> khttp_parse_result" where
  "khttp_parse parser s after = (
     case memchr s 10 of
       None \<Rightarrow> (kgl_parse_continue, parser, s, rs0)
     | Some pn \<Rightarrow>
         if s ! 0 = 10 \<or> s ! 0 = 13 then
           (let parser = parser\<lparr>header_len := header_len parser + int (pn + 1)\<rparr>; s' = drop (pn + 1) s in
            if \<not> started parser then khttp_parse parser s' after
            else (kgl_parse_finished, parser\<lparr>finished := True\<rparr>, s', rs0))
         else
           case (if started parser then
                   (if pn + 1 = length s then (None, s) else fold_lines s after pn)
                 else (Some pn, s)) of
             (None, s) \<Rightarrow> (kgl_parse_continue, parser, s, rs0)
           | (Some pn, s) \<Rightarrow>
               let line = take (if pn + 1 > 3 \<and> s ! (pn - 1) = 13 then pn - 1 else pn) s;
                   rs = rs0\<lparr>rs_is_first := \<not> started parser\<rparr>;
                   parser = parser\<lparr>header_len := header_len parser + int (pn + 1), started := True\<rparr>;
                   (r, rs) = khttp_parse_header parser line rs
               in (r, parser, drop (pn + 1) s, rs))"
  by pat_completeness auto
termination
  by (relation "measure (\<lambda>(p, s, a). length s)") (auto simp: first_pos_Some)

declare khttp_parse.simps [simp del]

lemma fold_lines_bounds:
  assumes "fold_lines s after pn = (r, s')" "pn < length s"
  shows "length s' = length s \<and> (\<forall>pn'. r = Some pn' \<longrightarrow> pn' < length s)"
  using assms
proof (induction s after pn arbitrary: r s' rule: fold_lines.induct)
  case (1 s after pn)
  let ?c = "if pn + 1 < length s then s ! (pn + 1) else after"
  show ?case
  proof (cases "pn < length s \<and> (?c = 32 \<or> ?c = 9)")
    case False
    with 1(2,3) show ?thesis by (subst (asm) fold_lines.simps) (auto simp: Let_def)
  next
    case True
    define t where "t = s[pn := 32]"
    define u where "u = (case memchr (take (pn + 1) t) 13 of None \<Rightarrow> t | Some pr \<Rightarrow> t[pr := 32])"
    have len: "length u = length s" by (simp add: u_def t_def split: option.split)
    have eq: "fold_lines s after pn = (case memchr (drop (pn + 1) u) 10 of
        None \<Rightarrow> (None, u) | Some i \<Rightarrow> fold_lines u after (pn + 1 + i))"
      unfolding fold_lines.simps [of s after pn] Let_def u_def t_def by (simp only: if_P [OF True])
    show ?thesis
    proof (cases "memchr (drop (pn + 1) u) 10")
      case None
      with 1(2) eq len show ?thesis by auto
    next
      case (Some i)
      then have "i < length (drop (pn + 1) u)" by (auto simp: first_pos_Some)
      then have "pn + 1 + i < length u" by simp
      moreover have "fold_lines u after (pn + 1 + i) = (r, s')" using 1(2) eq Some by simp
      moreover have "pn < length s \<and> (let c = ?c in c = 32 \<or> c = 9)" using True by (simp only: Let_def)
      ultimately have "length s' = length u \<and> (\<forall>pn'. r = Some pn' \<longrightarrow> pn' < length u)"
        by (intro 1(1) [OF _ t_def u_def Some])
      with len show ?thesis by simp
    qed
  qed
qed

lemma khttp_parse_shorter:
  "khttp_parse parser s after = (r, parser', s', rs) \<Longrightarrow> r = kgl_parse_success \<or> r = kgl_parse_finished \<Longrightarrow> length s' < length s"
proof (induction parser s after rule: khttp_parse.induct)
  case (1 parser s after)
  show ?case
  proof (cases "memchr s 10")
    case None
    with 1(2,3) show ?thesis by (subst (asm) khttp_parse.simps) auto
  next
    case (Some pn)
    then have pn: "pn < length s" by (auto simp: first_pos_Some)
    show ?thesis
    proof (cases "s ! 0 = 10 \<or> s ! 0 = 13")
      case True
      let ?p = "parser\<lparr>header_len := header_len parser + int (pn + 1)\<rparr>"
      show ?thesis
      proof (cases "started parser")
        case False
        then have "khttp_parse ?p (drop (pn + 1) s) after = (r, parser', s', rs)"
          using 1(2) True Some by (subst (asm) (1) khttp_parse.simps) (simp add: Let_def)
        then have "length s' < length (drop (pn + 1) s)"
          using 1(1) [OF Some True refl refl] False 1(3) by simp
        then show ?thesis by simp
      next
        case started: True
        with 1(2) True Some pn show ?thesis by (subst (asm) khttp_parse.simps) (auto simp: Let_def)
      qed
    next
      case False
      let ?f = "if started parser then (if pn + 1 = length s then (None, s) else fold_lines s after pn) else (Some pn, s)"
      obtain q t where f: "?f = (q, t)" by (cases ?f)
      have len: "length t = length s \<and> (\<forall>pn'. q = Some pn' \<longrightarrow> pn' < length s)"
        using f fold_lines_bounds [of s after pn q t] pn by (auto split: if_splits)
      have eq: "khttp_parse parser s after = (case (q, t) of
          (None, s) \<Rightarrow> (kgl_parse_continue, parser, s, rs0)
        | (Some pn, s) \<Rightarrow>
               let line = take (if pn + 1 > 3 \<and> s ! (pn - 1) = 13 then pn - 1 else pn) s;
                   rs = rs0\<lparr>rs_is_first := \<not> started parser\<rparr>;
                   parser = parser\<lparr>header_len := header_len parser + int (pn + 1), started := True\<rparr>;
                   (r, rs) = khttp_parse_header parser line rs
               in (r, parser, drop (pn + 1) s, rs))"
        using Some False f by (subst khttp_parse.simps) (simp only: option.case if_False f)
      show ?thesis
      proof (cases q)
        case None
        with eq 1(2,3) show ?thesis by simp
      next
        case (Some pn')
        with eq 1(2) have "s' = drop (pn' + 1) t" by (simp add: Let_def split: prod.split_asm)
        with len Some show ?thesis by simp linarith
      qed
    qed
  qed
qed

section \<open>The loop over the lines\<close>

text \<open>What the connection contributes: the kind of server and whether a minute has passed.\<close>

record head_config =
  hc_ssl :: bool
  hc_server_h2 :: bool
  hc_timed_out :: bool

definition MAX_HTTP_HEAD_SIZE :: int where
  "MAX_HTTP_HEAD_SIZE = 4194304"

datatype head_result = Head_Error | Head_H2c | Head_Continue | Head_Finished | Head_Undef

function sink_parse ::
  "head_config \<Rightarrow> khttp_parser \<Rightarrow> byte list \<Rightarrow> byte \<Rightarrow> request \<Rightarrow> head_result \<times> khttp_parser \<times> byte list \<times> request" where
  "sink_parse cfg parser s after rq = (
     case khttp_parse parser s after of
       (r, parser', s', rs) \<Rightarrow>
         if r = kgl_parse_continue then
           (if hc_timed_out cfg \<or> header_len parser' > MAX_HTTP_HEAD_SIZE then (Head_Error, parser', s', rq)
            else (Head_Continue, parser', s', rq))
         else if r = kgl_parse_success then
           (case parse_header (hc_ssl cfg) (rs_attr rs) (rs_val rs) (rs_is_first rs) rq of
              None \<Rightarrow> (Head_Undef, parser', s', rq)
            | Some (ok, rq') \<Rightarrow>
                if \<not> ok then (Head_Error, parser', s', rq')
                else if rs_is_first rs \<and> meth rq' = METH_PRI \<and> hc_server_h2 cfg then (Head_H2c, parser', s', rq')
                else sink_parse cfg parser' s' after rq')
         else if r = kgl_parse_finished then (Head_Finished, parser', s', rq)
         else (Head_Error, parser', s', rq))"
  by pat_completeness auto
termination
  by (relation "measure (\<lambda>(cfg, p, s, a, rq). length s)") (auto dest: khttp_parse_shorter [OF sym])

declare sink_parse.simps [simp del]

section \<open>Well-formed heads\<close>

lemma memchr_first: "c \<notin> set s \<Longrightarrow> memchr (s @ c # t) c = Some (length s)"
  by (induction s) auto

text \<open>One complete line, for a parser that has begun or not.\<close>

lemma khttp_parse_line:
  assumes "10 \<notin> set L" "2 \<le> length L" "L ! 0 \<noteq> 13"
    and "started parser \<Longrightarrow> rest \<noteq> [] \<and> hd rest \<noteq> 32 \<and> hd rest \<noteq> 9"
  shows "khttp_parse parser (L @ 13 # 10 # rest) after =
    (let parser' = parser\<lparr>header_len := header_len parser + int (length L + 2), started := True\<rparr>;
         (r, rs) = khttp_parse_header parser' L (rs0\<lparr>rs_is_first := \<not> started parser\<rparr>)
     in (r, parser', rest, rs))"
proof -
  let ?s = "L @ 13 # 10 # rest" and ?pn = "length L + 1"
  have m: "memchr ?s 10 = Some ?pn" using memchr_first [of 10 "L @ [13]" rest] assms(1) by simp
  have z: "?s ! 0 = L ! 0" using assms(2) by (cases L) simp_all
  have ne: "L ! 0 \<noteq> 10" using assms(1,2) by (metis length_greater_0_conv not_numeral_le_zero nth_mem list.size(3))
  have f: "(if started parser then (if ?pn + 1 = length ?s then (None, ?s) else fold_lines ?s after ?pn) else (Some ?pn, ?s)) =
      (Some ?pn, ?s)"
  proof (cases "started parser")
    case True
    then obtain c r where r: "rest = c # r" "c \<noteq> 32" "c \<noteq> 9" using assms(4) by (cases rest) auto
    have "?s ! (?pn + 1) = c" unfolding r(1) by (simp add: nth_append)
    then have "fold_lines ?s after ?pn = (Some ?pn, ?s)" using r by (subst fold_lines.simps) (simp add: Let_def)
    with True r show ?thesis by simp
  qed simp
  have nz: "\<not> (?s ! 0 = 10 \<or> ?s ! 0 = 13)" using z ne assms(3) by simp
  have line: "take (if ?pn + 1 > 3 \<and> ?s ! (?pn - 1) = 13 then ?pn - 1 else ?pn) ?s = L" using assms(2) by simp
  have rest: "drop (?pn + 1) ?s = rest" and n: "?pn + 1 = length L + 2" by simp_all
  show ?thesis
    unfolding khttp_parse.simps [of parser ?s after] m option.case if_not_P [OF nz] f prod.case
    unfolding Let_def line rest unfolding n by (rule refl)
qed

lemma finish_line:
  "started parser \<Longrightarrow> khttp_parse parser (13 # 10 # rest) after =
    (kgl_parse_finished, parser\<lparr>header_len := header_len parser + 2, finished := True\<rparr>, rest, rs0)"
  by (subst khttp_parse.simps) (simp add: Let_def)

definition name_ok :: "byte list \<Rightarrow> bool" where
  "name_ok n \<longleftrightarrow> n \<noteq> [] \<and> (\<forall>c \<in> set n. c \<notin> {0, 9, 10, 13, 32, 58})"

definition value_ok :: "byte list \<Rightarrow> bool" where
  "value_ok v \<longleftrightarrow> 10 \<notin> set v \<and> (v = [] \<or> hd v \<noteq> 32)"

fun head_text :: "(byte list \<times> byte list) list \<Rightarrow> byte list" where
  "head_text [] = [13, 10]"
| "head_text ((n, v) # hs) = n @ 58 # 32 # v @ 13 # 10 # head_text hs"

lemma parse_name_value:
  assumes "name_ok n" "value_ok v" "sep = (if rs_is_first rs \<and> \<not> first_same parser then 32 else 58)"
  shows "khttp_parse_header parser (n @ sep # (if sep = 58 then 32 # v else v)) rs =
    (kgl_parse_success, rs\<lparr>rs_request_line := (rs_is_first rs \<and> \<not> first_same parser) \<or> rs_request_line rs,
       rs_attr := n, rs_val := v\<rparr>)"
proof -
  have "sep \<notin> set n" using assms(1,3) by (auto simp: name_ok_def)
  then have m: "memchr (n @ sep # t) sep = Some (length n)" for t by (rule memchr_first)
  have t: "takeWhile (\<lambda>c. c \<noteq> 0 \<and> c \<noteq> 32) n = n" using assms(1) by (auto simp: name_ok_def takeWhile_eq_all_conv)
  have "dropWhile (\<lambda>c. c = 32) v = v" using assms(2) by (cases v) (auto simp: value_ok_def)
  with m t assms(3) show ?thesis by (auto simp: khttp_parse_header_def Let_def)
qed

lemma head_text_start: "\<forall>h \<in> set hs. name_ok (fst h) \<Longrightarrow> head_text hs @ body \<noteq> [] \<and> hd (head_text hs @ body) \<noteq> 32 \<and> hd (head_text hs @ body) \<noteq> 9"
  by (cases hs rule: head_text.cases) (auto simp: name_ok_def hd_append)

lemma sink_parse_headers:
  assumes "started parser" "first_same parser = False" "\<forall>h \<in> set hs. name_ok (fst h) \<and> value_ok (snd h)"
    and "parse_headers (hc_ssl cfg) hs rq = Some (True, rq')"
  shows "\<exists>parser'. sink_parse cfg parser (head_text hs @ body) after rq = (Head_Finished, parser', body, rq')"
  using assms
proof (induction hs arbitrary: parser rq)
  case Nil
  then show ?case by (subst sink_parse.simps) (simp add: finish_line)
next
  case (Cons h hs)
  obtain n v where h: "h = (n, v)" by (cases h)
  have ok: "name_ok n" "value_ok v" using Cons.prems(3) h by auto
  from Cons.prems(4) h obtain rq1 where step: "parse_header (hc_ssl cfg) n v False rq = Some (True, rq1)"
    and rest: "parse_headers (hc_ssl cfg) hs rq1 = Some (True, rq')"
    by (auto split: option.split_asm bool.split_asm)
  let ?L = "n @ 58 # 32 # v"
  let ?p = "parser\<lparr>header_len := header_len parser + int (length ?L + 2), started := True\<rparr>"
  have "10 \<notin> set ?L" "2 \<le> length ?L" "?L ! 0 \<noteq> 13"
    using ok by (auto simp: name_ok_def value_ok_def nth_append)
  moreover have "head_text hs @ body \<noteq> [] \<and> hd (head_text hs @ body) \<noteq> 32 \<and> hd (head_text hs @ body) \<noteq> 9"
    using Cons.prems(3) by (intro head_text_start) auto
  moreover have "khttp_parse_header ?p ?L (rs0\<lparr>rs_is_first := False\<rparr>) =
      (kgl_parse_success, rs0\<lparr>rs_attr := n, rs_val := v\<rparr>)"
    using parse_name_value [OF ok, of 58 "rs0\<lparr>rs_is_first := False\<rparr>" ?p] by (simp add: rs0_def)
  ultimately have "khttp_parse parser (?L @ 13 # 10 # (head_text hs @ body)) after =
      (kgl_parse_success, ?p, head_text hs @ body, rs0\<lparr>rs_attr := n, rs_val := v\<rparr>)"
    using khttp_parse_line [of ?L parser "head_text hs @ body" after] Cons.prems(1) by simp
  moreover obtain parser' where "sink_parse cfg ?p (head_text hs @ body) after rq1 = (Head_Finished, parser', body, rq')"
    using Cons.IH [of ?p rq1] Cons.prems rest by auto
  ultimately show ?case
    using h step by (subst sink_parse.simps) (simp add: rs0_def)
qed

section \<open>Properties\<close>

definition parser0 :: khttp_parser where
  "parser0 = \<lparr>header_len = 0, started = False, finished = False, first_same = False\<rparr>"

lemma request_head_lines:
  assumes "name_ok m" "value_ok t" "t \<noteq> []" "\<forall>h \<in> set hs. name_ok (fst h) \<and> value_ok (snd h)"
    and "parse_header (hc_ssl cfg) m t True rq = Some (True, rq1)" "\<not> (meth rq1 = METH_PRI \<and> hc_server_h2 cfg)"
    and "parse_headers (hc_ssl cfg) hs rq1 = Some (True, rq2)"
  shows "\<exists>parser'. sink_parse cfg parser0 (m @ 32 # t @ 13 # 10 # head_text hs @ body) after rq =
    (Head_Finished, parser', body, rq2)"
proof -
  let ?L = "m @ 32 # t"
  let ?p = "parser0\<lparr>header_len := header_len parser0 + int (length ?L + 2), started := True\<rparr>"
  have "10 \<notin> set ?L" "2 \<le> length ?L" "?L ! 0 \<noteq> 13"
    using assms(1-3) by (auto simp: name_ok_def value_ok_def nth_append Suc_le_eq)
  moreover have "khttp_parse_header ?p ?L (rs0\<lparr>rs_is_first := True\<rparr>) =
      (kgl_parse_success, rs0\<lparr>rs_is_first := True, rs_request_line := True, rs_attr := m, rs_val := t\<rparr>)"
    using parse_name_value [OF assms(1,2), of 32 "rs0\<lparr>rs_is_first := True\<rparr>" ?p] by (simp add: rs0_def parser0_def)
  ultimately have "khttp_parse parser0 (?L @ 13 # 10 # (head_text hs @ body)) after =
      (kgl_parse_success, ?p, head_text hs @ body,
       rs0\<lparr>rs_is_first := True, rs_request_line := True, rs_attr := m, rs_val := t\<rparr>)"
    using khttp_parse_line [of ?L parser0 "head_text hs @ body" after] by (simp add: parser0_def)
  moreover obtain parser' where "sink_parse cfg ?p (head_text hs @ body) after rq1 = (Head_Finished, parser', body, rq2)"
    using sink_parse_headers [of ?p hs cfg rq1 rq2 body after] assms by (auto simp: parser0_def)
  ultimately show ?thesis
    using assms(5,6) by (subst sink_parse.simps) (auto simp: rs0_def)
qed

text \<open>
  C9: a well-formed request head is taken apart into exactly its lines. If the request line and the
  headers are acceptable to \<^verbatim>\<open>parse_header\<close> one after the other, the loop \<^verbatim>\<open>KHttpSink::parse\<close> on the text
  of the head followed by anything, after any empty lines, finishes with that request and stops right
  behind the head, whatever follows the buffer in memory.
\<close>

theorem request_head_parsed:
  assumes "name_ok m" "value_ok t" "t \<noteq> []" "\<forall>h \<in> set hs. name_ok (fst h) \<and> value_ok (snd h)"
    and "parse_header (hc_ssl cfg) m t True rq = Some (True, rq1)" "\<not> (meth rq1 = METH_PRI \<and> hc_server_h2 cfg)"
    and "parse_headers (hc_ssl cfg) hs rq1 = Some (True, rq2)"
  shows "\<exists>parser'. sink_parse cfg parser0 (m @ 32 # t @ 13 # 10 # head_text hs @ body) after rq =
    (Head_Finished, parser', body, rq2)"
  using assms by (rule request_head_lines)

definition get_request :: request where
  "get_request = new_request\<lparr>http_version := 0, meth := 0\<rparr>"

lemma get_line_parsed:
  obtains rq1 where "parse_header False (bytes ''GET'') (bytes ''/ HTTP/1.1'') True get_request = Some (True, rq1)" "meth rq1 = METH_GET"
    "parse_headers False [(bytes ''Content-Length'', bytes ''2'')] rq1 =
      Some (True, rq1\<lparr>left_read := 2, rq_flags := RQ_HAS_KEEP_CONNECTION OR RQ_HAS_CONTENT_LEN\<rparr>)"
proof -
  let ?rq1 = "get_request\<lparr>meth := 1, http_version := 0x101, raw_url := url0\<lparr>u_path := Some [47]\<rparr>,
    rq_flags := RQ_HAS_KEEP_CONNECTION\<rparr>"
  have g: "get_method (bytes ''GET'') = 1" by (simp add: get_method_def http_methods_def name_eval)
  have "parse_header False (bytes ''GET'') (bytes ''/ HTTP/1.1'') True get_request = Some (True, ?rq1)"
    by (simp add: parse_header_def start_parse_def get_request_def new_request_def url0_def request_line_def parse_method_def g
        [unfolded bytes_def of_char_def, simplified]
        bytes_def of_char_def lift_url_def parse_url_def parse_path_def kgl_strndup_def parse_http_version_def set_flag_def)
  moreover have "parse_headers False [(bytes ''Content-Length'', bytes ''2'')] ?rq1 =
      Some (True, ?rq1\<lparr>left_read := 2, rq_flags := RQ_HAS_KEEP_CONNECTION OR RQ_HAS_CONTENT_LEN\<rparr>)"
    by (simp add: parse_header_def field_header_def name_eval get_request_def new_request_def kgl_atol_def set_flag_def)
  ultimately show ?thesis using that [of ?rq1] by simp
qed

theorem request_head_parsed_witness:
  "\<exists>parser' rq'. sink_parse \<lparr>hc_ssl = False, hc_server_h2 = True, hc_timed_out = False\<rparr> parser0
     (bytes ''GET'' @ 32 # bytes ''/ HTTP/1.1'' @ 13 # 10 # head_text [(bytes ''Content-Length'', bytes ''2'')] @ bytes ''hi'') 32
     get_request = (Head_Finished, parser', bytes ''hi'', rq') \<and> left_read rq' = 2 \<and> meth rq' = METH_GET"
proof -
  let ?cfg = "\<lparr>hc_ssl = False, hc_server_h2 = True, hc_timed_out = False\<rparr>"
  obtain rq1 where rq1: "parse_header False (bytes ''GET'') (bytes ''/ HTTP/1.1'') True get_request = Some (True, rq1)" "meth rq1 = METH_GET"
    "parse_headers False [(bytes ''Content-Length'', bytes ''2'')] rq1 =
      Some (True, rq1\<lparr>left_read := 2, rq_flags := RQ_HAS_KEEP_CONNECTION OR RQ_HAS_CONTENT_LEN\<rparr>)"
    by (rule get_line_parsed)
  have ok: "name_ok (bytes ''GET'')" "value_ok (bytes ''/ HTTP/1.1'')" "bytes ''/ HTTP/1.1'' \<noteq> []"
    "\<forall>h \<in> set [(bytes ''Content-Length'', bytes ''2'')]. name_ok (fst h) \<and> value_ok (snd h)"
    by (simp_all add: name_ok_def value_ok_def bytes_def of_char_def)
  show ?thesis
    using request_head_parsed [OF ok, of ?cfg get_request rq1 _ "bytes ''hi''" 32] rq1 by fastforce
qed

text \<open>
  A line without a colon is dropped, but the result asks for more input although the rest of the
  head is in the buffer already.
\<close>

lemma colonless_line_stalls:
  "sink_parse \<lparr>hc_ssl = False, hc_server_h2 = False, hc_timed_out = False\<rparr> (parser0\<lparr>started := True\<rparr>)
     (bytes ''abc'' @ 13 # 10 # 13 # 10 # []) 0 get_request =
   (Head_Continue, parser0\<lparr>header_len := 5, started := True\<rparr>, [13, 10], get_request)"
proof -
  have "khttp_parse (parser0\<lparr>started := True\<rparr>) (bytes ''abc'' @ 13 # 10 # [13, 10]) 0 =
      (kgl_parse_continue, parser0\<lparr>header_len := 5, started := True\<rparr>, [13, 10], rs0\<lparr>rs_is_first := False\<rparr>)"
    using khttp_parse_line [of "bytes ''abc''" "parser0\<lparr>started := True\<rparr>" "[13, 10]" 0]
    by (simp add: bytes_def of_char_def parser0_def khttp_parse_header_def)
  then show ?thesis by (subst sink_parse.simps) (simp add: MAX_HTTP_HEAD_SIZE_def parser0_def)
qed

text \<open>
  A continuation line at the end of the buffer makes the parser look at the octet behind the buffer,
  and its value decides whether the header is complete.
\<close>

lemma folding_reads_behind:
  "fst (khttp_parse (parser0\<lparr>started := True\<rparr>) (bytes ''a:b'' @ [10, 32, 99, 10]) 88) = kgl_parse_success"
  "fst (khttp_parse (parser0\<lparr>started := True\<rparr>) (bytes ''a:b'' @ [10, 32, 99, 10]) 32) = kgl_parse_continue"
  by (subst khttp_parse.simps, simp add: bytes_def of_char_def parser0_def fold_lines.simps Let_def khttp_parse_header_def)+

end
