(* ===== verification/KHttpUpstream.thy ===== *)
theory KHttpUpstream
  imports KHttp1 KHttp1Response
begin

text \<open>
  The HTTP/1 client (\<^verbatim>\<open>src/KHttpUpstream.cpp\<close>, \<^verbatim>\<open>include/KHttpUpstream.h\<close>, \<^verbatim>\<open>src/KTcpUpstream.cpp\<close>): the
  writer of a request head, the reader of a response head, fed by the network in pieces, and the
  reader of what follows. The network is a parameter: \<open>writev\<close> as for responses, and the list of what
  the reads deliver. The growing buffers belong to the I/O library: a write buffer is the octets
  written to it, which \<open>chunks\<close> cuts into the pieces it has them in.
\<close>

section \<open>The request head\<close>

datatype kgl_result =
    KGL_OK | KGL_END | KGL_NO_BODY | KGL_DOUBLICATE | KGL_NEXT
  | KGL_EINSUFFICIENT_BUFFER | KGL_ENO_DATA | KGL_EINVALID_PARAMETER | KGL_EINVALID_INDEX | KGL_ENOT_READY
  | KGL_EDATA_FORMAT | KGL_ENO_MEMORY | KGL_EDENIED | KGL_EABORT | KGL_EHAS_SEND_HEADER
  | KGL_ESOCKET_BROKEN | KGL_ECAN_RETRY_SOCKET_BROKEN | KGL_EIO | KGL_ENOT_PREPARE | KGL_EEXSIT
  | KGL_ESYSCALL | KGL_EUNKNOW | KGL_ENOT_SUPPORT

text \<open>\<^verbatim>\<open>KUpstreamContext\<close> and the connection.\<close>

record 'c http_upstream =
  send_header_buffer :: "byte list option"
  read_buffer :: "byte list option"
  u_cn :: 'c

text \<open>
  The lengths of paths, names and values are passed as \<^verbatim>\<open>hlen_t\<close>, an \<^verbatim>\<open>unsigned short\<close>, so a longer string is cut to its
  length modulo 65536.
\<close>

definition hlen :: "byte list \<Rightarrow> byte list" where
  "hlen s = take (length s mod 2 ^ 16) s"

lemma hlen_short [simp]: "length s < 65536 \<Longrightarrow> hlen s = s"
  by (simp add: hlen_def)

text \<open>\<open>None\<close> is the failed assertion that no head is being written.\<close>

definition send_method_path :: "int \<Rightarrow> byte list \<Rightarrow> 'c http_upstream \<Rightarrow> (bool \<times> 'c http_upstream) option" where
  "send_method_path mt path us = (
     if send_header_buffer us \<noteq> None then None
     else Some (True, us\<lparr>send_header_buffer := Some (get_method_name mt @ [32] @ hlen path @ bytes '' HTTP/1.1'' @ [13, 10])\<rparr>))"

definition us_send_header :: "byte list \<Rightarrow> byte list \<Rightarrow> 'c http_upstream \<Rightarrow> bool \<times> 'c http_upstream" where
  "us_send_header attr val us = (case send_header_buffer us of
       None \<Rightarrow> (False, us)
     | Some b \<Rightarrow> (True, us\<lparr>send_header_buffer := Some (b @ hlen attr @ [58, 32] @ hlen val @ [13, 10])\<rparr>))"

definition us_send_connection :: "byte list \<Rightarrow> 'c http_upstream \<Rightarrow> bool \<times> 'c http_upstream" where
  "us_send_connection val us = us_send_header (bytes ''Connection'') val us"

definition us_send_host :: "byte list \<Rightarrow> 'c http_upstream \<Rightarrow> bool \<times> 'c http_upstream" where
  "us_send_host host us = us_send_header (bytes ''Host'') host us"

definition us_set_content_length :: "int \<Rightarrow> 'c http_upstream \<Rightarrow> 'c http_upstream" where
  "us_set_content_length content_length us = (
     if content_length = -1 then snd (us_send_header (bytes ''Transfer-Encoding'') (bytes ''chunked'') us) else us)"

definition send_header_complete ::
  "'c writev \<Rightarrow> (byte list \<Rightarrow> byte list list) \<Rightarrow> 'c http_upstream \<Rightarrow> (kgl_result \<times> 'c http_upstream) option" where
  "send_header_complete writev chunks us = (case send_header_buffer us of
       None \<Rightarrow> Some (KGL_ENOT_READY, us)
     | Some b \<Rightarrow>
         (case write_buf writev (chunks b) (length b) (Some [13, 10]) (u_cn us) of
            None \<Rightarrow> None
          | Some (left, c) \<Rightarrow>
              Some (if left = 0 then KGL_OK else KGL_ECAN_RETRY_SOCKET_BROKEN,
                us\<lparr>send_header_buffer := None, u_cn := c\<rparr>)))"

text \<open>\<^verbatim>\<open>clean\<close>: both buffers are destroyed.\<close>

definition us_clean :: "'c http_upstream \<Rightarrow> 'c http_upstream" where
  "us_clean us = us\<lparr>send_header_buffer := None, read_buffer := None\<rparr>"

section \<open>The response head\<close>

text \<open>
  What one read gives: the octets, none when the connection is closed or broken, the octet that
  lies behind them in memory, and whether a minute has passed since the first read.
\<close>

record net_read =
  nr_got :: "byte list"
  nr_after :: byte
  nr_late :: bool

type_synonym 's header_callback = "byte list \<Rightarrow> byte list \<Rightarrow> bool \<Rightarrow> 's \<Rightarrow> bool \<times> 's"

text \<open>
  The inner loop over the lines in the buffer. After a failure the connection is closed and the
  buffer not used again.
\<close>

datatype 's read_step =
    Read_Fail kgl_result 's
  | Read_Done "byte list" 's
  | Read_More khttp_parser "byte list" 's

function read_lines :: "'s header_callback \<Rightarrow> bool \<Rightarrow> byte \<Rightarrow> khttp_parser \<Rightarrow> byte list \<Rightarrow> 's \<Rightarrow> 's read_step" where
  "read_lines cb late after parser s st = (
     case khttp_parse parser s after of
       (r, parser', s', rs) \<Rightarrow>
         if r = kgl_parse_continue then
           (if late then Read_Fail KGL_EIO st
            else if header_len parser' > MAX_HTTP_HEAD_SIZE then Read_Fail KGL_EDATA_FORMAT st
            else Read_More parser' s' st)
         else if r = kgl_parse_success then
           (case cb (rs_attr rs) (rs_val rs) (rs_is_first rs) st of
              (ok, st') \<Rightarrow> if ok then read_lines cb late after parser' s' st' else Read_Fail KGL_EDATA_FORMAT st')
         else if r = kgl_parse_finished then Read_Done s' st
         else Read_Fail KGL_EDATA_FORMAT st)"
  by pat_completeness auto
termination
  by (relation "measure (\<lambda>(cb, l, a, p, s, st). length s)") (auto dest: khttp_parse_shorter [OF sym])

declare read_lines.simps [simp del]

text \<open>
  The outer loop over the reads: \<open>Inl\<close> the error, \<open>Inr\<close> the octets left in the buffer and the reads
  that are left, with the state of the callback.
\<close>

fun read_header_loop ::
  "'s header_callback \<Rightarrow> khttp_parser \<Rightarrow> byte list \<Rightarrow> net_read list \<Rightarrow> 's \<Rightarrow> (kgl_result \<times> 's) + (byte list \<times> net_read list \<times> 's)" where
  "read_header_loop cb parser buf [] st = Inl (KGL_EDATA_FORMAT, st)"
| "read_header_loop cb parser buf (r1 # net) st = (
     if nr_got r1 = [] then Inl (KGL_EDATA_FORMAT, st)
     else case read_lines cb (nr_late r1) (nr_after r1) parser (buf @ nr_got r1) st of
       Read_Fail res st' \<Rightarrow> Inl (res, st')
     | Read_Done s st' \<Rightarrow> Inr (s, net, st')
     | Read_More parser' s st' \<Rightarrow> read_header_loop cb parser' s net st')"

text \<open>\<open>None\<close> is the failed assertion that nothing is left in the buffer.\<close>

definition us_read_header ::
  "'s header_callback \<Rightarrow> net_read list \<Rightarrow> 's \<Rightarrow> 'c http_upstream \<Rightarrow>
   ((kgl_result \<times> 's) + (net_read list \<times> 's \<times> 'c http_upstream)) option" where
  "us_read_header cb net st us = (
     if \<not> (read_buffer us = None \<or> read_buffer us = Some []) then None
     else case read_header_loop cb parser0 [] net st of
       Inl e \<Rightarrow> Some (Inl e)
     | Inr (buf, net', st') \<Rightarrow> Some (Inr (net', st', us\<lparr>read_buffer := Some buf\<rparr>)))"

text \<open>\<^verbatim>\<open>read\<close>: first what is left in the buffer, then from the network, at most \<open>len\<close> octets.\<close>

definition us_read :: "nat \<Rightarrow> net_read list \<Rightarrow> 'c http_upstream \<Rightarrow> byte list \<times> net_read list \<times> 'c http_upstream" where
  "us_read len net us = (case read_buffer us of
       Some (c # b) \<Rightarrow> (take len (c # b), net, us\<lparr>read_buffer := Some (drop len (c # b))\<rparr>)
     | _ \<Rightarrow>
         let us = us\<lparr>read_buffer := None\<rparr> in
         (case net of
            [] \<Rightarrow> ([], [], us)
          | r1 # net' \<Rightarrow>
              if drop len (nr_got r1) = [] then (nr_got r1, net', us)
              else (take len (nr_got r1), r1\<lparr>nr_got := drop len (nr_got r1)\<rparr> # net', us)))"

section \<open>Heads in pieces\<close>

text \<open>A line of which not all has arrived yet.\<close>

lemma khttp_parse_partial:
  assumes "s @ u = L @ 13 # 10 # rest" "10 \<notin> set L" "L \<noteq> []" "L ! 0 \<noteq> 13"
    and "length s < length L + 2 + (if started parser then 1 else 0)"
  shows "khttp_parse parser s after = (kgl_parse_continue, parser, s, rs0)"
proof (cases "length s < length L + 2")
  case True
  have "s = take (length s) (L @ 13 # 10 # rest)" using assms(1) by (metis append_eq_conv_conj)
  also have "\<dots> = take (length s) (L @ [13])" using True by (auto simp: take_Cons')
  finally have "set s \<subseteq> insert 13 (set L)" using set_take_subset [of "length s" "L @ [13]"] by simp
  then have "10 \<notin> set s" using assms(2) by auto
  then have "memchr s 10 = None" by (auto simp: first_pos_None)
  then show ?thesis by (subst khttp_parse.simps) simp
next
  case False
  then have st: "started parser" "length s = length (L @ [13, 10])" using assms(5) by (auto split: if_splits)
  have "s @ u = (L @ [13, 10]) @ rest" using assms(1) by simp
  then have "s = L @ [13, 10]" using append_eq_append_conv [OF disjI1 [OF st(2)]] by blast
  moreover have "memchr (L @ [13, 10]) 10 = Some (length L + 1)" using memchr_first [of 10 "L @ [13]" "[]"] assms(2) by simp
  moreover have "(L @ [13, 10]) ! 0 \<noteq> 10 \<and> (L @ [13, 10]) ! 0 \<noteq> 13" using assms(2,3,4) by (cases L) auto
  ultimately show ?thesis using st(1) by (subst khttp_parse.simps) simp
qed

text \<open>One line of the buffer: it is reported when all of it has arrived.\<close>

lemma khttp_parse_prefix:
  assumes "s @ u = L @ 13 # 10 # rest" "10 \<notin> set L" "2 \<le> length L" "L ! 0 \<noteq> 13"
    and "started parser \<Longrightarrow> rest \<noteq> [] \<and> hd rest \<noteq> 32 \<and> hd rest \<noteq> 9"
    and "khttp_parse_header (parser\<lparr>header_len := header_len parser + int (length L + 2), started := True\<rparr>) L
      (rs0\<lparr>rs_is_first := \<not> started parser\<rparr>) = (kgl_parse_success, rs)"
  shows "khttp_parse parser s after = (kgl_parse_continue, parser, s, rs0) \<and> length s < length L + 3 \<or>
    (\<exists>s'. s' @ u = rest \<and> khttp_parse parser s after =
       (kgl_parse_success, parser\<lparr>header_len := header_len parser + int (length L + 2), started := True\<rparr>, s', rs))"
proof (cases "length s < length L + 2 + (if started parser then 1 else 0)")
  case True
  have "L \<noteq> []" using assms(3) by auto
  with khttp_parse_partial [OF assms(1,2) _ assms(4) True] True show ?thesis by (simp split: if_splits)
next
  case False
  then have len: "length L + 2 \<le> length s" by simp
  obtain s' where s: "s = (L @ [13, 10]) @ s'"
    using assms(1) len append_eq_append_conv_if [of s u "L @ [13, 10]" rest] by (auto split: if_splits)
  with assms(1) have r: "s' @ u = rest" by simp
  have "s' \<noteq> [] \<and> hd s' \<noteq> 32 \<and> hd s' \<noteq> 9" if "started parser" using that False s r assms(5) by (cases s') auto
  then have "khttp_parse parser s after =
      (kgl_parse_success, parser\<lparr>header_len := header_len parser + int (length L + 2), started := True\<rparr>, s', rs)"
    using khttp_parse_line [OF assms(2-4), of parser s' after] assms(6) s by simp
  with r show ?thesis by blast
qed

text \<open>The fields of a head, one after the other, to a callback that accepts them.\<close>

fun feed :: "'s header_callback \<Rightarrow> (byte list \<times> byte list) list \<Rightarrow> 's \<Rightarrow> 's option" where
  "feed cb [] st = Some st"
| "feed cb ((n, v) # hs) st = (case cb n v False st of (ok, st') \<Rightarrow> if ok then feed cb hs st' else None)"

text \<open>
  The octets of a head in the buffer, up to where the network has delivered it: the fields are
  reported as far as they are complete, and what is left is the rest of the head.
\<close>

lemma read_lines_fields:
  assumes "started parser" "first_same parser = False" "\<forall>h \<in> set hs. name_ok (fst h) \<and> value_ok (snd h)"
    and "feed cb hs st = Some st1" "s @ u = head_text hs @ body"
    and "header_len parser + int (length (head_text hs)) \<le> MAX_HTTP_HEAD_SIZE"
  shows "(\<exists>s'. read_lines cb False after parser s st = Read_Done s' st1 \<and> s' @ u = body) \<or>
    (\<exists>hs2 parser2 s2 st2. read_lines cb False after parser s st = Read_More parser2 s2 st2 \<and> started parser2 \<and> first_same parser2 = False \<and>
       set hs2 \<subseteq> set hs \<and> feed cb hs2 st2 = Some st1 \<and> s2 @ u = head_text hs2 @ body \<and>
       header_len parser2 + int (length (head_text hs2)) \<le> MAX_HTTP_HEAD_SIZE \<and> length s2 < length (head_text hs2))"
  using assms
proof (induction hs arbitrary: parser s st)
  case Nil
  show ?case
  proof (cases "length s < 2")
    case True
    have "s = [] \<or> s = [13]" using True Nil.prems(5) by (cases s; cases "tl s") (auto simp: Cons_eq_append_conv)
    then have "khttp_parse parser s after = (kgl_parse_continue, parser, s, rs0)" by (subst khttp_parse.simps) auto
    then have "read_lines cb False after parser s st = Read_More parser s st" using Nil.prems(6) by (subst read_lines.simps) simp
    with Nil.prems True show ?thesis by (intro disjI2 exI [of _ "[]"]) auto
  next
    case False
    then obtain s' where s: "s = 13 # 10 # s'" "s' @ u = body" using Nil.prems(5) by (cases s; cases "tl s") auto
    have "read_lines cb False after parser s st = Read_Done s' st"
      unfolding s(1) by (subst read_lines.simps) (simp add: finish_line Nil.prems(1))
    with s Nil.prems(4) show ?thesis by auto
  qed
next
  case (Cons h hs)
  obtain n v where h: "h = (n, v)" by (cases h)
  have ok: "name_ok n" "value_ok v" using Cons.prems(3) h by auto
  from Cons.prems(4) h obtain st' where step: "cb n v False st = (True, st')" and rest: "feed cb hs st' = Some st1"
    by (auto split: prod.split_asm if_splits)
  let ?L = "n @ 58 # 32 # v"
  let ?p = "parser\<lparr>header_len := header_len parser + int (length ?L + 2), started := True\<rparr>"
  have L: "10 \<notin> set ?L" "2 \<le> length ?L" "?L ! 0 \<noteq> 13"
    using ok by (auto simp: name_ok_def value_ok_def nth_append)
  have f: "khttp_parse_header ?p ?L (rs0\<lparr>rs_is_first := \<not> started parser\<rparr>) = (kgl_parse_success, rs0\<lparr>rs_attr := n, rs_val := v\<rparr>)"
    using parse_name_value [OF ok, of 58 "rs0\<lparr>rs_is_first := False\<rparr>" ?p] Cons.prems(1) by (simp add: rs0_def)
  have start: "head_text hs @ body \<noteq> [] \<and> hd (head_text hs @ body) \<noteq> 32 \<and> hd (head_text hs @ body) \<noteq> 9"
    using Cons.prems(3) by (intro head_text_start) auto
  have s: "s @ u = ?L @ 13 # 10 # (head_text hs @ body)" using Cons.prems(5) h by simp
  consider "khttp_parse parser s after = (kgl_parse_continue, parser, s, rs0)" "length s < length ?L + 3"
    | s' where "s' @ u = head_text hs @ body" "khttp_parse parser s after = (kgl_parse_success, ?p, s', rs0\<lparr>rs_attr := n, rs_val := v\<rparr>)"
    using khttp_parse_prefix [OF s L start f, of after] by blast
  then show ?case
  proof cases
    case 1
    then have "read_lines cb False after parser s st = Read_More parser s st"
      using Cons.prems(6) by (subst read_lines.simps) simp
    moreover have "2 \<le> length (head_text hs)" by (induction hs rule: head_text.induct) auto
    then have "length s < length (head_text (h # hs))" using 1(2) h by simp
    ultimately show ?thesis using Cons.prems by (intro disjI2 exI [of _ "h # hs"]) auto
  next
    case 2
    then have r: "read_lines cb False after parser s st = read_lines cb False after ?p s' st'"
      using step by (subst read_lines.simps) (simp add: rs0_def)
    have "header_len ?p + int (length (head_text hs)) \<le> MAX_HTTP_HEAD_SIZE" using Cons.prems(6) h by simp
    from Cons.IH [of ?p st' s', OF _ _ _ rest 2(1) this] Cons.prems(2,3) show ?thesis unfolding r by fastforce
  qed
qed

definition net_octets :: "net_read list \<Rightarrow> byte list" where
  "net_octets net = concat (map nr_got net)"

lemma net_octets_simps [simp]: "net_octets [] = []" "net_octets (r1 # net) = nr_got r1 @ net_octets net"
  by (simp_all add: net_octets_def)

lemma read_header_loop_fields:
  assumes "started parser" "first_same parser = False" "\<forall>h \<in> set hs. name_ok (fst h) \<and> value_ok (snd h)"
    and "feed cb hs st = Some st1" "buf @ net_octets net = head_text hs @ body" "length buf < length (head_text hs)"
    and "header_len parser + int (length (head_text hs)) \<le> MAX_HTTP_HEAD_SIZE"
    and "\<forall>r \<in> set net. nr_got r \<noteq> [] \<and> \<not> nr_late r"
  shows "\<exists>buf' net'. read_header_loop cb parser buf net st = Inr (buf', net', st1) \<and> buf' @ net_octets net' = body"
  using assms
proof (induction net arbitrary: parser buf hs st)
  case Nil
  from Nil.prems(5) have "length buf = length (head_text hs @ body)" by simp
  with Nil.prems(6) show ?case by simp
next
  case (Cons r1 net)
  have r1: "nr_got r1 \<noteq> []" "nr_late r1 = False" using Cons.prems(8) by auto
  have "(buf @ nr_got r1) @ net_octets net = head_text hs @ body" using Cons.prems(5) by simp
  from read_lines_fields [OF Cons.prems(1-4) this Cons.prems(7), of "nr_after r1"]
  show ?case
  proof (elim disjE exE conjE)
    fix s' assume "read_lines cb False (nr_after r1) parser (buf @ nr_got r1) st = Read_Done s' st1" "s' @ net_octets net = body"
    then show ?thesis using r1 by simp
  next
    fix hs2 parser2 s2 st2
    assume more: "read_lines cb False (nr_after r1) parser (buf @ nr_got r1) st = Read_More parser2 s2 st2"
      and inv: "started parser2" "first_same parser2 = False" "set hs2 \<subseteq> set hs" "feed cb hs2 st2 = Some st1"
        "s2 @ net_octets net = head_text hs2 @ body" "header_len parser2 + int (length (head_text hs2)) \<le> MAX_HTTP_HEAD_SIZE"
        "length s2 < length (head_text hs2)"
    have "\<forall>h \<in> set hs2. name_ok (fst h) \<and> value_ok (snd h)" using Cons.prems(3) inv(3) by auto
    from Cons.IH [OF inv(1,2) this inv(4,5,7,6)] Cons.prems(8) show ?thesis using more r1 by simp
  qed
qed

text \<open>The first line, of which the attribute is what comes before the first space.\<close>

lemma read_header_loop_head:
  assumes "name_ok m" "value_ok t" "t \<noteq> []" "\<forall>h \<in> set hs. name_ok (fst h) \<and> value_ok (snd h)"
    and "cb m t True st = (True, st0)" "feed cb hs st0 = Some st1"
    and "buf @ net_octets net = m @ 32 # t @ 13 # 10 # head_text hs @ body" "length buf < length m + length t + 4"
    and "int (length m + length t + 3 + length (head_text hs)) \<le> MAX_HTTP_HEAD_SIZE"
    and "\<forall>r \<in> set net. nr_got r \<noteq> [] \<and> \<not> nr_late r"
  shows "\<exists>buf' net'. read_header_loop cb parser0 buf net st = Inr (buf', net', st1) \<and> buf' @ net_octets net' = body"
  using assms(7,8,10)
proof (induction net arbitrary: buf)
  case Nil
  have "length buf = length (m @ 32 # t @ 13 # 10 # head_text hs @ body)" using Nil.prems(1) by simp
  moreover have "2 \<le> length (head_text hs)" by (induction hs rule: head_text.induct) auto
  ultimately show ?case using Nil.prems(2) by simp
next
  case (Cons r1 net)
  have r1: "nr_got r1 \<noteq> []" "nr_late r1 = False" using Cons.prems(3) by auto
  let ?s = "buf @ nr_got r1" and ?L = "m @ 32 # t" and ?after = "nr_after r1"
  let ?p = "parser0\<lparr>header_len := header_len parser0 + int (length ?L + 2), started := True\<rparr>"
  let ?rs = "rs0\<lparr>rs_is_first := True, rs_request_line := True, rs_attr := m, rs_val := t\<rparr>"
  have L: "10 \<notin> set ?L" "2 \<le> length ?L" "?L ! 0 \<noteq> 13"
    using assms(1-3) by (auto simp: name_ok_def value_ok_def nth_append Suc_le_eq)
  have f: "khttp_parse_header ?p ?L (rs0\<lparr>rs_is_first := \<not> started parser0\<rparr>) = (kgl_parse_success, ?rs)"
    using parse_name_value [OF assms(1,2), of 32 "rs0\<lparr>rs_is_first := True\<rparr>" ?p] by (simp add: rs0_def parser0_def)
  have s: "?s @ net_octets net = ?L @ 13 # 10 # (head_text hs @ body)" using Cons.prems(1) by simp
  consider "khttp_parse parser0 ?s ?after = (kgl_parse_continue, parser0, ?s, rs0)" "length ?s < length ?L + 3"
    | s' where "s' @ net_octets net = head_text hs @ body" "khttp_parse parser0 ?s ?after = (kgl_parse_success, ?p, s', ?rs)"
    using khttp_parse_prefix [OF s L _ f, of ?after] by (auto simp: parser0_def)
  then show ?case
  proof cases
    case 1
    then have "read_lines cb False ?after parser0 ?s st = Read_More parser0 ?s st"
      by (subst read_lines.simps) (simp add: parser0_def MAX_HTTP_HEAD_SIZE_def)
    with Cons.IH [of ?s] Cons.prems 1(2) r1 show ?thesis by simp
  next
    case 2
    then have r: "read_lines cb False ?after parser0 ?s st = read_lines cb False ?after ?p s' st0"
      using assms(5) by (subst read_lines.simps) (simp add: rs0_def)
    have p: "started ?p" "first_same ?p = False" "header_len ?p + int (length (head_text hs)) \<le> MAX_HTTP_HEAD_SIZE"
      using assms(9) by (simp_all add: parser0_def)
    from read_lines_fields [OF p(1,2) assms(4,6) 2(1) p(3), of ?after]
    show ?thesis
    proof (elim disjE exE conjE)
      fix s'' assume "read_lines cb False ?after ?p s' st0 = Read_Done s'' st1" "s'' @ net_octets net = body"
      then show ?thesis using r r1 by simp
    next
      fix hs2 parser2 s2 st2
      assume more: "read_lines cb False ?after ?p s' st0 = Read_More parser2 s2 st2"
        and inv: "started parser2" "first_same parser2 = False" "set hs2 \<subseteq> set hs" "feed cb hs2 st2 = Some st1"
          "s2 @ net_octets net = head_text hs2 @ body" "header_len parser2 + int (length (head_text hs2)) \<le> MAX_HTTP_HEAD_SIZE"
          "length s2 < length (head_text hs2)"
      have "\<forall>h \<in> set hs2. name_ok (fst h) \<and> value_ok (snd h)" using assms(4) inv(3) by auto
      from read_header_loop_fields [OF inv(1,2) this inv(4,5,7,6)] Cons.prems(3) show ?thesis using more r r1 by simp
    qed
  qed
qed

text \<open>What a client has not read yet: the buffer and what the network will deliver.\<close>

definition pending :: "net_read list \<Rightarrow> 'c http_upstream \<Rightarrow> byte list" where
  "pending net us = (case read_buffer us of None \<Rightarrow> [] | Some b \<Rightarrow> b) @ net_octets net"

lemma us_read_takes:
  assumes "us_read len net us = (got, net', us')" "0 < len" "\<forall>r \<in> set net. nr_got r \<noteq> []"
  shows "pending net us = got @ pending net' us' \<and> length got \<le> len \<and> (got = [] \<longleftrightarrow> pending net us = []) \<and>
    (\<forall>r \<in> set net'. nr_got r \<noteq> [])"
proof (cases "read_buffer us = None \<or> read_buffer us = Some []")
  case True
  then show ?thesis using assms
    by (cases net) (auto simp: us_read_def pending_def Let_def split: if_splits)
next
  case False
  then obtain c b where "read_buffer us = Some (c # b)" by (cases "read_buffer us"; cases "the (read_buffer us)") auto
  then show ?thesis using assms by (auto simp: us_read_def pending_def)
qed

lemma response_head_cut:
  assumes "name_ok m" "value_ok t" "t \<noteq> []" "\<forall>h \<in> set hs. name_ok (fst h) \<and> value_ok (snd h)"
    and "cb m t True st = (True, st0)" "feed cb hs st0 = Some st1"
    and "net_octets net = m @ 32 # t @ 13 # 10 # head_text hs @ body" "\<forall>r \<in> set net. nr_got r \<noteq> [] \<and> \<not> nr_late r"
    and "int (length m + length t + 3 + length (head_text hs)) \<le> MAX_HTTP_HEAD_SIZE"
    and "read_buffer us = None \<or> read_buffer us = Some []"
  shows "\<exists>net' us'. us_read_header cb net st us = Some (Inr (net', st1, us')) \<and> pending net' us' = body"
proof -
  have "[] @ net_octets net = m @ 32 # t @ 13 # 10 # head_text hs @ body" using assms(7) by simp
  from read_header_loop_head [OF assms(1-4), of cb st st0 st1, OF assms(5,6) this _ assms(9,8)]
  obtain buf' net' where "read_header_loop cb parser0 [] net st = Inr (buf', net', st1)" "buf' @ net_octets net' = body"
    by auto
  with assms(10) show ?thesis by (auto simp: us_read_header_def pending_def)
qed

section \<open>Properties\<close>

text \<open>
  C14: however the network cuts a response, the client reports its first line and its fields to the
  callback exactly once, in order, and what is left to read, in the buffer and on the network, is
  exactly what follows the head.
\<close>

theorem response_head_read:
  assumes "name_ok m" "value_ok t" "t \<noteq> []" "\<forall>h \<in> set hs. name_ok (fst h) \<and> value_ok (snd h)"
    and "cb m t True st = (True, st0)" "feed cb hs st0 = Some st1"
    and "net_octets net = m @ 32 # t @ 13 # 10 # head_text hs @ body" "\<forall>r \<in> set net. nr_got r \<noteq> [] \<and> \<not> nr_late r"
    and "int (length m + length t + 3 + length (head_text hs)) \<le> MAX_HTTP_HEAD_SIZE"
    and "read_buffer us = None \<or> read_buffer us = Some []"
  shows "\<exists>net' us'. us_read_header cb net st us = Some (Inr (net', st1, us')) \<and> pending net' us' = body"
  using assms by (rule response_head_cut)

definition collect :: "(byte list \<times> byte list) list header_callback" where
  "collect n v first st = (True, st @ [(n, v)])"

lemma feed_collect: "feed collect hs st = Some (st @ hs)"
  by (induction hs arbitrary: st) (auto simp: collect_def)

theorem response_head_read_witness:
  "\<exists>net' us'. us_read_header collect
      [\<lparr>nr_got = bytes ''HTTP/1.1 200 OK'' @ [13], nr_after = 0, nr_late = False\<rparr>,
       \<lparr>nr_got = [10] @ bytes ''Server: x'' @ [13, 10], nr_after = 32, nr_late = False\<rparr>,
       \<lparr>nr_got = [13, 10] @ bytes ''hi'', nr_after = 0, nr_late = False\<rparr>] []
      \<lparr>send_header_buffer = None, read_buffer = None, u_cn = ()\<rparr> =
    Some (Inr (net', [(bytes ''HTTP/1.1'', bytes ''200 OK''), (bytes ''Server'', bytes ''x'')], us')) \<and> pending net' us' = bytes ''hi''"
  by (rule response_head_read [where m = "bytes ''HTTP/1.1''" and t = "bytes ''200 OK''" and hs = "[(bytes ''Server'', bytes ''x'')]"
        and ?st0.0 = "[(bytes ''HTTP/1.1'', bytes ''200 OK'')]"])
    (simp_all add: name_ok_def value_ok_def collect_def bytes_def of_char_def MAX_HTTP_HEAD_SIZE_def)

text \<open>A request head as a client writes it.\<close>

fun us_send_headers :: "(byte list \<times> byte list) list \<Rightarrow> 'c http_upstream \<Rightarrow> 'c http_upstream" where
  "us_send_headers [] us = us"
| "us_send_headers ((n, v) # hs) us = us_send_headers hs (snd (us_send_header n v us))"

lemma us_send_headers_text:
  "send_header_buffer us = Some b \<Longrightarrow> \<forall>h \<in> set hs. length (fst h) < 65536 \<and> length (snd h) < 65536 \<Longrightarrow> \<exists>b'. us_send_headers hs us = us\<lparr>send_header_buffer := Some b'\<rparr> \<and> b' @ [13, 10] = b @ head_text hs"
proof (induction hs arbitrary: us b)
  case (Cons h hs)
  obtain n v where h: "h = (n, v)" by (cases h)
  show ?case using Cons.IH [of "snd (us_send_header n v us)" "b @ n @ [58, 32] @ v @ [13, 10]"] Cons.prems
    by (auto simp: h us_send_header_def)
qed simp

lemma method_names_ok: "name_ok (get_method_name mt)"
proof -
  have "\<forall>m \<in> set http_methods. name_ok m" by (simp add: http_methods_def name_ok_def bytes_def of_char_def)
  moreover have "length http_methods = 34" by (simp add: http_methods_def)
  ultimately show ?thesis by (simp add: get_method_name_def nat_less_iff)
qed

text \<open>
  C13: a request head arrives as it was written. When the connection delivers everything, a client
  that names a method and a path, sends fields and completes the head gets no error, and the
  server's parser takes what was sent, followed by any body, for the request made of that method,
  that path and these fields, and stops in front of the body; the path, the names and the values are shorter than 65536
  octets, as longer ones are cut.
\<close>

theorem upstream_request_received:
  assumes "writes_prefix writev sent" "never_fails writev" "\<forall>b. concat (chunks b) = b"
    and "send_header_buffer us = None" "value_ok path" "path \<noteq> []" "length path < 65536"
    and "\<forall>h \<in> set hs. name_ok (fst h) \<and> value_ok (snd h) \<and> length (fst h) < 65536 \<and> length (snd h) < 65536"
    and "parse_header (hc_ssl cfg) (get_method_name mt) (path @ bytes '' HTTP/1.1'') True rq = Some (True, rq1)"
    and "\<not> (meth rq1 = METH_PRI \<and> hc_server_h2 cfg)" "parse_headers (hc_ssl cfg) hs rq1 = Some (True, rq2)"
  shows "\<exists>us1 us2 wire parser'. send_method_path mt path us = Some (True, us1) \<and>
    send_header_complete writev chunks (us_send_headers hs us1) = Some (KGL_OK, us2) \<and> send_header_buffer us2 = None \<and>
    sent (u_cn us2) = sent (u_cn us) @ wire \<and> sink_parse cfg parser0 (wire @ body) after rq = (Head_Finished, parser', body, rq2)"
proof -
  let ?t = "path @ bytes '' HTTP/1.1''" and ?m = "get_method_name mt"
  define us1 where "us1 = us\<lparr>send_header_buffer := Some (?m @ 32 # ?t @ [13, 10])\<rparr>"
  have m: "send_method_path mt path us = Some (True, us1)" using assms(4,7) by (simp add: send_method_path_def us1_def)
  obtain b where b: "us_send_headers hs us1 = us1\<lparr>send_header_buffer := Some b\<rparr>" "b @ [13, 10] = (?m @ 32 # ?t @ [13, 10]) @ head_text hs"
    using us_send_headers_text [of us1 "?m @ 32 # ?t @ [13, 10]" hs] assms(8) by (auto simp: us1_def)
  have "b \<noteq> []" using arg_cong [OF b(2), of length] by auto
  then obtain c' where w: "write_buf writev (chunks b) (length b) (Some [13, 10]) (u_cn us) = Some (0, c')"
    "sent c' = sent (u_cn us) @ b @ [13, 10]"
    using write_buf_octets [OF assms(1), of "length b" "chunks b" "[13, 10]" "Some [13, 10]" "u_cn us"] assms(2,3) by auto
  have "value_ok ?t" using assms(5,6) by (cases path) (auto simp: value_ok_def bytes_def of_char_def)
  have hs: "\<forall>h \<in> set hs. name_ok (fst h) \<and> value_ok (snd h)" using assms(8) by blast
  from request_head_lines [OF method_names_ok \<open>value_ok ?t\<close> _ hs assms(9-11), of body after] obtain parser'
    where "sink_parse cfg parser0 (?m @ 32 # ?t @ 13 # 10 # head_text hs @ body) after rq = (Head_Finished, parser', body, rq2)"
    using assms(6) by auto
  moreover have "(b @ [13, 10]) @ body = ?m @ 32 # ?t @ 13 # 10 # head_text hs @ body" unfolding b(2) by simp
  ultimately have "sink_parse cfg parser0 ((b @ [13, 10]) @ body) after rq = (Head_Finished, parser', body, rq2)" by (simp only:)
  moreover have "send_header_complete writev chunks (us_send_headers hs us1) = Some (KGL_OK, us1\<lparr>send_header_buffer := None, u_cn := c'\<rparr>)"
    unfolding b(1) using w(1) by (simp add: send_header_complete_def us1_def)
  ultimately show ?thesis using m w(2)
    by (intro exI [of _ us1] exI [of _ "us1\<lparr>send_header_buffer := None, u_cn := c'\<rparr>"] exI [of _ "b @ [13, 10]"] exI [of _ parser']) simp
qed

theorem upstream_request_received_witness:
  "\<exists>us1 us2 wire parser' rq'. send_method_path 1 (bytes ''/'') \<lparr>send_header_buffer = None, read_buffer = None, u_cn = []\<rparr> = Some (True, us1) \<and>
    send_header_complete (\<lambda>c bufs. (length (concat bufs), True, c @ concat bufs)) (\<lambda>b. [b])
      (us_send_headers [(bytes ''Content-Length'', bytes ''2'')] us1) = Some (KGL_OK, us2) \<and> u_cn us2 = wire \<and>
    sink_parse \<lparr>hc_ssl = False, hc_server_h2 = True, hc_timed_out = False\<rparr> parser0 (wire @ bytes ''hi'') 32 get_request =
      (Head_Finished, parser', bytes ''hi'', rq') \<and> left_read rq' = 2 \<and> meth rq' = METH_GET"
proof -
  let ?cfg = "\<lparr>hc_ssl = False, hc_server_h2 = True, hc_timed_out = False\<rparr>" and ?w = "\<lambda>c bufs. (length (concat bufs), True, c @ concat bufs)"
  let ?us = "\<lparr>send_header_buffer = None, read_buffer = None, u_cn = [] :: byte list\<rparr>"
  have n: "get_method_name 1 = bytes ''GET''" by (simp add: get_method_name_def http_methods_def)
  have w: "writes_prefix ?w (\<lambda>c. c)" "never_fails ?w" "\<forall>b. concat [b] = b"
    by (auto simp: writes_prefix_def never_fails_def)
  have ok: "send_header_buffer ?us = None" "value_ok (bytes ''/'')" "bytes ''/'' \<noteq> []" "length (bytes ''/'') < 65536"
    "\<forall>h \<in> set [(bytes ''Content-Length'', bytes ''2'')]. name_ok (fst h) \<and> value_ok (snd h) \<and> length (fst h) < 65536 \<and> length (snd h) < 65536"
    by (simp_all add: name_ok_def value_ok_def bytes_def of_char_def)
  obtain rq1 where rq1: "parse_header (hc_ssl ?cfg) (get_method_name 1) (bytes ''/'' @ bytes '' HTTP/1.1'') True get_request = Some (True, rq1)"
    "meth rq1 = METH_GET" "parse_headers False [(bytes ''Content-Length'', bytes ''2'')] rq1 = Some (True, rq1\<lparr>left_read := 2, rq_flags := RQ_HAS_KEEP_CONNECTION OR RQ_HAS_CONTENT_LEN\<rparr>)"
    using get_line_parsed unfolding n by (auto simp: bytes_def)
  from upstream_request_received [OF w ok, of ?cfg 1 get_request rq1 _ "bytes ''hi''" 32] rq1 show ?thesis by fastforce
qed

end
