(* ===== verification/KExchange.thy ===== *)
theory KExchange
  imports KHttpUpstream
begin

unbundle bit_operations_syntax

text \<open>
  Whole exchanges over HTTP/1: the response head that the server's sink leaves to be sent, as the
  client reads it from the network, and the body behind it. This joins the sink, the gathering
  write, the line parser, the client and the chunk decoder.
\<close>

section \<open>A whole exchange over HTTP/1\<close>

text \<open>The status line.\<close>

definition reason :: "nat \<Rightarrow> byte list" where
  "reason status = drop 9 (get_request_line status)"

lemma known_status_lines:
  "\<forall>(c, l) \<in> set status_lines. bytes l = bytes ''HTTP/1.1'' @ 32 # drop 9 (bytes l) \<and> value_ok (drop 9 (bytes l)) \<and> drop 9 (bytes l) \<noteq> [] \<and> length (bytes l) < 100"
  by (simp add: status_lines_def bytes_def of_char_def value_ok_def)

lemma status_line:
  assumes "map_of status_lines status \<noteq> None"
  shows "get_request_line status = bytes ''HTTP/1.1'' @ 32 # reason status" "value_ok (reason status)" "reason status \<noteq> []"
    "length (get_request_line status) < 100"
proof -
  from assms obtain l where l: "map_of status_lines status = Some l" by auto
  with map_of_SomeD [OF l] known_status_lines have "bytes l = bytes ''HTTP/1.1'' @ 32 # drop 9 (bytes l) \<and> value_ok (drop 9 (bytes l)) \<and>
    drop 9 (bytes l) \<noteq> [] \<and> length (bytes l) < 100" by blast
  then show "get_request_line status = bytes ''HTTP/1.1'' @ 32 # reason status" "value_ok (reason status)" "reason status \<noteq> []"
    "length (get_request_line status) < 100"
    by (simp_all add: reason_def get_request_line_def l)
qed

text \<open>The server's side: the fields, and the head that \<^verbatim>\<open>start_response_body\<close> leaves to be sent.\<close>

fun response_fields :: "(byte list \<times> byte list) list \<Rightarrow> 'c h1_sink \<Rightarrow> 'c h1_sink" where
  "response_fields [] k = k"
| "response_fields ((n, v) # hs) k = response_fields hs (response_header_named n v k)"

definition fresh_sink :: "'c h1_sink \<Rightarrow> bool" where
  "fresh_sink k \<longleftrightarrow> h_rc k = [] \<and> h_status k = 0 \<and> h_meth k \<noteq> METH_HEAD \<and> h_version k > 0x100 \<and> has_flag RQ_HAS_KEEP_CONNECTION k \<and>
     \<not> has_flag RQ_CONNECTION_UPGRADE k \<and> \<not> has_flag RQ_CONNECTION_CLOSE k \<and> \<not> has_flag RQ_HAS_SEND_HEADER k \<and>
     \<not> has_flag RQ_TE_CHUNKED k \<and> \<not> has_flag RQ_HAS_SEND_CHUNK_0 k"

lemma and_or_apart: "f AND p = 0 \<Longrightarrow> (w OR p) AND f = w AND f" for f p w :: u32
  by (metis and.commute bit.conj_disj_distrib2 or.right_neutral)

definition length_field :: "int \<Rightarrow> byte list \<times> byte list" where
  "length_field len = (if len \<ge> 0 then (bytes ''Content-Length'', decimal (nat len)) else (bytes ''Transfer-Encoding'', bytes ''chunked''))"

definition field_text :: "byte list \<times> byte list \<Rightarrow> byte list" where
  "field_text h = [13, 10] @ fst h @ [58, 32] @ snd h"

lemma field_texts: "concat (map field_text hs) @ [13, 10, 13, 10] = 13 # 10 # head_text hs"
proof (induction hs)
  case (Cons h hs)
  have "concat (map field_text (h # hs)) @ [13, 10, 13, 10] = field_text h @ (concat (map field_text hs) @ [13, 10, 13, 10])" by simp
  also have "\<dots> = 13 # 10 # head_text (h # hs)" unfolding Cons by (cases h) (simp add: field_text_def)
  finally show ?case .
qed simp

lemma response_fields_rc:
  "\<forall>h \<in> set hs. length (field_text h) < 65536 \<Longrightarrow> response_fields hs k = k\<lparr>h_rc := h_rc k @ map field_text hs\<rparr>"
proof (induction hs arbitrary: k)
  case (Cons h hs)
  obtain n v where h: "h = (n, v)" by (cases h)
  have "response_header_named n v k = k\<lparr>h_rc := h_rc k @ [field_text h]\<rparr>"
    using Cons.prems h by (simp add: response_header_named_def rc_head_append_def field_text_def)
  then show ?case using Cons by (simp add: h)
qed simp

lemma response_head:
  assumes "fresh_sink k" "map_of status_lines status \<noteq> None" "\<not> is_status_code_no_body status"
    and "\<forall>h \<in> set hs. length (field_text h) < 65536" "len = -1 \<or> 0 \<le> len \<and> len < 2 ^ 63"
  obtains k' where "start_response_body writev False None len (response_fields hs (snd (response_status status k))) = Some (True, k')"
    "concat (h_rc k') = bytes ''HTTP/1.1'' @ 32 # reason status @ 13 # 10 # head_text (hs @ [length_field len])"
    "h_conn k' = h_conn k" "h_response_left k' = len" "h_rc k' \<noteq> []"
    "has_flag RQ_TE_CHUNKED k' \<longleftrightarrow> len < 0" "\<not> has_flag RQ_CONNECTION_CLOSE k'" "\<not> has_flag RQ_HAS_SEND_CHUNK_0 k'"
    "h_flags k' = h_flags k OR RQ_HAS_SEND_HEADER OR (if len < 0 then RQ_TE_CHUNKED else 0)"
proof -
  note line = status_line [OF assms(2)]
  define k1 where "k1 = k\<lparr>h_status := status, h_rc := get_request_line status # map field_text hs\<rparr>"
  have k1: "response_fields hs (snd (response_status status k)) = k1"
    using assms(1,4) line(4) by (simp add: response_fields_rc response_status_def fresh_sink_def rc_head_insert_def k1_def)
  let ?t = "if len \<ge> 0 then kgl_header_content_length else kgl_header_transfer_encoding"
  define k' where "k' = k1\<lparr>h_rc := h_rc k1 @ [header_http11 ?t, snd (length_field len), [13, 10, 13, 10]], h_response_left := len,
    h_flags := h_flags k OR RQ_HAS_SEND_HEADER OR (if len < 0 then RQ_TE_CHUNKED else 0)\<rparr>"
  have dec: "length (decimal (nat len)) < 65536" if "0 \<le> len"
    using that assms(5) length_decimal [of 19 "nat len"] by (auto simp: nat_less_iff)
  have st: "h_status k1 = status" "h_meth k1 \<noteq> METH_HEAD" "h_version k1 > 0x100" "h_version k1 \<noteq> 0x100" "h_flags k1 = h_flags k"
    using assms(1) by (auto simp: k1_def fresh_sink_def)
  have fl: "h_flags k AND RQ_HAS_KEEP_CONNECTION \<noteq> 0" "h_flags k AND RQ_CONNECTION_UPGRADE = 0" "h_flags k AND RQ_CONNECTION_CLOSE = 0"
    "h_flags k AND RQ_HAS_SEND_HEADER = 0" "h_flags k AND RQ_TE_CHUNKED = 0" "h_flags k AND RQ_HAS_SEND_CHUNK_0 = 0"
    using assms(1) by (simp_all add: fresh_sink_def has_flag_def)
  have "start_response_body writev False None len k1 = Some (True, k')"
  proof (cases "0 \<le> len")
    case True
    with st fl dec assms(3) show ?thesis
      by (simp add: and_or_apart start_response_body_def internal_start_response_body_def response_connection_def Let_def has_flag_def put_flag_def
          response_header_def rc_head_append_def k'_def length_field_def header_http11_def bytes_def)
  next
    case False
    with st fl assms(3,5) show ?thesis
      by (simp add: and_or_apart or.assoc start_response_body_def internal_start_response_body_def response_connection_def Let_def has_flag_def put_flag_def
          response_header_def rc_head_append_def k'_def length_field_def header_http11_def bytes_def)
  qed
  moreover have "concat (h_rc k') = bytes ''HTTP/1.1'' @ 32 # reason status @ 13 # 10 # head_text (hs @ [length_field len])"
  proof -
    have f: "header_http11 ?t @ snd (length_field len) = field_text (length_field len)"
      by (simp add: header_http11_def length_field_def field_text_def)
    have "concat (h_rc k') = get_request_line status @ (concat (map field_text (hs @ [length_field len])) @ [13, 10, 13, 10])"
      by (simp add: k'_def k1_def flip: f)
    then show ?thesis unfolding field_texts line(1) by simp
  qed
  moreover have "has_flag RQ_TE_CHUNKED k' \<longleftrightarrow> len < 0" "\<not> has_flag RQ_CONNECTION_CLOSE k'" "\<not> has_flag RQ_HAS_SEND_CHUNK_0 k'"
    using fl by (auto simp: k'_def has_flag_def bit.conj_disj_distrib2)
  ultimately show ?thesis
    using that [of k'] k1 by (simp add: k'_def k1_def)
qed

text \<open>The client's side: what it collects from a head, however the network cuts it.\<close>

lemma head_collected:
  assumes "map_of status_lines status \<noteq> None" "\<forall>h \<in> set hs. name_ok (fst h) \<and> value_ok (snd h)"
    and "int (length (reason status) + 11 + length (head_text (hs @ [length_field len]))) \<le> MAX_HTTP_HEAD_SIZE"
    and "net_octets net = bytes ''HTTP/1.1'' @ 32 # reason status @ 13 # 10 # head_text (hs @ [length_field len]) @ body"
    and "\<forall>r \<in> set net. nr_got r \<noteq> [] \<and> \<not> nr_late r" "read_buffer us = None"
  shows "\<exists>net' us'. us_read_header collect net [] us =
    Some (Inr (net', (bytes ''HTTP/1.1'', reason status) # hs @ [length_field len], us')) \<and> pending net' us' = body"
proof (rule response_head_cut)
  have "value_ok (decimal n)" for n
  proof -
    have "c \<noteq> 10 \<and> c \<noteq> 32" if "c \<in> set (decimal n)" for c using decimal_octets [OF that] by (auto simp: word_le_nat_alt)
    then show ?thesis by (auto simp: value_ok_def dest: hd_in_set)
  qed
  moreover have "value_ok (bytes ''chunked'')" by (simp add: value_ok_def bytes_def of_char_def)
  moreover have "name_ok (fst (length_field len))" by (simp add: length_field_def name_ok_def bytes_def of_char_def)
  ultimately have "name_ok (fst (length_field len)) \<and> value_ok (snd (length_field len))" by (simp add: length_field_def)
  then show "\<forall>h \<in> set (hs @ [length_field len]). name_ok (fst h) \<and> value_ok (snd h)" using assms(2) by auto
  show "feed collect (hs @ [length_field len]) [(bytes ''HTTP/1.1'', reason status)] =
      Some ((bytes ''HTTP/1.1'', reason status) # hs @ [length_field len])" by (simp add: feed_collect)
qed (use assms status_line [OF assms(1)] in \<open>auto simp: collect_def name_ok_def bytes_def of_char_def\<close>)

lemma declared_exchange:
  assumes "writes_prefix writev sent" "never_fails writev" "takes_prefix write sent" "\<forall>c str. str \<noteq> [] \<longrightarrow> 0 < fst (write c str)"
    and "fresh_sink k" "sent (h_conn k) = []" "map_of status_lines status \<noteq> None" "\<not> is_status_code_no_body status"
    and "\<forall>h \<in> set hs. name_ok (fst h) \<and> value_ok (snd h) \<and> length (field_text h) < 65536"
    and "len = int (length (concat ds))" "len < 2 ^ 63"
    and "int (length (reason status) + 11 + length (head_text (hs @ [length_field len]))) \<le> MAX_HTTP_HEAD_SIZE"
  shows "\<exists>k1 k2 k3. start_response_body writev False None len (response_fields hs (snd (response_status status k))) = Some (True, k1) \<and>
    write_bodies writev write ds k1 = Some k2 \<and> end_request writev k2 = Some k3 \<and> \<not> has_flag RQ_CONNECTION_CLOSE k3 \<and>
    (\<forall>net us. net_octets net = sent (h_conn k3) \<and> (\<forall>r \<in> set net. nr_got r \<noteq> [] \<and> \<not> nr_late r) \<and> read_buffer us = None \<longrightarrow>
      (\<exists>net' us'. us_read_header collect net [] us =
        Some (Inr (net', (bytes ''HTTP/1.1'', reason status) # hs @ [length_field len], us')) \<and> pending net' us' = concat ds))"
proof -
  have hs: "\<forall>h \<in> set hs. length (field_text h) < 65536" "\<forall>h \<in> set hs. name_ok (fst h) \<and> value_ok (snd h)" using assms(9) by auto
  obtain k1 where k1: "start_response_body writev False None len (response_fields hs (snd (response_status status k))) = Some (True, k1)"
    "concat (h_rc k1) = bytes ''HTTP/1.1'' @ 32 # reason status @ 13 # 10 # head_text (hs @ [length_field len])"
    "h_conn k1 = h_conn k" "h_response_left k1 = len" "has_flag RQ_TE_CHUNKED k1 \<longleftrightarrow> len < 0" "\<not> has_flag RQ_CONNECTION_CLOSE k1"
    using response_head [OF assms(5,7,8) hs(1), of len] assms(10,11) by auto
  have "owes sent k1 (concat (h_rc k1)) (length (concat ds))" using k1 assms(6,10) by (simp add: owes_def)
  from write_bodies_owes [OF assms(1-4) this order_refl] obtain k2 where k2: "write_bodies writev write ds k1 = Some k2"
    "owes sent k2 (concat (h_rc k1) @ concat ds) 0" by auto
  from end_request_owes [OF assms(1,2) k2(2)] obtain k3 where k3: "end_request writev k2 = Some k3"
    "sent (h_conn k3) = concat (h_rc k1) @ concat ds" "\<not> has_flag RQ_CONNECTION_CLOSE k3" by auto
  have "\<exists>net' us'. us_read_header collect net [] us =
        Some (Inr (net', (bytes ''HTTP/1.1'', reason status) # hs @ [length_field len], us')) \<and> pending net' us' = concat ds"
    if "net_octets net = sent (h_conn k3)" "\<forall>r \<in> set net. nr_got r \<noteq> [] \<and> \<not> nr_late r" "read_buffer us = None" for net and us :: "'d http_upstream"
    using that k3(2) k1(2) by (intro head_collected [OF assms(7) hs(2) assms(12)]) simp_all
  with k1(1) k2(1) k3(1,3) show ?thesis by blast
qed

definition hello_sink :: "byte list h1_sink" where
  "hello_sink = \<lparr>h_conn = [], h_rc = [], h_flags = RQ_HAS_KEEP_CONNECTION, h_response_left = 0, h_send_size = 0, h_status = 0, h_meth = 1,
     h_version = 0x101\<rparr>"

lemma hello_sink_fresh: "fresh_sink hello_sink" "h_conn hello_sink = []"
  by (simp_all add: fresh_sink_def hello_sink_def has_flag_def)

lemma hello_head:
  "map_of status_lines 200 \<noteq> None" "\<not> is_status_code_no_body 200" "reason 200 = bytes ''200 OK''"
  "\<forall>h \<in> set [(bytes ''Server'', bytes ''x'')]. name_ok (fst h) \<and> value_ok (snd h) \<and> length (field_text h) < 65536"
  by (simp_all add: status_lines_def is_status_code_no_body_def name_ok_def value_ok_def field_text_def reason_def get_request_line_def
      bytes_def of_char_def)

lemma chunked_exchange:
  assumes "writes_prefix writev sent" "never_fails writev" "fresh_sink k" "sent (h_conn k) = []"
    and "map_of status_lines status \<noteq> None" "\<not> is_status_code_no_body status"
    and "\<forall>h \<in> set hs. name_ok (fst h) \<and> value_ok (snd h) \<and> length (field_text h) < 65536"
    and "int (length (reason status) + 11 + length (head_text (hs @ [length_field (- 1)]))) \<le> MAX_HTTP_HEAD_SIZE"
    and "\<forall>d \<in> set ds. d \<noteq> [] \<and> length d \<le> 0x1FFFFFFF"
  shows "\<exists>k1 k2 k3. start_response_body writev False None (- 1) (response_fields hs (snd (response_status status k))) = Some (True, k1) \<and>
    write_pieces writev ds k1 = Some k2 \<and> end_request writev k2 = Some k3 \<and>
    (\<forall>net us. net_octets net = sent (h_conn k3) \<and> (\<forall>r \<in> set net. nr_got r \<noteq> [] \<and> \<not> nr_late r) \<and> read_buffer us = None \<longrightarrow>
      (\<exists>net' us'. us_read_header collect net [] us =
        Some (Inr (net', (bytes ''HTTP/1.1'', reason status) # hs @ [length_field (- 1)], us')) \<and>
        (\<forall>ns body. concat body = pending net' us' \<and> [] \<notin> set body \<and> (\<forall>n \<in> set ns. room_ok n) \<and> length (concat ds) < length ns \<longrightarrow>
           (\<exists>c' body'. read_all ns \<lparr>dc_chunk = KHTTPD_CHUNK_STATUS_READ_SIZE, dc_buf = [], dc_trailer = []\<rparr> body =
              (concat ds, Some Read_End, c', body')))))"
proof -
  have hs: "\<forall>h \<in> set hs. length (field_text h) < 65536" "\<forall>h \<in> set hs. name_ok (fst h) \<and> value_ok (snd h)" using assms(7) by auto
  obtain k1 where k1: "start_response_body writev False None (- 1) (response_fields hs (snd (response_status status k))) = Some (True, k1)"
    "concat (h_rc k1) = bytes ''HTTP/1.1'' @ 32 # reason status @ 13 # 10 # head_text (hs @ [length_field (- 1)])"
    "h_conn k1 = h_conn k" "h_response_left k1 = - 1" "has_flag RQ_TE_CHUNKED k1" "\<not> has_flag RQ_HAS_SEND_CHUNK_0 k1"
    using response_head [OF assms(3,5,6) hs(1), of "- 1"] by auto
  obtain k2 where k2: "write_pieces writev ds k1 = Some k2" "h_flags k2 = h_flags k1" "h_response_left k2 = - 1"
    "sent (h_conn k2) @ concat (h_rc k2) = concat (h_rc k1) @ concat (map encode_chunk ds)"
    using write_pieces_octets [OF assms(1,2) k1(4), of ds] k1(3) assms(4) by auto
  then have "has_flag RQ_TE_CHUNKED k2" "\<not> has_flag RQ_HAS_SEND_CHUNK_0 k2" using k1(5,6) by (simp_all add: has_flag_def)
  with end_request_chunked [OF assms(1,2)] k2(3) obtain k3 where k3: "end_request writev k2 = Some k3"
    "sent (h_conn k3) = sent (h_conn k2) @ concat (h_rc k2) @ [48, 13, 10, 13, 10]" by blast
  have wire: "sent (h_conn k3) = concat (h_rc k1) @ encode_chunked ds" using k3(2) k2(4) by (simp add: encode_chunked_def)
  have read: "\<exists>c' body'. read_all ns \<lparr>dc_chunk = KHTTPD_CHUNK_STATUS_READ_SIZE, dc_buf = [], dc_trailer = []\<rparr> body =
              (concat ds, Some Read_End, c', body')"
    if "concat body = encode_chunked ds" "[] \<notin> set body" "\<forall>n \<in> set ns. room_ok n" "length (concat ds) < length ns" for ns body
    using read_chunked [of "\<lparr>dc_chunk = KHTTPD_CHUNK_STATUS_READ_SIZE, dc_buf = [], dc_trailer = []\<rparr>" body ds "[]" ns] that assms(9) by auto
  have "\<exists>net' us'. us_read_header collect net [] us =
        Some (Inr (net', (bytes ''HTTP/1.1'', reason status) # hs @ [length_field (- 1)], us')) \<and> pending net' us' = encode_chunked ds"
    if "net_octets net = sent (h_conn k3)" "\<forall>r \<in> set net. nr_got r \<noteq> [] \<and> \<not> nr_late r" "read_buffer us = None" for net and us :: "'d http_upstream"
    using that wire k1(2) by (intro head_collected [OF assms(5) hs(2) assms(8)]) simp_all
  with k1(1) k2(1) k3(1) read show ?thesis by metis
qed

end
