(* ===== verification/KHttp1Server.thy ===== *)
theory KHttp1Server
  imports KExchange
begin

unbundle bit_operations_syntax

text \<open>
  The server's side of an HTTP/1 connection: the loop of \<^verbatim>\<open>KHttpSink::start\<close> over the requests that arrive,
  one behind the other, and the reading of their bodies (\<^verbatim>\<open>src/KHttpSink.cpp\<close>, \<^verbatim>\<open>include/KHttpSink.h\<close>,
  \<^verbatim>\<open>src/KSink.cpp\<close>, \<^verbatim>\<open>include/KSink.h\<close>, \<^verbatim>\<open>include/KRequest.h\<close>). The network is the list of what reads can
  deliver; the application is a parameter, the sizes it reads with and what it does to the response.
  \<open>None\<close> is a failed assertion.
\<close>

section \<open>The sink\<close>

text \<open>
  The request and its decoded URL; the response; the buffer, of which \<open>ks_used\<close> octets are parsed and \<open>ks_buf\<close>
  are left, in a block of \<open>ks_size\<close> octets; the chunk decoder.
\<close>

record 'c http_sink =
  ks_rq :: request
  ks_url :: "kgl_url option"
  ks_resp :: "'c h1_sink"
  ks_used :: nat
  ks_buf :: "byte list"
  ks_size :: nat
  ks_dechunk :: "dechunk_context option"

abbreviation RQ_HAS_READ_POST :: u32 where "RQ_HAS_READ_POST \<equiv> 0x800000"

definition rq_has :: "u32 \<Rightarrow> request \<Rightarrow> bool" where
  "rq_has f rq \<longleftrightarrow> rq_flags rq AND f \<noteq> 0"

definition MAX_HTTP_CHUNK_SIZE :: nat where
  "MAX_HTTP_CHUNK_SIZE = 8192"

definition http_sink_new :: "'c \<Rightarrow> 'c http_sink" where
  "http_sink_new cn = \<lparr>ks_rq = \<lparr>http_version = 0, meth = 0, rq_flags = 0, left_read = 0, raw_url = url0, accept_encoding = 0,
       rq_range = None, rq_precondition = No_Precondition, rq_headers = []\<rparr>, ks_url = None,
     ks_resp = \<lparr>h_conn = cn, h_rc = [], h_flags = 0, h_response_left = - 1, h_send_size = 0, h_status = 0, h_meth = 0, h_version = 0\<rparr>,
     ks_used = 0, ks_buf = [], ks_size = MAX_HTTP_CHUNK_SIZE, ks_dechunk = None\<rparr>"

text \<open>The response looks at the flags, the method and the version of the request.\<close>

definition to_response :: "request \<Rightarrow> 'c h1_sink \<Rightarrow> 'c h1_sink" where
  "to_response rq k = k\<lparr>h_flags := rq_flags rq, h_meth := meth rq, h_version := http_version rq\<rparr>"

section \<open>Reading\<close>

text \<open>
  \<^verbatim>\<open>kfiber_net_read\<close> with room for \<open>len\<close> octets: \<open>None\<close> for an error, no octets when the connection is closed,
  and at once when there is room for none.
\<close>

definition net_read :: "nat \<Rightarrow> byte list list \<Rightarrow> byte list option \<times> byte list list" where
  "net_read len net = (
     if len = 0 then (Some [], net)
     else case net of
       [] \<Rightarrow> (None, [])
     | r # net' \<Rightarrow> if length r \<le> len then (Some r, net') else (Some (take len r), drop len r # net'))"

text \<open>\<^verbatim>\<open>get_read_buffer\<close> doubles a full buffer; \<open>None\<close> is the failed assertion that no more is used than there is.\<close>

definition get_read_buffer :: "'c http_sink \<Rightarrow> (nat \<times> 'c http_sink) option" where
  "get_read_buffer s = (
     let used = ks_used s + length (ks_buf s) in
     if ks_size s < used then None
     else if 0 < ks_size s - used then Some (ks_size s - used, s)
     else Some (ks_size s * 2 - used, s\<lparr>ks_size := ks_size s * 2\<rparr>))"

text \<open>What a read returns: the octets, none at the end, \<open>Some None\<close> for an error, or \<open>None\<close> for a failed assertion of the decoder.\<close>

fun read_value :: "read_result \<Rightarrow> byte list option option" where
  "read_value (Piece p) = Some (Some p)"
| "read_value Read_End = Some (Some [])"
| "read_value Read_Error = Some None"
| "read_value Read_Aborted = None"

definition internal_read :: "nat \<Rightarrow> byte list list \<Rightarrow> 'c http_sink \<Rightarrow> (byte list option \<times> byte list list \<times> 'c http_sink) option" where
  "internal_read len net s = (case ks_dechunk s of
       Some d \<Rightarrow>
         (case ctx_read len d net of (r, d', net') \<Rightarrow>
            map_option (\<lambda>q. (q, net', s\<lparr>ks_dechunk := Some d'\<rparr>)) (read_value r))
     | None \<Rightarrow>
         if ks_buf s \<noteq> [] then
           let len = min len (length (ks_buf s)) in
           Some (Some (take len (ks_buf s)), net, s\<lparr>ks_buf := drop len (ks_buf s), ks_used := ks_used s + len\<rparr>)
         else case net_read len net of (r, net') \<Rightarrow> Some (r, net', s))"

text \<open>The interim response.\<close>

definition response_100_continue :: "'c writev \<Rightarrow> byte list option \<Rightarrow> 'c http_sink \<Rightarrow> (bool \<times> 'c http_sink) option" where
  "response_100_continue writev altsvc s = (
     let k = rc_head_insert (get_request_line 100) (to_response (ks_rq s) (ks_resp s)) in
     case internal_start_response_body writev False altsvc 0 True k of
       None \<Rightarrow> None
     | Some (n, k) \<Rightarrow> Some (0 \<le> n, s\<lparr>ks_resp := k\<rparr>))"

text \<open>\<^verbatim>\<open>KSink::read\<close>, with room for \<open>len\<close> octets: the octets, none at the end, or \<open>Some None\<close> for an error;
  \<open>None\<close> is an assertion that fails.\<close>

definition sink_read ::
  "'c writev \<Rightarrow> byte list option \<Rightarrow> nat \<Rightarrow> byte list list \<Rightarrow> 'c http_sink \<Rightarrow> (byte list option \<times> byte list list \<times> 'c http_sink) option" where
  "sink_read writev altsvc len net s = (
     let rq = set_flag RQ_HAS_READ_POST (ks_rq s); s = s\<lparr>ks_rq := rq\<rparr> in
     case (if rq_has RQ_HAVE_EXPECT rq then
             map_option snd (response_100_continue writev altsvc (s\<lparr>ks_rq := clr_flag RQ_HAVE_EXPECT rq\<rparr>))
           else Some s) of
       None \<Rightarrow> None
     | Some s \<Rightarrow>
         let rq = ks_rq s;
             upgrade = rq_has RQ_CONNECTION_UPGRADE rq;
             len = (if left_read rq \<ge> 0 \<and> \<not> upgrade then nat (min (int len) (left_read rq)) else len)
         in case internal_read len net s of
           None \<Rightarrow> None
         | Some (r, net, s) \<Rightarrow>
           (case r of
              None \<Rightarrow> Some (None, net, s)
            | Some p \<Rightarrow>
                if p = [] \<and> left_read rq = - 1 \<and> \<not> upgrade then Some (Some [], net, s\<lparr>ks_rq := rq\<lparr>left_read := 0\<rparr>\<rparr>)
                else if p \<noteq> [] \<and> left_read rq > 0 then
                  (if left_read rq < int (length p) then None
                   else Some (Some p, net, s\<lparr>ks_rq := rq\<lparr>left_read := left_read rq - int (length p)\<rparr>\<rparr>))
                else Some (Some p, net, s)))"

section \<open>Skipping\<close>

lemma next_line_length: "next_line buf = Some (l, rest) \<Longrightarrow> length rest < length buf"
  by (rule next_line_shorter)

lemma read_data_shorter:
  "read_data cs buf n = (r, cs', buf', p) \<Longrightarrow> length buf' \<le> length buf \<and> (r = Success \<longrightarrow> 0 < n \<longrightarrow> length buf' < length buf)"
  by (auto simp: read_data_def Let_def split: if_splits)

lemma read_last_length: "read_last buf = (r, cs', buf', p) \<Longrightarrow> length buf' \<le> length buf \<and> r \<noteq> Success"
  by (auto simp: read_last_def dest: next_line_length split: option.splits)

lemma read_size_length:
  "read_size cs buf n = (r, cs', buf', p) \<Longrightarrow> length buf' \<le> length buf \<and> (r = Success \<longrightarrow> 0 < n \<longrightarrow> length buf' < length buf)"
  by (induction cs buf n rule: read_size.induct)
    (auto simp: Let_def dest!: read_last_length read_data_shorter split: if_splits)

lemma dechunk_length:
  assumes "dechunk cs buf n = (r, cs', buf', p)"
  shows "length buf' \<le> length buf \<and> (r = Success \<longrightarrow> 0 < n \<longrightarrow> length buf' < length buf)"
  using assms
  by (auto simp: dechunk_def dest!: read_last_length read_data_shorter read_size_length next_line_length
      split: if_splits option.splits)

lemma ctx_loop_length:
  "ctx_loop n c net = (r, c', net') \<Longrightarrow>
   length (dc_buf c') + length (concat net') \<le> length (dc_buf c) + length (concat net) \<and>
   (0 < n \<longrightarrow> (\<exists>p. r = Piece p) \<longrightarrow> length (dc_buf c') + length (concat net') < length (dc_buf c) + length (concat net))"
proof (induction n c net rule: ctx_loop.induct)
  case (1 n c net)
  obtain q cs buf piece where d: "dechunk (dc_chunk c) (dc_buf c) n = (q, cs, buf, piece)" by (metis prod_cases4)
  note len = dechunk_length [OF d]
  note unfold = 1(3) [unfolded ctx_loop.simps [of n c net] d prod.case Let_def]
  show ?case
  proof (cases q)
    case Success
    with unfold len show ?thesis by (auto split: if_splits)
  next
    case Trailer
    from unfold have "ctx_loop n (add_trailer piece (c\<lparr>dc_chunk := cs, dc_buf := buf\<rparr>)) net = (r, c', net')"
      by (simp add: Trailer)
    from 1(2) [OF d [symmetric] refl refl refl Trailer this] len show ?thesis by auto
  next
    case Continue
    show ?thesis
    proof (cases "read_from_net (c\<lparr>dc_chunk := cs, dc_buf := buf\<rparr>) net")
      case None
      with unfold len Continue show ?thesis by (cases net) auto
    next
      case (Some a)
      obtain c'' net'' where a: "a = (c'', net'')" by (cases a)
      from unfold Some a Continue have "ctx_loop n c'' net'' = (r, c', net')" by simp
      from 1(1) [OF d [symmetric] refl refl refl Continue Some [unfolded a] refl this] len Some a
      show ?thesis by (cases net) (auto split: if_splits)
    qed
  qed (use unfold len in auto)
qed

lemma ctx_read_length:
  assumes "ctx_read n c net = (Piece p, c', net')" "0 < n"
  shows "length (dc_buf c') + length (concat net') < length (dc_buf c) + length (concat net)"
  using assms ctx_loop_length
  by (cases net) (fastforce simp: ctx_read_def split: if_splits option.splits)+

text \<open>\<^verbatim>\<open>skip_post\<close>, by the decoder or by the length that is left; \<open>None\<close> is a failed assertion of the decoder.\<close>

function skip_chunks :: "dechunk_context \<Rightarrow> byte list list \<Rightarrow> (bool \<times> dechunk_context \<times> byte list list) option" where
  "skip_chunks d net = (case ctx_read 4096 d net of
       (Piece p, d', net') \<Rightarrow> skip_chunks d' net'
     | (Read_End, d', net') \<Rightarrow> Some (True, d', net')
     | (Read_Error, d', net') \<Rightarrow> Some (False, d', net')
     | (Read_Aborted, d', net') \<Rightarrow> None)"
  by pat_completeness auto
termination
  by (relation "measure (\<lambda>(d, net). length (dc_buf d) + length (concat net))") (auto dest: ctx_read_length [OF sym])

function skip_declared :: "byte list list \<Rightarrow> 'c http_sink \<Rightarrow> (bool \<times> byte list list \<times> 'c http_sink) option" where
  "skip_declared net s = (
     let left = left_read (ks_rq s) in
     if left \<le> 0 then Some (True, net, s)
     else case internal_read (nat (min 4096 left)) net s of
       None \<Rightarrow> None
     | Some (r, net, s) \<Rightarrow>
       (case r of
          Some (c # p) \<Rightarrow> skip_declared net (s\<lparr>ks_rq := (ks_rq s)\<lparr>left_read := left - int (length (c # p))\<rparr>\<rparr>)
        | _ \<Rightarrow> Some (False, net, s)))"
  by pat_completeness auto
termination
  by (relation "measure (\<lambda>(net, s). nat (left_read (ks_rq s)))") auto

declare skip_chunks.simps [simp del] skip_declared.simps [simp del]

definition skip_post :: "byte list list \<Rightarrow> 'c http_sink \<Rightarrow> (bool \<times> byte list list \<times> 'c http_sink) option" where
  "skip_post net s = (case ks_dechunk s of
       Some d \<Rightarrow>
         (case skip_chunks d net of
            None \<Rightarrow> None
          | Some (ok, d', net') \<Rightarrow>
            Some (ok, net', s\<lparr>ks_dechunk := Some d', ks_rq := (if ok then (ks_rq s)\<lparr>left_read := 0\<rparr> else ks_rq s)\<rparr>))
     | None \<Rightarrow> skip_declared net s)"

section \<open>From one request to the next\<close>

text \<open>
  \<^verbatim>\<open>reset_pipeline\<close>: the plain data are zeroed, so the flags, the length left, range and precondition and
  what was counted of the response; the version, the method, the URL and the headers stay for now.
\<close>

definition reset_pipeline :: "'c http_sink \<Rightarrow> 'c http_sink" where
  "reset_pipeline s = s\<lparr>ks_url := None,
     ks_rq := (ks_rq s)\<lparr>rq_flags := 0, left_read := 0, rq_range := None, rq_precondition := No_Precondition\<rparr>,
     ks_resp := (ks_resp s)\<lparr>h_send_size := 0, h_status := 0\<rparr>\<rparr>"

definition start_pipe_line :: "byte list list \<Rightarrow> 'c http_sink \<Rightarrow> (bool \<times> byte list list \<times> 'c http_sink) option" where
  "start_pipe_line net s = (
     let rq = ks_rq s in
     if rq_has (RQ_CONNECTION_CLOSE OR RQ_CONNECTION_UPGRADE) rq \<or> \<not> rq_has RQ_HAS_KEEP_CONNECTION rq then Some (False, net, s)
     else if h_rc (ks_resp s) \<noteq> [] then None
     else case (if left_read rq \<noteq> 0 \<and> \<not> rq_has RQ_HAVE_EXPECT rq then skip_post net s else Some (True, net, s)) of
       None \<Rightarrow> None
     | Some (ok, net, s) \<Rightarrow> if ok then Some (True, net, reset_pipeline s) else Some (False, net, s))"

text \<open>
  \<^verbatim>\<open>begin_request\<close> of the sink, before the first octet of the next request is parsed. \<^verbatim>\<open>KUrl::clean\<close> clears the
  flags and the encodings with the strings, but not the port.
\<close>

definition begin_request :: "'c http_sink \<Rightarrow> 'c http_sink" where
  "begin_request s = s\<lparr>ks_rq := (ks_rq s)\<lparr>raw_url := url0\<lparr>u_port := u_port (raw_url (ks_rq s))\<rparr>, accept_encoding := 0, rq_headers := [], meth := 0\<rparr>\<rparr>"

definition save_point :: "'c http_sink \<Rightarrow> 'c http_sink" where
  "save_point s = s\<lparr>ks_used := 0\<rparr>"

text \<open>
  What is left behind the request is the start of the next one: the buffer of the decoder, in a block whose
  size \<open>room\<close> the I/O library chose, or the rest of the sink's own; if there is nothing, a new buffer is read.
  \<open>None\<close> ends the connection.
\<close>

definition new_buffer :: "byte list list \<Rightarrow> 'c http_sink \<Rightarrow> (byte list list \<times> 'c http_sink) option" where
  "new_buffer net s = (case net_read (ks_size s) net of
       (Some (c # p), net') \<Rightarrow> Some (net', (begin_request s)\<lparr>ks_buf := c # p, ks_used := 0\<rparr>)
     | _ \<Rightarrow> None)"

definition next_head :: "nat \<Rightarrow> byte list list \<Rightarrow> 'c http_sink \<Rightarrow> (byte list list \<times> 'c http_sink) option" where
  "next_head room net s = (case ks_dechunk s of
       Some d \<Rightarrow>
         if dc_buf d \<noteq> [] then
           Some (net, (begin_request s)\<lparr>ks_buf := dc_buf d, ks_used := 0, ks_size := max room (length (dc_buf d)), ks_dechunk := None\<rparr>)
         else new_buffer net (s\<lparr>ks_dechunk := None\<rparr>)
     | None \<Rightarrow> if ks_buf s \<noteq> [] then Some (net, save_point (begin_request s)) else new_buffer net s)"

section \<open>The head\<close>

text \<open>
  \<^verbatim>\<open>KHttpSink::parse\<close> on the buffer. A chunked body gets its decoder, with what is left of the buffer.
\<close>

definition parse_buffer :: "head_config \<times> byte \<Rightarrow> khttp_parser \<Rightarrow> 'c http_sink \<Rightarrow> head_result \<times> khttp_parser \<times> 'c http_sink" where
  "parse_buffer cfg parser s = (case sink_parse (fst cfg) parser (ks_buf s) (snd cfg) (ks_rq s) of
     (r, parser, buf, rq) \<Rightarrow>
       let s = s\<lparr>ks_rq := rq, ks_buf := buf, ks_used := ks_used s + (length (ks_buf s) - length buf)\<rparr> in
       (r, parser,
        if r = Head_Finished \<and> rq_has RQ_INPUT_CHUNKED rq then
          s\<lparr>ks_dechunk := Some \<lparr>dc_chunk = KHTTPD_CHUNK_STATUS_READ_SIZE, dc_buf = buf, dc_trailer = []\<rparr>\<rparr>
        else s))"

text \<open>One read into the buffer; \<open>False\<close> if nothing came.\<close>

definition read_more :: "byte list list \<Rightarrow> 'c http_sink \<Rightarrow> (bool \<times> byte list list \<times> 'c http_sink) option" where
  "read_more net s = (case get_read_buffer s of
       None \<Rightarrow> None
     | Some (len, s) \<Rightarrow>
         (case net_read len net of
            (Some (c # p), net') \<Rightarrow> Some (True, net', s\<lparr>ks_buf := ks_buf s @ c # p\<rparr>)
          | (_, net') \<Rightarrow> Some (False, net', s)))"

lemma read_more_shorter: "read_more net s = Some (True, net', s') \<Longrightarrow> length (concat net') < length (concat net)"
  by (auto simp: read_more_def net_read_def split: option.splits list.splits if_splits prod.splits)

text \<open>
  The loop that reads and parses until the head is complete. \<open>env\<close> gives for every call of the parser the
  settings, whether the time is up and the octet behind the buffer.
\<close>

function head_loop ::
  "(nat \<Rightarrow> head_config \<times> byte) \<Rightarrow> nat \<Rightarrow> khttp_parser \<Rightarrow> byte list list \<Rightarrow> 'c http_sink \<Rightarrow> (head_result \<times> nat \<times> byte list list \<times> 'c http_sink) option" where
  "head_loop env t parser net s = (case parse_buffer (env t) parser s of
     (r, parser, s) \<Rightarrow>
       if r \<noteq> Head_Continue then Some (r, t + 1, net, s)
       else (case read_more net s of
         None \<Rightarrow> None
       | Some (arrived, net', s) \<Rightarrow> if arrived then head_loop env (t + 1) parser net' s else Some (Head_Continue, t + 1, net', s)))"
  by pat_completeness auto
termination
  by (relation "measure (\<lambda>(env, t, parser, net, s). length (concat net))") (auto dest: read_more_shorter)

declare head_loop.simps [simp del]

section \<open>The connection\<close>

text \<open>The reads of the application, one after the other, until one gives nothing: the end, or an error.\<close>

fun sink_reads ::
  "'c writev \<Rightarrow> byte list option \<Rightarrow> nat list \<Rightarrow> byte list list \<Rightarrow> 'c http_sink \<Rightarrow> (byte list option list \<times> byte list list \<times> 'c http_sink) option" where
  "sink_reads writev altsvc [] net s = Some ([], net, s)"
| "sink_reads writev altsvc (n # ns) net s = (case sink_read writev altsvc n net s of
       None \<Rightarrow> None
     | Some (r, net, s) \<Rightarrow>
         if r = None \<or> r = Some [] then Some ([r], net, s)
         else map_option (\<lambda>(rs, x). (r # rs, x)) (sink_reads writev altsvc ns net s))"

definition data_read :: "byte list option list \<Rightarrow> byte list" where
  "data_read rs = concat (map (\<lambda>r. case r of None \<Rightarrow> [] | Some p \<Rightarrow> p) rs)"

text \<open>
  \<^verbatim>\<open>KSink::begin_request\<close>: the URL the application sees, its path decoded, or \<open>None\<close> without a host.
\<close>

definition request_url :: "kgl_url \<Rightarrow> kgl_url option" where
  "request_url raw = (if u_host raw = None then None
     else Some (case u_path raw of
         None \<Rightarrow> raw
       | Some path \<Rightarrow> (case url_decode False path of (p, decoded) \<Rightarrow>
           raw\<lparr>u_path := Some p, u_flags := (if decoded then u_flags raw OR KGL_URL_ENCODE else u_flags raw)\<rparr>)))"

text \<open>
  \<^verbatim>\<open>khttp_server_new_request\<close>: the application reads with buffers of the sizes \<open>plan\<close> gives for the request and
  answers, by \<open>respond\<close>, what it read. The log has the request, the URL and the data. A request without a host
  never gets there.
\<close>

type_synonym 'c application = "(request \<Rightarrow> nat list) \<times> (request \<Rightarrow> byte list \<Rightarrow> 'c h1_sink \<Rightarrow> 'c h1_sink)"

definition khttp_server_new_request ::
  "'c writev \<Rightarrow> byte list option \<Rightarrow> 'c application \<Rightarrow> byte list list \<Rightarrow> 'c http_sink \<Rightarrow>
   ((request \<times> kgl_url \<times> byte list) list \<times> byte list list \<times> 'c http_sink) option" where
  "khttp_server_new_request writev altsvc app net s = (
     let rq = ks_rq s in
     if ks_url s \<noteq> None then None
     else case request_url (raw_url rq) of
       None \<Rightarrow> Some ([], net, s\<lparr>ks_rq := set_flag RQ_CONNECTION_CLOSE rq\<rparr>)
     | Some url \<Rightarrow>
         (case sink_reads writev altsvc (fst app rq) net (s\<lparr>ks_url := Some url\<rparr>) of
            None \<Rightarrow> None
          | Some (rs, net, s) \<Rightarrow>
              let k = snd app rq (data_read rs) (to_response (ks_rq s) (ks_resp s)) in
              Some ([(rq, url, data_read rs)], net, s\<lparr>ks_resp := k, ks_rq := (ks_rq s)\<lparr>rq_flags := h_flags k\<rparr>\<rparr>)))"

record 'c server_env =
  e_parse :: "nat \<Rightarrow> head_config \<times> byte"
  e_size :: "nat \<Rightarrow> nat"
  e_altsvc :: "byte list option"
  e_writev :: "'c writev"

partial_function (option) serve ::
  "'c server_env \<Rightarrow> 'c application \<Rightarrow> nat \<Rightarrow> byte list list \<Rightarrow> 'c http_sink \<Rightarrow>
   ((request \<times> kgl_url \<times> byte list) list \<times> byte list list \<times> 'c http_sink) option" where
  "serve env app t net s = (case head_loop (e_parse env) t parser0 net s of
       None \<Rightarrow> None
     | Some (r, t, net, s) \<Rightarrow>
         if r = Head_Undef then None
         else if r \<noteq> Head_Finished then Some ([], net, s)
         else (case khttp_server_new_request (e_writev env) (e_altsvc env) app net s of
           None \<Rightarrow> None
         | Some (entry, net, s) \<Rightarrow>
             (case start_pipe_line net s of
                None \<Rightarrow> None
              | Some (ok, net, s) \<Rightarrow>
                  if \<not> ok then Some (entry, net, s)
                  else (case next_head (e_size env t) net s of
                    None \<Rightarrow> Some (entry, net, s)
                  | Some (net, s) \<Rightarrow>
                      Option.bind (serve env app t net s) (\<lambda>(log, x). Some (entry @ log, x))))))"

text \<open>\<^verbatim>\<open>KHttpSink::start\<close>.\<close>

definition http_sink_start ::
  "'c server_env \<Rightarrow> 'c application \<Rightarrow> byte list list \<Rightarrow> 'c http_sink \<Rightarrow>
   ((request \<times> kgl_url \<times> byte list) list \<times> byte list list \<times> 'c http_sink) option" where
  "http_sink_start env app net s = (case read_more net s of
       None \<Rightarrow> None
     | Some (arrived, net, s) \<Rightarrow> if arrived then serve env app 0 net s else Some ([], net, s))"

section \<open>Heads, however they arrive\<close>

lemma khttp_parse_length: "khttp_parse parser s after = (r, parser', s', rs) \<Longrightarrow> length s' \<le> length s"
proof (induction parser s after rule: khttp_parse.induct)
  case (1 parser s after)
  show ?case
  proof (cases "memchr s 10")
    case None
    with 1(2) show ?thesis by (subst (asm) khttp_parse.simps) auto
  next
    case (Some pn)
    then have pn: "pn < length s" by (auto simp: first_pos_Some)
    show ?thesis
    proof (cases "s ! 0 = 10 \<or> s ! 0 = 13")
      case True
      let ?p = "parser\<lparr>header_len := header_len parser + int (pn + 1)\<rparr>"
      show ?thesis
      proof (cases "started parser")
        case False
        then have "khttp_parse ?p (drop (pn + 1) s) after = (r, parser', s', rs)"
          using 1(2) True Some by (subst (asm) (1) khttp_parse.simps) (simp add: Let_def)
        then have "length s' \<le> length (drop (pn + 1) s)"
          using 1(1) [OF Some True refl refl] False by simp
        then show ?thesis by simp
      next
        case started: True
        with 1(2) True Some pn show ?thesis by (subst (asm) khttp_parse.simps) (auto simp: Let_def)
      qed
    next
      case False
      let ?f = "if started parser then (if pn + 1 = length s then (None, s) else fold_lines s after pn) else (Some pn, s)"
      obtain q t where f: "?f = (q, t)" by (cases ?f)
      have len: "length t = length s"
        using f fold_lines_bounds [of s after pn q t] pn by (auto split: if_splits)
      have "khttp_parse parser s after = (case (q, t) of
          (None, s) \<Rightarrow> (kgl_parse_continue, parser, s, rs0)
        | (Some pn, s) \<Rightarrow>
               let line = take (if pn + 1 > 3 \<and> s ! (pn - 1) = 13 then pn - 1 else pn) s;
                   rs = rs0\<lparr>rs_is_first := \<not> started parser\<rparr>;
                   parser = parser\<lparr>header_len := header_len parser + int (pn + 1), started := True\<rparr>;
                   (r, rs) = khttp_parse_header parser line rs
               in (r, parser, drop (pn + 1) s, rs))"
        using Some False f by (subst khttp_parse.simps) (simp only: option.case if_False f)
      with 1(2) len show ?thesis by (cases q) (auto simp: Let_def split: prod.split_asm)
    qed
  qed
qed

lemma sink_parse_length: "sink_parse cfg parser s after rq = (r, parser', s', rq') \<Longrightarrow> length s' \<le> length s"
proof (induction cfg parser s after rq rule: sink_parse.induct)
  case (1 cfg parser s after rq)
  obtain q p t rs where k: "khttp_parse parser s after = (q, p, t, rs)" by (metis prod_cases4)
  note len = khttp_parse_length [OF k]
  show ?case
  proof (cases "q = kgl_parse_success")
    case True
    show ?thesis
    proof (cases "parse_header (hc_ssl cfg) (rs_attr rs) (rs_val rs) (rs_is_first rs) rq")
      case None
      with 1(2) k True len show ?thesis by (subst (asm) sink_parse.simps) simp
    next
      case (Some a)
      obtain ok rq1 where a: "a = (ok, rq1)" by (cases a)
      show ?thesis
      proof (cases "ok \<and> \<not> (rs_is_first rs \<and> meth rq1 = METH_PRI \<and> hc_server_h2 cfg)")
        case False
        with 1(2) k True Some a len show ?thesis by (subst (asm) sink_parse.simps) (auto split: if_splits)
      next
        case go: True
        with go 1(2) k True Some a have "sink_parse cfg p t after rq1 = (r, parser', s', rq')"
          by (subst (asm) sink_parse.simps) auto
        from 1(1) [OF k [symmetric] refl refl _ True Some [unfolded a] refl _ _ this] go True len show ?thesis by simp
      qed
    qed
  next
    case False
    with 1(2) k len show ?thesis by (subst (asm) sink_parse.simps) (auto split: if_splits)
  qed
qed

text \<open>\<^verbatim>\<open>parse_header\<close> as the callback that a client has for the lines of a head.\<close>

definition request_cb :: "head_config \<Rightarrow> request header_callback" where
  "request_cb cfg attr val is_first rq = (case parse_header (hc_ssl cfg) attr val is_first rq of
       None \<Rightarrow> (False, rq)
     | Some (ok, rq') \<Rightarrow> (ok \<and> \<not> (is_first \<and> meth rq' = METH_PRI \<and> hc_server_h2 cfg), rq'))"

lemma sink_parse_lines:
  assumes "\<not> hc_timed_out cfg"
  shows "(\<forall>s' rq'. read_lines (request_cb cfg) False after parser s rq = Read_Done s' rq' \<longrightarrow>
      (\<exists>p. sink_parse cfg parser s after rq = (Head_Finished, p, s', rq'))) \<and>
    (\<forall>p s' rq'. read_lines (request_cb cfg) False after parser s rq = Read_More p s' rq' \<longrightarrow>
      sink_parse cfg parser s after rq = (Head_Continue, p, s', rq'))"
  using assms
proof (induction cfg parser s after rq rule: sink_parse.induct)
  case (1 cfg parser s after rq)
  obtain q p t rs where k: "khttp_parse parser s after = (q, p, t, rs)" by (metis prod_cases4)
  show ?case
  proof (cases "q = kgl_parse_success")
    case True
    show ?thesis
    proof (cases "parse_header (hc_ssl cfg) (rs_attr rs) (rs_val rs) (rs_is_first rs) rq")
      case None
      with k True show ?thesis by (subst (1 2) read_lines.simps) (simp add: request_cb_def)
    next
      case (Some a)
      obtain ok rq1 where a: "a = (ok, rq1)" by (cases a)
      show ?thesis
      proof (cases "ok \<and> \<not> (rs_is_first rs \<and> meth rq1 = METH_PRI \<and> hc_server_h2 cfg)")
        case False
        with k True Some a show ?thesis by (subst (1 2) read_lines.simps) (auto simp: request_cb_def)
      next
        case go: True
        from 1(1) [OF k [symmetric] refl refl _ True Some [unfolded a] refl _ _ 1(2)] go True
        have IH: "(\<forall>s' rq'. read_lines (request_cb cfg) False after p t rq1 = Read_Done s' rq' \<longrightarrow>
            (\<exists>pp. sink_parse cfg p t after rq1 = (Head_Finished, pp, s', rq'))) \<and>
          (\<forall>pp s' rq'. read_lines (request_cb cfg) False after p t rq1 = Read_More pp s' rq' \<longrightarrow>
            sink_parse cfg p t after rq1 = (Head_Continue, pp, s', rq'))" by simp
        have "read_lines (request_cb cfg) False after parser s rq = read_lines (request_cb cfg) False after p t rq1"
          using k True Some a go by (subst read_lines.simps) (simp add: request_cb_def)
        moreover have "sink_parse cfg parser s after rq = sink_parse cfg p t after rq1"
          using k True Some a go by (subst sink_parse.simps) auto
        ultimately show ?thesis using IH by simp
      qed
    qed
  next
    case False
    with k 1(2) show ?thesis by (subst (1 2) read_lines.simps, subst (1 2) sink_parse.simps) auto
  qed
qed

text \<open>
  A head of which the octets \<open>buf\<close> are in the buffer and \<open>more\<close> are to come, with \<open>rest\<close> behind it: it makes the
  request \<open>rq2\<close>.
\<close>

definition head_starts :: "head_config \<Rightarrow> byte list \<Rightarrow> byte list \<Rightarrow> (byte list \<times> byte list) list \<Rightarrow> request \<Rightarrow> request \<Rightarrow> bool" where
  "head_starts cfg m t hs rq rq2 \<longleftrightarrow> name_ok m \<and> value_ok t \<and> t \<noteq> [] \<and> (\<forall>h \<in> set hs. name_ok (fst h) \<and> value_ok (snd h)) \<and>
     int (length m + length t + 3 + length (head_text hs)) \<le> MAX_HTTP_HEAD_SIZE \<and>
     (case request_cb cfg m t True rq of (ok, rq1) \<Rightarrow> ok \<and> feed (request_cb cfg) hs rq1 = Some rq2)"

definition head_coming :: "head_config \<Rightarrow> khttp_parser \<Rightarrow> request \<Rightarrow> byte list \<Rightarrow> byte list \<Rightarrow> request \<Rightarrow> bool" where
  "head_coming cfg parser rq octets rest rq2 \<longleftrightarrow>
     (\<exists>m t hs. parser = parser0 \<and> head_starts cfg m t hs rq rq2 \<and> octets = m @ 32 # t @ 13 # 10 # head_text hs @ rest) \<or>
     (\<exists>hs. started parser \<and> first_same parser = False \<and> (\<forall>h \<in> set hs. name_ok (fst h) \<and> value_ok (snd h)) \<and>
        feed (request_cb cfg) hs rq = Some rq2 \<and> octets = head_text hs @ rest \<and>
        header_len parser + int (length (head_text hs)) \<le> MAX_HTTP_HEAD_SIZE)"

lemma head_text_length: "2 \<le> length (head_text hs)"
  by (induction hs rule: head_text.induct) auto

lemma fields_coming:
  assumes "started parser" "first_same parser = False" "\<forall>h \<in> set hs. name_ok (fst h) \<and> value_ok (snd h)"
    and "feed (request_cb cfg) hs rq = Some rq2" "buf @ u = head_text hs @ rest"
    and "header_len parser + int (length (head_text hs)) \<le> MAX_HTTP_HEAD_SIZE"
  shows "(\<exists>buf'. read_lines (request_cb cfg) False after parser buf rq = Read_Done buf' rq2 \<and> buf' @ u = rest) \<or>
    (\<exists>p buf' rq'. read_lines (request_cb cfg) False after parser buf rq = Read_More p buf' rq' \<and> u \<noteq> [] \<and>
       head_coming cfg p rq' (buf' @ u) rest rq2)"
  using read_lines_fields [OF assms, of after]
proof (elim disjE exE conjE)
  fix hs2 p s2 st2
  assume more: "read_lines (request_cb cfg) False after parser buf rq = Read_More p s2 st2"
    and inv: "started p" "first_same p = False" "set hs2 \<subseteq> set hs" "feed (request_cb cfg) hs2 st2 = Some rq2"
      "s2 @ u = head_text hs2 @ rest" "header_len p + int (length (head_text hs2)) \<le> MAX_HTTP_HEAD_SIZE"
      "length s2 < length (head_text hs2)"
  have "head_coming cfg p st2 (s2 @ u) rest rq2"
    unfolding head_coming_def using inv assms(3) by (intro disjI2 exI [of _ hs2]) auto
  moreover have "u \<noteq> []" using inv(5,7) by (cases u) auto
  ultimately show ?thesis using more by blast
qed blast

lemma head_coming_step:
  assumes "head_coming cfg parser rq (buf @ u) rest rq2"
  shows "(\<exists>buf'. read_lines (request_cb cfg) False after parser buf rq = Read_Done buf' rq2 \<and> buf' @ u = rest) \<or>
    (\<exists>p buf' rq'. read_lines (request_cb cfg) False after parser buf rq = Read_More p buf' rq' \<and> u \<noteq> [] \<and>
       head_coming cfg p rq' (buf' @ u) rest rq2)"
  using assms unfolding head_coming_def [of cfg parser]
proof (elim disjE exE conjE)
  fix m t hs
  assume parser: "parser = parser0" and head: "head_starts cfg m t hs rq rq2"
    and octets: "buf @ u = m @ 32 # t @ 13 # 10 # head_text hs @ rest"
  obtain rq1 where ok: "name_ok m" "value_ok t" "t \<noteq> []" "\<forall>h \<in> set hs. name_ok (fst h) \<and> value_ok (snd h)"
    "int (length m + length t + 3 + length (head_text hs)) \<le> MAX_HTTP_HEAD_SIZE"
    "request_cb cfg m t True rq = (True, rq1)" "feed (request_cb cfg) hs rq1 = Some rq2"
    using head by (auto simp: head_starts_def split: prod.split_asm)
  let ?L = "m @ 32 # t"
  let ?p = "parser0\<lparr>header_len := header_len parser0 + int (length ?L + 2), started := True\<rparr>"
  let ?rs = "rs0\<lparr>rs_is_first := True, rs_request_line := True, rs_attr := m, rs_val := t\<rparr>"
  have L: "10 \<notin> set ?L" "2 \<le> length ?L" "?L ! 0 \<noteq> 13"
    using ok(1-3) by (auto simp: name_ok_def value_ok_def nth_append Suc_le_eq)
  have f: "khttp_parse_header ?p ?L (rs0\<lparr>rs_is_first := \<not> started parser0\<rparr>) = (kgl_parse_success, ?rs)"
    using parse_name_value [OF ok(1,2), of 32 "rs0\<lparr>rs_is_first := True\<rparr>" ?p] by (simp add: rs0_def parser0_def)
  have s: "buf @ u = ?L @ 13 # 10 # (head_text hs @ rest)" using octets by simp
  consider "khttp_parse parser0 buf after = (kgl_parse_continue, parser0, buf, rs0)" "length buf < length ?L + 3"
    | buf' where "buf' @ u = head_text hs @ rest" "khttp_parse parser0 buf after = (kgl_parse_success, ?p, buf', ?rs)"
    using khttp_parse_prefix [OF s L _ f, of after] by (auto simp: parser0_def)
  then show ?thesis
  proof cases
    case 1
    then have "read_lines (request_cb cfg) False after parser0 buf rq = Read_More parser0 buf rq"
      by (subst read_lines.simps) (simp add: parser0_def MAX_HTTP_HEAD_SIZE_def)
    moreover have "u \<noteq> []" using octets 1(2) head_text_length [of hs] by (cases u) auto
    ultimately show ?thesis using assms parser by blast
  next
    case 2
    then have "read_lines (request_cb cfg) False after parser0 buf rq = read_lines (request_cb cfg) False after ?p buf' rq1"
      using ok(6) by (subst read_lines.simps) (simp add: rs0_def)
    moreover have "header_len ?p + int (length (head_text hs)) \<le> MAX_HTTP_HEAD_SIZE" using ok(5) by (simp add: parser0_def)
    ultimately show ?thesis
      using fields_coming [OF _ _ ok(4,7) 2(1), of ?p after] parser by (simp add: parser0_def)
  qed
next
  fix hs
  assume "started parser" "first_same parser = False" "\<forall>h \<in> set hs. name_ok (fst h) \<and> value_ok (snd h)"
    "feed (request_cb cfg) hs rq = Some rq2" "buf @ u = head_text hs @ rest"
    "header_len parser + int (length (head_text hs)) \<le> MAX_HTTP_HEAD_SIZE"
  then show ?thesis by (rule fields_coming)
qed

text \<open>The buffer has room for what is in it.\<close>

definition buffer_ok :: "'c http_sink \<Rightarrow> bool" where
  "buffer_ok s \<longleftrightarrow> ks_used s + length (ks_buf s) \<le> ks_size s \<and> 0 < ks_size s"

lemma parse_buffer_length:
  assumes "parse_buffer cfg parser s = (r, p, s')" "buffer_ok s"
  shows "buffer_ok s' \<and> ks_url s' = ks_url s \<and> ks_resp s' = ks_resp s"
  using assms
  by (auto simp: parse_buffer_def Let_def buffer_ok_def dest!: sink_parse_length split: prod.split_asm if_splits)

lemma net_read_some:
  assumes "0 < len" "[] \<notin> set net" "concat net \<noteq> []"
  obtains c p net' where "net_read len net = (Some (c # p), net')" "concat net = (c # p) @ concat net'" "[] \<notin> set net'"
    "length (c # p) \<le> len"
proof -
  obtain r net1 where net: "net = r # net1" "r \<noteq> []" using assms(2,3) by (cases net) auto
  show ?thesis
  proof (cases "length r \<le> len")
    case True
    with net assms show ?thesis by (intro that [of "hd r" "tl r" net1]) (auto simp: net_read_def)
  next
    case False
    obtain c q where r: "r = c # q" using net(2) by (cases r) auto
    have "take len r = c # take (len - 1) q" using assms(1) r by (cases len) auto
    with net assms False r show ?thesis
      by (intro that [of c "take (len - 1) q" "drop len r # net1"]) (auto simp: net_read_def drop_Cons')
  qed
qed

lemma read_more_some:
  assumes "buffer_ok s" "[] \<notin> set net" "concat net \<noteq> []"
  obtains p net' s' where "read_more net s = Some (True, net', s')" "concat net = p @ concat net'" "[] \<notin> set net'"
    "ks_buf s' = ks_buf s @ p" "buffer_ok s'" "ks_rq s' = ks_rq s" "ks_url s' = ks_url s" "ks_resp s' = ks_resp s" "ks_dechunk s' = ks_dechunk s"
proof -
  obtain len s1 where g: "get_read_buffer s = Some (len, s1)" "0 < len" "ks_used s1 + length (ks_buf s1) + len \<le> ks_size s1"
    "ks_rq s1 = ks_rq s" "ks_url s1 = ks_url s" "ks_resp s1 = ks_resp s" "ks_dechunk s1 = ks_dechunk s" "ks_buf s1 = ks_buf s"
  proof (cases "ks_used s + length (ks_buf s) < ks_size s")
    case True
    then show ?thesis
      by (intro that [of "ks_size s - (ks_used s + length (ks_buf s))" s]) (simp_all add: get_read_buffer_def Let_def)
  next
    case False
    then show ?thesis
      using assms(1) by (intro that [of "ks_size s * 2 - (ks_used s + length (ks_buf s))" "s\<lparr>ks_size := ks_size s * 2\<rparr>"])
        (simp_all add: get_read_buffer_def buffer_ok_def Let_def)
  qed
  obtain c p net' where "net_read len net = (Some (c # p), net')" "concat net = (c # p) @ concat net'" "[] \<notin> set net'"
    "length (c # p) \<le> len" by (rule net_read_some [OF g(2) assms(2,3)])
  with g show ?thesis
    by (intro that [of net' "s1\<lparr>ks_buf := ks_buf s1 @ c # p\<rparr>" "c # p"]) (auto simp: read_more_def buffer_ok_def)
qed

lemma head_loop_head:
  assumes "\<And>t. fst (env t) = cfg" "\<not> hc_timed_out cfg"
    and "head_coming cfg parser (ks_rq s) (ks_buf s @ concat net) rest rq2" "buffer_ok s" "[] \<notin> set net" "ks_dechunk s = None"
  shows "\<exists>t' net' s'. head_loop env t parser net s = Some (Head_Finished, t', net', s') \<and> ks_rq s' = rq2 \<and> ks_buf s' @ concat net' = rest \<and>
    buffer_ok s' \<and> [] \<notin> set net' \<and> ks_url s' = ks_url s \<and> ks_resp s' = ks_resp s \<and>
    ks_dechunk s' = (if rq_has RQ_INPUT_CHUNKED rq2
      then Some \<lparr>dc_chunk = KHTTPD_CHUNK_STATUS_READ_SIZE, dc_buf = ks_buf s', dc_trailer = []\<rparr> else None)"
  using assms
proof (induction env t parser net s rule: head_loop.induct)
  case (1 env t parser net s)
  obtain after where env: "env t = (cfg, after)" using 1(2) by (metis prod.collapse)
  show ?case
    using head_coming_step [OF 1(4), of after]
  proof (elim disjE exE conjE)
    fix buf' assume "read_lines (request_cb cfg) False after parser (ks_buf s) (ks_rq s) = Read_Done buf' rq2"
      and rest: "buf' @ concat net = rest"
    then obtain p where p: "sink_parse cfg parser (ks_buf s) after (ks_rq s) = (Head_Finished, p, buf', rq2)"
      using sink_parse_lines [OF assms(2)] by blast
    obtain s' where s': "parse_buffer (env t) parser s = (Head_Finished, p, s')" by (simp add: parse_buffer_def env p Let_def)
    with parse_buffer_length [OF s' 1(5)] rest 1(6,7) show ?thesis
      by (subst head_loop.simps) (auto simp: parse_buffer_def env p Let_def)
  next
    fix p buf' rq' assume "read_lines (request_cb cfg) False after parser (ks_buf s) (ks_rq s) = Read_More p buf' rq'"
      and to_come: "concat net \<noteq> []" "head_coming cfg p rq' (buf' @ concat net) rest rq2"
    then have p: "sink_parse cfg parser (ks_buf s) after (ks_rq s) = (Head_Continue, p, buf', rq')"
      using sink_parse_lines [OF assms(2)] by blast
    obtain s1 where s1: "parse_buffer (env t) parser s = (Head_Continue, p, s1)" "ks_rq s1 = rq'" "ks_buf s1 = buf'" "ks_dechunk s1 = ks_dechunk s"
      by (simp add: parse_buffer_def env p Let_def)
    note ok = parse_buffer_length [OF s1(1) 1(5)]
    obtain q net' s2 where s2: "read_more net s1 = Some (True, net', s2)" "concat net = q @ concat net'" "[] \<notin> set net'"
      "ks_buf s2 = ks_buf s1 @ q" "buffer_ok s2" "ks_rq s2 = ks_rq s1" "ks_url s2 = ks_url s1" "ks_resp s2 = ks_resp s1" "ks_dechunk s2 = ks_dechunk s1"
      using read_more_some [of s1 net] ok 1(6) to_come(1) by metis
    have "head_coming cfg p (ks_rq s2) (ks_buf s2 @ concat net') rest rq2" using to_come(2) s1 s2 by simp
    from 1(1) [OF s1(1) [symmetric] refl _ s2(1) refl refl TrueI 1(2,3) this s2(5,3)] s1(4) s2(9) 1(7)
    have "\<exists>t' net'' s'. head_loop env (t + 1) p net' s2 = Some (Head_Finished, t', net'', s') \<and> ks_rq s' = rq2 \<and>
      ks_buf s' @ concat net'' = rest \<and> buffer_ok s' \<and> [] \<notin> set net'' \<and> ks_url s' = ks_url s2 \<and> ks_resp s' = ks_resp s2 \<and>
      ks_dechunk s' = (if rq_has RQ_INPUT_CHUNKED rq2
        then Some \<lparr>dc_chunk = KHTTPD_CHUNK_STATUS_READ_SIZE, dc_buf = ks_buf s', dc_trailer = []\<rparr> else None)" by auto
    moreover have "head_loop env t parser net s = head_loop env (t + 1) p net' s2"
      using s1(1) s2(1) by (subst head_loop.simps) simp
    ultimately show ?thesis using s2(7,8) ok by simp
  qed
qed

section \<open>Bodies, however they are read\<close>

text \<open>The octets of the body that are not read yet, and what follows it.\<close>

definition body_left :: "'c http_sink \<Rightarrow> byte list list \<Rightarrow> byte list \<Rightarrow> byte list \<Rightarrow> bool" where
  "body_left s net body rest \<longleftrightarrow> [] \<notin> set net \<and> buffer_ok s \<and> (case ks_dechunk s of
       None \<Rightarrow> left_read (ks_rq s) = int (length body) \<and> ks_buf s @ concat net = body @ rest
     | Some d \<Rightarrow>
         if left_read (ks_rq s) = - 1 then
           chunk_wf (dc_chunk d) \<and> \<not> chunk_over (dc_chunk d) \<and>
           (\<exists>as. ticks (dc_chunk d, []) (dc_buf d @ concat net) = ((KHTTPD_CHUNK_STATUS_IS_END, rest), as) \<and> payload as = body)
         else left_read (ks_rq s) = 0 \<and> dc_chunk d = KHTTPD_CHUNK_STATUS_IS_END \<and> body = [] \<and> dc_buf d @ concat net = rest)"

lemma body_left_none:
  "ks_dechunk s = None \<Longrightarrow> body_left s net body rest \<longleftrightarrow>
    [] \<notin> set net \<and> buffer_ok s \<and> left_read (ks_rq s) = int (length body) \<and> ks_buf s @ concat net = body @ rest"
  by (simp add: body_left_def)

text \<open>What one read of the decoder does to a body that has not ended.\<close>

lemma decoder_read:
  assumes "chunk_wf (dc_chunk d)" "\<not> chunk_over (dc_chunk d)" "[] \<notin> set net" "room_ok n"
    and "ticks (dc_chunk d, []) (dc_buf d @ concat net) = ((KHTTPD_CHUNK_STATUS_IS_END, rest), as)"
    and "ctx_read n d net = (r, d', net')"
  shows "[] \<notin> set net' \<and>
    ((\<exists>p as'. r = Piece p \<and> p \<noteq> [] \<and> payload as = p @ payload as' \<and> chunk_wf (dc_chunk d') \<and> \<not> chunk_over (dc_chunk d') \<and>
        ticks (dc_chunk d', []) (dc_buf d' @ concat net') = ((KHTTPD_CHUNK_STATUS_IS_END, rest), as')) \<or>
     r = Read_End \<and> payload as = [] \<and> dc_chunk d' = KHTTPD_CHUNK_STATUS_IS_END \<and> dc_buf d' @ concat net' = rest)"
proof -
  from ctx_read_ok [OF assms(1,2,4,3,6)]
  have wf: "chunk_wf (dc_chunk d')" "[] \<notin> set net'"
    and ok: "read_ok (dc_chunk d) (dc_buf d @ concat net) r (dc_chunk d') (dc_buf d' @ concat net')" by auto
  show ?thesis
  proof (cases r)
    case (Piece p)
    with ok obtain pre a1 where p: "p \<noteq> []" "\<not> chunk_over (dc_chunk d')"
      "dc_buf d @ concat net = pre @ dc_buf d' @ concat net'"
      "ticks (dc_chunk d, []) pre = ((dc_chunk d', []), a1)" "payload a1 = p" by (auto simp: read_ok_def)
    obtain st a2 where t2: "ticks (dc_chunk d', []) (dc_buf d' @ concat net') = (st, a2)" by (metis surj_pair)
    from ticks_prefix [OF p(4) t2] assms(5) p(3) have "st = (KHTTPD_CHUNK_STATUS_IS_END, rest)" "as = a1 @ a2" by auto
    with t2 p wf Piece show ?thesis by auto
  next
    case Read_End
    with ok assms(5) wf show ?thesis by (auto simp: read_ok_def)
  next
    case Read_Error
    with ok assms(5) show ?thesis by (simp add: read_ok_def)
  next
    case Read_Aborted
    with ok show ?thesis by (simp add: read_ok_def)
  qed
qed

lemma append_split: "p @ x = body @ rest \<Longrightarrow> length p \<le> length body \<Longrightarrow> \<exists>b. body = p @ b \<and> x = b @ rest"
  by (induction p arbitrary: body) (auto simp: Cons_eq_append_conv)

lemma internal_read_declared:
  assumes "ks_dechunk s = None" "[] \<notin> set net" "buffer_ok s" "ks_buf s @ concat net = body @ rest" "0 < len" "len \<le> length body"
  shows "\<exists>c p body' net' b u. internal_read len net s = Some (Some (c # p), net', s\<lparr>ks_buf := b, ks_used := u\<rparr>) \<and> body = (c # p) @ body' \<and>
    b @ concat net' = body' @ rest \<and> [] \<notin> set net' \<and> buffer_ok (s\<lparr>ks_buf := b, ks_used := u\<rparr>)"
proof (cases "ks_buf s")
  case Nil
  have "concat net \<noteq> []" using assms(4-6) Nil by auto
  from net_read_some [OF assms(5,2) this] obtain c p net' where r: "net_read len net = (Some (c # p), net')"
    "concat net = (c # p) @ concat net'" "[] \<notin> set net'" "length (c # p) \<le> len" by blast
  have octets: "(c # p) @ concat net' = body @ rest" using r(2) assms(4) Nil by simp
  have "length (c # p) \<le> length body" using r(4) assms(6) by linarith
  from append_split [OF octets this] obtain body' where "body = (c # p) @ body'" "concat net' = body' @ rest" by blast
  then show ?thesis
    using Nil assms(1,3) r
    by - (rule exI [of _ c], rule exI [of _ p], rule exI [of _ body'], rule exI [of _ net'], rule exI [of _ "[]"], rule exI [of _ "ks_used s"],
      simp add: internal_read_def buffer_ok_def)
next
  case (Cons c b)
  define k where "k = min len (length (ks_buf s))"
  have k: "0 < k" "k \<le> length (ks_buf s)" "k \<le> length body" using assms(5,6) Cons by (auto simp: k_def)
  define q where "q = take k (ks_buf s)"
  have "q = take k body"
    using arg_cong [OF assms(4), of "take k"] k by (simp add: q_def)
  then have body: "body = q @ drop k body" by simp
  have "drop k (ks_buf s) @ concat net = drop k body @ rest"
    using arg_cong [OF assms(4), of "drop k"] k by simp
  moreover have "q = c # take (k - 1) b" using k(1) Cons by (cases k) (auto simp: q_def)
  moreover have "internal_read len net s = Some (Some q, net, s\<lparr>ks_buf := drop k (ks_buf s), ks_used := ks_used s + k\<rparr>)"
    using assms(1) Cons by (simp add: internal_read_def Let_def q_def k_def)
  ultimately show ?thesis
    using body k assms(2,3)
    by - (rule exI [of _ c], rule exI [of _ "take (k - 1) b"], rule exI [of _ "drop k body"], rule exI [of _ net],
        rule exI [of _ "drop k (ks_buf s)"], rule exI [of _ "ks_used s + k"], simp add: buffer_ok_def)
qed

text \<open>Reading changes the length left and one flag of the request.\<close>

definition only_read :: "'c http_sink \<Rightarrow> 'c http_sink \<Rightarrow> bool" where
  "only_read s s' \<longleftrightarrow> ks_resp s' = ks_resp s \<and> ks_url s' = ks_url s \<and>
     ks_rq s' = (ks_rq s)\<lparr>left_read := left_read (ks_rq s'), rq_flags := rq_flags (ks_rq s')\<rparr> \<and>
     rq_flags (ks_rq s') OR RQ_HAS_READ_POST = rq_flags (ks_rq s) OR RQ_HAS_READ_POST"

lemma only_read_refl: "only_read s s"
  by (simp add: only_read_def)

lemma request_updates:
  fixes x :: request
  shows "x1 = x\<lparr>left_read := a, rq_flags := b\<rparr> \<Longrightarrow> x2 = x1\<lparr>left_read := c, rq_flags := d\<rparr> \<Longrightarrow> x2 = x\<lparr>left_read := c, rq_flags := d\<rparr>"
  by simp

lemma only_read_trans:
  assumes "only_read s s1" "only_read s1 s2"
  shows "only_read s s2"
proof -
  have "ks_rq s2 = (ks_rq s)\<lparr>left_read := left_read (ks_rq s2), rq_flags := rq_flags (ks_rq s2)\<rparr>"
    using assms unfolding only_read_def by (blast intro: request_updates)
  with assms show ?thesis by (simp add: only_read_def)
qed

lemma only_read_flag: "only_read s s' \<Longrightarrow> f AND RQ_HAS_READ_POST = 0 \<Longrightarrow> rq_has f (ks_rq s') = rq_has f (ks_rq s)"
proof -
  assume "only_read s s'" "f AND RQ_HAS_READ_POST = 0"
  then have "(rq_flags (ks_rq s') OR RQ_HAS_READ_POST) AND f = (rq_flags (ks_rq s) OR RQ_HAS_READ_POST) AND f"
    by (simp add: only_read_def)
  with \<open>f AND RQ_HAS_READ_POST = 0\<close> show ?thesis
    by (simp add: rq_has_def and_or_apart)
qed

lemma read_post_flag: "rq_has f (set_flag RQ_HAS_READ_POST rq) = rq_has f rq" if "f AND RQ_HAS_READ_POST = 0"
  using that by (simp add: rq_has_def set_flag_def and_or_apart)

lemma set_flag_left [simp]: "left_read (set_flag f rq) = left_read rq"
  by (simp add: set_flag_def)

lemma sink_read_plain:
  assumes "\<not> rq_has RQ_HAVE_EXPECT (ks_rq s)" "\<not> rq_has RQ_CONNECTION_UPGRADE (ks_rq s)"
    and "(if 0 \<le> left_read (ks_rq s) then nat (min (int n) (left_read (ks_rq s))) else n) = len"
    and "internal_read len net (s\<lparr>ks_rq := set_flag RQ_HAS_READ_POST (ks_rq s)\<rparr>) = Some (r, net', s')"
    and "ks_rq s' = set_flag RQ_HAS_READ_POST (ks_rq s)"
  shows "sink_read writev altsvc n net s = (case r of
      None \<Rightarrow> Some (None, net', s')
    | Some p \<Rightarrow>
        if p = [] \<and> left_read (ks_rq s) = - 1 then Some (Some [], net', s'\<lparr>ks_rq := (ks_rq s')\<lparr>left_read := 0\<rparr>\<rparr>)
        else if p \<noteq> [] \<and> left_read (ks_rq s) > 0 then
          (if left_read (ks_rq s) < int (length p) then None
           else Some (Some p, net', s'\<lparr>ks_rq := (ks_rq s')\<lparr>left_read := left_read (ks_rq s) - int (length p)\<rparr>\<rparr>))
        else Some (Some p, net', s'))"
  using assms(1,2,5)
  by (cases r) (simp_all add: sink_read_def Let_def read_post_flag assms(3,4) split del: if_split cong: if_cong)

text \<open>The end of a chunked body was not read yet: behind it the decoder must not be called.\<close>

definition not_ended :: "'c http_sink \<Rightarrow> bool" where
  "not_ended s \<longleftrightarrow> (ks_dechunk s \<noteq> None \<longrightarrow> left_read (ks_rq s) = - 1)"

text \<open>One read of the application.\<close>

lemma sink_read_body:
  assumes "body_left s net body rest" "not_ended s" "room_ok n" "\<not> rq_has RQ_HAVE_EXPECT (ks_rq s)" "\<not> rq_has RQ_CONNECTION_UPGRADE (ks_rq s)"
  shows "\<exists>r net' s' body'. sink_read writev altsvc n net s = Some (r, net', s') \<and> body_left s' net' body' rest \<and>
    body = data_read [r] @ body' \<and> (data_read [r] = [] \<longrightarrow> body = []) \<and> only_read s s' \<and>
    (data_read [r] \<noteq> [] \<longrightarrow> not_ended s')"
proof -
  let ?rq = "set_flag RQ_HAS_READ_POST (ks_rq s)"
  let ?s = "s\<lparr>ks_rq := ?rq\<rparr>"
  have net: "[] \<notin> set net" and buffer: "buffer_ok s" using assms(1) by (simp_all add: body_left_def)
  have only: "only_read s (s\<lparr>ks_dechunk := x, ks_buf := y, ks_used := z, ks_rq := ?rq\<lparr>left_read := m\<rparr>\<rparr>)" for x y z m
    by (simp add: only_read_def set_flag_def or.assoc)
  show ?thesis
  proof (cases "ks_dechunk s")
    case None
    with assms(1) have left: "left_read (ks_rq s) = int (length body)" "ks_buf s @ concat net = body @ rest" by (simp_all add: body_left_none)
    show ?thesis
    proof (cases "body = []")
      case True
      have r: "internal_read 0 net ?s = Some (Some [], net, ?s)"
        using None by (cases "ks_buf s") (simp_all add: internal_read_def net_read_def)
      have "sink_read writev altsvc n net s = Some (Some [], net, ?s)"
        using left True by (subst sink_read_plain [OF assms(4,5) _ r]) simp_all
      then show ?thesis
        using True assms(1) None only_read_refl only [where m = "left_read (ks_rq s)"]
        by (auto simp: body_left_none data_read_def buffer_ok_def only_read_def set_flag_def)
    next
      case False
      let ?len = "min n (length body)"
      have "0 < ?len" "?len \<le> length body" using False room_ok_simps(1) [OF assms(3)] by auto
      from internal_read_declared [OF _ net _ _ this, of ?s rest] None buffer left(2)
      obtain c p body' net' b u where r: "internal_read ?len net ?s = Some (Some (c # p), net', ?s\<lparr>ks_buf := b, ks_used := u\<rparr>)"
        "body = (c # p) @ body'" "b @ concat net' = body' @ rest" "[] \<notin> set net'" "buffer_ok (?s\<lparr>ks_buf := b, ks_used := u\<rparr>)"
        by (auto simp: buffer_ok_def)
      let ?s' = "?s\<lparr>ks_buf := b, ks_used := u, ks_rq := ?rq\<lparr>left_read := int (length body')\<rparr>\<rparr>"
      have len: "(if 0 \<le> left_read (ks_rq s) then nat (min (int n) (left_read (ks_rq s))) else n) = ?len" using left(1) by simp
      have "sink_read writev altsvc n net s = Some (Some (c # p), net', ?s')"
        by (subst sink_read_plain [OF assms(4,5) len r(1)]) (simp_all add: left(1) r(2))
      moreover have "body_left ?s' net' body' rest" using r(3-5) None by (simp add: body_left_none buffer_ok_def)
      moreover have "only_read s ?s'" by (simp add: only_read_def set_flag_def or.assoc)
      moreover have "not_ended ?s'" using None by (simp add: not_ended_def)
      ultimately show ?thesis using r(2) by (auto simp: data_read_def)
    qed
  next
    case (Some d)
    have True: "left_read (ks_rq s) = - 1" using assms(2) Some by (simp add: not_ended_def)
    with assms(1) Some obtain as where d: "chunk_wf (dc_chunk d)" "\<not> chunk_over (dc_chunk d)"
      "ticks (dc_chunk d, []) (dc_buf d @ concat net) = ((KHTTPD_CHUNK_STATUS_IS_END, rest), as)" "payload as = body"
      by (auto simp: body_left_def)
    obtain r d' net' where r: "ctx_read n d net = (r, d', net')" by (metis prod_cases3)
    have ir: "internal_read n net ?s = map_option (\<lambda>q. (q, net', ?s\<lparr>ks_dechunk := Some d'\<rparr>)) (read_value r)"
      using Some r by (simp add: internal_read_def)
    have len: "(if 0 \<le> left_read (ks_rq s) then nat (min (int n) (left_read (ks_rq s))) else n) = n" using True by simp
    note plain = sink_read_plain [OF assms(4,5) len, where writev = writev and altsvc = altsvc and net = net]
    note step = decoder_read [OF d(1,2) net assms(3) d(3) r]
    from step consider (piece) p as' where "r = Piece p" "p \<noteq> []" "body = p @ payload as'" "chunk_wf (dc_chunk d')"
        "\<not> chunk_over (dc_chunk d')" "ticks (dc_chunk d', []) (dc_buf d' @ concat net') = ((KHTTPD_CHUNK_STATUS_IS_END, rest), as')"
      | (ended) "r = Read_End" "body = []" "dc_chunk d' = KHTTPD_CHUNK_STATUS_IS_END" "dc_buf d' @ concat net' = rest"
      using d(4) by auto
    then show ?thesis
    proof cases
      case piece
      let ?s' = "?s\<lparr>ks_dechunk := Some d'\<rparr>"
      have "internal_read n net ?s = Some (Some p, net', ?s')" using ir piece(1) by simp
      from plain [OF this] have "sink_read writev altsvc n net s = Some (Some p, net', ?s')" using piece(2) True by simp
      moreover have "body_left ?s' net' (payload as') rest"
        using piece True step buffer by (auto simp: body_left_def buffer_ok_def)
      moreover have "only_read s ?s'" by (simp add: only_read_def set_flag_def or.assoc)
      moreover have "not_ended ?s'" using True by (simp add: not_ended_def)
      ultimately show ?thesis using piece(2,3) by (auto simp: data_read_def)
    next
      case ended
      let ?s' = "?s\<lparr>ks_dechunk := Some d', ks_rq := ?rq\<lparr>left_read := 0\<rparr>\<rparr>"
      have "internal_read n net ?s = Some (Some [], net', ?s\<lparr>ks_dechunk := Some d'\<rparr>)" using ir ended(1) by simp
      from plain [OF this] have "sink_read writev altsvc n net s = Some (Some [], net', ?s')" using True by simp
      moreover have "body_left ?s' net' [] rest"
        using ended step buffer by (auto simp: body_left_def buffer_ok_def)
      moreover have "only_read s ?s'" by (simp add: only_read_def set_flag_def or.assoc)
      ultimately show ?thesis using ended(2) by (auto simp: data_read_def)
    qed
  qed
qed

lemma data_read_Nil [simp]: "data_read [] = []"
  by (simp add: data_read_def)

lemma data_read_Cons: "data_read (r # rs) = data_read [r] @ data_read rs"
  by (simp add: data_read_def)

lemma sink_reads_body:
  "body_left s net body rest \<Longrightarrow> not_ended s \<Longrightarrow> \<forall>n \<in> set ns. room_ok n \<Longrightarrow>
   \<not> rq_has RQ_HAVE_EXPECT (ks_rq s) \<Longrightarrow> \<not> rq_has RQ_CONNECTION_UPGRADE (ks_rq s) \<Longrightarrow>
   \<exists>rs net' s' body'. sink_reads writev altsvc ns net s = Some (rs, net', s') \<and> body_left s' net' body' rest \<and>
     body = data_read rs @ body' \<and> (length body \<le> length ns \<longrightarrow> body' = []) \<and> only_read s s'"
proof (induction ns arbitrary: s net body)
  case Nil
  then show ?case using only_read_refl by auto
next
  case (Cons n ns)
  from sink_read_body [OF Cons.prems(1,2) _ Cons.prems(4,5), of n writev altsvc] Cons.prems(3)
  obtain r net1 s1 body1 where r: "sink_read writev altsvc n net s = Some (r, net1, s1)" "body_left s1 net1 body1 rest"
    "body = data_read [r] @ body1" "data_read [r] = [] \<longrightarrow> body = []" "only_read s s1" "data_read [r] \<noteq> [] \<longrightarrow> not_ended s1" by auto
  have empty: "r = None \<or> r = Some [] \<longleftrightarrow> data_read [r] = []" by (cases r) (auto simp: data_read_def)
  show ?case
  proof (cases "data_read [r] = []")
    case True
    then have "sink_reads writev altsvc (n # ns) net s = Some ([r], net1, s1)" using r(1) empty by auto
    then show ?thesis using True r(2-5) by (intro exI [of _ "[r]"] exI [of _ net1] exI [of _ s1] exI [of _ body1]) auto
  next
    case False
    have flags: "\<not> rq_has RQ_HAVE_EXPECT (ks_rq s1)" "\<not> rq_has RQ_CONNECTION_UPGRADE (ks_rq s1)"
      using Cons.prems(4,5) only_read_flag [OF r(5)] by simp_all
    have go_on: "not_ended s1" using r(6) False by blast
    from Cons.IH [OF r(2) go_on _ flags] Cons.prems(3)
    obtain rs net2 s2 body2 where rs: "sink_reads writev altsvc ns net1 s1 = Some (rs, net2, s2)" "body_left s2 net2 body2 rest"
      "body1 = data_read rs @ body2" "length body1 \<le> length ns \<longrightarrow> body2 = []" "only_read s1 s2" by auto
    have "length body1 < length body" using r(3) False by simp
    then have "body2 = []" if "length body \<le> Suc (length ns)" using rs(4) that by simp
    moreover have "sink_reads writev altsvc (n # ns) net s = Some (r # rs, net2, s2)" using r(1) rs(1) False empty by auto
    moreover have "body = data_read (r # rs) @ body2" using r(3) rs(3) by (simp add: data_read_Cons [of r rs])
    ultimately show ?thesis using rs(2) only_read_trans [OF r(5) rs(5)]
      by (intro exI [of _ "r # rs"] exI [of _ net2] exI [of _ s2] exI [of _ body2]) simp
  qed
qed

text \<open>An application that reads the body of a request that expects it lets the client know.\<close>

definition interim :: "request \<Rightarrow> byte list" where
  "interim rq = (if rq_has RQ_HAVE_EXPECT rq then bytes ''HTTP/1.1 100 Continue'' @ [13, 10, 13, 10] else [])"

lemma and_not_apart:
  fixes f g w :: u32
  assumes "f AND g = 0"
  shows "(w AND NOT g) AND f = w AND f"
proof -
  have "f AND NOT g = f"
  proof (rule bit_word_eqI)
    fix n assume "n < LENGTH(32)"
    from assms have "\<not> (bit f n \<and> bit g n)" by (metis bit_and_iff bit_0_eq bot_apply bot_bool_def)
    with \<open>n < LENGTH(32)\<close> show "bit (f AND NOT g) n = bit f n" by (auto simp: bit_simps)
  qed
  then show ?thesis by (metis and.assoc and.commute)
qed

lemma clr_flag_other: "f AND g = 0 \<Longrightarrow> rq_has f (clr_flag g rq) = rq_has f rq"
  by (simp add: rq_has_def clr_flag_def and_not_apart)

lemma clr_flag_same: "\<not> rq_has f (clr_flag f rq)"
  by (simp add: rq_has_def clr_flag_def and.assoc)

lemma clr_flag_left [simp]: "left_read (clr_flag f rq) = left_read rq"
  by (simp add: clr_flag_def)

lemma response_100_continue_sent:
  assumes "writes_prefix writev sent" "never_fails writev" "h_rc (ks_resp s) = []"
  shows "\<exists>k. response_100_continue writev None s = Some (True, s\<lparr>ks_resp := k\<rparr>) \<and>
    sent (h_conn k) = sent (h_conn (ks_resp s)) @ bytes ''HTTP/1.1 100 Continue'' @ [13, 10, 13, 10] \<and> h_rc k = [] \<and> h_status k = h_status (ks_resp s)"
proof -
  let ?l = "bytes ''HTTP/1.1 100 Continue''" and ?c = "h_conn (ks_resp s)"
  have line: "get_request_line 100 = ?l" by (simp add: get_request_line_def status_lines_def)
  have len: "length ?l = 21" by (simp add: bytes_def)
  obtain left c' where w: "write_buf writev [?l, [13, 10, 13, 10]] 25 None ?c = Some (left, c')" "left \<le> 25"
    "sent c' = sent ?c @ take (25 - left) (take 25 (concat [?l, [13, 10, 13, 10]]))" "never_fails writev \<longrightarrow> left = 0"
    using write_buf_octets [OF assms(1), of 25 "[?l, [13, 10, 13, 10]]" "[]" None ?c] len by auto
  have "left = 0" using w(4) assms(2) by simp
  then show ?thesis
    using w assms(3) len
    by (intro exI [of _ "(to_response (ks_rq s) (ks_resp s))\<lparr>h_response_left := 0, h_conn := c', h_rc := []\<rparr>"])
      (simp add: response_100_continue_def internal_start_response_body_def Let_def to_response_def rc_head_insert_def rc_head_append_def
        line rc_get_len_def rc_clean_def)
qed

text \<open>The reads of an application, with the interim response before the first of them.\<close>

lemma sink_reads_expect:
  assumes "body_left s net body rest" "not_ended s" "\<forall>n \<in> set ns. room_ok n" "\<not> rq_has RQ_CONNECTION_UPGRADE (ks_rq s)"
    and "rq_has RQ_HAVE_EXPECT (ks_rq s) \<longrightarrow> ns \<noteq> []"
    and "writes_prefix writev sent" "never_fails writev" "h_rc (ks_resp s) = []"
  shows "\<exists>rs net' s' body'. sink_reads writev None ns net s = Some (rs, net', s') \<and> body_left s' net' body' rest \<and>
     body = data_read rs @ body' \<and> (length body \<le> length ns \<longrightarrow> body' = []) \<and>
     sent (h_conn (ks_resp s')) = sent (h_conn (ks_resp s)) @ interim (ks_rq s) \<and> h_rc (ks_resp s') = [] \<and>
     h_status (ks_resp s') = h_status (ks_resp s) \<and> ks_url s' = ks_url s \<and> \<not> rq_has RQ_HAVE_EXPECT (ks_rq s') \<and>
     (\<exists>f. ks_rq s' = (ks_rq s)\<lparr>left_read := left_read (ks_rq s'), rq_flags := f\<rparr> \<and>
        (\<forall>g. g AND RQ_HAS_READ_POST = 0 \<longrightarrow> g AND RQ_HAVE_EXPECT = 0 \<longrightarrow> f AND g = rq_flags (ks_rq s) AND g))"
proof (cases "rq_has RQ_HAVE_EXPECT (ks_rq s)")
  case False
  from sink_reads_body [OF assms(1-3) False assms(4), of writev None]
  obtain rs net' s' body' where r: "sink_reads writev None ns net s = Some (rs, net', s')" "body_left s' net' body' rest"
    "body = data_read rs @ body'" "length body \<le> length ns \<longrightarrow> body' = []" "only_read s s'" by blast
  have "rq_flags (ks_rq s') AND g = rq_flags (ks_rq s) AND g" if "g AND RQ_HAS_READ_POST = 0" for g
  proof -
    have "(rq_flags (ks_rq s') OR RQ_HAS_READ_POST) AND g = (rq_flags (ks_rq s) OR RQ_HAS_READ_POST) AND g"
      using r(5) by (simp add: only_read_def)
    with that show ?thesis by (simp add: and_or_apart)
  qed
  then show ?thesis using r False assms(8) only_read_flag [OF r(5), of RQ_HAVE_EXPECT]
    by (intro exI [of _ rs] exI [of _ net'] exI [of _ s'] exI [of _ body']) (auto simp: only_read_def interim_def)
next
  case True
  then obtain n ns' where ns: "ns = n # ns'" using assms(5) by (cases ns) auto
  let ?rq = "clr_flag RQ_HAVE_EXPECT (set_flag RQ_HAS_READ_POST (ks_rq s))"
  obtain k where k: "response_100_continue writev None (s\<lparr>ks_rq := ?rq\<rparr>) = Some (True, s\<lparr>ks_rq := ?rq, ks_resp := k\<rparr>)"
    "sent (h_conn k) = sent (h_conn (ks_resp s)) @ bytes ''HTTP/1.1 100 Continue'' @ [13, 10, 13, 10]" "h_rc k = []" "h_status k = h_status (ks_resp s)"
    using response_100_continue_sent [OF assms(6,7), of "s\<lparr>ks_rq := ?rq\<rparr>"] assms(8) by auto
  let ?s = "s\<lparr>ks_rq := ?rq, ks_resp := k\<rparr>"
  have again: "set_flag RQ_HAS_READ_POST ?rq = ?rq"
    by (simp add: set_flag_def clr_flag_def bit.disj_conj_distrib2 or.assoc)
  have flags: "\<not> rq_has RQ_HAVE_EXPECT ?rq" "\<not> rq_has RQ_CONNECTION_UPGRADE ?rq"
    using assms(4) by (simp_all add: clr_flag_same clr_flag_other read_post_flag)
  have swap: "s\<lparr>ks_resp := k, ks_rq := rq\<rparr> = s\<lparr>ks_rq := rq, ks_resp := k\<rparr>" for rq by simp
  have "sink_read writev None n net s = sink_read writev None n net ?s"
    using True k(1) flags(1) by (simp add: sink_read_def Let_def read_post_flag again swap)
  then have reads: "sink_reads writev None ns net s = sink_reads writev None ns net ?s" by (simp add: ns)
  have body: "body_left ?s net body rest" using assms(1) by (cases "ks_dechunk s") (simp_all add: body_left_def buffer_ok_def)
  have ended: "not_ended ?s" using assms(2) by (simp add: not_ended_def)
  have flags': "\<not> rq_has RQ_HAVE_EXPECT (ks_rq ?s)" "\<not> rq_has RQ_CONNECTION_UPGRADE (ks_rq ?s)" using flags by simp_all
  from sink_reads_body [OF body ended assms(3) flags', of writev None]
  obtain rs net' s' body' where r: "sink_reads writev None ns net ?s = Some (rs, net', s')" "body_left s' net' body' rest"
    "body = data_read rs @ body'" "length body \<le> length ns \<longrightarrow> body' = []" "only_read ?s s'" by blast
  have rq: "ks_rq s' = (ks_rq s)\<lparr>left_read := left_read (ks_rq s'), rq_flags := rq_flags (ks_rq s')\<rparr>"
    "rq_flags (ks_rq s') OR RQ_HAS_READ_POST = rq_flags ?rq OR RQ_HAS_READ_POST"
    using r(5) by (simp_all add: only_read_def clr_flag_def set_flag_def)
  have "rq_flags (ks_rq s') AND g = rq_flags (ks_rq s) AND g" if "g AND RQ_HAS_READ_POST = 0" "g AND RQ_HAVE_EXPECT = 0" for g
  proof -
    have "rq_flags (ks_rq s') AND g = (rq_flags ?rq OR RQ_HAS_READ_POST) AND g" using that(1) rq(2) by (metis and_or_apart)
    also have "\<dots> = rq_flags ?rq AND g" using that(1) by (rule and_or_apart)
    also have "\<dots> = (rq_flags (ks_rq s) OR RQ_HAS_READ_POST) AND g"
      using and_not_apart [OF that(2), of "rq_flags (ks_rq s) OR RQ_HAS_READ_POST"] by (simp add: clr_flag_def set_flag_def)
    also have "\<dots> = rq_flags (ks_rq s) AND g" using that(1) by (rule and_or_apart)
    finally show ?thesis .
  qed
  then show ?thesis
    using r reads k True rq(1) only_read_flag [OF r(5), of RQ_HAVE_EXPECT] flags(1)
    by (intro exI [of _ rs] exI [of _ net'] exI [of _ s'] exI [of _ body']) (auto simp: only_read_def interim_def)
qed

section \<open>Between requests\<close>

text \<open>What follows the body is next.\<close>

definition at_next :: "'c http_sink \<Rightarrow> byte list list \<Rightarrow> byte list \<Rightarrow> bool" where
  "at_next s net rest \<longleftrightarrow> [] \<notin> set net \<and> buffer_ok s \<and>
     (case ks_dechunk s of None \<Rightarrow> ks_buf s | Some d \<Rightarrow> dc_buf d) @ concat net = rest"

lemma body_left_read: "body_left s net body rest \<Longrightarrow> left_read (ks_rq s) = 0 \<Longrightarrow> at_next s net rest"
  by (cases "ks_dechunk s") (auto simp: body_left_def at_next_def)

lemma skip_chunks_body:
  "chunk_wf (dc_chunk d) \<Longrightarrow> \<not> chunk_over (dc_chunk d) \<Longrightarrow> [] \<notin> set net \<Longrightarrow>
   ticks (dc_chunk d, []) (dc_buf d @ concat net) = ((KHTTPD_CHUNK_STATUS_IS_END, rest), as) \<Longrightarrow>
   \<exists>d' net'. skip_chunks d net = Some (True, d', net') \<and> dc_buf d' @ concat net' = rest \<and> [] \<notin> set net'"
proof (induction d net arbitrary: as rule: skip_chunks.induct)
  case (1 d net)
  obtain r d' net' where r: "ctx_read 4096 d net = (r, d', net')" by (metis prod_cases3)
  have "room_ok 4096" by (simp add: room_ok_def)
  from decoder_read [OF 1(2-4) this 1(5) r] consider
      (piece) p as' where "r = Piece p" "chunk_wf (dc_chunk d')" "\<not> chunk_over (dc_chunk d')" "[] \<notin> set net'"
        "ticks (dc_chunk d', []) (dc_buf d' @ concat net') = ((KHTTPD_CHUNK_STATUS_IS_END, rest), as')"
    | (ended) "r = Read_End" "dc_buf d' @ concat net' = rest" "[] \<notin> set net'"
    by auto
  then show ?case
  proof cases
    case piece
    from 1(1) [OF r [symmetric] piece(1) refl piece(2-5)] piece(1) r show ?thesis by (subst skip_chunks.simps) simp
  next
    case ended
    with r show ?thesis by (subst skip_chunks.simps) simp
  qed
qed

lemma skip_declared_body:
  "ks_dechunk s = None \<Longrightarrow> [] \<notin> set net \<Longrightarrow> buffer_ok s \<Longrightarrow> left_read (ks_rq s) = int (length body) \<Longrightarrow> ks_buf s @ concat net = body @ rest \<Longrightarrow>
   \<exists>net' b u. skip_declared net s = Some (True, net', s\<lparr>ks_buf := b, ks_used := u, ks_rq := (ks_rq s)\<lparr>left_read := 0\<rparr>\<rparr>) \<and>
     b @ concat net' = rest \<and> [] \<notin> set net' \<and> buffer_ok (s\<lparr>ks_buf := b, ks_used := u\<rparr>)"
proof (induction "length body" arbitrary: s net body rule: less_induct)
  case less
  show ?case
  proof (cases "body = []")
    case True
    have "s = s\<lparr>ks_buf := ks_buf s, ks_used := ks_used s, ks_rq := (ks_rq s)\<lparr>left_read := 0\<rparr>\<rparr>" using less(5) True by simp
    moreover have "skip_declared net s = Some (True, net, s)" using True less(5) by (subst skip_declared.simps) simp
    ultimately have "skip_declared net s = Some (True, net, s\<lparr>ks_buf := ks_buf s, ks_used := ks_used s, ks_rq := (ks_rq s)\<lparr>left_read := 0\<rparr>\<rparr>)" by simp
    moreover have "ks_buf s @ concat net = rest \<and> [] \<notin> set net \<and> buffer_ok (s\<lparr>ks_buf := ks_buf s, ks_used := ks_used s\<rparr>)"
      using True less(3,4,6) by simp
    ultimately show ?thesis by blast
  next
    case False
    let ?len = "min 4096 (length body)"
    have "0 < ?len" "?len \<le> length body" using False by auto
    from internal_read_declared [OF less(2-4,6) this]
    obtain c p body' net' b u where r: "internal_read ?len net s = Some (Some (c # p), net', s\<lparr>ks_buf := b, ks_used := u\<rparr>)" "body = (c # p) @ body'"
      "b @ concat net' = body' @ rest" "[] \<notin> set net'" "buffer_ok (s\<lparr>ks_buf := b, ks_used := u\<rparr>)" by blast
    let ?s = "s\<lparr>ks_buf := b, ks_used := u, ks_rq := (ks_rq s)\<lparr>left_read := int (length body')\<rparr>\<rparr>"
    have "length body' < length body" using r(2) by simp
    from less(1) [OF this, of ?s net'] less(2) r(3-5)
    obtain net2 b2 u2 where s2: "skip_declared net' ?s = Some (True, net2, ?s\<lparr>ks_buf := b2, ks_used := u2, ks_rq := (ks_rq s)\<lparr>left_read := 0\<rparr>\<rparr>)"
      "b2 @ concat net2 = rest" "[] \<notin> set net2" "buffer_ok (?s\<lparr>ks_buf := b2, ks_used := u2\<rparr>)"
      by (auto simp: buffer_ok_def)
    have left: "0 < left_read (ks_rq s)" "nat (min 4096 (left_read (ks_rq s))) = ?len"
      "left_read (ks_rq s) - int (length (c # p)) = int (length body')" using less(5) r(2) False by auto
    have "skip_declared net s = skip_declared net' ?s"
      using left r(1) by (subst skip_declared.simps) (simp add: Let_def)
    then show ?thesis using s2 by (auto simp: buffer_ok_def)
  qed
qed

text \<open>However much of the body the application left, the sink comes to the end of it.\<close>

lemma skip_post_body:
  assumes "body_left s net body rest" "left_read (ks_rq s) \<noteq> 0"
  shows "\<exists>net' s'. skip_post net s = Some (True, net', s') \<and> at_next s' net' rest \<and> ks_rq s' = (ks_rq s)\<lparr>left_read := 0\<rparr> \<and> ks_resp s' = ks_resp s"
proof (cases "ks_dechunk s")
  case None
  then obtain net' b u where "skip_declared net s = Some (True, net', s\<lparr>ks_buf := b, ks_used := u, ks_rq := (ks_rq s)\<lparr>left_read := 0\<rparr>\<rparr>)"
    "b @ concat net' = rest" "[] \<notin> set net'" "buffer_ok (s\<lparr>ks_buf := b, ks_used := u\<rparr>)"
    using skip_declared_body [OF None] assms(1) unfolding body_left_none [OF None] by metis
  with None show ?thesis by (auto simp: skip_post_def at_next_def buffer_ok_def)
next
  case (Some d)
  with assms obtain as where d: "chunk_wf (dc_chunk d)" "\<not> chunk_over (dc_chunk d)" "[] \<notin> set net" "buffer_ok s"
    "ticks (dc_chunk d, []) (dc_buf d @ concat net) = ((KHTTPD_CHUNK_STATUS_IS_END, rest), as)"
    by (auto simp: body_left_def split: if_splits)
  from skip_chunks_body [OF d(1-3,5)] d(4) Some show ?thesis by (auto simp: skip_post_def at_next_def buffer_ok_def)
qed

text \<open>The request data the next head is parsed into.\<close>

definition next_request :: "request \<Rightarrow> request" where
  "next_request rq = \<lparr>http_version = http_version rq, meth = 0, rq_flags = 0, left_read = 0,
     raw_url = url0\<lparr>u_port := u_port (raw_url rq)\<rparr>, accept_encoding = 0, rq_range = None, rq_precondition = No_Precondition, rq_headers = []\<rparr>"

lemma next_request_update: "next_request (rq\<lparr>left_read := n, rq_flags := f\<rparr>) = next_request rq"
  by (simp add: next_request_def)

lemma start_pipe_line_body:
  assumes "body_left s net body rest" "rq_has RQ_HAS_KEEP_CONNECTION (ks_rq s)" "\<not> rq_has (RQ_CONNECTION_CLOSE OR RQ_CONNECTION_UPGRADE) (ks_rq s)"
    and "\<not> rq_has RQ_HAVE_EXPECT (ks_rq s)" "h_rc (ks_resp s) = []"
  shows "\<exists>net' s'. start_pipe_line net s = Some (True, net', reset_pipeline s') \<and> at_next s' net' rest \<and>
    ks_rq s' = (ks_rq s)\<lparr>left_read := 0\<rparr> \<and> ks_resp s' = ks_resp s"
proof (cases "left_read (ks_rq s) = 0")
  case True
  then have "ks_rq s = (ks_rq s)\<lparr>left_read := 0\<rparr>" by simp
  with body_left_read [OF assms(1) True] True assms(2-5) show ?thesis by (auto simp: start_pipe_line_def Let_def)
next
  case False
  from skip_post_body [OF assms(1) False] assms(2-5) False show ?thesis
    by (auto simp: start_pipe_line_def Let_def split: prod.split)
qed

lemma next_head_rest:
  assumes "at_next s net rest" "rest \<noteq> []"
  shows "\<exists>net' s'. next_head room net (reset_pipeline s) = Some (net', s') \<and> ks_buf s' @ concat net' = rest \<and> [] \<notin> set net' \<and> buffer_ok s' \<and>
    ks_dechunk s' = None \<and> ks_url s' = None \<and> ks_rq s' = next_request (ks_rq s) \<and>
    ks_resp s' = (ks_resp s)\<lparr>h_send_size := 0, h_status := 0\<rparr>"
proof -
  let ?b = "case ks_dechunk s of None \<Rightarrow> ks_buf s | Some d \<Rightarrow> dc_buf d"
  have rq: "ks_rq (begin_request (reset_pipeline s)) = next_request (ks_rq s)"
    "ks_resp (begin_request (reset_pipeline s)) = (ks_resp s)\<lparr>h_send_size := 0, h_status := 0\<rparr>" "ks_url (begin_request (reset_pipeline s)) = None"
    by (simp_all add: begin_request_def reset_pipeline_def next_request_def)
  show ?thesis
  proof (cases "?b = []")
    case False
    with assms rq show ?thesis
      by (cases "ks_dechunk s")
        (auto simp: at_next_def next_head_def save_point_def begin_request_def reset_pipeline_def buffer_ok_def next_request_def)
  next
    case True
    have "0 < ks_size s" "[] \<notin> set net" "concat net \<noteq> []" using assms True by (auto simp: at_next_def buffer_ok_def)
    then obtain c p net' where r: "net_read (ks_size s) net = (Some (c # p), net')" "concat net = (c # p) @ concat net'" "[] \<notin> set net'"
      "length (c # p) \<le> ks_size s" by (rule net_read_some)
    let ?s = "(begin_request (reset_pipeline s\<lparr>ks_dechunk := None\<rparr>))\<lparr>ks_buf := c # p, ks_used := 0\<rparr>"
    have drop: "reset_pipeline s = reset_pipeline s\<lparr>ks_dechunk := None\<rparr>" if "ks_dechunk s = None" using that by (simp add: reset_pipeline_def)
    have "next_head room net (reset_pipeline s) = Some (net', ?s)"
    proof (cases "ks_dechunk s")
      case None
      with True r(1) show ?thesis
        by (simp add: next_head_def new_buffer_def begin_request_def reset_pipeline_def)
    next
      case (Some d)
      with True r(1) show ?thesis
        by (simp add: next_head_def new_buffer_def begin_request_def reset_pipeline_def)
    qed
    moreover have "ks_buf ?s @ concat net' = rest" using r(2) assms(1) True by (simp add: at_next_def)
    moreover have "buffer_ok ?s" using r(4) by (simp add: buffer_ok_def begin_request_def reset_pipeline_def)
    moreover have "ks_dechunk ?s = None \<and> ks_url ?s = None \<and> ks_rq ?s = next_request (ks_rq s) \<and>
      ks_resp ?s = (ks_resp s)\<lparr>h_send_size := 0, h_status := 0\<rparr>"
      by (simp add: begin_request_def reset_pipeline_def next_request_def)
    ultimately show ?thesis using r(3) by blast
  qed
qed

lemma next_head_none:
  assumes "at_next s net []"
  shows "next_head room net (reset_pipeline s) = None"
proof -
  have "net = []" "(case ks_dechunk s of None \<Rightarrow> ks_buf s | Some d \<Rightarrow> dc_buf d) = []"
    using assms by (cases net; auto simp: at_next_def)+
  then show ?thesis
    using assms by (cases "ks_dechunk s") (auto simp: next_head_def new_buffer_def net_read_def reset_pipeline_def at_next_def buffer_ok_def)
qed

section \<open>Assertions that fail\<close>

text \<open>A size line over the limit is an error, and leaves the digit where it was.\<close>

lemma oversized_chunk_read:
  "ctx_read n \<lparr>dc_chunk = KHTTPD_CHUNK_STATUS_READ_SIZE, dc_buf = bytes ''20000000'' @ buf, dc_trailer = tr\<rparr> net =
     (Read_Error, \<lparr>dc_chunk = KHTTPD_CHUNK_STATUS_IS_FAILED, dc_buf = 48 # buf, dc_trailer = tr\<rparr>, net)"
proof -
  have "dechunk KHTTPD_CHUNK_STATUS_READ_SIZE (bytes ''20000000'' @ buf) n = (Failed, KHTTPD_CHUNK_STATUS_IS_FAILED, 48 # buf, [])"
    by (simp add: dechunk_def bytes_def of_char_def add_digit_def chunk_states chunk_flags)
  moreover have "bytes ''20000000'' \<noteq> []" by (simp add: bytes_def)
  ultimately show ?thesis
    by (simp add: ctx_read_def) (simp add: ctx_loop.simps [of n "\<lparr>dc_chunk = _, dc_buf = _, dc_trailer = _\<rparr>"])
qed

text \<open>
  The server, that skips what the application left of the body, then calls the failed decoder again: the process ends.
\<close>

lemma failed_chunks_abort:
  assumes "rq_has RQ_HAS_KEEP_CONNECTION (ks_rq s)" "\<not> rq_has (RQ_CONNECTION_CLOSE OR RQ_CONNECTION_UPGRADE) (ks_rq s)"
    and "\<not> rq_has RQ_HAVE_EXPECT (ks_rq s)" "left_read (ks_rq s) = - 1"
    and "ks_dechunk s = Some d" "dc_chunk d = KHTTPD_CHUNK_STATUS_IS_FAILED" "dc_buf d \<noteq> []"
  shows "start_pipe_line net s = None"
proof -
  have "chunk_over (dc_chunk d)" using assms(6) by (simp add: chunk_over_def)
  then have "skip_chunks d net = None" using ctx_read_over [OF _ assms(7), of 4096 net] by (subst skip_chunks.simps) simp
  with assms show ?thesis by (simp add: start_pipe_line_def skip_post_def Let_def)
qed

text \<open>So does an application that reads again behind the end of a chunked body, if the next request has arrived.\<close>

lemma read_behind_chunks_aborts:
  assumes "\<not> rq_has RQ_HAVE_EXPECT (ks_rq s)" "ks_dechunk s = Some d" "dc_chunk d = KHTTPD_CHUNK_STATUS_IS_END" "dc_buf d \<noteq> []"
  shows "sink_read writev altsvc n net s = None"
proof -
  have "chunk_over (dc_chunk d)" using assms(3) by (simp add: chunk_over_def)
  then have "internal_read len net t = None" if "ks_dechunk t = Some d" for len and t :: "'a http_sink"
    using ctx_read_over [OF _ assms(4), of len net] that by (simp add: internal_read_def)
  then show ?thesis using assms(1,2) by (simp add: sink_read_def Let_def read_post_flag)
qed

end
