(* ===== verification/KHttp1Pipeline.thy ===== *)
theory KHttp1Pipeline
  imports KHttp1Server
begin

unbundle bit_operations_syntax

text \<open>
  A stream of requests on one HTTP/1 connection: what the server of \<^verbatim>\<open>KHttp1Server\<close> relies on of an application, an
  application that meets it, and that the requests of a stream are served one after the other, with the
  inputs on which they are not.
\<close>

section \<open>The application\<close>

text \<open>The flags of the connection, and the state of the response in which an application gets a request.\<close>

definition connection_flags :: u32 where
  "connection_flags = RQ_HAS_KEEP_CONNECTION OR RQ_CONNECTION_UPGRADE OR RQ_CONNECTION_CLOSE OR RQ_HAVE_EXPECT"

definition response_ready :: "request \<Rightarrow> 'c h1_sink \<Rightarrow> bool" where
  "response_ready rq k \<longleftrightarrow> h_rc k = [] \<and> h_status k = 0 \<and> h_meth k = meth rq \<and> h_version k = http_version rq \<and>
     (\<forall>g. g AND RQ_HAS_READ_POST = 0 \<longrightarrow> g AND RQ_HAVE_EXPECT = 0 \<longrightarrow> h_flags k AND g = rq_flags rq AND g)"

text \<open>
  What a server relies on: for a request it is good for, the application sends its reply to what it read, leaves
  nothing to be sent and does not touch the flags of the connection.
\<close>

locale http_application =
  fixes respond :: "request \<Rightarrow> byte list \<Rightarrow> 'c h1_sink \<Rightarrow> 'c h1_sink"
    and reply :: "request \<Rightarrow> byte list \<Rightarrow> byte list"
    and sent :: "'c \<Rightarrow> byte list"
    and good :: "request \<Rightarrow> byte list \<Rightarrow> bool"
  assumes answers: "good rq d \<Longrightarrow> response_ready rq k \<Longrightarrow>
    sent (h_conn (respond rq d k)) = sent (h_conn k) @ reply rq d \<and> h_rc (respond rq d k) = [] \<and>
    h_flags (respond rq d k) AND connection_flags = h_flags k AND connection_flags"

lemma body_left_cong:
  assumes "body_left s net body rest" "ks_dechunk s' = ks_dechunk s" "ks_buf s' = ks_buf s" "ks_used s' = ks_used s" "ks_size s' = ks_size s"
    "left_read (ks_rq s') = left_read (ks_rq s)"
  shows "body_left s' net body rest"
  using assms by (cases "ks_dechunk s") (simp_all add: body_left_def buffer_ok_def)

lemma connection_flag:
  fixes a b :: u32
  assumes "a AND connection_flags = b AND connection_flags" "connection_flags AND f = f"
  shows "a AND f = b AND f"
  by (metis assms and.assoc)

lemma rq_has_or: "rq_has (f OR g) rq \<longleftrightarrow> rq_has f rq \<or> rq_has g rq"
  by (simp add: rq_has_def bit.conj_disj_distrib or_eq_0_iff)

context http_application
begin

lemma request_served:
  assumes "writes_prefix writev sent" "never_fails writev" "body_left s net body rest" "ks_url s = None" "h_rc (ks_resp s) = []" "h_status (ks_resp s) = 0"
    and "ks_rq s = rq" "request_url (raw_url rq) = Some url" "rq_has RQ_HAS_KEEP_CONNECTION rq" "\<not> rq_has (RQ_CONNECTION_CLOSE OR RQ_CONNECTION_UPGRADE) rq"
    and "\<forall>n \<in> set (plan rq). room_ok n" "rq_has RQ_HAVE_EXPECT rq \<longrightarrow> plan rq \<noteq> []" "\<forall>n. good rq (take n body)" "not_ended s"
  shows "\<exists>d net' s' body'. khttp_server_new_request writev None (plan, respond) net s = Some ([(rq, url, d)], net', s') \<and>
    body_left s' net' body' rest \<and> body = d @ body' \<and> (length body \<le> length (plan rq) \<longrightarrow> body' = []) \<and>
    sent (h_conn (ks_resp s')) = sent (h_conn (ks_resp s)) @ interim rq @ reply rq d \<and> h_rc (ks_resp s') = [] \<and>
    rq_has RQ_HAS_KEEP_CONNECTION (ks_rq s') \<and> \<not> rq_has (RQ_CONNECTION_CLOSE OR RQ_CONNECTION_UPGRADE) (ks_rq s') \<and>
    \<not> rq_has RQ_HAVE_EXPECT (ks_rq s') \<and> next_request (ks_rq s') = next_request rq"
proof -
  let ?s = "s\<lparr>ks_url := Some url\<rparr>"
  have up: "\<not> rq_has RQ_CONNECTION_UPGRADE rq" "\<not> rq_has RQ_CONNECTION_CLOSE rq"
    using assms(10) unfolding rq_has_or by simp_all
  have body: "body_left ?s net body rest" by (rule body_left_cong [OF assms(3)]) simp_all
  have pre: "\<not> rq_has RQ_CONNECTION_UPGRADE (ks_rq ?s)" "rq_has RQ_HAVE_EXPECT (ks_rq ?s) \<longrightarrow> plan rq \<noteq> []" "h_rc (ks_resp ?s) = []"
    using up assms(5,7,12) by simp_all
  have ended: "not_ended ?s" using assms(14) by (simp add: not_ended_def)
  from sink_reads_expect [OF body ended assms(11) pre(1,2) assms(1,2) pre(3)] assms(7)
  obtain rs net1 s1 body1 f where r: "sink_reads writev None (plan rq) net ?s = Some (rs, net1, s1)" "body_left s1 net1 body1 rest"
    "body = data_read rs @ body1" "length body \<le> length (plan rq) \<longrightarrow> body1 = []"
    "sent (h_conn (ks_resp s1)) = sent (h_conn (ks_resp s)) @ interim rq" "h_rc (ks_resp s1) = []" "h_status (ks_resp s1) = 0"
    "\<not> rq_has RQ_HAVE_EXPECT (ks_rq s1)"
    "ks_rq s1 = rq\<lparr>left_read := left_read (ks_rq s1), rq_flags := f\<rparr>"
    "\<forall>g. g AND RQ_HAS_READ_POST = 0 \<longrightarrow> g AND RQ_HAVE_EXPECT = 0 \<longrightarrow> f AND g = rq_flags rq AND g"
    using assms(6) by auto
  define d where "d = data_read rs"
  define k where "k = to_response (ks_rq s1) (ks_resp s1)"
  define k' where "k' = respond rq d k"
  have "d = take (length d) body" using r(3) by (simp add: d_def)
  then have "good rq d" using assms(13) by metis
  moreover have f: "rq_flags (ks_rq s1) = f" "meth (ks_rq s1) = meth rq" "http_version (ks_rq s1) = http_version rq"
    by (subst r(9), simp)+
  then have "response_ready rq k" using r(6,7,10) by (simp add: response_ready_def k_def to_response_def)
  ultimately have k': "sent (h_conn k') = sent (h_conn k) @ reply rq d" "h_rc k' = []" "h_flags k' AND connection_flags = h_flags k AND connection_flags"
    using answers by (simp_all add: k'_def)
  let ?s' = "s1\<lparr>ks_resp := k', ks_rq := (ks_rq s1)\<lparr>rq_flags := h_flags k'\<rparr>\<rparr>"
  have "khttp_server_new_request writev None (plan, respond) net s = Some ([(rq, url, d)], net1, ?s')"
    using assms(4,7,8) r(1) by (simp add: khttp_server_new_request_def Let_def d_def k_def k'_def)
  moreover have "body_left ?s' net1 body1 rest" by (rule body_left_cong [OF r(2)]) simp_all
  moreover have "sent (h_conn (ks_resp ?s')) = sent (h_conn (ks_resp s)) @ interim rq @ reply rq d"
    using k'(1) r(5) by (simp add: k_def to_response_def)
  moreover have "h_flags k' AND g = f AND g" if "connection_flags AND g = g" for g
    using connection_flag [OF k'(3) that] f(1) by (simp add: k_def to_response_def)
  then have flags: "h_flags k' AND RQ_HAS_KEEP_CONNECTION = f AND RQ_HAS_KEEP_CONNECTION"
    "h_flags k' AND RQ_HAVE_EXPECT = f AND RQ_HAVE_EXPECT"
    "h_flags k' AND (RQ_CONNECTION_CLOSE OR RQ_CONNECTION_UPGRADE) = f AND (RQ_CONNECTION_CLOSE OR RQ_CONNECTION_UPGRADE)"
    by (simp_all add: connection_flags_def)
  have same: "f AND RQ_HAS_KEEP_CONNECTION = rq_flags rq AND RQ_HAS_KEEP_CONNECTION"
    "f AND (RQ_CONNECTION_CLOSE OR RQ_CONNECTION_UPGRADE) = rq_flags rq AND (RQ_CONNECTION_CLOSE OR RQ_CONNECTION_UPGRADE)"
    using r(10) by simp_all
  have "rq_has RQ_HAS_KEEP_CONNECTION (ks_rq ?s')" "\<not> rq_has (RQ_CONNECTION_CLOSE OR RQ_CONNECTION_UPGRADE) (ks_rq ?s')" "\<not> rq_has RQ_HAVE_EXPECT (ks_rq ?s')"
    using flags same assms(9,10) r(8) f(1) by (simp_all add: rq_has_def)
  moreover have "next_request (ks_rq ?s') = next_request rq"
  proof -
    have "(ks_rq s1)\<lparr>rq_flags := h_flags k'\<rparr> = rq\<lparr>left_read := left_read (ks_rq s1), rq_flags := h_flags k'\<rparr>" by (subst r(9)) simp
    then show ?thesis by (simp add: next_request_update)
  qed
  ultimately show ?thesis using r(3,4) k'(2) d_def
    by (intro exI [of _ d] exI [of _ net1] exI [of _ ?s'] exI [of _ body1]) simp
qed

end

section \<open>A stream of requests\<close>

datatype message_body = Declared "byte list" | Chunked "byte list list"

fun body_octets :: "message_body \<Rightarrow> byte list" where
  "body_octets (Declared b) = b"
| "body_octets (Chunked ds) = encode_chunked ds"

fun body_data :: "message_body \<Rightarrow> byte list" where
  "body_data (Declared b) = b"
| "body_data (Chunked ds) = concat ds"

fun body_framed :: "message_body \<Rightarrow> request \<Rightarrow> bool" where
  "body_framed (Declared b) rq \<longleftrightarrow> left_read rq = int (length b) \<and> \<not> rq_has RQ_INPUT_CHUNKED rq"
| "body_framed (Chunked ds) rq \<longleftrightarrow> left_read rq = - 1 \<and> rq_has RQ_INPUT_CHUNKED rq \<and> (\<forall>d \<in> set ds. d \<noteq> [] \<and> length d \<le> 0x1FFFFFFF)"

type_synonym message = "byte list \<times> byte list \<times> (byte list \<times> byte list) list \<times> message_body"

fun message_text :: "message \<Rightarrow> byte list" where
  "message_text (m, t, hs, b) = m @ 32 # t @ 13 # 10 # head_text hs @ body_octets b"

abbreviation message_data :: "message \<Rightarrow> byte list" where
  "message_data x \<equiv> body_data (snd (snd (snd x)))"

text \<open>The request a message makes: acceptable, with the framing of its body, a host and a connection that is kept.\<close>

fun message_makes :: "head_config \<Rightarrow> request \<Rightarrow> message \<Rightarrow> request \<Rightarrow> bool" where
  "message_makes cfg rq (m, t, hs, b) rq2 \<longleftrightarrow> head_starts cfg m t hs rq rq2 \<and> body_framed b rq2 \<and> request_url (raw_url rq2) \<noteq> None \<and>
     rq_has RQ_HAS_KEEP_CONNECTION rq2 \<and> \<not> rq_has (RQ_CONNECTION_CLOSE OR RQ_CONNECTION_UPGRADE) rq2"

fun messages_make :: "head_config \<Rightarrow> request \<Rightarrow> message list \<Rightarrow> request list \<Rightarrow> bool" where
  "messages_make cfg rq [] rqs \<longleftrightarrow> rqs = []"
| "messages_make cfg rq (x # xs) [] \<longleftrightarrow> False"
| "messages_make cfg rq (x # xs) (rq2 # rqs) \<longleftrightarrow> message_makes cfg rq x rq2 \<and> messages_make cfg (next_request rq2) xs rqs"

text \<open>How a message is served: the application gets the request, its URL and its data, all of it if it reads often enough.\<close>

definition message_served :: "(request \<Rightarrow> nat list) \<Rightarrow> message \<times> request \<Rightarrow> request \<times> kgl_url \<times> byte list \<Rightarrow> bool" where
  "message_served plan xr entry \<longleftrightarrow> (case (xr, entry) of ((x, rq), (rq', url, d)) \<Rightarrow>
     rq' = rq \<and> request_url (raw_url rq) = Some url \<and> (\<exists>e. message_data x = d @ e) \<and>
     (length (message_data x) \<le> length (plan rq) \<longrightarrow> d = message_data x))"

definition replies :: "(request \<Rightarrow> byte list \<Rightarrow> byte list) \<Rightarrow> (request \<times> kgl_url \<times> byte list) list \<Rightarrow> byte list" where
  "replies reply log = concat (map (\<lambda>(rq, url, d). interim rq @ reply rq d) log)"

definition plan_ok :: "(request \<Rightarrow> nat list) \<Rightarrow> request \<Rightarrow> bool" where
  "plan_ok plan rq \<longleftrightarrow> (\<forall>n \<in> set (plan rq). room_ok n) \<and> (rq_has RQ_HAVE_EXPECT rq \<longrightarrow> plan rq \<noteq> [])"

lemma framed_body_left:
  assumes "body_framed b rq" "ks_rq s = rq" "ks_buf s @ concat net = body_octets b @ rest" "buffer_ok s" "[] \<notin> set net"
    and "ks_dechunk s = (if rq_has RQ_INPUT_CHUNKED rq
      then Some \<lparr>dc_chunk = KHTTPD_CHUNK_STATUS_READ_SIZE, dc_buf = ks_buf s, dc_trailer = []\<rparr> else None)"
  shows "body_left s net (body_data b) rest" "not_ended s"
proof -
  show "not_ended s" using assms(1,2,6) by (cases b) (auto simp: not_ended_def)
  show "body_left s net (body_data b) rest"
proof (cases b)
  case (Declared d)
  with assms show ?thesis by (simp add: body_left_none)
next
  case (Chunked ds)
  have "ticks (KHTTPD_CHUNK_STATUS_READ_SIZE, []) (encode_chunked ds @ rest) = ((KHTTPD_CHUNK_STATUS_IS_END, rest), map Byte (concat ds))"
    using ticks_encode_chunked [of ds rest] assms(1) Chunked by (simp add: chunk_states)
  moreover have "chunk_wf KHTTPD_CHUNK_STATUS_READ_SIZE" "\<not> chunk_over KHTTPD_CHUNK_STATUS_READ_SIZE"
    by (simp_all add: chunk_wf_def chunk_over_def size_state_def chunk_states chunk_flags)
  ultimately show ?thesis using assms Chunked by (simp add: body_left_def)
qed
qed

context http_application
begin

lemma messages_served:
  assumes "\<And>t. fst (e_parse env t) = cfg" "\<not> hc_timed_out cfg" "e_altsvc env = None" "writes_prefix (e_writev env) sent" "never_fails (e_writev env)"
    and "messages_make cfg (ks_rq s) xs rqs" "xs \<noteq> []" "ks_buf s @ concat net = concat (map message_text xs)" "[] \<notin> set net" "buffer_ok s"
    and "ks_dechunk s = None" "ks_url s = None" "h_rc (ks_resp s) = []" "h_status (ks_resp s) = 0"
    and "\<forall>rq \<in> set rqs. plan_ok plan rq" "\<forall>(x, rq) \<in> set (zip xs rqs). \<forall>n. good rq (take n (message_data x))"
  shows "\<exists>log s'. serve env (plan, respond) t net s = Some (log, [], s') \<and> list_all2 (message_served plan) (zip xs rqs) log \<and>
    sent (h_conn (ks_resp s')) = sent (h_conn (ks_resp s)) @ replies reply log"
  using assms(6-)
proof (induction xs arbitrary: t net s rqs)
  case Nil
  then show ?case by simp
next
  case (Cons x xs)
  obtain m u hs b where x: "x = (m, u, hs, b)" by (cases x)
  obtain rq rqs' where rqs: "rqs = rq # rqs'" "message_makes cfg (ks_rq s) x rq" "messages_make cfg (next_request rq) xs rqs'"
    using Cons.prems(1) by (cases rqs) auto
  let ?rest = "concat (map message_text xs)"
  have head: "head_starts cfg m u hs (ks_rq s) rq" "body_framed b rq" "rq_has RQ_HAS_KEEP_CONNECTION rq"
    "\<not> rq_has (RQ_CONNECTION_CLOSE OR RQ_CONNECTION_UPGRADE) rq" using rqs(2) x by simp_all
  obtain url where url: "request_url (raw_url rq) = Some url" using rqs(2) x by auto
  have "head_coming cfg parser0 (ks_rq s) (ks_buf s @ concat net) (body_octets b @ ?rest) rq"
    unfolding head_coming_def using head(1) Cons.prems(3) x by auto
  from head_loop_head [where env = "e_parse env" and t = t, OF assms(1,2) this Cons.prems(5,4,6)]
  obtain t1 net1 s1 where s1: "head_loop (e_parse env) t parser0 net s = Some (Head_Finished, t1, net1, s1)" "ks_rq s1 = rq"
    "ks_buf s1 @ concat net1 = body_octets b @ ?rest" "buffer_ok s1" "[] \<notin> set net1" "ks_url s1 = None" "ks_resp s1 = ks_resp s"
    "ks_dechunk s1 = (if rq_has RQ_INPUT_CHUNKED rq
      then Some \<lparr>dc_chunk = KHTTPD_CHUNK_STATUS_READ_SIZE, dc_buf = ks_buf s1, dc_trailer = []\<rparr> else None)"
    using Cons.prems(7) by auto
  have plan: "\<forall>n \<in> set (plan rq). room_ok n" "rq_has RQ_HAVE_EXPECT rq \<longrightarrow> plan rq \<noteq> []" using Cons.prems(10) rqs(1) by (auto simp: plan_ok_def)
  have good: "\<forall>n. good rq (take n (body_data b))" using Cons.prems(11) rqs(1) x by auto
  have left: "body_left s1 net1 (body_data b) ?rest" "not_ended s1" by (rule framed_body_left [OF head(2) s1(2-5,8)])+
  from request_served [where plan = plan, OF assms(4,5) left(1) s1(6) _ _ s1(2) url head(3,4) plan good left(2)] Cons.prems(8,9) s1(7)
  obtain d net2 s2 body2 where s2: "khttp_server_new_request (e_writev env) None (plan, respond) net1 s1 = Some ([(rq, url, d)], net2, s2)"
    "body_left s2 net2 body2 ?rest" "body_data b = d @ body2" "length (body_data b) \<le> length (plan rq) \<longrightarrow> body2 = []"
    "sent (h_conn (ks_resp s2)) = sent (h_conn (ks_resp s)) @ interim rq @ reply rq d" "h_rc (ks_resp s2) = []"
    "rq_has RQ_HAS_KEEP_CONNECTION (ks_rq s2)" "\<not> rq_has (RQ_CONNECTION_CLOSE OR RQ_CONNECTION_UPGRADE) (ks_rq s2)"
    "\<not> rq_has RQ_HAVE_EXPECT (ks_rq s2)" "next_request (ks_rq s2) = next_request rq" by auto
  from start_pipe_line_body [OF s2(2,7,8,9,6)]
  obtain net3 s3 where s3: "start_pipe_line net2 s2 = Some (True, net3, reset_pipeline s3)" "at_next s3 net3 ?rest"
    "ks_rq s3 = (ks_rq s2)\<lparr>left_read := 0\<rparr>" "ks_resp s3 = ks_resp s2" by blast
  have entry: "message_served plan (x, rq) (rq, url, d)" using url s2(3,4) x by (auto simp: message_served_def)
  have next_rq: "next_request (ks_rq s3) = next_request rq"
    using s3(3) s2(10) by (simp add: next_request_def)
  show ?case
  proof (cases "xs = []")
    case True
    with s3(2) have none_left: "at_next s3 net3 []" by simp
    then have stop: "next_head (e_size env t1) net3 (reset_pipeline s3) = None" "net3 = []"
      by (rule next_head_none) (use none_left in \<open>cases net3; auto simp: at_next_def\<close>)
    have "serve env (plan, respond) t net s = Some ([(rq, url, d)], [], reset_pipeline s3)"
      using s1(1) s2(1) s3(1) stop assms(3) by (subst serve.simps) simp
    then show ?thesis
      using entry rqs(1,3) True s2(5) s3(4)
      by (intro exI [of _ "[(rq, url, d)]"] exI [of _ "reset_pipeline s3"]) (auto simp: replies_def reset_pipeline_def)
  next
    case False
    then have "?rest \<noteq> []" by (cases xs) (auto split: prod.split)
    from next_head_rest [OF s3(2) this, where room = "e_size env t1"]
    obtain net4 s4 where s4: "next_head (e_size env t1) net3 (reset_pipeline s3) = Some (net4, s4)" "ks_buf s4 @ concat net4 = ?rest"
      "[] \<notin> set net4" "buffer_ok s4" "ks_dechunk s4 = None" "ks_url s4 = None" "ks_rq s4 = next_request (ks_rq s3)"
      "ks_resp s4 = (ks_resp s3)\<lparr>h_send_size := 0, h_status := 0\<rparr>" by blast
    have ih: "messages_make cfg (ks_rq s4) xs rqs'" "h_rc (ks_resp s4) = []" "h_status (ks_resp s4) = 0"
      "\<forall>rq \<in> set rqs'. plan_ok plan rq" "\<forall>(x, rq) \<in> set (zip xs rqs'). \<forall>n. good rq (take n (message_data x))"
      using rqs(1,3) next_rq s4(7,8) s3(4) s2(6) Cons.prems(10,11) by auto
    from Cons.IH [OF ih(1) False s4(2,3,4,5,6) ih(2-5), where t = t1]
    obtain log s' where log: "serve env (plan, respond) t1 net4 s4 = Some (log, [], s')" "list_all2 (message_served plan) (zip xs rqs') log"
      "sent (h_conn (ks_resp s')) = sent (h_conn (ks_resp s4)) @ replies reply log" by blast
    have "serve env (plan, respond) t net s = Some ((rq, url, d) # log, [], s')"
      using s1(1) s2(1) s3(1) s4(1) log(1) assms(3) by (subst serve.simps) simp
    then show ?thesis
      using entry rqs(1) log(2,3) s4(8) s3(4) s2(5)
      by (intro exI [of _ "(rq, url, d) # log"] exI [of _ s']) (simp add: replies_def)
  qed
qed

lemma stream_served:
  assumes "\<And>t. fst (e_parse env t) = cfg" "\<not> hc_timed_out cfg" "e_altsvc env = None" "writes_prefix (e_writev env) sent" "never_fails (e_writev env)"
    and "messages_make cfg (ks_rq (http_sink_new cn)) xs rqs" "xs \<noteq> []" "concat net = concat (map message_text xs)" "[] \<notin> set net"
    and "\<forall>rq \<in> set rqs. plan_ok plan rq" "\<forall>(x, rq) \<in> set (zip xs rqs). \<forall>n. good rq (take n (message_data x))"
  shows "\<exists>log s'. http_sink_start env (plan, respond) net (http_sink_new cn) = Some (log, [], s') \<and>
    list_all2 (message_served plan) (zip xs rqs) log \<and> sent (h_conn (ks_resp s')) = sent cn @ replies reply log"
proof -
  let ?s = "http_sink_new cn"
  have new: "buffer_ok ?s" "ks_buf ?s = []" "ks_dechunk ?s = None" "ks_url ?s = None" "h_rc (ks_resp ?s) = []" "h_status (ks_resp ?s) = 0"
    "h_conn (ks_resp ?s) = cn" by (simp_all add: http_sink_new_def buffer_ok_def MAX_HTTP_CHUNK_SIZE_def)
  have "concat net \<noteq> []" using assms(7,8) by (cases xs) (auto split: prod.split)
  then obtain p net' s where s: "read_more net ?s = Some (True, net', s)" "concat net = p @ concat net'" "[] \<notin> set net'"
    "ks_buf s = ks_buf ?s @ p" "buffer_ok s" "ks_rq s = ks_rq ?s" "ks_url s = ks_url ?s" "ks_resp s = ks_resp ?s" "ks_dechunk s = ks_dechunk ?s"
    by (rule read_more_some [OF new(1) assms(9)])
  have "\<exists>log s'. serve env (plan, respond) 0 net' s = Some (log, [], s') \<and> list_all2 (message_served plan) (zip xs rqs) log \<and>
    sent (h_conn (ks_resp s')) = sent (h_conn (ks_resp s)) @ replies reply log"
    using assms(6-11) new s by (intro messages_served [OF assms(1-5)]) simp_all
  with s(1,8) new(7) show ?thesis by (simp add: http_sink_start_def)
qed

end

section \<open>An application\<close>

text \<open>
  An application that sends back what it read, with the operations of the sink: status, fields, a declared length, the
  body and the end of the request.
\<close>

definition echo_fields :: "(byte list \<times> byte list) list" where
  "echo_fields = [(bytes ''Server'', bytes ''khttpd'')]"

definition echo_response :: "'c writev \<Rightarrow> 'c net_write \<Rightarrow> request \<Rightarrow> byte list \<Rightarrow> 'c h1_sink \<Rightarrow> 'c h1_sink" where
  "echo_response writev write rq d k = (
     let k1 = start_response_body writev False None (int (length d)) (response_fields echo_fields (snd (response_status 200 k)));
         k2 = Option.bind k1 (\<lambda>(ok, k). write_bodies writev write [d] k)
     in the (Option.bind k2 (end_request writev)))"

definition echo_reply :: "request \<Rightarrow> byte list \<Rightarrow> byte list" where
  "echo_reply rq d = bytes ''HTTP/1.1'' @ 32 # reason 200 @ 13 # 10 # head_text (echo_fields @ [length_field (int (length d))]) @ d"

definition echo_good :: "request \<Rightarrow> byte list \<Rightarrow> bool" where
  "echo_good rq d \<longleftrightarrow> http_version rq > 0x100 \<and> meth rq \<noteq> METH_HEAD \<and> rq_has RQ_HAS_KEEP_CONNECTION rq \<and>
     \<not> rq_has RQ_CONNECTION_UPGRADE rq \<and> \<not> rq_has RQ_CONNECTION_CLOSE rq \<and> \<not> rq_has RQ_HAS_SEND_HEADER rq \<and>
     \<not> rq_has RQ_TE_CHUNKED rq \<and> \<not> rq_has RQ_HAS_SEND_CHUNK_0 rq \<and> length d < 2 ^ 63"

lemma write_single_flags: "write_single w str k = Some (n, k') \<Longrightarrow> h_flags k' = h_flags k"
proof (induction w str k rule: write_single.induct)
  case (1 w str k)
  show ?case
  proof (cases "str = []")
    case True
    with 1(2) show ?thesis by (simp add: write_single.simps)
  next
    case False
    obtain got c where w: "w (h_conn k) str = (got, c)" by fastforce
    with 1(2) False obtain k1 where k1: "on_success_response got (k\<lparr>h_conn := c\<rparr>) = Some k1"
      by (subst (asm) write_single.simps) (auto split: option.splits)
    note same = on_success_fields(2) [OF k1]
    show ?thesis
    proof (cases "got \<le> 0")
      case True
      with 1(2) False w k1 same show ?thesis by (subst (asm) write_single.simps) simp
    next
      case go: False
      with 1(2) False w k1 have "write_single w (drop (nat got) str) k1 = Some (n, k')" by (subst (asm) write_single.simps) simp
      from 1(1) [OF False w [symmetric] k1 go this] same show ?thesis by simp
    qed
  qed
qed

lemma internal_write_flags: "internal_write writev bufs len suffix k = Some (n, k') \<Longrightarrow> h_flags k' = h_flags k"
  by (auto simp: internal_write_def rc_clean_def split: if_splits option.splits dest: on_success_fields(2))

lemma write_all_flags: "write_all writev write str k = Some (n, k') \<Longrightarrow> h_flags k' = h_flags k"
  by (auto simp: write_all_def write_all_chunked_def dest: internal_write_flags write_single_flags split: if_splits)

lemma write_bodies_flags: "write_bodies writev write ds k = Some k' \<Longrightarrow> h_flags k' = h_flags k"
  by (induction ds arbitrary: k) (auto split: option.splits nat.splits dest: write_all_flags)

lemma end_request_keeps: "end_request writev k = Some k' \<Longrightarrow> \<not> has_flag RQ_TE_CHUNKED k \<Longrightarrow> \<not> has_flag RQ_CONNECTION_CLOSE k' \<Longrightarrow>
    h_flags k' = h_flags k \<and> h_rc k' = []"
  by (auto simp: end_request_def Let_def rc_clean_def has_flag_def put_flag_def bit.conj_disj_distrib2 split: option.splits if_splits)

lemma echo_application:
  assumes "writes_prefix writev sent" "never_fails writev" "takes_prefix write sent" "\<forall>c str. str \<noteq> [] \<longrightarrow> 0 < fst (write c str)"
  shows "http_application (echo_response writev write) echo_reply sent echo_good"
proof
  fix rq d and k :: "'a h1_sink"
  assume good: "echo_good rq d" and ready: "response_ready rq k"
  have flag: "has_flag f k = rq_has f rq" if "f AND RQ_HAS_READ_POST = 0" "f AND RQ_HAVE_EXPECT = 0" for f
    using ready that by (simp add: response_ready_def has_flag_def rq_has_def)
  have fresh: "fresh_sink k"
    using good ready by (simp add: fresh_sink_def flag echo_good_def) (simp add: response_ready_def)
  let ?len = "int (length d)"
  have st: "map_of status_lines 200 \<noteq> None" "\<not> is_status_code_no_body 200" "\<forall>h \<in> set echo_fields. length (field_text h) < 65536"
    "?len = -1 \<or> 0 \<le> ?len \<and> ?len < 2 ^ 63"
    using good by (simp_all add: status_lines_def is_status_code_no_body_def echo_fields_def field_text_def bytes_def echo_good_def)
  obtain k1 where k1: "start_response_body writev False None ?len (response_fields echo_fields (snd (response_status 200 k))) = Some (True, k1)"
    "concat (h_rc k1) = bytes ''HTTP/1.1'' @ 32 # reason 200 @ 13 # 10 # head_text (echo_fields @ [length_field ?len])"
    "h_conn k1 = h_conn k" "h_response_left k1 = ?len" "has_flag RQ_TE_CHUNKED k1 \<longleftrightarrow> ?len < 0" "\<not> has_flag RQ_CONNECTION_CLOSE k1"
    "h_flags k1 = h_flags k OR RQ_HAS_SEND_HEADER OR (if ?len < 0 then RQ_TE_CHUNKED else 0)"
    by (rule response_head [OF fresh st])
  have "owes sent k1 (sent (h_conn k) @ concat (h_rc k1)) (length d)" using k1 by (simp add: owes_def)
  from write_bodies_owes [OF assms this, of "[d]"] obtain k2 where k2: "write_bodies writev write [d] k1 = Some k2"
    "owes sent k2 ((sent (h_conn k) @ concat (h_rc k1)) @ d) 0" by auto
  from end_request_owes [OF assms(1,2) k2(2)] obtain k3 where k3: "end_request writev k2 = Some k3"
    "sent (h_conn k3) = (sent (h_conn k) @ concat (h_rc k1)) @ d" "\<not> has_flag RQ_CONNECTION_CLOSE k3" by auto
  have "\<not> has_flag RQ_TE_CHUNKED k2" using k2(2) by (simp add: owes_def)
  from end_request_keeps [OF k3(1) this k3(3)] write_bodies_flags [OF k2(1)] k1(7)
  have "h_flags k3 = h_flags k OR RQ_HAS_SEND_HEADER" "h_rc k3 = []" by simp_all
  moreover have "echo_response writev write rq d k = k3" using k1(1) k2(1) k3(1) by (simp add: echo_response_def)
  moreover have "connection_flags AND RQ_HAS_SEND_HEADER = 0" by (simp add: connection_flags_def)
  ultimately show "sent (h_conn (echo_response writev write rq d k)) = sent (h_conn k) @ echo_reply rq d \<and> h_rc (echo_response writev write rq d k) = [] \<and>
      h_flags (echo_response writev write rq d k) AND connection_flags = h_flags k AND connection_flags"
    using k3(2) k1(2) by (simp add: echo_reply_def and_or_apart)
qed

interpretation wire_echo: http_application "echo_response wire_writev wire_write" echo_reply "\<lambda>c. c" echo_good
  by (rule echo_application [OF wire_ok])

section \<open>Properties\<close>

text \<open>
  C2: requests that arrive one behind the other on a connection, with bodies of a declared length or in chunks,
  however the network cuts the stream: each is served once and in order, the application gets the request that
  its head makes and the data of its body, all of it if it reads often enough, and what it leaves is skipped, so that
  the next head starts right behind; the replies are sent in the order of the requests, an interim response before the
  one to a request that expects it; and the server returns, when everything is read. The application reads with buffers
  of one octet up to the largest chunk, as often as it likes, but not behind a read that gave it nothing.
\<close>

theorem pipelined_requests_served:
  assumes "http_application respond reply sent good"
    and "\<forall>t. fst (e_parse env t) = cfg" "\<not> hc_timed_out cfg" "e_altsvc env = None" "writes_prefix (e_writev env) sent" "never_fails (e_writev env)"
    and "messages_make cfg (ks_rq (http_sink_new cn)) xs rqs" "xs \<noteq> []" "concat net = concat (map message_text xs)" "[] \<notin> set net"
    and "\<forall>rq \<in> set rqs. plan_ok plan rq" "\<forall>(x, rq) \<in> set (zip xs rqs). \<forall>n. good rq (take n (message_data x))"
  shows "\<exists>log s'. http_sink_start env (plan, respond) net (http_sink_new cn) = Some (log, [], s') \<and>
    list_all2 (message_served plan) (zip xs rqs) log \<and> sent (h_conn (ks_resp s')) = sent cn @ replies reply log"
  using http_application.stream_served [OF assms(1) assms(2) [rule_format] assms(3-)] .

definition hi_message :: message where
  "hi_message = (bytes ''GET'', bytes ''/ HTTP/1.1'', [(bytes ''Host'', bytes ''a''), (bytes ''Content-Length'', bytes ''2'')], Declared (bytes ''hi''))"

definition chunks_message :: message where
  "chunks_message = (bytes ''GET'', bytes ''/ HTTP/1.1'', [(bytes ''Host'', bytes ''a''), (bytes ''Transfer-Encoding'', bytes ''chunked'')],
     Chunked [bytes ''ab'', bytes ''c''])"

definition a_url :: kgl_url where
  "a_url = url0\<lparr>u_host := Some (bytes ''a''), u_path := Some (bytes ''/''), u_port := 80\<rparr>"

definition a_request :: "u32 \<Rightarrow> int \<Rightarrow> request" where
  "a_request flags left = \<lparr>http_version = 0x101, meth = METH_GET, rq_flags = flags, left_read = left, raw_url = a_url, accept_encoding = 0,
     rq_range = None, rq_precondition = No_Precondition, rq_headers = []\<rparr>"

definition plain_cfg :: head_config where
  "plain_cfg = \<lparr>hc_ssl = False, hc_server_h2 = True, hc_timed_out = False\<rparr>"

lemma a_head:
  assumes "rq = \<lparr>http_version = v, meth = 0, rq_flags = 0, left_read = 0, raw_url = url0\<lparr>u_port := p\<rparr>, accept_encoding = 0,
     rq_range = None, rq_precondition = No_Precondition, rq_headers = []\<rparr>" "v < 0x200"
  shows "\<exists>rq1. request_cb plain_cfg (bytes ''GET'') (bytes ''/ HTTP/1.1'') True rq = (True, rq1) \<and>
    request_cb plain_cfg (bytes ''Host'') (bytes ''a'') False rq1 = (True, a_request RQ_HAS_KEEP_CONNECTION 0)"
proof -
  let ?rq1 = "rq\<lparr>meth := 1, http_version := 0x101, raw_url := url0\<lparr>u_path := Some [47], u_port := p\<rparr>, rq_flags := RQ_HAS_KEEP_CONNECTION\<rparr>"
  have g: "get_method (bytes ''GET'') = 1" by (simp add: get_method_def http_methods_def name_eval)
  have "parse_header False (bytes ''GET'') (bytes ''/ HTTP/1.1'') True rq = Some (True, ?rq1)"
    using assms(2) unfolding assms(1)
    by (simp add: parse_header_def start_parse_def url0_def request_line_def parse_method_def g
        [unfolded bytes_def of_char_def, simplified]
        bytes_def of_char_def lift_url_def parse_url_def parse_path_def kgl_strndup_def parse_http_version_def set_flag_def)
  then have "request_cb plain_cfg (bytes ''GET'') (bytes ''/ HTTP/1.1'') True rq = (True, ?rq1)"
    by (simp add: request_cb_def plain_cfg_def assms(1))
  moreover have "parse_header False (bytes ''Host'') (bytes ''a'') False ?rq1 = Some (True, a_request RQ_HAS_KEEP_CONNECTION 0)"
    by (simp add: parse_header_def field_header_def name_eval assms(1) url0_def parse_host_def lift_url_def parse_url_host_def finish_host_def
        kgl_strndup_def a_request_def a_url_def)
  then have "request_cb plain_cfg (bytes ''Host'') (bytes ''a'') False ?rq1 = (True, a_request RQ_HAS_KEEP_CONNECTION 0)"
    by (simp add: request_cb_def plain_cfg_def)
  ultimately show ?thesis by blast
qed

lemma a_fields:
  "request_cb plain_cfg (bytes ''Content-Length'') (bytes ''2'') False (a_request RQ_HAS_KEEP_CONNECTION 0) =
     (True, a_request (RQ_HAS_KEEP_CONNECTION OR RQ_HAS_CONTENT_LEN) 2)"
  "request_cb plain_cfg (bytes ''Transfer-Encoding'') (bytes ''chunked'') False (a_request RQ_HAS_KEEP_CONNECTION 0) =
     (True, a_request (RQ_HAS_KEEP_CONNECTION OR RQ_INPUT_CHUNKED) (- 1))"
  by (simp_all add: request_cb_def plain_cfg_def parse_header_def field_header_def name_eval a_request_def kgl_atol_def set_flag_def)

lemma a_messages:
  "messages_make plain_cfg (ks_rq (http_sink_new cn)) [hi_message, chunks_message]
     [a_request (RQ_HAS_KEEP_CONNECTION OR RQ_HAS_CONTENT_LEN) 2, a_request (RQ_HAS_KEEP_CONNECTION OR RQ_INPUT_CHUNKED) (- 1)]"
proof -
  let ?r1 = "a_request (RQ_HAS_KEEP_CONNECTION OR RQ_HAS_CONTENT_LEN) 2" and ?r2 = "a_request (RQ_HAS_KEEP_CONNECTION OR RQ_INPUT_CHUNKED) (- 1)"
  have new: "ks_rq (http_sink_new cn) = \<lparr>http_version = 0, meth = 0, rq_flags = 0, left_read = 0, raw_url = url0\<lparr>u_port := 0\<rparr>, accept_encoding = 0,
     rq_range = None, rq_precondition = No_Precondition, rq_headers = []\<rparr>"
    by (simp add: http_sink_new_def url0_def)
  have again: "next_request ?r1 = \<lparr>http_version = 0x101, meth = 0, rq_flags = 0, left_read = 0, raw_url = url0\<lparr>u_port := 80\<rparr>, accept_encoding = 0,
     rq_range = None, rq_precondition = No_Precondition, rq_headers = []\<rparr>"
    by (simp add: next_request_def a_request_def a_url_def)
  have ok: "name_ok (bytes ''GET'')" "value_ok (bytes ''/ HTTP/1.1'')" "name_ok (bytes ''Host'')" "value_ok (bytes ''a'')"
    "name_ok (bytes ''Content-Length'')" "value_ok (bytes ''2'')" "name_ok (bytes ''Transfer-Encoding'')" "value_ok (bytes ''chunked'')"
    by (simp_all add: name_ok_def value_ok_def bytes_def of_char_def)
  have len: "length (bytes s) = length s" for s by (simp add: bytes_def)
  have nz: "bytes ''/ HTTP/1.1'' \<noteq> []" by (simp add: bytes_def)
  from a_head [OF new] have "head_starts plain_cfg (bytes ''GET'') (bytes ''/ HTTP/1.1'') [(bytes ''Host'', bytes ''a''), (bytes ''Content-Length'', bytes ''2'')]
      (ks_rq (http_sink_new cn)) ?r1"
    using ok nz by (auto simp: head_starts_def a_fields len MAX_HTTP_HEAD_SIZE_def)
  moreover from a_head [OF again] have "head_starts plain_cfg (bytes ''GET'') (bytes ''/ HTTP/1.1'') [(bytes ''Host'', bytes ''a''), (bytes ''Transfer-Encoding'', bytes ''chunked'')]
      (next_request ?r1) ?r2"
    using ok nz by (auto simp: head_starts_def a_fields len MAX_HTTP_HEAD_SIZE_def)
  moreover have "request_url (raw_url (a_request f n)) \<noteq> None" for f n
    by (simp add: a_request_def request_url_def a_url_def)
  moreover have "bytes ''ab'' \<noteq> []" "bytes ''c'' \<noteq> []" by (simp_all add: bytes_def)
  ultimately show ?thesis
    by (simp add: hi_message_def chunks_message_def rq_has_def len) (simp add: a_request_def len)
qed

theorem pipelined_requests_served_witness:
  "\<exists>log s'. http_sink_start \<lparr>e_parse = \<lambda>t. (plain_cfg, 32), e_size = \<lambda>t. 4096, e_altsvc = None, e_writev = wire_writev\<rparr>
      (\<lambda>rq. [1, 2, 1, 1], echo_response wire_writev wire_write)
      [take 30 (message_text hi_message), drop 30 (message_text hi_message) @ message_text chunks_message] (http_sink_new []) = Some (log, [], s') \<and>
    list_all2 (message_served (\<lambda>rq. [1, 2, 1, 1])) (zip [hi_message, chunks_message]
      [a_request (RQ_HAS_KEEP_CONNECTION OR RQ_HAS_CONTENT_LEN) 2, a_request (RQ_HAS_KEEP_CONNECTION OR RQ_INPUT_CHUNKED) (- 1)]) log \<and>
    h_conn (ks_resp s') = [] @ replies echo_reply log"
proof (rule pipelined_requests_served [OF wire_echo.http_application_axioms _ _ _ _ _ a_messages])
  show "[] \<notin> set [take 30 (message_text hi_message), drop 30 (message_text hi_message) @ message_text chunks_message]"
    by (simp add: hi_message_def chunks_message_def bytes_def)
qed (use wire_ok in \<open>auto simp: plain_cfg_def plan_ok_def room_ok_def echo_good_def a_request_def rq_has_def hi_message_def chunks_message_def bytes_def\<close>)

section \<open>What goes wrong\<close>

text \<open>
  A request that expects the interim response, of which the application read nothing: its body is not skipped, so if
  the client sends it all the same, it is parsed as the next head.
\<close>

lemma unread_expected_body_parsed:
  assumes "rq_has RQ_HAVE_EXPECT (ks_rq s)" "rq_has RQ_HAS_KEEP_CONNECTION (ks_rq s)" "\<not> rq_has (RQ_CONNECTION_CLOSE OR RQ_CONNECTION_UPGRADE) (ks_rq s)"
    and "h_rc (ks_resp s) = []" "ks_dechunk s = None" "ks_buf s = body @ rest" "body \<noteq> []" "left_read (ks_rq s) = int (length body)"
  shows "\<exists>s1 s2. start_pipe_line net s = Some (True, net, s1) \<and> next_head room net s1 = Some (net, s2) \<and> ks_buf s2 = body @ rest"
  using assms by (auto simp: start_pipe_line_def Let_def next_head_def reset_pipeline_def save_point_def begin_request_def)

text \<open>
  A length that comes after the chunked coding limits what the application can read of the decoded body; then the rest of
  the chunks is not skipped but parsed as the next head.
\<close>

lemma chunks_behind_length_parsed:
  assumes "left_read (ks_rq s) = 0" "rq_has RQ_HAS_KEEP_CONNECTION (ks_rq s)" "\<not> rq_has (RQ_CONNECTION_CLOSE OR RQ_CONNECTION_UPGRADE) (ks_rq s)"
    and "h_rc (ks_resp s) = []" "ks_dechunk s = Some d" "dc_buf d \<noteq> []"
  shows "\<exists>s1 s2. start_pipe_line net s = Some (True, net, s1) \<and> next_head room net s1 = Some (net, s2) \<and> ks_buf s2 = dc_buf d"
  using assms by (auto simp: start_pipe_line_def Let_def next_head_def reset_pipeline_def save_point_def begin_request_def)

lemma length_limits_chunks:
  assumes "left_read (ks_rq s) = int n" "0 < n" "\<not> rq_has RQ_HAVE_EXPECT (ks_rq s)" "\<not> rq_has RQ_CONNECTION_UPGRADE (ks_rq s)"
    and "ks_dechunk s = Some d" "ctx_read n d net = (Piece p, d', net')" "length p = n"
  shows "\<exists>s'. sink_read writev altsvc n net s = Some (Some p, net', s') \<and> left_read (ks_rq s') = 0 \<and> ks_dechunk s' = Some d'"
proof -
  let ?s = "s\<lparr>ks_rq := set_flag RQ_HAS_READ_POST (ks_rq s)\<rparr>"
  have "internal_read n net ?s = Some (Some p, net', ?s\<lparr>ks_dechunk := Some d'\<rparr>)" using assms(5,6) by (simp add: internal_read_def)
  from sink_read_plain [OF assms(3,4) _ this, where n = n and writev = writev and altsvc = altsvc] assms(1,2,7) show ?thesis by auto
qed

text \<open>
  When the application reads again behind the end of a chunked body and nothing has arrived yet, the decoder waits for octets
  of the next request, and reports an error if the stream ends; when something arrives, an assertion fails (the lemma
  \<open>read_behind_chunks_aborts\<close> of \<^verbatim>\<open>KHttp1Server\<close>).
\<close>

lemma read_behind_chunks_waits:
  assumes "left_read (ks_rq s) = 0" "\<not> rq_has RQ_HAVE_EXPECT (ks_rq s)" "\<not> rq_has RQ_CONNECTION_UPGRADE (ks_rq s)"
    and "ks_dechunk s = Some d" "dc_buf d = []" "dc_chunk d = KHTTPD_CHUNK_STATUS_IS_END"
  shows "\<exists>s'. sink_read writev altsvc n [] s = Some (None, [], s')"
proof -
  let ?s = "s\<lparr>ks_rq := set_flag RQ_HAS_READ_POST (ks_rq s)\<rparr>"
  have "internal_read 0 [] ?s = Some (None, [], ?s\<lparr>ks_dechunk := Some d\<rparr>)" using assms(4,5) by (simp add: internal_read_def ctx_read_def)
  from sink_read_plain [OF assms(2,3) _ this, where n = n and writev = writev and altsvc = altsvc] assms(1) show ?thesis by auto
qed

text \<open>A request without a host, allowed in HTTP/1.0, is not answered: the application is not called and the connection ends.\<close>

lemma no_host_no_answer:
  assumes "u_host (raw_url (ks_rq s)) = None" "ks_url s = None"
  shows "\<exists>s'. khttp_server_new_request writev altsvc app net s = Some ([], net, s') \<and> start_pipe_line net s' = Some (False, net, s') \<and>
    ks_resp s' = ks_resp s"
  using assms by (auto simp: khttp_server_new_request_def Let_def request_url_def start_pipe_line_def rq_has_def set_flag_def bit.conj_disj_distrib2 or_eq_0_iff)

text \<open>A line that does not end makes the buffer grow as long as it is sent within the time: the limit on the head counts complete lines.\<close>

lemma endless_line_continues:
  assumes "10 \<notin> set (ks_buf s)" "\<not> hc_timed_out (fst cfg)"
  shows "\<exists>s'. parse_buffer cfg parser0 s = (Head_Continue, parser0, s') \<and> ks_buf s' = ks_buf s"
proof -
  have "memchr (ks_buf s) 10 = None" using assms(1) by (auto simp: first_pos_None)
  then have "khttp_parse parser0 (ks_buf s) (snd cfg) = (kgl_parse_continue, parser0, ks_buf s, rs0)" by (subst khttp_parse.simps) simp
  then have "sink_parse (fst cfg) parser0 (ks_buf s) (snd cfg) (ks_rq s) = (Head_Continue, parser0, ks_buf s, ks_rq s)"
    using assms(2) by (subst sink_parse.simps) (simp add: parser0_def MAX_HTTP_HEAD_SIZE_def)
  then show ?thesis by (simp add: parse_buffer_def Let_def)
qed

text \<open>
  The version is kept for the next request, so behind an HTTP/1.1 request a first line with the name of a
  pseudo header passes for one.
\<close>

lemma pseudo_first_line:
  assumes "http_version rq > 0x100"
  shows "parse_header False (bytes '':path'') val True (next_request rq) = pseudo_header (bytes '':path'') val (next_request rq)"
  using assms by (simp add: parse_header_def start_parse_def next_request_def bytes_def of_char_def)

end
