(* ===== verification/Spec2Isabelle.thy ===== *)
theory Spec2Isabelle
  imports KHuffEncode KHttp2Write KPrintf KHttpTime KText KBase64 KUrl KHeaderList KHttp2Flow KHttp2Block KHttp2Read KHttp2Upstream KStreams KAutoArray KSockPool KXmlDocument KSerial KProxyProtocol KExchange KHttp1Pipeline
begin

text \<open>
  Verification of khttpd, an HTTP server and client library in C++.

  \<^bold>\<open>The program.\<close> khttpd sits on \<^verbatim>\<open>kasync\<close>, an I/O library with selectors, fibers and buffers that is
  not part of the repository. A server accepts a connection, reads an optional PROXY header
  (\<^verbatim>\<open>KProxy.cpp\<close>) and hands the connection to a sink: \<^verbatim>\<open>KHttpSink\<close> for HTTP/1, \<^verbatim>\<open>KHttp2\<close> with one
  \<^verbatim>\<open>KHttp2Sink\<close> per stream for HTTP/2, \<^verbatim>\<open>KHttp3Sink\<close> for HTTP/3. Every sink feeds the fields of a head to
  \<^verbatim>\<open>KSink::parse_header\<close>, which fills a request, and sends the response the application gives it. A
  client takes an upstream from a pool (\<^verbatim>\<open>KPoolableSocketContainer\<close>, \<^verbatim>\<open>KSockPoolHelper\<close>): \<^verbatim>\<open>KHttpUpstream\<close>
  for HTTP/1 or \<^verbatim>\<open>KHttp2Upstream\<close> for a stream of an HTTP/2 connection. Below are shared parts: HPACK
  with its Huffman code, frames, write and receive buffers, the chunked coding, dates, URLs, Base64,
  formatted printing, strings and streams. \<^verbatim>\<open>davlib\<close> has a WebDAV client with an XML parser.

  \<^bold>\<open>The theories\<close>, in the order of the program's layers. Files are under \<^verbatim>\<open>src/src\<close>, \<^verbatim>\<open>src/include\<close> and
  \<^verbatim>\<open>src/davlib\<close>. Definitions have the names of the functions they model; a pointer into a buffer is the list of
  the octets from there on, an object is a record, a method takes the record and returns it updated,
  a loop is a recursive function with a proof that it ends, and \<open>None\<close> or a value for undefined
  behaviour stands for a failed assertion, a null pointer or a read outside of a buffer. The build does
  not define \<^verbatim>\<open>NDEBUG\<close>, so an \<^verbatim>\<open>assert\<close> that fails ends the process: the assertions are part of the definitions,
  and a theorem that says what a function returns says that they hold. \<^verbatim>\<open>kassert\<close> is a macro of \<^verbatim>\<open>kasync\<close>
  and left out, but for the pointers that are followed right behind it.

  \<^item> \<^verbatim>\<open>KPrelude\<close>: machine types, bit strings, lemmas on lists and words.
  \<^item> \<^verbatim>\<open>KText\<close>, \<^verbatim>\<open>KBase64\<close>, \<^verbatim>\<open>KPrintf\<close>, \<^verbatim>\<open>KHttpTime\<close>, \<^verbatim>\<open>KUrl\<close>: \<^verbatim>\<open>KHttpLib.cpp\<close>, \<^verbatim>\<open>KHttpLib.h\<close>, \<^verbatim>\<open>KUrl.h\<close>. The
    comparisons are orders (locale \<open>tree_order\<close>), printing stays in its buffer, dates, URLs and Base64 are
    read back from what is printed, and the date parser reads nothing behind its text.
  \<^item> \<^verbatim>\<open>KStreams\<close>: \<^verbatim>\<open>KStream.h\<close>, \<^verbatim>\<open>KAutoBuffer\<close>, \<^verbatim>\<open>KStringBuf\<close>. Locales \<open>wstream\<close> and \<open>rstream\<close> state what a
    stream promises; the growing string is modelled with its memory and, made with a power of two, never leaves it.
  \<^item> \<^verbatim>\<open>KAutoArray\<close>: \<^verbatim>\<open>KAutoArray.h\<close>, an array with an inline first element, with its union and its
    capacity, refined to a list and to the knowledge where a capacity left behind fails an assertion.
  \<^item> \<^verbatim>\<open>KHuffEncodeTable\<close>, \<^verbatim>\<open>KHuffDecodeTable\<close>, \<^verbatim>\<open>KHuffCode\<close>, \<^verbatim>\<open>KHuffman\<close>, \<^verbatim>\<open>KHuffEncode\<close>: the tables of \<^verbatim>\<open>KHuffEncode.cpp\<close>
    and \<^verbatim>\<open>KHuffDecode.cpp\<close>, transcribed in full, the code tree they are checked against, the decoder, which
    accepts exactly the padded sequences of code words, and the encoder, which it inverts.
  \<^item> \<^verbatim>\<open>KHpack\<close>: \<^verbatim>\<open>KHttp2Table.cpp\<close>, the ring storage of the dynamic table, refined to a list with
    evictions (locale \<open>header_table\<close>).
  \<^item> \<^verbatim>\<open>KSendBuffer\<close>, \<^verbatim>\<open>KHttp2Frame\<close>, \<^verbatim>\<open>KHttp2Write\<close>: the buffers of streams and connections, byte queues
    (locale \<open>byte_queue\<close>), the frame formats and the header block writer.
  \<^item> \<^verbatim>\<open>KHttp2Stream\<close>, \<^verbatim>\<open>KHttp2Flow\<close>: streams, windows and events of \<^verbatim>\<open>KHttp2.cpp\<close>; the node index is a map
    (locale \<open>node_store\<close>). The operations are the steps of an inductive relation. In every reachable state
    flow control is kept, and no writer waits while its windows are open.
  \<^item> \<^verbatim>\<open>KHttp2Recv\<close>, \<^verbatim>\<open>KHttp2Block\<close>, \<^verbatim>\<open>KHttp2Read\<close>: the frame handlers of a server. A HEADERS frame, in any
    representation of its fields, starts the request it means, and the read loop ends.
  \<^item> \<^verbatim>\<open>KRequest\<close>, \<^verbatim>\<open>KHttp1\<close>, \<^verbatim>\<open>KHeaderList\<close>: \<^verbatim>\<open>KSink.h\<close>, \<^verbatim>\<open>KRequest.h\<close>, \<^verbatim>\<open>KHttpParser.h\<close>, \<^verbatim>\<open>KHttpSink.h\<close>,
    \<^verbatim>\<open>KHttpHeaderManager.h\<close>: heads of requests, and the list of their fields.
  \<^item> \<^verbatim>\<open>KDechunk\<close>, \<^verbatim>\<open>KHttp1Response\<close>: the chunked coding and HTTP/1 responses. A decoder must not be called again
    behind the end of a body or a failure, a response must not be longer than was declared.
  \<^item> \<^verbatim>\<open>KHttp1Server\<close>, \<^verbatim>\<open>KHttp1Pipeline\<close>: \<^verbatim>\<open>KHttpSink::start\<close>, the loop over the requests of a connection, with
    \<^verbatim>\<open>KSink::read\<close> and the skipping of bodies. Locale \<open>http_application\<close> states what a server relies on of an
    application; a stream of requests is then served in order, whatever of the bodies the application reads, as long
    as it does not read behind the end.
  \<^item> \<^verbatim>\<open>KHttpUpstream\<close>, \<^verbatim>\<open>KHttp2Upstream\<close>, \<^verbatim>\<open>KSockPool\<close>: the clients, the pool of idle connections with its
    reference counts, health and settings.
  \<^item> \<^verbatim>\<open>KExchange\<close> and this theory: whole responses from a server to a client over HTTP/1. Requests from
    a client to a server are in \<^verbatim>\<open>KHttpUpstream\<close> and, over HTTP/2, in \<^verbatim>\<open>KHttp2Upstream\<close>.
  \<^item> \<^verbatim>\<open>KProxyProtocol\<close>, \<^verbatim>\<open>KSerial\<close>: the PROXY header, and structured output as JSON and XML.
  \<^item> \<^verbatim>\<open>KXml\<close>, \<^verbatim>\<open>KXmlDocument\<close>: the XML parser of \<^verbatim>\<open>davlib\<close>, its tree and its printer.

  \<^bold>\<open>What the environment is.\<close> The network is a parameter: a list of the pieces that reads deliver, or
  a function that writes, with the documented behaviour as a hypothesis (what is written is a prefix
  of what was given). Allocation is a parameter where the code checks it. Memory that is not
  initialised is an arbitrary value (\<open>junk\<close>, \<open>env_junk\<close>). The clock is a parameter.

  \<^bold>\<open>Bounds and fuel.\<close> Loops have termination proofs, with one exception: \<open>read_loop\<close> of \<^verbatim>\<open>KHttp2Recv\<close>
  takes a number of rounds, and \<open>on_read_result_returns\<close> shows that three rounds for each octet and
  three more are enough. \<open>copy_read_buffer\<close> and three loops that do not end on every input
  are \<open>partial_function\<close>s, and what is claimed is that they return. Widths are kept where they matter:
  windows, chunk sizes, the 16-bit lengths of response buffers, counters and life times.

  \<^bold>\<open>Findings.\<close> Where the code does not do what it means to, a lemma proves what it does; the
  manifest lists them. Among them: a header block of more than one HTTP/2 frame is sent with a zeroed
  frame header, the Huffman encoder loses half of every full 64-bit register, and PROXY
  headers with the standard family octet are refused. Some assertions can be failed from outside: by an invalid size
  line of a chunked body (\<open>failed_chunks_abort\<close>), by a second \<^verbatim>\<open>:path\<close> of an HTTP/2 request
  (\<open>repeated_path_aborts\<close>) and by a peer that allows frames of 65536 octets (\<open>file_frame_aborts\<close>).

  \<^bold>\<open>Not modelled.\<close> HTTP/3 (\<^verbatim>\<open>KHttp3*\<close>) is callbacks of the QUIC library \<^verbatim>\<open>lsquic\<close>, which is not part of the
  repository. Set-up of connections (\<^verbatim>\<open>KPreRequest\<close>, \<^verbatim>\<open>KHttpServer\<close>), the plain TCP sinks and upstreams, the
  transfer of an upstream between threads (\<^verbatim>\<open>KTsUpstream\<close>), mutexes and condition variables are calls of the I/O
  library. \<^verbatim>\<open>KMap\<close> wraps its red-black tree. The WebDAV client is a sequence of network requests. In a
  client's HTTP/2 connection the way of a response from the frame reader to the waiting fiber is not
  modelled. \<^verbatim>\<open>KHttpParser.cpp\<close> is disabled by the preprocessor.
\<close>

section \<open>Properties across components\<close>

text \<open>
  C12: a whole response of a declared length. A server that sets a status, sends fields and a body
  in pieces and ends the request, over a connection that takes everything, keeps the connection; and
  a client that reads what arrives, however the network cuts it, gets the status line, the fields in
  order and the length of the body, and is left with exactly the body to read.
\<close>

theorem declared_response_exchange:
  assumes "writes_prefix writev sent" "never_fails writev" "takes_prefix write sent" "\<forall>c str. str \<noteq> [] \<longrightarrow> 0 < fst (write c str)"
    and "fresh_sink k" "sent (h_conn k) = []" "map_of status_lines status \<noteq> None" "\<not> is_status_code_no_body status"
    and "\<forall>h \<in> set hs. name_ok (fst h) \<and> value_ok (snd h) \<and> length (field_text h) < 65536"
    and "len = int (length (concat ds))" "len < 2 ^ 63"
    and "int (length (reason status) + 11 + length (head_text (hs @ [length_field len]))) \<le> MAX_HTTP_HEAD_SIZE"
  shows "\<exists>k1 k2 k3. start_response_body writev False None len (response_fields hs (snd (response_status status k))) = Some (True, k1) \<and>
    write_bodies writev write ds k1 = Some k2 \<and> end_request writev k2 = Some k3 \<and> \<not> has_flag RQ_CONNECTION_CLOSE k3 \<and>
    (\<forall>net us. net_octets net = sent (h_conn k3) \<and> (\<forall>r \<in> set net. nr_got r \<noteq> [] \<and> \<not> nr_late r) \<and> read_buffer us = None \<longrightarrow>
      (\<exists>net' us'. us_read_header collect net [] us =
        Some (Inr (net', (bytes ''HTTP/1.1'', reason status) # hs @ [length_field len], us')) \<and> pending net' us' = concat ds))"
  using assms by (rule declared_exchange)

theorem declared_response_exchange_witness:
  "\<exists>k1 k2 k3. start_response_body wire_writev False None 5
      (response_fields [(bytes ''Server'', bytes ''x'')] (snd (response_status 200 hello_sink))) = Some (True, k1) \<and>
    write_bodies wire_writev wire_write [[97, 98], [99, 100, 101]] k1 = Some k2 \<and> end_request wire_writev k2 = Some k3 \<and>
    \<not> has_flag RQ_CONNECTION_CLOSE k3 \<and>
    (\<forall>net. \<forall>us :: unit http_upstream. net_octets net = h_conn k3 \<and> (\<forall>r \<in> set net. nr_got r \<noteq> [] \<and> \<not> nr_late r) \<and> read_buffer us = None \<longrightarrow>
      (\<exists>net' us'. us_read_header collect net [] us =
        Some (Inr (net', (bytes ''HTTP/1.1'', reason 200) # [(bytes ''Server'', bytes ''x'')] @ [length_field 5], us')) \<and>
        pending net' us' = concat [[97, 98], [99, 100, 101]]))"
  by (rule declared_response_exchange [OF wire_ok hello_sink_fresh hello_head(1,2,4), where len = 5])
    (simp_all add: hello_head(3) length_field_def decimal.simps bytes_def MAX_HTTP_HEAD_SIZE_def)

text \<open>
  C11: a whole response of unknown length. The server announces the chunked coding and sends the
  pieces as chunks; the client, however the network cuts what arrives, gets the status line and the
  fields, and what it is left with is decoded by the chunk decoder, with reads of any sizes, into
  exactly the body.
\<close>

theorem chunked_response_exchange:
  assumes "writes_prefix writev sent" "never_fails writev" "fresh_sink k" "sent (h_conn k) = []"
    and "map_of status_lines status \<noteq> None" "\<not> is_status_code_no_body status"
    and "\<forall>h \<in> set hs. name_ok (fst h) \<and> value_ok (snd h) \<and> length (field_text h) < 65536"
    and "int (length (reason status) + 11 + length (head_text (hs @ [length_field (- 1)]))) \<le> MAX_HTTP_HEAD_SIZE"
    and "\<forall>d \<in> set ds. d \<noteq> [] \<and> length d \<le> 0x1FFFFFFF"
  shows "\<exists>k1 k2 k3. start_response_body writev False None (- 1) (response_fields hs (snd (response_status status k))) = Some (True, k1) \<and>
    write_pieces writev ds k1 = Some k2 \<and> end_request writev k2 = Some k3 \<and>
    (\<forall>net us. net_octets net = sent (h_conn k3) \<and> (\<forall>r \<in> set net. nr_got r \<noteq> [] \<and> \<not> nr_late r) \<and> read_buffer us = None \<longrightarrow>
      (\<exists>net' us'. us_read_header collect net [] us =
        Some (Inr (net', (bytes ''HTTP/1.1'', reason status) # hs @ [length_field (- 1)], us')) \<and>
        (\<forall>ns body. concat body = pending net' us' \<and> [] \<notin> set body \<and> (\<forall>n \<in> set ns. room_ok n) \<and> length (concat ds) < length ns \<longrightarrow>
           (\<exists>c' body'. read_all ns \<lparr>dc_chunk = KHTTPD_CHUNK_STATUS_READ_SIZE, dc_buf = [], dc_trailer = []\<rparr> body =
              (concat ds, Some Read_End, c', body')))))"
  using assms by (rule chunked_exchange)

theorem chunked_response_exchange_witness:
  "\<exists>k1 k2 k3. start_response_body wire_writev False None (- 1)
      (response_fields [(bytes ''Server'', bytes ''x'')] (snd (response_status 200 hello_sink))) = Some (True, k1) \<and>
    write_pieces wire_writev [[97, 98], [99]] k1 = Some k2 \<and> end_request wire_writev k2 = Some k3 \<and>
    (\<forall>net. \<forall>us :: unit http_upstream. net_octets net = h_conn k3 \<and> (\<forall>r \<in> set net. nr_got r \<noteq> [] \<and> \<not> nr_late r) \<and> read_buffer us = None \<longrightarrow>
      (\<exists>net' us'. us_read_header collect net [] us =
        Some (Inr (net', (bytes ''HTTP/1.1'', reason 200) # [(bytes ''Server'', bytes ''x'')] @ [length_field (- 1)], us')) \<and>
        (\<forall>ns body. concat body = pending net' us' \<and> [] \<notin> set body \<and> (\<forall>n \<in> set ns. room_ok n) \<and> length (concat [[97 :: byte, 98], [99]]) < length ns \<longrightarrow>
           (\<exists>c' body'. read_all ns \<lparr>dc_chunk = KHTTPD_CHUNK_STATUS_READ_SIZE, dc_buf = [], dc_trailer = []\<rparr> body =
              (concat [[97, 98], [99]], Some Read_End, c', body')))))"
  by (rule chunked_response_exchange [OF wire_ok(1,2) hello_sink_fresh hello_head(1,2,4)])
    (simp_all add: hello_head(3) length_field_def bytes_def MAX_HTTP_HEAD_SIZE_def)

end
